(* ===== verification/Wgpu_Prelude.thy ===== *)
theory Wgpu_Prelude
  imports Main "HOL-Library.Word" "HOL-Library.Monad_Syntax"
begin

text \<open>
  Shared vocabulary of the development: the machine integer types, half open ranges
  (\<open>core::ops::Range\<close>), the operations of the Rust standard library on vectors that the
  modelled code uses, and the lemma collections the component theories simplify with.

  Conventions used by every theory. A panic of the source is the value \<open>None\<close> of an
  \<open>option\<close>; a \<open>Result\<close> is a sum with the error on the left. A \<open>Vec\<close> or a slice is a
  list. An integer whose wrap-around or whose overflow check matters is a word; an index into
  a vector (\<open>usize\<close>) is a \<open>nat\<close>.
\<close>

named_theorems range_simps \<open>membership and bounds of half open ranges\<close>
named_theorems vec_simps \<open>the vector operations of the standard library\<close>

type_synonym u8 = "8 word"
type_synonym u16 = "16 word"
type_synonym u32 = "32 word"
type_synonym u64 = "64 word"
type_synonym i32 = "32 word"

section \<open>Half open ranges\<close>

datatype 'i range_t = Range (rstart: 'i) (rend: 'i)

text \<open>The set of indices a range stands for (\<open>Range::contains\<close>).\<close>

definition iv :: "'i::linorder range_t \<Rightarrow> 'i set" where
  "iv r = {rstart r..<rend r}"

lemma mem_iv [range_simps, simp]: "x \<in> iv r \<longleftrightarrow> rstart r \<le> x \<and> x < rend r"
  by (simp add: iv_def)

lemma iv_empty [range_simps]: "iv r = {} \<longleftrightarrow> \<not> rstart r < rend r"
  by (simp add: iv_def)

definition range_inter :: "'i::linorder range_t \<Rightarrow> 'i range_t \<Rightarrow> 'i range_t" where
  "range_inter a b = Range (max (rstart a) (rstart b)) (min (rend a) (rend b))"

lemma iv_range_inter [range_simps]: "iv (range_inter a b) = iv a \<inter> iv b"
  by (auto simp: range_inter_def iv_def)

section \<open>Vectors\<close>

text \<open>
  \<open>slice::get\<close>, \<open>slice::partition_point\<close> (documented to return the first index at which
  the predicate fails, when the slice is partitioned), \<open>slice::iter().position\<close>,
  \<open>Vec::insert\<close>, \<open>Vec::remove\<close>, \<open>Vec::drain\<close> (the vector that is left) and
  \<open>Vec::swap_remove\<close>.
\<close>

definition vec_get :: "'a list \<Rightarrow> nat \<Rightarrow> 'a option" where
  "vec_get xs i = (if i < length xs then Some (xs ! i) else None)"

definition partition_point :: "('a \<Rightarrow> bool) \<Rightarrow> 'a list \<Rightarrow> nat" where
  "partition_point P xs = length (takeWhile P xs)"

fun position :: "('a \<Rightarrow> bool) \<Rightarrow> 'a list \<Rightarrow> nat option" where
  "position P [] = None"
| "position P (x # xs) = (if P x then Some 0 else map_option Suc (position P xs))"

definition vec_insert :: "nat \<Rightarrow> 'a \<Rightarrow> 'a list \<Rightarrow> 'a list" where
  "vec_insert i x xs = take i xs @ x # drop i xs"

definition vec_remove :: "nat \<Rightarrow> 'a list \<Rightarrow> 'a list" where
  "vec_remove i xs = take i xs @ drop (Suc i) xs"

definition vec_drain :: "nat \<Rightarrow> nat \<Rightarrow> 'a list \<Rightarrow> 'a list" where
  "vec_drain a b xs = take a xs @ drop b xs"

definition swap_remove :: "nat \<Rightarrow> 'a list \<Rightarrow> 'a list" where
  "swap_remove i xs = butlast (xs[i := last xs])"

lemma vec_get_Some [vec_simps]: "vec_get xs i = Some x \<longleftrightarrow> i < length xs \<and> xs ! i = x"
  by (auto simp: vec_get_def)

lemma vec_get_None [vec_simps]: "vec_get xs i = None \<longleftrightarrow> length xs \<le> i"
  by (auto simp: vec_get_def)

lemma vec_get_append_length [vec_simps, simp]: "vec_get (xs @ y # ys) (length xs) = Some y"
  by (simp add: vec_get_def)

lemma vec_get_append_Suc_length [vec_simps, simp]:
  "vec_get (xs @ y # ys) (Suc (length xs)) = vec_get ys 0"
  by (cases ys) (auto simp: vec_get_def nth_append)

lemma vec_get_append_end [vec_simps, simp]: "vec_get xs (length xs) = None"
  by (simp add: vec_get_def)

lemma vec_insert_append [vec_simps, simp]:
  "vec_insert (length xs) y (xs @ ys) = xs @ y # ys"
  by (simp add: vec_insert_def)

lemma vec_remove_append [vec_simps, simp]:
  "vec_remove (length xs) (xs @ y # ys) = xs @ ys"
  by (simp add: vec_remove_def)

lemma vec_remove_append_Suc [vec_simps, simp]:
  "vec_remove (Suc (length xs)) (xs @ x # y # ys) = xs @ x # ys"
  by (simp add: vec_remove_def)

lemma partition_point_split [vec_simps]:
  assumes "\<forall>x\<in>set xs. P x" and "ys \<noteq> [] \<Longrightarrow> \<not> P (hd ys)"
  shows "partition_point P (xs @ ys) = length xs"
proof -
  have "takeWhile P (xs @ ys) = xs @ takeWhile P ys"
    using assms(1) by (simp add: takeWhile_append)
  moreover have "takeWhile P ys = []"
    using assms(2) by (cases ys) auto
  ultimately show ?thesis by (simp add: partition_point_def)
qed

lemma take_while_holds: "\<forall>x\<in>set (takeWhile P xs). P x"
  by (auto dest: set_takeWhileD)

lemma drop_while_fails: "dropWhile P xs \<noteq> [] \<Longrightarrow> \<not> P (hd (dropWhile P xs))"
  by (rule hd_dropWhile)

lemma position_Some_split:
  "position P xs = Some i \<Longrightarrow> \<exists>ys x zs. xs = ys @ x # zs \<and> length ys = i \<and> P x \<and> (\<forall>y\<in>set ys. \<not> P y)"
proof (induction xs arbitrary: i)
  case Nil
  then show ?case by simp
next
  case (Cons a xs)
  show ?case
  proof (cases "P a")
    case True
    with Cons.prems have "i = 0" by simp
    with True show ?thesis by (intro exI [of _ "[]"]) auto
  next
    case False
    with Cons.prems obtain j where j: "position P xs = Some j" and i: "i = Suc j" by auto
    from Cons.IH [OF j] obtain ys x zs where
      "xs = ys @ x # zs" "length ys = j" "P x" "\<forall>y\<in>set ys. \<not> P y" by blast
    with False i show ?thesis by (intro exI [of _ "a # ys"]) auto
  qed
qed

lemma position_None: "position P xs = None \<longleftrightarrow> (\<forall>x\<in>set xs. \<not> P x)"
  by (induction xs) auto

section \<open>Results and checked arithmetic\<close>

text \<open>\<open>Result::and_then\<close> (the \<open>?\<close> operator), \<open>Option::ok_or\<close>, \<open>checked_add\<close>, \<open>checked_sub\<close> and
  \<open>checked_mul\<close> of the standard library.\<close>

definition and_then :: "'e + 'a \<Rightarrow> ('a \<Rightarrow> 'e + 'b) \<Rightarrow> 'e + 'b" where
  "and_then r k = (case r of Inl e \<Rightarrow> Inl e | Inr x \<Rightarrow> k x)"

definition ok_or :: "'e \<Rightarrow> 'a option \<Rightarrow> 'e + 'a" where
  "ok_or e x = (case x of None \<Rightarrow> Inl e | Some y \<Rightarrow> Inr y)"

definition checked_add :: "'a::len word \<Rightarrow> 'a word \<Rightarrow> 'a word option" where
  "checked_add x y = (if unat x + unat y < 2 ^ LENGTH('a) then Some (x + y) else None)"

definition checked_sub :: "'a::len word \<Rightarrow> 'a word \<Rightarrow> 'a word option" where
  "checked_sub x y = (if y \<le> x then Some (x - y) else None)"

definition checked_mul :: "'a::len word \<Rightarrow> 'a word \<Rightarrow> 'a word option" where
  "checked_mul x y = (if unat x * unat y < 2 ^ LENGTH('a) then Some (x * y) else None)"

lemma and_then_simps [simp]: "and_then (Inl e) k = Inl e" "and_then (Inr x) k = k x"
  by (simp_all add: and_then_def)

lemma and_then_Inr: "and_then r k = Inr y \<longleftrightarrow> (\<exists>x. r = Inr x \<and> k x = Inr y)"
  by (cases r) simp_all

lemma and_then_Inl: "and_then r k = Inl e \<longleftrightarrow> r = Inl e \<or> (\<exists>x. r = Inr x \<and> k x = Inl e)"
  by (cases r) simp_all

lemma ok_or_simps [simp]: "ok_or e None = Inl e" "ok_or e (Some x) = Inr x"
  by (simp_all add: ok_or_def)

lemma ok_or_Inr [simp]: "ok_or e x = Inr y \<longleftrightarrow> x = Some y"
  by (cases x) (simp_all add: ok_or_def)

lemma ok_or_Inl [simp]: "ok_or e x = Inl e' \<longleftrightarrow> x = None \<and> e' = e"
  by (cases x) (auto simp: ok_or_def)

lemma checked_add_Some:
  "checked_add x y = Some z \<longleftrightarrow> unat x + unat y < 2 ^ LENGTH('a) \<and> unat z = unat x + unat y"
  for x y z :: "'a::len word"
  by (auto simp: checked_add_def unat_word_ariths word_unat_eq_iff)

lemma checked_mul_Some:
  "checked_mul x y = Some z \<longleftrightarrow> unat x * unat y < 2 ^ LENGTH('a) \<and> unat z = unat x * unat y"
  for x y z :: "'a::len word"
  by (auto simp: checked_mul_def unat_word_ariths word_unat_eq_iff)

lemma checked_sub_Some:
  "checked_sub x y = Some z \<longleftrightarrow> unat y \<le> unat x \<and> unat z = unat x - unat y"
  for x y z :: "'a::len word"
  by (auto simp: checked_sub_def word_le_nat_alt unat_sub word_unat_eq_iff)

section \<open>Widths\<close>

lemma unat_u64: "unat (w :: u64) < 2 ^ 64" and unat_u32: "unat (v :: u32) < 2 ^ 64"
  using unsigned_less [where ?'a = nat, of w] unsigned_less [where ?'a = nat, of v] by simp_all

lemma unat_ucast_u64: "unat (ucast x :: u64) = unat x" for x :: u32
proof -
  have "unat x < 2 ^ 32" using unsigned_less [of x] by simp
  then have "unat x < 2 ^ LENGTH(64)" by simp
  then show ?thesis by (simp only: unsigned_ucast_eq take_bit_nat_eq_self)
qed


section \<open>Loops that may stop\<close>

text \<open>
  A loop whose body may panic, and a loop whose body may return early with an error through the
  \<open>?\<close> operator: the state it leaves behind, and the error if there is one.
\<close>

fun fold_opt :: "('a \<Rightarrow> 's \<Rightarrow> 's option) \<Rightarrow> 'a list \<Rightarrow> 's \<Rightarrow> 's option" where
  "fold_opt f [] s = Some s"
| "fold_opt f (x # xs) s = Option.bind (f x s) (fold_opt f xs)"

fun fold_try :: "('a \<Rightarrow> 's \<Rightarrow> ('s \<times> 'e option) option) \<Rightarrow> 'a list \<Rightarrow> 's \<Rightarrow> ('s \<times> 'e option) option" where
  "fold_try f [] s = Some (s, None)"
| "fold_try f (x # xs) s =
     (case f x s of
        None \<Rightarrow> None
      | Some (s', Some e) \<Rightarrow> Some (s', Some e)
      | Some (s', None) \<Rightarrow> fold_try f xs s')"

lemma fold_opt_append: "fold_opt f (xs @ ys) s = Option.bind (fold_opt f xs s) (fold_opt f ys)"
  by (induction xs arbitrary: s) (auto split: Option.bind_splits)

end
