(* ===== verification/Features.thy ===== *)
theory Features
  imports Wgpu_Prelude
begin

unbundle bit_operations_syntax

text \<open>
  Bit sets. A type declared with \<open>bitflags!\<close> is its word of bits; \<open>Features\<close>
  (\<open>wgpu-types/src/features.rs\<close>, macro \<open>bitflags_array\<close>) is a pair of such words, one for the
  native and one for the WebGPU features, each operation working on both. The constants are
  the features that the modelled code tests.
\<close>

definition contains :: "'a::len word \<Rightarrow> 'a word \<Rightarrow> bool" where
  "contains x y = (x AND y = y)"

definition intersects :: "'a::len word \<Rightarrow> 'a word \<Rightarrow> bool" where
  "intersects x y = (x AND y \<noteq> 0)"

definition set_flag :: "'a::len word \<Rightarrow> 'a word \<Rightarrow> bool \<Rightarrow> 'a word" where
  "set_flag x y b = (if b then x OR y else x AND NOT y)"

record features =
  features_wgpu :: u64
  features_webgpu :: u64

definition features_empty :: features where
  "features_empty = \<lparr>features_wgpu = 0, features_webgpu = 0\<rparr>"

definition features_contain :: "features \<Rightarrow> features \<Rightarrow> bool" where
  "features_contain x y =
    (contains (features_wgpu x) (features_wgpu y) \<and> contains (features_webgpu x) (features_webgpu y))"

definition features_intersect :: "features \<Rightarrow> features \<Rightarrow> bool" where
  "features_intersect x y =
    (intersects (features_wgpu x) (features_wgpu y)
     \<or> intersects (features_webgpu x) (features_webgpu y))"

definition features_is_empty :: "features \<Rightarrow> bool" where
  "features_is_empty x = (features_wgpu x = 0 \<and> features_webgpu x = 0)"

definition features_union :: "features \<Rightarrow> features \<Rightarrow> features" where
  "features_union x y =
    \<lparr>features_wgpu = features_wgpu x OR features_wgpu y,
     features_webgpu = features_webgpu x OR features_webgpu y\<rparr>"

definition features_intersection :: "features \<Rightarrow> features \<Rightarrow> features" where
  "features_intersection x y =
    \<lparr>features_wgpu = features_wgpu x AND features_wgpu y,
     features_webgpu = features_webgpu x AND features_webgpu y\<rparr>"

definition features_difference :: "features \<Rightarrow> features \<Rightarrow> features" where
  "features_difference x y =
    \<lparr>features_wgpu = features_wgpu x AND NOT (features_wgpu y),
     features_webgpu = features_webgpu x AND NOT (features_webgpu y)\<rparr>"

definition features_set :: "features \<Rightarrow> features \<Rightarrow> bool \<Rightarrow> features" where
  "features_set x y b =
    \<lparr>features_wgpu = set_flag (features_wgpu x) (features_wgpu y) b,
     features_webgpu = set_flag (features_webgpu x) (features_webgpu y) b\<rparr>"

definition wgpu_feature :: "nat \<Rightarrow> features" where
  "wgpu_feature n = \<lparr>features_wgpu = push_bit n 1, features_webgpu = 0\<rparr>"

definition webgpu_feature :: "nat \<Rightarrow> features" where
  "webgpu_feature n = \<lparr>features_wgpu = 0, features_webgpu = push_bit n 1\<rparr>"

definition texture_format_16bit_norm :: features where "texture_format_16bit_norm = wgpu_feature 1"
definition texture_compression_astc_hdr :: features where "texture_compression_astc_hdr = wgpu_feature 2"
definition texture_adapter_specific_format_features :: features where "texture_adapter_specific_format_features = wgpu_feature 3"
definition texture_atomic :: features where "texture_atomic = wgpu_feature 28"
definition texture_format_nv12 :: features where "texture_format_nv12 = wgpu_feature 29"
definition texture_format_p010 :: features where "texture_format_p010 = wgpu_feature 30"
definition texture_int64_atomic :: features where "texture_int64_atomic = wgpu_feature 46"
definition depth32float_stencil8 :: features where "depth32float_stencil8 = webgpu_feature 1"
definition texture_compression_bc :: features where "texture_compression_bc = webgpu_feature 2"
definition texture_compression_etc2 :: features where "texture_compression_etc2 = webgpu_feature 4"
definition texture_compression_astc :: features where "texture_compression_astc = webgpu_feature 5"
definition rg11b10ufloat_renderable :: features where "rg11b10ufloat_renderable = webgpu_feature 10"
definition bgra8unorm_storage :: features where "bgra8unorm_storage = webgpu_feature 11"
definition float32_filterable :: features where "float32_filterable = webgpu_feature 12"
definition float32_blendable :: features where "float32_blendable = webgpu_feature 13"

lemmas feature_bits = texture_format_16bit_norm_def
  texture_compression_astc_hdr_def
  texture_adapter_specific_format_features_def
  texture_atomic_def
  texture_format_nv12_def
  texture_format_p010_def
  texture_int64_atomic_def
  depth32float_stencil8_def
  texture_compression_bc_def
  texture_compression_etc2_def
  texture_compression_astc_def
  rg11b10ufloat_renderable_def
  bgra8unorm_storage_def
  float32_filterable_def
  float32_blendable_def

lemma contains_bits: "contains x y \<longleftrightarrow> (\<forall>n < LENGTH('a). bit y n \<longrightarrow> bit x n)" for x y :: "'a::len word"
unfolding contains_def
  by (auto simp: bit_eq_iff bit_and_iff intro!: bit_imp_le_length)

lemma intersects_bits: "intersects x y \<longleftrightarrow> (\<exists>n < LENGTH('a). bit x n \<and> bit y n)" for x y :: "'a::len word"
  unfolding intersects_def
  by (auto simp: bit_eq_iff bit_and_iff dest: bit_imp_le_length)

lemma bit_set_flag: "n < LENGTH('a) \<Longrightarrow> bit (set_flag x m b) n \<longleftrightarrow> (if bit m n then b else bit x n)"
  for x m :: "'a::len word"
  by (simp add: set_flag_def bit_or_iff bit_and_iff bit_not_iff)

lemma contains_set_flag_other: "\<not> intersects m y \<Longrightarrow> contains (set_flag x m b) y \<longleftrightarrow> contains x y"
  by (auto simp: contains_bits intersects_bits bit_set_flag)

lemma contains_set_flag_same: "y \<noteq> 0 \<Longrightarrow> contains (set_flag x y b) y \<longleftrightarrow> b"
  by (auto simp: contains_bits bit_set_flag bit_eq_iff)

lemma intersects_set_flag_other:
  fixes x m y :: "'a::len word"
  assumes "\<not> intersects m y"
  shows "intersects (set_flag x m b) y \<longleftrightarrow> intersects x y"
proof -
  have "bit (set_flag x m b) n \<and> bit y n \<longleftrightarrow> bit x n \<and> bit y n" if "n < LENGTH('a)" for n
    using assms that by (auto simp: intersects_bits bit_set_flag)
  then show ?thesis unfolding intersects_bits by blast
qed

end
