(* ===== verification/Formats.thy ===== *)
theory Formats
  imports Features
begin

text \<open>
  Texture formats, \<open>wgpu-types/src/texture/format.rs\<close>: the enumeration, the tables that
  describe every format (channels, texel blocks, copy and render footprints, required
  features, guaranteed capabilities, sample types), the sRGB pairing, the aspect rules and the
  names of the formats in the serialised form. Each \<open>match\<close> of the source is a \<open>case\<close> over the
  same constructors, an or-pattern being spelled out. A bit set is a word of the width the
  source declares; a wildcard of the source is a wildcard here.
\<close>

section \<open>The formats\<close>

datatype astc_block =
    B4x4 | B5x4 | B5x5 | B6x5 | B6x6 | B8x5 | B8x6 | B8x8 | B10x5 | B10x6 | B10x8 | B10x10
  | B12x10 | B12x12

datatype astc_channel = AstcUnorm | AstcUnormSrgb | AstcHdr

datatype (plugins only:) texture_format =
    R8Unorm | R8Snorm | R8Uint | R8Sint | R16Uint | R16Sint | R16Unorm | R16Snorm | R16Float
  | Rg8Unorm | Rg8Snorm | Rg8Uint | Rg8Sint | R32Uint | R32Sint | R32Float | Rg16Uint
  | Rg16Sint | Rg16Unorm | Rg16Snorm | Rg16Float | Rgba8Unorm | Rgba8UnormSrgb | Rgba8Snorm
  | Rgba8Uint | Rgba8Sint | Bgra8Unorm | Bgra8UnormSrgb | Rgb9e5Ufloat | Rgb10a2Uint
  | Rgb10a2Unorm | Rg11b10Ufloat | R64Uint | Rg32Uint | Rg32Sint | Rg32Float | Rgba16Uint
  | Rgba16Sint | Rgba16Unorm | Rgba16Snorm | Rgba16Float | Rgba32Uint | Rgba32Sint
  | Rgba32Float | Stencil8 | Depth16Unorm | Depth24Plus | Depth24PlusStencil8 | Depth32Float
  | Depth32FloatStencil8 | NV12 | P010 | Bc1RgbaUnorm | Bc1RgbaUnormSrgb | Bc2RgbaUnorm
  | Bc2RgbaUnormSrgb | Bc3RgbaUnorm | Bc3RgbaUnormSrgb | Bc4RUnorm | Bc4RSnorm | Bc5RgUnorm
  | Bc5RgSnorm | Bc6hRgbUfloat | Bc6hRgbFloat | Bc7RgbaUnorm | Bc7RgbaUnormSrgb
  | Etc2Rgb8Unorm | Etc2Rgb8UnormSrgb | Etc2Rgb8A1Unorm | Etc2Rgb8A1UnormSrgb
  | Etc2Rgba8Unorm | Etc2Rgba8UnormSrgb | EacR11Unorm | EacR11Snorm | EacRg11Unorm
  | EacRg11Snorm | Astc astc_block astc_channel

datatype texture_aspect = AspectAll | StencilOnly | DepthOnly | Plane0 | Plane1 | Plane2

definition from_plane :: "u32 \<Rightarrow> texture_aspect option" where
  "from_plane plane =
    (if plane = 0 then Some Plane0 else if plane = 1 then Some Plane1
     else if plane = 2 then Some Plane2 else None)"

definition to_plane :: "texture_aspect \<Rightarrow> u32 option" where
  "to_plane a = (case a of Plane0 \<Rightarrow> Some 0 | Plane1 \<Rightarrow> Some 1 | Plane2 \<Rightarrow> Some 2 | _ \<Rightarrow> None)"

datatype texture_sample_type =
  SampleFloat (filterable: bool) | SampleDepth | SampleSint | SampleUint

section \<open>Channels and aspects\<close>

text \<open>The bits of \<open>TextureChannel\<close>.\<close>

type_synonym texture_channel = u16

definition ch_red :: texture_channel where "ch_red = 1"
definition ch_green :: texture_channel where "ch_green = 2"
definition ch_blue :: texture_channel where "ch_blue = 4"
definition ch_alpha :: texture_channel where "ch_alpha = 8"
definition ch_stencil :: texture_channel where "ch_stencil = 16"
definition ch_depth :: texture_channel where "ch_depth = 32"
definition ch_luminance :: texture_channel where "ch_luminance = 64"
definition ch_chrominance_blue :: texture_channel where "ch_chrominance_blue = 128"
definition ch_chrominance_red :: texture_channel where "ch_chrominance_red = 256"
definition ch_rg :: texture_channel where "ch_rg = ch_red OR ch_green"
definition ch_rgb :: texture_channel where "ch_rgb = ch_rg OR ch_blue"
definition ch_rgba :: texture_channel where "ch_rgba = ch_rgb OR ch_alpha"
definition ch_depth_stencil :: texture_channel where "ch_depth_stencil = ch_depth OR ch_stencil"
definition ch_luminance_chrominance :: texture_channel where
  "ch_luminance_chrominance = ch_luminance OR ch_chrominance_blue OR ch_chrominance_red"

lemmas channel_bits = ch_red_def ch_green_def ch_blue_def ch_alpha_def ch_stencil_def
  ch_depth_def ch_luminance_def ch_chrominance_blue_def ch_chrominance_red_def ch_rg_def
  ch_rgb_def ch_rgba_def ch_depth_stencil_def ch_luminance_chrominance_def

definition channels :: "texture_format \<Rightarrow> texture_channel" where
  "channels f =
    (case f of
      R8Unorm \<Rightarrow> ch_red | R8Snorm \<Rightarrow> ch_red | R8Uint \<Rightarrow> ch_red | R8Sint \<Rightarrow> ch_red
    | R16Uint \<Rightarrow> ch_red | R16Sint \<Rightarrow> ch_red | R16Unorm \<Rightarrow> ch_red | R16Snorm \<Rightarrow> ch_red
    | R32Uint \<Rightarrow> ch_red | R32Sint \<Rightarrow> ch_red | R32Float \<Rightarrow> ch_red | R16Float \<Rightarrow> ch_red
    | R64Uint \<Rightarrow> ch_red | Bc4RUnorm \<Rightarrow> ch_red | Bc4RSnorm \<Rightarrow> ch_red | EacR11Unorm \<Rightarrow> ch_red
    | EacR11Snorm \<Rightarrow> ch_red | Rg8Unorm \<Rightarrow> ch_rg | Rg8Snorm \<Rightarrow> ch_rg | Rg8Uint \<Rightarrow> ch_rg
    | Rg8Sint \<Rightarrow> ch_rg | Rg16Uint \<Rightarrow> ch_rg | Rg16Sint \<Rightarrow> ch_rg | Rg16Unorm \<Rightarrow> ch_rg
    | Rg16Snorm \<Rightarrow> ch_rg | Rg16Float \<Rightarrow> ch_rg | Rg32Uint \<Rightarrow> ch_rg | Rg32Sint \<Rightarrow> ch_rg
    | Rg32Float \<Rightarrow> ch_rg | Bc5RgUnorm \<Rightarrow> ch_rg | Bc5RgSnorm \<Rightarrow> ch_rg | EacRg11Unorm \<Rightarrow> ch_rg
    | EacRg11Snorm \<Rightarrow> ch_rg | Rgb9e5Ufloat \<Rightarrow> ch_rgb | Rg11b10Ufloat \<Rightarrow> ch_rgb
    | Bc6hRgbUfloat \<Rightarrow> ch_rgb | Bc6hRgbFloat \<Rightarrow> ch_rgb | Etc2Rgb8Unorm \<Rightarrow> ch_rgb
    | Etc2Rgb8UnormSrgb \<Rightarrow> ch_rgb | Rgba8Unorm \<Rightarrow> ch_rgba | Rgba8UnormSrgb \<Rightarrow> ch_rgba
    | Rgba8Snorm \<Rightarrow> ch_rgba | Rgba8Uint \<Rightarrow> ch_rgba | Rgba8Sint \<Rightarrow> ch_rgba
    | Bgra8Unorm \<Rightarrow> ch_rgba | Bgra8UnormSrgb \<Rightarrow> ch_rgba | Rgb10a2Uint \<Rightarrow> ch_rgba
    | Rgb10a2Unorm \<Rightarrow> ch_rgba | Rgba16Uint \<Rightarrow> ch_rgba | Rgba16Sint \<Rightarrow> ch_rgba
    | Rgba16Unorm \<Rightarrow> ch_rgba | Rgba16Snorm \<Rightarrow> ch_rgba | Rgba16Float \<Rightarrow> ch_rgba
    | Rgba32Uint \<Rightarrow> ch_rgba | Rgba32Sint \<Rightarrow> ch_rgba | Rgba32Float \<Rightarrow> ch_rgba
    | Bc1RgbaUnorm \<Rightarrow> ch_rgba | Bc1RgbaUnormSrgb \<Rightarrow> ch_rgba | Bc2RgbaUnorm \<Rightarrow> ch_rgba
    | Bc2RgbaUnormSrgb \<Rightarrow> ch_rgba | Bc3RgbaUnorm \<Rightarrow> ch_rgba | Bc3RgbaUnormSrgb \<Rightarrow> ch_rgba
    | Bc7RgbaUnorm \<Rightarrow> ch_rgba | Bc7RgbaUnormSrgb \<Rightarrow> ch_rgba | Etc2Rgb8A1Unorm \<Rightarrow> ch_rgba
    | Etc2Rgb8A1UnormSrgb \<Rightarrow> ch_rgba | Etc2Rgba8Unorm \<Rightarrow> ch_rgba
    | Etc2Rgba8UnormSrgb \<Rightarrow> ch_rgba | Astc b ch \<Rightarrow> ch_rgba | Stencil8 \<Rightarrow> ch_stencil
    | Depth16Unorm \<Rightarrow> ch_depth | Depth24Plus \<Rightarrow> ch_depth | Depth32Float \<Rightarrow> ch_depth
    | Depth24PlusStencil8 \<Rightarrow> ch_depth_stencil | Depth32FloatStencil8 \<Rightarrow> ch_depth_stencil
    | NV12 \<Rightarrow> ch_luminance_chrominance | P010 \<Rightarrow> ch_luminance_chrominance)"

definition has_color_aspect :: "texture_format \<Rightarrow> bool" where
  "has_color_aspect f = intersects (channels f) ch_rgba"

definition has_depth_aspect :: "texture_format \<Rightarrow> bool" where
  "has_depth_aspect f = intersects (channels f) ch_depth"

definition has_stencil_aspect :: "texture_format \<Rightarrow> bool" where
  "has_stencil_aspect f = intersects (channels f) ch_stencil"

definition is_depth_stencil_format :: "texture_format \<Rightarrow> bool" where
  "is_depth_stencil_format f = intersects (channels f) ch_depth_stencil"

definition is_combined_depth_stencil_format :: "texture_format \<Rightarrow> bool" where
  "is_combined_depth_stencil_format f = contains (channels f) ch_depth_stencil"

definition is_depth_stencil_component :: "texture_format \<Rightarrow> texture_format \<Rightarrow> bool" where
  "is_depth_stencil_component f combined_format =
    (if combined_format = Depth24PlusStencil8 then f = Depth24Plus \<or> f = Stencil8
     else if combined_format = Depth32FloatStencil8 then f = Depth32Float \<or> f = Stencil8
     else False)"

definition planes :: "texture_format \<Rightarrow> u32 option" where
  "planes f = (case f of NV12 \<Rightarrow> Some 2 | P010 \<Rightarrow> Some 2 | _ \<Rightarrow> None)"

definition is_multi_planar_format :: "texture_format \<Rightarrow> bool" where
  "is_multi_planar_format f = (planes f \<noteq> None)"

text \<open>\<open>None\<close> is the \<open>unreachable!\<close> of the source.\<close>

definition subsampling_factors :: "texture_format \<Rightarrow> u32 option \<Rightarrow> (u32 \<times> u32) option" where
  "subsampling_factors f plane =
    (if f = NV12 \<or> f = P010 then
       (case plane of
          Some p \<Rightarrow> if p = 0 then Some (1, 1) else if p = 1 then Some (2, 2) else None
        | None \<Rightarrow> None)
     else Some (1, 1))"

definition aspect_specific_format :: "texture_format \<Rightarrow> texture_aspect \<Rightarrow> texture_format option" where
  "aspect_specific_format f aspect =
    (let otherwise =
       (if aspect = AspectAll \<and> \<not> is_multi_planar_format f then Some f else None)
     in case f of
          Stencil8 \<Rightarrow> (if aspect = StencilOnly then Some f else otherwise)
        | Depth16Unorm \<Rightarrow> (if aspect = DepthOnly then Some f else otherwise)
        | Depth24Plus \<Rightarrow> (if aspect = DepthOnly then Some f else otherwise)
        | Depth32Float \<Rightarrow> (if aspect = DepthOnly then Some f else otherwise)
        | Depth24PlusStencil8 \<Rightarrow>
            (case aspect of StencilOnly \<Rightarrow> Some Stencil8 | DepthOnly \<Rightarrow> Some Depth24Plus
             | _ \<Rightarrow> otherwise)
        | Depth32FloatStencil8 \<Rightarrow>
            (case aspect of StencilOnly \<Rightarrow> Some Stencil8 | DepthOnly \<Rightarrow> Some Depth32Float
             | _ \<Rightarrow> otherwise)
        | NV12 \<Rightarrow>
            (case aspect of Plane0 \<Rightarrow> Some R8Unorm | Plane1 \<Rightarrow> Some Rg8Unorm | _ \<Rightarrow> otherwise)
        | P010 \<Rightarrow>
            (case aspect of Plane0 \<Rightarrow> Some R16Unorm | Plane1 \<Rightarrow> Some Rg16Unorm | _ \<Rightarrow> otherwise)
        | _ \<Rightarrow> otherwise)"

section \<open>Texel blocks\<close>

definition astc_block_dimensions :: "astc_block \<Rightarrow> u32 \<times> u32" where
  "astc_block_dimensions b =
    (case b of
       B4x4 \<Rightarrow> (4, 4) | B5x4 \<Rightarrow> (5, 4) | B5x5 \<Rightarrow> (5, 5) | B6x5 \<Rightarrow> (6, 5) | B6x6 \<Rightarrow> (6, 6)
     | B8x5 \<Rightarrow> (8, 5) | B8x6 \<Rightarrow> (8, 6) | B8x8 \<Rightarrow> (8, 8) | B10x5 \<Rightarrow> (10, 5) | B10x6 \<Rightarrow> (10, 6)
     | B10x8 \<Rightarrow> (10, 8) | B10x10 \<Rightarrow> (10, 10) | B12x10 \<Rightarrow> (12, 10) | B12x12 \<Rightarrow> (12, 12))"

definition block_dimensions :: "texture_format \<Rightarrow> u32 \<times> u32" where
  "block_dimensions f =
    (case f of
      R8Unorm \<Rightarrow> (1, 1) | R8Snorm \<Rightarrow> (1, 1) | R8Uint \<Rightarrow> (1, 1) | R8Sint \<Rightarrow> (1, 1)
    | R16Uint \<Rightarrow> (1, 1) | R16Sint \<Rightarrow> (1, 1) | R16Unorm \<Rightarrow> (1, 1) | R16Snorm \<Rightarrow> (1, 1)
    | R16Float \<Rightarrow> (1, 1) | Rg8Unorm \<Rightarrow> (1, 1) | Rg8Snorm \<Rightarrow> (1, 1) | Rg8Uint \<Rightarrow> (1, 1)
    | Rg8Sint \<Rightarrow> (1, 1) | R32Uint \<Rightarrow> (1, 1) | R32Sint \<Rightarrow> (1, 1) | R32Float \<Rightarrow> (1, 1)
    | Rg16Uint \<Rightarrow> (1, 1) | Rg16Sint \<Rightarrow> (1, 1) | Rg16Unorm \<Rightarrow> (1, 1) | Rg16Snorm \<Rightarrow> (1, 1)
    | Rg16Float \<Rightarrow> (1, 1) | Rgba8Unorm \<Rightarrow> (1, 1) | Rgba8UnormSrgb \<Rightarrow> (1, 1)
    | Rgba8Snorm \<Rightarrow> (1, 1) | Rgba8Uint \<Rightarrow> (1, 1) | Rgba8Sint \<Rightarrow> (1, 1) | Bgra8Unorm \<Rightarrow> (1, 1)
    | Bgra8UnormSrgb \<Rightarrow> (1, 1) | Rgb9e5Ufloat \<Rightarrow> (1, 1) | Rgb10a2Uint \<Rightarrow> (1, 1)
    | Rgb10a2Unorm \<Rightarrow> (1, 1) | Rg11b10Ufloat \<Rightarrow> (1, 1) | R64Uint \<Rightarrow> (1, 1) | Rg32Uint \<Rightarrow> (1, 1)
    | Rg32Sint \<Rightarrow> (1, 1) | Rg32Float \<Rightarrow> (1, 1) | Rgba16Uint \<Rightarrow> (1, 1) | Rgba16Sint \<Rightarrow> (1, 1)
    | Rgba16Unorm \<Rightarrow> (1, 1) | Rgba16Snorm \<Rightarrow> (1, 1) | Rgba16Float \<Rightarrow> (1, 1)
    | Rgba32Uint \<Rightarrow> (1, 1) | Rgba32Sint \<Rightarrow> (1, 1) | Rgba32Float \<Rightarrow> (1, 1) | Stencil8 \<Rightarrow> (1, 1)
    | Depth16Unorm \<Rightarrow> (1, 1) | Depth24Plus \<Rightarrow> (1, 1) | Depth24PlusStencil8 \<Rightarrow> (1, 1)
    | Depth32Float \<Rightarrow> (1, 1) | Depth32FloatStencil8 \<Rightarrow> (1, 1) | NV12 \<Rightarrow> (1, 1) | P010 \<Rightarrow> (1, 1)
    | Bc1RgbaUnorm \<Rightarrow> (4, 4) | Bc1RgbaUnormSrgb \<Rightarrow> (4, 4) | Bc2RgbaUnorm \<Rightarrow> (4, 4)
    | Bc2RgbaUnormSrgb \<Rightarrow> (4, 4) | Bc3RgbaUnorm \<Rightarrow> (4, 4) | Bc3RgbaUnormSrgb \<Rightarrow> (4, 4)
    | Bc4RUnorm \<Rightarrow> (4, 4) | Bc4RSnorm \<Rightarrow> (4, 4) | Bc5RgUnorm \<Rightarrow> (4, 4) | Bc5RgSnorm \<Rightarrow> (4, 4)
    | Bc6hRgbUfloat \<Rightarrow> (4, 4) | Bc6hRgbFloat \<Rightarrow> (4, 4) | Bc7RgbaUnorm \<Rightarrow> (4, 4)
    | Bc7RgbaUnormSrgb \<Rightarrow> (4, 4) | Etc2Rgb8Unorm \<Rightarrow> (4, 4) | Etc2Rgb8UnormSrgb \<Rightarrow> (4, 4)
    | Etc2Rgb8A1Unorm \<Rightarrow> (4, 4) | Etc2Rgb8A1UnormSrgb \<Rightarrow> (4, 4) | Etc2Rgba8Unorm \<Rightarrow> (4, 4)
    | Etc2Rgba8UnormSrgb \<Rightarrow> (4, 4) | EacR11Unorm \<Rightarrow> (4, 4) | EacR11Snorm \<Rightarrow> (4, 4)
    | EacRg11Unorm \<Rightarrow> (4, 4) | EacRg11Snorm \<Rightarrow> (4, 4) | Astc b ch \<Rightarrow> astc_block_dimensions b)"

definition size_multiple_requirement :: "texture_format \<Rightarrow> u32 \<times> u32" where
  "size_multiple_requirement f =
    (case f of NV12 \<Rightarrow> (2, 2) | P010 \<Rightarrow> (2, 2) | _ \<Rightarrow> block_dimensions f)"

definition is_compressed :: "texture_format \<Rightarrow> bool" where
  "is_compressed f = (block_dimensions f \<noteq> (1, 1))"

definition block_copy_size :: "texture_format \<Rightarrow> texture_aspect option \<Rightarrow> u32 option" where
  "block_copy_size f aspect =
    (case f of
      R8Unorm \<Rightarrow> Some 1 | R8Snorm \<Rightarrow> Some 1 | R8Uint \<Rightarrow> Some 1 | R8Sint \<Rightarrow> Some 1
    | Rg8Unorm \<Rightarrow> Some 2 | Rg8Snorm \<Rightarrow> Some 2 | Rg8Uint \<Rightarrow> Some 2 | Rg8Sint \<Rightarrow> Some 2
    | R16Unorm \<Rightarrow> Some 2 | R16Snorm \<Rightarrow> Some 2 | R16Uint \<Rightarrow> Some 2 | R16Sint \<Rightarrow> Some 2
    | R16Float \<Rightarrow> Some 2 | Rgba8Unorm \<Rightarrow> Some 4 | Rgba8UnormSrgb \<Rightarrow> Some 4
    | Rgba8Snorm \<Rightarrow> Some 4 | Rgba8Uint \<Rightarrow> Some 4 | Rgba8Sint \<Rightarrow> Some 4 | Bgra8Unorm \<Rightarrow> Some 4
    | Bgra8UnormSrgb \<Rightarrow> Some 4 | Rg16Unorm \<Rightarrow> Some 4 | Rg16Snorm \<Rightarrow> Some 4 | Rg16Uint \<Rightarrow> Some 4
    | Rg16Sint \<Rightarrow> Some 4 | Rg16Float \<Rightarrow> Some 4 | R32Uint \<Rightarrow> Some 4 | R32Sint \<Rightarrow> Some 4
    | R32Float \<Rightarrow> Some 4 | Rgb9e5Ufloat \<Rightarrow> Some 4 | Rgb10a2Uint \<Rightarrow> Some 4
    | Rgb10a2Unorm \<Rightarrow> Some 4 | Rg11b10Ufloat \<Rightarrow> Some 4 | Rgba16Unorm \<Rightarrow> Some 8
    | Rgba16Snorm \<Rightarrow> Some 8 | Rgba16Uint \<Rightarrow> Some 8 | Rgba16Sint \<Rightarrow> Some 8
    | Rgba16Float \<Rightarrow> Some 8 | R64Uint \<Rightarrow> Some 8 | Rg32Uint \<Rightarrow> Some 8 | Rg32Sint \<Rightarrow> Some 8
    | Rg32Float \<Rightarrow> Some 8 | Rgba32Uint \<Rightarrow> Some 16 | Rgba32Sint \<Rightarrow> Some 16
    | Rgba32Float \<Rightarrow> Some 16 | Stencil8 \<Rightarrow> Some 1 | Depth16Unorm \<Rightarrow> Some 2
    | Depth32Float \<Rightarrow> Some 4 | Depth24Plus \<Rightarrow> None
    | Depth24PlusStencil8 \<Rightarrow> (case aspect of Some DepthOnly \<Rightarrow> None | Some StencilOnly \<Rightarrow> Some 1 | _ \<Rightarrow> None)
    | Depth32FloatStencil8 \<Rightarrow> (case aspect of Some DepthOnly \<Rightarrow> Some 4 | Some StencilOnly \<Rightarrow> Some 1 | _ \<Rightarrow> None)
    | NV12 \<Rightarrow> (case aspect of Some Plane0 \<Rightarrow> Some 1 | Some Plane1 \<Rightarrow> Some 2 | _ \<Rightarrow> None)
    | P010 \<Rightarrow> (case aspect of Some Plane0 \<Rightarrow> Some 2 | Some Plane1 \<Rightarrow> Some 4 | _ \<Rightarrow> None)
    | Bc1RgbaUnorm \<Rightarrow> Some 8 | Bc1RgbaUnormSrgb \<Rightarrow> Some 8 | Bc4RUnorm \<Rightarrow> Some 8
    | Bc4RSnorm \<Rightarrow> Some 8 | Bc2RgbaUnorm \<Rightarrow> Some 16 | Bc2RgbaUnormSrgb \<Rightarrow> Some 16
    | Bc3RgbaUnorm \<Rightarrow> Some 16 | Bc3RgbaUnormSrgb \<Rightarrow> Some 16 | Bc5RgUnorm \<Rightarrow> Some 16
    | Bc5RgSnorm \<Rightarrow> Some 16 | Bc6hRgbUfloat \<Rightarrow> Some 16 | Bc6hRgbFloat \<Rightarrow> Some 16
    | Bc7RgbaUnorm \<Rightarrow> Some 16 | Bc7RgbaUnormSrgb \<Rightarrow> Some 16 | Etc2Rgb8Unorm \<Rightarrow> Some 8
    | Etc2Rgb8UnormSrgb \<Rightarrow> Some 8 | Etc2Rgb8A1Unorm \<Rightarrow> Some 8 | Etc2Rgb8A1UnormSrgb \<Rightarrow> Some 8
    | EacR11Unorm \<Rightarrow> Some 8 | EacR11Snorm \<Rightarrow> Some 8 | Etc2Rgba8Unorm \<Rightarrow> Some 16
    | Etc2Rgba8UnormSrgb \<Rightarrow> Some 16 | EacRg11Unorm \<Rightarrow> Some 16 | EacRg11Snorm \<Rightarrow> Some 16
    | Astc b ch \<Rightarrow> Some 16)"

definition components_with_aspect :: "texture_format \<Rightarrow> texture_aspect \<Rightarrow> u8" where
  "components_with_aspect f aspect =
    (case f of
      R8Unorm \<Rightarrow> 1 | R8Snorm \<Rightarrow> 1 | R8Uint \<Rightarrow> 1 | R8Sint \<Rightarrow> 1 | R16Unorm \<Rightarrow> 1 | R16Snorm \<Rightarrow> 1
    | R16Uint \<Rightarrow> 1 | R16Sint \<Rightarrow> 1 | R16Float \<Rightarrow> 1 | R32Uint \<Rightarrow> 1 | R32Sint \<Rightarrow> 1 | R32Float \<Rightarrow> 1
    | R64Uint \<Rightarrow> 1 | Rg8Unorm \<Rightarrow> 2 | Rg8Snorm \<Rightarrow> 2 | Rg8Uint \<Rightarrow> 2 | Rg8Sint \<Rightarrow> 2
    | Rg16Unorm \<Rightarrow> 2 | Rg16Snorm \<Rightarrow> 2 | Rg16Uint \<Rightarrow> 2 | Rg16Sint \<Rightarrow> 2 | Rg16Float \<Rightarrow> 2
    | Rg32Uint \<Rightarrow> 2 | Rg32Sint \<Rightarrow> 2 | Rg32Float \<Rightarrow> 2 | Rgba8Unorm \<Rightarrow> 4 | Rgba8UnormSrgb \<Rightarrow> 4
    | Rgba8Snorm \<Rightarrow> 4 | Rgba8Uint \<Rightarrow> 4 | Rgba8Sint \<Rightarrow> 4 | Bgra8Unorm \<Rightarrow> 4 | Bgra8UnormSrgb \<Rightarrow> 4
    | Rgba16Unorm \<Rightarrow> 4 | Rgba16Snorm \<Rightarrow> 4 | Rgba16Uint \<Rightarrow> 4 | Rgba16Sint \<Rightarrow> 4
    | Rgba16Float \<Rightarrow> 4 | Rgba32Uint \<Rightarrow> 4 | Rgba32Sint \<Rightarrow> 4 | Rgba32Float \<Rightarrow> 4
    | Rgb9e5Ufloat \<Rightarrow> 3 | Rg11b10Ufloat \<Rightarrow> 3 | Rgb10a2Uint \<Rightarrow> 4 | Rgb10a2Unorm \<Rightarrow> 4
    | Stencil8 \<Rightarrow> 1 | Depth16Unorm \<Rightarrow> 1 | Depth24Plus \<Rightarrow> 1 | Depth32Float \<Rightarrow> 1
    | Depth24PlusStencil8 \<Rightarrow> (case aspect of DepthOnly \<Rightarrow> 1 | StencilOnly \<Rightarrow> 1 | _ \<Rightarrow> 2)
    | Depth32FloatStencil8 \<Rightarrow> (case aspect of DepthOnly \<Rightarrow> 1 | StencilOnly \<Rightarrow> 1 | _ \<Rightarrow> 2)
    | NV12 \<Rightarrow> (case aspect of Plane0 \<Rightarrow> 1 | Plane1 \<Rightarrow> 2 | _ \<Rightarrow> 3)
    | P010 \<Rightarrow> (case aspect of Plane0 \<Rightarrow> 1 | Plane1 \<Rightarrow> 2 | _ \<Rightarrow> 3) | Bc4RUnorm \<Rightarrow> 1
    | Bc4RSnorm \<Rightarrow> 1 | Bc5RgUnorm \<Rightarrow> 2 | Bc5RgSnorm \<Rightarrow> 2 | Bc6hRgbUfloat \<Rightarrow> 3
    | Bc6hRgbFloat \<Rightarrow> 3 | Bc1RgbaUnorm \<Rightarrow> 4 | Bc1RgbaUnormSrgb \<Rightarrow> 4 | Bc2RgbaUnorm \<Rightarrow> 4
    | Bc2RgbaUnormSrgb \<Rightarrow> 4 | Bc3RgbaUnorm \<Rightarrow> 4 | Bc3RgbaUnormSrgb \<Rightarrow> 4 | Bc7RgbaUnorm \<Rightarrow> 4
    | Bc7RgbaUnormSrgb \<Rightarrow> 4 | EacR11Unorm \<Rightarrow> 1 | EacR11Snorm \<Rightarrow> 1 | EacRg11Unorm \<Rightarrow> 2
    | EacRg11Snorm \<Rightarrow> 2 | Etc2Rgb8Unorm \<Rightarrow> 3 | Etc2Rgb8UnormSrgb \<Rightarrow> 3 | Etc2Rgb8A1Unorm \<Rightarrow> 4
    | Etc2Rgb8A1UnormSrgb \<Rightarrow> 4 | Etc2Rgba8Unorm \<Rightarrow> 4 | Etc2Rgba8UnormSrgb \<Rightarrow> 4 | Astc b ch \<Rightarrow> 4)"

definition components :: "texture_format \<Rightarrow> u8" where
  "components f = components_with_aspect f AspectAll"

section \<open>Render targets\<close>

definition target_pixel_byte_cost :: "texture_format \<Rightarrow> u32 option" where
  "target_pixel_byte_cost f =
    (case f of
      R8Unorm \<Rightarrow> Some 1 | R8Snorm \<Rightarrow> Some 1 | R8Uint \<Rightarrow> Some 1 | R8Sint \<Rightarrow> Some 1
    | Rg8Unorm \<Rightarrow> Some 2 | Rg8Snorm \<Rightarrow> Some 2 | Rg8Uint \<Rightarrow> Some 2 | Rg8Sint \<Rightarrow> Some 2
    | R16Uint \<Rightarrow> Some 2 | R16Sint \<Rightarrow> Some 2 | R16Unorm \<Rightarrow> Some 2 | R16Snorm \<Rightarrow> Some 2
    | R16Float \<Rightarrow> Some 2 | Rgba8Uint \<Rightarrow> Some 4 | Rgba8Sint \<Rightarrow> Some 4 | Rg16Uint \<Rightarrow> Some 4
    | Rg16Sint \<Rightarrow> Some 4 | Rg16Unorm \<Rightarrow> Some 4 | Rg16Snorm \<Rightarrow> Some 4 | Rg16Float \<Rightarrow> Some 4
    | R32Uint \<Rightarrow> Some 4 | R32Sint \<Rightarrow> Some 4 | R32Float \<Rightarrow> Some 4 | Rgba8Unorm \<Rightarrow> Some 8
    | Rgba8UnormSrgb \<Rightarrow> Some 8 | Rgba8Snorm \<Rightarrow> Some 8 | Bgra8Unorm \<Rightarrow> Some 8
    | Bgra8UnormSrgb \<Rightarrow> Some 8 | Rgba16Uint \<Rightarrow> Some 8 | Rgba16Sint \<Rightarrow> Some 8
    | Rgba16Unorm \<Rightarrow> Some 8 | Rgba16Snorm \<Rightarrow> Some 8 | Rgba16Float \<Rightarrow> Some 8 | R64Uint \<Rightarrow> Some 8
    | Rg32Uint \<Rightarrow> Some 8 | Rg32Sint \<Rightarrow> Some 8 | Rg32Float \<Rightarrow> Some 8 | Rgb10a2Uint \<Rightarrow> Some 8
    | Rgb10a2Unorm \<Rightarrow> Some 8 | Rg11b10Ufloat \<Rightarrow> Some 8 | Rgba32Uint \<Rightarrow> Some 16
    | Rgba32Sint \<Rightarrow> Some 16 | Rgba32Float \<Rightarrow> Some 16 | Stencil8 \<Rightarrow> None | Depth16Unorm \<Rightarrow> None
    | Depth24Plus \<Rightarrow> None | Depth24PlusStencil8 \<Rightarrow> None | Depth32Float \<Rightarrow> None
    | Depth32FloatStencil8 \<Rightarrow> None | NV12 \<Rightarrow> None | P010 \<Rightarrow> None | Rgb9e5Ufloat \<Rightarrow> None
    | Bc1RgbaUnorm \<Rightarrow> None | Bc1RgbaUnormSrgb \<Rightarrow> None | Bc2RgbaUnorm \<Rightarrow> None
    | Bc2RgbaUnormSrgb \<Rightarrow> None | Bc3RgbaUnorm \<Rightarrow> None | Bc3RgbaUnormSrgb \<Rightarrow> None
    | Bc4RUnorm \<Rightarrow> None | Bc4RSnorm \<Rightarrow> None | Bc5RgUnorm \<Rightarrow> None | Bc5RgSnorm \<Rightarrow> None
    | Bc6hRgbUfloat \<Rightarrow> None | Bc6hRgbFloat \<Rightarrow> None | Bc7RgbaUnorm \<Rightarrow> None
    | Bc7RgbaUnormSrgb \<Rightarrow> None | Etc2Rgb8Unorm \<Rightarrow> None | Etc2Rgb8UnormSrgb \<Rightarrow> None
    | Etc2Rgb8A1Unorm \<Rightarrow> None | Etc2Rgb8A1UnormSrgb \<Rightarrow> None | Etc2Rgba8Unorm \<Rightarrow> None
    | Etc2Rgba8UnormSrgb \<Rightarrow> None | EacR11Unorm \<Rightarrow> None | EacR11Snorm \<Rightarrow> None
    | EacRg11Unorm \<Rightarrow> None | EacRg11Snorm \<Rightarrow> None | Astc b ch \<Rightarrow> None)"

definition target_component_alignment :: "texture_format \<Rightarrow> u32 option" where
  "target_component_alignment f =
    (case f of
      R8Unorm \<Rightarrow> Some 1 | R8Snorm \<Rightarrow> Some 1 | R8Uint \<Rightarrow> Some 1 | R8Sint \<Rightarrow> Some 1
    | Rg8Unorm \<Rightarrow> Some 1 | Rg8Snorm \<Rightarrow> Some 1 | Rg8Uint \<Rightarrow> Some 1 | Rg8Sint \<Rightarrow> Some 1
    | Rgba8Unorm \<Rightarrow> Some 1 | Rgba8UnormSrgb \<Rightarrow> Some 1 | Rgba8Snorm \<Rightarrow> Some 1
    | Rgba8Uint \<Rightarrow> Some 1 | Rgba8Sint \<Rightarrow> Some 1 | Bgra8Unorm \<Rightarrow> Some 1
    | Bgra8UnormSrgb \<Rightarrow> Some 1 | R16Uint \<Rightarrow> Some 2 | R16Sint \<Rightarrow> Some 2 | R16Unorm \<Rightarrow> Some 2
    | R16Snorm \<Rightarrow> Some 2 | R16Float \<Rightarrow> Some 2 | Rg16Uint \<Rightarrow> Some 2 | Rg16Sint \<Rightarrow> Some 2
    | Rg16Unorm \<Rightarrow> Some 2 | Rg16Snorm \<Rightarrow> Some 2 | Rg16Float \<Rightarrow> Some 2 | Rgba16Uint \<Rightarrow> Some 2
    | Rgba16Sint \<Rightarrow> Some 2 | Rgba16Unorm \<Rightarrow> Some 2 | Rgba16Snorm \<Rightarrow> Some 2
    | Rgba16Float \<Rightarrow> Some 2 | R32Uint \<Rightarrow> Some 4 | R32Sint \<Rightarrow> Some 4 | R32Float \<Rightarrow> Some 4
    | R64Uint \<Rightarrow> Some 4 | Rg32Uint \<Rightarrow> Some 4 | Rg32Sint \<Rightarrow> Some 4 | Rg32Float \<Rightarrow> Some 4
    | Rgba32Uint \<Rightarrow> Some 4 | Rgba32Sint \<Rightarrow> Some 4 | Rgba32Float \<Rightarrow> Some 4
    | Rgb10a2Uint \<Rightarrow> Some 4 | Rgb10a2Unorm \<Rightarrow> Some 4 | Rg11b10Ufloat \<Rightarrow> Some 4
    | Stencil8 \<Rightarrow> None | Depth16Unorm \<Rightarrow> None | Depth24Plus \<Rightarrow> None
    | Depth24PlusStencil8 \<Rightarrow> None | Depth32Float \<Rightarrow> None | Depth32FloatStencil8 \<Rightarrow> None
    | NV12 \<Rightarrow> None | P010 \<Rightarrow> None | Rgb9e5Ufloat \<Rightarrow> None | Bc1RgbaUnorm \<Rightarrow> None
    | Bc1RgbaUnormSrgb \<Rightarrow> None | Bc2RgbaUnorm \<Rightarrow> None | Bc2RgbaUnormSrgb \<Rightarrow> None
    | Bc3RgbaUnorm \<Rightarrow> None | Bc3RgbaUnormSrgb \<Rightarrow> None | Bc4RUnorm \<Rightarrow> None | Bc4RSnorm \<Rightarrow> None
    | Bc5RgUnorm \<Rightarrow> None | Bc5RgSnorm \<Rightarrow> None | Bc6hRgbUfloat \<Rightarrow> None | Bc6hRgbFloat \<Rightarrow> None
    | Bc7RgbaUnorm \<Rightarrow> None | Bc7RgbaUnormSrgb \<Rightarrow> None | Etc2Rgb8Unorm \<Rightarrow> None
    | Etc2Rgb8UnormSrgb \<Rightarrow> None | Etc2Rgb8A1Unorm \<Rightarrow> None | Etc2Rgb8A1UnormSrgb \<Rightarrow> None
    | Etc2Rgba8Unorm \<Rightarrow> None | Etc2Rgba8UnormSrgb \<Rightarrow> None | EacR11Unorm \<Rightarrow> None
    | EacR11Snorm \<Rightarrow> None | EacRg11Unorm \<Rightarrow> None | EacRg11Snorm \<Rightarrow> None | Astc b ch \<Rightarrow> None)"

section \<open>Features\<close>

definition required_features :: "texture_format \<Rightarrow> features" where
  "required_features f =
    (case f of
      R8Unorm \<Rightarrow> features_empty | R8Snorm \<Rightarrow> features_empty | R8Uint \<Rightarrow> features_empty
    | R8Sint \<Rightarrow> features_empty | R16Uint \<Rightarrow> features_empty | R16Sint \<Rightarrow> features_empty
    | R16Float \<Rightarrow> features_empty | Rg8Unorm \<Rightarrow> features_empty | Rg8Snorm \<Rightarrow> features_empty
    | Rg8Uint \<Rightarrow> features_empty | Rg8Sint \<Rightarrow> features_empty | R32Uint \<Rightarrow> features_empty
    | R32Sint \<Rightarrow> features_empty | R32Float \<Rightarrow> features_empty | Rg16Uint \<Rightarrow> features_empty
    | Rg16Sint \<Rightarrow> features_empty | Rg16Float \<Rightarrow> features_empty | Rgba8Unorm \<Rightarrow> features_empty
    | Rgba8UnormSrgb \<Rightarrow> features_empty | Rgba8Snorm \<Rightarrow> features_empty
    | Rgba8Uint \<Rightarrow> features_empty | Rgba8Sint \<Rightarrow> features_empty | Bgra8Unorm \<Rightarrow> features_empty
    | Bgra8UnormSrgb \<Rightarrow> features_empty | Rgb9e5Ufloat \<Rightarrow> features_empty
    | Rgb10a2Uint \<Rightarrow> features_empty | Rgb10a2Unorm \<Rightarrow> features_empty
    | Rg11b10Ufloat \<Rightarrow> features_empty | Rg32Uint \<Rightarrow> features_empty | Rg32Sint \<Rightarrow> features_empty
    | Rg32Float \<Rightarrow> features_empty | Rgba16Uint \<Rightarrow> features_empty | Rgba16Sint \<Rightarrow> features_empty
    | Rgba16Float \<Rightarrow> features_empty | Rgba32Uint \<Rightarrow> features_empty
    | Rgba32Sint \<Rightarrow> features_empty | Rgba32Float \<Rightarrow> features_empty | Stencil8 \<Rightarrow> features_empty
    | Depth16Unorm \<Rightarrow> features_empty | Depth24Plus \<Rightarrow> features_empty
    | Depth24PlusStencil8 \<Rightarrow> features_empty | Depth32Float \<Rightarrow> features_empty
    | R64Uint \<Rightarrow> texture_int64_atomic | Depth32FloatStencil8 \<Rightarrow> depth32float_stencil8
    | NV12 \<Rightarrow> texture_format_nv12 | P010 \<Rightarrow> texture_format_p010
    | R16Unorm \<Rightarrow> texture_format_16bit_norm | R16Snorm \<Rightarrow> texture_format_16bit_norm
    | Rg16Unorm \<Rightarrow> texture_format_16bit_norm | Rg16Snorm \<Rightarrow> texture_format_16bit_norm
    | Rgba16Unorm \<Rightarrow> texture_format_16bit_norm | Rgba16Snorm \<Rightarrow> texture_format_16bit_norm
    | Bc1RgbaUnorm \<Rightarrow> texture_compression_bc | Bc1RgbaUnormSrgb \<Rightarrow> texture_compression_bc
    | Bc2RgbaUnorm \<Rightarrow> texture_compression_bc | Bc2RgbaUnormSrgb \<Rightarrow> texture_compression_bc
    | Bc3RgbaUnorm \<Rightarrow> texture_compression_bc | Bc3RgbaUnormSrgb \<Rightarrow> texture_compression_bc
    | Bc4RUnorm \<Rightarrow> texture_compression_bc | Bc4RSnorm \<Rightarrow> texture_compression_bc
    | Bc5RgUnorm \<Rightarrow> texture_compression_bc | Bc5RgSnorm \<Rightarrow> texture_compression_bc
    | Bc6hRgbUfloat \<Rightarrow> texture_compression_bc | Bc6hRgbFloat \<Rightarrow> texture_compression_bc
    | Bc7RgbaUnorm \<Rightarrow> texture_compression_bc | Bc7RgbaUnormSrgb \<Rightarrow> texture_compression_bc
    | Etc2Rgb8Unorm \<Rightarrow> texture_compression_etc2 | Etc2Rgb8UnormSrgb \<Rightarrow> texture_compression_etc2
    | Etc2Rgb8A1Unorm \<Rightarrow> texture_compression_etc2
    | Etc2Rgb8A1UnormSrgb \<Rightarrow> texture_compression_etc2
    | Etc2Rgba8Unorm \<Rightarrow> texture_compression_etc2
    | Etc2Rgba8UnormSrgb \<Rightarrow> texture_compression_etc2 | EacR11Unorm \<Rightarrow> texture_compression_etc2
    | EacR11Snorm \<Rightarrow> texture_compression_etc2 | EacRg11Unorm \<Rightarrow> texture_compression_etc2
    | EacRg11Snorm \<Rightarrow> texture_compression_etc2
    | Astc b ch \<Rightarrow> (case ch of AstcHdr \<Rightarrow> texture_compression_astc_hdr | AstcUnorm \<Rightarrow> texture_compression_astc | AstcUnormSrgb \<Rightarrow> texture_compression_astc))"

definition is_bcn :: "texture_format \<Rightarrow> bool" where
  "is_bcn f = (required_features f = texture_compression_bc)"

definition is_astc :: "texture_format \<Rightarrow> bool" where
  "is_astc f = (required_features f = texture_compression_astc
     \<or> required_features f = texture_compression_astc_hdr)"

section \<open>Sample types and guaranteed capabilities\<close>

definition sample_type ::
  "texture_format \<Rightarrow> texture_aspect option \<Rightarrow> features option \<Rightarrow> texture_sample_type option" where
  "sample_type f aspect device_features =
    (let float32_sample_type =
       Some (SampleFloat (features_contain
         (case device_features of Some d \<Rightarrow> d | None \<Rightarrow> features_empty) float32_filterable)) in
     (case f of
      R8Unorm \<Rightarrow> Some (SampleFloat True) | R8Snorm \<Rightarrow> Some (SampleFloat True)
    | Rg8Unorm \<Rightarrow> Some (SampleFloat True) | Rg8Snorm \<Rightarrow> Some (SampleFloat True)
    | Rgba8Unorm \<Rightarrow> Some (SampleFloat True) | Rgba8UnormSrgb \<Rightarrow> Some (SampleFloat True)
    | Rgba8Snorm \<Rightarrow> Some (SampleFloat True) | Bgra8Unorm \<Rightarrow> Some (SampleFloat True)
    | Bgra8UnormSrgb \<Rightarrow> Some (SampleFloat True) | R16Float \<Rightarrow> Some (SampleFloat True)
    | Rg16Float \<Rightarrow> Some (SampleFloat True) | Rgba16Float \<Rightarrow> Some (SampleFloat True)
    | Rgb10a2Unorm \<Rightarrow> Some (SampleFloat True) | Rg11b10Ufloat \<Rightarrow> Some (SampleFloat True)
    | R32Float \<Rightarrow> float32_sample_type | Rg32Float \<Rightarrow> float32_sample_type
    | Rgba32Float \<Rightarrow> float32_sample_type | R8Uint \<Rightarrow> Some SampleUint
    | Rg8Uint \<Rightarrow> Some SampleUint | Rgba8Uint \<Rightarrow> Some SampleUint | R16Uint \<Rightarrow> Some SampleUint
    | Rg16Uint \<Rightarrow> Some SampleUint | Rgba16Uint \<Rightarrow> Some SampleUint | R32Uint \<Rightarrow> Some SampleUint
    | R64Uint \<Rightarrow> Some SampleUint | Rg32Uint \<Rightarrow> Some SampleUint | Rgba32Uint \<Rightarrow> Some SampleUint
    | Rgb10a2Uint \<Rightarrow> Some SampleUint | R8Sint \<Rightarrow> Some SampleSint | Rg8Sint \<Rightarrow> Some SampleSint
    | Rgba8Sint \<Rightarrow> Some SampleSint | R16Sint \<Rightarrow> Some SampleSint | Rg16Sint \<Rightarrow> Some SampleSint
    | Rgba16Sint \<Rightarrow> Some SampleSint | R32Sint \<Rightarrow> Some SampleSint | Rg32Sint \<Rightarrow> Some SampleSint
    | Rgba32Sint \<Rightarrow> Some SampleSint | Stencil8 \<Rightarrow> Some SampleUint
    | Depth16Unorm \<Rightarrow> Some SampleDepth | Depth24Plus \<Rightarrow> Some SampleDepth
    | Depth32Float \<Rightarrow> Some SampleDepth
    | Depth24PlusStencil8 \<Rightarrow> (case aspect of Some DepthOnly \<Rightarrow> Some SampleDepth | Some StencilOnly \<Rightarrow> Some SampleUint | _ \<Rightarrow> None)
    | Depth32FloatStencil8 \<Rightarrow> (case aspect of Some DepthOnly \<Rightarrow> Some SampleDepth | Some StencilOnly \<Rightarrow> Some SampleUint | _ \<Rightarrow> None)
    | NV12 \<Rightarrow> (case aspect of Some Plane0 \<Rightarrow> Some (SampleFloat False) | Some Plane1 \<Rightarrow> Some (SampleFloat False) | _ \<Rightarrow> None)
    | P010 \<Rightarrow> (case aspect of Some Plane0 \<Rightarrow> Some (SampleFloat False) | Some Plane1 \<Rightarrow> Some (SampleFloat False) | _ \<Rightarrow> None)
    | R16Unorm \<Rightarrow> Some (SampleFloat True) | R16Snorm \<Rightarrow> Some (SampleFloat True)
    | Rg16Unorm \<Rightarrow> Some (SampleFloat True) | Rg16Snorm \<Rightarrow> Some (SampleFloat True)
    | Rgba16Unorm \<Rightarrow> Some (SampleFloat True) | Rgba16Snorm \<Rightarrow> Some (SampleFloat True)
    | Rgb9e5Ufloat \<Rightarrow> Some (SampleFloat True) | Bc1RgbaUnorm \<Rightarrow> Some (SampleFloat True)
    | Bc1RgbaUnormSrgb \<Rightarrow> Some (SampleFloat True) | Bc2RgbaUnorm \<Rightarrow> Some (SampleFloat True)
    | Bc2RgbaUnormSrgb \<Rightarrow> Some (SampleFloat True) | Bc3RgbaUnorm \<Rightarrow> Some (SampleFloat True)
    | Bc3RgbaUnormSrgb \<Rightarrow> Some (SampleFloat True) | Bc4RUnorm \<Rightarrow> Some (SampleFloat True)
    | Bc4RSnorm \<Rightarrow> Some (SampleFloat True) | Bc5RgUnorm \<Rightarrow> Some (SampleFloat True)
    | Bc5RgSnorm \<Rightarrow> Some (SampleFloat True) | Bc6hRgbUfloat \<Rightarrow> Some (SampleFloat True)
    | Bc6hRgbFloat \<Rightarrow> Some (SampleFloat True) | Bc7RgbaUnorm \<Rightarrow> Some (SampleFloat True)
    | Bc7RgbaUnormSrgb \<Rightarrow> Some (SampleFloat True) | Etc2Rgb8Unorm \<Rightarrow> Some (SampleFloat True)
    | Etc2Rgb8UnormSrgb \<Rightarrow> Some (SampleFloat True) | Etc2Rgb8A1Unorm \<Rightarrow> Some (SampleFloat True)
    | Etc2Rgb8A1UnormSrgb \<Rightarrow> Some (SampleFloat True)
    | Etc2Rgba8Unorm \<Rightarrow> Some (SampleFloat True) | Etc2Rgba8UnormSrgb \<Rightarrow> Some (SampleFloat True)
    | EacR11Unorm \<Rightarrow> Some (SampleFloat True) | EacR11Snorm \<Rightarrow> Some (SampleFloat True)
    | EacRg11Unorm \<Rightarrow> Some (SampleFloat True) | EacRg11Snorm \<Rightarrow> Some (SampleFloat True)
    | Astc b ch \<Rightarrow> Some (SampleFloat True)))"

text \<open>The bits of \<open>TextureUsages\<close> and of \<open>TextureFormatFeatureFlags\<close>.\<close>

type_synonym texture_usages = u32

definition tu_copy_src :: texture_usages where "tu_copy_src = 1"
definition tu_copy_dst :: texture_usages where "tu_copy_dst = 2"
definition tu_texture_binding :: texture_usages where "tu_texture_binding = 4"
definition tu_storage_binding :: texture_usages where "tu_storage_binding = 8"
definition tu_render_attachment :: texture_usages where "tu_render_attachment = 16"
definition tu_storage_atomic :: texture_usages where "tu_storage_atomic = 0x10000"
definition tu_transient :: texture_usages where "tu_transient = 0x20000"

lemmas usage_bits = tu_copy_src_def tu_copy_dst_def tu_texture_binding_def
  tu_storage_binding_def tu_render_attachment_def tu_storage_atomic_def tu_transient_def

type_synonym format_flags = u32

definition ff_filterable :: format_flags where "ff_filterable = 1"
definition ff_multisample_x2 :: format_flags where "ff_multisample_x2 = 2"
definition ff_multisample_x4 :: format_flags where "ff_multisample_x4 = 4"
definition ff_multisample_x8 :: format_flags where "ff_multisample_x8 = 8"
definition ff_multisample_x16 :: format_flags where "ff_multisample_x16 = 16"
definition ff_multisample_resolve :: format_flags where "ff_multisample_resolve = 32"
definition ff_storage_read_only :: format_flags where "ff_storage_read_only = 64"
definition ff_storage_write_only :: format_flags where "ff_storage_write_only = 128"
definition ff_storage_read_write :: format_flags where "ff_storage_read_write = 256"
definition ff_storage_atomic :: format_flags where "ff_storage_atomic = 512"
definition ff_blendable :: format_flags where "ff_blendable = 1024"

lemmas flag_bits = ff_filterable_def ff_multisample_x2_def ff_multisample_x4_def
  ff_multisample_x8_def ff_multisample_x16_def ff_multisample_resolve_def
  ff_storage_read_only_def ff_storage_write_only_def ff_storage_read_write_def
  ff_storage_atomic_def ff_blendable_def

record texture_format_features =
  allowed_usages :: texture_usages
  format_flags :: format_flags

definition sample_count_supported :: "format_flags \<Rightarrow> u32 \<Rightarrow> bool" where
  "sample_count_supported flags count =
    (if count = 1 then True
     else if count = 2 then contains flags ff_multisample_x2
     else if count = 4 then contains flags ff_multisample_x4
     else if count = 8 then contains flags ff_multisample_x8
     else if count = 16 then contains flags ff_multisample_x16
     else False)"

definition supported_sample_counts :: "format_flags \<Rightarrow> u32 list" where
  "supported_sample_counts flags = filter (sample_count_supported flags) [1, 2, 4, 8, 16]"

text \<open>The table of \<open>guaranteed_format_features\<close>, over the local names the source binds for it.\<close>

definition format_table :: "features \<Rightarrow> texture_format \<Rightarrow> format_flags \<times> texture_usages" where
  "format_table device_features f =
    (let none = 0;
         msaa = ff_multisample_x4;
         msaa_resolve = msaa OR ff_multisample_resolve;
         s_ro_wo = ff_storage_read_only OR ff_storage_write_only;
         s_all = s_ro_wo OR ff_storage_read_write;
         basic = tu_copy_src OR tu_copy_dst OR tu_texture_binding;
         attachment = basic OR tu_render_attachment OR tu_transient;
         storage = basic OR tu_storage_binding;
         binding = tu_texture_binding;
         all_flags = attachment OR storage OR binding;
         atomic_64 =
           (if features_contain device_features texture_atomic
            then storage OR binding OR tu_storage_atomic else storage OR binding);
         atomic = attachment OR atomic_64;
         (rg11b10f_f, rg11b10f_u) =
           (if features_contain device_features rg11b10ufloat_renderable
            then (msaa_resolve, attachment) else (msaa, basic));
         (bgra8unorm_f, bgra8unorm) =
           (if features_contain device_features bgra8unorm_storage
            then (msaa_resolve OR ff_storage_write_only, attachment OR tu_storage_binding)
            else (msaa_resolve, attachment))
     in (case f of
      R8Unorm \<Rightarrow> (msaa_resolve, attachment) | R8Snorm \<Rightarrow> (none, basic)
    | R8Uint \<Rightarrow> (msaa, attachment) | R8Sint \<Rightarrow> (msaa, attachment)
    | R16Uint \<Rightarrow> (msaa, attachment) | R16Sint \<Rightarrow> (msaa, attachment)
    | R16Float \<Rightarrow> (msaa_resolve, attachment) | Rg8Unorm \<Rightarrow> (msaa_resolve, attachment)
    | Rg8Snorm \<Rightarrow> (none, basic) | Rg8Uint \<Rightarrow> (msaa, attachment) | Rg8Sint \<Rightarrow> (msaa, attachment)
    | R32Uint \<Rightarrow> (s_all, atomic) | R32Sint \<Rightarrow> (s_all, atomic)
    | R32Float \<Rightarrow> (msaa OR s_all, all_flags) | Rg16Uint \<Rightarrow> (msaa, attachment)
    | Rg16Sint \<Rightarrow> (msaa, attachment) | Rg16Float \<Rightarrow> (msaa_resolve, attachment)
    | Rgba8Unorm \<Rightarrow> (msaa_resolve OR s_ro_wo, all_flags)
    | Rgba8UnormSrgb \<Rightarrow> (msaa_resolve, attachment) | Rgba8Snorm \<Rightarrow> (s_ro_wo, storage)
    | Rgba8Uint \<Rightarrow> (msaa OR s_ro_wo, all_flags) | Rgba8Sint \<Rightarrow> (msaa OR s_ro_wo, all_flags)
    | Bgra8Unorm \<Rightarrow> (bgra8unorm_f, bgra8unorm) | Bgra8UnormSrgb \<Rightarrow> (msaa_resolve, attachment)
    | Rgb10a2Uint \<Rightarrow> (msaa, attachment) | Rgb10a2Unorm \<Rightarrow> (msaa_resolve, attachment)
    | Rg11b10Ufloat \<Rightarrow> (rg11b10f_f, rg11b10f_u) | R64Uint \<Rightarrow> (s_ro_wo, atomic_64)
    | Rg32Uint \<Rightarrow> (s_ro_wo, all_flags) | Rg32Sint \<Rightarrow> (s_ro_wo, all_flags)
    | Rg32Float \<Rightarrow> (s_ro_wo, all_flags) | Rgba16Uint \<Rightarrow> (msaa OR s_ro_wo, all_flags)
    | Rgba16Sint \<Rightarrow> (msaa OR s_ro_wo, all_flags)
    | Rgba16Float \<Rightarrow> (msaa_resolve OR s_ro_wo, all_flags) | Rgba32Uint \<Rightarrow> (s_ro_wo, all_flags)
    | Rgba32Sint \<Rightarrow> (s_ro_wo, all_flags) | Rgba32Float \<Rightarrow> (s_ro_wo, all_flags)
    | Stencil8 \<Rightarrow> (msaa, attachment) | Depth16Unorm \<Rightarrow> (msaa, attachment)
    | Depth24Plus \<Rightarrow> (msaa, attachment) | Depth24PlusStencil8 \<Rightarrow> (msaa, attachment)
    | Depth32Float \<Rightarrow> (msaa, attachment) | Depth32FloatStencil8 \<Rightarrow> (msaa, attachment)
    | NV12 \<Rightarrow> (none, binding) | P010 \<Rightarrow> (none, binding)
    | R16Unorm \<Rightarrow> (msaa OR s_ro_wo, storage) | R16Snorm \<Rightarrow> (msaa OR s_ro_wo, storage)
    | Rg16Unorm \<Rightarrow> (msaa OR s_ro_wo, storage) | Rg16Snorm \<Rightarrow> (msaa OR s_ro_wo, storage)
    | Rgba16Unorm \<Rightarrow> (msaa OR s_ro_wo, storage) | Rgba16Snorm \<Rightarrow> (msaa OR s_ro_wo, storage)
    | Rgb9e5Ufloat \<Rightarrow> (none, basic) | Bc1RgbaUnorm \<Rightarrow> (none, basic)
    | Bc1RgbaUnormSrgb \<Rightarrow> (none, basic) | Bc2RgbaUnorm \<Rightarrow> (none, basic)
    | Bc2RgbaUnormSrgb \<Rightarrow> (none, basic) | Bc3RgbaUnorm \<Rightarrow> (none, basic)
    | Bc3RgbaUnormSrgb \<Rightarrow> (none, basic) | Bc4RUnorm \<Rightarrow> (none, basic)
    | Bc4RSnorm \<Rightarrow> (none, basic) | Bc5RgUnorm \<Rightarrow> (none, basic) | Bc5RgSnorm \<Rightarrow> (none, basic)
    | Bc6hRgbUfloat \<Rightarrow> (none, basic) | Bc6hRgbFloat \<Rightarrow> (none, basic)
    | Bc7RgbaUnorm \<Rightarrow> (none, basic) | Bc7RgbaUnormSrgb \<Rightarrow> (none, basic)
    | Etc2Rgb8Unorm \<Rightarrow> (none, basic) | Etc2Rgb8UnormSrgb \<Rightarrow> (none, basic)
    | Etc2Rgb8A1Unorm \<Rightarrow> (none, basic) | Etc2Rgb8A1UnormSrgb \<Rightarrow> (none, basic)
    | Etc2Rgba8Unorm \<Rightarrow> (none, basic) | Etc2Rgba8UnormSrgb \<Rightarrow> (none, basic)
    | EacR11Unorm \<Rightarrow> (none, basic) | EacR11Snorm \<Rightarrow> (none, basic)
    | EacRg11Unorm \<Rightarrow> (none, basic) | EacRg11Snorm \<Rightarrow> (none, basic)
    | Astc b ch \<Rightarrow> (none, basic)))"

definition guaranteed_format_features :: "texture_format \<Rightarrow> features \<Rightarrow> texture_format_features" where
  "guaranteed_format_features f device_features =
    (let (flags, usages) = format_table device_features f;
         is_filterable = (sample_type f None (Some device_features) = Some (SampleFloat True));
         is_blendable =
           (sample_type f None None = Some (SampleFloat True)
            \<or> features_contain device_features float32_blendable
              \<and> (f = R32Float \<or> f = Rg32Float \<or> f = Rgba32Float));
         flags = set_flag flags ff_filterable is_filterable;
         flags = set_flag flags ff_blendable is_blendable;
         flags = set_flag flags ff_storage_atomic (contains usages tu_storage_atomic)
     in \<lparr>allowed_usages = usages, format_flags = flags\<rparr>)"

section \<open>The sRGB pairing\<close>

definition remove_srgb_suffix :: "texture_format \<Rightarrow> texture_format" where
  "remove_srgb_suffix f =
    (case f of
      Rgba8UnormSrgb \<Rightarrow> Rgba8Unorm | Bgra8UnormSrgb \<Rightarrow> Bgra8Unorm
    | Bc1RgbaUnormSrgb \<Rightarrow> Bc1RgbaUnorm | Bc2RgbaUnormSrgb \<Rightarrow> Bc2RgbaUnorm
    | Bc3RgbaUnormSrgb \<Rightarrow> Bc3RgbaUnorm | Bc7RgbaUnormSrgb \<Rightarrow> Bc7RgbaUnorm
    | Etc2Rgb8UnormSrgb \<Rightarrow> Etc2Rgb8Unorm | Etc2Rgb8A1UnormSrgb \<Rightarrow> Etc2Rgb8A1Unorm
    | Etc2Rgba8UnormSrgb \<Rightarrow> Etc2Rgba8Unorm
    | Astc b ch \<Rightarrow> (if ch = AstcUnormSrgb then Astc b AstcUnorm else f) | _ \<Rightarrow> f)"

definition add_srgb_suffix :: "texture_format \<Rightarrow> texture_format" where
  "add_srgb_suffix f =
    (case f of
      Rgba8Unorm \<Rightarrow> Rgba8UnormSrgb | Bgra8Unorm \<Rightarrow> Bgra8UnormSrgb
    | Bc1RgbaUnorm \<Rightarrow> Bc1RgbaUnormSrgb | Bc2RgbaUnorm \<Rightarrow> Bc2RgbaUnormSrgb
    | Bc3RgbaUnorm \<Rightarrow> Bc3RgbaUnormSrgb | Bc7RgbaUnorm \<Rightarrow> Bc7RgbaUnormSrgb
    | Etc2Rgb8Unorm \<Rightarrow> Etc2Rgb8UnormSrgb | Etc2Rgb8A1Unorm \<Rightarrow> Etc2Rgb8A1UnormSrgb
    | Etc2Rgba8Unorm \<Rightarrow> Etc2Rgba8UnormSrgb
    | Astc b ch \<Rightarrow> (if ch = AstcUnorm then Astc b AstcUnormSrgb else f) | _ \<Rightarrow> f)"

definition is_srgb :: "texture_format \<Rightarrow> bool" where
  "is_srgb f = (f \<noteq> remove_srgb_suffix f)"

section \<open>What the tables agree on\<close>

lemmas aspect_tables = has_color_aspect_def has_depth_aspect_def has_stencil_aspect_def
  is_depth_stencil_format_def is_combined_depth_stencil_format_def intersects_def contains_def
  channel_bits

lemma has_depth_aspect_iff [simp]:
  "has_depth_aspect f \<longleftrightarrow> f = Depth16Unorm \<or> f = Depth24Plus \<or> f = Depth24PlusStencil8
     \<or> f = Depth32Float \<or> f = Depth32FloatStencil8"
  by (cases f) (simp_all add: channels_def aspect_tables)

lemma has_stencil_aspect_iff [simp]:
  "has_stencil_aspect f \<longleftrightarrow> f = Stencil8 \<or> f = Depth24PlusStencil8 \<or> f = Depth32FloatStencil8"
  by (cases f) (simp_all add: channels_def aspect_tables)

lemma is_depth_stencil_format_iff [simp]:
  "is_depth_stencil_format f \<longleftrightarrow> has_depth_aspect f \<or> has_stencil_aspect f"
  by (cases f) (simp_all add: channels_def is_depth_stencil_format_def intersects_def channel_bits)

lemma is_combined_iff [simp]:
  "is_combined_depth_stencil_format f \<longleftrightarrow> f = Depth24PlusStencil8 \<or> f = Depth32FloatStencil8"
  by (cases f) (simp_all add: channels_def is_combined_depth_stencil_format_def contains_def
      channel_bits)

lemma is_multi_planar_iff [simp]: "is_multi_planar_format f \<longleftrightarrow> f = NV12 \<or> f = P010"
  by (cases f) (simp_all add: is_multi_planar_format_def planes_def)

lemma has_color_aspect_iff:
  "has_color_aspect f \<longleftrightarrow> \<not> is_depth_stencil_format f \<and> \<not> is_multi_planar_format f"
  by (cases f) (simp_all add: has_color_aspect_def channels_def channel_bits intersects_def)

text \<open>\<open>aspect_specific_format\<close> resolves an aspect exactly when the format has it: every
  aspect of a format that is not multi-planar, the stencil or depth part when the format has
  one, a plane when its number is below the plane count. The format it returns has the copy
  footprint, the component count and the texel block of the aspect it was asked for, and is
  again a single aspect unless all aspects were asked for.\<close>

theorem aspect_specific_format_exact:
  "(aspect_specific_format f a \<noteq> None \<longleftrightarrow>
     (case a of
        AspectAll \<Rightarrow> \<not> is_multi_planar_format f
      | StencilOnly \<Rightarrow> has_stencil_aspect f
      | DepthOnly \<Rightarrow> has_depth_aspect f
      | _ \<Rightarrow> (\<exists>n p. planes f = Some n \<and> to_plane a = Some p \<and> p < n)))
   \<and> (case aspect_specific_format f a of
        None \<Rightarrow> True
      | Some g \<Rightarrow>
          block_copy_size g None = block_copy_size f (Some a)
          \<and> components g = components_with_aspect f a
          \<and> block_dimensions g = block_dimensions f
          \<and> (if a = AspectAll then g = f
             else \<not> is_combined_depth_stencil_format g \<and> \<not> is_multi_planar_format g))"
  by (cases f; cases a)
    (auto simp: aspect_specific_format_def planes_def to_plane_def block_copy_size_def
      components_def components_with_aspect_def block_dimensions_def)

lemma srgb_same_layout:
  "block_dimensions (remove_srgb_suffix f) = block_dimensions f"
  "block_copy_size (remove_srgb_suffix f) a = block_copy_size f a"
  "channels (remove_srgb_suffix f) = channels f"
  "required_features (remove_srgb_suffix f) = required_features f"
  "sample_type (remove_srgb_suffix f) a d = sample_type f a d"
  "target_pixel_byte_cost (remove_srgb_suffix f) = target_pixel_byte_cost f"
  "components_with_aspect (remove_srgb_suffix f) b = components_with_aspect f b"
  by (cases f; simp add: remove_srgb_suffix_def block_dimensions_def block_copy_size_def
      channels_def required_features_def sample_type_def target_pixel_byte_cost_def
      components_with_aspect_def)+

text \<open>Adding and removing the sRGB suffix pair every sRGB format with one linear format of the
  same texel block, copy and render footprints, channels, components, required features and
  sample type: they undo each other, a format without the suffix is not sRGB, and a format
  that has no sRGB partner is left alone.\<close>

theorem srgb_pairing:
  "remove_srgb_suffix (add_srgb_suffix f) = remove_srgb_suffix f
   \<and> add_srgb_suffix (remove_srgb_suffix f) = add_srgb_suffix f
   \<and> \<not> is_srgb (remove_srgb_suffix f)
   \<and> (is_srgb (add_srgb_suffix f) \<or> add_srgb_suffix f = f)
   \<and> (if is_srgb f then add_srgb_suffix (remove_srgb_suffix f) = f
        else remove_srgb_suffix (add_srgb_suffix f) = f)
   \<and> block_dimensions (remove_srgb_suffix f) = block_dimensions f
   \<and> block_copy_size (remove_srgb_suffix f) a = block_copy_size f a
   \<and> channels (remove_srgb_suffix f) = channels f
   \<and> required_features (remove_srgb_suffix f) = required_features f
   \<and> sample_type (remove_srgb_suffix f) a d = sample_type f a d
   \<and> target_pixel_byte_cost (remove_srgb_suffix f) = target_pixel_byte_cost f
   \<and> components_with_aspect (remove_srgb_suffix f) b = components_with_aspect f b"
proof -
  have inv: "remove_srgb_suffix (add_srgb_suffix f) = remove_srgb_suffix f"
    "add_srgb_suffix (remove_srgb_suffix f) = add_srgb_suffix f"
    "remove_srgb_suffix (remove_srgb_suffix f) = remove_srgb_suffix f"
    "remove_srgb_suffix f = f \<or> add_srgb_suffix f = f"
    by (cases f; simp add: remove_srgb_suffix_def add_srgb_suffix_def)+
  then have "is_srgb (add_srgb_suffix f) \<or> add_srgb_suffix f = f"
    "\<not> is_srgb (remove_srgb_suffix f)"
    "if is_srgb f then add_srgb_suffix (remove_srgb_suffix f) = f
     else remove_srgb_suffix (add_srgb_suffix f) = f"
    by (auto simp: is_srgb_def)
  with inv show ?thesis by (simp add: srgb_same_layout)
qed

text \<open>The render footprint agrees with the copy footprint: a format has a per-pixel cost as a
  colour target exactly when it has a component alignment, such a format is uncompressed and
  has a colour aspect, its alignment divides its copy size, its cost is the copy size or
  twice it, and no cost exceeds the documented maximum of 16 bytes.\<close>

theorem render_footprint:
  "case target_pixel_byte_cost f of
     None \<Rightarrow> target_component_alignment f = None
   | Some c \<Rightarrow>
       (\<exists>al s. target_component_alignment f = Some al \<and> block_copy_size f None = Some s
          \<and> unat al dvd unat s \<and> s \<le> c \<and> c \<le> 16
          \<and> unat s dvd unat c \<and> unat c \<le> 2 * unat s)
       \<and> has_color_aspect f \<and> \<not> is_compressed f"
  by (cases f)
    (simp_all add: target_pixel_byte_cost_def target_component_alignment_def block_copy_size_def
      is_compressed_def block_dimensions_def has_color_aspect_def channels_def channel_bits
      intersects_def)

section \<open>The guaranteed capabilities\<close>

lemma format_table_binding: "contains (snd (format_table d f)) tu_texture_binding"
  by (cases "features_contain d texture_atomic"; cases "features_contain d rg11b10ufloat_renderable";
      cases "features_contain d bgra8unorm_storage"; cases f;
      simp add: format_table_def Let_def usage_bits flag_bits contains_def intersects_def)

lemma format_table_transient: "contains (snd (format_table d f)) tu_transient \<longleftrightarrow> contains (snd (format_table d f)) tu_render_attachment"
  by (cases "features_contain d texture_atomic"; cases "features_contain d rg11b10ufloat_renderable";
      cases "features_contain d bgra8unorm_storage"; cases f;
      simp add: format_table_def Let_def usage_bits flag_bits contains_def intersects_def)

lemma format_table_storage: "contains (snd (format_table d f)) tu_storage_binding \<longleftrightarrow>
        intersects (fst (format_table d f)) (ff_storage_read_only OR ff_storage_write_only OR ff_storage_read_write)"
  by (cases "features_contain d texture_atomic"; cases "features_contain d rg11b10ufloat_renderable";
      cases "features_contain d bgra8unorm_storage"; cases f;
      simp add: format_table_def Let_def usage_bits flag_bits contains_def intersects_def)

lemma format_table_atomic: "contains (snd (format_table d f)) tu_storage_atomic \<longleftrightarrow>
        features_contain d texture_atomic \<and> (f = R32Uint \<or> f = R32Sint \<or> f = R64Uint)"
  by (cases "features_contain d texture_atomic"; cases "features_contain d rg11b10ufloat_renderable";
      cases "features_contain d bgra8unorm_storage"; cases f;
      simp add: format_table_def Let_def usage_bits flag_bits contains_def intersects_def)

lemma format_table_samples: "\<not> contains (fst (format_table d f)) ff_multisample_x2 \<and> \<not> contains (fst (format_table d f)) ff_multisample_x8 \<and> \<not> contains (fst (format_table d f)) ff_multisample_x16"
  by (cases "features_contain d texture_atomic"; cases "features_contain d rg11b10ufloat_renderable";
      cases "features_contain d bgra8unorm_storage"; cases f;
      simp add: format_table_def Let_def usage_bits flag_bits contains_def intersects_def)


lemmas format_table_facts = format_table_binding format_table_transient format_table_storage
  format_table_atomic format_table_samples

lemma guaranteed_usages [simp]:
  "allowed_usages (guaranteed_format_features f d) = snd (format_table d f)"
  by (simp add: guaranteed_format_features_def Let_def split: prod.split)

lemma guaranteed_flags_other:
  assumes "\<not> intersects (ff_filterable OR ff_blendable OR ff_storage_atomic) y"
  shows "contains (format_flags (guaranteed_format_features f d)) y
           \<longleftrightarrow> contains (fst (format_table d f)) y"
    and "intersects (format_flags (guaranteed_format_features f d)) y
           \<longleftrightarrow> intersects (fst (format_table d f)) y"
proof -
  have "\<not> intersects ff_filterable y" "\<not> intersects ff_blendable y"
    "\<not> intersects ff_storage_atomic y"
    using assms by (auto simp: intersects_bits bit_or_iff)
  then show "contains (format_flags (guaranteed_format_features f d)) y
           \<longleftrightarrow> contains (fst (format_table d f)) y"
    and "intersects (format_flags (guaranteed_format_features f d)) y
           \<longleftrightarrow> intersects (fst (format_table d f)) y"
    by (simp_all add: guaranteed_format_features_def Let_def contains_set_flag_other
        intersects_set_flag_other split: prod.split)
qed

lemma guaranteed_storage:
  "intersects (format_flags (guaranteed_format_features f d))
     (ff_storage_read_only OR ff_storage_write_only OR ff_storage_read_write)
   \<longleftrightarrow> contains (snd (format_table d f)) tu_storage_binding"
proof -
  have "\<not> intersects (ff_filterable OR ff_blendable OR ff_storage_atomic)
     (ff_storage_read_only OR ff_storage_write_only OR ff_storage_read_write)"
    by (simp add: flag_bits intersects_def)
  from guaranteed_flags_other(2) [OF this] show ?thesis by (simp only: format_table_storage)
qed

lemma guaranteed_atomic:
  "contains (format_flags (guaranteed_format_features f d)) ff_storage_atomic
   \<longleftrightarrow> contains (snd (format_table d f)) tu_storage_atomic"
  by (simp add: guaranteed_format_features_def Let_def contains_set_flag_same
      ff_storage_atomic_def split: prod.split)

lemma guaranteed_sample_counts:
  "supported_sample_counts (format_flags (guaranteed_format_features f d)) =
     (if contains (format_flags (guaranteed_format_features f d)) ff_multisample_x4
      then [1, 4] else [1])"
  using format_table_samples [of d f]
  by (simp add: supported_sample_counts_def sample_count_supported_def
      guaranteed_flags_other(1) flag_bits intersects_def)

text \<open>The capabilities \<open>guaranteed_format_features\<close> promises are consistent for every format and
  every device: every format can be sampled; it may be transient exactly when it may be
  rendered to; it may be bound as storage exactly when some storage access is flagged; the
  atomic usage and the atomic flag agree and are given to the three integer formats exactly
  under the texture atomics feature; and the only multisample count is 4, next to 1.\<close>

theorem guaranteed_features_consistent:
  "let u = allowed_usages (guaranteed_format_features f d);
       fl = format_flags (guaranteed_format_features f d)
   in contains u tu_texture_binding
   \<and> (contains u tu_transient \<longleftrightarrow> contains u tu_render_attachment)
   \<and> (contains u tu_storage_binding \<longleftrightarrow>
        intersects fl (ff_storage_read_only OR ff_storage_write_only OR ff_storage_read_write))
   \<and> (contains u tu_storage_atomic \<longleftrightarrow> contains fl ff_storage_atomic)
   \<and> (contains u tu_storage_atomic \<longleftrightarrow>
        features_contain d texture_atomic \<and> (f = R32Uint \<or> f = R32Sint \<or> f = R64Uint))
   \<and> supported_sample_counts fl = (if contains fl ff_multisample_x4 then [1, 4] else [1])"
  unfolding Let_def
  by (intro conjI)
    (simp_all only: guaranteed_usages guaranteed_storage guaranteed_atomic format_table_facts
      guaranteed_sample_counts)

end
