(* ===== verification/Extents.thy ===== *)
theory Extents
  imports Formats
begin

unbundle bit_operations_syntax

text \<open>
  Texture extents and descriptors, \<open>wgpu-types/src/origin_extent.rs\<close> and
  \<open>wgpu-types/src/texture.rs\<close>: mip chains, the physical size of a mip level, the number of
  array layers, subresource ranges, and the memory footprint of
  \<open>wgpu-types/src/texture/format.rs\<close>. Arithmetic is on words and wraps; a shift uses the
  low bits of its amount, as the compiled \<open>>>\<close> does.
\<close>

section \<open>Integer operations of the standard library\<close>

text \<open>\<open>div_ceil\<close>, \<open>>>\<close>, \<open>leading_zeros\<close>, \<open>is_multiple_of\<close>.\<close>

definition div_ceil :: "'a::len word \<Rightarrow> 'a word \<Rightarrow> 'a word" where
  "div_ceil x y = (if x mod y = 0 then x div y else x div y + 1)"

definition shr32 :: "u32 \<Rightarrow> u32 \<Rightarrow> u32" where
  "shr32 x n = drop_bit (unat (n AND 31)) x"

fun bit_length :: "nat \<Rightarrow> nat" where
  "bit_length n = (if n = 0 then 0 else Suc (bit_length (n div 2)))"

declare bit_length.simps [simp del]

definition leading_zeros32 :: "u32 \<Rightarrow> u32" where
  "leading_zeros32 x = of_nat (32 - bit_length (unat x))"

definition is_multiple_of :: "'a::len word \<Rightarrow> 'a word \<Rightarrow> bool" where
  "is_multiple_of x y = (if y = 0 then x = 0 else x mod y = 0)"

lemma bit_length_le: "n < 2 ^ k \<Longrightarrow> bit_length n \<le> k"
proof (induction k arbitrary: n)
  case 0
  then show ?case by (simp add: bit_length.simps)
next
  case (Suc k)
  then have "n div 2 < 2 ^ k" by auto
  with Suc.IH show ?case by (simp add: bit_length.simps [of n])
qed

lemma less_bit_length: "k < bit_length n \<longleftrightarrow> n div 2 ^ k \<noteq> 0"
proof (induction k arbitrary: n)
  case 0
  then show ?case by (simp add: bit_length.simps [of n])
next
  case (Suc k)
  then show ?case
    by (cases "n = 0") (simp_all add: bit_length.simps [of n] bit_length.simps [of 0] div_mult2_eq)
qed

lemma unat_div_ceil:
  fixes x y :: "'a::len word"
  assumes "y \<noteq> 0"
  shows "unat (div_ceil x y) = (unat x + unat y - 1) div unat y"
proof -
  have y: "0 < unat y" using assms by (simp add: unat_gt_0)
  show ?thesis
  proof (cases "x mod y = 0")
    case True
    then have "unat x mod unat y = 0" by (metis unat_0 unat_mod)
    then obtain k where k: "unat x = unat y * k" by (metis dvdE mod_0_imp_dvd)
    have "(unat y * k + unat y - 1) div unat y = k"
      using y by (intro div_nat_eqI) (auto simp: algebra_simps)
    with True k y show ?thesis by (simp add: div_ceil_def unat_div)
  next
    case False
    then have m: "unat x mod unat y \<noteq> 0" by (metis unat_0 unat_mod unsigned_eq_0_iff)
    have "unat x div unat y < unat x \<or> unat x div unat y + 1 < 2 ^ LENGTH('a)"
    proof (cases "unat y = 1")
      case True then show ?thesis using m by simp
    next
      case False
      with y have "1 < unat y" by simp
      moreover have "0 < unat x" using m by (cases "unat x = 0") auto
      ultimately show ?thesis by simp
    qed
    moreover have "unat x < 2 ^ LENGTH('a)" by (rule unsigned_less)
    ultimately have "unat x div unat y + 1 < 2 ^ LENGTH('a)" by linarith
    then have "unat (x div y + 1) = unat x div unat y + 1"
      by (simp add: unat_word_ariths unat_div)
    moreover have "(unat x + unat y - 1) div unat y = unat x div unat y + 1"
    proof -
      define q r where "q = unat x div unat y" and "r = unat x mod unat y"
      have x: "unat x = unat y * q + r" and r: "r < unat y" "r \<noteq> 0"
        using y m by (simp_all add: q_def r_def)
      have "unat x + unat y - 1 = unat y * (q + 1) + (r - 1)" using x r by (simp add: algebra_simps)
      also have "\<dots> div unat y = q + 1"
        by (rule div_nat_eqI) (use r in \<open>simp_all add: algebra_simps\<close>)
      finally show ?thesis by (simp add: q_def)
    qed
    ultimately show ?thesis using False by (simp add: div_ceil_def)
  qed
qed

lemma div_ceil_bounds:
  fixes x y :: nat
  assumes "0 < y"
  shows "x \<le> ((x + y - 1) div y) * y" and "((x + y - 1) div y) * y < x + y"
proof -
  define q r where "q = (x + y - 1) div y" and "r = (x + y - 1) mod y"
  have "x + y - 1 = y * q + r" "r < y" using assms by (simp_all add: q_def r_def)
  with assms show "x \<le> ((x + y - 1) div y) * y" and "((x + y - 1) div y) * y < x + y"
    unfolding q_def [symmetric] by (simp_all add: algebra_simps)
qed

lemma div_ceil_le: "0 < c \<Longrightarrow> (x + c - 1) div c \<le> x" for x c :: nat
proof (cases x)
  case (Suc y)
  assume "0 < c"
  then have "(y + c) div c = y div c + 1" by (simp add: div_add_self2)
  moreover have "y div c \<le> y" by simp
  ultimately show ?thesis using Suc by simp
qed simp

section \<open>Extents and descriptors\<close>

record origin3d =
  org_x :: u32
  org_y :: u32
  org_z :: u32

record extent3d =
  ext_width :: u32
  ext_height :: u32
  depth_or_array_layers :: u32

datatype texture_dimension = D1 | D2 | D3

datatype texture_view_dimension = ViewD1 | ViewD2 | ViewD2Array | ViewCube | ViewCubeArray | ViewD3

definition compatible_texture_dimension :: "texture_view_dimension \<Rightarrow> texture_dimension" where
  "compatible_texture_dimension v =
    (case v of ViewD1 \<Rightarrow> D1 | ViewD2 \<Rightarrow> D2 | ViewD2Array \<Rightarrow> D2 | ViewCube \<Rightarrow> D2
     | ViewCubeArray \<Rightarrow> D2 | ViewD3 \<Rightarrow> D3)"

definition physical_size :: "extent3d \<Rightarrow> texture_format \<Rightarrow> extent3d" where
  "physical_size s f =
    (let (block_width, block_height) = block_dimensions f
     in \<lparr>ext_width = div_ceil (ext_width s) block_width * block_width,
         ext_height = div_ceil (ext_height s) block_height * block_height,
         depth_or_array_layers = depth_or_array_layers s\<rparr>)"

definition max_mips :: "extent3d \<Rightarrow> texture_dimension \<Rightarrow> u32" where
  "max_mips s dim =
    (case dim of
       D1 \<Rightarrow> 1
     | D2 \<Rightarrow> 32 - leading_zeros32 (max (ext_width s) (ext_height s))
     | D3 \<Rightarrow> 32 - leading_zeros32
               (max (ext_width s) (max (ext_height s) (depth_or_array_layers s))))"

definition mip_level_size :: "extent3d \<Rightarrow> u32 \<Rightarrow> texture_dimension \<Rightarrow> extent3d" where
  "mip_level_size s level dim =
    \<lparr>ext_width = max 1 (shr32 (ext_width s) level),
     ext_height = (case dim of D1 \<Rightarrow> 1 | _ \<Rightarrow> max 1 (shr32 (ext_height s) level)),
     depth_or_array_layers =
       (case dim of D1 \<Rightarrow> 1 | D2 \<Rightarrow> depth_or_array_layers s
        | D3 \<Rightarrow> max 1 (shr32 (depth_or_array_layers s) level))\<rparr>"

text \<open>The label, which only names the texture, is left out.\<close>

record texture_descriptor =
  td_size :: extent3d
  td_mip_level_count :: u32
  td_sample_count :: u32
  td_dimension :: texture_dimension
  td_format :: texture_format
  td_usage :: texture_usages
  td_view_formats :: "texture_format list"

definition desc_mip_level_size :: "texture_descriptor \<Rightarrow> u32 \<Rightarrow> extent3d option" where
  "desc_mip_level_size desc level =
    (if td_mip_level_count desc \<le> level then None
     else Some (mip_level_size (td_size desc) level (td_dimension desc)))"

definition compute_render_extent :: "texture_descriptor \<Rightarrow> u32 \<Rightarrow> u32 option \<Rightarrow> extent3d option" where
  "compute_render_extent desc mip_level plane = do {
     sz \<leftarrow> desc_mip_level_size desc mip_level;
     (w_subsampling, h_subsampling) \<leftarrow> subsampling_factors (td_format desc) plane;
     Some \<lparr>ext_width = ext_width sz div w_subsampling,
           ext_height = ext_height sz div h_subsampling, depth_or_array_layers = 1\<rparr>
   }"

definition array_layer_count :: "texture_descriptor \<Rightarrow> u32" where
  "array_layer_count desc =
    (case td_dimension desc of
       D1 \<Rightarrow> 1 | D3 \<Rightarrow> 1 | D2 \<Rightarrow> depth_or_array_layers (td_size desc))"

text \<open>
  The bytes one texel block is taken to occupy; \<open>None\<close> is the \<open>unimplemented!\<close> of the source.
\<close>

definition approximate_block_size :: "texture_format \<Rightarrow> u32 option" where
  "approximate_block_size f =
    (case block_copy_size f None of
       Some s \<Rightarrow> Some s
     | None \<Rightarrow>
         (case f of
            Depth16Unorm \<Rightarrow> Some 2 | Depth24Plus \<Rightarrow> Some 4 | Depth24PlusStencil8 \<Rightarrow> Some 4
          | Depth32Float \<Rightarrow> Some 4 | Depth32FloatStencil8 \<Rightarrow> Some 8 | Stencil8 \<Rightarrow> Some 1
          | NV12 \<Rightarrow> Some 3 | P010 \<Rightarrow> Some 6 | _ \<Rightarrow> None))"

definition theoretical_memory_footprint :: "texture_format \<Rightarrow> extent3d \<Rightarrow> u64 option" where
  "theoretical_memory_footprint f sz =
    (let (block_width, block_height) = block_dimensions f;
         width_blocks = (ucast (div_ceil (ext_width sz) block_width) :: u64);
         height_blocks = (ucast (div_ceil (ext_height sz) block_height) :: u64);
         total_blocks = width_blocks * height_blocks * ucast (depth_or_array_layers sz)
     in map_option (\<lambda>s. total_blocks * ucast s) (approximate_block_size f))"

record image_subresource_range =
  isr_aspect :: texture_aspect
  isr_base_mip_level :: u32
  isr_mip_level_count :: "u32 option"
  isr_base_array_layer :: u32
  isr_array_layer_count :: "u32 option"

definition unwrap_or :: "'a option \<Rightarrow> 'a \<Rightarrow> 'a" where
  "unwrap_or x d = (case x of Some y \<Rightarrow> y | None \<Rightarrow> d)"

definition is_full_resource :: "image_subresource_range \<Rightarrow> texture_format \<Rightarrow> u32 \<Rightarrow> u32 \<Rightarrow> bool" where
  "is_full_resource r f mip_levels array_layers \<longleftrightarrow>
     Some f = aspect_specific_format f (isr_aspect r)
     \<and> isr_base_mip_level r = 0
     \<and> unwrap_or (isr_mip_level_count r) mip_levels = mip_levels
     \<and> isr_base_array_layer r = 0
     \<and> unwrap_or (isr_array_layer_count r) array_layers = array_layers"

definition mip_range_of :: "image_subresource_range \<Rightarrow> u32 \<Rightarrow> u32 range_t" where
  "mip_range_of r mip_level_count =
    Range (isr_base_mip_level r)
      (case isr_mip_level_count r of
         Some n \<Rightarrow> isr_base_mip_level r + n | None \<Rightarrow> mip_level_count)"

definition layer_range_of :: "image_subresource_range \<Rightarrow> u32 \<Rightarrow> u32 range_t" where
  "layer_range_of r layer_count =
    Range (isr_base_array_layer r)
      (case isr_array_layer_count r of
         Some n \<Rightarrow> isr_base_array_layer r + n | None \<Rightarrow> layer_count)"

section \<open>Texel blocks\<close>

lemma astc_block_bounds:
  "astc_block_dimensions b = (bw, bh)
     \<Longrightarrow> 0 < unat bw \<and> unat bw \<le> 12 \<and> 0 < unat bh \<and> unat bh \<le> 12"
  by (cases b) (auto simp: astc_block_dimensions_def)

lemma block_dimensions_bounds:
  assumes "block_dimensions f = (bw, bh)"
  shows "0 < unat bw" and "unat bw \<le> 12" and "0 < unat bh" and "unat bh \<le> 12"
  using assms by (cases f; auto simp: block_dimensions_def dest: astc_block_bounds)+

lemma unat_round_up:
  fixes w b :: u32
  assumes "0 < unat b" and "unat w + unat b \<le> 2 ^ 32"
  shows "unat (div_ceil w b * b) = ((unat w + unat b - 1) div unat b) * unat b"
proof -
  have "((unat w + unat b - 1) div unat b) * unat b < 2 ^ 32"
    using div_ceil_bounds(2) [OF assms(1), of "unat w"] assms(2) by linarith
  moreover have "b \<noteq> 0" using assms(1) by auto
  ultimately show ?thesis by (simp add: unat_word_ariths unat_div_ceil)
qed


section \<open>Mip chains\<close>

lemma unat_shr32: "unat l < 32 \<Longrightarrow> unat (shr32 x l) = unat x div 2 ^ unat l"
proof -
  assume l: "unat l < 32"
  have "l AND 31 = take_bit 5 l" by (simp add: take_bit_eq_mask mask_eq_exp_minus_1)
  moreover have "unat (take_bit 5 l) = unat l"
    using l by (simp add: unsigned_take_bit_eq take_bit_nat_eq_self)
  then have "take_bit 5 l = l" by (simp only: word_unat_eq_iff)
  ultimately have "l AND 31 = l" by simp
  then have "shr32 x l = drop_bit (unat l) x" by (simp only: shr32_def)
  moreover have "take_bit LENGTH(32) (unat x) = unat x"
    by (rule take_bit_nat_eq_self) (rule unsigned_less)
  ultimately show ?thesis by (simp only: unsigned_drop_bit_eq) (simp add: drop_bit_eq_div)
qed

lemma unat_max_mips:
  "unat (32 - leading_zeros32 x) = bit_length (unat x)"
proof -
  have "unat x < 2 ^ 32" using unsigned_less [of x] by simp
  then have b: "bit_length (unat x) \<le> 32" by (rule bit_length_le)
  have lz: "unat (leading_zeros32 x) = 32 - bit_length (unat x)"
    unfolding leading_zeros32_def by (simp only: unsigned_of_nat of_nat_id) (simp add: take_bit_nat_eq_self)
  then have "leading_zeros32 x \<le> 32" by (simp add: word_le_nat_alt)
  then have "unat (32 - leading_zeros32 x) = unat (32 :: u32) - unat (leading_zeros32 x)"
    by (rule unat_sub)
  with b lz show ?thesis by simp
qed

lemma unat_max: "unat (max x y) = max (unat x) (unat y)" for x y :: "'a::len word"
  by (simp add: max_def word_le_nat_alt)

text \<open>The largest of the extents that a texture of the given dimension has.\<close>

definition largest_extent :: "extent3d \<Rightarrow> texture_dimension \<Rightarrow> nat" where
  "largest_extent s dim =
    (case dim of
       D1 \<Rightarrow> unat (ext_width s)
     | D2 \<Rightarrow> max (unat (ext_width s)) (unat (ext_height s))
     | D3 \<Rightarrow> max (unat (ext_width s)) (max (unat (ext_height s)) (unat (depth_or_array_layers s))))"

lemma unat_max_mips_eq: "dim \<noteq> D1 \<Longrightarrow> unat (max_mips s dim) = bit_length (largest_extent s dim)"
  by (cases dim) (simp_all add: max_mips_def largest_extent_def unat_max_mips unat_max)

lemma max_div: "max a b div c = max (a div c) (b div c)" for a b c :: nat
  by (simp add: max_def div_le_mono antisym)

lemma largest_extent_bound: "largest_extent s dim < 2 ^ 32"
  using unsigned_less [of "ext_width s"] unsigned_less [of "ext_height s"]
    unsigned_less [of "depth_or_array_layers s"]
  by (cases dim) (simp_all add: largest_extent_def)

lemma largest_extent_mip:
  assumes "unat l < 32"
  shows "largest_extent (mip_level_size s l dim) dim = max 1 (largest_extent s dim div 2 ^ unat l)"
  using assms
  by (cases dim)
    (simp_all add: largest_extent_def mip_level_size_def unat_shr32 unat_max max_div
      max.left_commute max.assoc)

lemma mip_chain_facts:
  assumes dim: "dim \<noteq> D1"
  shows "l < max_mips s dim \<longleftrightarrow> 2 ^ unat l \<le> largest_extent s dim"
    and "l < max_mips s dim \<Longrightarrow> unat l < 32"
    and "l < max_mips s dim \<Longrightarrow>
      largest_extent (mip_level_size s l dim) dim = largest_extent s dim div 2 ^ unat l"
    and "l < max_mips s dim \<Longrightarrow>
      largest_extent (mip_level_size s l dim) dim = 1 \<longleftrightarrow> l + 1 = max_mips s dim"
proof -
  define k L where "k = unat l" and "L = largest_extent s dim"
  have k: "l < max_mips s dim \<longleftrightarrow> k < bit_length L"
    by (simp add: word_less_nat_alt unat_max_mips_eq [OF dim] k_def L_def)
  also have "\<dots> \<longleftrightarrow> 2 ^ k \<le> L" by (simp add: less_bit_length div_eq_0_iff not_less)
  finally show "l < max_mips s dim \<longleftrightarrow> 2 ^ unat l \<le> largest_extent s dim" by (simp add: k_def L_def)
  assume "l < max_mips s dim"
  with k have k: "k < bit_length L" by simp
  then have nz: "L div 2 ^ k \<noteq> 0" using less_bit_length by blast
  have b: "bit_length L \<le> 32" using largest_extent_bound [of s dim] bit_length_le L_def by blast
  with k show l32: "unat l < 32" by (simp add: k_def)
  with nz show e: "largest_extent (mip_level_size s l dim) dim = largest_extent s dim div 2 ^ unat l"
    by (simp add: largest_extent_mip k_def L_def)
  have "L div 2 ^ k = 1 \<longleftrightarrow> L div 2 ^ Suc k = 0"
  proof -
    have "L div 2 ^ Suc k = (L div 2 ^ k) div 2" by (simp only: power_Suc2 div_mult2_eq)
    moreover have "q = 1 \<longleftrightarrow> q div 2 = 0" if "q \<noteq> 0" for q :: nat using that by presburger
    ultimately show ?thesis using nz by simp
  qed
  also have "\<dots> \<longleftrightarrow> Suc k = bit_length L"
    using k less_bit_length [of "Suc k" L] by linarith
  also have "\<dots> \<longleftrightarrow> l + 1 = max_mips s dim"
  proof -
    have "unat (l + 1) = Suc k" using l32 by (simp add: unat_word_ariths k_def)
    then show ?thesis by (metis L_def dim unat_max_mips_eq word_unat_eq_iff)
  qed
  finally show "largest_extent (mip_level_size s l dim) dim = 1 \<longleftrightarrow> l + 1 = max_mips s dim"
    by (simp add: e k_def L_def)
qed

text \<open>C31: For textures of two and three dimensions \<open>max_mips\<close> counts a full mip chain: a level exists exactly when
  its power of two does not exceed the largest extent of the texture, each level's largest extent is the
  one of the texture divided by that power, and it is one texel at the last level and at no earlier one.
  (A texture of one dimension has one level, whatever its width.)\<close>

theorem mip_chain:
  assumes "dim \<noteq> D1"
  shows "(l < max_mips s dim \<longleftrightarrow> 2 ^ unat l \<le> largest_extent s dim)
    \<and> (l < max_mips s dim \<longrightarrow> unat l < 32
         \<and> largest_extent (mip_level_size s l dim) dim = largest_extent s dim div 2 ^ unat l
         \<and> (largest_extent (mip_level_size s l dim) dim = 1 \<longleftrightarrow> l + 1 = max_mips s dim))"
  using mip_chain_facts [OF assms] by blast

definition extent_12_6 :: extent3d where
  "extent_12_6 = \<lparr>ext_width = 12, ext_height = 6, depth_or_array_layers = 3\<rparr>"

lemma mip_chain_witness:
  "largest_extent (mip_level_size extent_12_6 3 D2) D2 = 1 \<and> max_mips extent_12_6 D2 = 4"
proof -
  have m: "max_mips extent_12_6 D2 = 4"
    by (simp add: max_mips_def extent_12_6_def leading_zeros32_def bit_length.simps)
  with mip_chain [of D2 3 extent_12_6] show ?thesis by simp
qed


section \<open>Physical sizes and footprints\<close>

text \<open>The physical size of an extent is the extent rounded up to whole texel blocks: no smaller,
  less than one block larger, a multiple of the block, the layers untouched, and a fixed
  point of the rounding.\<close>

theorem physical_size_rounds_up:
  assumes "unat (ext_width s) + 12 \<le> 2 ^ 32" and "unat (ext_height s) + 12 \<le> 2 ^ 32"
    and "block_dimensions f = (bw, bh)"
  shows "unat (ext_width s) \<le> unat (ext_width (physical_size s f))
    \<and> unat (ext_width (physical_size s f)) < unat (ext_width s) + unat bw
    \<and> unat bw dvd unat (ext_width (physical_size s f))
    \<and> unat (ext_height s) \<le> unat (ext_height (physical_size s f))
    \<and> unat (ext_height (physical_size s f)) < unat (ext_height s) + unat bh
    \<and> unat bh dvd unat (ext_height (physical_size s f))
    \<and> depth_or_array_layers (physical_size s f) = depth_or_array_layers s"
proof -
  note b = block_dimensions_bounds [OF assms(3)]
  have "unat (ext_width s) + unat bw \<le> 2 ^ 32" "unat (ext_height s) + unat bh \<le> 2 ^ 32"
    using b assms(1,2) by linarith+
  note r = unat_round_up [OF b(1) this(1)] unat_round_up [OF b(3) this(2)]
  show ?thesis
    using div_ceil_bounds [OF b(1), of "unat (ext_width s)"]
      div_ceil_bounds [OF b(3), of "unat (ext_height s)"]
    by (simp add: physical_size_def assms(3) r)
qed

lemma physical_size_rounds_up_witness:
  "unat (ext_width (physical_size extent_12_6 Bc1RgbaUnorm)) < 16"
proof -
  have "block_dimensions Bc1RgbaUnorm = (4, 4)" by (simp add: block_dimensions_def)
  from physical_size_rounds_up [OF _ _ this, of extent_12_6] show ?thesis
    by (simp add: extent_12_6_def)
qed

lemma approximate_block_size_Some:
  "\<exists>n. approximate_block_size f = Some n \<and> 0 < unat n \<and> unat n \<le> 16"
  by (cases f) (simp_all add: approximate_block_size_def block_copy_size_def)

text \<open>C32: The memory footprint is defined for every format, and while the number of texels stays
  below two to the sixtieth it is the exact number of texel blocks times the bytes of a
  block: nothing wraps.\<close>

theorem footprint_exact:
  assumes "block_dimensions f = (bw, bh)"
    and "unat (ext_width s) * unat (ext_height s) * unat (depth_or_array_layers s) < 2 ^ 60"
  shows "\<exists>n b. theoretical_memory_footprint f s = Some n \<and> approximate_block_size f = Some b
    \<and> unat n = ((unat (ext_width s) + unat bw - 1) div unat bw)
               * ((unat (ext_height s) + unat bh - 1) div unat bh)
               * unat (depth_or_array_layers s) * unat b"
proof -
  note bb = block_dimensions_bounds [OF assms(1)]
  obtain b where b: "approximate_block_size f = Some b" "unat b \<le> 16"
    using approximate_block_size_Some by blast
  define W H where "W = (unat (ext_width s) + unat bw - 1) div unat bw"
    and "H = (unat (ext_height s) + unat bh - 1) div unat bh"
  have "W * H * unat (depth_or_array_layers s)
     \<le> unat (ext_width s) * unat (ext_height s) * unat (depth_or_array_layers s)"
    unfolding W_def H_def using div_ceil_le bb by (intro mult_mono) auto
  with assms(2) have wh: "W * H * unat (depth_or_array_layers s) < 2 ^ 60" by linarith
  have pw: "(2 :: nat) ^ 64 = 2 ^ 60 * 16" by simp
  have whb: "W * H * unat (depth_or_array_layers s) * unat b < 2 ^ 64"
    using mult_le_mono2 [OF b(2), of "W * H * unat (depth_or_array_layers s)"]
      wh pw by linarith
  define n :: u64 where "n = ucast (div_ceil (ext_width s) bw) * ucast (div_ceil (ext_height s) bh)
    * ucast (depth_or_array_layers s) * ucast b"
  have "bw \<noteq> 0" "bh \<noteq> 0" using bb by auto
  then have "unat n = (W * H * unat (depth_or_array_layers s) * unat b) mod 2 ^ 64"
    unfolding n_def
    by (simp add: unat_word_ariths unat_ucast_u64 unat_div_ceil mod_mult_left_eq
        W_def H_def)
  with whb have "unat n = W * H * unat (depth_or_array_layers s) * unat b" by simp
  moreover have "theoretical_memory_footprint f s = Some n"
    by (simp add: theoretical_memory_footprint_def assms(1) b n_def)
  ultimately show ?thesis using b(1) unfolding W_def H_def by blast
qed

lemma footprint_exact_witness:
  "\<exists>n. theoretical_memory_footprint Bc1RgbaUnorm extent_12_6 = Some n \<and> unat n = 144"
proof -
  have "block_dimensions Bc1RgbaUnorm = (4, 4)" by (simp add: block_dimensions_def)
  from footprint_exact [OF this, of extent_12_6] show ?thesis
    by (simp add: extent_12_6_def approximate_block_size_def block_copy_size_def)
qed

end
