(* ===== verification/Limits.thy ===== *)
theory Limits
  imports Extents
begin

text \<open>
  The limits of an adapter or a device, \<open>wgpu-types/src/limits.rs\<close>: the table of limits with
  the direction in which each one is better, the defaults, the check of requested limits against
  allowed ones, the two ways to combine limits, and the downlevel flags. A macro call per limit is
  an entry of the list \<open>with_limits\<close>; a value of 32 bits is widened where the source widens it.
\<close>

section \<open>The limits\<close>

record limits =
  max_texture_dimension_1d :: u32
  max_texture_dimension_2d :: u32
  max_texture_dimension_3d :: u32
  max_texture_array_layers :: u32
  max_bind_groups :: u32
  max_bindings_per_bind_group :: u32
  max_dynamic_uniform_buffers_per_pipeline_layout :: u32
  max_dynamic_storage_buffers_per_pipeline_layout :: u32
  max_sampled_textures_per_shader_stage :: u32
  max_samplers_per_shader_stage :: u32
  max_storage_buffers_per_shader_stage :: u32
  max_storage_textures_per_shader_stage :: u32
  max_uniform_buffers_per_shader_stage :: u32
  max_binding_array_elements_per_shader_stage :: u32
  max_binding_array_acceleration_structure_elements_per_shader_stage :: u32
  max_binding_array_sampler_elements_per_shader_stage :: u32
  max_uniform_buffer_binding_size :: u64
  max_storage_buffer_binding_size :: u64
  max_vertex_buffers :: u32
  max_buffer_size :: u64
  max_vertex_attributes :: u32
  max_vertex_buffer_array_stride :: u32
  max_inter_stage_shader_variables :: u32
  min_uniform_buffer_offset_alignment :: u32
  min_storage_buffer_offset_alignment :: u32
  max_color_attachments :: u32
  max_color_attachment_bytes_per_sample :: u32
  max_compute_workgroup_storage_size :: u32
  max_compute_invocations_per_workgroup :: u32
  max_compute_workgroup_size_x :: u32
  max_compute_workgroup_size_y :: u32
  max_compute_workgroup_size_z :: u32
  max_compute_workgroups_per_dimension :: u32
  max_immediate_size :: u32
  max_non_sampler_bindings :: u32
  max_task_mesh_workgroup_total_count :: u32
  max_task_mesh_workgroups_per_dimension :: u32
  max_task_invocations_per_workgroup :: u32
  max_task_invocations_per_dimension :: u32
  max_mesh_invocations_per_workgroup :: u32
  max_mesh_invocations_per_dimension :: u32
  max_task_payload_size :: u32
  max_mesh_output_vertices :: u32
  max_mesh_output_primitives :: u32
  max_mesh_output_layers :: u32
  max_mesh_multiview_view_count :: u32
  max_blas_primitive_count :: u32
  max_blas_geometry_count :: u32
  max_tlas_instance_count :: u32
  max_acceleration_structures_per_shader_stage :: u32
  max_multiview_view_count :: u32

text \<open>\<open>core::cmp::Ordering\<close>, and one line of the macro \<open>with_limits\<close>.\<close>

datatype ordering = Less | Equal | Greater

definition ordering_reverse :: "ordering \<Rightarrow> ordering" where
  "ordering_reverse c = (case c of Less \<Rightarrow> Greater | Equal \<Rightarrow> Equal | Greater \<Rightarrow> Less)"

definition word_cmp :: "'a::len word \<Rightarrow> 'a word \<Rightarrow> ordering" where
  "word_cmp x y = (if x < y then Less else if x = y then Equal else Greater)"

record limit_entry =
  limit_name :: string
  limit_get :: "limits \<Rightarrow> u64"
  limit_ordering :: ordering

definition with_limits :: "limit_entry list" where
  "with_limits = [
    \<lparr>limit_name = ''max_texture_dimension_1d'', limit_get = \<lambda>l. ucast (max_texture_dimension_1d l), limit_ordering = Less\<rparr>,
    \<lparr>limit_name = ''max_texture_dimension_2d'', limit_get = \<lambda>l. ucast (max_texture_dimension_2d l), limit_ordering = Less\<rparr>,
    \<lparr>limit_name = ''max_texture_dimension_3d'', limit_get = \<lambda>l. ucast (max_texture_dimension_3d l), limit_ordering = Less\<rparr>,
    \<lparr>limit_name = ''max_texture_array_layers'', limit_get = \<lambda>l. ucast (max_texture_array_layers l), limit_ordering = Less\<rparr>,
    \<lparr>limit_name = ''max_bind_groups'', limit_get = \<lambda>l. ucast (max_bind_groups l), limit_ordering = Less\<rparr>,
    \<lparr>limit_name = ''max_bindings_per_bind_group'', limit_get = \<lambda>l. ucast (max_bindings_per_bind_group l), limit_ordering = Less\<rparr>,
    \<lparr>limit_name = ''max_dynamic_uniform_buffers_per_pipeline_layout'', limit_get = \<lambda>l. ucast (max_dynamic_uniform_buffers_per_pipeline_layout l), limit_ordering = Less\<rparr>,
    \<lparr>limit_name = ''max_dynamic_storage_buffers_per_pipeline_layout'', limit_get = \<lambda>l. ucast (max_dynamic_storage_buffers_per_pipeline_layout l), limit_ordering = Less\<rparr>,
    \<lparr>limit_name = ''max_sampled_textures_per_shader_stage'', limit_get = \<lambda>l. ucast (max_sampled_textures_per_shader_stage l), limit_ordering = Less\<rparr>,
    \<lparr>limit_name = ''max_samplers_per_shader_stage'', limit_get = \<lambda>l. ucast (max_samplers_per_shader_stage l), limit_ordering = Less\<rparr>,
    \<lparr>limit_name = ''max_storage_buffers_per_shader_stage'', limit_get = \<lambda>l. ucast (max_storage_buffers_per_shader_stage l), limit_ordering = Less\<rparr>,
    \<lparr>limit_name = ''max_storage_textures_per_shader_stage'', limit_get = \<lambda>l. ucast (max_storage_textures_per_shader_stage l), limit_ordering = Less\<rparr>,
    \<lparr>limit_name = ''max_uniform_buffers_per_shader_stage'', limit_get = \<lambda>l. ucast (max_uniform_buffers_per_shader_stage l), limit_ordering = Less\<rparr>,
    \<lparr>limit_name = ''max_binding_array_elements_per_shader_stage'', limit_get = \<lambda>l. ucast (max_binding_array_elements_per_shader_stage l), limit_ordering = Less\<rparr>,
    \<lparr>limit_name = ''max_binding_array_acceleration_structure_elements_per_shader_stage'', limit_get = \<lambda>l. ucast (max_binding_array_acceleration_structure_elements_per_shader_stage l), limit_ordering = Less\<rparr>,
    \<lparr>limit_name = ''max_binding_array_sampler_elements_per_shader_stage'', limit_get = \<lambda>l. ucast (max_binding_array_sampler_elements_per_shader_stage l), limit_ordering = Less\<rparr>,
    \<lparr>limit_name = ''max_uniform_buffer_binding_size'', limit_get = max_uniform_buffer_binding_size, limit_ordering = Less\<rparr>,
    \<lparr>limit_name = ''max_storage_buffer_binding_size'', limit_get = max_storage_buffer_binding_size, limit_ordering = Less\<rparr>,
    \<lparr>limit_name = ''max_vertex_buffers'', limit_get = \<lambda>l. ucast (max_vertex_buffers l), limit_ordering = Less\<rparr>,
    \<lparr>limit_name = ''max_buffer_size'', limit_get = max_buffer_size, limit_ordering = Less\<rparr>,
    \<lparr>limit_name = ''max_vertex_attributes'', limit_get = \<lambda>l. ucast (max_vertex_attributes l), limit_ordering = Less\<rparr>,
    \<lparr>limit_name = ''max_vertex_buffer_array_stride'', limit_get = \<lambda>l. ucast (max_vertex_buffer_array_stride l), limit_ordering = Less\<rparr>,
    \<lparr>limit_name = ''max_inter_stage_shader_variables'', limit_get = \<lambda>l. ucast (max_inter_stage_shader_variables l), limit_ordering = Less\<rparr>,
    \<lparr>limit_name = ''min_uniform_buffer_offset_alignment'', limit_get = \<lambda>l. ucast (min_uniform_buffer_offset_alignment l), limit_ordering = Greater\<rparr>,
    \<lparr>limit_name = ''min_storage_buffer_offset_alignment'', limit_get = \<lambda>l. ucast (min_storage_buffer_offset_alignment l), limit_ordering = Greater\<rparr>,
    \<lparr>limit_name = ''max_color_attachments'', limit_get = \<lambda>l. ucast (max_color_attachments l), limit_ordering = Less\<rparr>,
    \<lparr>limit_name = ''max_color_attachment_bytes_per_sample'', limit_get = \<lambda>l. ucast (max_color_attachment_bytes_per_sample l), limit_ordering = Less\<rparr>,
    \<lparr>limit_name = ''max_compute_workgroup_storage_size'', limit_get = \<lambda>l. ucast (max_compute_workgroup_storage_size l), limit_ordering = Less\<rparr>,
    \<lparr>limit_name = ''max_compute_invocations_per_workgroup'', limit_get = \<lambda>l. ucast (max_compute_invocations_per_workgroup l), limit_ordering = Less\<rparr>,
    \<lparr>limit_name = ''max_compute_workgroup_size_x'', limit_get = \<lambda>l. ucast (max_compute_workgroup_size_x l), limit_ordering = Less\<rparr>,
    \<lparr>limit_name = ''max_compute_workgroup_size_y'', limit_get = \<lambda>l. ucast (max_compute_workgroup_size_y l), limit_ordering = Less\<rparr>,
    \<lparr>limit_name = ''max_compute_workgroup_size_z'', limit_get = \<lambda>l. ucast (max_compute_workgroup_size_z l), limit_ordering = Less\<rparr>,
    \<lparr>limit_name = ''max_compute_workgroups_per_dimension'', limit_get = \<lambda>l. ucast (max_compute_workgroups_per_dimension l), limit_ordering = Less\<rparr>,
    \<lparr>limit_name = ''max_immediate_size'', limit_get = \<lambda>l. ucast (max_immediate_size l), limit_ordering = Less\<rparr>,
    \<lparr>limit_name = ''max_non_sampler_bindings'', limit_get = \<lambda>l. ucast (max_non_sampler_bindings l), limit_ordering = Less\<rparr>,
    \<lparr>limit_name = ''max_task_mesh_workgroup_total_count'', limit_get = \<lambda>l. ucast (max_task_mesh_workgroup_total_count l), limit_ordering = Less\<rparr>,
    \<lparr>limit_name = ''max_task_mesh_workgroups_per_dimension'', limit_get = \<lambda>l. ucast (max_task_mesh_workgroups_per_dimension l), limit_ordering = Less\<rparr>,
    \<lparr>limit_name = ''max_task_invocations_per_workgroup'', limit_get = \<lambda>l. ucast (max_task_invocations_per_workgroup l), limit_ordering = Less\<rparr>,
    \<lparr>limit_name = ''max_task_invocations_per_dimension'', limit_get = \<lambda>l. ucast (max_task_invocations_per_dimension l), limit_ordering = Less\<rparr>,
    \<lparr>limit_name = ''max_mesh_invocations_per_workgroup'', limit_get = \<lambda>l. ucast (max_mesh_invocations_per_workgroup l), limit_ordering = Less\<rparr>,
    \<lparr>limit_name = ''max_mesh_invocations_per_dimension'', limit_get = \<lambda>l. ucast (max_mesh_invocations_per_dimension l), limit_ordering = Less\<rparr>,
    \<lparr>limit_name = ''max_task_payload_size'', limit_get = \<lambda>l. ucast (max_task_payload_size l), limit_ordering = Less\<rparr>,
    \<lparr>limit_name = ''max_mesh_output_vertices'', limit_get = \<lambda>l. ucast (max_mesh_output_vertices l), limit_ordering = Less\<rparr>,
    \<lparr>limit_name = ''max_mesh_output_primitives'', limit_get = \<lambda>l. ucast (max_mesh_output_primitives l), limit_ordering = Less\<rparr>,
    \<lparr>limit_name = ''max_mesh_output_layers'', limit_get = \<lambda>l. ucast (max_mesh_output_layers l), limit_ordering = Less\<rparr>,
    \<lparr>limit_name = ''max_mesh_multiview_view_count'', limit_get = \<lambda>l. ucast (max_mesh_multiview_view_count l), limit_ordering = Less\<rparr>,
    \<lparr>limit_name = ''max_blas_primitive_count'', limit_get = \<lambda>l. ucast (max_blas_primitive_count l), limit_ordering = Less\<rparr>,
    \<lparr>limit_name = ''max_blas_geometry_count'', limit_get = \<lambda>l. ucast (max_blas_geometry_count l), limit_ordering = Less\<rparr>,
    \<lparr>limit_name = ''max_tlas_instance_count'', limit_get = \<lambda>l. ucast (max_tlas_instance_count l), limit_ordering = Less\<rparr>,
    \<lparr>limit_name = ''max_acceleration_structures_per_shader_stage'', limit_get = \<lambda>l. ucast (max_acceleration_structures_per_shader_stage l), limit_ordering = Less\<rparr>,
    \<lparr>limit_name = ''max_multiview_view_count'', limit_get = \<lambda>l. ucast (max_multiview_view_count l), limit_ordering = Less\<rparr>]"

section \<open>The defaults\<close>

definition limits_defaults :: limits where
  "limits_defaults =
    \<lparr>max_texture_dimension_1d = 8192,
      max_texture_dimension_2d = 8192,
      max_texture_dimension_3d = 2048,
      max_texture_array_layers = 256,
      max_bind_groups = 4,
      max_bindings_per_bind_group = 1000,
      max_dynamic_uniform_buffers_per_pipeline_layout = 8,
      max_dynamic_storage_buffers_per_pipeline_layout = 4,
      max_sampled_textures_per_shader_stage = 16,
      max_samplers_per_shader_stage = 16,
      max_storage_buffers_per_shader_stage = 8,
      max_storage_textures_per_shader_stage = 4,
      max_uniform_buffers_per_shader_stage = 12,
      max_binding_array_elements_per_shader_stage = 0,
      max_binding_array_acceleration_structure_elements_per_shader_stage = 0,
      max_binding_array_sampler_elements_per_shader_stage = 0,
      max_uniform_buffer_binding_size = 65536,
      max_storage_buffer_binding_size = 134217728,
      max_vertex_buffers = 8,
      max_buffer_size = 268435456,
      max_vertex_attributes = 16,
      max_vertex_buffer_array_stride = 2048,
      max_inter_stage_shader_variables = 16,
      min_uniform_buffer_offset_alignment = 256,
      min_storage_buffer_offset_alignment = 256,
      max_color_attachments = 8,
      max_color_attachment_bytes_per_sample = 32,
      max_compute_workgroup_storage_size = 16384,
      max_compute_invocations_per_workgroup = 256,
      max_compute_workgroup_size_x = 256,
      max_compute_workgroup_size_y = 256,
      max_compute_workgroup_size_z = 64,
      max_compute_workgroups_per_dimension = 65535,
      max_immediate_size = 0,
      max_non_sampler_bindings = 1000000,
      max_task_mesh_workgroup_total_count = 0,
      max_task_mesh_workgroups_per_dimension = 0,
      max_task_invocations_per_workgroup = 0,
      max_task_invocations_per_dimension = 0,
      max_mesh_invocations_per_workgroup = 0,
      max_mesh_invocations_per_dimension = 0,
      max_task_payload_size = 0,
      max_mesh_output_vertices = 0,
      max_mesh_output_primitives = 0,
      max_mesh_output_layers = 0,
      max_mesh_multiview_view_count = 0,
      max_blas_primitive_count = 0,
      max_blas_geometry_count = 0,
      max_tlas_instance_count = 0,
      max_acceleration_structures_per_shader_stage = 0,
      max_multiview_view_count = 0\<rparr>"

definition downlevel_defaults :: "limits" where
  "downlevel_defaults =
    limits_defaults\<lparr>max_texture_dimension_1d := 2048,
      max_texture_dimension_2d := 2048,
      max_texture_dimension_3d := 256,
      max_storage_buffers_per_shader_stage := 4,
      max_uniform_buffer_binding_size := 16384,
      max_inter_stage_shader_variables := 15,
      max_color_attachments := 4,
      max_compute_workgroup_storage_size := 16352\<rparr>"

definition downlevel_webgl2_defaults :: "limits" where
  "downlevel_webgl2_defaults =
    downlevel_defaults\<lparr>max_uniform_buffers_per_shader_stage := 11,
      max_storage_buffers_per_shader_stage := 0,
      max_storage_textures_per_shader_stage := 0,
      max_dynamic_storage_buffers_per_pipeline_layout := 0,
      max_storage_buffer_binding_size := 0,
      max_vertex_buffer_array_stride := 255,
      max_compute_workgroup_storage_size := 0,
      max_compute_invocations_per_workgroup := 0,
      max_compute_workgroup_size_x := 0,
      max_compute_workgroup_size_y := 0,
      max_compute_workgroup_size_z := 0,
      max_compute_workgroups_per_dimension := 0,
      max_inter_stage_shader_variables := 15\<rparr>"

definition unlimited :: "limits" where
  "unlimited =
    \<lparr>max_texture_dimension_1d = 0x7FFFFFFF,
      max_texture_dimension_2d = 0x7FFFFFFF,
      max_texture_dimension_3d = 0x7FFFFFFF,
      max_texture_array_layers = 0x7FFFFFFF,
      max_bind_groups = 0x7FFFFFFF,
      max_bindings_per_bind_group = 0x7FFFFFFF,
      max_dynamic_uniform_buffers_per_pipeline_layout = 0x7FFFFFFF,
      max_dynamic_storage_buffers_per_pipeline_layout = 0x7FFFFFFF,
      max_sampled_textures_per_shader_stage = 0x7FFFFFFF,
      max_samplers_per_shader_stage = 0x7FFFFFFF,
      max_storage_buffers_per_shader_stage = 0x7FFFFFFF,
      max_storage_textures_per_shader_stage = 0x7FFFFFFF,
      max_uniform_buffers_per_shader_stage = 0x7FFFFFFF,
      max_binding_array_elements_per_shader_stage = 0x7FFFFFFF,
      max_binding_array_acceleration_structure_elements_per_shader_stage = 0x7FFFFFFF,
      max_binding_array_sampler_elements_per_shader_stage = 0x7FFFFFFF,
      max_uniform_buffer_binding_size = 0x7FFFFFFF,
      max_storage_buffer_binding_size = 0x7FFFFFFF,
      max_vertex_buffers = 0x7FFFFFFF,
      max_buffer_size = 0x7FFFFFFF,
      max_vertex_attributes = 0x7FFFFFFF,
      max_vertex_buffer_array_stride = 0x7FFFFFFF,
      max_inter_stage_shader_variables = 0x7FFFFFFF,
      min_uniform_buffer_offset_alignment = 1,
      min_storage_buffer_offset_alignment = 1,
      max_color_attachments = 0x7FFFFFFF,
      max_color_attachment_bytes_per_sample = 0x7FFFFFFF,
      max_compute_workgroup_storage_size = 0x7FFFFFFF,
      max_compute_invocations_per_workgroup = 0x7FFFFFFF,
      max_compute_workgroup_size_x = 0x7FFFFFFF,
      max_compute_workgroup_size_y = 0x7FFFFFFF,
      max_compute_workgroup_size_z = 0x7FFFFFFF,
      max_compute_workgroups_per_dimension = 0x7FFFFFFF,
      max_immediate_size = 0x7FFFFFFF,
      max_non_sampler_bindings = 0x7FFFFFFF,
      max_task_mesh_workgroup_total_count = 0x7FFFFFFF,
      max_task_mesh_workgroups_per_dimension = 0x7FFFFFFF,
      max_task_invocations_per_workgroup = 0x7FFFFFFF,
      max_task_invocations_per_dimension = 0x7FFFFFFF,
      max_mesh_invocations_per_workgroup = 0x7FFFFFFF,
      max_mesh_invocations_per_dimension = 0x7FFFFFFF,
      max_task_payload_size = 0x7FFFFFFF,
      max_mesh_output_vertices = 0x7FFFFFFF,
      max_mesh_output_primitives = 0x7FFFFFFF,
      max_mesh_output_layers = 0x7FFFFFFF,
      max_mesh_multiview_view_count = 0x7FFFFFFF,
      max_blas_primitive_count = 0x7FFFFFFF,
      max_blas_geometry_count = 0x7FFFFFFF,
      max_tlas_instance_count = 0x7FFFFFFF,
      max_acceleration_structures_per_shader_stage = 0x7FFFFFFF,
      max_multiview_view_count = 0x7FFFFFFF\<rparr>"

definition using_resolution :: "limits \<Rightarrow> limits \<Rightarrow> limits" where
  "using_resolution self other =
    self\<lparr>max_texture_dimension_1d := max_texture_dimension_1d other,
      max_texture_dimension_2d := max_texture_dimension_2d other,
      max_texture_dimension_3d := max_texture_dimension_3d other\<rparr>"

definition using_alignment :: "limits \<Rightarrow> limits \<Rightarrow> limits" where
  "using_alignment self other =
    self\<lparr>min_uniform_buffer_offset_alignment := min_uniform_buffer_offset_alignment other,
      min_storage_buffer_offset_alignment := min_storage_buffer_offset_alignment other\<rparr>"

definition using_minimum_supported_acceleration_structure_values :: "limits \<Rightarrow> limits" where
  "using_minimum_supported_acceleration_structure_values self =
    self\<lparr>max_blas_geometry_count := 16777215,
      max_tlas_instance_count := 16777215,
      max_blas_primitive_count := 268435456,
      max_acceleration_structures_per_shader_stage := 16\<rparr>"

definition using_acceleration_structure_values :: "limits \<Rightarrow> limits \<Rightarrow> limits" where
  "using_acceleration_structure_values self other =
    self\<lparr>max_blas_geometry_count := max_blas_geometry_count other,
      max_tlas_instance_count := max_tlas_instance_count other,
      max_blas_primitive_count := max_blas_primitive_count other,
      max_acceleration_structures_per_shader_stage := max_acceleration_structures_per_shader_stage other\<rparr>"

definition using_recommended_minimum_mesh_shader_values :: "limits \<Rightarrow> limits" where
  "using_recommended_minimum_mesh_shader_values self =
    self\<lparr>max_task_mesh_workgroup_total_count := 1024,
      max_task_mesh_workgroups_per_dimension := 256,
      max_task_invocations_per_workgroup := 128,
      max_task_invocations_per_dimension := 64,
      max_mesh_invocations_per_workgroup := 128,
      max_mesh_invocations_per_dimension := 128,
      max_task_payload_size := 16352,
      max_mesh_output_vertices := 256,
      max_mesh_output_primitives := 256,
      max_mesh_output_layers := 8,
      max_mesh_multiview_view_count := 0\<rparr>"

section \<open>Checking and combining\<close>

text \<open>
  The failures reported by \<open>check_limits_with_fail_fn\<close>: the name, the requested and the allowed
  value, in the order of the table; only the first when a failure is fatal.
\<close>

fun check_entries :: "limit_entry list \<Rightarrow> limits \<Rightarrow> limits \<Rightarrow> bool \<Rightarrow> (string \<times> u64 \<times> u64) list" where
  "check_entries [] self allowed fatal = []"
| "check_entries (e # es) self allowed fatal =
     (if word_cmp (limit_get e self) (limit_get e allowed) = ordering_reverse (limit_ordering e) then
        (limit_name e, limit_get e self, limit_get e allowed)
          # (if fatal then [] else check_entries es self allowed fatal)
      else check_entries es self allowed fatal)"

definition check_limits_with_fail_fn :: "limits \<Rightarrow> limits \<Rightarrow> bool \<Rightarrow> (string \<times> u64 \<times> u64) list" where
  "check_limits_with_fail_fn self allowed fatal = check_entries with_limits self allowed fatal"

definition check_limits :: "limits \<Rightarrow> limits \<Rightarrow> bool" where
  "check_limits self allowed = (check_limits_with_fail_fn self allowed True = [])"

definition or_better_values_from :: "limits \<Rightarrow> limits \<Rightarrow> limits" where
  "or_better_values_from self other =
    \<lparr>max_texture_dimension_1d = max (max_texture_dimension_1d self) (max_texture_dimension_1d other),
      max_texture_dimension_2d = max (max_texture_dimension_2d self) (max_texture_dimension_2d other),
      max_texture_dimension_3d = max (max_texture_dimension_3d self) (max_texture_dimension_3d other),
      max_texture_array_layers = max (max_texture_array_layers self) (max_texture_array_layers other),
      max_bind_groups = max (max_bind_groups self) (max_bind_groups other),
      max_bindings_per_bind_group = max (max_bindings_per_bind_group self) (max_bindings_per_bind_group other),
      max_dynamic_uniform_buffers_per_pipeline_layout = max (max_dynamic_uniform_buffers_per_pipeline_layout self) (max_dynamic_uniform_buffers_per_pipeline_layout other),
      max_dynamic_storage_buffers_per_pipeline_layout = max (max_dynamic_storage_buffers_per_pipeline_layout self) (max_dynamic_storage_buffers_per_pipeline_layout other),
      max_sampled_textures_per_shader_stage = max (max_sampled_textures_per_shader_stage self) (max_sampled_textures_per_shader_stage other),
      max_samplers_per_shader_stage = max (max_samplers_per_shader_stage self) (max_samplers_per_shader_stage other),
      max_storage_buffers_per_shader_stage = max (max_storage_buffers_per_shader_stage self) (max_storage_buffers_per_shader_stage other),
      max_storage_textures_per_shader_stage = max (max_storage_textures_per_shader_stage self) (max_storage_textures_per_shader_stage other),
      max_uniform_buffers_per_shader_stage = max (max_uniform_buffers_per_shader_stage self) (max_uniform_buffers_per_shader_stage other),
      max_binding_array_elements_per_shader_stage = max (max_binding_array_elements_per_shader_stage self) (max_binding_array_elements_per_shader_stage other),
      max_binding_array_acceleration_structure_elements_per_shader_stage = max (max_binding_array_acceleration_structure_elements_per_shader_stage self) (max_binding_array_acceleration_structure_elements_per_shader_stage other),
      max_binding_array_sampler_elements_per_shader_stage = max (max_binding_array_sampler_elements_per_shader_stage self) (max_binding_array_sampler_elements_per_shader_stage other),
      max_uniform_buffer_binding_size = max (max_uniform_buffer_binding_size self) (max_uniform_buffer_binding_size other),
      max_storage_buffer_binding_size = max (max_storage_buffer_binding_size self) (max_storage_buffer_binding_size other),
      max_vertex_buffers = max (max_vertex_buffers self) (max_vertex_buffers other),
      max_buffer_size = max (max_buffer_size self) (max_buffer_size other),
      max_vertex_attributes = max (max_vertex_attributes self) (max_vertex_attributes other),
      max_vertex_buffer_array_stride = max (max_vertex_buffer_array_stride self) (max_vertex_buffer_array_stride other),
      max_inter_stage_shader_variables = max (max_inter_stage_shader_variables self) (max_inter_stage_shader_variables other),
      min_uniform_buffer_offset_alignment = min (min_uniform_buffer_offset_alignment self) (min_uniform_buffer_offset_alignment other),
      min_storage_buffer_offset_alignment = min (min_storage_buffer_offset_alignment self) (min_storage_buffer_offset_alignment other),
      max_color_attachments = max (max_color_attachments self) (max_color_attachments other),
      max_color_attachment_bytes_per_sample = max (max_color_attachment_bytes_per_sample self) (max_color_attachment_bytes_per_sample other),
      max_compute_workgroup_storage_size = max (max_compute_workgroup_storage_size self) (max_compute_workgroup_storage_size other),
      max_compute_invocations_per_workgroup = max (max_compute_invocations_per_workgroup self) (max_compute_invocations_per_workgroup other),
      max_compute_workgroup_size_x = max (max_compute_workgroup_size_x self) (max_compute_workgroup_size_x other),
      max_compute_workgroup_size_y = max (max_compute_workgroup_size_y self) (max_compute_workgroup_size_y other),
      max_compute_workgroup_size_z = max (max_compute_workgroup_size_z self) (max_compute_workgroup_size_z other),
      max_compute_workgroups_per_dimension = max (max_compute_workgroups_per_dimension self) (max_compute_workgroups_per_dimension other),
      max_immediate_size = max (max_immediate_size self) (max_immediate_size other),
      max_non_sampler_bindings = max (max_non_sampler_bindings self) (max_non_sampler_bindings other),
      max_task_mesh_workgroup_total_count = max (max_task_mesh_workgroup_total_count self) (max_task_mesh_workgroup_total_count other),
      max_task_mesh_workgroups_per_dimension = max (max_task_mesh_workgroups_per_dimension self) (max_task_mesh_workgroups_per_dimension other),
      max_task_invocations_per_workgroup = max (max_task_invocations_per_workgroup self) (max_task_invocations_per_workgroup other),
      max_task_invocations_per_dimension = max (max_task_invocations_per_dimension self) (max_task_invocations_per_dimension other),
      max_mesh_invocations_per_workgroup = max (max_mesh_invocations_per_workgroup self) (max_mesh_invocations_per_workgroup other),
      max_mesh_invocations_per_dimension = max (max_mesh_invocations_per_dimension self) (max_mesh_invocations_per_dimension other),
      max_task_payload_size = max (max_task_payload_size self) (max_task_payload_size other),
      max_mesh_output_vertices = max (max_mesh_output_vertices self) (max_mesh_output_vertices other),
      max_mesh_output_primitives = max (max_mesh_output_primitives self) (max_mesh_output_primitives other),
      max_mesh_output_layers = max (max_mesh_output_layers self) (max_mesh_output_layers other),
      max_mesh_multiview_view_count = max (max_mesh_multiview_view_count self) (max_mesh_multiview_view_count other),
      max_blas_primitive_count = max (max_blas_primitive_count self) (max_blas_primitive_count other),
      max_blas_geometry_count = max (max_blas_geometry_count self) (max_blas_geometry_count other),
      max_tlas_instance_count = max (max_tlas_instance_count self) (max_tlas_instance_count other),
      max_acceleration_structures_per_shader_stage = max (max_acceleration_structures_per_shader_stage self) (max_acceleration_structures_per_shader_stage other),
      max_multiview_view_count = max (max_multiview_view_count self) (max_multiview_view_count other)\<rparr>"

definition or_worse_values_from :: "limits \<Rightarrow> limits \<Rightarrow> limits" where
  "or_worse_values_from self other =
    \<lparr>max_texture_dimension_1d = min (max_texture_dimension_1d self) (max_texture_dimension_1d other),
      max_texture_dimension_2d = min (max_texture_dimension_2d self) (max_texture_dimension_2d other),
      max_texture_dimension_3d = min (max_texture_dimension_3d self) (max_texture_dimension_3d other),
      max_texture_array_layers = min (max_texture_array_layers self) (max_texture_array_layers other),
      max_bind_groups = min (max_bind_groups self) (max_bind_groups other),
      max_bindings_per_bind_group = min (max_bindings_per_bind_group self) (max_bindings_per_bind_group other),
      max_dynamic_uniform_buffers_per_pipeline_layout = min (max_dynamic_uniform_buffers_per_pipeline_layout self) (max_dynamic_uniform_buffers_per_pipeline_layout other),
      max_dynamic_storage_buffers_per_pipeline_layout = min (max_dynamic_storage_buffers_per_pipeline_layout self) (max_dynamic_storage_buffers_per_pipeline_layout other),
      max_sampled_textures_per_shader_stage = min (max_sampled_textures_per_shader_stage self) (max_sampled_textures_per_shader_stage other),
      max_samplers_per_shader_stage = min (max_samplers_per_shader_stage self) (max_samplers_per_shader_stage other),
      max_storage_buffers_per_shader_stage = min (max_storage_buffers_per_shader_stage self) (max_storage_buffers_per_shader_stage other),
      max_storage_textures_per_shader_stage = min (max_storage_textures_per_shader_stage self) (max_storage_textures_per_shader_stage other),
      max_uniform_buffers_per_shader_stage = min (max_uniform_buffers_per_shader_stage self) (max_uniform_buffers_per_shader_stage other),
      max_binding_array_elements_per_shader_stage = min (max_binding_array_elements_per_shader_stage self) (max_binding_array_elements_per_shader_stage other),
      max_binding_array_acceleration_structure_elements_per_shader_stage = min (max_binding_array_acceleration_structure_elements_per_shader_stage self) (max_binding_array_acceleration_structure_elements_per_shader_stage other),
      max_binding_array_sampler_elements_per_shader_stage = min (max_binding_array_sampler_elements_per_shader_stage self) (max_binding_array_sampler_elements_per_shader_stage other),
      max_uniform_buffer_binding_size = min (max_uniform_buffer_binding_size self) (max_uniform_buffer_binding_size other),
      max_storage_buffer_binding_size = min (max_storage_buffer_binding_size self) (max_storage_buffer_binding_size other),
      max_vertex_buffers = min (max_vertex_buffers self) (max_vertex_buffers other),
      max_buffer_size = min (max_buffer_size self) (max_buffer_size other),
      max_vertex_attributes = min (max_vertex_attributes self) (max_vertex_attributes other),
      max_vertex_buffer_array_stride = min (max_vertex_buffer_array_stride self) (max_vertex_buffer_array_stride other),
      max_inter_stage_shader_variables = min (max_inter_stage_shader_variables self) (max_inter_stage_shader_variables other),
      min_uniform_buffer_offset_alignment = max (min_uniform_buffer_offset_alignment self) (min_uniform_buffer_offset_alignment other),
      min_storage_buffer_offset_alignment = max (min_storage_buffer_offset_alignment self) (min_storage_buffer_offset_alignment other),
      max_color_attachments = min (max_color_attachments self) (max_color_attachments other),
      max_color_attachment_bytes_per_sample = min (max_color_attachment_bytes_per_sample self) (max_color_attachment_bytes_per_sample other),
      max_compute_workgroup_storage_size = min (max_compute_workgroup_storage_size self) (max_compute_workgroup_storage_size other),
      max_compute_invocations_per_workgroup = min (max_compute_invocations_per_workgroup self) (max_compute_invocations_per_workgroup other),
      max_compute_workgroup_size_x = min (max_compute_workgroup_size_x self) (max_compute_workgroup_size_x other),
      max_compute_workgroup_size_y = min (max_compute_workgroup_size_y self) (max_compute_workgroup_size_y other),
      max_compute_workgroup_size_z = min (max_compute_workgroup_size_z self) (max_compute_workgroup_size_z other),
      max_compute_workgroups_per_dimension = min (max_compute_workgroups_per_dimension self) (max_compute_workgroups_per_dimension other),
      max_immediate_size = min (max_immediate_size self) (max_immediate_size other),
      max_non_sampler_bindings = min (max_non_sampler_bindings self) (max_non_sampler_bindings other),
      max_task_mesh_workgroup_total_count = min (max_task_mesh_workgroup_total_count self) (max_task_mesh_workgroup_total_count other),
      max_task_mesh_workgroups_per_dimension = min (max_task_mesh_workgroups_per_dimension self) (max_task_mesh_workgroups_per_dimension other),
      max_task_invocations_per_workgroup = min (max_task_invocations_per_workgroup self) (max_task_invocations_per_workgroup other),
      max_task_invocations_per_dimension = min (max_task_invocations_per_dimension self) (max_task_invocations_per_dimension other),
      max_mesh_invocations_per_workgroup = min (max_mesh_invocations_per_workgroup self) (max_mesh_invocations_per_workgroup other),
      max_mesh_invocations_per_dimension = min (max_mesh_invocations_per_dimension self) (max_mesh_invocations_per_dimension other),
      max_task_payload_size = min (max_task_payload_size self) (max_task_payload_size other),
      max_mesh_output_vertices = min (max_mesh_output_vertices self) (max_mesh_output_vertices other),
      max_mesh_output_primitives = min (max_mesh_output_primitives self) (max_mesh_output_primitives other),
      max_mesh_output_layers = min (max_mesh_output_layers self) (max_mesh_output_layers other),
      max_mesh_multiview_view_count = min (max_mesh_multiview_view_count self) (max_mesh_multiview_view_count other),
      max_blas_primitive_count = min (max_blas_primitive_count self) (max_blas_primitive_count other),
      max_blas_geometry_count = min (max_blas_geometry_count self) (max_blas_geometry_count other),
      max_tlas_instance_count = min (max_tlas_instance_count self) (max_tlas_instance_count other),
      max_acceleration_structures_per_shader_stage = min (max_acceleration_structures_per_shader_stage self) (max_acceleration_structures_per_shader_stage other),
      max_multiview_view_count = min (max_multiview_view_count self) (max_multiview_view_count other)\<rparr>"

section \<open>Downlevel capabilities\<close>

type_synonym downlevel_flags = u32

definition df_compute_shaders :: downlevel_flags where "df_compute_shaders = push_bit 0 1"
definition df_fragment_writable_storage :: downlevel_flags where "df_fragment_writable_storage = push_bit 1 1"
definition df_indirect_execution :: downlevel_flags where "df_indirect_execution = push_bit 2 1"
definition df_base_vertex :: downlevel_flags where "df_base_vertex = push_bit 3 1"
definition df_read_only_depth_stencil :: downlevel_flags where "df_read_only_depth_stencil = push_bit 4 1"
definition df_non_power_of_two_mipmapped_textures :: downlevel_flags where "df_non_power_of_two_mipmapped_textures = push_bit 5 1"
definition df_cube_array_textures :: downlevel_flags where "df_cube_array_textures = push_bit 6 1"
definition df_comparison_samplers :: downlevel_flags where "df_comparison_samplers = push_bit 7 1"
definition df_independent_blend :: downlevel_flags where "df_independent_blend = push_bit 8 1"
definition df_vertex_storage :: downlevel_flags where "df_vertex_storage = push_bit 9 1"
definition df_anisotropic_filtering :: downlevel_flags where "df_anisotropic_filtering = push_bit 10 1"
definition df_fragment_storage :: downlevel_flags where "df_fragment_storage = push_bit 11 1"
definition df_multisampled_shading :: downlevel_flags where "df_multisampled_shading = push_bit 12 1"
definition df_depth_texture_and_buffer_copies :: downlevel_flags where "df_depth_texture_and_buffer_copies = push_bit 13 1"
definition df_webgpu_texture_format_support :: downlevel_flags where "df_webgpu_texture_format_support = push_bit 14 1"
definition df_buffer_bindings_not_16_byte_aligned :: downlevel_flags where "df_buffer_bindings_not_16_byte_aligned = push_bit 15 1"
definition df_unrestricted_index_buffer :: downlevel_flags where "df_unrestricted_index_buffer = push_bit 16 1"
definition df_full_draw_index_uint32 :: downlevel_flags where "df_full_draw_index_uint32 = push_bit 17 1"
definition df_depth_bias_clamp :: downlevel_flags where "df_depth_bias_clamp = push_bit 18 1"
definition df_view_formats :: downlevel_flags where "df_view_formats = push_bit 19 1"
definition df_unrestricted_external_texture_copies :: downlevel_flags where "df_unrestricted_external_texture_copies = push_bit 20 1"
definition df_surface_view_formats :: downlevel_flags where "df_surface_view_formats = push_bit 21 1"
definition df_nonblocking_query_resolve :: downlevel_flags where "df_nonblocking_query_resolve = push_bit 22 1"
definition df_shader_f16_in_f32 :: downlevel_flags where "df_shader_f16_in_f32 = push_bit 23 1"
definition df_msl2_1 :: downlevel_flags where "df_msl2_1 = push_bit 24 1"

definition df_all :: downlevel_flags where
  "df_all = df_compute_shaders OR df_fragment_writable_storage OR df_indirect_execution
     OR df_base_vertex OR df_read_only_depth_stencil OR df_non_power_of_two_mipmapped_textures
     OR df_cube_array_textures OR df_comparison_samplers OR df_independent_blend
     OR df_vertex_storage OR df_anisotropic_filtering OR df_fragment_storage
     OR df_multisampled_shading OR df_depth_texture_and_buffer_copies
     OR df_webgpu_texture_format_support OR df_buffer_bindings_not_16_byte_aligned
     OR df_unrestricted_index_buffer OR df_full_draw_index_uint32 OR df_depth_bias_clamp
     OR df_view_formats OR df_unrestricted_external_texture_copies OR df_surface_view_formats
     OR df_nonblocking_query_resolve OR df_shader_f16_in_f32 OR df_msl2_1"

definition df_compliant :: downlevel_flags where
  "df_compliant = df_all AND NOT df_anisotropic_filtering"

datatype shader_model = Sm2 | Sm4 | Sm5

text \<open>The derived order of the shader models, and \<open>DownlevelLimits\<close>, which has no fields.\<close>

definition shader_model_rank :: "shader_model \<Rightarrow> nat" where
  "shader_model_rank m = (case m of Sm2 \<Rightarrow> 0 | Sm4 \<Rightarrow> 1 | Sm5 \<Rightarrow> 2)"

record downlevel_capabilities =
  dl_flags :: downlevel_flags
  dl_shader_model :: shader_model

definition default_downlevel :: downlevel_capabilities where
  "default_downlevel = \<lparr>dl_flags = df_all, dl_shader_model = Sm5\<rparr>"

definition is_webgpu_compliant :: "downlevel_capabilities \<Rightarrow> bool" where
  "is_webgpu_compliant d \<longleftrightarrow>
     contains (dl_flags d) df_compliant \<and> shader_model_rank Sm5 \<le> shader_model_rank (dl_shader_model d)"

section \<open>Limits form a lattice\<close>

text \<open>One entry of the table admits the requested value.\<close>

definition entry_within :: "limits \<Rightarrow> limits \<Rightarrow> limit_entry \<Rightarrow> bool" where
  "entry_within self allowed e \<longleftrightarrow>
     word_cmp (limit_get e self) (limit_get e allowed) \<noteq> ordering_reverse (limit_ordering e)"

lemma check_entries_filter:
  "check_entries es self allowed fatal =
     (if fatal then take 1 else (\<lambda>xs. xs))
       (map (\<lambda>e. (limit_name e, limit_get e self, limit_get e allowed))
         (filter (\<lambda>e. \<not> entry_within self allowed e) es))"
  by (induction es) (auto simp: entry_within_def)

lemma check_limits_all:
  "check_limits self allowed \<longleftrightarrow> (\<forall>e\<in>set with_limits. entry_within self allowed e)"
  by (auto simp: check_limits_def check_limits_with_fail_fn_def check_entries_filter filter_empty_conv)

lemma word_cmp_better: "word_cmp x y \<noteq> Greater \<longleftrightarrow> x \<le> y" "word_cmp x y \<noteq> Less \<longleftrightarrow> y \<le> x"
  by (auto simp: word_cmp_def)

lemma ucast_mono: "(ucast x :: u64) \<le> ucast y \<longleftrightarrow> x \<le> y" for x y :: u32
  by (simp add: word_le_nat_alt unat_ucast_u64)

lemma entry_within_less:
  "entry_within a b \<lparr>limit_name = n, limit_get = g, limit_ordering = Less\<rparr> \<longleftrightarrow> g a \<le> g b"
  by (simp add: entry_within_def ordering_reverse_def word_cmp_better)

lemma entry_within_greater:
  "entry_within a b \<lparr>limit_name = n, limit_get = g, limit_ordering = Greater\<rparr> \<longleftrightarrow> g b \<le> g a"
  by (simp add: entry_within_def ordering_reverse_def word_cmp_better)

lemma check_limits_fields:
  "check_limits a b \<longleftrightarrow>
     max_texture_dimension_1d a \<le> max_texture_dimension_1d b
     \<and> max_texture_dimension_2d a \<le> max_texture_dimension_2d b
     \<and> max_texture_dimension_3d a \<le> max_texture_dimension_3d b
     \<and> max_texture_array_layers a \<le> max_texture_array_layers b
     \<and> max_bind_groups a \<le> max_bind_groups b
     \<and> max_bindings_per_bind_group a \<le> max_bindings_per_bind_group b
     \<and> max_dynamic_uniform_buffers_per_pipeline_layout a \<le> max_dynamic_uniform_buffers_per_pipeline_layout b
     \<and> max_dynamic_storage_buffers_per_pipeline_layout a \<le> max_dynamic_storage_buffers_per_pipeline_layout b
     \<and> max_sampled_textures_per_shader_stage a \<le> max_sampled_textures_per_shader_stage b
     \<and> max_samplers_per_shader_stage a \<le> max_samplers_per_shader_stage b
     \<and> max_storage_buffers_per_shader_stage a \<le> max_storage_buffers_per_shader_stage b
     \<and> max_storage_textures_per_shader_stage a \<le> max_storage_textures_per_shader_stage b
     \<and> max_uniform_buffers_per_shader_stage a \<le> max_uniform_buffers_per_shader_stage b
     \<and> max_binding_array_elements_per_shader_stage a \<le> max_binding_array_elements_per_shader_stage b
     \<and> max_binding_array_acceleration_structure_elements_per_shader_stage a \<le> max_binding_array_acceleration_structure_elements_per_shader_stage b
     \<and> max_binding_array_sampler_elements_per_shader_stage a \<le> max_binding_array_sampler_elements_per_shader_stage b
     \<and> max_uniform_buffer_binding_size a \<le> max_uniform_buffer_binding_size b
     \<and> max_storage_buffer_binding_size a \<le> max_storage_buffer_binding_size b
     \<and> max_vertex_buffers a \<le> max_vertex_buffers b
     \<and> max_buffer_size a \<le> max_buffer_size b
     \<and> max_vertex_attributes a \<le> max_vertex_attributes b
     \<and> max_vertex_buffer_array_stride a \<le> max_vertex_buffer_array_stride b
     \<and> max_inter_stage_shader_variables a \<le> max_inter_stage_shader_variables b
     \<and> min_uniform_buffer_offset_alignment b \<le> min_uniform_buffer_offset_alignment a
     \<and> min_storage_buffer_offset_alignment b \<le> min_storage_buffer_offset_alignment a
     \<and> max_color_attachments a \<le> max_color_attachments b
     \<and> max_color_attachment_bytes_per_sample a \<le> max_color_attachment_bytes_per_sample b
     \<and> max_compute_workgroup_storage_size a \<le> max_compute_workgroup_storage_size b
     \<and> max_compute_invocations_per_workgroup a \<le> max_compute_invocations_per_workgroup b
     \<and> max_compute_workgroup_size_x a \<le> max_compute_workgroup_size_x b
     \<and> max_compute_workgroup_size_y a \<le> max_compute_workgroup_size_y b
     \<and> max_compute_workgroup_size_z a \<le> max_compute_workgroup_size_z b
     \<and> max_compute_workgroups_per_dimension a \<le> max_compute_workgroups_per_dimension b
     \<and> max_immediate_size a \<le> max_immediate_size b
     \<and> max_non_sampler_bindings a \<le> max_non_sampler_bindings b
     \<and> max_task_mesh_workgroup_total_count a \<le> max_task_mesh_workgroup_total_count b
     \<and> max_task_mesh_workgroups_per_dimension a \<le> max_task_mesh_workgroups_per_dimension b
     \<and> max_task_invocations_per_workgroup a \<le> max_task_invocations_per_workgroup b
     \<and> max_task_invocations_per_dimension a \<le> max_task_invocations_per_dimension b
     \<and> max_mesh_invocations_per_workgroup a \<le> max_mesh_invocations_per_workgroup b
     \<and> max_mesh_invocations_per_dimension a \<le> max_mesh_invocations_per_dimension b
     \<and> max_task_payload_size a \<le> max_task_payload_size b
     \<and> max_mesh_output_vertices a \<le> max_mesh_output_vertices b
     \<and> max_mesh_output_primitives a \<le> max_mesh_output_primitives b
     \<and> max_mesh_output_layers a \<le> max_mesh_output_layers b
     \<and> max_mesh_multiview_view_count a \<le> max_mesh_multiview_view_count b
     \<and> max_blas_primitive_count a \<le> max_blas_primitive_count b
     \<and> max_blas_geometry_count a \<le> max_blas_geometry_count b
     \<and> max_tlas_instance_count a \<le> max_tlas_instance_count b
     \<and> max_acceleration_structures_per_shader_stage a \<le> max_acceleration_structures_per_shader_stage b
     \<and> max_multiview_view_count a \<le> max_multiview_view_count b"
  unfolding check_limits_all with_limits_def list.set ball_simps
  by (simp only: entry_within_less entry_within_greater ucast_mono simp_thms)

lemma check_limits_refl: "check_limits l l"
  by (simp only: check_limits_fields order_refl simp_thms)

lemma check_limits_antisym: "check_limits a b \<and> check_limits b a \<longleftrightarrow> a = b"
proof
  assume "check_limits a b \<and> check_limits b a"
  then show "a = b"
    unfolding check_limits_fields by (elim conjE, intro limits.equality) (rule antisym, assumption+ | simp)+
qed (simp add: check_limits_refl)

text \<open>C37: Requested limits are admitted exactly when they are at most the allowed ones in an order
  that is antisymmetric; \<open>or_better_values_from\<close> is the least upper bound and
  \<open>or_worse_values_from\<close> the greatest lower bound of that order; and the failures reported one
  by one are exactly the entries of the table that are not admitted.\<close>

theorem limits_lattice:
  "(check_limits (or_better_values_from a b) l = (check_limits a l \<and> check_limits b l))
   \<and> (check_limits l (or_worse_values_from a b) = (check_limits l a \<and> check_limits l b))
   \<and> ((check_limits a b \<and> check_limits b a) = (a = b))
   \<and> check_limits_with_fail_fn a b False =
       map (\<lambda>e. (limit_name e, limit_get e a, limit_get e b))
         (filter (\<lambda>e. \<not> entry_within a b e) with_limits)"
proof (intro conjI)
  show "check_limits (or_better_values_from a b) l = (check_limits a l \<and> check_limits b l)"
    unfolding check_limits_fields or_better_values_from_def limits.simps max.bounded_iff min.bounded_iff
    by blast
  show "check_limits l (or_worse_values_from a b) = (check_limits l a \<and> check_limits l b)"
    unfolding check_limits_fields or_worse_values_from_def limits.simps max.bounded_iff min.bounded_iff
    by blast
  show "(check_limits a b \<and> check_limits b a) = (a = b)" by (rule check_limits_antisym)
qed (simp add: check_limits_with_fail_fn_def check_entries_filter)

text \<open>The documented relation of the presets: each set of defaults is admitted by the next.\<close>

lemma presets_ordered:
  "check_limits downlevel_webgl2_defaults downlevel_defaults"
  "check_limits downlevel_defaults limits_defaults"
  "check_limits limits_defaults unlimited"
  by code_simp+

end
