(* ===== verification/Tracking.thy ===== *)
theory Tracking
  imports Features
begin

unbundle bit_operations_syntax

text \<open>
  What the usage trackers share, \<open>wgpu-core/src/track/mod.rs\<close> and \<open>track/metadata.rs\<close>: the
  usage flags with the rule of a usage scope, the decision to skip a barrier, pending
  transitions, and the set of the resources a tracker owns.

  An unchecked access (\<open>get_unchecked\<close>, \<open>unwrap_unchecked\<close>) outside its bounds, and a failed
  \<open>strict_assert\<close>, are both \<open>None\<close>: what a lemma shows to be \<open>Some\<close> is free of undefined
  behaviour.
\<close>

named_theorems metadata_simps \<open>the operations of the resource metadata\<close>

section \<open>Usages\<close>

text \<open>\<open>u16::is_power_of_two\<close>: exactly one bit is set.\<close>

definition is_power_of_two :: "'a::len word \<Rightarrow> bool" where
  "is_power_of_two x \<longleftrightarrow> length (filter (bit x) [0..<LENGTH('a)]) = 1"

text \<open>The constant \<open>EXCLUSIVE\<close> of the trait \<open>ResourceUses\<close> is the first argument.\<close>

definition any_exclusive :: "u16 \<Rightarrow> u16 \<Rightarrow> bool" where
  "any_exclusive exclusive state = intersects state exclusive"

definition invalid_resource_state :: "u16 \<Rightarrow> u16 \<Rightarrow> bool" where
  "invalid_resource_state exclusive state =
     (any_exclusive exclusive state \<and> \<not> is_power_of_two state)"

definition skip_barrier :: "u16 \<Rightarrow> u16 \<Rightarrow> u16 \<Rightarrow> bool" where
  "skip_barrier old_state ordered_uses_mask new_state =
     (old_state = new_state \<and> contains ordered_uses_mask old_state)"

record 'sel pending_transition =
  pt_id :: u32
  pt_selector :: 'sel
  pt_from :: u16
  pt_to :: u16

datatype ('r, 'sel) usage_conflict =
  UsageConflict (conflict_resource: 'r) (conflict_selector: 'sel)
    (conflict_current: u16) (conflict_new: u16)

lemma is_power_of_two_iff: "is_power_of_two x \<longleftrightarrow> (\<exists>!n. bit x n)" for x :: "'a::len word"
proof -
  have s: "set (filter (bit x) [0..<LENGTH('a)]) = {n. bit x n}"
    by (auto dest: bit_imp_le_length)
  have d: "distinct (filter (bit x) [0..<LENGTH('a)])" by simp
  have "is_power_of_two x \<longleftrightarrow> card {n. bit x n} = 1"
    using distinct_card [OF d] s by (simp add: is_power_of_two_def)
  also have "\<dots> \<longleftrightarrow> (\<exists>!n. bit x n)"
    by (auto simp: card_1_singleton_iff set_eq_iff)
  finally show ?thesis .
qed

lemma intersects_iff: "intersects x y \<longleftrightarrow> (\<exists>n. bit x n \<and> bit y n)"
  by (auto simp: intersects_def bit_eq_iff bit_simps dest: bit_imp_le_length)

lemma contains_iff: "contains x y \<longleftrightarrow> (\<forall>n. bit y n \<longrightarrow> bit x n)"
  by (auto simp: contains_def bit_eq_iff bit_simps dest: bit_imp_le_length)

text \<open>The rule of the specification: any number of inclusive usages, or one exclusive usage.\<close>

lemma invalid_resource_state_iff:
  "\<not> invalid_resource_state exclusive s \<longleftrightarrow>
     (\<forall>n. bit s n \<longrightarrow> \<not> bit exclusive n) \<or> (\<exists>n. \<forall>k. bit s k \<longleftrightarrow> k = n)"
  unfolding invalid_resource_state_def any_exclusive_def is_power_of_two_iff intersects_iff
  by (auto simp: Ex1_def)

lemma invalid_resource_state_mono:
  assumes "invalid_resource_state exclusive s" "contains t s"
  shows "invalid_resource_state exclusive t"
  using assms unfolding invalid_resource_state_def any_exclusive_def is_power_of_two_iff
    intersects_iff contains_iff by blast

lemma contains_or: "contains (s OR t) s" "contains (s OR t) t"
  by (auto simp: contains_iff bit_simps)

lemma contains_or_iff: "contains m (s OR t) \<longleftrightarrow> contains m s \<and> contains m t"
  by (auto simp: contains_iff bit_simps)

section \<open>Resource metadata\<close>

text \<open>A \<open>BitVec\<close> is the list of its bits.\<close>

record 'r resource_metadata =
  owned :: "bool list"
  resources :: "'r option list"

definition new_metadata :: "'r resource_metadata" where
  "new_metadata = \<lparr>owned = [], resources = []\<rparr>"

definition vec_set :: "nat \<Rightarrow> 'a \<Rightarrow> 'a list \<Rightarrow> 'a list option" where
  "vec_set i x xs = (if i < length xs then Some (xs[i := x]) else None)"

definition vec_resize :: "nat \<Rightarrow> 'a \<Rightarrow> 'a list \<Rightarrow> 'a list" where
  "vec_resize n x xs = take n xs @ replicate (n - length xs) x"

definition resize_bitvec :: "bool list \<Rightarrow> nat \<Rightarrow> bool list" where
  "resize_bitvec v n =
     (if length v \<le> n then
        (let delta = n - length v in if delta \<noteq> 0 then v @ replicate delta False else v)
      else take n v)"

definition metadata_set_size :: "nat \<Rightarrow> 'r resource_metadata \<Rightarrow> 'r resource_metadata" where
  "metadata_set_size n md =
     \<lparr>owned = resize_bitvec (owned md) n, resources = vec_resize n None (resources md)\<rparr>"

definition metadata_clear :: "'r resource_metadata \<Rightarrow> 'r resource_metadata" where
  "metadata_clear md = \<lparr>owned = replicate (length (owned md)) False, resources = []\<rparr>"

definition metadata_contains :: "'r resource_metadata \<Rightarrow> nat \<Rightarrow> bool" where
  "metadata_contains md i = (case vec_get (owned md) i of Some b \<Rightarrow> b | None \<Rightarrow> False)"

definition metadata_in_bounds :: "'r resource_metadata \<Rightarrow> nat \<Rightarrow> bool" where
  "metadata_in_bounds md i \<longleftrightarrow>
     i < length (owned md) \<and> i < length (resources md)
     \<and> (if metadata_contains md i then resources md ! i \<noteq> None else True)"

definition metadata_is_empty :: "'r resource_metadata \<Rightarrow> bool" where
  "metadata_is_empty md \<longleftrightarrow> \<not> list_ex id (owned md)"

definition contains_unchecked :: "'r resource_metadata \<Rightarrow> nat \<Rightarrow> bool option" where
  "contains_unchecked md i = vec_get (owned md) i"

definition metadata_insert :: "nat \<Rightarrow> 'r \<Rightarrow> 'r resource_metadata \<Rightarrow> 'r resource_metadata option" where
  "metadata_insert i r md = do {
     ow \<leftarrow> vec_set i True (owned md);
     rs \<leftarrow> vec_set i (Some r) (resources md);
     Some \<lparr>owned = ow, resources = rs\<rparr> }"

definition get_resource_unchecked :: "'r resource_metadata \<Rightarrow> nat \<Rightarrow> 'r option" where
  "get_resource_unchecked md i = (case vec_get (resources md) i of Some r \<Rightarrow> r | None \<Rightarrow> None)"

text \<open>The bits that are set, in ascending order; the loop over words that computes them is below.\<close>

definition bitvec_indices :: "bool list \<Rightarrow> nat list" where
  "bitvec_indices v = filter (\<lambda>i. v ! i) [0..<length v]"

definition owned_indices :: "'r resource_metadata \<Rightarrow> nat list option" where
  "owned_indices md =
     (if owned md \<noteq> [] \<and> \<not> metadata_in_bounds md (length (owned md) - 1) then None
      else Some (bitvec_indices (owned md)))"

definition owned_resources :: "'r resource_metadata \<Rightarrow> 'r list option" where
  "owned_resources md =
     Option.bind (owned_indices md) (\<lambda>is. those (map (get_resource_unchecked md) is))"

definition metadata_remove :: "nat \<Rightarrow> 'r resource_metadata \<Rightarrow> 'r resource_metadata option" where
  "metadata_remove i md = do {
     rs \<leftarrow> vec_set i None (resources md);
     ow \<leftarrow> vec_set i False (owned md);
     Some \<lparr>owned = ow, resources = rs\<rparr> }"

text \<open>\<open>ResourceMetadataProvider\<close> and its \<open>get\<close>.\<close>

datatype 'r metadata_provider = DirectResource 'r | IndirectMetadata "'r resource_metadata"

definition provide_resource :: "'r metadata_provider \<Rightarrow> nat \<Rightarrow> 'r option" where
  "provide_resource p i =
     (case p of
        DirectResource r \<Rightarrow> Some r
      | IndirectMetadata md \<Rightarrow>
          if metadata_in_bounds md i then get_resource_unchecked md i else None)"

section \<open>Iterating over the set bits\<close>

text \<open>
  \<open>iterate_bitvec_indices\<close> reads the words of the bit vector, skips those that are zero, and
  tests the lowest bit of a word it shifts right for each index. \<open>BitVec::blocks\<close> is code of
  the crate \<open>bit-vec\<close>: the argument \<open>blocks\<close>, of which the documented layout is relied on.
\<close>

definition blocks_layout :: "(bool list \<Rightarrow> u64 list) \<Rightarrow> bool list \<Rightarrow> bool" where
  "blocks_layout blocks v \<longleftrightarrow>
     length (blocks v) = (length v + 63) div 64
     \<and> (\<forall>i < length v. bit (blocks v ! (i div 64)) (i mod 64) = v ! i)"

fun word_indices :: "u64 \<Rightarrow> nat list \<Rightarrow> nat list" where
  "word_indices word [] = []"
| "word_indices word (i # is) =
     (if word AND 1 \<noteq> 0 then i # word_indices (drop_bit 1 word) is
      else word_indices (drop_bit 1 word) is)"

definition iterate_bitvec_indices :: "(bool list \<Rightarrow> u64 list) \<Rightarrow> bool list \<Rightarrow> nat list" where
  "iterate_bitvec_indices blocks v =
     concat (map (\<lambda>(word_index, word).
         let bit_start = word_index * 64; bit_end = min (bit_start + 64) (length v)
         in word_indices word [bit_start..<bit_end])
       (filter (\<lambda>(_, word). word \<noteq> 0) (enumerate 0 (blocks v))))"

lemma word_indices_eq:
  "length is \<le> 64 \<Longrightarrow> word_indices w is = map fst (filter (\<lambda>(i, k). bit w k) (zip is [0..<length is]))"
proof (induction "is" arbitrary: w)
  case (Cons i "is")
  have odd: "w AND 1 \<noteq> 0 \<longleftrightarrow> bit w 0"
    by (auto simp: and_one_eq bit_0 odd_iff_mod_2_eq_one even_iff_mod_2_eq_zero)
  have shift: "zip is [Suc 0..<Suc (length is)] = map (\<lambda>(i, k). (i, Suc k)) (zip is [0..<length is])"
    by (simp only: map_Suc_upt [symmetric] zip_map2)
  have "word_indices (drop_bit 1 w) is = map fst (filter (\<lambda>(i, k). bit w (Suc k)) (zip is [0..<length is]))"
    using Cons.IH [of "drop_bit 1 w"] Cons.prems by (simp add: bit_drop_bit_eq comp_def)
  also have "\<dots> = map fst (filter (\<lambda>(i, k). bit w k) (zip is [Suc 0..<Suc (length is)]))"
    unfolding shift by (simp add: filter_map comp_def case_prod_unfold)
  finally have step: "word_indices (drop_bit 1 w) is
      = map fst (filter (\<lambda>(i, k). bit w k) (zip is [Suc 0..<Suc (length is)]))" .
  have "[0..<length (i # is)] = 0 # [Suc 0..<Suc (length is)]"
    by (simp add: upt_conv_Cons del: upt_Suc)
  then show ?case using odd step by (simp del: upt_Suc)
qed simp

lemma iterate_word:
  assumes "blocks_layout blocks v" "k < length (blocks v)"
  shows "word_indices (blocks v ! k) [k * 64..<min (k * 64 + 64) (length v)]
    = filter (\<lambda>i. v ! i) [k * 64..<min (k * 64 + 64) (length v)]" (is "_ = filter _ ?is")
proof -
  have len: "length ?is \<le> 64" by simp
  have "filter (\<lambda>(i, n). bit (blocks v ! k) n) (zip ?is [0..<length ?is])
      = filter (\<lambda>(i, n). v ! i) (zip ?is [0..<length ?is])"
  proof (rule filter_cong [OF refl])
    fix x assume "x \<in> set (zip ?is [0..<length ?is])"
    then obtain n where n0: "n < length ?is" "x = (?is ! n, n)"
      by (auto simp: set_zip)
    from n0(1) have "?is ! n = k * 64 + n" by (subst nth_upt) auto
    with n0 have n: "n < length ?is" "x = (k * 64 + n, n)" by simp_all
    then have "n < 64" "k * 64 + n < length v" by auto
    moreover from this have "(k * 64 + n) div 64 = k" "(k * 64 + n) mod 64 = n" by simp_all
    ultimately show "(case x of (i, n) \<Rightarrow> bit (blocks v ! k) n) = (case x of (i, n) \<Rightarrow> v ! i)"
      using assms(1) n(2) unfolding blocks_layout_def by force
  qed
  then have "word_indices (blocks v ! k) ?is = map fst (filter (\<lambda>(i, n). v ! i) (zip ?is [0..<length ?is]))"
    by (simp add: word_indices_eq [OF len])
  also have "\<dots> = filter (\<lambda>i. v ! i) (map fst (zip ?is [0..<length ?is]))"
    by (simp only: filter_map comp_def case_prod_unfold)
  finally show ?thesis by simp
qed

lemma concat_chunks:
  "concat (map (\<lambda>k. [k * 64..<min (k * 64 + 64) n]) [0..<m]) = [0..<min (m * 64) n]"
proof (induction m)
  case (Suc m)
  show ?case
  proof (cases "m * 64 \<le> n")
    case True
    then have "min (Suc m * 64) n = m * 64 + min 64 (n - m * 64)"
      "min (m * 64 + 64) n = m * 64 + min 64 (n - m * 64)" by auto
    then have "[0..<min (Suc m * 64) n] = [0..<m * 64] @ [m * 64..<min (m * 64 + 64) n]"
      by (simp only: upt_add_eq_append [OF le0])
    with Suc True show ?thesis by simp
  next
    case False
    with Suc show ?thesis by simp
  qed
qed simp

lemma iterate_skips_nothing:
  "concat (map (\<lambda>(k, w). f k w) (filter (\<lambda>(_, w). w \<noteq> 0) ks))
     = concat (map (\<lambda>(k, w). f k w) ks)" if "\<And>k. f k 0 = []" for f :: "nat \<Rightarrow> u64 \<Rightarrow> nat list"
  by (induction ks) (auto simp: that)

lemma word_indices_0: "word_indices 0 is = []"
  by (induction "is") auto

text \<open>Iterating over the words of a bit vector, skipping the words that are zero, yields exactly
  the indices of the bits that are set, in ascending order, whatever the length of the vector.\<close>
theorem iterate_bitvec_indices_eq:
  assumes "blocks_layout blocks v"
  shows "iterate_bitvec_indices blocks v = bitvec_indices v"
proof -
  let ?is = "\<lambda>k. [k * 64..<min (k * 64 + 64) (length v)]"
  have "iterate_bitvec_indices blocks v
      = concat (map (\<lambda>(k, w). word_indices w (?is k)) (enumerate 0 (blocks v)))"
    unfolding iterate_bitvec_indices_def Let_def
    by (rule iterate_skips_nothing) (rule word_indices_0)
  also have "\<dots> = concat (map (\<lambda>k. word_indices (blocks v ! k) (?is k)) [0..<length (blocks v)])"
    by (intro arg_cong [of _ _ concat] nth_equalityI) (auto simp: nth_enumerate_eq)
  also have "\<dots> = concat (map (\<lambda>k. filter (\<lambda>i. v ! i) (?is k)) [0..<length (blocks v)])"
    by (intro arg_cong [of _ _ concat] map_cong refl iterate_word [OF assms]) simp
  also have "\<dots> = filter (\<lambda>i. v ! i) (concat (map ?is [0..<length (blocks v)]))"
    by (simp add: filter_concat comp_def)
  also have "\<dots> = filter (\<lambda>i. v ! i) [0..<length v]"
  proof -
    have "length v \<le> length (blocks v) * 64"
      using assms unfolding blocks_layout_def by linarith
    then show ?thesis by (simp add: concat_chunks min_absorb2)
  qed
  finally show ?thesis by (simp add: bitvec_indices_def)
qed

lemma iterate_bitvec_indices_eq_witness:
  "iterate_bitvec_indices (\<lambda>v. [5]) [True, False, True] = [0, 2]"
  using iterate_bitvec_indices_eq [of "\<lambda>v. [5]" "[True, False, True]"]
  by (simp add: blocks_layout_def bitvec_indices_def less_Suc_eq numeral_2_eq_2 bit_simps upt_rec)

section \<open>Well-formed metadata\<close>

text \<open>Both vectors have the size of the tracker, and every owned index has its resource.\<close>

definition metadata_wf :: "nat \<Rightarrow> 'r resource_metadata \<Rightarrow> bool" where
  "metadata_wf n md \<longleftrightarrow> length (owned md) = n \<and> length (resources md) = n
     \<and> (\<forall>i < n. owned md ! i \<longrightarrow> resources md ! i \<noteq> None)"

definition owns :: "'r resource_metadata \<Rightarrow> nat set" where
  "owns md = {i. i < length (owned md) \<and> owned md ! i}"

lemma metadata_contains_iff [metadata_simps]: "metadata_contains md i \<longleftrightarrow> i \<in> owns md"
  by (auto simp: metadata_contains_def owns_def vec_get_def)

lemma contains_unchecked_eq [metadata_simps]:
  "metadata_wf n md \<Longrightarrow> i < n \<Longrightarrow> contains_unchecked md i = Some (i \<in> owns md)"
  by (auto simp: metadata_wf_def owns_def vec_get_def contains_unchecked_def)

lemma metadata_in_bounds [metadata_simps]: "metadata_wf n md \<Longrightarrow> metadata_in_bounds md i \<longleftrightarrow> i < n"
  by (auto simp: metadata_wf_def metadata_in_bounds_def owns_def metadata_contains_iff)

lemma metadata_wf_new: "metadata_wf 0 new_metadata"
  by (simp add: metadata_wf_def new_metadata_def)

lemma owns_new [metadata_simps]: "owns new_metadata = {}"
  by (simp add: owns_def new_metadata_def)

lemma vec_resize_simps [simp]:
  "length (vec_resize n x xs) = n"
  "i < n \<Longrightarrow> vec_resize n x xs ! i = (if i < length xs then xs ! i else x)"
  by (auto simp: vec_resize_def nth_append)

lemma resize_bitvec_eq: "resize_bitvec v n = vec_resize n False v"
  by (auto simp: resize_bitvec_def vec_resize_def Let_def)

lemma metadata_wf_set_size:
  "metadata_wf n md \<Longrightarrow> metadata_wf m (metadata_set_size m md)"
  by (auto simp: metadata_wf_def metadata_set_size_def resize_bitvec_eq)

lemma owns_set_size [metadata_simps]: "owns (metadata_set_size m md) = owns md \<inter> {..<m}"
  by (auto simp: owns_def metadata_set_size_def resize_bitvec_eq split: if_splits)

lemma metadata_insert_eq:
  assumes "metadata_wf n md" "i < n"
  shows "\<exists>md'. metadata_insert i r md = Some md' \<and> metadata_wf n md' \<and> owns md' = insert i (owns md)"
proof -
  let ?md = "\<lparr>owned = (owned md)[i := True], resources = (resources md)[i := Some r]\<rparr>"
  have "metadata_insert i r md = Some ?md"
    using assms by (simp add: metadata_insert_def metadata_wf_def vec_set_def)
  moreover have "metadata_wf n ?md"
    using assms by (auto simp: metadata_wf_def nth_list_update)
  moreover have "owns ?md = insert i (owns md)"
    using assms by (auto simp: metadata_wf_def owns_def nth_list_update)
  ultimately show ?thesis by blast
qed

lemma metadata_remove_eq:
  assumes "metadata_wf n md" "i < n"
  shows "\<exists>md'. metadata_remove i md = Some md' \<and> metadata_wf n md' \<and> owns md' = owns md - {i}"
proof -
  let ?md = "\<lparr>owned = (owned md)[i := False], resources = (resources md)[i := None]\<rparr>"
  have "metadata_remove i md = Some ?md"
    using assms by (simp add: metadata_remove_def metadata_wf_def vec_set_def)
  moreover have "metadata_wf n ?md"
    using assms by (auto simp: metadata_wf_def nth_list_update)
  moreover have "owns ?md = owns md - {i}"
    using assms by (auto simp: metadata_wf_def owns_def nth_list_update)
  ultimately show ?thesis by blast
qed

lemma owned_indices_eq:
  assumes "metadata_wf n md"
  shows "owned_indices md = Some (bitvec_indices (owned md))"
    and "set (bitvec_indices (owned md)) = owns md" and "distinct (bitvec_indices (owned md))"
proof -
  have n: "length (owned md) = n" using assms by (simp add: metadata_wf_def)
  then have "owned md \<noteq> [] \<Longrightarrow> n - 1 < n" by (cases n) auto
  then show "owned_indices md = Some (bitvec_indices (owned md))"
    by (auto simp: owned_indices_def metadata_in_bounds [OF assms] n)
qed (auto simp: bitvec_indices_def owns_def)

lemma owns_less: "metadata_wf n md \<Longrightarrow> i \<in> owns md \<Longrightarrow> i < n"
  by (auto simp: metadata_wf_def owns_def)

lemma get_resource_owned:
  "metadata_wf n md \<Longrightarrow> i \<in> owns md \<Longrightarrow> \<exists>r. get_resource_unchecked md i = Some r"
  by (auto simp: metadata_wf_def owns_def get_resource_unchecked_def vec_get_def)

lemma provide_resource_defined:
  assumes "case p of DirectResource r \<Rightarrow> True | IndirectMetadata md \<Rightarrow> metadata_wf n md \<and> i \<in> owns md"
  shows "\<exists>r. provide_resource p i = Some r"
  using assms
  by (auto simp: provide_resource_def metadata_in_bounds owns_less get_resource_owned
      split: metadata_provider.splits)

end
