(* ===== verification/BufferTracker.thy ===== *)
theory BufferTracker
  imports Tracking
begin

unbundle bit_operations_syntax

text \<open>
  The usage of buffers, \<open>wgpu-core/src/track/buffer.rs\<close>: the usage scope of a pass or dispatch
  (\<open>BufferUsageScope\<close>), the tracker of a command buffer with the first and the latest usage of
  each buffer (\<open>BufferTracker\<close>), and the tracker of the device (\<open>DeviceBufferTracker\<close>). A
  buffer is named by its tracker index. \<open>None\<close> is a failed \<open>strict_assert\<close>, a panic, or an
  unchecked access out of bounds.
\<close>

section \<open>Buffer usages\<close>

type_synonym buffer_uses = u16

definition bu_map_write :: buffer_uses where "bu_map_write = push_bit 1 1"
definition bu_copy_src :: buffer_uses where "bu_copy_src = push_bit 2 1"
definition bu_copy_dst :: buffer_uses where "bu_copy_dst = push_bit 3 1"
definition bu_storage_read_write :: buffer_uses where "bu_storage_read_write = push_bit 8 1"
definition bu_as_scratch :: buffer_uses where "bu_as_scratch = push_bit 11 1"

definition bu_exclusive :: buffer_uses where
  "bu_exclusive = bu_map_write OR bu_copy_dst OR bu_storage_read_write OR bu_as_scratch"

abbreviation valid_use :: "buffer_uses \<Rightarrow> bool" where
  "valid_use st \<equiv> \<not> invalid_resource_state bu_exclusive st"

section \<open>State providers and the four primitives\<close>

datatype buffer_state_provider = DirectState buffer_uses | IndirectState "buffer_uses list"

definition get_state :: "buffer_state_provider \<Rightarrow> nat \<Rightarrow> buffer_uses option" where
  "get_state p index =
     (case p of DirectState st \<Rightarrow> Some st | IndirectState sts \<Rightarrow> vec_get sts index)"

definition insert_state ::
  "buffer_uses list option \<Rightarrow> buffer_uses list \<Rightarrow> nat resource_metadata \<Rightarrow> nat
   \<Rightarrow> buffer_state_provider \<Rightarrow> buffer_state_provider option \<Rightarrow> nat metadata_provider
   \<Rightarrow> (buffer_uses list option \<times> buffer_uses list \<times> nat resource_metadata) option" where
  "insert_state start_states current_states md index start_provider end_provider mp = do {
     new_start \<leftarrow> get_state start_provider index;
     new_end \<leftarrow> (case end_provider of None \<Rightarrow> Some new_start | Some p \<Rightarrow> get_state p index);
     if invalid_resource_state bu_exclusive new_start \<or> invalid_resource_state bu_exclusive new_end
     then None
     else do {
       starts \<leftarrow> (case start_states of
                   None \<Rightarrow> Some None
                 | Some ss \<Rightarrow> map_option Some (vec_set index new_start ss));
       ends \<leftarrow> vec_set index new_end current_states;
       res \<leftarrow> provide_resource mp index;
       md' \<leftarrow> metadata_insert index res md;
       Some (starts, ends, md') } }"

definition merge_state ::
  "buffer_uses list \<Rightarrow> nat \<Rightarrow> buffer_state_provider \<Rightarrow> nat metadata_provider
   \<Rightarrow> (buffer_uses list \<times> (nat, unit) usage_conflict option) option" where
  "merge_state current_states index sp mp = do {
     current_state \<leftarrow> vec_get current_states index;
     new_state \<leftarrow> get_state sp index;
     let merged_state = current_state OR new_state;
     if invalid_resource_state bu_exclusive merged_state then do {
       res \<leftarrow> provide_resource mp index;
       Some (current_states, Some (UsageConflict res () current_state new_state)) }
     else Some (current_states[index := merged_state], None) }"

definition barrier_state ::
  "buffer_uses list \<Rightarrow> nat \<Rightarrow> buffer_state_provider \<Rightarrow> unit pending_transition list \<Rightarrow> buffer_uses
   \<Rightarrow> unit pending_transition list option" where
  "barrier_state current_states index sp barriers ordered_uses_mask = do {
     current_state \<leftarrow> vec_get current_states index;
     new_state \<leftarrow> get_state sp index;
     if skip_barrier current_state ordered_uses_mask new_state then Some barriers
     else Some (barriers @ [\<lparr>pt_id = of_nat index, pt_selector = (),
                             pt_from = current_state, pt_to = new_state\<rparr>]) }"

definition update_state ::
  "buffer_uses list \<Rightarrow> nat \<Rightarrow> buffer_state_provider \<Rightarrow> buffer_uses list option" where
  "update_state current_states index sp = do {
     new_state \<leftarrow> get_state sp index;
     vec_set index new_state current_states }"

section \<open>Usage scopes\<close>

type_synonym buffer_bind_group_state = "(nat \<times> buffer_uses) list"

text \<open>
  \<open>sort_unstable_by_key\<close> may order entries of one buffer in any way; the model keeps their order.
\<close>

definition bind_group_optimize :: "buffer_bind_group_state \<Rightarrow> buffer_bind_group_state" where
  "bind_group_optimize bg = sort_key fst bg"

definition used_tracker_indices :: "buffer_bind_group_state \<Rightarrow> nat list" where
  "used_tracker_indices bg = map fst bg"

definition bind_group_insert_single ::
  "nat \<Rightarrow> buffer_uses \<Rightarrow> buffer_bind_group_state \<Rightarrow> buffer_bind_group_state" where
  "bind_group_insert_single buffer st bg = bg @ [(buffer, st)]"

record buffer_usage_scope =
  scope_state :: "buffer_uses list"
  scope_metadata :: "nat resource_metadata"
  scope_ordered :: buffer_uses

definition default_scope :: buffer_usage_scope where
  "default_scope = \<lparr>scope_state = [], scope_metadata = new_metadata, scope_ordered = 0\<rparr>"

definition scope_in_bounds :: "buffer_usage_scope \<Rightarrow> nat \<Rightarrow> bool" where
  "scope_in_bounds s index \<longleftrightarrow>
     index < length (scope_state s) \<and> metadata_in_bounds (scope_metadata s) index"

definition scope_clear :: "buffer_usage_scope \<Rightarrow> buffer_usage_scope" where
  "scope_clear s = s\<lparr>scope_state := [], scope_metadata := metadata_clear (scope_metadata s)\<rparr>"

definition scope_set_size :: "nat \<Rightarrow> buffer_usage_scope \<Rightarrow> buffer_usage_scope" where
  "scope_set_size n s =
     s\<lparr>scope_state := vec_resize n 0 (scope_state s),
       scope_metadata := metadata_set_size n (scope_metadata s)\<rparr>"

definition scope_set_ordered :: "buffer_uses \<Rightarrow> buffer_usage_scope \<Rightarrow> buffer_usage_scope" where
  "scope_set_ordered m s = s\<lparr>scope_ordered := m\<rparr>"

definition scope_allow_index :: "nat \<Rightarrow> buffer_usage_scope \<Rightarrow> buffer_usage_scope" where
  "scope_allow_index index s =
     (if length (scope_state s) \<le> index then scope_set_size (index + 1) s else s)"

definition insert_or_merge ::
  "nat \<Rightarrow> buffer_state_provider \<Rightarrow> nat metadata_provider \<Rightarrow> buffer_usage_scope
   \<Rightarrow> (buffer_usage_scope \<times> (nat, unit) usage_conflict option) option" where
  "insert_or_merge index sp mp s = do {
     currently_owned \<leftarrow> contains_unchecked (scope_metadata s) index;
     if \<not> currently_owned then do {
       (_, ends, md) \<leftarrow> insert_state None (scope_state s) (scope_metadata s) index sp None mp;
       Some (s\<lparr>scope_state := ends, scope_metadata := md\<rparr>, None) }
     else do {
       (ends, r) \<leftarrow> merge_state (scope_state s) index sp mp;
       Some (s\<lparr>scope_state := ends\<rparr>, r) } }"

definition merge_bind_group ::
  "buffer_bind_group_state \<Rightarrow> buffer_usage_scope
   \<Rightarrow> (buffer_usage_scope \<times> (nat, unit) usage_conflict option) option" where
  "merge_bind_group bg s =
     fold_try (\<lambda>(buffer, st). insert_or_merge buffer (DirectState st) (DirectResource buffer)) bg s"

definition merge_usage_scope ::
  "buffer_usage_scope \<Rightarrow> buffer_usage_scope
   \<Rightarrow> (buffer_usage_scope \<times> (nat, unit) usage_conflict option) option" where
  "merge_usage_scope scope s = do {
     let incoming_size = length (scope_state scope);
     let s1 = (if length (scope_state s) < incoming_size then scope_set_size incoming_size s else s);
     indices \<leftarrow> owned_indices (scope_metadata scope);
     fold_try (\<lambda>index s.
       if scope_in_bounds s index \<and> scope_in_bounds scope index then
         insert_or_merge index (IndirectState (scope_state scope))
           (IndirectMetadata (scope_metadata scope)) s
       else None) indices s1 }"

definition merge_single ::
  "nat \<Rightarrow> buffer_uses \<Rightarrow> buffer_usage_scope
   \<Rightarrow> (buffer_usage_scope \<times> (nat, unit) usage_conflict option) option" where
  "merge_single buffer new_state s =
     (let s1 = scope_allow_index buffer s in
      if scope_in_bounds s1 buffer then
        insert_or_merge buffer (DirectState new_state) (DirectResource buffer) s1
      else None)"

definition remove_usage :: "nat \<Rightarrow> buffer_uses \<Rightarrow> buffer_usage_scope \<Rightarrow> buffer_usage_scope option" where
  "remove_usage buffer usage s =
     (if metadata_contains (scope_metadata s) buffer then do {
        st \<leftarrow> vec_get (scope_state s) buffer;
        Some (s\<lparr>scope_state := (scope_state s)[buffer := st AND NOT usage]\<rparr>) }
      else Some s)"

section \<open>The tracker of a command buffer\<close>

record buffer_tracker =
  bt_start :: "buffer_uses list"
  bt_end :: "buffer_uses list"
  bt_metadata :: "nat resource_metadata"
  bt_temp :: "unit pending_transition list"
  bt_ordered :: buffer_uses

definition new_buffer_tracker :: "buffer_uses \<Rightarrow> buffer_tracker" where
  "new_buffer_tracker ordered_uses_mask =
     \<lparr>bt_start = [], bt_end = [], bt_metadata = new_metadata, bt_temp = [],
      bt_ordered = ordered_uses_mask\<rparr>"

definition tracker_in_bounds :: "buffer_tracker \<Rightarrow> nat \<Rightarrow> bool" where
  "tracker_in_bounds t index \<longleftrightarrow>
     index < length (bt_start t) \<and> index < length (bt_end t) \<and> metadata_in_bounds (bt_metadata t) index"

definition tracker_set_size :: "nat \<Rightarrow> buffer_tracker \<Rightarrow> buffer_tracker" where
  "tracker_set_size n t =
     t\<lparr>bt_start := vec_resize n 0 (bt_start t), bt_end := vec_resize n 0 (bt_end t),
       bt_metadata := metadata_set_size n (bt_metadata t)\<rparr>"

definition tracker_allow_index :: "nat \<Rightarrow> buffer_tracker \<Rightarrow> buffer_tracker" where
  "tracker_allow_index index t =
     (if length (bt_start t) \<le> index then tracker_set_size (index + 1) t else t)"

definition tracker_contains :: "nat \<Rightarrow> buffer_tracker \<Rightarrow> bool" where
  "tracker_contains buffer t = metadata_contains (bt_metadata t) buffer"

definition tracker_used_resources :: "buffer_tracker \<Rightarrow> nat list option" where
  "tracker_used_resources t = owned_resources (bt_metadata t)"

text \<open>\<open>PendingTransition::into_hal\<close>: the first argument tells which buffers have been destroyed.\<close>

record buffer_barrier =
  bb_buffer :: nat
  bb_from :: buffer_uses
  bb_to :: buffer_uses

definition into_hal ::
  "(nat \<Rightarrow> bool) \<Rightarrow> unit pending_transition \<Rightarrow> nat \<Rightarrow> buffer_barrier option" where
  "into_hal destroyed p buf =
     (if destroyed buf then None
      else Some \<lparr>bb_buffer = buf, bb_from = pt_from p, bb_to = pt_to p\<rparr>)"

definition pending_into_hal ::
  "(nat \<Rightarrow> bool) \<Rightarrow> nat resource_metadata \<Rightarrow> unit pending_transition list
   \<Rightarrow> buffer_barrier list option" where
  "pending_into_hal destroyed md ps =
     those (map (\<lambda>p. Option.bind (get_resource_unchecked md (unat (pt_id p))) (into_hal destroyed p)) ps)"

definition drain_transitions ::
  "(nat \<Rightarrow> bool) \<Rightarrow> buffer_tracker \<Rightarrow> (buffer_barrier list \<times> buffer_tracker) option" where
  "drain_transitions destroyed t =
     map_option (\<lambda>bs. (bs, t\<lparr>bt_temp := []\<rparr>)) (pending_into_hal destroyed (bt_metadata t) (bt_temp t))"

definition insert_or_barrier_update ::
  "nat \<Rightarrow> buffer_state_provider \<Rightarrow> buffer_state_provider option \<Rightarrow> nat metadata_provider
   \<Rightarrow> buffer_tracker \<Rightarrow> buffer_tracker option" where
  "insert_or_barrier_update index start_provider end_provider mp t = do {
     currently_owned \<leftarrow> contains_unchecked (bt_metadata t) index;
     if \<not> currently_owned then do {
       (starts, ends, md) \<leftarrow>
         insert_state (Some (bt_start t)) (bt_end t) (bt_metadata t) index start_provider end_provider mp;
       Some (t\<lparr>bt_start := (case starts of Some ss \<Rightarrow> ss | None \<Rightarrow> bt_start t),
               bt_end := ends, bt_metadata := md\<rparr>) }
     else do {
       let update_provider = (case end_provider of Some p \<Rightarrow> p | None \<Rightarrow> start_provider);
       temp \<leftarrow> barrier_state (bt_end t) index start_provider (bt_temp t) (bt_ordered t);
       ends \<leftarrow> update_state (bt_end t) index update_provider;
       Some (t\<lparr>bt_temp := temp, bt_end := ends\<rparr>) } }"

text \<open>\<open>Vec::pop\<close>, after the assertion that at most one transition is pending.\<close>

definition pop_single ::
  "unit pending_transition list
   \<Rightarrow> (unit pending_transition option \<times> unit pending_transition list) option" where
  "pop_single temp =
     (if length temp \<le> 1 then
        Some (if temp = [] then (None, []) else (Some (last temp), butlast temp))
      else None)"

definition set_single ::
  "nat \<Rightarrow> buffer_uses \<Rightarrow> buffer_tracker
   \<Rightarrow> (unit pending_transition option \<times> buffer_tracker) option" where
  "set_single buffer st t =
     (let t1 = tracker_allow_index buffer t in
      if tracker_in_bounds t1 buffer then do {
        t2 \<leftarrow> insert_or_barrier_update buffer (DirectState st) None (DirectResource buffer) t1;
        (p, temp) \<leftarrow> pop_single (bt_temp t2);
        Some (p, t2\<lparr>bt_temp := temp\<rparr>) }
      else None)"

definition set_from_tracker :: "buffer_tracker \<Rightarrow> buffer_tracker \<Rightarrow> buffer_tracker option" where
  "set_from_tracker tracker t = do {
     let incoming_size = length (bt_start tracker);
     let t1 = (if length (bt_start t) < incoming_size then tracker_set_size incoming_size t else t);
     indices \<leftarrow> owned_indices (bt_metadata tracker);
     fold_opt (\<lambda>index t.
       if tracker_in_bounds t index \<and> tracker_in_bounds tracker index then
         insert_or_barrier_update index (IndirectState (bt_start tracker))
           (Some (IndirectState (bt_end tracker))) (IndirectMetadata (bt_metadata tracker)) t
       else None) indices t1 }"

definition set_from_usage_scope :: "buffer_usage_scope \<Rightarrow> buffer_tracker \<Rightarrow> buffer_tracker option" where
  "set_from_usage_scope scope t = do {
     let incoming_size = length (scope_state scope);
     let t1 = (if length (bt_start t) < incoming_size then tracker_set_size incoming_size t else t);
     indices \<leftarrow> owned_indices (scope_metadata scope);
     fold_opt (\<lambda>index t.
       if tracker_in_bounds t index \<and> scope_in_bounds scope index then
         insert_or_barrier_update index (IndirectState (scope_state scope)) None
           (IndirectMetadata (scope_metadata scope)) t
       else None) indices t1 }"

definition set_and_remove_from_usage_scope_sparse ::
  "nat list \<Rightarrow> buffer_usage_scope \<times> buffer_tracker \<Rightarrow> (buffer_usage_scope \<times> buffer_tracker) option" where
  "set_and_remove_from_usage_scope_sparse index_source st = do {
     let (scope, t) = st;
     let incoming_size = length (scope_state scope);
     let t1 = (if length (bt_start t) < incoming_size then tracker_set_size incoming_size t else t);
     fold_opt (\<lambda>index (scope, t).
       if scope_in_bounds scope index then do {
         in_scope \<leftarrow> contains_unchecked (scope_metadata scope) index;
         if \<not> in_scope then Some (scope, t)
         else do {
           t' \<leftarrow> insert_or_barrier_update index (IndirectState (scope_state scope)) None
                  (IndirectMetadata (scope_metadata scope)) t;
           md \<leftarrow> metadata_remove index (scope_metadata scope);
           Some (scope\<lparr>scope_metadata := md\<rparr>, t') } }
       else None) index_source (scope, t1) }"

section \<open>The tracker of the device\<close>

record device_buffer_tracker =
  dt_current :: "buffer_uses list"
  dt_metadata :: "nat resource_metadata"
  dt_temp :: "unit pending_transition list"
  dt_ordered :: buffer_uses

definition new_device_tracker :: "buffer_uses \<Rightarrow> device_buffer_tracker" where
  "new_device_tracker ordered_uses_mask =
     \<lparr>dt_current = [], dt_metadata = new_metadata, dt_temp = [], dt_ordered = ordered_uses_mask\<rparr>"

definition device_in_bounds :: "device_buffer_tracker \<Rightarrow> nat \<Rightarrow> bool" where
  "device_in_bounds d index \<longleftrightarrow>
     index < length (dt_current d) \<and> metadata_in_bounds (dt_metadata d) index"

definition device_allow_index :: "nat \<Rightarrow> device_buffer_tracker \<Rightarrow> device_buffer_tracker" where
  "device_allow_index index d =
     (if length (dt_current d) \<le> index then
        d\<lparr>dt_current := vec_resize (index + 1) 0 (dt_current d),
          dt_metadata := metadata_set_size (index + 1) (dt_metadata d)\<rparr>
      else d)"

definition device_used_resources :: "device_buffer_tracker \<Rightarrow> nat list option" where
  "device_used_resources d = owned_resources (dt_metadata d)"

definition device_insert_single ::
  "nat \<Rightarrow> buffer_uses \<Rightarrow> device_buffer_tracker \<Rightarrow> device_buffer_tracker option" where
  "device_insert_single buffer st d =
     (let d1 = device_allow_index buffer d in
      if device_in_bounds d1 buffer then do {
        (_, cur, md) \<leftarrow> insert_state None (dt_current d1) (dt_metadata d1) buffer (DirectState st) None
                          (DirectResource buffer);
        Some (d1\<lparr>dt_current := cur, dt_metadata := md\<rparr>) }
      else None)"

definition device_barrier_update ::
  "nat \<Rightarrow> buffer_state_provider \<Rightarrow> buffer_state_provider \<Rightarrow> device_buffer_tracker
   \<Rightarrow> device_buffer_tracker option" where
  "device_barrier_update index start_provider end_provider d =
     (if device_in_bounds d index then do {
        temp \<leftarrow> barrier_state (dt_current d) index start_provider (dt_temp d) (dt_ordered d);
        cur \<leftarrow> update_state (dt_current d) index end_provider;
        Some (d\<lparr>dt_temp := temp, dt_current := cur\<rparr>) }
      else None)"

definition device_set_single ::
  "nat \<Rightarrow> buffer_uses \<Rightarrow> device_buffer_tracker
   \<Rightarrow> (unit pending_transition option \<times> device_buffer_tracker) option" where
  "device_set_single buffer st d = do {
     d1 \<leftarrow> device_barrier_update buffer (DirectState st) (DirectState st) d;
     (p, temp) \<leftarrow> pop_single (dt_temp d1);
     Some (p, d1\<lparr>dt_temp := temp\<rparr>) }"

definition set_from_tracker_and_drain_transitions ::
  "(nat \<Rightarrow> bool) \<Rightarrow> buffer_tracker \<Rightarrow> device_buffer_tracker
   \<Rightarrow> (buffer_barrier list \<times> device_buffer_tracker) option" where
  "set_from_tracker_and_drain_transitions destroyed tracker d = do {
     indices \<leftarrow> owned_indices (bt_metadata tracker);
     d1 \<leftarrow> fold_opt (\<lambda>index. device_barrier_update index (IndirectState (bt_start tracker))
                              (IndirectState (bt_end tracker))) indices d;
     bs \<leftarrow> pending_into_hal destroyed (bt_metadata tracker) (dt_temp d1);
     Some (bs, d1\<lparr>dt_temp := []\<rparr>) }"

section \<open>Usage scopes: lemmas\<close>

definition self_named :: "nat resource_metadata \<Rightarrow> bool" where
  "self_named md \<longleftrightarrow> (\<forall>i \<in> owns md. get_resource_unchecked md i = Some i)"

definition scope_wf :: "nat \<Rightarrow> buffer_usage_scope \<Rightarrow> bool" where
  "scope_wf n s \<longleftrightarrow> length (scope_state s) = n \<and> metadata_wf n (scope_metadata s)
     \<and> self_named (scope_metadata s) \<and> (\<forall>i \<in> owns (scope_metadata s). valid_use (scope_state s ! i))"

text \<open>The contents of a scope: the usage of every buffer in it.\<close>

definition scope_map :: "buffer_usage_scope \<Rightarrow> nat \<Rightarrow> buffer_uses option" where
  "scope_map s i = (if i \<in> owns (scope_metadata s) then Some (scope_state s ! i) else None)"

definition join_use :: "buffer_uses option \<Rightarrow> buffer_uses \<Rightarrow> buffer_uses" where
  "join_use c st = (case c of None \<Rightarrow> st | Some c \<Rightarrow> c OR st)"

lemma metadata_insert_named:
  assumes "metadata_wf n md" "i < n" "self_named md"
  obtains md' where "metadata_insert i i md = Some md'" "metadata_wf n md'"
    "owns md' = insert i (owns md)" "self_named md'"
proof -
  from metadata_insert_eq [OF assms(1,2), of i] obtain md' where md':
    "metadata_insert i i md = Some md'" "metadata_wf n md'" "owns md' = insert i (owns md)" by blast
  have "resources md' = (resources md)[i := Some i]" "i < length (resources md)"
    "\<And>k. k \<in> owns md \<Longrightarrow> k < length (resources md)"
    using md'(1) assms(1,2) owns_less [OF assms(1)]
    by (auto simp: metadata_insert_def vec_set_def metadata_wf_def)
  then have "self_named md'"
    using assms(3) md'(3) by (auto simp: self_named_def get_resource_unchecked_def vec_get_def nth_list_update)
  with md' that show thesis by blast
qed

lemma metadata_remove_named:
  assumes "metadata_wf n md" "i < n" "self_named md"
  obtains md' where "metadata_remove i md = Some md'" "metadata_wf n md'"
    "owns md' = owns md - {i}" "self_named md'"
proof -
  from metadata_remove_eq [OF assms(1,2)] obtain md' where md':
    "metadata_remove i md = Some md'" "metadata_wf n md'" "owns md' = owns md - {i}" by blast
  have "resources md' = (resources md)[i := None]" "\<And>k. k \<in> owns md \<Longrightarrow> k < length (resources md)"
    using md'(1) assms(1,2) owns_less [OF assms(1)]
    by (auto simp: metadata_remove_def vec_set_def metadata_wf_def)
  then have "self_named md'"
    using assms(3) md'(3) by (auto simp: self_named_def get_resource_unchecked_def vec_get_def nth_list_update)
  with md' that show thesis by blast
qed

lemma scope_wf_default: "scope_wf 0 default_scope"
  by (simp add: scope_wf_def default_scope_def metadata_wf_new self_named_def owns_new)

lemma scope_map_default: "scope_map default_scope i = None"
  by (simp add: scope_map_def default_scope_def owns_new)

lemma self_named_set_size: "self_named md \<Longrightarrow> metadata_wf n md \<Longrightarrow> self_named (metadata_set_size m md)"
  by (auto simp: self_named_def get_resource_unchecked_def vec_get_def owns_def metadata_wf_def
      metadata_set_size_def resize_bitvec_eq split: if_splits)

lemma scope_grow:
  assumes "scope_wf n s" "n \<le> m"
  shows "scope_wf m (scope_set_size m s)" "scope_map (scope_set_size m s) = scope_map s"
proof -
  have o: "owns (metadata_set_size m (scope_metadata s)) = owns (scope_metadata s)"
    using assms owns_less [of n "scope_metadata s"] by (fastforce simp: scope_wf_def owns_set_size)
  show "scope_wf m (scope_set_size m s)"
    using assms owns_less [of n "scope_metadata s"] unfolding scope_wf_def
    by (fastforce simp: scope_set_size_def metadata_wf_set_size o self_named_set_size)
  show "scope_map (scope_set_size m s) = scope_map s"
    using assms owns_less [of n "scope_metadata s"] unfolding scope_wf_def
    by (fastforce simp: scope_map_def scope_set_size_def o)
qed

lemma insert_or_merge_step:
  assumes wf: "scope_wf n s" and i: "i < n" and st: "get_state sp i = Some st" "valid_use st"
    and r: "provide_resource mp i = Some i"
  obtains s' where "scope_wf n s'"
    "insert_or_merge i sp mp s =
       (if valid_use (join_use (scope_map s i) st) then Some (s', None)
        else Some (s, Some (UsageConflict i () (the (scope_map s i)) st)))"
    "valid_use (join_use (scope_map s i) st) \<Longrightarrow>
       scope_map s' = (scope_map s)(i \<mapsto> join_use (scope_map s i) st)"
proof (cases "i \<in> owns (scope_metadata s)")
  case True
  let ?s = "s\<lparr>scope_state := (scope_state s)[i := join_use (scope_map s i) st]\<rparr>"
  have m: "scope_map s i = Some (scope_state s ! i)" using True by (simp add: scope_map_def)
  have len: "i < length (scope_state s)" using wf i by (simp add: scope_wf_def)
  have owned: "contains_unchecked (scope_metadata s) i = Some True"
    using contains_unchecked_eq [of n "scope_metadata s" i] wf i True by (simp add: scope_wf_def)
  show thesis
  proof (cases "valid_use (join_use (scope_map s i) st)")
    case valid: True
    show thesis
    proof (rule that)
      show "scope_wf n ?s" using wf len valid by (auto simp: scope_wf_def nth_list_update)
      show "insert_or_merge i sp mp s =
         (if valid_use (join_use (scope_map s i) st) then Some (?s, None)
          else Some (s, Some (UsageConflict i () (the (scope_map s i)) st)))"
        using valid by (simp add: insert_or_merge_def owned merge_state_def vec_get_def len st m join_use_def)
      show "scope_map ?s = (scope_map s)(i \<mapsto> join_use (scope_map s i) st)"
        using True len by (auto simp: scope_map_def fun_eq_iff nth_list_update)
    qed
  next
    case False
    have "insert_or_merge i sp mp s = Some (s, Some (UsageConflict i () (the (scope_map s i)) st))"
      using False by (simp add: insert_or_merge_def owned merge_state_def vec_get_def len st m r join_use_def)
    with False wf that show thesis by simp
  qed
next
  case False
  have m: "scope_map s i = None" using False by (simp add: scope_map_def)
  have len: "i < length (scope_state s)" using wf i by (simp add: scope_wf_def)
  have owned: "contains_unchecked (scope_metadata s) i = Some False"
    using contains_unchecked_eq [of n "scope_metadata s" i] wf i False by (simp add: scope_wf_def)
  from wf i obtain md' where md': "metadata_insert i i (scope_metadata s) = Some md'" "metadata_wf n md'"
    "owns md' = insert i (owns (scope_metadata s))" "self_named md'"
    using metadata_insert_named [of n "scope_metadata s" i] by (auto simp: scope_wf_def)
  let ?s = "s\<lparr>scope_state := (scope_state s)[i := st], scope_metadata := md'\<rparr>"
  show thesis
  proof (rule that)
    show "scope_wf n ?s" using wf len md' st by (auto simp: scope_wf_def nth_list_update)
    show "insert_or_merge i sp mp s =
       (if valid_use (join_use (scope_map s i) st) then Some (?s, None)
        else Some (s, Some (UsageConflict i () (the (scope_map s i)) st)))"
      using st by (simp add: insert_or_merge_def owned insert_state_def vec_set_def len r m md' join_use_def)
    show "scope_map ?s = (scope_map s)(i \<mapsto> join_use (scope_map s i) st)"
      using md' len m by (auto simp: scope_map_def fun_eq_iff nth_list_update join_use_def)
  qed
qed

text \<open>The specification of a scope: the join of everything that was merged for a buffer.\<close>

fun join_uses :: "(nat \<times> buffer_uses) list \<Rightarrow> (nat \<Rightarrow> buffer_uses option) \<Rightarrow> nat \<Rightarrow> buffer_uses option" where
  "join_uses [] m = m"
| "join_uses ((i, st) # us) m = join_uses us (m(i \<mapsto> join_use (m i) st))"

definition conflict_free :: "(nat \<Rightarrow> buffer_uses option) \<Rightarrow> bool" where
  "conflict_free m \<longleftrightarrow> (\<forall>i st. m i = Some st \<longrightarrow> valid_use st)"

lemma join_uses_grows: "m i = Some st \<Longrightarrow> \<exists>st'. join_uses us m i = Some st' \<and> contains st' st"
proof (induction us arbitrary: m st)
  case Nil
  then show ?case by (simp add: contains_def)
next
  case (Cons u us)
  obtain j st' where u: "u = (j, st')" by (cases u)
  show ?case
  proof (cases "j = i")
    case True
    have "(m(j \<mapsto> join_use (m j) st')) i = Some (st OR st')"
      using True Cons.prems by (simp add: join_use_def)
    then have "\<exists>st''. join_uses us (m(j \<mapsto> join_use (m j) st')) i = Some st''
        \<and> contains st'' (st OR st')" by (rule Cons.IH)
    with u show ?thesis by (auto simp only: join_uses.simps contains_or_iff)
  next
    case False
    then show ?thesis using Cons u by auto
  qed
qed

lemma join_uses_conflict:
  "m i = Some st \<Longrightarrow> \<not> valid_use st \<Longrightarrow> \<not> conflict_free (join_uses us m)"
  using join_uses_grows [of m i st us] invalid_resource_state_mono
  unfolding conflict_free_def by blast

lemma scope_wf_conflict_free: "scope_wf n s \<Longrightarrow> conflict_free (scope_map s)"
  by (auto simp: scope_wf_def conflict_free_def scope_map_def split: if_splits)

text \<open>A loop of merges, each of which is one step of the specification.\<close>

lemma merge_loop:
  assumes step: "\<And>x s. x \<in> set xs \<Longrightarrow> I s \<Longrightarrow> conflict_free (scope_map s) \<Longrightarrow>
      \<exists>s' r. f x s = Some (s', r) \<and> I s' \<and> conflict_free (scope_map s')
        \<and> (case r of None \<Rightarrow> scope_map s' = (scope_map s)(key x \<mapsto> join_use (scope_map s (key x)) (st x))
           | Some c \<Rightarrow> \<not> valid_use (join_use (scope_map s (key x)) (st x)))"
    and "I s" "conflict_free (scope_map s)"
  shows "\<exists>s' r. fold_try f xs s = Some (s', r) \<and> I s'
    \<and> (case r of
         None \<Rightarrow> scope_map s' = join_uses (map (\<lambda>x. (key x, st x)) xs) (scope_map s)
           \<and> conflict_free (join_uses (map (\<lambda>x. (key x, st x)) xs) (scope_map s))
       | Some c \<Rightarrow> \<not> conflict_free (join_uses (map (\<lambda>x. (key x, st x)) xs) (scope_map s)))"
  using assms
proof (induction xs arbitrary: s)
  case Nil
  then show ?case by simp
next
  case (Cons x xs)
  from Cons.prems(1) [of x s] Cons.prems(2,3) obtain s' r where s': "f x s = Some (s', r)" "I s'"
    "conflict_free (scope_map s')"
    "case r of None \<Rightarrow> scope_map s' = (scope_map s)(key x \<mapsto> join_use (scope_map s (key x)) (st x))
       | Some c \<Rightarrow> \<not> valid_use (join_use (scope_map s (key x)) (st x))" by auto
  show ?case
  proof (cases r)
    case None
    have "\<exists>s'' r. fold_try f xs s' = Some (s'', r) \<and> I s'' \<and> (case r of
         None \<Rightarrow> scope_map s'' = join_uses (map (\<lambda>x. (key x, st x)) xs) (scope_map s')
           \<and> conflict_free (join_uses (map (\<lambda>x. (key x, st x)) xs) (scope_map s'))
       | Some c \<Rightarrow> \<not> conflict_free (join_uses (map (\<lambda>x. (key x, st x)) xs) (scope_map s')))"
      using Cons.prems(1) s' by (intro Cons.IH) auto
    moreover have eq: "join_uses (map (\<lambda>x. (key x, st x)) (x # xs)) (scope_map s)
        = join_uses (map (\<lambda>x. (key x, st x)) xs) (scope_map s')" using None s' by simp
    ultimately show ?thesis unfolding eq using None s'(1) by simp
  next
    case (Some c)
    let ?J = "join_use (scope_map s (key x)) (st x)"
    have "\<not> conflict_free (join_uses (map (\<lambda>x. (key x, st x)) xs) ((scope_map s)(key x \<mapsto> ?J)))"
      by (rule join_uses_conflict [where i = "key x" and st = ?J]) (use Some s' in simp_all)
    then have "\<not> conflict_free (join_uses (map (\<lambda>x. (key x, st x)) (x # xs)) (scope_map s))"
      by simp
    with Some s' show ?thesis by simp
  qed
qed

lemma merge_single_step:
  assumes "\<exists>n. scope_wf n s" "valid_use st" "conflict_free (scope_map s)"
  shows "\<exists>s' r. merge_single b st s = Some (s', r) \<and> (\<exists>n. scope_wf n s') \<and> conflict_free (scope_map s')
    \<and> (case r of None \<Rightarrow> scope_map s' = (scope_map s)(b \<mapsto> join_use (scope_map s b) st)
       | Some c \<Rightarrow> \<not> valid_use (join_use (scope_map s b) st))"
proof -
  from assms(1) obtain n where n: "scope_wf n s" by blast
  let ?s = "scope_allow_index b s"
  obtain m where m: "scope_wf m ?s" "b < m" "scope_map ?s = scope_map s"
    using n scope_grow [OF n, of "b + 1"] by (cases "n \<le> b") (auto simp: scope_allow_index_def scope_wf_def)
  have inb: "scope_in_bounds ?s b"
    using m by (auto simp: scope_in_bounds_def scope_wf_def metadata_in_bounds)
  obtain s' where s': "scope_wf m s'"
    "insert_or_merge b (DirectState st) (DirectResource b) ?s =
       (if valid_use (join_use (scope_map ?s b) st) then Some (s', None)
        else Some (?s, Some (UsageConflict b () (the (scope_map ?s b)) st)))"
    "valid_use (join_use (scope_map ?s b) st) \<Longrightarrow>
       scope_map s' = (scope_map ?s)(b \<mapsto> join_use (scope_map ?s b) st)"
    using insert_or_merge_step [OF m(1,2) _ assms(2), of "DirectState st" "DirectResource b"]
    by (auto simp: get_state_def provide_resource_def)
  show ?thesis
  proof (cases "valid_use (join_use (scope_map s b) st)")
    case True
    then show ?thesis using s' m inb scope_wf_conflict_free [OF s'(1)]
      by (auto simp: merge_single_def Let_def)
  next
    case False
    then show ?thesis using s' m inb assms(3) by (auto simp: merge_single_def Let_def)
  qed
qed

text \<open>C12: Starting from an empty usage scope, merging any sequence of valid usages never fails an
  assertion or leaves the bounds of a vector; it reports a conflict exactly when the usages of
  some buffer, taken together, mix an exclusive usage with another one, and otherwise the scope
  holds for every buffer exactly the union of its usages.\<close>
theorem usage_scope_exact:
  assumes "\<forall>u \<in> set us. valid_use (snd u)"
  shows "\<exists>s r. fold_try (\<lambda>(b, st). merge_single b st) us default_scope = Some (s, r)
    \<and> (r = None \<longleftrightarrow> conflict_free (join_uses us (\<lambda>_. None)))
    \<and> (if r = None then scope_map s = join_uses us (\<lambda>_. None) else True)"
proof -
  have "\<exists>s r. fold_try (\<lambda>(b, st). merge_single b st) us default_scope = Some (s, r)
    \<and> (\<exists>n. scope_wf n s)
    \<and> (case r of
         None \<Rightarrow> scope_map s = join_uses (map (\<lambda>u. (fst u, snd u)) us) (scope_map default_scope)
           \<and> conflict_free (join_uses (map (\<lambda>u. (fst u, snd u)) us) (scope_map default_scope))
       | Some c \<Rightarrow> \<not> conflict_free (join_uses (map (\<lambda>u. (fst u, snd u)) us) (scope_map default_scope)))"
    using assms scope_wf_default scope_wf_conflict_free [OF scope_wf_default]
    by (intro merge_loop) (auto simp: case_prod_unfold intro: merge_single_step)
  moreover have "scope_map default_scope = (\<lambda>_. None)" by (rule ext) (rule scope_map_default)
  ultimately show ?thesis by (auto split: option.splits)
qed

lemma usage_scope_exact_witness:
  "\<exists>s r. fold_try (\<lambda>(b, st). merge_single b st)
        [(1, bu_copy_src), (0, bu_copy_dst), (1, bu_copy_src)] default_scope = Some (s, r)
    \<and> (r = None \<longleftrightarrow> conflict_free (join_uses [(1, bu_copy_src), (0, bu_copy_dst), (1, bu_copy_src)] (\<lambda>_. None)))
    \<and> (if r = None then scope_map s = join_uses [(1, bu_copy_src), (0, bu_copy_dst), (1, bu_copy_src)] (\<lambda>_. None)
       else True)"
  by (rule usage_scope_exact)
    (simp add: invalid_resource_state_def any_exclusive_def intersects_def bu_copy_src_def
      bu_copy_dst_def bu_exclusive_def bu_map_write_def bu_storage_read_write_def bu_as_scratch_def
      is_power_of_two_def bit_simps upt_rec)

section \<open>Recording and submitting: lemmas\<close>

definition tracker_wf :: "nat \<Rightarrow> buffer_tracker \<Rightarrow> bool" where
  "tracker_wf n t \<longleftrightarrow> length (bt_start t) = n \<and> length (bt_end t) = n
     \<and> metadata_wf n (bt_metadata t) \<and> self_named (bt_metadata t)"

definition device_wf :: "nat \<Rightarrow> device_buffer_tracker \<Rightarrow> bool" where
  "device_wf n d \<longleftrightarrow> length (dt_current d) = n \<and> metadata_wf n (dt_metadata d)"

text \<open>What a tracker knows: the first and the latest usage of every buffer it owns.\<close>

definition tracker_map :: "buffer_tracker \<Rightarrow> nat \<Rightarrow> (buffer_uses \<times> buffer_uses) option" where
  "tracker_map t i = (if i \<in> owns (bt_metadata t) then Some (bt_start t ! i, bt_end t ! i) else None)"

text \<open>The transition between two usages of a buffer, unless it may be skipped.\<close>

definition transition :: "buffer_uses \<Rightarrow> nat \<Rightarrow> buffer_uses \<Rightarrow> buffer_uses \<Rightarrow> unit pending_transition list" where
  "transition m i c a =
     (if skip_barrier c m a then []
      else [\<lparr>pt_id = of_nat i, pt_selector = (), pt_from = c, pt_to = a\<rparr>])"

definition barriers_of :: "unit pending_transition list \<Rightarrow> buffer_barrier list" where
  "barriers_of = map (\<lambda>p. \<lparr>bb_buffer = unat (pt_id p), bb_from = pt_from p, bb_to = pt_to p\<rparr>)"

lemma tracker_wf_new: "tracker_wf 0 (new_buffer_tracker m)" "tracker_map (new_buffer_tracker m) = (\<lambda>_. None)"
  by (auto simp: tracker_wf_def new_buffer_tracker_def metadata_wf_new self_named_def owns_new tracker_map_def)

lemma tracker_grow:
  assumes "tracker_wf n t" "n \<le> m"
  shows "tracker_wf m (tracker_set_size m t)" "tracker_map (tracker_set_size m t) = tracker_map t"
    "bt_temp (tracker_set_size m t) = bt_temp t" "bt_ordered (tracker_set_size m t) = bt_ordered t"
proof -
  have o: "owns (metadata_set_size m (bt_metadata t)) = owns (bt_metadata t)"
    using assms owns_less [of n "bt_metadata t"] by (fastforce simp: tracker_wf_def owns_set_size)
  show "tracker_wf m (tracker_set_size m t)"
    using assms unfolding tracker_wf_def
    by (auto simp: tracker_set_size_def intro: metadata_wf_set_size self_named_set_size)
  show "tracker_map (tracker_set_size m t) = tracker_map t"
    using assms owns_less [of n "bt_metadata t"] unfolding tracker_wf_def
    by (fastforce simp: tracker_map_def tracker_set_size_def o)
qed (simp_all add: tracker_set_size_def)

lemma insert_or_barrier_update_step:
  assumes wf: "tracker_wf n t" and i: "i < n"
    and a: "get_state sp i = Some a" "valid_use a"
    and b: "(case ep of None \<Rightarrow> Some a | Some p \<Rightarrow> get_state p i) = Some b" "valid_use b"
    and r: "provide_resource mp i = Some i"
  obtains t' where "insert_or_barrier_update i sp ep mp t = Some t'" "tracker_wf n t'"
    "tracker_map t' = (tracker_map t)(i \<mapsto> (case tracker_map t i of None \<Rightarrow> (a, b) | Some (s, e) \<Rightarrow> (s, b)))"
    "bt_temp t' = bt_temp t @
       (case tracker_map t i of None \<Rightarrow> [] | Some (s, e) \<Rightarrow> transition (bt_ordered t) i e a)"
    "bt_ordered t' = bt_ordered t"
proof (cases "i \<in> owns (bt_metadata t)")
  case True
  have len: "i < length (bt_start t)" "i < length (bt_end t)" using wf i by (auto simp: tracker_wf_def)
  have m: "tracker_map t i = Some (bt_start t ! i, bt_end t ! i)" using True by (simp add: tracker_map_def)
  have owned: "contains_unchecked (bt_metadata t) i = Some True"
    using contains_unchecked_eq [of n "bt_metadata t" i] wf i True by (simp add: tracker_wf_def)
  have up: "get_state (case ep of Some p \<Rightarrow> p | None \<Rightarrow> sp) i = Some b"
    using a b by (auto split: option.splits)
  let ?t = "t\<lparr>bt_temp := bt_temp t @ transition (bt_ordered t) i (bt_end t ! i) a,
              bt_end := (bt_end t)[i := b]\<rparr>"
  show thesis
  proof (rule that)
    show "insert_or_barrier_update i sp ep mp t = Some ?t"
      using up by (simp add: insert_or_barrier_update_def owned barrier_state_def update_state_def
          vec_get_def vec_set_def len a transition_def)
    show "tracker_wf n ?t" using wf by (simp add: tracker_wf_def)
    show "tracker_map ?t = (tracker_map t)(i \<mapsto> (case tracker_map t i of None \<Rightarrow> (a, b) | Some (s, e) \<Rightarrow> (s, b)))"
      unfolding m using True len by (auto simp: tracker_map_def fun_eq_iff nth_list_update)
  qed (simp_all add: m)
next
  case False
  have len: "i < length (bt_start t)" "i < length (bt_end t)" using wf i by (auto simp: tracker_wf_def)
  have m: "tracker_map t i = None" using False by (simp add: tracker_map_def)
  have owned: "contains_unchecked (bt_metadata t) i = Some False"
    using contains_unchecked_eq [of n "bt_metadata t" i] wf i False by (simp add: tracker_wf_def)
  from wf i obtain md' where md': "metadata_insert i i (bt_metadata t) = Some md'" "metadata_wf n md'"
    "owns md' = insert i (owns (bt_metadata t))" "self_named md'"
    using metadata_insert_named [of n "bt_metadata t" i] by (auto simp: tracker_wf_def)
  have en: "(case ep of None \<Rightarrow> Some a | Some p \<Rightarrow> get_state p i) = Some b" by (rule b)
  let ?t = "t\<lparr>bt_start := (bt_start t)[i := a], bt_end := (bt_end t)[i := b], bt_metadata := md'\<rparr>"
  show thesis
  proof (rule that)
    show "insert_or_barrier_update i sp ep mp t = Some ?t"
      using a b(2) by (simp add: insert_or_barrier_update_def owned insert_state_def en vec_set_def len r md')
    show "tracker_wf n ?t" using wf md' by (simp add: tracker_wf_def)
    show "tracker_map ?t = (tracker_map t)(i \<mapsto> (case tracker_map t i of None \<Rightarrow> (a, b) | Some (s, e) \<Rightarrow> (s, b)))"
      using md' len m by (auto simp: tracker_map_def fun_eq_iff nth_list_update)
  qed (simp_all add: m)
qed

lemma device_step:
  assumes "device_wf n d" "i < n" "get_state sp i = Some a" "get_state ep i = Some b"
  shows "device_barrier_update i sp ep d
    = Some (d\<lparr>dt_temp := dt_temp d @ transition (dt_ordered d) i (dt_current d ! i) a,
              dt_current := (dt_current d)[i := b]\<rparr>)"
  using assms
  by (auto simp: device_barrier_update_def device_in_bounds_def device_wf_def metadata_in_bounds
      barrier_state_def update_state_def vec_get_def vec_set_def transition_def)

lemma pending_into_hal_eq:
  assumes "\<forall>p \<in> set ps. get_resource_unchecked md (unat (pt_id p)) = Some (unat (pt_id p))
      \<and> \<not> destroyed (unat (pt_id p))"
  shows "pending_into_hal destroyed md ps = Some (barriers_of ps)"
  using assms by (induction ps) (auto simp: pending_into_hal_def barriers_of_def into_hal_def)

lemma unat_of_nat_u32: "i < 2 ^ 32 \<Longrightarrow> unat (of_nat i :: u32) = i"
  by (simp add: unat_of_nat)

lemma barriers_of_transition:
  "i < 2 ^ 32 \<Longrightarrow> barriers_of (transition m i c a)
     = (if skip_barrier c m a then [] else [\<lparr>bb_buffer = i, bb_from = c, bb_to = a\<rparr>])"
  by (simp add: barriers_of_def transition_def unat_of_nat_u32)

lemma barriers_of_append [simp]: "barriers_of (ps @ qs) = barriers_of ps @ barriers_of qs"
  by (simp add: barriers_of_def)

lemma barriers_of_Nil [simp]: "barriers_of [] = []"
  by (simp add: barriers_of_def)

section \<open>The specification of recording and of direct tracking\<close>

fun spec_record ::
  "buffer_uses \<Rightarrow> (nat \<times> buffer_uses) list \<Rightarrow> (nat \<Rightarrow> (buffer_uses \<times> buffer_uses) option)
   \<Rightarrow> (nat \<Rightarrow> (buffer_uses \<times> buffer_uses) option) \<times> buffer_barrier list" where
  "spec_record m [] v = (v, [])"
| "spec_record m ((i, a) # us) v =
     (let (v', bs) = spec_record m us
            (v(i \<mapsto> (case v i of None \<Rightarrow> (a, a) | Some (s, e) \<Rightarrow> (s, a))))
      in (v', (case v i of None \<Rightarrow> [] | Some (s, e) \<Rightarrow> barriers_of (transition m i e a)) @ bs))"

fun spec_direct ::
  "buffer_uses \<Rightarrow> (nat \<times> buffer_uses) list \<Rightarrow> (nat \<Rightarrow> buffer_uses) \<Rightarrow> (nat \<Rightarrow> buffer_uses) \<times> buffer_barrier list" where
  "spec_direct m [] c = (c, [])"
| "spec_direct m ((i, a) # us) c =
     (let (c', bs) = spec_direct m us (c(i := a)) in (c', barriers_of (transition m i (c i) a) @ bs))"

definition enter :: "(nat \<Rightarrow> (buffer_uses \<times> buffer_uses) option) \<Rightarrow> (nat \<Rightarrow> buffer_uses) \<Rightarrow> nat \<Rightarrow> buffer_uses" where
  "enter v c i = (case v i of None \<Rightarrow> c i | Some (s, e) \<Rightarrow> e)"

abbreviation of_buffer :: "nat \<Rightarrow> buffer_barrier list \<Rightarrow> buffer_barrier list" where
  "of_buffer i \<equiv> filter (\<lambda>b. bb_buffer b = i)"

lemma of_buffer_transition:
  "k < 2 ^ 32 \<Longrightarrow> of_buffer i (barriers_of (transition m k c a))
     = (if i = k then barriers_of (transition m k c a) else [])"
  by (simp add: barriers_of_transition)

lemma spec_commutes:
  assumes "\<forall>u \<in> set us. fst u < 2 ^ 32"
    and "spec_record m us v = (v', bs)" and "spec_direct m us (enter v c) = (c', bd)"
  shows "c' = enter v' c
    \<and> (\<forall>i. of_buffer i bd =
         (if v i = None then (case v' i of None \<Rightarrow> [] | Some (s, e) \<Rightarrow> barriers_of (transition m i (c i) s))
          else []) @ of_buffer i bs)
    \<and> (\<forall>i s e. v i = Some (s, e) \<longrightarrow> (\<exists>e'. v' i = Some (s, e')))"
  using assms
proof (induction us arbitrary: v bs bd)
  case Nil
  then show ?case by auto
next
  case (Cons u us)
  obtain k a where u: "u = (k, a)" by (cases u)
  let ?v = "v(k \<mapsto> (case v k of None \<Rightarrow> (a, a) | Some (s, e) \<Rightarrow> (s, a)))"
  obtain bs1 where bs1: "spec_record m us ?v = (v', bs1)"
    "bs = (case v k of None \<Rightarrow> [] | Some (s, e) \<Rightarrow> barriers_of (transition m k e a)) @ bs1"
    using Cons.prems(2) unfolding u by (auto split: prod.splits)
  have e: "(enter v c)(k := a) = enter ?v c"
    by (auto simp: enter_def fun_eq_iff split: option.splits)
  obtain bd1 where bd1: "spec_direct m us (enter ?v c) = (c', bd1)"
    "bd = barriers_of (transition m k (enter v c k) a) @ bd1"
    using Cons.prems(3) unfolding u e [symmetric] by (auto split: prod.splits)
  have k: "k < 2 ^ 32" using Cons.prems(1) u by simp
  from Cons.IH [OF _ bs1(1) bd1(1)] Cons.prems(1) have IH: "c' = enter v' c"
    "\<And>i. of_buffer i bd1 =
         (if ?v i = None then (case v' i of None \<Rightarrow> [] | Some (s, e) \<Rightarrow> barriers_of (transition m i (c i) s))
          else []) @ of_buffer i bs1"
    "\<And>i s e. ?v i = Some (s, e) \<Longrightarrow> \<exists>e'. v' i = Some (s, e')"
    by auto
  have keep: "v i = Some (s, e) \<Longrightarrow> \<exists>e'. v' i = Some (s, e')" for i s e
    using IH(3) [of i s "if i = k then a else e"] by (cases "i = k") auto
  moreover have "of_buffer i bd =
         (if v i = None then (case v' i of None \<Rightarrow> [] | Some (s, e) \<Rightarrow> barriers_of (transition m i (c i) s))
          else []) @ of_buffer i bs" for i
  proof (cases "i = k")
    case False
    then show ?thesis using IH(2) [of i] k
      by (auto simp: bd1(2) bs1(2) of_buffer_transition split: option.splits)
  next
    case True
    show ?thesis
    proof (cases "v k")
      case None
      then obtain e' where "v' k = Some (a, e')" using IH(3) [of k a a] by auto
      with None True IH(2) [of k] k show ?thesis
        by (simp add: bd1(2) bs1(2) of_buffer_transition enter_def)
    next
      case (Some se)
      then show ?thesis using True IH(2) [of k] k
        by (cases se) (simp add: bd1(2) bs1(2) of_buffer_transition enter_def)
    qed
  qed
  ultimately show ?case using IH(1) by blast
qed


section \<open>A command buffer and its submission\<close>

text \<open>
  The uses of buffers in a command buffer, in order: single ones, as the transfer commands make
  them, and the usage scopes of passes. After each the encoder issues the barriers it is given.
\<close>

datatype use_event = UseSingle nat buffer_uses | UseScope buffer_usage_scope

fun event_uses :: "use_event \<Rightarrow> (nat \<times> buffer_uses) list" where
  "event_uses (UseSingle b st) = [(b, st)]"
| "event_uses (UseScope s) =
     map (\<lambda>i. (i, scope_state s ! i)) (bitvec_indices (owned (scope_metadata s)))"

fun record_event ::
  "(nat \<Rightarrow> bool) \<Rightarrow> use_event \<Rightarrow> buffer_tracker \<times> buffer_barrier list
   \<Rightarrow> (buffer_tracker \<times> buffer_barrier list) option" where
  "record_event destroyed (UseSingle b st) (t, bs) = do {
     (p, t') \<leftarrow> set_single b st t;
     case p of
       None \<Rightarrow> Some (t', bs)
     | Some p \<Rightarrow> map_option (\<lambda>x. (t', bs @ [x])) (into_hal destroyed p b) }"
| "record_event destroyed (UseScope s) (t, bs) = do {
     t' \<leftarrow> set_from_usage_scope s t;
     (xs, t'') \<leftarrow> drain_transitions destroyed t';
     Some (t'', bs @ xs) }"

text \<open>The same uses on the device, one by one.\<close>

definition direct_use ::
  "(nat \<Rightarrow> bool) \<Rightarrow> nat \<times> buffer_uses \<Rightarrow> device_buffer_tracker \<times> buffer_barrier list
   \<Rightarrow> (device_buffer_tracker \<times> buffer_barrier list) option" where
  "direct_use destroyed u db = do {
     let (d, bs) = db;
     (p, d') \<leftarrow> device_set_single (fst u) (snd u) d;
     case p of
       None \<Rightarrow> Some (d', bs)
     | Some p \<Rightarrow> map_option (\<lambda>x. (d', bs @ [x])) (into_hal destroyed p (fst u)) }"

definition good_event :: "nat \<Rightarrow> (nat \<Rightarrow> bool) \<Rightarrow> use_event \<Rightarrow> bool" where
  "good_event n destroyed ev \<longleftrightarrow>
     (\<forall>u \<in> set (event_uses ev). fst u < n \<and> valid_use (snd u) \<and> \<not> destroyed (fst u))
     \<and> (case ev of UseSingle b st \<Rightarrow> True | UseScope s \<Rightarrow> \<exists>k. scope_wf k s)"

lemma spec_record_append:
  "spec_record m (us @ ws) v =
     (let (v1, b1) = spec_record m us v; (v2, b2) = spec_record m ws v1 in (v2, b1 @ b2))"
  by (induction us arbitrary: v) (auto split: prod.splits)

lemma spec_record_keeps: "v i \<noteq> None \<Longrightarrow> fst (spec_record m us v) i \<noteq> None"
  by (induction us arbitrary: v) (auto simp: case_prod_unfold Let_def)

lemma spec_record_owns: "i \<in> fst ` set us \<Longrightarrow> fst (spec_record m us v) i \<noteq> None"
proof (induction us arbitrary: v)
  case (Cons u us)
  obtain k a where u: "u = (k, a)" by (cases u)
  let ?v = "v(k \<mapsto> (case v k of None \<Rightarrow> (a, a) | Some (s, e) \<Rightarrow> (s, a)))"
  have "fst (spec_record m us ?v) i \<noteq> None"
  proof (cases "i = k")
    case True
    then show ?thesis by (intro spec_record_keeps) simp
  next
    case False
    with Cons.prems u have "i \<in> fst ` set us" by auto
    then show ?thesis by (rule Cons.IH)
  qed
  then show ?case unfolding u by (simp add: case_prod_unfold Let_def)
qed simp

lemma tracker_in_bounds_iff: "tracker_wf n t \<Longrightarrow> tracker_in_bounds t i \<longleftrightarrow> i < n"
  by (auto simp: tracker_in_bounds_def tracker_wf_def metadata_in_bounds)

lemma tracker_allow:
  assumes "tracker_wf n t"
  shows "tracker_wf (max n (b + 1)) (tracker_allow_index b t)"
    "tracker_map (tracker_allow_index b t) = tracker_map t"
    "bt_temp (tracker_allow_index b t) = bt_temp t" "bt_ordered (tracker_allow_index b t) = bt_ordered t"
proof -
  have len: "length (bt_start t) = n" using assms by (simp add: tracker_wf_def)
  show "tracker_wf (max n (b + 1)) (tracker_allow_index b t)"
  proof (cases "n \<le> b")
    case True
    then show ?thesis using tracker_grow(1) [OF assms, of "b + 1"] len
      by (simp add: tracker_allow_index_def max_def)
  next
    case False
    then have "max n (b + 1) = n" by simp
    with False assms len show ?thesis by (simp add: tracker_allow_index_def)
  qed
  show "tracker_map (tracker_allow_index b t) = tracker_map t"
    using tracker_grow(2) [OF assms, of "b + 1"] len by (simp add: tracker_allow_index_def)
qed (simp_all add: tracker_allow_index_def tracker_set_size_def)

lemma record_single:
  assumes "tracker_wf n t" "bt_temp t = []" "valid_use st" "b < 2 ^ 32" "\<not> destroyed b"
  shows "\<exists>t' n'. record_event destroyed (UseSingle b st) (t, bs)
      = Some (t', bs @ snd (spec_record (bt_ordered t) [(b, st)] (tracker_map t)))
    \<and> tracker_wf n' t' \<and> bt_temp t' = [] \<and> bt_ordered t' = bt_ordered t
    \<and> tracker_map t' = fst (spec_record (bt_ordered t) [(b, st)] (tracker_map t))"
proof -
  let ?t = "tracker_allow_index b t"
  obtain m where m: "tracker_wf m ?t" "b < m" "tracker_map ?t = tracker_map t" "bt_temp ?t = []"
    "bt_ordered ?t = bt_ordered t"
    using tracker_allow [OF assms(1), of b] assms(2) by (metis less_add_one max.strict_coboundedI2)
  obtain t' where t': "insert_or_barrier_update b (DirectState st) None (DirectResource b) ?t = Some t'"
    "tracker_wf m t'"
    "tracker_map t' = (tracker_map t)(b \<mapsto> (case tracker_map t b of None \<Rightarrow> (st, st) | Some (s, e) \<Rightarrow> (s, st)))"
    "bt_temp t' = (case tracker_map t b of None \<Rightarrow> [] | Some (s, e) \<Rightarrow> transition (bt_ordered t) b e st)"
    "bt_ordered t' = bt_ordered t"
    by (rule insert_or_barrier_update_step [OF m(1,2), of "DirectState st" st None st "DirectResource b"])
      (simp_all add: assms(3) m(3-5) get_state_def provide_resource_def cong: option.case_cong prod.case_cong)
  have pop: "pop_single (bt_temp t') = Some (if bt_temp t' = [] then (None, []) else (Some (hd (bt_temp t')), []))"
    unfolding t'(4) by (auto simp: pop_single_def transition_def split: option.splits)
  let ?t' = "t'\<lparr>bt_temp := []\<rparr>"
  have t'': "tracker_wf m ?t'" "tracker_map ?t' = tracker_map t'"
    using t'(2) by (simp_all add: tracker_wf_def tracker_map_def fun_eq_iff)
  have single: "set_single b st t
      = Some (if bt_temp t' = [] then None else Some (hd (bt_temp t')), ?t')"
    using m(1,2) t'(1) pop by (simp add: set_single_def Let_def tracker_in_bounds_iff)
  have out: "record_event destroyed (UseSingle b st) (t, bs) = Some (?t', bs @ barriers_of (bt_temp t'))"
  proof (cases "bt_temp t'")
    case Nil
    have "set_single b st t = Some (None, ?t')" using single Nil by simp
    then show ?thesis using Nil by simp
  next
    case (Cons p ps)
    then have "ps = []" "pt_id p = of_nat b"
      using t'(4) by (auto simp: transition_def split: option.splits if_splits)
    moreover have "set_single b st t = Some (Some p, ?t')" using single Cons by simp
    ultimately show ?thesis
      using Cons assms(4,5) by (simp add: into_hal_def barriers_of_def unat_of_nat_u32)
  qed
  have spec: "spec_record (bt_ordered t) [(b, st)] (tracker_map t) = (tracker_map t', barriers_of (bt_temp t'))"
    unfolding t'(3,4) by (simp split: option.split)
  show ?thesis
    unfolding spec by (intro exI [of _ ?t'] exI [of _ m]) (simp add: out t'' t'(5) del: record_event.simps)
qed

lemma record_scope_loop:
  assumes "\<forall>i \<in> set is. i < n \<and> valid_use (st i) \<and> get_state sp i = Some (st i)
      \<and> provide_resource mp i = Some i"
    and "tracker_wf n t"
    and ok: "\<And>i t. i \<in> set is \<Longrightarrow> tracker_wf n t \<Longrightarrow> ok i t"
  shows "\<exists>t' ps. fold_opt (\<lambda>i t. if ok i t then insert_or_barrier_update i sp None mp t else None) is t = Some t'
    \<and> tracker_wf n t' \<and> bt_ordered t' = bt_ordered t
    \<and> tracker_map t' = fst (spec_record (bt_ordered t) (map (\<lambda>i. (i, st i)) is) (tracker_map t))
    \<and> bt_temp t' = bt_temp t @ ps
    \<and> barriers_of ps = snd (spec_record (bt_ordered t) (map (\<lambda>i. (i, st i)) is) (tracker_map t))
    \<and> (\<forall>p \<in> set ps. \<exists>i \<in> set is. pt_id p = of_nat i)"
  using assms(1,2) ok
proof (induction "is" arbitrary: t)
  case Nil
  then show ?case by auto
next
  case (Cons i "is")
  obtain t' where t': "insert_or_barrier_update i sp None mp t = Some t'" "tracker_wf n t'"
    "tracker_map t' = (tracker_map t)(i \<mapsto> (case tracker_map t i of None \<Rightarrow> (st i, st i) | Some (s, e) \<Rightarrow> (s, st i)))"
    "bt_temp t' = bt_temp t @
       (case tracker_map t i of None \<Rightarrow> [] | Some (s, e) \<Rightarrow> transition (bt_ordered t) i e (st i))"
    "bt_ordered t' = bt_ordered t"
    using insert_or_barrier_update_step [OF Cons.prems(2), of i sp "st i" None "st i" mp] Cons.prems(1)
    by (auto simp: get_state_def)
  have "\<forall>i \<in> set is. i < n \<and> valid_use (st i) \<and> get_state sp i = Some (st i) \<and> provide_resource mp i = Some i"
    using Cons.prems(1) by simp
  from Cons.IH [OF this t'(2)] Cons.prems(3) obtain t'' ps where t'':
    "fold_opt (\<lambda>i t. if ok i t then insert_or_barrier_update i sp None mp t else None) is t' = Some t''"
    "tracker_wf n t''" "bt_ordered t'' = bt_ordered t'"
    "tracker_map t'' = fst (spec_record (bt_ordered t') (map (\<lambda>i. (i, st i)) is) (tracker_map t'))"
    "bt_temp t'' = bt_temp t' @ ps"
    "barriers_of ps = snd (spec_record (bt_ordered t') (map (\<lambda>i. (i, st i)) is) (tracker_map t'))"
    "\<forall>p \<in> set ps. \<exists>i \<in> set is. pt_id p = of_nat i"
    by auto
  let ?ps = "(case tracker_map t i of None \<Rightarrow> [] | Some (s, e) \<Rightarrow> transition (bt_ordered t) i e (st i)) @ ps"
  have ids: "\<forall>p \<in> set ?ps. \<exists>j \<in> set (i # is). pt_id p = of_nat j"
    using t''(7) by (auto simp: transition_def split: option.splits if_splits)
  have ok_i: "ok i t" using Cons.prems(2,3) by simp
  let ?us = "map (\<lambda>i. (i, st i))"
  let ?X = "case tracker_map t i of None \<Rightarrow> [] | Some (s, e) \<Rightarrow> transition (bt_ordered t) i e (st i)"
  have spec: "spec_record (bt_ordered t) (?us (i # is)) (tracker_map t)
      = (fst (spec_record (bt_ordered t) (?us is) (tracker_map t')),
         barriers_of ?X @ snd (spec_record (bt_ordered t) (?us is) (tracker_map t')))"
    unfolding t'(3) by (simp add: case_prod_unfold Let_def split: option.split)
  have fold: "fold_opt (\<lambda>i t. if ok i t then insert_or_barrier_update i sp None mp t else None) (i # is) t = Some t''"
    using ok_i t'(1) t''(1) by simp
  show ?case
    unfolding spec fst_conv snd_conv
    by (intro exI [of _ t''] exI [of _ ?ps] conjI fold t''(2) ids)
      (simp_all add: t''(3-6) t'(4,5))
qed

lemma record_scope:
  assumes t: "tracker_wf n t" "bt_temp t = []" and s: "scope_wf k s"
    and small: "\<forall>i \<in> owns (scope_metadata s). i < 2 ^ 32 \<and> \<not> destroyed i"
  shows "\<exists>t' n'. record_event destroyed (UseScope s) (t, bs)
      = Some (t', bs @ snd (spec_record (bt_ordered t) (event_uses (UseScope s)) (tracker_map t)))
    \<and> tracker_wf n' t' \<and> bt_temp t' = [] \<and> bt_ordered t' = bt_ordered t
    \<and> tracker_map t' = fst (spec_record (bt_ordered t) (event_uses (UseScope s)) (tracker_map t))"
proof -
  let ?md = "scope_metadata s"
  let ?is = "bitvec_indices (owned ?md)"
  define t1 where "t1 = (if length (bt_start t) < length (scope_state s)
                         then tracker_set_size (length (scope_state s)) t else t)"
  have md: "metadata_wf k ?md" "length (scope_state s) = k" "self_named ?md"
    "\<And>i. i \<in> owns ?md \<Longrightarrow> valid_use (scope_state s ! i)"
    using s by (auto simp: scope_wf_def)
  have len: "length (bt_start t) = n" using t by (simp add: tracker_wf_def)
  obtain m where m: "tracker_wf m t1" "k \<le> m" "tracker_map t1 = tracker_map t" "bt_temp t1 = []"
    "bt_ordered t1 = bt_ordered t"
  proof (cases "n < k")
    case True
    then show thesis using that [of k] tracker_grow [OF t(1), of k] t(2) by (simp add: t1_def len md(2))
  next
    case False
    then show thesis using that [of n] t by (simp add: t1_def len md(2))
  qed
  have small': "i < m" and less: "i < k" if "i \<in> owns ?md" for i
    using owns_less [OF md(1) that] m(2) by simp_all
  have is_ok: "\<forall>i \<in> set ?is. i < m \<and> valid_use (scope_state s ! i)
      \<and> get_state (IndirectState (scope_state s)) i = Some (scope_state s ! i)
      \<and> provide_resource (IndirectMetadata ?md) i = Some i"
    using md small' less
    by (auto simp: owned_indices_eq(2) [OF md(1)] get_state_def vec_get_def provide_resource_def
        metadata_in_bounds [OF md(1)] self_named_def)
  have ok: "tracker_in_bounds t' i \<and> scope_in_bounds s i" if "i \<in> set ?is" "tracker_wf m t'" for i t'
    using that md owns_less [OF md(1), of i] m(2)
    by (auto simp: tracker_in_bounds_iff scope_in_bounds_def metadata_in_bounds [OF md(1)]
        owned_indices_eq(2) [OF md(1)])
  obtain t' ps where t':
    "fold_opt (\<lambda>i t. if tracker_in_bounds t i \<and> scope_in_bounds s i
        then insert_or_barrier_update i (IndirectState (scope_state s)) None (IndirectMetadata ?md) t
        else None) ?is t1 = Some t'"
    "tracker_wf m t'" "bt_ordered t' = bt_ordered t"
    "tracker_map t' = fst (spec_record (bt_ordered t) (event_uses (UseScope s)) (tracker_map t))"
    "bt_temp t' = ps"
    "barriers_of ps = snd (spec_record (bt_ordered t) (event_uses (UseScope s)) (tracker_map t))"
    "\<forall>p \<in> set ps. \<exists>i \<in> set ?is. pt_id p = of_nat i"
    using record_scope_loop [where ok = "\<lambda>i t. tracker_in_bounds t i \<and> scope_in_bounds s i",
        OF is_ok m(1) ok] m(3-5) by auto
  have from_scope: "set_from_usage_scope s t = Some t'"
    using t'(1) by (simp add: set_from_usage_scope_def owned_indices_eq(1) [OF md(1)] t1_def [symmetric] Let_def)
  have owned': "set ?is \<subseteq> owns (bt_metadata t')"
  proof
    fix i assume "i \<in> set ?is"
    then have "tracker_map t' i \<noteq> None"
      unfolding t'(4) by (intro spec_record_owns) force
    then show "i \<in> owns (bt_metadata t')" by (auto simp: tracker_map_def split: if_splits)
  qed
  have "drain_transitions destroyed t' = Some (barriers_of ps, t'\<lparr>bt_temp := []\<rparr>)"
  proof -
    have "pending_into_hal destroyed (bt_metadata t') ps = Some (barriers_of ps)"
    proof (rule pending_into_hal_eq, rule ballI)
      fix p assume "p \<in> set ps"
      with t'(7) obtain i where i: "i \<in> set ?is" "pt_id p = of_nat i" by blast
      then have "i \<in> owns ?md" by (simp add: owned_indices_eq(2) [OF md(1)])
      with i small have "unat (pt_id p) = i" "\<not> destroyed i" by (auto simp: unat_of_nat_u32)
      moreover have "get_resource_unchecked (bt_metadata t') i = Some i"
        using i(1) owned' t'(2) by (auto simp: tracker_wf_def self_named_def)
      ultimately show "get_resource_unchecked (bt_metadata t') (unat (pt_id p)) = Some (unat (pt_id p))
          \<and> \<not> destroyed (unat (pt_id p))" by simp
    qed
    then show ?thesis by (simp add: drain_transitions_def t'(5))
  qed
  with from_scope have "record_event destroyed (UseScope s) (t, bs)
      = Some (t'\<lparr>bt_temp := []\<rparr>, bs @ barriers_of ps)" by simp
  moreover have "tracker_wf m (t'\<lparr>bt_temp := []\<rparr>)" "tracker_map (t'\<lparr>bt_temp := []\<rparr>) = tracker_map t'"
    using t'(2) by (simp_all add: tracker_wf_def tracker_map_def fun_eq_iff)
  ultimately show ?thesis
    using t'(3,4,6) by (intro exI [of _ "t'\<lparr>bt_temp := []\<rparr>"] exI [of _ m]) simp
qed

lemma record_events:
  assumes "tracker_wf n t" "bt_temp t = []" "\<forall>ev \<in> set evs. good_event N destroyed ev" "N \<le> 2 ^ 32"
  shows "\<exists>t' n'. fold_opt (record_event destroyed) evs (t, bs)
      = Some (t', bs @ snd (spec_record (bt_ordered t) (concat (map event_uses evs)) (tracker_map t)))
    \<and> tracker_wf n' t'
    \<and> tracker_map t' = fst (spec_record (bt_ordered t) (concat (map event_uses evs)) (tracker_map t))"
  using assms
proof (induction evs arbitrary: t n bs)
  case Nil
  then show ?case by auto
next
  case (Cons ev evs)
  have good: "good_event N destroyed ev" using Cons.prems(3) by simp
  have "\<exists>t' n'. record_event destroyed ev (t, bs)
      = Some (t', bs @ snd (spec_record (bt_ordered t) (event_uses ev) (tracker_map t)))
    \<and> tracker_wf n' t' \<and> bt_temp t' = [] \<and> bt_ordered t' = bt_ordered t
    \<and> tracker_map t' = fst (spec_record (bt_ordered t) (event_uses ev) (tracker_map t))"
  proof (cases ev)
    case (UseSingle b st)
    with good Cons.prems(4) have "valid_use st" "b < 2 ^ 32" "\<not> destroyed b" by (auto simp: good_event_def)
    from record_single [where destroyed = destroyed, OF Cons.prems(1,2) this] UseSingle show ?thesis by (simp only: event_uses.simps)
  next
    case (UseScope s)
    with good obtain k where k: "scope_wf k s" by (auto simp: good_event_def)
    then have "\<forall>i \<in> owns (scope_metadata s). i < 2 ^ 32 \<and> \<not> destroyed i"
      using good Cons.prems(4) UseScope owned_indices_eq(2) [of k "scope_metadata s"]
      by (force simp: good_event_def scope_wf_def)
    from record_scope [where destroyed = destroyed, OF Cons.prems(1,2) k this] UseScope show ?thesis by (simp only:)
  qed
  then obtain t' n' where t': "record_event destroyed ev (t, bs)
      = Some (t', bs @ snd (spec_record (bt_ordered t) (event_uses ev) (tracker_map t)))"
    "tracker_wf n' t'" "bt_temp t' = []" "bt_ordered t' = bt_ordered t"
    "tracker_map t' = fst (spec_record (bt_ordered t) (event_uses ev) (tracker_map t))" by blast
  let ?bs = "bs @ snd (spec_record (bt_ordered t) (event_uses ev) (tracker_map t))"
  have good': "\<forall>ev \<in> set evs. good_event N destroyed ev" using Cons.prems(3) by simp
  obtain t'' n'' where t'': "fold_opt (record_event destroyed) evs (t', ?bs)
      = Some (t'', ?bs @ snd (spec_record (bt_ordered t') (concat (map event_uses evs)) (tracker_map t')))"
    "tracker_wf n'' t''"
    "tracker_map t'' = fst (spec_record (bt_ordered t') (concat (map event_uses evs)) (tracker_map t'))"
    using Cons.IH [OF t'(2,3) good' Cons.prems(4), of ?bs] by blast
  have split: "spec_record (bt_ordered t) (concat (map event_uses (ev # evs))) (tracker_map t)
    = (tracker_map t'', snd (spec_record (bt_ordered t) (event_uses ev) (tracker_map t))
         @ snd (spec_record (bt_ordered t') (concat (map event_uses evs)) (tracker_map t')))"
    unfolding t''(3) t'(4,5) by (simp add: spec_record_append case_prod_unfold Let_def)
  have "fold_opt (record_event destroyed) (ev # evs) (t, bs)
    = Some (t'', ?bs @ snd (spec_record (bt_ordered t') (concat (map event_uses evs)) (tracker_map t')))"
    by (simp only: fold_opt.simps t'(1) Option.bind.simps t''(1))
  with t''(2) show ?case unfolding split fst_conv snd_conv by auto
qed

lemma direct_uses:
  assumes "device_wf N d" "dt_temp d = []" "N \<le> 2 ^ 32" "\<forall>u \<in> set us. fst u < N \<and> \<not> destroyed (fst u)"
  shows "\<exists>d'. fold_opt (direct_use destroyed) us (d, bs)
      = Some (d', bs @ snd (spec_direct (dt_ordered d) us ((!) (dt_current d))))
    \<and> device_wf N d' \<and> (\<forall>i < N. dt_current d' ! i = fst (spec_direct (dt_ordered d) us ((!) (dt_current d))) i)"
  using assms
proof (induction us arbitrary: d bs)
  case Nil
  then show ?case by auto
next
  case (Cons u us)
  obtain k a where u: "u = (k, a)" by (cases u)
  have k: "k < N" "k < 2 ^ 32" "\<not> destroyed k" using Cons.prems(3,4) u by auto
  have len: "length (dt_current d) = N" using Cons.prems(1) by (simp add: device_wf_def)
  let ?d = "d\<lparr>dt_current := (dt_current d)[k := a], dt_temp := []\<rparr>"
  let ?b = "barriers_of (transition (dt_ordered d) k (dt_current d ! k) a)"
  have "direct_use destroyed u (d, bs) = Some (?d, bs @ ?b)"
    using device_step [OF Cons.prems(1) k(1), of "DirectState a" a "DirectState a" a] Cons.prems(2) k u
    by (auto simp: direct_use_def device_set_single_def get_state_def pop_single_def transition_def
        into_hal_def barriers_of_def unat_of_nat_u32)
  moreover have wf: "device_wf N ?d" "dt_temp ?d = []" using Cons.prems(1) by (simp_all add: device_wf_def)
  moreover have "\<forall>u \<in> set us. fst u < N \<and> \<not> destroyed (fst u)" using Cons.prems(4) by simp
  from Cons.IH [OF wf Cons.prems(3) this, of "bs @ ?b"] obtain d' where d':
    "fold_opt (direct_use destroyed) us (?d, bs @ ?b)
      = Some (d', (bs @ ?b) @ snd (spec_direct (dt_ordered d) us ((!) ((dt_current d)[k := a]))))"
    "device_wf N d'"
    "\<forall>i < N. dt_current d' ! i = fst (spec_direct (dt_ordered d) us ((!) ((dt_current d)[k := a]))) i"
    by auto
  have upd: "(!) ((dt_current d)[k := a]) = ((!) (dt_current d))(k := a)"
    using k(1) len by (auto simp: fun_eq_iff nth_list_update)
  ultimately show ?case
    using d' [unfolded upd] unfolding u by (intro exI [of _ d']) (simp add: case_prod_unfold Let_def)
qed

text \<open>Entering a recorded tracker on the device.\<close>

lemma submit_loop:
  assumes "device_wf N d" "\<forall>i \<in> set is. i < N \<and> get_state sp i = Some (s i) \<and> get_state ep i = Some (e i)"
    and "distinct is"
  shows "\<exists>d'. fold_opt (\<lambda>i. device_barrier_update i sp ep) is d = Some d' \<and> device_wf N d'
    \<and> dt_temp d' = dt_temp d @ concat (map (\<lambda>i. transition (dt_ordered d) i (dt_current d ! i) (s i)) is)
    \<and> (\<forall>i < N. dt_current d' ! i = (if i \<in> set is then e i else dt_current d ! i))"
  using assms
proof (induction "is" arbitrary: d)
  case Nil
  then show ?case by auto
next
  case (Cons i "is")
  let ?d = "d\<lparr>dt_temp := dt_temp d @ transition (dt_ordered d) i (dt_current d ! i) (s i),
              dt_current := (dt_current d)[i := e i]\<rparr>"
  have step: "device_barrier_update i sp ep d = Some ?d"
    using Cons.prems(2) by (intro device_step [OF Cons.prems(1)]) auto
  have wf: "device_wf N ?d" and i: "i < length (dt_current d)"
    using Cons.prems(1,2) by (auto simp: device_wf_def)
  have "\<forall>i \<in> set is. i < N \<and> get_state sp i = Some (s i) \<and> get_state ep i = Some (e i)" "distinct is"
    using Cons.prems by auto
  from Cons.IH [OF wf this] obtain d' where d': "fold_opt (\<lambda>i. device_barrier_update i sp ep) is ?d = Some d'"
    "device_wf N d'"
    "dt_temp d' = dt_temp ?d @ concat (map (\<lambda>i. transition (dt_ordered ?d) i (dt_current ?d ! i) (s i)) is)"
    "\<forall>j < N. dt_current d' ! j = (if j \<in> set is then e j else dt_current ?d ! j)" by blast
  have same: "map (\<lambda>j. transition (dt_ordered ?d) j (dt_current ?d ! j) (s j)) is
      = map (\<lambda>j. transition (dt_ordered d) j (dt_current d ! j) (s j)) is"
  proof (intro map_cong refl)
    fix j assume "j \<in> set is"
    with Cons.prems(3) have "i \<noteq> j" by auto
    then show "transition (dt_ordered ?d) j (dt_current ?d ! j) (s j)
        = transition (dt_ordered d) j (dt_current d ! j) (s j)" by simp
  qed
  have "dt_temp d' = dt_temp d @ concat (map (\<lambda>i. transition (dt_ordered d) i (dt_current d ! i) (s i)) (i # is))"
    using d'(3) unfolding same by simp
  moreover have "\<forall>j < N. dt_current d' ! j = (if j \<in> set (i # is) then e j else dt_current d ! j)"
    using d'(4) i by (auto simp: nth_list_update)
  ultimately show ?case using step d'(1,2) by (intro exI [of _ d']) simp
qed

lemma submit:
  assumes t: "tracker_wf n t" and d: "device_wf N d" "dt_temp d = []" "N \<le> 2 ^ 32"
    and small: "\<forall>i \<in> owns (bt_metadata t). i < N \<and> \<not> destroyed i"
  shows "\<exists>bs d'. set_from_tracker_and_drain_transitions destroyed t d = Some (bs, d') \<and> device_wf N d'
    \<and> (\<forall>i < N. dt_current d' ! i = enter (tracker_map t) ((!) (dt_current d)) i)
    \<and> (\<forall>i. of_buffer i bs = (case tracker_map t i of None \<Rightarrow> []
          | Some (s, e) \<Rightarrow> barriers_of (transition (dt_ordered d) i (dt_current d ! i) s)))"
proof -
  let ?md = "bt_metadata t" and ?is = "bitvec_indices (owned (bt_metadata t))"
  have md: "metadata_wf n ?md" "length (bt_start t) = n" "length (bt_end t) = n" "self_named ?md"
    using t by (auto simp: tracker_wf_def)
  have set_is: "set ?is = owns ?md" and dist: "distinct ?is" using owned_indices_eq [OF md(1)] by auto
  have "\<forall>i \<in> set ?is. i < N \<and> get_state (IndirectState (bt_start t)) i = Some (bt_start t ! i)
      \<and> get_state (IndirectState (bt_end t)) i = Some (bt_end t ! i)"
    using small owns_less [OF md(1)] md(2,3) by (auto simp: set_is get_state_def vec_get_def)
  from submit_loop [OF d(1) this dist] obtain d' where d':
    "fold_opt (\<lambda>i. device_barrier_update i (IndirectState (bt_start t)) (IndirectState (bt_end t))) ?is d = Some d'"
    "device_wf N d'"
    "dt_temp d' = concat (map (\<lambda>i. transition (dt_ordered d) i (dt_current d ! i) (bt_start t ! i)) ?is)"
    "\<forall>i < N. dt_current d' ! i = (if i \<in> set ?is then bt_end t ! i else dt_current d ! i)"
    using d(2) by auto
  have "pending_into_hal destroyed ?md (dt_temp d') = Some (barriers_of (dt_temp d'))"
  proof (rule pending_into_hal_eq, rule ballI)
    fix p assume "p \<in> set (dt_temp d')"
    then obtain i where i: "i \<in> owns ?md" "pt_id p = of_nat i"
      by (auto simp: d'(3) set_is transition_def split: if_splits)
    moreover from this small d(3) have "unat (pt_id p) = i" "\<not> destroyed i"
      by (auto simp: unat_of_nat_u32)
    ultimately show "get_resource_unchecked ?md (unat (pt_id p)) = Some (unat (pt_id p))
        \<and> \<not> destroyed (unat (pt_id p))" using md(4) by (simp add: self_named_def)
  qed
  then have run: "set_from_tracker_and_drain_transitions destroyed t d
      = Some (barriers_of (dt_temp d'), d'\<lparr>dt_temp := []\<rparr>)"
    using d'(1) by (simp add: set_from_tracker_and_drain_transitions_def owned_indices_eq(1) [OF md(1)])
  have cur: "dt_current d' ! i = enter (tracker_map t) ((!) (dt_current d)) i" if "i < N" for i
    using d'(4) that by (simp add: enter_def tracker_map_def set_is)
  have "of_buffer i (barriers_of (concat (map (\<lambda>i. transition (dt_ordered d) i (dt_current d ! i) (bt_start t ! i)) is)))
      = (if i \<in> set is then barriers_of (transition (dt_ordered d) i (dt_current d ! i) (bt_start t ! i)) else [])"
    if "distinct is" "\<forall>i \<in> set is. i < 2 ^ 32" for i "is"
    using that by (induction "is") (auto simp: of_buffer_transition)
  from this [OF dist] have "of_buffer i (barriers_of (dt_temp d'))
      = (case tracker_map t i of None \<Rightarrow> []
          | Some (s, e) \<Rightarrow> barriers_of (transition (dt_ordered d) i (dt_current d ! i) s))" for i
    using small d(3) unfolding d'(3) by (force simp: set_is tracker_map_def)
  moreover have "device_wf N (d'\<lparr>dt_temp := []\<rparr>)" using d'(2) by (simp add: device_wf_def)
  ultimately show ?thesis using run cur
    by (intro exI [of _ "barriers_of (dt_temp d')"] exI [of _ "d'\<lparr>dt_temp := []\<rparr>"] conjI allI impI)
      simp_all
qed

text \<open>C6: Recording the uses of buffers in a command buffer and entering its tracker on the device at
  submission inserts, for every buffer, exactly the barriers that tracking each use directly on
  the device would have inserted, in the same order, and leaves the device with the same state.
  Neither fails an assertion, leaves the bounds of a vector, or issues a barrier for a
  destroyed buffer.\<close>
theorem record_submit_equals_direct:
  assumes "device_wf N d" "dt_temp d = []" "N \<le> 2 ^ 32"
    and "\<forall>ev \<in> set evs. good_event N destroyed ev"
  shows "\<exists>t recorded entry d1 direct d2.
      fold_opt (record_event destroyed) evs (new_buffer_tracker (dt_ordered d), []) = Some (t, recorded)
    \<and> set_from_tracker_and_drain_transitions destroyed t d = Some (entry, d1)
    \<and> fold_opt (direct_use destroyed) (concat (map event_uses evs)) (d, []) = Some (d2, direct)
    \<and> dt_current d1 = dt_current d2
    \<and> (\<forall>i. of_buffer i direct = of_buffer i entry @ of_buffer i recorded)"
proof -
  let ?m = "dt_ordered d" and ?us = "concat (map event_uses evs)"
  let ?t0 = "new_buffer_tracker ?m"
  have t0: "bt_temp ?t0 = []" "bt_ordered ?t0 = ?m" by (simp_all add: new_buffer_tracker_def)
  obtain t n where t: "fold_opt (record_event destroyed) evs (?t0, [])
      = Some (t, snd (spec_record ?m ?us (\<lambda>_. None)))"
    "tracker_wf n t" "tracker_map t = fst (spec_record ?m ?us (\<lambda>_. None))"
    using record_events [OF tracker_wf_new(1) t0(1) assms(4,3), of "[]"] unfolding t0 tracker_wf_new
    by auto
  have us: "\<forall>u \<in> set ?us. fst u < N \<and> \<not> destroyed (fst u)"
    using assms(4) by (fastforce simp: good_event_def)
  obtain d2 where d2: "fold_opt (direct_use destroyed) ?us (d, [])
      = Some (d2, snd (spec_direct ?m ?us ((!) (dt_current d))))" "device_wf N d2"
    "\<forall>i < N. dt_current d2 ! i = fst (spec_direct ?m ?us ((!) (dt_current d))) i"
    using direct_uses [OF assms(1-3) us, of "[]"] by auto
  have only: "v i = None \<Longrightarrow> i \<notin> fst ` set us \<Longrightarrow> fst (spec_record m us v) i = None" for m us v i
    by (induction us arbitrary: v) (auto simp: case_prod_unfold Let_def)
  have "\<forall>i \<in> owns (bt_metadata t). i < N \<and> \<not> destroyed i"
  proof
    fix i assume "i \<in> owns (bt_metadata t)"
    then have "fst (spec_record ?m ?us (\<lambda>_. None)) i \<noteq> None"
      unfolding t(3) [symmetric] by (simp add: tracker_map_def)
    with only [of "\<lambda>_. None" i ?us ?m] have "i \<in> fst ` set ?us" by blast
    with us show "i < N \<and> \<not> destroyed i" by auto
  qed
  from submit [OF t(2) assms(1-3) this] obtain entry d1 where d1:
    "set_from_tracker_and_drain_transitions destroyed t d = Some (entry, d1)" "device_wf N d1"
    "\<forall>i < N. dt_current d1 ! i = enter (tracker_map t) ((!) (dt_current d)) i"
    "\<And>i. of_buffer i entry = (case tracker_map t i of None \<Rightarrow> []
          | Some (s, e) \<Rightarrow> barriers_of (transition ?m i (dt_current d ! i) s))"
    by blast
  let ?c = "(!) (dt_current d)"
  have small: "\<forall>u \<in> set ?us. fst u < 2 ^ 32" using us assms(3) by fastforce
  have enter: "enter (\<lambda>_. None) ?c = ?c" by (simp add: enter_def fun_eq_iff)
  have "spec_record ?m ?us (\<lambda>_. None) = (tracker_map t, snd (spec_record ?m ?us (\<lambda>_. None)))"
    unfolding t(3) by simp
  moreover have "spec_direct ?m ?us (enter (\<lambda>_. None) ?c)
      = (fst (spec_direct ?m ?us ?c), snd (spec_direct ?m ?us ?c))"
    unfolding enter by simp
  ultimately have commutes: "fst (spec_direct ?m ?us ?c) = enter (tracker_map t) ?c
    \<and> (\<forall>i. of_buffer i (snd (spec_direct ?m ?us ?c)) =
         (if (None :: (buffer_uses \<times> buffer_uses) option) = None then (case tracker_map t i of None \<Rightarrow> []
            | Some (s, e) \<Rightarrow> barriers_of (transition ?m i (?c i) s))
          else []) @ of_buffer i (snd (spec_record ?m ?us (\<lambda>_. None))))"
    using spec_commutes [OF small] by blast
  have spec: "fst (spec_direct ?m ?us ?c) = enter (tracker_map t) ?c"
    "of_buffer i (snd (spec_direct ?m ?us ?c))
      = of_buffer i entry @ of_buffer i (snd (spec_record ?m ?us (\<lambda>_. None)))" for i
    unfolding d1(4) using commutes by (blast, simp)
  have "dt_current d1 = dt_current d2"
    using d1(2,3) d2(2,3) spec(1) by (intro nth_equalityI) (auto simp: device_wf_def)
  with t(1) d1(1) d2(1) spec(2) show ?thesis by blast
qed

lemma record_submit_equals_direct_witness:
  "\<exists>t recorded entry d1 direct d2.
      fold_opt (record_event (\<lambda>_. False)) [UseSingle 1 bu_copy_dst, UseSingle 1 bu_copy_src]
        (new_buffer_tracker 0, []) = Some (t, recorded)
    \<and> set_from_tracker_and_drain_transitions (\<lambda>_. False) t
        (new_device_tracker 0\<lparr>dt_current := [0, 0], dt_metadata := metadata_set_size 2 new_metadata\<rparr>) = Some (entry, d1)
    \<and> fold_opt (direct_use (\<lambda>_. False)) [(1, bu_copy_dst), (1, bu_copy_src)]
        (new_device_tracker 0\<lparr>dt_current := [0, 0], dt_metadata := metadata_set_size 2 new_metadata\<rparr>, []) = Some (d2, direct)
    \<and> dt_current d1 = dt_current d2
    \<and> (\<forall>i. of_buffer i direct = of_buffer i entry @ of_buffer i recorded)"
proof -
  let ?d = "new_device_tracker 0\<lparr>dt_current := [0, 0], dt_metadata := metadata_set_size 2 new_metadata\<rparr>"
  have "device_wf 2 ?d"
    using metadata_wf_set_size [OF metadata_wf_new, of 2] by (simp add: device_wf_def)
  moreover have "valid_use bu_copy_src" "valid_use bu_copy_dst"
    by (simp_all add: invalid_resource_state_def any_exclusive_def intersects_def bu_copy_src_def
      bu_copy_dst_def bu_exclusive_def bu_map_write_def bu_storage_read_write_def bu_as_scratch_def
      is_power_of_two_def bit_simps upt_rec)
  ultimately show ?thesis
    using record_submit_equals_direct [of 2 ?d "[UseSingle 1 bu_copy_dst, UseSingle 1 bu_copy_src]" "\<lambda>_. False"]
    by (simp add: good_event_def new_device_tracker_def del: record_event.simps fold_opt.simps)
qed

end
