(* ===== verification/RangedStates.thy ===== *)
theory RangedStates
  imports Wgpu_Prelude
begin

text \<open>
  The mapping from index ranges to values that the texture trackers keep per mip level
  (\<open>RangedStates\<close> of \<open>wgpu-core/src/track/range.rs\<close>): \<open>coalesce\<close>, \<open>iter_filter\<close> and
  \<open>isolate\<close>. The abstract value is the partial map \<open>lookup\<close> from indices to values; the
  invariant \<open>sane\<close> is the code's own \<open>check_sanity\<close>.
\<close>

section \<open>Data and operations\<close>

record ('i, 'v) ranged_states =
  ranges :: "('i range_t \<times> 'v) list"

definition from_range :: "'i range_t \<Rightarrow> 'v \<Rightarrow> ('i, 'v) ranged_states" where
  "from_range rg value = \<lparr>ranges = [(rg, value)]\<rparr>"

text \<open>
  \<open>check_sanity\<close>, as the conjunction of its assertions. Its slice \<open>self.ranges[1..]\<close> panics
  on an empty vector.
\<close>

definition check_sanity :: "('i::linorder, 'v) ranged_states \<Rightarrow> bool" where
  "check_sanity s \<longleftrightarrow>
     (\<forall>a\<in>set (ranges s). rstart (fst a) < rend (fst a)) \<and> ranges s \<noteq> [] \<and>
     (\<forall>(a, b)\<in>set (zip (ranges s) (drop 1 (ranges s))). rend (fst a) \<le> rstart (fst b))"

text \<open>
  The loop of \<open>coalesce\<close>: \<open>cur\<close> absorbs the following ranges that touch it and have its
  value, and leaves each absorbed one empty in its place. The result is the updated tail of
  the vector, from \<open>cur\<close> on, and the number of absorbed ranges.
\<close>

fun coalesce_loop :: "('i range_t \<times> 'v) \<Rightarrow> ('i range_t \<times> 'v) list \<Rightarrow> nat \<times> ('i range_t \<times> 'v) list" where
  "coalesce_loop cur [] = (0, [cur])"
| "coalesce_loop cur (next # rest) =
     (if rend (fst cur) = rstart (fst next) \<and> snd cur = snd next then
        let (n, xs) = coalesce_loop (Range (rstart (fst cur)) (rend (fst next)), snd cur) rest in
        (n + 1, hd xs # (Range (rstart (fst next)) (rstart (fst next)), snd next) # tl xs)
      else
        let (n, xs) = coalesce_loop next rest in (n, cur # xs))"

definition coalesce :: "('i::linorder, 'v) ranged_states \<Rightarrow> ('i, 'v) ranged_states" where
  "coalesce s =
     (case ranges s of
        [] \<Rightarrow> s
      | elem # iter \<Rightarrow>
          let (num_removed, xs) = coalesce_loop elem iter in
          s\<lparr>ranges := (if num_removed \<noteq> 0 then filter (\<lambda>pair. rstart (fst pair) \<noteq> rend (fst pair)) xs
                       else xs)\<rparr>)"

definition iter_filter :: "('i::linorder, 'v) ranged_states \<Rightarrow> 'i range_t \<Rightarrow> ('i range_t \<times> 'v) list" where
  "iter_filter s rg =
     map (\<lambda>(inner, v). (Range (max (rstart inner) (rstart rg)) (min (rend inner) (rend rg)), v))
       (filter (\<lambda>(inner, v). rstart rg < rend inner \<and> rstart inner < rend rg) (ranges s))"

text \<open>
  The loop of \<open>isolate\<close> over \<open>pos\<close> and \<open>range_pos\<close>. It returns the vector and the final
  \<open>pos\<close>; reading past the vector is a panic.
\<close>

function isolate_loop ::
  "('i::linorder range_t \<times> 'v) list \<Rightarrow> 'i \<Rightarrow> 'v \<Rightarrow> nat \<Rightarrow> 'i \<Rightarrow> (('i range_t \<times> 'v) list \<times> nat) option" where
  "isolate_loop rs index_end dflt pos range_pos =
     (if length rs \<le> pos then None
      else
        let (rg, value) = rs ! pos in
        if index_end \<le> rstart rg then
          Some (vec_insert pos (Range range_pos index_end, dflt) rs, pos + 1)
        else
          let (rs1, pos1, range_pos1) =
                (if range_pos < rstart rg
                 then (vec_insert pos (Range range_pos (rstart rg), dflt) rs, pos + 1, rstart rg)
                 else (rs, pos, range_pos)) in
          if index_end \<le> rend rg then
            let rs2 = (if rend rg \<noteq> index_end
                       then vec_insert pos1 (Range range_pos1 index_end, value)
                              (rs1[pos1 := (Range index_end (rend (fst (rs1 ! pos1))), snd (rs1 ! pos1))])
                       else rs1)
            in Some (rs2, pos1 + 1)
          else if pos1 + 1 = length rs1 then
            Some (rs1 @ [(Range (rend rg) index_end, dflt)], pos1 + 1 + 1)
          else isolate_loop rs1 index_end dflt (pos1 + 1) (rend rg))"
  by pat_completeness auto
termination
  by (relation "measure (\<lambda>(rs, ie, d, pos, rp). length rs - pos)")
     (auto simp: vec_insert_def split: if_splits)

declare isolate_loop.simps [simp del]

text \<open>The vector and the bounds of the slice that \<open>isolate\<close> hands out.\<close>

definition isolate ::
  "('i::linorder, 'v) ranged_states \<Rightarrow> 'i range_t \<Rightarrow> 'v \<Rightarrow> (('i, 'v) ranged_states \<times> nat \<times> nat) option" where
  "isolate s index dflt =
     (let rs = ranges s in
      case position (\<lambda>pair. rstart index < rend (fst pair)) rs of
        None \<Rightarrow> Some (s\<lparr>ranges := rs @ [(index, dflt)]\<rparr>, length rs, length rs + 1)
      | Some pos \<Rightarrow>
          let (rg, value) = rs ! pos;
              (rs1, start_pos) =
                (if rstart rg < rstart index
                 then (vec_insert pos (Range (rstart rg) (rstart index), value)
                         (rs[pos := (Range (rstart index) (rend rg), value)]), pos + 1)
                 else (rs, pos))
          in map_option (\<lambda>(rs2, pos). (s\<lparr>ranges := rs2\<rparr>, start_pos, pos))
               (isolate_loop rs1 (rend index) dflt start_pos (rstart index)))"

section \<open>Abstraction and invariant\<close>

fun lookup_ranges :: "('i::linorder range_t \<times> 'v) list \<Rightarrow> 'i \<Rightarrow> 'v option" where
  "lookup_ranges [] i = None"
| "lookup_ranges ((r, v) # rs) i = (if i \<in> iv r then Some v else lookup_ranges rs i)"

definition lookup :: "('i::linorder, 'v) ranged_states \<Rightarrow> 'i \<Rightarrow> 'v option" where
  "lookup s = lookup_ranges (ranges s)"

definition sane_ranges :: "('i::linorder range_t \<times> 'v) list \<Rightarrow> bool" where
  "sane_ranges rs \<longleftrightarrow> (\<forall>a\<in>set rs. rstart (fst a) < rend (fst a)) \<and>
     sorted_wrt (\<lambda>a b. rend (fst a) \<le> rstart (fst b)) rs"

definition sane :: "('i::linorder, 'v) ranged_states \<Rightarrow> bool" where
  "sane s = sane_ranges (ranges s)"

lemma sane_ranges_simps [simp]:
  "sane_ranges []"
  "sane_ranges (a # rs) \<longleftrightarrow>
     rstart (fst a) < rend (fst a) \<and> (\<forall>b\<in>set rs. rend (fst a) \<le> rstart (fst b)) \<and> sane_ranges rs"
  "sane_ranges (rs @ qs) \<longleftrightarrow>
     sane_ranges rs \<and> sane_ranges qs \<and> (\<forall>a\<in>set rs. \<forall>b\<in>set qs. rend (fst a) \<le> rstart (fst b))"
  by (auto simp: sane_ranges_def sorted_wrt_append)

lemma lookup_append [simp]:
  "lookup_ranges (rs @ qs) i = (case lookup_ranges rs i of Some v \<Rightarrow> Some v | None \<Rightarrow> lookup_ranges qs i)"
  by (induction rs) auto

lemma lookup_None_below: "\<forall>a\<in>set rs. i < rstart (fst a) \<Longrightarrow> lookup_ranges rs i = None"
  by (induction rs) auto

lemma lookup_None_above: "\<forall>a\<in>set rs. rend (fst a) \<le> i \<Longrightarrow> lookup_ranges rs i = None"
  by (induction rs) auto

lemma sane_sanity:
  assumes "ranges s \<noteq> []" shows "check_sanity s \<longleftrightarrow> sane s"
proof -
  have "(\<forall>(a, b)\<in>set (zip rs (drop 1 rs)). rend (fst a) \<le> rstart (fst b)) \<longleftrightarrow>
      sorted_wrt (\<lambda>a b. rend (fst a) \<le> rstart (fst b)) rs"
    if "\<forall>a\<in>set rs. rstart (fst a) < rend (fst a)" for rs :: "('a range_t \<times> 'b) list"
    using that
  proof (induction rs)
    case (Cons a rs)
    show ?case
    proof (cases rs)
      case (Cons b ts)
      have "rend (fst a) \<le> rstart (fst b) \<Longrightarrow>
          \<forall>c\<in>set ts. rend (fst b) \<le> rstart (fst c) \<Longrightarrow> \<forall>c\<in>set ts. rend (fst a) \<le> rstart (fst c)"
        using Cons.prems by (auto simp: Cons)
      with Cons.IH Cons.prems show ?thesis by (auto simp: Cons)
    qed simp
  qed simp
  with assms show ?thesis by (auto simp: check_sanity_def sane_def sane_ranges_def)
qed

section \<open>Coalescing\<close>

fun coalesced :: "('i range_t \<times> 'v) list \<Rightarrow> bool" where
  "coalesced (a # b # rs) \<longleftrightarrow> \<not> (rend (fst a) = rstart (fst b) \<and> snd a = snd b) \<and> coalesced (b # rs)"
| "coalesced rs = True"

abbreviation nonempty_ranges :: "('i range_t \<times> 'v) list \<Rightarrow> ('i range_t \<times> 'v) list" where
  "nonempty_ranges \<equiv> filter (\<lambda>pair. rstart (fst pair) \<noteq> rend (fst pair))"

lemma sane_nonempty: "sane_ranges rs \<Longrightarrow> nonempty_ranges rs = rs"
  by (auto simp: sane_ranges_def filter_id_conv)

lemma lookup_merge:
  assumes "rend r = rstart r'" "rstart r \<le> rend r" "rstart r' \<le> rend r'"
  shows "lookup_ranges ((Range (rstart r) (rend r'), v) # rs) = lookup_ranges ((r, v) # (r', v) # rs)"
  using assms by (auto simp: fun_eq_iff)

lemma coalesce_loop_spec:
  assumes "sane_ranges (cur # rest)" "coalesce_loop cur rest = (n, xs)"
  shows "\<exists>h ts. nonempty_ranges xs = h # ts \<and> hd xs = h \<and> xs \<noteq> []
      \<and> rstart (fst h) = rstart (fst cur) \<and> snd h = snd cur
      \<and> sane_ranges (h # ts) \<and> lookup_ranges (h # ts) = lookup_ranges (cur # rest)
      \<and> coalesced (h # ts) \<and> (n = 0 \<longrightarrow> xs = cur # rest)"
  using assms
proof (induction cur rest arbitrary: n xs rule: coalesce_loop.induct)
  case (1 cur)
  then show ?case by (cases cur) auto
next
  case (2 cur nxt rest)
  obtain r v r' v' where cur: "cur = (r, v)" and nxt: "nxt = (r', v')" by (cases cur, cases nxt)
  have ord: "rstart r < rend r" "rstart r' < rend r'" "rend r \<le> rstart r'"
    "\<forall>b\<in>set rest. rend r' \<le> rstart (fst b)" "sane_ranges rest"
    using "2.prems"(1) by (simp_all add: cur nxt)
  show ?case
  proof (cases "rend r = rstart r' \<and> v = v'")
    case True
    obtain m ys where rec: "coalesce_loop (Range (rstart r) (rend r'), v) rest = (m, ys)" by force
    have sane: "sane_ranges ((Range (rstart r) (rend r'), v) # rest)" using ord by auto
    from "2.IH"(1) [unfolded cur nxt fst_conv snd_conv range_t.sel, OF True sane rec] obtain h ts where ih: "nonempty_ranges ys = h # ts" "hd ys = h" "ys \<noteq> []"
      "rstart (fst h) = rstart r" "snd h = v" "sane_ranges (h # ts)"
      "lookup_ranges (h # ts) = lookup_ranges ((Range (rstart r) (rend r'), v) # rest)" "coalesced (h # ts)"
      by blast
    have xs: "xs = hd ys # (Range (rstart r') (rstart r'), v') # tl ys" "n = m + 1"
      using "2.prems"(2) rec True by (simp_all add: cur nxt)
    have "nonempty_ranges (hd ys # tl ys) = h # ts" using ih(1,3) by simp
    then have "nonempty_ranges xs = h # ts" by (auto simp: xs split: if_splits)
    moreover have "lookup_ranges (h # ts) = lookup_ranges (cur # nxt # rest)"
      using ih(7) lookup_merge [of r r' v rest] ord True by (simp add: cur nxt)
    ultimately show ?thesis using ih xs cur by auto
  next
    case False
    obtain m ys where rec: "coalesce_loop nxt rest = (m, ys)" by force
    have sane: "sane_ranges ((r', v') # rest)" using ord by auto
    from "2.IH"(2) [unfolded cur nxt fst_conv snd_conv range_t.sel, OF False sane rec [unfolded nxt]] obtain h ts where ih: "nonempty_ranges ys = h # ts"
      "rstart (fst h) = rstart r'" "snd h = v'" "sane_ranges (h # ts)"
      "lookup_ranges (h # ts) = lookup_ranges (nxt # rest)" "coalesced (h # ts)" "m = 0 \<longrightarrow> ys = nxt # rest"
      unfolding nxt by blast
    have xs: "xs = cur # ys" "n = m"
      using "2.prems"(2) rec False by (auto simp: cur nxt)
    have "nonempty_ranges xs = cur # h # ts" using ih(1) ord by (simp add: xs cur)
    moreover have "\<forall>b\<in>set (h # ts). rend r \<le> rstart (fst b)"
    proof -
      have "rend r \<le> rstart (fst h)" using ord ih(2) by simp
      moreover have "rstart (fst h) < rend (fst h)" "\<forall>b\<in>set ts. rend (fst h) \<le> rstart (fst b)"
        using ih(4) by simp_all
      ultimately show ?thesis by auto
    qed
    moreover have "lookup_ranges (cur # h # ts) = lookup_ranges (cur # nxt # rest)"
      using ih(5) by (auto simp: fun_eq_iff cur)
    ultimately show ?thesis
      using ih False ord by (intro exI [of _ cur] exI [of _ "h # ts"]) (auto simp: xs cur)
  qed
qed

lemma coalesce_correct:
  assumes "sane s"
  shows "sane (coalesce s)" "lookup (coalesce s) = lookup s" "coalesced (ranges (coalesce s))"
proof -
  have "sane (coalesce s) \<and> lookup (coalesce s) = lookup s \<and> coalesced (ranges (coalesce s))"
  proof (cases "ranges s")
    case Nil
    then show ?thesis using assms by (simp add: coalesce_def)
  next
    case (Cons elem iter)
    obtain n xs where loop: "coalesce_loop elem iter = (n, xs)" by force
    have sane: "sane_ranges (elem # iter)" using assms Cons by (simp add: sane_def)
    from coalesce_loop_spec [OF this loop] obtain h ts where
      sp: "nonempty_ranges xs = h # ts" "sane_ranges (h # ts)"
        "lookup_ranges (h # ts) = lookup_ranges (elem # iter)" "coalesced (h # ts)" "n = 0 \<longrightarrow> xs = elem # iter"
      by blast
    have "ranges (coalesce s) = h # ts"
      using sp(1,5) sane_nonempty [OF sane] by (auto simp: coalesce_def Cons loop)
    with sp show ?thesis by (simp add: sane_def lookup_def Cons)
  qed
  then show "sane (coalesce s)" "lookup (coalesce s) = lookup s" "coalesced (ranges (coalesce s))" by blast+
qed

section \<open>Isolating\<close>

text \<open>\<open>tiles a b xs\<close>: the ranges of \<open>xs\<close> are non-empty and follow each other from \<open>a\<close> to \<open>b\<close>.\<close>

fun tiles :: "'i::linorder \<Rightarrow> 'i \<Rightarrow> ('i range_t \<times> 'v) list \<Rightarrow> bool" where
  "tiles a b [] \<longleftrightarrow> a = b"
| "tiles a b ((r, v) # xs) \<longleftrightarrow> rstart r = a \<and> rstart r < rend r \<and> tiles (rend r) b xs"

text \<open>What the loop does to the ranges from \<open>pos\<close> on: the isolated slice and what follows it.\<close>

fun isolate_rest :: "'i::linorder \<Rightarrow> 'v \<Rightarrow> 'i \<Rightarrow> ('i range_t \<times> 'v) list \<Rightarrow>
    ('i range_t \<times> 'v) list \<times> ('i range_t \<times> 'v) list" where
  "isolate_rest ie d rp [] = ([(Range rp ie, d)], [])"
| "isolate_rest ie d rp ((r, v) # rest) =
     (if ie \<le> rstart r then ([(Range rp ie, d)], (r, v) # rest)
      else
        let gap = (if rp < rstart r then [(Range rp (rstart r), d)] else []);
            rp1 = (if rp < rstart r then rstart r else rp) in
        if ie \<le> rend r then
          if rend r \<noteq> ie then (gap @ [(Range rp1 ie, v)], (Range ie (rend r), v) # rest)
          else (gap @ [(r, v)], rest)
        else
          let (sl, rem) = isolate_rest ie d (rend r) rest in (gap @ (r, v) # sl, rem))"

lemma isolate_loop_eq:
  assumes "rest \<noteq> []"
  shows "isolate_loop (pre @ rest) ie d (length pre) rp =
    (let (sl, rem) = isolate_rest ie d rp rest in Some (pre @ sl @ rem, length pre + length sl))"
  using assms
proof (induction rest arbitrary: pre rp)
  case Nil
  then show ?case by simp
next
  case (Cons a rest)
  obtain r v where a: "a = (r, v)" by (cases a)
  define gap where "gap = (if rp < rstart r then [(Range rp (rstart r), d)] else [])"
  have upd: "(ys @ x # zs)[length ys := y] = ys @ y # zs" for ys zs and x y :: "'a range_t \<times> 'b"
    by simp
  note ins = vec_insert_append
  show ?case
  proof (cases "ie \<le> rstart r \<or> ie \<le> rend r")
    case True
    then show ?thesis
      using upd [of "pre @ [(Range rp (rstart r), d)]" a rest] ins [of "pre @ [(Range rp (rstart r), d)]"]
      by (subst isolate_loop.simps) (auto simp: a Let_def nth_append)
  next
    case False
    show ?thesis
    proof (cases rest)
      case Nil
      with False show ?thesis
        by (subst isolate_loop.simps) (auto simp: a Let_def)
    next
      case (Cons b bs)
      then have ne: "rest \<noteq> []" by simp
      have "isolate_loop ((pre @ gap @ [a]) @ rest) ie d (length (pre @ gap @ [a])) (rend r) =
        (let (sl, rem) = isolate_rest ie d (rend r) rest in
           Some ((pre @ gap @ [a]) @ sl @ rem, length (pre @ gap @ [a]) + length sl))"
        by (rule Cons.IH [OF ne])
      with False ne show ?thesis
        by (subst isolate_loop.simps) (auto simp: a gap_def Let_def split: prod.splits)
    qed
  qed
qed

lemma isolate_rest_spec:
  assumes "sane_ranges rest" "\<forall>a\<in>set rest. rp \<le> rstart (fst a)" "rp < ie"
    and "isolate_rest ie d rp rest = (sl, rem)"
  shows "tiles rp ie sl \<and> sane_ranges rem \<and> (\<forall>a\<in>set rem. ie \<le> rstart (fst a)) \<and>
    (\<forall>i. lookup_ranges (sl @ rem) i =
      (if rp \<le> i \<and> i < ie then Some (case lookup_ranges rest i of Some v \<Rightarrow> v | None \<Rightarrow> d)
       else lookup_ranges rest i))"
  using assms
proof (induction rest arbitrary: rp sl rem)
  case Nil
  then show ?case by auto
next
  case (Cons a rest)
  obtain r v where a: "a = (r, v)" by (cases a)
  have r: "rstart r < rend r" "rp \<le> rstart r" and rest: "sane_ranges rest" "\<forall>b\<in>set rest. rend r \<le> rstart (fst b)"
    using Cons.prems by (simp_all add: a)
  have above: "lookup_ranges rest i = None" if "i < rend r" for i
    using rest(2) that by (intro lookup_None_below) (auto intro: less_le_trans)
  consider (after) "ie \<le> rstart r" | (last) "rstart r < ie" "ie \<le> rend r" | (inner) "rend r < ie"
    by force
  then show ?case
  proof cases
    case after
    moreover have "\<forall>b\<in>set rest. ie \<le> rstart (fst b)"
      using after r rest(2) by (auto intro: order_trans less_imp_le)
    moreover have "sl = [(Range rp ie, d)]" "rem = a # rest"
      using Cons.prems(4) after by (simp_all add: a)
    ultimately show ?thesis
      using Cons.prems(1,3) above by (auto simp: a dest: leD)
  next
    case last
    have far: "\<forall>b\<in>set rest. ie \<le> rstart (fst b)" using last rest(2) by (auto intro: order_trans)
    have res: "sl = (if rp < rstart r then [(Range rp (rstart r), d)] else []) @ [(Range (rstart r) ie, v)]"
      "rem = (if rend r \<noteq> ie then [(Range ie (rend r), v)] else []) @ rest"
      using Cons.prems(4) last r by (cases r; auto simp: a Let_def split: if_splits)+
    have lk: "lookup_ranges (sl @ rem) i =
        (if rp \<le> i \<and> i < rstart r then Some d else if i \<in> iv r then Some v else lookup_ranges rest i)" for i
    proof -
      have "i < ie \<Longrightarrow> i < rend r" "i < rstart r \<Longrightarrow> i < ie" "rp = rstart r \<or> rp < rstart r"
        using last r(2) by (order, order, auto)
      then show ?thesis
        by (cases "rend r = ie"; cases "i < rstart r"; cases "i < ie")
           (auto simp: res simp flip: not_less)
    qed
    have "lookup_ranges (sl @ rem) i =
        (if rp \<le> i \<and> i < ie then Some (case lookup_ranges (a # rest) i of Some v \<Rightarrow> v | None \<Rightarrow> d)
         else lookup_ranges (a # rest) i)" for i
    proof -
      have "i < rp \<Longrightarrow> i < rstart r" "i < rstart r \<Longrightarrow> i < ie" "i < ie \<Longrightarrow> i < rend r"
        using r last by order+
      with lk [of i] above [of i] show ?thesis
        by (cases "i < rp"; cases "i < rstart r"; cases "i < ie"; cases "i < rend r")
           (simp_all add: a flip: not_less del: lookup_append)
    qed
    moreover have "tiles rp ie sl" using last r by (auto simp: res)
    moreover have "sane_ranges rem" "\<forall>b\<in>set rem. ie \<le> rstart (fst b)" using last rest far by (auto simp: res)
    ultimately show ?thesis by blast
  next
    case inner
    obtain sl' rem' where rec: "isolate_rest ie d (rend r) rest = (sl', rem')" by force
    from Cons.IH [OF rest(1,2) inner this] have ih: "tiles (rend r) ie sl'" "sane_ranges rem'"
      "\<forall>a\<in>set rem'. ie \<le> rstart (fst a)"
      "\<And>i. lookup_ranges (sl' @ rem') i = (if rend r \<le> i \<and> i < ie
         then Some (case lookup_ranges rest i of Some v \<Rightarrow> v | None \<Rightarrow> d) else lookup_ranges rest i)"
      by blast+
    have res: "sl = (if rp < rstart r then [(Range rp (rstart r), d)] else []) @ (r, v) # sl'" "rem = rem'"
      using Cons.prems(4) inner rec r by (auto simp: a Let_def split: if_splits)
    have lk: "lookup_ranges (sl @ rem) i =
        (if i \<in> iv r then Some v else if rp \<le> i \<and> i < rstart r then Some d else lookup_ranges (sl' @ rem') i)" for i
      using r by (cases "rp < rstart r"; cases "i < rstart r"; cases "i < rend r")
        (auto simp: res simp flip: not_less)
    have "lookup_ranges (sl @ rem) i =
        (if rp \<le> i \<and> i < ie then Some (case lookup_ranges (a # rest) i of Some v \<Rightarrow> v | None \<Rightarrow> d)
         else lookup_ranges (a # rest) i)" for i
    proof -
      have "i < rp \<Longrightarrow> i < rstart r" "i < rstart r \<Longrightarrow> i < rend r" "i < rend r \<Longrightarrow> i < ie"
        using r inner by order+
      with lk [of i] ih(4) [of i] above [of i] show ?thesis
        by (cases "i < rp"; cases "i < rstart r"; cases "i < rend r"; cases "i < ie")
           (simp_all add: a flip: not_less del: lookup_append)
    qed
    moreover have "tiles rp ie sl" using ih(1) r by (auto simp: res)
    ultimately show ?thesis using ih(2,3) res by blast
  qed
qed

lemma tiles_sane:
  "tiles a b xs \<Longrightarrow> sane_ranges xs \<and> a \<le> b \<and> (\<forall>x\<in>set xs. a \<le> rstart (fst x) \<and> rend (fst x) \<le> b)"
  by (induction a b xs rule: tiles.induct) (auto intro: less_imp_le order_trans)

lemma tiles_lookup: "tiles a b xs \<Longrightarrow> a \<le> i \<Longrightarrow> i < b \<Longrightarrow> lookup_ranges xs i \<noteq> None"
  by (induction a b xs rule: tiles.induct) (auto simp: not_less)

text \<open>The whole of \<open>isolate\<close>: it always returns, and the vector splits at the slice.\<close>

lemma isolate_split:
  assumes sane: "sane s" and ne: "rstart index < rend index"
  obtains pre sl rem where
    "isolate s index d = Some (s\<lparr>ranges := pre @ sl @ rem\<rparr>, length pre, length pre + length sl)"
    "sane_ranges pre" "\<forall>a\<in>set pre. rend (fst a) \<le> rstart index"
    "tiles (rstart index) (rend index) sl"
    "sane_ranges rem" "\<forall>a\<in>set rem. rend index \<le> rstart (fst a)"
    "\<forall>i. lookup_ranges (pre @ sl @ rem) i =
      (if i \<in> iv index then Some (case lookup s i of Some v \<Rightarrow> v | None \<Rightarrow> d) else lookup s i)"
proof (cases "position (\<lambda>pair. rstart index < rend (fst pair)) (ranges s)")
  case None
  then have below: "\<forall>a\<in>set (ranges s). rend (fst a) \<le> rstart index"
    by (auto simp: position_None not_less)
  have none: "lookup_ranges (ranges s) i = None" if "rstart index \<le> i" for i
    using below that by (intro lookup_None_above) (auto intro: order_trans)
  show ?thesis
  proof (rule that [of "ranges s" "[(index, d)]" "[]"])
    show "\<forall>i. lookup_ranges (ranges s @ [(index, d)] @ []) i =
      (if i \<in> iv index then Some (case lookup s i of Some v \<Rightarrow> v | None \<Rightarrow> d) else lookup s i)"
      using none by (auto simp: lookup_def split: option.splits)
  qed (use None sane below ne in \<open>auto simp: isolate_def sane_def Let_def\<close>)
next
  case (Some pos)
  then obtain pre r v post where rs: "ranges s = pre @ (r, v) # post" and len: "length pre = pos"
    and far: "rstart index < rend r" and pre: "\<forall>a\<in>set pre. rend (fst a) \<le> rstart index"
    using position_Some_split [OF Some] by (fastforce simp: not_less)
  have ord: "sane_ranges pre" "rstart r < rend r" "sane_ranges post" "\<forall>b\<in>set post. rend r \<le> rstart (fst b)"
    "\<forall>a\<in>set pre. rend (fst a) \<le> rstart r"
    using sane by (simp_all add: sane_def rs)
  define left where "left = (if rstart r < rstart index then [(Range (rstart r) (rstart index), v)] else [])"
  define hd' where "hd' = (if rstart r < rstart index then (Range (rstart index) (rend r), v) else (r, v))"
  obtain sl rem where rec: "isolate_rest (rend index) d (rstart index) (hd' # post) = (sl, rem)" by force
  have rest: "sane_ranges (hd' # post)" "\<forall>a\<in>set (hd' # post). rstart index \<le> rstart (fst a)"
    using ord far by (auto simp: hd'_def intro: order_trans less_imp_le)
  note spec = isolate_rest_spec [OF rest ne rec]
  have "isolate_loop ((pre @ left) @ hd' # post) (rend index) d (length (pre @ left)) (rstart index) =
      Some ((pre @ left) @ sl @ rem, length (pre @ left) + length sl)"
    using isolate_loop_eq [of "hd' # post" "pre @ left"] by (simp add: rec)
  then have res: "isolate s index d =
      Some (s\<lparr>ranges := (pre @ left) @ sl @ rem\<rparr>, length (pre @ left), length (pre @ left) + length sl)"
    using Some len by (auto simp: isolate_def rs left_def hd'_def Let_def)
  have orig: "lookup s i = (case lookup_ranges (pre @ left) i of Some w \<Rightarrow> Some w | None \<Rightarrow> lookup_ranges (hd' # post) i)" for i
    using far by (auto simp: lookup_def rs left_def hd'_def not_less split: option.splits)
  have preleft: "sane_ranges (pre @ left)" "\<forall>a\<in>set (pre @ left). rend (fst a) \<le> rstart index"
    using ord pre by (auto simp: left_def)
  have none: "lookup_ranges (pre @ left) i = None" if "rstart index \<le> i" for i
    using preleft(2) that by (intro lookup_None_above) (blast intro: order_trans)
  show ?thesis
  proof (rule that [OF res preleft])
    show "\<forall>i. lookup_ranges ((pre @ left) @ sl @ rem) i =
      (if i \<in> iv index then Some (case lookup s i of Some v \<Rightarrow> v | None \<Rightarrow> d) else lookup s i)"
    proof
      fix i
      have "lookup_ranges ((pre @ left) @ sl @ rem) i =
          (case lookup_ranges (pre @ left) i of Some w \<Rightarrow> Some w | None \<Rightarrow> lookup_ranges (sl @ rem) i)"
        by (simp only: lookup_append)
      with spec orig [of i] none [of i] show "lookup_ranges ((pre @ left) @ sl @ rem) i =
        (if i \<in> iv index then Some (case lookup s i of Some v \<Rightarrow> v | None \<Rightarrow> d) else lookup s i)"
        by (cases "rstart index \<le> i") (simp_all only: mem_iv option.case simp_thms if_True if_False split: if_split)
    qed
  qed (use spec in blast)+
qed

lemma lookup_iter_filter:
  fixes s :: "('i::linorder, 'v) ranged_states"
  assumes "rstart rg < rend rg"
  shows "lookup_ranges (iter_filter s rg) i = (if i \<in> iv rg then lookup s i else None)"
proof -
  have "lookup_ranges (map (\<lambda>(inner, v). (Range (max (rstart inner) (rstart rg)) (min (rend inner) (rend rg)), v))
       (filter (\<lambda>(inner, v). rstart rg < rend inner \<and> rstart inner < rend rg) rs)) i
      = (if i \<in> iv rg then lookup_ranges rs i else None)" for rs :: "('i range_t \<times> 'v) list"
    by (induction rs) (auto split: if_splits intro: less_le_trans le_less_trans)
  then show ?thesis by (simp add: iter_filter_def lookup_def)
qed

section \<open>Properties\<close>

text \<open>C27: On a sane state and a non-empty index range, \<open>isolate\<close> returns without a panic, keeps
  the state sane, hands out a slice of ranges that follow each other exactly over the index
  range, fills the gaps inside it with the default, and changes no value elsewhere.\<close>

theorem isolate_exact:
  assumes "sane s" and "rstart index < rend index"
  shows "\<exists>s' a b. isolate s index d = Some (s', a, b) \<and> sane s'
    \<and> tiles (rstart index) (rend index) (drop a (take b (ranges s')))
    \<and> (\<forall>i. lookup s' i =
          (if i \<in> iv index then Some (case lookup s i of Some v \<Rightarrow> v | None \<Rightarrow> d) else lookup s i))"
proof -
  obtain pre sl rem where iso:
    "isolate s index d = Some (s\<lparr>ranges := pre @ sl @ rem\<rparr>, length pre, length pre + length sl)"
    and pre: "sane_ranges pre" "\<forall>a\<in>set pre. rend (fst a) \<le> rstart index"
    and sl: "tiles (rstart index) (rend index) sl"
    and rem: "sane_ranges rem" "\<forall>a\<in>set rem. rend index \<le> rstart (fst a)"
    and lk: "\<forall>i. lookup_ranges (pre @ sl @ rem) i =
      (if i \<in> iv index then Some (case lookup s i of Some v \<Rightarrow> v | None \<Rightarrow> d) else lookup s i)"
    using isolate_split [OF assms] by metis
  have "rend (fst x) \<le> rstart (fst y)" if "x \<in> set pre" "y \<in> set rem" for x y
    using that pre(2) rem(2) tiles_sane [OF sl] by (meson order_trans)
  moreover have "rend (fst x) \<le> rstart (fst y)" if "x \<in> set pre" "y \<in> set sl" for x y
    using that pre(2) tiles_sane [OF sl] by (meson order_trans)
  moreover have "rend (fst x) \<le> rstart (fst y)" if "x \<in> set sl" "y \<in> set rem" for x y
    using that rem(2) tiles_sane [OF sl] by (meson order_trans)
  ultimately have "sane (s\<lparr>ranges := pre @ sl @ rem\<rparr>)"
    using pre(1) rem(1) tiles_sane [OF sl] by (simp add: sane_def) blast
  then show ?thesis
    using iso sl lk by (intro exI [of _ "s\<lparr>ranges := pre @ sl @ rem\<rparr>"] exI [of _ "length pre"]
        exI [of _ "length pre + length sl"]) (simp add: lookup_def del: lookup_append)
qed

theorem isolate_exact_witness:
  "\<exists>s' a b. isolate \<lparr>ranges = [(Range (1::nat) 4, 9::nat), (Range 5 7, 1), (Range 8 9, 1)]\<rparr> (Range 0 6) 0 = Some (s', a, b)
    \<and> sane s' \<and> tiles 0 6 (drop a (take b (ranges s')))"
  using isolate_exact [of "\<lparr>ranges = [(Range (1::nat) 4, 9::nat), (Range 5 7, 1), (Range 8 9, 1)]\<rparr>" "Range 0 6" 0]
  by (simp add: sane_def) blast

text \<open>Coalescing a sane state changes no value, keeps the state sane, and leaves no two
  touching ranges with the same value.\<close>

theorem coalesce_exact:
  assumes "sane s"
  shows "lookup (coalesce s) = lookup s \<and> sane (coalesce s) \<and> coalesced (ranges (coalesce s))"
  using coalesce_correct [OF assms] by blast

theorem coalesce_exact_witness:
  "lookup (coalesce \<lparr>ranges = [(Range (1::nat) 4, 9::nat), (Range 4 5, 9), (Range 5 7, 1)]\<rparr>)
     = lookup \<lparr>ranges = [(Range (1::nat) 4, 9::nat), (Range 4 5, 9), (Range 5 7, 1)]\<rparr>"
  using coalesce_exact [of "\<lparr>ranges = [(Range (1::nat) 4, 9::nat), (Range 4 5, 9), (Range 5 7, 1)]\<rparr>"]
  by (simp add: sane_def)

end
