(* ===== verification/TextureStates.thy ===== *)
theory TextureStates
  imports Tracking RangedStates
begin

unbundle bit_operations_syntax

text \<open>
  The usage states of textures, \<open>wgpu-core/src/track/texture.rs\<close>: complex states, one ranged map
  of layers per mip level, the set of states a tracker keeps, state providers, and the primitives
  insert, merge, barrier and update over them. A texture is its tracker index and the range of
  all its subresources. \<open>None\<close> is a failed \<open>strict_assert\<close>, a panic, or an unchecked access out
  of bounds.
\<close>

section \<open>Texture usages\<close>

type_synonym texture_uses = u16

definition tx_uninitialized :: texture_uses where "tx_uninitialized = push_bit 0 1"
definition tx_present :: texture_uses where "tx_present = push_bit 1 1"
definition tx_copy_src :: texture_uses where "tx_copy_src = push_bit 2 1"
definition tx_copy_dst :: texture_uses where "tx_copy_dst = push_bit 3 1"
definition tx_resource :: texture_uses where "tx_resource = push_bit 4 1"
definition tx_color_target :: texture_uses where "tx_color_target = push_bit 5 1"
definition tx_depth_stencil_write :: texture_uses where "tx_depth_stencil_write = push_bit 7 1"
definition tx_storage_read_only :: texture_uses where "tx_storage_read_only = push_bit 8 1"
definition tx_storage_write_only :: texture_uses where "tx_storage_write_only = push_bit 9 1"
definition tx_storage_read_write :: texture_uses where "tx_storage_read_write = push_bit 10 1"
definition tx_storage_atomic :: texture_uses where "tx_storage_atomic = push_bit 11 1"
definition tx_complex :: texture_uses where "tx_complex = push_bit 13 1"
definition tx_unknown :: texture_uses where "tx_unknown = push_bit 14 1"

definition tx_exclusive :: texture_uses where
  "tx_exclusive = tx_copy_dst OR tx_color_target OR tx_depth_stencil_write OR tx_storage_write_only
     OR tx_storage_read_write OR tx_storage_atomic OR tx_present"

abbreviation invalid_texture_use :: "texture_uses \<Rightarrow> bool" where
  "invalid_texture_use st \<equiv> invalid_resource_state tx_exclusive st"

record texture_selector =
  sel_mips :: "u32 range_t"
  sel_layers :: "u32 range_t"

record texture_ref =
  tr_index :: nat
  tr_full_range :: texture_selector

text \<open>\<open>ExactSizeIterator::len\<close> of a range, and the values it runs through.\<close>

definition range_len :: "u32 range_t \<Rightarrow> nat" where
  "range_len r = unat (rend r) - unat (rstart r)"

definition range_indices :: "u32 range_t \<Rightarrow> nat list" where
  "range_indices r = [unat (rstart r)..<unat (rend r)]"

section \<open>Complex states\<close>

record complex_texture_state =
  cts_mips :: "(u32, texture_uses) ranged_states list"

definition MAX_MIP_LEVELS :: nat where "MAX_MIP_LEVELS = 16"

text \<open>Collecting more mip levels than the array vector holds is a panic.\<close>

definition complex_new :: "nat \<Rightarrow> nat \<Rightarrow> complex_texture_state option" where
  "complex_new mip_level_count array_layer_count =
     (if mip_level_count \<le> MAX_MIP_LEVELS then
        Some \<lparr>cts_mips = replicate mip_level_count
                (from_range (Range 0 (of_nat array_layer_count)) tx_unknown)\<rparr>
      else None)"

text \<open>
  A loop over the ranges that \<open>isolate\<close> hands out, whose body replaces the state of a range or
  returns an error: the ranges it leaves behind, and the error.
\<close>

fun replace_states ::
  "(u32 range_t \<Rightarrow> texture_uses \<Rightarrow> 'e + texture_uses) \<Rightarrow> (u32 range_t \<times> texture_uses) list
   \<Rightarrow> (u32 range_t \<times> texture_uses) list \<times> 'e option" where
  "replace_states f [] = ([], None)"
| "replace_states f ((r, v) # rs) =
     (case f r v of
        Inl e \<Rightarrow> ((r, v) # rs, Some e)
      | Inr v' \<Rightarrow> let (rs', e) = replace_states f rs in ((r, v') # rs', e))"

definition isolate_replace ::
  "(u32 range_t \<Rightarrow> texture_uses \<Rightarrow> 'e + texture_uses) \<Rightarrow> u32 range_t \<Rightarrow> (u32, texture_uses) ranged_states
   \<Rightarrow> ((u32, texture_uses) ranged_states \<times> 'e option) option" where
  "isolate_replace f layers mip = do {
     (mip', a, b) \<leftarrow> isolate mip layers tx_unknown;
     let (sl, e) = replace_states f (drop a (take b (ranges mip')));
     Some (mip'\<lparr>ranges := take a (ranges mip') @ sl @ drop b (ranges mip')\<rparr>, e) }"

definition assign_layers ::
  "texture_uses \<Rightarrow> u32 range_t \<Rightarrow> (u32, texture_uses) ranged_states
   \<Rightarrow> (u32, texture_uses) ranged_states option" where
  "assign_layers st layers mip =
     map_option fst (isolate_replace (\<lambda>_ _. Inr st :: unit + texture_uses) layers mip)"

text \<open>A loop over a slice of the mip levels, whose bounds are checked by the caller.\<close>

definition each_mip ::
  "((u32, texture_uses) ranged_states \<Rightarrow> (u32, texture_uses) ranged_states option)
   \<Rightarrow> u32 range_t \<Rightarrow> complex_texture_state \<Rightarrow> complex_texture_state option" where
  "each_mip f mips c =
     (if unat (rstart mips) \<le> unat (rend mips) \<and> unat (rend mips) \<le> length (cts_mips c) then
        fold_opt (\<lambda>k c. map_option (\<lambda>m. c\<lparr>cts_mips := (cts_mips c)[k := m]\<rparr>) (f (cts_mips c ! k)))
          (range_indices mips) c
      else None)"

definition from_selector_state_iter ::
  "texture_selector \<Rightarrow> (texture_selector \<times> texture_uses) list \<Rightarrow> complex_texture_state option" where
  "from_selector_state_iter full_range state_iter =
     (if rstart (sel_layers full_range) \<noteq> 0 \<or> rstart (sel_mips full_range) \<noteq> 0 then None
      else do {
        complex \<leftarrow> complex_new (range_len (sel_mips full_range)) (range_len (sel_layers full_range));
        fold_opt (\<lambda>(selector, desired_state) c.
          if rend (sel_layers selector) \<le> rend (sel_layers full_range)
             \<and> rend (sel_mips selector) \<le> rend (sel_mips full_range)
             \<and> \<not> invalid_texture_use desired_state
          then each_mip (assign_layers desired_state (sel_layers selector)) (sel_mips selector) c
          else None) state_iter complex })"

definition to_selector_state_iter ::
  "complex_texture_state \<Rightarrow> (texture_selector \<times> texture_uses) list" where
  "to_selector_state_iter c =
     concat (map (\<lambda>(mip, inner).
         map (\<lambda>(layers, st). (\<lparr>sel_mips = Range (of_nat mip) (of_nat mip + 1), sel_layers = layers\<rparr>, st))
           (ranges inner))
       (enumerate 0 (cts_mips c)))"

section \<open>Sets of states and providers\<close>

record texture_state_set =
  tss_simple :: "texture_uses list"
  tss_complex :: "nat \<Rightarrow> complex_texture_state option"

datatype ('s, 'm) single_or_many = Single 's | Many 'm

definition new_state_set :: texture_state_set where
  "new_state_set = \<lparr>tss_simple = [], tss_complex = (\<lambda>_. None)\<rparr>"

definition set_clear :: "texture_state_set \<Rightarrow> texture_state_set" where
  "set_clear s = \<lparr>tss_simple = [], tss_complex = (\<lambda>_. None)\<rparr>"

definition set_set_size :: "nat \<Rightarrow> texture_state_set \<Rightarrow> texture_state_set" where
  "set_set_size n s = s\<lparr>tss_simple := vec_resize n tx_uninitialized (tss_simple s)\<rparr>"

definition set_size_of :: "texture_state_set \<Rightarrow> nat" where
  "set_size_of s = length (tss_simple s)"

definition set_get ::
  "nat \<Rightarrow> texture_state_set \<Rightarrow> (texture_uses, complex_texture_state) single_or_many option" where
  "set_get index s = do {
     simple \<leftarrow> vec_get (tss_simple s) index;
     if simple = tx_complex then map_option Many (tss_complex s index) else Some (Single simple) }"

definition insert_simple :: "nat \<Rightarrow> texture_uses \<Rightarrow> texture_state_set \<Rightarrow> texture_state_set option" where
  "insert_simple index simple s =
     map_option (\<lambda>v. s\<lparr>tss_simple := v\<rparr>) (vec_set index simple (tss_simple s))"

definition insert_complex ::
  "nat \<Rightarrow> complex_texture_state \<Rightarrow> texture_state_set \<Rightarrow> texture_state_set option" where
  "insert_complex index c s =
     map_option (\<lambda>v. s\<lparr>tss_simple := v, tss_complex := (tss_complex s)(index \<mapsto> c)\<rparr>)
       (vec_set index tx_complex (tss_simple s))"

definition make_simple :: "nat \<Rightarrow> texture_uses \<Rightarrow> texture_state_set \<Rightarrow> texture_state_set option" where
  "make_simple index simple s = do {
     v \<leftarrow> vec_set index simple (tss_simple s);
     if tss_complex s index = None then None
     else Some (s\<lparr>tss_simple := v, tss_complex := (tss_complex s)(index := None)\<rparr>) }"

definition make_complex ::
  "nat \<Rightarrow> complex_texture_state \<Rightarrow> texture_state_set \<Rightarrow> texture_state_set option" where
  "make_complex index c s = insert_complex index c s"

text \<open>Writing through the reference that \<open>get_mut_unchecked\<close> returns.\<close>

definition put_complex :: "nat \<Rightarrow> complex_texture_state \<Rightarrow> texture_state_set \<Rightarrow> texture_state_set" where
  "put_complex index c s = s\<lparr>tss_complex := (tss_complex s)(index \<mapsto> c)\<rparr>"

datatype texture_state_provider =
  KnownSingle texture_uses
| Selector texture_selector texture_uses
| TextureSet texture_state_set

definition provider_from_option ::
  "texture_selector option \<Rightarrow> texture_uses \<Rightarrow> texture_state_provider" where
  "provider_from_option selector st =
     (case selector of Some s \<Rightarrow> Selector s st | None \<Rightarrow> KnownSingle st)"

definition get_texture_state ::
  "texture_state_provider \<Rightarrow> texture_selector option \<Rightarrow> nat
   \<Rightarrow> (texture_uses, (texture_selector \<times> texture_uses) list) single_or_many option" where
  "get_texture_state p texture_selector index =
     (case p of
        KnownSingle st \<Rightarrow> Some (Single st)
      | Selector selector st \<Rightarrow>
          (case texture_selector of
             None \<Rightarrow> None
           | Some full \<Rightarrow> Some (if full = selector then Single st else Many [(selector, st)]))
      | TextureSet s \<Rightarrow>
          (case set_get index s of
             None \<Rightarrow> None
           | Some (Single st) \<Rightarrow> Some (Single st)
           | Some (Many c) \<Rightarrow> Some (Many (to_selector_state_iter c))))"

section \<open>The primitives\<close>

text \<open>
  \<open>insert\<close>: the start state set is optional; the end set takes the end state, or the start state
  when there is no provider for it.
\<close>

definition insert_one ::
  "nat \<Rightarrow> texture_selector option \<Rightarrow> (texture_uses, (texture_selector \<times> texture_uses) list) single_or_many
   \<Rightarrow> texture_state_set \<Rightarrow> texture_state_set option" where
  "insert_one index texture_selector st s =
     (case st of
        Single st \<Rightarrow> if invalid_texture_use st then None else insert_simple index st s
      | Many state_iter \<Rightarrow> do {
          full_range \<leftarrow> texture_selector;
          complex \<leftarrow> from_selector_state_iter full_range state_iter;
          insert_complex index complex s })"

definition insert_texture ::
  "texture_selector option \<Rightarrow> texture_state_set option \<Rightarrow> texture_state_set
   \<Rightarrow> texture_ref resource_metadata \<Rightarrow> nat \<Rightarrow> texture_state_provider \<Rightarrow> texture_state_provider option
   \<Rightarrow> texture_ref metadata_provider
   \<Rightarrow> (texture_state_set option \<times> texture_state_set \<times> texture_ref resource_metadata) option" where
  "insert_texture texture_selector start_set end_set md index start_provider end_provider mp = do {
     start_layers \<leftarrow> get_texture_state start_provider texture_selector index;
     starts \<leftarrow> (case start_set of
                 None \<Rightarrow> Some None
               | Some s \<Rightarrow> map_option Some (insert_one index texture_selector start_layers s));
     ends \<leftarrow> (case end_provider of
                None \<Rightarrow> insert_one index texture_selector start_layers end_set
              | Some p \<Rightarrow> do {
                  st \<leftarrow> get_texture_state p texture_selector index;
                  insert_one index texture_selector st end_set });
     res \<leftarrow> provide_resource mp index;
     md' \<leftarrow> metadata_insert index res md;
     Some (starts, ends, md') }"

type_synonym texture_conflict = "(texture_ref, texture_selector) usage_conflict"

definition one_mip :: "nat \<Rightarrow> u32 range_t \<Rightarrow> texture_selector" where
  "one_mip mip_id layers = \<lparr>sel_mips = Range (of_nat mip_id) (of_nat mip_id + 1), sel_layers = layers\<rparr>"

text \<open>
  The four arms of \<open>merge\<close>, by what is kept and what comes in. The resource, which the source reads
  only to report a conflict, is read first; this makes the model stricter where the provider
  has none.
\<close>

definition merge_single_many ::
  "texture_ref \<Rightarrow> texture_selector \<Rightarrow> texture_uses \<Rightarrow> (texture_selector \<times> texture_uses) list
   \<Rightarrow> (complex_texture_state \<times> texture_conflict option) option" where
  "merge_single_many res texture_selector current_simple new_many = do {
     new_complex \<leftarrow> from_selector_state_iter texture_selector [(texture_selector, current_simple)];
     fold_try (\<lambda>(selector, new_state) c.
       let merged_state = current_simple OR new_state in
       if invalid_texture_use merged_state then
         Some (c, Some (UsageConflict res selector current_simple new_state))
       else
         map_option (\<lambda>c. (c, None))
           (each_mip (\<lambda>mip. map_option coalesce (assign_layers merged_state (sel_layers selector) mip))
              (sel_mips selector) c)) new_many new_complex }"

text \<open>The loop over all ranges of all mip levels; a mip level that fails is not coalesced.\<close>

fun merge_many_single ::
  "texture_ref \<Rightarrow> texture_uses \<Rightarrow> nat \<Rightarrow> (u32, texture_uses) ranged_states list
   \<Rightarrow> (u32, texture_uses) ranged_states list \<times> texture_conflict option" where
  "merge_many_single res new_simple mip_id [] = ([], None)"
| "merge_many_single res new_simple mip_id (mip # mips) =
     (let (rs, e) = replace_states (\<lambda>layers current.
              let merged_state = (current OR new_simple) AND NOT tx_unknown in
              if invalid_texture_use merged_state then
                Inl (UsageConflict res (one_mip mip_id layers) current new_simple)
              else Inr merged_state) (ranges mip)
      in case e of
           Some e \<Rightarrow> (mip\<lparr>ranges := rs\<rparr> # mips, Some e)
         | None \<Rightarrow>
             let (mips', e) = merge_many_single res new_simple (Suc mip_id) mips
             in (coalesce (mip\<lparr>ranges := rs\<rparr>) # mips', e))"

definition merge_layers ::
  "texture_ref \<Rightarrow> texture_uses \<Rightarrow> u32 range_t \<Rightarrow> nat \<Rightarrow> complex_texture_state
   \<Rightarrow> (complex_texture_state \<times> texture_conflict option) option" where
  "merge_layers res new_state layers mip_id c = do {
     mip \<leftarrow> vec_get (cts_mips c) mip_id;
     (mip', e) \<leftarrow> isolate_replace (\<lambda>layers current.
         let merged_state = (current OR new_state) AND NOT tx_unknown in
         if merged_state = 0 then Inr current
         else if invalid_texture_use merged_state then
           Inl (UsageConflict res (one_mip mip_id layers) current new_state)
         else Inr merged_state) layers mip;
     Some (c\<lparr>cts_mips := (cts_mips c)[mip_id := (if e = None then coalesce mip' else mip')]\<rparr>, e) }"

definition merge_many_many ::
  "texture_ref \<Rightarrow> (texture_selector \<times> texture_uses) list \<Rightarrow> complex_texture_state
   \<Rightarrow> (complex_texture_state \<times> texture_conflict option) option" where
  "merge_many_many res new_many c =
     fold_try (\<lambda>(selector, new_state) c.
       fold_try (merge_layers res new_state (sel_layers selector)) (range_indices (sel_mips selector)) c)
       new_many c"

definition merge_texture ::
  "texture_selector \<Rightarrow> texture_state_set \<Rightarrow> nat \<Rightarrow> texture_state_provider \<Rightarrow> texture_ref metadata_provider
   \<Rightarrow> (texture_state_set \<times> texture_conflict option) option" where
  "merge_texture texture_selector s index sp mp = do {
     current_state \<leftarrow> set_get index s;
     new_state \<leftarrow> get_texture_state sp (Some texture_selector) index;
     res \<leftarrow> provide_resource mp index;
     case current_state of
       Single current_simple \<Rightarrow>
         (case new_state of
            Single new_simple \<Rightarrow>
              let merged_state = current_simple OR new_simple in
              if invalid_texture_use merged_state then
                Some (s, Some (UsageConflict res texture_selector current_simple new_simple))
              else Some (s\<lparr>tss_simple := (tss_simple s)[index := merged_state]\<rparr>, None)
          | Many new_many \<Rightarrow> do {
              (c, e) \<leftarrow> merge_single_many res texture_selector current_simple new_many;
              case e of
                Some e \<Rightarrow> Some (s, Some e)
              | None \<Rightarrow> map_option (\<lambda>s. (s, None)) (make_complex index c s) })
     | Many current_complex \<Rightarrow>
         (case new_state of
            Single new_simple \<Rightarrow>
              let (mips, e) = merge_many_single res new_simple 0 (cts_mips current_complex) in
              Some (put_complex index (current_complex\<lparr>cts_mips := mips\<rparr>) s, e)
          | Many new_many \<Rightarrow> do {
              (c, e) \<leftarrow> merge_many_many res new_many current_complex;
              Some (put_complex index c s, e) }) }"

text \<open>\<open>barrier\<close>.\<close>

type_synonym texture_transition = "texture_selector pending_transition"

definition texture_transition ::
  "nat \<Rightarrow> texture_uses \<Rightarrow> texture_selector \<Rightarrow> texture_uses \<Rightarrow> texture_uses \<Rightarrow> texture_transition list" where
  "texture_transition index ordered_uses_mask selector current new =
     (if skip_barrier current ordered_uses_mask new then []
      else [\<lparr>pt_id = of_nat index, pt_selector = selector, pt_from = current, pt_to = new\<rparr>])"

definition barriers_mip ::
  "nat \<Rightarrow> texture_uses \<Rightarrow> u32 range_t \<Rightarrow> texture_uses \<Rightarrow> complex_texture_state \<Rightarrow> nat
   \<Rightarrow> texture_transition list option" where
  "barriers_mip index ordered_uses_mask layers new_state current_complex mip_id = do {
     mip \<leftarrow> vec_get (cts_mips current_complex) mip_id;
     Some (concat (map (\<lambda>(layers, current).
         if current = tx_unknown \<or> new_state = tx_unknown then []
         else texture_transition index ordered_uses_mask (one_mip mip_id layers) current new_state)
       (iter_filter mip layers))) }"

definition barrier_texture ::
  "texture_selector \<Rightarrow> texture_state_set \<Rightarrow> nat \<Rightarrow> texture_state_provider \<Rightarrow> texture_transition list
   \<Rightarrow> texture_uses \<Rightarrow> texture_transition list option" where
  "barrier_texture texture_selector s index sp barriers ordered_uses_mask = do {
     current_state \<leftarrow> set_get index s;
     new_state \<leftarrow> get_texture_state sp (Some texture_selector) index;
     new \<leftarrow> (case current_state of
       Single current_simple \<Rightarrow>
         (case new_state of
            Single new_simple \<Rightarrow>
              Some (texture_transition index ordered_uses_mask texture_selector current_simple new_simple)
          | Many new_many \<Rightarrow>
              Some (concat (map (\<lambda>(selector, new_state).
                  if new_state = tx_unknown then []
                  else texture_transition index ordered_uses_mask selector current_simple new_state) new_many)))
     | Many current_complex \<Rightarrow>
         (case new_state of
            Single new_simple \<Rightarrow>
              Some (concat (map (\<lambda>(mip_id, mip).
                  concat (map (\<lambda>(layers, current).
                      if current = tx_unknown then []
                      else texture_transition index ordered_uses_mask (one_mip mip_id layers) current new_simple)
                    (ranges mip))) (enumerate 0 (cts_mips current_complex))))
          | Many new_many \<Rightarrow>
              map_option concat (those (map (\<lambda>(selector, new_state).
                map_option concat (those (map
                  (barriers_mip index ordered_uses_mask (sel_layers selector) new_state current_complex)
                  (range_indices (sel_mips selector))))) new_many))));
     Some (barriers @ new) }"

text \<open>
  \<open>update\<close>. The start states that were unknown become known: for the ranges of one mip level the
  complex start state is isolated over the layers, asserted to be unknown, and set.
\<close>

definition learn_start ::
  "nat \<Rightarrow> u32 range_t \<Rightarrow> texture_uses \<Rightarrow> complex_texture_state \<Rightarrow> complex_texture_state option" where
  "learn_start mip_id layers new_state start_complex = do {
     start_mip \<leftarrow> vec_get (cts_mips start_complex) mip_id;
     (start_mip', e) \<leftarrow> isolate_replace (\<lambda>_ current. if current = tx_unknown then Inr new_state else Inl ())
                         layers start_mip;
     if e \<noteq> None then None
     else Some (start_complex\<lparr>cts_mips := (cts_mips start_complex)[mip_id := coalesce start_mip']\<rparr>) }"

definition update_single_many ::
  "texture_selector \<Rightarrow> texture_uses \<Rightarrow> (texture_selector \<times> texture_uses) list
   \<Rightarrow> complex_texture_state option" where
  "update_single_many texture_selector current_simple new_many = do {
     new_complex \<leftarrow> from_selector_state_iter texture_selector [(texture_selector, current_simple)];
     fold_opt (\<lambda>(selector, new_state) c.
       let new_state = (if new_state = tx_unknown then current_simple else new_state) in
       each_mip (\<lambda>mip. map_option coalesce (assign_layers new_state (sel_layers selector) mip))
         (sel_mips selector) c) new_many new_complex }"

definition update_many_single ::
  "texture_uses \<Rightarrow> complex_texture_state \<Rightarrow> complex_texture_state option
   \<Rightarrow> complex_texture_state option option" where
  "update_many_single new_single current_complex start_complex =
     fold_opt (\<lambda>(mip_id, mip).
       fold_opt (\<lambda>(layers, current) start_complex.
         if current = tx_unknown then
           (case start_complex of
              None \<Rightarrow> Some None
            | Some start \<Rightarrow> map_option Some (learn_start mip_id layers new_single start))
         else Some start_complex) (ranges mip))
       (enumerate 0 (cts_mips current_complex)) start_complex"

text \<open>The body of the innermost loop of the last arm, over the ranges that were isolated.\<close>

definition update_layers ::
  "texture_uses \<Rightarrow> u32 range_t \<Rightarrow> nat \<Rightarrow> complex_texture_state \<times> complex_texture_state option
   \<Rightarrow> (complex_texture_state \<times> complex_texture_state option) option" where
  "update_layers new_state layers mip_id cs = do {
     let (current_complex, start_complex) = cs;
     mip \<leftarrow> vec_get (cts_mips current_complex) mip_id;
     (mip', a, b) \<leftarrow> isolate mip layers tx_unknown;
     start' \<leftarrow> fold_opt (\<lambda>(layers, current) start_complex.
         if current = tx_unknown \<and> new_state \<noteq> tx_unknown then
           (case start_complex of
              None \<Rightarrow> None
            | Some start \<Rightarrow> map_option Some (learn_start mip_id layers new_state start))
         else Some start_complex) (drop a (take b (ranges mip'))) start_complex;
     let mip'' = mip'\<lparr>ranges := take a (ranges mip')
            @ map (\<lambda>(r, _). (r, new_state)) (drop a (take b (ranges mip'))) @ drop b (ranges mip')\<rparr>;
     Some (current_complex\<lparr>cts_mips := (cts_mips current_complex)[mip_id := coalesce mip'']\<rparr>, start') }"

definition update_many_many ::
  "(texture_selector \<times> texture_uses) list \<Rightarrow> complex_texture_state \<times> complex_texture_state option
   \<Rightarrow> (complex_texture_state \<times> complex_texture_state option) option" where
  "update_many_many new_many cs =
     fold_opt (\<lambda>(selector, new_state) cs.
       if new_state = tx_unknown then Some cs
       else fold_opt (update_layers new_state (sel_layers selector)) (range_indices (sel_mips selector)) cs)
       new_many cs"

definition put_start ::
  "nat \<Rightarrow> complex_texture_state option \<Rightarrow> texture_state_set option \<Rightarrow> texture_state_set option" where
  "put_start index c s =
     (case c of None \<Rightarrow> s | Some c \<Rightarrow> map_option (put_complex index c) s)"

definition update_texture ::
  "texture_selector \<Rightarrow> texture_state_set option \<Rightarrow> texture_state_set \<Rightarrow> nat \<Rightarrow> texture_state_provider
   \<Rightarrow> (texture_state_set option \<times> texture_state_set) option" where
  "update_texture texture_selector start_set s index sp = do {
     start_complex \<leftarrow> (case start_set of
         None \<Rightarrow> Some None
       | Some ss \<Rightarrow> map_option (\<lambda>st. case st of Single _ \<Rightarrow> None | Many c \<Rightarrow> Some c) (set_get index ss));
     current_state \<leftarrow> set_get index s;
     new_state \<leftarrow> get_texture_state sp (Some texture_selector) index;
     case current_state of
       Single current_simple \<Rightarrow>
         (case new_state of
            Single new_simple \<Rightarrow> Some (start_set, s\<lparr>tss_simple := (tss_simple s)[index := new_simple]\<rparr>)
          | Many new_many \<Rightarrow> do {
              c \<leftarrow> update_single_many texture_selector current_simple new_many;
              s' \<leftarrow> make_complex index c s;
              Some (start_set, s') })
     | Many current_complex \<Rightarrow>
         (case new_state of
            Single new_single \<Rightarrow> do {
              start' \<leftarrow> update_many_single new_single current_complex start_complex;
              s' \<leftarrow> make_simple index new_single s;
              Some (put_start index start' start_set, s') }
          | Many new_many \<Rightarrow> do {
              (c, start') \<leftarrow> update_many_many new_many (current_complex, start_complex);
              Some (put_start index start' start_set, put_complex index c s) }) }"

section \<open>Subresources\<close>

text \<open>The subresources a selector stands for: mip levels and layers.\<close>

definition in_sel :: "texture_selector \<Rightarrow> nat \<Rightarrow> u32 \<Rightarrow> bool" where
  "in_sel sel m l \<longleftrightarrow> unat (rstart (sel_mips sel)) \<le> m \<and> m < unat (rend (sel_mips sel)) \<and> l \<in> iv (sel_layers sel)"

definition sel_nonempty :: "texture_selector \<Rightarrow> bool" where
  "sel_nonempty sel \<longleftrightarrow> rstart (sel_mips sel) < rend (sel_mips sel) \<and> rstart (sel_layers sel) < rend (sel_layers sel)"

definition full_ok :: "texture_selector \<Rightarrow> bool" where
  "full_ok full \<longleftrightarrow> rstart (sel_mips full) = 0 \<and> rstart (sel_layers full) = 0 \<and> sel_nonempty full
     \<and> unat (rend (sel_mips full)) \<le> MAX_MIP_LEVELS"

definition sel_within :: "texture_selector \<Rightarrow> texture_selector \<Rightarrow> bool" where
  "sel_within full sel \<longleftrightarrow> sel_nonempty sel \<and> rend (sel_mips sel) \<le> rend (sel_mips full)
     \<and> rend (sel_layers sel) \<le> rend (sel_layers full)"

definition mip_ok :: "u32 \<Rightarrow> (u32, texture_uses) ranged_states \<Rightarrow> bool" where
  "mip_ok n mip \<longleftrightarrow> sane mip \<and> (\<forall>l. lookup mip l \<noteq> None \<longleftrightarrow> l < n)"

definition complex_ok :: "texture_selector \<Rightarrow> complex_texture_state \<Rightarrow> bool" where
  "complex_ok full c \<longleftrightarrow> length (cts_mips c) = unat (rend (sel_mips full))
     \<and> (\<forall>m < length (cts_mips c). mip_ok (rend (sel_layers full)) (cts_mips c ! m))"

definition complex_at :: "complex_texture_state \<Rightarrow> nat \<Rightarrow> u32 \<Rightarrow> texture_uses" where
  "complex_at c m l = (if m < length (cts_mips c) then
     (case lookup (cts_mips c ! m) l of Some v \<Rightarrow> v | None \<Rightarrow> tx_unknown) else tx_unknown)"

lemma full_ok_in_sel: "full_ok full \<Longrightarrow> in_sel full m l \<longleftrightarrow> m < unat (rend (sel_mips full)) \<and> l < rend (sel_layers full)"
  by (simp add: full_ok_def in_sel_def)

lemma in_sel_within: "sel_within full sel \<Longrightarrow> full_ok full \<Longrightarrow> in_sel sel m l \<Longrightarrow> in_sel full m l"
  by (auto simp: sel_within_def in_sel_def full_ok_def word_le_nat_alt word_less_nat_alt)

section \<open>Isolating and replacing\<close>

lemma replace_states_ok:
  assumes "replace_states f xs = (ys, None)"
  shows "\<exists>g. ys = map (\<lambda>(r, v). (r, g r v)) xs \<and> (\<forall>(r, v) \<in> set xs. f r v = Inr (g r v))"
  using assms
proof (induction xs arbitrary: ys)
  case Nil
  then show ?case by simp
next
  case (Cons x xs)
  obtain r v where x: "x = (r, v)" by (cases x)
  from Cons.prems obtain v' ys' where "f r v = Inr v'" "replace_states f xs = (ys', None)" "ys = (r, v') # ys'"
    by (auto simp: x split: sum.splits prod.splits)
  moreover from Cons.IH [OF this(2)] obtain g where "ys' = map (\<lambda>(r, v). (r, g r v)) xs"
    "\<forall>(r, v) \<in> set xs. f r v = Inr (g r v)" by blast
  ultimately show ?case
    by (intro exI [of _ "\<lambda>r v. case f r v of Inr v' \<Rightarrow> v' | Inl _ \<Rightarrow> g r v"]) (auto simp: x)
qed

lemma replace_states_error:
  "replace_states f xs = (ys, Some e) \<Longrightarrow> \<exists>(r, v) \<in> set xs. f r v = Inl e"
  by (induction xs arbitrary: ys) (auto split: sum.splits prod.splits)

lemma replace_states_total:
  "\<forall>(r, v) \<in> set xs. f r v = Inr (g v) \<Longrightarrow> replace_states f xs = (map (\<lambda>(r, v). (r, g v)) xs, None)"
  by (induction xs) (auto split: sum.splits)

lemma lookup_map_values:
  "lookup_ranges (map (\<lambda>(r, v). (r, g v)) xs) i = map_option g (lookup_ranges xs i)"
  by (induction xs) auto

lemma sane_map_values: "sane_ranges (map (\<lambda>(r, v). (r, g v)) xs) = sane_ranges xs"
  by (auto simp: sane_ranges_def sorted_wrt_map case_prod_unfold)

lemma tiles_member: "tiles a b xs \<Longrightarrow> (r, v) \<in> set xs \<Longrightarrow> a \<le> rstart r \<and> rstart r < rend r \<and> rend r \<le> b"
  using tiles_sane [of a b xs] by (force simp: sane_ranges_def)

lemma lookup_ranges_member: "lookup_ranges xs i = Some v \<Longrightarrow> \<exists>r. (r, v) \<in> set xs \<and> i \<in> iv r"
  by (induction xs) (auto split: if_splits)

lemma lookup_member: "sane_ranges xs \<Longrightarrow> (r, v) \<in> set xs \<Longrightarrow> i \<in> iv r \<Longrightarrow> lookup_ranges xs i = Some v"
  for i :: "'i::linorder"
proof (induction xs)
  case (Cons x xs)
  then show ?case by (cases x) fastforce
qed simp

text \<open>
  Replacing values over the isolated layers: the prefix and the rest keep their values, every
  range of the slice has the value it had, or was unknown.
\<close>

lemma isolate_parts:
  assumes "mip_ok n mip" "rstart layers < rend layers" "rend layers \<le> n"
  obtains pre sl rem where
    "isolate mip layers tx_unknown = Some (mip\<lparr>ranges := pre @ sl @ rem\<rparr>, length pre, length pre + length sl)"
    "\<forall>i. lookup_ranges (pre @ sl @ rem) i = lookup mip i"
    "\<And>i. i \<in> iv layers \<longleftrightarrow> lookup_ranges sl i \<noteq> None"
    "\<And>i. i \<in> iv layers \<Longrightarrow> lookup_ranges pre i = None \<and> lookup_ranges rem i = None"
    "sane_ranges pre" "sane_ranges sl" "sane_ranges rem"
    "\<forall>a \<in> set pre. \<forall>b \<in> set (sl @ rem). rend (fst a) \<le> rstart (fst b)"
    "\<forall>a \<in> set sl. \<forall>b \<in> set rem. rend (fst a) \<le> rstart (fst b)" "sl \<noteq> []"
proof -
  have sane: "sane mip" and cover: "\<And>l. lookup mip l \<noteq> None \<longleftrightarrow> l < n"
    using assms(1) by (auto simp: mip_ok_def)
  obtain pre sl rem where iso:
    "isolate mip layers tx_unknown = Some (mip\<lparr>ranges := pre @ sl @ rem\<rparr>, length pre, length pre + length sl)"
    and pre: "sane_ranges pre" "\<forall>a \<in> set pre. rend (fst a) \<le> rstart layers"
    and sl: "tiles (rstart layers) (rend layers) sl"
    and rem: "sane_ranges rem" "\<forall>a \<in> set rem. rend layers \<le> rstart (fst a)"
    and lk: "\<forall>i. lookup_ranges (pre @ sl @ rem) i =
      (if i \<in> iv layers then Some (case lookup mip i of Some v \<Rightarrow> v | None \<Rightarrow> tx_unknown) else lookup mip i)"
    using isolate_split [OF sane assms(2)] by metis
  have same: "\<forall>i. lookup_ranges (pre @ sl @ rem) i = lookup mip i"
  proof
    fix i
    show "lookup_ranges (pre @ sl @ rem) i = lookup mip i"
    proof (cases "i \<in> iv layers")
      case True
      then have "i < n" using assms(3) by (auto intro: less_le_trans)
      with cover obtain v where "lookup mip i = Some v" by blast
      with lk True show ?thesis by simp
    next
      case False
      then have "\<not> (rstart layers \<le> i \<and> i < rend layers)" by simp
      with lk show ?thesis by (simp only: mem_iv if_False)
    qed
  qed
  have members: "\<And>r v. (r, v) \<in> set sl \<Longrightarrow> rstart layers \<le> rstart r \<and> rend r \<le> rend layers"
    using tiles_member [OF sl] by blast
  have out: "\<not> i \<in> iv layers \<Longrightarrow> lookup_ranges sl i = None" for i
  proof (rule ccontr)
    assume a: "i \<notin> iv layers" "lookup_ranges sl i \<noteq> None"
    then obtain v where "lookup_ranges sl i = Some v" by blast
    then obtain r where "(r, v) \<in> set sl" "i \<in> iv r" using lookup_ranges_member by metis
    with members [of r v] a(1) show False by auto
  qed
  have inside: "lookup_ranges pre i = None \<and> lookup_ranges rem i = None" if "i \<in> iv layers" for i
  proof
    show "lookup_ranges pre i = None"
      using that pre(2) by (intro lookup_None_above) (auto intro: order_trans)
    show "lookup_ranges rem i = None"
      using that rem(2) by (intro lookup_None_below) (auto intro: less_le_trans)
  qed
  show thesis
  proof (rule that [OF iso same _ inside pre(1) _ rem(1)])
    show "i \<in> iv layers \<longleftrightarrow> lookup_ranges sl i \<noteq> None" for i
    proof
      assume "i \<in> iv layers"
      then show "lookup_ranges sl i \<noteq> None" using tiles_lookup [OF sl, of i] by simp
    next
      assume "lookup_ranges sl i \<noteq> None"
      with out [of i] show "i \<in> iv layers" by (meson)
    qed
    show "sane_ranges sl" using tiles_sane [OF sl] by blast
    show "\<forall>a \<in> set pre. \<forall>b \<in> set (sl @ rem). rend (fst a) \<le> rstart (fst b)"
      using pre(2) rem(2) members assms(2) by (force intro: order_trans)
    show "\<forall>a \<in> set sl. \<forall>b \<in> set rem. rend (fst a) \<le> rstart (fst b)"
      using rem(2) members by (force intro: order_trans)
    show "sl \<noteq> []" using sl assms(2) by (cases sl) auto
  qed
qed

text \<open>What a body does to one value: \<open>None\<close> where it returns an error.\<close>

definition body_is ::
  "(u32 range_t \<Rightarrow> texture_uses \<Rightarrow> 'e + texture_uses) \<Rightarrow> (texture_uses \<Rightarrow> texture_uses option) \<Rightarrow> bool" where
  "body_is f g \<longleftrightarrow> (\<forall>r v. (case f r v of Inl _ \<Rightarrow> None | Inr v' \<Rightarrow> Some v') = g v)"

lemma replace_states_body:
  assumes "body_is f g" "replace_states f xs = (ys, e)"
  shows "e = None \<Longrightarrow> ys = map (\<lambda>(r, v). (r, the (g v))) xs \<and> (\<forall>(r, v) \<in> set xs. g v \<noteq> None)"
    and "e \<noteq> None \<Longrightarrow> \<exists>(r, v) \<in> set xs. g v = None"
proof -
  assume "e = None"
  with assms(2) replace_states_ok [of f xs ys] obtain h where
    h: "ys = map (\<lambda>(r, v). (r, h r v)) xs" "\<forall>(r, v) \<in> set xs. f r v = Inr (h r v)" by blast
  have g: "(r, v) \<in> set xs \<Longrightarrow> g v = Some (h r v)" for r v
  proof -
    assume "(r, v) \<in> set xs"
    with h(2) have "f r v = Inr (h r v)" by blast
    moreover have "(case f r v of Inl _ \<Rightarrow> None | Inr v' \<Rightarrow> Some v') = g v"
      using assms(1) unfolding body_is_def by blast
    ultimately show "g v = Some (h r v)" by simp
  qed
  show "ys = map (\<lambda>(r, v). (r, the (g v))) xs \<and> (\<forall>(r, v) \<in> set xs. g v \<noteq> None)"
    unfolding h(1) using g by force
next
  assume "e \<noteq> None"
  then obtain e' where "e = Some e'" by blast
  with assms(2) replace_states_error [of f xs ys e'] obtain r v where
    rv: "(r, v) \<in> set xs" "f r v = Inl e'" by blast
  moreover have "(case f r v of Inl _ \<Rightarrow> None | Inr v' \<Rightarrow> Some v') = g v"
    using assms(1) unfolding body_is_def by blast
  ultimately show "\<exists>(r, v) \<in> set xs. g v = None" by force
qed

lemma isolate_replace_spec:
  assumes "mip_ok n mip" "rstart layers < rend layers" "rend layers \<le> n" "body_is f g"
  obtains mip' e where "isolate_replace f layers mip = Some (mip', e)"
    "e = None \<Longrightarrow> mip_ok n mip'"
    "e = None \<Longrightarrow> (\<forall>l. lookup mip' l = (if l \<in> iv layers then Option.bind (lookup mip l) g else lookup mip l))"
    "e = None \<Longrightarrow> \<forall>l \<in> iv layers. Option.bind (lookup mip l) g \<noteq> None"
    "e \<noteq> None \<Longrightarrow> \<exists>l \<in> iv layers. Option.bind (lookup mip l) g = None"
proof -
  obtain pre sl rem where p:
    "isolate mip layers tx_unknown = Some (mip\<lparr>ranges := pre @ sl @ rem\<rparr>, length pre, length pre + length sl)"
    "\<forall>i. lookup_ranges (pre @ sl @ rem) i = lookup mip i"
    "\<And>i. i \<in> iv layers \<longleftrightarrow> lookup_ranges sl i \<noteq> None"
    "\<And>i. i \<in> iv layers \<Longrightarrow> lookup_ranges pre i = None \<and> lookup_ranges rem i = None"
    "sane_ranges pre" "sane_ranges sl" "sane_ranges rem"
    "\<forall>a \<in> set pre. \<forall>b \<in> set (sl @ rem). rend (fst a) \<le> rstart (fst b)"
    "\<forall>a \<in> set sl. \<forall>b \<in> set rem. rend (fst a) \<le> rstart (fst b)" "sl \<noteq> []"
    using isolate_parts [OF assms(1-3)] by blast
  have at: "lookup mip i = lookup_ranges sl i" if "i \<in> iv layers" for i
    using p(2) [THEN spec, of i] p(3) [of i] p(4) [OF that] that by (auto split: option.splits)
  obtain ys e where ys: "replace_states f sl = (ys, e)" by (cases "replace_states f sl")
  let ?mip = "mip\<lparr>ranges := pre @ ys @ rem\<rparr>"
  have run: "isolate_replace f layers mip = Some (?mip, e)"
    by (simp add: isolate_replace_def p(1) ys)
  have good: "mip_ok n ?mip \<and>
      (\<forall>l. lookup ?mip l = (if l \<in> iv layers then Option.bind (lookup mip l) g else lookup mip l)) \<and>
      (\<forall>l \<in> iv layers. Option.bind (lookup mip l) g \<noteq> None)" if "e = None"
  proof -
    from replace_states_body(1) [OF assms(4) ys that]
    have y: "ys = map (\<lambda>(r, v). (r, the (g v))) sl" and def: "\<forall>(r, v) \<in> set sl. g v \<noteq> None" by auto
    have lk: "lookup_ranges ys i = Option.bind (lookup_ranges sl i) g" for i
    proof (cases "lookup_ranges sl i")
      case (Some v)
      then obtain r where "(r, v) \<in> set sl" using lookup_ranges_member by metis
      with def have "g v \<noteq> None" by blast
      with Some show ?thesis unfolding y by (auto simp: lookup_map_values)
    qed (simp add: y lookup_map_values)
    have all: "lookup ?mip l = (if l \<in> iv layers then Option.bind (lookup mip l) g else lookup mip l)" for l
    proof (cases "l \<in> iv layers")
      case True
      with p(4) [OF True] at [OF True] show ?thesis
        by (auto simp: lookup_def lk split: option.splits)
    next
      case False
      then have "lookup_ranges sl l = None" using p(3) by blast
      with p(2) [THEN spec, of l] False show ?thesis by (auto simp: lookup_def lk split: option.splits)
    qed
    have some: "Option.bind (lookup mip l) g \<noteq> None" if "l \<in> iv layers" for l
    proof -
      have "lookup_ranges sl l \<noteq> None" using p(3) [of l] that by blast
      then obtain v where v: "lookup_ranges sl l = Some v" by blast
      then obtain r where "(r, v) \<in> set sl" using lookup_ranges_member by metis
      with def have "g v \<noteq> None" by blast
      then show ?thesis using at [OF that] v by simp
    qed
    have "sane_ranges ys" unfolding y sane_map_values by (rule p(6))
    moreover have same: "(\<forall>a \<in> set ys. P (fst a)) \<longleftrightarrow> (\<forall>a \<in> set sl. P (fst a))" for P
      unfolding y by force
    have "\<forall>a \<in> set ys. \<forall>b \<in> set rem. rend (fst a) \<le> rstart (fst b)"
      unfolding same [of "\<lambda>r. \<forall>b \<in> set rem. rend r \<le> rstart (fst b)"] by (rule p(9))
    moreover have "\<forall>b \<in> set ys. rend (fst a) \<le> rstart (fst b)" if "a \<in> set pre" for a
      unfolding same [of "\<lambda>r. rend (fst a) \<le> rstart r"] using p(8) that by simp
    ultimately have "sane ?mip"
      using p(5,7,8) unfolding sane_def by (simp add: ball_Un)
    moreover have "lookup ?mip l \<noteq> None \<longleftrightarrow> l < n" for l
    proof (cases "l \<in> iv layers")
      case True
      with assms(3) have "l < n" by (auto intro: less_le_trans)
      with True all [of l] some [of l] show ?thesis by simp
    next
      case False
      with all [of l] assms(1) show ?thesis unfolding mip_ok_def by presburger
    qed
    ultimately show ?thesis using all some unfolding mip_ok_def by blast
  qed
  have bad: "\<exists>l \<in> iv layers. Option.bind (lookup mip l) g = None" if e: "e \<noteq> None"
  proof -
    from replace_states_body(2) [OF assms(4) ys e] obtain r v where rv: "(r, v) \<in> set sl" "g v = None" by blast
    then have r: "rstart r \<in> iv r" using p(6) by (force simp: sane_ranges_def)
    then have lk: "lookup_ranges sl (rstart r) = Some v" by (rule lookup_member [OF p(6) rv(1)])
    then have mem: "rstart r \<in> iv layers" using p(3) by blast
    have "Option.bind (lookup mip (rstart r)) g = None" using at [OF mem] lk rv(2) by simp
    with mem show ?thesis by blast
  qed
  show thesis by (rule that [OF run]) (use good bad in blast)+
qed

section \<open>Assigning to a selector\<close>

lemma mip_ok_coalesce: "mip_ok n mip \<Longrightarrow> mip_ok n (coalesce mip)" "mip_ok n mip \<Longrightarrow> lookup (coalesce mip) = lookup mip"
  by (simp_all add: mip_ok_def coalesce_correct)

lemma assign_layers_spec:
  assumes "mip_ok n mip" "rstart layers < rend layers" "rend layers \<le> n"
  shows "\<exists>mip'. assign_layers st layers mip = Some mip' \<and> mip_ok n mip'
    \<and> lookup mip' = (\<lambda>l. if l \<in> iv layers then Some st else lookup mip l)"
proof -
  have b: "body_is (\<lambda>_ _. Inr st :: unit + texture_uses) (\<lambda>_. Some st)" by (simp add: body_is_def)
  have some: "l \<in> iv layers \<Longrightarrow> \<exists>v. lookup mip l = Some v" for l
    using assms(1,3) unfolding mip_ok_def by (auto intro: less_le_trans)
  obtain mip' e where m: "isolate_replace (\<lambda>_ _. Inr st :: unit + texture_uses) layers mip = Some (mip', e)"
    "e = None \<Longrightarrow> mip_ok n mip'"
    "e = None \<Longrightarrow> (\<forall>l. lookup mip' l = (if l \<in> iv layers then Option.bind (lookup mip l) (\<lambda>_. Some st) else lookup mip l))"
    "e \<noteq> None \<Longrightarrow> \<exists>l \<in> iv layers. Option.bind (lookup mip l) (\<lambda>_. Some st) = None"
    using isolate_replace_spec [OF assms b] by metis
  have "e = None" using m(4) some by fastforce
  moreover from m(3) [OF this] have "lookup mip' = (\<lambda>l. if l \<in> iv layers then Some st else lookup mip l)"
    using some by fastforce
  ultimately show ?thesis using m(1,2) by (auto simp: assign_layers_def)
qed

lemma fold_mips:
  assumes "distinct ks" "\<forall>k \<in> set ks. k < length (cts_mips c) \<and> f (cts_mips c ! k) \<noteq> None"
  shows "\<exists>c'. fold_opt (\<lambda>k c. map_option (\<lambda>m. c\<lparr>cts_mips := (cts_mips c)[k := m]\<rparr>) (f (cts_mips c ! k))) ks c = Some c'
    \<and> length (cts_mips c') = length (cts_mips c)
    \<and> (\<forall>m < length (cts_mips c). cts_mips c' ! m = (if m \<in> set ks then the (f (cts_mips c ! m)) else cts_mips c ! m))"
  using assms
proof (induction ks arbitrary: c)
  case Nil
  then show ?case by simp
next
  case (Cons k ks)
  then obtain mip where mip: "f (cts_mips c ! k) = Some mip" by auto
  let ?c = "c\<lparr>cts_mips := (cts_mips c)[k := mip]\<rparr>"
  have "distinct ks" "\<forall>j \<in> set ks. j < length (cts_mips ?c) \<and> f (cts_mips ?c ! j) \<noteq> None"
    using Cons.prems by (auto simp: nth_list_update)
  from Cons.IH [OF this] obtain c' where
    "fold_opt (\<lambda>k c. map_option (\<lambda>m. c\<lparr>cts_mips := (cts_mips c)[k := m]\<rparr>) (f (cts_mips c ! k))) ks ?c = Some c'"
    "length (cts_mips c') = length (cts_mips c)"
    "\<forall>m < length (cts_mips c). cts_mips c' ! m = (if m \<in> set ks then the (f (cts_mips ?c ! m)) else cts_mips ?c ! m)"
    by auto
  with mip Cons.prems show ?case by (intro exI [of _ c']) (auto simp: nth_list_update)
qed

lemma each_mip_spec:
  assumes c: "complex_ok full c" and sel: "sel_within full sel"
    and f: "\<And>mip. mip_ok (rend (sel_layers full)) mip \<Longrightarrow> \<exists>mip'. f mip = Some mip' \<and> mip_ok (rend (sel_layers full)) mip'
        \<and> lookup mip' = (\<lambda>l. if l \<in> iv (sel_layers sel) then Some st else lookup mip l)"
  shows "\<exists>c'. each_mip f (sel_mips sel) c = Some c' \<and> complex_ok full c'
    \<and> complex_at c' = (\<lambda>m l. if in_sel sel m l then st else complex_at c m l)"
proof -
  let ?ks = "range_indices (sel_mips sel)"
  have len: "length (cts_mips c) = unat (rend (sel_mips full))" using c by (simp add: complex_ok_def)
  have bounds: "unat (rstart (sel_mips sel)) \<le> unat (rend (sel_mips sel))"
    "unat (rend (sel_mips sel)) \<le> length (cts_mips c)"
    using sel len by (auto simp: sel_within_def sel_nonempty_def word_less_nat_alt word_le_nat_alt)
  have ok: "m < length (cts_mips c) \<Longrightarrow> mip_ok (rend (sel_layers full)) (cts_mips c ! m)" for m
    using c by (simp add: complex_ok_def)
  have ks: "k \<in> set ?ks \<longleftrightarrow> unat (rstart (sel_mips sel)) \<le> k \<and> k < unat (rend (sel_mips sel))" for k
    by (simp add: range_indices_def)
  have "distinct ?ks" by (simp add: range_indices_def)
  moreover have "\<forall>k \<in> set ?ks. k < length (cts_mips c) \<and> f (cts_mips c ! k) \<noteq> None"
  proof
    fix k assume "k \<in> set ?ks"
    with ks bounds have "k < length (cts_mips c)" by auto
    with f [OF ok [OF this]] show "k < length (cts_mips c) \<and> f (cts_mips c ! k) \<noteq> None" by auto
  qed
  ultimately have pre: "distinct ?ks" "\<forall>k \<in> set ?ks. k < length (cts_mips c) \<and> f (cts_mips c ! k) \<noteq> None"
    by simp_all
  from fold_mips [OF pre] obtain c' where c':
    "fold_opt (\<lambda>k c. map_option (\<lambda>m. c\<lparr>cts_mips := (cts_mips c)[k := m]\<rparr>) (f (cts_mips c ! k))) ?ks c = Some c'"
    "length (cts_mips c') = length (cts_mips c)"
    "\<forall>m < length (cts_mips c). cts_mips c' ! m = (if m \<in> set ?ks then the (f (cts_mips c ! m)) else cts_mips c ! m)"
    by blast
  have mip: "mip_ok (rend (sel_layers full)) (cts_mips c' ! m)
      \<and> lookup (cts_mips c' ! m) = (\<lambda>l. if m \<in> set ?ks \<and> l \<in> iv (sel_layers sel) then Some st else lookup (cts_mips c ! m) l)"
    if "m < length (cts_mips c)" for m
  proof (cases "m \<in> set ?ks")
    case True
    with c'(3) that have "cts_mips c' ! m = the (f (cts_mips c ! m))" by simp
    with f [OF ok [OF that]] True show ?thesis by auto
  next
    case False
    with c'(3) that ok [OF that] show ?thesis by simp
  qed
  have at: "complex_at c' m l = (if in_sel sel m l then st else complex_at c m l)" for m l
  proof (cases "m < length (cts_mips c)")
    case True
    then show ?thesis using mip [OF True] c'(2)
      by (simp add: complex_at_def in_sel_def ks)
  next
    case False
    then have "\<not> in_sel sel m l" using bounds by (simp add: in_sel_def)
    with False c'(2) show ?thesis by (simp add: complex_at_def)
  qed
  have "each_mip f (sel_mips sel) c = Some c'" using bounds c'(1) by (simp add: each_mip_def)
  moreover have "complex_ok full c'" using mip c'(2) len by (simp add: complex_ok_def)
  moreover have "complex_at c' = (\<lambda>m l. if in_sel sel m l then st else complex_at c m l)"
    by (intro ext) (rule at)
  ultimately show ?thesis by blast
qed

lemma assign_each:
  assumes "complex_ok full c" "sel_within full sel"
  shows "\<exists>c'. each_mip (assign_layers st (sel_layers sel)) (sel_mips sel) c = Some c' \<and> complex_ok full c'
      \<and> complex_at c' = (\<lambda>m l. if in_sel sel m l then st else complex_at c m l)"
    and "\<exists>c'. each_mip (\<lambda>mip. map_option coalesce (assign_layers st (sel_layers sel) mip)) (sel_mips sel) c = Some c'
      \<and> complex_ok full c' \<and> complex_at c' = (\<lambda>m l. if in_sel sel m l then st else complex_at c m l)"
proof -
  have l: "rstart (sel_layers sel) < rend (sel_layers sel)" "rend (sel_layers sel) \<le> rend (sel_layers full)"
    using assms(2) by (auto simp: sel_within_def sel_nonempty_def)
  show "\<exists>c'. each_mip (assign_layers st (sel_layers sel)) (sel_mips sel) c = Some c' \<and> complex_ok full c'
      \<and> complex_at c' = (\<lambda>m l. if in_sel sel m l then st else complex_at c m l)"
    by (rule each_mip_spec [OF assms assign_layers_spec [OF _ l]])
  have "\<exists>mip'. map_option coalesce (assign_layers st (sel_layers sel) mip) = Some mip'
      \<and> mip_ok (rend (sel_layers full)) mip'
      \<and> lookup mip' = (\<lambda>i. if i \<in> iv (sel_layers sel) then Some st else lookup mip i)"
    if "mip_ok (rend (sel_layers full)) mip" for mip
    using assign_layers_spec [OF that l, of st] mip_ok_coalesce by fastforce
  then
  show "\<exists>c'. each_mip (\<lambda>mip. map_option coalesce (assign_layers st (sel_layers sel) mip)) (sel_mips sel) c = Some c'
      \<and> complex_ok full c' \<and> complex_at c' = (\<lambda>m l. if in_sel sel m l then st else complex_at c m l)"
    by (rule each_mip_spec [OF assms])
qed

fun override_many ::
  "(texture_selector \<times> texture_uses) list \<Rightarrow> (nat \<Rightarrow> u32 \<Rightarrow> texture_uses) \<Rightarrow> nat \<Rightarrow> u32 \<Rightarrow> texture_uses" where
  "override_many [] h = h"
| "override_many ((sel, st) # many) h = override_many many (\<lambda>m l. if in_sel sel m l then st else h m l)"

lemma assign_many:
  assumes "complex_ok full c" "\<forall>(sel, st) \<in> set many. sel_within full sel"
    and step: "\<And>sel st c. (sel, st) \<in> set many \<Longrightarrow> complex_ok full c \<Longrightarrow>
      \<exists>c'. f (sel, st) c = Some c' \<and> complex_ok full c'
        \<and> complex_at c' = (\<lambda>m l. if in_sel sel m l then g st else complex_at c m l)"
  shows "\<exists>c'. fold_opt f many c = Some c' \<and> complex_ok full c'
    \<and> complex_at c' = override_many (map (\<lambda>(sel, st). (sel, g st)) many) (complex_at c)"
  using assms
proof (induction many arbitrary: c)
  case Nil
  then show ?case by simp
next
  case (Cons x many)
  obtain sel st where x: "x = (sel, st)" by (cases x)
  obtain c1 where c1: "f x c = Some c1" "complex_ok full c1"
    "complex_at c1 = (\<lambda>m l. if in_sel sel m l then g st else complex_at c m l)"
    using Cons.prems(3) [of sel st c] Cons.prems(1) x by auto
  have "\<exists>c'. fold_opt f many c1 = Some c' \<and> complex_ok full c'
    \<and> complex_at c' = override_many (map (\<lambda>(sel, st). (sel, g st)) many) (complex_at c1)"
    using Cons.prems(2,3) by (intro Cons.IH [OF c1(2)]) auto
  with c1 show ?case by (simp add: x)
qed

lemma complex_new_ok:
  assumes "full_ok full"
  shows "\<exists>c. complex_new (range_len (sel_mips full)) (range_len (sel_layers full)) = Some c
    \<and> complex_ok full c \<and> complex_at c = (\<lambda>_ _. tx_unknown)"
proof -
  let ?n = "rend (sel_layers full)"
  have f: "rstart (sel_mips full) = 0" "rstart (sel_layers full) = 0" "0 < ?n"
    "unat (rend (sel_mips full)) \<le> MAX_MIP_LEVELS"
    using assms by (auto simp: full_ok_def sel_nonempty_def)
  have m: "mip_ok ?n (from_range (Range 0 ?n) tx_unknown)"
    "lookup (from_range (Range 0 ?n) tx_unknown) l = (if l < ?n then Some tx_unknown else None)" for l
    using f(3) by (auto simp: mip_ok_def sane_def from_range_def lookup_def)
  show ?thesis
    using f m by (auto simp: complex_new_def range_len_def complex_ok_def complex_at_def fun_eq_iff)
qed

lemma from_selector_spec:
  assumes "full_ok full" "\<forall>(sel, st) \<in> set many. sel_within full sel \<and> \<not> invalid_texture_use st"
  shows "\<exists>c. from_selector_state_iter full many = Some c \<and> complex_ok full c
    \<and> complex_at c = override_many many (\<lambda>_ _. tx_unknown)"
proof -
  obtain c where c: "complex_new (range_len (sel_mips full)) (range_len (sel_layers full)) = Some c"
    "complex_ok full c" "complex_at c = (\<lambda>_ _. tx_unknown)" using complex_new_ok [OF assms(1)] by blast
  let ?f = "\<lambda>(selector, desired_state) c.
          if rend (sel_layers selector) \<le> rend (sel_layers full)
             \<and> rend (sel_mips selector) \<le> rend (sel_mips full)
             \<and> \<not> invalid_texture_use desired_state
          then each_mip (assign_layers desired_state (sel_layers selector)) (sel_mips selector) c
          else None"
  have w: "\<forall>(sel, st) \<in> set many. sel_within full sel" using assms(2) by auto
  have "\<exists>c'. fold_opt ?f many c = Some c' \<and> complex_ok full c'
    \<and> complex_at c' = override_many (map (\<lambda>(sel, st). (sel, id st)) many) (complex_at c)"
  proof (rule assign_many [OF c(2) w])
    fix sel st c assume a: "(sel, st) \<in> set many" "complex_ok full c"
    with assms(2) have "sel_within full sel" "\<not> invalid_texture_use st" by auto
    with assign_each(1) [OF a(2), of sel st]
    show "\<exists>c'. ?f (sel, st) c = Some c' \<and> complex_ok full c'
        \<and> complex_at c' = (\<lambda>m l. if in_sel sel m l then id st else complex_at c m l)"
      unfolding id_apply by (simp add: sel_within_def)
  qed
  moreover have "map (\<lambda>(sel, st). (sel, id st)) many = many" by (induction many) auto
  moreover have "rstart (sel_layers full) = 0" "rstart (sel_mips full) = 0"
    using assms(1) by (auto simp: full_ok_def)
  ultimately show ?thesis using c(1,3) by (simp add: from_selector_state_iter_def)
qed

section \<open>Lists of selectors\<close>

text \<open>The entries of a list of selectors that hold a subresource.\<close>

definition hits :: "(texture_selector \<times> texture_uses) list \<Rightarrow> nat \<Rightarrow> u32 \<Rightarrow> (texture_selector \<times> texture_uses) list" where
  "hits many m l = filter (\<lambda>(sel, _). in_sel sel m l) many"

definition many_at :: "(texture_selector \<times> texture_uses) list \<Rightarrow> nat \<Rightarrow> u32 \<Rightarrow> texture_uses" where
  "many_at many m l = (case hits many m l of [] \<Rightarrow> tx_unknown | x # _ \<Rightarrow> snd x)"

definition many_ok :: "texture_selector \<Rightarrow> (texture_selector \<times> texture_uses) list \<Rightarrow> bool" where
  "many_ok full many \<longleftrightarrow>
     (\<forall>(sel, st) \<in> set many. sel_within full sel \<and> \<not> invalid_texture_use st)
     \<and> (\<forall>m l. length (hits many m l) \<le> 1)"

lemma hits_Cons: "hits ((sel, st) # many) m l = (if in_sel sel m l then (sel, st) # hits many m l else hits many m l)"
  by (simp add: hits_def)

lemma hits_append: "hits (xs @ ys) m l = hits xs m l @ hits ys m l"
  by (simp add: hits_def)

lemma override_many_hits:
  "override_many many h m l = (if hits many m l = [] then h m l else snd (last (hits many m l)))"
proof (induction many arbitrary: h)
  case Nil
  then show ?case by (simp add: hits_def)
next
  case (Cons x many)
  obtain sel st where x: "x = (sel, st)" by (cases x)
  show ?case unfolding x by (simp add: Cons.IH hits_Cons)
qed

lemma override_many_at:
  assumes "length (hits many m l) \<le> 1"
  shows "override_many many h m l = (if hits many m l = [] then h m l else many_at many m l)"
  using assms by (cases "hits many m l") (auto simp: override_many_hits many_at_def)

lemma override_many_unknown:
  assumes "length (hits many m l) \<le> 1"
  shows "override_many many (\<lambda>_ _. tx_unknown) m l = many_at many m l"
  using assms by (cases "hits many m l") (auto simp: override_many_hits many_at_def)

section \<open>The entries of a complex state\<close>

lemma sane_hits:
  "sane_ranges rs \<Longrightarrow>
     map snd (filter (\<lambda>(r, v). l \<in> iv r) rs) = (case lookup_ranges rs l of None \<Rightarrow> [] | Some v \<Rightarrow> [v])"
proof (induction rs)
  case Nil
  then show ?case by simp
next
  case (Cons x rs)
  obtain r v where x: "x = (r, v)" by (cases x)
  show ?case
  proof (cases "l \<in> iv r")
    case True
    have "\<forall>b \<in> set rs. l \<notin> iv (fst b)" using Cons.prems True by (force simp: x)
    then have "filter (\<lambda>(r, v). l \<in> iv r) rs = []" by (auto simp: filter_empty_conv)
    with True show ?thesis by (simp add: x del: mem_iv)
  next
    case False
    then show ?thesis using Cons by (simp add: x del: mem_iv)
  qed
qed

lemma concat_enumerate:
  "concat (map (\<lambda>(k, x). if k = m then F x else []) (enumerate n xs))
     = (if n \<le> m \<and> m < n + length xs then F (xs ! (m - n)) else [])"
proof (induction xs arbitrary: n)
  case (Cons x xs)
  then show ?case by (auto simp: nth_Cons' not_le less_Suc_eq_le)
qed auto

lemma one_mip_sel:
  "k < MAX_MIP_LEVELS \<Longrightarrow> in_sel (one_mip k layers) m l \<longleftrightarrow> k = m \<and> l \<in> iv layers"
proof -
  assume k: "k < MAX_MIP_LEVELS"
  then have "unat (of_nat k :: u32) = k" "unat (of_nat k + 1 :: u32) = Suc k"
    by (auto simp: MAX_MIP_LEVELS_def unat_of_nat unat_word_ariths)
  then show ?thesis by (auto simp: one_mip_def in_sel_def)
qed

lemma to_selector_one_mip:
  "to_selector_state_iter c = concat (map (\<lambda>(mip, inner). map (\<lambda>(layers, st). (one_mip mip layers, st)) (ranges inner))
       (enumerate 0 (cts_mips c)))"
  by (simp add: to_selector_state_iter_def one_mip_def)

lemma complex_ok_short: "full_ok full \<Longrightarrow> complex_ok full c \<Longrightarrow> length (cts_mips c) \<le> MAX_MIP_LEVELS"
  by (simp add: full_ok_def complex_ok_def)

lemma complex_hits:
  assumes "full_ok full" "complex_ok full c"
  shows "map snd (hits (to_selector_state_iter c) m l) = (if in_sel full m l then [complex_at c m l] else [])"
proof -
  let ?F = "\<lambda>inner. map (\<lambda>(layers, st). (one_mip m layers, st)) (filter (\<lambda>(r, v). l \<in> iv r) (ranges inner))"
  have short: "length (cts_mips c) \<le> MAX_MIP_LEVELS" using assms by (rule complex_ok_short)
  have "hits (to_selector_state_iter c) m l
      = concat (map (\<lambda>(k, inner). if k = m then ?F inner else []) (enumerate 0 (cts_mips c)))"
  proof -
    have one: "hits (map (\<lambda>(layers, st). (one_mip k layers, st)) rs) m l
        = (if k = m then map (\<lambda>(layers, st). (one_mip m layers, st)) (filter (\<lambda>(r, v). l \<in> iv r) rs) else [])"
      if "k < MAX_MIP_LEVELS" for k and rs :: "(u32 range_t \<times> texture_uses) list"
      using that by (induction rs) (auto simp: hits_def one_mip_sel simp del: mem_iv)
    have "hits (concat yss) m l = concat (map (\<lambda>ys. hits ys m l) yss)" for yss
      by (induction yss) (simp_all add: hits_append, simp add: hits_def)
    then have "hits (to_selector_state_iter c) m l
        = concat (map (\<lambda>(k, inner). hits (map (\<lambda>(layers, st). (one_mip k layers, st)) (ranges inner)) m l)
            (enumerate 0 (cts_mips c)))"
      by (simp add: to_selector_one_mip comp_def case_prod_unfold)
    also have "\<dots> = concat (map (\<lambda>(k, inner). if k = m then ?F inner else []) (enumerate 0 (cts_mips c)))"
      using short by (intro arg_cong [of _ _ concat] map_cong refl) (auto simp: one in_set_enumerate_eq)
    finally show ?thesis .
  qed
  then have h: "hits (to_selector_state_iter c) m l = (if m < length (cts_mips c) then ?F (cts_mips c ! m) else [])"
    by (simp add: concat_enumerate)
  show ?thesis
  proof (cases "m < length (cts_mips c)")
    case True
    with assms(2) have mip: "mip_ok (rend (sel_layers full)) (cts_mips c ! m)" by (simp add: complex_ok_def)
    have "map snd (?F (cts_mips c ! m)) = map snd (filter (\<lambda>(r, v). l \<in> iv r) (ranges (cts_mips c ! m)))"
      by (simp add: case_prod_unfold)
    also have "\<dots> = (case lookup (cts_mips c ! m) l of None \<Rightarrow> [] | Some v \<Rightarrow> [v])"
      using mip sane_hits [of "ranges (cts_mips c ! m)" l] by (simp add: mip_ok_def sane_def lookup_def)
    also have "\<dots> = (if l < rend (sel_layers full) then [complex_at c m l] else [])"
    proof -
      have "lookup (cts_mips c ! m) l \<noteq> None \<longleftrightarrow> l < rend (sel_layers full)"
        using mip unfolding mip_ok_def by blast
      with True show ?thesis by (cases "lookup (cts_mips c ! m) l") (auto simp: complex_at_def)
    qed
    finally show ?thesis using h True assms by (simp add: full_ok_in_sel complex_ok_def)
  next
    case False
    with h assms show ?thesis by (simp add: full_ok_in_sel complex_ok_def)
  qed
qed

lemma complex_entries_within:
  assumes "full_ok full" "complex_ok full c" "(sel, st) \<in> set (to_selector_state_iter c)"
  shows "sel_within full sel"
proof -
  from assms(3) obtain k layers where k: "k < length (cts_mips c)" "sel = one_mip k layers"
    "(layers, st) \<in> set (ranges (cts_mips c ! k))"
    by (auto simp: to_selector_one_mip in_set_enumerate_eq)
  with assms(2) have mip: "mip_ok (rend (sel_layers full)) (cts_mips c ! k)" by (simp add: complex_ok_def)
  then have "sane_ranges (ranges (cts_mips c ! k))" by (simp add: mip_ok_def sane_def)
  with k(3) have ne: "rstart layers < rend layers" by (force simp: sane_ranges_def)
  have "rend layers - 1 \<in> iv layers" using ne by (simp add: word_less_nat_alt word_le_nat_alt unat_sub_if')
  then have "lookup (cts_mips c ! k) (rend layers - 1) = Some st"
    using lookup_member [OF _ k(3)] mip by (simp add: mip_ok_def sane_def lookup_def)
  then have "rend layers - 1 < rend (sel_layers full)" using mip by (metis mip_ok_def option.distinct(1))
  then have "rend layers \<le> rend (sel_layers full)"
    using ne by (simp add: word_less_nat_alt word_le_nat_alt unat_sub_if' split: if_splits)
  moreover have "k < MAX_MIP_LEVELS" using complex_ok_short [OF assms(1,2)] k(1) by simp
  then have "unat (of_nat k :: u32) = k" "unat (of_nat k + 1 :: u32) = Suc k"
    by (auto simp: MAX_MIP_LEVELS_def unat_of_nat unat_word_ariths)
  ultimately show ?thesis
    using k(1,2) ne assms(2)
    by (simp add: sel_within_def sel_nonempty_def one_mip_def complex_ok_def word_less_nat_alt word_le_nat_alt)
qed

section \<open>Entries of a state set\<close>

definition clean :: "texture_uses \<Rightarrow> bool" where
  "clean st \<longleftrightarrow> \<not> invalid_texture_use st \<and> st \<noteq> tx_complex \<and> st \<noteq> tx_unknown"

definition state_at :: "texture_state_set \<Rightarrow> nat \<Rightarrow> nat \<Rightarrow> u32 \<Rightarrow> texture_uses" where
  "state_at s i m l =
     (if tss_simple s ! i = tx_complex then complex_at (the (tss_complex s i)) m l else tss_simple s ! i)"

definition entry_ok :: "texture_selector \<Rightarrow> texture_state_set \<Rightarrow> nat \<Rightarrow> bool" where
  "entry_ok full s i \<longleftrightarrow> i < length (tss_simple s)
     \<and> (if tss_simple s ! i = tx_complex then
          (case tss_complex s i of
             None \<Rightarrow> False
           | Some c \<Rightarrow> complex_ok full c \<and> (\<forall>m l. in_sel full m l \<longrightarrow> \<not> invalid_texture_use (complex_at c m l)))
        else clean (tss_simple s ! i))"

lemma entry_ok_cases:
  assumes "entry_ok full s i"
  obtains (single) st where "set_get i s = Some (Single st)" "tss_simple s ! i = st" "clean st"
      "state_at s i = (\<lambda>_ _. st)"
  | (many) c where "set_get i s = Some (Many c)" "tss_simple s ! i = tx_complex" "tss_complex s i = Some c"
      "complex_ok full c" "\<And>m l. in_sel full m l \<Longrightarrow> \<not> invalid_texture_use (complex_at c m l)"
      "state_at s i = complex_at c"
proof (cases "tss_simple s ! i = tx_complex")
  case True
  with assms obtain c where "tss_complex s i = Some c" "complex_ok full c"
    "\<And>m l. in_sel full m l \<Longrightarrow> \<not> invalid_texture_use (complex_at c m l)" "i < length (tss_simple s)"
    by (auto simp: entry_ok_def split: option.splits)
  with True show thesis
    by (intro many [of c]) (auto simp: set_get_def vec_get_def state_at_def fun_eq_iff)
next
  case False
  with assms show thesis
    by (intro single [of "tss_simple s ! i"])
      (auto simp: set_get_def vec_get_def state_at_def entry_ok_def fun_eq_iff)
qed

definition new_ok ::
  "texture_selector \<Rightarrow> (texture_uses, (texture_selector \<times> texture_uses) list) single_or_many \<Rightarrow> bool" where
  "new_ok full ns = (case ns of Single st \<Rightarrow> clean st | Many many \<Rightarrow> many_ok full many)"

definition new_at ::
  "(texture_uses, (texture_selector \<times> texture_uses) list) single_or_many \<Rightarrow> nat \<Rightarrow> u32 \<Rightarrow> texture_uses" where
  "new_at ns m l = (case ns of Single st \<Rightarrow> st | Many many \<Rightarrow> many_at many m l)"

lemma sel_within_some: "sel_within full sel \<Longrightarrow> \<exists>m l. in_sel sel m l"
  by (rule exI [of _ "unat (rstart (sel_mips sel))"], rule exI [of _ "rstart (sel_layers sel)"])
    (simp add: sel_within_def sel_nonempty_def in_sel_def word_less_nat_alt)

lemma complex_many_ok:
  assumes "full_ok full" "complex_ok full c" "\<And>m l. in_sel full m l \<Longrightarrow> \<not> invalid_texture_use (complex_at c m l)"
  shows "many_ok full (to_selector_state_iter c)"
    and "in_sel full m l \<Longrightarrow> many_at (to_selector_state_iter c) m l = complex_at c m l"
proof -
  have len: "length (hits (to_selector_state_iter c) m l) \<le> 1" for m l
    using arg_cong [OF complex_hits [OF assms(1,2), of m l], of length] by (simp split: if_splits)
  have valid: "sel_within full sel \<and> \<not> invalid_texture_use st" if e: "(sel, st) \<in> set (to_selector_state_iter c)" for sel st
  proof -
    have w: "sel_within full sel" by (rule complex_entries_within [OF assms(1,2) e])
    then obtain m l where ml: "in_sel sel m l" using sel_within_some by blast
    then have full: "in_sel full m l" using in_sel_within [OF w assms(1)] by blast
    have "st \<in> snd ` set (hits (to_selector_state_iter c) m l)" using e ml by (force simp: hits_def)
    then have "st \<in> set (map snd (hits (to_selector_state_iter c) m l))" by simp
    with full have "st = complex_at c m l" unfolding complex_hits [OF assms(1,2)] by simp
    with w assms(3) [OF full] show ?thesis by simp
  qed
  show "many_ok full (to_selector_state_iter c)" using valid len by (auto simp: many_ok_def)
  show "in_sel full m l \<Longrightarrow> many_at (to_selector_state_iter c) m l = complex_at c m l"
    using complex_hits [OF assms(1,2), of m l]
    by (cases "hits (to_selector_state_iter c) m l") (auto simp: many_at_def)
qed

lemma get_selector:
  assumes "full_ok full" "sel_within full sel" "clean st"
  shows "\<exists>ns. get_texture_state (Selector sel st) (Some full) i = Some ns \<and> new_ok full ns
    \<and> (\<forall>m l. in_sel full m l \<longrightarrow> new_at ns m l = (if in_sel sel m l then st else tx_unknown))"
proof (cases "full = sel")
  case True
  then show ?thesis using assms by (auto simp: get_texture_state_def new_ok_def new_at_def)
next
  case False
  then show ?thesis using assms
    by (auto simp: get_texture_state_def new_ok_def new_at_def many_ok_def many_at_def hits_def clean_def)
qed

lemma get_set:
  assumes "full_ok full" "entry_ok full s i"
  shows "\<exists>ns. get_texture_state (TextureSet s) sel i = Some ns \<and> new_ok full ns
    \<and> (\<forall>m l. in_sel full m l \<longrightarrow> new_at ns m l = state_at s i m l)"
  using assms(2)
proof (cases rule: entry_ok_cases)
  case (single st)
  then show ?thesis by (auto simp: get_texture_state_def new_ok_def new_at_def)
next
  case (many c)
  with complex_many_ok [OF assms(1) many(4)] show ?thesis
    by (auto simp: get_texture_state_def new_ok_def new_at_def)
qed

section \<open>Inserting\<close>

lemma insert_one_spec:
  assumes "full_ok full" "new_ok full ns" "i < length (tss_simple s)"
  shows "\<exists>s'. insert_one i (Some full) ns s = Some s' \<and> entry_ok full s' i
    \<and> (\<forall>m l. in_sel full m l \<longrightarrow> state_at s' i m l = new_at ns m l)
    \<and> length (tss_simple s') = length (tss_simple s)
    \<and> (\<forall>j. j \<noteq> i \<longrightarrow> tss_simple s' ! j = tss_simple s ! j \<and> tss_complex s' j = tss_complex s j)"
proof (cases ns)
  case (Single st)
  with assms show ?thesis
    by (auto simp: insert_one_def new_ok_def clean_def insert_simple_def vec_set_def entry_ok_def
        state_at_def new_at_def)
next
  case (Many many)
  with assms(2) have many: "many_ok full many" by (simp add: new_ok_def)
  then have "\<forall>(sel, st) \<in> set many. sel_within full sel \<and> \<not> invalid_texture_use st"
    by (simp add: many_ok_def)
  from from_selector_spec [OF assms(1) this] obtain c where c: "from_selector_state_iter full many = Some c"
    "complex_ok full c" "complex_at c = override_many many (\<lambda>_ _. tx_unknown)" by blast
  have at: "complex_at c m l = many_at many m l" for m l
    using many unfolding c(3) by (intro override_many_unknown) (simp add: many_ok_def)
  have "\<not> invalid_texture_use (many_at many m l)" for m l
  proof (cases "hits many m l")
    case Nil
    then show ?thesis
      by (simp add: many_at_def invalid_resource_state_def any_exclusive_def intersects_def tx_exclusive_def
          tx_unknown_def tx_copy_dst_def tx_color_target_def tx_depth_stencil_write_def
          tx_storage_write_only_def tx_storage_read_write_def tx_storage_atomic_def tx_present_def)
  next
    case (Cons x xs)
    then have "x \<in> set (hits many m l)" by simp
    then have "x \<in> set many" by (simp add: hits_def)
    with many Cons show ?thesis by (auto simp: many_ok_def many_at_def)
  qed
  with c(1,2) at assms(3) Many show ?thesis
    by (auto simp: insert_one_def insert_complex_def vec_set_def entry_ok_def state_at_def new_at_def)
qed

section \<open>Barriers\<close>

text \<open>The transitions of a list that concern one subresource, as pairs of usages.\<close>

definition pairs_at :: "texture_transition list \<Rightarrow> nat \<Rightarrow> u32 \<Rightarrow> (texture_uses \<times> texture_uses) list" where
  "pairs_at ts m l = map (\<lambda>t. (pt_from t, pt_to t)) (filter (\<lambda>t. in_sel (pt_selector t) m l) ts)"

definition step_pairs :: "texture_uses \<Rightarrow> texture_uses \<Rightarrow> texture_uses \<Rightarrow> (texture_uses \<times> texture_uses) list" where
  "step_pairs om c n = (if c = tx_unknown \<or> n = tx_unknown \<or> skip_barrier c om n then [] else [(c, n)])"

text \<open>What holds of every transition that is handed to a backend.\<close>

definition transition_ok :: "nat \<Rightarrow> texture_selector \<Rightarrow> texture_transition \<Rightarrow> bool" where
  "transition_ok i full t \<longleftrightarrow> pt_id t = of_nat i \<and> sel_within full (pt_selector t)
     \<and> pt_from t \<noteq> tx_unknown \<and> pt_to t \<noteq> tx_unknown"

lemma pairs_at_append [simp]: "pairs_at (xs @ ys) m l = pairs_at xs m l @ pairs_at ys m l"
  by (simp add: pairs_at_def)

lemma pairs_at_Nil [simp]: "pairs_at [] m l = []"
  by (simp add: pairs_at_def)

lemma pairs_at_concat: "pairs_at (concat xss) m l = concat (map (\<lambda>xs. pairs_at xs m l) xss)"
  by (induction xss) simp_all

lemma pairs_transition:
  "pairs_at (texture_transition i om sel c n) m l
     = (if in_sel sel m l \<and> \<not> skip_barrier c om n then [(c, n)] else [])"
  by (simp add: pairs_at_def texture_transition_def)

lemma concat_hits:
  "concat (map (\<lambda>(sel, st). if in_sel sel m l then F st else []) many) = concat (map F (map snd (hits many m l)))"
  by (induction many) (auto simp: hits_def)

lemma concat_hits_at:
  assumes "length (hits many m l) \<le> 1" "F tx_unknown = []"
  shows "concat (map F (map snd (hits many m l))) = F (many_at many m l)"
  using assms by (cases "hits many m l") (auto simp: many_at_def)

lemma transitions_many:
  assumes "many_ok full many"
    and T: "\<And>st. st = tx_unknown \<Longrightarrow> T st = (tx_unknown, tx_unknown)"
    and ts: "ts = concat (map (\<lambda>(sel, st). if st = tx_unknown then []
        else texture_transition i om sel (fst (T st)) (snd (T st))) many)"
    and clean: "\<And>sel st. (sel, st) \<in> set many \<Longrightarrow> st \<noteq> tx_unknown \<Longrightarrow> fst (T st) \<noteq> tx_unknown \<and> snd (T st) \<noteq> tx_unknown"
  shows "pairs_at ts m l = (let (c, n) = T (many_at many m l) in step_pairs om c n)"
    and "\<forall>t \<in> set ts. transition_ok i full t"
proof -
  let ?F = "\<lambda>st. if st = tx_unknown \<or> skip_barrier (fst (T st)) om (snd (T st)) then [] else [T st]"
  have len: "length (hits many m l) \<le> 1" using assms(1) by (simp add: many_ok_def)
  have "pairs_at ts m l = concat (map (\<lambda>(sel, st). if in_sel sel m l then ?F st else []) many)"
    unfolding ts pairs_at_concat map_map
    by (intro arg_cong [of _ _ concat] map_cong refl) (auto simp: pairs_transition)
  also have "\<dots> = ?F (many_at many m l)"
    unfolding concat_hits by (rule concat_hits_at [OF len]) simp
  also have "\<dots> = (let (c, n) = T (many_at many m l) in step_pairs om c n)"
  proof (cases "hits many m l")
    case Nil
    then show ?thesis by (simp add: many_at_def T step_pairs_def)
  next
    case (Cons x xs)
    then have "x \<in> set (hits many m l)" by simp
    then have "x \<in> set many" by (simp add: hits_def)
    then have x: "(fst x, snd x) \<in> set many" by simp
    show ?thesis
    proof (cases "snd x = tx_unknown")
      case True
      with Cons show ?thesis by (simp add: many_at_def T step_pairs_def)
    next
      case False
      with clean [OF x] Cons show ?thesis
        by (simp add: many_at_def step_pairs_def case_prod_unfold)
    qed
  qed
  finally show "pairs_at ts m l = (let (c, n) = T (many_at many m l) in step_pairs om c n)" .
  show "\<forall>t \<in> set ts. transition_ok i full t"
    using clean assms(1) unfolding ts
    by (auto simp: transition_ok_def many_ok_def texture_transition_def split: if_splits)
qed

lemma concat_enumerate_map:
  "concat (map (\<lambda>(k, mip). concat (map (\<lambda>(layers, c). G (one_mip k layers) c) (ranges mip))) (enumerate n mips))
     = concat (map (\<lambda>(sel, c). G sel c)
         (concat (map (\<lambda>(k, mip). map (\<lambda>(layers, c). (one_mip k layers, c)) (ranges mip)) (enumerate n mips))))"
  by (induction mips arbitrary: n) (auto simp: comp_def case_prod_unfold)

lemma iter_filter_hits:
  fixes rs :: "(u32 range_t \<times> texture_uses) list"
  assumes "sane_ranges rs" "l \<in> iv layers \<Longrightarrow> lookup_ranges rs l \<noteq> None"
  shows "map snd (filter (\<lambda>(r, v). l \<in> iv r) (map (\<lambda>(inner, v). (Range (max (rstart inner) (rstart layers))
            (min (rend inner) (rend layers)), v))
          (filter (\<lambda>(inner, v). rstart layers < rend inner \<and> rstart inner < rend layers) rs)))
    = (if l \<in> iv layers then [the (lookup_ranges rs l)] else [])"
proof -
  have "map snd (filter (\<lambda>(r, v). l \<in> iv r) (map (\<lambda>(inner, v). (Range (max (rstart inner) (rstart layers))
            (min (rend inner) (rend layers)), v))
          (filter (\<lambda>(inner, v). rstart layers < rend inner \<and> rstart inner < rend layers) xs)))
    = (if l \<in> iv layers then map snd (filter (\<lambda>(r, v). l \<in> iv r) xs) else [])"
    for xs :: "(u32 range_t \<times> texture_uses) list"
    by (induction xs) (auto intro: less_le_trans le_less_trans)
  then show ?thesis using sane_hits [OF assms(1), of l] assms(2) by (auto split: option.splits)
qed

lemma barriers_mip_spec:
  assumes full: "full_ok full" and c: "complex_ok full c" and k: "k < length (cts_mips c)"
    and layers: "rstart layers < rend layers" "rend layers \<le> rend (sel_layers full)"
  obtains ts where "barriers_mip i om layers n c k = Some ts" "\<forall>t \<in> set ts. transition_ok i full t"
    "\<And>m l. pairs_at ts m l = (if m = k \<and> l \<in> iv layers then step_pairs om (complex_at c m l) n else [])"
proof -
  let ?mip = "cts_mips c ! k"
  let ?T = "\<lambda>(layers, current). if current = tx_unknown \<or> n = tx_unknown then []
         else texture_transition i om (one_mip k layers) current n"
  let ?ts = "concat (map ?T (iter_filter ?mip layers))"
  have short: "k < MAX_MIP_LEVELS" using complex_ok_short [OF full c] k by simp
  have mip: "mip_ok (rend (sel_layers full)) ?mip" using c k by (simp add: complex_ok_def)
  then have sane: "sane_ranges (ranges ?mip)" by (simp add: mip_ok_def sane_def)
  have some: "lookup_ranges (ranges ?mip) l \<noteq> None" if "l \<in> iv layers" for l
  proof -
    have "l < rend (sel_layers full)" using that layers(2) by (auto intro: less_le_trans)
    then show ?thesis using mip unfolding mip_ok_def lookup_def by blast
  qed
  have pairs: "pairs_at ?ts m l = (if m = k \<and> l \<in> iv layers then step_pairs om (complex_at c m l) n else [])" for m l
  proof -
    have "pairs_at (?T x) m l = (if k = m \<and> l \<in> iv (fst x) then step_pairs om (snd x) n else [])" for x
      using short by (cases x) (auto simp: pairs_transition step_pairs_def one_mip_sel simp del: mem_iv)
    then have "pairs_at ?ts m l = concat (map (\<lambda>x. if k = m \<and> l \<in> iv (fst x) then step_pairs om (snd x) n else [])
        (iter_filter ?mip layers))"
      by (simp add: pairs_at_concat comp_def)
    also have "\<dots> = (if k = m then concat (map (\<lambda>v. step_pairs om v n)
        (map snd (filter (\<lambda>(r, v). l \<in> iv r) (iter_filter ?mip layers)))) else [])"
    proof -
      have "concat (map (\<lambda>x. if k = m \<and> l \<in> iv (fst x) then step_pairs om (snd x) n else []) xs)
        = (if k = m then concat (map (\<lambda>v. step_pairs om v n) (map snd (filter (\<lambda>(r, v). l \<in> iv r) xs))) else [])"
        for xs by (induction xs) (auto simp del: mem_iv)
      then show ?thesis .
    qed
    also have "\<dots> = (if k = m \<and> l \<in> iv layers then step_pairs om (the (lookup ?mip l)) n else [])"
    proof -
      have eq: "map snd (filter (\<lambda>(r, v). l \<in> iv r) (iter_filter ?mip layers))
          = (if l \<in> iv layers then [the (lookup_ranges (ranges ?mip) l)] else [])"
        unfolding iter_filter_def by (rule iter_filter_hits [OF sane some])
      show ?thesis unfolding eq lookup_def by (simp del: mem_iv)
    qed
    also have "\<dots> = (if m = k \<and> l \<in> iv layers then step_pairs om (complex_at c m l) n else [])"
      using some [of l] k by (auto simp: complex_at_def lookup_def simp del: mem_iv)
    finally show ?thesis .
  qed
  have within: "sel_within full (one_mip k r)" if "rstart r < rend r" "rend r \<le> rend (sel_layers full)" for r
  proof -
    have "unat (of_nat k :: u32) = k" "unat (of_nat k + 1 :: u32) = Suc k"
      using short by (auto simp: MAX_MIP_LEVELS_def unat_of_nat unat_word_ariths)
    with that k c show ?thesis
      by (simp add: sel_within_def sel_nonempty_def one_mip_def complex_ok_def word_less_nat_alt word_le_nat_alt)
  qed
  have "transition_ok i full t" if "t \<in> set ?ts" for t
  proof -
    from that obtain inner v where e: "(inner, v) \<in> set (ranges ?mip)" "rstart layers < rend inner"
      "rstart inner < rend layers" "v \<noteq> tx_unknown" "n \<noteq> tx_unknown"
      "t \<in> set (texture_transition i om
          (one_mip k (Range (max (rstart inner) (rstart layers)) (min (rend inner) (rend layers)))) v n)"
      by (auto simp: iter_filter_def split: if_splits)
    moreover have "rstart inner < rend inner" using e(1) sane by (force simp: sane_ranges_def)
    ultimately show ?thesis
      using within [of "Range (max (rstart inner) (rstart layers)) (min (rend inner) (rend layers))"] layers
      by (auto simp: transition_ok_def texture_transition_def min_le_iff_disj split: if_splits)
  qed
  with pairs show thesis
    using k by (intro that [of ?ts]) (auto simp: barriers_mip_def vec_get_def)
qed

lemma barriers_sel_spec:
  assumes full: "full_ok full" and c: "complex_ok full c" and sel: "sel_within full sel"
  obtains ts where "map_option concat (those (map (barriers_mip i om (sel_layers sel) n c) (range_indices (sel_mips sel)))) = Some ts"
    "\<forall>t \<in> set ts. transition_ok i full t"
    "\<And>m l. pairs_at ts m l = (if in_sel sel m l then step_pairs om (complex_at c m l) n else [])"
proof -
  let ?ks = "range_indices (sel_mips sel)"
  have l: "rstart (sel_layers sel) < rend (sel_layers sel)" "rend (sel_layers sel) \<le> rend (sel_layers full)"
    using sel by (auto simp: sel_within_def sel_nonempty_def)
  have "distinct ks \<Longrightarrow> \<forall>k \<in> set ks. k < length (cts_mips c) \<Longrightarrow>
    \<exists>ts. map_option concat (those (map (barriers_mip i om (sel_layers sel) n c) ks)) = Some ts
      \<and> (\<forall>t \<in> set ts. transition_ok i full t)
      \<and> (\<forall>m l. pairs_at ts m l = (if m \<in> set ks \<and> l \<in> iv (sel_layers sel) then step_pairs om (complex_at c m l) n else []))"
    for ks
  proof (induction ks)
    case Nil
    then show ?case by simp
  next
    case (Cons k ks)
    then obtain ts where ts: "map_option concat (those (map (barriers_mip i om (sel_layers sel) n c) ks)) = Some ts"
      "\<forall>t \<in> set ts. transition_ok i full t"
      "\<forall>m l. pairs_at ts m l = (if m \<in> set ks \<and> l \<in> iv (sel_layers sel) then step_pairs om (complex_at c m l) n else [])"
      by auto
    obtain us where us: "barriers_mip i om (sel_layers sel) n c k = Some us" "\<forall>t \<in> set us. transition_ok i full t"
      "\<And>m l. pairs_at us m l = (if m = k \<and> l \<in> iv (sel_layers sel) then step_pairs om (complex_at c m l) n else [])"
      using barriers_mip_spec [OF full c _ l] Cons.prems(2) by (metis list.set_intros(1))
    have "map_option concat (those (map (barriers_mip i om (sel_layers sel) n c) (k # ks))) = Some (us @ ts)"
      using us(1) ts(1) by (cases "those (map (barriers_mip i om (sel_layers sel) n c) ks)") auto
    moreover have "\<forall>m l. pairs_at (us @ ts) m l
        = (if m \<in> set (k # ks) \<and> l \<in> iv (sel_layers sel) then step_pairs om (complex_at c m l) n else [])"
      using us(3) ts(3) Cons.prems(1) by (auto simp del: mem_iv)
    moreover have "\<forall>t \<in> set (us @ ts). transition_ok i full t" using us(2) ts(2) by auto
    ultimately show ?case by blast
  qed
  moreover have "distinct ?ks" "\<forall>k \<in> set ?ks. k < length (cts_mips c)"
    using sel c by (auto simp: range_indices_def sel_within_def complex_ok_def word_le_nat_alt)
  ultimately obtain ts where "map_option concat (those (map (barriers_mip i om (sel_layers sel) n c) ?ks)) = Some ts"
    "\<forall>t \<in> set ts. transition_ok i full t"
    "\<forall>m l. pairs_at ts m l = (if m \<in> set ?ks \<and> l \<in> iv (sel_layers sel) then step_pairs om (complex_at c m l) n else [])"
    by blast
  then show thesis by (intro that [of ts]) (auto simp: in_sel_def range_indices_def)
qed

lemma barriers_many_spec:
  assumes full: "full_ok full" and c: "complex_ok full c" and many: "many_ok full many"
  obtains ts where "map_option concat (those (map (\<lambda>(selector, new_state).
                map_option concat (those (map
                  (barriers_mip i om (sel_layers selector) new_state c)
                  (range_indices (sel_mips selector))))) many)) = Some ts"
    "\<forall>t \<in> set ts. transition_ok i full t"
    "\<And>m l. pairs_at ts m l = step_pairs om (complex_at c m l) (many_at many m l)"
proof -
  let ?f = "\<lambda>(selector, new_state). map_option concat (those (map
                  (barriers_mip i om (sel_layers selector) new_state c) (range_indices (sel_mips selector))))"
  have "\<forall>(sel, st) \<in> set xs. sel_within full sel \<Longrightarrow>
    \<exists>ts. map_option concat (those (map ?f xs)) = Some ts \<and> (\<forall>t \<in> set ts. transition_ok i full t)
      \<and> (\<forall>m l. pairs_at ts m l = concat (map (\<lambda>st. step_pairs om (complex_at c m l) st) (map snd (hits xs m l))))"
    for xs
  proof (induction xs)
    case Nil
    then show ?case by (simp add: hits_def)
  next
    case (Cons x xs)
    obtain sel st where x: "x = (sel, st)" by (cases x)
    from Cons obtain ts where ts: "map_option concat (those (map ?f xs)) = Some ts"
      "\<forall>t \<in> set ts. transition_ok i full t"
      "\<forall>m l. pairs_at ts m l = concat (map (\<lambda>st. step_pairs om (complex_at c m l) st) (map snd (hits xs m l)))"
      by auto
    have "sel_within full sel" using Cons.prems x by simp
    from barriers_sel_spec [OF full c this, of i om st] obtain us where us:
      "map_option concat (those (map (barriers_mip i om (sel_layers sel) st c) (range_indices (sel_mips sel)))) = Some us"
      "\<forall>t \<in> set us. transition_ok i full t"
      "\<And>m l. pairs_at us m l = (if in_sel sel m l then step_pairs om (complex_at c m l) st else [])" by blast
    have "?f x = Some us" using us(1) by (simp add: x)
    then have "map_option concat (those (map ?f (x # xs))) = Some (us @ ts)"
      using ts(1) by (cases "those (map ?f xs)") auto
    moreover have "\<forall>t \<in> set (us @ ts). transition_ok i full t" using us(2) ts(2) by auto
    moreover have "pairs_at (us @ ts) m l
        = concat (map (\<lambda>st. step_pairs om (complex_at c m l) st) (map snd (hits (x # xs) m l)))" for m l
      using us(3) ts(3) by (simp add: x hits_Cons)
    ultimately show ?case by blast
  qed
  moreover have "\<forall>(sel, st) \<in> set many. sel_within full sel" using many by (auto simp: many_ok_def)
  ultimately obtain ts where ts: "map_option concat (those (map ?f many)) = Some ts"
    "\<forall>t \<in> set ts. transition_ok i full t"
    "\<forall>m l. pairs_at ts m l = concat (map (\<lambda>st. step_pairs om (complex_at c m l) st) (map snd (hits many m l)))"
    by blast
  have "pairs_at ts m l = step_pairs om (complex_at c m l) (many_at many m l)" for m l
    unfolding ts(3) [rule_format]
    using many by (intro concat_hits_at) (auto simp: many_ok_def step_pairs_def)
  with ts(1,2) show thesis using that by blast
qed

text \<open>What \<open>barrier\<close> does: for every subresource the one transition that is due, or none.\<close>

lemma barrier_texture_spec:
  assumes full: "full_ok full" and s: "entry_ok full s i"
    and p: "get_texture_state sp (Some full) i = Some ns" "new_ok full ns"
  obtains ts where "barrier_texture full s i sp bs om = Some (bs @ ts)" "\<forall>t \<in> set ts. transition_ok i full t"
    "\<And>m l. in_sel full m l \<Longrightarrow> pairs_at ts m l = step_pairs om (state_at s i m l) (new_at ns m l)"
proof -
  have wf: "sel_within full full" using full by (simp add: full_ok_def sel_within_def)
  show thesis
    using s
  proof (cases rule: entry_ok_cases)
    case (single cur)
    show thesis
    proof (cases ns)
      case (Single new)
      then have "cur \<noteq> tx_unknown" "new \<noteq> tx_unknown" using single p(2) by (auto simp: new_ok_def clean_def)
      then have "pairs_at (texture_transition i om full cur new) m l = step_pairs om cur new"
        if "in_sel full m l" for m l using that by (simp add: pairs_transition step_pairs_def)
      moreover have "\<forall>t \<in> set (texture_transition i om full cur new). transition_ok i full t"
        using wf \<open>cur \<noteq> tx_unknown\<close> \<open>new \<noteq> tx_unknown\<close>
        by (simp add: texture_transition_def transition_ok_def)
      ultimately show thesis using single(1,4) p(1) Single
        by (intro that [of "texture_transition i om full cur new"])
          (simp_all add: barrier_texture_def new_at_def)
    next
      case (Many many)
      then have m: "many_ok full many" using p(2) by (simp add: new_ok_def)
      let ?ts = "concat (map (\<lambda>(sel, st). if st = tx_unknown then [] else texture_transition i om sel cur st) many)"
      let ?T = "\<lambda>st. if st = tx_unknown then (tx_unknown, tx_unknown) else (cur, st)"
      have cur: "cur \<noteq> tx_unknown" using single by (simp add: clean_def)
      have ts: "?ts = concat (map (\<lambda>(sel, st). if st = tx_unknown then []
          else texture_transition i om sel (fst (?T st)) (snd (?T st))) many)"
        by (intro arg_cong [of _ _ concat] map_cong refl) auto
      note t = transitions_many [OF m _ ts]
      have "\<forall>t \<in> set ?ts. transition_ok i full t" by (rule t(2)) (use cur in auto)
      moreover have "pairs_at ?ts a b = step_pairs om cur (many_at many a b)" for a b
      proof -
        have "pairs_at ?ts a b = (let (c, n) = ?T (many_at many a b) in step_pairs om c n)"
          by (rule t(1)) (use cur in auto)
        then show ?thesis by (simp add: step_pairs_def split: if_splits)
      qed
      ultimately show thesis using single p(1) Many
        by (intro that [of ?ts]) (simp_all add: barrier_texture_def new_at_def)
    qed
  next
    case (many c)
    show thesis
    proof (cases ns)
      case (Single new)
      then have new: "new \<noteq> tx_unknown" using p(2) by (simp add: new_ok_def clean_def)
      let ?m = "to_selector_state_iter c"
      have m: "many_ok full ?m" "\<And>a b. in_sel full a b \<Longrightarrow> many_at ?m a b = complex_at c a b"
        using complex_many_ok [OF full many(4,5)] by auto
      let ?T = "\<lambda>st. if st = tx_unknown then (tx_unknown, tx_unknown) else (st, new)"
      define ts where "ts = concat (map (\<lambda>(mip_id, mip).
                  concat (map (\<lambda>(layers, current).
                      if current = tx_unknown then []
                      else texture_transition i om (one_mip mip_id layers) current new)
                    (ranges mip))) (enumerate 0 (cts_mips c)))"
      have ts: "ts = concat (map (\<lambda>(sel, st). if st = tx_unknown then []
          else texture_transition i om sel (fst (?T st)) (snd (?T st))) ?m)"
        unfolding ts_def to_selector_one_mip
          concat_enumerate_map [of "\<lambda>sel current. if current = tx_unknown then []
                      else texture_transition i om sel current new"]
        by (intro arg_cong [of _ _ concat] map_cong refl) auto
      note t = transitions_many [OF m(1) _ ts]
      have "\<forall>t \<in> set ts. transition_ok i full t" by (rule t(2)) (use new in auto)
      moreover have "pairs_at ts a b = step_pairs om (complex_at c a b) new" if "in_sel full a b" for a b
      proof -
        have "pairs_at ts a b = (let (c, n) = ?T (many_at ?m a b) in step_pairs om c n)"
          by (rule t(1)) (use new in auto)
        then show ?thesis using m(2) [OF that] by (simp add: step_pairs_def split: if_splits)
      qed
      ultimately show thesis using many p(1) Single
        by (intro that [of ts]) (simp_all add: barrier_texture_def new_at_def ts_def)
    next
      case (Many xs)
      then have m: "many_ok full xs" using p(2) by (simp add: new_ok_def)
      from barriers_many_spec [OF full many(4) m, of i om] obtain ts where ts:
        "map_option concat (those (map (\<lambda>(selector, new_state).
                map_option concat (those (map
                  (barriers_mip i om (sel_layers selector) new_state c)
                  (range_indices (sel_mips selector))))) xs)) = Some ts"
        "\<forall>t \<in> set ts. transition_ok i full t"
        "\<And>m l. pairs_at ts m l = step_pairs om (complex_at c m l) (many_at xs m l)" by blast
      have "barrier_texture full s i sp bs om = Some (bs @ ts)"
        by (simp only: barrier_texture_def many(1) p(1) Many Option.bind.simps single_or_many.case ts(1))
      with ts(2,3) many(6) Many show thesis by (intro that [of ts]) (simp_all add: new_at_def)
    qed
  qed
qed

end
