(* ===== verification/Conv.thy ===== *)
theory Conv
  imports Limits BufferTracker TextureStates
begin

unbundle bit_operations_syntax

text \<open>
  The vocabulary of \<open>wgpu-hal\<close> that the validation code computes with (format aspects, format
  capabilities, the regions of copies), and the conversions of \<open>wgpu-core/src/conv.rs\<close> from the
  usages of the API to the usages of the backend.
\<close>

section \<open>Format aspects\<close>

type_synonym format_aspects = u8

definition fa_color :: format_aspects where "fa_color = push_bit 0 1"
definition fa_depth :: format_aspects where "fa_depth = push_bit 1 1"
definition fa_stencil :: format_aspects where "fa_stencil = push_bit 2 1"
definition fa_plane_0 :: format_aspects where "fa_plane_0 = push_bit 3 1"
definition fa_plane_1 :: format_aspects where "fa_plane_1 = push_bit 4 1"
definition fa_plane_2 :: format_aspects where "fa_plane_2 = push_bit 5 1"
definition fa_depth_stencil :: format_aspects where "fa_depth_stencil = fa_depth OR fa_stencil"

definition fa_all :: format_aspects where
  "fa_all = fa_color OR fa_depth OR fa_stencil OR fa_plane_0 OR fa_plane_1 OR fa_plane_2"

lemmas fa_bits = fa_color_def fa_depth_def fa_stencil_def fa_plane_0_def fa_plane_1_def
  fa_plane_2_def fa_depth_stencil_def fa_all_def

definition format_aspects_from :: "texture_format \<Rightarrow> format_aspects" where
  "format_aspects_from f =
    (case f of
       Stencil8 \<Rightarrow> fa_stencil
     | Depth16Unorm \<Rightarrow> fa_depth | Depth32Float \<Rightarrow> fa_depth | Depth24Plus \<Rightarrow> fa_depth
     | Depth32FloatStencil8 \<Rightarrow> fa_depth_stencil | Depth24PlusStencil8 \<Rightarrow> fa_depth_stencil
     | NV12 \<Rightarrow> fa_plane_0 OR fa_plane_1 | P010 \<Rightarrow> fa_plane_0 OR fa_plane_1
     | _ \<Rightarrow> fa_color)"

definition format_aspects_new :: "texture_format \<Rightarrow> texture_aspect \<Rightarrow> format_aspects" where
  "format_aspects_new f aspect =
    (let aspect_mask =
       (case aspect of AspectAll \<Rightarrow> fa_all | DepthOnly \<Rightarrow> fa_depth | StencilOnly \<Rightarrow> fa_stencil
        | Plane0 \<Rightarrow> fa_plane_0 | Plane1 \<Rightarrow> fa_plane_1 | Plane2 \<Rightarrow> fa_plane_2)
     in format_aspects_from f AND aspect_mask)"

definition fa_is_one :: "format_aspects \<Rightarrow> bool" where
  "fa_is_one a = is_power_of_two a"

text \<open>\<open>None\<close> is the \<open>unreachable!\<close> of the source.\<close>

definition fa_map :: "format_aspects \<Rightarrow> texture_aspect option" where
  "fa_map a =
    (if a = fa_color then Some AspectAll else if a = fa_depth then Some DepthOnly
     else if a = fa_stencil then Some StencilOnly else if a = fa_plane_0 then Some Plane0
     else if a = fa_plane_1 then Some Plane1 else if a = fa_plane_2 then Some Plane2 else None)"

section \<open>Regions of copies\<close>

record texture_copy_base =
  tcb_mip_level :: u32
  tcb_array_layer :: u32
  tcb_origin :: origin3d
  tcb_aspect :: format_aspects

record copy_extent =
  ce_width :: u32
  ce_height :: u32
  ce_depth :: u32

definition copy_extent_from :: "extent3d \<Rightarrow> copy_extent" where
  "copy_extent_from e =
    \<lparr>ce_width = ext_width e, ce_height = ext_height e, ce_depth = depth_or_array_layers e\<rparr>"

definition extent_from_copy :: "copy_extent \<Rightarrow> extent3d" where
  "extent_from_copy e =
    \<lparr>ext_width = ce_width e, ext_height = ce_height e, depth_or_array_layers = ce_depth e\<rparr>"

section \<open>Format capabilities\<close>

type_synonym format_capabilities = u32

definition tfc_sampled :: format_capabilities where "tfc_sampled = push_bit 0 1"
definition tfc_sampled_linear :: format_capabilities where "tfc_sampled_linear = push_bit 1 1"
definition tfc_storage_read_only :: format_capabilities where "tfc_storage_read_only = push_bit 3 1"
definition tfc_storage_write_only :: format_capabilities where "tfc_storage_write_only = push_bit 4 1"
definition tfc_storage_read_write :: format_capabilities where "tfc_storage_read_write = push_bit 5 1"
definition tfc_storage_atomic :: format_capabilities where "tfc_storage_atomic = push_bit 6 1"
definition tfc_color_attachment :: format_capabilities where "tfc_color_attachment = push_bit 7 1"
definition tfc_color_attachment_blend :: format_capabilities where "tfc_color_attachment_blend = push_bit 8 1"
definition tfc_depth_stencil_attachment :: format_capabilities where "tfc_depth_stencil_attachment = push_bit 9 1"
definition tfc_multisample_x2 :: format_capabilities where "tfc_multisample_x2 = push_bit 10 1"
definition tfc_multisample_x4 :: format_capabilities where "tfc_multisample_x4 = push_bit 11 1"
definition tfc_multisample_x8 :: format_capabilities where "tfc_multisample_x8 = push_bit 12 1"
definition tfc_multisample_x16 :: format_capabilities where "tfc_multisample_x16 = push_bit 13 1"
definition tfc_multisample_resolve :: format_capabilities where "tfc_multisample_resolve = push_bit 14 1"
definition tfc_copy_src :: format_capabilities where "tfc_copy_src = push_bit 15 1"
definition tfc_copy_dst :: format_capabilities where "tfc_copy_dst = push_bit 16 1"

text \<open>
  \<open>Adapter::get_texture_format_features\<close>; the capabilities are what the backend reports.
\<close>

definition get_texture_format_features :: "format_capabilities \<Rightarrow> texture_format_features" where
  "get_texture_format_features caps =
    (let u = set_flag 0 tu_copy_src (contains caps tfc_copy_src);
         u = set_flag u tu_copy_dst (contains caps tfc_copy_dst);
         u = set_flag u tu_texture_binding (contains caps tfc_sampled);
         u = set_flag u tu_storage_binding
               (intersects caps (tfc_storage_write_only OR tfc_storage_read_only
                  OR tfc_storage_read_write OR tfc_storage_atomic));
         u = set_flag u (tu_render_attachment OR tu_transient)
               (intersects caps (tfc_color_attachment OR tfc_depth_stencil_attachment));
         u = set_flag u tu_storage_atomic (contains caps tfc_storage_atomic);
         f = set_flag 0 ff_storage_read_only (contains caps tfc_storage_read_only);
         f = set_flag f ff_storage_write_only (contains caps tfc_storage_write_only);
         f = set_flag f ff_storage_read_write (contains caps tfc_storage_read_write);
         f = set_flag f ff_storage_atomic (contains caps tfc_storage_atomic);
         f = set_flag f ff_filterable (contains caps tfc_sampled_linear);
         f = set_flag f ff_blendable (contains caps tfc_color_attachment_blend);
         f = set_flag f ff_multisample_x2 (contains caps tfc_multisample_x2);
         f = set_flag f ff_multisample_x4 (contains caps tfc_multisample_x4);
         f = set_flag f ff_multisample_x8 (contains caps tfc_multisample_x8);
         f = set_flag f ff_multisample_x16 (contains caps tfc_multisample_x16);
         f = set_flag f ff_multisample_resolve (contains caps tfc_multisample_resolve)
     in \<lparr>allowed_usages = u, format_flags = f\<rparr>)"

section \<open>Usages\<close>

type_synonym buffer_usages = u32

definition bus_map_read :: buffer_usages where "bus_map_read = push_bit 0 1"
definition bus_map_write :: buffer_usages where "bus_map_write = push_bit 1 1"
definition bus_copy_src :: buffer_usages where "bus_copy_src = push_bit 2 1"
definition bus_copy_dst :: buffer_usages where "bus_copy_dst = push_bit 3 1"
definition bus_index :: buffer_usages where "bus_index = push_bit 4 1"
definition bus_vertex :: buffer_usages where "bus_vertex = push_bit 5 1"
definition bus_uniform :: buffer_usages where "bus_uniform = push_bit 6 1"
definition bus_storage :: buffer_usages where "bus_storage = push_bit 7 1"
definition bus_indirect :: buffer_usages where "bus_indirect = push_bit 8 1"
definition bus_query_resolve :: buffer_usages where "bus_query_resolve = push_bit 9 1"
definition bus_blas_input :: buffer_usages where "bus_blas_input = push_bit 10 1"
definition bus_tlas_input :: buffer_usages where "bus_tlas_input = push_bit 11 1"

definition bus_all :: buffer_usages where
  "bus_all = bus_map_read OR bus_map_write OR bus_copy_src OR bus_copy_dst OR bus_index
     OR bus_vertex OR bus_uniform OR bus_storage OR bus_indirect OR bus_query_resolve
     OR bus_blas_input OR bus_tlas_input"

lemmas bus_bits = bus_map_read_def bus_map_write_def bus_copy_src_def bus_copy_dst_def
  bus_index_def bus_vertex_def bus_uniform_def bus_storage_def bus_indirect_def
  bus_query_resolve_def bus_blas_input_def bus_tlas_input_def bus_all_def

definition bu_map_read :: buffer_uses where "bu_map_read = push_bit 0 1"
definition bu_index :: buffer_uses where "bu_index = push_bit 4 1"
definition bu_vertex :: buffer_uses where "bu_vertex = push_bit 5 1"
definition bu_uniform :: buffer_uses where "bu_uniform = push_bit 6 1"
definition bu_storage_read_only :: buffer_uses where "bu_storage_read_only = push_bit 7 1"
definition bu_indirect :: buffer_uses where "bu_indirect = push_bit 9 1"
definition bu_query_resolve :: buffer_uses where "bu_query_resolve = push_bit 10 1"
definition bu_blas_input :: buffer_uses where "bu_blas_input = push_bit 12 1"
definition bu_tlas_input :: buffer_uses where "bu_tlas_input = push_bit 13 1"

definition map_buffer_usage :: "buffer_usages \<Rightarrow> buffer_uses" where
  "map_buffer_usage usage =
    (let u = set_flag 0 bu_map_read (contains usage bus_map_read);
         u = set_flag u bu_map_write (contains usage bus_map_write);
         u = set_flag u bu_copy_src (contains usage bus_copy_src);
         u = set_flag u bu_copy_dst (contains usage bus_copy_dst);
         u = set_flag u bu_index (contains usage bus_index);
         u = set_flag u bu_vertex (contains usage bus_vertex);
         u = set_flag u bu_uniform (contains usage bus_uniform);
         u = set_flag u (bu_storage_read_only OR bu_storage_read_write) (contains usage bus_storage);
         u = set_flag u bu_indirect (contains usage bus_indirect);
         u = set_flag u bu_query_resolve (contains usage bus_query_resolve);
         u = set_flag u bu_blas_input (contains usage bus_blas_input)
     in set_flag u bu_tlas_input (contains usage bus_tlas_input))"

definition tx_depth_stencil_read :: texture_uses where "tx_depth_stencil_read = push_bit 6 1"
definition tx_transient :: texture_uses where "tx_transient = push_bit 12 1"

definition tx_all :: texture_uses where
  "tx_all = tx_uninitialized OR tx_present OR tx_copy_src OR tx_copy_dst OR tx_resource
     OR tx_color_target OR tx_depth_stencil_read OR tx_depth_stencil_write OR tx_storage_read_only
     OR tx_storage_write_only OR tx_storage_read_write OR tx_storage_atomic OR tx_transient
     OR tx_complex OR tx_unknown"

definition tu_all :: texture_usages where
  "tu_all = tu_copy_src OR tu_copy_dst OR tu_texture_binding OR tu_storage_binding
     OR tu_render_attachment OR tu_storage_atomic OR tu_transient"

lemmas tx_bits = tx_uninitialized_def tx_present_def tx_copy_src_def tx_copy_dst_def
  tx_resource_def tx_color_target_def tx_depth_stencil_read_def tx_depth_stencil_write_def
  tx_storage_read_only_def tx_storage_write_only_def tx_storage_read_write_def
  tx_storage_atomic_def tx_transient_def tx_complex_def tx_unknown_def tx_all_def

lemmas tu_bits = tu_copy_src_def tu_copy_dst_def tu_texture_binding_def tu_storage_binding_def
  tu_render_attachment_def tu_storage_atomic_def tu_transient_def tu_all_def

definition map_texture_usage ::
  "texture_usages \<Rightarrow> format_aspects \<Rightarrow> format_flags \<Rightarrow> texture_uses" where
  "map_texture_usage usage aspect flags =
    (let u = set_flag 0 tx_copy_src (contains usage tu_copy_src);
         u = set_flag u tx_copy_dst (contains usage tu_copy_dst);
         u = set_flag u tx_resource (contains usage tu_texture_binding);
         u = (if contains usage tu_storage_binding then
                let v = set_flag u tx_storage_read_only (contains flags ff_storage_read_only);
                    v = set_flag v tx_storage_write_only (contains flags ff_storage_write_only)
                in set_flag v tx_storage_read_write (contains flags ff_storage_read_write)
              else u);
         is_color = intersects aspect (fa_color OR fa_plane_0 OR fa_plane_1 OR fa_plane_2);
         u = set_flag u tx_color_target (contains usage tu_render_attachment \<and> is_color);
         u = set_flag u (tx_depth_stencil_read OR tx_depth_stencil_write)
               (contains usage tu_render_attachment \<and> \<not> is_color);
         u = set_flag u tx_storage_atomic (contains usage tu_storage_atomic)
     in set_flag u tx_transient (contains usage tu_transient))"

definition map_texture_usage_for_texture ::
  "texture_descriptor \<Rightarrow> texture_format_features \<Rightarrow> texture_uses" where
  "map_texture_usage_for_texture desc ff =
    (map_texture_usage (td_usage desc) (format_aspects_from (td_format desc)) (format_flags ff))
    OR (if is_depth_stencil_format (td_format desc) then tx_depth_stencil_write
        else if contains (td_usage desc) tu_copy_dst then tx_copy_dst
        else if contains (allowed_usages ff) tu_render_attachment \<and> td_dimension desc = D2
          then tx_color_target
        else tx_copy_dst)"

definition map_texture_usage_from_hal :: "texture_uses \<Rightarrow> texture_usages" where
  "map_texture_usage_from_hal uses =
    (let u = set_flag 0 tu_copy_src (contains uses tx_copy_src);
         u = set_flag u tu_copy_dst (contains uses tx_copy_dst);
         u = set_flag u tu_texture_binding (contains uses tx_resource);
         u = set_flag u tu_storage_binding
               (intersects uses (tx_storage_read_only OR tx_storage_write_only OR tx_storage_read_write));
         u = set_flag u tu_render_attachment (contains uses tx_color_target);
         u = set_flag u tu_storage_atomic (contains uses tx_storage_atomic)
     in set_flag u tu_transient (contains uses tx_transient))"

definition is_valid_external_image_copy_dst_texture_format :: "texture_format \<Rightarrow> bool" where
  "is_valid_external_image_copy_dst_texture_format f \<longleftrightarrow>
     f \<in> {R8Unorm, R16Float, R32Float, Rg8Unorm, Rg16Float, Rg32Float, Rgba8Unorm, Rgba8UnormSrgb,
          Bgra8Unorm, Bgra8UnormSrgb, Rgb10a2Unorm, Rgba16Float, Rgba32Float}"

section \<open>Texture dimensions\<close>

datatype texture_error_dimension = DimX | DimY | DimZ

datatype texture_dimension_error =
  DimZero texture_error_dimension
| DimLimitExceeded texture_error_dimension u32 u32
| DimInvalidSampleCount u32
| NotMultipleOfBlockWidth u32 u32 texture_format
| NotMultipleOfBlockHeight u32 u32 texture_format
| WidthNotMultipleOf u32 u32 texture_format
| HeightNotMultipleOf u32 u32 texture_format
| MultisampledDepthOrArrayLayer u32

fun check_dimensions ::
  "(texture_error_dimension \<times> u32 \<times> u32) list \<Rightarrow> texture_dimension_error + unit" where
  "check_dimensions [] = Inr ()"
| "check_dimensions ((dim, given, limit) # ds) =
     (if given = 0 then Inl (DimZero dim)
      else if given > limit then Inl (DimLimitExceeded dim given limit)
      else check_dimensions ds)"

definition check_texture_dimension_size ::
  "texture_dimension \<Rightarrow> extent3d \<Rightarrow> u32 \<Rightarrow> limits \<Rightarrow> texture_dimension_error + unit" where
  "check_texture_dimension_size dim e sample_size lim =
    (let (lx, ly, lz, sample_limit) =
       (case dim of
          D1 \<Rightarrow> (max_texture_dimension_1d lim, 1, 1, 1)
        | D2 \<Rightarrow> (max_texture_dimension_2d lim, max_texture_dimension_2d lim,
                 max_texture_array_layers lim, 32)
        | D3 \<Rightarrow> (max_texture_dimension_3d lim, max_texture_dimension_3d lim,
                 max_texture_dimension_3d lim, 1))
     in and_then
          (check_dimensions [(DimX, ext_width e, lx), (DimY, ext_height e, ly),
                             (DimZ, depth_or_array_layers e, lz)])
          (\<lambda>_. if sample_size = 0 \<or> sample_size > sample_limit \<or> \<not> is_power_of_two sample_size
               then Inl (DimInvalidSampleCount sample_size) else Inr ()))"

end
