(* ===== verification/InitTracker.thy ===== *)
theory InitTracker
  imports Wgpu_Prelude
begin

text \<open>
  Lazy zero-initialisation of memory: the tracker of the uninitialised ranges of one linear
  resource (\<open>wgpu-core/src/init_tracker/mod.rs\<close>), the buffer actions over it
  (\<open>init_tracker/buffer.rs\<close>) and the texture tracker, one linear tracker of array layers per
  mip level (\<open>init_tracker/texture.rs\<close>).

  The abstract value of a tracker is the set \<open>uninit\<close> of its uninitialised indices. The
  invariant \<open>tracker_wf\<close> is the comment on \<open>uninitialized_ranges\<close>: the ranges do not
  overlap and are sorted. The contract shown is: \<open>check\<close> reports a range between the
  uninitialised part of the query and the query, \<open>drain\<close> yields exactly the uninitialised
  part and removes the query from the set, and \<open>discard\<close> adds one index.
\<close>

section \<open>The linear tracker\<close>

datatype memory_init_kind = ImplicitlyInitialized | NeedsInitializedMemory

record 'i init_tracker =
  uninitialized_ranges :: "'i range_t list"

text \<open>The two iterators: a query that reads, and one that also updates the tracker.\<close>

record 'i uninitialized_iter =
  ui_ranges :: "'i range_t list"
  ui_drain_range :: "'i range_t"
  ui_next_index :: nat

record 'i init_tracker_drain =
  dr_ranges :: "'i range_t list"
  dr_drain_range :: "'i range_t"
  dr_first_index :: nat
  dr_next_index :: nat

definition uninitialized_iter_next ::
  "'i::linorder uninitialized_iter \<Rightarrow> 'i range_t option \<times> 'i uninitialized_iter" where
  "uninitialized_iter_next s =
     (case vec_get (ui_ranges s) (ui_next_index s) of
        None \<Rightarrow> (None, s)
      | Some rg \<Rightarrow>
          if rstart rg < rend (ui_drain_range s) then
            (Some (Range (max (rstart rg) (rstart (ui_drain_range s)))
                         (min (rend rg) (rend (ui_drain_range s)))),
             s\<lparr>ui_next_index := ui_next_index s + 1\<rparr>)
          else (None, s))"

text \<open>
  What \<open>next\<close> of \<open>InitTrackerDrain\<close> does to the vector once no further range starts
  before the end of the query: split one enclosing range, or trim the border ranges and
  remove everything between them.
\<close>

definition drain_finish :: "'i::linorder range_t list \<Rightarrow> 'i range_t \<Rightarrow> nat \<Rightarrow> nat \<Rightarrow> 'i range_t list" where
  "drain_finish rs dr first next =
     (let first_range = rs ! first in
      if next - first = 1 \<and> rstart first_range < rstart dr \<and> rend dr < rend first_range then
        vec_insert first (Range (rstart first_range) (rstart dr))
          (rs[first := Range (rend dr) (rend first_range)])
      else
        let (remove_start, rs1) =
              (if rstart dr \<le> rstart first_range then (first, rs)
               else (first + 1, rs[first := Range (rstart first_range) (rstart dr)]));
            last_range = rs1 ! (next - 1);
            (remove_end, rs2) =
              (if rend last_range \<le> rend dr then (next, rs1)
               else (next - 1, rs1[next - 1 := Range (rend dr) (rend last_range)]))
        in vec_drain remove_start remove_end rs2)"

definition drain_next ::
  "'i::linorder init_tracker_drain \<Rightarrow> 'i range_t option \<times> 'i init_tracker_drain" where
  "drain_next s =
     (case (case vec_get (dr_ranges s) (dr_next_index s) of
              None \<Rightarrow> None
            | Some rg \<Rightarrow> if rstart rg < rend (dr_drain_range s) then Some rg else None) of
        Some r \<Rightarrow>
          (Some (Range (max (rstart r) (rstart (dr_drain_range s)))
                       (min (rend r) (rend (dr_drain_range s)))),
           s\<lparr>dr_next_index := dr_next_index s + 1\<rparr>)
      | None \<Rightarrow>
          if dr_next_index s - dr_first_index s = 0 then (None, s)
          else (None, s\<lparr>dr_ranges :=
                  drain_finish (dr_ranges s) (dr_drain_range s) (dr_first_index s) (dr_next_index s)\<rparr>))"

lemma drain_next_Some:
  assumes "drain_next s = (Some r, s')"
  shows "dr_next_index s < length (dr_ranges s)" "s' = s\<lparr>dr_next_index := dr_next_index s + 1\<rparr>"
  using assms by (auto simp: drain_next_def vec_simps split: option.splits if_splits)

lemma drain_next_measure:
  "(Some r, s') = drain_next s \<Longrightarrow>
     length (dr_ranges s') - dr_next_index s' < length (dr_ranges s) - dr_next_index s"
  using drain_next_Some [of s r s'] by (simp add: diff_less_mono2)

text \<open>Running an iterator to its end, as \<open>for\<close>, \<open>collect\<close> and \<open>count\<close> do.\<close>

function drain_collect ::
  "'i::linorder init_tracker_drain \<Rightarrow> 'i range_t list \<times> 'i init_tracker_drain" where
  "drain_collect s =
     (case drain_next s of
        (None, s') \<Rightarrow> ([], s')
      | (Some r, s') \<Rightarrow> (let (rs, s'') = drain_collect s' in (r # rs, s'')))"
  by pat_completeness auto
termination
  by (relation "measure (\<lambda>s. length (dr_ranges s) - dr_next_index s)")
     (auto intro: drain_next_measure)

declare drain_collect.simps [simp del]

lemma uninitialized_iter_next_Some:
  assumes "uninitialized_iter_next s = (Some r, s')"
  shows "ui_next_index s < length (ui_ranges s)" "s' = s\<lparr>ui_next_index := ui_next_index s + 1\<rparr>"
  using assms by (auto simp: uninitialized_iter_next_def vec_simps split: option.splits if_splits)

lemma uninitialized_iter_next_measure:
  "(Some r, s') = uninitialized_iter_next s \<Longrightarrow>
     length (ui_ranges s') - ui_next_index s' < length (ui_ranges s) - ui_next_index s"
  using uninitialized_iter_next_Some [of s r s'] by (simp add: diff_less_mono2)

function uninitialized_collect :: "'i::linorder uninitialized_iter \<Rightarrow> 'i range_t list" where
  "uninitialized_collect s =
     (case uninitialized_iter_next s of
        (None, s') \<Rightarrow> []
      | (Some r, s') \<Rightarrow> r # uninitialized_collect s')"
  by pat_completeness auto
termination
  by (relation "measure (\<lambda>s. length (ui_ranges s) - ui_next_index s)")
     (auto intro: uninitialized_iter_next_measure)

declare uninitialized_collect.simps [simp del]

text \<open>\<open>Drop\<close> of the draining iterator: run to the end only if it was never advanced.\<close>

definition drain_drop :: "'i::linorder init_tracker_drain \<Rightarrow> 'i init_tracker_drain" where
  "drain_drop s = (if dr_next_index s \<le> dr_first_index s then snd (drain_collect s) else s)"

definition new_tracker :: "'i::{linorder,zero} \<Rightarrow> 'i init_tracker" where
  "new_tracker sz = \<lparr>uninitialized_ranges = [Range 0 sz]\<rparr>"

definition check :: "'i::linorder init_tracker \<Rightarrow> 'i range_t \<Rightarrow> 'i range_t option" where
  "check t query_range =
     (let rs = uninitialized_ranges t;
          index = partition_point (\<lambda>r. rend r \<le> rstart query_range) rs in
      case vec_get rs index of
        None \<Rightarrow> None
      | Some start_range \<Rightarrow>
          if rstart start_range < rend query_range then
            let start = max (rstart start_range) (rstart query_range) in
            case vec_get rs (index + 1) of
              Some next_range \<Rightarrow>
                if rstart next_range < rend query_range then Some (Range start (rend query_range))
                else Some (Range start (min (rend start_range) (rend query_range)))
            | None \<Rightarrow> Some (Range start (min (rend start_range) (rend query_range)))
          else None)"

definition uninitialized :: "'i::linorder init_tracker \<Rightarrow> 'i range_t \<Rightarrow> 'i uninitialized_iter" where
  "uninitialized t drain_range =
     \<lparr>ui_ranges = uninitialized_ranges t, ui_drain_range = drain_range,
      ui_next_index = partition_point (\<lambda>r. rend r \<le> rstart drain_range) (uninitialized_ranges t)\<rparr>"

definition drain :: "'i::linorder init_tracker \<Rightarrow> 'i range_t \<Rightarrow> 'i init_tracker_drain" where
  "drain t drain_range =
     (let index = partition_point (\<lambda>r. rend r \<le> rstart drain_range) (uninitialized_ranges t) in
      \<lparr>dr_ranges = uninitialized_ranges t, dr_drain_range = drain_range,
       dr_first_index = index, dr_next_index = index\<rparr>)"

text \<open>
  The two uses of \<open>drain\<close> in the code: collected to the end, and dropped unread. The
  iterator borrows the tracker, so its vector is the tracker's afterwards.
\<close>

definition drain_all :: "'i::linorder init_tracker \<Rightarrow> 'i range_t \<Rightarrow> 'i range_t list \<times> 'i init_tracker" where
  "drain_all t dr =
     (let (rs, s) = drain_collect (drain t dr) in (rs, \<lparr>uninitialized_ranges = dr_ranges s\<rparr>))"

definition drain_unread :: "'i::linorder init_tracker \<Rightarrow> 'i range_t \<Rightarrow> 'i init_tracker" where
  "drain_unread t dr = \<lparr>uninitialized_ranges = dr_ranges (drain_drop (drain t dr))\<rparr>"

definition discard :: "u32 init_tracker \<Rightarrow> u32 \<Rightarrow> u32 init_tracker" where
  "discard t pos =
     (let rs = uninitialized_ranges t;
          r_idx = partition_point (\<lambda>r. rend r < pos) rs in
      \<lparr>uninitialized_ranges =
        (case vec_get rs r_idx of
           Some r \<Rightarrow>
             if rend r = pos then
               (case vec_get rs (r_idx + 1) of
                  Some right \<Rightarrow>
                    if rstart right = pos + 1 then
                      vec_remove (r_idx + 1) (rs[r_idx := Range (rstart r) (rend right)])
                    else rs[r_idx := Range (rstart r) (pos + 1)]
                | None \<Rightarrow> rs[r_idx := Range (rstart r) (pos + 1)])
             else if pos < rstart r then
               if rstart r = pos + 1 then rs[r_idx := Range pos (rend r)]
               else rs @ [Range pos (pos + 1)]
             else rs
         | None \<Rightarrow> rs @ [Range pos (pos + 1)])\<rparr>)"

section \<open>Invariant, abstraction and the shape of a tracker around a query\<close>

definition ranges_wf :: "'i::linorder range_t list \<Rightarrow> bool" where
  "ranges_wf rs \<longleftrightarrow> (\<forall>r\<in>set rs. rstart r \<le> rend r) \<and> sorted_wrt (\<lambda>a b. rend a \<le> rstart b) rs"

definition uninit_of :: "'i::linorder range_t list \<Rightarrow> 'i set" where
  "uninit_of rs = (\<Union>r\<in>set rs. iv r)"

definition tracker_wf :: "'i::linorder init_tracker \<Rightarrow> bool" where
  "tracker_wf t = ranges_wf (uninitialized_ranges t)"

definition uninit :: "'i::linorder init_tracker \<Rightarrow> 'i set" where
  "uninit t = uninit_of (uninitialized_ranges t)"

lemma uninit_of_simps [simp]:
  "uninit_of [] = {}" "uninit_of (r # rs) = iv r \<union> uninit_of rs"
  "uninit_of (rs @ qs) = uninit_of rs \<union> uninit_of qs"
  by (auto simp: uninit_of_def)

lemma ranges_wf_simps [simp]:
  "ranges_wf []"
  "ranges_wf (r # rs) \<longleftrightarrow> rstart r \<le> rend r \<and> (\<forall>x\<in>set rs. rend r \<le> rstart x) \<and> ranges_wf rs"
  "ranges_wf (rs @ qs) \<longleftrightarrow>
     ranges_wf rs \<and> ranges_wf qs \<and> (\<forall>x\<in>set rs. \<forall>y\<in>set qs. rend x \<le> rstart y)"
  by (auto simp: ranges_wf_def sorted_wrt_append)

lemma ranges_wf_mem: "ranges_wf rs \<Longrightarrow> r \<in> set rs \<Longrightarrow> rstart r \<le> rend r"
  by (simp add: ranges_wf_def)

text \<open>
  Around a query the ranges fall into three runs: those that end before it, those that
  overlap it (or touch an empty query), and those that start after it.
\<close>

lemma ranges_split:
  assumes wf: "ranges_wf rs" and q: "rstart q \<le> rend q"
  obtains pre mid post where
    "rs = pre @ mid @ post"
    "\<forall>r\<in>set pre. rend r \<le> rstart q"
    "\<forall>r\<in>set mid. rstart q < rend r \<and> rstart r < rend q"
    "\<forall>r\<in>set post. rend q \<le> rstart r"
    "\<forall>r\<in>set post. rstart q < rend r"
    "partition_point (\<lambda>r. rend r \<le> rstart q) rs = length pre"
proof -
  let ?P = "\<lambda>r. rend r \<le> rstart q" and ?Q = "\<lambda>r. rstart r < rend q"
  define pre rest where "pre = takeWhile ?P rs" and "rest = dropWhile ?P rs"
  define mid post where "mid = takeWhile ?Q rest" and "post = dropWhile ?Q rest"
  have rs: "rs = pre @ rest" and rest: "rest = mid @ post"
    by (simp_all add: pre_def rest_def mid_def post_def)
  have wf_rest: "ranges_wf rest" and wf_post: "ranges_wf post"
    using wf by (simp_all add: rs rest)
  have ends: "\<forall>r\<in>set rest. rstart q < rend r"
  proof (cases rest)
    case (Cons h tl)
    then have "rstart q < rend h"
      using drop_while_fails [of ?P rs] by (simp add: rest_def)
    moreover have "rend h \<le> rend r" if "r \<in> set tl" for r
    proof -
      have "rend h \<le> rstart r" "rstart r \<le> rend r"
        using wf_rest that ranges_wf_mem [of tl r] by (simp_all add: Cons)
      then show ?thesis by order
    qed
    ultimately show ?thesis
      by (auto simp: Cons intro: less_le_trans)
  qed simp
  have starts: "\<forall>r\<in>set post. rend q \<le> rstart r"
  proof (cases post)
    case (Cons h tl)
    then have "rend q \<le> rstart h"
      using drop_while_fails [of ?Q rest] by (simp add: post_def)
    moreover have "rend q \<le> rstart r" if "r \<in> set tl" for r
    proof -
      have "rstart h \<le> rend h" "rend h \<le> rstart r"
        using wf_post that by (simp_all add: Cons)
      with \<open>rend q \<le> rstart h\<close> show ?thesis by order
    qed
    ultimately show ?thesis by (simp add: Cons)
  qed simp
  show thesis
  proof (rule that [of pre mid post])
    show "rs = pre @ mid @ post" by (simp add: rs rest)
    show "\<forall>r\<in>set pre. rend r \<le> rstart q"
      using take_while_holds [of ?P rs] by (simp add: pre_def)
    show "\<forall>r\<in>set mid. rstart q < rend r \<and> rstart r < rend q"
      using ends take_while_holds [of ?Q rest] rest by (metis Un_iff mid_def set_append)
    show "\<forall>r\<in>set post. rend q \<le> rstart r" by (rule starts)
    show "\<forall>r\<in>set post. rstart q < rend r" using ends by (simp add: rest)
    show "partition_point ?P rs = length pre"
      by (simp add: partition_point_def pre_def)
  qed
qed

text \<open>Only the overlapping run meets the query.\<close>

lemma split_inter:
  assumes "\<forall>r\<in>set pre. rend r \<le> rstart q" "\<forall>r\<in>set post. rend q \<le> rstart r"
  shows "uninit_of (pre @ mid @ post) \<inter> iv q = uninit_of mid \<inter> iv q"
    and "uninit_of (pre @ mid @ post) - iv q = uninit_of pre \<union> (uninit_of mid - iv q) \<union> uninit_of post"
  using assms by (fastforce simp: uninit_of_def)+

section \<open>Draining\<close>

text \<open>What is left of the overlapping run once the query is cut out of it.\<close>

definition cut_out :: "'i::linorder range_t list \<Rightarrow> 'i range_t \<Rightarrow> 'i range_t list" where
  "cut_out mid q =
     (if mid = [] then []
      else (if rstart (hd mid) < rstart q then [Range (rstart (hd mid)) (rstart q)] else []) @
           (if rend q < rend (last mid) then [Range (rend q) (rend (last mid))] else []))"

lemma drain_collect_run:
  assumes "\<forall>r\<in>set mid. rstart r < rend q" "\<forall>r\<in>set post. rend q \<le> rstart r"
    and "n = length pre + length done"
  shows "drain_collect \<lparr>dr_ranges = pre @ done @ mid @ post, dr_drain_range = q,
            dr_first_index = length pre, dr_next_index = n\<rparr>
       = (map (\<lambda>r. range_inter r q) mid,
          \<lparr>dr_ranges = (if done @ mid = [] then pre @ post
               else drain_finish (pre @ done @ mid @ post) q (length pre) (n + length mid)),
           dr_drain_range = q, dr_first_index = length pre, dr_next_index = n + length mid\<rparr>)"
  using assms
proof (induction mid arbitrary: "done" n)
  case Nil
  have "vec_get (pre @ done @ post) n = vec_get post 0"
    using Nil.prems(3) by (cases post) (auto simp: vec_get_def nth_append)
  moreover have "vec_get post 0 = Some r \<Longrightarrow> rend q \<le> rstart r" for r
    using Nil.prems(2) by (auto simp: vec_get_def split: if_splits)
  ultimately show ?case
    using Nil.prems(3)
    by (subst drain_collect.simps) (auto simp: drain_next_def split: option.splits dest: leD)
next
  case (Cons m mid)
  have get: "vec_get (pre @ done @ (m # mid) @ post) n = Some m"
    using Cons.prems(3) by (simp add: vec_get_def nth_append)
  have IH: "drain_collect \<lparr>dr_ranges = pre @ (done @ [m]) @ mid @ post, dr_drain_range = q,
            dr_first_index = length pre, dr_next_index = n + 1\<rparr>
       = (map (\<lambda>r. range_inter r q) mid,
          \<lparr>dr_ranges = (if (done @ [m]) @ mid = [] then pre @ post
               else drain_finish (pre @ (done @ [m]) @ mid @ post) q (length pre) (n + 1 + length mid)),
           dr_drain_range = q, dr_first_index = length pre, dr_next_index = n + 1 + length mid\<rparr>)"
    using Cons.prems by (intro Cons.IH) auto
  show ?case
    using get IH Cons.prems(1)
    by (subst drain_collect.simps) (simp add: drain_next_def range_inter_def)
qed

lemma drain_finish_one:
  assumes "rstart q < rend m" "rstart m < rend q" "rstart q \<le> rend q"
  shows "drain_finish (pre @ m # post) q (length pre) (Suc (length pre)) = pre @ cut_out [m] q @ post"
  using assms
  by (auto simp: drain_finish_def cut_out_def vec_insert_def vec_drain_def nth_append Let_def)

lemma drain_finish_many:
  assumes "rstart q \<le> rend q"
  shows "drain_finish (pre @ (a # ms @ [b]) @ post) q (length pre) (length pre + length ms + 2)
       = pre @ cut_out (a # ms @ [b]) q @ post"
proof -
  have last1: "(pre @ (c # ms @ [b]) @ post) ! Suc (length pre + length ms) = b" for c
    by (simp add: nth_append)
  have upd1: "(pre @ (c # ms @ [b]) @ post)[Suc (length pre + length ms) := d] = pre @ (c # ms @ [d]) @ post" for c d
    by (simp add: list_update_append)
  have hd1: "(pre @ (a # ms @ [b]) @ post)[length pre := c] = pre @ (c # ms @ [b]) @ post" for c
    by (simp add: list_update_append)
  have nth1: "(pre @ (a # ms @ [b]) @ post) ! length pre = a"
    by (simp add: nth_append)
  show ?thesis
    using last1 upd1 hd1 nth1
    by (auto simp: drain_finish_def cut_out_def vec_drain_def Let_def not_less not_le)
qed

lemma drain_finish_cut:
  assumes "mid \<noteq> []" "\<forall>r\<in>set mid. rstart q < rend r \<and> rstart r < rend q" "rstart q \<le> rend q"
  shows "drain_finish (pre @ mid @ post) q (length pre) (length pre + length mid)
       = pre @ cut_out mid q @ post"
proof (cases mid)
  case Nil
  with assms(1) show ?thesis by simp
next
  case (Cons a ms)
  show ?thesis
  proof (cases ms rule: rev_cases)
    case Nil
    with Cons assms show ?thesis by (simp add: drain_finish_one)
  next
    case (snoc ns b)
    with Cons assms(3) show ?thesis
      using drain_finish_many [of q pre a ns b post] by (simp add: add.commute)
  qed
qed

text \<open>The whole effect of \<open>drain\<close>, collected or dropped unread.\<close>

lemma drain_all_split:
  assumes rs: "uninitialized_ranges t = pre @ mid @ post"
    and "\<forall>r\<in>set mid. rstart q < rend r \<and> rstart r < rend q"
    and "\<forall>r\<in>set post. rend q \<le> rstart r" "rstart q \<le> rend q"
    and pp: "partition_point (\<lambda>r. rend r \<le> rstart q) (uninitialized_ranges t) = length pre"
  shows "drain_all t q = (map (\<lambda>r. range_inter r q) mid,
                          \<lparr>uninitialized_ranges = pre @ cut_out mid q @ post\<rparr>)"
proof -
  have start: "drain t q = \<lparr>dr_ranges = pre @ [] @ mid @ post, dr_drain_range = q,
      dr_first_index = length pre, dr_next_index = length pre + length ([] :: 'a range_t list)\<rparr>"
    using pp by (simp add: drain_def rs Let_def)
  show ?thesis
    unfolding drain_all_def start
    using assms drain_collect_run [of mid q post "length pre" pre "[]"]
      drain_finish_cut [of mid q pre post]
    by (cases "mid = []") (auto simp: cut_out_def)
qed

lemma drain_unread_eq: "drain_unread t q = snd (drain_all t q)"
  by (simp add: drain_unread_def drain_drop_def drain_all_def drain_def Let_def split: prod.split)

section \<open>The contract of the linear tracker\<close>

lemma ranges_wf_inter:
  assumes "ranges_wf mid" "\<forall>r\<in>set mid. rstart q < rend r \<and> rstart r < rend q" "rstart q \<le> rend q"
  shows "ranges_wf (map (\<lambda>r. range_inter r q) mid)"
  using assms by (induction mid) (auto simp: range_inter_def min_le_iff_disj le_max_iff_disj)

lemma uninit_of_inter: "uninit_of (map (\<lambda>r. range_inter r q) mid) = uninit_of mid \<inter> iv q"
  by (induction mid) (auto simp: iv_range_inter)

lemma cut_out_wf:
  assumes "ranges_wf mid" "\<forall>r\<in>set mid. rstart q < rend r \<and> rstart r < rend q" "rstart q \<le> rend q"
  shows "ranges_wf (cut_out mid q)"
  using assms by (auto simp: cut_out_def)

lemma cut_out_bounds:
  assumes "mid \<noteq> []" "x \<in> set (cut_out mid q)" "rstart q \<le> rend q"
    "rstart q < rend (last mid)" "rstart (hd mid) < rend q"
  shows "rstart (hd mid) \<le> rstart x \<and> rend x \<le> rend (last mid)"
  using assms by (auto simp: cut_out_def split: if_splits)

lemma uninit_of_cut_out:
  assumes wf: "ranges_wf mid" and ov: "\<forall>r\<in>set mid. rstart q < rend r \<and> rstart r < rend q"
    and q: "rstart q \<le> rend q"
  shows "uninit_of (cut_out mid q) = uninit_of mid - iv q"
proof (cases "mid = []")
  case True
  then show ?thesis by (simp add: cut_out_def)
next
  case False
  then have hd: "hd mid \<in> set mid" and last: "last mid \<in> set mid" by simp_all
  have first: "r = hd mid" if "r \<in> set mid" "rstart r < rstart q" for r
  proof (cases mid)
    case (Cons a ms)
    have "rstart q < rend a" using ov by (simp add: Cons)
    with wf that show ?thesis by (fastforce simp: Cons)
  qed (use that in simp)
  have final: "r = last mid" if "r \<in> set mid" "rend q < rend r" for r
  proof (cases mid rule: rev_cases)
    case (snoc ms b)
    have "rstart b < rend q" using ov by (simp add: snoc)
    with wf that show ?thesis by (fastforce simp: snoc)
  qed (use that in simp)
  have "x \<in> uninit_of (cut_out mid q) \<longleftrightarrow> x \<in> uninit_of mid - iv q" for x
  proof
    assume "x \<in> uninit_of (cut_out mid q)"
    then consider "rstart (hd mid) \<le> x" "x < rstart q" | "rend q \<le> x" "x < rend (last mid)"
      using False by (auto simp: cut_out_def split: if_splits)
    then show "x \<in> uninit_of mid - iv q"
    proof cases
      case 1
      then have "x \<in> iv (hd mid)" using ov hd by (auto intro: less_trans)
      with 1 hd show ?thesis by (auto simp: uninit_of_def)
    next
      case 2
      then have "x \<in> iv (last mid)" using ov last by (auto intro: less_le_trans less_imp_le)
      with 2 last show ?thesis by (auto simp: uninit_of_def)
    qed
  next
    assume "x \<in> uninit_of mid - iv q"
    then obtain r where r: "r \<in> set mid" "rstart r \<le> x" "x < rend r" and nq: "x < rstart q \<or> rend q \<le> x"
      by (auto simp: uninit_of_def not_le not_less)
    from nq show "x \<in> uninit_of (cut_out mid q)"
    proof
      assume "x < rstart q"
      with r first [of r] False show ?thesis by (auto simp: cut_out_def uninit_of_def)
    next
      assume "rend q \<le> x"
      with r final [of r] False show ?thesis by (auto simp: cut_out_def uninit_of_def)
    qed
  qed
  then show ?thesis by blast
qed

lemma drain_all_contract:
  assumes wf: "tracker_wf t" and q: "rstart q \<le> rend q" and d: "drain_all t q = (items, t')"
  shows "tracker_wf t'" "uninit t' = uninit t - iv q"
    "ranges_wf items" "uninit_of items = uninit t \<inter> iv q"
proof -
  from wf have "ranges_wf (uninitialized_ranges t)" by (simp add: tracker_wf_def)
  from this q obtain pre mid post where sp: "uninitialized_ranges t = pre @ mid @ post"
    and pre: "\<forall>r\<in>set pre. rend r \<le> rstart q"
    and mid: "\<forall>r\<in>set mid. rstart q < rend r \<and> rstart r < rend q"
    and post: "\<forall>r\<in>set post. rend q \<le> rstart r"
    and pp: "partition_point (\<lambda>r. rend r \<le> rstart q) (uninitialized_ranges t) = length pre"
    by (rule ranges_split) blast
  have items: "items = map (\<lambda>r. range_inter r q) mid" and t': "uninitialized_ranges t' = pre @ cut_out mid q @ post"
    using d drain_all_split [OF sp mid post q pp] by auto
  have wfs: "ranges_wf pre" "ranges_wf mid" "ranges_wf post"
    "\<forall>x\<in>set pre. \<forall>y\<in>set mid. rend x \<le> rstart y" "\<forall>x\<in>set pre. \<forall>y\<in>set post. rend x \<le> rstart y"
    "\<forall>x\<in>set mid. \<forall>y\<in>set post. rend x \<le> rstart y"
    using wf by (auto simp: tracker_wf_def sp)
  have bnd: "rstart (hd mid) \<le> rstart x \<and> rend x \<le> rend (last mid)"
    and ne: "hd mid \<in> set mid" "last mid \<in> set mid" if "x \<in> set (cut_out mid q)" for x
  proof -
    from that have "mid \<noteq> []" by (auto simp: cut_out_def)
    then show "rstart (hd mid) \<le> rstart x \<and> rend x \<le> rend (last mid)" "hd mid \<in> set mid" "last mid \<in> set mid"
      using cut_out_bounds [OF _ that q] mid by simp_all
  qed
  show "ranges_wf items" unfolding items by (rule ranges_wf_inter [OF wfs(2) mid q])
  show "uninit_of items = uninit t \<inter> iv q"
    unfolding items uninit_of_inter uninit_def sp by (rule split_inter(1) [OF pre post, symmetric])
  show "uninit t' = uninit t - iv q"
  proof -
    have "uninit t' = uninit_of pre \<union> (uninit_of mid - iv q) \<union> uninit_of post"
      by (simp add: uninit_def t' uninit_of_cut_out [OF wfs(2) mid q] Un_assoc)
    also have "\<dots> = uninit t - iv q"
      unfolding uninit_def sp by (rule split_inter(2) [OF pre post, symmetric])
    finally show ?thesis .
  qed
  have "rend x \<le> rstart y" if "x \<in> set pre" "y \<in> set (cut_out mid q)" for x y
    using wfs(4) that(1) ne(1) [OF that(2)] bnd [OF that(2)] by (blast intro: order_trans)
  moreover have "rend x \<le> rstart y" if "x \<in> set (cut_out mid q)" "y \<in> set post" for x y
    using wfs(6) that(2) ne(2) [OF that(1)] bnd [OF that(1)] by (blast intro: order_trans)
  ultimately show "tracker_wf t'"
    using wfs cut_out_wf [OF wfs(2) mid q] by (auto simp: tracker_wf_def t')
qed

lemma check_contract:
  assumes wf: "tracker_wf t"
  shows "check t q = None \<Longrightarrow> uninit t \<inter> iv q = {}"
    and "check t q = Some r \<Longrightarrow> uninit t \<inter> iv q \<subseteq> iv r \<and> rstart q \<le> rstart r \<and> rend r \<le> rend q"
proof -
  let ?rs = "uninitialized_ranges t" and ?P = "\<lambda>r. rend r \<le> rstart q"
  define pre rest where "pre = takeWhile ?P ?rs" and "rest = dropWhile ?P ?rs"
  have rs: "?rs = pre @ rest" by (simp add: pre_def rest_def)
  have "partition_point ?P ?rs = length pre" by (simp add: partition_point_def pre_def)
  then have get: "vec_get ?rs (partition_point ?P ?rs) = vec_get rest 0"
    "vec_get ?rs (partition_point ?P ?rs + 1) = vec_get rest 1"
    by (auto simp: vec_get_def rs nth_append)
  have pre: "\<forall>r\<in>set pre. rend r \<le> rstart q" using take_while_holds [of ?P ?rs] by (simp add: pre_def)
  have cut: "uninit t \<inter> iv q = uninit_of rest \<inter> iv q"
    using pre by (fastforce simp: uninit_def rs uninit_of_def)
  have wfr: "ranges_wf rest" using wf by (simp add: tracker_wf_def rs)
  have none: "uninit_of xs \<inter> iv q = {}" if "\<forall>x\<in>set xs. rend q \<le> rstart x" for xs
    using that by (fastforce simp: uninit_of_def)
  show "uninit t \<inter> iv q = {}" if "check t q = None"
  proof (cases rest)
    case (Cons h tl)
    with that have "rend q \<le> rstart h"
      unfolding check_def Let_def get by (auto simp: vec_get_def split: if_splits)
    with wfr Cons have "\<forall>x\<in>set rest. rend q \<le> rstart x" by (auto intro: order_trans)
    with none cut show ?thesis by simp
  qed (simp add: cut)
  assume c: "check t q = Some r"
  show "uninit t \<inter> iv q \<subseteq> iv r \<and> rstart q \<le> rstart r \<and> rend r \<le> rend q"
  proof (cases rest)
    case Nil
    with c show ?thesis unfolding check_def Let_def get by (simp add: vec_get_def)
  next
    case (Cons h tl)
    have lower: "rstart h \<le> x" if "x \<in> uninit_of rest" for x
      using that wfr by (auto simp: Cons uninit_of_def)
    show ?thesis
    proof (cases "tl = [] \<or> rend q \<le> rstart (hd tl)")
      case True
      then have "\<forall>x\<in>set tl. rend q \<le> rstart x"
        using wfr by (cases tl) (auto simp: Cons intro: order_trans)
      then have "uninit t \<inter> iv q \<subseteq> iv h" using none [of tl] cut by (auto simp: Cons)
      moreover have "r = Range (max (rstart h) (rstart q)) (min (rend h) (rend q))"
        using c True unfolding check_def Let_def get
        by (cases tl) (auto simp: Cons vec_get_def split: if_splits)
      ultimately show ?thesis by auto
    next
      case False
      then have "r = Range (max (rstart h) (rstart q)) (rend q)"
        using c unfolding check_def Let_def get
        by (cases tl) (auto simp: Cons vec_get_def split: if_splits)
      then show ?thesis using lower cut by auto
    qed
  qed
qed

section \<open>Discarding one index\<close>

text \<open>
  \<open>discard\<close> keeps a stronger order: no range is empty and no two touch. \<open>discard_gap\<close> is
  the branch of the code that pushes the new range at the end of the vector although a later
  range is already there.
\<close>

definition ranges_separated :: "'i::linorder range_t list \<Rightarrow> bool" where
  "ranges_separated rs \<longleftrightarrow>
     (\<forall>r\<in>set rs. rstart r < rend r) \<and> sorted_wrt (\<lambda>a b. rend a < rstart b) rs"

definition discard_gap :: "u32 init_tracker \<Rightarrow> u32 \<Rightarrow> bool" where
  "discard_gap t pos =
     (case vec_get (uninitialized_ranges t)
             (partition_point (\<lambda>r. rend r < pos) (uninitialized_ranges t)) of
        Some r \<Rightarrow> pos + 1 < rstart r
      | None \<Rightarrow> False)"

lemma ranges_separated_simps [simp]:
  "ranges_separated []"
  "ranges_separated (r # rs) \<longleftrightarrow>
     rstart r < rend r \<and> (\<forall>x\<in>set rs. rend r < rstart x) \<and> ranges_separated rs"
  "ranges_separated (rs @ qs) \<longleftrightarrow>
     ranges_separated rs \<and> ranges_separated qs \<and> (\<forall>x\<in>set rs. \<forall>y\<in>set qs. rend x < rstart y)"
  by (auto simp: ranges_separated_def sorted_wrt_append)

lemma separated_wf: "ranges_separated rs \<Longrightarrow> ranges_wf rs"
  by (induction rs) (auto intro: less_imp_le)

lemma word_Suc_cases:
  fixes pos x :: u32
  assumes "pos \<noteq> -1"
  shows "x < pos + 1 \<longleftrightarrow> x \<le> pos" "pos < x \<longleftrightarrow> pos + 1 \<le> x"
proof -
  have "unat (pos + 1) = unat pos + 1"
    using assms by (metis Suc_eq_plus1 add.commute eq_neg_iff_add_eq_0 unatSuc)
  then show "x < pos + 1 \<longleftrightarrow> x \<le> pos" "pos < x \<longleftrightarrow> pos + 1 \<le> x"
    by (auto simp: word_less_nat_alt word_le_nat_alt)
qed

lemma discard_split:
  fixes t :: "u32 init_tracker"
  obtains pre rest where
    "uninitialized_ranges t = pre @ rest" "\<forall>r\<in>set pre. rend r < pos"
    "rest \<noteq> [] \<longrightarrow> pos \<le> rend (hd rest)"
    "partition_point (\<lambda>r. rend r < pos) (uninitialized_ranges t) = length pre"
proof (rule that)
  let ?P = "\<lambda>r. rend r < pos" and ?rs = "uninitialized_ranges t"
  show "?rs = takeWhile ?P ?rs @ dropWhile ?P ?rs" by simp
  show "\<forall>r\<in>set (takeWhile ?P ?rs). rend r < pos" using take_while_holds [of ?P ?rs] by simp
  show "dropWhile ?P ?rs \<noteq> [] \<longrightarrow> pos \<le> rend (hd (dropWhile ?P ?rs))"
    using drop_while_fails [of ?P ?rs] by (auto simp: not_less)
  show "partition_point ?P ?rs = length (takeWhile ?P ?rs)" by (simp add: partition_point_def)
qed

text \<open>The vector after \<open>discard\<close>, by the run of ranges from the first one not before \<open>pos\<close>.\<close>

fun discard_rest :: "u32 \<Rightarrow> u32 range_t list \<Rightarrow> u32 range_t list" where
  "discard_rest pos [] = [Range pos (pos + 1)]"
| "discard_rest pos (r # ts) =
     (if rend r = pos then
        (case ts of
           [] \<Rightarrow> [Range (rstart r) (pos + 1)]
         | right # ts' \<Rightarrow>
             if rstart right = pos + 1 then Range (rstart r) (rend right) # ts'
             else Range (rstart r) (pos + 1) # ts)
      else if pos < rstart r then
        if rstart r = pos + 1 then Range pos (rend r) # ts else r # ts @ [Range pos (pos + 1)]
      else r # ts)"

lemma discard_eq:
  assumes "uninitialized_ranges t = pre @ rest"
    and "partition_point (\<lambda>r. rend r < pos) (uninitialized_ranges t) = length pre"
  shows "uninitialized_ranges (discard t pos) = pre @ discard_rest pos rest"
proof (cases rest)
  case Nil
  then show ?thesis using assms by (simp add: discard_def Let_def)
next
  case (Cons r tl)
  show ?thesis
  proof (cases tl)
    case Nil
    then show ?thesis using assms Cons
      by (simp add: discard_def Let_def list_update_append vec_get_def nth_append)
  next
    case (Cons right tl')
    then show ?thesis using assms \<open>rest = r # tl\<close>
      by (simp add: discard_def Let_def list_update_append vec_get_def nth_append vec_remove_def)
  qed
qed

lemma iv_grow:
  fixes pos :: u32
  assumes "pos \<noteq> -1"
  shows "iv (Range pos (pos + 1)) = {pos}"
    and "a \<le> pos \<Longrightarrow> iv (Range a (pos + 1)) = insert pos (iv (Range a pos))"
    and "pos < b \<Longrightarrow> iv (Range pos b) = insert pos (iv (Range (pos + 1) b))"
proof -
  note lt = word_Suc_cases(1) [OF assms] and gt = word_Suc_cases(2) [OF assms, symmetric]
  show "iv (Range pos (pos + 1)) = {pos}"
    by (auto simp: lt intro: antisym)
  show "iv (Range a (pos + 1)) = insert pos (iv (Range a pos))" if "a \<le> pos"
    using that by (auto simp: lt intro: order.not_eq_order_implies_strict less_imp_le)
  show "iv (Range pos b) = insert pos (iv (Range (pos + 1) b))" if "pos < b"
    using that by (auto simp: gt intro: order.not_eq_order_implies_strict less_imp_le)
qed

lemma iv_join: "a \<le> b \<Longrightarrow> b \<le> c \<Longrightarrow> iv (Range a c) = iv (Range a b) \<union> iv (Range b c)"
  by auto

lemma uninit_of_discard_rest:
  assumes sep: "ranges_separated rest" and hd: "rest \<noteq> [] \<Longrightarrow> pos \<le> rend (hd rest)" and pos: "pos \<noteq> -1"
  shows "uninit_of (discard_rest pos rest) = insert pos (uninit_of rest)"
proof (cases rest)
  case Nil
  then show ?thesis using iv_grow(1) [OF pos] by simp
next
  case (Cons r tl)
  obtain a b where r: "r = Range a b" by (cases r)
  have ab: "a < b" "pos \<le> b" using sep hd by (simp_all add: Cons r)
  have grow: "iv (Range a (pos + 1)) = insert pos (iv (Range a pos))" if "b = pos"
    using iv_grow(2) [OF pos, of a] ab that by simp
  consider "b = pos" | "b \<noteq> pos" "a \<le> pos" | "b \<noteq> pos" "pos < a" by force
  then show ?thesis
  proof cases
    case 1
    show ?thesis
    proof (cases "tl = [] \<or> rstart (hd tl) \<noteq> pos + 1")
      case True
      with 1 grow show ?thesis by (cases tl) (auto simp: Cons r simp del: mem_iv)
    next
      case False
      then obtain c ts where tl: "tl = Range (pos + 1) c # ts"
        by (cases tl) (auto, metis range_t.collapse)
      have "pos + 1 < c" using sep by (simp add: Cons tl)
      moreover have "a \<le> pos + 1" using ab 1 word_Suc_cases [OF pos] by (meson less_le_trans less_imp_le order_trans)
      ultimately have "iv (Range a c) = iv (Range a (pos + 1)) \<union> iv (Range (pos + 1) c)"
        by (intro iv_join) simp_all
      with 1 grow show ?thesis by (simp add: Cons r tl Un_assoc del: mem_iv)
    qed
  next
    case 2
    then have "pos \<in> iv r" using ab by (simp add: r order_le_less)
    with 2 show ?thesis by (auto simp: Cons r simp del: mem_iv)
  next
    case 3
    then have "pos < b" using ab by simp
    with 3 iv_grow(1,3) [OF pos] show ?thesis by (auto simp: Cons r simp del: mem_iv)
  qed
qed

lemma discard_rest_separated:
  assumes sep: "ranges_separated rest" and hd: "rest \<noteq> [] \<Longrightarrow> pos \<le> rend (hd rest)" and pos: "pos \<noteq> -1"
    and gap: "rest \<noteq> [] \<Longrightarrow> rstart (hd rest) \<le> pos + 1"
  shows "ranges_separated (discard_rest pos rest)"
proof -
  note lt = word_Suc_cases(1) [OF pos] and gt = word_Suc_cases(2) [OF pos]
  have step: "pos < pos + 1" by (simp add: lt)
  show ?thesis
  proof (cases rest)
    case Nil
    with step show ?thesis by simp
  next
    case (Cons r tl)
    have grow: "pos + 1 < c" if "pos < c" "c \<noteq> pos + 1" for c
      using that gt [of c] by (simp add: order.strict_iff_order)
    have near: "rstart r = pos + 1" if "pos < rstart r"
      using that gt [of "rstart r"] gap by (auto simp: Cons intro: antisym)
    show ?thesis
    proof (cases tl)
      case Nil
      with Cons sep hd near step show ?thesis
        by (auto intro: less_trans order.not_eq_order_implies_strict)
    next
      case (Cons right ts)
      have ord: "rstart r < rend r" "rend r < rstart right" "rstart right < rend right"
        "ranges_separated ts" "\<forall>x\<in>set ts. rend right < rstart x" "\<forall>x\<in>set ts. rend r < rstart x"
        using sep by (simp_all add: \<open>rest = r # tl\<close> Cons)
      have later: "c < rstart x" if "x \<in> set ts" "c < rstart right" for x c
        using ord(3,5) that by (meson less_trans)
      consider "rend r = pos" "rstart right = pos + 1" | "rend r = pos" "rstart right \<noteq> pos + 1"
        | "rend r \<noteq> pos" by blast
      then show ?thesis
      proof cases
        case 1
        have "rstart r < rend right" using ord(1-3) by order
        with 1 ord(4,5) show ?thesis by (simp add: \<open>rest = r # tl\<close> Cons)
      next
        case 2
        then have "pos + 1 < rstart right" using grow ord(2) by simp
        moreover have "rstart r < pos + 1" using ord(1) 2 step by order
        ultimately show ?thesis using 2 ord(3-5) later by (simp add: \<open>rest = r # tl\<close> Cons)
      next
        case 3
        with hd have "pos < rend r" by (simp add: \<open>rest = r # tl\<close>)
        with 3 near ord show ?thesis by (simp add: \<open>rest = r # tl\<close> Cons)
      qed
    qed
  qed
qed

lemma discard_rest_starts:
  assumes "y \<in> set (discard_rest pos rest)" "\<forall>y\<in>set rest. x < rstart y" "x < pos"
  shows "x < rstart y"
  using assms by (cases rest) (auto split: list.splits if_splits)

definition tracker_separated :: "u32 init_tracker \<Rightarrow> bool" where
  "tracker_separated t = ranges_separated (uninitialized_ranges t)"

lemma discard_contract:
  assumes sep: "tracker_separated t" and pos: "pos \<noteq> -1"
  shows "uninit (discard t pos) = insert pos (uninit t)"
    and "\<not> discard_gap t pos \<Longrightarrow> tracker_separated (discard t pos)"
    and "discard_gap t pos \<Longrightarrow>
      \<not> tracker_wf (discard t pos) \<and> check (discard t pos) (Range pos (pos + 1)) = None"
proof -
  obtain pre rest where sp: "uninitialized_ranges t = pre @ rest"
    and pre: "\<forall>r\<in>set pre. rend r < pos" and hd': "rest \<noteq> [] \<longrightarrow> pos \<le> rend (hd rest)"
    and pp: "partition_point (\<lambda>r. rend r < pos) (uninitialized_ranges t) = length pre"
    by (rule discard_split [of t pos])
  have hd: "pos \<le> rend (hd rest)" if "rest \<noteq> []" using hd' that by blast
  have eq: "uninitialized_ranges (discard t pos) = pre @ discard_rest pos rest"
    by (rule discard_eq [OF sp pp])
  have seps: "ranges_separated pre" "ranges_separated rest" "\<forall>x\<in>set pre. \<forall>y\<in>set rest. rend x < rstart y"
    using sep by (auto simp: tracker_separated_def sp)
  show "uninit (discard t pos) = insert pos (uninit t)"
    by (simp add: uninit_def eq sp uninit_of_discard_rest [OF seps(2) hd pos])
  have gap: "discard_gap t pos \<longleftrightarrow> rest \<noteq> [] \<and> pos + 1 < rstart (hd rest)"
    unfolding discard_gap_def sp pp [unfolded sp] by (cases rest) (simp_all add: vec_get_def)
  show "tracker_separated (discard t pos)" if "\<not> discard_gap t pos"
  proof -
    have "ranges_separated (discard_rest pos rest)"
      using that gap by (intro discard_rest_separated seps hd pos) auto
    moreover have "rend x < rstart y" if "x \<in> set pre" "y \<in> set (discard_rest pos rest)" for x y
      using discard_rest_starts [OF that(2)] seps(3) pre that(1) by blast
    ultimately show ?thesis using seps(1) by (simp add: tracker_separated_def eq)
  qed
  assume g: "discard_gap t pos"
  then obtain r ts where rest: "rest = r # ts" and far: "pos + 1 < rstart r"
    using gap by (cases rest) auto
  have step: "pos < pos + 1" using word_Suc_cases(1) [OF pos] by simp
  have far': "pos < rstart r" "rstart r < rend r" using far step seps(2) by (auto simp: rest)
  have new: "discard_rest pos rest = r # ts @ [Range pos (pos + 1)]"
    using far far' by (auto simp: rest)
  have "\<not> tracker_wf (discard t pos)"
    using far' by (auto simp: tracker_wf_def eq new)
  moreover have "check (discard t pos) (Range pos (pos + 1)) = None"
  proof -
    have "partition_point (\<lambda>r. rend r \<le> pos) (pre @ discard_rest pos rest) = length pre"
      using pre far' by (intro partition_point_split) (auto simp: new less_imp_le)
    moreover have "\<not> rstart r < pos + 1" using far by simp
    ultimately show ?thesis by (simp add: check_def eq new Let_def)
  qed
  ultimately show "\<not> tracker_wf (discard t pos) \<and> check (discard t pos) (Range pos (pos + 1)) = None"
    by blast
qed

section \<open>The interface of a linear tracker, and its clients\<close>

text \<open>
  What the texture tracker and the submit-time initialisation rely on: a query never misses
  an uninitialised index and never leaves the queried range; draining yields exactly the
  uninitialised part and removes the query.
\<close>

locale range_tracker =
  fixes unin :: "'t \<Rightarrow> 'i::linorder set" and invar :: "'t \<Rightarrow> bool"
    and chk :: "'t \<Rightarrow> 'i range_t \<Rightarrow> 'i range_t option"
  assumes chk_None: "invar t \<Longrightarrow> chk t q = None \<Longrightarrow> unin t \<inter> iv q = {}"
    and chk_Some: "invar t \<Longrightarrow> chk t q = Some r \<Longrightarrow>
      unin t \<inter> iv q \<subseteq> iv r \<and> rstart q \<le> rstart r \<and> rend r \<le> rend q"

locale draining_tracker = range_tracker +
  fixes drn :: "'a \<Rightarrow> 'b::linorder range_t \<Rightarrow> 'b range_t list \<times> 'a"
  assumes drn_invar: "invar t \<Longrightarrow> rstart q \<le> rend q \<Longrightarrow> invar (snd (drn t q))"
    and drn_unin: "invar t \<Longrightarrow> rstart q \<le> rend q \<Longrightarrow> unin (snd (drn t q)) = unin t - iv q"
    and drn_items: "invar t \<Longrightarrow> rstart q \<le> rend q \<Longrightarrow> uninit_of (fst (drn t q)) = unin t \<inter> iv q"
    and drn_sorted: "invar t \<Longrightarrow> rstart q \<le> rend q \<Longrightarrow> ranges_wf (fst (drn t q))"

interpretation linear: draining_tracker uninit tracker_wf check drain_all
proof unfold_locales
  fix t :: "'a::linorder init_tracker" and q r
  assume wf: "tracker_wf t"
  show "check t q = None \<Longrightarrow> uninit t \<inter> iv q = {}"
    by (rule check_contract(1) [OF wf])
  show "check t q = Some r \<Longrightarrow> uninit t \<inter> iv q \<subseteq> iv r \<and> rstart q \<le> rstart r \<and> rend r \<le> rend q"
    by (rule check_contract(2) [OF wf])
  assume q: "rstart q \<le> rend q"
  note d = drain_all_contract [OF wf q surjective_pairing]
  show "tracker_wf (snd (drain_all t q))" "uninit (snd (drain_all t q)) = uninit t - iv q"
    "uninit_of (fst (drain_all t q)) = uninit t \<inter> iv q" "ranges_wf (fst (drain_all t q))"
    by (rule d)+
qed

subsection \<open>Buffer actions\<close>

text \<open>A buffer is identified by its tracker index, the key the code looks its state up with.\<close>

record buffer_init_tracker_action =
  bi_buffer :: nat
  bi_range :: "u64 range_t"
  bi_kind :: memory_init_kind

definition buffer_create_action ::
  "u64 init_tracker \<Rightarrow> nat \<Rightarrow> u64 range_t \<Rightarrow> memory_init_kind \<Rightarrow> buffer_init_tracker_action option" where
  "buffer_create_action t buffer query_range kind =
     map_option (\<lambda>rg. \<lparr>bi_buffer = buffer, bi_range = rg, bi_kind = kind\<rparr>) (check t query_range)"

definition buffer_check_action ::
  "u64 init_tracker \<Rightarrow> buffer_init_tracker_action \<Rightarrow> buffer_init_tracker_action option" where
  "buffer_check_action t action =
     buffer_create_action t (bi_buffer action) (bi_range action) (bi_kind action)"

subsection \<open>The texture tracker\<close>

record texture_init_range =
  mip_range :: "u32 range_t"
  layer_range :: "u32 range_t"

record texture_init_tracker_action =
  ti_texture :: nat
  ti_range :: texture_init_range
  ti_kind :: memory_init_kind

record texture_init_tracker =
  mips :: "u32 init_tracker list"

text \<open>\<open>ArrayVec\<close> holds at most \<open>hal::MAX_MIP_LEVELS\<close> trackers; collecting more panics.\<close>

definition MAX_MIP_LEVELS :: nat where "MAX_MIP_LEVELS = 16"

definition new_texture_tracker :: "u32 \<Rightarrow> u32 \<Rightarrow> texture_init_tracker option" where
  "new_texture_tracker mip_level_count depth_or_array_layers =
     (if unat mip_level_count \<le> MAX_MIP_LEVELS then
        Some \<lparr>mips = replicate (unat mip_level_count) (new_tracker depth_or_array_layers)\<rparr>
      else None)"

text \<open>
  The loop of \<open>check_action\<close>, with its four running bounds, over the trackers selected by
  \<open>take\<close> and \<open>skip\<close>; \<open>i\<close> is the index that \<open>enumerate\<close> gives.
\<close>

type_synonym 'i mip_bounds = "nat \<times> nat \<times> 'i \<times> 'i"

fun scan_mips ::
  "('t \<Rightarrow> 'i::linorder range_t \<Rightarrow> 'i range_t option) \<Rightarrow> 'i range_t \<Rightarrow> nat \<Rightarrow> 't list \<Rightarrow>
     'i mip_bounds \<Rightarrow> 'i mip_bounds" where
  "scan_mips chk layers i [] b = b"
| "scan_mips chk layers i (t # ts) (ms, me, ls, le) =
     (case chk t layers of
        Some u \<Rightarrow> scan_mips chk layers (i + 1) ts (min ms i, i + 1, min ls (rstart u), max le (rend u))
      | None \<Rightarrow> scan_mips chk layers (i + 1) ts (ms, me, ls, le))"

text \<open>\<open>usize\<close> is 64 bits wide; \<open>usize::MAX\<close> is the start value of the lower mip bound.\<close>

definition usize_max :: nat where "usize_max = 2 ^ 64 - 1"

definition texture_check_action ::
  "texture_init_tracker \<Rightarrow> texture_init_tracker_action \<Rightarrow> texture_init_tracker_action option" where
  "texture_check_action t action =
     (let mip = mip_range (ti_range action);
          lo = unat (rstart mip);
          (ms, me, ls, le) =
            scan_mips check (layer_range (ti_range action)) lo
              (drop lo (take (unat (rend mip)) (mips t))) (usize_max, 0, -1, 0)
      in if ms < me \<and> ls < le then
           Some (action\<lparr>ti_range := \<lparr>mip_range = Range (of_nat ms) (of_nat me), layer_range = Range ls le\<rparr>\<rparr>)
         else None)"

definition texture_discard :: "texture_init_tracker \<Rightarrow> u32 \<Rightarrow> u32 \<Rightarrow> texture_init_tracker option" where
  "texture_discard t mip_level layer =
     (let m = unat mip_level in
      if m < length (mips t) then Some (t\<lparr>mips := (mips t)[m := discard (mips t ! m) layer]\<rparr>) else None)"

text \<open>The uninitialised subresources of a texture, as pairs of mip level and array layer.\<close>

definition texture_uninit :: "texture_init_tracker \<Rightarrow> (nat \<times> u32) set" where
  "texture_uninit t = {(m, l). m < length (mips t) \<and> l \<in> uninit (mips t ! m)}"

definition subresources :: "texture_init_range \<Rightarrow> (nat \<times> u32) set" where
  "subresources r = {(m, l). unat (rstart (mip_range r)) \<le> m \<and> m < unat (rend (mip_range r)) \<and> l \<in> iv (layer_range r)}"

definition texture_wf :: "texture_init_tracker \<Rightarrow> bool" where
  "texture_wf t \<longleftrightarrow> length (mips t) \<le> MAX_MIP_LEVELS \<and> (\<forall>m\<in>set (mips t). tracker_wf m)"

context range_tracker
begin

text \<open>
  The scan starts from bounds and only widens them; every uninitialised index of a scanned
  tracker inside the query ends up within them; and they stay inside the query.
\<close>

lemma scan_mips_bounds:
  assumes "\<forall>t\<in>set ts. invar t" "me \<le> i" "scan_mips chk q i ts (ms, me, ls, le) = (ms', me', ls', le')"
  shows "ms' \<le> ms \<and> me \<le> me' \<and> ls' \<le> ls \<and> le \<le> le' \<and>
    min ms i \<le> ms' \<and> me' \<le> max me (i + length ts) \<and> min ls (rstart q) \<le> ls' \<and> le' \<le> max le (rend q)"
  using assms
proof (induction ts arbitrary: i ms me ls le)
  case Nil
  then show ?case by auto
next
  case (Cons t ts)
  show ?case
  proof (cases "chk t q")
    case None
    then have rec: "scan_mips chk q (i + 1) ts (ms, me, ls, le) = (ms', me', ls', le')"
      using Cons.prems(3) by simp
    have "me \<le> i + 1" and inv: "\<forall>t\<in>set ts. invar t" using Cons.prems by auto
    from Cons.IH [OF inv this(1) rec] show ?thesis by auto
  next
    case (Some u)
    then have rec: "scan_mips chk q (i + 1) ts (min ms i, i + 1, min ls (rstart u), max le (rend u)) = (ms', me', ls', le')"
      using Cons.prems(3) by simp
    have inv: "\<forall>t\<in>set ts. invar t" using Cons.prems by auto
    have "rstart q \<le> rstart u" "rend u \<le> rend q" using Cons.prems(1) chk_Some Some by auto
    then have "min (min ls (rstart u)) (rstart q) = min ls (rstart q)"
      "max (max le (rend u)) (rend q) = max le (rend q)"
      by (simp_all add: min.assoc max.assoc min.absorb2 max.absorb2)
    with Cons.IH [OF inv order_refl rec] Cons.prems(2) show ?thesis by auto
  qed
qed

lemma scan_mips_covers:
  assumes "\<forall>t\<in>set ts. invar t" "me \<le> i" "scan_mips chk q i ts (ms, me, ls, le) = (ms', me', ls', le')"
    and "k < length ts" "l \<in> unin (ts ! k) \<inter> iv q"
  shows "ms' \<le> i + k \<and> i + k < me' \<and> ls' \<le> l \<and> l < le'"
  using assms
proof (induction ts arbitrary: i ms me ls le k)
  case Nil
  then show ?case by simp
next
  case (Cons t ts)
  let ?b = "case chk t q of None \<Rightarrow> (ms, me, ls, le) | Some u \<Rightarrow> (min ms i, i + 1, min ls (rstart u), max le (rend u))"
  obtain ms1 me1 ls1 le1 where b: "?b = (ms1, me1, ls1, le1)" by (rule prod_cases4)
  have le: "me1 \<le> i + 1" using b Cons.prems(2) by (auto split: option.splits)
  have rec: "scan_mips chk q (i + 1) ts (ms1, me1, ls1, le1) = (ms', me', ls', le')"
    using Cons.prems(3) b by (auto split: option.splits)
  show ?case
  proof (cases k)
    case 0
    then have l: "l \<in> unin t \<inter> iv q" using Cons.prems(5) by simp
    moreover have "invar t" using Cons.prems(1) by simp
    ultimately obtain u where u: "chk t q = Some u" using chk_None by (cases "chk t q") auto
    then have "l \<in> iv u" using chk_Some l \<open>invar t\<close> by blast
    moreover have "ms' \<le> ms1 \<and> me1 \<le> me' \<and> ls' \<le> ls1 \<and> le1 \<le> le'"
      using scan_mips_bounds [OF _ le rec] Cons.prems(1) by simp
    moreover have "ms1 \<le> i" "me1 = i + 1" "ls1 \<le> rstart u" "rend u \<le> le1" using b u by auto
    ultimately show ?thesis using 0 by auto
  next
    case (Suc k')
    then show ?thesis using Cons.IH [OF _ le rec, of k'] Cons.prems(1,4,5) by simp
  qed
qed

end

text \<open>The four bounds of \<open>check_action\<close> on the trackers of one texture.\<close>

lemma texture_scan:
  assumes wf: "texture_wf t"
    and scan: "scan_mips check q lo (drop lo (take hi (mips t))) (usize_max, 0, -1, 0) = (ms, me, ls, le)"
    and lo: "lo < 2 ^ 32"
  shows "lo \<le> ms" "rstart q \<le> ls" "le \<le> rend q" "me \<le> hi \<or> me \<le> lo" "me \<le> MAX_MIP_LEVELS \<or> me \<le> lo"
    "\<lbrakk>lo \<le> m; m < hi; m < length (mips t); l \<in> uninit (mips t ! m); l \<in> iv q\<rbrakk> \<Longrightarrow> ms \<le> m \<and> m < me \<and> ls \<le> l \<and> l < le"
proof -
  have inv: "\<forall>m\<in>set (drop lo (take hi (mips t))). tracker_wf m"
    using wf by (auto simp: texture_wf_def dest!: in_set_dropD in_set_takeD)
  note b = linear.scan_mips_bounds [OF inv _ scan]
  show "lo \<le> ms" using b lo by (simp add: usize_max_def)
  show "rstart q \<le> ls" "le \<le> rend q" using b by simp_all
  have "me \<le> max 0 (lo + (min hi (length (mips t)) - lo))" using b by (simp add: min.commute)
  then show "me \<le> hi \<or> me \<le> lo" "me \<le> MAX_MIP_LEVELS \<or> me \<le> lo"
    using wf by (auto simp: texture_wf_def)
  assume m: "lo \<le> m" "m < hi" "m < length (mips t)" "l \<in> uninit (mips t ! m)" "l \<in> iv q"
  have "l \<in> uninit (drop lo (take hi (mips t)) ! (m - lo)) \<inter> iv q"
    using m by simp
  then have "ms \<le> lo + (m - lo) \<and> lo + (m - lo) < me \<and> ls \<le> l \<and> l < le"
    using m by (intro linear.scan_mips_covers [OF inv _ scan]) auto
  with m show "ms \<le> m \<and> m < me \<and> ls \<le> l \<and> l < le" by simp
qed

lemma unat_of_small: "n \<le> MAX_MIP_LEVELS \<Longrightarrow> unat (of_nat n :: u32) = n"
  by (simp add: MAX_MIP_LEVELS_def unat_of_nat)

lemma texture_check_cases:
  assumes wf: "texture_wf t"
  shows "texture_check_action t a = None \<Longrightarrow> texture_uninit t \<inter> subresources (ti_range a) = {}"
    and "texture_check_action t a = Some a' \<Longrightarrow>
      texture_uninit t \<inter> subresources (ti_range a) \<subseteq> subresources (ti_range a') \<and>
      subresources (ti_range a') \<subseteq> subresources (ti_range a) \<and>
      ti_texture a' = ti_texture a \<and> ti_kind a' = ti_kind a"
proof -
  let ?lo = "unat (rstart (mip_range (ti_range a)))" and ?hi = "unat (rend (mip_range (ti_range a)))"
  let ?q = "layer_range (ti_range a)"
  obtain ms me ls le where scan:
    "scan_mips check ?q ?lo (drop ?lo (take ?hi (mips t))) (usize_max, 0, -1, 0) = (ms, me, ls, le)"
    by (rule prod_cases4)
  have lo: "?lo < 2 ^ 32" using unsigned_less [of "rstart (mip_range (ti_range a))"] by simp
  note b = texture_scan [OF wf scan lo]
  have cover: "ms \<le> m \<and> m < me \<and> ls \<le> l \<and> l < le"
    if "(m, l) \<in> texture_uninit t \<inter> subresources (ti_range a)" for m l
    using that b(6) [of m l] by (auto simp: texture_uninit_def subresources_def)
  have eq: "texture_check_action t a =
     (if ms < me \<and> ls < le then
        Some (a\<lparr>ti_range := \<lparr>mip_range = Range (of_nat ms) (of_nat me), layer_range = Range ls le\<rparr>\<rparr>)
      else None)"
    by (simp add: texture_check_action_def scan)
  show "texture_uninit t \<inter> subresources (ti_range a) = {}" if none: "texture_check_action t a = None"
  proof (rule equals0I)
    fix x assume "x \<in> texture_uninit t \<inter> subresources (ti_range a)"
    then have "ms < me \<and> ls < le" using cover [of "fst x" "snd x"] by auto
    with none eq show False by simp
  qed
  assume "texture_check_action t a = Some a'"
  then have lt: "ms < me" and a': "a' = a\<lparr>ti_range := \<lparr>mip_range = Range (of_nat ms) (of_nat me), layer_range = Range ls le\<rparr>\<rparr>"
    using eq by (auto split: if_splits)
  have "me \<le> ?hi" "me \<le> MAX_MIP_LEVELS" using b(1,4,5) lt by auto
  then have small: "unat (of_nat ms :: u32) = ms" "unat (of_nat me :: u32) = me"
    using lt by (auto intro!: unat_of_small)
  have "texture_uninit t \<inter> subresources (ti_range a) \<subseteq> subresources (ti_range a')"
    using cover small by (auto simp: a' subresources_def)
  moreover have "subresources (ti_range a') \<subseteq> subresources (ti_range a)"
    using small b(1-3) \<open>me \<le> ?hi\<close> by (auto simp: a' subresources_def intro: order_trans less_le_trans)
  ultimately show "texture_uninit t \<inter> subresources (ti_range a) \<subseteq> subresources (ti_range a') \<and>
      subresources (ti_range a') \<subseteq> subresources (ti_range a) \<and>
      ti_texture a' = ti_texture a \<and> ti_kind a' = ti_kind a"
    by (simp add: a')
qed

lemma uninitialized_collect_run:
  assumes "\<forall>r\<in>set mid. rstart r < rend q" "\<forall>r\<in>set post. rend q \<le> rstart r"
  shows "uninitialized_collect \<lparr>ui_ranges = pre @ mid @ post, ui_drain_range = q, ui_next_index = length pre\<rparr>
    = map (\<lambda>r. range_inter r q) mid"
  using assms
proof (induction mid arbitrary: pre)
  case Nil
  then show ?case
    by (subst uninitialized_collect.simps, cases post)
       (auto simp: uninitialized_iter_next_def vec_get_def nth_append dest: leD)
next
  case (Cons m mid)
  have "uninitialized_collect \<lparr>ui_ranges = (pre @ [m]) @ mid @ post, ui_drain_range = q,
      ui_next_index = length (pre @ [m])\<rparr> = map (\<lambda>r. range_inter r q) mid"
    using Cons.prems by (intro Cons.IH) auto
  then show ?case
    using Cons.prems(1)
    by (subst uninitialized_collect.simps) (simp add: uninitialized_iter_next_def range_inter_def)
qed

lemma uninitialized_eq_drain:
  assumes "tracker_wf t" "rstart q \<le> rend q"
  shows "uninitialized_collect (uninitialized t q) = fst (drain_all t q)"
proof -
  from assms have "ranges_wf (uninitialized_ranges t)" by (simp add: tracker_wf_def)
  from this assms(2) obtain pre mid post where sp: "uninitialized_ranges t = pre @ mid @ post"
    and mid: "\<forall>r\<in>set mid. rstart q < rend r \<and> rstart r < rend q"
    and post: "\<forall>r\<in>set post. rend q \<le> rstart r"
    and pp: "partition_point (\<lambda>r. rend r \<le> rstart q) (uninitialized_ranges t) = length pre"
    by (rule ranges_split) blast
  have "uninitialized t q = \<lparr>ui_ranges = pre @ mid @ post, ui_drain_range = q, ui_next_index = length pre\<rparr>"
    using pp by (simp add: uninitialized_def sp)
  then show ?thesis
    using drain_all_split [OF sp mid post assms(2) pp] uninitialized_collect_run [of mid q post pre] mid post
    by simp
qed

section \<open>Properties\<close>

text \<open>C18: Draining a query from a well-formed tracker yields, in order and without overlap,
  exactly the uninitialised indices of the query; the tracker stays well-formed and afterwards
  holds exactly its former uninitialised indices less the query. Dropping the iterator unread
  has the same effect on the tracker, and the read-only iterator yields the same ranges.\<close>

theorem drain_exact:
  assumes "tracker_wf t" and "rstart q \<le> rend q"
  shows "tracker_wf (snd (drain_all t q)) \<and> uninit (snd (drain_all t q)) = uninit t - iv q
    \<and> ranges_wf (fst (drain_all t q)) \<and> uninit_of (fst (drain_all t q)) = uninit t \<inter> iv q
    \<and> drain_unread t q = snd (drain_all t q)
    \<and> uninitialized_collect (uninitialized t q) = fst (drain_all t q)"
  using linear.drn_invar [OF assms] linear.drn_unin [OF assms] linear.drn_sorted [OF assms]
    linear.drn_items [OF assms] uninitialized_eq_drain [OF assms]
  by (simp add: drain_unread_eq)

theorem drain_exact_witness:
  "uninit (snd (drain_all (new_tracker (10 :: u32)) (Range 3 7))) = uninit (new_tracker (10 :: u32)) - iv (Range 3 7)"
  using drain_exact [of "new_tracker (10 :: u32)" "Range 3 7"]
  by (simp add: tracker_wf_def new_tracker_def del: mem_iv)

text \<open>C23: \<open>check\<close> is sound on a well-formed tracker, whose ranges are sorted and disjoint; a new tracker is
  well formed and draining keeps it so, but a discard behind a gap does not (C26). If \<open>check\<close> reports nothing,
  no index of the query is uninitialised; a reported range lies within the query and holds every
  uninitialised index of it.\<close>

theorem check_sound:
  assumes "tracker_wf t"
  shows "case check t q of
      None \<Rightarrow> uninit t \<inter> iv q = {}
    | Some r \<Rightarrow> uninit t \<inter> iv q \<subseteq> iv r \<and> rstart q \<le> rstart r \<and> rend r \<le> rend q"
  using linear.chk_None [OF assms] linear.chk_Some [OF assms] by (simp split: option.split)

theorem check_sound_witness:
  "check \<lparr>uninitialized_ranges = [Range (5 :: u32) 10, Range 15 20]\<rparr> (Range 3 8) = Some (Range 5 8)
   \<and> uninit \<lparr>uninitialized_ranges = [Range (5 :: u32) 10, Range 15 20]\<rparr> \<inter> iv (Range 3 8) \<subseteq> iv (Range 5 8)"
proof -
  let ?t = "\<lparr>uninitialized_ranges = [Range (5 :: u32) 10, Range 15 20]\<rparr>"
  have c: "check ?t (Range 3 8) = Some (Range 5 8)"
    by (simp add: check_def partition_point_def vec_get_def)
  have "tracker_wf ?t" by (simp add: tracker_wf_def)
  from check_sound [OF this, of "Range 3 8"] c show ?thesis by (simp only: option.case)
qed

text \<open>C24: When the tracker of every mip level is well formed (sorted and disjoint ranges, which a discard behind
  a gap breaks, C26), the texture tracker's \<open>check_action\<close> loses no uninitialised subresource: with
  no action returned, no subresource of the action's mips and layers is uninitialised; a
  returned action stays within the requested one, keeps its texture and kind, and covers every
  uninitialised subresource of it.\<close>

theorem texture_check_action_covers:
  assumes "texture_wf t"
  shows "case texture_check_action t a of
      None \<Rightarrow> texture_uninit t \<inter> subresources (ti_range a) = {}
    | Some a' \<Rightarrow>
        texture_uninit t \<inter> subresources (ti_range a) \<subseteq> subresources (ti_range a') \<and>
        subresources (ti_range a') \<subseteq> subresources (ti_range a) \<and>
        ti_texture a' = ti_texture a \<and> ti_kind a' = ti_kind a"
proof (cases "texture_check_action t a")
  case None
  then show ?thesis using texture_check_cases(1) [OF assms None] by (simp only: option.case)
next
  case (Some a')
  then show ?thesis using texture_check_cases(2) [OF assms Some] by (simp only: option.case)
qed

theorem texture_check_action_covers_witness:
  "texture_wf \<lparr>mips = [new_tracker 6, \<lparr>uninitialized_ranges = []\<rparr>]\<rparr> \<and>
   texture_uninit \<lparr>mips = [new_tracker 6, \<lparr>uninitialized_ranges = []\<rparr>]\<rparr>
     \<inter> subresources \<lparr>mip_range = Range 1 2, layer_range = Range 0 6\<rparr> = {}"
proof -
  let ?t = "\<lparr>mips = [new_tracker 6, \<lparr>uninitialized_ranges = []\<rparr>]\<rparr>"
  let ?a = "\<lparr>ti_texture = 0, ti_range = \<lparr>mip_range = Range 1 2, layer_range = Range 0 6\<rparr>, ti_kind = ImplicitlyInitialized\<rparr>"
  have wf: "texture_wf ?t" by (simp add: texture_wf_def tracker_wf_def new_tracker_def MAX_MIP_LEVELS_def)
  have "texture_check_action ?t ?a = None"
    by (simp add: texture_check_action_def check_def partition_point_def vec_get_def)
  with texture_check_action_covers [OF wf, of ?a] wf show ?thesis by simp
qed

text \<open>C25: \<open>discard\<close> marks exactly one more index uninitialised, and keeps the ranges ordered
  and apart unless a later range exists that the new index does not touch.\<close>

theorem discard_adds_index:
  assumes "tracker_separated t" and "pos \<noteq> -1"
  shows "uninit (discard t pos) = insert pos (uninit t)
    \<and> (tracker_separated (discard t pos) \<longleftrightarrow> \<not> discard_gap t pos)"
proof (cases "discard_gap t pos")
  case True
  have "\<not> tracker_wf (discard t pos)" using discard_contract(3) [OF assms True] by blast
  then have "\<not> tracker_separated (discard t pos)"
    by (auto simp: tracker_separated_def tracker_wf_def dest: separated_wf)
  with True discard_contract(1) [OF assms] show ?thesis by blast
next
  case False
  with discard_contract(1,2) [OF assms] show ?thesis by blast
qed

theorem discard_adds_index_witness:
  "uninit (discard \<lparr>uninitialized_ranges = [Range 0 3, Range 4 10]\<rparr> 3)
     = insert 3 (uninit \<lparr>uninitialized_ranges = [Range (0 :: u32) 3, Range 4 10]\<rparr>)"
  using discard_adds_index [of "\<lparr>uninitialized_ranges = [Range 0 3, Range 4 10]\<rparr>" 3]
  by (simp add: tracker_separated_def del: mem_iv)



end
