(* ===== verification/MemoryInit.thy ===== *)
theory MemoryInit
  imports InitTracker
begin

text \<open>
  Initialisation of memory around a command buffer, \<open>wgpu-core/src/command/memory_init.rs\<close>:
  the actions a command buffer records for its textures, and the clears that a submission
  inserts for the buffers. A buffer and a texture are named by their tracker index; the
  trackers of all buffers (each behind its own lock in the source) are a function of it. The
  barrier that precedes the clears belongs to the usage tracker and is left out.
\<close>

section \<open>Texture actions of a command buffer\<close>

record texture_surface_discard =
  sd_texture :: nat
  sd_mip_level :: u32
  sd_layer :: u32

record texture_memory_actions =
  init_actions :: "texture_init_tracker_action list"
  discards :: "texture_surface_discard list"

definition no_memory_actions :: texture_memory_actions where
  "no_memory_actions = \<lparr>init_actions = [], discards = []\<rparr>"

definition record_discard ::
  "texture_memory_actions \<Rightarrow> texture_surface_discard \<Rightarrow> texture_memory_actions" where
  "record_discard m d = m\<lparr>discards := discards m @ [d]\<rparr>"

definition discard_hit :: "texture_init_tracker_action \<Rightarrow> texture_surface_discard \<Rightarrow> bool" where
  "discard_hit a d \<longleftrightarrow>
     sd_texture d = ti_texture a \<and> sd_layer d \<in> iv (layer_range (ti_range a))
     \<and> sd_mip_level d \<in> iv (mip_range (ti_range a))"

definition surface_range :: "texture_surface_discard \<Rightarrow> texture_init_range" where
  "surface_range d =
     \<lparr>mip_range = Range (sd_mip_level d) (sd_mip_level d + 1),
      layer_range = Range (sd_layer d) (sd_layer d + 1)\<rparr>"

definition register_init_action ::
  "(nat \<Rightarrow> texture_init_tracker) \<Rightarrow> texture_memory_actions \<Rightarrow> texture_init_tracker_action
   \<Rightarrow> texture_surface_discard list \<times> texture_memory_actions" where
  "register_init_action status m a =
     (let checked = (case texture_check_action (status (ti_texture a)) a of
                       Some a' \<Rightarrow> [a'] | None \<Rightarrow> []);
          hits = filter (discard_hit a) (discards m);
          immediate = (if ti_kind a = NeedsInitializedMemory then hits else []);
          implicit = map (\<lambda>d. \<lparr>ti_texture = sd_texture d, ti_range = surface_range d,
                               ti_kind = ImplicitlyInitialized\<rparr>) immediate
      in (immediate,
          \<lparr>init_actions = init_actions m @ checked @ implicit,
           discards = filter (\<lambda>d. \<not> discard_hit a d) (discards m)\<rparr>))"

text \<open>\<open>None\<close> is the failure of the assertion.\<close>

definition register_implicit_init ::
  "(nat \<Rightarrow> texture_init_tracker) \<Rightarrow> texture_memory_actions \<Rightarrow> nat \<Rightarrow> texture_init_range
   \<Rightarrow> texture_memory_actions option" where
  "register_implicit_init status m texture rg =
     (let (must_be_empty, m') =
            register_init_action status m
              \<lparr>ti_texture = texture, ti_range = rg, ti_kind = ImplicitlyInitialized\<rparr>
      in if must_be_empty = [] then Some m' else None)"

section \<open>Buffer memory at submission\<close>

definition COPY_BUFFER_ALIGNMENT :: u64 where "COPY_BUFFER_ALIGNMENT = 4"

definition align_end :: "u64 \<Rightarrow> u64" where
  "align_end e =
     (let end_remainder = e mod COPY_BUFFER_ALIGNMENT in
      if end_remainder = 0 then e else e + COPY_BUFFER_ALIGNMENT - end_remainder)"

type_synonym buffer_status = "nat \<Rightarrow> u64 init_tracker"
type_synonym buffer_entries = "(nat \<times> u64 range_t list) list"

text \<open>The hash map of the ranges per buffer, as the list of its entries in insertion order.\<close>

fun entry_extend :: "nat \<Rightarrow> u64 range_t list \<Rightarrow> buffer_entries \<Rightarrow> buffer_entries" where
  "entry_extend b rs [] = [(b, rs)]"
| "entry_extend b rs ((b', rs') # es) =
     (if b = b' then (b', rs' @ rs) # es else (b', rs') # entry_extend b rs es)"

definition gather_action ::
  "buffer_init_tracker_action \<Rightarrow> buffer_status \<times> buffer_entries \<Rightarrow> buffer_status \<times> buffer_entries" where
  "gather_action a s =
     (let (status, es) = s; b = bi_buffer a;
          q = Range (rstart (bi_range a)) (align_end (rend (bi_range a)))
      in case bi_kind a of
           ImplicitlyInitialized \<Rightarrow> (status(b := drain_unread (status b) q), es)
         | NeedsInitializedMemory \<Rightarrow>
             (let (items, t) = drain_all (status b) q
              in (status(b := t), entry_extend b items es)))"

text \<open>
  The loop that collapses touching ranges, from the last index down; the assertion is \<open>None\<close>.
\<close>

fun collapse_from :: "nat \<Rightarrow> u64 range_t list \<Rightarrow> u64 range_t list option" where
  "collapse_from 0 rs = Some rs"
| "collapse_from (Suc i) rs =
     (if rend (rs ! i) \<le> rstart (rs ! Suc i) then
        collapse_from i
          (if rstart (rs ! Suc i) = rend (rs ! i)
           then swap_remove (Suc i) (rs[i := Range (rstart (rs ! i)) (rend (rs ! Suc i))])
           else rs)
      else None)"

definition collapse_ranges :: "u64 range_t list \<Rightarrow> u64 range_t list option" where
  "collapse_ranges rs = (let rs' = sort_key rstart rs in collapse_from (length rs' - 1) rs')"

datatype clear_command = ClearBuffer nat "u64 range_t"

definition aligned :: "u64 \<Rightarrow> bool" where
  "aligned x \<longleftrightarrow> x mod COPY_BUFFER_ALIGNMENT = 0"

text \<open>
  The second loop: the clears it records, and the buffer it stops at when one has been
  destroyed. \<open>None\<close> is a failed assertion.
\<close>

fun clear_entries ::
  "(nat \<Rightarrow> bool) \<Rightarrow> buffer_entries \<Rightarrow> (clear_command list \<times> (nat + unit)) option" where
  "clear_entries destroyed [] = Some ([], Inr ())"
| "clear_entries destroyed ((b, rs) # es) =
     (case collapse_ranges rs of
        None \<Rightarrow> None
      | Some out \<Rightarrow>
          if destroyed b then Some ([], Inl b)
          else if (\<forall>r\<in>set out. aligned (rstart r) \<and> aligned (rend r)) then
            (case clear_entries destroyed es of
               None \<Rightarrow> None
             | Some (cmds, r) \<Rightarrow> Some (map (ClearBuffer b) out @ cmds, r))
          else None)"

definition initialize_buffer_memory ::
  "(nat \<Rightarrow> bool) \<Rightarrow> buffer_init_tracker_action list \<Rightarrow> buffer_status
   \<Rightarrow> (buffer_status \<times> clear_command list \<times> (nat + unit)) option" where
  "initialize_buffer_memory destroyed acts status =
     (let (status', es) = fold gather_action acts (status, [])
      in map_option (\<lambda>(cmds, r). (status', cmds, r)) (clear_entries destroyed es))"

section \<open>Collapsing touching ranges\<close>

text \<open>
  The state of the loop: a well-formed prefix that ends in the current range, and a suffix in
  any order. Merging keeps the union, and the end points are those of the input.
\<close>

lemma swap_remove_end: "swap_remove (Suc (length pre)) (pre @ a # x # post) =
   pre @ a # (if post = [] then [] else last post # butlast post)"
proof (cases post rule: rev_cases)
  case Nil
  have "(pre @ [a, x])[Suc (length pre) := x] = pre @ [a, x]"
    by (simp add: list_update_append)
  with Nil show ?thesis by (simp add: swap_remove_def butlast_append)
next
  case (snoc ys y)
  then show ?thesis by (simp add: swap_remove_def butlast_append list_update_append)
qed

lemma collapse_from_ok:
  assumes "ranges_wf (pre @ [a])"
  shows "\<exists>out. collapse_from (length pre) (pre @ a # post) = Some out
     \<and> uninit_of out = uninit_of pre \<union> iv a \<union> uninit_of post
     \<and> rstart ` set out \<subseteq> rstart ` set (pre @ a # post)
     \<and> rend ` set out \<subseteq> rend ` set (pre @ a # post)"
  using assms
proof (induction pre arbitrary: a post rule: rev_induct)
  case Nil
  then show ?case by auto
next
  case (snoc p pre)
  have wf: "ranges_wf (pre @ [p])" and pa: "rstart p \<le> rend p" "rend p \<le> rstart a" "rstart a \<le> rend a"
    and wf': "ranges_wf (pre @ [Range (rstart p) (rend a)])"
    using snoc.prems by (auto intro: order_trans)
  let ?rs = "pre @ p # a # post"
  have nth: "?rs ! length pre = p" "?rs ! Suc (length pre) = a"
    by (simp_all add: nth_append)
  show ?case
  proof (cases "rstart a = rend p")
    case True
    let ?m = "Range (rstart p) (rend a)"
    let ?post = "if post = [] then [] else last post # butlast post"
    have step: "collapse_from (Suc (length pre)) ?rs = collapse_from (length pre) (pre @ ?m # ?post)"
      using True pa nth swap_remove_end [of pre ?m a post] by (simp add: list_update_append)
    have post: "set ?post = set post"
      by (cases post rule: rev_cases) auto
    have m: "iv ?m = iv p \<union> iv a"
      using iv_join [of "rstart p" "rend p" "rend a"] True pa by (metis range_t.collapse)
    obtain out where out: "collapse_from (length pre) (pre @ ?m # ?post) = Some out"
      "uninit_of out = uninit_of pre \<union> iv ?m \<union> uninit_of ?post"
      "rstart ` set out \<subseteq> rstart ` set (pre @ ?m # ?post)"
      "rend ` set out \<subseteq> rend ` set (pre @ ?m # ?post)"
      using snoc.IH [OF wf', of ?post] by blast
    have "uninit_of out = uninit_of (pre @ [p]) \<union> iv a \<union> uninit_of post"
      using out(2) post m by (simp add: uninit_of_def Un_ac del: mem_iv)
    moreover have "rstart ` set (pre @ ?m # ?post) \<subseteq> rstart ` set ?rs"
      "rend ` set (pre @ ?m # ?post) \<subseteq> rend ` set ?rs"
      using post by auto
    then have "rstart ` set out \<subseteq> rstart ` set ?rs" "rend ` set out \<subseteq> rend ` set ?rs"
      using out(3,4) by (meson subset_trans)+
    ultimately show ?thesis using out(1) step
      by (intro exI [of _ out]) (simp del: mem_iv collapse_from.simps)
  next
    case False
    then have "collapse_from (Suc (length pre)) ?rs = collapse_from (length pre) (pre @ p # (a # post))"
      using pa nth by simp
    with snoc.IH [OF wf, of "a # post"] show ?thesis by (auto simp del: mem_iv)
  qed
qed


text \<open>
  What the drained ranges of one buffer satisfy: none is empty, no two share an index, and
  their end points are aligned.
\<close>

definition proper_ranges :: "u64 range_t list \<Rightarrow> bool" where
  "proper_ranges rs \<longleftrightarrow> distinct rs
     \<and> (\<forall>r\<in>set rs. rstart r < rend r \<and> aligned (rstart r) \<and> aligned (rend r))
     \<and> (\<forall>r\<in>set rs. \<forall>s\<in>set rs. r \<noteq> s \<longrightarrow> iv r \<inter> iv s = {})"

lemma disjoint_order:
  fixes r s :: "'i::linorder range_t"
  assumes "iv r \<inter> iv s = {}" and "rstart r < rend r" and "rstart s < rend s"
    and "rstart r \<le> rstart s"
  shows "rend r \<le> rstart s"
proof (rule ccontr)
  assume "\<not> rend r \<le> rstart s"
  with assms(3,4) have "rstart s \<in> iv r \<inter> iv s" by simp
  with assms(1) show False by simp
qed

lemma sorted_proper_wf:
  assumes "sorted (map rstart rs)" and "proper_ranges rs"
  shows "ranges_wf rs"
  using assms
proof (induction rs)
  case (Cons r rs)
  have "proper_ranges rs" using Cons.prems(2) by (simp add: proper_ranges_def)
  moreover have "rend r \<le> rstart s" if "s \<in> set rs" for s
  proof (rule disjoint_order)
    have "r \<noteq> s" using Cons.prems(2) that by (auto simp: proper_ranges_def)
    with Cons.prems(2) that show "iv r \<inter> iv s = {}" by (simp add: proper_ranges_def del: mem_iv)
  qed (use Cons.prems that in \<open>auto simp: proper_ranges_def\<close>)
  ultimately show ?case using Cons by (auto simp: proper_ranges_def intro: less_imp_le)
qed simp

lemma collapse_ranges_ok:
  assumes "proper_ranges rs"
  shows "\<exists>out. collapse_ranges rs = Some out \<and> uninit_of out = uninit_of rs
    \<and> (\<forall>r\<in>set out. aligned (rstart r) \<and> aligned (rend r))"
proof (cases "sort_key rstart rs" rule: rev_cases)
  case Nil
  then have "rs = []" by (metis length_0_conv length_sort)
  then show ?thesis by (simp add: collapse_ranges_def)
next
  case (snoc pre a)
  have set: "set (pre @ [a]) = set rs" using snoc by (metis set_sort)
  have "proper_ranges (sort_key rstart rs)" using assms by (simp add: proper_ranges_def)
  then have "ranges_wf (sort_key rstart rs)" by (rule sorted_proper_wf [OF sorted_sort_key])
  then have "ranges_wf (pre @ [a])" by (simp only: snoc)
  from collapse_from_ok [OF this, of "[]"] obtain out where
    out: "collapse_from (length pre) (pre @ [a]) = Some out"
      "uninit_of out = uninit_of (pre @ [a])"
      "rstart ` set out \<subseteq> rstart ` set (pre @ [a])" "rend ` set out \<subseteq> rend ` set (pre @ [a])"
    by (auto simp del: mem_iv)
  have "uninit_of out = uninit_of rs" using out(2) by (simp only: uninit_of_def set)
  moreover have "aligned (rstart r) \<and> aligned (rend r)" if "r \<in> set out" for r
  proof -
    have "rstart r \<in> rstart ` set rs" "rend r \<in> rend ` set rs"
      using out(3,4) that unfolding set by blast+
    then show ?thesis using assms by (auto simp: proper_ranges_def)
  qed
  ultimately show ?thesis using out(1) by (simp add: collapse_ranges_def snoc)
qed


section \<open>What draining a buffer's tracker yields\<close>

text \<open>
  A buffer's tracker keeps aligned ranges, none of them empty save the one of an empty buffer.
\<close>

definition status_ok :: "u64 init_tracker \<Rightarrow> bool" where
  "status_ok t \<longleftrightarrow> tracker_wf t
     \<and> (\<forall>r\<in>set (uninitialized_ranges t). aligned (rstart r) \<and> aligned (rend r)
          \<and> (rstart r < rend r \<or> rend r = 0))"

lemma wf_nonempty_proper:
  assumes "ranges_wf rs" and "\<forall>r\<in>set rs. rstart r < rend r \<and> aligned (rstart r) \<and> aligned (rend r)"
  shows "proper_ranges rs"
  using assms
proof (induction rs)
  case (Cons r rs)
  then have IH: "proper_ranges rs" and later: "\<forall>s\<in>set rs. rend r \<le> rstart s"
    and r: "rstart r < rend r" by auto
  have "r \<notin> set rs" using later r by force
  moreover have "iv r \<inter> iv s = {}" if "s \<in> set rs" for s
    using later that by force
  ultimately show ?case
    using IH Cons.prems(2) by (auto simp: proper_ranges_def simp del: mem_iv)
qed (simp add: proper_ranges_def)

lemma aligned_max_min:
  "aligned x \<Longrightarrow> aligned y \<Longrightarrow> aligned (max x y)" "aligned x \<Longrightarrow> aligned y \<Longrightarrow> aligned (min x y)"
  by (simp_all add: max_def min_def)

lemma drain_all_ok:
  assumes ok: "status_ok t" and q: "rstart q < rend q" and al: "aligned (rstart q)" "aligned (rend q)"
  shows "status_ok (snd (drain_all t q))" and "proper_ranges (fst (drain_all t q))"
proof -
  have q': "rstart q \<le> rend q" using q by simp
  have wf: "tracker_wf t" using ok by (simp add: status_ok_def)
  then have "ranges_wf (uninitialized_ranges t)" by (simp add: tracker_wf_def)
  from this q' obtain pre mid post where sp: "uninitialized_ranges t = pre @ mid @ post"
    and mid: "\<forall>r\<in>set mid. rstart q < rend r \<and> rstart r < rend q"
    and post: "\<forall>r\<in>set post. rend q \<le> rstart r"
    and pp: "partition_point (\<lambda>r. rend r \<le> rstart q) (uninitialized_ranges t) = length pre"
    by (rule ranges_split) blast
  note eq = drain_all_split [OF sp mid post q' pp]
  have mid': "rstart r < rend r \<and> aligned (rstart r) \<and> aligned (rend r)" if "r \<in> set mid" for r
  proof -
    have "rend r \<noteq> 0" using mid that by (auto simp: word_less_nat_alt)
    with ok that show ?thesis by (auto simp: status_ok_def sp)
  qed
  have "ranges_wf (fst (drain_all t q))" by (rule linear.drn_sorted [OF wf q'])
  moreover have "rstart x < rend x \<and> aligned (rstart x) \<and> aligned (rend x)"
    if "x \<in> set (fst (drain_all t q))" for x
  proof -
    from that obtain r where r: "r \<in> set mid" "x = range_inter r q" by (auto simp: eq)
    then show ?thesis using mid mid' [OF r(1)] q al by (simp add: range_inter_def aligned_max_min)
  qed
  ultimately show "proper_ranges (fst (drain_all t q))" by (intro wf_nonempty_proper) auto
  have "aligned (rstart x) \<and> aligned (rend x) \<and> rstart x < rend x" if "x \<in> set (cut_out mid q)" for x
  proof -
    have ne: "mid \<noteq> []" using that by (auto simp: cut_out_def)
    then have "hd mid \<in> set mid" "last mid \<in> set mid" by simp_all
    with that mid' al show ?thesis by (auto simp: cut_out_def split: if_splits)
  qed
  then show "status_ok (snd (drain_all t q))"
    using ok linear.drn_invar [OF wf q'] by (auto simp: status_ok_def eq sp)
qed

section \<open>The clears of a submission\<close>

lemma aligned_unat: "aligned x \<longleftrightarrow> unat x mod 4 = 0"
  by (simp add: aligned_def COPY_BUFFER_ALIGNMENT_def word_unat_eq_iff unat_mod)

lemma unat_align_end:
  assumes "unat e + 4 \<le> 2 ^ 64"
  shows "unat (align_end e) = (if unat e mod 4 = 0 then unat e else unat e + 4 - unat e mod 4)"
proof (cases "unat e mod 4 = 0")
  case True
  then have "e mod 4 = 0" by (simp add: word_unat_eq_iff unat_mod)
  with True show ?thesis by (simp add: align_end_def COPY_BUFFER_ALIGNMENT_def)
next
  case False
  then have nz: "e mod 4 \<noteq> 0" by (simp add: word_unat_eq_iff unat_mod)
  have "unat e + 4 < 2 ^ 64"
  proof (rule ccontr)
    assume "\<not> unat e + 4 < 2 ^ 64"
    with assms have "unat e = 2 ^ 64 - 4" by simp
    with False show False by simp
  qed
  then have "unat (e + 4) = unat e + 4" by (simp add: unat_word_ariths)
  moreover have "e mod 4 \<le> e + 4"
    using calculation mod_less_eq_dividend [of "unat e" 4] by (simp add: word_le_nat_alt unat_mod)
  ultimately have "unat (e + 4 - e mod 4) = unat e + 4 - unat e mod 4"
    by (simp add: unat_sub unat_mod)
  with nz False show ?thesis by (simp add: align_end_def COPY_BUFFER_ALIGNMENT_def Let_def)
qed

lemma align_end_facts:
  assumes "unat e + 4 \<le> 2 ^ 64"
  shows "aligned (align_end e)" and "e \<le> align_end e"
proof -
  show "aligned (align_end e)"
    unfolding aligned_unat unat_align_end [OF assms] by presburger
  have "unat e mod 4 < 4" by simp
  then have "unat e \<le> unat e + 4 - unat e mod 4" by linarith
  then show "e \<le> align_end e"
    unfolding word_le_nat_alt unat_align_end [OF assms] by simp
qed

text \<open>A recorded action of a buffer, and the range that is drained for it.\<close>

definition action_ok :: "buffer_init_tracker_action \<Rightarrow> bool" where
  "action_ok a \<longleftrightarrow> rstart (bi_range a) < rend (bi_range a) \<and> aligned (rstart (bi_range a))
     \<and> unat (rend (bi_range a)) + 4 \<le> 2 ^ 64"

definition action_range :: "buffer_init_tracker_action \<Rightarrow> u64 range_t" where
  "action_range a = Range (rstart (bi_range a)) (align_end (rend (bi_range a)))"

lemma action_range_ok:
  assumes "action_ok a"
  shows "rstart (action_range a) < rend (action_range a)"
    and "aligned (rstart (action_range a))" and "aligned (rend (action_range a))"
  using assms align_end_facts [of "rend (bi_range a)"]
  by (auto simp: action_ok_def action_range_def)

text \<open>
  The specification over sets of addresses: draining makes every byte of an action's range
  initialised; a byte has to be cleared when the first action that covers it needs its value.
\<close>

fun touched :: "buffer_init_tracker_action list \<Rightarrow> nat \<Rightarrow> u64 set" where
  "touched [] b = {}"
| "touched (a # as) b = (if bi_buffer a = b then iv (action_range a) else {}) \<union> touched as b"

fun needed_first :: "buffer_init_tracker_action list \<Rightarrow> nat \<Rightarrow> u64 set" where
  "needed_first [] b = {}"
| "needed_first (a # as) b =
     (if bi_buffer a \<noteq> b then needed_first as b
      else if bi_kind a = NeedsInitializedMemory then iv (action_range a) \<union> needed_first as b
      else needed_first as b - iv (action_range a))"

definition entry :: "nat \<Rightarrow> buffer_entries \<Rightarrow> u64 range_t list" where
  "entry b es = (case map_of es b of Some rs \<Rightarrow> rs | None \<Rightarrow> [])"

lemma entry_extend_entry:
  "entry b' (entry_extend b rs es) = (if b' = b then entry b es @ rs else entry b' es)"
  by (induction b rs es rule: entry_extend.induct) (auto simp: entry_def)

lemma entry_extend_keys:
  "fst ` set (entry_extend b rs es) = insert b (fst ` set es)"
  "distinct (map fst es) \<Longrightarrow> distinct (map fst (entry_extend b rs es))"
proof -
  show keys: "fst ` set (entry_extend b rs es) = insert b (fst ` set es)"
    by (induction b rs es rule: entry_extend.induct) auto
  show "distinct (map fst es) \<Longrightarrow> distinct (map fst (entry_extend b rs es))"
  proof (induction b rs es rule: entry_extend.induct)
    case (2 b rs b' rs' es)
    moreover have "fst ` set (entry_extend b rs es) = insert b (fst ` set es)"
      by (induction b rs es rule: entry_extend.induct) auto
    ultimately show ?case by auto
  qed simp
qed

definition gather_inv :: "buffer_status \<times> buffer_entries \<Rightarrow> bool" where
  "gather_inv s \<longleftrightarrow> distinct (map fst (snd s))
     \<and> (\<forall>b. status_ok (fst s b) \<and> proper_ranges (entry b (snd s))
          \<and> uninit_of (entry b (snd s)) \<inter> uninit (fst s b) = {})"

lemma proper_append:
  assumes "proper_ranges rs" and "proper_ranges qs" and "uninit_of rs \<inter> uninit_of qs = {}"
  shows "proper_ranges (rs @ qs)"
proof -
  have dis: "iv r \<inter> iv q = {}" if "r \<in> set rs" "q \<in> set qs" for r q
    using assms(3) that by (auto simp: uninit_of_def simp del: mem_iv)
  have "r \<noteq> q" if "r \<in> set rs" "q \<in> set qs" for r q
  proof
    assume "r = q"
    with dis [OF that] have "iv r = {}" by simp
    with assms(1) that(1) show False by (auto simp: proper_ranges_def iv_empty simp del: mem_iv)
  qed
  then have "set rs \<inter> set qs = {}" by blast
  moreover have "\<forall>r\<in>set rs. \<forall>s\<in>set rs. r \<noteq> s \<longrightarrow> iv r \<inter> iv s = {}"
    "\<forall>r\<in>set qs. \<forall>s\<in>set qs. r \<noteq> s \<longrightarrow> iv r \<inter> iv s = {}"
    using assms(1,2) unfolding proper_ranges_def by blast+
  then have "\<forall>r\<in>set (rs @ qs). \<forall>s\<in>set (rs @ qs). r \<noteq> s \<longrightarrow> iv r \<inter> iv s = {}"
    using dis by (metis Int_commute Un_iff set_append)
  ultimately show ?thesis
    using assms(1,2) by (auto simp: proper_ranges_def simp del: mem_iv)
qed


lemma gather_action_step:
  assumes inv: "gather_inv s" and a: "action_ok a"
  shows "gather_inv (gather_action a s)"
    and "uninit (fst (gather_action a s) b) =
      uninit (fst s b) - (if bi_buffer a = b then iv (action_range a) else {})"
    and "uninit_of (entry b (snd (gather_action a s))) =
      uninit_of (entry b (snd s)) \<union>
      (if bi_buffer a = b \<and> bi_kind a = NeedsInitializedMemory
       then uninit (fst s b) \<inter> iv (action_range a) else {})"
proof -
  obtain status es where s: "s = (status, es)" by (cases s)
  let ?c = "bi_buffer a" and ?q = "action_range a"
  note q = action_range_ok [OF a]
  have q': "rstart ?q \<le> rend ?q" using q(1) by simp
  have ok: "status_ok (status c)" for c using inv by (simp add: gather_inv_def s)
  have wf: "tracker_wf (status c)" for c using ok by (simp add: status_ok_def)
  note d = drain_all_ok [OF ok q, of ?c]
    linear.drn_unin [OF wf q'] linear.drn_items [OF wf q']
  have eq: "gather_action a s =
    (status(?c := snd (drain_all (status ?c) ?q)),
     if bi_kind a = NeedsInitializedMemory then entry_extend ?c (fst (drain_all (status ?c) ?q)) es
     else es)"
    by (cases "bi_kind a")
      (simp_all add: gather_action_def s Let_def drain_unread_eq action_range_def split: prod.split)
  show "uninit (fst (gather_action a s) b) =
      uninit (fst s b) - (if ?c = b then iv ?q else {})"
    unfolding eq by (simp add: s d(3) del: mem_iv)
  show "uninit_of (entry b (snd (gather_action a s))) =
      uninit_of (entry b (snd s)) \<union>
      (if ?c = b \<and> bi_kind a = NeedsInitializedMemory
       then uninit (fst s b) \<inter> iv ?q else {})"
    unfolding eq by (auto simp: s entry_extend_entry d(4) simp del: mem_iv)
  have inv_b: "proper_ranges (entry b es)" "uninit_of (entry b es) \<inter> uninit (status b) = {}" for b
    using inv by (simp_all add: gather_inv_def s)
  have "proper_ranges (entry ?c es @ fst (drain_all (status ?c) ?q))"
    using inv_b [of ?c] d(2,4) by (intro proper_append) auto
  moreover have "uninit_of (entry ?c es @ fst (drain_all (status ?c) ?q))
      \<inter> uninit (snd (drain_all (status ?c) ?q)) = {}"
    using inv_b(2) [of ?c] unfolding uninit_of_simps d(3,4) by blast
  moreover have "uninit_of (entry ?c es) \<inter> uninit (snd (drain_all (status ?c) ?q)) = {}"
    using inv_b(2) [of ?c] unfolding d(3) by blast
  ultimately show "gather_inv (gather_action a s)"
    using inv d(1) inv_b ok unfolding eq
    by (simp add: gather_inv_def s entry_extend_entry entry_extend_keys del: mem_iv)
qed

lemma gather_all:
  assumes "gather_inv s" and "\<forall>a\<in>set acts. action_ok a"
  shows "gather_inv (fold gather_action acts s)
    \<and> uninit (fst (fold gather_action acts s) b) = uninit (fst s b) - touched acts b
    \<and> uninit_of (entry b (snd (fold gather_action acts s))) =
        uninit_of (entry b (snd s)) \<union> (uninit (fst s b) \<inter> needed_first acts b)"
  using assms
proof (induction acts arbitrary: s)
  case (Cons a acts)
  note step = gather_action_step [OF Cons.prems(1), of a]
  have ih: "gather_inv (fold gather_action acts (gather_action a s))
    \<and> uninit (fst (fold gather_action acts (gather_action a s)) b) =
        uninit (fst (gather_action a s) b) - touched acts b
    \<and> uninit_of (entry b (snd (fold gather_action acts (gather_action a s)))) =
        uninit_of (entry b (snd (gather_action a s)))
        \<union> (uninit (fst (gather_action a s) b) \<inter> needed_first acts b)"
    using Cons.prems step(1) by (intro Cons.IH) auto
  moreover have "action_ok a" using Cons.prems(2) by simp
  ultimately show ?case
    using step(2,3) [of b]
    by (cases "bi_kind a") (auto simp del: mem_iv)
qed simp


text \<open>The bytes of a buffer that a list of clear commands covers.\<close>

fun cleared :: "clear_command list \<Rightarrow> nat \<Rightarrow> u64 set" where
  "cleared [] b = {}"
| "cleared (ClearBuffer c r # cmds) b = (if c = b then iv r else {}) \<union> cleared cmds b"

lemma cleared_append [simp]: "cleared (xs @ ys) b = cleared xs b \<union> cleared ys b"
  by (induction xs b rule: cleared.induct) auto

lemma cleared_map: "cleared (map (ClearBuffer c) rs) b = (if c = b then uninit_of rs else {})"
  by (induction rs) (auto simp del: mem_iv)

lemma clear_entries_ok:
  assumes "distinct (map fst es)" and "\<forall>(b, rs)\<in>set es. proper_ranges rs \<and> \<not> destroyed b"
  shows "\<exists>cmds. clear_entries destroyed es = Some (cmds, Inr ())
    \<and> (\<forall>b. cleared cmds b = uninit_of (entry b es))"
  using assms
proof (induction es)
  case Nil
  then show ?case by (simp add: entry_def)
next
  case (Cons e es)
  obtain c rs where e: "e = (c, rs)" by (cases e)
  from Cons obtain cmds where IH: "clear_entries destroyed es = Some (cmds, Inr ())"
    "\<forall>b. cleared cmds b = uninit_of (entry b es)" by auto
  have "proper_ranges rs" and live: "\<not> destroyed c" using Cons.prems(2) by (auto simp: e)
  then obtain out where out: "collapse_ranges rs = Some out" "uninit_of out = uninit_of rs"
    "\<forall>r\<in>set out. aligned (rstart r) \<and> aligned (rend r)" using collapse_ranges_ok by blast
  have "entry c es = []"
    using Cons.prems(1) by (simp add: e entry_def map_of_eq_None_iff [THEN iffD2])
  then have "cleared (map (ClearBuffer c) out @ cmds) b = uninit_of (entry b (e # es))" for b
    using IH(2) out(2) by (auto simp: e cleared_map entry_def simp del: mem_iv)
  with IH(1) out(1,3) live show ?case by (auto simp: e simp del: mem_iv)
qed

lemma entry_keys_needed:
  "fst ` set (snd (fold gather_action acts s)) =
     fst ` set (snd s) \<union> {bi_buffer a |a. a \<in> set acts \<and> bi_kind a = NeedsInitializedMemory}"
proof (induction acts arbitrary: s)
  case (Cons a acts)
  have "fst ` set (snd (gather_action a s)) = fst ` set (snd s) \<union>
     (if bi_kind a = NeedsInitializedMemory then {bi_buffer a} else {})"
    by (cases "bi_kind a")
      (auto simp: gather_action_def Let_def entry_extend_keys split: prod.splits)
  with Cons show ?case by auto
qed auto



definition two_actions :: "buffer_init_tracker_action list" where
  "two_actions =
    [\<lparr>bi_buffer = 0, bi_range = Range 0 6, bi_kind = ImplicitlyInitialized\<rparr>,
     \<lparr>bi_buffer = 0, bi_range = Range 4 12, bi_kind = NeedsInitializedMemory\<rparr>]"


section \<open>The mip levels of a texture action\<close>

text \<open>
  The mip trackers an action selects by \<open>enumerate\<close>, \<open>skip\<close> and \<open>take\<close>, drained one after the
  other; the ranges are the clears of an action that needs the memory.
\<close>

fun drain_mips ::
  "nat \<Rightarrow> nat \<Rightarrow> u32 range_t \<Rightarrow> nat \<Rightarrow> u32 init_tracker list
   \<Rightarrow> texture_init_range list \<times> u32 init_tracker list" where
  "drain_mips lo n layers i [] = ([], [])"
| "drain_mips lo n layers i (t # ts) =
     (let (rs, ts') = drain_mips lo n layers (Suc i) ts in
      if lo \<le> i \<and> i < lo + n then
        (let (items, t') = drain_all t layers
         in (map (\<lambda>r. \<lparr>mip_range = Range (of_nat i) (of_nat i + 1), layer_range = r\<rparr>) items @ rs,
             t' # ts'))
      else (rs, t # ts'))"

type_synonym texture_status = "nat \<Rightarrow> texture_init_tracker"

lemma drain_mips_length: "length (snd (drain_mips lo n q i ts)) = length ts"
  by (induction lo n q i ts rule: drain_mips.induct) (auto simp: Let_def split: prod.splits)

lemma subresources_mip:
  assumes "i + 1 < 2 ^ 32"
  shows "subresources \<lparr>mip_range = Range (of_nat i) (of_nat i + 1), layer_range = r\<rparr> = {i} \<times> iv r"
proof -
  have "unat (of_nat i :: u32) = i" and "unat (of_nat i + 1 :: u32) = i + 1"
    using assms by (simp_all add: unat_word_ariths unat_of_nat take_bit_nat_eq_self)
  then show ?thesis by (auto simp: subresources_def)
qed

lemma drain_mips_spec:
  assumes "\<forall>t\<in>set ts. tracker_wf t" and "rstart q \<le> rend q" and "i + length ts < 2 ^ 32"
  shows "(\<forall>t\<in>set (snd (drain_mips lo n q i ts)). tracker_wf t)
    \<and> (\<forall>m < length ts. uninit (snd (drain_mips lo n q i ts) ! m) =
         uninit (ts ! m) - (if lo \<le> i + m \<and> i + m < lo + n then iv q else {}))
    \<and> (\<Union>r\<in>set (fst (drain_mips lo n q i ts)). subresources r) =
        {(i + m, l) |m l. m < length ts \<and> lo \<le> i + m \<and> i + m < lo + n \<and> l \<in> uninit (ts ! m) \<inter> iv q}"
  using assms
proof (induction ts arbitrary: i)
  case Nil
  then show ?case by simp
next
  case (Cons t ts)
  obtain rs ts' where rec: "drain_mips lo n q (Suc i) ts = (rs, ts')" by (cases "drain_mips lo n q (Suc i) ts")
  have IH: "\<forall>t\<in>set ts'. tracker_wf t"
    "\<And>m. m < length ts \<Longrightarrow> uninit (ts' ! m) =
         uninit (ts ! m) - (if lo \<le> Suc i + m \<and> Suc i + m < lo + n then iv q else {})"
    "(\<Union>r\<in>set rs. subresources r) =
        {(Suc i + m, l) |m l. m < length ts \<and> lo \<le> Suc i + m \<and> Suc i + m < lo + n
           \<and> l \<in> uninit (ts ! m) \<inter> iv q}"
    using Cons.IH [of "Suc i"] Cons.prems unfolding rec by (auto simp del: mem_iv)
  have wf: "tracker_wf t" using Cons.prems(1) by simp
  note d = linear.drn_invar [OF wf Cons.prems(2)] linear.drn_unin [OF wf Cons.prems(2)]
    linear.drn_items [OF wf Cons.prems(2)]
  have here: "(\<Union>r\<in>set (map (\<lambda>r. \<lparr>mip_range = Range (of_nat i) (of_nat i + 1), layer_range = r\<rparr>)
      (fst (drain_all t q))). subresources r) = {i} \<times> (uninit t \<inter> iv q)"
    using Cons.prems(3) unfolding d(3) [symmetric]
    by (auto simp: subresources_mip uninit_of_def simp del: mem_iv)
  have split: "{(i + m, l) |m l. m < length (t # ts) \<and> lo \<le> i + m \<and> i + m < lo + n
        \<and> l \<in> uninit ((t # ts) ! m) \<inter> iv q}
     = (if lo \<le> i \<and> i < lo + n then {i} \<times> (uninit t \<inter> iv q) else {}) \<union>
       {(Suc i + m, l) |m l. m < length ts \<and> lo \<le> Suc i + m \<and> Suc i + m < lo + n
          \<and> l \<in> uninit (ts ! m) \<inter> iv q}" (is "?L = ?R")
  proof (intro set_eqI iffI)
    fix x assume "x \<in> ?L"
    then obtain m l where x: "x = (i + m, l)" "m < length (t # ts)" "lo \<le> i + m" "i + m < lo + n"
      "l \<in> uninit ((t # ts) ! m) \<inter> iv q" by blast
    then show "x \<in> ?R" by (cases m) (auto simp del: mem_iv)
  next
    fix x assume "x \<in> ?R"
    then consider l where "x = (i, l)" "lo \<le> i" "i < lo + n" "l \<in> uninit t \<inter> iv q"
      | m l where "x = (Suc i + m, l)" "m < length ts" "lo \<le> Suc i + m" "Suc i + m < lo + n"
         "l \<in> uninit (ts ! m) \<inter> iv q"
      by (auto split: if_splits simp del: mem_iv)
    then show "x \<in> ?L"
    proof cases
      case 1
      then show ?thesis by (intro CollectI exI [of _ "0 :: nat"] exI [of _ l]) (auto simp del: mem_iv)
    next
      case (2 m l)
      then show ?thesis by (intro CollectI exI [of _ "Suc m"]) (auto simp del: mem_iv)
    qed
  qed
  have step: "drain_mips lo n q i (t # ts) =
    (if lo \<le> i \<and> i < lo + n then
       (map (\<lambda>r. \<lparr>mip_range = Range (of_nat i) (of_nat i + 1), layer_range = r\<rparr>) (fst (drain_all t q)) @ rs,
        snd (drain_all t q) # ts')
     else (rs, t # ts'))"
    by (simp add: rec split: prod.split)
  have "\<forall>u\<in>set (snd (drain_mips lo n q i (t # ts))). tracker_wf u"
    using IH(1) wf d(1) unfolding step by simp
  moreover have "uninit (snd (drain_mips lo n q i (t # ts)) ! m) =
         uninit ((t # ts) ! m) - (if lo \<le> i + m \<and> i + m < lo + n then iv q else {})"
    if "m < length (t # ts)" for m
    using that IH(2) [of "m - 1"] d(2) unfolding step by (cases m) (simp_all del: mem_iv)
  moreover have "(\<Union>r\<in>set (fst (drain_mips lo n q i (t # ts))). subresources r) =
      (if lo \<le> i \<and> i < lo + n then {i} \<times> (uninit t \<inter> iv q) else {}) \<union> (\<Union>r\<in>set rs. subresources r)"
    using here unfolding step by (simp add: image_Un Union_Un_distrib del: mem_iv)
  ultimately show ?case unfolding split IH(3) by blast
qed


text \<open>What the actions touch and need, as sets of (mip level, layer) pairs of a texture.\<close>

fun tex_touched :: "texture_init_tracker_action list \<Rightarrow> nat \<Rightarrow> (nat \<times> u32) set" where
  "tex_touched [] x = {}"
| "tex_touched (a # as) x =
     (if ti_texture a = x then subresources (ti_range a) else {}) \<union> tex_touched as x"

fun tex_needed_first :: "texture_init_tracker_action list \<Rightarrow> nat \<Rightarrow> (nat \<times> u32) set" where
  "tex_needed_first [] x = {}"
| "tex_needed_first (a # as) x =
     (if ti_texture a \<noteq> x then tex_needed_first as x
      else if ti_kind a = NeedsInitializedMemory
      then subresources (ti_range a) \<union> tex_needed_first as x
      else tex_needed_first as x - subresources (ti_range a))"

definition tex_cleared :: "(nat \<times> texture_init_range) list \<Rightarrow> nat \<Rightarrow> (nat \<times> u32) set" where
  "tex_cleared cmds x = (\<Union>r\<in>{r. (x, r) \<in> set cmds}. subresources r)"

definition tex_action_ok :: "texture_init_tracker_action \<Rightarrow> bool" where
  "tex_action_ok a \<longleftrightarrow> rstart (mip_range (ti_range a)) \<le> rend (mip_range (ti_range a))
     \<and> rstart (layer_range (ti_range a)) \<le> rend (layer_range (ti_range a))"

lemma tex_cleared_append [simp]: "tex_cleared (xs @ ys) x = tex_cleared xs x \<union> tex_cleared ys x"
  by (auto simp: tex_cleared_def)

lemma tex_cleared_map:
  "tex_cleared (map (Pair y) rs) x = (if y = x then \<Union>r\<in>set rs. subresources r else {})"
  by (auto simp: tex_cleared_def)

lemma drain_texture:
  assumes wf: "texture_wf t" and ok: "tex_action_ok a"
    and d: "drain_mips (unat (rstart (mip_range (ti_range a))))
              (unat (rend (mip_range (ti_range a)) - rstart (mip_range (ti_range a))))
              (layer_range (ti_range a)) 0 (mips t) = (rs, ts)"
  shows "texture_wf (t\<lparr>mips := ts\<rparr>)"
    and "texture_uninit (t\<lparr>mips := ts\<rparr>) = texture_uninit t - subresources (ti_range a)"
    and "(\<Union>r\<in>set rs. subresources r) = texture_uninit t \<inter> subresources (ti_range a)"
proof -
  let ?lo = "unat (rstart (mip_range (ti_range a)))"
  let ?n = "unat (rend (mip_range (ti_range a)) - rstart (mip_range (ti_range a)))"
  let ?q = "layer_range (ti_range a)"
  have n: "?lo + ?n = unat (rend (mip_range (ti_range a)))"
    using ok by (simp add: tex_action_ok_def unat_sub word_le_nat_alt)
  have small: "0 + length (mips t) < 2 ^ 32" using wf by (simp add: texture_wf_def MAX_MIP_LEVELS_def)
  have q: "rstart ?q \<le> rend ?q" using ok by (simp add: tex_action_ok_def)
  have wfs: "\<forall>u\<in>set (mips t). tracker_wf u" using wf by (simp add: texture_wf_def)
  have len: "length ts = length (mips t)" using drain_mips_length [of ?lo ?n ?q 0 "mips t"] d by simp
  note spec = drain_mips_spec [OF wfs q small, of ?lo ?n, unfolded d fst_conv snd_conv n]
  show "texture_wf (t\<lparr>mips := ts\<rparr>)" using wf spec len by (simp add: texture_wf_def)
  show "texture_uninit (t\<lparr>mips := ts\<rparr>) = texture_uninit t - subresources (ti_range a)"
    using spec len by (auto simp: texture_uninit_def subresources_def split: if_splits)
  show "(\<Union>r\<in>set rs. subresources r) = texture_uninit t \<inter> subresources (ti_range a)"
    using spec by (auto simp: texture_uninit_def subresources_def simp del: mem_iv)
qed

section \<open>Registering a texture action\<close>

lemma discard_hit_range:
  assumes "discard_hit a d"
  shows "(unat (sd_mip_level d), sd_layer d) \<in> subresources (surface_range d)"
proof -
  have "sd_mip_level d < rend (mip_range (ti_range a))" "sd_layer d < rend (layer_range (ti_range a))"
    using assms by (auto simp: discard_hit_def)
  then have "sd_mip_level d \<noteq> -1" "sd_layer d \<noteq> -1"
    by (metis word_not_simps(3) not_less order.strict_implies_order word_order.extremum)+
  then show ?thesis
    using word_Suc_cases(1) [of "sd_mip_level d"] word_Suc_cases(1) [of "sd_layer d"]
    by (simp add: subresources_def surface_range_def word_less_nat_alt)
qed

lemma tex_touched_append [simp]: "tex_touched (xs @ ys) x = tex_touched xs x \<union> tex_touched ys x"
  by (induction xs) auto

lemma tex_touched_mem:
  "a \<in> set as \<Longrightarrow> ti_texture a = x \<Longrightarrow> subresources (ti_range a) \<subseteq> tex_touched as x"
  by (induction as) auto

text \<open>C36: When the trackers of the texture's mip levels are well formed (sorted and disjoint ranges, which a
  discard behind a gap breaks, C26), registering an action records enough: every subresource of the action
  that the texture's tracker holds uninitialised is covered by a recorded action. Always, the discarded surfaces inside
  the action's range, and only those, leave the discard list; when the action needs the
  memory they are returned for an immediate clear, in order, and each is recorded as
  initialised, and when it does not, nothing is returned.\<close>

theorem register_init_action_covers:
  assumes "texture_wf (status (ti_texture a))"
    and "register_init_action status m a = (immediate, m')"
  shows "immediate = (if ti_kind a = NeedsInitializedMemory
                      then filter (discard_hit a) (discards m) else [])
    \<and> discards m' = filter (\<lambda>d. \<not> discard_hit a d) (discards m)
    \<and> (\<exists>new. init_actions m' = init_actions m @ new
          \<and> texture_uninit (status (ti_texture a)) \<inter> subresources (ti_range a)
              \<subseteq> tex_touched new (ti_texture a)
          \<and> (\<forall>d\<in>set immediate. (unat (sd_mip_level d), sd_layer d) \<in> tex_touched new (ti_texture a)))"
proof -
  define checked where "checked = (case texture_check_action (status (ti_texture a)) a of
      Some a' \<Rightarrow> [a'] | None \<Rightarrow> [])"
  define implicit where "implicit = map (\<lambda>d. \<lparr>ti_texture = sd_texture d,
      ti_range = surface_range d, ti_kind = ImplicitlyInitialized\<rparr>) immediate"
  have imm: "immediate = (if ti_kind a = NeedsInitializedMemory
      then filter (discard_hit a) (discards m) else [])"
    and dis: "discards m' = filter (\<lambda>d. \<not> discard_hit a d) (discards m)"
    and acts: "init_actions m' = init_actions m @ checked @ implicit"
    using assms(2) unfolding register_init_action_def Let_def checked_def [symmetric]
    by (simp_all only: implicit_def prod.inject) (auto simp only: texture_memory_actions.simps)
  have "texture_uninit (status (ti_texture a)) \<inter> subresources (ti_range a)
      \<subseteq> tex_touched checked (ti_texture a)"
  proof (cases "texture_check_action (status (ti_texture a)) a")
    case None
    from texture_check_cases(1) [OF assms(1) this] show ?thesis by blast
  next
    case (Some a')
    from texture_check_cases(2) [OF assms(1) this] Some show ?thesis by (simp add: checked_def)
  qed
  moreover have "(unat (sd_mip_level d), sd_layer d) \<in> tex_touched implicit (ti_texture a)"
    if "d \<in> set immediate" for d
  proof -
    have hit: "discard_hit a d" using that imm by (auto split: if_splits)
    then have "sd_texture d = ti_texture a" by (simp add: discard_hit_def)
    let ?b = "\<lparr>ti_texture = sd_texture d, ti_range = surface_range d,
          ti_kind = ImplicitlyInitialized\<rparr>"
    have "?b \<in> set implicit" using that by (simp add: implicit_def)
    from tex_touched_mem [OF this, of "ti_texture a"] \<open>sd_texture d = ti_texture a\<close>
    have "subresources (surface_range d) \<subseteq> tex_touched implicit (ti_texture a)" by simp
    with discard_hit_range [OF hit] show ?thesis by blast
  qed
  ultimately have "texture_uninit (status (ti_texture a)) \<inter> subresources (ti_range a)
       \<subseteq> tex_touched (checked @ implicit) (ti_texture a)
     \<and> (\<forall>d\<in>set immediate. (unat (sd_mip_level d), sd_layer d)
          \<in> tex_touched (checked @ implicit) (ti_texture a))"
    unfolding tex_touched_append by blast
  with acts imm dis show ?thesis by blast
qed

lemma register_init_action_covers_witness:
  "\<exists>m'. register_init_action (\<lambda>_. \<lparr>mips = [new_tracker 2]\<rparr>)
      \<lparr>init_actions = [], discards = [\<lparr>sd_texture = 0, sd_mip_level = 0, sd_layer = 1\<rparr>]\<rparr>
      \<lparr>ti_texture = 0, ti_range = \<lparr>mip_range = Range 0 1, layer_range = Range 0 2\<rparr>,
       ti_kind = NeedsInitializedMemory\<rparr>
     = ([\<lparr>sd_texture = 0, sd_mip_level = 0, sd_layer = 1\<rparr>], m') \<and> discards m' = []"
proof -
  let ?s = "\<lambda>_ :: nat. \<lparr>mips = [new_tracker 2]\<rparr>"
  let ?m = "\<lparr>init_actions = [], discards = [\<lparr>sd_texture = 0, sd_mip_level = 0, sd_layer = 1\<rparr>]\<rparr>"
  let ?a = "\<lparr>ti_texture = 0, ti_range = \<lparr>mip_range = Range 0 1, layer_range = Range 0 2\<rparr>,
       ti_kind = NeedsInitializedMemory\<rparr>"
  have wf: "texture_wf (?s (ti_texture ?a))"
    by (simp add: texture_wf_def tracker_wf_def new_tracker_def MAX_MIP_LEVELS_def)
  obtain imm m' where r: "register_init_action ?s ?m ?a = (imm, m')" by fastforce
  from register_init_action_covers [OF wf r] show ?thesis
    by (auto simp: r discard_hit_def)
qed

end
