(* ===== verification/Devices.thy ===== *)
theory Devices
  imports Conv MemoryInit
begin

unbundle bit_operations_syntax

text \<open>
  What the creation and the use of resources ask of the device: its features, limits and downlevel
  flags (\<open>wgpu-core/src/device/resource.rs\<close>), and the backend below it, a record of functions
  \<open>hal_device\<close> that answer with an error or succeed. Losing the device after a backend error, and
  the labels, are left out.
\<close>

datatype device_error = DeviceLost | OutOfMemory | DeviceMismatch nat nat

record hal_view_descriptor =
  hv_format :: texture_format
  hv_dimension :: texture_view_dimension
  hv_usage :: texture_uses
  hv_range :: image_subresource_range

text \<open>
  The two bind groups a buffer may need (for normalising timestamps and for validating indirect
  draws) are built by other code. A mapping tells whether it is coherent.
\<close>

record hal_device =
  hd_create_buffer :: "u64 \<Rightarrow> buffer_uses \<Rightarrow> device_error option"
  hd_normalization_bind_group :: "u64 \<Rightarrow> buffer_usages \<Rightarrow> device_error option"
  hd_indirect_validation :: "u64 \<Rightarrow> buffer_usages \<Rightarrow> device_error option"
  hd_map_buffer :: "nat \<Rightarrow> u64 range_t \<Rightarrow> device_error + bool"
  hd_staging_buffer :: "u64 \<Rightarrow> device_error option"
  hd_create_texture :: "texture_descriptor \<Rightarrow> texture_uses \<Rightarrow> device_error option"
  hd_create_texture_view :: "hal_view_descriptor \<Rightarrow> device_error option"
  hd_begin_render_pass :: "nat \<Rightarrow> device_error option"
  hd_format_capabilities :: "texture_format \<Rightarrow> format_capabilities"

record device =
  dev_id :: nat
  dev_valid :: bool
  dev_features :: features
  dev_limits :: limits
  dev_downlevel :: downlevel_flags
  dev_copy_pitch :: u64
  dev_uniform_bounds_check :: u64
  dev_hal :: hal_device

definition check_is_valid :: "device \<Rightarrow> device_error + unit" where
  "check_is_valid dev = (if dev_valid dev then Inr () else Inl DeviceLost)"

text \<open>The missing features and the missing flags are the values on the left.\<close>

definition require_features :: "device \<Rightarrow> features \<Rightarrow> features + unit" where
  "require_features dev feature =
    (if features_contain (dev_features dev) feature then Inr () else Inl feature)"

definition require_downlevel_flags :: "device \<Rightarrow> downlevel_flags \<Rightarrow> downlevel_flags + unit" where
  "require_downlevel_flags dev flags =
    (if contains (dev_downlevel dev) flags then Inr () else Inl flags)"

definition describe_format_features ::
  "device \<Rightarrow> texture_format \<Rightarrow> features + texture_format_features" where
  "describe_format_features dev f =
    and_then (require_features dev (required_features f)) (\<lambda>_.
      let using_device_features =
            features_contain (dev_features dev) texture_adapter_specific_format_features;
          downlevel = \<not> contains (dev_downlevel dev) df_webgpu_texture_format_support
      in if using_device_features \<or> downlevel
         then Inr (get_texture_format_features (hd_format_capabilities (dev_hal dev) f))
         else Inr (guaranteed_format_features f (dev_features dev)))"

text \<open>\<open>Result::map_err\<close>, a check that returns an error, and the answer of the backend.\<close>

definition map_err :: "('e \<Rightarrow> 'f) \<Rightarrow> 'e + 'a \<Rightarrow> 'f + 'a" where
  "map_err f r = (case r of Inl e \<Rightarrow> Inl (f e) | Inr x \<Rightarrow> Inr x)"

definition ensure :: "bool \<Rightarrow> 'e \<Rightarrow> 'e + unit" where
  "ensure b e = (if b then Inr () else Inl e)"

definition hal_ok :: "device_error option \<Rightarrow> device_error + unit" where
  "hal_ok r = (case r of None \<Rightarrow> Inr () | Some e \<Rightarrow> Inl e)"

lemma map_err_simps [simp]: "map_err f (Inl e) = Inl (f e)" "map_err f (Inr x) = Inr x"
  by (simp_all add: map_err_def)

lemma map_err_Inr [simp]: "map_err f r = Inr x \<longleftrightarrow> r = Inr x"
  by (cases r) simp_all

lemma ensure_Inr [simp]: "ensure b e = Inr u \<longleftrightarrow> b"
  by (simp add: ensure_def)

lemma ensure_simps [simp]: "ensure True e = Inr ()" "ensure False e = Inl e"
  by (simp_all add: ensure_def)

section \<open>The errors of clears and transfers\<close>

datatype clear_error =
  CeDestroyed nat
| CeMissingFeatures features
| CeNoValidTextureClearMode nat
| CeUnalignedFillSize u64
| CeUnalignedBufferOffset u64
| CeOffsetPlusSizeExceeds64BitBounds u64 u64
| CeBufferOverrun u64 u64 u64
| CeMissingBufferUsage nat u32 u32
| CeMissingTextureAspect texture_format texture_aspect
| CeInvalidTextureLevelRange "u32 range_t" u32 "u32 option"
| CeInvalidTextureLayerRange "u32 range_t" u32 "u32 option"
| CeDevice device_error

datatype copy_side = CopySource | CopyDestination

datatype transfer_error =
  TeSameSourceDestinationBuffer
| TeMissingBufferUsage nat u32 u32
| TeMissingTextureUsage nat u32 u32
| TeBufferStartOffsetOverrun u64 u64 copy_side
| TeBufferEndOffsetOverrun u64 u64 u64 copy_side
| TeTextureOverrun u32 u32 u32 texture_error_dimension copy_side
| TeUnsupportedPartialTransfer texture_format u32 u32 u32 u32 texture_error_dimension copy_side
| TeInvalidCopyWithinSameTexture texture_aspect texture_aspect u32 u32 u32
| TeInvalidTextureAspect texture_format texture_aspect
| TeInvalidTextureMipLevel u32 u32
| TeUnalignedBufferOffset u64
| TeUnalignedCopySize u64
| TeUnalignedCopyWidth
| TeUnalignedCopyHeight
| TeUnalignedCopyOriginX
| TeUnalignedCopyOriginY
| TeUnalignedBytesPerRow
| TeUnspecifiedBytesPerRow
| TeUnspecifiedRowsPerImage
| TeInvalidBytesPerRow
| TeInvalidRowsPerImage
| TeSizeOverflow
| TeCopySrcMissingAspects
| TeCopyDstMissingAspects
| TeCopyAspectNotOne
| TeCopyFromForbiddenTextureFormat texture_format
| TeCopyFromForbiddenTextureFormatAspect texture_format texture_aspect
| TeCopyToForbiddenTextureFormat texture_format
| TeCopyToForbiddenTextureFormatAspect texture_format texture_aspect
| TeTextureFormatsNotCopyCompatible texture_format texture_format
| TeMemoryInitFailure clear_error
| TeMissingDownlevelFlags downlevel_flags
| TeInvalidSampleCount u32
| TeSampleCountNotEqual u32 u32
| TeInvalidMipLevel u32 u32
| TeBufferNotAvailable

text \<open>A backend on which every call succeeds, for concrete runs.\<close>

definition willing_hal :: hal_device where
  "willing_hal =
    \<lparr>hd_create_buffer = \<lambda>_ _. None, hd_normalization_bind_group = \<lambda>_ _. None,
     hd_indirect_validation = \<lambda>_ _. None, hd_map_buffer = \<lambda>_ _. Inr True,
     hd_staging_buffer = \<lambda>_. None, hd_create_texture = \<lambda>_ _. None,
     hd_create_texture_view = \<lambda>_. None, hd_begin_render_pass = \<lambda>_. None,
     hd_format_capabilities = \<lambda>_. 0\<rparr>"

definition basic_device :: device where
  "basic_device =
    \<lparr>dev_id = 0, dev_valid = True, dev_features = features_empty, dev_limits = limits_defaults,
     dev_downlevel = df_all, dev_copy_pitch = 256, dev_uniform_bounds_check = 4, dev_hal = willing_hal\<rparr>"

end
