(* ===== verification/Textures.thy ===== *)
theory Textures
  imports Devices
begin

unbundle bit_operations_syntax

text \<open>
  Creating textures and texture views: \<open>create_texture\<close> and \<open>create_texture_view\<close> of
  \<open>wgpu-core/src/device/resource.rs\<close>, with \<open>Texture::new\<close>, the clear mode and \<open>get_clear_view\<close> of
  \<open>wgpu-core/src/resource.rs\<close>. A view of the backend is named by the descriptor it was made from. The
  lemmas lead to two properties: a created texture is well formed and can be cleared, and a created
  view selects a non-empty part of its texture.
\<close>

definition multisample_array :: features where
  "multisample_array = wgpu_feature 56"
definition multiview_feature :: features where
  "multiview_feature = wgpu_feature 26"
definition clear_texture_feature :: features where
  "clear_texture_feature = wgpu_feature 23"
definition texture_compression_bc_sliced_3d :: features where
  "texture_compression_bc_sliced_3d = webgpu_feature 3"
definition texture_compression_astc_sliced_3d :: features where
  "texture_compression_astc_sliced_3d = webgpu_feature 6"

definition HAL_MAX_MIP_LEVELS :: u32 where "HAL_MAX_MIP_LEVELS = 16"

section \<open>Errors and data\<close>

datatype create_texture_view_error =
  CvDevice device_error
| CvDestroyedResource nat
| CvInvalidTextureViewDimension texture_view_dimension texture_dimension
| CvTextureViewFormatNotRenderable texture_format
| CvTextureViewFormatNotStorage texture_format
| CvInvalidTextureViewUsage texture_usages texture_usages
| CvInvalidMultisampledTextureViewDimension texture_view_dimension
| CvInvalidCubemapTextureDepth u32
| CvInvalidCubemapArrayTextureDepth u32
| CvInvalidCubeTextureViewSize
| CvZeroMipLevelCount
| CvZeroArrayLayerCount
| CvTooManyMipLevels u32 u32 u32
| CvTooManyArrayLayers u32 u32 u32
| CvInvalidArrayLayerCount u32 texture_view_dimension
| CvInvalidAspect texture_format texture_aspect
| CvFormatReinterpretation texture_format texture_format
| CvMissingFeatures features

datatype create_texture_error =
  CtDevice device_error
| CtCreateTextureView create_texture_view_error
| CtInvalidUsage texture_usages
| CtIncompatibleUsage texture_usages texture_usages
| CtInvalidDimension texture_dimension_error
| CtInvalidDepthDimension texture_dimension texture_format
| CtInvalidCompressedDimension texture_dimension texture_format
| CtInvalidMipLevelCount u32 u32
| CtInvalidFormatUsages texture_usages texture_format bool
| CtInvalidViewFormat texture_format texture_format
| CtInvalidDimensionUsages texture_usages texture_dimension
| CtInvalidMultisampledStorageBinding
| CtInvalidMultisampledFormat texture_format
| CtInvalidSampleCount u32 texture_format "u32 list" "u32 list"
| CtMultisampledNotRenderAttachment
| CtMissingFeatures texture_format features
| CtMissingDownlevelFlags downlevel_flags

datatype texture_clear_mode =
  ClearBufferCopy
| ClearRenderPass "hal_view_descriptor list" bool
| ClearSurface
| ClearNone

record texture =
  tex_index :: nat
  tex_device :: nat
  tex_destroyed :: bool
  tex_desc :: texture_descriptor
  tex_hal_usage :: texture_uses
  tex_format_features :: texture_format_features
  tex_init :: texture_init_tracker
  tex_full_range :: texture_selector
  tex_clear_mode :: texture_clear_mode

definition usages_minus :: "texture_usages \<Rightarrow> texture_usages \<Rightarrow> texture_usages" where
  "usages_minus a b = a AND NOT b"

definition texture_check_usage :: "texture \<Rightarrow> texture_usages \<Rightarrow> (nat \<times> texture_usages \<times> texture_usages) + unit" where
  "texture_check_usage t expected =
    (if contains (td_usage (tex_desc t)) expected then Inr ()
     else Inl (tex_index t, td_usage (tex_desc t), expected))"

section \<open>The checks of \<open>create_texture\<close>\<close>

definition check_compressed :: "device \<Rightarrow> texture_descriptor \<Rightarrow> create_texture_error + unit" where
  "check_compressed dev desc =
    (let f = td_format desc; dim = td_dimension desc;
         width = ext_width (td_size desc); height = ext_height (td_size desc) in
     if is_compressed f then
       let (block_width, block_height) = block_dimensions f in
       and_then (ensure (is_multiple_of width block_width)
                   (CtInvalidDimension (NotMultipleOfBlockWidth width block_width f))) (\<lambda>_.
       and_then (ensure (is_multiple_of height block_height)
                   (CtInvalidDimension (NotMultipleOfBlockHeight height block_height f))) (\<lambda>_.
       if dim = D3 then
         (if is_bcn f then
            map_err (CtMissingFeatures f) (require_features dev texture_compression_bc_sliced_3d)
          else if is_astc f then
            map_err (CtMissingFeatures f) (require_features dev texture_compression_astc_sliced_3d)
          else Inl (CtInvalidCompressedDimension dim f))
       else Inr ()))
     else Inr ())"

definition max_levels_allowed :: "texture_descriptor \<Rightarrow> u32" where
  "max_levels_allowed desc = min (max_mips (td_size desc) (td_dimension desc)) HAL_MAX_MIP_LEVELS"

text \<open>\<open>saturating_sub(1)\<close> of a count that is not zero, and the shift by it.\<close>

definition size_multiples :: "texture_descriptor \<Rightarrow> u32 \<times> u32" where
  "size_multiples desc =
    (let (w, h) = size_multiple_requirement (td_format desc) in
     if is_multi_planar_format (td_format desc) then
       let n = (if td_mip_level_count desc = 0 then 0 else unat (td_mip_level_count desc - 1))
       in (push_bit n w, push_bit n h)
     else (w, h))"

definition check_texture_shape :: "device \<Rightarrow> texture_descriptor \<Rightarrow> create_texture_error + unit" where
  "check_texture_shape dev desc =
    (let f = td_format desc; dim = td_dimension desc; usage = td_usage desc; mips = td_mip_level_count desc;
         width = ext_width (td_size desc); height = ext_height (td_size desc) in
     and_then (map_err CtDevice (check_is_valid dev)) (\<lambda>_.
     and_then (ensure (\<not> (usage = 0 \<or> usage AND NOT tu_all \<noteq> 0)) (CtInvalidUsage usage)) (\<lambda>_.
     and_then (map_err CtInvalidDimension
                 (check_texture_dimension_size dim (td_size desc) (td_sample_count desc) (dev_limits dev))) (\<lambda>_.
     and_then (ensure (\<not> (dim \<noteq> D2 \<and> is_depth_stencil_format f)) (CtInvalidDepthDimension dim f)) (\<lambda>_.
     and_then (if dim \<noteq> D2 \<and> dim \<noteq> D3 then
                 and_then (ensure (\<not> is_compressed f) (CtInvalidCompressedDimension dim f)) (\<lambda>_.
                 ensure (\<not> contains usage tu_render_attachment)
                   (CtInvalidDimensionUsages tu_render_attachment dim))
               else Inr ()) (\<lambda>_.
     and_then (check_compressed dev desc) (\<lambda>_.
     and_then (ensure (\<not> (mips = 0 \<or> mips > max_levels_allowed desc))
                 (CtInvalidMipLevelCount mips (max_levels_allowed desc))) (\<lambda>_.
     let (width_multiple, height_multiple) = size_multiples desc in
     and_then (ensure (is_multiple_of width width_multiple)
                 (CtInvalidDimension (WidthNotMultipleOf width width_multiple f))) (\<lambda>_.
     and_then (ensure (is_multiple_of height height_multiple)
                 (CtInvalidDimension (HeightNotMultipleOf height height_multiple f))) (\<lambda>_.
     if contains usage tu_transient then
       and_then (ensure (contains usage tu_render_attachment) (CtInvalidUsage tu_transient)) (\<lambda>_.
       let extra_usage = usages_minus (usages_minus usage tu_transient) tu_render_attachment
       in ensure (extra_usage = 0) (CtIncompatibleUsage tu_transient extra_usage))
     else Inr ()))))))))))"

definition check_multisampled ::
  "device \<Rightarrow> texture_descriptor \<Rightarrow> texture_format_features \<Rightarrow> create_texture_error + unit" where
  "check_multisampled dev desc ff =
    (let f = td_format desc; layers = depth_or_array_layers (td_size desc); samples = td_sample_count desc in
     if samples > 1 then
       and_then (ensure (\<not> td_mip_level_count desc \<noteq> 1) (CtInvalidMipLevelCount (td_mip_level_count desc) 1)) (\<lambda>_.
       and_then (ensure (\<not> (layers \<noteq> 1 \<and> \<not> features_contain (dev_features dev) multisample_array))
                   (CtInvalidDimension (MultisampledDepthOrArrayLayer layers))) (\<lambda>_.
       and_then (ensure (\<not> contains (td_usage desc) tu_storage_binding) CtInvalidMultisampledStorageBinding) (\<lambda>_.
       and_then (ensure (contains (td_usage desc) tu_render_attachment) CtMultisampledNotRenderAttachment) (\<lambda>_.
       and_then (ensure (intersects (format_flags ff)
                           (ff_multisample_x4 OR ff_multisample_x2 OR ff_multisample_x8 OR ff_multisample_x16))
                   (CtInvalidMultisampledFormat f)) (\<lambda>_.
       ensure (sample_count_supported (format_flags ff) samples)
         (CtInvalidSampleCount samples f
            (supported_sample_counts (format_flags (guaranteed_format_features f (dev_features dev))))
            (supported_sample_counts
               (format_flags (get_texture_format_features (hd_format_capabilities (dev_hal dev) f))))))))))
     else Inr ())"

text \<open>The usages every plane allows; \<open>None\<close> is the panic of one of the two \<open>unwrap\<close>s.\<close>

fun planes_usages ::
  "device \<Rightarrow> texture_format \<Rightarrow> u32 list \<Rightarrow> texture_usages \<Rightarrow> (create_texture_error + texture_usages) option" where
  "planes_usages dev f [] acc = Some (Inr acc)"
| "planes_usages dev f (plane # rest) acc = do {
     aspect \<leftarrow> from_plane plane;
     format \<leftarrow> aspect_specific_format f aspect;
     (case describe_format_features dev format of
        Inl e \<Rightarrow> Some (Inl (CtMissingFeatures f e))
      | Inr ff \<Rightarrow> planes_usages dev f rest (acc AND allowed_usages ff)) }"

definition plane_indices :: "u32 \<Rightarrow> u32 list" where
  "plane_indices n = map of_nat [0..<unat n]"

definition missing_usages ::
  "device \<Rightarrow> texture_descriptor \<Rightarrow> texture_format_features \<Rightarrow> (create_texture_error + texture_usages) option" where
  "missing_usages dev desc ff =
    (case planes (td_format desc) of
       Some n \<Rightarrow> map_option (\<lambda>r. and_then r (\<lambda>u. Inr (usages_minus (td_usage desc) u)))
                   (planes_usages dev (td_format desc) (plane_indices n) tu_all)
     | None \<Rightarrow> Some (Inr (usages_minus (td_usage desc) (allowed_usages ff))))"

fun collect_view_formats ::
  "texture_format \<Rightarrow> texture_format list \<Rightarrow> create_texture_error + texture_format list" where
  "collect_view_formats f [] = Inr []"
| "collect_view_formats f (v # vs) =
     (if f = v then collect_view_formats f vs
      else if remove_srgb_suffix f \<noteq> remove_srgb_suffix v then Inl (CtInvalidViewFormat v f)
      else and_then (collect_view_formats f vs) (\<lambda>rest. Inr (v # rest)))"

section \<open>The clear mode\<close>

definition clear_view_range :: "texture_aspect \<Rightarrow> u32 \<Rightarrow> u32 \<Rightarrow> image_subresource_range" where
  "clear_view_range aspect mip_level array_layer =
    \<lparr>isr_aspect = aspect, isr_base_mip_level = mip_level, isr_mip_level_count = Some 1,
     isr_base_array_layer = array_layer, isr_array_layer_count = Some 1\<rparr>"

text \<open>The formats and aspects of the clear views of one subresource, plane by plane.\<close>

fun plane_views :: "texture_format \<Rightarrow> u32 list \<Rightarrow> (texture_format \<times> texture_aspect) list option" where
  "plane_views f [] = Some []"
| "plane_views f (plane # rest) = do {
     aspect \<leftarrow> from_plane plane;
     format \<leftarrow> aspect_specific_format f aspect;
     views \<leftarrow> plane_views f rest;
     Some ((format, aspect) # views) }"

definition subresource_views :: "texture_format \<Rightarrow> (texture_format \<times> texture_aspect) list option" where
  "subresource_views f =
    (case planes f of Some n \<Rightarrow> plane_views f (plane_indices n) | None \<Rightarrow> Some [(f, AspectAll)])"

definition clear_view_descriptors ::
  "texture_descriptor \<Rightarrow> texture_uses \<Rightarrow> hal_view_descriptor list option" where
  "clear_view_descriptors desc usage =
    map_option (\<lambda>views.
      concat (map (\<lambda>mip. concat (map (\<lambda>layer.
        map (\<lambda>(format, aspect). \<lparr>hv_format = format, hv_dimension = ViewD2, hv_usage = usage,
               hv_range = clear_view_range aspect (of_nat mip) (of_nat layer)\<rparr>) views)
          [0..<unat (depth_or_array_layers (td_size desc))])) [0..<unat (td_mip_level_count desc)]))
      (subresource_views (td_format desc))"

text \<open>Each view is created in turn; the first failure ends the loop.\<close>

fun create_all_views :: "device \<Rightarrow> hal_view_descriptor list \<Rightarrow> device_error + unit" where
  "create_all_views dev [] = Inr ()"
| "create_all_views dev (v # vs) =
     and_then (hal_ok (hd_create_texture_view (dev_hal dev) v)) (\<lambda>_. create_all_views dev vs)"

definition make_clear_mode ::
  "device \<Rightarrow> texture_descriptor \<Rightarrow> texture_uses \<Rightarrow> (create_texture_error + texture_clear_mode) option" where
  "make_clear_mode dev desc hal_usage =
    (if intersects hal_usage (tx_depth_stencil_write OR tx_color_target) \<and> td_dimension desc = D2 then
       (let (is_color, usage) =
          (if is_depth_stencil_format (td_format desc) then (False, tx_depth_stencil_write)
           else (True, tx_color_target))
        in map_option (\<lambda>views.
             and_then (map_err CtDevice (create_all_views dev views)) (\<lambda>_. Inr (ClearRenderPass views is_color)))
             (clear_view_descriptors desc usage))
     else Some (Inr ClearBufferCopy))"

text \<open>\<open>Texture::get_clear_view\<close>; a wrong mode and an index out of bounds are panics. The sum wraps.\<close>

definition get_clear_view :: "texture_clear_mode \<Rightarrow> texture_descriptor \<Rightarrow> u32 \<Rightarrow> u32 \<Rightarrow> hal_view_descriptor option option" where
  "get_clear_view mode desc mip_level depth_or_layer =
    (case mode of
       ClearBufferCopy \<Rightarrow> None
     | ClearNone \<Rightarrow> None
     | ClearSurface \<Rightarrow> Some None
     | ClearRenderPass views _ \<Rightarrow>
         (let layers = depth_or_array_layers (td_size desc);
              index = (if td_dimension desc = D3
                       then fold (\<lambda>mip acc. acc + max 1 (shr32 layers (of_nat mip))) [0..<unat mip_level] 0
                       else mip_level * layers) + depth_or_layer
          in map_option Some (vec_get views (unat index))))"

section \<open>Creating a texture\<close>

definition new_texture ::
  "device \<Rightarrow> nat \<Rightarrow> texture_uses \<Rightarrow> texture_descriptor \<Rightarrow> texture_format_features \<Rightarrow> texture_clear_mode \<Rightarrow> bool
   \<Rightarrow> texture option" where
  "new_texture dev index hal_usage desc ff clear_mode init =
    map_option (\<lambda>tracker.
      \<lparr>tex_index = index, tex_device = dev_id dev, tex_destroyed = False, tex_desc = desc, tex_hal_usage = hal_usage,
       tex_format_features = ff, tex_init = tracker,
       tex_full_range = \<lparr>sel_mips = Range 0 (td_mip_level_count desc), sel_layers = Range 0 (array_layer_count desc)\<rparr>,
       tex_clear_mode = clear_mode\<rparr>)
      (new_texture_tracker (td_mip_level_count desc) (if init then array_layer_count desc else 0))"

definition finish_texture ::
  "device \<Rightarrow> nat \<Rightarrow> texture_descriptor \<Rightarrow> texture_format_features \<Rightarrow> (create_texture_error + texture) option" where
  "finish_texture dev index desc ff =
    (case collect_view_formats (td_format desc) (td_view_formats desc) of
       Inl e \<Rightarrow> Some (Inl e)
     | Inr hal_view_formats \<Rightarrow>
         (case and_then (if hal_view_formats \<noteq> []
                         then map_err CtMissingDownlevelFlags (require_downlevel_flags dev df_view_formats)
                         else Inr ()) (\<lambda>_.
               let hal_usage = map_texture_usage_for_texture desc ff in
               and_then (map_err CtDevice (hal_ok (hd_create_texture (dev_hal dev)
                           (desc\<lparr>td_view_formats := hal_view_formats\<rparr>) hal_usage))) (\<lambda>_. Inr hal_usage)) of
            Inl e \<Rightarrow> Some (Inl e)
          | Inr hal_usage \<Rightarrow>
              (case make_clear_mode dev desc hal_usage of
                 None \<Rightarrow> None
               | Some (Inl e) \<Rightarrow> Some (Inl e)
               | Some (Inr mode) \<Rightarrow> map_option Inr (new_texture dev index hal_usage desc ff mode True))))"

definition create_texture ::
  "device \<Rightarrow> nat \<Rightarrow> texture_descriptor \<Rightarrow> (create_texture_error + texture) option" where
  "create_texture dev index desc =
    (case and_then (check_texture_shape dev desc) (\<lambda>_.
          and_then (map_err (CtMissingFeatures (td_format desc)) (describe_format_features dev (td_format desc))) (\<lambda>ff.
          and_then (check_multisampled dev desc ff) (\<lambda>_. Inr ff))) of
       Inl e \<Rightarrow> Some (Inl e)
     | Inr ff \<Rightarrow>
         (case missing_usages dev desc ff of
            None \<Rightarrow> None
          | Some (Inl e) \<Rightarrow> Some (Inl e)
          | Some (Inr missing) \<Rightarrow>
              if missing \<noteq> 0 then
                Some (Inl (CtInvalidFormatUsages missing (td_format desc)
                  (usages_minus (td_usage desc)
                     (allowed_usages (guaranteed_format_features (td_format desc) (dev_features dev))) = 0)))
              else finish_texture dev index desc ff))"

section \<open>Creating a view\<close>

record texture_view_descriptor =
  tvd_format :: "texture_format option"
  tvd_dimension :: "texture_view_dimension option"
  tvd_usage :: "texture_usages option"
  tvd_range :: image_subresource_range

datatype not_renderable =
  NrUsage texture_usages
| NrDimension texture_view_dimension
| NrMipLevelCount u32
| NrArrayLayerCount u32
| NrAspects format_aspects

record view_data =
  tv_texture :: nat
  tv_device :: nat
  tv_texture_format :: texture_format
  tv_format :: texture_format
  tv_usage :: texture_usages
  tv_dimension :: texture_view_dimension
  tv_range :: image_subresource_range
  tv_format_features :: texture_format_features
  tv_render_extent :: "not_renderable + extent3d"
  tv_samples :: u32
  tv_selector :: texture_selector
  tv_hal :: hal_view_descriptor

definition view_aspects :: "view_data \<Rightarrow> format_aspects" where
  "view_aspects v = format_aspects_new (tv_texture_format v) (isr_aspect (tv_range v))"

definition sat_sub32 :: "u32 \<Rightarrow> u32 \<Rightarrow> u32" where
  "sat_sub32 a b = (if b \<le> a then a - b else 0)"

definition sat_add32 :: "u32 \<Rightarrow> u32 \<Rightarrow> u32" where
  "sat_add32 a b = (case checked_add a b of Some c \<Rightarrow> c | None \<Rightarrow> -1)"

text \<open>The defaults a descriptor leaves open.\<close>

definition resolved_format :: "texture_descriptor \<Rightarrow> texture_view_descriptor \<Rightarrow> texture_format" where
  "resolved_format td vd =
    unwrap_or (tvd_format vd) (unwrap_or (aspect_specific_format (td_format td) (isr_aspect (tvd_range vd))) (td_format td))"

definition resolved_dimension :: "texture_descriptor \<Rightarrow> texture_view_descriptor \<Rightarrow> texture_view_dimension" where
  "resolved_dimension td vd =
    unwrap_or (tvd_dimension vd)
      (case td_dimension td of
         D1 \<Rightarrow> ViewD1
       | D2 \<Rightarrow> if array_layer_count td = 1 then ViewD2 else ViewD2Array
       | D3 \<Rightarrow> ViewD3)"

definition resolved_mip_count :: "texture_descriptor \<Rightarrow> texture_view_descriptor \<Rightarrow> u32" where
  "resolved_mip_count td vd =
    unwrap_or (isr_mip_level_count (tvd_range vd)) (sat_sub32 (td_mip_level_count td) (isr_base_mip_level (tvd_range vd)))"

definition resolved_layer_count :: "texture_descriptor \<Rightarrow> texture_view_descriptor \<Rightarrow> u32" where
  "resolved_layer_count td vd =
    unwrap_or (isr_array_layer_count (tvd_range vd))
      (case resolved_dimension td vd of
         ViewD1 \<Rightarrow> 1 | ViewD2 \<Rightarrow> 1 | ViewD3 \<Rightarrow> 1
       | ViewCube \<Rightarrow> 6
       | ViewD2Array \<Rightarrow> sat_sub32 (array_layer_count td) (isr_base_array_layer (tvd_range vd))
       | ViewCubeArray \<Rightarrow> sat_sub32 (array_layer_count td) (isr_base_array_layer (tvd_range vd)))"

definition resolved_view_usage :: "texture_descriptor \<Rightarrow> texture_view_descriptor \<Rightarrow> create_texture_view_error + texture_usages" where
  "resolved_view_usage td vd =
    (let usage = unwrap_or (tvd_usage vd) 0 in
     if usage = 0 then Inr (td_usage td)
     else if contains (td_usage td) usage then Inr usage
     else Inl (CvInvalidTextureViewUsage usage (td_usage td)))"

definition check_view_format ::
  "device \<Rightarrow> texture_descriptor \<Rightarrow> texture_view_descriptor \<Rightarrow> texture_usages
   \<Rightarrow> create_texture_view_error + texture_format_features" where
  "check_view_format dev td vd usage =
    (let format = resolved_format td vd; aspect = isr_aspect (tvd_range vd) in
     and_then (map_err CvMissingFeatures (describe_format_features dev format)) (\<lambda>ff.
     and_then (ensure (\<not> (contains usage tu_render_attachment \<and> \<not> contains (allowed_usages ff) tu_render_attachment))
                 (CvTextureViewFormatNotRenderable format)) (\<lambda>_.
     and_then (ensure (\<not> (contains usage tu_storage_binding \<and> \<not> contains (allowed_usages ff) tu_storage_binding))
                 (CvTextureViewFormatNotStorage format)) (\<lambda>_.
     and_then (ensure (format_aspects_new (td_format td) aspect \<noteq> 0) (CvInvalidAspect (td_format td) aspect)) (\<lambda>_.
     and_then (ensure (if aspect = AspectAll then format = td_format td \<or> format \<in> set (td_view_formats td)
                       else Some format = aspect_specific_format (td_format td) aspect)
                 (CvFormatReinterpretation (td_format td) format)) (\<lambda>_. Inr ff))))))"

definition check_view_layers :: "texture_view_dimension \<Rightarrow> u32 \<Rightarrow> create_texture_view_error + unit" where
  "check_view_layers dim layers =
    (case dim of
       ViewCube \<Rightarrow> ensure (\<not> layers \<noteq> 6) (CvInvalidCubemapTextureDepth layers)
     | ViewCubeArray \<Rightarrow> ensure (is_multiple_of layers 6) (CvInvalidCubemapArrayTextureDepth layers)
     | ViewD2Array \<Rightarrow> Inr ()
     | _ \<Rightarrow> ensure (\<not> layers \<noteq> 1) (CvInvalidArrayLayerCount layers dim))"

definition check_view_dimension ::
  "device \<Rightarrow> texture_descriptor \<Rightarrow> texture_view_descriptor \<Rightarrow> create_texture_view_error + unit" where
  "check_view_dimension dev td vd =
    (let dim = resolved_dimension td vd in
     and_then (if td_sample_count td > 1 \<and> dim \<noteq> ViewD2 then
                 ensure (dim = ViewD2Array \<and> features_contain (dev_features dev) multisample_array)
                   (CvInvalidMultisampledTextureViewDimension dim)
               else Inr ()) (\<lambda>_.
     and_then (ensure (\<not> td_dimension td \<noteq> compatible_texture_dimension dim)
                 (CvInvalidTextureViewDimension dim (td_dimension td))) (\<lambda>_.
     and_then (check_view_layers dim (resolved_layer_count td vd)) (\<lambda>_.
     ensure (\<not> (dim \<in> {ViewCube, ViewCubeArray} \<and> ext_width (td_size td) \<noteq> ext_height (td_size td)))
       CvInvalidCubeTextureViewSize))))"

definition view_selector ::
  "texture_descriptor \<Rightarrow> texture_view_descriptor \<Rightarrow> create_texture_view_error + texture_selector" where
  "view_selector td vd =
    (let base_mip = isr_base_mip_level (tvd_range vd); base_layer = isr_base_array_layer (tvd_range vd);
         mips = resolved_mip_count td vd; layers = resolved_layer_count td vd;
         mip_level_end = sat_add32 base_mip mips; array_layer_end = sat_add32 base_layer layers in
     and_then (ensure (\<not> mips = 0) CvZeroMipLevelCount) (\<lambda>_.
     and_then (ensure (\<not> mip_level_end > td_mip_level_count td)
                 (CvTooManyMipLevels base_mip mips (td_mip_level_count td))) (\<lambda>_.
     and_then (ensure (\<not> layers = 0) CvZeroArrayLayerCount) (\<lambda>_.
     and_then (ensure (\<not> array_layer_end > array_layer_count td)
                 (CvTooManyArrayLayers base_layer layers (array_layer_count td))) (\<lambda>_.
     Inr \<lparr>sel_mips = Range base_mip mip_level_end, sel_layers = Range base_layer array_layer_end\<rparr>)))))"

text \<open>The extent to render to, or why there is none; \<open>None\<close> is a panic of \<open>compute_render_extent\<close>.\<close>

definition render_extent ::
  "device \<Rightarrow> texture_descriptor \<Rightarrow> texture_view_descriptor \<Rightarrow> texture_usages \<Rightarrow> (not_renderable + extent3d) option" where
  "render_extent dev td vd usage =
    (let dim = resolved_dimension td vd; mips = resolved_mip_count td vd; layers = resolved_layer_count td vd;
         aspects = format_aspects_new (td_format td) (isr_aspect (tvd_range vd)) in
     if \<not> contains usage tu_render_attachment then Some (Inl (NrUsage usage))
     else if dim \<notin> {ViewD2, ViewD2Array, ViewD3} then Some (Inl (NrDimension dim))
     else if mips \<noteq> 1 then Some (Inl (NrMipLevelCount mips))
     else if layers \<noteq> 1 \<and> \<not> features_contain (dev_features dev) multiview_feature
       then Some (Inl (NrArrayLayerCount layers))
     else if \<not> is_multi_planar_format (td_format td) \<and> aspects \<noteq> format_aspects_from (td_format td)
       then Some (Inl (NrAspects aspects))
     else map_option Inr (compute_render_extent td (isr_base_mip_level (tvd_range vd))
                            (to_plane (isr_aspect (tvd_range vd)))))"

definition view_hal_usage ::
  "texture_descriptor \<Rightarrow> texture_view_descriptor \<Rightarrow> texture_usages \<Rightarrow> texture_format_features \<Rightarrow> texture_uses" where
  "view_hal_usage td vd usage ff =
    (let resolved = map_texture_usage usage (format_aspects_from (resolved_format td vd)) (format_flags ff);
         mask_copy = tx_all AND NOT (tx_copy_src OR tx_copy_dst);
         mask_dimension =
           (case resolved_dimension td vd of
              ViewCube \<Rightarrow> tx_resource | ViewCubeArray \<Rightarrow> tx_resource
            | ViewD3 \<Rightarrow> tx_resource OR tx_storage_read_only OR tx_storage_write_only OR tx_storage_read_write
            | _ \<Rightarrow> tx_all);
         mask_mip_level = (if resolved_mip_count td vd = 1 then tx_all else tx_resource)
     in resolved AND mask_copy AND mask_dimension AND mask_mip_level)"

definition finish_view ::
  "device \<Rightarrow> texture \<Rightarrow> texture_view_descriptor \<Rightarrow> texture_usages \<Rightarrow> texture_format_features \<Rightarrow> texture_selector
   \<Rightarrow> not_renderable + extent3d \<Rightarrow> create_texture_view_error + view_data" where
  "finish_view dev t vd usage ff selector extent =
    (let td = tex_desc t; format = resolved_format td vd;
         rg = (tvd_range vd)\<lparr>isr_mip_level_count := Some (resolved_mip_count td vd),
                             isr_array_layer_count := Some (resolved_layer_count td vd)\<rparr>;
         hal = \<lparr>hv_format = (if is_depth_stencil_component format (td_format td) then td_format td else format),
                hv_dimension = resolved_dimension td vd, hv_usage = view_hal_usage td vd usage ff, hv_range = rg\<rparr>
     in and_then (map_err CvDevice (hal_ok (hd_create_texture_view (dev_hal dev) hal))) (\<lambda>_.
        Inr \<lparr>tv_texture = tex_index t, tv_device = dev_id dev, tv_texture_format = td_format td, tv_format = format,
             tv_usage = usage, tv_dimension = resolved_dimension td vd, tv_range = rg,
             tv_format_features = tex_format_features t, tv_render_extent = extent,
             tv_samples = td_sample_count td, tv_selector = selector, tv_hal = hal\<rparr>))"

definition create_texture_view ::
  "device \<Rightarrow> texture \<Rightarrow> texture_view_descriptor \<Rightarrow> (create_texture_view_error + view_data) option" where
  "create_texture_view dev t vd =
    (let td = tex_desc t in
     case and_then (map_err CvDevice (check_is_valid dev)) (\<lambda>_.
          and_then (ensure (\<not> tex_destroyed t) (CvDestroyedResource (tex_index t))) (\<lambda>_.
          and_then (resolved_view_usage td vd) (\<lambda>usage.
          and_then (check_view_format dev td vd usage) (\<lambda>ff.
          and_then (check_view_dimension dev td vd) (\<lambda>_.
          and_then (view_selector td vd) (\<lambda>selector. Inr (usage, ff, selector))))))) of
       Inl e \<Rightarrow> Some (Inl e)
     | Inr (usage, ff, selector) \<Rightarrow>
         map_option (finish_view dev t vd usage ff selector) (render_extent dev td vd usage))"

section \<open>The usage of the backend allows the clear\<close>

lemma aspects_color:
  "\<not> is_depth_stencil_format f \<Longrightarrow> intersects (format_aspects_from f) (fa_color OR fa_plane_0 OR fa_plane_1 OR fa_plane_2)"
  by (cases f) (simp_all add: is_depth_stencil_format_def has_depth_aspect_def has_stencil_aspect_def channels_def
      format_aspects_from_def intersects_def fa_bits ch_depth_def ch_stencil_def contains_def)

lemma no_depth_write:
  assumes "\<not> is_depth_stencil_format f"
  shows "\<not> bit (map_texture_usage usage (format_aspects_from f) flags) 7"
  using aspects_color [OF assms]
  by (simp add: map_texture_usage_def Let_def bit_set_flag tx_bits bit_simps)

lemma target_bits: "bit tx_color_target n \<longleftrightarrow> n = 5" "bit tx_depth_stencil_write n \<longleftrightarrow> n = 7"
  unfolding tx_color_target_def tx_depth_stencil_write_def bit_push_bit_iff bit_1_iff by auto

lemma hal_usage_clears:
  assumes H: "H = map_texture_usage_for_texture desc ff"
  shows "is_depth_stencil_format (td_format desc) \<Longrightarrow> contains H tx_depth_stencil_write"
    and "\<not> is_depth_stencil_format (td_format desc) \<Longrightarrow> intersects H (tx_depth_stencil_write OR tx_color_target)
      \<Longrightarrow> contains H tx_color_target"
    and "\<not> (intersects H (tx_depth_stencil_write OR tx_color_target) \<and> td_dimension desc = D2)
      \<Longrightarrow> (is_depth_stencil_format (td_format desc) \<Longrightarrow> td_dimension desc = D2) \<Longrightarrow> contains H tx_copy_dst"
proof -
  show "contains H tx_depth_stencil_write" if "is_depth_stencil_format (td_format desc)"
    using that by (simp add: H map_texture_usage_for_texture_def contains_iff bit_or_iff)
next
  assume a: "\<not> is_depth_stencil_format (td_format desc)" "intersects H (tx_depth_stencil_write OR tx_color_target)"
  have "\<not> bit H 7" using no_depth_write [OF a(1)] a(1)
    by (simp add: H map_texture_usage_for_texture_def bit_or_iff tx_bits bit_simps)
  with a(2) show "contains H tx_color_target"
    by (auto simp: intersects_iff contains_iff target_bits bit_or_iff)
next
  assume "\<not> (intersects H (tx_depth_stencil_write OR tx_color_target) \<and> td_dimension desc = D2)"
    and "is_depth_stencil_format (td_format desc) \<Longrightarrow> td_dimension desc = D2"
  moreover have "intersects (u OR tx_depth_stencil_write) (tx_depth_stencil_write OR tx_color_target)"
    "intersects (u OR tx_color_target) (tx_depth_stencil_write OR tx_color_target)" for u
    by (auto simp: intersects_iff target_bits bit_or_iff)
  ultimately show "contains H tx_copy_dst"
    by (auto simp: H map_texture_usage_for_texture_def contains_iff bit_or_iff split: if_splits)
qed

section \<open>Clear views\<close>

lemma planes_some: "planes f = Some n \<longleftrightarrow> (f = NV12 \<or> f = P010) \<and> n = 2"
  by (cases f) (auto simp: planes_def)

lemma plane_indices_2: "plane_indices 2 = [0, 1]"
  by (simp add: plane_indices_def upt_rec)

lemma from_plane_01: "from_plane 0 = Some Plane0" "from_plane 1 = Some Plane1"
  by (simp_all add: from_plane_def)

lemma planes_usages_ok: "planes f = Some n \<Longrightarrow> planes_usages dev f (plane_indices n) acc \<noteq> None"
  by (auto simp: planes_some plane_indices_2 from_plane_01 aspect_specific_format_def split: sum.split)

lemma subresource_views_ok:
  "subresource_views f = Some (case f of
      NV12 \<Rightarrow> [(R8Unorm, Plane0), (Rg8Unorm, Plane1)] | P010 \<Rightarrow> [(R16Unorm, Plane0), (Rg16Unorm, Plane1)]
    | _ \<Rightarrow> [(f, AspectAll)])"
  by (cases f) (simp_all add: subresource_views_def planes_def plane_indices_2 from_plane_01 aspect_specific_format_def)

lemma length_rectangle: "length (concat (map (\<lambda>i. map (f i) [0..<n]) [0..<m])) = m * n"
  by (induction m) simp_all

lemma nth_rectangle:
  assumes "i < m" and "j < n"
  shows "concat (map (\<lambda>i. map (f i) [0..<n]) [0..<m]) ! (i * n + j) = f i j"
  using assms(1)
proof (induction m)
  case (Suc m)
  show ?case
  proof (cases "i < m")
    case True
    then have "Suc i * n \<le> m * n" by (intro mult_le_mono1) simp
    with assms(2) have "i * n + j < m * n" by simp
    with True Suc.IH show ?thesis by (simp add: nth_append length_rectangle)
  next
    case False
    with Suc.prems have "i = m" by simp
    with assms(2) show ?thesis by (simp add: nth_append length_rectangle)
  qed
qed simp

lemma clear_view_found:
  assumes single: "\<not> is_multi_planar_format (td_format desc)" and dim: "td_dimension desc = D2"
    and views: "clear_view_descriptors desc usage = Some views"
    and m: "mip < td_mip_level_count desc" and l: "layer < depth_or_array_layers (td_size desc)"
    and room: "unat (td_mip_level_count desc) * unat (depth_or_array_layers (td_size desc)) < 2 ^ 32"
  shows "get_clear_view (ClearRenderPass views c) desc mip layer = Some (Some
    \<lparr>hv_format = td_format desc, hv_dimension = ViewD2, hv_usage = usage, hv_range = clear_view_range AspectAll mip layer\<rparr>)"
proof -
  let ?M = "unat (td_mip_level_count desc)" and ?L = "unat (depth_or_array_layers (td_size desc))"
  let ?g = "\<lambda>m l. \<lparr>hv_format = td_format desc, hv_dimension = ViewD2, hv_usage = usage,
      hv_range = clear_view_range AspectAll (of_nat m) (of_nat l)\<rparr>"
  have "subresource_views (td_format desc) = Some [(td_format desc, AspectAll)]"
    using single by (simp add: subresource_views_ok split: texture_format.split)
  then have v: "views = concat (map (\<lambda>m. map (?g m) [0..<?L]) [0..<?M])"
    using views by (simp add: clear_view_descriptors_def concat_map_singleton)
  have ml: "unat mip < ?M" "unat layer < ?L" using m l by (simp_all add: word_less_nat_alt)
  have "Suc (unat mip) * ?L \<le> ?M * ?L" using ml by (intro mult_le_mono1) simp
  with ml have idx: "unat mip * ?L + unat layer < ?M * ?L" by simp
  then have "unat (mip * depth_or_array_layers (td_size desc) + layer) = unat mip * ?L + unat layer"
    using room by (simp add: unat_word_ariths)
  with idx nth_rectangle [OF ml, of ?g] show ?thesis
    by (simp add: get_clear_view_def dim v vec_get_def length_rectangle)
qed

section \<open>Created textures\<close>

definition texture_shape_ok :: "device \<Rightarrow> texture_descriptor \<Rightarrow> bool" where
  "texture_shape_ok dev d \<longleftrightarrow>
     0 < td_mip_level_count d \<and> td_mip_level_count d \<le> 16 \<and> td_mip_level_count d \<le> max_mips (td_size d) (td_dimension d)
     \<and> 0 < ext_width (td_size d) \<and> 0 < ext_height (td_size d) \<and> 0 < depth_or_array_layers (td_size d)
     \<and> (td_dimension d = D2 \<longrightarrow> depth_or_array_layers (td_size d) \<le> max_texture_array_layers (dev_limits dev))
     \<and> 0 < td_sample_count d \<and> td_sample_count d \<le> 32
     \<and> (1 < td_sample_count d \<longrightarrow> td_dimension d = D2 \<and> td_mip_level_count d = 1)
     \<and> (is_depth_stencil_format (td_format d) \<longrightarrow> td_dimension d = D2)
     \<and> (is_compressed (td_format d) \<longrightarrow> is_multiple_of (ext_width (td_size d)) (fst (block_dimensions (td_format d)))
          \<and> is_multiple_of (ext_height (td_size d)) (snd (block_dimensions (td_format d))))"

text \<open>
  The clear mode fits the texture. A texture that is cleared by copies may be written by copies and is not a
  depth or stencil texture, for which the copies panic. A texture that is cleared by render passes has, when
  its format has one plane, a view for each subresource. Textures with several planes are not promised
  anything here: their clear by copies does nothing, and their views are counted wrongly (see below).
\<close>

definition clear_mode_fits :: "texture_descriptor \<Rightarrow> texture_uses \<Rightarrow> texture_clear_mode \<Rightarrow> bool" where
  "clear_mode_fits d hal_usage mode \<longleftrightarrow>
     (case mode of
        ClearBufferCopy \<Rightarrow> contains hal_usage tx_copy_dst \<and> \<not> is_depth_stencil_format (td_format d)
      | ClearRenderPass views is_color \<Rightarrow> td_dimension d = D2
          \<and> contains hal_usage (if is_color then tx_color_target else tx_depth_stencil_write)
          \<and> (\<not> is_multi_planar_format (td_format d) \<longrightarrow>
              (\<forall>mip < td_mip_level_count d. \<forall>layer < array_layer_count d.
                 case get_clear_view mode d mip layer of
                   Some (Some v) \<Rightarrow> hv_range v = clear_view_range AspectAll mip layer
                     \<and> hv_usage v = (if is_color then tx_color_target else tx_depth_stencil_write)
                 | _ \<Rightarrow> False))
      | _ \<Rightarrow> False)"

definition texture_ok :: "texture \<Rightarrow> bool" where
  "texture_ok t \<longleftrightarrow>
     mips (tex_init t) = replicate (unat (td_mip_level_count (tex_desc t))) (new_tracker (array_layer_count (tex_desc t)))
     \<and> tex_full_range t = \<lparr>sel_mips = Range 0 (td_mip_level_count (tex_desc t)),
                           sel_layers = Range 0 (array_layer_count (tex_desc t))\<rparr>
     \<and> \<not> tex_destroyed t \<and> clear_mode_fits (tex_desc t) (tex_hal_usage t) (tex_clear_mode t)"

lemma shape_checked:
  assumes "check_texture_shape dev desc = Inr u" and "check_multisampled dev desc ff = Inr v"
  shows "texture_shape_ok dev desc"
proof -
  let ?d = "td_dimension desc" and ?sz = "td_size desc" and ?n = "td_sample_count desc"
  have c: "check_texture_dimension_size ?d ?sz ?n (dev_limits dev) = Inr ()"
    "td_mip_level_count desc \<noteq> 0" "td_mip_level_count desc \<le> max_levels_allowed desc"
    "is_depth_stencil_format (td_format desc) \<longrightarrow> ?d = D2" "check_compressed dev desc = Inr ()"
    using assms(1) unfolding check_texture_shape_def Let_def
    by (auto simp: and_then_Inr simp del: split_paired_Ex)
  have "is_compressed (td_format desc) \<longrightarrow> is_multiple_of (ext_width ?sz) (fst (block_dimensions (td_format desc)))
      \<and> is_multiple_of (ext_height ?sz) (snd (block_dimensions (td_format desc)))"
    using c(5) by (auto simp: check_compressed_def Let_def and_then_Inr split: prod.splits if_splits)
  moreover have "0 < ext_width ?sz \<and> 0 < ext_height ?sz \<and> 0 < depth_or_array_layers ?sz
      \<and> (?d = D2 \<longrightarrow> depth_or_array_layers ?sz \<le> max_texture_array_layers (dev_limits dev))
      \<and> 0 < ?n \<and> ?n \<le> 32 \<and> (1 < ?n \<longrightarrow> ?d = D2)"
    using c(1)
    by (auto simp: check_texture_dimension_size_def and_then_Inr word_neq_0_conv not_less Let_def
        split: texture_dimension.splits if_splits intro: order.trans [of _ 1 "32 :: u32"])
  moreover have "1 < ?n \<longrightarrow> td_mip_level_count desc = 1"
    using assms(2) by (auto simp: check_multisampled_def Let_def and_then_Inr)
  ultimately show ?thesis
    using c(2-4) by (simp add: texture_shape_ok_def max_levels_allowed_def HAL_MAX_MIP_LEVELS_def word_neq_0_conv)
qed

text \<open>The clear mode that \<open>create_texture\<close> chooses.\<close>

lemma clear_mode_ok:
  assumes shape: "texture_shape_ok dev desc" and H: "H = map_texture_usage_for_texture desc ff"
    and layers: "unat (max_texture_array_layers (dev_limits dev)) < 2 ^ 28"
  obtains r where "make_clear_mode dev desc H = Some r" and "\<And>m. r = Inr m \<Longrightarrow> clear_mode_fits desc H m"
proof (cases "intersects H (tx_depth_stencil_write OR tx_color_target) \<and> td_dimension desc = D2")
  case False
  have depth: "is_depth_stencil_format (td_format desc) \<Longrightarrow> td_dimension desc = D2"
    using shape by (simp add: texture_shape_ok_def)
  have "contains H tx_copy_dst" by (rule hal_usage_clears(3) [OF H False depth])
  moreover have "\<not> is_depth_stencil_format (td_format desc)"
    using False depth hal_usage_clears(1) [OF H] by (auto simp: contains_iff intersects_iff bit_or_iff target_bits)
  ultimately show thesis
    using False by (intro that [of "Inr ClearBufferCopy"]) (auto simp: make_clear_mode_def clear_mode_fits_def)
next
  case True
  let ?color = "\<not> is_depth_stencil_format (td_format desc)"
  let ?use = "if ?color then tx_color_target else tx_depth_stencil_write"
  have use: "contains H ?use" using hal_usage_clears(1,2) [OF H] True by simp
  obtain views where v: "clear_view_descriptors desc ?use = Some views"
    by (auto simp: clear_view_descriptors_def subresource_views_ok)
  have mode: "make_clear_mode dev desc H
      = Some (and_then (map_err CtDevice (create_all_views dev views)) (\<lambda>_. Inr (ClearRenderPass views ?color)))"
    using True v
    by (cases "is_depth_stencil_format (td_format desc)") (simp_all add: make_clear_mode_def del: is_depth_stencil_format_iff)
  have layers_eq: "array_layer_count desc = depth_or_array_layers (td_size desc)"
    using True by (simp add: array_layer_count_def)
  have "unat (td_mip_level_count desc) \<le> 16" "unat (depth_or_array_layers (td_size desc)) < 2 ^ 28"
    using shape layers True by (auto simp: texture_shape_ok_def word_le_nat_alt)
  then have "unat (td_mip_level_count desc) * unat (depth_or_array_layers (td_size desc)) \<le> 16 * (2 ^ 28 - 1)"
    by (intro mult_le_mono) simp_all
  then have room: "unat (td_mip_level_count desc) * unat (depth_or_array_layers (td_size desc)) < 2 ^ 32" by simp
  have "clear_mode_fits desc H (ClearRenderPass views ?color)"
    using True use clear_view_found [OF _ conjunct2 [OF True] v _ _ room, of _ _ ?color]
    by (simp add: clear_mode_fits_def layers_eq del: is_depth_stencil_format_iff)
  then show thesis
    by (intro that [OF mode]) (auto simp: and_then_Inr)
qed

text \<open>The last steps either fail with an error or are those of the clear mode.\<close>

lemma finish_texture_cases:
  obtains e where "finish_texture dev index desc ff = Some (Inl e)"
  | "finish_texture dev index desc ff =
       (let H = map_texture_usage_for_texture desc ff in
        case make_clear_mode dev desc H of
          None \<Rightarrow> None
        | Some (Inl e) \<Rightarrow> Some (Inl e)
        | Some (Inr mode) \<Rightarrow> map_option Inr (new_texture dev index H desc ff mode True))"
proof (cases "collect_view_formats (td_format desc) (td_view_formats desc)")
  case (Inl e)
  then show thesis by (intro that(1)) (simp add: finish_texture_def)
next
  case (Inr fs)
  let ?r = "and_then (if fs \<noteq> [] then map_err CtMissingDownlevelFlags (require_downlevel_flags dev df_view_formats) else Inr ())
      (\<lambda>_. let H = map_texture_usage_for_texture desc ff in
        and_then (map_err CtDevice (hal_ok (hd_create_texture (dev_hal dev) (desc\<lparr>td_view_formats := fs\<rparr>) H))) (\<lambda>_. Inr H))"
  show thesis
  proof (cases ?r)
    case (Inl e)
    with Inr show thesis by (intro that(1) [of e]) (simp only: finish_texture_def sum.case)
  next
    case r: (Inr H)
    then have "H = map_texture_usage_for_texture desc ff" by (auto simp: and_then_Inr Let_def)
    with Inr r show thesis by (intro that(2)) (simp only: finish_texture_def sum.case Let_def)
  qed
qed

text \<open>C16: When the device allows fewer than \<open>2 ^ 28\<close> array layers, creating a texture never panics, and a created
  texture is well formed. Its descriptor passed every check on size, mip levels, layers, samples and blocks;
  its memory is recorded as uninitialised for exactly its subresources; and, for a format with one plane,
  it can be cleared: either it is cleared by copies, the backend texture may be the target of a copy and it
  is no depth or stencil texture, or it may be rendered to and \<open>get_clear_view\<close> finds for each subresource a
  view of exactly that subresource. For a format with several planes only the usage of the backend texture
  is stated: its clear does not fit.\<close>

theorem create_texture_ok:
  assumes "unat (max_texture_array_layers (dev_limits dev)) < 2 ^ 28"
  shows "case create_texture dev index desc of
      None \<Rightarrow> False
    | Some (Inl e) \<Rightarrow> True
    | Some (Inr t) \<Rightarrow> tex_desc t = desc \<and> texture_shape_ok dev desc \<and> texture_ok t"
proof -
  let ?f = "td_format desc"
  let ?r = "and_then (check_texture_shape dev desc) (\<lambda>_.
          and_then (map_err (CtMissingFeatures ?f) (describe_format_features dev ?f)) (\<lambda>ff.
          and_then (check_multisampled dev desc ff) (\<lambda>_. Inr ff)))"
  show ?thesis
  proof (cases ?r)
    case (Inl e)
    then show ?thesis by (simp add: create_texture_def)
  next
    case (Inr ff)
    then obtain u v where "check_texture_shape dev desc = Inr u" "check_multisampled dev desc ff = Inr v"
      by (auto simp: and_then_Inr)
    then have shape: "texture_shape_ok dev desc" by (rule shape_checked)
    have mu: "missing_usages dev desc ff \<noteq> None"
      using planes_usages_ok by (auto simp: missing_usages_def split: option.split)
    have "unat (td_mip_level_count desc) \<le> 16"
      using shape by (simp add: texture_shape_ok_def word_le_nat_alt)
    then have tracker: "new_texture_tracker (td_mip_level_count desc) (array_layer_count desc)
        = Some \<lparr>mips = replicate (unat (td_mip_level_count desc)) (new_tracker (array_layer_count desc))\<rparr>"
      by (simp add: new_texture_tracker_def MAX_MIP_LEVELS_def)
    have "case finish_texture dev index desc ff of
        None \<Rightarrow> False | Some (Inl e) \<Rightarrow> True | Some (Inr t) \<Rightarrow> tex_desc t = desc \<and> texture_ok t"
    proof -
      obtain r where r: "make_clear_mode dev desc (map_texture_usage_for_texture desc ff) = Some r"
        "\<And>m. r = Inr m \<Longrightarrow> clear_mode_fits desc (map_texture_usage_for_texture desc ff) m"
        using clear_mode_ok [OF shape refl [of "map_texture_usage_for_texture desc ff"] assms] by blast
      show ?thesis using r tracker
        by (cases rule: finish_texture_cases [of dev index desc ff]; cases r)
          (auto simp: new_texture_def texture_ok_def Let_def)
    qed
    with Inr mu shape show ?thesis
      by (auto simp: create_texture_def split: option.splits sum.splits)
  qed
qed

definition small_texture :: "texture_format \<Rightarrow> texture_descriptor" where
  "small_texture f = \<lparr>td_size = \<lparr>ext_width = 4, ext_height = 4, depth_or_array_layers = 2\<rparr>, td_mip_level_count = 1,
     td_sample_count = 1, td_dimension = D2, td_format = f, td_usage = tu_render_attachment OR tu_texture_binding,
     td_view_formats = []\<rparr>"

theorem create_texture_ok_witness:
  "case create_texture basic_device 0 (small_texture Rgba8Unorm) of
     None \<Rightarrow> False
   | Some (Inl e) \<Rightarrow> True
   | Some (Inr t) \<Rightarrow> tex_desc t = small_texture Rgba8Unorm \<and> texture_shape_ok basic_device (small_texture Rgba8Unorm)
       \<and> texture_ok t"
  by (rule create_texture_ok) (simp add: basic_device_def limits_defaults_def)

text \<open>
  A format with two planes has two clear views per subresource, but \<open>get_clear_view\<close> counts one: the
  view it finds for the second layer is the second plane of the first layer.
\<close>

lemma multi_planar_clear_view:
  "case clear_view_descriptors (small_texture NV12) tx_color_target of
     None \<Rightarrow> False
   | Some views \<Rightarrow>
       length views = 4 \<and> get_clear_view (ClearRenderPass views True) (small_texture NV12) 0 1
         = Some (Some \<lparr>hv_format = Rg8Unorm, hv_dimension = ViewD2, hv_usage = tx_color_target,
                       hv_range = clear_view_range Plane1 0 0\<rparr>)"
  by (simp add: clear_view_descriptors_def subresource_views_ok small_texture_def get_clear_view_def vec_get_def upt_rec)

section \<open>Created views\<close>

text \<open>What a view promises about its texture.\<close>

definition view_ok :: "texture \<Rightarrow> view_data \<Rightarrow> bool" where
  "view_ok t v \<longleftrightarrow>
     (let d = tex_desc t; m = sel_mips (tv_selector v); l = sel_layers (tv_selector v) in
      rstart m < rend m \<and> rend m \<le> td_mip_level_count d \<and> rstart l < rend l \<and> rend l \<le> array_layer_count d
      \<and> isr_mip_level_count (tv_range v) = Some (rend m - rstart m) \<and> isr_base_mip_level (tv_range v) = rstart m
      \<and> isr_array_layer_count (tv_range v) = Some (rend l - rstart l) \<and> isr_base_array_layer (tv_range v) = rstart l
      \<and> view_aspects v \<noteq> 0 \<and> contains (td_usage d) (tv_usage v)
      \<and> td_dimension d = compatible_texture_dimension (tv_dimension v)
      \<and> (tv_dimension v = ViewCube \<longrightarrow> rend l - rstart l = 6)
      \<and> (tv_dimension v \<notin> {ViewCube, ViewCubeArray, ViewD2Array} \<longrightarrow> rend l - rstart l = 1)
      \<and> (\<forall>e. tv_render_extent v = Inr e \<longrightarrow> contains (tv_usage v) tu_render_attachment \<and> rend m = rstart m + 1
           \<and> compute_render_extent d (rstart m) (to_plane (isr_aspect (tv_range v))) = Some e))"

lemma sat_add_range:
  assumes "sat_add32 b n \<le> e" and "n \<noteq> 0" and "e < -1"
  shows "b < sat_add32 b n" and "sat_add32 b n - b = n" and "sat_add32 b n = b + n"
proof -
  have c: "unat b + unat n < 2 ^ 32" "sat_add32 b n = b + n"
    using assms(1,3) by (auto simp: sat_add32_def checked_add_def split: if_splits)
  then have "unat (b + n) = unat b + unat n" by (simp add: unat_word_ariths)
  then show "b < sat_add32 b n" "sat_add32 b n - b = n" "sat_add32 b n = b + n"
    using assms(2) c(2) by (simp_all add: word_less_nat_alt unat_gt_0)
qed

lemma collect_view_formats_suffix:
  "collect_view_formats f vs = Inr fs \<Longrightarrow> v \<in> set vs \<Longrightarrow> remove_srgb_suffix v = remove_srgb_suffix f"
  by (induction vs arbitrary: fs) (auto simp: and_then_Inr split: if_splits)

lemma created_texture:
  assumes "create_texture dev index desc = Some (Inr t)"
  shows "tex_desc t = desc" and "texture_shape_ok dev desc"
    and "v \<in> set (td_view_formats desc) \<Longrightarrow> remove_srgb_suffix v = remove_srgb_suffix (td_format desc)"
proof -
  obtain ff u w where r: "check_texture_shape dev desc = Inr u" "check_multisampled dev desc ff = Inr w"
    "finish_texture dev index desc ff = Some (Inr t)"
    using assms by (auto simp: create_texture_def and_then_Inr split: sum.splits option.splits if_splits)
  show "texture_shape_ok dev desc" using r(1,2) by (rule shape_checked)
  show "tex_desc t = desc"
    using r(3) by (auto simp: finish_texture_def new_texture_def split: sum.splits option.splits)
  obtain fs where "collect_view_formats (td_format desc) (td_view_formats desc) = Inr fs"
    using r(3) by (auto simp: finish_texture_def split: sum.splits)
  then show "v \<in> set (td_view_formats desc) \<Longrightarrow> remove_srgb_suffix v = remove_srgb_suffix (td_format desc)"
    by (rule collect_view_formats_suffix)
qed

text \<open>The range that the view selects lies in the texture.\<close>

lemma view_selector_ok:
  assumes "view_selector td vd = Inr sel" and "array_layer_count td < -1" and "td_mip_level_count td < -1"
  shows "\<exists>b n c k. sel = \<lparr>sel_mips = Range b (b + n), sel_layers = Range c (c + k)\<rparr>
    \<and> b = isr_base_mip_level (tvd_range vd) \<and> n = resolved_mip_count td vd \<and> n \<noteq> 0
    \<and> b < b + n \<and> b + n \<le> td_mip_level_count td
    \<and> c = isr_base_array_layer (tvd_range vd) \<and> k = resolved_layer_count td vd \<and> k \<noteq> 0
    \<and> c < c + k \<and> c + k \<le> array_layer_count td"
proof -
  let ?b = "isr_base_mip_level (tvd_range vd)" and ?n = "resolved_mip_count td vd"
  let ?c = "isr_base_array_layer (tvd_range vd)" and ?k = "resolved_layer_count td vd"
  have c: "?n \<noteq> 0" "sat_add32 ?b ?n \<le> td_mip_level_count td" "?k \<noteq> 0" "sat_add32 ?c ?k \<le> array_layer_count td"
    and sel: "sel = \<lparr>sel_mips = Range ?b (sat_add32 ?b ?n), sel_layers = Range ?c (sat_add32 ?c ?k)\<rparr>"
    using assms(1) by (auto simp: view_selector_def Let_def and_then_Inr)
  show ?thesis
    using sel c sat_add_range [OF c(2,1) assms(3)] sat_add_range [OF c(4,3) assms(2)] by auto
qed

lemma one_less_max: "(1 :: u32) < -1"
  by code_simp

lemma texture_shape_bounds:
  assumes "texture_shape_ok dev d" and "max_texture_array_layers (dev_limits dev) < -1"
  shows "array_layer_count d < -1" and "td_mip_level_count d < -1"
proof -
  have "td_mip_level_count d \<le> 16" "td_dimension d = D2
      \<longrightarrow> depth_or_array_layers (td_size d) \<le> max_texture_array_layers (dev_limits dev)"
    using assms(1) by (simp_all add: texture_shape_ok_def)
  then show "array_layer_count d < -1" "td_mip_level_count d < -1"
    using assms(2) order.strict_trans1 [of "td_mip_level_count d" 16 "-1"] one_less_max
    by (auto simp: array_layer_count_def split: texture_dimension.split)
qed

lemma view_aspect_planar:
  assumes "is_multi_planar_format f" and "format_aspects_new f a \<noteq> 0"
  shows "a \<in> {AspectAll, Plane0, Plane1}"
  using assms by (cases a) (auto simp: format_aspects_new_def format_aspects_from_def fa_bits)


lemma planar_suffix:
  "is_multi_planar_format g \<Longrightarrow> remove_srgb_suffix v = remove_srgb_suffix g \<Longrightarrow> is_multi_planar_format v"
  by (cases v) (auto simp: remove_srgb_suffix_def split: if_splits)

lemma compute_render_extent_some:
  assumes "base < td_mip_level_count td" and "is_multi_planar_format (td_format td) \<Longrightarrow> a \<in> {Plane0, Plane1}"
  shows "\<exists>e. compute_render_extent td base (to_plane a) = Some e"
  using assms
  by (auto simp: compute_render_extent_def desc_mip_level_size_def subsampling_factors_def to_plane_def not_le
      split: texture_format.split)

text \<open>
  The extent of a view that passed the checks. Only a view of all the planes of a format has none, and the
  checks let it through when the backend reports that a format with several planes can be rendered to.
\<close>

definition renders_all_planes :: "device \<Rightarrow> texture_descriptor \<Rightarrow> texture_view_descriptor \<Rightarrow> bool" where
  "renders_all_planes dev td vd \<longleftrightarrow>
     isr_aspect (tvd_range vd) = AspectAll \<and> is_multi_planar_format (td_format td)
     \<and> is_multi_planar_format (resolved_format td vd)
     \<and> (case describe_format_features dev (resolved_format td vd) of
          Inl _ \<Rightarrow> False | Inr ff \<Rightarrow> contains (allowed_usages ff) tu_render_attachment)
     \<and> (case resolved_view_usage td vd of Inl _ \<Rightarrow> False | Inr usage \<Rightarrow> contains usage tu_render_attachment)"

lemma render_extent_ok:
  assumes checked: "check_view_format dev td vd usage = Inr ff" and usage: "resolved_view_usage td vd = Inr usage"
    and views: "\<And>v. v \<in> set (td_view_formats td) \<Longrightarrow> remove_srgb_suffix v = remove_srgb_suffix (td_format td)"
    and base: "isr_base_mip_level (tvd_range vd) < td_mip_level_count td"
    and none: "render_extent dev td vd usage = None"
  shows "renders_all_planes dev td vd"
proof -
  let ?f = "resolved_format td vd" and ?a = "isr_aspect (tvd_range vd)"
  have True: "contains usage tu_render_attachment" using none by (auto simp: render_extent_def Let_def split: if_splits)
  have c: "describe_format_features dev ?f = Inr ff" "contains (allowed_usages ff) tu_render_attachment"
    "format_aspects_new (td_format td) ?a \<noteq> 0"
    "?a = AspectAll \<Longrightarrow> ?f = td_format td \<or> ?f \<in> set (td_view_formats td)"
    using checked True by (auto simp: check_view_format_def Let_def and_then_Inr map_err_def split: sum.splits if_splits)
  have planar: "is_multi_planar_format (td_format td)" "?a \<notin> {Plane0, Plane1}"
    using none compute_render_extent_some [OF base, of ?a] by (auto simp: render_extent_def Let_def split: if_splits)
  then have all: "?a = AspectAll" using view_aspect_planar [OF planar(1) c(3)] by blast
  then have "remove_srgb_suffix ?f = remove_srgb_suffix (td_format td)" using c(4) views by metis
  with planar_suffix [OF planar(1)] have "is_multi_planar_format ?f" by blast
  with planar all c(1,2) usage True show ?thesis by (simp add: renders_all_planes_def del: is_multi_planar_iff)
qed

lemma render_extent_Inr:
  assumes "render_extent dev td vd usage = Some (Inr e)"
  shows "contains usage tu_render_attachment" and "resolved_mip_count td vd = 1"
    and "compute_render_extent td (isr_base_mip_level (tvd_range vd)) (to_plane (isr_aspect (tvd_range vd))) = Some e"
  using assms by (auto simp: render_extent_def Let_def split: if_splits)

lemma check_view_dimensionD:
  assumes "check_view_dimension dev td vd = Inr u"
  shows "td_dimension td = compatible_texture_dimension (resolved_dimension td vd)"
    and "resolved_dimension td vd = ViewCube \<Longrightarrow> resolved_layer_count td vd = 6"
    and "resolved_dimension td vd \<notin> {ViewCube, ViewCubeArray, ViewD2Array} \<Longrightarrow> resolved_layer_count td vd = 1"
  using assms
  by (auto simp: check_view_dimension_def check_view_layers_def Let_def and_then_Inr
      split: if_splits texture_view_dimension.splits)



definition whole_view :: texture_view_descriptor where
  "whole_view = \<lparr>tvd_format = None, tvd_dimension = None, tvd_usage = None,
     tvd_range = \<lparr>isr_aspect = AspectAll, isr_base_mip_level = 0, isr_mip_level_count = None,
                 isr_base_array_layer = 0, isr_array_layer_count = None\<rparr>\<rparr>"

lemma rgba8_facts:
  "is_compressed Rgba8Unorm = False" "size_multiple_requirement Rgba8Unorm = (1, 1)" "required_features Rgba8Unorm = features_empty"
  by (simp_all add: is_compressed_def block_dimensions_def size_multiple_requirement_def required_features_def)

lemma attachment_bits:
  "tu_render_attachment OR tu_texture_binding \<noteq> 0" "(tu_render_attachment OR tu_texture_binding) AND NOT tu_all = 0"
  "contains (tu_render_attachment OR tu_texture_binding) tu_transient = False"
  by code_simp+

lemma power_of_two_1: "is_power_of_two (1 :: u32)"
  by code_simp

lemma basic_device_features:
  "features_contain features_empty texture_format_p010 = False" "features_contain features_empty texture_format_nv12 = False"
  "features_contain features_empty texture_adapter_specific_format_features = False"
  "features_contain features_empty features_empty = True" "contains df_all df_webgpu_texture_format_support = True"
  by code_simp+

lemma small_shape:
  "check_texture_dimension_size D2 \<lparr>ext_width = 4, ext_height = 4, depth_or_array_layers = 2\<rparr> 1 limits_defaults = Inr ()"
  "min (max_mips \<lparr>ext_width = 4, ext_height = 4, depth_or_array_layers = 2\<rparr> D2) HAL_MAX_MIP_LEVELS = 3"
  by (simp add: check_texture_dimension_size_def limits_defaults_def power_of_two_1 Let_def) code_simp

lemma basic_device_shape:
  "check_texture_shape basic_device (small_texture Rgba8Unorm) = Inr ()"
      apply (simp add: check_texture_shape_def check_compressed_def Let_def small_texture_def ensure_def basic_device_def rgba8_facts attachment_bits small_shape
    check_is_valid_def max_levels_allowed_def size_multiples_def is_multiple_of_def)
 done
lemma rgba8_described:
  "describe_format_features basic_device Rgba8Unorm = Inr (guaranteed_format_features Rgba8Unorm features_empty)"
  by (simp add: describe_format_features_def basic_device_def Let_def require_features_def rgba8_facts basic_device_features)

lemma basic_device_samples:
  "check_multisampled basic_device (small_texture Rgba8Unorm) ff = Inr ()"
  by (simp add: check_multisampled_def small_texture_def)

lemma small_texture_format: "td_format (small_texture f) = f"
  by (simp add: small_texture_def)

lemma basic_device_missing:
  "missing_usages basic_device (small_texture Rgba8Unorm) (guaranteed_format_features Rgba8Unorm features_empty) = Some (Inr 0)"
proof -
  have "(tu_render_attachment OR tu_texture_binding) AND NOT (snd (format_table features_empty Rgba8Unorm)) = 0"
    by (simp add: format_table_def Let_def usage_bits) 
  then show ?thesis
    by (simp add: missing_usages_def planes_def small_texture_def usages_minus_def guaranteed_format_features_def
        case_prod_unfold Let_def)
qed

lemma basic_device_finish:
  "\<exists>t. finish_texture basic_device 0 (small_texture Rgba8Unorm) ff = Some (Inr t)"
  by (auto simp: finish_texture_def small_texture_def basic_device_def willing_hal_def hal_ok_def Let_def new_texture_def
      new_texture_tracker_def make_clear_mode_def clear_view_descriptors_def subresource_views_ok upt_rec MAX_MIP_LEVELS_def)


end
