(* ===== verification/Buffers.thy ===== *)
theory Buffers
  imports Devices
begin

unbundle bit_operations_syntax

text \<open>
  Buffers: \<open>create_buffer\<close> (\<open>wgpu-core/src/device/resource.rs\<close>), \<open>map_buffer\<close>
  (\<open>wgpu-core/src/device/mod.rs\<close>) and the mapping state machine of
  \<open>wgpu-core/src/resource.rs\<close>: Idle, Waiting, Active, Init. A callback is a number; where the code
  returns a closure to fire, the model returns the operation and its status.
\<close>

section \<open>Creation\<close>

datatype buffer_access_error =
  BaDevice device_error
| BaFailed
| BaDestroyed nat
| BaAlreadyMapped
| BaMapAlreadyPending
| BaMissingUsage nat buffer_usages buffer_usages
| BaNotMapped
| BaUnalignedRange
| BaUnalignedOffset u64
| BaUnalignedRangeSize u64
| BaStartOffsetUnderrun u64 u64
| BaStartOffsetOverrun u64 u64
| BaEndOffsetOverrun u64 u64 u64
| BaMapAborted
| BaMapStartOffsetOverrun u64 u64
| BaMapEndOffsetOverrun u64 u64 u64

datatype create_buffer_error =
  CbDevice device_error
| CbAccess buffer_access_error
| CbUnalignedSize
| CbInvalidUsage buffer_usages
| CbUsageMismatch buffer_usages
| CbMaxBufferSize u64 u64
| CbMissingDownlevelFlags downlevel_flags
| CbMissingFeatures features
| CbIndirectValidationBindGroup device_error

record buffer_descriptor =
  bd_size :: u64
  bd_usage :: buffer_usages
  bd_mapped_at_creation :: bool

record gpu_buffer =
  gb_index :: nat
  gb_device :: nat
  gb_size :: u64
  gb_usage :: buffer_usages

datatype host_map = HostRead | HostWrite

record map_operation =
  mo_host :: host_map
  mo_callback :: "nat option"

text \<open>\<open>Active\<close> keeps whether the mapping is coherent; \<open>Init\<close> the size of the staging buffer.\<close>

datatype buffer_map_state =
  MapInit u64
| MapWaiting "u64 range_t" map_operation
| MapActive bool "u64 range_t" host_map
| MapIdle

record buffer_state =
  bst_buffer :: gpu_buffer
  bst_destroyed :: bool
  bst_map_state :: buffer_map_state
  bst_status :: "u64 init_tracker"

definition check_usage :: "gpu_buffer \<Rightarrow> buffer_usages \<Rightarrow> (nat \<times> buffer_usages \<times> buffer_usages) + unit" where
  "check_usage b expected =
    (if contains (gb_usage b) expected then Inr () else Inl (gb_index b, gb_usage b, expected))"

definition mappable_primary_buffers :: features where
  "mappable_primary_buffers = wgpu_feature 7"
definition experimental_ray_query :: features where
  "experimental_ray_query = wgpu_feature 32"

text \<open>The checks that come before the usage of the backend is computed.\<close>

definition check_buffer_descriptor :: "device \<Rightarrow> buffer_descriptor \<Rightarrow> create_buffer_error + unit" where
  "check_buffer_descriptor dev desc =
    (let usage = bd_usage desc in
     and_then (map_err CbDevice (check_is_valid dev)) (\<lambda>_.
     and_then (ensure (\<not> bd_size desc > max_buffer_size (dev_limits dev))
                 (CbMaxBufferSize (bd_size desc) (max_buffer_size (dev_limits dev)))) (\<lambda>_.
     and_then (if intersects usage (bus_blas_input OR bus_tlas_input)
               then map_err CbMissingFeatures (require_features dev experimental_ray_query)
               else Inr ()) (\<lambda>_.
     and_then (if contains usage bus_index
                  \<and> contains usage (bus_vertex OR bus_uniform OR bus_indirect OR bus_storage)
               then map_err CbMissingDownlevelFlags
                      (require_downlevel_flags dev df_unrestricted_index_buffer)
               else Inr ()) (\<lambda>_.
     and_then (ensure (\<not> (usage = 0 \<or> usage AND NOT bus_all \<noteq> 0)) (CbInvalidUsage usage)) (\<lambda>_.
     if \<not> features_contain (dev_features dev) mappable_primary_buffers then
       (let write_mismatch = contains usage bus_map_write
              \<and> \<not> contains (bus_map_write OR bus_copy_src) usage;
            read_mismatch = contains usage bus_map_read
              \<and> \<not> contains (bus_map_read OR bus_copy_dst) usage
        in ensure (\<not> (write_mismatch \<or> read_mismatch)) (CbUsageMismatch usage))
     else Inr ()))))))"

text \<open>The usage of the backend buffer, and its size.\<close>

definition buffer_hal_usage :: "device \<Rightarrow> buffer_descriptor \<Rightarrow> create_buffer_error + buffer_uses" where
  "buffer_hal_usage dev desc =
    (let u0 = map_buffer_usage (bd_usage desc) in
     and_then (if contains (bd_usage desc) bus_indirect
               then and_then (map_err CbMissingDownlevelFlags
                                (require_downlevel_flags dev df_indirect_execution))
                      (\<lambda>_. Inr (u0 OR (bu_storage_read_only OR bu_storage_read_write)))
               else Inr u0) (\<lambda>u1.
     let u2 = (if contains (bd_usage desc) bus_query_resolve then u1 OR bu_storage_read_write else u1) in
     if bd_mapped_at_creation desc then
       and_then (ensure (is_multiple_of (bd_size desc) COPY_BUFFER_ALIGNMENT) CbUnalignedSize) (\<lambda>_.
         Inr (if \<not> contains (bd_usage desc) bus_map_write then u2 OR bu_copy_dst else u2))
     else Inr (u2 OR bu_copy_dst)))"

definition aligned_buffer_size :: "buffer_descriptor \<Rightarrow> u64" where
  "aligned_buffer_size desc =
    (let actual_size =
       (if bd_size desc = 0 then COPY_BUFFER_ALIGNMENT
        else if contains (bd_usage desc) bus_vertex then bd_size desc + 1
        else bd_size desc);
       clear_remainder = actual_size mod COPY_BUFFER_ALIGNMENT
     in if clear_remainder \<noteq> 0 then actual_size + COPY_BUFFER_ALIGNMENT - clear_remainder
        else actual_size)"

section \<open>Mapping the memory\<close>

text \<open>
  The result of \<open>map_buffer\<close>: the parts of the mapping filled with zeros (relative to its start),
  the ranges flushed and invalidated, and the initialisation status afterwards. \<open>None\<close> is a failed
  assertion or a slice out of range.
\<close>

record mapped_memory =
  mm_coherent :: bool
  mm_invalidated :: "u64 range_t list"
  mm_filled :: "u64 range_t list"
  mm_flushed :: "u64 range_t list"
  mm_status :: "u64 init_tracker"

definition fill_ranges :: "u64 \<Rightarrow> u64 \<Rightarrow> u64 range_t list \<Rightarrow> u64 range_t list option" where
  "fill_ranges offset sz items =
    (let fills = map (\<lambda>r. Range (rstart r - offset) (rend r - offset)) items
     in if \<forall>r\<in>set fills. rstart r \<le> rend r \<and> rend r \<le> sz then Some fills else None)"

definition map_buffer ::
  "device \<Rightarrow> buffer_state \<Rightarrow> u64 \<Rightarrow> u64 \<Rightarrow> host_map \<Rightarrow> (buffer_access_error + mapped_memory) option" where
  "map_buffer dev b offset sz kind =
    (let buf = bst_buffer b; rg = Range offset (offset + sz) in
     if bst_destroyed b then Some (Inl (BaDestroyed (gb_index buf)))
     else case hd_map_buffer (dev_hal dev) (gb_index buf) rg of
       Inl e \<Rightarrow> Some (Inl (BaDevice e))
     | Inr is_coherent \<Rightarrow>
         if offset mod COPY_BUFFER_ALIGNMENT = 0 \<and> sz mod COPY_BUFFER_ALIGNMENT = 0 then
           (let read = (kind = HostRead);
                map_write = contains (gb_usage buf) bus_map_write;
                (items, status) =
                  (if \<not> is_coherent \<and> read \<and> \<not> map_write
                   then (uninitialized_collect (uninitialized (bst_status b) rg), bst_status b)
                   else drain_all (bst_status b) rg)
            in map_option (\<lambda>fills. Inr
                 \<lparr>mm_coherent = is_coherent,
                  mm_invalidated = (if \<not> is_coherent \<and> read then [rg] else []),
                  mm_filled = fills,
                  mm_flushed = (if \<not> is_coherent \<and> read \<and> map_write then items else []),
                  mm_status = status\<rparr>) (fill_ranges offset sz items))
         else None)"

section \<open>The new buffer\<close>

record new_buffer =
  nb_state :: buffer_state
  nb_hal_size :: u64
  nb_hal_usage :: buffer_uses
  nb_first_use :: buffer_uses

text \<open>The mapping at creation. The outer \<open>None\<close> is a panic of \<open>map_buffer\<close>.\<close>

definition map_at_creation ::
  "device \<Rightarrow> buffer_descriptor \<Rightarrow> u64 \<Rightarrow> buffer_state
   \<Rightarrow> (create_buffer_error + buffer_state \<times> buffer_uses) option" where
  "map_at_creation dev desc aligned_size b =
    (if \<not> bd_mapped_at_creation desc then Some (Inr (b, 0))
     else if contains (bd_usage desc) bus_map_write then
       (let map_size = bd_size desc in
        if map_size = 0 then
          Some (Inr (b\<lparr>bst_map_state := MapActive True (Range 0 map_size) HostWrite\<rparr>, bu_map_write))
        else map_option
          (\<lambda>r. and_then (map_err CbAccess r) (\<lambda>m.
             Inr (b\<lparr>bst_map_state := MapActive (mm_coherent m) (Range 0 map_size) HostWrite,
                    bst_status := mm_status m\<rparr>, bu_map_write)))
          (map_buffer dev b 0 map_size HostWrite))
     else Some (and_then (map_err CbDevice (hal_ok (hd_staging_buffer (dev_hal dev) aligned_size)))
            (\<lambda>_. Inr (b\<lparr>bst_map_state := MapInit aligned_size,
                        bst_status := drain_unread (bst_status b) (Range 0 aligned_size)\<rparr>, bu_copy_dst))))"

definition create_raw_buffer ::
  "device \<Rightarrow> nat \<Rightarrow> buffer_descriptor \<Rightarrow> create_buffer_error + buffer_state \<times> u64 \<times> buffer_uses" where
  "create_raw_buffer dev index desc =
     and_then (check_buffer_descriptor dev desc) (\<lambda>_.
     and_then (buffer_hal_usage dev desc) (\<lambda>usage.
     let aligned_size = aligned_buffer_size desc in
     and_then (map_err CbDevice (hal_ok (hd_create_buffer (dev_hal dev) aligned_size usage))) (\<lambda>_.
     and_then (map_err CbDevice
                 (hal_ok (hd_normalization_bind_group (dev_hal dev) aligned_size (bd_usage desc)))) (\<lambda>_.
     and_then (map_err CbIndirectValidationBindGroup
                 (hal_ok (hd_indirect_validation (dev_hal dev) (bd_size desc) (bd_usage desc)))) (\<lambda>_.
     Inr (\<lparr>bst_buffer = \<lparr>gb_index = index, gb_device = dev_id dev, gb_size = bd_size desc,
                          gb_usage = bd_usage desc\<rparr>,
           bst_destroyed = False, bst_map_state = MapIdle, bst_status = new_tracker aligned_size\<rparr>,
          aligned_size, usage))))))"

definition create_buffer ::
  "device \<Rightarrow> nat \<Rightarrow> buffer_descriptor \<Rightarrow> (create_buffer_error + new_buffer) option" where
  "create_buffer dev index desc =
     (case create_raw_buffer dev index desc of
        Inl e \<Rightarrow> Some (Inl e)
      | Inr (b, aligned_size, usage) \<Rightarrow>
          map_option (\<lambda>r. and_then r (\<lambda>(b', first_use).
              Inr \<lparr>nb_state = b', nb_hal_size = aligned_size, nb_hal_usage = usage,
                   nb_first_use = first_use\<rparr>))
            (map_at_creation dev desc aligned_size b))"

section \<open>Bindings\<close>

datatype binding_error =
  BindingDestroyed nat
| BindingRangeTooLarge nat u64 u64 u64
| BindingOffsetTooLarge nat u64 u64

definition resolve_binding_size :: "gpu_buffer \<Rightarrow> u64 \<Rightarrow> u64 option \<Rightarrow> binding_error + u64" where
  "resolve_binding_size b offset binding_size =
    (let buffer_size = gb_size b in
     case binding_size of
       Some n \<Rightarrow>
         (case checked_add offset n of
            Some e \<Rightarrow> if e \<le> buffer_size then Inr n
                       else Inl (BindingRangeTooLarge (gb_index b) offset n buffer_size)
          | None \<Rightarrow> Inl (BindingRangeTooLarge (gb_index b) offset n buffer_size))
     | None \<Rightarrow> ok_or (BindingOffsetTooLarge (gb_index b) offset buffer_size) (checked_sub buffer_size offset))"

definition binding :: "buffer_state \<Rightarrow> u64 \<Rightarrow> u64 option \<Rightarrow> binding_error + ((nat \<times> u64 \<times> u64 option) \<times> u64)" where
  "binding b offset binding_size =
    (if bst_destroyed b then Inl (BindingDestroyed (gb_index (bst_buffer b)))
     else and_then (resolve_binding_size (bst_buffer b) offset binding_size)
            (\<lambda>resolved_size. Inr ((gb_index (bst_buffer b), offset, binding_size), resolved_size)))"

section \<open>The mapping state machine\<close>

definition MAP_ALIGNMENT :: u64 where "MAP_ALIGNMENT = 8"

definition saturating_sub :: "'a::len word \<Rightarrow> 'a word \<Rightarrow> 'a word" where
  "saturating_sub x y = (if y \<le> x then x - y else 0)"

text \<open>The range a request asks for, checked against the buffer, the usage and the device.\<close>

definition map_range :: "device \<Rightarrow> buffer_state \<Rightarrow> u64 \<Rightarrow> u64 option \<Rightarrow> host_map
   \<Rightarrow> buffer_access_error + u64 range_t" where
  "map_range dev b offset sz host =
    (let buf = bst_buffer b;
         range_size = (case sz of Some s \<Rightarrow> s | None \<Rightarrow> saturating_sub (gb_size buf) offset) in
     and_then (ensure (is_multiple_of offset MAP_ALIGNMENT) (BaUnalignedOffset offset)) (\<lambda>_.
     and_then (ensure (is_multiple_of range_size COPY_BUFFER_ALIGNMENT) (BaUnalignedRangeSize range_size)) (\<lambda>_.
     and_then (ensure (\<not> offset > gb_size buf) (BaMapStartOffsetOverrun offset (gb_size buf))) (\<lambda>_.
     and_then (ensure (\<not> range_size > gb_size buf - offset)
                 (BaMapEndOffsetOverrun offset range_size (gb_size buf))) (\<lambda>_.
     let end_offset = offset + range_size in
     and_then (ensure (\<not> (\<not> is_multiple_of offset MAP_ALIGNMENT
                           \<or> \<not> is_multiple_of end_offset COPY_BUFFER_ALIGNMENT)) BaUnalignedRange) (\<lambda>_.
     let pub_usage = (case host of HostRead \<Rightarrow> bus_map_read | HostWrite \<Rightarrow> bus_map_write) in
     and_then (map_err (\<lambda>(i, a, e). BaMissingUsage i a e) (check_usage buf pub_usage)) (\<lambda>_.
     and_then (map_err BaDevice (check_is_valid dev)) (\<lambda>_.
     and_then (ensure (\<not> bst_destroyed b) (BaDestroyed (gb_index buf))) (\<lambda>_.
     Inr (Range offset end_offset))))))))))"

text \<open>
  The first half of \<open>map_async\<close>, which makes the buffer wait; the operation is handed back with
  an error. What follows, the usage recorded in the device tracker and the queueing of the
  buffer, belongs to the life cycle of submissions.
\<close>

definition map_request ::
  "device \<Rightarrow> u64 \<Rightarrow> u64 option \<Rightarrow> map_operation \<Rightarrow> buffer_state
   \<Rightarrow> (map_operation \<times> buffer_access_error) + buffer_state" where
  "map_request dev offset sz op b =
    (case map_range dev b offset sz (mo_host op) of
       Inl e \<Rightarrow> Inl (op, e)
     | Inr rg \<Rightarrow>
         (case bst_map_state b of
            MapInit _ \<Rightarrow> Inl (op, BaAlreadyMapped)
          | MapActive _ _ _ \<Rightarrow> Inl (op, BaAlreadyMapped)
          | MapWaiting _ _ \<Rightarrow> Inl (op, BaMapAlreadyPending)
          | MapIdle \<Rightarrow> Inr (b\<lparr>bst_map_state := MapWaiting rg op\<rparr>)))"

definition map_use :: "host_map \<Rightarrow> buffer_uses" where
  "map_use host = (case host of HostRead \<Rightarrow> bu_map_read | HostWrite \<Rightarrow> bu_map_write)"

text \<open>A pointer into the staging buffer or into the mapping, as the offset from its start.\<close>

datatype host_pointer = StagingPtr u64 | MappingPtr u64

definition get_mapped_range ::
  "buffer_state \<Rightarrow> u64 \<Rightarrow> u64 option \<Rightarrow> buffer_access_error + host_pointer \<times> u64" where
  "get_mapped_range b offset sz =
    (let buf = bst_buffer b;
         range_size = (case sz of Some s \<Rightarrow> s | None \<Rightarrow> saturating_sub (gb_size buf) offset) in
     and_then (ensure (\<not> bst_destroyed b) (BaDestroyed (gb_index buf))) (\<lambda>_.
     and_then (ensure (is_multiple_of offset MAP_ALIGNMENT) (BaUnalignedOffset offset)) (\<lambda>_.
     and_then (ensure (is_multiple_of range_size COPY_BUFFER_ALIGNMENT) (BaUnalignedRangeSize range_size)) (\<lambda>_.
     case bst_map_state b of
       MapInit _ \<Rightarrow>
         and_then (ensure (\<not> offset > gb_size buf) (BaMapStartOffsetOverrun offset (gb_size buf))) (\<lambda>_.
         and_then (ensure (\<not> range_size > gb_size buf - offset)
                     (BaMapEndOffsetOverrun offset range_size (gb_size buf))) (\<lambda>_.
         Inr (StagingPtr offset, range_size)))
     | MapActive _ rg _ \<Rightarrow>
         and_then (ensure (\<not> offset > rend rg) (BaStartOffsetOverrun offset (rend rg))) (\<lambda>_.
         and_then (ensure (\<not> offset < rstart rg) (BaStartOffsetUnderrun offset (rstart rg))) (\<lambda>_.
         and_then (ensure (\<not> range_size > rend rg - offset)
                     (BaEndOffsetOverrun offset range_size (rend rg))) (\<lambda>_.
         Inr (MappingPtr (offset - rstart rg), range_size))))
     | MapIdle \<Rightarrow> Inl BaNotMapped
     | MapWaiting _ _ \<Rightarrow> Inl BaNotMapped))))"

text \<open>
  \<open>Buffer::map\<close>, called when the buffer is ready: the operation and its status, if a mapping was
  pending. The outer \<open>None\<close> is a panic.
\<close>

type_synonym map_closure = "map_operation \<times> (buffer_access_error + unit)"

definition map_ready :: "device \<Rightarrow> buffer_state \<Rightarrow> (map_closure option \<times> buffer_state) option" where
  "map_ready dev b =
    (case bst_map_state b of
       MapIdle \<Rightarrow> Some (None, b)
     | MapActive _ _ _ \<Rightarrow> Some (None, b)
     | MapInit _ \<Rightarrow> None
     | MapWaiting rg op \<Rightarrow>
         if rstart rg \<noteq> rend rg then
           map_option (\<lambda>r. case r of
               Inr m \<Rightarrow> (Some (op, Inr ()),
                 b\<lparr>bst_map_state := MapActive (mm_coherent m) rg (mo_host op), bst_status := mm_status m\<rparr>)
             | Inl e \<Rightarrow> (Some (op, Inl e), b\<lparr>bst_map_state := MapIdle\<rparr>))
             (map_buffer dev (b\<lparr>bst_map_state := MapIdle\<rparr>) (rstart rg) (rend rg - rstart rg) (mo_host op))
         else Some (Some (op, Inr ()), b\<lparr>bst_map_state := MapActive True rg (mo_host op)\<rparr>))"

text \<open>
  \<open>unmap_inner\<close>: what the device is asked to do, the pending operation if there was one, and the
  state. A buffer mapped at creation is written by a copy from its staging buffer, of
  its whole size, unless that is zero; without a queue nothing is copied.
\<close>

datatype unmap_effect = CopyFromStaging u64 | FlushMapped "u64 range_t" | UnmapRaw

definition unmap_inner ::
  "bool \<Rightarrow> buffer_state \<Rightarrow> (buffer_access_error \<times> buffer_state) + (map_closure option \<times> unmap_effect list \<times> buffer_state)" where
  "unmap_inner has_queue b =
    (if bst_destroyed b then Inl (BaDestroyed (gb_index (bst_buffer b)), b)
     else let b' = b\<lparr>bst_map_state := MapIdle\<rparr> in
     case bst_map_state b of
       MapInit _ \<Rightarrow>
         Inr (None, if has_queue then [CopyFromStaging (gb_size (bst_buffer b))] else [], b')
     | MapIdle \<Rightarrow> Inl (BaNotMapped, b')
     | MapWaiting _ op \<Rightarrow> Inr (Some (op, Inl BaMapAborted), [], b')
     | MapActive is_coherent rg host \<Rightarrow>
         Inr (None, (if host = HostWrite \<and> \<not> is_coherent then [FlushMapped rg] else []) @ [UnmapRaw], b'))"

section \<open>Mapping zeroes what was never written\<close>

lemma iv_inside:
  fixes r q :: "'i::linorder range_t"
  assumes "iv r \<subseteq> iv q" and "rstart r < rend r"
  shows "rstart q \<le> rstart r" and "rend r \<le> rend q"
proof -
  have "rstart r \<in> iv r" using assms(2) by simp
  with assms(1) show "rstart q \<le> rstart r" by auto
  show "rend r \<le> rend q"
  proof (rule ccontr)
    assume "\<not> rend r \<le> rend q"
    then have "max (rend q) (rstart r) \<in> iv r" using assms(2) by auto
    with assms(1) have "max (rend q) (rstart r) \<in> iv q" by blast
    then show False by simp
  qed
qed

lemma shift_inside:
  fixes a b o' sz :: u64
  assumes "o' \<le> a" and "a \<le> b" and "b \<le> o' + sz" and "unat o' + unat sz < 2 ^ 64"
  shows "a - o' \<le> b - o'" and "b - o' \<le> sz"
proof -
  have s: "unat (o' + sz) = unat o' + unat sz"
    using assms(4) by (simp add: unat_word_ariths)
  have "o' \<le> b" using assms(1,2) by simp
  with assms(1) have "unat (a - o') = unat a - unat o'" "unat (b - o') = unat b - unat o'"
    by (simp_all add: unat_sub)
  then show "a - o' \<le> b - o'" "b - o' \<le> sz"
    using assms s by (auto simp: word_le_nat_alt)
qed

text \<open>The bytes of the buffer that a list of ranges relative to \<open>offset\<close> stands for.\<close>

definition filled_bytes :: "u64 \<Rightarrow> u64 range_t list \<Rightarrow> u64 set" where
  "filled_bytes offset fills = {x. \<exists>r\<in>set fills. offset \<le> x \<and> x - offset \<in> iv r}"

lemma mem_shift:
  fixes x o' a b :: u64
  assumes "o' \<le> a" and "a \<le> b"
  shows "(o' \<le> x \<and> a - o' \<le> x - o' \<and> x - o' < b - o') \<longleftrightarrow> (a \<le> x \<and> x < b)"
proof (cases "o' \<le> x")
  case True
  moreover have "o' \<le> b" using assms by simp
  ultimately have "unat (x - o') = unat x - unat o'" "unat (a - o') = unat a - unat o'"
    "unat (b - o') = unat b - unat o'"
    using assms by (simp_all add: unat_sub)
  with True \<open>o' \<le> b\<close> assms show ?thesis by (auto simp: word_le_nat_alt word_less_nat_alt)
next
  case False
  with assms show ?thesis by auto
qed

lemma fill_ranges_spec:
  assumes "proper_ranges items" and "uninit_of items \<subseteq> iv (Range offset (offset + sz))"
    and "unat offset + unat sz < 2 ^ 64"
  shows "fill_ranges offset sz items = Some (map (\<lambda>r. Range (rstart r - offset) (rend r - offset)) items)"
    and "filled_bytes offset (map (\<lambda>r. Range (rstart r - offset) (rend r - offset)) items) = uninit_of items"
proof -
  have *: "offset \<le> rstart r \<and> rstart r < rend r \<and> rend r \<le> offset + sz" if "r \<in> set items" for r
  proof -
    have lt: "rstart r < rend r" using that assms(1) by (simp add: proper_ranges_def)
    have "iv r \<subseteq> iv (Range offset (offset + sz))"
      using that assms(2) by (auto simp: uninit_of_def simp del: mem_iv)
    from iv_inside [OF this lt] lt show ?thesis by simp
  qed
  then have "\<forall>r\<in>set items. rstart r - offset \<le> rend r - offset \<and> rend r - offset \<le> sz"
    using shift_inside [OF _ _ _ assms(3)] by (meson less_imp_le)
  then show "fill_ranges offset sz items = Some (map (\<lambda>r. Range (rstart r - offset) (rend r - offset)) items)"
    by (simp add: fill_ranges_def)
  have in_r: "(offset \<le> x \<and> x - offset \<in> iv (Range (rstart r - offset) (rend r - offset))) = (x \<in> iv r)"
    if "r \<in> set items" for x r
    using mem_shift [of offset "rstart r" "rend r" x] * [OF that] by auto
  show "filled_bytes offset (map (\<lambda>r. Range (rstart r - offset) (rend r - offset)) items) = uninit_of items"
  proof (rule set_eqI)
    fix x
    have "(offset \<le> x \<and> (\<exists>r\<in>set items. x - offset \<in> iv (Range (rstart r - offset) (rend r - offset))))
        = (\<exists>r\<in>set items. x \<in> iv r)"
      using in_r by blast
    then show "x \<in> filled_bytes offset (map (\<lambda>r. Range (rstart r - offset) (rend r - offset)) items)
        \<longleftrightarrow> x \<in> uninit_of items"
      by (simp add: filled_bytes_def uninit_of_def del: mem_iv)
  qed
qed

lemma map_buffer_spec:
  assumes ok: "status_ok (bst_status b)" and live: "\<not> bst_destroyed b"
    and al: "aligned offset" "aligned sz" and sz: "0 < sz" "unat offset + unat sz < 2 ^ 64"
    and hal: "hd_map_buffer (dev_hal dev) (gb_index (bst_buffer b)) (Range offset (offset + sz)) = Inr coherent"
  obtains m where "map_buffer dev b offset sz kind = Some (Inr m)" and "mm_coherent m = coherent"
    and "filled_bytes offset (mm_filled m) = uninit (bst_status b) \<inter> iv (Range offset (offset + sz))"
    and "status_ok (mm_status m)" and "uninit (mm_status m) \<subseteq> uninit (bst_status b)"
proof -
  let ?rg = "Range offset (offset + sz)"
  have un: "unat (offset + sz) = unat offset + unat sz" using sz(2) by (simp add: unat_word_ariths)
  have lt: "rstart ?rg < rend ?rg" using un sz(1) by (simp add: word_less_nat_alt)
  have al': "aligned (rstart ?rg)" "aligned (rend ?rg)"
    using al un by (simp_all add: aligned_unat mod_add_eq [of _ 4, symmetric])
  have wf: "tracker_wf (bst_status b)" using ok by (simp add: status_ok_def)
  note dr = drain_exact [OF wf less_imp_le [OF lt]] and ok' = drain_all_ok [OF ok lt al']
  define items where "items = fst (drain_all (bst_status b) ?rg)"
  have it: "uninit_of items = uninit (bst_status b) \<inter> iv ?rg" "proper_ranges items"
    using dr ok' by (simp_all add: items_def)
  have fills: "fill_ranges offset sz items = Some (map (\<lambda>r. Range (rstart r - offset) (rend r - offset)) items)"
    by (rule fill_ranges_spec(1) [OF it(2) _ sz(2)]) (simp only: it(1) Int_lower2)
  have bytes: "filled_bytes offset (map (\<lambda>r. Range (rstart r - offset) (rend r - offset)) items) = uninit_of items"
    by (rule fill_ranges_spec(2) [OF it(2) _ sz(2)]) (simp only: it(1) Int_lower2)
  have al0: "offset mod COPY_BUFFER_ALIGNMENT = 0" "sz mod COPY_BUFFER_ALIGNMENT = 0"
    using al by (simp_all add: aligned_def)
  let ?read = "\<not> coherent \<and> kind = HostRead \<and> \<not> contains (gb_usage (bst_buffer b)) bus_map_write"
  let ?m = "\<lparr>mm_coherent = coherent, mm_invalidated = (if \<not> coherent \<and> kind = HostRead then [?rg] else []),
      mm_filled = map (\<lambda>r. Range (rstart r - offset) (rend r - offset)) items,
      mm_flushed = (if \<not> coherent \<and> kind = HostRead \<and> contains (gb_usage (bst_buffer b)) bus_map_write
                    then items else []),
      mm_status = (if ?read then bst_status b else snd (drain_all (bst_status b) ?rg))\<rparr>"
  have "map_buffer dev b offset sz kind = Some (Inr ?m)"
    using live hal al0 dr fills by (simp add: map_buffer_def Let_def case_prod_beta items_def)
  moreover have "filled_bytes offset (mm_filled ?m) = uninit (bst_status b) \<inter> iv ?rg"
    using bytes it(1) by simp
  moreover have "status_ok (mm_status ?m)" using ok ok'(1) by simp
  moreover have "uninit (mm_status ?m) \<subseteq> uninit (bst_status b)" using dr by (auto simp del: mem_iv)
  ultimately show thesis using that [of ?m] by simp
qed

section \<open>The invariant of a buffer\<close>

definition range_ok :: "u64 \<Rightarrow> u64 range_t \<Rightarrow> bool" where
  "range_ok sz rg \<longleftrightarrow> rstart rg \<le> rend rg \<and> rend rg \<le> sz \<and> aligned (rstart rg) \<and> aligned (rend rg)"

definition buffer_ok :: "buffer_state \<Rightarrow> bool" where
  "buffer_ok b \<longleftrightarrow> status_ok (bst_status b) \<and>
     (case bst_map_state b of
        MapInit s \<Rightarrow> gb_size (bst_buffer b) \<le> s
      | MapWaiting rg _ \<Rightarrow> range_ok (gb_size (bst_buffer b)) rg
      | MapActive _ rg _ \<Rightarrow> range_ok (gb_size (bst_buffer b)) rg
      | MapIdle \<Rightarrow> True)"

definition staged :: "buffer_map_state \<Rightarrow> bool" where
  "staged s \<longleftrightarrow> (\<exists>n. s = MapInit n)"

lemma is_multiple_of_aligned: "is_multiple_of x COPY_BUFFER_ALIGNMENT \<longleftrightarrow> aligned x"
  by (simp add: is_multiple_of_def aligned_def COPY_BUFFER_ALIGNMENT_def)

lemma map_range_ok:
  assumes "map_range dev b offset sz host = Inr rg"
  shows "range_ok (gb_size (bst_buffer b)) rg" and "\<not> bst_destroyed b"
proof -
  define n where "n = (case sz of Some s \<Rightarrow> s | None \<Rightarrow> saturating_sub (gb_size (bst_buffer b)) offset)"
  have *: "is_multiple_of offset MAP_ALIGNMENT \<and> offset \<le> gb_size (bst_buffer b)
      \<and> n \<le> gb_size (bst_buffer b) - offset \<and> aligned (offset + n)
      \<and> \<not> bst_destroyed b \<and> rg = Range offset (offset + n)"
    using assms unfolding map_range_def Let_def n_def [symmetric]
    by (auto simp: and_then_Inr is_multiple_of_aligned simp del: ensure_def)
  then have "unat offset + unat n \<le> unat (gb_size (bst_buffer b))"
    by (auto simp: word_le_nat_alt unat_sub)
  then have un: "unat (offset + n) = unat offset + unat n"
    using unat_u64 [of "gb_size (bst_buffer b)"] by (simp add: unat_word_ariths)
  have "unat offset mod 8 = 0"
    using * by (simp add: is_multiple_of_def MAP_ALIGNMENT_def word_unat_eq_iff unat_mod)
  then have "aligned offset" unfolding aligned_unat by presburger
  with * un show "range_ok (gb_size (bst_buffer b)) rg" and "\<not> bst_destroyed b"
    using \<open>unat offset + unat n \<le> unat (gb_size (bst_buffer b))\<close>
    by (auto simp: range_ok_def word_le_nat_alt)
qed

lemma map_request_ok:
  assumes "buffer_ok b" and "map_request dev offset sz op b = Inr b'"
  shows "buffer_ok b'" and "bst_map_state b = MapIdle"
    and "\<exists>rg. b' = b\<lparr>bst_map_state := MapWaiting rg op\<rparr>"
  using assms map_range_ok(1)
  by (auto simp: map_request_def buffer_ok_def split: sum.splits buffer_map_state.splits)

lemma unmap_inner_ok:
  assumes "buffer_ok b"
  shows "case unmap_inner has_queue b of Inl (_, b') \<Rightarrow> buffer_ok b' | Inr (_, _, b') \<Rightarrow> buffer_ok b'"
  using assms by (auto simp: unmap_inner_def buffer_ok_def Let_def split: buffer_map_state.splits)

lemma range_ok_size:
  assumes "range_ok sz rg" and "rstart rg \<noteq> rend rg"
  shows "aligned (rstart rg)" and "aligned (rend rg - rstart rg)" and "0 < rend rg - rstart rg"
    and "unat (rstart rg) + unat (rend rg - rstart rg) < 2 ^ 64"
    and "Range (rstart rg) (rstart rg + (rend rg - rstart rg)) = rg"
proof -
  have le: "rstart rg \<le> rend rg" using assms(1) by (simp add: range_ok_def)
  then have un: "unat (rend rg - rstart rg) = unat (rend rg) - unat (rstart rg)"
    by (simp add: unat_sub)
  show "aligned (rstart rg)" using assms(1) by (simp add: range_ok_def)
  show "aligned (rend rg - rstart rg)"
    using assms(1) le un unfolding range_ok_def aligned_unat word_le_nat_alt by presburger
  have "unat (rstart rg) < unat (rend rg)"
    using le assms(2) by (metis word_le_nat_alt le_neq_implies_less word_unat_eq_iff)
  then show "0 < rend rg - rstart rg" using un by (simp add: word_less_nat_alt)
  show "unat (rstart rg) + unat (rend rg - rstart rg) < 2 ^ 64"
    using un le unat_u64 [of "rend rg"] by (simp add: word_le_nat_alt)
  show "Range (rstart rg) (rstart rg + (rend rg - rstart rg)) = rg" by simp
qed

lemma map_ready_waiting:
  assumes ok: "buffer_ok b" and st: "bst_map_state b = MapWaiting rg op"
  obtains res b' where "map_ready dev b = Some (Some (op, res), b')" and "buffer_ok b'"
    and "bst_buffer b' = bst_buffer b" and "bst_destroyed b' = bst_destroyed b"
    and "case res of Inr _ \<Rightarrow> \<exists>c. bst_map_state b' = MapActive c rg (mo_host op)
                   | Inl _ \<Rightarrow> bst_map_state b' = MapIdle"
proof (cases "rstart rg = rend rg")
  case True
  let ?b = "b\<lparr>bst_map_state := MapActive True rg (mo_host op)\<rparr>"
  have "map_ready dev b = Some (Some (op, Inr ()), ?b)" using True st by (simp add: map_ready_def)
  moreover have "buffer_ok ?b" using ok st by (simp add: buffer_ok_def)
  ultimately show thesis by (intro that [of "Inr ()" ?b]) auto
next
  case False
  note result = that
  let ?w = "b\<lparr>bst_map_state := MapIdle\<rparr>"
  have rg: "range_ok (gb_size (bst_buffer b)) rg" and sok: "status_ok (bst_status ?w)"
    using ok st by (simp_all add: buffer_ok_def)
  note sz = range_ok_size [OF rg False]
  have ready: "map_ready dev b = map_option (\<lambda>r. case r of
        Inr m \<Rightarrow> (Some (op, Inr ()),
          b\<lparr>bst_map_state := MapActive (mm_coherent m) rg (mo_host op), bst_status := mm_status m\<rparr>)
      | Inl e \<Rightarrow> (Some (op, Inl e), ?w))
      (map_buffer dev ?w (rstart rg) (rend rg - rstart rg) (mo_host op))"
    using False st by (simp add: map_ready_def)
  have idle: "buffer_ok ?w" using ok by (simp add: buffer_ok_def)
  have err: thesis if "map_buffer dev ?w (rstart rg) (rend rg - rstart rg) (mo_host op) = Some (Inl e)" for e
    using result [of "Inl e" ?w] ready that idle by simp
  show thesis
  proof (cases "bst_destroyed b")
    case True
    then show thesis by (intro err [of "BaDestroyed (gb_index (bst_buffer b))"]) (simp add: map_buffer_def Let_def)
  next
    case live: False
    show thesis
    proof (cases "hd_map_buffer (dev_hal dev) (gb_index (bst_buffer b)) rg")
      case (Inl e)
      with live show thesis by (intro err [of "BaDevice e"]) (simp add: map_buffer_def Let_def)
    next
      case (Inr c)
      then have hal: "hd_map_buffer (dev_hal dev) (gb_index (bst_buffer ?w))
          (Range (rstart rg) (rstart rg + (rend rg - rstart rg))) = Inr c" by simp
      obtain m where m: "map_buffer dev ?w (rstart rg) (rend rg - rstart rg) (mo_host op) = Some (Inr m)"
        and "status_ok (mm_status m)"
        using map_buffer_spec [OF sok _ sz(1,2,3,4) hal] live by (metis buffer_state.select_convs(2) buffer_state.surjective buffer_state.update_convs(3))
      then have "buffer_ok (b\<lparr>bst_map_state := MapActive (mm_coherent m) rg (mo_host op), bst_status := mm_status m\<rparr>)"
        using rg by (simp add: buffer_ok_def)
      with ready m show thesis
        by (intro result [of "Inr ()"
            "b\<lparr>bst_map_state := MapActive (mm_coherent m) rg (mo_host op), bst_status := mm_status m\<rparr>"]) auto
    qed
  qed
qed

lemma map_ready_other:
  assumes "\<forall>rg op. bst_map_state b \<noteq> MapWaiting rg op" and "\<not> staged (bst_map_state b)"
  shows "map_ready dev b = Some (None, b)"
  using assms by (cases "bst_map_state b") (auto simp: map_ready_def staged_def)

text \<open>A pointer handed out lies inside the memory behind it.\<close>

definition pointer_inside :: "buffer_state \<Rightarrow> host_pointer \<Rightarrow> u64 \<Rightarrow> bool" where
  "pointer_inside b p n \<longleftrightarrow>
     (case p of
        StagingPtr off \<Rightarrow> (\<exists>s. bst_map_state b = MapInit s \<and> unat off + unat n \<le> unat s)
      | MappingPtr off \<Rightarrow> (\<exists>c rg h. bst_map_state b = MapActive c rg h
                              \<and> unat off + unat n \<le> unat (rend rg) - unat (rstart rg)))"

lemma room_left:
  fixes e off n :: u64
  assumes "\<not> e < off" and "\<not> e - off < n"
  shows "unat off + unat n \<le> unat e"
  using assms by (auto simp: word_less_nat_alt word_le_nat_alt unat_sub not_less)

text \<open>C39: A pointer handed out by \<open>get_mapped_range\<close> lies inside the memory behind it. For a buffer that
  satisfies the invariant, the offset and the length it returns stay within the staging buffer (mapped
  at creation) or within the mapped range.\<close>

theorem get_mapped_range_inside:
  assumes ok: "buffer_ok b" and g: "get_mapped_range b offset sz = Inr (p, n)"
  shows "pointer_inside b p n"
proof (cases "bst_map_state b")
  case (MapInit s)
  with g have "\<not> gb_size (bst_buffer b) < offset" "\<not> gb_size (bst_buffer b) - offset < n" "p = StagingPtr offset"
    by (auto simp: get_mapped_range_def Let_def and_then_Inr)
  with room_left [OF this(1,2)] MapInit ok show ?thesis
    by (auto simp: pointer_inside_def buffer_ok_def word_le_nat_alt)
next
  case (MapActive c rg h)
  with g have *: "\<not> rend rg < offset" "\<not> rend rg - offset < n" "\<not> offset < rstart rg"
      "p = MappingPtr (offset - rstart rg)"
    by (auto simp: get_mapped_range_def Let_def and_then_Inr)
  then have "unat (offset - rstart rg) = unat offset - unat (rstart rg)" "unat (rstart rg) \<le> unat offset"
    by (simp_all add: unat_sub word_le_nat_alt not_less)
  with room_left [OF *(1,2)] *(4) MapActive show ?thesis by (simp add: pointer_inside_def)
qed (use g in \<open>auto simp: get_mapped_range_def Let_def and_then_Inr\<close>)

theorem get_mapped_range_inside_witness:
  "pointer_inside \<lparr>bst_buffer = \<lparr>gb_index = 0, gb_device = 0, gb_size = 64, gb_usage = bus_map_read\<rparr>,
     bst_destroyed = False, bst_map_state = MapActive True (Range 16 48) HostRead, bst_status = new_tracker 64\<rparr>
     (MappingPtr 8) 16"
proof (rule get_mapped_range_inside [where offset = 24 and sz = "Some 16"])
  show "buffer_ok \<lparr>bst_buffer = \<lparr>gb_index = 0, gb_device = 0, gb_size = 64, gb_usage = bus_map_read\<rparr>,
     bst_destroyed = False, bst_map_state = MapActive True (Range 16 48) HostRead, bst_status = new_tracker 64\<rparr>"
    by (simp add: buffer_ok_def status_ok_def new_tracker_def tracker_wf_def aligned_def range_ok_def
        COPY_BUFFER_ALIGNMENT_def)
qed code_simp

section \<open>Created buffers\<close>

lemma aligned_buffer_size_bounds:
  assumes "unat (bd_size desc) < 2 ^ 64 - 8"
  shows "aligned (aligned_buffer_size desc)" and "unat (bd_size desc) \<le> unat (aligned_buffer_size desc)"
    and "unat (aligned_buffer_size desc) \<le> unat (bd_size desc) + 4" and "0 < unat (aligned_buffer_size desc)"
proof -
  define a where "a = (if bd_size desc = 0 then COPY_BUFFER_ALIGNMENT
      else if contains (bd_usage desc) bus_vertex then bd_size desc + 1 else bd_size desc)"
  have s: "aligned_buffer_size desc = align_end a"
    by (simp add: aligned_buffer_size_def align_end_def a_def Let_def)
  have un: "unat (bd_size desc + 1) = unat (bd_size desc) + 1"
    using assms by (simp add: unat_word_ariths)
  have a: "unat a = (if bd_size desc = 0 then 4
      else if contains (bd_usage desc) bus_vertex then unat (bd_size desc) + 1 else unat (bd_size desc))"
    using un by (simp add: a_def COPY_BUFFER_ALIGNMENT_def)
  have ne: "bd_size desc \<noteq> 0 \<Longrightarrow> 0 < unat (bd_size desc)" by (simp add: unat_gt_0)
  then have pos: "0 < unat a" and lo: "unat (bd_size desc) \<le> unat a" and hi: "unat a \<le> unat (bd_size desc) + 4"
    and hi': "bd_size desc \<noteq> 0 \<Longrightarrow> unat a \<le> unat (bd_size desc) + 1"
    using a by (auto split: if_splits)
  have un_a: "unat (align_end a) = (unat a + 3) div 4 * 4"
  proof -
    have "unat (align_end a) = (if unat a mod 4 = 0 then unat a else unat a + 4 - unat a mod 4)"
      using hi assms by (intro unat_align_end) simp
    then show ?thesis by presburger
  qed
  show "aligned (aligned_buffer_size desc)" by (simp add: s aligned_unat un_a)
  show "unat (bd_size desc) \<le> unat (aligned_buffer_size desc)" using lo by (simp add: s un_a)
  show "0 < unat (aligned_buffer_size desc)" using pos by (simp add: s un_a)
  show "unat (aligned_buffer_size desc) \<le> unat (bd_size desc) + 4"
    using a hi' by (cases "bd_size desc = 0") (auto simp: s un_a)
qed

lemma new_status_ok: "aligned n \<Longrightarrow> 0 < unat n \<Longrightarrow> status_ok (new_tracker n)"
  by (simp add: status_ok_def tracker_wf_def new_tracker_def word_less_nat_alt aligned_def)

lemma map_at_creation_ok:
  assumes st: "status_ok (new_tracker n)" and n: "aligned n" "0 < unat n" "unat (bd_size desc) \<le> unat n"
    and sz: "unat (bd_size desc) < 2 ^ 64 - 8"
    and al: "bd_mapped_at_creation desc \<Longrightarrow> aligned (bd_size desc)"
    and b: "b = \<lparr>bst_buffer = buf, bst_destroyed = False, bst_map_state = MapIdle, bst_status = new_tracker n\<rparr>"
    and buf: "gb_size buf = bd_size desc"
  shows "\<exists>r. map_at_creation dev desc n b = Some r \<and>
     (\<forall>b' u. r = Inr (b', u) \<longrightarrow> buffer_ok b' \<and> bst_buffer b' = buf
        \<and> (bd_mapped_at_creation desc = (bst_map_state b' \<noteq> MapIdle))
        \<and> (\<not> bd_mapped_at_creation desc \<longrightarrow> bst_status b' = new_tracker n))"
proof -
  consider (idle) "\<not> bd_mapped_at_creation desc"
    | (staging) "bd_mapped_at_creation desc" "\<not> contains (bd_usage desc) bus_map_write"
    | (empty) "bd_mapped_at_creation desc" "contains (bd_usage desc) bus_map_write" "bd_size desc = 0"
    | (map) "bd_mapped_at_creation desc" "contains (bd_usage desc) bus_map_write" "bd_size desc \<noteq> 0"
    by blast
  then show ?thesis
  proof cases
    case idle
    with st show ?thesis by (simp add: map_at_creation_def buffer_ok_def b)
  next
    case staging
    have wf: "tracker_wf (new_tracker n)" using st by (simp add: status_ok_def)
    have "status_ok (drain_unread (new_tracker n) (Range 0 n))"
      using drain_all_ok(1) [OF st, of "Range 0 n"] drain_exact [OF wf, of "Range 0 n"] n
      by (simp add: word_less_nat_alt aligned_def)
    with staging n buf show ?thesis
      by (cases "hal_ok (hd_staging_buffer (dev_hal dev) n)")
        (auto simp: map_at_creation_def buffer_ok_def b word_le_nat_alt)
  next
    case empty
    with st buf show ?thesis
      by (simp add: map_at_creation_def buffer_ok_def b range_ok_def aligned_def)
  next
    case map
    have rg: "range_ok (bd_size desc) (Range 0 (bd_size desc))"
      using al [OF map(1)] by (simp add: range_ok_def aligned_def)
    have ok: "status_ok (bst_status b)" using st by (simp add: b)
    show ?thesis
    proof (cases "hd_map_buffer (dev_hal dev) (gb_index (bst_buffer b)) (Range 0 (bd_size desc))")
      case (Inl e)
      then have "map_buffer dev b 0 (bd_size desc) HostWrite = Some (Inl (BaDevice e))"
        by (simp add: map_buffer_def Let_def b)
      with map show ?thesis by (simp add: map_at_creation_def Let_def)
    next
      case (Inr c)
      have "0 < bd_size desc" using map by (simp add: word_neq_0_conv)
      then obtain m where "map_buffer dev b 0 (bd_size desc) HostWrite = Some (Inr m)" "status_ok (mm_status m)"
        using map_buffer_spec [OF ok, of 0 "bd_size desc" dev c HostWrite] al [OF map(1)] sz Inr
        by (auto simp: b aligned_def)
      with map rg buf show ?thesis
        by (simp add: map_at_creation_def Let_def buffer_ok_def b)
    qed
  qed
qed

text \<open>
  A new buffer satisfies the invariant, its size is rounded up to the copy alignment, its whole
  memory is tracked as uninitialised unless it is mapped, and no assertion fails.
\<close>

definition created_ok :: "device \<Rightarrow> nat \<Rightarrow> buffer_descriptor \<Rightarrow> new_buffer \<Rightarrow> bool" where
  "created_ok dev index desc nb \<longleftrightarrow> buffer_ok (nb_state nb) \<and> aligned (nb_hal_size nb)
     \<and> unat (bd_size desc) \<le> unat (nb_hal_size nb) \<and> unat (nb_hal_size nb) \<le> unat (bd_size desc) + 4
     \<and> bst_buffer (nb_state nb) = \<lparr>gb_index = index, gb_device = dev_id dev, gb_size = bd_size desc,
                                   gb_usage = bd_usage desc\<rparr>
     \<and> (bd_mapped_at_creation desc = (bst_map_state (nb_state nb) \<noteq> MapIdle))
     \<and> (\<not> bd_mapped_at_creation desc \<longrightarrow> uninit (bst_status (nb_state nb)) = {x. x < nb_hal_size nb})"

text \<open>C38: Creating a buffer never panics, and a created buffer is well formed: its backend buffer is
  aligned, at least as large as requested and at most four bytes larger; it is mapped exactly if that
  was asked for, satisfies the invariant of the mapping state machine, and is wholly uninitialised when
  it is not mapped.\<close>

theorem create_buffer_ok:
  assumes sz: "unat (bd_size desc) < 2 ^ 64 - 8"
  shows "case create_buffer dev index desc of
      None \<Rightarrow> False | Some (Inl e) \<Rightarrow> True | Some (Inr nb) \<Rightarrow> created_ok dev index desc nb"
proof (cases "create_raw_buffer dev index desc")
  case (Inl e)
  then show ?thesis by (simp add: create_buffer_def)
next
  case (Inr t)
  define n where "n = aligned_buffer_size desc"
  note bounds = aligned_buffer_size_bounds [OF sz, folded n_def]
  define buf where "buf = \<lparr>gb_index = index, gb_device = dev_id dev, gb_size = bd_size desc, gb_usage = bd_usage desc\<rparr>"
  define b where "b = \<lparr>bst_buffer = buf, bst_destroyed = False, bst_map_state = MapIdle, bst_status = new_tracker n\<rparr>"
  from Inr obtain usage where t: "t = (b, n, usage)"
    and al: "bd_mapped_at_creation desc \<Longrightarrow> aligned (bd_size desc)"
    by (auto simp: create_raw_buffer_def buffer_hal_usage_def and_then_Inr Let_def b_def buf_def n_def
        is_multiple_of_aligned split: if_splits)
  have st: "status_ok (new_tracker n)" by (rule new_status_ok [OF bounds(1,4)])
  have buf: "gb_size buf = bd_size desc" by (simp add: buf_def)
  obtain r where r: "map_at_creation dev desc n b = Some r"
    and post: "\<forall>b' u. r = Inr (b', u) \<longrightarrow> buffer_ok b' \<and> bst_buffer b' = buf
        \<and> (bd_mapped_at_creation desc = (bst_map_state b' \<noteq> MapIdle))
        \<and> (\<not> bd_mapped_at_creation desc \<longrightarrow> bst_status b' = new_tracker n)"
    using map_at_creation_ok [OF st bounds(1,4,2) sz al b_def buf] by blast
  have cr: "create_buffer dev index desc = Some (and_then r (\<lambda>(b', first_use).
              Inr \<lparr>nb_state = b', nb_hal_size = n, nb_hal_usage = usage, nb_first_use = first_use\<rparr>))"
    by (simp add: create_buffer_def Inr t r)
  have un: "uninit (new_tracker n) = {x. x < n}"
    by (auto simp: uninit_def new_tracker_def)
  show ?thesis
  proof (cases r)
    case (Inl e)
    with cr show ?thesis by simp
  next
    case (Inr p)
    obtain b' u where p: "p = (b', u)" by fastforce
    with post Inr have "buffer_ok b'" "bst_buffer b' = buf"
      "bd_mapped_at_creation desc = (bst_map_state b' \<noteq> MapIdle)"
      "\<not> bd_mapped_at_creation desc \<longrightarrow> bst_status b' = new_tracker n" by blast+
    with cr Inr p bounds un show ?thesis by (auto simp: buf_def created_ok_def)
  qed
qed

theorem create_buffer_ok_witness:
  "case create_buffer basic_device 0 \<lparr>bd_size = 10, bd_usage = bus_map_read OR bus_copy_dst, bd_mapped_at_creation = False\<rparr> of
     None \<Rightarrow> False | Some (Inl e) \<Rightarrow> True
   | Some (Inr nb) \<Rightarrow> created_ok basic_device 0
       \<lparr>bd_size = 10, bd_usage = bus_map_read OR bus_copy_dst, bd_mapped_at_creation = False\<rparr> nb"
  by (rule create_buffer_ok) simp

text \<open>
  The check of \<open>UNRESTRICTED_INDEX_BUFFER\<close> fires only for buffers that have all four of the other
  usages: an index buffer that is also a vertex buffer is created on a device without the flag.
\<close>

definition no_index_device :: device where
  "no_index_device = basic_device\<lparr>dev_downlevel := df_all AND NOT df_unrestricted_index_buffer\<rparr>"

lemma index_vertex_buffer_created:
  "\<not> contains (dev_downlevel no_index_device) df_unrestricted_index_buffer
   \<and> (case create_buffer no_index_device 0
          \<lparr>bd_size = 16, bd_usage = bus_index OR bus_vertex, bd_mapped_at_creation = False\<rparr> of
        Some (Inr nb) \<Rightarrow> nb_hal_size nb = 20 | _ \<Rightarrow> False)"
  by code_simp

end
