(* ===== verification/TextureUpdate.thy ===== *)
theory TextureUpdate
  imports TextureStates
begin

unbundle bit_operations_syntax

text \<open>
  What \<open>update\<close> of \<open>wgpu-core/src/track/texture.rs\<close> does to the current states and to the start
  states of a texture: lemmas over the definitions of \<open>TextureStates\<close>.
\<close>

section \<open>Learning a start state\<close>

lemma complex_ok_lookup:
  assumes "complex_ok full c" "k < length (cts_mips c)" "l < rend (sel_layers full)"
  shows "lookup (cts_mips c ! k) l = Some (complex_at c k l)"
proof -
  have "lookup (cts_mips c ! k) l \<noteq> None" using assms unfolding complex_ok_def mip_ok_def by blast
  with assms(2) show ?thesis by (auto simp: complex_at_def)
qed

lemma complex_put_mip:
  assumes "complex_ok full c" "k < length (cts_mips c)" "mip_ok (rend (sel_layers full)) mip"
    and "\<And>l. lookup mip l = (if l \<in> iv layers then h l else lookup (cts_mips c ! k) l)"
    and "\<And>l. l \<in> iv layers \<Longrightarrow> h l = Some (g l)"
  shows "complex_ok full (c\<lparr>cts_mips := (cts_mips c)[k := mip]\<rparr>)"
    and "complex_at (c\<lparr>cts_mips := (cts_mips c)[k := mip]\<rparr>)
      = (\<lambda>m l. if m = k \<and> l \<in> iv layers then g l else complex_at c m l)"
proof -
  show "complex_ok full (c\<lparr>cts_mips := (cts_mips c)[k := mip]\<rparr>)"
    using assms(1-3) by (auto simp: complex_ok_def nth_list_update)
  show "complex_at (c\<lparr>cts_mips := (cts_mips c)[k := mip]\<rparr>)
      = (\<lambda>m l. if m = k \<and> l \<in> iv layers then g l else complex_at c m l)"
  proof (intro ext)
    fix m l
    show "complex_at (c\<lparr>cts_mips := (cts_mips c)[k := mip]\<rparr>) m l
        = (if m = k \<and> l \<in> iv layers then g l else complex_at c m l)"
    proof (cases "m = k")
      case True
      show ?thesis
      proof (cases "l \<in> iv layers")
        case l: True
        then show ?thesis using True assms(2,5) by (simp add: complex_at_def assms(4) del: mem_iv)
      next
        case l: False
        then show ?thesis using True assms(2) by (simp add: complex_at_def assms(4) del: mem_iv)
      qed
    next
      case False
      then show ?thesis by (simp add: complex_at_def)
    qed
  qed
qed

lemma learn_start_spec:
  assumes c: "complex_ok full c" "k < length (cts_mips c)"
    and layers: "rstart layers < rend layers" "rend layers \<le> rend (sel_layers full)"
    and unk: "\<And>l. l \<in> iv layers \<Longrightarrow> complex_at c k l = tx_unknown"
  shows "\<exists>c'. learn_start k layers new c = Some c' \<and> complex_ok full c'
    \<and> complex_at c' = (\<lambda>m l. if m = k \<and> l \<in> iv layers then new else complex_at c m l)"
proof -
  let ?f = "\<lambda>_ current. if current = tx_unknown then Inr new else Inl () :: unit + texture_uses"
  let ?g = "\<lambda>v. if v = tx_unknown then Some new else None"
  have mip: "mip_ok (rend (sel_layers full)) (cts_mips c ! k)" using c by (simp add: complex_ok_def)
  have b: "body_is ?f ?g" by (simp add: body_is_def)
  have lk: "Option.bind (lookup (cts_mips c ! k) l) ?g = Some new" if "l \<in> iv layers" for l
  proof -
    have "l < rend (sel_layers full)" using that layers(2) by (auto intro: less_le_trans)
    then show ?thesis using complex_ok_lookup [OF c] unk [OF that] by simp
  qed
  obtain mip' e where m: "isolate_replace ?f layers (cts_mips c ! k) = Some (mip', e)"
    "e = None \<Longrightarrow> mip_ok (rend (sel_layers full)) mip'"
    "e = None \<Longrightarrow> (\<forall>l. lookup mip' l = (if l \<in> iv layers
        then Option.bind (lookup (cts_mips c ! k) l) ?g else lookup (cts_mips c ! k) l))"
    "e \<noteq> None \<Longrightarrow> \<exists>l \<in> iv layers. Option.bind (lookup (cts_mips c ! k) l) ?g = None"
    using isolate_replace_spec [OF mip layers b] by metis
  have e: "e = None" using m(4) lk by fastforce
  note p = complex_put_mip [OF c mip_ok_coalesce(1) [OF m(2) [OF e]], of layers
      "\<lambda>l. Option.bind (lookup (cts_mips c ! k) l) ?g" "\<lambda>_. new"]
  have "lookup (coalesce mip') l = (if l \<in> iv layers then Option.bind (lookup (cts_mips c ! k) l) ?g
      else lookup (cts_mips c ! k) l)" for l
    using m(3) [OF e] mip_ok_coalesce(2) [OF m(2) [OF e]] by simp
  from p [OF this lk] show ?thesis
    using m(1) e c(2) by (intro exI [of _ "c\<lparr>cts_mips := (cts_mips c)[k := coalesce mip']\<rparr>"])
      (simp add: learn_start_def vec_get_def)
qed

text \<open>A loop that learns the start states of disjoint regions, each one mip level and a range of layers.\<close>

definition in_region :: "nat \<times> u32 range_t \<Rightarrow> nat \<Rightarrow> u32 \<Rightarrow> bool" where
  "in_region e m l \<longleftrightarrow> fst e = m \<and> l \<in> iv (snd e)"

lemma learn_loop:
  assumes "complex_ok full c"
    and "\<forall>e \<in> set es. fst e < length (cts_mips c) \<and> rstart (snd e) < rend (snd e) \<and> rend (snd e) \<le> rend (sel_layers full)"
    and "\<And>m l. length (filter (\<lambda>e. in_region e m l) es) \<le> 1"
    and "\<And>e m l. e \<in> set es \<Longrightarrow> in_region e m l \<Longrightarrow> complex_at c m l = tx_unknown"
  shows "\<exists>c'. fold_opt (\<lambda>(k, layers). learn_start k layers new) es c = Some c' \<and> complex_ok full c'
    \<and> complex_at c' = (\<lambda>m l. if \<exists>e \<in> set es. in_region e m l then new else complex_at c m l)"
  using assms
proof (induction es arbitrary: c)
  case Nil
  then show ?case by simp
next
  case (Cons e es)
  obtain k layers where e: "e = (k, layers)" by (cases e)
  have k: "k < length (cts_mips c)" "rstart layers < rend layers" "rend layers \<le> rend (sel_layers full)"
    using Cons.prems(2) e by auto
  have "complex_at c k l = tx_unknown" if "l \<in> iv layers" for l
    using Cons.prems(4) [of e k l] that by (simp add: e in_region_def)
  from learn_start_spec [OF Cons.prems(1) k this] obtain c1 where c1: "learn_start k layers new c = Some c1"
    "complex_ok full c1" "complex_at c1 = (\<lambda>m l. if m = k \<and> l \<in> iv layers then new else complex_at c m l)"
    by blast
  have len: "length (cts_mips c1) = length (cts_mips c)"
    using c1(2) Cons.prems(1) by (simp add: complex_ok_def)
  have disj: "\<not> in_region e m l" if "x \<in> set es" "in_region x m l" for x m l
  proof
    assume "in_region e m l"
    with Cons.prems(3) [of m l] have "filter (\<lambda>e. in_region e m l) es = []" by simp
    with that show False by (auto simp: filter_empty_conv)
  qed
  have "\<exists>c'. fold_opt (\<lambda>(k, layers). learn_start k layers new) es c1 = Some c' \<and> complex_ok full c'
    \<and> complex_at c' = (\<lambda>m l. if \<exists>e \<in> set es. in_region e m l then new else complex_at c1 m l)"
  proof (rule Cons.IH [OF c1(2)])
    show "\<forall>e \<in> set es. fst e < length (cts_mips c1) \<and> rstart (snd e) < rend (snd e) \<and> rend (snd e) \<le> rend (sel_layers full)"
      using Cons.prems(2) len by simp
    show "length (filter (\<lambda>e. in_region e m l) es) \<le> 1" for m l
      using Cons.prems(3) [of m l] by (simp split: if_splits)
    show "complex_at c1 m l = tx_unknown" if "x \<in> set es" "in_region x m l" for x m l
    proof -
      have "\<not> (m = k \<and> l \<in> iv layers)" using disj [OF that] by (auto simp: e in_region_def)
      then have "complex_at c1 m l = complex_at c m l" unfolding c1(3) by (simp only: if_False)
      then show ?thesis using Cons.prems(4) [of x m l] that by simp
    qed
  qed
  then obtain c2 where c2: "fold_opt (\<lambda>(k, layers). learn_start k layers new) es c1 = Some c2" "complex_ok full c2"
    "complex_at c2 = (\<lambda>m l. if \<exists>e \<in> set es. in_region e m l then new else complex_at c1 m l)" by blast
  have "complex_at c2 = (\<lambda>m l. if \<exists>x \<in> set (e # es). in_region x m l then new else complex_at c m l)"
    by (intro ext) (auto simp: c2(3) c1(3) e in_region_def)
  with c1(1) c2(1,2) show ?case by (simp add: e)
qed

lemma learn_loop_filter:
  "fold_opt (\<lambda>(k, layers, current) start.
      if current = tx_unknown then
        (case start of None \<Rightarrow> Z | Some start \<Rightarrow> map_option Some (learn_start k layers new start))
      else Some start) es (Some c)
   = map_option Some (fold_opt (\<lambda>(k, layers). learn_start k layers new)
       (map (\<lambda>(k, layers, current). (k, layers)) (filter (\<lambda>(k, layers, current). current = tx_unknown) es)) c)"
proof (induction es arbitrary: c)
  case (Cons e es)
  obtain k layers current where e: "e = (k, layers, current)" by (cases e)
  show ?case
  proof (cases "current = tx_unknown")
    case True
    then show ?thesis unfolding e by (cases "learn_start k layers new c") (simp_all add: Cons.IH)
  next
    case False
    then show ?thesis unfolding e by (simp add: Cons.IH)
  qed
qed simp

lemma learn_loop_none:
  assumes "Z = Some None \<or> (\<forall>(k, layers, current) \<in> set es. current \<noteq> tx_unknown)"
  shows "fold_opt (\<lambda>(k, layers, current) start.
      if current = tx_unknown then
        (case start of None \<Rightarrow> Z | Some start \<Rightarrow> map_option Some (learn_start k layers new start))
      else Some start) es None = Some None"
  using assms
proof (induction es)
  case (Cons e es)
  obtain k layers current where e: "e = (k, layers, current)" by (cases e)
  from Cons show ?case unfolding e by (auto split: if_splits)
qed simp

lemma fold_opt_concat: "fold_opt f (concat xss) s = fold_opt (fold_opt f) xss s"
  by (induction xss arbitrary: s) (auto simp: fold_opt_append split: Option.bind_splits)

lemma fold_opt_map: "fold_opt f (map g xs) s = fold_opt (\<lambda>x. f (g x)) xs s"
  by (induction xs arbitrary: s) (auto split: Option.bind_splits)

section \<open>A complex state becomes simple\<close>

definition entries :: "complex_texture_state \<Rightarrow> (nat \<times> u32 range_t \<times> texture_uses) list" where
  "entries c = concat (map (\<lambda>(k, mip). map (\<lambda>(layers, v). (k, layers, v)) (ranges mip)) (enumerate 0 (cts_mips c)))"

lemma entries_selectors: "map (\<lambda>(k, layers, v). (one_mip k layers, v)) (entries c) = to_selector_state_iter c"
  by (simp add: entries_def to_selector_one_mip map_concat comp_def case_prod_unfold)

lemma entries_bounds:
  assumes "full_ok full" "complex_ok full c" "(k, layers, v) \<in> set (entries c)"
  shows "k < length (cts_mips c)" "rstart layers < rend layers" "rend layers \<le> rend (sel_layers full)"
    "k < MAX_MIP_LEVELS"
proof -
  show k: "k < length (cts_mips c)"
    using assms(3) by (auto simp: entries_def in_set_enumerate_eq)
  have "(one_mip k layers, v) \<in> set (to_selector_state_iter c)"
    using assms(3) unfolding entries_selectors [symmetric] by force
  from complex_entries_within [OF assms(1,2) this]
  show "rstart layers < rend layers" "rend layers \<le> rend (sel_layers full)"
    by (auto simp: sel_within_def sel_nonempty_def one_mip_def)
  show "k < MAX_MIP_LEVELS" using complex_ok_short [OF assms(1,2)] k by simp
qed

lemma entries_at:
  assumes "full_ok full" "complex_ok full c"
  shows "map (\<lambda>(k, layers, v). v) (filter (\<lambda>(k, layers, v). in_region (k, layers) m l) (entries c))
    = (if in_sel full m l then [complex_at c m l] else [])"
proof -
  have "in_sel (one_mip k layers) m l \<longleftrightarrow> in_region (k, layers) m l" if "(k, layers, v) \<in> set (entries c)" for k layers v
    using one_mip_sel [OF entries_bounds(4) [OF assms that]] by (simp add: in_region_def)
  then have "filter (\<lambda>(k, layers, v). in_region (k, layers) m l) (entries c)
      = filter (\<lambda>x. in_sel (one_mip (fst x) (fst (snd x))) m l) (entries c)"
    by (intro filter_cong refl) auto
  moreover have "map snd (hits (map (\<lambda>(k, layers, v). (one_mip k layers, v)) xs) m l)
      = map (\<lambda>(k, layers, v). v) (filter (\<lambda>x. in_sel (one_mip (fst x) (fst (snd x))) m l) xs)" for xs
    by (induction xs) (auto simp: hits_def)
  ultimately show ?thesis
    using complex_hits [OF assms, of m l] by (simp add: entries_selectors [symmetric])
qed

lemma entries_unique:
  assumes "full_ok full" "complex_ok full c"
  shows "length (filter (\<lambda>e. in_region e m l)
      (map (\<lambda>(k, layers, current). (k, layers)) (filter (\<lambda>(k, layers, current). P current) (entries c)))) \<le> 1"
proof -
  have "length (filter (\<lambda>e. in_region e m l)
      (map (\<lambda>(k, layers, current). (k, layers)) (filter (\<lambda>(k, layers, current). P current) xs)))
    \<le> length (filter (\<lambda>(k, layers, v). in_region (k, layers) m l) xs)"
    for xs :: "(nat \<times> u32 range_t \<times> texture_uses) list"
    by (induction xs) auto
  moreover have "length (filter (\<lambda>(k, layers, v). in_region (k, layers) m l) (entries c)) \<le> 1"
    using arg_cong [OF entries_at [OF assms, of m l], of length] by (simp split: if_splits)
  ultimately show ?thesis using le_trans by blast
qed

lemma entries_mem:
  assumes "full_ok full" "complex_ok full c" "(k, layers, v) \<in> set (entries c)" "in_region (k, layers) m l"
  shows "in_sel full m l \<and> complex_at c m l = v"
proof -
  have "v \<in> set (map (\<lambda>(k, layers, v). v) (filter (\<lambda>(k, layers, v). in_region (k, layers) m l) (entries c)))"
    using assms(3,4) by force
  then show ?thesis unfolding entries_at [OF assms(1,2)] by (simp split: if_splits)
qed

lemma entries_cover:
  assumes "full_ok full" "complex_ok full c" "in_sel full m l"
  shows "\<exists>k layers. (k, layers, complex_at c m l) \<in> set (entries c) \<and> in_region (k, layers) m l"
proof -
  have "complex_at c m l
      \<in> set (map (\<lambda>(k, layers, v). v) (filter (\<lambda>(k, layers, v). in_region (k, layers) m l) (entries c)))"
    unfolding entries_at [OF assms(1,2)] using assms(3) by simp
  then show ?thesis by force
qed

lemma update_many_single_entries:
  "update_many_single new c start = fold_opt (\<lambda>(k, layers, current) start.
      if current = tx_unknown then
        (case start of None \<Rightarrow> Some None | Some start \<Rightarrow> map_option Some (learn_start k layers new start))
      else Some start) (entries c) start"
  unfolding update_many_single_def entries_def fold_opt_concat fold_opt_map
  by (intro arg_cong [of _ _ "\<lambda>f. fold_opt f _ _"] ext)
    (simp only: fold_opt_map case_prod_unfold fst_conv snd_conv)

lemma update_many_single_spec:
  assumes full: "full_ok full" and c: "complex_ok full c"
    and start: "start = Some sc \<Longrightarrow> complex_ok full sc"
      "\<And>m l. start = Some sc \<Longrightarrow> in_sel full m l \<Longrightarrow> complex_at c m l = tx_unknown \<Longrightarrow> complex_at sc m l = tx_unknown"
  shows "start = None \<Longrightarrow> update_many_single new c start = Some None"
    and "start = Some sc \<Longrightarrow> \<exists>sc'. update_many_single new c start = Some (Some sc') \<and> complex_ok full sc'
      \<and> (\<forall>m l. in_sel full m l \<longrightarrow>
            complex_at sc' m l = (if complex_at c m l = tx_unknown then new else complex_at sc m l))"
proof -
  show "start = None \<Longrightarrow> update_many_single new c start = Some None"
    by (simp add: update_many_single_entries learn_loop_none)
next
  assume s: "start = Some sc"
  let ?es = "map (\<lambda>(k, layers, current). (k, layers)) (filter (\<lambda>(k, layers, current). current = tx_unknown) (entries c))"
  have len: "length (cts_mips sc) = length (cts_mips c)" using start(1) [OF s] c by (simp add: complex_ok_def)
  have "\<exists>c'. fold_opt (\<lambda>(k, layers). learn_start k layers new) ?es sc = Some c' \<and> complex_ok full c'
    \<and> complex_at c' = (\<lambda>m l. if \<exists>e \<in> set ?es. in_region e m l then new else complex_at sc m l)"
  proof (rule learn_loop [OF start(1) [OF s]])
    show "\<forall>e \<in> set ?es. fst e < length (cts_mips sc) \<and> rstart (snd e) < rend (snd e) \<and> rend (snd e) \<le> rend (sel_layers full)"
      using entries_bounds [OF full c] len by auto
    show "length (filter (\<lambda>e. in_region e m l) ?es) \<le> 1" for m l by (rule entries_unique [OF full c])
    show "complex_at sc m l = tx_unknown" if e: "e \<in> set ?es" "in_region e m l" for e m l
    proof -
      from e(1) obtain k layers where "e = (k, layers)" "(k, layers, tx_unknown) \<in> set (entries c)" by auto
      with entries_mem [OF full c] e(2) start(2) [OF s] show ?thesis by blast
    qed
  qed
  then obtain sc' where sc': "fold_opt (\<lambda>(k, layers). learn_start k layers new) ?es sc = Some sc'" "complex_ok full sc'"
    "complex_at sc' = (\<lambda>m l. if \<exists>e \<in> set ?es. in_region e m l then new else complex_at sc m l)" by blast
  have "(\<exists>e \<in> set ?es. in_region e m l) \<longleftrightarrow> complex_at c m l = tx_unknown" if "in_sel full m l" for m l
  proof
    assume "\<exists>e \<in> set ?es. in_region e m l"
    then obtain k layers where "(k, layers, tx_unknown) \<in> set (entries c)" "in_region (k, layers) m l" by auto
    with entries_mem [OF full c] show "complex_at c m l = tx_unknown" by blast
  next
    assume "complex_at c m l = tx_unknown"
    with entries_cover [OF full c that] show "\<exists>e \<in> set ?es. in_region e m l" by force
  qed
  with sc' show "\<exists>sc'. update_many_single new c start = Some (Some sc') \<and> complex_ok full sc'
      \<and> (\<forall>m l. in_sel full m l \<longrightarrow>
            complex_at sc' m l = (if complex_at c m l = tx_unknown then new else complex_at sc m l))"
    by (intro exI [of _ sc']) (simp add: update_many_single_entries s learn_loop_filter)
qed

section \<open>Both states are complex\<close>

text \<open>What one use does to the pair of the current and the start state of a subresource.\<close>

definition cell_update :: "texture_uses \<Rightarrow> texture_uses \<times> texture_uses \<Rightarrow> texture_uses \<times> texture_uses" where
  "cell_update new cs = (if new = tx_unknown then cs
     else (new, if fst cs = tx_unknown then new else snd cs))"

text \<open>The start state, where there is one, knows exactly what the current state knows.\<close>

definition start_ok :: "texture_selector \<Rightarrow> complex_texture_state \<Rightarrow> complex_texture_state option \<Rightarrow> bool" where
  "start_ok full c start \<longleftrightarrow>
     (case start of
        None \<Rightarrow> (\<forall>m l. in_sel full m l \<longrightarrow> complex_at c m l \<noteq> tx_unknown)
      | Some sc \<Rightarrow> complex_ok full sc
          \<and> (\<forall>m l. in_sel full m l \<longrightarrow> (complex_at sc m l = tx_unknown \<longleftrightarrow> complex_at c m l = tx_unknown)))"

definition start_at :: "complex_texture_state option \<Rightarrow> nat \<Rightarrow> u32 \<Rightarrow> texture_uses" where
  "start_at start m l = (case start of None \<Rightarrow> tx_unknown | Some sc \<Rightarrow> complex_at sc m l)"

lemma update_layers_spec:
  assumes full: "full_ok full" and c: "complex_ok full c" and start: "start_ok full c start"
    and k: "k < length (cts_mips c)"
    and layers: "rstart layers < rend layers" "rend layers \<le> rend (sel_layers full)"
    and new: "new \<noteq> tx_unknown"
  shows "\<exists>c' start'. update_layers new layers k (c, start) = Some (c', start') \<and> complex_ok full c'
    \<and> start_ok full c' start' \<and> (start' = None \<longleftrightarrow> start = None)
    \<and> complex_at c' = (\<lambda>m l. if m = k \<and> l \<in> iv layers then new else complex_at c m l)
    \<and> (start \<noteq> None \<longrightarrow> (\<forall>m l. in_sel full m l \<longrightarrow> start_at start' m l =
         (if m = k \<and> l \<in> iv layers \<and> complex_at c m l = tx_unknown then new else start_at start m l)))"
proof -
  let ?n = "rend (sel_layers full)"
  have mip: "mip_ok ?n (cts_mips c ! k)" using c k by (simp add: complex_ok_def)
  obtain pre sl rem where p:
    "isolate (cts_mips c ! k) layers tx_unknown
      = Some ((cts_mips c ! k)\<lparr>ranges := pre @ sl @ rem\<rparr>, length pre, length pre + length sl)"
    "\<forall>i. lookup_ranges (pre @ sl @ rem) i = lookup (cts_mips c ! k) i"
    "\<And>i. i \<in> iv layers \<longleftrightarrow> lookup_ranges sl i \<noteq> None"
    "\<And>i. i \<in> iv layers \<Longrightarrow> lookup_ranges pre i = None \<and> lookup_ranges rem i = None"
    "sane_ranges pre" "sane_ranges sl" "sane_ranges rem"
    "\<forall>a \<in> set pre. \<forall>b \<in> set (sl @ rem). rend (fst a) \<le> rstart (fst b)"
    "\<forall>a \<in> set sl. \<forall>b \<in> set rem. rend (fst a) \<le> rstart (fst b)" "sl \<noteq> []"
    using isolate_parts [OF mip layers] by blast
  have in_full: "in_sel full k l" if "l \<in> iv layers" for l
    using that layers(2) k c full_ok_in_sel [OF full] by (auto simp: complex_ok_def intro: less_le_trans)
  have at: "lookup_ranges sl l = Some (complex_at c k l)" if "l \<in> iv layers" for l
  proof -
    have "l < ?n" using that layers(2) by (auto intro: less_le_trans)
    then have "lookup (cts_mips c ! k) l = Some (complex_at c k l)" by (rule complex_ok_lookup [OF c k])
    with p(2) [THEN spec, of l] p(4) [OF that] show ?thesis by (auto split: option.splits)
  qed
  let ?mip = "(cts_mips c ! k)\<lparr>ranges := pre @ map (\<lambda>(r, _). (r, new)) sl @ rem\<rparr>"
  have b: "body_is (\<lambda>_ _. Inr new :: unit + texture_uses) (\<lambda>_. Some new)" by (simp add: body_is_def)
  have repl: "replace_states (\<lambda>_ _. Inr new :: unit + texture_uses) sl = (map (\<lambda>(r, _). (r, new)) sl, None)"
    using replace_states_total [of sl "\<lambda>_ _. Inr new :: unit + texture_uses" "\<lambda>_. new"] by simp
  have "assign_layers new layers (cts_mips c ! k) = Some ?mip"
    by (simp add: assign_layers_def isolate_replace_def p(1) repl)
  with assign_layers_spec [OF mip layers, of new]
  have m: "mip_ok ?n ?mip" "lookup ?mip = (\<lambda>l. if l \<in> iv layers then Some new else lookup (cts_mips c ! k) l)"
    by auto
  let ?c = "c\<lparr>cts_mips := (cts_mips c)[k := coalesce ?mip]\<rparr>"
  have put: "complex_ok full ?c" "complex_at ?c = (\<lambda>m l. if m = k \<and> l \<in> iv layers then new else complex_at c m l)"
    using complex_put_mip [OF c k mip_ok_coalesce(1) [OF m(1)], of layers "\<lambda>_. Some new" "\<lambda>_. new"]
      mip_ok_coalesce(2) [OF m(1)] m(2) by auto
  let ?es = "map (\<lambda>(ly, v). (k, ly, v)) sl"
  have fold: "fold_opt (\<lambda>(layers, current) start_complex.
         if current = tx_unknown \<and> new \<noteq> tx_unknown then
           (case start_complex of
              None \<Rightarrow> None
            | Some start \<Rightarrow> map_option Some (learn_start k layers new start))
         else Some start_complex) sl start
     = fold_opt (\<lambda>(k, layers, current) start_complex.
         if current = tx_unknown then
           (case start_complex of
              None \<Rightarrow> None
            | Some start \<Rightarrow> map_option Some (learn_start k layers new start))
         else Some start_complex) ?es start"
    unfolding fold_opt_map by (intro arg_cong [of _ _ "\<lambda>f. fold_opt f _ _"] ext)
      (simp only: new case_prod_unfold fst_conv snd_conv simp_thms)
  have entry: "complex_at c k l = v" "l \<in> iv layers" if "(r, v) \<in> set sl" "l \<in> iv r" for r v l
  proof -
    have "lookup_ranges sl l = Some v" by (rule lookup_member [OF p(6) that])
    moreover from this show "l \<in> iv layers" using p(3) by blast
    ultimately show "complex_at c k l = v" using at [of l] by simp
  qed
  obtain start' where start': "fold_opt (\<lambda>(k, layers, current) start_complex.
         if current = tx_unknown then
           (case start_complex of
              None \<Rightarrow> None
            | Some start \<Rightarrow> map_option Some (learn_start k layers new start))
         else Some start_complex) ?es start = Some start'"
    "start' = None \<longleftrightarrow> start = None" "start_ok full ?c start'"
    "start \<noteq> None \<Longrightarrow> \<forall>m l. in_sel full m l \<longrightarrow> start_at start' m l =
         (if m = k \<and> l \<in> iv layers \<and> complex_at c m l = tx_unknown then new else start_at start m l)"
  proof (cases start)
    case None
    have "\<forall>(k, layers, current) \<in> set ?es. current \<noteq> tx_unknown"
    proof -
      have "v \<noteq> tx_unknown" if e: "(r, v) \<in> set sl" for r v
      proof -
        have "rstart r \<in> iv r" using e p(6) by (force simp: sane_ranges_def)
        from entry [OF e this] in_full start None show ?thesis by (auto simp: start_ok_def)
      qed
      then show ?thesis by auto
    qed
    moreover have "start_ok full ?c None"
      using start None new unfolding put(2) start_ok_def by simp
    ultimately show thesis using None by (intro that [of None]) (simp_all add: learn_loop_none)
  next
    case (Some sc)
    then have sc: "complex_ok full sc"
      "\<And>m l. in_sel full m l \<Longrightarrow> complex_at sc m l = tx_unknown \<longleftrightarrow> complex_at c m l = tx_unknown"
      using start by (auto simp: start_ok_def)
    let ?rs = "map (\<lambda>(k, layers, current). (k, layers)) (filter (\<lambda>(k, layers, current). current = tx_unknown) ?es)"
    have len: "length (cts_mips sc) = length (cts_mips c)" using sc(1) c by (simp add: complex_ok_def)
    have region: "(\<exists>e \<in> set ?rs. in_region e m l) \<longleftrightarrow> m = k \<and> l \<in> iv layers \<and> complex_at c m l = tx_unknown" for m l
    proof
      assume "\<exists>e \<in> set ?rs. in_region e m l"
      then obtain r where "(r, tx_unknown) \<in> set sl" "m = k" "l \<in> iv r" by (auto simp: in_region_def)
      with entry show "m = k \<and> l \<in> iv layers \<and> complex_at c m l = tx_unknown" by blast
    next
      assume a: "m = k \<and> l \<in> iv layers \<and> complex_at c m l = tx_unknown"
      then have "complex_at c k l = tx_unknown" "l \<in> iv layers" by blast+
      with at [of l] have "lookup_ranges sl l = Some tx_unknown" by (simp del: mem_iv)
      then obtain r where "(r, tx_unknown) \<in> set sl" "l \<in> iv r" using lookup_ranges_member by metis
      with a show "\<exists>e \<in> set ?rs. in_region e m l" by (force simp: in_region_def)
    qed
    have "\<exists>c'. fold_opt (\<lambda>(k, layers). learn_start k layers new) ?rs sc = Some c' \<and> complex_ok full c'
      \<and> complex_at c' = (\<lambda>m l. if \<exists>e \<in> set ?rs. in_region e m l then new else complex_at sc m l)"
    proof (rule learn_loop [OF sc(1)])
      have "rstart r < rend r \<and> rend r \<le> ?n" if e: "(r, v) \<in> set sl" for r v
      proof -
        have ne: "rstart r < rend r" using e p(6) by (force simp: sane_ranges_def)
        then have "rend r - 1 \<in> iv r" by (simp add: word_less_nat_alt word_le_nat_alt unat_sub_if')
        from entry(2) [OF e this] have "rend r - 1 < rend layers" by simp
        with ne have "rend r \<le> rend layers"
          by (simp add: word_less_nat_alt word_le_nat_alt unat_sub_if' split: if_splits)
        with ne layers(2) show ?thesis by simp
      qed
      then show "\<forall>e \<in> set ?rs. fst e < length (cts_mips sc) \<and> rstart (snd e) < rend (snd e) \<and> rend (snd e) \<le> ?n"
        using k len by auto
      show "length (filter (\<lambda>e. in_region e m l) ?rs) \<le> 1" for m l
      proof -
        have "length (filter (\<lambda>e. in_region e m l)
            (map (\<lambda>(k, layers, current). (k, layers)) (filter (\<lambda>(k, layers, current). current = tx_unknown)
              (map (\<lambda>(ly, v). (k, ly, v)) xs))))
          \<le> length (filter (\<lambda>(r, v). l \<in> iv r) xs)" for xs :: "(u32 range_t \<times> texture_uses) list"
          by (induction xs) (auto simp: in_region_def)
        moreover have "length (filter (\<lambda>(r, v). l \<in> iv r) sl) \<le> 1"
          using arg_cong [OF sane_hits [OF p(6), of l], of length] by (simp split: option.splits)
        ultimately show ?thesis using le_trans by blast
      qed
      show "complex_at sc m l = tx_unknown" if "e \<in> set ?rs" "in_region e m l" for e m l
      proof -
        from that region have "m = k \<and> l \<in> iv layers \<and> complex_at c m l = tx_unknown" by blast
        with sc(2) in_full show ?thesis by blast
      qed
    qed
    then obtain sc' where sc': "fold_opt (\<lambda>(k, layers). learn_start k layers new) ?rs sc = Some sc'"
      "complex_ok full sc'"
      "complex_at sc' = (\<lambda>m l. if m = k \<and> l \<in> iv layers \<and> complex_at c m l = tx_unknown then new else complex_at sc m l)"
      unfolding region by blast
    have "start_ok full ?c (Some sc')"
      unfolding start_ok_def option.case put(2) sc'(3) using sc'(2) sc(2) new by (simp del: mem_iv)
    moreover have "\<forall>m l. in_sel full m l \<longrightarrow> start_at (Some sc') m l =
         (if m = k \<and> l \<in> iv layers \<and> complex_at c m l = tx_unknown then new else start_at start m l)"
      unfolding start_at_def option.case sc'(3) Some by blast
    ultimately show thesis using Some sc'(1)
      by (intro that [of "Some sc'"]) (simp_all add: learn_loop_filter)
  qed
  have "update_layers new layers k (c, start) = Some (?c, start')"
    using start'(1) unfolding fold [symmetric]
    by (simp add: update_layers_def vec_get_def k p(1) del: mem_iv)
  with put start' show ?thesis by blast
qed

text \<open>A list of uses of disjoint selectors, each applied to the mip levels of its selector.\<close>

lemma update_sel_spec:
  assumes full: "full_ok full" and c: "complex_ok full c" and start: "start_ok full c start"
    and sel: "sel_within full sel" and new: "new \<noteq> tx_unknown"
  shows "\<exists>c' start'. fold_opt (update_layers new (sel_layers sel)) (range_indices (sel_mips sel)) (c, start) = Some (c', start')
    \<and> complex_ok full c' \<and> start_ok full c' start' \<and> (start' = None \<longleftrightarrow> start = None)
    \<and> complex_at c' = (\<lambda>m l. if in_sel sel m l then new else complex_at c m l)
    \<and> (start \<noteq> None \<longrightarrow> (\<forall>m l. in_sel full m l \<longrightarrow> start_at start' m l =
         (if in_sel sel m l \<and> complex_at c m l = tx_unknown then new else start_at start m l)))"
proof -
  let ?L = "sel_layers sel"
  have l: "rstart ?L < rend ?L" "rend ?L \<le> rend (sel_layers full)"
    using sel by (auto simp: sel_within_def sel_nonempty_def)
  have "distinct ks \<Longrightarrow> \<forall>k \<in> set ks. k < length (cts_mips c) \<Longrightarrow> complex_ok full c \<Longrightarrow> start_ok full c start \<Longrightarrow>
    \<exists>c' start'. fold_opt (update_layers new ?L) ks (c, start) = Some (c', start')
    \<and> complex_ok full c' \<and> start_ok full c' start' \<and> (start' = None \<longleftrightarrow> start = None)
    \<and> complex_at c' = (\<lambda>m l. if m \<in> set ks \<and> l \<in> iv ?L then new else complex_at c m l)
    \<and> (start \<noteq> None \<longrightarrow> (\<forall>m l. in_sel full m l \<longrightarrow> start_at start' m l =
         (if m \<in> set ks \<and> l \<in> iv ?L \<and> complex_at c m l = tx_unknown then new else start_at start m l)))"
    for ks
  proof (induction ks arbitrary: c start)
    case Nil
    then show ?case by simp
  next
    case (Cons k ks)
    have k: "k < length (cts_mips c)" using Cons.prems(2) by simp
    from update_layers_spec [OF full Cons.prems(3,4) k l new] obtain c1 start1 where u:
      "update_layers new ?L k (c, start) = Some (c1, start1)" "complex_ok full c1" "start_ok full c1 start1"
      "start1 = None \<longleftrightarrow> start = None"
      "complex_at c1 = (\<lambda>m l. if m = k \<and> l \<in> iv ?L then new else complex_at c m l)"
      "start \<noteq> None \<longrightarrow> (\<forall>m l. in_sel full m l \<longrightarrow> start_at start1 m l =
         (if m = k \<and> l \<in> iv ?L \<and> complex_at c m l = tx_unknown then new else start_at start m l))" by blast
    have "distinct ks" "\<forall>k \<in> set ks. k < length (cts_mips c1)"
      using Cons.prems(1-3) u(2) by (auto simp: complex_ok_def)
    from Cons.IH [OF this u(2,3)] obtain c2 start2 where v:
      "fold_opt (update_layers new ?L) ks (c1, start1) = Some (c2, start2)"
      "complex_ok full c2" "start_ok full c2 start2" "start2 = None \<longleftrightarrow> start1 = None"
      "complex_at c2 = (\<lambda>m l. if m \<in> set ks \<and> l \<in> iv ?L then new else complex_at c1 m l)"
      "start1 \<noteq> None \<longrightarrow> (\<forall>m l. in_sel full m l \<longrightarrow> start_at start2 m l =
         (if m \<in> set ks \<and> l \<in> iv ?L \<and> complex_at c1 m l = tx_unknown then new else start_at start1 m l))" by blast
    have "complex_at c2 = (\<lambda>m l. if m \<in> set (k # ks) \<and> l \<in> iv ?L then new else complex_at c m l)"
      by (intro ext) (simp add: v(5) u(5) del: mem_iv)
    moreover have "start_at start2 m l = (if m \<in> set (k # ks) \<and> l \<in> iv ?L \<and> complex_at c m l = tx_unknown
        then new else start_at start m l)" if "start \<noteq> None" "in_sel full m l" for m l
    proof -
      have s: "start1 \<noteq> None" using that(1) u(4) by blast
      have s2: "start_at start2 m l =
         (if m \<in> set ks \<and> l \<in> iv ?L \<and> complex_at c1 m l = tx_unknown then new else start_at start1 m l)"
        using v(6) s that(2) by blast
      have s1: "start_at start1 m l =
         (if m = k \<and> l \<in> iv ?L \<and> complex_at c m l = tx_unknown then new else start_at start m l)"
        using u(6) that by blast
      have k: "k \<notin> set ks" using Cons.prems(1) by simp
      show ?thesis unfolding s2 s1 u(5) using new k by (auto simp del: mem_iv)
    qed
    ultimately show ?case using u(1,4) v(1-4) by simp
  qed
  note loop = this
  let ?ks = "range_indices (sel_mips sel)"
  have "distinct ?ks" "\<forall>k \<in> set ?ks. k < length (cts_mips c)"
    using sel c by (auto simp: range_indices_def sel_within_def complex_ok_def word_le_nat_alt)
  from loop [OF this c start] obtain c' start' where r:
    "fold_opt (update_layers new ?L) ?ks (c, start) = Some (c', start')"
    "complex_ok full c'" "start_ok full c' start'" "start' = None \<longleftrightarrow> start = None"
    "complex_at c' = (\<lambda>m l. if m \<in> set ?ks \<and> l \<in> iv ?L then new else complex_at c m l)"
    "start \<noteq> None \<longrightarrow> (\<forall>m l. in_sel full m l \<longrightarrow> start_at start' m l =
         (if m \<in> set ?ks \<and> l \<in> iv ?L \<and> complex_at c m l = tx_unknown then new else start_at start m l))"
    by blast
  have in_ks: "m \<in> set ?ks \<and> l \<in> iv ?L \<longleftrightarrow> in_sel sel m l" "m \<in> set ?ks \<and> l \<in> iv ?L \<and> P \<longleftrightarrow> in_sel sel m l \<and> P" for m l P
    by (auto simp: in_sel_def range_indices_def)
  note r' = r [unfolded in_ks]
  from r' show ?thesis by blast
qed

lemma hits_tail:
  assumes "length (hits ((sel, st) # many) m l) \<le> 1" "in_sel sel m l"
  shows "hits many m l = []"
  using assms by (simp add: hits_Cons)

lemma many_at_Cons:
  assumes "length (hits ((sel, st) # many) m l) \<le> 1"
  shows "many_at ((sel, st) # many) m l = (if in_sel sel m l then st else many_at many m l)"
  by (simp add: many_at_def hits_Cons)

lemma many_at_empty: "hits many m l = [] \<Longrightarrow> many_at many m l = tx_unknown"
  by (simp add: many_at_def)

lemma many_ok_tail: "many_ok full (x # many) \<Longrightarrow> many_ok full many"
proof -
  assume a: "many_ok full (x # many)"
  have "length (hits many m l) \<le> length (hits (x # many) m l)" for m l by (cases x) (simp add: hits_Cons)
  moreover have "length (hits (x # many) m l) \<le> 1" for m l using a by (simp add: many_ok_def)
  ultimately have "length (hits many m l) \<le> 1" for m l using le_trans by blast
  with a show ?thesis by (simp add: many_ok_def)
qed

lemma update_many_many_spec:
  assumes full: "full_ok full"
  shows "complex_ok full c \<Longrightarrow> start_ok full c start \<Longrightarrow> many_ok full many \<Longrightarrow>
    \<exists>c' start'. update_many_many many (c, start) = Some (c', start') \<and> complex_ok full c'
      \<and> start_ok full c' start' \<and> (start' = None \<longleftrightarrow> start = None)
      \<and> (\<forall>m l. complex_at c' m l =
           (if many_at many m l = tx_unknown then complex_at c m l else many_at many m l))
      \<and> (start \<noteq> None \<longrightarrow> (\<forall>m l. in_sel full m l \<longrightarrow> start_at start' m l =
           (if complex_at c m l = tx_unknown then many_at many m l else start_at start m l)))"
proof (induction many arbitrary: c start)
  case Nil
  have "start_at start m l = tx_unknown" if "start \<noteq> None" "in_sel full m l" "complex_at c m l = tx_unknown" for m l
    using Nil.prems(2) that by (auto simp: start_ok_def start_at_def)
  with Nil.prems show ?case
    by (intro exI [of _ c] exI [of _ start]) (auto simp: update_many_many_def many_at_def hits_def)
next
  case (Cons x many)
  obtain sel st where x: "x = (sel, st)" by (cases x)
  have one: "length (hits ((sel, st) # many) m l) \<le> 1" for m l using Cons.prems(3) by (simp add: many_ok_def x)
  have sel: "sel_within full sel" using Cons.prems(3) by (simp add: many_ok_def x)
  obtain c1 start1 where u:
    "(if st = tx_unknown then Some (c, start)
      else fold_opt (update_layers st (sel_layers sel)) (range_indices (sel_mips sel)) (c, start)) = Some (c1, start1)"
    "complex_ok full c1" "start_ok full c1 start1" "start1 = None \<longleftrightarrow> start = None"
    "complex_at c1 = (\<lambda>m l. if in_sel sel m l \<and> st \<noteq> tx_unknown then st else complex_at c m l)"
    "start \<noteq> None \<Longrightarrow> \<forall>m l. in_sel full m l \<longrightarrow> start_at start1 m l =
         (if in_sel sel m l \<and> complex_at c m l = tx_unknown \<and> st \<noteq> tx_unknown then st else start_at start m l)"
  proof (cases "st = tx_unknown")
    case True
    then show thesis using Cons.prems(1,2) that [of c start] by simp
  next
    case False
    from update_sel_spec [OF full Cons.prems(1,2) sel False] obtain c1 start1 where
      "fold_opt (update_layers st (sel_layers sel)) (range_indices (sel_mips sel)) (c, start) = Some (c1, start1)"
      "complex_ok full c1" "start_ok full c1 start1" "start1 = None \<longleftrightarrow> start = None"
      "complex_at c1 = (\<lambda>m l. if in_sel sel m l then st else complex_at c m l)"
      "start \<noteq> None \<longrightarrow> (\<forall>m l. in_sel full m l \<longrightarrow> start_at start1 m l =
         (if in_sel sel m l \<and> complex_at c m l = tx_unknown then st else start_at start m l))" by blast
    with False show thesis using that [of c1 start1] by simp
  qed
  from Cons.IH [OF u(2,3) many_ok_tail [OF Cons.prems(3)]] obtain c2 start2 where v:
    "update_many_many many (c1, start1) = Some (c2, start2)" "complex_ok full c2" "start_ok full c2 start2"
    "start2 = None \<longleftrightarrow> start1 = None"
    "\<forall>m l. complex_at c2 m l = (if many_at many m l = tx_unknown then complex_at c1 m l else many_at many m l)"
    "start1 \<noteq> None \<longrightarrow> (\<forall>m l. in_sel full m l \<longrightarrow> start_at start2 m l =
           (if complex_at c1 m l = tx_unknown then many_at many m l else start_at start1 m l))" by blast
  have run: "update_many_many (x # many) (c, start) = Some (c2, start2)"
    using u(1) v(1) unfolding update_many_many_def x by (simp split: if_splits)
  have tail: "in_sel sel m l \<Longrightarrow> many_at many m l = tx_unknown" for m l
    using hits_tail [OF one] many_at_empty by blast
  have "complex_at c2 m l = (if many_at (x # many) m l = tx_unknown then complex_at c m l else many_at (x # many) m l)" for m l
    using v(5) tail [of m l] unfolding x many_at_Cons [OF one] u(5) by auto
  moreover have "start_at start2 m l = (if complex_at c m l = tx_unknown then many_at (x # many) m l else start_at start m l)"
    if "start \<noteq> None" "in_sel full m l" for m l
  proof -
    have s2: "start_at start2 m l = (if complex_at c1 m l = tx_unknown then many_at many m l else start_at start1 m l)"
      using v(6) u(4) that by blast
    have s1: "start_at start1 m l =
         (if in_sel sel m l \<and> complex_at c m l = tx_unknown \<and> st \<noteq> tx_unknown then st else start_at start m l)"
      using u(6) that by blast
    have s0: "start_at start m l = tx_unknown" if "complex_at c m l = tx_unknown"
      using Cons.prems(2) \<open>start \<noteq> None\<close> \<open>in_sel full m l\<close> that by (auto simp: start_ok_def start_at_def)
    show ?thesis
      using s0 tail [of m l] unfolding s2 s1 u(5) x many_at_Cons [OF one]
      by (cases "in_sel sel m l"; cases "st = tx_unknown"; cases "complex_at c m l = tx_unknown") simp_all
  qed
  ultimately show ?case using run v(2-4) u(4) by blast
qed

section \<open>The whole of \<open>update\<close>\<close>

definition untouched :: "nat \<Rightarrow> texture_state_set \<Rightarrow> texture_state_set \<Rightarrow> bool" where
  "untouched i s s' \<longleftrightarrow> length (tss_simple s') = length (tss_simple s)
     \<and> (\<forall>j. j \<noteq> i \<longrightarrow> tss_simple s' ! j = tss_simple s ! j \<and> tss_complex s' j = tss_complex s j)"

lemma untouched_refl: "untouched i s s"
  by (simp add: untouched_def)

lemma update_single_many_spec:
  assumes full: "full_ok full" and cur: "clean cur" and many: "many_ok full many"
  shows "\<exists>c. update_single_many full cur many = Some c \<and> complex_ok full c
    \<and> (\<forall>m l. in_sel full m l \<longrightarrow> complex_at c m l = (if many_at many m l = tx_unknown then cur else many_at many m l))"
proof -
  have self: "sel_within full full" using full by (simp add: full_ok_def sel_within_def)
  then have "\<forall>(sel, st) \<in> set [(full, cur)]. sel_within full sel \<and> \<not> invalid_texture_use st"
    using cur by (simp add: clean_def)
  from from_selector_spec [OF full this] obtain c0 where c0: "from_selector_state_iter full [(full, cur)] = Some c0"
    "complex_ok full c0" "complex_at c0 = override_many [(full, cur)] (\<lambda>_ _. tx_unknown)" by blast
  let ?g = "\<lambda>st. if st = tx_unknown then cur else st"
  let ?f = "\<lambda>(selector, new_state) c. let new_state = (if new_state = tx_unknown then cur else new_state) in
       each_mip (\<lambda>mip. map_option coalesce (assign_layers new_state (sel_layers selector) mip)) (sel_mips selector) c"
  have w: "\<forall>(sel, st) \<in> set many. sel_within full sel" using many by (auto simp: many_ok_def)
  have "\<exists>c'. fold_opt ?f many c0 = Some c' \<and> complex_ok full c'
    \<and> complex_at c' = override_many (map (\<lambda>(sel, st). (sel, ?g st)) many) (complex_at c0)"
  proof (rule assign_many [OF c0(2) w])
    fix sel st c assume a: "(sel, st) \<in> set many" "complex_ok full c"
    with w have "sel_within full sel" by auto
    from assign_each(2) [OF a(2) this, of "?g st"]
    show "\<exists>c'. ?f (sel, st) c = Some c' \<and> complex_ok full c'
        \<and> complex_at c' = (\<lambda>m l. if in_sel sel m l then ?g st else complex_at c m l)"
      by (simp only: prod.case Let_def)
  qed
  then obtain c where c: "fold_opt ?f many c0 = Some c" "complex_ok full c"
    "complex_at c = override_many (map (\<lambda>(sel, st). (sel, ?g st)) many) (complex_at c0)" by blast
  have h: "hits (map (\<lambda>(sel, st). (sel, ?g st)) many) m l = map (\<lambda>(sel, st). (sel, ?g st)) (hits many m l)" for m l
    by (induction many) (auto simp: hits_def)
  have "complex_at c m l = (if many_at many m l = tx_unknown then cur else many_at many m l)" if "in_sel full m l" for m l
  proof -
    have len: "length (hits many m l) \<le> 1" using many by (simp add: many_ok_def)
    have "complex_at c0 m l = cur" using that by (simp add: c0(3))
    with len show ?thesis
      unfolding c(3) override_many_hits h by (cases "hits many m l") (auto simp: many_at_def case_prod_unfold)
  qed
  with c(1,2) c0(1) show ?thesis by (intro exI [of _ c]) (simp add: update_single_many_def)
qed

lemma unknown_valid: "\<not> invalid_texture_use tx_unknown"
  by (simp add: invalid_resource_state_def any_exclusive_def intersects_def tx_exclusive_def
      tx_unknown_def tx_copy_dst_def tx_color_target_def tx_depth_stencil_write_def
      tx_storage_write_only_def tx_storage_read_write_def tx_storage_atomic_def tx_present_def)

lemma many_at_valid: "many_ok full many \<Longrightarrow> \<not> invalid_texture_use (many_at many m l)"
proof (cases "hits many m l")
  case Nil
  then show ?thesis using unknown_valid by (simp add: many_at_def)
next
  case (Cons x xs)
  assume m: "many_ok full many"
  from Cons have "x \<in> set (hits many m l)" by simp
  then have "x \<in> set many" by (simp add: hits_def)
  with m Cons show ?thesis by (auto simp: many_ok_def many_at_def)
qed

lemma put_complex_entry:
  assumes "entry_ok full s i" "tss_simple s ! i = tx_complex" "complex_ok full c"
    "\<And>m l. in_sel full m l \<Longrightarrow> \<not> invalid_texture_use (complex_at c m l)"
  shows "entry_ok full (put_complex i c s) i" "state_at (put_complex i c s) i = complex_at c"
    "untouched i s (put_complex i c s)"
  using assms by (auto simp: put_complex_def entry_ok_def state_at_def untouched_def fun_eq_iff)

text \<open>The start set a tracker has, or that the device has none, agrees with the current set.\<close>

definition starts_agree ::
  "texture_selector \<Rightarrow> nat \<Rightarrow> texture_state_set option \<Rightarrow> texture_state_set \<Rightarrow> bool" where
  "starts_agree full i start s \<longleftrightarrow>
     (case start of
        None \<Rightarrow> (\<forall>m l. in_sel full m l \<longrightarrow> state_at s i m l \<noteq> tx_unknown)
      | Some ss \<Rightarrow> entry_ok full ss i
          \<and> (\<forall>m l. in_sel full m l \<longrightarrow> (state_at ss i m l = tx_unknown \<longleftrightarrow> state_at s i m l = tx_unknown)))"

definition starts_learned ::
  "texture_selector \<Rightarrow> nat \<Rightarrow> texture_state_set option \<Rightarrow> texture_state_set option
   \<Rightarrow> (nat \<Rightarrow> u32 \<Rightarrow> texture_uses) \<Rightarrow> (nat \<Rightarrow> u32 \<Rightarrow> texture_uses) \<Rightarrow> bool" where
  "starts_learned full i start start' cur new \<longleftrightarrow>
     (case start of
        None \<Rightarrow> start' = None
      | Some ss \<Rightarrow> \<exists>ss'. start' = Some ss' \<and> entry_ok full ss' i \<and> untouched i ss ss'
          \<and> (\<forall>m l. in_sel full m l \<longrightarrow>
                state_at ss' i m l = (if cur m l = tx_unknown then new m l else state_at ss i m l)))"

lemma starts_unchanged:
  assumes "starts_agree full i start s" "\<And>m l. in_sel full m l \<Longrightarrow> state_at s i m l \<noteq> tx_unknown"
  shows "starts_learned full i start start (state_at s i) new"
  using assms by (cases start) (auto simp: starts_agree_def starts_learned_def untouched_refl)

text \<open>The complex start state that \<open>update\<close> works on, and writing it back.\<close>

lemma start_complex:
  assumes agree: "starts_agree full i start s" and cur: "state_at s i = complex_at c"
    and valid: "\<And>m l. \<not> invalid_texture_use (new m l)"
  obtains sc where
    "(case start of
         None \<Rightarrow> Some None
       | Some ss \<Rightarrow> map_option (\<lambda>st. case st of Single _ \<Rightarrow> None | Many c \<Rightarrow> Some c) (set_get i ss)) = Some sc"
    "start_ok full c sc"
    "\<And>sc'. (sc' = None \<longleftrightarrow> sc = None) \<Longrightarrow> (\<And>x. sc' = Some x \<Longrightarrow> complex_ok full x) \<Longrightarrow>
       (sc \<noteq> None \<Longrightarrow> \<forall>m l. in_sel full m l \<longrightarrow> start_at sc' m l =
           (if complex_at c m l = tx_unknown then new m l else start_at sc m l)) \<Longrightarrow>
       starts_learned full i start (put_start i sc' start) (state_at s i) new"
proof (cases start)
  case None
  then have "start_ok full c None" using agree cur by (simp add: starts_agree_def start_ok_def)
  with None show thesis
    by (intro that [of None]) (auto simp: starts_learned_def put_start_def)
next
  case (Some ss)
  then have ss: "entry_ok full ss i"
    "\<And>m l. in_sel full m l \<Longrightarrow> state_at ss i m l = tx_unknown \<longleftrightarrow> complex_at c m l = tx_unknown"
    using agree cur by (auto simp: starts_agree_def)
  from ss(1) show thesis
  proof (cases rule: entry_ok_cases)
    case (single st)
    then have known: "complex_at c m l \<noteq> tx_unknown" if "in_sel full m l" for m l
      using ss(2) [OF that] by (simp add: clean_def)
    then have "start_ok full c None" by (simp add: start_ok_def)
    moreover have "starts_learned full i start start (state_at s i) new"
      using starts_unchanged [OF agree] known cur by simp
    ultimately show thesis using Some single(1)
      by (intro that [of None]) (auto simp: put_start_def)
  next
    case (many sc)
    have "start_ok full c (Some sc)" using many ss(2) by (simp add: start_ok_def)
    moreover have "starts_learned full i start (put_start i sc' start) (state_at s i) new"
      if sc': "(sc' = None) = (Some sc = None)" "\<And>x. sc' = Some x \<Longrightarrow> complex_ok full x"
        "Some sc \<noteq> None \<Longrightarrow> \<forall>m l. in_sel full m l \<longrightarrow> start_at sc' m l =
           (if complex_at c m l = tx_unknown then new m l else start_at (Some sc) m l)" for sc'
    proof -
      obtain x where x: "sc' = Some x" "complex_ok full x" using sc'(1,2) by auto
      have at: "complex_at x m l = (if complex_at c m l = tx_unknown then new m l else complex_at sc m l)"
        if "in_sel full m l" for m l using sc'(3) x(1) that by (simp add: start_at_def)
      then have "\<not> invalid_texture_use (complex_at x m l)" if "in_sel full m l" for m l
        using that valid many(5) by simp
      from put_complex_entry [OF ss(1) many(2) x(2) this] show ?thesis
        using Some x(1) at many(6) cur by (simp add: starts_learned_def put_start_def)
    qed
    ultimately show thesis using Some many(1) by (intro that [of "Some sc"]) auto
  qed
qed

lemma update_texture_single:
  assumes full: "full_ok full" and s: "entry_ok full s i"
    and p: "get_texture_state sp (Some full) i = Some ns" "new_ok full ns"
    and agree: "starts_agree full i start s"
    and single: "set_get i s = Some (Single cur)" "tss_simple s ! i = cur" "clean cur"
      "state_at s i = (\<lambda>_ _. cur)"
  shows "\<exists>start' s'. update_texture full start s i sp = Some (start', s') \<and> entry_ok full s' i \<and> untouched i s s'
    \<and> (\<forall>m l. in_sel full m l \<longrightarrow>
          state_at s' i m l = (if new_at ns m l = tx_unknown then state_at s i m l else new_at ns m l))
    \<and> starts_learned full i start start' (state_at s i) (new_at ns)"
proof -
  have len: "i < length (tss_simple s)" using s by (simp add: entry_ok_def)
  obtain x where get: "(case start of
         None \<Rightarrow> Some None
       | Some ss \<Rightarrow> map_option (\<lambda>st. case st of Single _ \<Rightarrow> None | Many c \<Rightarrow> Some c) (set_get i ss)) = Some x"
  proof (cases start)
    case None
    then show thesis using that by simp
  next
    case (Some ss)
    with agree have "entry_ok full ss i" by (simp add: starts_agree_def)
    then obtain st where "set_get i ss = Some st" by (cases rule: entry_ok_cases) auto
    with Some show thesis using that by simp
  qed
    have same: "starts_learned full i start start (state_at s i) (new_at ns)"
      by (rule starts_unchanged [OF agree]) (use single in \<open>simp add: clean_def\<close>)
    show ?thesis
    proof (cases ns)
      case (Single new)
      let ?s = "s\<lparr>tss_simple := (tss_simple s)[i := new]\<rparr>"
      have new: "clean new" using p(2) Single by (simp add: new_ok_def)
      then have "update_texture full start s i sp = Some (start, ?s)"
        by (simp add: update_texture_def get single(1) p(1) Single)
      moreover have "entry_ok full ?s i" "untouched i s ?s" "state_at ?s i = (\<lambda>_ _. new)"
        using new len by (auto simp: entry_ok_def clean_def untouched_def state_at_def fun_eq_iff)
      ultimately show ?thesis using same new Single by (simp add: new_at_def clean_def)
    next
      case (Many many)
      then have m: "many_ok full many" using p(2) by (simp add: new_ok_def)
      from update_single_many_spec [OF full single(3) m] obtain c where c:
        "update_single_many full cur many = Some c" "complex_ok full c"
        "\<forall>m l. in_sel full m l \<longrightarrow> complex_at c m l = (if many_at many m l = tx_unknown then cur else many_at many m l)"
        by blast
      let ?s = "s\<lparr>tss_simple := (tss_simple s)[i := tx_complex], tss_complex := (tss_complex s)(i \<mapsto> c)\<rparr>"
      have "update_texture full start s i sp = Some (start, ?s)"
        by (simp add: update_texture_def get single(1) p(1) Many c(1) make_complex_def insert_complex_def vec_set_def len)
      moreover have "entry_ok full ?s i" "untouched i s ?s" "state_at ?s i = complex_at c"
        using c(2,3) len single(3) many_at_valid [OF m]
        by (auto simp: entry_ok_def clean_def untouched_def state_at_def fun_eq_iff)
      ultimately show ?thesis using same c(3) Many single(4) by (simp add: new_at_def)
    qed
qed

lemma update_texture_many:
  assumes full: "full_ok full" and s: "entry_ok full s i"
    and p: "get_texture_state sp (Some full) i = Some ns" "new_ok full ns"
    and agree: "starts_agree full i start s"
    and many: "set_get i s = Some (Many c)" "tss_simple s ! i = tx_complex" "tss_complex s i = Some c"
      "complex_ok full c" "\<And>m l. in_sel full m l \<Longrightarrow> \<not> invalid_texture_use (complex_at c m l)"
      "state_at s i = complex_at c"
  shows "\<exists>start' s'. update_texture full start s i sp = Some (start', s') \<and> entry_ok full s' i \<and> untouched i s s'
    \<and> (\<forall>m l. in_sel full m l \<longrightarrow>
          state_at s' i m l = (if new_at ns m l = tx_unknown then state_at s i m l else new_at ns m l))
    \<and> starts_learned full i start start' (state_at s i) (new_at ns)"
proof -
  have len: "i < length (tss_simple s)" using s by (simp add: entry_ok_def)
  have valid: "\<not> invalid_texture_use (new_at ns m l)" for m l
    using p(2) many_at_valid by (cases ns) (auto simp: new_ok_def new_at_def clean_def)
    obtain sc where sc: "(case start of
         None \<Rightarrow> Some None
       | Some ss \<Rightarrow> map_option (\<lambda>st. case st of Single _ \<Rightarrow> None | Many c \<Rightarrow> Some c) (set_get i ss)) = Some sc"
    "start_ok full c sc"
    "\<And>sc'. (sc' = None \<longleftrightarrow> sc = None) \<Longrightarrow> (\<And>x. sc' = Some x \<Longrightarrow> complex_ok full x) \<Longrightarrow>
       (sc \<noteq> None \<Longrightarrow> \<forall>m l. in_sel full m l \<longrightarrow> start_at sc' m l =
           (if complex_at c m l = tx_unknown then new_at ns m l else start_at sc m l)) \<Longrightarrow>
       starts_learned full i start (put_start i sc' start) (state_at s i) (new_at ns)"
      by (rule start_complex [where new = "new_at ns", OF agree many(6) valid]) (rule that, assumption, assumption, blast)
    show ?thesis
    proof (cases ns)
      case (Single new)
      then have new: "clean new" using p(2) by (simp add: new_ok_def)
      obtain sc' where sc': "update_many_single new c sc = Some sc'" "sc' = None \<longleftrightarrow> sc = None"
        "\<And>x. sc' = Some x \<Longrightarrow> complex_ok full x"
        "sc \<noteq> None \<Longrightarrow> \<forall>m l. in_sel full m l \<longrightarrow> start_at sc' m l =
           (if complex_at c m l = tx_unknown then new else start_at sc m l)"
      proof (cases sc)
        case None
        then show thesis using update_many_single_spec(1) [OF full many(4)] that by auto
      next
        case (Some y)
        then have y: "complex_ok full y" "\<And>m l. in_sel full m l \<Longrightarrow> complex_at c m l = tx_unknown \<Longrightarrow> complex_at y m l = tx_unknown"
          using sc(2) by (auto simp: start_ok_def)
        have "\<exists>sc'. update_many_single new c sc = Some (Some sc') \<and> complex_ok full sc'
          \<and> (\<forall>m l. in_sel full m l \<longrightarrow> complex_at sc' m l = (if complex_at c m l = tx_unknown then new else complex_at y m l))"
          by (rule update_many_single_spec(2) [OF full many(4)]) (use Some y in auto)
        with Some show thesis using that by (auto simp: start_at_def)
      qed
      let ?s = "s\<lparr>tss_simple := (tss_simple s)[i := new], tss_complex := (tss_complex s)(i := None)\<rparr>"
      have "update_texture full start s i sp = Some (put_start i sc' start, ?s)"
        by (simp add: update_texture_def sc(1) many(1,3) p(1) Single sc'(1) make_simple_def vec_set_def len)
      moreover have "entry_ok full ?s i" "untouched i s ?s" "state_at ?s i = (\<lambda>_ _. new)"
        using new len by (auto simp: entry_ok_def clean_def untouched_def state_at_def fun_eq_iff)
      moreover have "starts_learned full i start (put_start i sc' start) (state_at s i) (new_at ns)"
        by (rule sc(3)) (use sc' Single in \<open>simp_all add: new_at_def\<close>)
      ultimately show ?thesis using new Single by (simp add: new_at_def clean_def)
    next
      case (Many ms)
      then have m: "many_ok full ms" using p(2) by (simp add: new_ok_def)
      from update_many_many_spec [OF full many(4) sc(2) m] obtain c' sc' where u:
        "update_many_many ms (c, sc) = Some (c', sc')" "complex_ok full c'"
        "start_ok full c' sc'" "sc' = None \<longleftrightarrow> sc = None"
        "\<forall>m l. complex_at c' m l = (if many_at ms m l = tx_unknown then complex_at c m l else many_at ms m l)"
        "sc \<noteq> None \<longrightarrow> (\<forall>m l. in_sel full m l \<longrightarrow> start_at sc' m l =
           (if complex_at c m l = tx_unknown then many_at ms m l else start_at sc m l))" by blast
      have "update_texture full start s i sp = Some (put_start i sc' start, put_complex i c' s)"
        by (simp add: update_texture_def sc(1) many(1) p(1) Many u(1))
      moreover have "\<not> invalid_texture_use (complex_at c' m l)" if "in_sel full m l" for m l
        using u(5) many(5) [OF that] many_at_valid [OF m] by simp
      note pc = put_complex_entry [OF s many(2) u(2) this]
      moreover have "starts_learned full i start (put_start i sc' start) (state_at s i) (new_at ns)"
      proof (rule sc(3) [OF u(4)])
        show "\<And>x. sc' = Some x \<Longrightarrow> complex_ok full x" using u(3) by (simp add: start_ok_def)
      qed (use u(6) Many in \<open>simp add: new_at_def\<close>)
      ultimately show ?thesis using u(5) Many many(6) by (simp add: new_at_def)
    qed
qed

lemma update_texture_spec:
  assumes full: "full_ok full" and s: "entry_ok full s i"
    and p: "get_texture_state sp (Some full) i = Some ns" "new_ok full ns"
    and agree: "starts_agree full i start s"
  shows "\<exists>start' s'. update_texture full start s i sp = Some (start', s') \<and> entry_ok full s' i \<and> untouched i s s'
    \<and> (\<forall>m l. in_sel full m l \<longrightarrow>
          state_at s' i m l = (if new_at ns m l = tx_unknown then state_at s i m l else new_at ns m l))
    \<and> starts_learned full i start start' (state_at s i) (new_at ns)"
  using s
proof (cases rule: entry_ok_cases)
  case (single cur)
  then show ?thesis by (intro update_texture_single [OF assms])
next
  case (many c)
  then show ?thesis by (intro update_texture_many [OF assms])
qed

end
