(* ===== verification/TextureTracker.thy ===== *)
theory TextureTracker
  imports TextureUpdate Extents
begin

unbundle bit_operations_syntax

text \<open>
  The trackers of textures, \<open>wgpu-core/src/track/texture.rs\<close>: the usage scope of a pass, the
  tracker of a command buffer, and the tracker of the device, over the state sets and primitives
  of \<open>TextureStates\<close>. \<open>None\<close> is a failed \<open>strict_assert\<close>, a panic, or an unchecked access out
  of bounds. The theorem compares recording and submitting with tracking every use on the device.
\<close>

section \<open>Usage scopes\<close>

record texture_view =
  tv_parent :: texture_ref
  tv_selector :: texture_selector

type_synonym texture_view_bind_group_state = "(texture_view \<times> texture_uses) list"

text \<open>
  \<open>sort_unstable_by_key\<close> may order the views of one texture in any way; the model keeps their order.
\<close>

definition views_optimize :: "texture_view_bind_group_state \<Rightarrow> texture_view_bind_group_state" where
  "views_optimize bg = sort_key (\<lambda>(view, _). tr_index (tv_parent view)) bg"

definition views_insert_single ::
  "texture_view \<Rightarrow> texture_uses \<Rightarrow> texture_view_bind_group_state \<Rightarrow> texture_view_bind_group_state" where
  "views_insert_single view usage bg = bg @ [(view, usage)]"

record texture_usage_scope =
  ts_set :: texture_state_set
  ts_metadata :: "texture_ref resource_metadata"
  ts_ordered :: texture_uses

definition default_texture_scope :: texture_usage_scope where
  "default_texture_scope = \<lparr>ts_set = new_state_set, ts_metadata = new_metadata, ts_ordered = 0\<rparr>"

definition ts_in_bounds :: "texture_usage_scope \<Rightarrow> nat \<Rightarrow> bool" where
  "ts_in_bounds s index \<longleftrightarrow> metadata_in_bounds (ts_metadata s) index \<and> index < set_size_of (ts_set s)"

definition ts_clear :: "texture_usage_scope \<Rightarrow> texture_usage_scope" where
  "ts_clear s = s\<lparr>ts_set := set_clear (ts_set s), ts_metadata := metadata_clear (ts_metadata s)\<rparr>"

definition ts_set_size :: "nat \<Rightarrow> texture_usage_scope \<Rightarrow> texture_usage_scope" where
  "ts_set_size n s =
     s\<lparr>ts_set := set_set_size n (ts_set s), ts_metadata := metadata_set_size n (ts_metadata s)\<rparr>"

definition ts_set_ordered :: "texture_uses \<Rightarrow> texture_usage_scope \<Rightarrow> texture_usage_scope" where
  "ts_set_ordered m s = s\<lparr>ts_ordered := m\<rparr>"

definition ts_is_empty :: "texture_usage_scope \<Rightarrow> bool" where
  "ts_is_empty s = metadata_is_empty (ts_metadata s)"

definition insert_or_merge_texture ::
  "texture_selector \<Rightarrow> nat \<Rightarrow> texture_state_provider \<Rightarrow> texture_ref metadata_provider \<Rightarrow> texture_usage_scope
   \<Rightarrow> (texture_usage_scope \<times> texture_conflict option) option" where
  "insert_or_merge_texture texture_selector index sp mp s = do {
     currently_owned \<leftarrow> contains_unchecked (ts_metadata s) index;
     if \<not> currently_owned then do {
       (_, st, md) \<leftarrow> insert_texture (Some texture_selector) None (ts_set s) (ts_metadata s) index sp None mp;
       Some (s\<lparr>ts_set := st, ts_metadata := md\<rparr>, None) }
     else do {
       (st, r) \<leftarrow> merge_texture texture_selector (ts_set s) index sp mp;
       Some (s\<lparr>ts_set := st\<rparr>, r) } }"

definition ts_merge_usage_scope ::
  "texture_usage_scope \<Rightarrow> texture_usage_scope \<Rightarrow> (texture_usage_scope \<times> texture_conflict option) option" where
  "ts_merge_usage_scope scope s = do {
     let incoming_size = set_size_of (ts_set scope);
     let s1 = (if set_size_of (ts_set s) < incoming_size then ts_set_size incoming_size s else s);
     indices \<leftarrow> owned_indices (ts_metadata scope);
     fold_try (\<lambda>index s.
       if ts_in_bounds s index \<and> ts_in_bounds scope index then do {
         tex \<leftarrow> get_resource_unchecked (ts_metadata scope) index;
         insert_or_merge_texture (tr_full_range tex) index (TextureSet (ts_set scope))
           (IndirectMetadata (ts_metadata scope)) s }
       else None) indices s1 }"

definition ts_merge_single ::
  "texture_ref \<Rightarrow> texture_selector option \<Rightarrow> texture_uses \<Rightarrow> texture_usage_scope
   \<Rightarrow> (texture_usage_scope \<times> texture_conflict option) option" where
  "ts_merge_single tex selector new_state s =
     (if ts_in_bounds s (tr_index tex) then
        insert_or_merge_texture (tr_full_range tex) (tr_index tex) (provider_from_option selector new_state)
          (DirectResource tex) s
      else None)"

definition ts_merge_bind_group ::
  "texture_view_bind_group_state \<Rightarrow> texture_usage_scope
   \<Rightarrow> (texture_usage_scope \<times> texture_conflict option) option" where
  "ts_merge_bind_group bg s =
     fold_try (\<lambda>(view, usage). ts_merge_single (tv_parent view) (Some (tv_selector view)) usage) bg s"

section \<open>The tracker of a command buffer\<close>

record texture_tracker =
  tt_start :: texture_state_set
  tt_end :: texture_state_set
  tt_metadata :: "texture_ref resource_metadata"
  tt_temp :: "texture_transition list"
  tt_ordered :: texture_uses

definition new_texture_usage_tracker :: "texture_uses \<Rightarrow> texture_tracker" where
  "new_texture_usage_tracker ordered_uses_mask =
     \<lparr>tt_start = new_state_set, tt_end = new_state_set, tt_metadata = new_metadata, tt_temp = [],
      tt_ordered = ordered_uses_mask\<rparr>"

definition tt_in_bounds :: "texture_tracker \<Rightarrow> nat \<Rightarrow> bool" where
  "tt_in_bounds t index \<longleftrightarrow> metadata_in_bounds (tt_metadata t) index
     \<and> index < set_size_of (tt_start t) \<and> index < set_size_of (tt_end t)"

definition tt_set_size :: "nat \<Rightarrow> texture_tracker \<Rightarrow> texture_tracker" where
  "tt_set_size n t =
     t\<lparr>tt_start := set_set_size n (tt_start t), tt_end := set_set_size n (tt_end t),
       tt_metadata := metadata_set_size n (tt_metadata t)\<rparr>"

definition tt_allow_index :: "nat \<Rightarrow> texture_tracker \<Rightarrow> texture_tracker" where
  "tt_allow_index index t =
     (if set_size_of (tt_start t) \<le> index then tt_set_size (index + 1) t else t)"

definition tt_contains :: "texture_ref \<Rightarrow> texture_tracker \<Rightarrow> bool" where
  "tt_contains tex t = metadata_contains (tt_metadata t) (tr_index tex)"

definition tt_used_resources :: "texture_tracker \<Rightarrow> texture_ref list option" where
  "tt_used_resources t = owned_resources (tt_metadata t)"

text \<open>
  \<open>tex.inner.get\<close> is the argument \<open>inner\<close>: nothing for a texture that has been destroyed.
\<close>

definition tt_drain_transitions ::
  "(texture_ref \<Rightarrow> 'i option) \<Rightarrow> texture_tracker
   \<Rightarrow> ((texture_transition list \<times> 'i option list) \<times> texture_tracker) option" where
  "tt_drain_transitions inner t =
     map_option (\<lambda>textures. ((tt_temp t, map inner textures), t\<lparr>tt_temp := []\<rparr>))
       (those (map (\<lambda>pending. get_resource_unchecked (tt_metadata t) (unat (pt_id pending))) (tt_temp t)))"

definition insert_or_barrier_update_texture ::
  "texture_selector \<Rightarrow> nat \<Rightarrow> texture_state_provider \<Rightarrow> texture_state_provider option
   \<Rightarrow> texture_ref metadata_provider \<Rightarrow> texture_tracker \<Rightarrow> texture_tracker option" where
  "insert_or_barrier_update_texture texture_selector index start_provider end_provider mp t = do {
     currently_owned \<leftarrow> contains_unchecked (tt_metadata t) index;
     if \<not> currently_owned then do {
       (starts, ends, md) \<leftarrow>
         insert_texture (Some texture_selector) (Some (tt_start t)) (tt_end t) (tt_metadata t) index
           start_provider end_provider mp;
       Some (t\<lparr>tt_start := (case starts of Some ss \<Rightarrow> ss | None \<Rightarrow> tt_start t),
               tt_end := ends, tt_metadata := md\<rparr>) }
     else do {
       let update_provider = (case end_provider of Some p \<Rightarrow> p | None \<Rightarrow> start_provider);
       temp \<leftarrow> barrier_texture texture_selector (tt_end t) index start_provider (tt_temp t) (tt_ordered t);
       (starts, ends) \<leftarrow> update_texture texture_selector (Some (tt_start t)) (tt_end t) index update_provider;
       Some (t\<lparr>tt_temp := temp, tt_start := (case starts of Some ss \<Rightarrow> ss | None \<Rightarrow> tt_start t),
               tt_end := ends\<rparr>) } }"

definition tt_set_single ::
  "texture_ref \<Rightarrow> texture_selector \<Rightarrow> texture_uses \<Rightarrow> texture_tracker
   \<Rightarrow> (texture_transition list \<times> texture_tracker) option" where
  "tt_set_single tex selector new_state t =
     (let t1 = tt_allow_index (tr_index tex) t in
      if tt_in_bounds t1 (tr_index tex) then do {
        t2 \<leftarrow> insert_or_barrier_update_texture (tr_full_range tex) (tr_index tex)
                (Selector selector new_state) None (DirectResource tex) t1;
        Some (tt_temp t2, t2\<lparr>tt_temp := []\<rparr>) }
      else None)"

definition tt_set_from_tracker :: "texture_tracker \<Rightarrow> texture_tracker \<Rightarrow> texture_tracker option" where
  "tt_set_from_tracker tracker t = do {
     let incoming_size = set_size_of (tt_start tracker);
     let t1 = (if set_size_of (tt_start t) < incoming_size then tt_set_size incoming_size t else t);
     indices \<leftarrow> owned_indices (tt_metadata tracker);
     fold_opt (\<lambda>index t.
       if tt_in_bounds t index \<and> tt_in_bounds tracker index then do {
         tex \<leftarrow> get_resource_unchecked (tt_metadata tracker) index;
         insert_or_barrier_update_texture (tr_full_range tex) index (TextureSet (tt_start tracker))
           (Some (TextureSet (tt_end tracker))) (IndirectMetadata (tt_metadata tracker)) t }
       else None) indices t1 }"

definition tt_set_from_usage_scope :: "texture_usage_scope \<Rightarrow> texture_tracker \<Rightarrow> texture_tracker option" where
  "tt_set_from_usage_scope scope t = do {
     let incoming_size = set_size_of (ts_set scope);
     let t1 = (if set_size_of (tt_start t) < incoming_size then tt_set_size incoming_size t else t);
     indices \<leftarrow> owned_indices (ts_metadata scope);
     fold_opt (\<lambda>index t.
       if tt_in_bounds t index \<and> ts_in_bounds scope index then do {
         tex \<leftarrow> get_resource_unchecked (ts_metadata scope) index;
         insert_or_barrier_update_texture (tr_full_range tex) index (TextureSet (ts_set scope)) None
           (IndirectMetadata (ts_metadata scope)) t }
       else None) indices t1 }"

definition tt_set_and_remove_from_usage_scope_sparse ::
  "texture_view_bind_group_state \<Rightarrow> texture_usage_scope \<times> texture_tracker
   \<Rightarrow> (texture_usage_scope \<times> texture_tracker) option" where
  "tt_set_and_remove_from_usage_scope_sparse bg st = do {
     let (scope, t) = st;
     let incoming_size = set_size_of (ts_set scope);
     let t1 = (if set_size_of (tt_start t) < incoming_size then tt_set_size incoming_size t else t);
     fold_opt (\<lambda>(view, _) (scope, t).
       let index = tr_index (tv_parent view) in
       if ts_in_bounds scope index then do {
         in_scope \<leftarrow> contains_unchecked (ts_metadata scope) index;
         if \<not> in_scope then Some (scope, t)
         else do {
           t' \<leftarrow> insert_or_barrier_update_texture (tr_full_range (tv_parent view)) index
                  (TextureSet (ts_set scope)) None (IndirectMetadata (ts_metadata scope)) t;
           md \<leftarrow> metadata_remove index (ts_metadata scope);
           Some (scope\<lparr>ts_metadata := md\<rparr>, t') } }
       else None) bg (scope, t1) }"

section \<open>Barriers\<close>

record 'i texture_barrier =
  tb_texture :: 'i
  tb_range :: image_subresource_range
  tb_from :: texture_uses
  tb_to :: texture_uses

text \<open>The subtractions are those of \<open>u32\<close>: a panic where they would be negative.\<close>

definition texture_into_hal :: "texture_transition \<Rightarrow> 'i \<Rightarrow> 'i texture_barrier option" where
  "texture_into_hal p tex =
     (if pt_from p = tx_unknown \<or> pt_to p = tx_unknown then None
      else do {
        mip_count \<leftarrow> checked_sub (rend (sel_mips (pt_selector p))) (rstart (sel_mips (pt_selector p)));
        layer_count \<leftarrow> checked_sub (rend (sel_layers (pt_selector p))) (rstart (sel_layers (pt_selector p)));
        if mip_count = 0 \<or> layer_count = 0 then None
        else Some \<lparr>tb_texture = tex,
                   tb_range = \<lparr>isr_aspect = AspectAll,
                     isr_base_mip_level = rstart (sel_mips (pt_selector p)),
                     isr_mip_level_count = Some mip_count,
                     isr_base_array_layer = rstart (sel_layers (pt_selector p)),
                     isr_array_layer_count = Some layer_count\<rparr>,
                   tb_from = pt_from p, tb_to = pt_to p\<rparr> })"

text \<open>The textures of \<open>CommandEncoder::drain_barriers\<close>; a destroyed texture is a panic.\<close>

definition drain_texture_barriers ::
  "(texture_ref \<Rightarrow> 'i option) \<Rightarrow> texture_tracker \<Rightarrow> ('i texture_barrier list \<times> texture_tracker) option" where
  "drain_texture_barriers inner t = do {
     ((transitions, textures), t') \<leftarrow> tt_drain_transitions inner t;
     bs \<leftarrow> those (map (\<lambda>(i, p). do {
            tex \<leftarrow> vec_get textures i;
            raw \<leftarrow> tex;
            texture_into_hal p raw }) (enumerate 0 transitions));
     Some (bs, t') }"

section \<open>The tracker of the device\<close>

record device_texture_tracker =
  dtt_current :: texture_state_set
  dtt_metadata :: "texture_ref resource_metadata"
  dtt_temp :: "texture_transition list"
  dtt_ordered :: texture_uses

definition new_device_texture_tracker :: "texture_uses \<Rightarrow> device_texture_tracker" where
  "new_device_texture_tracker ordered_uses_mask =
     \<lparr>dtt_current = new_state_set, dtt_metadata = new_metadata, dtt_temp = [], dtt_ordered = ordered_uses_mask\<rparr>"

definition dtt_in_bounds :: "device_texture_tracker \<Rightarrow> nat \<Rightarrow> bool" where
  "dtt_in_bounds d index \<longleftrightarrow> metadata_in_bounds (dtt_metadata d) index \<and> index < set_size_of (dtt_current d)"

definition dtt_allow_index :: "nat \<Rightarrow> device_texture_tracker \<Rightarrow> device_texture_tracker" where
  "dtt_allow_index index d =
     (if set_size_of (dtt_current d) \<le> index then
        d\<lparr>dtt_current := set_set_size (index + 1) (dtt_current d),
          dtt_metadata := metadata_set_size (index + 1) (dtt_metadata d)\<rparr>
      else d)"

definition dtt_used_resources :: "device_texture_tracker \<Rightarrow> texture_ref list option" where
  "dtt_used_resources d = owned_resources (dtt_metadata d)"

definition dtt_insert_single ::
  "texture_ref \<Rightarrow> texture_uses \<Rightarrow> device_texture_tracker \<Rightarrow> device_texture_tracker option" where
  "dtt_insert_single tex st d =
     (let d1 = dtt_allow_index (tr_index tex) d in
      if dtt_in_bounds d1 (tr_index tex) then do {
        (_, cur, md) \<leftarrow> insert_texture None None (dtt_current d1) (dtt_metadata d1) (tr_index tex)
                          (KnownSingle st) None (DirectResource tex);
        Some (d1\<lparr>dtt_current := cur, dtt_metadata := md\<rparr>) }
      else None)"

text \<open>The pair of calls to \<open>barrier\<close> and \<open>update\<close> that the operations of the device share.\<close>

definition dtt_barrier_update ::
  "texture_selector \<Rightarrow> nat \<Rightarrow> texture_state_provider \<Rightarrow> texture_state_provider
   \<Rightarrow> device_texture_tracker \<Rightarrow> device_texture_tracker option" where
  "dtt_barrier_update texture_selector index start_provider end_provider d = do {
     temp \<leftarrow> barrier_texture texture_selector (dtt_current d) index start_provider (dtt_temp d) (dtt_ordered d);
     (_, cur) \<leftarrow> update_texture texture_selector None (dtt_current d) index end_provider;
     Some (d\<lparr>dtt_temp := temp, dtt_current := cur\<rparr>) }"

definition dtt_set_single ::
  "texture_ref \<Rightarrow> texture_selector \<Rightarrow> texture_uses \<Rightarrow> device_texture_tracker
   \<Rightarrow> (texture_transition list \<times> device_texture_tracker) option" where
  "dtt_set_single tex selector new_state d =
     (let d1 = dtt_allow_index (tr_index tex) d in
      if dtt_in_bounds d1 (tr_index tex) then do {
        d2 \<leftarrow> dtt_barrier_update (tr_full_range tex) (tr_index tex) (Selector selector new_state)
                (Selector selector new_state) d1;
        Some (dtt_temp d2, d2\<lparr>dtt_temp := []\<rparr>) }
      else None)"

text \<open>\<open>try_raw\<close> is the argument \<open>raw\<close>; unwrapping it is a panic for a destroyed texture.\<close>

definition pending_textures_into_hal ::
  "(texture_ref \<Rightarrow> 'i option) \<Rightarrow> texture_ref resource_metadata \<Rightarrow> texture_transition list
   \<Rightarrow> 'i texture_barrier list option" where
  "pending_textures_into_hal raw md ps =
     those (map (\<lambda>p. do {
       tex \<leftarrow> get_resource_unchecked md (unat (pt_id p));
       tex \<leftarrow> raw tex;
       texture_into_hal p tex }) ps)"

definition dtt_set_from_tracker_and_drain_transitions ::
  "(texture_ref \<Rightarrow> 'i option) \<Rightarrow> texture_tracker \<Rightarrow> device_texture_tracker
   \<Rightarrow> ('i texture_barrier list \<times> device_texture_tracker) option" where
  "dtt_set_from_tracker_and_drain_transitions raw tracker d = do {
     indices \<leftarrow> owned_indices (tt_metadata tracker);
     d1 \<leftarrow> fold_opt (\<lambda>index d.
       if dtt_in_bounds d index then do {
         tex \<leftarrow> get_resource_unchecked (tt_metadata tracker) index;
         dtt_barrier_update (tr_full_range tex) index (TextureSet (tt_start tracker))
           (TextureSet (tt_end tracker)) d }
       else None) indices d;
     bs \<leftarrow> pending_textures_into_hal raw (tt_metadata tracker) (dtt_temp d1);
     Some (bs, d1\<lparr>dtt_temp := []\<rparr>) }"

definition dtt_set_from_usage_scope_and_drain_transitions ::
  "(texture_ref \<Rightarrow> 'i option) \<Rightarrow> texture_usage_scope \<Rightarrow> device_texture_tracker
   \<Rightarrow> ('i texture_barrier list \<times> device_texture_tracker) option" where
  "dtt_set_from_usage_scope_and_drain_transitions raw scope d = do {
     indices \<leftarrow> owned_indices (ts_metadata scope);
     d1 \<leftarrow> fold_opt (\<lambda>index d.
       if dtt_in_bounds d index then do {
         tex \<leftarrow> get_resource_unchecked (ts_metadata scope) index;
         dtt_barrier_update (tr_full_range tex) index (TextureSet (ts_set scope)) (TextureSet (ts_set scope)) d }
       else None) indices d;
     bs \<leftarrow> pending_textures_into_hal raw (ts_metadata scope) (dtt_temp d1);
     Some (bs, d1\<lparr>dtt_temp := []\<rparr>) }"

section \<open>Well-formed trackers\<close>

text \<open>The texture with a tracker index, where \<open>full\<close> tells its subresources.\<close>

definition tex_ref :: "(nat \<Rightarrow> texture_selector) \<Rightarrow> nat \<Rightarrow> texture_ref" where
  "tex_ref full i = \<lparr>tr_index = i, tr_full_range = full i\<rparr>"

lemma tex_ref_simps [simp]: "tr_index (tex_ref full i) = i" "tr_full_range (tex_ref full i) = full i"
  by (simp_all add: tex_ref_def)

definition tex_named :: "(nat \<Rightarrow> texture_selector) \<Rightarrow> texture_ref resource_metadata \<Rightarrow> bool" where
  "tex_named full md \<longleftrightarrow> (\<forall>i \<in> owns md. get_resource_unchecked md i = Some (tex_ref full i))"

definition ts_wf :: "(nat \<Rightarrow> texture_selector) \<Rightarrow> nat \<Rightarrow> texture_usage_scope \<Rightarrow> bool" where
  "ts_wf full n s \<longleftrightarrow> set_size_of (ts_set s) = n \<and> metadata_wf n (ts_metadata s)
     \<and> tex_named full (ts_metadata s) \<and> (\<forall>i \<in> owns (ts_metadata s). entry_ok (full i) (ts_set s) i)"

definition tt_wf :: "(nat \<Rightarrow> texture_selector) \<Rightarrow> nat \<Rightarrow> texture_tracker \<Rightarrow> bool" where
  "tt_wf full n t \<longleftrightarrow> set_size_of (tt_start t) = n \<and> set_size_of (tt_end t) = n
     \<and> metadata_wf n (tt_metadata t) \<and> tex_named full (tt_metadata t)
     \<and> (\<forall>i \<in> owns (tt_metadata t). entry_ok (full i) (tt_end t) i
          \<and> starts_agree (full i) i (Some (tt_start t)) (tt_end t))"

definition dtt_wf :: "(nat \<Rightarrow> texture_selector) \<Rightarrow> nat \<Rightarrow> device_texture_tracker \<Rightarrow> bool" where
  "dtt_wf full n d \<longleftrightarrow> set_size_of (dtt_current d) = n \<and> metadata_wf n (dtt_metadata d)
     \<and> (\<forall>i < n. entry_ok (full i) (dtt_current d) i \<and> starts_agree (full i) i None (dtt_current d))"

text \<open>What a scope and a tracker know of a subresource; \<open>tx_unknown\<close> where they know nothing.\<close>

definition scope_at :: "texture_usage_scope \<Rightarrow> nat \<Rightarrow> nat \<Rightarrow> u32 \<Rightarrow> texture_uses" where
  "scope_at s i m l = (if i \<in> owns (ts_metadata s) then state_at (ts_set s) i m l else tx_unknown)"

definition cell :: "texture_tracker \<Rightarrow> nat \<Rightarrow> nat \<Rightarrow> u32 \<Rightarrow> texture_uses \<times> texture_uses" where
  "cell t i m l = (if i \<in> owns (tt_metadata t) then (state_at (tt_end t) i m l, state_at (tt_start t) i m l)
     else (tx_unknown, tx_unknown))"

lemma cell_agree: "tt_wf full n t \<Longrightarrow> in_sel (full i) m l \<Longrightarrow>
    fst (cell t i m l) = tx_unknown \<longleftrightarrow> snd (cell t i m l) = tx_unknown"
  by (auto simp: cell_def tt_wf_def starts_agree_def)

lemma metadata_insert_tex:
  assumes "metadata_wf n md" "i < n" "tex_named full md"
  obtains md' where "metadata_insert i (tex_ref full i) md = Some md'" "metadata_wf n md'"
    "owns md' = insert i (owns md)" "tex_named full md'"
proof -
  from metadata_insert_eq [OF assms(1,2), of "tex_ref full i"] obtain md' where md':
    "metadata_insert i (tex_ref full i) md = Some md'" "metadata_wf n md'" "owns md' = insert i (owns md)" by blast
  have "resources md' = (resources md)[i := Some (tex_ref full i)]" "i < length (resources md)"
    "\<And>k. k \<in> owns md \<Longrightarrow> k < length (resources md)"
    using md'(1) assms(1,2) owns_less [OF assms(1)]
    by (auto simp: metadata_insert_def vec_set_def metadata_wf_def)
  then have "tex_named full md'"
    using assms(3) md'(3) by (auto simp: tex_named_def get_resource_unchecked_def vec_get_def nth_list_update)
  with md' that show thesis by blast
qed

lemma tex_named_set_size: "tex_named full md \<Longrightarrow> metadata_wf n md \<Longrightarrow> tex_named full (metadata_set_size m md)"
  by (auto simp: tex_named_def get_resource_unchecked_def vec_get_def owns_def metadata_wf_def
      metadata_set_size_def resize_bitvec_eq split: if_splits)

lemma tex_named_new: "tex_named full new_metadata"
  by (simp add: tex_named_def owns_new)

text \<open>Growing the vectors of a set changes no entry, and the new entries are uninitialised.\<close>

lemma set_grow:
  assumes "set_size_of s = n" "n \<le> k"
  shows "set_size_of (set_set_size k s) = k"
    "i < n \<Longrightarrow> entry_ok full (set_set_size k s) i = entry_ok full s i"
    "i < n \<Longrightarrow> state_at (set_set_size k s) i = state_at s i"
    "n \<le> i \<Longrightarrow> i < k \<Longrightarrow> state_at (set_set_size k s) i = (\<lambda>_ _. tx_uninitialized)"
    "n \<le> i \<Longrightarrow> i < k \<Longrightarrow> entry_ok full (set_set_size k s) i"
proof -
  have u: "tx_uninitialized \<noteq> tx_complex" "clean tx_uninitialized"
    by (simp_all add: clean_def tx_uninitialized_def tx_complex_def tx_unknown_def invalid_resource_state_def
        any_exclusive_def intersects_def tx_exclusive_def tx_copy_dst_def tx_color_target_def
        tx_depth_stencil_write_def tx_storage_write_only_def tx_storage_read_write_def
        tx_storage_atomic_def tx_present_def)
  note [simp] = set_set_size_def set_size_of_def
  show "set_size_of (set_set_size k s) = k" by simp
  show "i < n \<Longrightarrow> entry_ok full (set_set_size k s) i = entry_ok full s i"
    "i < n \<Longrightarrow> state_at (set_set_size k s) i = state_at s i"
    "n \<le> i \<Longrightarrow> i < k \<Longrightarrow> state_at (set_set_size k s) i = (\<lambda>_ _. tx_uninitialized)"
    "n \<le> i \<Longrightarrow> i < k \<Longrightarrow> entry_ok full (set_set_size k s) i"
    using assms u by (auto simp: entry_ok_def state_at_def fun_eq_iff)
qed

lemma starts_agree_cong:
  assumes "starts_agree full i (Some a) b" "entry_ok full a' i" "state_at a' i = state_at a i" "state_at b' i = state_at b i"
  shows "starts_agree full i (Some a') b'"
  using assms by (simp add: starts_agree_def)

lemma tt_grow:
  assumes "tt_wf full n t" "n \<le> k"
  shows "tt_wf full k (tt_set_size k t)" "cell (tt_set_size k t) = cell t"
    "tt_temp (tt_set_size k t) = tt_temp t" "tt_ordered (tt_set_size k t) = tt_ordered t"
    "owns (tt_metadata (tt_set_size k t)) = owns (tt_metadata t)"
proof -
  have len: "set_size_of (tt_start t) = n" "set_size_of (tt_end t) = n" "metadata_wf n (tt_metadata t)"
    and less: "\<And>i. i \<in> owns (tt_metadata t) \<Longrightarrow> i < n"
    using assms owns_less [of n "tt_metadata t"] by (auto simp: tt_wf_def)
  show o: "owns (tt_metadata (tt_set_size k t)) = owns (tt_metadata t)"
    using assms(2) less by (force simp: tt_set_size_def owns_set_size)
  note gs = set_grow [OF len(1) assms(2)] and ge = set_grow [OF len(2) assms(2)]
  have "entry_ok (full i) (set_set_size k (tt_end t)) i"
    "starts_agree (full i) i (Some (set_set_size k (tt_start t))) (set_set_size k (tt_end t))"
    if i: "i \<in> owns (tt_metadata t)" for i
  proof -
    have e: "entry_ok (full i) (tt_end t) i" "starts_agree (full i) i (Some (tt_start t)) (tt_end t)"
      using assms(1) i by (simp_all add: tt_wf_def)
    show "entry_ok (full i) (set_set_size k (tt_end t)) i" using e(1) ge(2) [OF less [OF i]] by simp
    show "starts_agree (full i) i (Some (set_set_size k (tt_start t))) (set_set_size k (tt_end t))"
      using e(2) gs(2,3) [OF less [OF i]] ge(3) [OF less [OF i]] by (simp add: starts_agree_def)
  qed
  then show "tt_wf full k (tt_set_size k t)"
    using assms(1) len gs(1) ge(1) o
    by (auto simp: tt_wf_def tt_set_size_def metadata_wf_set_size tex_named_set_size)
  show "cell (tt_set_size k t) = cell t"
    using o gs(3) ge(3) less by (auto simp: cell_def fun_eq_iff tt_set_size_def)
qed (simp_all add: tt_set_size_def)

lemma dtt_grow:
  assumes "dtt_wf full n d"
  shows "dtt_wf full (max n (i + 1)) (dtt_allow_index i d)"
proof -
  have len: "set_size_of (dtt_current d) = n" "metadata_wf n (dtt_metadata d)"
    and e: "\<And>i. i < n \<Longrightarrow> entry_ok (full i) (dtt_current d) i \<and> starts_agree (full i) i None (dtt_current d)"
    using assms by (auto simp: dtt_wf_def)
  show ?thesis
  proof (cases "n \<le> i")
    case True
    then have "n \<le> i + 1" by simp
    note g = set_grow [OF len(1) this]
    have "entry_ok (full j) (set_set_size (i + 1) (dtt_current d)) j
        \<and> starts_agree (full j) j None (set_set_size (i + 1) (dtt_current d))" if "j < i + 1" for j
    proof (cases "j < n")
      case True
      then show ?thesis using e [OF True] g(2,3) [OF True] by (simp add: starts_agree_def)
    next
      case False
      then have "n \<le> j" by simp
      then show ?thesis using g(4,5) [OF _ that]
        by (simp add: starts_agree_def tx_uninitialized_def tx_unknown_def)
    qed
    with True len g(1) show ?thesis
      by (simp add: dtt_wf_def dtt_allow_index_def metadata_wf_set_size max_def)
  next
    case False
    then have "max n (i + 1) = n" by simp
    with False assms len(1) show ?thesis by (simp add: dtt_allow_index_def)
  qed
qed

section \<open>One step on one texture\<close>

lemma untouched_other:
  assumes "untouched i s s'" "j \<noteq> i"
  shows "entry_ok full s' j = entry_ok full s j" "state_at s' j = state_at s j"
  using assms by (simp_all add: untouched_def entry_ok_def state_at_def fun_eq_iff)

lemma starts_still_agree:
  assumes "starts_agree full i start s" "starts_learned full i start start' (state_at s i) new"
    "\<And>m l. in_sel full m l \<Longrightarrow> state_at s' i m l = (if new m l = tx_unknown then state_at s i m l else new m l)"
  shows "starts_agree full i start' s'"
proof (cases start)
  case None
  with assms show ?thesis by (simp add: starts_agree_def starts_learned_def)
next
  case (Some ss)
  then obtain ss' where ss': "start' = Some ss'" "entry_ok full ss' i"
    "\<And>m l. in_sel full m l \<Longrightarrow>
       state_at ss' i m l = (if state_at s i m l = tx_unknown then new m l else state_at ss i m l)"
    using assms(2) by (auto simp: starts_learned_def)
  have "state_at ss i m l = tx_unknown \<longleftrightarrow> state_at s i m l = tx_unknown" if "in_sel full m l" for m l
    using assms(1) Some that by (simp add: starts_agree_def)
  then show ?thesis using ss' assms(3) by (simp add: starts_agree_def)
qed

text \<open>Using a texture that a command buffer tracks, or starts to track.\<close>

lemma tt_step:
  assumes full: "full_ok (full i)" and t: "tt_wf full n t" and i: "i < n"
    and p: "get_texture_state sp (Some (full i)) i = Some ns" "new_ok (full i) ns"
    and r: "provide_resource mp i = Some (tex_ref full i)"
  shows "\<exists>t' ps. insert_or_barrier_update_texture (full i) i sp None mp t = Some t' \<and> tt_wf full n t'
    \<and> tt_temp t' = tt_temp t @ ps \<and> (\<forall>p \<in> set ps. transition_ok i (full i) p)
    \<and> tt_ordered t' = tt_ordered t \<and> owns (tt_metadata t') = insert i (owns (tt_metadata t))
    \<and> (\<forall>m l. in_sel (full i) m l \<longrightarrow> cell t' i m l = cell_update (new_at ns m l) (cell t i m l)
          \<and> pairs_at ps m l = step_pairs (tt_ordered t) (fst (cell t i m l)) (new_at ns m l))
    \<and> (\<forall>j. j \<noteq> i \<longrightarrow> cell t' j = cell t j)"
proof -
  have len: "i < length (tss_simple (tt_start t))" "i < length (tss_simple (tt_end t))"
    "set_size_of (tt_start t) = n" "set_size_of (tt_end t) = n"
    and md: "metadata_wf n (tt_metadata t)" "tex_named full (tt_metadata t)"
    and ent: "\<And>j. j \<in> owns (tt_metadata t) \<Longrightarrow> entry_ok (full j) (tt_end t) j
          \<and> starts_agree (full j) j (Some (tt_start t)) (tt_end t)"
    using t i by (auto simp: tt_wf_def set_size_of_def)
  note owned = contains_unchecked_eq [OF md(1) i]
  show ?thesis
  proof (cases "i \<in> owns (tt_metadata t)")
    case True
    note e = ent [OF True]
    obtain ps where ps: "barrier_texture (full i) (tt_end t) i sp (tt_temp t) (tt_ordered t) = Some (tt_temp t @ ps)"
      "\<forall>p \<in> set ps. transition_ok i (full i) p"
      "\<And>m l. in_sel (full i) m l \<Longrightarrow> pairs_at ps m l = step_pairs (tt_ordered t) (state_at (tt_end t) i m l) (new_at ns m l)"
      by (rule barrier_texture_spec [OF full _ p, of "tt_end t" "tt_temp t" "tt_ordered t"])
        (use e in simp, rule that, assumption, assumption, blast)
    from update_texture_spec [OF full _ p, of "tt_end t" "Some (tt_start t)"] e obtain start' s' where u:
      "update_texture (full i) (Some (tt_start t)) (tt_end t) i sp = Some (start', s')"
      "entry_ok (full i) s' i" "untouched i (tt_end t) s'"
      "\<And>m l. in_sel (full i) m l \<Longrightarrow>
          state_at s' i m l = (if new_at ns m l = tx_unknown then state_at (tt_end t) i m l else new_at ns m l)"
      "starts_learned (full i) i (Some (tt_start t)) start' (state_at (tt_end t) i) (new_at ns)" by blast
    then obtain ss where ss: "start' = Some ss" "entry_ok (full i) ss i" "untouched i (tt_start t) ss"
      "\<And>m l. in_sel (full i) m l \<Longrightarrow> state_at ss i m l
         = (if state_at (tt_end t) i m l = tx_unknown then new_at ns m l else state_at (tt_start t) i m l)"
      by (auto simp: starts_learned_def)
    let ?t = "t\<lparr>tt_temp := tt_temp t @ ps, tt_start := ss, tt_end := s'\<rparr>"
    have run: "insert_or_barrier_update_texture (full i) i sp None mp t = Some ?t"
      using True by (simp add: insert_or_barrier_update_texture_def owned ps(1) u(1) ss(1))
    have agree: "starts_agree (full i) i (Some ss) s'"
      by (rule starts_still_agree [OF _ u(5) [unfolded ss(1)] u(4)]) (use e in blast)
    have "entry_ok (full j) s' j \<and> starts_agree (full j) j (Some ss) s'" if j: "j \<in> owns (tt_metadata t)" for j
    proof (cases "j = i")
      case True
      then show ?thesis using agree u(2) by simp
    next
      case False
      then show ?thesis using ent [OF j] untouched_other [OF u(3) False] untouched_other [OF ss(3) False]
        by (simp add: starts_agree_def)
    qed
    then have "tt_wf full n ?t"
      using t u(3) ss(3) by (simp add: tt_wf_def untouched_def set_size_of_def)
    moreover have "cell ?t i m l = cell_update (new_at ns m l) (cell t i m l)" if "in_sel (full i) m l" for m l
    proof -
      have "state_at (tt_start t) i m l = tx_unknown \<longleftrightarrow> state_at (tt_end t) i m l = tx_unknown"
        using e that by (simp add: starts_agree_def)
      then show ?thesis using True u(4) [OF that] ss(4) [OF that] by (auto simp: cell_def cell_update_def)
    qed
    moreover have "pairs_at ps m l = step_pairs (tt_ordered t) (fst (cell t i m l)) (new_at ns m l)"
      if "in_sel (full i) m l" for m l using ps(3) [OF that] True by (simp add: cell_def)
    moreover have "cell ?t j = cell t j" if "j \<noteq> i" for j
      using that u(3) ss(3) by (simp add: cell_def state_at_def untouched_def fun_eq_iff)
    ultimately show ?thesis using run ps(2) True by (intro exI [of _ ?t] exI [of _ ps]) auto
  next
    case False
    obtain ss where ss: "insert_one i (Some (full i)) ns (tt_start t) = Some ss" "entry_ok (full i) ss i"
      "\<And>m l. in_sel (full i) m l \<Longrightarrow> state_at ss i m l = new_at ns m l" "untouched i (tt_start t) ss"
      using insert_one_spec [OF full p(2) len(1)] by (auto simp: untouched_def)
    obtain se where se: "insert_one i (Some (full i)) ns (tt_end t) = Some se" "entry_ok (full i) se i"
      "\<And>m l. in_sel (full i) m l \<Longrightarrow> state_at se i m l = new_at ns m l" "untouched i (tt_end t) se"
      using insert_one_spec [OF full p(2) len(2)] by (auto simp: untouched_def)
    obtain md' where md': "metadata_insert i (tex_ref full i) (tt_metadata t) = Some md'" "metadata_wf n md'"
      "owns md' = insert i (owns (tt_metadata t))" "tex_named full md'"
      using metadata_insert_tex [OF md(1) i md(2)] by blast
    let ?t = "t\<lparr>tt_start := ss, tt_end := se, tt_metadata := md'\<rparr>"
    have run: "insert_or_barrier_update_texture (full i) i sp None mp t = Some ?t"
      using False by (simp add: insert_or_barrier_update_texture_def owned insert_texture_def p(1) ss(1) se(1) r md'(1))
    have "entry_ok (full j) se j \<and> starts_agree (full j) j (Some ss) se" if j: "j \<in> owns md'" for j
    proof (cases "j = i")
      case True
      then show ?thesis using ss(2,3) se(2,3) by (simp add: starts_agree_def)
    next
      case False
      with j md'(3) have "j \<in> owns (tt_metadata t)" by simp
      then show ?thesis using ent [of j] untouched_other [OF se(4) False] untouched_other [OF ss(4) False]
        by (simp add: starts_agree_def)
    qed
    then have "tt_wf full n ?t"
      using t se(4) ss(4) md'(2,4) by (simp add: tt_wf_def untouched_def set_size_of_def)
    moreover have "cell ?t i m l = cell_update (new_at ns m l) (cell t i m l)" if "in_sel (full i) m l" for m l
      using False ss(3) [OF that] se(3) [OF that] md'(3) by (simp add: cell_def cell_update_def)
    moreover have "step_pairs (tt_ordered t) (fst (cell t i m l)) (new_at ns m l) = []" for m l
      using False by (simp add: cell_def step_pairs_def)
    moreover have "cell ?t j = cell t j" if "j \<noteq> i" for j
      using that se(4) ss(4) md'(3) by (simp add: cell_def state_at_def untouched_def fun_eq_iff)
    ultimately show ?thesis using run md'(3) by (intro exI [of _ ?t] exI [of _ "[]"]) auto
  qed
qed

text \<open>The same on the device, with the state of the texture before and after.\<close>

lemma dtt_step:
  assumes full: "full_ok (full i)" and d: "dtt_wf full n d" and i: "i < n"
    and p: "get_texture_state sp (Some (full i)) i = Some ns" "new_ok (full i) ns"
    and q: "get_texture_state ep (Some (full i)) i = Some ns'" "new_ok (full i) ns'"
  shows "\<exists>d' ps. dtt_barrier_update (full i) i sp ep d = Some d' \<and> dtt_wf full n d'
    \<and> dtt_temp d' = dtt_temp d @ ps \<and> (\<forall>p \<in> set ps. transition_ok i (full i) p)
    \<and> dtt_ordered d' = dtt_ordered d
    \<and> (\<forall>m l. in_sel (full i) m l \<longrightarrow>
          state_at (dtt_current d') i m l
            = (if new_at ns' m l = tx_unknown then state_at (dtt_current d) i m l else new_at ns' m l)
          \<and> pairs_at ps m l = step_pairs (dtt_ordered d) (state_at (dtt_current d) i m l) (new_at ns m l))
    \<and> (\<forall>j. j \<noteq> i \<longrightarrow> state_at (dtt_current d') j = state_at (dtt_current d) j)"
proof -
  have e: "entry_ok (full i) (dtt_current d) i" "starts_agree (full i) i None (dtt_current d)"
    using d i by (simp_all add: dtt_wf_def)
  obtain ps where ps: "barrier_texture (full i) (dtt_current d) i sp (dtt_temp d) (dtt_ordered d) = Some (dtt_temp d @ ps)"
    "\<forall>p \<in> set ps. transition_ok i (full i) p"
    "\<And>m l. in_sel (full i) m l \<Longrightarrow> pairs_at ps m l = step_pairs (dtt_ordered d) (state_at (dtt_current d) i m l) (new_at ns m l)"
    by (rule barrier_texture_spec [OF full e(1) p, of "dtt_temp d" "dtt_ordered d"])
      (rule that, assumption, assumption, blast)
  from update_texture_spec [OF full e(1) q e(2)] obtain start' s' where u:
    "update_texture (full i) None (dtt_current d) i ep = Some (start', s')"
    "entry_ok (full i) s' i" "untouched i (dtt_current d) s'"
    "\<And>m l. in_sel (full i) m l \<Longrightarrow>
        state_at s' i m l = (if new_at ns' m l = tx_unknown then state_at (dtt_current d) i m l else new_at ns' m l)"
    "starts_learned (full i) i None start' (state_at (dtt_current d) i) (new_at ns')" by blast
  have "start' = None" using u(5) by (simp add: starts_learned_def)
  then have agree: "starts_agree (full i) i None s'"
    using starts_still_agree [OF e(2) u(5) u(4)] by simp
  let ?d = "d\<lparr>dtt_temp := dtt_temp d @ ps, dtt_current := s'\<rparr>"
  have "entry_ok (full j) s' j \<and> starts_agree (full j) j None s'" if j: "j < n" for j
  proof (cases "j = i")
    case True
    then show ?thesis using agree u(2) by simp
  next
    case False
    have "entry_ok (full j) (dtt_current d) j \<and> starts_agree (full j) j None (dtt_current d)"
      using d j by (simp add: dtt_wf_def)
    then show ?thesis using untouched_other [OF u(3) False] by (simp add: starts_agree_def)
  qed
  then have "dtt_wf full n ?d" using d u(3) by (simp add: dtt_wf_def untouched_def set_size_of_def)
  moreover have "dtt_barrier_update (full i) i sp ep d = Some ?d"
    by (simp add: dtt_barrier_update_def ps(1) u(1))
  moreover have "state_at (dtt_current ?d) j = state_at (dtt_current d) j" if "j \<noteq> i" for j
    using that u(3) by (simp add: state_at_def untouched_def fun_eq_iff)
  ultimately show ?thesis using ps(2,3) u(4) by (intro exI [of _ ?d] exI [of _ ps]) auto
qed

section \<open>Barriers of a backend\<close>

definition hal_of :: "texture_transition \<Rightarrow> nat texture_barrier" where
  "hal_of p = \<lparr>tb_texture = unat (pt_id p),
     tb_range = \<lparr>isr_aspect = AspectAll,
       isr_base_mip_level = rstart (sel_mips (pt_selector p)),
       isr_mip_level_count = Some (rend (sel_mips (pt_selector p)) - rstart (sel_mips (pt_selector p))),
       isr_base_array_layer = rstart (sel_layers (pt_selector p)),
       isr_array_layer_count = Some (rend (sel_layers (pt_selector p)) - rstart (sel_layers (pt_selector p)))\<rparr>,
     tb_from = pt_from p, tb_to = pt_to p\<rparr>"

text \<open>The subresources of a barrier, and the barriers of one subresource as pairs of usages.\<close>

definition counted :: "u32 \<Rightarrow> u32 option \<Rightarrow> nat \<Rightarrow> bool" where
  "counted base count x \<longleftrightarrow> (case count of None \<Rightarrow> unat base \<le> x | Some c \<Rightarrow> unat base \<le> x \<and> x < unat base + unat c)"

definition in_barrier :: "'i texture_barrier \<Rightarrow> nat \<Rightarrow> u32 \<Rightarrow> bool" where
  "in_barrier b m l \<longleftrightarrow>
     counted (isr_base_mip_level (tb_range b)) (isr_mip_level_count (tb_range b)) m
     \<and> counted (isr_base_array_layer (tb_range b)) (isr_array_layer_count (tb_range b)) (unat l)"

definition barriers_at :: "nat texture_barrier list \<Rightarrow> nat \<Rightarrow> nat \<Rightarrow> u32 \<Rightarrow> (texture_uses \<times> texture_uses) list" where
  "barriers_at bs i m l = map (\<lambda>b. (tb_from b, tb_to b)) (filter (\<lambda>b. tb_texture b = i \<and> in_barrier b m l) bs)"

lemma barriers_at_simps [simp]:
  "barriers_at (xs @ ys) i m l = barriers_at xs i m l @ barriers_at ys i m l" "barriers_at [] i m l = []"
  by (simp_all add: barriers_at_def)

lemma ok_range: "transition_ok i full p \<Longrightarrow>
    rstart (sel_mips (pt_selector p)) < rend (sel_mips (pt_selector p))
    \<and> rstart (sel_layers (pt_selector p)) < rend (sel_layers (pt_selector p))"
  by (simp add: transition_ok_def sel_within_def sel_nonempty_def)

lemma counted_range: "a < b \<Longrightarrow> counted a (Some (b - a)) x \<longleftrightarrow> unat a \<le> x \<and> x < unat b" for a b :: u32
  by (auto simp: counted_def unat_sub_if' word_less_nat_alt word_le_nat_alt)

lemma in_barrier_hal: "transition_ok i full p \<Longrightarrow> in_barrier (hal_of p) m l \<longleftrightarrow> in_sel (pt_selector p) m l"
  using ok_range [of i full p] counted_range
  by (simp add: in_barrier_def hal_of_def in_sel_def word_less_nat_alt word_le_nat_alt)

lemma texture_into_hal_ok:
  assumes "transition_ok i full p" "i < 2 ^ 32"
  shows "texture_into_hal p i = Some (hal_of p)"
proof -
  have "b - a \<noteq> 0" if "a < b" for a b :: u32 using that by auto
  moreover have "checked_sub b a = Some (b - a)" if "a < b" for a b :: u32
    using that by (simp add: checked_sub_def less_imp_le)
  moreover have "unat (pt_id p) = i" "pt_from p \<noteq> tx_unknown" "pt_to p \<noteq> tx_unknown"
    using assms by (simp_all add: transition_ok_def unat_of_nat)
  ultimately show ?thesis using ok_range [OF assms(1)] by (simp add: texture_into_hal_def hal_of_def)
qed

lemma barriers_at_same:
  assumes "\<forall>p \<in> set ps. transition_ok i full p" "i < 2 ^ 32"
  shows "barriers_at (map hal_of ps) i m l = pairs_at ps m l"
    "j \<noteq> i \<Longrightarrow> barriers_at (map hal_of ps) j m l = []"
proof -
  have "tb_texture (hal_of p) = i" if "p \<in> set ps" for p
    using assms that by (auto simp: transition_ok_def hal_of_def unat_of_nat)
  then have "barriers_at (map hal_of ps) i m l
      = map (\<lambda>p. (tb_from (hal_of p), tb_to (hal_of p))) (filter (\<lambda>p. in_barrier (hal_of p) m l) ps)"
    and *: "j \<noteq> i \<Longrightarrow> barriers_at (map hal_of ps) j m l = []"
    by (auto simp: barriers_at_def filter_map comp_def filter_empty_conv cong: filter_cong)
  moreover have "filter (\<lambda>p. in_barrier (hal_of p) m l) ps = filter (\<lambda>p. in_sel (pt_selector p) m l) ps"
    using assms(1) in_barrier_hal by (intro filter_cong) auto
  ultimately show "barriers_at (map hal_of ps) i m l = pairs_at ps m l"
    by (simp add: pairs_at_def hal_of_def)
  show "j \<noteq> i \<Longrightarrow> barriers_at (map hal_of ps) j m l = []" by (rule *)
qed

lemma pending_into_hal_ok:
  assumes "\<forall>p \<in> set ps. \<exists>i < 2 ^ 32. transition_ok i (full i) p \<and> i \<in> owns md \<and> raw (tex_ref full i) = Some i"
    and "tex_named full md"
  shows "pending_textures_into_hal raw md ps = Some (map hal_of ps)"
  using assms(1)
proof (induction ps)
  case (Cons p ps)
  then obtain i where i: "i < 2 ^ 32" "transition_ok i (full i) p" "i \<in> owns md" "raw (tex_ref full i) = Some i"
    by auto
  then have "unat (pt_id p) = i" by (simp add: transition_ok_def unat_of_nat)
  moreover have "get_resource_unchecked md i = Some (tex_ref full i)"
    using assms(2) i(3) by (simp add: tex_named_def)
  ultimately show ?case using Cons texture_into_hal_ok [OF i(2,1)] i(4)
    by (simp add: pending_textures_into_hal_def)
qed (simp add: pending_textures_into_hal_def)

text \<open>Both ways of turning the pending transitions of a command buffer into barriers agree.\<close>

lemma drain_textures_ok:
  assumes "pending_textures_into_hal raw (tt_metadata t) (tt_temp t) = Some bs"
  shows "drain_texture_barriers raw t = Some (bs, t\<lparr>tt_temp := []\<rparr>)"
proof -
  have all: "those (map f ps) = Some ys \<Longrightarrow> length ys = length ps \<and> (\<forall>k < length ps. f (ps ! k) = Some (ys ! k))"
    for f :: "'x \<Rightarrow> 'y option" and ps ys
    by (induction ps arbitrary: ys) (auto split: option.splits simp: nth_Cons split: nat.splits)
  have those_all: "\<forall>x \<in> set xs. f x = Some (g x) \<Longrightarrow> those (map f xs) = Some (map g xs)"
    for f :: "'x \<Rightarrow> 'y option" and g xs
    by (induction xs) auto
  let ?get = "\<lambda>p. get_resource_unchecked (tt_metadata t) (unat (pt_id p))"
  note k = all [OF assms [unfolded pending_textures_into_hal_def], THEN conjunct2, rule_format]
  have g: "\<forall>p \<in> set (tt_temp t). ?get p = Some (the (?get p))"
    using k by (force simp: in_set_conv_nth bind_eq_Some_conv)
  have each: "(do { tex \<leftarrow> vec_get (map raw (map (\<lambda>p. the (?get p)) (tt_temp t))) j;
        raw \<leftarrow> tex; texture_into_hal (tt_temp t ! j) raw }) = Some (bs ! j)" if "j < length (tt_temp t)" for j
    using k [OF that] that by (auto simp: vec_get_def bind_eq_Some_conv)
  have len: "length bs = length (tt_temp t)"
    using all [OF assms [unfolded pending_textures_into_hal_def]] by simp
  have "those (map (\<lambda>(j, p). do { tex \<leftarrow> vec_get (map raw (map (\<lambda>p. the (?get p)) (tt_temp t))) j;
        raw \<leftarrow> tex; texture_into_hal p raw }) (enumerate 0 (tt_temp t)))
     = Some (map (\<lambda>(j, p). bs ! j) (enumerate 0 (tt_temp t)))"
    by (rule those_all) (use each in \<open>auto simp: in_set_enumerate_eq\<close>)
  also have "map (\<lambda>(j, p). bs ! j) (enumerate 0 (tt_temp t)) = bs"
    by (rule nth_equalityI) (simp_all add: len nth_enumerate_eq)
  finally have run: "those (map (\<lambda>(j, p). do { tex \<leftarrow> vec_get (map raw (map (\<lambda>p. the (?get p)) (tt_temp t))) j;
        raw \<leftarrow> tex; texture_into_hal p raw }) (enumerate 0 (tt_temp t))) = Some bs" .
  show ?thesis
    unfolding drain_texture_barriers_def tt_drain_transitions_def those_all [OF g]
    by (simp only: option.map Option.bind.simps prod.case run)
qed

section \<open>A command buffer and its submission\<close>

text \<open>
  The uses of textures in a command buffer, in order: single ones, as the transfer commands make
  them, and the usage scopes of passes. After each the encoder issues the barriers it is given.
\<close>

datatype texture_event = UseTexture texture_ref texture_selector texture_uses | UseTextures texture_usage_scope

definition event_at :: "texture_event \<Rightarrow> nat \<Rightarrow> nat \<Rightarrow> u32 \<Rightarrow> texture_uses" where
  "event_at ev i m l =
     (case ev of
        UseTexture tex sel st \<Rightarrow> if i = tr_index tex \<and> in_sel sel m l then st else tx_unknown
      | UseTextures s \<Rightarrow> scope_at s i m l)"

definition raw_unless :: "(nat \<Rightarrow> bool) \<Rightarrow> texture_ref \<Rightarrow> nat option" where
  "raw_unless destroyed tex = (if destroyed (tr_index tex) then None else Some (tr_index tex))"

fun record_texture_event ::
  "(nat \<Rightarrow> bool) \<Rightarrow> texture_event \<Rightarrow> texture_tracker \<times> nat texture_barrier list
   \<Rightarrow> (texture_tracker \<times> nat texture_barrier list) option" where
  "record_texture_event destroyed (UseTexture tex sel st) (t, bs) = do {
     raw \<leftarrow> raw_unless destroyed tex;
     (ps, t') \<leftarrow> tt_set_single tex sel st t;
     xs \<leftarrow> those (map (\<lambda>p. texture_into_hal p raw) ps);
     Some (t', bs @ xs) }"
| "record_texture_event destroyed (UseTextures s) (t, bs) = do {
     t' \<leftarrow> tt_set_from_usage_scope s t;
     (xs, t'') \<leftarrow> drain_texture_barriers (raw_unless destroyed) t';
     Some (t'', bs @ xs) }"

text \<open>The same uses on the device, one by one.\<close>

fun direct_texture_event ::
  "(nat \<Rightarrow> bool) \<Rightarrow> texture_event \<Rightarrow> device_texture_tracker \<times> nat texture_barrier list
   \<Rightarrow> (device_texture_tracker \<times> nat texture_barrier list) option" where
  "direct_texture_event destroyed (UseTexture tex sel st) (d, bs) = do {
     raw \<leftarrow> raw_unless destroyed tex;
     (ps, d') \<leftarrow> dtt_set_single tex sel st d;
     xs \<leftarrow> those (map (\<lambda>p. texture_into_hal p raw) ps);
     Some (d', bs @ xs) }"
| "direct_texture_event destroyed (UseTextures s) (d, bs) = do {
     (xs, d') \<leftarrow> dtt_set_from_usage_scope_and_drain_transitions (raw_unless destroyed) s d;
     Some (d', bs @ xs) }"

definition good_texture_event ::
  "(nat \<Rightarrow> texture_selector) \<Rightarrow> nat \<Rightarrow> (nat \<Rightarrow> bool) \<Rightarrow> texture_event \<Rightarrow> bool" where
  "good_texture_event full n destroyed ev \<longleftrightarrow>
     (case ev of
        UseTexture tex sel st \<Rightarrow> \<exists>i < n. tex = tex_ref full i \<and> \<not> destroyed i \<and> sel_within (full i) sel \<and> clean st
      | UseTextures s \<Rightarrow> (\<exists>k. ts_wf full k s) \<and> (\<forall>i \<in> owns (ts_metadata s). i < n \<and> \<not> destroyed i))"

lemma into_hal_all:
  assumes "\<forall>p \<in> set ps. transition_ok i full p" "i < 2 ^ 32"
  shows "those (map (\<lambda>p. texture_into_hal p i) ps) = Some (map hal_of ps)"
  using assms(1)
proof (induction ps)
  case (Cons p ps)
  then show ?case using texture_into_hal_ok [of i full p] assms(2) by simp
qed simp

lemma cell_update_unknown [simp]: "cell_update tx_unknown c = c"
  by (simp add: cell_update_def)

lemma step_pairs_unknown [simp]: "step_pairs om c tx_unknown = []" "step_pairs om tx_unknown c = []"
  by (simp_all add: step_pairs_def)

lemma in_bounds_simps:
  "tt_wf full n t \<Longrightarrow> tt_in_bounds t i \<longleftrightarrow> i < n"
  "ts_wf full n s \<Longrightarrow> ts_in_bounds s i \<longleftrightarrow> i < n"
  "dtt_wf full n d \<Longrightarrow> dtt_in_bounds d i \<longleftrightarrow> i < n"
  by (auto simp: tt_in_bounds_def tt_wf_def ts_in_bounds_def ts_wf_def dtt_in_bounds_def dtt_wf_def
      metadata_in_bounds)

text \<open>Recording one event: what every subresource knows afterwards, and its barriers.\<close>

definition recorded_as ::
  "(nat \<Rightarrow> texture_selector) \<Rightarrow> texture_tracker \<Rightarrow> (nat \<Rightarrow> nat \<Rightarrow> u32 \<Rightarrow> texture_uses) \<Rightarrow> texture_tracker
   \<Rightarrow> nat texture_barrier list \<Rightarrow> bool" where
  "recorded_as full t use t' xs \<longleftrightarrow>
     (\<forall>i m l. in_sel (full i) m l \<longrightarrow> cell t' i m l = cell_update (use i m l) (cell t i m l)
        \<and> barriers_at xs i m l = step_pairs (tt_ordered t) (fst (cell t i m l)) (use i m l))"

lemma record_texture_single:
  assumes full: "\<forall>i < N. full_ok (full i)" and t: "tt_wf full n t" "tt_temp t = []" "owns (tt_metadata t) \<subseteq> {i. i < N \<and> \<not> destroyed i}"
    and ev: "good_texture_event full N destroyed (UseTexture tex sel st)" and N: "N \<le> 2 ^ 32"
  shows "\<exists>t' k xs. record_texture_event destroyed (UseTexture tex sel st) (t, bs) = Some (t', bs @ xs)
    \<and> tt_wf full k t' \<and> tt_temp t' = [] \<and> owns (tt_metadata t') \<subseteq> {i. i < N \<and> \<not> destroyed i} \<and> tt_ordered t' = tt_ordered t
    \<and> recorded_as full t (event_at (UseTexture tex sel st)) t' xs"
proof -
  from ev obtain i where i: "i < N" "tex = tex_ref full i" "\<not> destroyed i" "sel_within (full i) sel" "clean st"
    by (auto simp: good_texture_event_def)
  then have f: "full_ok (full i)" and i32: "i < 2 ^ 32" using full N by auto
  let ?t = "tt_allow_index i t"
  obtain k where k: "tt_wf full k ?t" "i < k" "cell ?t = cell t" "tt_temp ?t = []" "tt_ordered ?t = tt_ordered t"
    "owns (tt_metadata ?t) = owns (tt_metadata t)"
  proof (cases "n \<le> i")
    case True
    have "set_size_of (tt_start t) = n" using t(1) by (simp add: tt_wf_def)
    with True t(2) tt_grow [OF t(1), of "i + 1"] show thesis by (intro that [of "i + 1"]) (auto simp: tt_allow_index_def)
  next
    case False
    then show thesis using t by (intro that [of n]) (auto simp: tt_allow_index_def tt_wf_def)
  qed
  obtain ns where ns: "get_texture_state (Selector sel st) (Some (full i)) i = Some ns" "new_ok (full i) ns"
    "\<And>m l. in_sel (full i) m l \<Longrightarrow> new_at ns m l = (if in_sel sel m l then st else tx_unknown)"
    using get_selector [OF f i(4,5)] by blast
  obtain t' ps where t': "insert_or_barrier_update_texture (full i) i (Selector sel st) None (DirectResource tex) ?t = Some t'"
    "tt_wf full k t'" "tt_temp t' = ps" "\<forall>p \<in> set ps. transition_ok i (full i) p" "tt_ordered t' = tt_ordered t"
    "owns (tt_metadata t') = insert i (owns (tt_metadata t))"
    "\<And>m l. in_sel (full i) m l \<Longrightarrow> cell t' i m l = cell_update (new_at ns m l) (cell t i m l)
          \<and> pairs_at ps m l = step_pairs (tt_ordered t) (fst (cell t i m l)) (new_at ns m l)"
    "\<And>j. j \<noteq> i \<Longrightarrow> cell t' j = cell t j"
    using tt_step [OF f k(1,2) ns(1,2), of "DirectResource tex"] i(2) unfolding k(3-6)
    by (auto simp: provide_resource_def)
  let ?t' = "t'\<lparr>tt_temp := []\<rparr>"
  have "tt_set_single tex sel st t = Some (ps, ?t')"
    using t'(1,3) k(1,2) i(2) by (simp add: tt_set_single_def in_bounds_simps Let_def)
  then have run: "record_texture_event destroyed (UseTexture tex sel st) (t, bs) = Some (?t', bs @ map hal_of ps)"
    using i(2,3) into_hal_all [OF t'(4) i32] by (simp add: raw_unless_def)
  have keep: "cell ?t' = cell t'" "tt_wf full k ?t'" using t'(2) by (simp_all add: cell_def fun_eq_iff tt_wf_def)
  have "recorded_as full t (event_at (UseTexture tex sel st)) ?t' (map hal_of ps)"
    unfolding recorded_as_def keep
  proof (intro allI impI)
    fix j m l assume "in_sel (full j) m l"
    then show "cell t' j m l = cell_update (event_at (UseTexture tex sel st) j m l) (cell t j m l)
        \<and> barriers_at (map hal_of ps) j m l
          = step_pairs (tt_ordered t) (fst (cell t j m l)) (event_at (UseTexture tex sel st) j m l)"
      using t'(7) [of m l] t'(8) [of j] ns(3) [of m l] i(2) barriers_at_same [OF t'(4) i32]
      by (cases "j = i") (simp_all add: event_at_def)
  qed
  then show ?thesis using run keep(2) t'(5,6) t(3) i(1,3)
    by (intro exI [of _ ?t'] exI [of _ k] exI [of _ "map hal_of ps"]) (simp del: record_texture_event.simps)
qed

text \<open>A loop over textures, in a command buffer and on the device.\<close>

definition provides ::
  "texture_selector \<Rightarrow> nat \<Rightarrow> texture_state_provider \<Rightarrow> (nat \<Rightarrow> u32 \<Rightarrow> texture_uses) \<Rightarrow> bool" where
  "provides full i sp use \<longleftrightarrow> (\<exists>ns. get_texture_state sp (Some full) i = Some ns \<and> new_ok full ns
     \<and> (\<forall>m l. in_sel full m l \<longrightarrow> new_at ns m l = use m l))"

lemma tt_loop:
  assumes "\<forall>i \<in> set is. i < n \<and> i < 2 ^ 32 \<and> full_ok (full i) \<and> provides (full i) i sp (use i)
      \<and> provide_resource mp i = Some (tex_ref full i)"
    and f: "\<And>i t. i \<in> set is \<Longrightarrow> tt_wf full n t \<Longrightarrow> f i t = insert_or_barrier_update_texture (full i) i sp None mp t"
    and "distinct is" "tt_wf full n t"
  shows "\<exists>t' ps. fold_opt f is t = Some t' \<and> tt_wf full n t' \<and> tt_temp t' = tt_temp t @ ps
    \<and> tt_ordered t' = tt_ordered t \<and> owns (tt_metadata t') = set is \<union> owns (tt_metadata t)
    \<and> (\<forall>p \<in> set ps. \<exists>i \<in> set is. transition_ok i (full i) p)
    \<and> recorded_as full t (\<lambda>i m l. if i \<in> set is then use i m l else tx_unknown) t' (map hal_of ps)"
  using assms
proof (induction "is" arbitrary: t)
  case Nil
  then show ?case by (auto simp: recorded_as_def)
next
  case (Cons i "is")
  from Cons.prems(1) obtain ns where i: "i < n" "i < 2 ^ 32" "full_ok (full i)"
    "get_texture_state sp (Some (full i)) i = Some ns" "new_ok (full i) ns"
    "\<And>m l. in_sel (full i) m l \<Longrightarrow> new_at ns m l = use i m l"
    "provide_resource mp i = Some (tex_ref full i)"
    by (auto simp: provides_def)
  have run: "f i t = insert_or_barrier_update_texture (full i) i sp None mp t"
    using Cons.prems(2,4) by simp
  from tt_step [OF i(3) Cons.prems(4) i(1,4,5,7)] obtain t1 ps1 where t1: "f i t = Some t1" "tt_wf full n t1"
    "tt_temp t1 = tt_temp t @ ps1" "\<forall>p \<in> set ps1. transition_ok i (full i) p"
    "tt_ordered t1 = tt_ordered t" "owns (tt_metadata t1) = insert i (owns (tt_metadata t))"
    "\<And>m l. in_sel (full i) m l \<Longrightarrow> cell t1 i m l = cell_update (use i m l) (cell t i m l)
          \<and> pairs_at ps1 m l = step_pairs (tt_ordered t) (fst (cell t i m l)) (use i m l)"
    "\<And>j. j \<noteq> i \<Longrightarrow> cell t1 j = cell t j"
    using i(6) unfolding run [symmetric] by auto
  have "\<exists>t' ps. fold_opt f is t1 = Some t' \<and> tt_wf full n t' \<and> tt_temp t' = tt_temp t1 @ ps
    \<and> tt_ordered t' = tt_ordered t1 \<and> owns (tt_metadata t') = set is \<union> owns (tt_metadata t1)
    \<and> (\<forall>p \<in> set ps. \<exists>i \<in> set is. transition_ok i (full i) p)
    \<and> recorded_as full t1 (\<lambda>i m l. if i \<in> set is then use i m l else tx_unknown) t' (map hal_of ps)"
    using Cons.prems t1(2) by (intro Cons.IH) simp_all
  then obtain t' ps where t': "fold_opt f is t1 = Some t'" "tt_wf full n t'" "tt_temp t' = tt_temp t1 @ ps"
    "tt_ordered t' = tt_ordered t1" "owns (tt_metadata t') = set is \<union> owns (tt_metadata t1)"
    "\<forall>p \<in> set ps. \<exists>i \<in> set is. transition_ok i (full i) p"
    "recorded_as full t1 (\<lambda>i m l. if i \<in> set is then use i m l else tx_unknown) t' (map hal_of ps)" by blast
  have "recorded_as full t (\<lambda>j m l. if j \<in> set (i # is) then use j m l else tx_unknown) t' (map hal_of (ps1 @ ps))"
    unfolding recorded_as_def
  proof (intro allI impI)
    fix j m l assume j: "in_sel (full j) m l"
    have IH: "cell t' j m l = cell_update (if j \<in> set is then use j m l else tx_unknown) (cell t1 j m l)"
      "barriers_at (map hal_of ps) j m l
        = step_pairs (tt_ordered t) (fst (cell t1 j m l)) (if j \<in> set is then use j m l else tx_unknown)"
      using t'(7) j unfolding recorded_as_def t1(5) by blast+
    show "cell t' j m l = cell_update (if j \<in> set (i # is) then use j m l else tx_unknown) (cell t j m l)
      \<and> barriers_at (map hal_of (ps1 @ ps)) j m l
        = step_pairs (tt_ordered t) (fst (cell t j m l)) (if j \<in> set (i # is) then use j m l else tx_unknown)"
    proof (cases "j = i")
      case True
      then have "j \<notin> set is" using Cons.prems(3) by simp
      with True show ?thesis using IH t1(7) [of m l] j barriers_at_same [OF t1(4) i(2)] by simp
    next
      case False
      then show ?thesis using IH t1(8) [OF False] barriers_at_same(2) [OF t1(4) i(2) False] by simp
    qed
  qed
  moreover have "fold_opt f (i # is) t = Some t'" using t1(1) t'(1) by simp
  ultimately show ?case using t' t1 by (intro exI [of _ t'] exI [of _ "ps1 @ ps"]) auto
qed

definition directly_as ::
  "(nat \<Rightarrow> texture_selector) \<Rightarrow> device_texture_tracker \<Rightarrow> (nat \<Rightarrow> nat \<Rightarrow> u32 \<Rightarrow> texture_uses)
   \<Rightarrow> (nat \<Rightarrow> nat \<Rightarrow> u32 \<Rightarrow> texture_uses) \<Rightarrow> device_texture_tracker \<Rightarrow> nat texture_barrier list \<Rightarrow> bool" where
  "directly_as full d use latest d' xs \<longleftrightarrow>
     (\<forall>i m l. in_sel (full i) m l \<longrightarrow>
        state_at (dtt_current d') i m l
          = (if latest i m l = tx_unknown then state_at (dtt_current d) i m l else latest i m l)
        \<and> barriers_at xs i m l = step_pairs (dtt_ordered d) (state_at (dtt_current d) i m l) (use i m l))"

lemma dtt_loop:
  assumes "\<forall>i \<in> set is. i < n \<and> i < 2 ^ 32 \<and> full_ok (full i) \<and> provides (full i) i sp (use i)
      \<and> provides (full i) i ep (latest i)"
    and f: "\<And>i d. i \<in> set is \<Longrightarrow> dtt_wf full n d \<Longrightarrow> f i d = dtt_barrier_update (full i) i sp ep d"
    and "distinct is" "dtt_wf full n d"
  shows "\<exists>d' ps. fold_opt f is d = Some d' \<and> dtt_wf full n d' \<and> dtt_temp d' = dtt_temp d @ ps
    \<and> dtt_ordered d' = dtt_ordered d
    \<and> (\<forall>p \<in> set ps. \<exists>i \<in> set is. transition_ok i (full i) p)
    \<and> directly_as full d (\<lambda>i m l. if i \<in> set is then use i m l else tx_unknown)
        (\<lambda>i m l. if i \<in> set is then latest i m l else tx_unknown) d' (map hal_of ps)"
  using assms
proof (induction "is" arbitrary: d)
  case Nil
  then show ?case by (auto simp: directly_as_def)
next
  case (Cons i "is")
  from Cons.prems(1) obtain ns ns' where i: "i < n" "i < 2 ^ 32" "full_ok (full i)"
    "get_texture_state sp (Some (full i)) i = Some ns" "new_ok (full i) ns"
    "\<And>m l. in_sel (full i) m l \<Longrightarrow> new_at ns m l = use i m l"
    "get_texture_state ep (Some (full i)) i = Some ns'" "new_ok (full i) ns'"
    "\<And>m l. in_sel (full i) m l \<Longrightarrow> new_at ns' m l = latest i m l"
    by (auto simp: provides_def)
  have run: "f i d = dtt_barrier_update (full i) i sp ep d" using Cons.prems(2,4) by simp
  from dtt_step [OF i(3) Cons.prems(4) i(1,4,5,7,8)] obtain d1 ps1 where d1: "f i d = Some d1" "dtt_wf full n d1"
    "dtt_temp d1 = dtt_temp d @ ps1" "\<forall>p \<in> set ps1. transition_ok i (full i) p" "dtt_ordered d1 = dtt_ordered d"
    "\<And>m l. in_sel (full i) m l \<Longrightarrow> state_at (dtt_current d1) i m l
           = (if latest i m l = tx_unknown then state_at (dtt_current d) i m l else latest i m l)
          \<and> pairs_at ps1 m l = step_pairs (dtt_ordered d) (state_at (dtt_current d) i m l) (use i m l)"
    "\<And>j. j \<noteq> i \<Longrightarrow> state_at (dtt_current d1) j = state_at (dtt_current d) j"
    using i(6,9) unfolding run [symmetric] by auto
  have "\<exists>d' ps. fold_opt f is d1 = Some d' \<and> dtt_wf full n d' \<and> dtt_temp d' = dtt_temp d1 @ ps
    \<and> dtt_ordered d' = dtt_ordered d1
    \<and> (\<forall>p \<in> set ps. \<exists>i \<in> set is. transition_ok i (full i) p)
    \<and> directly_as full d1 (\<lambda>i m l. if i \<in> set is then use i m l else tx_unknown)
        (\<lambda>i m l. if i \<in> set is then latest i m l else tx_unknown) d' (map hal_of ps)"
    using Cons.prems d1(2) by (intro Cons.IH) simp_all
  then obtain d' ps where d': "fold_opt f is d1 = Some d'" "dtt_wf full n d'" "dtt_temp d' = dtt_temp d1 @ ps"
    "dtt_ordered d' = dtt_ordered d1" "\<forall>p \<in> set ps. \<exists>i \<in> set is. transition_ok i (full i) p"
    "directly_as full d1 (\<lambda>i m l. if i \<in> set is then use i m l else tx_unknown)
        (\<lambda>i m l. if i \<in> set is then latest i m l else tx_unknown) d' (map hal_of ps)" by blast
  have "directly_as full d (\<lambda>j m l. if j \<in> set (i # is) then use j m l else tx_unknown)
      (\<lambda>j m l. if j \<in> set (i # is) then latest j m l else tx_unknown) d' (map hal_of (ps1 @ ps))"
    unfolding directly_as_def
  proof (intro allI impI)
    fix j m l assume j: "in_sel (full j) m l"
    have IH: "state_at (dtt_current d') j m l
        = (if (if j \<in> set is then latest j m l else tx_unknown) = tx_unknown then state_at (dtt_current d1) j m l
           else if j \<in> set is then latest j m l else tx_unknown)"
      "barriers_at (map hal_of ps) j m l = step_pairs (dtt_ordered d) (state_at (dtt_current d1) j m l)
          (if j \<in> set is then use j m l else tx_unknown)"
      using d'(6) j unfolding directly_as_def d1(5) by blast+
    show "state_at (dtt_current d') j m l
        = (if (if j \<in> set (i # is) then latest j m l else tx_unknown) = tx_unknown then state_at (dtt_current d) j m l
           else if j \<in> set (i # is) then latest j m l else tx_unknown)
      \<and> barriers_at (map hal_of (ps1 @ ps)) j m l = step_pairs (dtt_ordered d) (state_at (dtt_current d) j m l)
          (if j \<in> set (i # is) then use j m l else tx_unknown)"
    proof (cases "j = i")
      case True
      then have "j \<notin> set is" using Cons.prems(3) by simp
      with True show ?thesis using IH d1(6) [of m l] j barriers_at_same [OF d1(4) i(2)] by simp
    next
      case False
      then show ?thesis using IH d1(7) [OF False] barriers_at_same(2) [OF d1(4) i(2) False] by simp
    qed
  qed
  moreover have "fold_opt f (i # is) d = Some d'" using d1(1) d'(1) by simp
  ultimately show ?case using d' d1 by (intro exI [of _ d'] exI [of _ "ps1 @ ps"]) auto
qed

lemma provides_set: "full_ok full \<Longrightarrow> entry_ok full s i \<Longrightarrow> provides full i (TextureSet s) (state_at s i)"
  unfolding provides_def by (rule get_set)

lemma provide_tex:
  "metadata_wf n md \<Longrightarrow> tex_named full md \<Longrightarrow> i \<in> owns md \<Longrightarrow> provide_resource (IndirectMetadata md) i = Some (tex_ref full i)"
  using owns_less [of n md i] by (simp add: provide_resource_def metadata_in_bounds tex_named_def)

lemma record_texture_scope:
  assumes full: "\<forall>i < N. full_ok (full i)" and t: "tt_wf full n t" "tt_temp t = []" "owns (tt_metadata t) \<subseteq> {i. i < N \<and> \<not> destroyed i}"
    and ev: "good_texture_event full N destroyed (UseTextures s)" and N: "N \<le> 2 ^ 32"
  shows "\<exists>t' k xs. record_texture_event destroyed (UseTextures s) (t, bs) = Some (t', bs @ xs)
    \<and> tt_wf full k t' \<and> tt_temp t' = [] \<and> owns (tt_metadata t') \<subseteq> {i. i < N \<and> \<not> destroyed i} \<and> tt_ordered t' = tt_ordered t
    \<and> recorded_as full t (event_at (UseTextures s)) t' xs"
proof -
  from ev obtain k where s: "ts_wf full k s" and alive: "\<And>i. i \<in> owns (ts_metadata s) \<Longrightarrow> i < N \<and> \<not> destroyed i"
    by (auto simp: good_texture_event_def)
  let ?md = "ts_metadata s"
  let ?is = "bitvec_indices (owned ?md)"
  have md: "metadata_wf k ?md" "set_size_of (ts_set s) = k" "tex_named full ?md"
    "\<And>i. i \<in> owns ?md \<Longrightarrow> entry_ok (full i) (ts_set s) i"
    using s by (auto simp: ts_wf_def)
  note idx = owned_indices_eq [OF md(1)]
  define t1 where "t1 = (if set_size_of (tt_start t) < k then tt_set_size k t else t)"
  have len: "set_size_of (tt_start t) = n" using t(1) by (simp add: tt_wf_def)
  obtain n1 where n1: "tt_wf full n1 t1" "k \<le> n1" "cell t1 = cell t" "tt_temp t1 = []" "tt_ordered t1 = tt_ordered t"
    "owns (tt_metadata t1) = owns (tt_metadata t)"
  proof (cases "n < k")
    case True
    then show thesis using that [of k] tt_grow [OF t(1), of k] t(2) by (simp add: t1_def len)
  next
    case False
    then show thesis using that [of n] t by (simp add: t1_def len)
  qed
  let ?f = "\<lambda>index t. if tt_in_bounds t index \<and> ts_in_bounds s index then do {
         tex \<leftarrow> get_resource_unchecked ?md index;
         insert_or_barrier_update_texture (tr_full_range tex) index (TextureSet (ts_set s)) None (IndirectMetadata ?md) t }
       else None"
  have each: "\<forall>i \<in> set ?is. i < n1 \<and> i < 2 ^ 32 \<and> full_ok (full i)
      \<and> provides (full i) i (TextureSet (ts_set s)) (state_at (ts_set s) i)
      \<and> provide_resource (IndirectMetadata ?md) i = Some (tex_ref full i)"
  proof
    fix i assume "i \<in> set ?is"
    then have i: "i \<in> owns ?md" by (simp add: idx(2))
    then have "full_ok (full i)" "i < N" "i < k" using full alive [OF i] owns_less [OF md(1) i] by auto
    then show "i < n1 \<and> i < 2 ^ 32 \<and> full_ok (full i)
      \<and> provides (full i) i (TextureSet (ts_set s)) (state_at (ts_set s) i)
      \<and> provide_resource (IndirectMetadata ?md) i = Some (tex_ref full i)"
      using n1(2) N provides_set [OF _ md(4) [OF i]] provide_tex [OF md(1,3) i] by simp
  qed
  have run: "?f i u = insert_or_barrier_update_texture (full i) i (TextureSet (ts_set s)) None (IndirectMetadata ?md) u"
    if "i \<in> set ?is" "tt_wf full n1 u" for i u
  proof -
    have i: "i \<in> owns ?md" using that(1) by (simp add: idx(2))
    then show ?thesis using that(2) s owns_less [OF md(1) i] n1(2) md(3)
      by (simp add: in_bounds_simps tex_named_def)
  qed
  from tt_loop [where f = ?f, OF each run idx(3) n1(1)] obtain t' ps where t': "fold_opt ?f ?is t1 = Some t'"
    "tt_wf full n1 t'" "tt_temp t' = ps" "tt_ordered t' = tt_ordered t"
    "owns (tt_metadata t') = owns ?md \<union> owns (tt_metadata t)"
    "\<forall>p \<in> set ps. \<exists>i \<in> owns ?md. transition_ok i (full i) p"
    "recorded_as full t1 (\<lambda>i m l. if i \<in> owns ?md then state_at (ts_set s) i m l else tx_unknown) t' (map hal_of ps)"
    unfolding n1(4-6) idx(2) by auto
  have from_scope: "tt_set_from_usage_scope s t = Some t'"
    using t'(1) by (simp add: tt_set_from_usage_scope_def idx(1) md(2) t1_def [symmetric] Let_def)
  have "\<forall>p \<in> set ps. \<exists>i < 2 ^ 32. transition_ok i (full i) p \<and> i \<in> owns (tt_metadata t')
      \<and> raw_unless destroyed (tex_ref full i) = Some i"
    using t'(5,6) alive N by (fastforce simp: raw_unless_def)
  then have "pending_textures_into_hal (raw_unless destroyed) (tt_metadata t') (tt_temp t') = Some (map hal_of ps)"
    unfolding t'(3) by (rule pending_into_hal_ok) (use t'(2) in \<open>simp add: tt_wf_def\<close>)
  from drain_textures_ok [OF this] from_scope
  have "record_texture_event destroyed (UseTextures s) (t, bs) = Some (t'\<lparr>tt_temp := []\<rparr>, bs @ map hal_of ps)"
    by simp
  moreover have "recorded_as full t (event_at (UseTextures s)) (t'\<lparr>tt_temp := []\<rparr>) (map hal_of ps)"
  proof -
    have "event_at (UseTextures s) = (\<lambda>i m l. if i \<in> owns ?md then state_at (ts_set s) i m l else tx_unknown)"
      "cell (t'\<lparr>tt_temp := []\<rparr>) = cell t'"
      by (simp_all add: event_at_def scope_at_def cell_def fun_eq_iff)
    with t'(7) show ?thesis by (simp only: recorded_as_def n1(3,5))
  qed
  moreover have "tt_wf full n1 (t'\<lparr>tt_temp := []\<rparr>)" using t'(2) by (simp add: tt_wf_def)
  moreover have "owns (tt_metadata t') \<subseteq> {i. i < N \<and> \<not> destroyed i}" using t'(5) t(3) alive by auto
  ultimately show ?thesis using t'(4)
    by (intro exI [of _ "t'\<lparr>tt_temp := []\<rparr>"] exI [of _ n1] exI [of _ "map hal_of ps"]) (simp del: record_texture_event.simps)
qed

lemma direct_single:
  assumes full: "\<forall>i < N. full_ok (full i)" and d: "dtt_wf full N d" "dtt_temp d = []"
    and ev: "good_texture_event full N destroyed (UseTexture tex sel st)" and N: "N \<le> 2 ^ 32"
  shows "\<exists>d' xs. direct_texture_event destroyed (UseTexture tex sel st) (d, bs) = Some (d', bs @ xs)
    \<and> dtt_wf full N d' \<and> dtt_temp d' = [] \<and> dtt_ordered d' = dtt_ordered d
    \<and> directly_as full d (event_at (UseTexture tex sel st)) (event_at (UseTexture tex sel st)) d' xs"
proof -
  from ev obtain i where i: "i < N" "tex = tex_ref full i" "\<not> destroyed i" "sel_within (full i) sel" "clean st"
    by (auto simp: good_texture_event_def)
  then have f: "full_ok (full i)" and i32: "i < 2 ^ 32" using full N by auto
  have grown: "dtt_allow_index i d = d" using d(1) i(1) by (simp add: dtt_allow_index_def dtt_wf_def)
  obtain ns where ns: "get_texture_state (Selector sel st) (Some (full i)) i = Some ns" "new_ok (full i) ns"
    "\<And>m l. in_sel (full i) m l \<Longrightarrow> new_at ns m l = (if in_sel sel m l then st else tx_unknown)"
    using get_selector [OF f i(4,5)] by blast
  from dtt_step [OF f d(1) i(1) ns(1,2) ns(1,2)] obtain d' ps where d':
    "dtt_barrier_update (full i) i (Selector sel st) (Selector sel st) d = Some d'" "dtt_wf full N d'"
    "dtt_temp d' = ps" "\<forall>p \<in> set ps. transition_ok i (full i) p" "dtt_ordered d' = dtt_ordered d"
    "\<And>m l. in_sel (full i) m l \<Longrightarrow> state_at (dtt_current d') i m l
           = (if new_at ns m l = tx_unknown then state_at (dtt_current d) i m l else new_at ns m l)
          \<and> pairs_at ps m l = step_pairs (dtt_ordered d) (state_at (dtt_current d) i m l) (new_at ns m l)"
    "\<And>j. j \<noteq> i \<Longrightarrow> state_at (dtt_current d') j = state_at (dtt_current d) j"
    unfolding d(2) by auto
  let ?d = "d'\<lparr>dtt_temp := []\<rparr>"
  have "dtt_set_single tex sel st d = Some (ps, ?d)"
    using d'(1,3) d(1) i by (simp add: dtt_set_single_def in_bounds_simps grown)
  then have run: "direct_texture_event destroyed (UseTexture tex sel st) (d, bs) = Some (?d, bs @ map hal_of ps)"
    using i(2,3) into_hal_all [OF d'(4) i32] by (simp add: raw_unless_def)
  have "directly_as full d (event_at (UseTexture tex sel st)) (event_at (UseTexture tex sel st)) ?d (map hal_of ps)"
    unfolding directly_as_def
  proof (intro allI impI)
    fix j m l assume "in_sel (full j) m l"
    then show "state_at (dtt_current ?d) j m l
        = (if event_at (UseTexture tex sel st) j m l = tx_unknown then state_at (dtt_current d) j m l
           else event_at (UseTexture tex sel st) j m l)
      \<and> barriers_at (map hal_of ps) j m l
        = step_pairs (dtt_ordered d) (state_at (dtt_current d) j m l) (event_at (UseTexture tex sel st) j m l)"
      using d'(6) [of m l] d'(7) [of j] ns(3) [of m l] i(2) barriers_at_same [OF d'(4) i32]
      by (cases "j = i") (simp_all add: event_at_def)
  qed
  moreover have "dtt_wf full N ?d" using d'(2) by (simp add: dtt_wf_def)
  ultimately show ?thesis using run d'(5)
    by (intro exI [of _ ?d] exI [of _ "map hal_of ps"]) (simp del: direct_texture_event.simps)
qed

text \<open>Entering every texture of a metadata on the device, from start and end states in sets.\<close>

lemma enter_sets:
  assumes full: "\<forall>i < N. full_ok (full i)" and d: "dtt_wf full N d" "dtt_temp d = []" and N: "N \<le> 2 ^ 32"
    and md: "metadata_wf k md" "tex_named full md" "\<And>i. i \<in> owns md \<Longrightarrow> i < N \<and> \<not> destroyed i"
    and sets: "\<And>i. i \<in> owns md \<Longrightarrow> entry_ok (full i) ss i \<and> entry_ok (full i) se i"
  defines "f \<equiv> \<lambda>index d. if dtt_in_bounds d index then do {
         tex \<leftarrow> get_resource_unchecked md index;
         dtt_barrier_update (tr_full_range tex) index (TextureSet ss) (TextureSet se) d }
       else None"
  shows "\<exists>d' ps. fold_opt f (bitvec_indices (owned md)) d = Some d' \<and> dtt_wf full N d'
    \<and> dtt_ordered d' = dtt_ordered d
    \<and> pending_textures_into_hal (raw_unless destroyed) md (dtt_temp d') = Some (map hal_of ps)
    \<and> directly_as full d (\<lambda>i m l. if i \<in> owns md then state_at ss i m l else tx_unknown)
        (\<lambda>i m l. if i \<in> owns md then state_at se i m l else tx_unknown) d' (map hal_of ps)"
proof -
  note idx = owned_indices_eq [OF md(1)]
  have each: "\<forall>i \<in> set (bitvec_indices (owned md)). i < N \<and> i < 2 ^ 32 \<and> full_ok (full i)
      \<and> provides (full i) i (TextureSet ss) (state_at ss i) \<and> provides (full i) i (TextureSet se) (state_at se i)"
  proof
    fix i assume "i \<in> set (bitvec_indices (owned md))"
    then have i: "i \<in> owns md" by (simp add: idx(2))
    then have "i < N" "full_ok (full i)" using md(3) full by auto
    then show "i < N \<and> i < 2 ^ 32 \<and> full_ok (full i)
      \<and> provides (full i) i (TextureSet ss) (state_at ss i) \<and> provides (full i) i (TextureSet se) (state_at se i)"
      using N sets [OF i] provides_set by simp
  qed
  have run: "f i d = dtt_barrier_update (full i) i (TextureSet ss) (TextureSet se) d"
    if "i \<in> set (bitvec_indices (owned md))" "dtt_wf full N d" for i d
    using that md(2,3) by (simp add: f_def in_bounds_simps idx(2) tex_named_def)
  from dtt_loop [where f = f, OF each run idx(3) d(1)] obtain d' ps where d': "fold_opt f (bitvec_indices (owned md)) d = Some d'"
    "dtt_wf full N d'" "dtt_temp d' = ps" "dtt_ordered d' = dtt_ordered d"
    "\<forall>p \<in> set ps. \<exists>i \<in> owns md. transition_ok i (full i) p"
    "directly_as full d (\<lambda>i m l. if i \<in> owns md then state_at ss i m l else tx_unknown)
        (\<lambda>i m l. if i \<in> owns md then state_at se i m l else tx_unknown) d' (map hal_of ps)"
    unfolding d(2) idx(2) by auto
  have "\<forall>p \<in> set ps. \<exists>i < 2 ^ 32. transition_ok i (full i) p \<and> i \<in> owns md
      \<and> raw_unless destroyed (tex_ref full i) = Some i"
    using d'(5) md(3) N by (fastforce simp: raw_unless_def)
  then have "pending_textures_into_hal (raw_unless destroyed) md (dtt_temp d') = Some (map hal_of ps)"
    unfolding d'(3) by (rule pending_into_hal_ok) (rule md(2))
  with d' show ?thesis by blast
qed

lemma directly_as_drained: "directly_as full d u v d' xs \<Longrightarrow> directly_as full d u v (d'\<lparr>dtt_temp := []\<rparr>) xs"
  by (simp add: directly_as_def)

lemma direct_scope:
  assumes full: "\<forall>i < N. full_ok (full i)" and d: "dtt_wf full N d" "dtt_temp d = []"
    and ev: "good_texture_event full N destroyed (UseTextures s)" and N: "N \<le> 2 ^ 32"
  shows "\<exists>d' xs. direct_texture_event destroyed (UseTextures s) (d, bs) = Some (d', bs @ xs)
    \<and> dtt_wf full N d' \<and> dtt_temp d' = [] \<and> dtt_ordered d' = dtt_ordered d
    \<and> directly_as full d (event_at (UseTextures s)) (event_at (UseTextures s)) d' xs"
proof -
  from ev obtain k where s: "ts_wf full k s" and alive: "\<And>i. i \<in> owns (ts_metadata s) \<Longrightarrow> i < N \<and> \<not> destroyed i"
    by (auto simp: good_texture_event_def)
  then have md: "metadata_wf k (ts_metadata s)" "tex_named full (ts_metadata s)"
    and sets: "\<And>i. i \<in> owns (ts_metadata s) \<Longrightarrow> entry_ok (full i) (ts_set s) i \<and> entry_ok (full i) (ts_set s) i"
    by (auto simp: ts_wf_def)
  from enter_sets [OF full d N md alive sets] obtain d' ps where d':
    "fold_opt (\<lambda>index d. if dtt_in_bounds d index then do {
         tex \<leftarrow> get_resource_unchecked (ts_metadata s) index;
         dtt_barrier_update (tr_full_range tex) index (TextureSet (ts_set s)) (TextureSet (ts_set s)) d }
       else None) (bitvec_indices (owned (ts_metadata s))) d = Some d'" "dtt_wf full N d'"
    "dtt_ordered d' = dtt_ordered d"
    "pending_textures_into_hal (raw_unless destroyed) (ts_metadata s) (dtt_temp d') = Some (map hal_of ps)"
    "directly_as full d (\<lambda>i m l. if i \<in> owns (ts_metadata s) then state_at (ts_set s) i m l else tx_unknown)
        (\<lambda>i m l. if i \<in> owns (ts_metadata s) then state_at (ts_set s) i m l else tx_unknown) d' (map hal_of ps)"
    by blast
  have "dtt_set_from_usage_scope_and_drain_transitions (raw_unless destroyed) s d
      = Some (map hal_of ps, d'\<lparr>dtt_temp := []\<rparr>)"
    by (simp add: dtt_set_from_usage_scope_and_drain_transitions_def owned_indices_eq(1) [OF md(1)] d'(1,4))
  moreover have "event_at (UseTextures s)
      = (\<lambda>i m l. if i \<in> owns (ts_metadata s) then state_at (ts_set s) i m l else tx_unknown)"
    by (simp add: event_at_def scope_at_def fun_eq_iff)
  moreover have "dtt_wf full N (d'\<lparr>dtt_temp := []\<rparr>)" using d'(2) by (simp add: dtt_wf_def)
  ultimately show ?thesis using d'(3) directly_as_drained [OF d'(5)]
    by (intro exI [of _ "d'\<lparr>dtt_temp := []\<rparr>"] exI [of _ "map hal_of ps"]) simp
qed

lemma submit_textures:
  assumes full: "\<forall>i < N. full_ok (full i)" and d: "dtt_wf full N d" "dtt_temp d = []" and N: "N \<le> 2 ^ 32"
    and t: "tt_wf full n t" and alive: "\<And>i. i \<in> owns (tt_metadata t) \<Longrightarrow> i < N \<and> \<not> destroyed i"
  shows "\<exists>d' xs. dtt_set_from_tracker_and_drain_transitions (raw_unless destroyed) t d = Some (xs, d')
    \<and> dtt_wf full N d' \<and> directly_as full d (\<lambda>i m l. snd (cell t i m l)) (\<lambda>i m l. fst (cell t i m l)) d' xs"
proof -
  have md: "metadata_wf n (tt_metadata t)" "tex_named full (tt_metadata t)"
    and sets: "\<And>i. i \<in> owns (tt_metadata t) \<Longrightarrow> entry_ok (full i) (tt_start t) i \<and> entry_ok (full i) (tt_end t) i"
    using t by (auto simp: tt_wf_def starts_agree_def)
  from enter_sets [OF full d N md alive sets] obtain d' ps where d':
    "fold_opt (\<lambda>index d. if dtt_in_bounds d index then do {
         tex \<leftarrow> get_resource_unchecked (tt_metadata t) index;
         dtt_barrier_update (tr_full_range tex) index (TextureSet (tt_start t)) (TextureSet (tt_end t)) d }
       else None) (bitvec_indices (owned (tt_metadata t))) d = Some d'" "dtt_wf full N d'"
    "pending_textures_into_hal (raw_unless destroyed) (tt_metadata t) (dtt_temp d') = Some (map hal_of ps)"
    "directly_as full d (\<lambda>i m l. if i \<in> owns (tt_metadata t) then state_at (tt_start t) i m l else tx_unknown)
        (\<lambda>i m l. if i \<in> owns (tt_metadata t) then state_at (tt_end t) i m l else tx_unknown) d' (map hal_of ps)"
    by blast
  have "dtt_set_from_tracker_and_drain_transitions (raw_unless destroyed) t d
      = Some (map hal_of ps, d'\<lparr>dtt_temp := []\<rparr>)"
    by (simp add: dtt_set_from_tracker_and_drain_transitions_def owned_indices_eq(1) [OF md(1)] d'(1,3))
  moreover have "(\<lambda>i m l. snd (cell t i m l)) = (\<lambda>i m l. if i \<in> owns (tt_metadata t) then state_at (tt_start t) i m l else tx_unknown)"
    "(\<lambda>i m l. fst (cell t i m l)) = (\<lambda>i m l. if i \<in> owns (tt_metadata t) then state_at (tt_end t) i m l else tx_unknown)"
    by (auto simp: cell_def fun_eq_iff)
  moreover have "dtt_wf full N (d'\<lparr>dtt_temp := []\<rparr>)" using d'(2) by (simp add: dtt_wf_def)
  ultimately show ?thesis using directly_as_drained [OF d'(4)]
    by (intro exI [of _ "d'\<lparr>dtt_temp := []\<rparr>"] exI [of _ "map hal_of ps"]) simp
qed

section \<open>Recording against direct tracking\<close>

text \<open>What relates a recorded command buffer and the device on which every use was tracked.\<close>

definition tracks ::
  "(nat \<Rightarrow> texture_selector) \<Rightarrow> device_texture_tracker \<Rightarrow> texture_tracker \<Rightarrow> nat texture_barrier list
   \<Rightarrow> device_texture_tracker \<Rightarrow> nat texture_barrier list \<Rightarrow> bool" where
  "tracks full d t bs d2 bs2 \<longleftrightarrow>
     (\<forall>i m l. in_sel (full i) m l \<longrightarrow>
        state_at (dtt_current d2) i m l
          = (if fst (cell t i m l) = tx_unknown then state_at (dtt_current d) i m l else fst (cell t i m l))
        \<and> barriers_at bs2 i m l
          = step_pairs (dtt_ordered d) (state_at (dtt_current d) i m l) (snd (cell t i m l)) @ barriers_at bs i m l
        \<and> (if fst (cell t i m l) = tx_unknown then barriers_at bs i m l = [] else True))"

lemma tracks_step:
  assumes "tracks full d t bs d2 bs2" "recorded_as full t use t' xs" "directly_as full d2 use use d2' ys"
    and "dtt_ordered d2 = dtt_ordered d" "tt_ordered t = dtt_ordered d"
    and agree: "\<And>i m l. in_sel (full i) m l \<Longrightarrow> fst (cell t i m l) = tx_unknown \<longleftrightarrow> snd (cell t i m l) = tx_unknown"
  shows "tracks full d t' (bs @ xs) d2' (bs2 @ ys)"
  unfolding tracks_def
proof (intro allI impI)
  fix i m l assume i: "in_sel (full i) m l"
  let ?om = "dtt_ordered d" and ?c = "state_at (dtt_current d) i m l"
  obtain e s where es: "cell t i m l = (e, s)" by (cases "cell t i m l")
  have tr: "state_at (dtt_current d2) i m l = (if e = tx_unknown then ?c else e)"
    "barriers_at bs2 i m l = step_pairs ?om ?c s @ barriers_at bs i m l"
    "e = tx_unknown \<Longrightarrow> barriers_at bs i m l = []"
    using assms(1) i es unfolding tracks_def by (metis fst_conv snd_conv)+
  have rc: "cell t' i m l = cell_update (use i m l) (e, s)" "barriers_at xs i m l = step_pairs ?om e (use i m l)"
    using assms(2) i es unfolding recorded_as_def assms(5) by (metis fst_conv)+
  have dc: "state_at (dtt_current d2') i m l
        = (if use i m l = tx_unknown then state_at (dtt_current d2) i m l else use i m l)"
    "barriers_at ys i m l = step_pairs ?om (state_at (dtt_current d2) i m l) (use i m l)"
    using assms(3) i unfolding directly_as_def assms(4) by blast+
  have es_agree: "e = tx_unknown \<longleftrightarrow> s = tx_unknown" using agree [OF i] es by simp
  show "state_at (dtt_current d2') i m l = (if fst (cell t' i m l) = tx_unknown then ?c else fst (cell t' i m l))
      \<and> barriers_at (bs2 @ ys) i m l
        = step_pairs ?om ?c (snd (cell t' i m l)) @ barriers_at (bs @ xs) i m l
      \<and> (if fst (cell t' i m l) = tx_unknown then barriers_at (bs @ xs) i m l = [] else True)"
  proof (cases "use i m l = tx_unknown")
    case True
    then show ?thesis using tr rc dc by simp
  next
    case False
    then show ?thesis using tr rc dc es_agree
      by (cases "e = tx_unknown") (simp_all add: cell_update_def)
  qed
qed

lemma tracks_events:
  assumes full: "\<forall>i < N. full_ok (full i)" and N: "N \<le> 2 ^ 32"
    and "\<forall>ev \<in> set evs. good_texture_event full N destroyed ev"
    and "tt_wf full n t" "tt_temp t = []" "owns (tt_metadata t) \<subseteq> {i. i < N \<and> \<not> destroyed i}" "tt_ordered t = dtt_ordered d"
    and "dtt_wf full N d2" "dtt_temp d2 = []" "dtt_ordered d2 = dtt_ordered d"
    and "tracks full d t bs d2 bs2"
  shows "\<exists>t' k bs' d2' bs2'. fold_opt (record_texture_event destroyed) evs (t, bs) = Some (t', bs')
    \<and> fold_opt (direct_texture_event destroyed) evs (d2, bs2) = Some (d2', bs2')
    \<and> tt_wf full k t' \<and> owns (tt_metadata t') \<subseteq> {i. i < N \<and> \<not> destroyed i} \<and> dtt_wf full N d2' \<and> tracks full d t' bs' d2' bs2'"
  using assms(3-11)
proof (induction evs arbitrary: t n bs d2 bs2)
  case Nil
  then show ?case by auto
next
  case (Cons ev evs)
  have ev: "good_texture_event full N destroyed ev" using Cons.prems(1) by simp
  have "\<exists>t' k xs. record_texture_event destroyed ev (t, bs) = Some (t', bs @ xs)
    \<and> tt_wf full k t' \<and> tt_temp t' = [] \<and> owns (tt_metadata t') \<subseteq> {i. i < N \<and> \<not> destroyed i} \<and> tt_ordered t' = tt_ordered t
    \<and> recorded_as full t (event_at ev) t' xs"
    using ev record_texture_single [OF full Cons.prems(2-4) _ N] record_texture_scope [OF full Cons.prems(2-4) _ N]
    by (cases ev) (simp_all only:)
  then obtain t' k xs where t': "record_texture_event destroyed ev (t, bs) = Some (t', bs @ xs)"
    "tt_wf full k t'" "tt_temp t' = []" "owns (tt_metadata t') \<subseteq> {i. i < N \<and> \<not> destroyed i}" "tt_ordered t' = dtt_ordered d"
    "recorded_as full t (event_at ev) t' xs" using Cons.prems(5) by auto
  have "\<exists>d' ys. direct_texture_event destroyed ev (d2, bs2) = Some (d', bs2 @ ys)
    \<and> dtt_wf full N d' \<and> dtt_temp d' = [] \<and> dtt_ordered d' = dtt_ordered d2
    \<and> directly_as full d2 (event_at ev) (event_at ev) d' ys"
    using ev direct_single [OF full Cons.prems(6,7) _ N] direct_scope [OF full Cons.prems(6,7) _ N]
    by (cases ev) (simp_all only:)
  then obtain d' ys where d': "direct_texture_event destroyed ev (d2, bs2) = Some (d', bs2 @ ys)"
    "dtt_wf full N d'" "dtt_temp d' = []" "dtt_ordered d' = dtt_ordered d"
    "directly_as full d2 (event_at ev) (event_at ev) d' ys" using Cons.prems(8) by auto
  have "tracks full d t' (bs @ xs) d' (bs2 @ ys)"
    by (rule tracks_step [OF Cons.prems(9) t'(6) d'(5) Cons.prems(8,5) cell_agree [OF Cons.prems(2)]])
  moreover have "\<forall>ev \<in> set evs. good_texture_event full N destroyed ev" using Cons.prems(1) by simp
  ultimately have "\<exists>t'' k bs' d2' bs2'. fold_opt (record_texture_event destroyed) evs (t', bs @ xs) = Some (t'', bs')
    \<and> fold_opt (direct_texture_event destroyed) evs (d', bs2 @ ys) = Some (d2', bs2')
    \<and> tt_wf full k t'' \<and> owns (tt_metadata t'') \<subseteq> {i. i < N \<and> \<not> destroyed i} \<and> dtt_wf full N d2' \<and> tracks full d t'' bs' d2' bs2'"
    by (intro Cons.IH [OF _ t'(2-5) d'(2-4)])
  then show ?case by (simp only: fold_opt.simps t'(1) d'(1) Option.bind.simps)
qed

text \<open>C2: Recording the uses of textures in a command buffer and entering its tracker on the device at
  submission leaves every subresource of every texture in the state, and inserts for it exactly
  the barriers, in the same order, that tracking each use directly on the device gives. Neither
  fails an assertion (in particular no barrier from or to the unknown state, nor over an empty
  range), leaves the bounds of a vector, or issues a barrier for a destroyed texture.\<close>
theorem record_submit_textures:
  assumes "\<forall>i < N. full_ok (full i)" "N \<le> 2 ^ 32"
    and "dtt_wf full N d" "dtt_temp d = []"
    and "\<forall>ev \<in> set evs. good_texture_event full N destroyed ev"
  shows "\<exists>t recorded entry d1 direct d2.
      fold_opt (record_texture_event destroyed) evs (new_texture_usage_tracker (dtt_ordered d), []) = Some (t, recorded)
    \<and> dtt_set_from_tracker_and_drain_transitions (raw_unless destroyed) t d = Some (entry, d1)
    \<and> fold_opt (direct_texture_event destroyed) evs (d, []) = Some (d2, direct)
    \<and> (\<forall>i m l. in_sel (full i) m l \<longrightarrow>
          state_at (dtt_current d1) i m l = state_at (dtt_current d2) i m l
        \<and> barriers_at direct i m l = barriers_at entry i m l @ barriers_at recorded i m l)"
proof -
  let ?t0 = "new_texture_usage_tracker (dtt_ordered d)"
  have t0: "tt_wf full 0 ?t0" "tt_temp ?t0 = []" "tt_ordered ?t0 = dtt_ordered d" "owns (tt_metadata ?t0) = {}"
    by (simp_all add: new_texture_usage_tracker_def tt_wf_def set_size_of_def new_state_set_def metadata_wf_new
        tex_named_new owns_new)
  have start: "tracks full d ?t0 [] d []"
    by (simp add: tracks_def cell_def t0(4))
  have none: "owns (tt_metadata ?t0) \<subseteq> {i. i < N \<and> \<not> destroyed i}" by (simp add: t0(4))
  from tracks_events [OF assms(1,2,5) t0(1,2) none t0(3) assms(3,4) refl start] obtain t k recorded d2 direct where t: "fold_opt (record_texture_event destroyed) evs (?t0, []) = Some (t, recorded)"
    "fold_opt (direct_texture_event destroyed) evs (d, []) = Some (d2, direct)"
    "tt_wf full k t" "owns (tt_metadata t) \<subseteq> {i. i < N \<and> \<not> destroyed i}" "tracks full d t recorded d2 direct"
    by blast
  from submit_textures [OF assms(1,3,4,2) t(3), of destroyed] t(4) obtain d1 entry where d1:
    "dtt_set_from_tracker_and_drain_transitions (raw_unless destroyed) t d = Some (entry, d1)"
    "directly_as full d (\<lambda>i m l. snd (cell t i m l)) (\<lambda>i m l. fst (cell t i m l)) d1 entry" by blast
  have "state_at (dtt_current d1) i m l = state_at (dtt_current d2) i m l
      \<and> barriers_at direct i m l = barriers_at entry i m l @ barriers_at recorded i m l"
    if "in_sel (full i) m l" for i m l
    using that t(5) d1(2) unfolding tracks_def directly_as_def by metis
  with t(1,2) d1(1) show ?thesis by blast
qed

text \<open>Two mip levels of one texture: a copy to one level, then a read of it while the other is written.\<close>

abbreviation two_mips :: texture_selector where
  "two_mips \<equiv> \<lparr>sel_mips = Range 0 2, sel_layers = Range 0 1\<rparr>"

lemma record_submit_textures_witness:
  "\<exists>t recorded entry d1 direct d2.
      fold_opt (record_texture_event (\<lambda>_. False))
        [UseTexture (tex_ref (\<lambda>_. two_mips) 0) \<lparr>sel_mips = Range 0 1, sel_layers = Range 0 1\<rparr> tx_copy_dst,
         UseTexture (tex_ref (\<lambda>_. two_mips) 0) two_mips tx_copy_src]
        (new_texture_usage_tracker (dtt_ordered (dtt_allow_index 0 (new_device_texture_tracker 0))), []) = Some (t, recorded)
    \<and> dtt_set_from_tracker_and_drain_transitions (raw_unless (\<lambda>_. False)) t
        (dtt_allow_index 0 (new_device_texture_tracker 0)) = Some (entry, d1)
    \<and> fold_opt (direct_texture_event (\<lambda>_. False))
        [UseTexture (tex_ref (\<lambda>_. two_mips) 0) \<lparr>sel_mips = Range 0 1, sel_layers = Range 0 1\<rparr> tx_copy_dst,
         UseTexture (tex_ref (\<lambda>_. two_mips) 0) two_mips tx_copy_src]
        (dtt_allow_index 0 (new_device_texture_tracker 0), []) = Some (d2, direct)
    \<and> (\<forall>i m l. in_sel two_mips m l \<longrightarrow>
          state_at (dtt_current d1) i m l = state_at (dtt_current d2) i m l
        \<and> barriers_at direct i m l = barriers_at entry i m l @ barriers_at recorded i m l)"
proof -
  have full: "full_ok two_mips" by (simp add: full_ok_def sel_nonempty_def MAX_MIP_LEVELS_def)
  have empty: "dtt_wf (\<lambda>_. two_mips) 0 (new_device_texture_tracker 0)"
    by (simp add: dtt_wf_def new_device_texture_tracker_def set_size_of_def new_state_set_def metadata_wf_new)
  have d: "dtt_wf (\<lambda>_. two_mips) 1 (dtt_allow_index 0 (new_device_texture_tracker 0))"
    "dtt_temp (dtt_allow_index 0 (new_device_texture_tracker 0)) = []"
    using dtt_grow [OF empty, of 0]
    by (simp_all add: dtt_allow_index_def new_device_texture_tracker_def)
  have clean: "clean tx_copy_dst" "clean tx_copy_src"
    by (simp_all add: clean_def invalid_resource_state_def any_exclusive_def intersects_def tx_exclusive_def
        tx_copy_src_def tx_copy_dst_def tx_color_target_def tx_depth_stencil_write_def tx_storage_write_only_def
        tx_storage_read_write_def tx_storage_atomic_def tx_present_def tx_complex_def tx_unknown_def
        is_power_of_two_def bit_simps upt_rec)
  show ?thesis
    by (rule record_submit_textures [where full = "\<lambda>_. two_mips" and N = 1, OF _ _ d])
      (use full clean in \<open>simp_all add: good_texture_event_def sel_within_def sel_nonempty_def tex_ref_def\<close>)
qed

end
