(* ===== verification/CopyLayout.thy ===== *)
theory CopyLayout
  imports Extents
begin

text \<open>
  The linear layout of a copy between a buffer and a texture,
  \<open>wgpu-types/src/transfers.rs\<close>: \<open>get_buffer_texture_copy_info\<close>, the numbers it derives and the
  overflows it reports. The outer \<open>None\<close> is the panic of \<open>unwrap\<close> on a format and aspect that
  cannot be copied.
\<close>

record texel_copy_buffer_layout =
  tbl_offset :: u64
  tbl_bytes_per_row :: "u32 option"
  tbl_rows_per_image :: "u32 option"

datatype copy_info_error =
  InvalidBytesPerRow | InvalidRowsPerImage | ImageStrideOverflow | ImageBytesOverflow bool
  | ArraySizeOverflow bool

record buffer_texture_copy_info =
  ci_copy_width :: u64
  ci_copy_height :: u64
  ci_depth_or_array_layers :: u64
  ci_offset :: u64
  ci_block_size_bytes :: u64
  ci_block_width_texels :: u64
  ci_block_height_texels :: u64
  ci_width_blocks :: u64
  ci_height_blocks :: u64
  ci_row_bytes_dense :: u64
  ci_row_stride_bytes :: u64
  ci_image_stride_rows :: u64
  ci_image_stride_bytes :: u64
  ci_image_rows_dense :: u64
  ci_image_bytes_dense :: u64
  ci_bytes_in_copy :: u64

text \<open>The two \<open>match\<close> expressions that take a stride from the layout, or its dense value.\<close>

definition stride_or :: "copy_info_error \<Rightarrow> u32 option \<Rightarrow> u64 \<Rightarrow> copy_info_error + u64" where
  "stride_or e given dense =
    (case given of
       Some s \<Rightarrow> if dense \<le> ucast s then Inr (ucast s) else Inl e
     | None \<Rightarrow> Inr dense)"

definition image_bytes :: "u64 \<Rightarrow> u64 \<Rightarrow> u64 \<Rightarrow> copy_info_error + u64" where
  "image_bytes image_rows_dense row_stride_bytes row_bytes_dense =
    (case checked_sub image_rows_dense 1 of
       Some rows_minus_one \<Rightarrow>
         and_then (ok_or (ImageBytesOverflow False) (checked_mul rows_minus_one row_stride_bytes))
           (\<lambda>b. ok_or (ImageBytesOverflow True) (checked_add b row_bytes_dense))
     | None \<Rightarrow> Inr 0)"

definition copy_bytes :: "u64 \<Rightarrow> u64 \<Rightarrow> u64 \<Rightarrow> copy_info_error + u64" where
  "copy_bytes layers image_stride_bytes image_bytes_dense =
    (if layers \<le> 1 then Inr (layers * image_bytes_dense)
     else and_then
            (ok_or (ArraySizeOverflow False)
              (checked_mul (layers - 1) image_stride_bytes))
            (\<lambda>b. ok_or (ArraySizeOverflow True) (checked_add b image_bytes_dense)))"

definition get_buffer_texture_copy_info ::
  "texel_copy_buffer_layout \<Rightarrow> texture_format \<Rightarrow> texture_aspect \<Rightarrow> extent3d
   \<Rightarrow> (copy_info_error + buffer_texture_copy_info) option" where
  "get_buffer_texture_copy_info layout f aspect copy_size =
    (case block_copy_size f (Some aspect) of
       None \<Rightarrow> None
     | Some block_size \<Rightarrow> Some (
         let copy_width = ucast (ext_width copy_size);
             copy_height = ucast (ext_height copy_size);
             depth = ucast (depth_or_array_layers copy_size);
             block_size_bytes = ucast block_size;
             (block_width, block_height) = block_dimensions f;
             block_width_texels = ucast block_width;
             block_height_texels = ucast block_height;
             width_blocks = div_ceil copy_width block_width_texels;
             height_blocks = div_ceil copy_height block_height_texels;
             row_bytes_dense = width_blocks * block_size_bytes
         in and_then (stride_or InvalidBytesPerRow (tbl_bytes_per_row layout) row_bytes_dense)
              (\<lambda>row_stride_bytes.
            and_then (stride_or InvalidRowsPerImage (tbl_rows_per_image layout) height_blocks)
              (\<lambda>image_stride_rows.
            and_then (image_bytes height_blocks row_stride_bytes row_bytes_dense)
              (\<lambda>image_bytes_dense.
            and_then (ok_or ImageStrideOverflow (checked_mul row_stride_bytes image_stride_rows))
              (\<lambda>image_stride_bytes.
            and_then (copy_bytes depth image_stride_bytes image_bytes_dense)
              (\<lambda>bytes_in_copy.
            Inr \<lparr>ci_copy_width = copy_width, ci_copy_height = copy_height,
                 ci_depth_or_array_layers = depth, ci_offset = tbl_offset layout,
                 ci_block_size_bytes = block_size_bytes,
                 ci_block_width_texels = block_width_texels,
                 ci_block_height_texels = block_height_texels,
                 ci_width_blocks = width_blocks, ci_height_blocks = height_blocks,
                 ci_row_bytes_dense = row_bytes_dense, ci_row_stride_bytes = row_stride_bytes,
                 ci_image_stride_rows = image_stride_rows,
                 ci_image_stride_bytes = image_stride_bytes,
                 ci_image_rows_dense = height_blocks, ci_image_bytes_dense = image_bytes_dense,
                 ci_bytes_in_copy = bytes_in_copy\<rparr>)))))))"

section \<open>The layout over the natural numbers\<close>

text \<open>
  What the numbers mean: a row of texel blocks, the stride between rows and between images,
  and the bytes from the first block to the end of the last one.
\<close>

definition image_extent :: "nat \<Rightarrow> nat \<Rightarrow> nat \<Rightarrow> nat" where
  "image_extent rows stride row = (if rows = 0 then 0 else (rows - 1) * stride + row)"

definition copy_extent_bytes :: "nat \<Rightarrow> nat \<Rightarrow> nat \<Rightarrow> nat" where
  "copy_extent_bytes n image_stride last_image =
    (if n = 0 then 0 else (n - 1) * image_stride + last_image)"

record copy_shape =
  cs_wb :: nat
  cs_hb :: nat
  cs_layers :: nat
  cs_block :: nat
  cs_stride :: nat
  cs_rows :: nat

definition cs_row :: "copy_shape \<Rightarrow> nat" where "cs_row c = cs_wb c * cs_block c"
definition cs_image_stride :: "copy_shape \<Rightarrow> nat" where "cs_image_stride c = cs_stride c * cs_rows c"
definition cs_image :: "copy_shape \<Rightarrow> nat" where
  "cs_image c = image_extent (cs_hb c) (cs_stride c) (cs_row c)"
definition cs_total :: "copy_shape \<Rightarrow> nat" where
  "cs_total c = copy_extent_bytes (cs_layers c) (cs_image_stride c) (cs_image c)"
definition cs_wf :: "copy_shape \<Rightarrow> bool" where
  "cs_wf c \<longleftrightarrow> cs_row c \<le> cs_stride c \<and> cs_hb c \<le> cs_rows c"

text \<open>Where the block in column \<open>x\<close> of row \<open>y\<close> of image \<open>z\<close> starts.\<close>

definition block_address :: "copy_shape \<Rightarrow> nat \<Rightarrow> nat \<Rightarrow> nat \<Rightarrow> nat" where
  "block_address c x y z = z * cs_image_stride c + y * cs_stride c + x * cs_block c"

definition in_shape :: "copy_shape \<Rightarrow> nat \<Rightarrow> nat \<Rightarrow> nat \<Rightarrow> bool" where
  "in_shape c x y z \<longleftrightarrow> x < cs_wb c \<and> y < cs_hb c \<and> z < cs_layers c"

lemma block_in_row: "x < cs_wb c \<Longrightarrow> x * cs_block c + cs_block c \<le> cs_row c"
proof -
  assume "x < cs_wb c"
  then have "(x + 1) * cs_block c \<le> cs_wb c * cs_block c" by (intro mult_le_mono1) simp
  then show ?thesis by (simp add: cs_row_def algebra_simps)
qed

lemma row_in_image:
  assumes "y < cs_hb c"
  shows "y * cs_stride c + cs_row c \<le> cs_image c"
proof -
  have "y * cs_stride c \<le> (cs_hb c - 1) * cs_stride c" using assms by (intro mult_le_mono1) simp
  with assms show ?thesis by (simp add: cs_image_def image_extent_def)
qed

lemma image_in_stride:
  assumes "cs_wf c"
  shows "cs_image c \<le> cs_image_stride c"
proof (cases "cs_hb c")
  case 0
  then show ?thesis by (simp add: cs_image_def image_extent_def)
next
  case (Suc h)
  have "cs_image c = h * cs_stride c + cs_row c" by (simp add: cs_image_def image_extent_def Suc)
  also have "\<dots> \<le> cs_hb c * cs_stride c" using assms Suc by (simp add: cs_wf_def)
  also have "\<dots> \<le> cs_image_stride c"
    using assms by (simp add: cs_image_stride_def cs_wf_def mult.commute)
  finally show ?thesis .
qed

lemma block_inside:
  assumes "cs_wf c" and "in_shape c x y z"
  shows "block_address c x y z + cs_block c \<le> cs_total c"
proof -
  have xy: "y * cs_stride c + (x * cs_block c + cs_block c) \<le> cs_image c"
    using block_in_row [of x c] row_in_image [of y c] assms(2) by (simp add: in_shape_def)
  have "z * cs_image_stride c \<le> (cs_layers c - 1) * cs_image_stride c"
    using assms(2) by (intro mult_le_mono1) (auto simp: in_shape_def)
  moreover have "cs_total c = (cs_layers c - 1) * cs_image_stride c + cs_image c"
    using assms(2) by (auto simp: cs_total_def copy_extent_bytes_def in_shape_def)
  ultimately show ?thesis using xy by (simp only: block_address_def)
qed

lemma lex_address:
  fixes a a' q r r' s :: nat
  assumes "a < a'" and "r + s \<le> q"
  shows "a * q + r + s \<le> a' * q + r'"
proof -
  have "(a + 1) * q \<le> a' * q" using assms(1) by (intro mult_le_mono1) simp
  with assms(2) show ?thesis by (simp add: algebra_simps)
qed

lemma block_before:
  assumes "cs_wf c" and "in_shape c x y z" and "in_shape c x' y' z'"
    and "z < z' \<or> z = z' \<and> (y < y' \<or> y = y' \<and> x < x')"
  shows "block_address c x y z + cs_block c \<le> block_address c x' y' z'"
proof -
  have row: "x * cs_block c + cs_block c \<le> cs_stride c"
    using block_in_row [of x c] assms(1,2) by (simp add: in_shape_def cs_wf_def)
  have image: "(y * cs_stride c + x * cs_block c) + cs_block c \<le> cs_image_stride c"
    using block_in_row [of x c] row_in_image [of y c] image_in_stride [OF assms(1)] assms(2)
    by (simp add: in_shape_def)
  consider "z < z'" | "z = z'" "y < y'" | "z = z'" "y = y'" "x < x'" using assms(4) by blast
  then show ?thesis
  proof cases
    case 1
    from lex_address [OF 1 image, of "y' * cs_stride c + x' * cs_block c"]
    show ?thesis by (simp add: block_address_def)
  next
    case 2
    from lex_address [OF 2(2) row, of "x' * cs_block c"] 2(1)
    show ?thesis by (simp add: block_address_def)
  next
    case 3
    have "(x + 1) * cs_block c \<le> x' * cs_block c" using 3(3) by (intro mult_le_mono1) simp
    with 3(1,2) show ?thesis by (simp add: block_address_def)
  qed
qed

section \<open>The computed layout is that layout\<close>

text \<open>The shape a format, an aspect, a layout and a copy size describe.\<close>

definition copy_shape_of ::
  "texel_copy_buffer_layout \<Rightarrow> texture_format \<Rightarrow> u32 \<Rightarrow> extent3d \<Rightarrow> copy_shape" where
  "copy_shape_of layout f block_size copy_size =
    (let (bw, bh) = block_dimensions f;
         wb = (unat (ext_width copy_size) + unat bw - 1) div unat bw;
         hb = (unat (ext_height copy_size) + unat bh - 1) div unat bh
     in \<lparr>cs_wb = wb, cs_hb = hb, cs_layers = unat (depth_or_array_layers copy_size),
         cs_block = unat block_size,
         cs_stride = (case tbl_bytes_per_row layout of
                        Some s \<Rightarrow> unat s | None \<Rightarrow> wb * unat block_size),
         cs_rows = (case tbl_rows_per_image layout of Some r \<Rightarrow> unat r | None \<Rightarrow> hb)\<rparr>)"

definition copy_info_matches :: "buffer_texture_copy_info \<Rightarrow> copy_shape \<Rightarrow> bool" where
  "copy_info_matches i c \<longleftrightarrow>
     unat (ci_width_blocks i) = cs_wb c \<and> unat (ci_height_blocks i) = cs_hb c
     \<and> unat (ci_depth_or_array_layers i) = cs_layers c
     \<and> unat (ci_block_size_bytes i) = cs_block c
     \<and> unat (ci_row_bytes_dense i) = cs_row c \<and> unat (ci_row_stride_bytes i) = cs_stride c
     \<and> unat (ci_image_stride_rows i) = cs_rows c
     \<and> unat (ci_image_stride_bytes i) = cs_image_stride c
     \<and> unat (ci_image_rows_dense i) = cs_hb c \<and> unat (ci_image_bytes_dense i) = cs_image c
     \<and> unat (ci_bytes_in_copy i) = cs_total c"

lemma block_copy_size_bound: "block_copy_size f a = Some n \<Longrightarrow> 0 < unat n \<and> unat n \<le> 16"
  by (cases f) (auto simp: block_copy_size_def split: option.splits texture_aspect.splits)

lemma stride_or_Inr:
  "stride_or e given dense = Inr s \<longleftrightarrow>
     unat s = (case given of Some g \<Rightarrow> unat g | None \<Rightarrow> unat dense) \<and> unat dense \<le> unat s"
  by (cases given)
    (auto simp: stride_or_def unat_ucast_u64 word_le_nat_alt word_unat_eq_iff)

lemma stride_or_Inl:
  "stride_or e given dense = Inl e' \<longleftrightarrow> e' = e \<and> (\<exists>g. given = Some g \<and> unat g < unat dense)"
  by (cases given) (auto simp: stride_or_def unat_ucast_u64 word_le_nat_alt)

lemma image_bytes_Inr:
  "image_bytes rows stride row = Inr b \<longleftrightarrow>
     unat b = image_extent (unat rows) (unat stride) (unat row)
     \<and> image_extent (unat rows) (unat stride) (unat row) < 2 ^ 64"
proof (cases "checked_sub rows 1")
  case None
  then have "\<not> 1 \<le> unat rows" by (simp add: checked_sub_def word_le_nat_alt split: if_splits)
  then have "unat rows = 0" by linarith
  then have "rows = 0" by (simp only: unsigned_eq_0_iff)
  then have "image_bytes rows stride row = Inr 0" by (simp add: image_bytes_def checked_sub_def)
  with \<open>unat rows = 0\<close> show ?thesis
    by (simp add: image_extent_def word_unat_eq_iff [of 0 b])
next
  case (Some m)
  then have r: "1 \<le> unat rows" and m: "unat m = unat rows - 1" by (auto simp: checked_sub_Some)
  show ?thesis
  proof
    assume "image_bytes rows stride row = Inr b"
    with Some r m show "unat b = image_extent (unat rows) (unat stride) (unat row)
     \<and> image_extent (unat rows) (unat stride) (unat row) < 2 ^ 64"
      by (auto simp: image_bytes_def and_then_Inr checked_mul_Some checked_add_Some image_extent_def)
  next
    assume a: "unat b = image_extent (unat rows) (unat stride) (unat row)
     \<and> image_extent (unat rows) (unat stride) (unat row) < 2 ^ 64"
    then have "unat m * unat stride < 2 ^ LENGTH(64)" using r m by (simp add: image_extent_def)
    then have "checked_mul m stride = Some (m * stride)" "unat (m * stride) = unat m * unat stride"
      by (simp_all add: checked_mul_def unat_word_ariths)
    then show "image_bytes rows stride row = Inr b"
      using Some r m a
      by (auto simp: image_bytes_def and_then_Inr checked_add_Some image_extent_def)
  qed
qed

lemma copy_bytes_Inr:
  "copy_bytes d stride img = Inr b \<longleftrightarrow>
     unat b = copy_extent_bytes (unat d) (unat stride) (unat img)
     \<and> copy_extent_bytes (unat d) (unat stride) (unat img) < 2 ^ 64"
proof (cases "unat d \<le> 1")
  case True
  then consider (zero) "d = 0" | (one) "d = 1" by (metis le_Suc_eq le_zero_eq One_nat_def unsigned_eq_0_iff word_unat_eq_iff unsigned_1)
  then show ?thesis
  proof cases
    case zero
    then have "copy_bytes d stride img = Inr 0" by (simp add: copy_bytes_def)
    with zero show ?thesis by (simp add: copy_extent_bytes_def word_unat_eq_iff [of 0 b])
  next
    case one
    then have "copy_bytes d stride img = Inr img" by (simp add: copy_bytes_def)
    moreover have "unat img < 2 ^ 64" using unsigned_less [of img] by simp
    ultimately show ?thesis
      using one by (simp add: copy_extent_bytes_def word_unat_eq_iff [of img b]) auto
  qed
next
  case False
  then have c: "\<not> d \<le> 1" and d: "unat (d - 1) = unat d - 1" and d1: "1 < unat d"
    by (auto simp: word_le_nat_alt unat_sub)
  show ?thesis
  proof
    assume "copy_bytes d stride img = Inr b"
    with c d d1 show "unat b = copy_extent_bytes (unat d) (unat stride) (unat img)
     \<and> copy_extent_bytes (unat d) (unat stride) (unat img) < 2 ^ 64"
      by (auto simp: copy_bytes_def and_then_Inr checked_mul_Some checked_add_Some
          copy_extent_bytes_def)
  next
    assume a: "unat b = copy_extent_bytes (unat d) (unat stride) (unat img)
     \<and> copy_extent_bytes (unat d) (unat stride) (unat img) < 2 ^ 64"
    then have "unat (d - 1) * unat stride < 2 ^ LENGTH(64)"
      using d d1 by (simp add: copy_extent_bytes_def)
    then have "checked_mul (d - 1) stride = Some ((d - 1) * stride)"
      "unat ((d - 1) * stride) = unat (d - 1) * unat stride"
      by (simp_all add: checked_mul_def unat_word_ariths)
    then show "copy_bytes d stride img = Inr b"
      using c d d1 a
      by (auto simp: copy_bytes_def and_then_Inr checked_add_Some copy_extent_bytes_def)
  qed
qed

lemma ex_unat: "(\<exists>w :: u64. unat w = n) \<longleftrightarrow> n < 2 ^ 64"
proof
  assume "n < 2 ^ 64"
  then have "unat (of_nat n :: u64) = n"
    by (simp only: unsigned_of_nat of_nat_id) (simp add: take_bit_nat_eq_self)
  then show "\<exists>w :: u64. unat w = n" ..
next
  assume "\<exists>w :: u64. unat w = n"
  then obtain w :: u64 where "unat w = n" ..
  with unsigned_less [of w] show "n < 2 ^ 64" by auto
qed


lemma copy_info_fields:
  fixes sz :: extent3d and layout :: texel_copy_buffer_layout
  assumes bs: "block_copy_size f (Some a) = Some n" and bd: "block_dimensions f = (bw, bh)"
  defines "w \<equiv> div_ceil (ucast (ext_width sz)) (ucast bw) :: u64"
    and "h \<equiv> div_ceil (ucast (ext_height sz)) (ucast bh) :: u64"
    and "c \<equiv> copy_shape_of layout f n sz"
  shows "unat w = cs_wb c" and "unat h = cs_hb c" and "unat (w * ucast n) = cs_row c"
    and "unat (ucast n :: u64) = cs_block c"
    and "unat (ucast (depth_or_array_layers sz) :: u64) = cs_layers c"
proof -
  note b = block_dimensions_bounds [OF bd] and n = block_copy_size_bound [OF bs]
  have nz: "(ucast bw :: u64) \<noteq> 0" "(ucast bh :: u64) \<noteq> 0"
    using b by (auto simp: word_unat_eq_iff unat_ucast_u64)
  show w: "unat w = cs_wb c" and "unat h = cs_hb c"
    using nz by (simp_all add: w_def h_def c_def copy_shape_of_def Let_def bd unat_div_ceil unat_ucast_u64)
  show "unat (ucast n :: u64) = cs_block c"
    and "unat (ucast (depth_or_array_layers sz) :: u64) = cs_layers c"
    by (simp_all add: c_def copy_shape_of_def Let_def bd unat_ucast_u64)
  have "unat w \<le> unat (ext_width sz)"
    using div_ceil_le [OF b(1)] by (simp add: w c_def copy_shape_of_def Let_def bd)
  moreover have "unat (ext_width sz) < 2 ^ 32" using unsigned_less [of "ext_width sz"] by simp
  ultimately have "unat w * unat n \<le> 2 ^ 32 * 16" using n by (intro mult_le_mono) auto
  then have "unat w * unat n < 2 ^ 64" by simp
  then have "unat (w * ucast n) = unat w * unat n" by (simp add: unat_word_ariths unat_ucast_u64)
  then show "unat (w * ucast n) = cs_row c"
    by (simp add: w cs_row_def) (simp add: c_def copy_shape_of_def Let_def bd)
qed


lemma copy_info_steps:
  assumes bs: "block_copy_size f (Some a) = Some n"
  shows "get_buffer_texture_copy_info layout f a sz = Some (Inr i) \<longrightarrow>
      cs_wf (copy_shape_of layout f n sz) \<and> copy_info_matches i (copy_shape_of layout f n sz)"
    and "(\<exists>i. get_buffer_texture_copy_info layout f a sz = Some (Inr i)) \<longleftrightarrow>
      cs_wf (copy_shape_of layout f n sz)
      \<and> cs_image_stride (copy_shape_of layout f n sz) < 2 ^ 64
      \<and> cs_total (copy_shape_of layout f n sz) < 2 ^ 64"
proof -
  obtain bw bh where bd: "block_dimensions f = (bw, bh)" by fastforce
  define w h :: u64 where "w = div_ceil (ucast (ext_width sz)) (ucast bw)"
    and "h = div_ceil (ucast (ext_height sz)) (ucast bh)"
  define row d :: u64 where "row = w * ucast n" and "d = ucast (depth_or_array_layers sz)"
  define c where "c = copy_shape_of layout f n sz"
  define info where "info rs ir ib is bc =
     \<lparr>ci_copy_width = ucast (ext_width sz), ci_copy_height = ucast (ext_height sz),
      ci_depth_or_array_layers = d, ci_offset = tbl_offset layout, ci_block_size_bytes = ucast n,
      ci_block_width_texels = ucast bw, ci_block_height_texels = ucast bh,
      ci_width_blocks = w, ci_height_blocks = h, ci_row_bytes_dense = row,
      ci_row_stride_bytes = rs, ci_image_stride_rows = ir, ci_image_stride_bytes = is,
      ci_image_rows_dense = h, ci_image_bytes_dense = ib, ci_bytes_in_copy = bc\<rparr>"
    for rs ir ib "is" bc
  note fields = copy_info_fields [OF bs bd, where sz = sz and layout = layout, folded w_def h_def row_def d_def c_def]
  have get: "get_buffer_texture_copy_info layout f a sz = Some (Inr i) \<longleftrightarrow>
     (\<exists>rs ir ib is bc. stride_or InvalidBytesPerRow (tbl_bytes_per_row layout) row = Inr rs
        \<and> stride_or InvalidRowsPerImage (tbl_rows_per_image layout) h = Inr ir
        \<and> image_bytes h rs row = Inr ib \<and> checked_mul rs ir = Some is
        \<and> copy_bytes d is ib = Inr bc \<and> info rs ir ib is bc = i)" for i
    unfolding get_buffer_texture_copy_info_def bs bd Let_def w_def [symmetric] h_def [symmetric]
      d_def [symmetric] row_def [symmetric] option.case prod.case info_def
    by (simp only: option.inject and_then_Inr ok_or_Inr Inr_not_Inl sum.inject) blast
  have rs: "stride_or InvalidBytesPerRow (tbl_bytes_per_row layout) row = Inr rs \<longleftrightarrow>
      unat rs = cs_stride c \<and> cs_row c \<le> cs_stride c" for rs
    using fields by (auto simp: stride_or_Inr c_def copy_shape_of_def bd Let_def cs_row_def
        split: option.split)
  have ir: "stride_or InvalidRowsPerImage (tbl_rows_per_image layout) h = Inr ir \<longleftrightarrow>
      unat ir = cs_rows c \<and> cs_hb c \<le> cs_rows c" for ir
    using fields by (auto simp: stride_or_Inr c_def copy_shape_of_def bd Let_def
        split: option.split)
  have steps: "(stride_or InvalidBytesPerRow (tbl_bytes_per_row layout) row = Inr rs
        \<and> stride_or InvalidRowsPerImage (tbl_rows_per_image layout) h = Inr ir
        \<and> image_bytes h rs row = Inr ib \<and> checked_mul rs ir = Some is
        \<and> copy_bytes d is ib = Inr bc) \<longleftrightarrow>
     cs_wf c \<and> unat rs = cs_stride c \<and> unat ir = cs_rows c
     \<and> unat ib = cs_image c \<and> cs_image c < 2 ^ 64 \<and> unat is = cs_image_stride c
     \<and> cs_image_stride c < 2 ^ 64 \<and> unat bc = cs_total c \<and> cs_total c < 2 ^ 64"
    for rs ir ib "is" bc
    unfolding rs ir image_bytes_Inr checked_mul_Some copy_bytes_Inr
    using fields by (auto simp: cs_wf_def cs_image_def cs_total_def cs_image_stride_def)
  have get': "get_buffer_texture_copy_info layout f a sz = Some (Inr i) \<longleftrightarrow>
     (\<exists>rs ir ib is bc. cs_wf c \<and> unat rs = cs_stride c \<and> unat ir = cs_rows c
        \<and> unat ib = cs_image c \<and> cs_image c < 2 ^ 64 \<and> unat is = cs_image_stride c
        \<and> cs_image_stride c < 2 ^ 64 \<and> unat bc = cs_total c \<and> cs_total c < 2 ^ 64
        \<and> info rs ir ib is bc = i)" for i
    unfolding get by (intro iff_exI) (use steps in blast)
  show "get_buffer_texture_copy_info layout f a sz = Some (Inr i) \<longrightarrow>
      cs_wf (copy_shape_of layout f n sz) \<and> copy_info_matches i (copy_shape_of layout f n sz)"
    unfolding get' c_def [symmetric] using fields
    by (auto simp: copy_info_matches_def info_def)
  have st: "cs_stride c < 2 ^ 64"
  proof (cases "tbl_bytes_per_row layout")
    case None
    then have "cs_stride c = cs_row c"
      by (simp add: c_def copy_shape_of_def bd Let_def cs_row_def)
    with fields(3) unat_u64 [of row] show ?thesis by simp
  next
    case (Some x)
    with unat_u32 [of x] show ?thesis by (simp add: c_def copy_shape_of_def bd Let_def)
  qed
  have ro: "cs_rows c < 2 ^ 64"
  proof (cases "tbl_rows_per_image layout")
    case None
    then have "cs_rows c = cs_hb c" by (simp add: c_def copy_shape_of_def bd Let_def)
    with fields(2) unat_u64 [of h] show ?thesis by simp
  next
    case (Some x)
    with unat_u32 [of x] show ?thesis by (simp add: c_def copy_shape_of_def bd Let_def)
  qed
  show "(\<exists>i. get_buffer_texture_copy_info layout f a sz = Some (Inr i)) \<longleftrightarrow>
      cs_wf (copy_shape_of layout f n sz)
      \<and> cs_image_stride (copy_shape_of layout f n sz) < 2 ^ 64
      \<and> cs_total (copy_shape_of layout f n sz) < 2 ^ 64"
    unfolding c_def [symmetric]
  proof
    assume "\<exists>i. get_buffer_texture_copy_info layout f a sz = Some (Inr i)"
    then show "cs_wf c \<and> cs_image_stride c < 2 ^ 64 \<and> cs_total c < 2 ^ 64"
      unfolding get' by blast
  next
    assume ok: "cs_wf c \<and> cs_image_stride c < 2 ^ 64 \<and> cs_total c < 2 ^ 64"
    then have im: "cs_image c < 2 ^ 64" using image_in_stride [of c] by linarith
    from st ro im ok show "\<exists>i. get_buffer_texture_copy_info layout f a sz = Some (Inr i)"
      unfolding get' by (simp only: ex_simps simp_thms ex_unat [symmetric]) blast
  qed
qed


text \<open>C33: \<open>get_buffer_texture_copy_info\<close> succeeds exactly when the given strides are not below the
  dense ones and neither the image stride nor the whole copy passes 64 bits, and then every
  number it returns is the exact, unwrapped number of the copy's shape.\<close>

theorem copy_info_exact:
  assumes "block_copy_size f (Some a) = Some n" and "c = copy_shape_of layout f n sz"
  shows "case get_buffer_texture_copy_info layout f a sz of
      Some (Inr i) \<Rightarrow> cs_wf c \<and> cs_image_stride c < 2 ^ 64 \<and> cs_total c < 2 ^ 64
                     \<and> copy_info_matches i c
    | Some (Inl e) \<Rightarrow> \<not> (cs_wf c \<and> cs_image_stride c < 2 ^ 64 \<and> cs_total c < 2 ^ 64)
    | None \<Rightarrow> False"
proof (cases "get_buffer_texture_copy_info layout f a sz")
  case None
  then show ?thesis using assms(1) by (simp add: get_buffer_texture_copy_info_def)
next
  case (Some r)
  then show ?thesis
    using copy_info_steps [OF assms(1), where layout = layout and sz = sz]
    by (cases r) (auto simp: assms(2))
qed

definition mip_copy_layout :: texel_copy_buffer_layout where
  "mip_copy_layout = \<lparr>tbl_offset = 0, tbl_bytes_per_row = Some 256, tbl_rows_per_image = Some 4\<rparr>"

lemma copy_info_exact_witness:
  "cs_total (copy_shape_of mip_copy_layout Bc1RgbaUnorm 8 extent_12_6) = 2328
   \<and> (\<exists>i. get_buffer_texture_copy_info mip_copy_layout Bc1RgbaUnorm AspectAll extent_12_6 = Some (Inr i)
        \<and> unat (ci_bytes_in_copy i) = 2328)"
proof -
  have c: "copy_shape_of mip_copy_layout Bc1RgbaUnorm 8 extent_12_6 =
     \<lparr>cs_wb = 3, cs_hb = 2, cs_layers = 3, cs_block = 8, cs_stride = 256, cs_rows = 4\<rparr>" (is "_ = ?c")
    by (simp add: copy_shape_of_def block_dimensions_def extent_12_6_def mip_copy_layout_def Let_def)
  have t: "cs_wf ?c" "cs_image_stride ?c = 1024" "cs_total ?c = 2328"
    by (simp_all add: cs_wf_def cs_row_def cs_image_stride_def cs_total_def cs_image_def
        image_extent_def copy_extent_bytes_def)
  have "block_copy_size Bc1RgbaUnorm (Some AspectAll) = Some 8" by (simp add: block_copy_size_def)
  from copy_info_exact [OF this refl, of mip_copy_layout extent_12_6] t show ?thesis
    by (auto simp: c copy_info_matches_def split: option.splits sum.splits)
qed

text \<open>C34: In a copy that \<open>get_buffer_texture_copy_info\<close> accepts, every texel block lies inside the
  computed number of bytes, and the blocks do not overlap: in the order of images, rows and
  columns each block ends before the next one begins.\<close>

theorem copy_blocks_disjoint_inside:
  assumes "get_buffer_texture_copy_info layout f a sz = Some (Inr i)"
    and "block_copy_size f (Some a) = Some n" and "c = copy_shape_of layout f n sz"
    and "in_shape c x y z"
  shows "block_address c x y z + unat n \<le> unat (ci_bytes_in_copy i)
    \<and> (\<forall>x' y' z'. in_shape c x' y' z' \<and> (x', y', z') \<noteq> (x, y, z) \<longrightarrow>
         block_address c x y z + unat n \<le> block_address c x' y' z'
         \<or> block_address c x' y' z' + unat n \<le> block_address c x y z)"
proof -
  obtain bw bh where "block_dimensions f = (bw, bh)" by fastforce
  then have n: "cs_block c = unat n" by (simp add: assms(3) copy_shape_of_def Let_def)
  have wf: "cs_wf c" and m: "unat (ci_bytes_in_copy i) = cs_total c"
    using copy_info_steps(1) [OF assms(2), THEN mp, OF assms(1)]
    by (auto simp: assms(3) copy_info_matches_def)
  have "block_address c x y z + unat n \<le> block_address c x' y' z'
         \<or> block_address c x' y' z' + unat n \<le> block_address c x y z"
    if "in_shape c x' y' z'" "(x', y', z') \<noteq> (x, y, z)" for x' y' z'
    using block_before [OF wf assms(4) that(1)] block_before [OF wf that(1) assms(4)] that(2)
    by (auto simp: n) (metis linorder_neqE_nat)+
  with block_inside [OF wf assms(4)] show ?thesis by (auto simp: n m)
qed


lemma copy_blocks_disjoint_inside_witness:
  "\<exists>i. get_buffer_texture_copy_info mip_copy_layout Bc1RgbaUnorm AspectAll extent_12_6 = Some (Inr i)
     \<and> block_address (copy_shape_of mip_copy_layout Bc1RgbaUnorm 8 extent_12_6) 2 1 2 + 8
         \<le> unat (ci_bytes_in_copy i)"
proof -
  have bs: "block_copy_size Bc1RgbaUnorm (Some AspectAll) = Some 8" by (simp add: block_copy_size_def)
  have c: "copy_shape_of mip_copy_layout Bc1RgbaUnorm 8 extent_12_6 =
     \<lparr>cs_wb = 3, cs_hb = 2, cs_layers = 3, cs_block = 8, cs_stride = 256, cs_rows = 4\<rparr>" (is "_ = ?c")
    by (simp add: copy_shape_of_def block_dimensions_def extent_12_6_def mip_copy_layout_def Let_def)
  have "cs_wf ?c" "cs_image_stride ?c = 1024" "cs_total ?c = 2328"
    by (simp_all add: cs_wf_def cs_row_def cs_image_stride_def cs_total_def cs_image_def
        image_extent_def copy_extent_bytes_def)
  then obtain i where i:
    "get_buffer_texture_copy_info mip_copy_layout Bc1RgbaUnorm AspectAll extent_12_6 = Some (Inr i)"
    using copy_info_steps(2) [OF bs, where layout = mip_copy_layout and sz = extent_12_6] c by auto
  have "in_shape ?c 2 1 2" by (simp add: in_shape_def)
  from copy_blocks_disjoint_inside [OF i bs c [symmetric] this] i show ?thesis
    by (auto simp: c)
qed

end
