(* ===== verification/Encoding.thy ===== *)
theory Encoding
  imports Textures Buffers TextureTracker CopyLayout
begin

unbundle bit_operations_syntax

text \<open>
  Encoding commands: the state that a command is encoded into (\<open>wgpu-core/src/command/encoder.rs\<close>) and
  the clears of buffers and textures (\<open>wgpu-core/src/command/clear.rs\<close>). The backend encoder is the list
  of the commands it received. A buffer and a texture are named by their tracker index, and the zero
  buffer of the device is no buffer of the user.
\<close>

section \<open>The encoder\<close>

record buffer_texture_copy =
  btc_layout :: texel_copy_buffer_layout
  btc_base :: texture_copy_base
  btc_size :: copy_extent

record texture_copy =
  tcp_src :: texture_copy_base
  tcp_dst :: texture_copy_base
  tcp_size :: copy_extent

datatype hal_command =
  HcTransitionBuffers "buffer_barrier list"
| HcTransitionTextures "nat texture_barrier list"
| HcClearBuffer nat "u64 range_t"
| HcCopyBufferToBuffer nat nat u64 u64 u64
| HcCopyBufferToTexture "nat option" nat "buffer_texture_copy list"
| HcCopyTextureToBuffer nat nat "buffer_texture_copy list"
| HcCopyTextureToTexture nat nat "texture_copy list"
| HcClearPass nat extent3d u32 bool "hal_view_descriptor option"

record encoding_state =
  en_buffers :: buffer_tracker
  en_textures :: texture_tracker
  en_buffer_actions :: "buffer_init_tracker_action list"
  en_texture_actions :: texture_memory_actions
  en_commands :: "hal_command list"

text \<open>
  A step of the encoding returns an error or a value, and the state either way; \<open>None\<close> is a panic.
  \<open>en_bind\<close> is the sequence with the question mark operator.
\<close>

type_synonym ('e, 'a) enc = "encoding_state \<Rightarrow> (('e + 'a) \<times> encoding_state) option"

definition en_lift :: "'e + 'a \<Rightarrow> ('e, 'a) enc" where
  "en_lift r s = Some (r, s)"

definition en_panic :: "'a option \<Rightarrow> ('e, 'a) enc" where
  "en_panic x s = map_option (\<lambda>a. (Inr a, s)) x"

definition en_bind :: "('e, 'a) enc \<Rightarrow> ('a \<Rightarrow> ('e, 'b) enc) \<Rightarrow> ('e, 'b) enc" where
  "en_bind m f s =
    (case m s of None \<Rightarrow> None | Some (Inl e, s') \<Rightarrow> Some (Inl e, s') | Some (Inr a, s') \<Rightarrow> f a s')"

definition en_map_err :: "('e \<Rightarrow> 'f) \<Rightarrow> ('e, 'a) enc \<Rightarrow> ('f, 'a) enc" where
  "en_map_err f m s = map_option (\<lambda>(r, s'). (map_err f r, s')) (m s)"

definition en_emit :: "hal_command list \<Rightarrow> ('e, unit) enc" where
  "en_emit cs s = Some (Inr (), s\<lparr>en_commands := en_commands s @ cs\<rparr>)"

definition en_use_buffer :: "nat \<Rightarrow> buffer_uses \<Rightarrow> ('e, unit pending_transition option) enc" where
  "en_use_buffer b use s =
    map_option (\<lambda>(p, t). (Inr p, s\<lparr>en_buffers := t\<rparr>)) (set_single b use (en_buffers s))"

definition en_use_texture :: "texture \<Rightarrow> texture_selector \<Rightarrow> texture_uses \<Rightarrow> ('e, texture_transition list) enc" where
  "en_use_texture t selector use s =
    map_option (\<lambda>(ps, tt). (Inr ps, s\<lparr>en_textures := tt\<rparr>))
      (tt_set_single \<lparr>tr_index = tex_index t, tr_full_range = tex_full_range t\<rparr> selector use (en_textures s))"

text \<open>The action of a buffer on its memory, if its tracker knows uninitialised bytes in the range.\<close>

definition en_init_buffer :: "buffer_state \<Rightarrow> u64 range_t \<Rightarrow> memory_init_kind \<Rightarrow> ('e, unit) enc" where
  "en_init_buffer b rg kind s =
    Some (Inr (), s\<lparr>en_buffer_actions := en_buffer_actions s @
      (case buffer_create_action (bst_status b) (gb_index (bst_buffer b)) rg kind of Some a \<Rightarrow> [a] | None \<Rightarrow> [])\<rparr>)"

definition buffer_barriers :: "buffer_state \<Rightarrow> unit pending_transition option \<Rightarrow> buffer_barrier list option" where
  "buffer_barriers b pending =
    (case pending of
       None \<Rightarrow> Some []
     | Some p \<Rightarrow> map_option (\<lambda>x. [x]) (into_hal (\<lambda>_. bst_destroyed b) p (gb_index (bst_buffer b))))"

definition texture_barriers :: "texture \<Rightarrow> texture_transition list \<Rightarrow> nat texture_barrier list option" where
  "texture_barriers t ps = those (map (\<lambda>p. texture_into_hal p (tex_index t)) ps)"

text \<open>The checks of a resource: its device, that it is not destroyed, its usage.\<close>

definition buffer_same_device :: "device \<Rightarrow> buffer_state \<Rightarrow> device_error + unit" where
  "buffer_same_device dev b =
    ensure (gb_device (bst_buffer b) = dev_id dev) (DeviceMismatch (gb_device (bst_buffer b)) (dev_id dev))"

definition texture_same_device :: "device \<Rightarrow> texture \<Rightarrow> device_error + unit" where
  "texture_same_device dev t = ensure (tex_device t = dev_id dev) (DeviceMismatch (tex_device t) (dev_id dev))"

definition buffer_try_raw :: "buffer_state \<Rightarrow> nat + nat" where
  "buffer_try_raw b =
    (if bst_destroyed b then Inl (gb_index (bst_buffer b)) else Inr (gb_index (bst_buffer b)))"

definition texture_try_raw :: "texture \<Rightarrow> nat + nat" where
  "texture_try_raw t = (if tex_destroyed t then Inl (tex_index t) else Inr (tex_index t))"

section \<open>Clearing buffers\<close>

definition clear_buffer_range :: "u64 \<Rightarrow> u64 \<Rightarrow> u64 option \<Rightarrow> clear_error + u64 range_t" where
  "clear_buffer_range buffer_size offset size_opt =
    and_then (ensure (offset mod COPY_BUFFER_ALIGNMENT = 0) (CeUnalignedBufferOffset offset)) (\<lambda>_.
    let sz = (case size_opt of Some n \<Rightarrow> n
              | None \<Rightarrow> (if offset \<le> buffer_size then buffer_size - offset else 0)) in
    and_then (ensure (sz mod COPY_BUFFER_ALIGNMENT = 0) (CeUnalignedFillSize sz)) (\<lambda>_.
    and_then (ok_or (CeOffsetPlusSizeExceeds64BitBounds offset sz) (checked_add offset sz)) (\<lambda>end_offset.
    and_then (ensure (\<not> end_offset > buffer_size) (CeBufferOverrun offset end_offset buffer_size)) (\<lambda>_.
    Inr (Range offset end_offset)))))"

definition clear_buffer :: "device \<Rightarrow> buffer_state \<Rightarrow> u64 \<Rightarrow> u64 option \<Rightarrow> (clear_error, unit) enc" where
  "clear_buffer dev dst offset size_opt =
    en_bind (en_lift (map_err CeDevice (buffer_same_device dev dst))) (\<lambda>_.
    en_bind (en_use_buffer (gb_index (bst_buffer dst)) bu_copy_dst) (\<lambda>dst_pending.
    en_bind (en_lift (map_err CeDestroyed (buffer_try_raw dst))) (\<lambda>dst_raw.
    en_bind (en_lift (map_err (\<lambda>(i, a, e). CeMissingBufferUsage i a e) (check_usage (bst_buffer dst) bus_copy_dst))) (\<lambda>_.
    en_bind (en_lift (clear_buffer_range (gb_size (bst_buffer dst)) offset size_opt)) (\<lambda>rg.
    if rstart rg = rend rg then en_lift (Inr ())
    else
      en_bind (en_init_buffer dst rg ImplicitlyInitialized) (\<lambda>_.
      en_bind (en_panic (buffer_barriers dst dst_pending)) (\<lambda>dst_barrier.
      en_emit [HcTransitionBuffers dst_barrier, HcClearBuffer dst_raw rg])))))))"

section \<open>The rows of a clear by copies\<close>

text \<open>Euclid's algorithm; dividing by zero is a panic.\<close>

function gcd_loop :: "u32 \<Rightarrow> u32 \<Rightarrow> u32 option" where
  "gcd_loop a b = (if b = 0 then None else let c = a mod b in if c = 0 then Some b else gcd_loop b c)"
  by auto
termination
  by (relation "measure (\<lambda>(a, b). unat b)") (auto simp: unat_mod unat_gt_0)

declare gcd_loop.simps [simp del]

definition get_greatest_common_divisor :: "u32 \<Rightarrow> u32 \<Rightarrow> u32 option" where
  "get_greatest_common_divisor a b = (if a \<ge> b then gcd_loop a b else None)"

definition get_lowest_common_denom :: "u32 \<Rightarrow> u32 \<Rightarrow> u32 option" where
  "get_lowest_common_denom a b = do {
     d \<leftarrow> (if a \<ge> b then get_greatest_common_divisor a b else get_greatest_common_divisor b a);
     Some (a * b div d) }"

definition align_to :: "u32 \<Rightarrow> u32 \<Rightarrow> u32" where
  "align_to v alignment =
    (let remainder = v mod alignment in if remainder = 0 then v else v + alignment - remainder)"

definition ZERO_BUFFER_SIZE :: u32 where "ZERO_BUFFER_SIZE = push_bit 10 512"

text \<open>The first row and the number of rows of each copy. Without a positive maximum it would not end.\<close>

partial_function (option) copy_rows :: "u32 \<Rightarrow> u32 \<Rightarrow> u32 \<Rightarrow> (u32 \<times> u32) list option" where
  [code]: "copy_rows height num_rows_left max_rows_per_copy =
    (if num_rows_left = 0 then Some []
     else let num_rows = min num_rows_left max_rows_per_copy in do {
       rest \<leftarrow> copy_rows height (num_rows_left - num_rows) max_rows_per_copy;
       Some ((height - num_rows_left, num_rows) # rest) })"

record clear_layout =
  cl_width :: u32
  cl_height :: u32
  cl_depth :: u32
  cl_bytes_per_row :: u32
  cl_max_rows :: u32

text \<open>The numbers for one mip level; \<open>None\<close> is a panic of \<open>unwrap\<close>, of a division or of the assertion.\<close>

definition mip_clear_layout :: "texture_descriptor \<Rightarrow> u32 \<Rightarrow> u32 \<Rightarrow> clear_layout option" where
  "mip_clear_layout desc pitch mip_level = do {
     let (block_width, block_height) = block_dimensions (td_format desc);
     block_size \<leftarrow> block_copy_size (td_format desc) None;
     bytes_per_row_alignment \<leftarrow> get_lowest_common_denom pitch block_size;
     mip_size \<leftarrow> desc_mip_level_size desc mip_level;
     let width = align_to (ext_width mip_size) block_width;
     let height = align_to (ext_height mip_size) block_height;
     let bytes_per_row = align_to (width div block_width * block_size) bytes_per_row_alignment;
     let max_rows = ZERO_BUFFER_SIZE div bytes_per_row;
     let max_rows_per_copy = max_rows div block_height * block_height;
     if max_rows_per_copy > 0 then
       Some \<lparr>cl_width = width, cl_height = height,
             cl_depth = (if td_dimension desc = D3 then depth_or_array_layers mip_size else 1),
             cl_bytes_per_row = bytes_per_row, cl_max_rows = max_rows_per_copy\<rparr>
     else None }"

definition clear_region :: "clear_layout \<Rightarrow> u32 \<Rightarrow> u32 \<Rightarrow> u32 \<Rightarrow> u32 \<times> u32 \<Rightarrow> buffer_texture_copy" where
  "clear_region c mip_level array_layer z rows =
    \<lparr>btc_layout = \<lparr>tbl_offset = 0, tbl_bytes_per_row = Some (cl_bytes_per_row c), tbl_rows_per_image = None\<rparr>,
     btc_base = \<lparr>tcb_mip_level = mip_level, tcb_array_layer = array_layer,
                 tcb_origin = \<lparr>org_x = 0, org_y = fst rows, org_z = z\<rparr>, tcb_aspect = fa_color\<rparr>,
     btc_size = \<lparr>ce_width = cl_width c, ce_height = snd rows, ce_depth = 1\<rparr>\<rparr>"

definition mip_clear_regions ::
  "texture_descriptor \<Rightarrow> u32 \<Rightarrow> u32 range_t \<Rightarrow> nat \<Rightarrow> buffer_texture_copy list option" where
  "mip_clear_regions desc pitch layers mip_level = do {
     c \<leftarrow> mip_clear_layout desc pitch (of_nat mip_level);
     map_option concat (those (map (\<lambda>(layer, z).
       map_option (map (clear_region c (of_nat mip_level) (of_nat layer) (of_nat z)))
         (copy_rows (cl_height c) (cl_height c) (cl_max_rows c)))
       (List.product (range_indices layers) [0..<unat (cl_depth c)]))) }"

definition clear_texture_via_buffer_copies ::
  "texture_descriptor \<Rightarrow> u32 \<Rightarrow> texture_init_range \<Rightarrow> nat \<Rightarrow> hal_command list option" where
  "clear_texture_via_buffer_copies desc pitch rg dst_raw =
    (if is_depth_stencil_format (td_format desc) then None
     else if td_format desc = NV12 \<or> td_format desc = P010 then Some []
     else map_option (\<lambda>regions. [HcCopyBufferToTexture None dst_raw (concat regions)])
            (those (map (mip_clear_regions desc pitch (layer_range rg)) (range_indices (mip_range rg)))))"

section \<open>Clearing textures\<close>

text \<open>One render pass per mip level and layer; the first error of the backend ends the loop.\<close>

fun clear_passes ::
  "device \<Rightarrow> texture \<Rightarrow> bool \<Rightarrow> (nat \<times> nat) list \<Rightarrow> ((clear_error + unit) \<times> hal_command list) option" where
  "clear_passes dev t is_color [] = Some (Inr (), [])"
| "clear_passes dev t is_color ((mip_level, layer) # rest) = do {
     view \<leftarrow> get_clear_view (tex_clear_mode t) (tex_desc t) (of_nat mip_level) (of_nat layer);
     let extent = mip_level_size (td_size (tex_desc t)\<lparr>depth_or_array_layers := 1\<rparr>) (of_nat mip_level)
                    (td_dimension (tex_desc t));
     (case hd_begin_render_pass (dev_hal dev) (tex_index t) of
        Some e \<Rightarrow> Some (Inl (CeDevice e), [])
      | None \<Rightarrow>
          map_option (\<lambda>(r, cs). (r, HcClearPass (tex_index t) extent (td_sample_count (tex_desc t)) is_color view # cs))
            (clear_passes dev t is_color rest)) }"

definition clear_texture_via_render_passes ::
  "device \<Rightarrow> texture \<Rightarrow> texture_init_range \<Rightarrow> bool \<Rightarrow> ((clear_error + unit) \<times> hal_command list) option" where
  "clear_texture_via_render_passes dev t rg is_color =
    (if td_dimension (tex_desc t) = D2 then
       clear_passes dev t is_color (List.product (range_indices (mip_range rg)) (range_indices (layer_range rg)))
     else None)"

definition clear_usage :: "texture_clear_mode \<Rightarrow> texture_uses option" where
  "clear_usage mode =
    (case mode of
       ClearBufferCopy \<Rightarrow> Some tx_copy_dst
     | ClearRenderPass _ is_color \<Rightarrow> Some (if is_color then tx_color_target else tx_depth_stencil_write)
     | ClearSurface \<Rightarrow> Some tx_color_target
     | ClearNone \<Rightarrow> None)"

definition clear_commands ::
  "device \<Rightarrow> texture \<Rightarrow> texture_init_range \<Rightarrow> ((clear_error + unit) \<times> hal_command list) option" where
  "clear_commands dev t rg =
    (case tex_clear_mode t of
       ClearBufferCopy \<Rightarrow>
         map_option (Pair (Inr ()))
           (clear_texture_via_buffer_copies (tex_desc t) (ucast (dev_copy_pitch dev)) rg (tex_index t))
     | ClearSurface \<Rightarrow> clear_texture_via_render_passes dev t rg True
     | ClearRenderPass _ is_color \<Rightarrow> clear_texture_via_render_passes dev t rg is_color
     | ClearNone \<Rightarrow> Some (Inl (CeNoValidTextureClearMode (tex_index t)), []))"

text \<open>
  \<open>clear_texture\<close> works with any tracker that can set the state of a texture; \<open>set_texture\<close> is that
  operation of the tracker.
\<close>

definition clear_texture ::
  "device \<Rightarrow> (texture_ref \<Rightarrow> texture_selector \<Rightarrow> texture_uses \<Rightarrow> 'k \<Rightarrow> (texture_transition list \<times> 'k) option)
   \<Rightarrow> texture \<Rightarrow> texture_init_range \<Rightarrow> 'k \<Rightarrow> ((clear_error + unit) \<times> 'k \<times> hal_command list) option" where
  "clear_texture dev set_texture t rg tracker =
    (if tex_destroyed t then Some (Inl (CeDestroyed (tex_index t)), tracker, [])
     else case clear_usage (tex_clear_mode t) of
       None \<Rightarrow> Some (Inl (CeNoValidTextureClearMode (tex_index t)), tracker, [])
     | Some usage \<Rightarrow> do {
         (ps, tracker') \<leftarrow> set_texture \<lparr>tr_index = tex_index t, tr_full_range = tex_full_range t\<rparr>
           \<lparr>sel_mips = mip_range rg, sel_layers = layer_range rg\<rparr> usage tracker;
         barriers \<leftarrow> texture_barriers t ps;
         (r, cs) \<leftarrow> clear_commands dev t rg;
         Some (r, tracker', HcTransitionTextures barriers # cs) })"

definition en_clear_texture :: "device \<Rightarrow> texture \<Rightarrow> texture_init_range \<Rightarrow> (clear_error, unit) enc" where
  "en_clear_texture dev t rg s =
    map_option (\<lambda>(r, tracker, cs). (r, s\<lparr>en_textures := tracker, en_commands := en_commands s @ cs\<rparr>))
      (clear_texture dev tt_set_single t rg (en_textures s))"

text \<open>\<open>ImageSubresourceRange::mip_range\<close> and \<open>layer_range\<close>; their sums wrap around.\<close>

definition isr_mip_range :: "image_subresource_range \<Rightarrow> u32 \<Rightarrow> u32 range_t" where
  "isr_mip_range r mip_level_count =
    Range (isr_base_mip_level r)
      (case isr_mip_level_count r of Some n \<Rightarrow> isr_base_mip_level r + n | None \<Rightarrow> mip_level_count)"

definition isr_layer_range :: "image_subresource_range \<Rightarrow> u32 \<Rightarrow> u32 range_t" where
  "isr_layer_range r layer_count =
    Range (isr_base_array_layer r)
      (case isr_array_layer_count r of Some n \<Rightarrow> isr_base_array_layer r + n | None \<Rightarrow> layer_count)"

definition clear_texture_range :: "device \<Rightarrow> texture \<Rightarrow> image_subresource_range \<Rightarrow> clear_error + texture_init_range" where
  "clear_texture_range dev t r =
    (let desc = tex_desc t; mips = sel_mips (tex_full_range t); layers = sel_layers (tex_full_range t);
         mip_rg = isr_mip_range r (rend mips); layer_rg = isr_layer_range r (rend layers) in
     and_then (map_err CeDevice (texture_same_device dev t)) (\<lambda>_.
     and_then (map_err CeMissingFeatures (require_features dev clear_texture_feature)) (\<lambda>_.
     and_then (ensure (format_aspects_new (td_format desc) (isr_aspect r) \<noteq> 0)
                 (CeMissingTextureAspect (td_format desc) (isr_aspect r))) (\<lambda>_.
     and_then (ensure (\<not> (rstart mips > rstart mip_rg \<or> rend mips < rend mip_rg))
                 (CeInvalidTextureLevelRange mips (isr_base_mip_level r) (isr_mip_level_count r))) (\<lambda>_.
     and_then (ensure (\<not> (rstart layers > rstart layer_rg \<or> rend layers < rend layer_rg))
                 (CeInvalidTextureLayerRange layers (isr_base_array_layer r) (isr_array_layer_count r))) (\<lambda>_.
     Inr \<lparr>mip_range = mip_rg, layer_range = layer_rg\<rparr>))))))"

definition clear_texture_cmd :: "device \<Rightarrow> texture \<Rightarrow> image_subresource_range \<Rightarrow> (clear_error, unit) enc" where
  "clear_texture_cmd dev t r =
    en_bind (en_lift (clear_texture_range dev t r)) (\<lambda>rg. en_clear_texture dev t rg)"

section \<open>Common multiples\<close>

lemma gcd_loop_gcd:
  "b \<noteq> 0 \<Longrightarrow> \<exists>d. gcd_loop a b = Some d \<and> unat d = gcd (unat a) (unat b)"
proof (induction a b rule: gcd_loop.induct)
  case (1 a b)
  show ?case
  proof (cases "a mod b = 0")
    case True
    then have "unat a mod unat b = 0" by (metis unat_mod unsigned_0)
    then have "gcd (unat a) (unat b) = unat b" by (simp add: gcd_proj2_iff mod_eq_0_iff_dvd)
    with True "1.prems" show ?thesis by (simp add: gcd_loop.simps [of a b])
  next
    case False
    then obtain d where "gcd_loop b (a mod b) = Some d" "unat d = gcd (unat b) (unat (a mod b))"
      using "1.IH" [OF "1.prems" refl] by auto
    moreover have "gcd (unat b) (unat (a mod b)) = gcd (unat a) (unat b)"
      by (simp add: unat_mod gcd_red_nat [of "unat a" "unat b"])
    ultimately show ?thesis using False "1.prems" by (simp add: gcd_loop.simps [of a b] Let_def)
  qed
qed

lemma lowest_common_denom_lcm:
  assumes "a \<noteq> 0" and "b \<noteq> 0" and "unat a * unat b < 2 ^ 32"
  shows "\<exists>d. get_lowest_common_denom a b = Some d \<and> unat d = lcm (unat a) (unat b)"
proof -
  have "\<exists>g. (if a \<ge> b then get_greatest_common_divisor a b else get_greatest_common_divisor b a) = Some g
      \<and> unat g = gcd (unat a) (unat b)"
    using gcd_loop_gcd [OF assms(1), of b] gcd_loop_gcd [OF assms(2), of a]
    by (auto simp: get_greatest_common_divisor_def gcd.commute [of "unat b"])
  then obtain g where g: "(if a \<ge> b then get_greatest_common_divisor a b else get_greatest_common_divisor b a) = Some g"
    "unat g = gcd (unat a) (unat b)" by blast
  have "unat (a * b div g) = lcm (unat a) (unat b)"
    using assms(3) g(2) by (simp add: unat_div unat_word_ariths lcm_nat_def)
  with g show ?thesis by (simp add: get_lowest_common_denom_def)
qed

lemma align_to_unat:
  assumes a: "0 < unat a" and bound: "unat v + unat a \<le> 2 ^ 32"
  shows "unat (align_to v a) = (unat v + unat a - 1) div unat a * unat a"
proof -
  define q r where "q = unat v div unat a" and "r = unat v mod unat a"
  have v: "unat v = q * unat a + r" and r: "r < unat a" using a by (simp_all add: q_def r_def)
  have rem: "unat (v mod a) = r" by (simp add: r_def unat_mod)
  show ?thesis
  proof (cases "r = 0")
    case True
    have "(q * unat a + unat a - 1) div unat a = q" using a by (intro div_nat_eqI) (auto simp: mult.commute)
    with True v rem show ?thesis by (simp add: align_to_def unat_eq_0 [symmetric])
  next
    case False
    have "v mod a \<le> v" by (simp add: word_le_nat_alt unat_mod)
    then have "unat (v - v mod a) = q * unat a" using v rem by (simp add: unat_sub)
    moreover have "q * unat a + unat a < 2 ^ 32" using bound v False by linarith
    ultimately have "unat (v - v mod a + a) = q * unat a + unat a" by (simp add: unat_word_ariths)
    then have "unat (v + a - v mod a) = (q + 1) * unat a" by (simp add: diff_add_eq)
    moreover have "(unat v + unat a - 1) div unat a = q + 1" using v r False by (intro div_nat_eqI) (auto simp: mult.commute)
    ultimately show ?thesis using False rem by (simp add: align_to_def Let_def unat_eq_0 [symmetric])
  qed
qed

lemma align_to_round_up:
  "0 < unat a \<Longrightarrow> unat v + unat a \<le> 2 ^ 32 \<Longrightarrow> align_to v a = div_ceil v a * a"
  by (simp add: word_unat_eq_iff align_to_unat unat_round_up)

section \<open>The rows of a clear tile the height\<close>

fun row_tiles :: "nat \<Rightarrow> (u32 \<times> u32) list \<Rightarrow> nat \<Rightarrow> bool" where
  "row_tiles a [] b \<longleftrightarrow> a = b"
| "row_tiles a ((y, n) # rest) b \<longleftrightarrow> unat y = a \<and> 0 < unat n \<and> row_tiles (a + unat n) rest b"

lemma copy_rows_tile:
  assumes "0 < m" and "left \<le> height"
  shows "\<exists>rows. copy_rows height left m = Some rows \<and> row_tiles (unat (height - left)) rows (unat height)
    \<and> (\<forall>(y, n) \<in> set rows. unat n \<le> unat m \<and> unat y + unat n \<le> unat height
         \<and> (\<forall>k. k dvd unat left \<longrightarrow> k dvd unat m \<longrightarrow> k dvd unat n))"
  using assms(2)
proof (induction "unat left" arbitrary: left rule: less_induct)
  case less
  show ?case
  proof (cases "left = 0")
    case True
    then show ?thesis by (simp add: copy_rows.simps)
  next
    case False
    let ?n = "min left m"
    have n: "0 < unat ?n" "?n \<le> left" "unat ?n \<le> unat m"
      using False assms(1) by (auto simp: min_def word_less_nat_alt word_le_nat_alt unat_gt_0)
    then have left: "unat (left - ?n) = unat left - unat ?n" by (intro unat_sub)
    have h: "unat (height - left) = unat height - unat left" "unat left \<le> unat height"
      using less.prems by (simp_all add: unat_sub word_le_nat_alt)
    have "unat ?n \<le> unat left" using n(2) by (simp add: word_le_nat_alt)
    then have "left - ?n \<le> height" "unat (height - (left - ?n)) = unat (height - left) + unat ?n"
      using left h by (simp_all add: word_le_nat_alt unat_sub)
    then obtain rows where r: "copy_rows height (left - ?n) m = Some rows"
      "row_tiles (unat (height - left) + unat ?n) rows (unat height)"
      "\<And>y k. (y, k) \<in> set rows \<Longrightarrow> unat k \<le> unat m \<and> unat y + unat k \<le> unat height
         \<and> (\<forall>d. d dvd unat (left - ?n) \<longrightarrow> d dvd unat m \<longrightarrow> d dvd unat k)"
      using less.hyps [of "left - ?n"] left n(1) \<open>unat ?n \<le> unat left\<close> by fastforce
    have "d dvd unat ?n" if "d dvd unat left" "d dvd unat m" for d using that by (simp add: min_def)
    moreover have "d dvd unat (left - ?n)" if "d dvd unat left" "d dvd unat m" for d
      using that left by (auto simp: min_def intro: dvd_diff_nat)
    ultimately show ?thesis
      using False r n h \<open>unat ?n \<le> unat left\<close> by (auto simp: copy_rows.simps [of height left] Let_def)
  qed
qed


section \<open>The numbers of a clear by copies\<close>

lemma astc_block_wide: "astc_block_dimensions b = (bw, bh) \<Longrightarrow> unat bh \<le> unat bw"
  by (cases b) (auto simp: astc_block_dimensions_def)

lemma block_dimensions_wide: "block_dimensions f = (bw, bh) \<Longrightarrow> unat bh \<le> unat bw"
  by (cases f; auto simp: block_dimensions_def dest: astc_block_wide)

lemma color_block_size:
  "\<not> is_depth_stencil_format f \<Longrightarrow> \<not> is_multi_planar_format f \<Longrightarrow> \<exists>n. block_copy_size f None = Some n"
  by (cases f) (auto simp: block_copy_size_def)

lemma unat_shr32_le: "unat (shr32 x l) \<le> unat x"
  unfolding shr32_def unsigned_drop_bit_eq
  by (simp add: drop_bit_eq_div) (metis div_le_dividend order.trans take_bit_nat_less_eq_self)

lemma mip_level_size_le:
  assumes "desc_mip_level_size d mip = Some sz" and "unat (ext_width (td_size d)) \<le> 2 ^ 14"
    and "unat (ext_height (td_size d)) \<le> 2 ^ 14"
  shows "unat (ext_width sz) \<le> 2 ^ 14" and "unat (ext_height sz) \<le> 2 ^ 14"
  using assms unat_shr32_le [of "ext_width (td_size d)" mip] unat_shr32_le [of "ext_height (td_size d)" mip]
  by (auto simp: desc_mip_level_size_def mip_level_size_def max_def split: if_splits texture_dimension.splits)

lemma mip_level_size_pos:
  assumes "desc_mip_level_size d mip = Some sz"
  shows "0 < unat (ext_width sz)"
  using assms by (auto simp: desc_mip_level_size_def mip_level_size_def max_def unat_gt_0 split: if_splits)

lemma max_rows_unat:
  "unat (ZERO_BUFFER_SIZE div bpr div bh * bh) = 2 ^ 19 div unat bpr div unat bh * unat bh"
  "unat (ZERO_BUFFER_SIZE div bpr div bh * bh) * unat bpr \<le> 2 ^ 19"
proof -
  let ?m = "2 ^ 19 div unat bpr div unat bh * unat bh"
  have zero: "unat ZERO_BUFFER_SIZE = 2 ^ 19" by (simp add: ZERO_BUFFER_SIZE_def)
  have q: "unat (ZERO_BUFFER_SIZE div bpr div bh) = 2 ^ 19 div unat bpr div unat bh"
    unfolding unat_div zero ..
  have le: "?m \<le> 2 ^ 19 div unat bpr" by (rule div_times_less_eq_dividend)
  also have "\<dots> \<le> 2 ^ 19" by (rule div_le_dividend)
  finally have "?m < 2 ^ 32" by simp
  then show m: "unat (ZERO_BUFFER_SIZE div bpr div bh * bh) = ?m"
    unfolding unat_word_ariths(2) [of "ZERO_BUFFER_SIZE div bpr div bh" bh] q by simp
  have "?m * unat bpr \<le> 2 ^ 19 div unat bpr * unat bpr" using le by (rule mult_le_mono1)
  also have "\<dots> \<le> 2 ^ 19" by (rule div_times_less_eq_dividend)
  finally show "unat (ZERO_BUFFER_SIZE div bpr div bh * bh) * unat bpr \<le> 2 ^ 19" unfolding m .
qed

lemma clear_row_bound:
  fixes w bw bh n l :: nat
  assumes "w \<le> 2 ^ 14" and "0 < bw" and "bw \<le> 12" and "bh \<le> bw" and "n \<le> 16" and "l \<le> 4096"
    and "b < (w + bw - 1) div bw * n + l"
  shows "bh * b \<le> 2 ^ 19"
proof -
  let ?wb = "(w + bw - 1) div bw"
  have "?wb * bw \<le> w + bw - 1" by simp
  moreover have "bh * ?wb \<le> ?wb * bw" using assms(4) by (simp add: mult.commute)
  ultimately have "bh * ?wb \<le> w + 11" using assms(3) by linarith
  then have "bh * (?wb * n) \<le> (2 ^ 14 + 11) * 16" using assms(1,5) mult_le_mono [of "bh * ?wb" "2 ^ 14 + 11" n 16]
    by (simp add: mult.assoc)
  moreover have "bh * l \<le> 12 * 4096" using assms(3,4,6) by (intro mult_le_mono) auto
  moreover have "bh * b \<le> bh * (?wb * n + l)" using assms(7) by (intro mult_le_mono2) simp
  ultimately show ?thesis by (simp add: distrib_left)
qed


text \<open>What the numbers of one mip level are good for.\<close>

definition clear_layout_ok :: "texture_descriptor \<Rightarrow> u32 \<Rightarrow> extent3d \<Rightarrow> clear_layout \<Rightarrow> bool" where
  "clear_layout_ok d pitch sz c \<longleftrightarrow>
     (let ps = physical_size sz (td_format d); bh = snd (block_dimensions (td_format d)) in
      cl_width c = ext_width ps \<and> cl_height c = ext_height ps
      \<and> cl_depth c = (if td_dimension d = D3 then depth_or_array_layers sz else 1)
      \<and> (\<forall>n. block_copy_size (td_format d) None = Some n \<longrightarrow>
           unat (cl_width c) div unat (fst (block_dimensions (td_format d))) * unat n \<le> unat (cl_bytes_per_row c))
      \<and> unat pitch dvd unat (cl_bytes_per_row c)
      \<and> 0 < cl_max_rows c \<and> unat bh dvd unat (cl_max_rows c) \<and> unat bh dvd unat (cl_height c)
      \<and> unat (fst (block_dimensions (td_format d))) dvd unat (cl_width c)
      \<and> unat (cl_max_rows c) * unat (cl_bytes_per_row c) \<le> 2 ^ 19)"

lemma mip_clear_layout_ok:
  assumes f: "\<not> is_depth_stencil_format (td_format d)" "\<not> is_multi_planar_format (td_format d)"
    and sz: "desc_mip_level_size d mip = Some sz"
    and dims: "unat (ext_width (td_size d)) \<le> 2 ^ 14" "unat (ext_height (td_size d)) \<le> 2 ^ 14"
    and pitch: "0 < unat pitch" "unat pitch \<le> 256"
  shows "\<exists>c. mip_clear_layout d pitch mip = Some c \<and> clear_layout_ok d pitch sz c"
proof -
  obtain bw bh where bd: "block_dimensions (td_format d) = (bw, bh)" by fastforce
  note b = block_dimensions_bounds [OF bd] block_dimensions_wide [OF bd]
  obtain n where n: "block_copy_size (td_format d) None = Some n" using color_block_size f by blast
  note nb = block_copy_size_bound [OF n]
  note le = mip_level_size_le [OF sz dims]
  have "unat pitch * unat n \<le> 256 * 16" using pitch nb by (intro mult_le_mono) auto
  then obtain l where l: "get_lowest_common_denom pitch n = Some l" "unat l = lcm (unat pitch) (unat n)"
    using lowest_common_denom_lcm [of pitch n] pitch nb by (auto simp: unat_gt_0)
  have l_pos: "0 < unat l" using l(2) pitch nb by (simp add: lcm_pos_nat)
  have "unat l \<le> unat pitch * unat n" by (simp add: l(2) lcm_nat_def)
  with \<open>unat pitch * unat n \<le> 256 * 16\<close> have l_le: "unat l \<le> 4096" by simp
  let ?w = "unat (ext_width sz)" and ?W = "align_to (ext_width sz) bw" and ?H = "align_to (ext_height sz) bh"
  define wb where "wb = (?w + unat bw - 1) div unat bw"
  have ps: "?W = ext_width (physical_size sz (td_format d))" "?H = ext_height (physical_size sz (td_format d))"
    using b le by (simp_all add: align_to_round_up physical_size_def bd)
  have H: "unat bh dvd unat ?H" using b le by (simp add: align_to_unat)
  have W: "unat ?W = wb * unat bw" using b le by (simp add: align_to_unat wb_def)
  have "wb \<le> ?w + unat bw - 1" unfolding wb_def by (rule div_le_dividend)
  then have "wb \<le> 2 ^ 15" using b(2) le(1) by simp
  define row where "row = ?W div bw * n"
  have Wb: "unat ?W div unat bw = wb" using W b by simp
  have "wb * unat n \<le> 2 ^ 15 * 16" using \<open>wb \<le> 2 ^ 15\<close> nb by (intro mult_le_mono) auto
  then have row: "unat row = wb * unat n" using \<open>wb \<le> 2 ^ 15\<close>
    by (simp add: row_def unat_word_ariths unat_div Wb)
  define bpr where "bpr = align_to row l"
  have bpr: "unat bpr = (unat row + unat l - 1) div unat l * unat l"
    using l_pos l_le row \<open>wb * unat n \<le> 2 ^ 15 * 16\<close> unfolding bpr_def by (intro align_to_unat) auto
  note rb = div_ceil_bounds [OF l_pos, of "unat row"]
  have bh: "unat bh * unat bpr \<le> 2 ^ 19"
    using rb bpr row by (intro clear_row_bound [OF le(1) b(1,2,5) conjunct2 [OF nb] l_le]) (auto simp: wb_def)
  have "0 < ?w" using mip_level_size_pos [OF sz] by simp
  then have "?w \<le> wb * unat bw" using div_ceil_bounds(1) [OF b(1)] by (simp add: wb_def)
  with \<open>0 < ?w\<close> nb row have "0 < unat row" by (cases "wb = 0") auto
  with rb(1) bpr have bpr_pos: "0 < unat bpr" by linarith
  let ?m = "ZERO_BUFFER_SIZE div bpr div bh * bh"
  note m = max_rows_unat [of bpr bh]
  have "1 * unat bh \<le> 2 ^ 19 div unat bpr"
    using bh bpr_pos by (simp add: less_eq_div_iff_mult_less_eq)
  then have "1 \<le> 2 ^ 19 div unat bpr div unat bh" using b(3) by (simp add: less_eq_div_iff_mult_less_eq)
  with m(1) b(3) have m_pos: "0 < ?m" by (simp add: word_less_nat_alt)
  have "mip_clear_layout d pitch mip = Some \<lparr>cl_width = ?W, cl_height = ?H,
      cl_depth = (if td_dimension d = D3 then depth_or_array_layers sz else 1), cl_bytes_per_row = bpr, cl_max_rows = ?m\<rparr>"
    using m_pos by (simp add: mip_clear_layout_def bd n l sz Let_def bpr_def row_def)
  moreover have "unat pitch dvd unat bpr" using bpr l(2) by simp
  moreover have "unat ?W div unat bw * unat n \<le> unat bpr"
    using rb(1) bpr row W b(1) by simp
  moreover have "unat bw dvd unat ?W" by (simp add: W)
  ultimately show ?thesis
    using ps m m_pos H n by (auto simp: clear_layout_ok_def bd Let_def)
qed


section \<open>A clear by copies clears each row once\<close>

lemma those_map_Some: "(\<And>x. x \<in> set xs \<Longrightarrow> f x = Some (g x)) \<Longrightarrow> those (map f xs) = Some (map g xs)"
  by (induction xs) simp_all

lemma filter_concat_key:
  assumes "distinct xs" and "x \<in> set xs" and "\<And>y. y \<in> set xs \<Longrightarrow> y \<noteq> x \<Longrightarrow> filter P (f y) = []"
  shows "filter P (concat (map f xs)) = filter P (f x)"
  using assms
proof (induction xs)
  case (Cons y ys)
  show ?case
  proof (cases "y = x")
    case True
    with Cons.prems have "filter P (concat (map f ys)) = []" by (auto simp: filter_empty_conv)
    with True show ?thesis by simp
  next
    case False
    with Cons show ?thesis by simp
  qed
qed simp

definition region_in_buffer :: "texture_format \<Rightarrow> u32 \<Rightarrow> nat \<Rightarrow> buffer_texture_copy \<Rightarrow> bool" where
  "region_in_buffer f n buffer_size r \<longleftrightarrow>
     (let c = copy_shape_of (btc_layout r) f n (extent_from_copy (btc_size r))
      in cs_wf c \<and> unat (tbl_offset (btc_layout r)) + cs_total c \<le> buffer_size)"

text \<open>
  The area of a texture that a copy addresses. The chroma plane of \<open>NV12\<close> and \<open>P010\<close> is half as wide
  and half as high as the level, and a copy addresses one plane of such a format, never both.
\<close>

definition plane_factors :: "texture_format \<Rightarrow> format_aspects \<Rightarrow> (nat \<times> nat) option" where
  "plane_factors f a =
    (if f = NV12 \<or> f = P010 then
       (if a = fa_plane_0 then Some (1, 1) else if a = fa_plane_1 then Some (2, 2) else None)
     else Some (1, 1))"

definition region_in_area :: "texture_descriptor \<Rightarrow> nat \<Rightarrow> nat \<Rightarrow> texture_copy_base \<Rightarrow> copy_extent \<Rightarrow> bool" where
  "region_in_area d w h b e \<longleftrightarrow>
     (case desc_mip_level_size d (tcb_mip_level b) of
        None \<Rightarrow> False
      | Some sz \<Rightarrow>
          (let ps = physical_size sz (td_format d) in
           unat (org_x (tcb_origin b)) + unat (ce_width e) \<le> unat (ext_width ps) div w
           \<and> unat (org_y (tcb_origin b)) + unat (ce_height e) \<le> unat (ext_height ps) div h
           \<and> tcb_array_layer b < array_layer_count d
           \<and> unat (org_z (tcb_origin b)) + unat (ce_depth e)
               \<le> (if td_dimension d = D3 then unat (depth_or_array_layers sz) else 1)))"

definition region_in_texture :: "texture_descriptor \<Rightarrow> texture_copy_base \<Rightarrow> copy_extent \<Rightarrow> bool" where
  "region_in_texture d b e \<longleftrightarrow>
     (case plane_factors (td_format d) (tcb_aspect b) of
        None \<Rightarrow> False | Some (w, h) \<Rightarrow> region_in_area d w h b e)"

definition region_at :: "u32 \<Rightarrow> u32 \<Rightarrow> u32 \<Rightarrow> buffer_texture_copy \<Rightarrow> bool" where
  "region_at mip layer z r \<longleftrightarrow> tcb_mip_level (btc_base r) = mip \<and> tcb_array_layer (btc_base r) = layer
     \<and> org_z (tcb_origin (btc_base r)) = z"

text \<open>The copies to one slice of one layer take all columns, and their rows follow each other.\<close>

definition slice_cleared :: "texture_descriptor \<Rightarrow> buffer_texture_copy list \<Rightarrow> u32 \<Rightarrow> u32 \<Rightarrow> u32 \<Rightarrow> bool" where
  "slice_cleared d regions mip layer z \<longleftrightarrow>
     (case desc_mip_level_size d mip of
        None \<Rightarrow> False
      | Some sz \<Rightarrow>
          (let ps = physical_size sz (td_format d); here = filter (region_at mip layer z) regions in
           (\<forall>r \<in> set here. org_x (tcb_origin (btc_base r)) = 0 \<and> ce_width (btc_size r) = ext_width ps)
           \<and> row_tiles 0 (map (\<lambda>r. (org_y (tcb_origin (btc_base r)), ce_height (btc_size r))) here) (unat (ext_height ps))))"

lemma clear_region_simps [simp]:
  "tcb_mip_level (btc_base (clear_region c m l z rows)) = m"
  "tcb_array_layer (btc_base (clear_region c m l z rows)) = l"
  "tcb_origin (btc_base (clear_region c m l z rows)) = \<lparr>org_x = 0, org_y = fst rows, org_z = z\<rparr>"
  "btc_size (clear_region c m l z rows) = \<lparr>ce_width = cl_width c, ce_height = snd rows, ce_depth = 1\<rparr>"
  "btc_layout (clear_region c m l z rows)
     = \<lparr>tbl_offset = 0, tbl_bytes_per_row = Some (cl_bytes_per_row c), tbl_rows_per_image = None\<rparr>"
  "region_at m' l' z' (clear_region c m l z rows) \<longleftrightarrow> m = m' \<and> l = l' \<and> z = z'"
  by (auto simp: clear_region_def region_at_def)

lemma div_ceil_exact: "0 < (b :: nat) \<Longrightarrow> b dvd w \<Longrightarrow> (w + b - 1) div b = w div b"
  by (elim dvdE) (auto intro!: div_nat_eqI simp: mult.commute)

lemma clear_region_in_buffer:
  assumes c: "clear_layout_ok d pitch sz c" and n: "block_copy_size (td_format d) None = Some n"
    and rows: "unat (snd rows) \<le> unat (cl_max_rows c)"
  shows "region_in_buffer (td_format d) n (2 ^ 19) (clear_region c m l z rows)"
proof -
  obtain bw bh where bd: "block_dimensions (td_format d) = (bw, bh)" by fastforce
  note b = block_dimensions_bounds [OF bd]
  let ?hb = "(unat (snd rows) + unat bh - 1) div unat bh" and ?B = "unat (cl_bytes_per_row c)"
  let ?wb = "(unat (cl_width c) + unat bw - 1) div unat bw"
  define sh where "sh = copy_shape_of (btc_layout (clear_region c m l z rows)) (td_format d) n
      (extent_from_copy (btc_size (clear_region c m l z rows)))"
  have s: "cs_wb sh = ?wb" "cs_hb sh = ?hb" "cs_layers sh = 1" "cs_block sh = unat n" "cs_stride sh = ?B" "cs_rows sh = ?hb"
    by (simp_all add: sh_def copy_shape_of_def bd extent_from_copy_def Let_def)
  have "unat bw dvd unat (cl_width c)" "unat (cl_width c) div unat bw * unat n \<le> ?B"
    and max: "unat (cl_max_rows c) * ?B \<le> 2 ^ 19"
    using c n unfolding clear_layout_ok_def bd Let_def by auto
  then have row: "?wb * unat n \<le> ?B" using div_ceil_exact [OF b(1)] by simp
  have "?hb \<le> unat (cl_max_rows c)" using div_ceil_le [OF b(3), of "unat (snd rows)"] rows by linarith
  then have "?hb * ?B \<le> unat (cl_max_rows c) * ?B" by (rule mult_le_mono1)
  moreover have "cs_total sh \<le> ?hb * ?B"
    using row by (cases ?hb) (auto simp: cs_total_def copy_extent_bytes_def cs_image_def image_extent_def s cs_row_def)
  ultimately have "cs_total sh \<le> 2 ^ 19" using max by linarith
  with row show ?thesis
    by (simp add: region_in_buffer_def sh_def [symmetric] cs_wf_def cs_row_def s Let_def del: clear_region_simps(4,5)) simp
qed


text \<open>The regions of one mip level.\<close>

lemma mip_clear_regions_ok:
  assumes f: "\<not> is_depth_stencil_format (td_format d)" "\<not> is_multi_planar_format (td_format d)"
    and sz: "desc_mip_level_size d (of_nat mip) = Some sz"
    and dims: "unat (ext_width (td_size d)) \<le> 2 ^ 14" "unat (ext_height (td_size d)) \<le> 2 ^ 14"
    and pitch: "0 < unat pitch" "unat pitch \<le> 256"
  obtains c rows where "clear_layout_ok d pitch sz c" "row_tiles 0 rows (unat (cl_height c))"
    "\<And>y k. (y, k) \<in> set rows \<Longrightarrow> unat k \<le> unat (cl_max_rows c) \<and> unat y + unat k \<le> unat (cl_height c)"
    "mip_clear_regions d pitch layers mip = Some (concat (map (\<lambda>(l, z).
       map (clear_region c (of_nat mip) (of_nat l) (of_nat z)) rows)
       (List.product (range_indices layers) [0..<unat (cl_depth c)])))"
proof -
  obtain c where c: "mip_clear_layout d pitch (of_nat mip) = Some c" "clear_layout_ok d pitch sz c"
    using mip_clear_layout_ok [OF f sz dims pitch] by blast
  then have "0 < cl_max_rows c" by (simp add: clear_layout_ok_def Let_def)
  from copy_rows_tile [OF this order.refl, of "cl_height c"] obtain rows where
    rows: "copy_rows (cl_height c) (cl_height c) (cl_max_rows c) = Some rows" "row_tiles 0 rows (unat (cl_height c))"
      "\<And>y k. (y, k) \<in> set rows \<Longrightarrow> unat k \<le> unat (cl_max_rows c) \<and> unat y + unat k \<le> unat (cl_height c)"
    by fastforce
  show thesis
    by (rule that [OF c(2) rows(2,3)])
      (simp_all add: mip_clear_regions_def c rows(1) case_prod_unfold those_map_Some
        [where f = "\<lambda>p. Some (map (clear_region c (of_nat mip) (of_nat (fst p)) (of_nat (snd p))) rows)"])
qed

lemma unat_of_nat_below: "x < unat (w :: u32) \<Longrightarrow> unat (of_nat x :: u32) = x"
  using unsigned_less [of w, where 'a = nat] by (intro unat_of_nat_u32) simp

lemma mip_slice_cleared:
  assumes c: "clear_layout_ok d pitch sz c" and sz: "desc_mip_level_size d mip = Some sz"
    and rows: "row_tiles 0 rows (unat (cl_height c))"
    and l: "layer \<in> iv layers" and z: "z < cl_depth c"
    and rs: "filter (region_at mip layer z) regions = filter (region_at mip layer z) (concat (map (\<lambda>(l, z).
       map (clear_region c mip (of_nat l) (of_nat z)) rows) (List.product (range_indices layers) [0..<unat (cl_depth c)])))"
  shows "slice_cleared d regions mip layer z"
proof -
  let ?f = "\<lambda>(l, z). map (clear_region c mip (of_nat l) (of_nat z)) rows"
  have mem: "(unat layer, unat z) \<in> set (List.product (range_indices layers) [0..<unat (cl_depth c)])"
    using l z by (simp add: iv_def range_indices_def word_le_nat_alt word_less_nat_alt)
  have "filter (region_at mip layer z) (?f p) = []"
    if "p \<in> set (List.product (range_indices layers) [0..<unat (cl_depth c)])" "p \<noteq> (unat layer, unat z)" for p
    using that by (auto simp: filter_empty_conv range_indices_def word_unat_eq_iff unat_of_nat_below)
  then have "filter (region_at mip layer z) regions = filter (region_at mip layer z) (?f (unat layer, unat z))"
    unfolding rs by (intro filter_concat_key [OF _ mem]) (simp_all add: distinct_product range_indices_def)
  then have "filter (region_at mip layer z) regions = map (clear_region c mip layer z) rows"
    by (simp add: filter_map comp_def)
  with sz c rows show ?thesis
    by (simp add: slice_cleared_def Let_def clear_layout_ok_def comp_def)
qed


lemma clear_region_in_texture:
  assumes c: "clear_layout_ok d pitch sz c" and sz: "desc_mip_level_size d mip = Some sz"
    and l: "layer < array_layer_count d" and z: "unat z < unat (cl_depth c)"
    and rows: "unat (fst rows) + unat (snd rows) \<le> unat (cl_height c)"
    and planar: "\<not> is_multi_planar_format (td_format d)"
  shows "region_in_texture d (btc_base (clear_region c mip layer z rows)) (btc_size (clear_region c mip layer z rows))"
  using assms by (auto simp: region_in_texture_def region_in_area_def plane_factors_def clear_layout_ok_def Let_def split: if_splits)

definition clear_piece :: "texture_init_range \<Rightarrow> clear_layout \<Rightarrow> (u32 \<times> u32) list \<Rightarrow> nat \<Rightarrow> buffer_texture_copy list" where
  "clear_piece rg c rows m = concat (map (\<lambda>(l, z). map (clear_region c (of_nat m) (of_nat l) (of_nat z)) rows)
       (List.product (range_indices (layer_range rg)) [0..<unat (cl_depth c)]))"

definition pieces_ok ::
  "texture_descriptor \<Rightarrow> u32 \<Rightarrow> texture_init_range \<Rightarrow> (nat \<Rightarrow> extent3d) \<Rightarrow> (nat \<Rightarrow> clear_layout) \<Rightarrow> (nat \<Rightarrow> (u32 \<times> u32) list) \<Rightarrow> bool" where
  "pieces_ok d pitch rg S C R \<longleftrightarrow>
     (\<forall>m \<in> set (range_indices (mip_range rg)). desc_mip_level_size d (of_nat m) = Some (S m)
        \<and> clear_layout_ok d pitch (S m) (C m) \<and> row_tiles 0 (R m) (unat (cl_height (C m)))
        \<and> (\<forall>r \<in> set (R m). unat (snd r) \<le> unat (cl_max_rows (C m)) \<and> unat (fst r) + unat (snd r) \<le> unat (cl_height (C m))))"

definition clear_regions ::
  "texture_init_range \<Rightarrow> (nat \<Rightarrow> clear_layout) \<Rightarrow> (nat \<Rightarrow> (u32 \<times> u32) list) \<Rightarrow> buffer_texture_copy list" where
  "clear_regions rg C R = concat (map (\<lambda>m. clear_piece rg (C m) (R m) m) (range_indices (mip_range rg)))"

lemma clear_pieces:
  assumes f: "\<not> is_depth_stencil_format (td_format d)" "\<not> is_multi_planar_format (td_format d)"
    and dims: "unat (ext_width (td_size d)) \<le> 2 ^ 14" "unat (ext_height (td_size d)) \<le> 2 ^ 14"
    and pitch: "0 < unat pitch" "unat pitch \<le> 256" and mips: "rend (mip_range rg) \<le> td_mip_level_count d"
  obtains S C R where "pieces_ok d pitch rg S C R"
    "clear_texture_via_buffer_copies d pitch rg idx = Some [HcCopyBufferToTexture None idx (clear_regions rg C R)]"
proof -
  let ?ms = "range_indices (mip_range rg)"
  have "\<exists>sz c rows. desc_mip_level_size d (of_nat m) = Some sz \<and> clear_layout_ok d pitch sz c
      \<and> row_tiles 0 rows (unat (cl_height c))
      \<and> (\<forall>r \<in> set rows. unat (snd r) \<le> unat (cl_max_rows c) \<and> unat (fst r) + unat (snd r) \<le> unat (cl_height c))
      \<and> mip_clear_regions d pitch (layer_range rg) m = Some (clear_piece rg c rows m)" if "m \<in> set ?ms" for m
  proof -
    have "unat (of_nat m :: u32) < unat (td_mip_level_count d)"
      using that mips unat_of_nat_below [of m "rend (mip_range rg)"]
      by (simp add: range_indices_def word_le_nat_alt)
    then obtain sz where sz: "desc_mip_level_size d (of_nat m) = Some sz"
      by (auto simp: desc_mip_level_size_def word_le_nat_alt)
    show ?thesis
      using mip_clear_regions_ok [OF f sz dims pitch, of "layer_range rg" ?thesis] sz
      unfolding clear_piece_def by fastforce
  qed
  then obtain S C R where p: "\<And>m. m \<in> set ?ms \<Longrightarrow> desc_mip_level_size d (of_nat m) = Some (S m)
      \<and> clear_layout_ok d pitch (S m) (C m) \<and> row_tiles 0 (R m) (unat (cl_height (C m)))
      \<and> (\<forall>r \<in> set (R m). unat (snd r) \<le> unat (cl_max_rows (C m)) \<and> unat (fst r) + unat (snd r) \<le> unat (cl_height (C m)))
      \<and> mip_clear_regions d pitch (layer_range rg) m = Some (clear_piece rg (C m) (R m) m)"
    by metis
  then have ok: "pieces_ok d pitch rg S C R" by (simp add: pieces_ok_def)
  have "those (map (mip_clear_regions d pitch (layer_range rg)) ?ms) = Some (map (\<lambda>m. clear_piece rg (C m) (R m) m) ?ms)"
    using p by (intro those_map_Some) blast
  then have "clear_texture_via_buffer_copies d pitch rg idx = Some [HcCopyBufferToTexture None idx (clear_regions rg C R)]"
    using f by (simp add: clear_texture_via_buffer_copies_def clear_regions_def del: is_depth_stencil_format_iff)
  with ok show thesis by (rule that)
qed

lemma clear_regions_inside:
  assumes ok: "pieces_ok d pitch rg S C R" and layers: "rend (layer_range rg) \<le> array_layer_count d"
    and planar: "\<not> is_multi_planar_format (td_format d)" and r: "r \<in> set (clear_regions rg C R)"
  shows "region_in_texture d (btc_base r) (btc_size r)"
    and "\<exists>b. tbl_bytes_per_row (btc_layout r) = Some b \<and> unat pitch dvd unat b"
    and "block_copy_size (td_format d) None = Some n \<Longrightarrow> region_in_buffer (td_format d) n (unat ZERO_BUFFER_SIZE) r"
proof -
  obtain m l z row where rr: "r = clear_region (C m) (of_nat m) (of_nat l) (of_nat z) row"
    and mem: "m \<in> set (range_indices (mip_range rg))" "l \<in> set (range_indices (layer_range rg))"
      "z < unat (cl_depth (C m))" "row \<in> set (R m)"
    using r by (auto simp: clear_regions_def clear_piece_def)
  have p: "desc_mip_level_size d (of_nat m) = Some (S m)" "clear_layout_ok d pitch (S m) (C m)"
    "unat (snd row) \<le> unat (cl_max_rows (C m))" "unat (fst row) + unat (snd row) \<le> unat (cl_height (C m))"
    using ok mem(1,4) by (auto simp: pieces_ok_def)
  have l: "(of_nat l :: u32) < array_layer_count d"
    using mem(2) layers unat_of_nat_below [of l "rend (layer_range rg)"]
    by (auto simp: range_indices_def word_le_nat_alt word_less_nat_alt)
  have z: "unat (of_nat z :: u32) < unat (cl_depth (C m))" using mem(3) by (simp add: unat_of_nat_below)
  show "region_in_texture d (btc_base r) (btc_size r)"
    unfolding rr by (rule clear_region_in_texture [OF p(2,1) l z p(4) planar])
  show "\<exists>b. tbl_bytes_per_row (btc_layout r) = Some b \<and> unat pitch dvd unat b"
    using p(2) by (simp add: rr clear_layout_ok_def Let_def)
  have zero: "unat ZERO_BUFFER_SIZE = 2 ^ 19" by (simp add: ZERO_BUFFER_SIZE_def)
  show "region_in_buffer (td_format d) n (unat ZERO_BUFFER_SIZE) r" if "block_copy_size (td_format d) None = Some n"
    unfolding rr zero by (rule clear_region_in_buffer [OF p(2) that p(3)])
qed

lemma clear_regions_slice:
  assumes ok: "pieces_ok d pitch rg S C R"
    and mip: "mip \<in> iv (mip_range rg)" and l: "layer \<in> iv (layer_range rg)"
    and sz: "desc_mip_level_size d mip = Some sz" and z: "z < (if td_dimension d = D3 then depth_or_array_layers sz else 1)"
  shows "slice_cleared d (clear_regions rg C R) mip layer z"
proof -
  let ?ms = "range_indices (mip_range rg)"
  have m: "unat mip \<in> set ?ms" using mip by (simp add: iv_def range_indices_def word_le_nat_alt word_less_nat_alt)
  then have p: "desc_mip_level_size d mip = Some (S (unat mip))" "clear_layout_ok d pitch (S (unat mip)) (C (unat mip))"
    "row_tiles 0 (R (unat mip)) (unat (cl_height (C (unat mip))))"
    using ok by (auto simp: pieces_ok_def)
  have S: "S (unat mip) = sz" using p(1) sz by simp
  have "filter (region_at mip layer z) (clear_piece rg (C m') (R m') m') = []" if "m' \<in> set ?ms" "m' \<noteq> unat mip" for m'
    using that by (auto simp: clear_piece_def filter_empty_conv range_indices_def word_unat_eq_iff unat_of_nat_below)
  then have key: "filter (region_at mip layer z) (clear_regions rg C R)
      = filter (region_at mip layer z) (clear_piece rg (C (unat mip)) (R (unat mip)) (unat mip))"
    unfolding clear_regions_def by (intro filter_concat_key [OF _ m]) (simp_all add: range_indices_def)
  have "z < cl_depth (C (unat mip))" using p(2) z by (simp add: S clear_layout_ok_def Let_def)
  with p key show ?thesis
    unfolding clear_piece_def by (intro mip_slice_cleared [OF _ sz _ l, of pitch "C (unat mip)" "R (unat mip)"]) (simp_all add: S)
qed

text \<open>C14: Take a texture that is neither depth or stencil (whose clear by copies is a panic) nor multi-planar
  (whose clear by copies copies nothing), at most \<open>2 ^ 14\<close> texels wide and high, a copy pitch of the backend from
  1 to 256, and a range within the mip levels and layers of the texture. Clearing the range by copies from the
  zero buffer is exact. The loop over the rows and the least common multiple of the alignments terminate, the
  assertion that a row fits the zero buffer holds, each copy reads inside the zero buffer with the pitch of
  the backend and writes inside the texture, and every row of every slice of the range is written by exactly
  one copy.\<close>

theorem clear_copies_exact:
  assumes f: "\<not> is_depth_stencil_format (td_format d)" "\<not> is_multi_planar_format (td_format d)"
    and dims: "unat (ext_width (td_size d)) \<le> 2 ^ 14" "unat (ext_height (td_size d)) \<le> 2 ^ 14"
    and pitch: "0 < unat pitch" "unat pitch \<le> 256"
    and range: "rend (mip_range rg) \<le> td_mip_level_count d" "rend (layer_range rg) \<le> array_layer_count d"
  shows "case clear_texture_via_buffer_copies d pitch rg idx of
      Some [HcCopyBufferToTexture None dst regions] \<Rightarrow>
        dst = idx
        \<and> (\<forall>r \<in> set regions. region_in_texture d (btc_base r) (btc_size r)
             \<and> (\<exists>b. tbl_bytes_per_row (btc_layout r) = Some b \<and> unat pitch dvd unat b)
             \<and> (\<forall>n. block_copy_size (td_format d) None = Some n \<longrightarrow>
                    region_in_buffer (td_format d) n (unat ZERO_BUFFER_SIZE) r))
        \<and> (\<forall>mip \<in> iv (mip_range rg). \<forall>layer \<in> iv (layer_range rg). \<forall>z. \<forall>sz. desc_mip_level_size d mip = Some sz
             \<longrightarrow> z < (if td_dimension d = D3 then depth_or_array_layers sz else 1)
             \<longrightarrow> slice_cleared d regions mip layer z)
    | _ \<Rightarrow> False"
proof -
  obtain S C R where ok: "pieces_ok d pitch rg S C R"
    and run: "clear_texture_via_buffer_copies d pitch rg idx
      = Some [HcCopyBufferToTexture None idx (clear_regions rg C R)]"
    using clear_pieces [OF f dims pitch range(1)] by blast
  show ?thesis
    unfolding run
    using clear_regions_inside [OF ok range(2) f(2)] clear_regions_slice [OF ok] by simp
qed

text \<open>A compressed texture with partial blocks at its edges.\<close>

definition edge_texture :: texture_descriptor where
  "edge_texture = \<lparr>td_size = \<lparr>ext_width = 12, ext_height = 8, depth_or_array_layers = 3\<rparr>, td_mip_level_count = 2,
     td_sample_count = 1, td_dimension = D2, td_format = Bc1RgbaUnorm, td_usage = tu_copy_dst, td_view_formats = []\<rparr>"

theorem clear_copies_exact_witness:
  "case clear_texture_via_buffer_copies edge_texture 256 \<lparr>mip_range = Range 1 2, layer_range = Range 1 3\<rparr> 7 of
     Some [HcCopyBufferToTexture None dst regions] \<Rightarrow> dst = 7 \<and> slice_cleared edge_texture regions 1 2 0
   | _ \<Rightarrow> False"
proof -
  let ?rg = "\<lparr>mip_range = Range 1 2, layer_range = Range 1 3\<rparr>"
  have e: "desc_mip_level_size edge_texture 1 = Some \<lparr>ext_width = 6, ext_height = 4, depth_or_array_layers = 3\<rparr>"
    "td_dimension edge_texture = D2" "td_format edge_texture = Bc1RgbaUnorm" "td_mip_level_count edge_texture = 2"
    "td_size edge_texture = \<lparr>ext_width = 12, ext_height = 8, depth_or_array_layers = 3\<rparr>" "array_layer_count edge_texture = 3"
    by (simp_all add: desc_mip_level_size_def edge_texture_def mip_level_size_def shr32_def array_layer_count_def word_le_nat_alt)
  have "(1 :: u32) \<in> iv (Range 1 2)" "(2 :: u32) \<in> iv (Range 1 3)" by (simp_all add: iv_def)
  then have "slice_cleared edge_texture rs 1 2 0"
    if "\<forall>m \<in> iv (Range 1 2). desc_mip_level_size edge_texture m = None
      \<or> (\<forall>l \<in> iv (Range 1 3). slice_cleared edge_texture rs m l 0)" for rs
    using that e(1) by (metis option.distinct(1))
  with clear_copies_exact [of edge_texture 256 ?rg 7] e show ?thesis
    by (auto split: option.splits list.splits hal_command.splits)
qed


section \<open>A clear behind the last mip level\<close>

text \<open>
  The check of the range only compares starts with starts and ends with ends. Without a count, a base
  level behind the last one gives a range that ends before it starts, which passes the check, and the
  tracker then indexes its mip levels with it (\<open>get_unchecked_mut\<close> in the source).
\<close>

definition fresh_encoding :: encoding_state where
  "fresh_encoding = \<lparr>en_buffers = new_buffer_tracker 0, en_textures = new_texture_usage_tracker 0, en_buffer_actions = [],
     en_texture_actions = no_memory_actions, en_commands = []\<rparr>"

definition two_level_texture :: texture where
  "two_level_texture = \<lparr>tex_index = 0, tex_device = 0, tex_destroyed = False, tex_desc = edge_texture,
     tex_hal_usage = tx_copy_dst, tex_format_features = \<lparr>allowed_usages = tu_copy_dst, format_flags = 0\<rparr>,
     tex_init = \<lparr>mips = [new_tracker 3, new_tracker 3]\<rparr>,
     tex_full_range = \<lparr>sel_mips = Range 0 2, sel_layers = Range 0 3\<rparr>, tex_clear_mode = ClearBufferCopy\<rparr>"

definition past_the_end :: image_subresource_range where
  "past_the_end = \<lparr>isr_aspect = AspectAll, isr_base_mip_level = 5, isr_mip_level_count = None,
     isr_base_array_layer = 0, isr_array_layer_count = None\<rparr>"

lemma clear_past_the_end_checked:
  "clear_texture_range (basic_device\<lparr>dev_features := clear_texture_feature\<rparr>) two_level_texture past_the_end
     = Inr \<lparr>mip_range = Range 5 2, layer_range = Range 0 3\<rparr>"
proof -
  have "features_contain clear_texture_feature clear_texture_feature" "fa_color AND fa_all \<noteq> 0" by code_simp+
  then show ?thesis
    by (simp add: clear_texture_range_def two_level_texture_def past_the_end_def basic_device_def isr_mip_range_def
        isr_layer_range_def texture_same_device_def require_features_def format_aspects_new_def format_aspects_from_def
        edge_texture_def word_less_nat_alt Let_def)
qed

lemma clear_past_the_end:
  "clear_texture_cmd (basic_device\<lparr>dev_features := clear_texture_feature\<rparr>) two_level_texture past_the_end fresh_encoding = None"
proof -
  have "tt_set_single \<lparr>tr_index = 0, tr_full_range = \<lparr>sel_mips = Range 0 2, sel_layers = Range 0 3\<rparr>\<rparr>
      \<lparr>sel_mips = Range 5 2, sel_layers = Range 0 3\<rparr> tx_copy_dst (new_texture_usage_tracker 0) = None"
    by code_simp
  then show ?thesis
    by (simp add: clear_texture_cmd_def clear_past_the_end_checked en_bind_def en_lift_def en_clear_texture_def
        clear_texture_def clear_usage_def)
      (simp add: two_level_texture_def fresh_encoding_def)
qed

end
