(* ===== verification/TextureInit.thy ===== *)
theory TextureInit
  imports Encoding
begin

text \<open>
  The texture memory of a command buffer at submission, \<open>BakedCommands::initialize_texture_memory\<close> of
  \<open>wgpu-core/src/command/memory_init.rs\<close>: the clears inserted for the recorded actions, through
  \<open>clear_texture\<close> of the theory \<open>Encoding\<close> with the texture tracker of the device, and the discards that
  the command buffer leaves behind.
\<close>

section \<open>The submission\<close>

text \<open>A destroyed texture is an error of the submission, any other error of a clear a panic.\<close>

definition only_destroyed :: "clear_error \<Rightarrow> nat option" where
  "only_destroyed e = (case e of CeDestroyed i \<Rightarrow> Some i | _ \<Rightarrow> None)"

text \<open>The clears of a list of ranges, each of a texture, until one fails.\<close>

fun clear_ranges ::
  "device \<Rightarrow> (nat \<Rightarrow> texture) \<Rightarrow> (nat \<times> texture_init_range) list \<Rightarrow> device_texture_tracker
   \<Rightarrow> ((nat + unit) \<times> device_texture_tracker \<times> hal_command list) option" where
  "clear_ranges dev texs [] tracker = Some (Inr (), tracker, [])"
| "clear_ranges dev texs ((x, rg) # rest) tracker =
     (case clear_texture dev dtt_set_single (texs x) rg tracker of
        None \<Rightarrow> None
      | Some (Inl e, tracker', cs) \<Rightarrow> map_option (\<lambda>i. (Inl i, tracker', cs)) (only_destroyed e)
      | Some (Inr _, tracker', cs) \<Rightarrow>
          map_option (\<lambda>(r, final, cs'). (r, final, cs @ cs')) (clear_ranges dev texs rest tracker'))"

type_synonym texture_status = "nat \<Rightarrow> texture_init_tracker"

text \<open>
  The loop over the recorded actions: the mip levels an action selects are drained, and the ranges it needs
  are cleared. A failing clear ends the submission; the levels drained so far stay drained.
\<close>

fun texture_clears ::
  "device \<Rightarrow> (nat \<Rightarrow> texture) \<Rightarrow> texture_init_tracker_action list \<Rightarrow> texture_status \<Rightarrow> device_texture_tracker
   \<Rightarrow> ((nat + unit) \<times> texture_status \<times> device_texture_tracker \<times> hal_command list) option" where
  "texture_clears dev texs [] status tracker = Some (Inr (), status, tracker, [])"
| "texture_clears dev texs (a # as) status tracker =
     (let x = ti_texture a; mip = mip_range (ti_range a);
          (rs, ts) = drain_mips (unat (rstart mip)) (unat (rend mip - rstart mip))
                       (layer_range (ti_range a)) 0 (mips (status x));
          status' = status(x := (status x)\<lparr>mips := ts\<rparr>);
          ranges = (if ti_kind a = NeedsInitializedMemory then rs else [])
      in case clear_ranges dev texs (map (Pair x) ranges) tracker of
           None \<Rightarrow> None
         | Some (Inl i, tracker', cs) \<Rightarrow> Some (Inl i, status', tracker', cs)
         | Some (Inr _, tracker', cs) \<Rightarrow>
             map_option (\<lambda>(r, final, tracker'', cs'). (r, final, tracker'', cs @ cs'))
               (texture_clears dev texs as status' tracker'))"

text \<open>The discards that outlive the command buffer; a mip level out of range panics.\<close>

fun apply_discards :: "texture_surface_discard list \<Rightarrow> texture_status \<Rightarrow> texture_status option" where
  "apply_discards [] status = Some status"
| "apply_discards (d # ds) status =
     (case texture_discard (status (sd_texture d)) (sd_mip_level d) (sd_layer d) of
        None \<Rightarrow> None
      | Some t \<Rightarrow> apply_discards ds (status(sd_texture d := t)))"

definition initialize_texture_memory ::
  "device \<Rightarrow> (nat \<Rightarrow> texture) \<Rightarrow> texture_memory_actions \<Rightarrow> texture_status \<Rightarrow> device_texture_tracker
   \<Rightarrow> ((nat + unit) \<times> texture_status \<times> device_texture_tracker \<times> hal_command list) option" where
  "initialize_texture_memory dev texs m status tracker =
     (case texture_clears dev texs (init_actions m) status tracker of
        None \<Rightarrow> None
      | Some (Inl i, status', tracker', cs) \<Rightarrow> Some (Inl i, status', tracker', cs)
      | Some (Inr _, status', tracker', cs) \<Rightarrow>
          map_option (\<lambda>final. (Inr (), final, tracker', cs)) (apply_discards (discards m) status'))"

section \<open>What the submission clears\<close>

lemma clear_ranges_append:
  "clear_ranges dev texs (xs @ ys) tracker =
     (case clear_ranges dev texs xs tracker of
        None \<Rightarrow> None
      | Some (Inl i, tracker', cs) \<Rightarrow> Some (Inl i, tracker', cs)
      | Some (Inr _, tracker', cs) \<Rightarrow>
          map_option (\<lambda>(r, final, cs'). (r, final, cs @ cs')) (clear_ranges dev texs ys tracker'))"
proof (induction dev texs xs tracker rule: clear_ranges.induct)
  case (1 dev texs tracker)
  show ?case by (cases "clear_ranges dev texs ys tracker") auto
next
  case (2 dev texs x rg rest tracker)
  show ?case
    using 2 by (auto simp: only_destroyed_def option.map_comp comp_def case_prod_unfold split: option.splits sum.splits)
qed

text \<open>The run of the loop, when the clears it asks for run to their end or fail.\<close>

definition clears_like ::
  "((nat + unit) \<times> device_texture_tracker \<times> hal_command list) option \<Rightarrow> texture_status
   \<Rightarrow> ((nat + unit) \<times> texture_status \<times> device_texture_tracker \<times> hal_command list) option \<Rightarrow> bool" where
  "clears_like run final res \<longleftrightarrow>
     (case run of
        None \<Rightarrow> res = None
      | Some (Inl i, tracker, cs) \<Rightarrow> (\<exists>s. res = Some (Inl i, s, tracker, cs))
      | Some (Inr _, tracker, cs) \<Rightarrow> res = Some (Inr (), final, tracker, cs))"

lemma clears_like_seq:
  assumes like: "\<And>k. clears_like (f k) final (g k)"
  shows "clears_like
    (case r of None \<Rightarrow> None | Some (Inl i, k, cs) \<Rightarrow> Some (Inl i, k, cs)
       | Some (Inr u, k, cs) \<Rightarrow> map_option (\<lambda>(r, final, cs'). (r, final, cs @ cs')) (f k)) final
    (case r of None \<Rightarrow> None | Some (Inl i, k, cs) \<Rightarrow> Some (Inl i, s, k, cs)
       | Some (Inr u, k, cs) \<Rightarrow> map_option (\<lambda>(r, final, k', cs'). (r, final, k', cs @ cs')) (g k))"
proof (cases r)
  case (Some p)
  obtain q k cs where p: "p = (q, k, cs)" by (cases p)
  show ?thesis
    using like [of k] Some p by (cases q; cases "f k") (auto simp: clears_like_def split: sum.splits)
qed (simp add: clears_like_def)

lemma texture_clears_refine:
  assumes "\<forall>x. texture_wf (status x)" and "\<forall>a\<in>set acts. tex_action_ok a"
  shows "\<exists>todo final. (\<forall>x. texture_wf (final x)
         \<and> texture_uninit (final x) = texture_uninit (status x) - tex_touched acts x
         \<and> tex_cleared todo x = texture_uninit (status x) \<inter> tex_needed_first acts x)
    \<and> (\<forall>tracker. clears_like (clear_ranges dev texs todo tracker) final (texture_clears dev texs acts status tracker))"
  using assms
proof (induction acts arbitrary: status)
  case Nil
  then show ?case by (intro exI [of _ "[]"] exI [of _ status]) (simp add: tex_cleared_def clears_like_def)
next
  case (Cons a acts)
  let ?x = "ti_texture a"
  obtain rs ts where d: "drain_mips (unat (rstart (mip_range (ti_range a))))
      (unat (rend (mip_range (ti_range a)) - rstart (mip_range (ti_range a))))
      (layer_range (ti_range a)) 0 (mips (status ?x)) = (rs, ts)" by fastforce
  define status' where "status' = status(?x := (status ?x)\<lparr>mips := ts\<rparr>)"
  define ranges where "ranges = (if ti_kind a = NeedsInitializedMemory then rs else [])"
  have wf: "texture_wf (status ?x)" and ok: "tex_action_ok a" using Cons.prems by simp_all
  note t = drain_texture [OF wf ok d]
  have wf': "\<forall>x. texture_wf (status' x)" using Cons.prems(1) t(1) by (simp add: status'_def)
  have "\<forall>a\<in>set acts. tex_action_ok a" using Cons.prems(2) by simp
  from Cons.IH [OF wf' this] obtain todo final where all: "\<forall>x. texture_wf (final x)
      \<and> texture_uninit (final x) = texture_uninit (status' x) - tex_touched acts x
      \<and> tex_cleared todo x = texture_uninit (status' x) \<inter> tex_needed_first acts x"
    and like: "\<forall>tracker. clears_like (clear_ranges dev texs todo tracker) final (texture_clears dev texs acts status' tracker)"
    by blast
  then have IH: "texture_wf (final x)" "texture_uninit (final x) = texture_uninit (status' x) - tex_touched acts x"
    "tex_cleared todo x = texture_uninit (status' x) \<inter> tex_needed_first acts x"
    "clears_like (clear_ranges dev texs todo tracker) final (texture_clears dev texs acts status' tracker)" for x tracker
    by simp_all
  have run: "texture_clears dev texs (a # acts) status tracker =
      (case clear_ranges dev texs (map (Pair ?x) ranges) tracker of
           None \<Rightarrow> None
         | Some (Inl i, tracker', cs) \<Rightarrow> Some (Inl i, status', tracker', cs)
         | Some (Inr _, tracker', cs) \<Rightarrow>
             map_option (\<lambda>(r, final, tracker'', cs'). (r, final, tracker'', cs @ cs'))
               (texture_clears dev texs acts status' tracker'))" for tracker
    unfolding status'_def by (simp add: Let_def d ranges_def [symmetric])
  have un: "texture_uninit (status' x) = texture_uninit (status x)
      - (if ?x = x then subresources (ti_range a) else {})" for x
    using t(2) by (auto simp: status'_def)
  have cl: "tex_cleared (map (Pair ?x) ranges) x =
      (if ?x = x \<and> ti_kind a = NeedsInitializedMemory
       then texture_uninit (status x) \<inter> subresources (ti_range a) else {})" for x
    using t(3) by (simp add: tex_cleared_map ranges_def)
  have "texture_uninit (final x) = texture_uninit (status x) - tex_touched (a # acts) x" for x
    unfolding IH(2) un by auto
  moreover have "tex_cleared (map (Pair ?x) ranges @ todo) x =
      texture_uninit (status x) \<inter> tex_needed_first (a # acts) x" for x
    unfolding tex_cleared_append cl IH(3) un by (cases "ti_kind a") auto
  moreover have "clears_like (clear_ranges dev texs (map (Pair ?x) ranges @ todo) tracker) final
      (texture_clears dev texs (a # acts) status tracker)" for tracker
    unfolding run clear_ranges_append by (rule clears_like_seq) (rule IH(4))
  ultimately show ?case using IH(1) by blast
qed

text \<open>C35: Let the mip trackers of the textures be well formed (sorted, disjoint ranges, which \<open>drain\<close> keeps and
  a discard behind a gap breaks, see C26), and the recorded actions have ordered ranges. Then
  \<open>initialize_texture_memory\<close> performs one sequence of calls of \<open>clear_texture\<close> that clears of every texture
  exactly the uninitialised subresources that the first action covering them needs. A panic of a clear
  is a panic of the submission; when a texture to clear has been destroyed the submission fails with it,
  after the commands encoded so far; any other error of a clear is a panic; and when all clears succeed, the
  encoder holds exactly their commands and barriers, every subresource that an action covers has become
  initialised and no other, and to this the discards of the command buffer are applied in order.\<close>

theorem texture_init_refines:
  assumes "\<forall>x. texture_wf (status x)" and "\<forall>a\<in>set (init_actions m). tex_action_ok a"
  shows "\<exists>todo final. (\<forall>x. texture_wf (final x)
         \<and> texture_uninit (final x) = texture_uninit (status x) - tex_touched (init_actions m) x
         \<and> tex_cleared todo x = texture_uninit (status x) \<inter> tex_needed_first (init_actions m) x)
    \<and> (case clear_ranges dev texs todo tracker of
         None \<Rightarrow> initialize_texture_memory dev texs m status tracker = None
       | Some (Inl i, tracker', cs) \<Rightarrow>
           (\<exists>s. initialize_texture_memory dev texs m status tracker = Some (Inl i, s, tracker', cs))
       | Some (Inr _, tracker', cs) \<Rightarrow>
           initialize_texture_memory dev texs m status tracker
             = map_option (\<lambda>s. (Inr (), s, tracker', cs)) (apply_discards (discards m) final))"
proof -
  obtain todo final where *: "\<forall>x. texture_wf (final x)
         \<and> texture_uninit (final x) = texture_uninit (status x) - tex_touched (init_actions m) x
         \<and> tex_cleared todo x = texture_uninit (status x) \<inter> tex_needed_first (init_actions m) x"
    and run: "clears_like (clear_ranges dev texs todo tracker) final (texture_clears dev texs (init_actions m) status tracker)"
    using texture_clears_refine [OF assms] by blast
  show ?thesis
    by (intro exI [of _ todo] exI [of _ final] conjI *)
      (use run in \<open>auto simp: clears_like_def initialize_texture_memory_def split: option.splits sum.splits\<close>)
qed

definition second_level_read :: texture_memory_actions where
  "second_level_read = \<lparr>init_actions = [\<lparr>ti_texture = 0, ti_range = \<lparr>mip_range = Range 1 2, layer_range = Range 0 3\<rparr>,
       ti_kind = NeedsInitializedMemory\<rparr>], discards = [\<lparr>sd_texture = 0, sd_mip_level = 0, sd_layer = 1\<rparr>]\<rparr>"

lemma texture_init_refines_witness:
  "\<exists>todo final. tex_cleared todo 0
        = texture_uninit (tex_init two_level_texture) \<inter> subresources \<lparr>mip_range = Range 1 2, layer_range = Range 0 3\<rparr>
    \<and> texture_uninit (final 0)
        = texture_uninit (tex_init two_level_texture) - subresources \<lparr>mip_range = Range 1 2, layer_range = Range 0 3\<rparr>
    \<and> (case clear_ranges basic_device (\<lambda>_. two_level_texture) todo (new_device_texture_tracker 0) of
         Some (Inr _, tracker', cs) \<Rightarrow>
           initialize_texture_memory basic_device (\<lambda>_. two_level_texture) second_level_read
               (\<lambda>_. tex_init two_level_texture) (new_device_texture_tracker 0)
             = map_option (\<lambda>s. (Inr (), s, tracker', cs)) (apply_discards (discards second_level_read) final)
       | _ \<Rightarrow> True)"
proof -
  let ?s = "\<lambda>_ :: nat. tex_init two_level_texture"
  have "\<forall>x. texture_wf (?s x)"
    by (simp add: two_level_texture_def texture_wf_def tracker_wf_def new_tracker_def MAX_MIP_LEVELS_def)
  moreover have "\<forall>a\<in>set (init_actions second_level_read). tex_action_ok a"
    by (simp add: second_level_read_def tex_action_ok_def)
  ultimately obtain todo final where *: "\<forall>x. texture_wf (final x)
         \<and> texture_uninit (final x) = texture_uninit (?s x) - tex_touched (init_actions second_level_read) x
         \<and> tex_cleared todo x = texture_uninit (?s x) \<inter> tex_needed_first (init_actions second_level_read) x"
    and run: "case clear_ranges basic_device (\<lambda>_. two_level_texture) todo (new_device_texture_tracker 0) of
         None \<Rightarrow> initialize_texture_memory basic_device (\<lambda>_. two_level_texture) second_level_read ?s (new_device_texture_tracker 0) = None
       | Some (Inl i, tracker', cs) \<Rightarrow>
           (\<exists>s. initialize_texture_memory basic_device (\<lambda>_. two_level_texture) second_level_read ?s (new_device_texture_tracker 0)
              = Some (Inl i, s, tracker', cs))
       | Some (Inr _, tracker', cs) \<Rightarrow>
           initialize_texture_memory basic_device (\<lambda>_. two_level_texture) second_level_read ?s (new_device_texture_tracker 0)
             = map_option (\<lambda>s. (Inr (), s, tracker', cs)) (apply_discards (discards second_level_read) final)"
    using texture_init_refines [of ?s second_level_read basic_device "\<lambda>_. two_level_texture" "new_device_texture_tracker 0"]
    by blast
  show ?thesis
    using * [THEN spec, of 0] run
    by (intro exI [of _ todo] exI [of _ final])
      (auto simp: second_level_read_def split: option.splits sum.splits)
qed

end
