(* ===== verification/FormatNames.thy ===== *)
theory FormatNames
  imports Formats
begin

text \<open>
  The serialised form of a texture format (\<open>wgpu-types/src/texture/format.rs\<close>, the \<open>Serialize\<close>
  and \<open>Deserialize\<close> instances): the WebGPU name of each format, the parser of names, and the
  proof that the two are inverse to each other. \<open>None\<close> is the \<open>invalid_value\<close> error.
\<close>

definition astc_block_name :: "astc_block \<Rightarrow> string" where
  "astc_block_name b =
    (case b of
       B4x4 \<Rightarrow> ''4x4'' | B5x4 \<Rightarrow> ''5x4'' | B5x5 \<Rightarrow> ''5x5'' | B6x5 \<Rightarrow> ''6x5'' | B6x6 \<Rightarrow> ''6x6''
     | B8x5 \<Rightarrow> ''8x5'' | B8x6 \<Rightarrow> ''8x6'' | B8x8 \<Rightarrow> ''8x8'' | B10x5 \<Rightarrow> ''10x5'' | B10x6 \<Rightarrow> ''10x6''
     | B10x8 \<Rightarrow> ''10x8'' | B10x10 \<Rightarrow> ''10x10'' | B12x10 \<Rightarrow> ''12x10'' | B12x12 \<Rightarrow> ''12x12'')"

definition astc_channel_name :: "astc_channel \<Rightarrow> string" where
  "astc_channel_name c =
    (case c of AstcUnorm \<Rightarrow> ''unorm'' | AstcUnormSrgb \<Rightarrow> ''unorm-srgb'' | AstcHdr \<Rightarrow> ''hdr'')"

definition format_name :: "texture_format \<Rightarrow> string" where
  "format_name f =
    (case f of
      R8Unorm \<Rightarrow> ''r8unorm'' | R8Snorm \<Rightarrow> ''r8snorm'' | R8Uint \<Rightarrow> ''r8uint''
    | R8Sint \<Rightarrow> ''r8sint'' | R16Uint \<Rightarrow> ''r16uint'' | R16Sint \<Rightarrow> ''r16sint''
    | R16Unorm \<Rightarrow> ''r16unorm'' | R16Snorm \<Rightarrow> ''r16snorm'' | R16Float \<Rightarrow> ''r16float''
    | Rg8Unorm \<Rightarrow> ''rg8unorm'' | Rg8Snorm \<Rightarrow> ''rg8snorm'' | Rg8Uint \<Rightarrow> ''rg8uint''
    | Rg8Sint \<Rightarrow> ''rg8sint'' | R32Uint \<Rightarrow> ''r32uint'' | R32Sint \<Rightarrow> ''r32sint''
    | R32Float \<Rightarrow> ''r32float'' | Rg16Uint \<Rightarrow> ''rg16uint'' | Rg16Sint \<Rightarrow> ''rg16sint''
    | Rg16Unorm \<Rightarrow> ''rg16unorm'' | Rg16Snorm \<Rightarrow> ''rg16snorm'' | Rg16Float \<Rightarrow> ''rg16float''
    | Rgba8Unorm \<Rightarrow> ''rgba8unorm'' | Rgba8UnormSrgb \<Rightarrow> ''rgba8unorm-srgb''
    | Rgba8Snorm \<Rightarrow> ''rgba8snorm'' | Rgba8Uint \<Rightarrow> ''rgba8uint'' | Rgba8Sint \<Rightarrow> ''rgba8sint''
    | Bgra8Unorm \<Rightarrow> ''bgra8unorm'' | Bgra8UnormSrgb \<Rightarrow> ''bgra8unorm-srgb''
    | Rgb10a2Uint \<Rightarrow> ''rgb10a2uint'' | Rgb10a2Unorm \<Rightarrow> ''rgb10a2unorm''
    | Rg11b10Ufloat \<Rightarrow> ''rg11b10ufloat'' | R64Uint \<Rightarrow> ''r64uint'' | Rg32Uint \<Rightarrow> ''rg32uint''
    | Rg32Sint \<Rightarrow> ''rg32sint'' | Rg32Float \<Rightarrow> ''rg32float'' | Rgba16Uint \<Rightarrow> ''rgba16uint''
    | Rgba16Sint \<Rightarrow> ''rgba16sint'' | Rgba16Unorm \<Rightarrow> ''rgba16unorm''
    | Rgba16Snorm \<Rightarrow> ''rgba16snorm'' | Rgba16Float \<Rightarrow> ''rgba16float''
    | Rgba32Uint \<Rightarrow> ''rgba32uint'' | Rgba32Sint \<Rightarrow> ''rgba32sint''
    | Rgba32Float \<Rightarrow> ''rgba32float'' | Stencil8 \<Rightarrow> ''stencil8''
    | Depth32Float \<Rightarrow> ''depth32float'' | Depth16Unorm \<Rightarrow> ''depth16unorm''
    | Depth32FloatStencil8 \<Rightarrow> ''depth32float-stencil8'' | Depth24Plus \<Rightarrow> ''depth24plus''
    | Depth24PlusStencil8 \<Rightarrow> ''depth24plus-stencil8'' | NV12 \<Rightarrow> ''nv12'' | P010 \<Rightarrow> ''p010''
    | Rgb9e5Ufloat \<Rightarrow> ''rgb9e5ufloat'' | Bc1RgbaUnorm \<Rightarrow> ''bc1-rgba-unorm''
    | Bc1RgbaUnormSrgb \<Rightarrow> ''bc1-rgba-unorm-srgb'' | Bc2RgbaUnorm \<Rightarrow> ''bc2-rgba-unorm''
    | Bc2RgbaUnormSrgb \<Rightarrow> ''bc2-rgba-unorm-srgb'' | Bc3RgbaUnorm \<Rightarrow> ''bc3-rgba-unorm''
    | Bc3RgbaUnormSrgb \<Rightarrow> ''bc3-rgba-unorm-srgb'' | Bc4RUnorm \<Rightarrow> ''bc4-r-unorm''
    | Bc4RSnorm \<Rightarrow> ''bc4-r-snorm'' | Bc5RgUnorm \<Rightarrow> ''bc5-rg-unorm''
    | Bc5RgSnorm \<Rightarrow> ''bc5-rg-snorm'' | Bc6hRgbUfloat \<Rightarrow> ''bc6h-rgb-ufloat''
    | Bc6hRgbFloat \<Rightarrow> ''bc6h-rgb-float'' | Bc7RgbaUnorm \<Rightarrow> ''bc7-rgba-unorm''
    | Bc7RgbaUnormSrgb \<Rightarrow> ''bc7-rgba-unorm-srgb'' | Etc2Rgb8Unorm \<Rightarrow> ''etc2-rgb8unorm''
    | Etc2Rgb8UnormSrgb \<Rightarrow> ''etc2-rgb8unorm-srgb'' | Etc2Rgb8A1Unorm \<Rightarrow> ''etc2-rgb8a1unorm''
    | Etc2Rgb8A1UnormSrgb \<Rightarrow> ''etc2-rgb8a1unorm-srgb'' | Etc2Rgba8Unorm \<Rightarrow> ''etc2-rgba8unorm''
    | Etc2Rgba8UnormSrgb \<Rightarrow> ''etc2-rgba8unorm-srgb'' | EacR11Unorm \<Rightarrow> ''eac-r11unorm''
    | EacR11Snorm \<Rightarrow> ''eac-r11snorm'' | EacRg11Unorm \<Rightarrow> ''eac-rg11unorm''
    | EacRg11Snorm \<Rightarrow> ''eac-rg11snorm''
    | Astc b c \<Rightarrow> ''astc-'' @ astc_block_name b @ ''-'' @ astc_channel_name c)"

text \<open>\<open>str::strip_prefix\<close> and \<open>str::split_once\<close> of the standard library.\<close>

definition strip_prefix :: "string \<Rightarrow> string \<Rightarrow> string option" where
  "strip_prefix p s = (if take (length p) s = p then Some (drop (length p) s) else None)"

fun split_once :: "char \<Rightarrow> string \<Rightarrow> (string \<times> string) option" where
  "split_once c [] = None"
| "split_once c (x # s) =
    (if x = c then Some ([], s)
     else case split_once c s of None \<Rightarrow> None | Some (a, b) \<Rightarrow> Some (x # a, b))"

definition parse_astc_block :: "string \<Rightarrow> astc_block option" where
  "parse_astc_block s =
    (if s = ''4x4'' then Some B4x4 else if s = ''5x4'' then Some B5x4
     else if s = ''5x5'' then Some B5x5 else if s = ''6x5'' then Some B6x5
     else if s = ''6x6'' then Some B6x6 else if s = ''8x5'' then Some B8x5
     else if s = ''8x6'' then Some B8x6 else if s = ''8x8'' then Some B8x8
     else if s = ''10x5'' then Some B10x5 else if s = ''10x6'' then Some B10x6
     else if s = ''10x8'' then Some B10x8 else if s = ''10x10'' then Some B10x10
     else if s = ''12x10'' then Some B12x10 else if s = ''12x12'' then Some B12x12 else None)"

definition parse_astc_channel :: "string \<Rightarrow> astc_channel option" where
  "parse_astc_channel s =
    (if s = ''unorm'' then Some AstcUnorm else if s = ''unorm-srgb'' then Some AstcUnormSrgb
     else if s = ''hdr'' then Some AstcHdr else None)"

text \<open>The last arm of the source's \<open>match\<close>.\<close>

definition parse_astc :: "string \<Rightarrow> texture_format option" where
  "parse_astc s = do {
     parts \<leftarrow> strip_prefix ''astc-'' s;
     (block, channel) \<leftarrow> split_once (CHR ''-'') parts;
     b \<leftarrow> parse_astc_block block;
     c \<leftarrow> parse_astc_channel channel;
     Some (Astc b c)
   }"

text \<open>The arms of the \<open>match\<close> on the name, in the order of the source, the first that fits being taken.\<close>

definition format_arms :: "(string \<times> texture_format) list" where
  "format_arms =
    [(''r8unorm'', R8Unorm), (''r8snorm'', R8Snorm), (''r8uint'', R8Uint), (''r8sint'', R8Sint),
     (''r16uint'', R16Uint), (''r16sint'', R16Sint), (''r16unorm'', R16Unorm),
     (''r16snorm'', R16Snorm), (''r16float'', R16Float), (''rg8unorm'', Rg8Unorm),
     (''rg8snorm'', Rg8Snorm), (''rg8uint'', Rg8Uint), (''rg8sint'', Rg8Sint),
     (''r32uint'', R32Uint), (''r32sint'', R32Sint), (''r32float'', R32Float),
     (''rg16uint'', Rg16Uint), (''rg16sint'', Rg16Sint), (''rg16unorm'', Rg16Unorm),
     (''rg16snorm'', Rg16Snorm), (''rg16float'', Rg16Float), (''rgba8unorm'', Rgba8Unorm),
     (''rgba8unorm-srgb'', Rgba8UnormSrgb), (''rgba8snorm'', Rgba8Snorm),
     (''rgba8uint'', Rgba8Uint), (''rgba8sint'', Rgba8Sint), (''bgra8unorm'', Bgra8Unorm),
     (''bgra8unorm-srgb'', Bgra8UnormSrgb), (''rgb10a2uint'', Rgb10a2Uint),
     (''rgb10a2unorm'', Rgb10a2Unorm), (''rg11b10ufloat'', Rg11b10Ufloat),
     (''r64uint'', R64Uint), (''rg32uint'', Rg32Uint), (''rg32sint'', Rg32Sint),
     (''rg32float'', Rg32Float), (''rgba16uint'', Rgba16Uint), (''rgba16sint'', Rgba16Sint),
     (''rgba16unorm'', Rgba16Unorm), (''rgba16snorm'', Rgba16Snorm),
     (''rgba16float'', Rgba16Float), (''rgba32uint'', Rgba32Uint), (''rgba32sint'', Rgba32Sint),
     (''rgba32float'', Rgba32Float), (''stencil8'', Stencil8), (''depth32float'', Depth32Float),
     (''depth32float-stencil8'', Depth32FloatStencil8), (''depth16unorm'', Depth16Unorm),
     (''depth24plus'', Depth24Plus), (''depth24plus-stencil8'', Depth24PlusStencil8),
     (''nv12'', NV12), (''p010'', P010), (''rgb9e5ufloat'', Rgb9e5Ufloat),
     (''bc1-rgba-unorm'', Bc1RgbaUnorm), (''bc1-rgba-unorm-srgb'', Bc1RgbaUnormSrgb),
     (''bc2-rgba-unorm'', Bc2RgbaUnorm), (''bc2-rgba-unorm-srgb'', Bc2RgbaUnormSrgb),
     (''bc3-rgba-unorm'', Bc3RgbaUnorm), (''bc3-rgba-unorm-srgb'', Bc3RgbaUnormSrgb),
     (''bc4-r-unorm'', Bc4RUnorm), (''bc4-r-snorm'', Bc4RSnorm), (''bc5-rg-unorm'', Bc5RgUnorm),
     (''bc5-rg-snorm'', Bc5RgSnorm), (''bc6h-rgb-ufloat'', Bc6hRgbUfloat),
     (''bc6h-rgb-float'', Bc6hRgbFloat), (''bc7-rgba-unorm'', Bc7RgbaUnorm),
     (''bc7-rgba-unorm-srgb'', Bc7RgbaUnormSrgb), (''etc2-rgb8unorm'', Etc2Rgb8Unorm),
     (''etc2-rgb8unorm-srgb'', Etc2Rgb8UnormSrgb), (''etc2-rgb8a1unorm'', Etc2Rgb8A1Unorm),
     (''etc2-rgb8a1unorm-srgb'', Etc2Rgb8A1UnormSrgb), (''etc2-rgba8unorm'', Etc2Rgba8Unorm),
     (''etc2-rgba8unorm-srgb'', Etc2Rgba8UnormSrgb), (''eac-r11unorm'', EacR11Unorm),
     (''eac-r11snorm'', EacR11Snorm), (''eac-rg11unorm'', EacRg11Unorm),
     (''eac-rg11snorm'', EacRg11Snorm)]"

definition visit_str :: "string \<Rightarrow> texture_format option" where
  "visit_str s = (case map_of format_arms s of Some f \<Rightarrow> Some f | None \<Rightarrow> parse_astc s)"

section \<open>Names and formats are inverse\<close>

lemma split_once_Some: "split_once c s = Some (a, b) \<longleftrightarrow> s = a @ c # b \<and> c \<notin> set a"
proof (induction s arbitrary: a)
  case Nil
  then show ?case by simp
next
  case (Cons x s)
  show ?case
  proof (cases a)
    case Nil
    then show ?thesis by (auto split: option.split)
  next
    case (Cons y ys)
    with Cons.IH [of ys] show ?thesis by (cases "x = c") (auto split: option.split)
  qed
qed

lemma strip_prefix_Some: "strip_prefix p s = Some t \<longleftrightarrow> s = p @ t"
  by (auto simp: strip_prefix_def) (metis append_take_drop_id)

lemma parse_astc_block_Some: "parse_astc_block s = Some b \<longleftrightarrow> s = astc_block_name b"
  by (cases b) (auto simp: parse_astc_block_def astc_block_name_def)

lemma parse_astc_channel_Some: "parse_astc_channel s = Some c \<longleftrightarrow> s = astc_channel_name c"
  by (cases c) (auto simp: parse_astc_channel_def astc_channel_name_def)

lemma block_name_no_dash: "CHR ''-'' \<notin> set (astc_block_name b)"
  by (cases b) (simp_all add: astc_block_name_def)

lemma format_name_astc:
  "format_name (Astc b c) = ''astc-'' @ astc_block_name b @ CHR ''-'' # astc_channel_name c"
  by (simp add: format_name_def)

lemma parse_astc_steps:
  "parse_astc s = Some f \<longleftrightarrow>
     (\<exists>parts block channel b c. strip_prefix ''astc-'' s = Some parts
        \<and> split_once (CHR ''-'') parts = Some (block, channel)
        \<and> parse_astc_block block = Some b \<and> parse_astc_channel channel = Some c
        \<and> f = Astc b c)"
  unfolding parse_astc_def by (auto simp: bind_eq_Some_conv split_beta)

lemma parse_astc_Some: "parse_astc s = Some f \<longleftrightarrow> (\<exists>b c. f = Astc b c \<and> s = format_name f)"
  unfolding parse_astc_steps strip_prefix_Some split_once_Some parse_astc_block_Some
    parse_astc_channel_Some
  by (simp only: ex_simps simp_thms) (metis block_name_no_dash format_name_astc)

lemma format_arms_names: "\<forall>(s, f) \<in> set format_arms. s = format_name f"
  by (simp add: format_arms_def format_name_def)

lemma format_arms_astc: "\<forall>(s, f) \<in> set format_arms. take 4 s \<noteq> ''astc''"
  by (simp add: format_arms_def)

lemma format_arms_complete: "(\<exists>b c. f = Astc b c) \<or> map_of format_arms (format_name f) = Some f"
  by (cases f) (simp_all add: format_arms_def format_name_def)

lemma format_arms_none: "map_of format_arms (format_name (Astc b c)) = None"
proof -
  have "take 4 (format_name (Astc b c)) = ''astc''" by (simp add: format_name_astc)
  with format_arms_astc have "(format_name (Astc b c), f) \<notin> set format_arms" for f by force
  then show ?thesis by (auto simp: map_of_eq_None_iff)
qed

lemma visit_format_name: "visit_str (format_name f) = Some f"
proof (cases "\<exists>b c. f = Astc b c")
  case True
  with parse_astc_Some [of "format_name f" f] show ?thesis
    by (auto simp: visit_str_def format_arms_none)
next
  case False
  with format_arms_complete [of f] show ?thesis by (auto simp: visit_str_def)
qed

lemma format_name_inject: "format_name f = format_name g \<longleftrightarrow> f = g"
  by (metis option.inject visit_format_name)

text \<open>Formats are compared by their names.\<close>

instantiation texture_format :: equal
begin

definition equal_texture_format :: "texture_format \<Rightarrow> texture_format \<Rightarrow> bool" where
  "equal_texture_format f g \<longleftrightarrow> format_name f = format_name g"

instance
  by standard (simp add: equal_texture_format_def format_name_inject)

end

text \<open>C30: A name is parsed as a format exactly when it is the name that format is written as: every
  format survives being written and read, two formats never share a name, and nothing but
  the canonical names is accepted.\<close>

theorem format_names_inverse: "visit_str s = Some f \<longleftrightarrow> s = format_name f"
proof
  assume "visit_str s = Some f"
  then show "s = format_name f"
    using format_arms_names parse_astc_Some [of s f]
    by (auto simp: visit_str_def split: option.splits dest: map_of_SomeD)
qed (simp add: visit_format_name)

end
