(* ===== verification/Identity.thy ===== *)
theory Identity
  imports Wgpu_Prelude
begin

text \<open>
  Identifiers and their allocation: the packed identifier of \<open>wgpu-core/src/id.rs\<close>, the
  allocator with epochs of \<open>wgpu-core/src/identity.rs\<close>, and the allocator of tracker indices
  of \<open>wgpu-core/src/track/mod.rs\<close>, which reuses indices without epochs.

  The two allocators share the interface \<open>live_allocator\<close> (live identifiers occupy distinct
  slots); the first also is a \<open>fresh_allocator\<close> (no identifier is issued twice). Both laws
  are relative to the history: the set \<open>I\<close> of the identifiers issued so far, the set \<open>L\<close> of
  the live ones, and the number \<open>n\<close> of allocations, bounded so that no \<open>u32\<close> overflows.
\<close>

unbundle bit_operations_syntax

section \<open>Packed identifiers\<close>

type_synonym raw_id = u64

text \<open>\<open>NonZeroU64::new(v).expect(..)\<close> panics on zero.\<close>

definition zip_id :: "u32 \<Rightarrow> u32 \<Rightarrow> raw_id option" where
  "zip_id index epoch =
     (let v = (ucast index :: u64) OR push_bit 32 (ucast epoch) in
      if v = 0 then None else Some v)"

definition unzip_id :: "raw_id \<Rightarrow> u32 \<times> u32" where
  "unzip_id v = (ucast v, ucast (drop_bit 32 v))"

abbreviation id_index :: "raw_id \<Rightarrow> u32" where "id_index r \<equiv> fst (unzip_id r)"
abbreviation id_epoch :: "raw_id \<Rightarrow> u32" where "id_epoch r \<equiv> snd (unzip_id r)"

datatype serial_id = SerialId u32 u32

definition serial_of_raw :: "raw_id \<Rightarrow> serial_id" where
  "serial_of_raw r = (let (index, epoch) = unzip_id r in SerialId index epoch)"

datatype zero_id_error = ZeroIdError

text \<open>The conversion back: a \<open>Result\<close>, and a panic only if \<open>zip\<close> panicked.\<close>

definition raw_of_serial :: "serial_id \<Rightarrow> (zero_id_error + raw_id) option" where
  "raw_of_serial s =
     (case s of SerialId index epoch \<Rightarrow>
        if index = 0 \<and> epoch = 0 then Some (Inl ZeroIdError)
        else map_option Inr (zip_id index epoch))"

lemma zip_id_bits:
  fixes index epoch :: u32
  defines "v \<equiv> (ucast index :: u64) OR push_bit 32 (ucast epoch)"
  shows "(ucast v :: u32) = index" "(ucast (drop_bit 32 v) :: u32) = epoch"
  unfolding v_def
  by (rule bit_eqI; auto simp: bit_simps dest: bit_imp_le_length)+

lemma unzip_zip: "zip_id i e = Some r \<Longrightarrow> unzip_id r = (i, e)"
proof -
  assume "zip_id i e = Some r"
  then have "r = ucast i OR push_bit 32 (ucast e)"
    by (simp add: zip_id_def Let_def split: if_splits)
  with zip_id_bits [of i e] show ?thesis by (simp only: unzip_id_def)
qed

lemma zip_defined: "zip_id i e = None \<longleftrightarrow> i = 0 \<and> e = 0"
proof
  assume "zip_id i e = None"
  then have "(ucast i :: u64) OR push_bit 32 (ucast e) = 0"
    by (simp add: zip_id_def Let_def split: if_splits)
  then show "i = 0 \<and> e = 0"
    using zip_id_bits [of i e] by simp
qed (simp add: zip_id_def)

lemma zip_of_unzip:
  fixes r :: u64
  shows "(ucast (ucast r :: u32) :: u64) OR push_bit 32 (ucast (ucast (drop_bit 32 r) :: u32)) = r"
  by (rule bit_eqI) (auto simp: bit_simps)

lemma zip_unzip: "r \<noteq> 0 \<Longrightarrow> zip_id (id_index r) (id_epoch r) = Some r"
  by (simp add: zip_id_def unzip_id_def zip_of_unzip)

lemma unzip_inj: "unzip_id r = unzip_id r' \<Longrightarrow> r = r'"
  by (metis (no_types, lifting) fst_conv snd_conv unzip_id_def zip_of_unzip)

section \<open>The identifier allocator\<close>

datatype id_source = External | Allocated | NoSource

text \<open>\<open>free\<close> is a stack, its top at the end of the vector.\<close>

record identity_values =
  free_ids :: "(u32 \<times> u32) list"
  next_index :: u32
  id_count :: u64
  source :: id_source

definition new_identity :: identity_values where
  "new_identity = \<lparr>free_ids = [], next_index = 0, id_count = 0, source = NoSource\<rparr>"

definition alloc_id :: "identity_values \<Rightarrow> (raw_id \<times> identity_values) option" where
  "alloc_id s =
     (if source s = External then None
      else
        let s1 = s\<lparr>source := Allocated, id_count := id_count s + 1\<rparr> in
        if free_ids s1 = [] then
          let index = next_index s1 in
          map_option (\<lambda>r. (r, s1\<lparr>next_index := index + 1\<rparr>)) (zip_id index 1)
        else
          let (index, epoch) = last (free_ids s1) in
          map_option (\<lambda>r. (r, s1\<lparr>free_ids := butlast (free_ids s1)\<rparr>)) (zip_id index (epoch + 1)))"

definition mark_as_used :: "identity_values \<Rightarrow> raw_id \<Rightarrow> (raw_id \<times> identity_values) option" where
  "mark_as_used s r =
     (if source s = Allocated then None
      else Some (r, s\<lparr>source := External, id_count := id_count s + 1\<rparr>))"

definition release_id :: "identity_values \<Rightarrow> raw_id \<Rightarrow> identity_values" where
  "release_id s r =
     (let s1 = (if source s = Allocated then s\<lparr>free_ids := free_ids s @ [unzip_id r]\<rparr> else s) in
      s1\<lparr>id_count := id_count s1 - 1\<rparr>)"

section \<open>The tracker index allocator\<close>

record tracker_index_allocator =
  unused :: "u32 list"
  next_tracker_index :: u32

definition new_tracker_index_allocator :: tracker_index_allocator where
  "new_tracker_index_allocator = \<lparr>unused = [], next_tracker_index = 0\<rparr>"

definition alloc_tracker_index :: "tracker_index_allocator \<Rightarrow> u32 \<times> tracker_index_allocator" where
  "alloc_tracker_index s =
     (if unused s \<noteq> [] then (last (unused s), s\<lparr>unused := butlast (unused s)\<rparr>)
      else (next_tracker_index s, s\<lparr>next_tracker_index := next_tracker_index s + 1\<rparr>))"

definition free_tracker_index :: "tracker_index_allocator \<Rightarrow> u32 \<Rightarrow> tracker_index_allocator" where
  "free_tracker_index s index = s\<lparr>unused := unused s @ [index]\<rparr>"

definition tracker_index_size :: "tracker_index_allocator \<Rightarrow> nat" where
  "tracker_index_size s = unat (next_tracker_index s)"

section \<open>The interfaces\<close>

locale live_allocator =
  fixes invar :: "'s \<Rightarrow> nat \<Rightarrow> 'id set \<Rightarrow> 'id set \<Rightarrow> bool" and bound :: nat
    and alloc :: "'s \<Rightarrow> ('id \<times> 's) option" and release :: "'s \<Rightarrow> 'id \<Rightarrow> 's"
    and slot :: "'id \<Rightarrow> 'k"
  assumes alloc_live: "invar s n I L \<Longrightarrow> n < bound \<Longrightarrow>
      \<exists>r s'. alloc s = Some (r, s') \<and> slot r \<notin> slot ` L \<and> invar s' (Suc n) (insert r I) (insert r L)"
    and release_live: "invar s n I L \<Longrightarrow> r \<in> L \<Longrightarrow> invar (release s r) n I (L - {r})"
    and slots_distinct: "invar s n I L \<Longrightarrow> inj_on slot L"

locale fresh_allocator = live_allocator +
  assumes alloc_fresh: "invar s n I L \<Longrightarrow> n < bound \<Longrightarrow> alloc s = Some (r, s') \<Longrightarrow> r \<notin> I"
    and live_issued: "invar s n I L \<Longrightarrow> L \<subseteq> I"

text \<open>An allocator in use: any sequence of allocations and of releases of live identifiers.\<close>

datatype 'id alloc_event = AllocEv | ReleaseEv 'id

fun run_allocator ::
  "('s \<Rightarrow> ('id \<times> 's) option) \<Rightarrow> ('s \<Rightarrow> 'id \<Rightarrow> 's) \<Rightarrow> 'id alloc_event list \<Rightarrow> 's \<Rightarrow> 'id list \<Rightarrow> 'id list \<Rightarrow>
     ('s \<times> 'id list \<times> 'id list) option" where
  "run_allocator al re [] s issued live = Some (s, issued, live)"
| "run_allocator al re (AllocEv # evs) s issued live =
     (case al s of
        None \<Rightarrow> None
      | Some (r, s') \<Rightarrow> run_allocator al re evs s' (issued @ [r]) (live @ [r]))"
| "run_allocator al re (ReleaseEv r # evs) s issued live =
     (if r \<in> set live then run_allocator al re evs (re s r) issued (removeAll r live)
      else run_allocator al re evs s issued live)"

context live_allocator
begin

lemma run_live:
  assumes "invar s n (set issued) (set live)" "distinct live" "n = length issued"
    and "length issued + length evs \<le> bound"
  shows "\<exists>s' issued' live'. run_allocator alloc release evs s issued live = Some (s', issued', live') \<and>
    invar s' (length issued') (set issued') (set live') \<and> distinct (map slot live') \<and>
    length issued' \<le> length issued + length evs"
  using assms
proof (induction evs arbitrary: s n issued live)
  case Nil
  then show ?case using slots_distinct by (auto simp: distinct_map)
next
  case (Cons ev evs)
  show ?case
  proof (cases ev)
    case AllocEv
    from alloc_live [OF Cons.prems(1)] Cons.prems(3,4) obtain r s' where
      a: "alloc s = Some (r, s')" "slot r \<notin> slot ` set live"
        "invar s' (Suc n) (insert r (set issued)) (insert r (set live))" by auto
    then have "invar s' (Suc n) (set (issued @ [r])) (set (live @ [r]))" "distinct (live @ [r])"
      using Cons.prems(2) by auto
    from Cons.IH [OF this] Cons.prems(3,4) AllocEv a(1) show ?thesis by fastforce
  next
    case (ReleaseEv r)
    show ?thesis
    proof (cases "r \<in> set live")
      case True
      then have "invar (release s r) n (set issued) (set (removeAll r live))"
        using release_live [OF Cons.prems(1) True] by simp
      from Cons.IH [OF this distinct_removeAll [OF Cons.prems(2)] Cons.prems(3)] Cons.prems(4) ReleaseEv True
      show ?thesis by fastforce
    next
      case False
      with Cons.IH [OF Cons.prems(1)] Cons.prems ReleaseEv show ?thesis by fastforce
    qed
  qed
qed

end

context fresh_allocator
begin

lemma run_fresh:
  assumes "invar s n (set issued) (set live)" "distinct live" "distinct issued" "n = length issued"
    and "length issued + length evs \<le> bound"
    and "run_allocator alloc release evs s issued live = Some (s', issued', live')"
  shows "distinct issued' \<and> set live' \<subseteq> set issued'"
  using assms
proof (induction evs arbitrary: s n issued live)
  case Nil
  then show ?case using live_issued by auto
next
  case (Cons ev evs)
  show ?case
  proof (cases ev)
    case AllocEv
    from alloc_live [OF Cons.prems(1)] Cons.prems(4,5) obtain r t where
      a: "alloc s = Some (r, t)" "slot r \<notin> slot ` set live"
        "invar t (Suc n) (insert r (set issued)) (insert r (set live))" by auto
    have "r \<notin> set issued" using alloc_fresh [OF Cons.prems(1) _ a(1)] Cons.prems(4,5) by auto
    with a have "invar t (Suc n) (set (issued @ [r])) (set (live @ [r]))" "distinct (live @ [r])" "distinct (issued @ [r])"
      using Cons.prems(2,3) by auto
    from Cons.IH [OF this] Cons.prems(4-) AllocEv a(1) show ?thesis by fastforce
  next
    case (ReleaseEv r)
    show ?thesis
    proof (cases "r \<in> set live")
      case True
      then have "invar (release s r) n (set issued) (set (removeAll r live))"
        using release_live [OF Cons.prems(1) True] by simp
      from Cons.IH [OF this distinct_removeAll [OF Cons.prems(2)] Cons.prems(3,4)] Cons.prems(5,6) ReleaseEv True
      show ?thesis by simp
    next
      case False
      with Cons.IH [OF Cons.prems(1)] Cons.prems ReleaseEv show ?thesis by fastforce
    qed
  qed
qed

end

section \<open>The allocators implement the interfaces\<close>

text \<open>
  The history invariant of the identifier allocator: a free entry is the newest identifier of
  its index and that index is not live; a live identifier is the newest of its index; nothing
  issued is beyond \<open>next_index\<close>; epochs start at 1 and are bounded by the number of
  allocations.
\<close>

definition identity_inv :: "identity_values \<Rightarrow> nat \<Rightarrow> raw_id set \<Rightarrow> raw_id set \<Rightarrow> bool" where
  "identity_inv v n I L \<longleftrightarrow>
     L \<subseteq> I \<and> finite I \<and> inj_on id_index L \<and> distinct (map fst (free_ids v)) \<and>
     (\<forall>(i, e)\<in>set (free_ids v). i \<notin> id_index ` L \<and> i < next_index v \<and> unat e \<le> n \<and>
        (\<forall>r\<in>I. id_index r = i \<longrightarrow> id_epoch r \<le> e)) \<and>
     (\<forall>l\<in>L. \<forall>r\<in>I. id_index r = id_index l \<longrightarrow> id_epoch r \<le> id_epoch l) \<and>
     (\<forall>r\<in>I. id_index r < next_index v \<and> 1 \<le> id_epoch r \<and> unat (id_epoch r) \<le> n) \<and>
     unat (next_index v) \<le> n \<and> source v = (if n = 0 then NoSource else Allocated) \<and>
     id_count v = of_nat (card L)"

definition id_bound :: nat where "id_bound = 2 ^ 32 - 1"

lemma identity_inv_new: "identity_inv new_identity 0 {} {}"
  by (simp add: identity_inv_def new_identity_def)

lemma unat_Suc_small: "unat x \<le> n \<Longrightarrow> n < id_bound \<Longrightarrow> unat (x + 1 :: u32) = unat x + 1"
  by (subst unat_plus_if') (simp add: id_bound_def)

lemma identity_alloc:
  assumes inv: "identity_inv v n I L" and n: "n < id_bound"
  shows "\<exists>r v'. alloc_id v = Some (r, v') \<and> id_index r \<notin> id_index ` L \<and> r \<notin> I \<and>
    identity_inv v' (Suc n) (insert r I) (insert r L)"
proof -
  have fin: "finite L" using inv by (auto simp: identity_inv_def intro: finite_subset)
  have src: "source v \<noteq> External" using inv by (auto simp: identity_inv_def split: if_splits)
  have bounds: "id_index r < next_index v" "1 \<le> id_epoch r" "unat (id_epoch r) \<le> n" if "r \<in> I" for r
    using inv that by (auto simp: identity_inv_def)
  show ?thesis
  proof (cases "free_ids v = []")
    case True
    let ?i = "next_index v"
    obtain r where r: "zip_id ?i 1 = Some r" using zip_defined [of ?i 1] by (cases "zip_id ?i 1") auto
    note un = unzip_zip [OF r]
    let ?v = "v\<lparr>source := Allocated, id_count := id_count v + 1, next_index := ?i + 1\<rparr>"
    have step: "unat (?i + 1) = unat ?i + 1" using inv n by (intro unat_Suc_small [of _ n]) (auto simp: identity_inv_def)
    then have lt: "x < ?i \<Longrightarrow> x < ?i + 1" "?i < ?i + 1" for x by (auto simp: word_less_nat_alt)
    have new: "?i \<noteq> id_index x" if "x \<in> I" for x using bounds(1) [OF that] by auto
    then have fresh: "?i \<notin> id_index ` L" "r \<notin> I"
      using inv un by (auto simp: identity_inv_def)
    then have "r \<notin> L" using inv by (auto simp: identity_inv_def)
    then have "identity_inv ?v (Suc n) (insert r I) (insert r L)"
      using inv un lt step new fresh fin True
      by (auto simp: identity_inv_def le_Suc_eq)
    moreover have "alloc_id v = Some (r, ?v)"
      using src r True by (simp add: alloc_id_def Let_def)
    ultimately show ?thesis using fresh un by auto
  next
    case False
    then obtain fs i e where fs: "free_ids v = fs @ [(i, e)]" by (metis append_butlast_last_id surj_pair)
    have top: "i \<notin> id_index ` L" "i < next_index v" "unat e \<le> n" "\<forall>r\<in>I. id_index r = i \<longrightarrow> id_epoch r \<le> e"
      "i \<notin> fst ` set fs"
      using inv by (auto simp: identity_inv_def fs)
    have step: "unat (e + 1) = unat e + 1" using top(3) n by (rule unat_Suc_small)
    then have up: "e < e + 1" "x \<le> e \<Longrightarrow> x \<le> e + 1" "1 \<le> e + 1" for x
      by (auto simp: word_less_nat_alt word_le_nat_alt)
    then have "e + 1 \<noteq> 0" by auto
    then obtain r where r: "zip_id i (e + 1) = Some r"
      using zip_defined [of i "e + 1"] by (cases "zip_id i (e + 1)") auto
    note un = unzip_zip [OF r]
    let ?v = "v\<lparr>source := Allocated, id_count := id_count v + 1, free_ids := fs\<rparr>"
    have "r \<notin> I" using top(4) un up(1) by (auto dest: leD)
    moreover have "(i, b) \<notin> set fs" for b using top(5) by force
    moreover have "r \<notin> L" using \<open>r \<notin> I\<close> inv by (auto simp: identity_inv_def)
    ultimately have "identity_inv ?v (Suc n) (insert r I) (insert r L)"
      using inv un up step top fin
      by (auto simp: identity_inv_def fs le_Suc_eq)
    moreover have "alloc_id v = Some (r, ?v)"
      using src r by (simp add: alloc_id_def Let_def fs)
    ultimately show ?thesis using top(1) un \<open>r \<notin> I\<close> by auto
  qed
qed

lemma identity_release:
  assumes inv: "identity_inv v n I L" and r: "r \<in> L"
  shows "identity_inv (release_id v r) n I (L - {r})"
proof -
  have fin: "finite L" using inv by (auto simp: identity_inv_def intro: finite_subset)
  have "r \<in> I" using inv r by (auto simp: identity_inv_def)
  then have "1 \<le> id_epoch r" "unat (id_epoch r) \<le> n" using inv by (auto simp: identity_inv_def)
  then have pos: "n \<noteq> 0" by (auto simp: word_le_nat_alt)
  have card: "of_nat (card L) - 1 = (of_nat (card (L - {r})) :: u64)"
    using fin r by (metis card.remove diff_add_cancel of_nat_Suc add.commute add_diff_cancel_left')
  have inj: "inj_on id_index L" using inv by (simp add: identity_inv_def)
  have same: "l = r" if "l \<in> L" "unzip_id r = (id_index l, e)" for l e
    using inj_onD [OF inj, of l r] that r by simp
  have notfree: "id_index r \<notin> fst ` set (free_ids v)"
  proof
    assume "id_index r \<in> fst ` set (free_ids v)"
    then obtain x where x: "x \<in> set (free_ids v)" "fst x = id_index r" by auto
    then have "fst x \<notin> id_index ` L" using inv by (auto simp: identity_inv_def)
    with x(2) r show False by simp
  qed
  have rel: "release_id v r = v\<lparr>free_ids := free_ids v @ [unzip_id r], id_count := id_count v - 1\<rparr>"
    using inv pos by (simp add: release_id_def identity_inv_def)
  have free: "i \<notin> id_index ` L \<and> i < next_index v \<and> unat e \<le> n \<and> (\<forall>r\<in>I. id_index r = i \<longrightarrow> id_epoch r \<le> e)"
    if "(i, e) \<in> set (free_ids v)" for i e
    using inv that by (auto simp: identity_inv_def)
  have new: "id_index r \<notin> id_index ` (L - {r}) \<and> id_index r < next_index v \<and> unat (id_epoch r) \<le> n \<and>
      (\<forall>x\<in>I. id_index x = id_index r \<longrightarrow> id_epoch x \<le> id_epoch r)"
    using inv r \<open>r \<in> I\<close> same by (auto simp: identity_inv_def inj_on_def)
  have "\<forall>(i, e)\<in>set (free_ids v @ [unzip_id r]). i \<notin> id_index ` (L - {r}) \<and> i < next_index v \<and> unat e \<le> n \<and>
      (\<forall>r\<in>I. id_index r = i \<longrightarrow> id_epoch r \<le> e)"
  proof (rule ballI)
    fix x assume "x \<in> set (free_ids v @ [unzip_id r])"
    then consider "x \<in> set (free_ids v)" | "x = unzip_id r" by auto
    then show "case x of (i, e) \<Rightarrow> i \<notin> id_index ` (L - {r}) \<and> i < next_index v \<and> unat e \<le> n \<and>
      (\<forall>r\<in>I. id_index r = i \<longrightarrow> id_epoch r \<le> e)"
    proof cases
      case 1
      with free [of "fst x" "snd x"] show ?thesis by (auto split: prod.split)
    next
      case 2
      with new show ?thesis by (cases "unzip_id r") simp
    qed
  qed
  moreover have "inj_on id_index (L - {r})" using inj by (rule inj_on_subset) blast
  ultimately show ?thesis
    using inv card notfree unfolding rel by (simp add: identity_inv_def) blast
qed

interpretation ids: fresh_allocator identity_inv id_bound alloc_id release_id id_index
proof unfold_locales
  show "\<exists>r s'. alloc_id s = Some (r, s') \<and> id_index r \<notin> id_index ` L \<and>
      identity_inv s' (Suc n) (insert r I) (insert r L)"
    if "identity_inv s n I L" "n < id_bound" for s n I L
    using identity_alloc [OF that] by blast
  show "r \<notin> I" if "identity_inv s n I L" "n < id_bound" "alloc_id s = Some (r, s')" for s n I L r s'
    using identity_alloc [OF that(1,2)] that(3) by auto
  show "identity_inv (release_id s r) n I (L - {r})" if "identity_inv s n I L" "r \<in> L" for s n I L r
    using that by (rule identity_release)
  show "inj_on id_index L" "L \<subseteq> I" if "identity_inv s n I L" for s n I L
    using that by (simp_all add: identity_inv_def)
qed

text \<open>Tracker indices: an index is its own slot, and an index of a live resource is never reissued.\<close>

definition tracker_index_inv :: "tracker_index_allocator \<Rightarrow> nat \<Rightarrow> u32 set \<Rightarrow> u32 set \<Rightarrow> bool" where
  "tracker_index_inv s n I L \<longleftrightarrow>
     distinct (unused s) \<and> set (unused s) \<inter> L = {} \<and> L \<subseteq> {..<next_tracker_index s} \<and>
     set (unused s) \<subseteq> {..<next_tracker_index s} \<and> unat (next_tracker_index s) \<le> n"

lemma tracker_index_inv_new: "tracker_index_inv new_tracker_index_allocator 0 {} {}"
  by (simp add: tracker_index_inv_def new_tracker_index_allocator_def)

interpretation tracker_indices: live_allocator tracker_index_inv id_bound
    "\<lambda>s. Some (alloc_tracker_index s)" free_tracker_index id
proof unfold_locales
  fix s n I L
  assume inv: "tracker_index_inv s n I L" and n: "n < id_bound"
  have step: "unat (next_tracker_index s + 1) = unat (next_tracker_index s) + 1"
    using inv n by (intro unat_Suc_small [of _ n]) (auto simp: tracker_index_inv_def)
  then have lt: "x < next_tracker_index s \<Longrightarrow> x < next_tracker_index s + 1"
    "next_tracker_index s < next_tracker_index s + 1" for x
    by (auto simp: word_less_nat_alt)
  show "\<exists>r s'. Some (alloc_tracker_index s) = Some (r, s') \<and> id r \<notin> id ` L \<and>
      tracker_index_inv s' (Suc n) (insert r I) (insert r L)"
  proof (cases "unused s = []")
    case True
    with inv step lt show ?thesis
      by (auto simp: alloc_tracker_index_def tracker_index_inv_def)
  next
    case False
    then obtain us u where us: "unused s = us @ [u]" by (metis append_butlast_last_id)
    with inv show ?thesis
      by (auto simp: alloc_tracker_index_def tracker_index_inv_def)
  qed
next
  show "tracker_index_inv (free_tracker_index s r) n I (L - {r})"
    if "tracker_index_inv s n I L" "r \<in> L" for s n I L r
    using that by (auto simp: tracker_index_inv_def free_tracker_index_def)
qed simp

section \<open>Properties\<close>

text \<open>C28: Packing an index and an epoch and unpacking gives them back, packing is defined unless
  both are zero, and packing what was unpacked from an identifier gives the identifier.\<close>

theorem id_round_trip:
  "(zip_id i e = None \<longleftrightarrow> i = 0 \<and> e = 0)
   \<and> (\<forall>r. zip_id i e = Some r \<longrightarrow> unzip_id r = (i, e))
   \<and> (r0 \<noteq> 0 \<longrightarrow> raw_of_serial (serial_of_raw r0) = Some (Inr r0))"
proof -
  have "raw_of_serial (serial_of_raw r0) = Some (Inr r0)" if "r0 \<noteq> 0"
  proof -
    have "zip_id (id_index r0) (id_epoch r0) = Some r0" using that by (rule zip_unzip)
    moreover from this have "\<not> (id_index r0 = 0 \<and> id_epoch r0 = 0)"
      using zip_defined [of "id_index r0" "id_epoch r0"] by auto
    ultimately show ?thesis
      by (cases "unzip_id r0") (auto simp: serial_of_raw_def raw_of_serial_def)
  qed
  then show ?thesis by (simp add: zip_defined unzip_zip)
qed

theorem id_round_trip_witness: "unzip_id (0x200000001 :: u64) = (1, 2) \<and>
   raw_of_serial (serial_of_raw (0x200000001 :: u64)) = Some (Inr 0x200000001)"
  using id_round_trip [of 1 2 "0x200000001"] by (simp add: unzip_id_def drop_bit_eq_div)

text \<open>C21: Over any sequence of fewer than 2^32 allocations and releases of live identifiers, the
  identifier allocator never panics, never issues an identifier twice, and at any time the live
  identifiers have pairwise distinct indices.\<close>

theorem identifiers_never_reissued:
  assumes "length evs \<le> id_bound"
  shows "\<exists>s issued live. run_allocator alloc_id release_id evs new_identity [] [] = Some (s, issued, live)
    \<and> distinct issued \<and> set live \<subseteq> set issued \<and> distinct (map id_index live)"
proof -
  have init: "identity_inv new_identity 0 (set []) (set [])" by (simp add: identity_inv_new)
  with ids.run_live [of new_identity 0 "[]" "[]" evs] assms obtain s issued live where
    run: "run_allocator alloc_id release_id evs new_identity [] [] = Some (s, issued, live)"
    and live: "distinct (map id_index live)" by auto
  from ids.run_fresh [OF init _ _ _ _ run] assms have "distinct issued \<and> set live \<subseteq> set issued" by simp
  with run live show ?thesis by blast
qed

theorem identifiers_never_reissued_witness:
  "\<exists>s issued live. run_allocator alloc_id release_id
      [AllocEv, AllocEv, ReleaseEv (0x100000000 :: u64), AllocEv] new_identity [] [] = Some (s, issued, live)
    \<and> distinct issued"
  using identifiers_never_reissued [of "[AllocEv, AllocEv, ReleaseEv 0x100000000, AllocEv]"]
  by (auto simp: id_bound_def)

text \<open>C29: The tracker index allocator gives live resources pairwise distinct indices, and its
  \<open>size\<close> exceeds every live index.\<close>

theorem tracker_indices_distinct:
  assumes "length evs \<le> id_bound"
  shows "\<exists>s issued live.
      run_allocator (\<lambda>s. Some (alloc_tracker_index s)) free_tracker_index evs new_tracker_index_allocator [] []
        = Some (s, issued, live)
    \<and> distinct live \<and> (\<forall>i\<in>set live. unat i < tracker_index_size s)"
proof -
  have "tracker_index_inv new_tracker_index_allocator 0 (set []) (set [])" by (simp add: tracker_index_inv_new)
  with tracker_indices.run_live [of new_tracker_index_allocator 0 "[]" "[]" evs] assms obtain s issued live where
    "run_allocator (\<lambda>s. Some (alloc_tracker_index s)) free_tracker_index evs new_tracker_index_allocator [] []
        = Some (s, issued, live)"
    and "tracker_index_inv s (length issued) (set issued) (set live)" "distinct live" by auto
  then show ?thesis
    by (auto simp: tracker_index_inv_def tracker_index_size_def word_less_nat_alt subset_iff)
qed

theorem tracker_indices_distinct_witness:
  "\<exists>s issued live. run_allocator (\<lambda>s. Some (alloc_tracker_index s)) free_tracker_index
      [AllocEv, AllocEv, ReleaseEv 0, AllocEv] new_tracker_index_allocator [] [] = Some (s, issued, live)
    \<and> distinct live"
  using tracker_indices_distinct [of "[AllocEv, AllocEv, ReleaseEv 0, AllocEv]"]
  by (auto simp: id_bound_def)

end
