(* ===== verification/Registry.thy ===== *)
theory Registry
  imports Identity
begin

text \<open>
  The table of live resources (\<open>wgpu-core/src/storage.rs\<close>) and the registry that pairs it
  with the identifier allocator (\<open>wgpu-core/src/registry.rs\<close>).

  A registration takes two steps in the code, \<open>prepare\<close> (which allocates the identifier)
  and \<open>FutureId::assign\<close> (which stores the value), between which other threads may act, and so does
  a removal, which takes the value out of the storage before it gives the identifier back, under
  different locks; the step relation \<open>registry_step\<close> interleaves all of them freely, for identifiers
  that the registry chooses itself (\<open>prepare(None)\<close>). The abstract value of a registry is
  the partial map from identifiers to values. \<open>StorageItem::kind\<close>, the type name printed in
  panic messages, is not modelled; a panic is \<open>None\<close>.
\<close>

section \<open>Storage\<close>

datatype 'v element = Vacant | Occupied 'v u32

record 'v storage =
  slots :: "'v element list"

definition new_storage :: "'v storage" where
  "new_storage = \<lparr>slots = []\<rparr>"

definition storage_insert :: "'v storage \<Rightarrow> raw_id \<Rightarrow> 'v \<Rightarrow> 'v storage option" where
  "storage_insert s r value =
     (let (idx, epoch) = unzip_id r;
          index = unat idx;
          m = (if length (slots s) \<le> index
               then slots s @ replicate (index + 1 - length (slots s)) Vacant else slots s);
          s' = s\<lparr>slots := m[index := Occupied value epoch]\<rparr>
      in case m ! index of
           Vacant \<Rightarrow> Some s'
         | Occupied _ storage_epoch \<Rightarrow> if epoch \<noteq> storage_epoch then Some s' else None)"

definition storage_remove :: "'v storage \<Rightarrow> raw_id \<Rightarrow> ('v \<times> 'v storage) option" where
  "storage_remove s r =
     (let (index, epoch) = unzip_id r in
      case vec_get (slots s) (unat index) of
        None \<Rightarrow> None
      | Some Vacant \<Rightarrow> None
      | Some (Occupied value storage_epoch) \<Rightarrow>
          if epoch = storage_epoch then Some (value, s\<lparr>slots := (slots s)[unat index := Vacant]\<rparr>)
          else None)"

definition storage_get :: "'v storage \<Rightarrow> raw_id \<Rightarrow> 'v option" where
  "storage_get s r =
     (let (index, epoch) = unzip_id r in
      case vec_get (slots s) (unat index) of
        Some (Occupied v storage_epoch) \<Rightarrow> if epoch = storage_epoch then Some v else None
      | _ \<Rightarrow> None)"

text \<open>\<open>Storage::iter\<close>: the identifiers are rebuilt from position and epoch, where \<open>zip\<close> may panic.\<close>

definition storage_iter :: "'v storage \<Rightarrow> (raw_id \<times> 'v) list option" where
  "storage_iter s =
     those (map (\<lambda>(index, value, epoch). map_option (\<lambda>r. (r, value)) (zip_id (of_nat index) epoch))
       (concat (map (\<lambda>(index, x). case x of Occupied value epoch \<Rightarrow> [(index, value, epoch)] | Vacant \<Rightarrow> [])
          (enumerate 0 (slots s)))))"

section \<open>Registry\<close>

record 'v registry =
  identity :: identity_values
  storage :: "'v storage"

record registry_report =
  num_allocated :: u64
  num_kept_from_user :: nat
  num_released_from_user :: nat
  element_size :: nat

definition new_registry :: "'v registry" where
  "new_registry = \<lparr>identity = new_identity, storage = new_storage\<rparr>"

definition registry_prepare :: "'v registry \<Rightarrow> raw_id option \<Rightarrow> (raw_id \<times> 'v registry) option" where
  "registry_prepare g id_in =
     map_option (\<lambda>(r, ids). (r, g\<lparr>identity := ids\<rparr>))
       (case id_in of
          Some id_in \<Rightarrow> mark_as_used (identity g) id_in
        | None \<Rightarrow> alloc_id (identity g))"

definition registry_assign :: "'v registry \<Rightarrow> raw_id \<Rightarrow> 'v \<Rightarrow> 'v registry option" where
  "registry_assign g r value = map_option (\<lambda>s. g\<lparr>storage := s\<rparr>) (storage_insert (storage g) r value)"

text \<open>The two steps of \<open>Registry::remove\<close>, each under a lock of its own, and their sequence.\<close>

definition registry_take :: "'v registry \<Rightarrow> raw_id \<Rightarrow> ('v \<times> 'v registry) option" where
  "registry_take g r = map_option (\<lambda>(value, s). (value, g\<lparr>storage := s\<rparr>)) (storage_remove (storage g) r)"

definition registry_free :: "'v registry \<Rightarrow> raw_id \<Rightarrow> 'v registry" where
  "registry_free g r = g\<lparr>identity := release_id (identity g) r\<rparr>"

definition registry_remove :: "'v registry \<Rightarrow> raw_id \<Rightarrow> ('v \<times> 'v registry) option" where
  "registry_remove g r = map_option (\<lambda>(value, g). (value, registry_free g r)) (registry_take g r)"

definition registry_get :: "'v registry \<Rightarrow> raw_id \<Rightarrow> 'v option" where
  "registry_get g r = storage_get (storage g) r"

text \<open>The element size is \<open>size_of::<T>()\<close>, a parameter here.\<close>

definition generate_report :: "nat \<Rightarrow> 'v registry \<Rightarrow> registry_report" where
  "generate_report elem_size g =
     \<lparr>num_allocated = id_count (identity g),
      num_kept_from_user = length (filter (\<lambda>e. e \<noteq> Vacant) (slots (storage g))),
      num_released_from_user = length (filter (\<lambda>e. e = Vacant) (slots (storage g))),
      element_size = elem_size\<rparr>"

definition report_is_empty :: "registry_report \<Rightarrow> bool" where
  "report_is_empty rep \<longleftrightarrow> num_allocated rep + of_nat (num_kept_from_user rep) = 0"

section \<open>The interfaces the registry relies on\<close>

text \<open>
  A store keyed by identifiers, in which two identifiers may compete for a slot: inserting
  is promised to work only when no stored identifier has the same slot.
\<close>

locale keyed_store =
  fixes contents :: "'s \<Rightarrow> 'id \<Rightarrow> 'v option" and key :: "'id \<Rightarrow> 'k"
    and ins :: "'s \<Rightarrow> 'id \<Rightarrow> 'v \<Rightarrow> 's option" and rem :: "'s \<Rightarrow> 'id \<Rightarrow> ('v \<times> 's) option"
  assumes ins_ok: "\<forall>r'. contents s r' \<noteq> None \<longrightarrow> key r' \<noteq> key r \<Longrightarrow>
      \<exists>s'. ins s r v = Some s' \<and> contents s' = (contents s)(r \<mapsto> v)"
    and rem_ok: "contents s r = Some v \<Longrightarrow> \<exists>s'. rem s r = Some (v, s') \<and> contents s' = (contents s)(r := None)"
    and rem_stale: "contents s r = None \<Longrightarrow> rem s r = None"

text \<open>
  The two together: every stored identifier is live, and so are those of registrations and removals
  under way, so that a pending one never meets an occupied slot.
\<close>

locale registered_store =
  fresh_allocator invar bound alloc release slot + keyed_store contents slot ins rem
  for invar :: "'s \<Rightarrow> nat \<Rightarrow> 'id set \<Rightarrow> 'id set \<Rightarrow> bool" and bound :: nat
    and alloc :: "'s \<Rightarrow> ('id \<times> 's) option" and release :: "'s \<Rightarrow> 'id \<Rightarrow> 's" and slot :: "'id \<Rightarrow> 'k"
    and contents :: "'t \<Rightarrow> 'id \<Rightarrow> 'v option" and ins :: "'t \<Rightarrow> 'id \<Rightarrow> 'v \<Rightarrow> 't option"
    and rem :: "'t \<Rightarrow> 'id \<Rightarrow> ('v \<times> 't) option"
begin

abbreviation joint ::
  "'s \<Rightarrow> 't \<Rightarrow> nat \<Rightarrow> 'id set \<Rightarrow> 'id set \<Rightarrow> 'id set \<Rightarrow> ('id \<Rightarrow> 'v option) \<Rightarrow> bool" where
  "joint a s n I P R m \<equiv> contents s = m \<and> P \<inter> dom m = {} \<and> R \<inter> dom m = {} \<and> P \<inter> R = {}
     \<and> invar a n I (P \<union> R \<union> dom m)"

lemma joint_alloc:
  assumes "joint a s n I P R m" "n < bound"
  shows "\<exists>r a'. alloc a = Some (r, a') \<and> r \<notin> I \<and> joint a' s (Suc n) (insert r I) (insert r P) R m"
proof -
  obtain r a' where r: "alloc a = Some (r, a')" "invar a' (Suc n) (insert r I) (insert r (P \<union> R \<union> dom m))"
    using alloc_live assms by blast
  have new: "r \<notin> I" using alloc_fresh r(1) assms by blast
  then have "r \<notin> P \<union> R \<union> dom m" using live_issued assms by blast
  with r new assms show ?thesis by auto
qed

lemma joint_insert:
  assumes "joint a s n I P R m" "r \<in> P"
  shows "\<exists>s'. ins s r v = Some s' \<and> joint a s' n I (P - {r}) R (m(r \<mapsto> v))"
proof -
  have inj: "inj_on slot (P \<union> R \<union> dom m)" using slots_distinct assms by blast
  have "\<forall>r'. contents s r' \<noteq> None \<longrightarrow> slot r' \<noteq> slot r"
    using assms inj by (auto dest: inj_onD)
  then obtain s' where "ins s r v = Some s'" "contents s' = (contents s)(r \<mapsto> v)"
    using ins_ok by blast
  moreover have "(P - {r}) \<union> R \<union> dom (m(r \<mapsto> v)) = P \<union> R \<union> dom m" using assms(2) by auto
  ultimately show ?thesis using assms by auto
qed

lemma joint_take:
  assumes "joint a s n I P R m" "m r = Some v"
  shows "\<exists>s'. rem s r = Some (v, s') \<and> joint a s' n I P (insert r R) (m(r := None))"
proof -
  obtain s' where "rem s r = Some (v, s')" "contents s' = (contents s)(r := None)"
    using rem_ok assms by blast
  moreover have "P \<union> insert r R \<union> dom (m(r := None)) = P \<union> R \<union> dom m" using assms(2) by auto
  moreover have "r \<notin> P" using assms by (auto simp: domI)
  ultimately show ?thesis using assms by auto
qed

lemma joint_free:
  assumes "joint a s n I P R m" "r \<in> R"
  shows "joint (release a r) s n I P (R - {r}) m"
proof -
  have "invar (release a r) n I ((P \<union> R \<union> dom m) - {r})" using release_live assms by blast
  moreover have "(P \<union> R \<union> dom m) - {r} = P \<union> (R - {r}) \<union> dom m" using assms by auto
  ultimately show ?thesis using assms by auto
qed

end

section \<open>The storage implements its interface\<close>

lemma unzip_pack: "unzip_id ((ucast i :: u64) OR push_bit 32 (ucast e)) = (i, e)"
  using zip_id_bits [of i e] by (simp only: unzip_id_def)

lemma storage_get_Some:
  "storage_get s r = Some v \<longleftrightarrow>
     unat (id_index r) < length (slots s) \<and> slots s ! unat (id_index r) = Occupied v (id_epoch r)"
  by (cases "unzip_id r") (auto simp: storage_get_def vec_get_def split: element.splits)

lemma storage_insert_ok:
  assumes free: "\<forall>r'. storage_get s r' \<noteq> None \<longrightarrow> id_index r' \<noteq> id_index r"
  shows "\<exists>s'. storage_insert s r v = Some s' \<and> storage_get s' = (storage_get s)(r \<mapsto> v)"
proof -
  obtain i e where un: "unzip_id r = (i, e)" by force
  let ?n = "unat i"
  let ?m = "if length (slots s) \<le> ?n then slots s @ replicate (?n + 1 - length (slots s)) Vacant else slots s"
  let ?s = "s\<lparr>slots := ?m[?n := Occupied v e]\<rparr>"
  have len: "?n < length ?m" by auto
  have vacant: "?m ! ?n = Vacant"
  proof (cases "length (slots s) \<le> ?n")
    case True
    then show ?thesis by (simp add: nth_append)
  next
    case False
    show ?thesis
    proof (cases "slots s ! ?n")
      case (Occupied w e')
      define r' where "r' = ((ucast i :: u64) OR push_bit 32 (ucast e'))"
      have "unzip_id r' = (i, e')" unfolding r'_def by (rule unzip_pack)
      then have "storage_get s r' = Some w" using False Occupied by (simp add: storage_get_Some)
      with free \<open>unzip_id r' = (i, e')\<close> un show ?thesis by auto
    qed (use False in simp)
  qed
  have "storage_insert s r v = Some ?s"
    using vacant by (simp add: storage_insert_def un Let_def)
  moreover have "storage_get ?s r' = ((storage_get s)(r \<mapsto> v)) r'" for r'
  proof (cases "id_index r' = i")
    case True
    show ?thesis
    proof (cases "r' = r")
      case True
      then show ?thesis using len un by (simp add: storage_get_Some)
    next
      case False
      then have "id_epoch r' \<noteq> e" using True un unzip_inj [of r' r] by (auto simp: prod_eq_iff)
      then have "storage_get ?s r' = None"
        using len True storage_get_Some [of ?s r'] by (cases "storage_get ?s r'") auto
      moreover have "storage_get s r' = None" using free True un by auto
      ultimately show ?thesis using False by simp
    qed
  next
    case False
    then have ne: "unat (id_index r') \<noteq> ?n" by (simp add: word_unat_eq_iff)
    have same: "(unat (id_index r') < length ?m \<and> ?m ! unat (id_index r') = Occupied w x) \<longleftrightarrow>
        (unat (id_index r') < length (slots s) \<and> slots s ! unat (id_index r') = Occupied w x)" for w x
      by (auto simp: nth_append)
    have "storage_get ?s r' = Some w \<longleftrightarrow> storage_get s r' = Some w" for w
      using ne same [of w "id_epoch r'"] by (simp add: storage_get_Some)
    then have "storage_get ?s r' = storage_get s r'" by (metis option.exhaust)
    with False un show ?thesis by auto
  qed
  ultimately show ?thesis by blast
qed

lemma storage_remove_ok:
  assumes "storage_get s r = Some v"
  shows "\<exists>s'. storage_remove s r = Some (v, s') \<and> storage_get s' = (storage_get s)(r := None)"
proof -
  obtain i e where un: "unzip_id r = (i, e)" by force
  have at: "unat i < length (slots s)" "slots s ! unat i = Occupied v e"
    using assms by (simp_all add: storage_get_Some un)
  let ?s = "s\<lparr>slots := (slots s)[unat i := Vacant]\<rparr>"
  have "storage_remove s r = Some (v, ?s)"
    using at by (simp add: storage_remove_def un vec_get_def)
  moreover have "storage_get ?s r' = ((storage_get s)(r := None)) r'" for r'
  proof (cases "id_index r' = i")
    case True
    then have "storage_get ?s r' = None"
      using at storage_get_Some [of ?s r'] by (cases "storage_get ?s r'") auto
    moreover have "storage_get s r' = None" if "r' \<noteq> r"
    proof (rule ccontr)
      assume "storage_get s r' \<noteq> None"
      then obtain w where "storage_get s r' = Some w" by auto
      then have "Occupied w (id_epoch r') = Occupied v e" using at True by (simp add: storage_get_Some)
      then have "unzip_id r' = unzip_id r" using True un by (simp add: prod_eq_iff)
      with unzip_inj that show False by blast
    qed
    ultimately show ?thesis by simp
  next
    case False
    then have "unat (id_index r') \<noteq> unat i" by (simp add: word_unat_eq_iff)
    then have "storage_get ?s r' = Some w \<longleftrightarrow> storage_get s r' = Some w" for w
      by (simp add: storage_get_Some)
    then have "storage_get ?s r' = storage_get s r'" by (metis option.exhaust)
    with False un show ?thesis by auto
  qed
  ultimately show ?thesis by blast
qed

lemma storage_remove_stale: "storage_get s r = None \<Longrightarrow> storage_remove s r = None"
  by (cases "unzip_id r")
     (auto simp: storage_get_def storage_remove_def split: option.splits element.splits if_splits)

interpretation reg: registered_store identity_inv id_bound alloc_id release_id id_index
    storage_get storage_insert storage_remove
proof unfold_locales
  show "\<exists>s'. storage_insert s r v = Some s' \<and> storage_get s' = (storage_get s)(r \<mapsto> v)"
    if "\<forall>r'. storage_get s r' \<noteq> None \<longrightarrow> id_index r' \<noteq> id_index r" for s :: "'a storage" and r v
    using that by (rule storage_insert_ok)
  show "\<exists>s'. storage_remove s r = Some (v, s') \<and> storage_get s' = (storage_get s)(r := None)"
    if "storage_get s r = Some v" for s :: "'a storage" and r v
    using that by (rule storage_remove_ok)
  show "storage_remove s r = None" if "storage_get s r = None" for s :: "'a storage" and r
    using that by (rule storage_remove_stale)
qed

section \<open>Interleavings of registrations and removals\<close>

text \<open>
  A configuration pairs the registry with its history: the number of identifiers prepared and
  which, which of them are prepared but not yet assigned, which are taken out of the storage but not yet
  given back, and the abstract contents.
\<close>

record 'v registry_config =
  reg :: "'v registry"
  prepared :: nat
  issued :: "raw_id set"
  pending :: "raw_id set"
  removing :: "raw_id set"
  content :: "raw_id \<Rightarrow> 'v option"

definition new_config :: "'v registry_config" where
  "new_config = \<lparr>reg = new_registry, prepared = 0, issued = {}, pending = {}, removing = {}, content = Map.empty\<rparr>"

inductive registry_step :: "'v registry_config \<Rightarrow> 'v registry_config \<Rightarrow> bool" where
  prepare: "prepared c < id_bound \<Longrightarrow> registry_prepare (reg c) None = Some (r, g) \<Longrightarrow>
     registry_step c (c\<lparr>reg := g, prepared := Suc (prepared c), issued := insert r (issued c),
       pending := insert r (pending c)\<rparr>)"
| assign: "r \<in> pending c \<Longrightarrow> registry_assign (reg c) r v = Some g \<Longrightarrow>
     registry_step c (c\<lparr>reg := g, pending := pending c - {r}, content := (content c)(r \<mapsto> v)\<rparr>)"
| take: "registry_take (reg c) r = Some (v, g) \<Longrightarrow>
     registry_step c (c\<lparr>reg := g, removing := insert r (removing c), content := (content c)(r := None)\<rparr>)"
| free: "r \<in> removing c \<Longrightarrow>
     registry_step c (c\<lparr>reg := registry_free (reg c) r, removing := removing c - {r}\<rparr>)"

inductive_cases registry_stepE: "registry_step c c'"

inductive registry_steps :: "'v registry_config \<Rightarrow> 'v registry_config \<Rightarrow> bool" where
  refl: "registry_steps c c"
| step: "registry_steps c d \<Longrightarrow> registry_step d e \<Longrightarrow> registry_steps c e"

lemma registry_steps_trans: "registry_steps d e \<Longrightarrow> registry_steps c d \<Longrightarrow> registry_steps c e"
  by (induction rule: registry_steps.induct) (auto intro: registry_steps.step)

text \<open>\<open>Registry::remove\<close> without another thread in between.\<close>

lemma registry_remove_steps:
  assumes "registry_remove (reg c) r = Some (v, g)" and "r \<notin> removing c"
  shows "registry_steps c (c\<lparr>reg := g, content := (content c)(r := None)\<rparr>)"
proof -
  obtain h where h: "registry_take (reg c) r = Some (v, h)" "g = registry_free h r"
    using assms(1) by (auto simp: registry_remove_def)
  let ?d = "c\<lparr>reg := h, removing := insert r (removing c), content := (content c)(r := None)\<rparr>"
  have "registry_step ?d (?d\<lparr>reg := registry_free (reg ?d) r, removing := removing ?d - {r}\<rparr>)"
    by (rule registry_step.free) simp
  note registry_steps.step [OF registry_steps.step [OF registry_steps.refl registry_step.take [OF h(1)]] this]
  moreover have "?d\<lparr>reg := registry_free (reg ?d) r, removing := removing ?d - {r}\<rparr>
      = c\<lparr>reg := g, content := (content c)(r := None)\<rparr>"
    using assms(2) h(2) by (cases c) simp
  ultimately show ?thesis by simp
qed

definition config_inv :: "'v registry_config \<Rightarrow> bool" where
  "config_inv c \<longleftrightarrow>
     reg.joint (identity (reg c)) (storage (reg c)) (prepared c) (issued c) (pending c) (removing c) (content c)
     \<and> prepared c \<le> id_bound"

lemma config_inv_new: "config_inv new_config"
proof -
  have "storage_get (new_storage :: 'a storage) = Map.empty"
    by (auto simp: fun_eq_iff storage_get_def new_storage_def vec_get_def split: prod.split)
  then show ?thesis
    by (simp add: config_inv_def new_config_def new_registry_def identity_inv_new)
qed

lemma config_joint:
  "config_inv c \<Longrightarrow> reg.joint (identity (reg c)) (storage (reg c)) (prepared c) (issued c) (pending c) (removing c) (content c)"
  by (simp add: config_inv_def)

lemma config_progress:
  assumes inv: "config_inv c"
  shows "prepared c < id_bound \<Longrightarrow> \<exists>r g. registry_prepare (reg c) None = Some (r, g) \<and> r \<notin> issued c"
    and "r \<in> pending c \<Longrightarrow> \<exists>g. registry_assign (reg c) r v = Some g"
    and "content c r = Some v \<Longrightarrow> \<exists>g. registry_take (reg c) r = Some (v, g)"
  using reg.joint_alloc [OF config_joint [OF inv]] reg.joint_insert [OF config_joint [OF inv], of r v]
    reg.joint_take [OF config_joint [OF inv], of r v]
  by (auto simp: registry_prepare_def registry_assign_def registry_take_def)

text \<open>The count of identifiers does not fall below zero.\<close>

lemma config_count:
  assumes inv: "config_inv c" and r: "r \<in> removing c"
  shows "0 < id_count (identity (reg c))"
proof -
  let ?L = "pending c \<union> removing c \<union> dom (content c)"
  have i: "identity_inv (identity (reg c)) (prepared c) (issued c) ?L" using config_joint [OF inv] by simp
  then have L: "finite ?L" "?L \<subseteq> issued c" "inj_on id_index ?L" by (auto simp: identity_inv_def intro: finite_subset)
  have "card ?L = card (id_index ` ?L)" using card_image [OF L(3)] by simp
  also have "\<dots> \<le> CARD(32 word)" by (rule card_mono) simp_all
  also have "\<dots> < 2 ^ 64" by (simp add: card_word)
  finally have small: "card ?L < 2 ^ 64" .
  have "0 < card ?L" using L(1) r by (auto simp: card_gt_0_iff)
  with small i show ?thesis by (simp add: identity_inv_def word_less_nat_alt unat_of_nat)
qed

lemma registry_step_inv: "registry_step c c' \<Longrightarrow> config_inv c \<Longrightarrow> config_inv c'"
proof (induction rule: registry_step.induct)
  case (prepare c r g)
  from reg.joint_alloc [OF config_joint [OF prepare.prems] prepare.hyps(1)] prepare.hyps
  show ?case by (auto simp: registry_prepare_def config_inv_def)
next
  case (assign r c v g)
  from reg.joint_insert [OF config_joint [OF assign.prems] assign.hyps(1), of v] assign.hyps(2) assign.prems
  show ?case by (auto simp: registry_assign_def config_inv_def)
next
  case (take c r v g)
  have "storage_get (storage (reg c)) r \<noteq> None"
    using take.hyps storage_remove_stale [of "storage (reg c)" r] unfolding registry_take_def by fastforce
  moreover have "storage_get (storage (reg c)) = content c" using config_joint [OF take.prems] by simp
  ultimately obtain w where "content c r = Some w" by auto
  from reg.joint_take [OF config_joint [OF take.prems] this] take.hyps take.prems
  show ?case by (auto simp: registry_take_def config_inv_def)
next
  case (free r c)
  from reg.joint_free [OF config_joint [OF free.prems] free.hyps] free.prems
  show ?case by (auto simp: registry_free_def config_inv_def)
qed

lemma registry_steps_inv: "registry_steps c c' \<Longrightarrow> config_inv c \<Longrightarrow> config_inv c'"
  by (induction rule: registry_steps.induct) (auto intro: registry_step_inv)

text \<open>A dead identifier (issued, neither pending nor stored) stays dead.\<close>

lemma registry_step_dead:
  assumes "registry_step c c'" "config_inv c" "r \<in> issued c" "r \<notin> pending c" "content c r = None"
  shows "r \<in> issued c' \<and> r \<notin> pending c' \<and> content c' r = None"
  using assms
proof (induction rule: registry_step.induct)
  case (prepare c r' g)
  then have "r' \<noteq> r" using config_progress(1) [OF prepare.prems(1) prepare.hyps(1)] by auto
  with prepare show ?case by simp
qed auto

lemma registry_steps_dead:
  "registry_steps c c' \<Longrightarrow> config_inv c \<Longrightarrow> r \<in> issued c \<Longrightarrow> r \<notin> pending c \<Longrightarrow> content c r = None \<Longrightarrow>
     r \<in> issued c' \<and> r \<notin> pending c' \<and> content c' r = None"
proof (induction rule: registry_steps.induct)
  case (step c d e)
  then show ?case using registry_step_dead [of d e] registry_steps_inv by blast
qed simp

section \<open>Properties\<close>

text \<open>C9: In every state reachable by interleaving the two steps of registrations and the two steps of
  removals, with identifiers that the registry chooses and fewer than 2^32 - 1 of them, the registry is
  its abstract map: \<open>get\<close> returns exactly the value assigned to an identifier and not taken out since;
  preparing another one, assigning a prepared identifier and taking a stored one out never panic, taking
  returns the stored value, and giving an identifier back finds a count that is not zero.\<close>

theorem registry_refines_map:
  assumes "registry_steps new_config c"
  shows "registry_get (reg c) = content c
    \<and> (prepared c < id_bound \<longrightarrow> registry_prepare (reg c) None \<noteq> None)
    \<and> (\<forall>r\<in>pending c. \<forall>v. registry_assign (reg c) r v \<noteq> None)
    \<and> (\<forall>r v. content c r = Some v \<longrightarrow> (\<exists>g. registry_take (reg c) r = Some (v, g)))
    \<and> (\<forall>r\<in>removing c. 0 < id_count (identity (reg c)))"
proof -
  have inv: "config_inv c" using registry_steps_inv [OF assms config_inv_new] .
  then have "registry_get (reg c) = content c"
    by (auto simp: config_inv_def registry_get_def fun_eq_iff)
  moreover have "prepared c < id_bound \<Longrightarrow> registry_prepare (reg c) None \<noteq> None"
    using config_progress(1) [OF inv] by auto
  moreover have "registry_assign (reg c) r v \<noteq> None" if "r \<in> pending c" for r v
    using config_progress(2) [OF inv that] by auto
  ultimately show ?thesis using config_progress(3) [OF inv] config_count [OF inv] by blast
qed

lemma one_prepared:
  obtains r g where "registry_steps (new_config :: nat registry_config) (new_config\<lparr>reg := g, prepared := 1, issued := {r}, pending := {r}\<rparr>)"
proof -
  let ?n = "new_config :: nat registry_config"
  have b: "prepared ?n < id_bound" by (simp add: new_config_def id_bound_def)
  obtain r g where p: "registry_prepare (reg ?n) None = Some (r, g)"
    using config_progress(1) [OF config_inv_new b] by blast
  from registry_steps.step [OF registry_steps.refl registry_step.prepare [OF b p]]
  show thesis using that [of r g] by (simp add: new_config_def)
qed

theorem registry_refines_map_witness:
  "\<exists>c :: nat registry_config. registry_steps new_config c \<and> pending c \<noteq> {} \<and> registry_get (reg c) = content c"
proof -
  obtain r g where "registry_steps (new_config :: nat registry_config) (new_config\<lparr>reg := g, prepared := 1, issued := {r}, pending := {r}\<rparr>)"
    (is "registry_steps _ ?c") by (rule one_prepared)
  moreover from registry_refines_map [OF this] have "registry_get (reg ?c) = content ?c" by blast
  ultimately show ?thesis by (intro exI [of _ ?c]) simp
qed

text \<open>C22: An identifier whose resource has been taken out of the registry never resolves again, whatever is
  registered or removed afterwards, in any interleaving and before or after it is given back, as long as
  the registry chooses the identifiers and fewer than 2^32 - 1 of them: its index may be reused, but only
  under another epoch.\<close>

theorem removed_id_stays_dead:
  assumes "registry_steps new_config c" and "registry_take (reg c) r = Some (v, g)"
    and "registry_steps (c\<lparr>reg := g, removing := insert r (removing c), content := (content c)(r := None)\<rparr>) c'"
  shows "registry_get (reg c') r = None \<and> registry_take (reg c') r = None"
proof -
  let ?d = "c\<lparr>reg := g, removing := insert r (removing c), content := (content c)(r := None)\<rparr>"
  have inv: "config_inv c" using registry_steps_inv [OF assms(1) config_inv_new] .
  then have invd: "config_inv ?d" using registry_step_inv registry_step.take [OF assms(2)] by blast
  have "content c r \<noteq> None"
    using assms(2) storage_remove_stale [of "storage (reg c)" r] inv
    by (auto simp: registry_take_def config_inv_def)
  moreover have "pending c \<union> dom (content c) \<subseteq> issued c" "pending c \<inter> dom (content c) = {}"
    using config_joint [OF inv] ids.live_issued by blast+
  ultimately have "r \<in> issued ?d" "r \<notin> pending ?d" "content ?d r = None" by auto
  from registry_steps_dead [OF assms(3) invd this] have "content c' r = None" by blast
  moreover have "config_inv c'" using registry_steps_inv [OF assms(3) invd] .
  ultimately show ?thesis
    using storage_remove_stale [of "storage (reg c')" r]
    by (auto simp: config_inv_def registry_get_def registry_take_def)
qed

theorem removed_id_stays_dead_witness:
  "\<exists>(c :: nat registry_config) r v g. registry_steps new_config c \<and> registry_take (reg c) r = Some (v, g)
     \<and> registry_get g r = None"
proof -
  obtain r g where st: "registry_steps (new_config :: nat registry_config) (new_config\<lparr>reg := g, prepared := 1, issued := {r}, pending := {r}\<rparr>)"
    (is "registry_steps _ ?c") by (rule one_prepared)
  have i1: "config_inv ?c" using registry_steps_inv [OF st config_inv_new] .
  obtain h where a: "registry_assign (reg ?c) r 7 = Some h"
    using config_progress(2) [OF i1, of r 7] by auto
  let ?d = "?c\<lparr>reg := h, pending := pending ?c - {r}, content := (content ?c)(r \<mapsto> 7)\<rparr>"
  have s2: "registry_step ?c ?d" by (rule registry_step.assign [OF _ a]) simp
  then have i2: "config_inv ?d" using registry_step_inv i1 by blast
  obtain k where k: "registry_take (reg ?d) r = Some (7, k)"
    using config_progress(3) [OF i2, of r 7] by auto
  have st: "registry_steps new_config ?d" by (rule registry_steps.step [OF st s2])
  from removed_id_stays_dead [OF st k registry_steps.refl]
  have "registry_get k r = None" by simp
  with st k show ?thesis by blast
qed

end
