(* ===== verification/TextureMerge.thy ===== *)
theory TextureMerge
  imports TextureTracker
begin

unbundle bit_operations_syntax

text \<open>
  Merging usages of textures into a usage scope (\<open>merge\<close>, \<open>insert_or_merge\<close> of
  \<open>wgpu-core/src/track/texture.rs\<close>): what a scope reports and holds, subresource by subresource.
\<close>

section \<open>Joining usages\<close>

text \<open>A usage without the flags the tracker keeps for itself.\<close>

definition plain :: "texture_uses \<Rightarrow> bool" where
  "plain st \<longleftrightarrow> st \<noteq> 0 \<and> \<not> bit st 13 \<and> \<not> bit st 14 \<and> \<not> invalid_texture_use st"

definition join :: "texture_uses \<Rightarrow> texture_uses \<Rightarrow> texture_uses" where
  "join c a = (if c = tx_unknown then a else if a = tx_unknown then c else c OR a)"

lemma bit_flags: "bit tx_complex n \<longleftrightarrow> n = 13" "bit tx_unknown n \<longleftrightarrow> n = 14"
  unfolding tx_complex_def tx_unknown_def bit_push_bit_iff bit_1_iff by auto

lemma plain_clean: "plain st \<Longrightarrow> clean st"
  unfolding plain_def clean_def by (auto simp: bit_flags)

lemma plain_not_unknown: "plain st \<Longrightarrow> st \<noteq> tx_unknown"
  using plain_clean by (simp add: clean_def)

lemma plain_join:
  assumes "v = tx_unknown \<or> plain v" "plain a" "\<not> invalid_texture_use (join v a)"
  shows "plain (join v a)"
proof (cases "v = tx_unknown")
  case True
  then show ?thesis using assms by (simp add: join_def)
next
  case False
  then have "join v a = v OR a" "plain v" using assms plain_not_unknown by (auto simp: join_def)
  moreover have "v OR a \<noteq> 0" using assms(2) \<open>plain v\<close> by (auto simp: plain_def or_eq_0_iff)
  ultimately show ?thesis using assms by (simp add: plain_def bit_simps)
qed

lemma masked_join:
  assumes "v = tx_unknown \<or> plain v" "plain a"
  shows "(v OR a) AND NOT tx_unknown = join v a" "join v a \<noteq> 0"
proof -
  have a: "bit a n \<Longrightarrow> n \<noteq> 14" for n using assms(2) by (auto simp: plain_def)
  show "(v OR a) AND NOT tx_unknown = join v a"
  proof (cases "v = tx_unknown")
    case True
    then show ?thesis using a by (auto simp: join_def bit_eq_iff bit_simps bit_flags)
  next
    case False
    then have "bit v n \<Longrightarrow> n \<noteq> 14" for n using assms(1) by (auto simp: plain_def)
    then show ?thesis using False a plain_not_unknown [OF assms(2)]
      by (auto simp: join_def bit_eq_iff bit_simps bit_flags)
  qed
  show "join v a \<noteq> 0"
    using assms by (auto simp: join_def plain_def or_eq_0_iff)
qed

section \<open>The arms of \<open>merge\<close>\<close>

definition plain_complex :: "texture_selector \<Rightarrow> complex_texture_state \<Rightarrow> bool" where
  "plain_complex full c \<longleftrightarrow> complex_ok full c
     \<and> (\<forall>m l. in_sel full m l \<longrightarrow> complex_at c m l = tx_unknown \<or> plain (complex_at c m l))"

lemma merge_layers_spec:
  assumes c: "complex_ok full c" "k < length (cts_mips c)"
    and layers: "rstart layers < rend layers" "rend layers \<le> rend (sel_layers full)"
    and plain: "\<And>l. l \<in> iv layers \<Longrightarrow> complex_at c k l = tx_unknown \<or> plain (complex_at c k l)" "plain a"
  shows "\<exists>c' e. merge_layers r a layers k c = Some (c', e)
    \<and> (e = None \<longleftrightarrow> (\<forall>l \<in> iv layers. \<not> invalid_texture_use (join (complex_at c k l) a)))
    \<and> (if e = None then complex_ok full c' \<and> length (cts_mips c') = length (cts_mips c)
         \<and> complex_at c' = (\<lambda>m l. if m = k \<and> l \<in> iv layers then join (complex_at c m l) a else complex_at c m l)
       else True)"
proof -
  let ?f = "\<lambda>layers current.
         let merged_state = (current OR a) AND NOT tx_unknown in
         if merged_state = 0 then Inr current
         else if invalid_texture_use merged_state then Inl (UsageConflict r (one_mip k layers) current a)
         else Inr merged_state"
  let ?g = "\<lambda>v. let s = (v OR a) AND NOT tx_unknown in
      if s = 0 then Some v else if invalid_texture_use s then None else Some s"
  have mip: "mip_ok (rend (sel_layers full)) (cts_mips c ! k)" using c by (simp add: complex_ok_def)
  have b: "body_is ?f ?g" by (simp add: body_is_def Let_def)
  have lk: "Option.bind (lookup (cts_mips c ! k) l) ?g
      = (if invalid_texture_use (join (complex_at c k l) a) then None else Some (join (complex_at c k l) a))"
    if "l \<in> iv layers" for l
  proof -
    have "l < rend (sel_layers full)" using that layers(2) by (auto intro: less_le_trans)
    then show ?thesis using complex_ok_lookup [OF c] masked_join [OF plain(1) [OF that] plain(2)] by (simp add: Let_def)
  qed
  obtain mip' e where m: "isolate_replace ?f layers (cts_mips c ! k) = Some (mip', e)"
    "e = None \<Longrightarrow> mip_ok (rend (sel_layers full)) mip'"
    "e = None \<Longrightarrow> (\<forall>l. lookup mip' l = (if l \<in> iv layers
        then Option.bind (lookup (cts_mips c ! k) l) ?g else lookup (cts_mips c ! k) l))"
    "e = None \<Longrightarrow> \<forall>l \<in> iv layers. Option.bind (lookup (cts_mips c ! k) l) ?g \<noteq> None"
    "e \<noteq> None \<Longrightarrow> \<exists>l \<in> iv layers. Option.bind (lookup (cts_mips c ! k) l) ?g = None"
    by (rule isolate_replace_spec [OF mip layers b]) (rule that, assumption, blast+)
  let ?c = "c\<lparr>cts_mips := (cts_mips c)[k := (if e = None then coalesce mip' else mip')]\<rparr>"
  have run: "merge_layers r a layers k c = Some (?c, e)"
    unfolding merge_layers_def using c(2) m(1) by (simp add: vec_get_def)
  have iff: "e = None \<longleftrightarrow> (\<forall>l \<in> iv layers. \<not> invalid_texture_use (join (complex_at c k l) a))"
  proof
    assume "e = None"
    from m(4) [OF this] lk show "\<forall>l \<in> iv layers. \<not> invalid_texture_use (join (complex_at c k l) a)"
      by (metis (no_types, lifting))
  next
    assume all: "\<forall>l \<in> iv layers. \<not> invalid_texture_use (join (complex_at c k l) a)"
    show "e = None"
    proof (rule ccontr)
      assume "e \<noteq> None"
      from m(5) [OF this] obtain l where l: "l \<in> iv layers" "Option.bind (lookup (cts_mips c ! k) l) ?g = None" by blast
      with lk [OF l(1)] all show False by simp
    qed
  qed
  have result: "complex_ok full ?c \<and> length (cts_mips ?c) = length (cts_mips c)
      \<and> complex_at ?c = (\<lambda>m l. if m = k \<and> l \<in> iv layers then join (complex_at c m l) a else complex_at c m l)"
    if e: "e = None"
  proof -
    note p = complex_put_mip [OF c mip_ok_coalesce(1) [OF m(2) [OF e]], of layers
        "\<lambda>l. Option.bind (lookup (cts_mips c ! k) l) ?g" "\<lambda>l. join (complex_at c k l) a"]
    have 1: "lookup (coalesce mip') l = (if l \<in> iv layers then Option.bind (lookup (cts_mips c ! k) l) ?g
        else lookup (cts_mips c ! k) l)" for l
      using m(3) [OF e] mip_ok_coalesce(2) [OF m(2) [OF e]] by simp
    have 2: "Option.bind (lookup (cts_mips c ! k) l) ?g = Some (join (complex_at c k l) a)" if "l \<in> iv layers" for l
      using lk [OF that] iff e that by simp
    have "complex_at (c\<lparr>cts_mips := (cts_mips c)[k := coalesce mip']\<rparr>)
        = (\<lambda>m l. if m = k \<and> l \<in> iv layers then join (complex_at c k l) a else complex_at c m l)"
      by (rule p(2) [OF 1 2])
    then show ?thesis using p(1) [OF 1 2] e by (auto simp: fun_eq_iff)
  qed
  show ?thesis using run iff result by (intro exI [of _ ?c] exI [of _ e]) simp
qed

lemma merge_mips_spec:
  assumes "complex_ok full c" "distinct ks" "\<forall>k \<in> set ks. k < length (cts_mips c)"
    and layers: "rstart layers < rend layers" "rend layers \<le> rend (sel_layers full)"
    and plain: "\<And>k l. k \<in> set ks \<Longrightarrow> l \<in> iv layers \<Longrightarrow> complex_at c k l = tx_unknown \<or> plain (complex_at c k l)" "plain a"
  shows "\<exists>c' e. fold_try (merge_layers r a layers) ks c = Some (c', e)
    \<and> (e = None \<longleftrightarrow> (\<forall>k \<in> set ks. \<forall>l \<in> iv layers. \<not> invalid_texture_use (join (complex_at c k l) a)))
    \<and> (if e = None then complex_ok full c'
         \<and> complex_at c' = (\<lambda>m l. if m \<in> set ks \<and> l \<in> iv layers then join (complex_at c m l) a else complex_at c m l)
       else True)"
  using assms(1-3) plain(1)
proof (induction ks arbitrary: c)
  case Nil
  then show ?case by simp
next
  case (Cons k ks)
  have k: "k < length (cts_mips c)" using Cons.prems(3) by simp
  from merge_layers_spec [OF Cons.prems(1) k layers _ plain(2), of r] Cons.prems(4) [of k]
  obtain c1 e1 where c1: "merge_layers r a layers k c = Some (c1, e1)"
    "e1 = None \<longleftrightarrow> (\<forall>l \<in> iv layers. \<not> invalid_texture_use (join (complex_at c k l) a))"
    "e1 = None \<Longrightarrow> complex_ok full c1 \<and> length (cts_mips c1) = length (cts_mips c)
         \<and> complex_at c1 = (\<lambda>m l. if m = k \<and> l \<in> iv layers then join (complex_at c m l) a else complex_at c m l)"
    by (auto split: if_splits)
  show ?case
  proof (cases e1)
    case (Some x)
    with c1(1,2) show ?thesis by auto
  next
    case None
    note c1' = c1(3) [OF None]
    have notin: "k \<notin> set ks" using Cons.prems(2) by simp
    have same: "j \<in> set ks \<Longrightarrow> complex_at c1 j l = complex_at c j l" for j l
      using c1' notin by auto
    have "\<exists>c' e. fold_try (merge_layers r a layers) ks c1 = Some (c', e)
      \<and> (e = None \<longleftrightarrow> (\<forall>k \<in> set ks. \<forall>l \<in> iv layers. \<not> invalid_texture_use (join (complex_at c1 k l) a)))
      \<and> (if e = None then complex_ok full c'
           \<and> complex_at c' = (\<lambda>m l. if m \<in> set ks \<and> l \<in> iv layers then join (complex_at c1 m l) a else complex_at c1 m l)
         else True)"
    proof (rule Cons.IH)
      show "complex_ok full c1" "distinct ks" using c1' Cons.prems(2) by simp_all
      show "\<forall>k \<in> set ks. k < length (cts_mips c1)" using c1' Cons.prems(3) by simp
      show "complex_at c1 j l = tx_unknown \<or> plain (complex_at c1 j l)" if "j \<in> set ks" "l \<in> iv layers" for j l
        using Cons.prems(4) [of j l] that same by simp
    qed
    then obtain c' e where c': "fold_try (merge_layers r a layers) ks c1 = Some (c', e)"
      "e = None \<longleftrightarrow> (\<forall>k \<in> set ks. \<forall>l \<in> iv layers. \<not> invalid_texture_use (join (complex_at c1 k l) a))"
      "e = None \<Longrightarrow> complex_ok full c'
           \<and> complex_at c' = (\<lambda>m l. if m \<in> set ks \<and> l \<in> iv layers then join (complex_at c1 m l) a else complex_at c1 m l)"
      by (auto split: if_splits)
    have "fold_try (merge_layers r a layers) (k # ks) c = Some (c', e)" using c1(1) None c'(1) by simp
    moreover have "e = None \<longleftrightarrow> (\<forall>j \<in> set (k # ks). \<forall>l \<in> iv layers. \<not> invalid_texture_use (join (complex_at c j l) a))"
      using c'(2) c1(2) None same by simp
    moreover have "complex_at c' = (\<lambda>m l. if m \<in> set (k # ks) \<and> l \<in> iv layers
        then join (complex_at c m l) a else complex_at c m l)" if "e = None"
      using c'(3) [OF that] c1' notin by (auto simp: fun_eq_iff)
    ultimately show ?thesis using c'(3) by auto
  qed
qed

lemma merge_many_single_spec:
  assumes "\<forall>mip \<in> set mips. mip_ok n mip"
    and plain: "\<And>mip l v. mip \<in> set mips \<Longrightarrow> lookup mip l = Some v \<Longrightarrow> v = tx_unknown \<or> plain v" "plain a"
  shows "\<exists>mips' e. merge_many_single r a k mips = (mips', e)
    \<and> (e = None \<longleftrightarrow> (\<forall>mip \<in> set mips. \<forall>l v. lookup mip l = Some v \<longrightarrow> \<not> invalid_texture_use (join v a)))
    \<and> (if e = None then length mips' = length mips
         \<and> (\<forall>m < length mips. mip_ok n (mips' ! m) \<and> (\<forall>l. lookup (mips' ! m) l = map_option (\<lambda>v. join v a) (lookup (mips ! m) l)))
       else True)"
  using assms(1) plain(1)
proof (induction mips arbitrary: k)
  case Nil
  then show ?case by simp
next
  case (Cons mip mips)
  let ?f = "\<lambda>layers current.
              let merged_state = (current OR a) AND NOT tx_unknown in
              if invalid_texture_use merged_state then Inl (UsageConflict r (one_mip k layers) current a)
              else Inr merged_state"
  let ?g = "\<lambda>v. let s = (v OR a) AND NOT tx_unknown in if invalid_texture_use s then None else Some s"
  have b: "body_is ?f ?g" by (simp add: body_is_def Let_def)
  have ok: "mip_ok n mip" "sane_ranges (ranges mip)" using Cons.prems(1) by (simp_all add: mip_ok_def sane_def)
  obtain rs e1 where rs: "replace_states ?f (ranges mip) = (rs, e1)" by (cases "replace_states ?f (ranges mip)")
  have member: "\<exists>l. lookup mip l = Some v" if "(x, v) \<in> set (ranges mip)" for x v
  proof -
    have "rstart x \<in> iv x" using ok(2) that by (force simp: sane_ranges_def)
    then show ?thesis using lookup_member [OF ok(2) that] by (auto simp: lookup_def)
  qed
  have val: "?g v = (if invalid_texture_use (join v a) then None else Some (join v a))" if "lookup mip l = Some v" for v l
    using masked_join [OF _ plain(2)] Cons.prems(2) [of mip l v] that by (simp add: Let_def)
  have entry: "\<exists>x. (x, v) \<in> set (ranges mip)" if "lookup mip l = Some v" for l v
    using lookup_ranges_member [of "ranges mip" l v] that by (auto simp: lookup_def)
  have e1: "e1 = None \<longleftrightarrow> (\<forall>l v. lookup mip l = Some v \<longrightarrow> \<not> invalid_texture_use (join v a))"
  proof
    assume "e1 = None"
    from replace_states_body(1) [OF b rs this] have all: "\<forall>(x, v) \<in> set (ranges mip). ?g v \<noteq> None" by blast
    show "\<forall>l v. lookup mip l = Some v \<longrightarrow> \<not> invalid_texture_use (join v a)"
    proof (intro allI impI)
      fix l v assume lv: "lookup mip l = Some v"
      with entry obtain x where "(x, v) \<in> set (ranges mip)" by blast
      with all have "?g v \<noteq> None" by blast
      with val [OF lv] show "\<not> invalid_texture_use (join v a)" by (metis (no_types, lifting))
    qed
  next
    assume all: "\<forall>l v. lookup mip l = Some v \<longrightarrow> \<not> invalid_texture_use (join v a)"
    show "e1 = None"
    proof (rule ccontr)
      assume "e1 \<noteq> None"
      from replace_states_body(2) [OF b rs this] obtain x v where xv: "(x, v) \<in> set (ranges mip)" "?g v = None" by blast
      from member [OF xv(1)] obtain l where "lookup mip l = Some v" by blast
      with val [OF this] all xv(2) show False by simp
    qed
  qed
  show ?case
  proof (cases e1)
    case (Some x)
    then have run: "merge_many_single r a k (mip # mips) = (mip\<lparr>ranges := rs\<rparr> # mips, Some x)"
      using rs by (simp add: Let_def)
    show ?thesis unfolding run using e1 Some by auto
  next
    case None
    let ?mip = "coalesce (mip\<lparr>ranges := rs\<rparr>)"
    have "\<exists>mips' e. merge_many_single r a (Suc k) mips = (mips', e)
      \<and> (e = None \<longleftrightarrow> (\<forall>mip \<in> set mips. \<forall>l v. lookup mip l = Some v \<longrightarrow> \<not> invalid_texture_use (join v a)))
      \<and> (if e = None then length mips' = length mips
           \<and> (\<forall>m < length mips. mip_ok n (mips' ! m) \<and> (\<forall>l. lookup (mips' ! m) l = map_option (\<lambda>v. join v a) (lookup (mips ! m) l)))
         else True)"
      by (rule Cons.IH) (use Cons.prems(1) in simp, rule Cons.prems(2), simp_all)
    then obtain mips' e where r: "merge_many_single r a (Suc k) mips = (mips', e)"
      "e = None \<longleftrightarrow> (\<forall>mip \<in> set mips. \<forall>l v. lookup mip l = Some v \<longrightarrow> \<not> invalid_texture_use (join v a))"
      "if e = None then length mips' = length mips
           \<and> (\<forall>m < length mips. mip_ok n (mips' ! m) \<and> (\<forall>l. lookup (mips' ! m) l = map_option (\<lambda>v. join v a) (lookup (mips ! m) l)))
       else True"
      by blast
    have run: "merge_many_single r a k (mip # mips) = (?mip # mips', e)"
      using rs None r(1) by (simp add: Let_def)
    have ys: "rs = map (\<lambda>(x, v). (x, the (?g v))) (ranges mip)"
      using replace_states_body(1) [OF b rs None] by blast
    have sel: "ranges (mip\<lparr>ranges := x\<rparr>) = x" for x by simp
    have "lookup (mip\<lparr>ranges := rs\<rparr>) l = map_option (\<lambda>v. join v a) (lookup mip l)" for l
    proof (cases "lookup mip l")
      case (Some v)
      with val [OF Some] e1 None have "?g v = Some (join v a)" by simp
      with Some show ?thesis by (simp only: ys lookup_def lookup_map_values sel option.map option.sel)
    next
      case none: None
      then show ?thesis by (simp only: ys lookup_def lookup_map_values sel option.map)
    qed
    moreover have "sane (mip\<lparr>ranges := rs\<rparr>)" using ok(2) by (simp add: sane_def ys sane_map_values)
    ultimately have m: "mip_ok n (mip\<lparr>ranges := rs\<rparr>)" "\<forall>l. lookup (mip\<lparr>ranges := rs\<rparr>) l = map_option (\<lambda>v. join v a) (lookup mip l)"
      using ok(1) by (simp_all add: mip_ok_def)
    then have mip: "mip_ok n ?mip" "\<forall>l. lookup ?mip l = map_option (\<lambda>v. join v a) (lookup mip l)"
      using mip_ok_coalesce [OF m(1)] by simp_all
    have "length (?mip # mips') = length (mip # mips) \<and> (\<forall>m < length (mip # mips). mip_ok n ((?mip # mips') ! m)
        \<and> (\<forall>l. lookup ((?mip # mips') ! m) l = map_option (\<lambda>v. join v a) (lookup ((mip # mips) ! m) l)))"
      if "e = None"
    proof -
      note r' = r(3) [unfolded if_P [OF that]]
      have "mip_ok n ((?mip # mips') ! m)
        \<and> (\<forall>l. lookup ((?mip # mips') ! m) l = map_option (\<lambda>v. join v a) (lookup ((mip # mips) ! m) l))"
        if "m < length (mip # mips)" for m
        using that mip r' by (cases m) simp_all
      then show ?thesis using r' by simp
    qed
    moreover have "e = None \<longleftrightarrow> (\<forall>mip \<in> set (mip # mips). \<forall>l v. lookup mip l = Some v \<longrightarrow> \<not> invalid_texture_use (join v a))"
      using r(2) e1 None by simp
    ultimately show ?thesis unfolding run by auto
  qed
qed

section \<open>The whole of \<open>merge\<close>\<close>

text \<open>A scope entry: every subresource is unknown or in a plain, valid usage.\<close>

definition plain_entry :: "texture_selector \<Rightarrow> texture_state_set \<Rightarrow> nat \<Rightarrow> bool" where
  "plain_entry full s i \<longleftrightarrow> i < length (tss_simple s)
     \<and> (if tss_simple s ! i = tx_complex then
          (case tss_complex s i of None \<Rightarrow> False | Some c \<Rightarrow> plain_complex full c)
        else plain (tss_simple s ! i))"

text \<open>What a view or a single use merges: one usage, over a selector or the whole texture.\<close>

definition single_use ::
  "texture_selector \<Rightarrow> texture_selector \<Rightarrow> texture_uses
   \<Rightarrow> (texture_uses, (texture_selector \<times> texture_uses) list) single_or_many \<Rightarrow> bool" where
  "single_use full sel a ns \<longleftrightarrow> plain a \<and> sel_within full sel
     \<and> (ns = Single a \<and> (\<forall>m l. in_sel sel m l = in_sel full m l) \<or> ns = Many [(sel, a)])"

definition merged_at :: "texture_selector \<Rightarrow> texture_uses \<Rightarrow> (nat \<Rightarrow> u32 \<Rightarrow> texture_uses) \<Rightarrow> nat \<Rightarrow> u32 \<Rightarrow> texture_uses" where
  "merged_at sel a c m l = (if in_sel sel m l then join (c m l) a else c m l)"

definition merge_result ::
  "texture_selector \<Rightarrow> texture_selector \<Rightarrow> texture_uses \<Rightarrow> nat \<Rightarrow> texture_state_set
   \<Rightarrow> (texture_state_set \<times> texture_conflict option) option \<Rightarrow> bool" where
  "merge_result full sel a i s out \<longleftrightarrow> (\<exists>s' e. out = Some (s', e)
     \<and> (e = None \<longleftrightarrow> (\<forall>m l. in_sel sel m l \<longrightarrow> \<not> invalid_texture_use (join (state_at s i m l) a)))
     \<and> (if e = None then plain_entry full s' i \<and> untouched i s s'
          \<and> (\<forall>m l. in_sel full m l \<longrightarrow> state_at s' i m l = merged_at sel a (state_at s i) m l)
        else True)
     \<and> length (tss_simple s') = length (tss_simple s))"

lemma complex_entry:
  assumes "i < length (tss_simple s)" "complex_ok full c"
    and "\<And>m l. in_sel full m l \<Longrightarrow> complex_at c m l = tx_unknown \<or> plain (complex_at c m l)"
  shows "plain_entry full (s\<lparr>tss_simple := (tss_simple s)[i := tx_complex], tss_complex := (tss_complex s)(i \<mapsto> c)\<rparr>) i"
    "state_at (s\<lparr>tss_simple := (tss_simple s)[i := tx_complex], tss_complex := (tss_complex s)(i \<mapsto> c)\<rparr>) i = complex_at c"
  using assms by (simp_all add: plain_entry_def plain_complex_def state_at_def fun_eq_iff)

lemma merged_plain:
  assumes "\<And>m l. in_sel full m l \<Longrightarrow> c m l = tx_unknown \<or> plain (c m l)" "plain a" "sel_within full sel" "full_ok full"
    and "\<forall>m l. in_sel sel m l \<longrightarrow> \<not> invalid_texture_use (join (c m l) a)" "in_sel full m l"
  shows "merged_at sel a c m l = tx_unknown \<or> plain (merged_at sel a c m l)"
  using assms plain_join by (auto simp: merged_at_def)

lemma merge_single_arm:
  assumes full: "full_ok full" and cur: "i < length (tss_simple s)" "tss_simple s ! i = c" "plain c"
    and ns: "get_texture_state sp (Some full) i = Some ns" "single_use full sel a ns"
    and r: "provide_resource mp i = Some r"
  shows "merge_result full sel a i s (merge_texture full s i sp mp)"
proof -
  have c: "c \<noteq> tx_complex" "c \<noteq> tx_unknown" using plain_clean [OF cur(3)] by (simp_all add: clean_def)
  have a: "plain a" "a \<noteq> tx_unknown" and sel: "sel_within full sel"
    using ns(2) plain_not_unknown by (auto simp: single_use_def)
  have get: "set_get i s = Some (Single c)" using cur(1,2) c(1) by (simp add: set_get_def vec_get_def)
  have at: "state_at s i = (\<lambda>_ _. c)" using cur(2) c(1) by (simp add: state_at_def fun_eq_iff)
  have j: "join c a = c OR a" using c a by (simp add: join_def)
  have some: "\<exists>m l. in_sel sel m l" by (rule sel_within_some [OF sel])
  consider (one) "ns = Single a" "\<forall>m l. in_sel sel m l = in_sel full m l" | (many) "ns = Many [(sel, a)]"
    using ns(2) by (auto simp: single_use_def)
  then show ?thesis
  proof cases
    case one
    show ?thesis
    proof (cases "invalid_texture_use (c OR a)")
      case True
      then have "merge_texture full s i sp mp = Some (s, Some (UsageConflict r full c a))"
        by (simp add: merge_texture_def get ns(1) one(1) r Let_def)
      with True some show ?thesis by (simp add: merge_result_def at j)
    next
      case False
      let ?s = "s\<lparr>tss_simple := (tss_simple s)[i := c OR a]\<rparr>"
      have "plain (c OR a)" using plain_join [of c a] False cur(3) a(1) by (simp add: j)
      moreover from plain_clean [OF this] have "c OR a \<noteq> tx_complex" by (simp add: clean_def)
      ultimately have "plain_entry full ?s i" "state_at ?s i = (\<lambda>_ _. c OR a)" "untouched i s ?s"
        using cur(1) by (auto simp: plain_entry_def state_at_def untouched_def fun_eq_iff)
      moreover have "merge_texture full s i sp mp = Some (?s, None)"
        using False by (simp add: merge_texture_def get ns(1) one(1) r Let_def)
      ultimately show ?thesis using False one(2) by (simp add: merge_result_def at j merged_at_def)
    qed
  next
    case many
    have self: "sel_within full full" using full by (simp add: full_ok_def sel_within_def)
    then have "\<forall>(sel, st) \<in> set [(full, c)]. sel_within full sel \<and> \<not> invalid_texture_use st"
      using cur(3) by (simp add: plain_def)
    from from_selector_spec [OF full this] obtain c0 where c0: "from_selector_state_iter full [(full, c)] = Some c0"
      "complex_ok full c0" "complex_at c0 = override_many [(full, c)] (\<lambda>_ _. tx_unknown)" by blast
    show ?thesis
    proof (cases "invalid_texture_use (c OR a)")
      case True
      then have "merge_texture full s i sp mp = Some (s, Some (UsageConflict r sel c a))"
        by (simp add: merge_texture_def get ns(1) many r c0(1) merge_single_many_def Let_def)
      with True some show ?thesis by (simp add: merge_result_def at j)
    next
      case False
      from assign_each(2) [OF c0(2) sel, of "c OR a"] obtain c1 where c1:
        "each_mip (\<lambda>mip. map_option coalesce (assign_layers (c OR a) (sel_layers sel) mip)) (sel_mips sel) c0 = Some c1"
        "complex_ok full c1" "complex_at c1 = (\<lambda>m l. if in_sel sel m l then c OR a else complex_at c0 m l)" by blast
      let ?s = "s\<lparr>tss_simple := (tss_simple s)[i := tx_complex], tss_complex := (tss_complex s)(i \<mapsto> c1)\<rparr>"
      have at1: "complex_at c1 m l = merged_at sel a (\<lambda>_ _. c) m l" if "in_sel full m l" for m l
        using that by (simp add: c1(3) c0(3) merged_at_def j)
      have "plain (c OR a)" using plain_join [of c a] False cur(3) a(1) by (simp add: j)
      then have "complex_at c1 m l = tx_unknown \<or> plain (complex_at c1 m l)" if "in_sel full m l" for m l
        using at1 [OF that] cur(3) by (simp add: merged_at_def j)
      from complex_entry [OF cur(1) c1(2) this] have "plain_entry full ?s i" "state_at ?s i = complex_at c1" by auto
      moreover have "merge_texture full s i sp mp = Some (?s, None)"
        using False cur(1) by (simp add: merge_texture_def get ns(1) many r c0(1) merge_single_many_def Let_def c1(1)
            make_complex_def insert_complex_def vec_set_def)
      moreover have "untouched i s ?s" by (simp add: untouched_def)
      ultimately show ?thesis using False at1 by (simp add: merge_result_def at j)
    qed
  qed
qed

lemma merge_many_arm:
  assumes full: "full_ok full" and cur: "i < length (tss_simple s)" "tss_simple s ! i = tx_complex"
      "tss_complex s i = Some c" "plain_complex full c"
    and ns: "get_texture_state sp (Some full) i = Some ns" "single_use full sel a ns"
    and r: "provide_resource mp i = Some r"
  shows "merge_result full sel a i s (merge_texture full s i sp mp)"
proof -
  have c: "complex_ok full c" "\<And>m l. in_sel full m l \<Longrightarrow> complex_at c m l = tx_unknown \<or> plain (complex_at c m l)"
    using cur(4) by (auto simp: plain_complex_def)
  have a: "plain a" and sel: "sel_within full sel" using ns(2) by (auto simp: single_use_def)
  have get: "set_get i s = Some (Many c)" using cur by (simp add: set_get_def vec_get_def)
  have at: "state_at s i = complex_at c" using cur by (simp add: state_at_def fun_eq_iff)
  have len: "length (cts_mips c) = unat (rend (sel_mips full))" using c(1) by (simp add: complex_ok_def)
  have finish: "merge_result full sel a i s (Some (put_complex i c' s, e))"
    if e: "e = None \<longleftrightarrow> (\<forall>m l. in_sel sel m l \<longrightarrow> \<not> invalid_texture_use (join (complex_at c m l) a))"
      and c': "e = None \<Longrightarrow> complex_ok full c' \<and> (\<forall>m l. in_sel full m l \<longrightarrow> complex_at c' m l = merged_at sel a (complex_at c) m l)"
    for c' e
  proof -
    have "plain_entry full (put_complex i c' s) i \<and> untouched i s (put_complex i c' s)
        \<and> (\<forall>m l. in_sel full m l \<longrightarrow> state_at (put_complex i c' s) i m l = merged_at sel a (complex_at c) m l)" if "e = None"
    proof -
      have ok: "complex_ok full c'" and at': "\<And>m l. in_sel full m l \<Longrightarrow> complex_at c' m l = merged_at sel a (complex_at c) m l"
        using c' [OF that] by auto
      have "\<forall>m l. in_sel sel m l \<longrightarrow> \<not> invalid_texture_use (join (complex_at c m l) a)" using e that by blast
      then have pl: "complex_at c' m l = tx_unknown \<or> plain (complex_at c' m l)" if "in_sel full m l" for m l
        unfolding at' [OF that] using merged_plain [of full "complex_at c", OF c(2) a sel full _ that] by blast
      have "plain_entry full (put_complex i c' s) i"
        unfolding plain_entry_def plain_complex_def using cur(1,2) ok pl by (simp add: put_complex_def)
      moreover have "state_at (put_complex i c' s) i = complex_at c'"
        using cur(1,2) by (simp add: put_complex_def state_at_def fun_eq_iff)
      ultimately show ?thesis using at' by (simp add: untouched_def put_complex_def)
    qed
    then show ?thesis using e by (simp add: merge_result_def at put_complex_def)
  qed
  consider (one) "ns = Single a" "\<forall>m l. in_sel sel m l = in_sel full m l" | (many) "ns = Many [(sel, a)]"
    using ns(2) by (auto simp: single_use_def)
  then show ?thesis
  proof cases
    case one
    have ok: "\<forall>mip \<in> set (cts_mips c). mip_ok (rend (sel_layers full)) mip"
      using c(1) by (auto simp: complex_ok_def in_set_conv_nth)
    have known: "\<exists>m < length (cts_mips c). mip = cts_mips c ! m \<and> in_sel full m l \<and> v = complex_at c m l"
      if mem: "mip \<in> set (cts_mips c)" "lookup mip l = Some v" for mip l v
    proof -
      from mem(1) obtain m where m: "m < length (cts_mips c)" "mip = cts_mips c ! m" by (auto simp: in_set_conv_nth)
      moreover have "lookup mip l \<noteq> None \<longleftrightarrow> l < rend (sel_layers full)" using ok mem(1) by (simp add: mip_ok_def)
      ultimately have "in_sel full m l \<and> v = complex_at c m l"
        using mem(2) len by (simp add: full_ok_in_sel [OF full] complex_at_def)
      with m show ?thesis by blast
    qed
    have vals: "v = tx_unknown \<or> plain v" if "mip \<in> set (cts_mips c)" "lookup mip l = Some v" for mip l v
      using known [OF that] c(2) by auto
    have "\<exists>mips' e. merge_many_single r a 0 (cts_mips c) = (mips', e)
      \<and> (e = None \<longleftrightarrow> (\<forall>mip \<in> set (cts_mips c). \<forall>l v. lookup mip l = Some v \<longrightarrow> \<not> invalid_texture_use (join v a)))
      \<and> (if e = None then length mips' = length (cts_mips c) \<and> (\<forall>m < length (cts_mips c). mip_ok (rend (sel_layers full)) (mips' ! m)
           \<and> (\<forall>l. lookup (mips' ! m) l = map_option (\<lambda>v. join v a) (lookup (cts_mips c ! m) l))) else True)"
      by (rule merge_many_single_spec [OF ok _ a]) (rule vals)
    then obtain mips' e where m:
      "merge_many_single r a 0 (cts_mips c) = (mips', e)"
      "e = None \<longleftrightarrow> (\<forall>mip \<in> set (cts_mips c). \<forall>l v. lookup mip l = Some v \<longrightarrow> \<not> invalid_texture_use (join v a))"
      "if e = None then length mips' = length (cts_mips c) \<and> (\<forall>m < length (cts_mips c). mip_ok (rend (sel_layers full)) (mips' ! m)
           \<and> (\<forall>l. lookup (mips' ! m) l = map_option (\<lambda>v. join v a) (lookup (cts_mips c ! m) l))) else True"
      by blast
    let ?c = "c\<lparr>cts_mips := mips'\<rparr>"
    have run: "merge_texture full s i sp mp = Some (put_complex i ?c s, e)"
      by (simp add: merge_texture_def get ns(1) one(1) r m(1))
    have lk: "lookup (cts_mips c ! m) l = Some (complex_at c m l)" "m < length (cts_mips c)" if "in_sel full m l" for m l
      using that complex_ok_lookup [OF c(1)] len by (auto simp: full_ok_in_sel [OF full])
    have e: "e = None \<longleftrightarrow> (\<forall>m l. in_sel sel m l \<longrightarrow> \<not> invalid_texture_use (join (complex_at c m l) a))"
      unfolding m(2)
    proof (intro iffI allI impI ballI)
      fix m l assume "\<forall>mip \<in> set (cts_mips c). \<forall>l v. lookup mip l = Some v \<longrightarrow> \<not> invalid_texture_use (join v a)" "in_sel sel m l"
      with one(2) lk [of m l] show "\<not> invalid_texture_use (join (complex_at c m l) a)" by (auto dest: nth_mem)
    next
      fix mip l v assume "\<forall>m l. in_sel sel m l \<longrightarrow> \<not> invalid_texture_use (join (complex_at c m l) a)"
        "mip \<in> set (cts_mips c)" "lookup mip l = Some v"
      with known [of mip l v] one(2) show "\<not> invalid_texture_use (join v a)" by blast
    qed
    have "complex_ok full ?c \<and> (\<forall>m l. in_sel full m l \<longrightarrow> complex_at ?c m l = merged_at sel a (complex_at c) m l)" if "e = None"
      using m(3) [unfolded if_P [OF that]] len one(2) lk by (simp add: complex_ok_def complex_at_def [of ?c] merged_at_def)
    from finish [OF e this] show ?thesis unfolding run .
  next
    case many
    let ?ks = "range_indices (sel_mips sel)"
    have ks: "\<forall>k \<in> set ?ks. k < length (cts_mips c)" "distinct ?ks"
      "\<And>m l. m \<in> set ?ks \<and> l \<in> iv (sel_layers sel) \<longleftrightarrow> in_sel sel m l"
      using sel len by (auto simp: range_indices_def sel_within_def word_le_nat_alt in_sel_def)
    have l: "rstart (sel_layers sel) < rend (sel_layers sel)" "rend (sel_layers sel) \<le> rend (sel_layers full)"
      using sel by (auto simp: sel_within_def sel_nonempty_def)
    have vals: "complex_at c k l = tx_unknown \<or> plain (complex_at c k l)" if "k \<in> set ?ks" "l \<in> iv (sel_layers sel)" for k l
    proof -
      have "in_sel sel k l" using that ks(3) by blast
      then show ?thesis using c(2) in_sel_within [OF sel full] by blast
    qed
    have "\<exists>c' e. fold_try (merge_layers r a (sel_layers sel)) ?ks c = Some (c', e)
      \<and> (e = None \<longleftrightarrow> (\<forall>k \<in> set ?ks. \<forall>l \<in> iv (sel_layers sel). \<not> invalid_texture_use (join (complex_at c k l) a)))
      \<and> (if e = None then complex_ok full c' \<and> complex_at c'
          = (\<lambda>m l. if m \<in> set ?ks \<and> l \<in> iv (sel_layers sel) then join (complex_at c m l) a else complex_at c m l) else True)"
      by (rule merge_mips_spec [OF c(1) ks(2,1) l _ a]) (rule vals)
    then obtain c' e where m:
      "fold_try (merge_layers r a (sel_layers sel)) ?ks c = Some (c', e)"
      "e = None \<longleftrightarrow> (\<forall>k \<in> set ?ks. \<forall>l \<in> iv (sel_layers sel). \<not> invalid_texture_use (join (complex_at c k l) a))"
      "if e = None then complex_ok full c' \<and> complex_at c'
          = (\<lambda>m l. if m \<in> set ?ks \<and> l \<in> iv (sel_layers sel) then join (complex_at c m l) a else complex_at c m l) else True"
      by blast
    have "merge_many_many r [(sel, a)] c = Some (c', e)"
      using m(1) by (cases e) (simp_all add: merge_many_many_def)
    then have run: "merge_texture full s i sp mp = Some (put_complex i c' s, e)"
      by (simp add: merge_texture_def get ns(1) many r)
    have "e = None \<longleftrightarrow> (\<forall>m l. in_sel sel m l \<longrightarrow> \<not> invalid_texture_use (join (complex_at c m l) a))"
      unfolding m(2) ks(3) [symmetric] by blast
    moreover have "complex_ok full c' \<and> (\<forall>m l. in_sel full m l \<longrightarrow> complex_at c' m l = merged_at sel a (complex_at c) m l)" if "e = None"
      using m(3) [unfolded if_P [OF that]] by (simp only: ks(3) merged_at_def) simp
    ultimately show ?thesis unfolding run by (rule finish)
  qed
qed

section \<open>One use merged into a scope\<close>

lemma plain_entry_ok: "plain_entry full s i \<Longrightarrow> entry_ok full s i"
proof -
  assume s: "plain_entry full s i"
  have "complex_ok full c \<and> (\<forall>m l. in_sel full m l \<longrightarrow> \<not> invalid_texture_use (complex_at c m l))"
    if "plain_complex full c" for c
  proof -
    have "\<not> invalid_texture_use v" if "v = tx_unknown \<or> plain v" for v
      using that unknown_valid by (auto simp: plain_def)
    with that show ?thesis by (simp add: plain_complex_def)
  qed
  with s show ?thesis by (auto simp: plain_entry_def entry_ok_def plain_clean split: option.splits if_splits)
qed

lemma get_provided:
  assumes "sel_within full (case so of None \<Rightarrow> full | Some sel \<Rightarrow> sel)" "plain a"
  shows "\<exists>ns. get_texture_state (provider_from_option so a) (Some full) i = Some ns
    \<and> single_use full (case so of None \<Rightarrow> full | Some sel \<Rightarrow> sel) a ns"
  using assms by (auto simp: provider_from_option_def get_texture_state_def single_use_def split: option.splits)

lemma insert_plain:
  assumes full: "full_ok full" and ns: "single_use full sel a ns" and i: "i < length (tss_simple s)"
  shows "\<exists>s'. insert_one i (Some full) ns s = Some s' \<and> plain_entry full s' i \<and> untouched i s s'
    \<and> (\<forall>m l. in_sel full m l \<longrightarrow> state_at s' i m l = merged_at sel a (\<lambda>_ _. tx_unknown) m l)"
proof -
  have a: "plain a" "a \<noteq> tx_complex" "\<not> invalid_texture_use a" and sel: "sel_within full sel"
    using ns plain_clean [of a] by (auto simp: single_use_def clean_def)
  consider (one) "ns = Single a" "\<forall>m l. in_sel sel m l = in_sel full m l" | (many) "ns = Many [(sel, a)]"
    using ns by (auto simp: single_use_def)
  then show ?thesis
  proof cases
    case one
    let ?s = "s\<lparr>tss_simple := (tss_simple s)[i := a]\<rparr>"
    have "insert_one i (Some full) ns s = Some ?s"
      using one(1) a(3) i by (simp add: insert_one_def insert_simple_def vec_set_def)
    moreover have "plain_entry full ?s i" "untouched i s ?s" "state_at ?s i = (\<lambda>_ _. a)"
      using a i by (auto simp: plain_entry_def untouched_def state_at_def fun_eq_iff)
    ultimately show ?thesis using one(2) by (simp add: merged_at_def join_def)
  next
    case many
    have "\<forall>(sel, st) \<in> set [(sel, a)]. sel_within full sel \<and> \<not> invalid_texture_use st" using a sel by simp
    from from_selector_spec [OF full this] obtain c where c: "from_selector_state_iter full [(sel, a)] = Some c"
      "complex_ok full c" "complex_at c = override_many [(sel, a)] (\<lambda>_ _. tx_unknown)" by blast
    have at: "complex_at c = (\<lambda>m l. if in_sel sel m l then a else tx_unknown)" by (simp add: c(3))
    let ?s = "s\<lparr>tss_simple := (tss_simple s)[i := tx_complex], tss_complex := (tss_complex s)(i \<mapsto> c)\<rparr>"
    have "insert_one i (Some full) ns s = Some ?s"
      using many c(1) i by (simp add: insert_one_def insert_complex_def vec_set_def)
    moreover have "plain_entry full ?s i" "state_at ?s i = complex_at c"
      using complex_entry [OF i c(2)] a(1) by (auto simp: at)
    moreover have "untouched i s ?s" by (simp add: untouched_def)
    ultimately show ?thesis by (auto simp: at merged_at_def join_def)
  qed
qed

definition scope_plain :: "(nat \<Rightarrow> texture_selector) \<Rightarrow> nat \<Rightarrow> texture_usage_scope \<Rightarrow> bool" where
  "scope_plain full n s \<longleftrightarrow> set_size_of (ts_set s) = n \<and> metadata_wf n (ts_metadata s)
     \<and> tex_named full (ts_metadata s) \<and> (\<forall>i \<in> owns (ts_metadata s). plain_entry (full i) (ts_set s) i)"

lemma scope_plain_wf: "scope_plain full n s \<Longrightarrow> ts_wf full n s"
  by (simp add: scope_plain_def ts_wf_def plain_entry_ok)

lemma untouched_plain: "untouched i s s' \<Longrightarrow> j \<noteq> i \<Longrightarrow> plain_entry full s' j = plain_entry full s j"
  by (simp add: untouched_def plain_entry_def)

definition selected :: "texture_selector \<Rightarrow> texture_selector option \<Rightarrow> texture_selector" where
  "selected full so = (case so of None \<Rightarrow> full | Some sel \<Rightarrow> sel)"

lemma ts_merge_step:
  assumes s: "scope_plain full n s" and i: "i < n" "full_ok (full i)"
    and use: "sel_within (full i) (selected (full i) so)" "plain a"
  shows "\<exists>s' r. ts_merge_single (tex_ref full i) so a s = Some (s', r)
    \<and> (r = None \<longleftrightarrow> (\<forall>m l. in_sel (selected (full i) so) m l \<longrightarrow> \<not> invalid_texture_use (join (scope_at s i m l) a)))
    \<and> (if r = None then scope_plain full n s'
         \<and> (\<forall>j m l. in_sel (full j) m l \<longrightarrow> scope_at s' j m l
               = (if j = i then merged_at (selected (full i) so) a (scope_at s i) m l else scope_at s j m l))
       else True)"
proof -
  let ?sel = "selected (full i) so" and ?md = "ts_metadata s"
  have md: "metadata_wf n ?md" "tex_named full ?md" "set_size_of (ts_set s) = n"
    and ent: "\<And>j. j \<in> owns ?md \<Longrightarrow> plain_entry (full j) (ts_set s) j"
    using s by (auto simp: scope_plain_def)
  have len: "i < length (tss_simple (ts_set s))" using i(1) md(3) by (simp add: set_size_of_def)
  obtain ns where ns: "get_texture_state (provider_from_option so a) (Some (full i)) i = Some ns"
    "single_use (full i) ?sel a ns"
    using get_provided [OF use(1) [unfolded selected_def] use(2)] unfolding selected_def by blast
  have r: "provide_resource (DirectResource (tex_ref full i)) i = Some (tex_ref full i)"
    by (simp add: provide_resource_def)
  have start: "ts_merge_single (tex_ref full i) so a s
      = insert_or_merge_texture (full i) i (provider_from_option so a) (DirectResource (tex_ref full i)) s"
    using in_bounds_simps(2) [OF scope_plain_wf [OF s], of i] i(1) by (simp add: ts_merge_single_def)
  note owned = contains_unchecked_eq [OF md(1) i(1)]
  show ?thesis
  proof (cases "i \<in> owns ?md")
    case True
    have "merge_result (full i) ?sel a i (ts_set s)
        (merge_texture (full i) (ts_set s) i (provider_from_option so a) (DirectResource (tex_ref full i)))"
    proof (cases "tss_simple (ts_set s) ! i = tx_complex")
      case complex: True
      then obtain c where "tss_complex (ts_set s) i = Some c" "plain_complex (full i) c"
        using ent [OF True] by (auto simp: plain_entry_def split: option.splits)
      from merge_many_arm [OF i(2) len complex this ns r] show ?thesis .
    next
      case False
      then have "plain (tss_simple (ts_set s) ! i)" using ent [OF True] by (simp add: plain_entry_def)
      from merge_single_arm [OF i(2) len refl this ns r] show ?thesis .
    qed
    then obtain st e where m:
      "merge_texture (full i) (ts_set s) i (provider_from_option so a) (DirectResource (tex_ref full i)) = Some (st, e)"
      "e = None \<longleftrightarrow> (\<forall>m l. in_sel ?sel m l \<longrightarrow> \<not> invalid_texture_use (join (state_at (ts_set s) i m l) a))"
      "if e = None then plain_entry (full i) st i \<and> untouched i (ts_set s) st
          \<and> (\<forall>m l. in_sel (full i) m l \<longrightarrow> state_at st i m l = merged_at ?sel a (state_at (ts_set s) i) m l)
        else True"
      unfolding merge_result_def by blast
    let ?s = "s\<lparr>ts_set := st\<rparr>"
    have at: "scope_at s i = state_at (ts_set s) i" using True by (simp add: scope_at_def fun_eq_iff)
    have run: "ts_merge_single (tex_ref full i) so a s = Some (?s, e)"
      using True unfolding start by (simp add: insert_or_merge_texture_def owned m(1))
    have "scope_plain full n ?s \<and> (\<forall>j m l. in_sel (full j) m l \<longrightarrow> scope_at ?s j m l
        = (if j = i then merged_at ?sel a (scope_at s i) m l else scope_at s j m l))" if "e = None"
    proof -
      have st: "plain_entry (full i) st i" "untouched i (ts_set s) st"
        "\<And>m l. in_sel (full i) m l \<Longrightarrow> state_at st i m l = merged_at ?sel a (state_at (ts_set s) i) m l"
        using m(3) that by simp_all
      have "plain_entry (full j) st j" if "j \<in> owns ?md" for j
        using st(1) untouched_plain [OF st(2)] ent [OF that] by (cases "j = i") simp_all
      then have "scope_plain full n ?s" using s st(2) by (simp add: scope_plain_def untouched_def set_size_of_def)
      moreover have "scope_at ?s j m l = (if j = i then merged_at ?sel a (scope_at s i) m l else scope_at s j m l)"
        if "in_sel (full j) m l" for j m l
        using that st(3) True untouched_other(2) [OF st(2)] by (cases "j = i") (simp_all add: at scope_at_def [of ?s] scope_at_def [of s j])
      ultimately show ?thesis by blast
    qed
    then show ?thesis using run m(2) unfolding at by auto
  next
    case False
    have at: "scope_at s i = (\<lambda>_ _. tx_unknown)" using False by (simp add: scope_at_def fun_eq_iff)
    from insert_plain [OF i(2) ns(2) len] obtain st where st: "insert_one i (Some (full i)) ns (ts_set s) = Some st"
      "plain_entry (full i) st i" "untouched i (ts_set s) st"
      "\<And>m l. in_sel (full i) m l \<Longrightarrow> state_at st i m l = merged_at ?sel a (\<lambda>_ _. tx_unknown) m l" by blast
    from metadata_insert_tex [OF md(1) i(1) md(2)] obtain md' where md':
      "metadata_insert i (tex_ref full i) ?md = Some md'" "metadata_wf n md'" "owns md' = insert i (owns ?md)"
      "tex_named full md'" by blast
    let ?s = "s\<lparr>ts_set := st, ts_metadata := md'\<rparr>"
    have run: "ts_merge_single (tex_ref full i) so a s = Some (?s, None)"
      using False unfolding start
      by (simp add: insert_or_merge_texture_def owned insert_texture_def ns(1) st(1) r md'(1))
    have "plain_entry (full j) st j" if "j \<in> owns md'" for j
      using that st(2) untouched_plain [OF st(3)] ent md'(3) by (cases "j = i") simp_all
    then have "scope_plain full n ?s" using s st(3) md'(2,4) by (simp add: scope_plain_def untouched_def set_size_of_def)
    moreover have "scope_at ?s j m l = (if j = i then merged_at ?sel a (scope_at s i) m l else scope_at s j m l)"
      if "in_sel (full j) m l" for j m l
      using that st(4) md'(3) untouched_other(2) [OF st(3)]
      by (cases "j = i") (simp_all add: at scope_at_def [of ?s] scope_at_def [of s j])
    moreover have "\<not> invalid_texture_use (join (scope_at s i m l) a)" for m l
      using use(2) by (simp add: at join_def plain_def)
    ultimately show ?thesis using run by auto
  qed
qed

section \<open>A usage scope\<close>

type_synonym texture_use = "nat \<times> texture_selector option \<times> texture_uses"

definition merge_use :: "(nat \<Rightarrow> texture_selector) \<Rightarrow> texture_use \<Rightarrow> (nat \<Rightarrow> nat \<Rightarrow> u32 \<Rightarrow> texture_uses) \<Rightarrow> nat \<Rightarrow> nat \<Rightarrow> u32 \<Rightarrow> texture_uses" where
  "merge_use full u c j = (case u of (i, so, a) \<Rightarrow> if j = i then merged_at (selected (full i) so) a (c i) else c j)"

text \<open>The union of all usages of every subresource, and that none of them is invalid.\<close>

definition all_uses :: "(nat \<Rightarrow> texture_selector) \<Rightarrow> texture_use list \<Rightarrow> (nat \<Rightarrow> nat \<Rightarrow> u32 \<Rightarrow> texture_uses) \<Rightarrow> nat \<Rightarrow> nat \<Rightarrow> u32 \<Rightarrow> texture_uses" where
  "all_uses full us c = fold (merge_use full) us c"

definition no_conflict :: "(nat \<Rightarrow> texture_selector) \<Rightarrow> (nat \<Rightarrow> nat \<Rightarrow> u32 \<Rightarrow> texture_uses) \<Rightarrow> bool" where
  "no_conflict full c \<longleftrightarrow> (\<forall>i m l. in_sel (full i) m l \<longrightarrow> \<not> invalid_texture_use (c i m l))"

definition good_use :: "(nat \<Rightarrow> texture_selector) \<Rightarrow> nat \<Rightarrow> texture_use \<Rightarrow> bool" where
  "good_use full n u = (case u of (i, so, a) \<Rightarrow>
     i < n \<and> full_ok (full i) \<and> sel_within (full i) (selected (full i) so) \<and> plain a)"

lemma join_grows: "plain a \<Longrightarrow> c \<noteq> tx_unknown \<Longrightarrow> contains (join c a) c \<and> (invalid_texture_use c \<longrightarrow> join c a \<noteq> tx_unknown)"
proof -
  assume a: "plain a" "c \<noteq> tx_unknown"
  then have j: "join c a = c OR a" using plain_not_unknown by (simp add: join_def)
  have inv: "invalid_texture_use (c OR a)" if "invalid_texture_use c"
    using invalid_resource_state_mono [OF that contains_or(1)] .
  have "c OR a \<noteq> tx_unknown" if "invalid_texture_use c" using inv [OF that] unknown_valid by metis
  then show ?thesis unfolding j using contains_or(1) by blast
qed

lemma conflict_stays:
  assumes "\<forall>u \<in> set us. good_use full n u" "invalid_texture_use (c i m l)"
  shows "invalid_texture_use (all_uses full us c i m l)"
  using assms
proof (induction us arbitrary: c)
  case Nil
  then show ?case by (simp add: all_uses_def)
next
  case (Cons u us)
  obtain j so a where u: "u = (j, so, a)" by (cases u)
  have a: "plain a" using Cons.prems(1) u by (simp add: good_use_def)
  have c: "c i m l \<noteq> tx_unknown" using Cons.prems(2) unknown_valid by metis
  have "invalid_texture_use (join (c i m l) a)"
    using invalid_resource_state_mono [OF Cons.prems(2)] join_grows [OF a c] by blast
  then have "invalid_texture_use (merge_use full u c i m l)"
    using Cons.prems(2) by (cases "i = j") (simp_all add: merge_use_def u merged_at_def)
  with Cons.IH [of "merge_use full u c"] Cons.prems(1) show ?case by (simp add: all_uses_def)
qed

lemma all_uses_cong:
  assumes "\<And>i m l. in_sel (full i) m l \<Longrightarrow> c i m l = c' i m l" "in_sel (full i) m l"
  shows "all_uses full us c i m l = all_uses full us c' i m l"
  using assms
proof (induction us arbitrary: c c')
  case (Cons u us)
  have "merge_use full u c i m l = merge_use full u c' i m l" if "in_sel (full i) m l" for i m l
    using Cons.prems(1) that by (simp add: merge_use_def merged_at_def split: prod.split)
  with Cons.IH [of "merge_use full u c" "merge_use full u c'"] Cons.prems(2) show ?case by (simp add: all_uses_def)
qed (simp add: all_uses_def)

lemma merge_uses:
  assumes "\<forall>u \<in> set us. good_use full n u" "scope_plain full n s" "no_conflict full (scope_at s)"
  shows "\<exists>s' r. fold_try (\<lambda>(i, so, a). ts_merge_single (tex_ref full i) so a) us s = Some (s', r)
    \<and> (r = None \<longleftrightarrow> no_conflict full (all_uses full us (scope_at s)))
    \<and> (if r = None then scope_plain full n s'
         \<and> (\<forall>i m l. in_sel (full i) m l \<longrightarrow> scope_at s' i m l = all_uses full us (scope_at s) i m l)
       else True)"
  using assms
proof (induction us arbitrary: s)
  case Nil
  then show ?case by (simp add: all_uses_def)
next
  case (Cons u us)
  obtain i so a where u: "u = (i, so, a)" by (cases u)
  have g: "i < n" "full_ok (full i)" "sel_within (full i) (selected (full i) so)" "plain a"
    using Cons.prems(1) u by (simp_all add: good_use_def)
  from ts_merge_step [OF Cons.prems(2) g] obtain s1 r1 where s1:
    "ts_merge_single (tex_ref full i) so a s = Some (s1, r1)"
    "r1 = None \<longleftrightarrow> (\<forall>m l. in_sel (selected (full i) so) m l \<longrightarrow> \<not> invalid_texture_use (join (scope_at s i m l) a))"
    "if r1 = None then scope_plain full n s1
         \<and> (\<forall>j m l. in_sel (full j) m l \<longrightarrow> scope_at s1 j m l
               = (if j = i then merged_at (selected (full i) so) a (scope_at s i) m l else scope_at s j m l))
       else True" by blast
  have good: "\<forall>u \<in> set us. good_use full n u" using Cons.prems(1) by simp
  show ?case
  proof (cases r1)
    case (Some e)
    then obtain m l where ml: "in_sel (selected (full i) so) m l" "invalid_texture_use (join (scope_at s i m l) a)"
      using s1(2) by auto
    then have "invalid_texture_use (merge_use full u (scope_at s) i m l)" by (simp add: merge_use_def u merged_at_def)
    from conflict_stays [where c = "merge_use full u (scope_at s)", OF good this] have "invalid_texture_use (all_uses full (u # us) (scope_at s) i m l)"
      by (simp add: all_uses_def)
    moreover have "in_sel (full i) m l" using in_sel_within [OF g(3,2) ml(1)] .
    ultimately have "\<not> no_conflict full (all_uses full (u # us) (scope_at s))" by (auto simp: no_conflict_def)
    then show ?thesis using s1(1) Some u by simp
  next
    case None
    note r1 = s1(3) [unfolded if_P [OF None]]
    have same: "scope_at s1 j m l = merge_use full u (scope_at s) j m l" if "in_sel (full j) m l" for j m l
      using r1 that by (simp add: merge_use_def u)
    have "no_conflict full (scope_at s1)"
      unfolding no_conflict_def
    proof (intro allI impI)
      fix j m l assume j: "in_sel (full j) m l"
      show "\<not> invalid_texture_use (scope_at s1 j m l)"
        unfolding same [OF j] using Cons.prems(3) s1(2) None j
        by (cases "j = i") (auto simp: no_conflict_def merge_use_def u merged_at_def)
    qed
    from Cons.IH [OF good _ this] r1 obtain s2 r2 where s2:
      "fold_try (\<lambda>(i, so, a). ts_merge_single (tex_ref full i) so a) us s1 = Some (s2, r2)"
      "r2 = None \<longleftrightarrow> no_conflict full (all_uses full us (scope_at s1))"
      "if r2 = None then scope_plain full n s2
         \<and> (\<forall>i m l. in_sel (full i) m l \<longrightarrow> scope_at s2 i m l = all_uses full us (scope_at s1) i m l)
       else True" by blast
    have eq: "all_uses full us (scope_at s1) j m l = all_uses full (u # us) (scope_at s) j m l"
      if "in_sel (full j) m l" for j m l
      using all_uses_cong [where full = full and c = "scope_at s1" and c' = "merge_use full u (scope_at s)"
        and us = us and i = j and m = m and l = l] same that by (simp add: all_uses_def)
    have "fold_try (\<lambda>(i, so, a). ts_merge_single (tex_ref full i) so a) (u # us) s = Some (s2, r2)"
      using s1(1) None s2(1) u by simp
    then show ?thesis using s2(2,3) eq by (simp add: no_conflict_def)
  qed
qed

text \<open>C5: Starting from an empty usage scope, merging any sequence of usages, each of a whole texture
  or of a selector inside it, never fails an assertion or leaves the bounds of a vector. It reports
  a conflict exactly when the usages of some single subresource, taken together, mix an exclusive
  usage with another one; otherwise the scope holds for every subresource exactly the union of its
  usages, and is a well-formed scope for the barriers of a command buffer.\<close>
theorem texture_scope_exact:
  assumes "\<forall>u \<in> set us. good_use full n u"
  shows "\<exists>s r. fold_try (\<lambda>(i, so, a). ts_merge_single (tex_ref full i) so a) us (ts_set_size n default_texture_scope)
      = Some (s, r)
    \<and> (r = None \<longleftrightarrow> no_conflict full (all_uses full us (\<lambda>_ _ _. tx_unknown)))
    \<and> (if r = None then ts_wf full n s
         \<and> (\<forall>i m l. in_sel (full i) m l \<longrightarrow> scope_at s i m l = all_uses full us (\<lambda>_ _ _. tx_unknown) i m l)
       else True)"
proof -
  let ?s = "ts_set_size n default_texture_scope"
  have o: "owns (ts_metadata ?s) = {}"
    by (simp add: ts_set_size_def default_texture_scope_def owns_set_size owns_new)
  have plain: "scope_plain full n ?s"
    using o metadata_wf_set_size [OF metadata_wf_new]
    by (simp add: scope_plain_def tex_named_def ts_set_size_def default_texture_scope_def set_size_of_def set_set_size_def)
  have none: "scope_at ?s = (\<lambda>_ _ _. tx_unknown)" by (simp add: scope_at_def fun_eq_iff o)
  have "no_conflict full (\<lambda>_ _ _. tx_unknown)" by (simp add: no_conflict_def unknown_valid)
  from merge_uses [OF assms plain] this scope_plain_wf show ?thesis unfolding none by (metis (no_types, lifting))
qed

lemma plain_uses: "plain tx_copy_src" "plain tx_copy_dst" "plain tx_resource" "plain tx_storage_write_only"
  unfolding plain_def invalid_resource_state_def any_exclusive_def intersects_def tx_exclusive_def
  by (simp_all add: is_power_of_two_def bit_simps upt_rec
      tx_copy_src_def tx_copy_dst_def tx_resource_def tx_color_target_def tx_depth_stencil_write_def
      tx_storage_write_only_def tx_storage_read_write_def tx_storage_atomic_def tx_present_def)

lemma texture_scope_exact_witness:
  "\<exists>s r. fold_try (\<lambda>(i, so, a). ts_merge_single (tex_ref (\<lambda>_. two_mips) i) so a)
        [(0, Some \<lparr>sel_mips = Range 0 1, sel_layers = Range 0 1\<rparr>, tx_resource), (0, None, tx_resource)]
        (ts_set_size 1 default_texture_scope) = Some (s, r)
    \<and> (r = None \<longleftrightarrow> no_conflict (\<lambda>_. two_mips) (all_uses (\<lambda>_. two_mips)
          [(0, Some \<lparr>sel_mips = Range 0 1, sel_layers = Range 0 1\<rparr>, tx_resource), (0, None, tx_resource)]
          (\<lambda>_ _ _. tx_unknown)))
    \<and> (if r = None then ts_wf (\<lambda>_. two_mips) 1 s
         \<and> (\<forall>i m l. in_sel two_mips m l \<longrightarrow> scope_at s i m l = all_uses (\<lambda>_. two_mips)
              [(0, Some \<lparr>sel_mips = Range 0 1, sel_layers = Range 0 1\<rparr>, tx_resource), (0, None, tx_resource)]
              (\<lambda>_ _ _. tx_unknown) i m l)
       else True)"
  using texture_scope_exact [of "[(0, Some \<lparr>sel_mips = Range 0 1, sel_layers = Range 0 1\<rparr>, tx_resource),
    (0, None, tx_resource)]" "\<lambda>_. two_mips" 1] plain_uses
  by (simp add: good_use_def selected_def full_ok_def sel_within_def sel_nonempty_def MAX_MIP_LEVELS_def)

section \<open>Merging the scope of a render bundle\<close>

text \<open>A texture of one mip level and two layers, written by a storage binding.\<close>

abbreviation two_layers :: texture_selector where
  "two_layers \<equiv> \<lparr>sel_mips = Range 0 1, sel_layers = Range 0 2\<rparr>"

abbreviation first_layer :: texture_selector where
  "first_layer \<equiv> \<lparr>sel_mips = Range 0 1, sel_layers = Range 0 1\<rparr>"

text \<open>The usages of one texture as a pass merges them when it binds views, and by way of a bundle.\<close>

definition bundle_scope :: "texture_uses \<Rightarrow> (texture_usage_scope \<times> texture_conflict option) option" where
  "bundle_scope st = ts_merge_single (tex_ref (\<lambda>_. two_layers) 0) (Some first_layer) st
     (ts_set_size 1 default_texture_scope)"

definition pass_scope :: "texture_uses \<Rightarrow> (texture_usage_scope \<times> texture_conflict option) option" where
  "pass_scope st = ts_merge_single (tex_ref (\<lambda>_. two_layers) 0) (Some two_layers) st
     (ts_set_size 1 default_texture_scope)"

text \<open>Merging the scope of a render bundle treats the subresources the bundle does not use as used
  in the unknown state: when a pass writes both layers of a texture through one storage view and a
  bundle writes only the first layer, in the same usage, the bundle's usage merges into the pass
  when it is merged directly, but merging the bundle's scope reports a conflict between the storage
  usage and the unknown state; for an inclusive usage the unknown flag stays in the scope's state.\<close>
lemma bundle_merge_leaks_unknown:
  "(do { (p, _) \<leftarrow> pass_scope tx_storage_write_only;
         (p', r) \<leftarrow> ts_merge_single (tex_ref (\<lambda>_. two_layers) 0) (Some first_layer) tx_storage_write_only p;
         Some r }) = Some None
   \<and> (do { (p, _) \<leftarrow> pass_scope tx_storage_write_only;
           (b, _) \<leftarrow> bundle_scope tx_storage_write_only;
           (p', r) \<leftarrow> ts_merge_usage_scope b p;
           Some r }) = Some (Some (UsageConflict (tex_ref (\<lambda>_. two_layers) 0)
             \<lparr>sel_mips = Range 0 1, sel_layers = Range 1 2\<rparr> tx_storage_write_only tx_unknown))
   \<and> (do { (p, _) \<leftarrow> pass_scope tx_resource;
           (b, _) \<leftarrow> bundle_scope tx_resource;
           (p', r) \<leftarrow> ts_merge_usage_scope b p;
           Some (r, state_at (ts_set p') 0 0 1) }) = Some (None, tx_resource OR tx_unknown)"
  by code_simp

end
