(* ===== verification/Lifetime.thy ===== *)
theory Lifetime
  imports Buffers "HOL-Library.Multiset"
begin

unbundle bit_operations_syntax

text \<open>
  The life of a submission: \<open>LifetimeTracker\<close> (\<open>wgpu-core/src/device/life.rs\<close>), the pending
  writes, \<open>write_buffer\<close>, \<open>submit\<close> and \<open>maintain\<close> of the queue (\<open>device/queue.rs\<close>), \<open>maintain\<close> of
  the device (\<open>device/resource.rs\<close>), and the operations of a buffer that wait for submissions
  (\<open>resource.rs\<close>). Of the usage tracker of a command buffer only the indices it owns matter
  here; the barriers and clears a submission inserts are the subject of other theories.
  Buffers are named by their tracker index, closures by numbers.
\<close>

section \<open>The lifetime tracker\<close>

datatype temp_resource = TempStaging u64 | TempDestroyedBuffer nat | TempDestroyedTexture nat

record encoder_in_flight =
  eif_buffers :: "nat list"
  eif_textures :: "nat list"
  eif_blas :: "nat list"
  eif_temp :: "temp_resource list"
  eif_pending_buffers :: "nat list"
  eif_pending_textures :: "nat list"
  eif_pending_blas :: "nat list"

record active_submission =
  as_index :: u64
  as_mapped :: "nat list"
  as_compact :: "nat list"
  as_encoders :: "encoder_in_flight list"
  as_closures :: "nat list"

definition contains_buffer :: "active_submission \<Rightarrow> nat \<Rightarrow> bool" where
  "contains_buffer a b \<longleftrightarrow>
     (\<exists>e\<in>set (as_encoders a). b \<in> set (eif_buffers e) \<or> b \<in> set (eif_pending_buffers e))"

definition contains_texture :: "active_submission \<Rightarrow> nat \<Rightarrow> bool" where
  "contains_texture a t \<longleftrightarrow>
     (\<exists>e\<in>set (as_encoders a). t \<in> set (eif_textures e) \<or> t \<in> set (eif_pending_textures e))"

definition contains_blas :: "active_submission \<Rightarrow> nat \<Rightarrow> bool" where
  "contains_blas a s \<longleftrightarrow>
     (\<exists>e\<in>set (as_encoders a). s \<in> set (eif_blas e) \<or> s \<in> set (eif_pending_blas e))"

record lifetime_tracker =
  lt_active :: "active_submission list"
  lt_ready_to_map :: "nat list"
  lt_ready_to_compact :: "nat list"
  lt_closures :: "nat list"

definition new_lifetime_tracker :: lifetime_tracker where
  "new_lifetime_tracker =
    \<lparr>lt_active = [], lt_ready_to_map = [], lt_ready_to_compact = [], lt_closures = []\<rparr>"

definition queue_empty :: "lifetime_tracker \<Rightarrow> bool" where
  "queue_empty t \<longleftrightarrow> lt_active t = []"

definition track_submission :: "u64 \<Rightarrow> encoder_in_flight list \<Rightarrow> lifetime_tracker \<Rightarrow> lifetime_tracker" where
  "track_submission index encoders t =
    t\<lparr>lt_active := lt_active t @
       [\<lparr>as_index = index, as_mapped = [], as_compact = [], as_encoders = encoders, as_closures = []\<rparr>]\<rparr>"

text \<open>\<open>iter_mut().find\<close>, with the update made through the reference it returns.\<close>

fun update_first :: "('a \<Rightarrow> bool) \<Rightarrow> ('a \<Rightarrow> 'a) \<Rightarrow> 'a list \<Rightarrow> ('a \<times> 'a list) option" where
  "update_first P f [] = None"
| "update_first P f (x # xs) =
     (if P x then Some (x, f x # xs) else map_option (\<lambda>(y, ys). (y, x # ys)) (update_first P f xs))"

definition life_map :: "nat \<Rightarrow> lifetime_tracker \<Rightarrow> u64 option \<times> lifetime_tracker" where
  "life_map buffer t =
    (case update_first (\<lambda>a. contains_buffer a buffer)
            (\<lambda>a. a\<lparr>as_mapped := as_mapped a @ [buffer]\<rparr>) (rev (lt_active t)) of
       Some (a, as) \<Rightarrow> (Some (as_index a), t\<lparr>lt_active := rev as\<rparr>)
     | None \<Rightarrow> (None, t\<lparr>lt_ready_to_map := lt_ready_to_map t @ [buffer]\<rparr>))"

definition prepare_compact :: "nat \<Rightarrow> lifetime_tracker \<Rightarrow> u64 option \<times> lifetime_tracker" where
  "prepare_compact blas t =
    (case update_first (\<lambda>a. contains_blas a blas)
            (\<lambda>a. a\<lparr>as_compact := as_compact a @ [blas]\<rparr>) (rev (lt_active t)) of
       Some (a, as) \<Rightarrow> (Some (as_index a), t\<lparr>lt_active := rev as\<rparr>)
     | None \<Rightarrow> (None, t\<lparr>lt_ready_to_compact := lt_ready_to_compact t @ [blas]\<rparr>))"

definition get_buffer_latest_submission_index :: "nat \<Rightarrow> lifetime_tracker \<Rightarrow> u64 option" where
  "get_buffer_latest_submission_index buffer t =
     map_option as_index (find (\<lambda>a. contains_buffer a buffer) (rev (lt_active t)))"

definition get_texture_latest_submission_index :: "nat \<Rightarrow> lifetime_tracker \<Rightarrow> u64 option" where
  "get_texture_latest_submission_index texture t =
     map_option as_index (find (\<lambda>a. contains_texture a texture) (rev (lt_active t)))"

definition triage_submissions :: "u64 \<Rightarrow> lifetime_tracker \<Rightarrow> nat list \<times> lifetime_tracker" where
  "triage_submissions last_done t =
    (let done_count = (case position (\<lambda>a. as_index a > last_done) (lt_active t) of
                         Some i \<Rightarrow> i | None \<Rightarrow> length (lt_active t));
         finished = take done_count (lt_active t)
     in (lt_closures t @ concat (map as_closures finished),
         t\<lparr>lt_active := drop done_count (lt_active t),
           lt_ready_to_map := lt_ready_to_map t @ concat (map as_mapped finished),
           lt_ready_to_compact := lt_ready_to_compact t @ concat (map as_compact finished),
           lt_closures := []\<rparr>))"

text \<open>A submission without encoders is the panic of \<open>unwrap\<close>.\<close>

definition schedule_resource_destruction ::
  "temp_resource \<Rightarrow> u64 \<Rightarrow> lifetime_tracker \<Rightarrow> lifetime_tracker option" where
  "schedule_resource_destruction temp last_submit_index t =
    (case update_first (\<lambda>a. as_index a = last_submit_index)
            (\<lambda>a. a\<lparr>as_encoders := butlast (as_encoders a) @
                    [(last (as_encoders a))\<lparr>eif_temp := eif_temp (last (as_encoders a)) @ [temp]\<rparr>]\<rparr>)
            (lt_active t) of
       None \<Rightarrow> Some t
     | Some (a, as) \<Rightarrow> if as_encoders a = [] then None else Some (t\<lparr>lt_active := as\<rparr>))"

definition add_work_done_closure :: "nat \<Rightarrow> lifetime_tracker \<Rightarrow> u64 option \<times> lifetime_tracker" where
  "add_work_done_closure closure t =
    (if lt_active t = [] then (None, t\<lparr>lt_closures := lt_closures t @ [closure]\<rparr>)
     else let a = last (lt_active t) in
       (Some (as_index a),
        t\<lparr>lt_active := butlast (lt_active t) @ [a\<lparr>as_closures := as_closures a @ [closure]\<rparr>]\<rparr>))"

text \<open>The loop of \<open>handle_mapping\<close> over the buffers that are ready.\<close>

type_synonym buffers = "nat \<Rightarrow> buffer_state"

fun map_all :: "device \<Rightarrow> nat list \<Rightarrow> buffers \<Rightarrow> (map_closure list \<times> buffers) option" where
  "map_all dev [] bs = Some ([], bs)"
| "map_all dev (b # rest) bs = do {
     (closure, st) \<leftarrow> map_ready dev (bs b);
     (closures, bs') \<leftarrow> map_all dev rest (bs(b := st));
     Some ((case closure of Some c \<Rightarrow> [c] | None \<Rightarrow> []) @ closures, bs') }"

definition handle_mapping ::
  "device \<Rightarrow> lifetime_tracker \<Rightarrow> buffers \<Rightarrow> (map_closure list \<times> lifetime_tracker \<times> buffers) option" where
  "handle_mapping dev t bs = do {
     (closures, bs') \<leftarrow> map_all dev (lt_ready_to_map t) bs;
     Some (closures, t\<lparr>lt_ready_to_map := []\<rparr>, bs') }"

section \<open>Pending writes\<close>

record pending_writes =
  pw_recording :: bool
  pw_temp :: "temp_resource list"
  pw_buffers :: "nat list"
  pw_textures :: "nat list"
  pw_blas :: "nat list"

definition new_pending_writes :: pending_writes where
  "new_pending_writes =
    \<lparr>pw_recording = False, pw_temp = [], pw_buffers = [], pw_textures = [], pw_blas = []\<rparr>"

definition insert_key :: "nat \<Rightarrow> nat list \<Rightarrow> nat list" where
  "insert_key k ks = (if k \<in> set ks then ks else ks @ [k])"

definition pw_insert_buffer :: "nat \<Rightarrow> pending_writes \<Rightarrow> pending_writes" where
  "pw_insert_buffer b w = w\<lparr>pw_buffers := insert_key b (pw_buffers w)\<rparr>"

definition pw_contains_buffer :: "pending_writes \<Rightarrow> nat \<Rightarrow> bool" where
  "pw_contains_buffer w b \<longleftrightarrow> b \<in> set (pw_buffers w)"

definition consume_temp :: "temp_resource \<Rightarrow> pending_writes \<Rightarrow> pending_writes" where
  "consume_temp r w = w\<lparr>pw_temp := pw_temp w @ [r]\<rparr>"

text \<open>The encoder is begun if it is not recording; an error of the backend there is the panic of \<open>unwrap\<close>.\<close>

definition activate :: "device_error option \<Rightarrow> pending_writes \<Rightarrow> pending_writes option" where
  "activate begin_result w =
    (if pw_recording w then Some w
     else case begin_result of None \<Rightarrow> Some (w\<lparr>pw_recording := True\<rparr>) | Some _ \<Rightarrow> None)"

text \<open>
  \<open>pre_submit\<close>; the two backend calls may fail, the first before and the second after the
  encoder stopped recording.
\<close>

definition pre_submit ::
  "device_error option \<Rightarrow> device_error option \<Rightarrow> pending_writes
   \<Rightarrow> (device_error + encoder_in_flight option) \<times> pending_writes" where
  "pre_submit end_result acquire_result w =
    (let cleared = w\<lparr>pw_buffers := [], pw_textures := [], pw_blas := []\<rparr> in
     if pw_recording w then
       case end_result of
         Some e \<Rightarrow> (Inl e, cleared)
       | None \<Rightarrow>
           case acquire_result of
             Some e \<Rightarrow> (Inl e, cleared\<lparr>pw_recording := False\<rparr>)
           | None \<Rightarrow>
               (Inr (Some \<lparr>eif_buffers = [], eif_textures = [], eif_blas = [], eif_temp = pw_temp w,
                          eif_pending_buffers = pw_buffers w, eif_pending_textures = pw_textures w,
                          eif_pending_blas = pw_blas w\<rparr>),
                cleared\<lparr>pw_recording := False, pw_temp := []\<rparr>)
     else (Inr None, cleared))"

section \<open>Reading back compacted sizes\<close>

text \<open>
  The state of a bottom level acceleration structure; the callback is a number. The last argument
  of \<open>read_back_compact_size\<close> is what the backend answers when the size is read.
\<close>

datatype blas_compact_state = Compacted | CompactWaiting "nat option" | CompactReady u64 | CompactIdle

definition read_back_compact_size ::
  "blas_compact_state \<Rightarrow> device_error + u64
   \<Rightarrow> ((nat option \<times> (device_error + unit)) option \<times> blas_compact_state) option" where
  "read_back_compact_size st answer =
    (case st of
       CompactWaiting op \<Rightarrow>
         (case answer of
            Inr sz \<Rightarrow> Some (Some (op, Inr ()), CompactReady sz)
          | Inl e \<Rightarrow> Some (Some (op, Inl e), CompactIdle))
     | CompactIdle \<Rightarrow> Some (None, CompactIdle)
     | CompactReady _ \<Rightarrow> None
     | Compacted \<Rightarrow> None)"

fun read_back_all ::
  "(nat \<Rightarrow> device_error + u64) \<Rightarrow> nat list \<Rightarrow> (nat \<Rightarrow> blas_compact_state)
   \<Rightarrow> ((nat option \<times> (device_error + unit)) list \<times> (nat \<Rightarrow> blas_compact_state)) option" where
  "read_back_all answer [] st = Some ([], st)"
| "read_back_all answer (b # rest) st = do {
     (closure, c) \<leftarrow> read_back_compact_size (st b) (answer b);
     (closures, st') \<leftarrow> read_back_all answer rest (st(b := c));
     Some ((case closure of Some x \<Rightarrow> [x] | None \<Rightarrow> []) @ closures, st') }"

definition handle_compact_read_back ::
  "(nat \<Rightarrow> device_error + u64) \<Rightarrow> lifetime_tracker \<Rightarrow> (nat \<Rightarrow> blas_compact_state)
   \<Rightarrow> ((nat option \<times> (device_error + unit)) list \<times> lifetime_tracker \<times> (nat \<Rightarrow> blas_compact_state)) option" where
  "handle_compact_read_back answer t st = do {
     (closures, st') \<leftarrow> read_back_all answer (lt_ready_to_compact t) st;
     Some (closures, t\<lparr>lt_ready_to_compact := []\<rparr>, st') }"

section \<open>The device\<close>

text \<open>
  The state of one device and its queue. The value of the fence is the GPU's; it only grows. What
  the backend answers in one call is a record \<open>hal_answers\<close>.
\<close>

record life_state =
  ls_buffers :: buffers
  ls_blas :: "nat \<Rightarrow> blas_compact_state"
  ls_textures_destroyed :: "nat \<Rightarrow> bool"
  ls_life :: lifetime_tracker
  ls_pending :: pending_writes
  ls_tracker :: device_buffer_tracker
  ls_submission_index :: u64
  ls_last_successful :: u64
  ls_fence :: u64
  ls_lost_closure :: "nat option"

record hal_answers =
  ha_end_encoding :: "device_error option"
  ha_acquire_encoder :: "device_error option"
  ha_submit :: "device_error option"
  ha_wait :: "device_error option"
  ha_fence_value :: "device_error option"
  ha_blas_size :: "nat \<Rightarrow> device_error + u64"

text \<open>What is called back: mappings, acceleration structures, finished work, the lost device.\<close>

datatype fired =
  FiredMap nat "buffer_access_error + unit"
| FiredBlas nat "device_error + unit"
| FiredWorkDone nat
| FiredDeviceLost nat

record user_closures =
  uc_mappings :: "map_closure list"
  uc_blas :: "(nat option \<times> (device_error + unit)) list"
  uc_submissions :: "nat list"
  uc_lost :: "nat list"

definition no_closures :: user_closures where
  "no_closures = \<lparr>uc_mappings = [], uc_blas = [], uc_submissions = [], uc_lost = []\<rparr>"

definition fire_map :: "map_closure \<Rightarrow> fired list" where
  "fire_map c = (case mo_callback (fst c) of Some cb \<Rightarrow> [FiredMap cb (snd c)] | None \<Rightarrow> [])"

definition fire_closures :: "user_closures \<Rightarrow> fired list" where
  "fire_closures u =
    concat (map fire_map (uc_mappings u))
    @ concat (map (\<lambda>(op, st). case op of Some cb \<Rightarrow> [FiredBlas cb st] | None \<Rightarrow> []) (uc_blas u))
    @ map FiredWorkDone (uc_submissions u) @ map FiredDeviceLost (uc_lost u)"

section \<open>Operations of a buffer\<close>

text \<open>
  \<open>Global::buffer_map_async\<close> with \<open>Buffer::map_async\<close>: the callbacks fired, and the index of the
  submission to wait for. The usage it records in the device tracker yields a transition that the
  source drops.
\<close>

definition buffer_map_async ::
  "device \<Rightarrow> nat \<Rightarrow> u64 \<Rightarrow> u64 option \<Rightarrow> map_operation \<Rightarrow> life_state
   \<Rightarrow> (fired list \<times> (buffer_access_error + u64) \<times> life_state) option" where
  "buffer_map_async dev b offset sz op s =
    (case map_request dev offset sz op (ls_buffers s b) of
       Inl (op', e) \<Rightarrow> Some (fire_map (op', Inl e), Inl e, s)
     | Inr st \<Rightarrow> do {
         (_, tracker) \<leftarrow> device_set_single b (map_use (mo_host op)) (ls_tracker s);
         let (index, life) = life_map b (ls_life s);
         Some ([], Inr (unwrap_or index 0),
               s\<lparr>ls_buffers := (ls_buffers s)(b := st), ls_tracker := tracker, ls_life := life\<rparr>) })"

definition staging_size :: "buffer_map_state \<Rightarrow> u64" where
  "staging_size st = (case st of MapInit n \<Rightarrow> n | _ \<Rightarrow> 0)"

fun is_staging_copy :: "unmap_effect \<Rightarrow> bool" where
  "is_staging_copy (CopyFromStaging _) = True"
| "is_staging_copy _ = False"

definition buffer_unmap ::
  "device_error option \<Rightarrow> nat \<Rightarrow> life_state \<Rightarrow> (fired list \<times> (buffer_access_error + unit) \<times> life_state) option" where
  "buffer_unmap begin_result b s =
    (case unmap_inner True (ls_buffers s b) of
       Inl (e, st) \<Rightarrow> Some ([], Inl e, s\<lparr>ls_buffers := (ls_buffers s)(b := st)\<rparr>)
     | Inr (closure, effects, st) \<Rightarrow> do {
         writes \<leftarrow>
           (if list_ex is_staging_copy effects then
              map_option (\<lambda>w. pw_insert_buffer b (consume_temp (TempStaging (staging_size (bst_map_state (ls_buffers s b)))) w))
                (activate begin_result (ls_pending s))
            else Some (ls_pending s));
         Some (case closure of Some c \<Rightarrow> fire_map c | None \<Rightarrow> [], Inr (),
               s\<lparr>ls_buffers := (ls_buffers s)(b := st), ls_pending := writes\<rparr>) })"

definition buffer_destroy :: "nat \<Rightarrow> life_state \<Rightarrow> life_state option" where
  "buffer_destroy b s =
    (if bst_destroyed (ls_buffers s b) then Some s
     else let temp = TempDestroyedBuffer b;
              s1 = s\<lparr>ls_buffers := (ls_buffers s)(b := (ls_buffers s b)\<lparr>bst_destroyed := True\<rparr>)\<rparr>
          in if pw_contains_buffer (ls_pending s) b
             then Some (s1\<lparr>ls_pending := consume_temp temp (ls_pending s)\<rparr>)
             else case get_buffer_latest_submission_index b (ls_life s) of
                    None \<Rightarrow> Some s1
                  | Some i \<Rightarrow> map_option (\<lambda>life. s1\<lparr>ls_life := life\<rparr>)
                                (schedule_resource_destruction temp i (ls_life s)))"

section \<open>Writing a buffer through the queue\<close>

datatype queue_write_error = QwQueue device_error | QwTransfer transfer_error | QwDestroyed nat

definition validate_write_buffer_impl :: "buffer_state \<Rightarrow> u64 \<Rightarrow> u64 \<Rightarrow> transfer_error + unit" where
  "validate_write_buffer_impl b offset sz =
    (let buf = bst_buffer b in
     and_then (ensure (bst_map_state b = MapIdle) TeBufferNotAvailable) (\<lambda>_.
     and_then (map_err (\<lambda>(i, a, e). TeMissingBufferUsage i a e) (check_usage buf bus_copy_dst)) (\<lambda>_.
     and_then (ensure (is_multiple_of sz COPY_BUFFER_ALIGNMENT) (TeUnalignedCopySize sz)) (\<lambda>_.
     and_then (ensure (is_multiple_of offset COPY_BUFFER_ALIGNMENT) (TeUnalignedBufferOffset offset)) (\<lambda>_.
     and_then (ensure (\<not> offset > gb_size buf)
                 (TeBufferStartOffsetOverrun offset (gb_size buf) CopyDestination)) (\<lambda>_.
     ensure (\<not> sz > gb_size buf - offset)
       (TeBufferEndOffsetOverrun offset sz (gb_size buf) CopyDestination)))))))"

definition write_staging_buffer_impl ::
  "device \<Rightarrow> device_error option \<Rightarrow> nat \<Rightarrow> u64 \<Rightarrow> u64 \<Rightarrow> life_state \<Rightarrow> ((queue_write_error + unit) \<times> life_state) option" where
  "write_staging_buffer_impl dev begin_result b offset sz s =
    (if \<not> dev_valid dev then Some (Inl (QwQueue DeviceLost), s)
     else do {
       (_, tracker) \<leftarrow> device_set_single b bu_copy_dst (ls_tracker s);
       let s1 = s\<lparr>ls_tracker := tracker\<rparr>;
       let st = ls_buffers s b;
       if bst_destroyed st then Some (Inl (QwDestroyed b), s1)
       else if gb_device (bst_buffer st) \<noteq> dev_id dev
         then Some (Inl (QwQueue (DeviceMismatch (gb_device (bst_buffer st)) (dev_id dev))), s1)
       else case validate_write_buffer_impl st offset sz of
         Inl e \<Rightarrow> Some (Inl (QwTransfer e), s1)
       | Inr _ \<Rightarrow>
           map_option (\<lambda>writes. (Inr (), s1\<lparr>ls_pending := pw_insert_buffer b writes,
                      ls_buffers := (ls_buffers s1)(b := st\<lparr>bst_status :=
                        drain_unread (bst_status st) (Range offset (offset + sz))\<rparr>)\<rparr>))
             (activate begin_result (ls_pending s1)) })"

definition write_buffer ::
  "device \<Rightarrow> device_error option \<Rightarrow> nat \<Rightarrow> u64 \<Rightarrow> u64 \<Rightarrow> life_state \<Rightarrow> ((queue_write_error + unit) \<times> life_state) option" where
  "write_buffer dev begin_result b offset data_size s =
    (if \<not> dev_valid dev then Some (Inl (QwQueue DeviceLost), s)
     else if gb_device (bst_buffer (ls_buffers s b)) \<noteq> dev_id dev
       then Some (Inl (QwQueue (DeviceMismatch (gb_device (bst_buffer (ls_buffers s b))) (dev_id dev))), s)
     else if data_size = 0 then Some (Inr (), s)
     else case hd_staging_buffer (dev_hal dev) data_size of
       Some e \<Rightarrow> Some (Inl (QwQueue e), s)
     | None \<Rightarrow> map_option (\<lambda>(r, s'). (r, s'\<lparr>ls_pending := consume_temp (TempStaging data_size) (ls_pending s')\<rparr>))
                 (write_staging_buffer_impl dev begin_result b offset data_size s))"

section \<open>Maintaining\<close>

definition queue_maintain ::
  "device \<Rightarrow> (nat \<Rightarrow> device_error + u64) \<Rightarrow> u64 \<Rightarrow> life_state
   \<Rightarrow> (user_closures \<times> bool \<times> life_state) option" where
  "queue_maintain dev blas_size submission_index s = do {
     let (submission_closures, life) = triage_submissions submission_index (ls_life s);
     (mapping_closures, life, bufs) \<leftarrow> handle_mapping dev life (ls_buffers s);
     (blas_closures, life, blas) \<leftarrow> handle_compact_read_back blas_size life (ls_blas s);
     Some (\<lparr>uc_mappings = mapping_closures, uc_blas = blas_closures, uc_submissions = submission_closures,
            uc_lost = []\<rparr>,
           queue_empty life, s\<lparr>ls_life := life, ls_buffers := bufs, ls_blas := blas\<rparr>) }"

datatype poll_type = PollWait "u64 option" | Poll
datatype poll_status = QueueEmpty | WaitSucceeded | PollDone
datatype wait_idle_error = WaitDevice device_error | WrongSubmissionIndex u64 u64 | WaitTimeout

definition wait_target :: "poll_type \<Rightarrow> u64 \<Rightarrow> wait_idle_error + u64 option" where
  "wait_target poll last_successful =
    (case poll of
       PollWait (Some i) \<Rightarrow>
         if i > last_successful then Inl (WrongSubmissionIndex i last_successful) else Inr (Some i)
     | PollWait None \<Rightarrow> Inr (Some last_successful)
     | Poll \<Rightarrow> Inr None)"

text \<open>
  The status of a poll, with the assertion of the source. The argument \<open>finished\<close> is the value of
  the fence when it is read, after the wait if there was one.
\<close>

definition poll_result :: "bool \<Rightarrow> u64 option \<Rightarrow> u64 \<Rightarrow> (wait_idle_error + poll_status) option" where
  "poll_result is_empty target finished =
    (if is_empty then
       (case target of
          Some i \<Rightarrow> if finished \<ge> i then Some (Inr QueueEmpty) else None
        | None \<Rightarrow> Some (Inr QueueEmpty))
     else case target of
       Some i \<Rightarrow> Some (if finished \<ge> i then Inr WaitSucceeded else Inl WaitTimeout)
     | None \<Rightarrow> Some (Inr PollDone))"

definition device_maintain ::
  "device \<Rightarrow> hal_answers \<Rightarrow> poll_type \<Rightarrow> life_state
   \<Rightarrow> (user_closures \<times> (wait_idle_error + poll_status) \<times> life_state) option" where
  "device_maintain dev ha poll s =
    (case wait_target poll (ls_last_successful s) of
       Inl e \<Rightarrow> Some (no_closures, Inl e, s)
     | Inr target \<Rightarrow>
         (case (if target = None then None else ha_wait ha) of
            Some e \<Rightarrow> Some (no_closures, Inl (WaitDevice e), s)
          | None \<Rightarrow>
              (case ha_fence_value ha of
                 Some e \<Rightarrow> Some (no_closures, Inl (WaitDevice e), s)
               | None \<Rightarrow> do {
                   (closures, is_empty, s1) \<leftarrow> queue_maintain dev (ha_blas_size ha) (ls_fence s) s;
                   result \<leftarrow> poll_result is_empty target (ls_fence s);
                   let lost = (\<not> dev_valid dev \<and> is_empty);
                   Some (closures\<lparr>uc_lost := (if lost then (case ls_lost_closure s1 of Some c \<Rightarrow> [c] | None \<Rightarrow> []) else [])\<rparr>,
                         result,
                         if lost then s1\<lparr>ls_lost_closure := None\<rparr> else s1) })))"

definition device_poll ::
  "device \<Rightarrow> hal_answers \<Rightarrow> poll_type \<Rightarrow> life_state
   \<Rightarrow> (fired list \<times> (wait_idle_error + poll_status) \<times> life_state) option" where
  "device_poll dev ha poll s =
     map_option (\<lambda>(closures, result, s'). (fire_closures closures, result, s')) (device_maintain dev ha poll s)"

section \<open>Submitting\<close>

text \<open>
  A finished command buffer, or the error it was invalidated with; \<open>cmb_reopen\<close> is the answer of the
  backend when its encoder is reopened for the transitions.
\<close>

record command_buffer =
  cmb_finished :: bool
  cmb_device :: nat
  cmb_buffers :: "nat list"
  cmb_textures :: "nat list"
  cmb_blas :: "nat list"
  cmb_temp :: "temp_resource list"
  cmb_reopen :: "device_error option"

datatype queue_submit_error =
  QsQueue device_error | QsDestroyed nat | QsBufferStillMapped nat | QsInvalidCommandBuffer

fun check_used_buffers :: "buffers \<Rightarrow> nat list \<Rightarrow> queue_submit_error + unit" where
  "check_used_buffers bs [] = Inr ()"
| "check_used_buffers bs (b # rest) =
     (if bst_destroyed (bs b) then Inl (QsDestroyed b)
      else if bst_map_state (bs b) \<noteq> MapIdle then Inl (QsBufferStillMapped b)
      else check_used_buffers bs rest)"

definition validate_command_buffer :: "device \<Rightarrow> life_state \<Rightarrow> command_buffer \<Rightarrow> queue_submit_error + unit" where
  "validate_command_buffer dev s cb =
     and_then (ensure (cmb_device cb = dev_id dev) (QsQueue (DeviceMismatch (cmb_device cb) (dev_id dev)))) (\<lambda>_.
     and_then (check_used_buffers (ls_buffers s) (cmb_buffers cb)) (\<lambda>_.
     (case find (ls_textures_destroyed s) (cmb_textures cb) of
        Some t \<Rightarrow> Inl (QsDestroyed t) | None \<Rightarrow> Inr ())))"

text \<open>
  The loop over the command buffers: every one is taken, the first error is kept, and after it
  nothing more is executed; a failure of the backend leaves the loop at once.
\<close>

fun take_command_buffers ::
  "device \<Rightarrow> life_state \<Rightarrow> command_buffer list \<Rightarrow> queue_submit_error option \<Rightarrow> encoder_in_flight list
   \<Rightarrow> queue_submit_error + encoder_in_flight list" where
  "take_command_buffers dev s [] first_error executions =
     (case first_error of Some e \<Rightarrow> Inl e | None \<Rightarrow> Inr executions)"
| "take_command_buffers dev s (cb # cbs) first_error executions =
     (if first_error \<noteq> None then take_command_buffers dev s cbs first_error executions
      else if \<not> cmb_finished cb then take_command_buffers dev s cbs (Some QsInvalidCommandBuffer) executions
      else case validate_command_buffer dev s cb of
        Inl e \<Rightarrow> take_command_buffers dev s cbs (Some e) executions
      | Inr _ \<Rightarrow>
          (case cmb_reopen cb of
             Some e \<Rightarrow> Inl (QsQueue e)
           | None \<Rightarrow> take_command_buffers dev s cbs None
               (executions @ [\<lparr>eif_buffers = cmb_buffers cb, eif_textures = cmb_textures cb,
                  eif_blas = cmb_blas cb, eif_temp = cmb_temp cb, eif_pending_buffers = [],
                  eif_pending_textures = [], eif_pending_blas = []\<rparr>])))"

definition queue_submit ::
  "device \<Rightarrow> hal_answers \<Rightarrow> command_buffer list \<Rightarrow> life_state
   \<Rightarrow> (fired list \<times> ((u64 \<times> queue_submit_error) + u64) \<times> life_state) option" where
  "queue_submit dev ha cbs s0 =
    (let submit_index = ls_submission_index s0 + 1;
         s = s0\<lparr>ls_submission_index := submit_index\<rparr>;
         fail = (\<lambda>e s'. Some ([], Inl (submit_index, e), s')) in
     if \<not> dev_valid dev then fail (QsQueue DeviceLost) s
     else case take_command_buffers dev s cbs None [] of
       Inl e \<Rightarrow> fail e s
     | Inr executions \<Rightarrow>
         (let (pending, writes) = pre_submit (ha_end_encoding ha) (ha_acquire_encoder ha) (ls_pending s);
              s1 = s\<lparr>ls_pending := writes\<rparr> in
          case pending of
            Inl e \<Rightarrow> fail (QsQueue e) s1
          | Inr p \<Rightarrow>
              (case ha_submit ha of
                 Some e \<Rightarrow> fail (QsQueue e) s1
               | None \<Rightarrow> do {
                   let encoders = (case p of Some x \<Rightarrow> x # executions | None \<Rightarrow> executions);
                   let s2 = s1\<lparr>ls_last_successful := max (ls_last_successful s1) submit_index,
                               ls_life := track_submission submit_index encoders (ls_life s1)\<rparr>;
                   (closures, result, s3) \<leftarrow> device_maintain dev ha Poll s2;
                   case result of
                     Inl (WaitDevice e) \<Rightarrow> fail (QsQueue e) s3
                   | Inl _ \<Rightarrow> None
                   | Inr _ \<Rightarrow> Some (fire_closures closures, Inr submit_index, s3) })))"

definition on_submitted_work_done :: "nat \<Rightarrow> life_state \<Rightarrow> u64 option \<times> life_state" where
  "on_submitted_work_done closure s =
    (let (i, life) = add_work_done_closure closure (ls_life s) in (i, s\<lparr>ls_life := life\<rparr>))"

section \<open>Runs\<close>

text \<open>
  What can happen to a device: the calls of the application, and the progress of the GPU, whose fence
  only grows. A run collects the callbacks fired, in order; \<open>None\<close> is a panic.
\<close>

datatype life_op =
  OpMapAsync nat u64 "u64 option" map_operation
| OpUnmap nat "device_error option"
| OpDestroy nat
| OpWriteBuffer nat u64 u64 "device_error option"
| OpSubmit hal_answers "command_buffer list"
| OpWorkDone nat
| OpPoll hal_answers poll_type
| OpGpuProgress u64

fun life_step :: "device \<Rightarrow> life_op \<Rightarrow> life_state \<Rightarrow> (fired list \<times> life_state) option" where
  "life_step dev (OpMapAsync b offset sz op) s =
     map_option (\<lambda>(f, _, s'). (f, s')) (buffer_map_async dev b offset sz op s)"
| "life_step dev (OpUnmap b begin_result) s = map_option (\<lambda>(f, _, s'). (f, s')) (buffer_unmap begin_result b s)"
| "life_step dev (OpDestroy b) s = map_option (\<lambda>s'. ([], s')) (buffer_destroy b s)"
| "life_step dev (OpWriteBuffer b offset sz begin_result) s =
     map_option (\<lambda>(_, s'). ([], s')) (write_buffer dev begin_result b offset sz s)"
| "life_step dev (OpSubmit ha cbs) s = map_option (\<lambda>(f, _, s'). (f, s')) (queue_submit dev ha cbs s)"
| "life_step dev (OpWorkDone c) s = Some ([], snd (on_submitted_work_done c s))"
| "life_step dev (OpPoll ha poll) s = map_option (\<lambda>(f, _, s'). (f, s')) (device_poll dev ha poll s)"
| "life_step dev (OpGpuProgress v) s = Some ([], s\<lparr>ls_fence := max (ls_fence s) v\<rparr>)"

fun life_run :: "device \<Rightarrow> life_op list \<Rightarrow> life_state \<Rightarrow> (fired list \<times> life_state) option" where
  "life_run dev [] s = Some ([], s)"
| "life_run dev (op # ops) s = do {
     (f, s1) \<leftarrow> life_step dev op s;
     (g, s2) \<leftarrow> life_run dev ops s1;
     Some (f @ g, s2) }"

section \<open>Pending callbacks\<close>

definition waiting :: "buffer_state \<Rightarrow> bool" where
  "waiting b \<longleftrightarrow> (\<exists>rg op. bst_map_state b = MapWaiting rg op)"

lemma waiting_code [code]: "waiting b \<longleftrightarrow> (case bst_map_state b of MapWaiting _ _ \<Rightarrow> True | _ \<Rightarrow> False)"
  by (simp add: waiting_def split: buffer_map_state.split)

definition op_callback :: "map_operation \<Rightarrow> nat multiset" where
  "op_callback op = (case mo_callback op of Some c \<Rightarrow> {#c#} | None \<Rightarrow> {#})"

definition waiting_callback :: "buffer_state \<Rightarrow> nat multiset" where
  "waiting_callback b = (case bst_map_state b of MapWaiting _ op \<Rightarrow> op_callback op | _ \<Rightarrow> {#})"

text \<open>The callbacks the first \<open>n\<close> buffers still hold, and those a list of calls has fired.\<close>

definition pending_callbacks :: "nat \<Rightarrow> buffers \<Rightarrow> nat multiset" where
  "pending_callbacks n bs = (\<Sum>b<n. waiting_callback (bs b))"

fun fired_maps :: "fired list \<Rightarrow> nat multiset" where
  "fired_maps [] = {#}"
| "fired_maps (FiredMap c st # fs) = {#c#} + fired_maps fs"
| "fired_maps (FiredBlas c st # fs) = fired_maps fs"
| "fired_maps (FiredWorkDone c # fs) = fired_maps fs"
| "fired_maps (FiredDeviceLost c # fs) = fired_maps fs"

lemma fired_maps_append [simp]: "fired_maps (xs @ ys) = fired_maps xs + fired_maps ys"
  by (induction xs rule: fired_maps.induct) auto

lemma fired_maps_fire_map [simp]: "fired_maps (fire_map (op, st)) = op_callback op"
  by (auto simp: fire_map_def op_callback_def split: option.split)

lemma fired_maps_other:
  "fired_maps (concat (map (\<lambda>(op, st). case op of Some cb \<Rightarrow> [FiredBlas cb st] | None \<Rightarrow> []) xs)) = {#}"
  "fired_maps (map FiredWorkDone ys) = {#}" "fired_maps (map FiredDeviceLost ys) = {#}"
  by (induction xs) (auto split: option.split, induction ys, auto, induction ys, auto)

lemma fired_maps_closures [simp]:
  "fired_maps (fire_closures u) = (\<Sum>c\<leftarrow>uc_mappings u. op_callback (fst c))"
proof -
  have "fired_maps (concat (map fire_map cs)) = (\<Sum>c\<leftarrow>cs. op_callback (fst c))" for cs
    by (induction cs) auto
  then show ?thesis by (simp add: fire_closures_def fired_maps_other)
qed

lemma pending_update:
  assumes "b < n"
  shows "pending_callbacks n (bs(b := x)) + waiting_callback (bs b)
       = pending_callbacks n bs + waiting_callback x"
proof -
  have "(\<Sum>i\<in>{..<n} - {b}. waiting_callback ((bs(b := x)) i)) = (\<Sum>i\<in>{..<n} - {b}. waiting_callback (bs i))"
    by (rule sum.cong) auto
  with assms show ?thesis
    by (simp add: pending_callbacks_def sum.remove [of "{..<n}" b])
qed

lemma waiting_callback_simps:
  "bst_map_state b = MapWaiting rg op \<Longrightarrow> waiting_callback b = op_callback op"
  "\<not> waiting b \<Longrightarrow> waiting_callback b = {#}"
  by (auto simp: waiting_callback_def waiting_def split: buffer_map_state.split)

lemma none_pending: "\<forall>b<n. \<not> waiting (bs b) \<Longrightarrow> pending_callbacks n bs = {#}"
  by (simp add: pending_callbacks_def waiting_callback_simps(2))

section \<open>Mapping everything that is ready\<close>

text \<open>What an operation leaves alone in the buffers.\<close>

definition same_buffers :: "buffers \<Rightarrow> buffers \<Rightarrow> bool" where
  "same_buffers bs bs' \<longleftrightarrow> (\<forall>b. bst_buffer (bs' b) = bst_buffer (bs b) \<and> bst_destroyed (bs' b) = bst_destroyed (bs b)
     \<and> staged (bst_map_state (bs' b)) = staged (bst_map_state (bs b)))"

lemma map_one:
  assumes ok: "buffer_ok (bs b)" and ns: "\<not> staged (bst_map_state (bs b))" and b: "b < n"
  obtains c st where "map_ready dev (bs b) = Some (c, st)" and "buffer_ok st" and "\<not> waiting st"
    and "same_buffers bs (bs(b := st))"
    and "pending_callbacks n bs = pending_callbacks n (bs(b := st))
           + (\<Sum>x\<leftarrow>(case c of Some c \<Rightarrow> [c] | None \<Rightarrow> []). op_callback (fst x))"
    and "\<not> waiting (bs b) \<longrightarrow> st = bs b"
proof (cases "waiting (bs b)")
  case False
  then have "map_ready dev (bs b) = Some (None, bs b)"
    using map_ready_other ns by (auto simp: waiting_def)
  with ok False show thesis by (intro that [of None "bs b"]) (simp_all add: same_buffers_def)
next
  case True
  then obtain rg op where st: "bst_map_state (bs b) = MapWaiting rg op" by (auto simp: waiting_def)
  obtain res st' where r: "map_ready dev (bs b) = Some (Some (op, res), st')" "buffer_ok st'"
      "bst_buffer st' = bst_buffer (bs b)" "bst_destroyed st' = bst_destroyed (bs b)"
    and res: "case res of Inr _ \<Rightarrow> \<exists>c. bst_map_state st' = MapActive c rg (mo_host op)
                   | Inl _ \<Rightarrow> bst_map_state st' = MapIdle"
    by (rule map_ready_waiting [OF ok st])
  have nw: "\<not> waiting st'" "\<not> staged (bst_map_state st')"
    using res by (auto simp: waiting_def staged_def split: sum.splits)
  have "pending_callbacks n bs = pending_callbacks n (bs(b := st')) + op_callback op"
    using pending_update [OF b, of bs st'] waiting_callback_simps(1) [OF st] waiting_callback_simps(2) [OF nw(1)]
    by simp
  with r nw ns True show thesis by (intro that [of "Some (op, res)" st']) (auto simp: same_buffers_def)
qed

lemma map_all_ok:
  assumes "\<forall>b. buffer_ok (bs b)" and "\<forall>b\<in>set l. \<not> staged (bst_map_state (bs b)) \<and> b < n"
  shows "\<exists>cs bs'. map_all dev l bs = Some (cs, bs') \<and> (\<forall>b. buffer_ok (bs' b)) \<and> same_buffers bs bs'
     \<and> (\<forall>b. waiting (bs' b) = (waiting (bs b) \<and> b \<notin> set l))
     \<and> pending_callbacks n bs = pending_callbacks n bs' + (\<Sum>x\<leftarrow>cs. op_callback (fst x))
     \<and> (\<forall>b. b \<notin> set l \<or> \<not> waiting (bs b) \<longrightarrow> bs' b = bs b)"
  using assms
proof (induction l arbitrary: bs)
  case Nil
  then show ?case by (simp add: same_buffers_def)
next
  case (Cons b l)
  obtain c st where c: "map_ready dev (bs b) = Some (c, st)" "buffer_ok st" "\<not> waiting st"
    "same_buffers bs (bs(b := st))"
    "pending_callbacks n bs = pending_callbacks n (bs(b := st))
       + (\<Sum>x\<leftarrow>(case c of Some c \<Rightarrow> [c] | None \<Rightarrow> []). op_callback (fst x))"
    "\<not> waiting (bs b) \<longrightarrow> st = bs b"
    using map_one [of bs b n dev] Cons.prems by (metis list.set_intros(1))
  let ?bs = "bs(b := st)"
  have "\<forall>b. buffer_ok (?bs b)" using Cons.prems c(2) by simp
  moreover have "\<forall>b\<in>set l. \<not> staged (bst_map_state (?bs b)) \<and> b < n"
    using Cons.prems c(4) by (simp add: same_buffers_def)
  ultimately obtain cs bs' where IH: "map_all dev l ?bs = Some (cs, bs')" "\<forall>b. buffer_ok (bs' b)"
      "same_buffers ?bs bs'" "\<forall>b. waiting (bs' b) = (waiting (?bs b) \<and> b \<notin> set l)"
      "pending_callbacks n ?bs = pending_callbacks n bs' + (\<Sum>x\<leftarrow>cs. op_callback (fst x))"
      "\<forall>b. b \<notin> set l \<or> \<not> waiting (?bs b) \<longrightarrow> bs' b = ?bs b"
    using Cons.IH by blast
  let ?cs = "(case c of Some c \<Rightarrow> [c] | None \<Rightarrow> []) @ cs"
  have "map_all dev (b # l) bs = Some (?cs, bs')" using c(1) IH(1) by simp
  moreover have "same_buffers bs bs'" using c(4) IH(3) by (simp add: same_buffers_def)
  moreover have "\<forall>x. waiting (bs' x) = (waiting (bs x) \<and> x \<notin> set (b # l))"
    using IH(4) c(3) by auto
  moreover have "pending_callbacks n bs = pending_callbacks n bs' + (\<Sum>x\<leftarrow>?cs. op_callback (fst x))"
    using c(5) IH(5) by (simp add: ac_simps)
  moreover have "\<forall>x. x \<notin> set (b # l) \<or> \<not> waiting (bs x) \<longrightarrow> bs' x = bs x"
    using IH(6) c(3,6) by (metis fun_upd_other fun_upd_same list.set_intros(1,2))
  ultimately show ?case using IH(2) by blast
qed

section \<open>The invariant\<close>

definition listed :: "lifetime_tracker \<Rightarrow> nat list" where
  "listed t = lt_ready_to_map t @ concat (map as_mapped (lt_active t))"

text \<open>Of the buffers: every waiting one is in some list of the tracker, and none there is staged.\<close>

definition maps_inv :: "nat \<Rightarrow> buffers \<Rightarrow> nat list \<Rightarrow> bool" where
  "maps_inv n bs l \<longleftrightarrow> (\<forall>b. buffer_ok (bs b)) \<and> (\<forall>b\<in>set l. b < n \<and> \<not> staged (bst_map_state (bs b)))
     \<and> (\<forall>b. waiting (bs b) \<longrightarrow> b \<in> set l)"

text \<open>Of the queue: submissions are in order, and the last one is finished or still tracked.\<close>

definition queue_inv :: "active_submission list \<Rightarrow> u64 \<Rightarrow> u64 \<Rightarrow> u64 \<Rightarrow> bool" where
  "queue_inv as submitted successful fence \<longleftrightarrow>
     sorted_wrt (<) (map as_index as) \<and> (\<forall>a\<in>set as. as_index a \<le> submitted \<and> as_compact a = [])
     \<and> successful \<le> submitted \<and> (successful \<le> fence \<or> successful \<in> as_index ` set as)"

definition life_inv :: "nat \<Rightarrow> life_state \<Rightarrow> bool" where
  "life_inv n s \<longleftrightarrow> maps_inv n (ls_buffers s) (listed (ls_life s))
     \<and> queue_inv (lt_active (ls_life s)) (ls_submission_index s) (ls_last_successful s) (ls_fence s)
     \<and> lt_ready_to_compact (ls_life s) = []
     \<and> device_wf n (ls_tracker s) \<and> dt_temp (ls_tracker s) = []"

definition op_in :: "nat \<Rightarrow> life_op \<Rightarrow> bool" where
  "op_in n op = (case op of OpMapAsync b _ _ _ \<Rightarrow> b < n | OpUnmap b _ \<Rightarrow> b < n | OpDestroy b \<Rightarrow> b < n
                 | OpWriteBuffer b _ _ _ \<Rightarrow> b < n | _ \<Rightarrow> True)"

text \<open>The backend refuses to begin recording the pending writes.\<close>

definition begin_fails :: "life_op \<Rightarrow> bool" where
  "begin_fails op = (case op of OpUnmap _ r \<Rightarrow> r \<noteq> None | OpWriteBuffer _ _ _ r \<Rightarrow> r \<noteq> None | _ \<Rightarrow> False)"

definition requested :: "life_op \<Rightarrow> nat multiset" where
  "requested op = (case op of OpMapAsync _ _ _ m \<Rightarrow> op_callback m | _ \<Rightarrow> {#})"

text \<open>What a step must keep: it returns, unless the backend fails to begin recording, keeps the invariant, and loses no callback.\<close>

definition keeps :: "nat \<Rightarrow> life_op \<Rightarrow> life_state \<Rightarrow> (fired list \<times> life_state) option \<Rightarrow> bool" where
  "keeps n op s r \<longleftrightarrow> (case r of
     None \<Rightarrow> begin_fails op
   | Some (f, s') \<Rightarrow> life_inv n s' \<and> unat (ls_submission_index s') \<le> unat (ls_submission_index s) + 1
       \<and> fired_maps f + pending_callbacks n (ls_buffers s')
         = pending_callbacks n (ls_buffers s) + requested op)"

lemma device_single_ok:
  assumes "device_wf n d" and "dt_temp d = []" and "b < n"
  obtains p d' where "device_set_single b u d = Some (p, d')" and "device_wf n d'" and "dt_temp d' = []"
proof -
  have "device_barrier_update b (DirectState u) (DirectState u) d
    = Some (d\<lparr>dt_temp := transition (dt_ordered d) b (dt_current d ! b) u, dt_current := (dt_current d)[b := u]\<rparr>)"
    using device_step [OF assms(1,3), of "DirectState u" u "DirectState u" u] assms(2)
    by (simp add: get_state_def)
  then have "\<exists>p d'. device_set_single b u d = Some (p, d') \<and> device_wf n d' \<and> dt_temp d' = []"
    using assms(1) by (auto simp: device_set_single_def pop_single_def transition_def device_wf_def)
  with that show thesis by blast
qed

lemma update_first_Some:
  assumes "update_first P f xs = Some (y, ys)"
  obtains us vs where "xs = us @ y # vs" and "ys = us @ f y # vs" and "P y" and "\<forall>u\<in>set us. \<not> P u"
  using assms
proof (induction xs arbitrary: ys thesis)
  case (Cons x xs)
  show ?case
  proof (cases "P x")
    case True
    with Cons.prems show ?thesis by (intro Cons.prems(1) [of "[]" xs]) auto
  next
    case False
    with Cons.prems(2) obtain zs where z: "update_first P f xs = Some (y, zs)" "ys = x # zs" by auto
    obtain us vs where "xs = us @ y # vs" "zs = us @ f y # vs" "P y" "\<forall>u\<in>set us. \<not> P u"
      by (rule Cons.IH [OF _ z(1)])
    with False z(2) show ?thesis by (intro Cons.prems(1) [of "x # us" vs]) auto
  qed
qed simp

lemma update_first_None: "update_first P f xs = None \<longleftrightarrow> (\<forall>x\<in>set xs. \<not> P x)"
  by (induction xs) auto

lemma buffer_ok_simps [simp]:
  "buffer_ok (b\<lparr>bst_destroyed := d\<rparr>) = buffer_ok b" "waiting (b\<lparr>bst_destroyed := d\<rparr>) = waiting b"
  "waiting_callback (b\<lparr>bst_destroyed := d\<rparr>) = waiting_callback b"
  "waiting (b\<lparr>bst_status := st\<rparr>) = waiting b" "waiting_callback (b\<lparr>bst_status := st\<rparr>) = waiting_callback b"
  by (simp_all add: buffer_ok_def waiting_def waiting_callback_def cong: buffer_map_state.case_cong)

lemma same_pending:
  "(\<And>b. waiting_callback (bs' b) = waiting_callback (bs b)) \<Longrightarrow> pending_callbacks n bs' = pending_callbacks n bs"
  by (simp add: pending_callbacks_def)

section \<open>Each operation keeps it\<close>

lemma life_map_listed:
  assumes "life_map b t = (i, t')"
  shows "set (listed t') = insert b (set (listed t))" and "lt_ready_to_compact t' = lt_ready_to_compact t"
    and "map as_index (lt_active t') = map as_index (lt_active t)"
    and "map as_encoders (lt_active t') = map as_encoders (lt_active t)"
    and "map as_compact (lt_active t') = map as_compact (lt_active t)"
    and "lt_closures t' = lt_closures t"
proof -
  let ?P = "\<lambda>a. contains_buffer a b" and ?f = "\<lambda>a. a\<lparr>as_mapped := as_mapped a @ [b]\<rparr>"
  have "set (listed t') = insert b (set (listed t)) \<and> lt_ready_to_compact t' = lt_ready_to_compact t
    \<and> map as_index (lt_active t') = map as_index (lt_active t)
    \<and> map as_encoders (lt_active t') = map as_encoders (lt_active t)
    \<and> map as_compact (lt_active t') = map as_compact (lt_active t) \<and> lt_closures t' = lt_closures t"
  proof (cases "update_first ?P ?f (rev (lt_active t))")
    case None
    with assms show ?thesis by (auto simp: life_map_def listed_def)
  next
    case (Some r)
    obtain a as where r: "r = (a, as)" by (cases r)
    from Some [unfolded r] obtain us vs where u: "rev (lt_active t) = us @ a # vs" "as = us @ ?f a # vs"
      by (rule update_first_Some)
    from u(1) have t: "lt_active t = rev vs @ a # rev us" by (simp add: rev_swap)
    from assms Some r u(2) have "t' = t\<lparr>lt_active := rev vs @ ?f a # rev us\<rparr>" by (simp add: life_map_def)
    with t show ?thesis by (auto simp: listed_def)
  qed
  then show "set (listed t') = insert b (set (listed t))" "lt_ready_to_compact t' = lt_ready_to_compact t"
    "map as_index (lt_active t') = map as_index (lt_active t)"
    "map as_encoders (lt_active t') = map as_encoders (lt_active t)"
    "map as_compact (lt_active t') = map as_compact (lt_active t)" "lt_closures t' = lt_closures t" by blast+
qed

text \<open>The queue part depends on the indices and the compaction lists only.\<close>

lemma queue_inv_cong:
  assumes "map as_index as' = map as_index as" and "map as_compact as' = map as_compact as"
  shows "queue_inv as' i j k = queue_inv as i j k"
proof -
  have "(\<forall>a\<in>set xs. as_index a \<le> i \<and> as_compact a = [])
      \<longleftrightarrow> (\<forall>x\<in>set (map as_index xs). x \<le> i) \<and> (\<forall>x\<in>set (map as_compact xs). x = [])"
    and "as_index ` set xs = set (map as_index xs)" for xs :: "active_submission list"
    by auto
  then show ?thesis using assms by (simp only: queue_inv_def)
qed

lemma keeps_map_async:
  assumes inv: "life_inv n s" and b: "b < n"
  shows "keeps n (OpMapAsync b offset sz op) s (life_step dev (OpMapAsync b offset sz op) s)"
proof (cases "map_request dev offset sz op (ls_buffers s b)")
  case (Inl r)
  obtain op' e where r: "r = (op', e)" by (cases r)
  have "op' = op" using Inl r
    by (auto simp: map_request_def split: sum.splits buffer_map_state.splits)
  with Inl r inv show ?thesis
    by (simp add: keeps_def buffer_map_async_def requested_def add.commute)
next
  case (Inr st)
  have ok: "\<forall>b. buffer_ok (ls_buffers s b)" using inv by (simp add: life_inv_def maps_inv_def)
  note st = map_request_ok [OF ok [rule_format] Inr]
  obtain rg where rg: "st = (ls_buffers s b)\<lparr>bst_map_state := MapWaiting rg op\<rparr>" using st(3) by blast
  obtain p d where d: "device_set_single b (map_use (mo_host op)) (ls_tracker s) = Some (p, d)"
    "device_wf n d" "dt_temp d = []"
    using device_single_ok inv b unfolding life_inv_def by metis
  obtain i t where t: "life_map b (ls_life s) = (i, t)" by fastforce
  let ?s = "s\<lparr>ls_buffers := (ls_buffers s)(b := st), ls_tracker := d, ls_life := t\<rparr>"
  have step: "life_step dev (OpMapAsync b offset sz op) s = Some ([], ?s)"
    by (simp add: buffer_map_async_def Inr d(1) t)
  have "maps_inv n ((ls_buffers s)(b := st)) (listed t)"
    using inv b st(1) rg life_map_listed(1) [OF t]
    by (auto simp: life_inv_def maps_inv_def staged_def)
  then have "life_inv n ?s"
    using inv d life_map_listed(2) [OF t] queue_inv_cong [OF life_map_listed(3,5) [OF t]]
    by (simp add: life_inv_def)
  moreover have "\<not> waiting (ls_buffers s b)" using st(2) by (simp add: waiting_def)
  then have "pending_callbacks n ((ls_buffers s)(b := st)) = pending_callbacks n (ls_buffers s) + op_callback op"
    using pending_update [OF b, of "ls_buffers s" st] waiting_callback_simps(1) [of st rg op] rg
    by (simp add: waiting_callback_simps(2))
  ultimately show ?thesis unfolding keeps_def step by (simp add: requested_def)
qed

lemma maps_inv_update:
  assumes "maps_inv n bs l" and "buffer_ok st" and "waiting st \<longrightarrow> waiting (bs b)"
    and "staged (bst_map_state st) \<longrightarrow> staged (bst_map_state (bs b))"
  shows "maps_inv n (bs(b := st)) l"
  using assms by (auto simp: maps_inv_def)

lemma keepsI:
  assumes "r = Some (f, s')" and "life_inv n s'" and "ls_submission_index s' = ls_submission_index s"
    and "fired_maps f + pending_callbacks n (ls_buffers s') = pending_callbacks n (ls_buffers s) + requested op"
  shows "keeps n op s r"
  using assms by (simp add: keeps_def)

lemma activate_Some: "activate r w = Some w' \<longleftrightarrow> (pw_recording w \<or> r = None) \<and> w' = w\<lparr>pw_recording := True\<rparr>"
  by (cases w) (auto simp: activate_def split: option.splits)

lemma activate_None: "activate r w = None \<longleftrightarrow> \<not> pw_recording w \<and> r \<noteq> None"
  by (auto simp: activate_def split: option.splits)

lemma unmap_panics: "life_step dev (OpUnmap b br) s = None \<Longrightarrow> begin_fails (OpUnmap b br)"
  by (auto simp: buffer_unmap_def begin_fails_def bind_eq_None_conv activate_None split: sum.splits if_splits)

lemma keeps_unmap:
  assumes inv: "life_inv n s" and b: "b < n"
  shows "keeps n (OpUnmap b br) s (life_step dev (OpUnmap b br) s)"
proof -
  let ?b = "ls_buffers s b"
  let ?i = "?b\<lparr>bst_map_state := MapIdle\<rparr>"
  have ok: "buffer_ok ?b" using inv by (simp add: life_inv_def maps_inv_def)
  then have oki: "buffer_ok ?i" by (simp add: buffer_ok_def)
  have nw: "\<not> waiting ?i" "\<not> staged (bst_map_state ?i)" by (simp_all add: waiting_def staged_def)
  have inv': "life_inv n (s\<lparr>ls_buffers := (ls_buffers s)(b := ?i), ls_pending := w\<rparr>)" for w
    using inv maps_inv_update [of n "ls_buffers s" "listed (ls_life s)" ?i b] oki nw
    by (simp add: life_inv_def)
  have pend: "pending_callbacks n ((ls_buffers s)(b := ?i)) + waiting_callback ?b = pending_callbacks n (ls_buffers s)"
    using pending_update [OF b, of "ls_buffers s" ?i] waiting_callback_simps(2) [OF nw(1)] by simp
  show ?thesis
  proof (cases "bst_destroyed ?b")
    case True
    then have "life_step dev (OpUnmap b br) s = Some ([], s\<lparr>ls_buffers := (ls_buffers s)(b := ?b)\<rparr>)"
      by (simp add: buffer_unmap_def unmap_inner_def)
    then show ?thesis using inv by (intro keepsI) (auto simp: requested_def)
  next
    case False
    have stepped: "\<exists>f w. life_step dev (OpUnmap b br) s
        = Some (f, s\<lparr>ls_buffers := (ls_buffers s)(b := ?i), ls_pending := w\<rparr>) \<and> fired_maps f = waiting_callback ?b"
      if "life_step dev (OpUnmap b br) s \<noteq> None"
    proof (cases "bst_map_state ?b")
      case (MapInit k)
      with False that show ?thesis
        by (cases "activate br (ls_pending s)") (auto simp: buffer_unmap_def unmap_inner_def waiting_callback_def)
    next
      case (MapWaiting rg op)
      with False show ?thesis
        by (intro exI [of _ "fire_map (op, Inl BaMapAborted)"] exI [of _ "ls_pending s"])
          (simp add: buffer_unmap_def unmap_inner_def waiting_callback_def)
    next
      case (MapActive c rg h)
      with False show ?thesis
        by (intro exI [of _ "[]"] exI [of _ "ls_pending s"])
          (auto simp: buffer_unmap_def unmap_inner_def waiting_callback_def)
    next
      case MapIdle
      with False show ?thesis
        by (intro exI [of _ "[]"] exI [of _ "ls_pending s"])
          (auto simp: buffer_unmap_def unmap_inner_def waiting_callback_def)
    qed
    show ?thesis
    proof (cases "life_step dev (OpUnmap b br) s = None")
      case True
      with unmap_panics [OF this] show ?thesis by (simp add: keeps_def)
    next
      case some: False
      from stepped [OF some] obtain f w where fw: "life_step dev (OpUnmap b br) s
          = Some (f, s\<lparr>ls_buffers := (ls_buffers s)(b := ?i), ls_pending := w\<rparr>)" "fired_maps f = waiting_callback ?b"
        by blast
      from fw(1) show ?thesis
        by (rule keepsI) (use inv' [of w] pend fw(2) in \<open>simp_all add: requested_def add.commute\<close>)
    qed
  qed
qed

text \<open>Replacing submissions by others with the same index, mapped and compaction lists.\<close>

lemma life_inv_life:
  assumes "life_inv n s" and "map as_index (lt_active t) = map as_index (lt_active (ls_life s))"
    and "map as_mapped (lt_active t) = map as_mapped (lt_active (ls_life s))"
    and "map as_compact (lt_active t) = map as_compact (lt_active (ls_life s))"
    and "lt_ready_to_map t = lt_ready_to_map (ls_life s)" and "lt_ready_to_compact t = lt_ready_to_compact (ls_life s)"
  shows "life_inv n (s\<lparr>ls_life := t\<rparr>)"
  using assms queue_inv_cong [OF assms(2,4)] by (simp add: life_inv_def listed_def)

lemma keeps_destroy:
  assumes inv: "life_inv n s"
  shows "keeps n (OpDestroy b) s (life_step dev (OpDestroy b) s)"
proof -
  let ?s = "s\<lparr>ls_buffers := (ls_buffers s)(b := (ls_buffers s b)\<lparr>bst_destroyed := True\<rparr>)\<rparr>"
  have ok: "buffer_ok (ls_buffers s b)" using inv by (simp add: life_inv_def maps_inv_def)
  have inv1: "life_inv n ?s"
    using inv maps_inv_update [of n "ls_buffers s" "listed (ls_life s)" "(ls_buffers s b)\<lparr>bst_destroyed := True\<rparr>" b] ok
    by (simp add: life_inv_def)
  have pend: "pending_callbacks n (ls_buffers ?s) = pending_callbacks n (ls_buffers s)"
    by (rule same_pending) simp
  let ?as = "lt_active (ls_life s)"
  let ?f = "\<lambda>a. a\<lparr>as_encoders := butlast (as_encoders a) @ [(last (as_encoders a))
      \<lparr>eif_temp := eif_temp (last (as_encoders a)) @ [TempDestroyedBuffer b]\<rparr>]\<rparr>"
  consider (gone) "bst_destroyed (ls_buffers s b)"
    | (pending) "\<not> bst_destroyed (ls_buffers s b)" "pw_contains_buffer (ls_pending s) b"
    | (unused) "\<not> bst_destroyed (ls_buffers s b)" "\<not> pw_contains_buffer (ls_pending s) b"
        "get_buffer_latest_submission_index b (ls_life s) = None"
    | (used) i where "\<not> bst_destroyed (ls_buffers s b)" "\<not> pw_contains_buffer (ls_pending s) b"
        "get_buffer_latest_submission_index b (ls_life s) = Some i"
    by fastforce
  then show ?thesis
  proof cases
    case gone
    then show ?thesis using inv by (intro keepsI) (auto simp: buffer_destroy_def requested_def)
  next
    case pending
    then have "life_step dev (OpDestroy b) s
        = Some ([], ?s\<lparr>ls_pending := consume_temp (TempDestroyedBuffer b) (ls_pending s)\<rparr>)"
      by (simp add: buffer_destroy_def Let_def)
    from this show ?thesis
      by (rule keepsI) (use inv1 pend in \<open>simp_all add: requested_def life_inv_def\<close>)
  next
    case unused
    then have "life_step dev (OpDestroy b) s = Some ([], ?s)" by (simp add: buffer_destroy_def Let_def)
    from this inv1 show ?thesis by (rule keepsI) (use pend in \<open>simp_all add: requested_def\<close>)
  next
    case used
    from used(3) obtain a where a: "a \<in> set ?as" "contains_buffer a b" "as_index a = i"
      unfolding get_buffer_latest_submission_index_def find_Some_iff map_option_eq_Some
      by (metis nth_mem set_rev)
    then obtain a' as where u: "update_first (\<lambda>a. as_index a = i) ?f ?as = Some (a', as)"
      using update_first_None [of "\<lambda>a. as_index a = i" ?f ?as]
      by (cases "update_first (\<lambda>a. as_index a = i) ?f ?as") auto
    from u obtain us vs where uv: "?as = us @ a' # vs" "as = us @ ?f a' # vs" "as_index a' = i"
      by (rule update_first_Some)
    have "distinct (map as_index ?as)"
      using inv by (simp add: life_inv_def queue_inv_def strict_sorted_iff)
    then have "a' = a" using uv a(1,3) by (auto simp: rev_image_eqI)
    then have "as_encoders a' \<noteq> []" using a(2) by (auto simp: contains_buffer_def)
    then have "life_step dev (OpDestroy b) s = Some ([], ?s\<lparr>ls_life := (ls_life s)\<lparr>lt_active := as\<rparr>\<rparr>)"
      using used u by (simp add: buffer_destroy_def Let_def schedule_resource_destruction_def)
    moreover have "life_inv n (?s\<lparr>ls_life := (ls_life s)\<lparr>lt_active := as\<rparr>\<rparr>)"
      using uv by (intro life_inv_life [OF inv1]) simp_all
    ultimately show ?thesis by (rule keepsI) (use pend in \<open>simp_all add: requested_def\<close>)
  qed
qed

lemma map_butlast_last: "xs \<noteq> [] \<Longrightarrow> map g (butlast xs) @ [g (last xs)] = map g xs"
  by (induction xs) auto

lemma keeps_work_done:
  assumes inv: "life_inv n s"
  shows "keeps n (OpWorkDone c) s (life_step dev (OpWorkDone c) s)"
proof (rule keepsI)
  show "life_step dev (OpWorkDone c) s = Some ([], snd (on_submitted_work_done c s))" by simp
  let ?as = "lt_active (ls_life s)"
  show "life_inv n (snd (on_submitted_work_done c s))"
    unfolding on_submitted_work_done_def add_work_done_closure_def Let_def
    by (auto intro!: life_inv_life [OF inv] simp: map_butlast_last)
qed (simp_all add: on_submitted_work_done_def requested_def case_prod_beta)

lemma keeps_progress:
  assumes "life_inv n s"
  shows "keeps n (OpGpuProgress v) s (life_step dev (OpGpuProgress v) s)"
proof (rule keepsI)
  show "life_step dev (OpGpuProgress v) s = Some ([], s\<lparr>ls_fence := max (ls_fence s) v\<rparr>)" by simp
  show "life_inv n (s\<lparr>ls_fence := max (ls_fence s) v\<rparr>)"
    using assms by (auto simp: life_inv_def queue_inv_def le_max_iff_disj)
qed (simp_all add: requested_def)

lemma unat_bound: "unat (x :: u64) < 2 ^ 64"
  using unsigned_less [of x] by simp

lemma validated_write:
  assumes "validate_write_buffer_impl st offset sz = Inr u"
  shows "bst_map_state st = MapIdle" and "aligned offset" and "aligned sz"
    and "offset \<le> gb_size (bst_buffer st)" and "sz \<le> gb_size (bst_buffer st) - offset"
  using assms
  by (auto simp: validate_write_buffer_impl_def Let_def and_then_def ensure_def map_err_def
      is_multiple_of_aligned split: sum.splits if_splits)

lemma written_ok:
  assumes ok: "buffer_ok st" and v: "validate_write_buffer_impl st offset sz = Inr u" and sz: "sz \<noteq> 0"
  shows "buffer_ok (st\<lparr>bst_status := drain_unread (bst_status st) (Range offset (offset + sz))\<rparr>)"
proof -
  note w = validated_write [OF v]
  have "unat sz \<le> unat (gb_size (bst_buffer st)) - unat offset"
    using w(4,5) by (simp add: word_le_nat_alt unat_sub)
  moreover have "unat offset \<le> unat (gb_size (bst_buffer st))" using w(4) by (simp add: word_le_nat_alt)
  ultimately have "unat offset + unat sz < 2 ^ 64"
    using unat_bound [of "gb_size (bst_buffer st)"] by simp
  then have un: "unat (offset + sz) = unat offset + unat sz" by (simp add: unat_word_ariths)
  have lt: "offset < offset + sz" using un sz by (simp add: word_less_nat_alt unat_gt_0)
  have al: "aligned (offset + sz)"
    using w(2,3) un by (simp add: aligned_unat mod_add_eq [of _ 4, symmetric])
  have st: "status_ok (bst_status st)" using ok by (simp add: buffer_ok_def)
  have "status_ok (drain_unread (bst_status st) (Range offset (offset + sz)))"
    using drain_all_ok(1) [OF st, of "Range offset (offset + sz)"] lt al w(2)
    by (simp add: drain_unread_eq)
  then show ?thesis using w(1) by (simp add: buffer_ok_def)
qed

lemma keeps_write:
  assumes inv: "life_inv n s" and b: "b < n"
  shows "keeps n (OpWriteBuffer b offset sz br) s (life_step dev (OpWriteBuffer b offset sz br) s)"
proof -
  let ?st = "ls_buffers s b"
  let ?st' = "?st\<lparr>bst_status := drain_unread (bst_status ?st) (Range offset (offset + sz))\<rparr>"
  have ok: "buffer_ok ?st" using inv by (simp add: life_inv_def maps_inv_def)
  obtain p d where d: "device_set_single b bu_copy_dst (ls_tracker s) = Some (p, d)" "device_wf n d" "dt_temp d = []"
    using device_single_ok inv b unfolding life_inv_def by metis
  have inv_d: "life_inv n (s\<lparr>ls_tracker := d, ls_pending := w\<rparr>)" for w
    using inv d by (simp add: life_inv_def)
  have pend: "pending_callbacks n ((ls_buffers s)(b := ?st')) = pending_callbacks n (ls_buffers s)"
    by (rule same_pending) simp
  show ?thesis
  proof (cases "write_buffer dev br b offset sz s")
    case None
    with d(1) show ?thesis
      by (auto simp: write_buffer_def write_staging_buffer_impl_def Let_def keeps_def begin_fails_def activate_None
          split: if_splits option.splits sum.splits)
  next
    case (Some rs)
    obtain r s' where rs: "rs = (r, s')" by (cases rs)
    have cases: "s' = s \<or> s' = s\<lparr>ls_tracker := d, ls_pending := ls_pending s'\<rparr>
      \<or> s' = s\<lparr>ls_tracker := d, ls_buffers := (ls_buffers s)(b := ?st'), ls_pending := ls_pending s'\<rparr>
             \<and> sz \<noteq> 0 \<and> validate_write_buffer_impl ?st offset sz = Inr ()"
      using Some rs d(1)
      by (auto simp: write_buffer_def write_staging_buffer_impl_def consume_temp_def Let_def
          split: if_splits option.splits sum.splits)
    obtain w where "s' = s \<or> s' = s\<lparr>ls_tracker := d, ls_pending := w\<rparr>
      \<or> s' = s\<lparr>ls_tracker := d, ls_buffers := (ls_buffers s)(b := ?st'), ls_pending := w\<rparr>
             \<and> sz \<noteq> 0 \<and> validate_write_buffer_impl ?st offset sz = Inr ()"
      using cases by (rule that)
    moreover have "life_inv n (s\<lparr>ls_tracker := d, ls_buffers := (ls_buffers s)(b := ?st'), ls_pending := w\<rparr>)"
      if "sz \<noteq> 0" "validate_write_buffer_impl ?st offset sz = Inr ()" for w
      using inv_d [of w] maps_inv_update [of n "ls_buffers s" "listed (ls_life s)" ?st' b]
        written_ok [OF ok that(2,1)]
      by (simp add: life_inv_def)
    ultimately have "life_inv n s' \<and> ls_submission_index s' = ls_submission_index s
        \<and> pending_callbacks n (ls_buffers s') = pending_callbacks n (ls_buffers s)"
      using inv inv_d pend by (elim disjE conjE) simp_all
    then show ?thesis using Some rs by (simp add: keeps_def requested_def)
  qed
qed

section \<open>Maintaining keeps the invariant\<close>

lemma triage_eq:
  assumes "sorted_wrt (<) (map as_index (lt_active t))" and "triage_submissions v t = (cs, t')"
  shows "lt_active t' = filter (\<lambda>a. as_index a > v) (lt_active t)"
    and "lt_ready_to_map t' = lt_ready_to_map t @ concat (map as_mapped (filter (\<lambda>a. as_index a \<le> v) (lt_active t)))"
    and "lt_ready_to_compact t' = lt_ready_to_compact t
           @ concat (map as_compact (filter (\<lambda>a. as_index a \<le> v) (lt_active t)))"
proof -
  let ?k = "case position (\<lambda>a. as_index a > v) (lt_active t) of Some i \<Rightarrow> i | None \<Rightarrow> length (lt_active t)"
  have *: "drop (case position (\<lambda>a. as_index a > v) as of Some i \<Rightarrow> i | None \<Rightarrow> length as) as
        = filter (\<lambda>a. as_index a > v) as
    \<and> take (case position (\<lambda>a. as_index a > v) as of Some i \<Rightarrow> i | None \<Rightarrow> length as) as
        = filter (\<lambda>a. as_index a \<le> v) as"
    if "sorted_wrt (<) (map as_index as)" for as
    using that
  proof (induction as)
    case (Cons a as)
    show ?case
    proof (cases "as_index a > v")
      case True
      then have "\<forall>x\<in>set as. v < as_index x" using Cons.prems by auto
      with True show ?thesis by (auto simp: filter_id_conv filter_empty_conv not_le)
    next
      case False
      with Cons show ?thesis by (auto split: option.splits)
    qed
  qed simp
  show "lt_active t' = filter (\<lambda>a. as_index a > v) (lt_active t)"
    "lt_ready_to_map t' = lt_ready_to_map t @ concat (map as_mapped (filter (\<lambda>a. as_index a \<le> v) (lt_active t)))"
    "lt_ready_to_compact t' = lt_ready_to_compact t @ concat (map as_compact (filter (\<lambda>a. as_index a \<le> v) (lt_active t)))"
    using assms(2) * [OF assms(1)] by (auto simp: triage_submissions_def Let_def)
qed

lemma queue_maintain_ok:
  assumes bufs: "maps_inv n (ls_buffers s) (listed (ls_life s))"
    and sorted: "sorted_wrt (<) (map as_index (lt_active (ls_life s)))"
    and compact: "lt_ready_to_compact (ls_life s) = []" "\<forall>a\<in>set (lt_active (ls_life s)). as_compact a = []"
  obtains u t bs where "queue_maintain dev sz v s = Some (u, lt_active t = [], s\<lparr>ls_life := t, ls_buffers := bs\<rparr>)"
    and "lt_active t = filter (\<lambda>a. as_index a > v) (lt_active (ls_life s))"
    and "lt_ready_to_map t = []" and "lt_ready_to_compact t = []"
    and "maps_inv n bs (listed t)" and "same_buffers (ls_buffers s) bs"
    and "pending_callbacks n (ls_buffers s) = pending_callbacks n bs + fired_maps (fire_closures u)"
    and "\<forall>b. b \<notin> set (lt_ready_to_map (ls_life s)
                @ concat (map as_mapped (filter (\<lambda>a. as_index a \<le> v) (lt_active (ls_life s)))))
              \<or> \<not> waiting (ls_buffers s b) \<longrightarrow> bs b = ls_buffers s b"
proof -
  let ?as = "lt_active (ls_life s)"
  let ?l = "lt_ready_to_map (ls_life s) @ concat (map as_mapped (filter (\<lambda>a. as_index a \<le> v) ?as))"
  obtain cs t where tr: "triage_submissions v (ls_life s) = (cs, t)" by fastforce
  note t = triage_eq [OF sorted tr]
  have tc: "lt_ready_to_compact t = []" using t(3) compact by (auto simp: concat_eq_Nil_conv)
  have l: "set ?l \<subseteq> set (listed (ls_life s))" by (auto simp: listed_def)
  have "\<forall>b. buffer_ok (ls_buffers s b)" "\<forall>b\<in>set ?l. \<not> staged (bst_map_state (ls_buffers s b)) \<and> b < n"
    using bufs l unfolding maps_inv_def by blast+
  from map_all_ok [OF this, of dev] obtain mcs bs where m: "map_all dev ?l (ls_buffers s) = Some (mcs, bs)"
    "\<forall>b. buffer_ok (bs b)" "same_buffers (ls_buffers s) bs"
    "\<forall>b. waiting (bs b) = (waiting (ls_buffers s b) \<and> b \<notin> set ?l)"
    "pending_callbacks n (ls_buffers s) = pending_callbacks n bs + (\<Sum>x\<leftarrow>mcs. op_callback (fst x))"
    "\<forall>b. b \<notin> set ?l \<or> \<not> waiting (ls_buffers s b) \<longrightarrow> bs b = ls_buffers s b" by blast
  let ?t = "t\<lparr>lt_ready_to_map := [], lt_ready_to_compact := []\<rparr>"
  let ?u = "\<lparr>uc_mappings = mcs, uc_blas = [], uc_submissions = cs, uc_lost = []\<rparr>"
  have step: "queue_maintain dev sz v s = Some (?u, lt_active ?t = [], s\<lparr>ls_life := ?t, ls_buffers := bs\<rparr>)"
    using m(1) t(2) tc
    by (simp add: queue_maintain_def tr handle_mapping_def handle_compact_read_back_def queue_empty_def)
  have sub: "set (listed (ls_life s)) \<subseteq> set ?l \<union> set (listed ?t)"
    using t(1) by (auto simp: listed_def not_le) metis
  have sup: "set (listed ?t) \<subseteq> set (listed (ls_life s))" using t(1) by (auto simp: listed_def)
  have inv': "maps_inv n bs (listed ?t)"
    unfolding maps_inv_def
  proof (intro conjI ballI allI impI)
    fix b assume "b \<in> set (listed ?t)"
    with sup have "b \<in> set (listed (ls_life s))" by blast
    then show "b < n" "\<not> staged (bst_map_state (bs b))"
      using bufs m(3) by (simp_all add: maps_inv_def same_buffers_def)
  next
    fix b assume "waiting (bs b)"
    then have "waiting (ls_buffers s b)" "b \<notin> set ?l" using m(4) by blast+
    then show "b \<in> set (listed ?t)" using bufs sub unfolding maps_inv_def by blast
  qed (use m(2) in blast)
  show thesis
    by (rule that [OF step _ _ _ inv' m(3) _ m(6)]) (simp_all add: t(1) m(5))
qed

lemma queue_inv_filter:
  assumes "queue_inv as i j v"
  shows "queue_inv (filter (\<lambda>a. as_index a > v) as) i j v"
proof -
  have "sorted_wrt (<) (map as_index (filter P as))" for P
    using assms by (simp add: queue_inv_def sorted_wrt_map sorted_wrt_filter)
  with assms show ?thesis by (auto simp: queue_inv_def not_le)
qed

text \<open>One round of maintenance, whatever the backend answers.\<close>

lemma device_maintain_ok:
  assumes inv: "life_inv n s"
  obtains u r s' where "device_maintain dev ha poll s = Some (u, r, s')" and "life_inv n s'"
    and "ls_submission_index s' = ls_submission_index s" and "ls_pending s' = ls_pending s"
    and "pending_callbacks n (ls_buffers s) = pending_callbacks n (ls_buffers s') + fired_maps (fire_closures u)"
    and "poll = Poll \<longrightarrow> (case r of Inl (WaitDevice e) \<Rightarrow> True | Inl _ \<Rightarrow> False | Inr _ \<Rightarrow> True)"
    and "(\<exists>e. r = Inl (WaitDevice e)) \<longrightarrow> fired_maps (fire_closures u) = {#}"
    and "(\<exists>e. r = Inl (WaitDevice e)) \<or> (\<exists>i j. r = Inl (WrongSubmissionIndex i j)) \<or>
         (\<forall>a\<in>set (lt_active (ls_life s')). ls_fence s < as_index a) \<and> lt_ready_to_map (ls_life s') = []"
proof -
  note result = that
  have no: "fired_maps (fire_closures no_closures) = {#}" by (simp add: no_closures_def)
  show thesis
  proof (cases "wait_target poll (ls_last_successful s)")
    case (Inl e)
    with inv no show thesis
      by (intro result [of no_closures "Inl e" s])
        (auto simp: device_maintain_def wait_target_def split: poll_type.splits option.splits if_splits)
  next
    case (Inr target)
    have poll_t: "poll = Poll \<Longrightarrow> target = None" using Inr by (auto simp: wait_target_def)
    consider (err) e where "device_maintain dev ha poll s = Some (no_closures, Inl (WaitDevice e), s)"
      | (go) "(if target = None then None else ha_wait ha) = None" "ha_fence_value ha = None"
      using Inr by (fastforce simp: device_maintain_def split: option.splits)
    then show thesis
    proof cases
      case err
      with inv no show thesis by (intro result [of no_closures "Inl (WaitDevice e)" s]) auto
    next
      case go
      have parts: "maps_inv n (ls_buffers s) (listed (ls_life s))"
        "sorted_wrt (<) (map as_index (lt_active (ls_life s)))" "lt_ready_to_compact (ls_life s) = []"
        "\<forall>a\<in>set (lt_active (ls_life s)). as_compact a = []"
        using inv by (simp_all add: life_inv_def queue_inv_def)
      obtain u t bs where q: "queue_maintain dev (ha_blas_size ha) (ls_fence s) s
            = Some (u, lt_active t = [], s\<lparr>ls_life := t, ls_buffers := bs\<rparr>)"
          "lt_active t = filter (\<lambda>a. as_index a > ls_fence s) (lt_active (ls_life s))"
          "lt_ready_to_map t = []" "lt_ready_to_compact t = []" "maps_inv n bs (listed t)"
          "same_buffers (ls_buffers s) bs"
          "pending_callbacks n (ls_buffers s) = pending_callbacks n bs + fired_maps (fire_closures u)"
        by (rule queue_maintain_ok [OF parts])
      let ?s = "s\<lparr>ls_life := t, ls_buffers := bs\<rparr>"
      have inv': "life_inv n ?s"
        using inv q queue_inv_filter [of "lt_active (ls_life s)"] by (simp add: life_inv_def)
      have target_ok: "ls_fence s \<ge> i" if e: "lt_active t = []" and i: "target = Some i" for i
      proof -
        have "i \<le> ls_last_successful s"
          using Inr i by (auto simp: wait_target_def split: poll_type.splits option.splits if_splits)
        moreover have "ls_last_successful s \<le> ls_fence s"
          using inv' e by (simp add: life_inv_def queue_inv_def)
        ultimately show ?thesis by simp
      qed
      obtain r where r: "poll_result (lt_active t = []) target (ls_fence s) = Some r"
          "target = None \<longrightarrow> (\<exists>x. r = Inr x)" "\<nexists>e. r = Inl (WaitDevice e)"
        using target_ok by (cases target; cases "lt_active t = []") (auto simp: poll_result_def)
      let ?lost = "\<not> dev_valid dev \<and> lt_active t = []"
      let ?s' = "if ?lost then ?s\<lparr>ls_lost_closure := None\<rparr> else ?s"
      have step: "device_maintain dev ha poll s
        = Some (u\<lparr>uc_lost := (if ?lost then (case ls_lost_closure s of Some c \<Rightarrow> [c] | None \<Rightarrow> []) else [])\<rparr>, r, ?s')"
        using Inr go r(1) by (simp add: device_maintain_def q(1) Let_def del: split_paired_All)
      have fin: "life_inv n ?s'" "ls_submission_index ?s' = ls_submission_index s" "ls_pending ?s' = ls_pending s"
        "ls_buffers ?s' = bs" "ls_life ?s' = t"
        using inv' by (auto simp: life_inv_def)
      show thesis
        using r(2,3) poll_t q(2,3,7)
        by (intro result [OF step fin(1,2,3)]) (auto simp: fin(4,5))
    qed
  qed
qed

lemma keeps_poll:
  assumes inv: "life_inv n s"
  shows "keeps n (OpPoll ha poll) s (life_step dev (OpPoll ha poll) s)"
proof -
  obtain u r s' where m: "device_maintain dev ha poll s = Some (u, r, s')" "life_inv n s'"
    "ls_submission_index s' = ls_submission_index s"
    "pending_callbacks n (ls_buffers s) = pending_callbacks n (ls_buffers s') + fired_maps (fire_closures u)"
    by (rule device_maintain_ok [OF inv])
  then show ?thesis by (simp add: keeps_def device_poll_def requested_def add.commute)
qed

lemma life_inv_submitted:
  assumes inv: "life_inv n s" and room: "unat (ls_submission_index s) + 1 < 2 ^ 64"
  shows "life_inv n (s\<lparr>ls_submission_index := ls_submission_index s + 1,
           ls_pending := w, ls_last_successful := max (ls_last_successful s) (ls_submission_index s + 1),
           ls_life := track_submission (ls_submission_index s + 1) encoders (ls_life s)\<rparr>)"
    and "life_inv n (s\<lparr>ls_submission_index := ls_submission_index s + 1, ls_pending := w\<rparr>)"
proof -
  have lt: "ls_submission_index s < ls_submission_index s + 1"
    using room by (simp add: word_less_nat_alt unat_word_ariths)
  have q: "queue_inv (lt_active (ls_life s)) (ls_submission_index s) (ls_last_successful s) (ls_fence s)"
    using inv by (simp add: life_inv_def)
  then have below: "\<forall>a\<in>set (lt_active (ls_life s)). as_index a < ls_submission_index s + 1"
    "ls_last_successful s < ls_submission_index s + 1"
    using lt by (auto simp: queue_inv_def)
  then have "queue_inv (lt_active (track_submission (ls_submission_index s + 1) encoders (ls_life s)))
      (ls_submission_index s + 1) (max (ls_last_successful s) (ls_submission_index s + 1)) (ls_fence s)"
    using q by (auto simp: queue_inv_def track_submission_def sorted_wrt_append)
  with inv show "life_inv n (s\<lparr>ls_submission_index := ls_submission_index s + 1,
           ls_pending := w, ls_last_successful := max (ls_last_successful s) (ls_submission_index s + 1),
           ls_life := track_submission (ls_submission_index s + 1) encoders (ls_life s)\<rparr>)"
    by (simp add: life_inv_def track_submission_def listed_def)
  have "queue_inv (lt_active (ls_life s)) (ls_submission_index s + 1) (ls_last_successful s) (ls_fence s)"
    using q below by (auto simp: queue_inv_def)
  with inv show "life_inv n (s\<lparr>ls_submission_index := ls_submission_index s + 1, ls_pending := w\<rparr>)"
    by (simp add: life_inv_def)
qed

text \<open>The result of a submission: one of the early errors, or a round of maintenance.\<close>

lemma queue_submit_cases:
  obtains (failed) e w where "queue_submit dev ha cbs s
      = Some ([], Inl e, s\<lparr>ls_submission_index := ls_submission_index s + 1, ls_pending := w\<rparr>)"
      "w = ls_pending s \<or> pw_buffers w = []"
  | (finish) w executions p encoders where
      "take_command_buffers dev (s\<lparr>ls_submission_index := ls_submission_index s + 1\<rparr>) cbs None [] = Inr executions"
      "pre_submit (ha_end_encoding ha) (ha_acquire_encoder ha) (ls_pending s) = (Inr p, w)"
      "encoders = (case p of Some x \<Rightarrow> x # executions | None \<Rightarrow> executions)"
      "queue_submit dev ha cbs s =
        (case device_maintain dev ha Poll (s\<lparr>ls_submission_index := ls_submission_index s + 1,
              ls_pending := w, ls_last_successful := max (ls_last_successful s) (ls_submission_index s + 1),
              ls_life := track_submission (ls_submission_index s + 1) encoders (ls_life s)\<rparr>) of
           None \<Rightarrow> None
         | Some (closures, Inl (WaitDevice e), s3) \<Rightarrow>
             Some ([], Inl (ls_submission_index s + 1, QsQueue e), s3)
         | Some (closures, Inl _, s3) \<Rightarrow> None
         | Some (closures, Inr _, s3) \<Rightarrow> Some (fire_closures closures, Inr (ls_submission_index s + 1), s3))"
proof -
  let ?s = "s\<lparr>ls_submission_index := ls_submission_index s + 1\<rparr>"
  have same: "?s = ?s\<lparr>ls_pending := ls_pending s\<rparr>" by simp
  obtain pending w where p: "pre_submit (ha_end_encoding ha) (ha_acquire_encoder ha) (ls_pending s) = (pending, w)"
    by fastforce
  have w: "pw_buffers w = []" using p by (auto simp: pre_submit_def Let_def split: if_splits option.splits)
  consider (early) "\<not> dev_valid dev" | (taken) e where "dev_valid dev" "take_command_buffers dev ?s cbs None [] = Inl e"
    | (go) ex where "dev_valid dev" "take_command_buffers dev ?s cbs None [] = Inr ex"
    by (cases "take_command_buffers dev ?s cbs None []") auto
  then show thesis
  proof cases
    case early
    then show thesis
      by (intro failed [of "(ls_submission_index s + 1, QsQueue DeviceLost)" "ls_pending s"])
        (simp_all add: queue_submit_def Let_def)
  next
    case taken
    then show thesis
      by (intro failed [of "(ls_submission_index s + 1, e)" "ls_pending s"]) (simp_all add: queue_submit_def Let_def)
  next
    case go
    show thesis
    proof (cases pending)
      case (Inl e)
      with go p w show thesis
        by (intro failed [of "(ls_submission_index s + 1, QsQueue e)" w]) (simp_all add: queue_submit_def Let_def)
    next
      case (Inr x)
      show thesis
      proof (cases "ha_submit ha")
        case (Some e)
        with go p w Inr show thesis
          by (intro failed [of "(ls_submission_index s + 1, QsQueue e)" w]) (simp_all add: queue_submit_def Let_def)
      next
        case None
        with go p Inr show thesis
          by (intro finish [of ex x w "case x of Some x \<Rightarrow> x # ex | None \<Rightarrow> ex"])
            (simp_all add: queue_submit_def Let_def split: option.split sum.split wait_idle_error.split)
      qed
    qed
  qed
qed

lemma keeps_submit:
  assumes inv: "life_inv n s" and room: "unat (ls_submission_index s) + 1 < 2 ^ 64"
  shows "keeps n (OpSubmit ha cbs) s (life_step dev (OpSubmit ha cbs) s)"
proof -
  have nxt: "unat (ls_submission_index s + 1) = unat (ls_submission_index s) + 1"
    using room by (simp add: unat_word_ariths)
  show ?thesis
  proof (rule queue_submit_cases [of dev ha cbs s])
    fix e w
    assume "queue_submit dev ha cbs s
      = Some ([], Inl e, s\<lparr>ls_submission_index := ls_submission_index s + 1, ls_pending := w\<rparr>)"
    then show ?thesis using life_inv_submitted(2) [OF inv room] nxt
      by (simp add: keeps_def requested_def)
  next
    fix w executions p encoders
    let ?s = "s\<lparr>ls_submission_index := ls_submission_index s + 1,
              ls_pending := w, ls_last_successful := max (ls_last_successful s) (ls_submission_index s + 1),
              ls_life := track_submission (ls_submission_index s + 1) encoders (ls_life s)\<rparr>"
    assume q: "queue_submit dev ha cbs s = (case device_maintain dev ha Poll ?s of
           None \<Rightarrow> None
         | Some (closures, Inl (WaitDevice e), s3) \<Rightarrow>
             Some ([], Inl (ls_submission_index s + 1, QsQueue e), s3)
         | Some (closures, Inl _, s3) \<Rightarrow> None
         | Some (closures, Inr _, s3) \<Rightarrow> Some (fire_closures closures, Inr (ls_submission_index s + 1), s3))"
    obtain u r s' where m: "device_maintain dev ha Poll ?s = Some (u, r, s')" "life_inv n s'"
      "ls_submission_index s' = ls_submission_index ?s"
      "pending_callbacks n (ls_buffers ?s) = pending_callbacks n (ls_buffers s') + fired_maps (fire_closures u)"
      "case r of Inl (WaitDevice e) \<Rightarrow> True | Inl _ \<Rightarrow> False | Inr _ \<Rightarrow> True"
      "(\<exists>e. r = Inl (WaitDevice e)) \<longrightarrow> fired_maps (fire_closures u) = {#}"
      by (rule device_maintain_ok [OF life_inv_submitted(1) [OF inv room]]) blast
    show ?thesis
    proof (cases r)
      case (Inl x)
      with m(5) obtain e where "x = WaitDevice e" by (cases x) auto
      with Inl m q nxt show ?thesis by (simp add: keeps_def requested_def)
    next
      case (Inr x)
      with m q nxt show ?thesis by (simp add: keeps_def requested_def add.commute del: fired_maps_closures)
    qed
  qed
qed

lemma keeps_step:
  assumes "life_inv n s" and "op_in n op" and "unat (ls_submission_index s) + 1 < 2 ^ 64"
  shows "keeps n op s (life_step dev op s)"
  using assms keeps_map_async keeps_unmap keeps_destroy keeps_write keeps_submit keeps_work_done keeps_poll
    keeps_progress
  by (cases op) (simp_all add: op_in_def del: life_step.simps)

section \<open>Runs keep it\<close>

lemma life_run_ok:
  assumes "life_inv n s" and "\<forall>op\<in>set ops. op_in n op \<and> \<not> begin_fails op"
    and "unat (ls_submission_index s) + length ops < 2 ^ 64"
  obtains f s' where "life_run dev ops s = Some (f, s')" and "life_inv n s'"
    and "unat (ls_submission_index s') \<le> unat (ls_submission_index s) + length ops"
    and "fired_maps f + pending_callbacks n (ls_buffers s')
       = pending_callbacks n (ls_buffers s) + (\<Sum>op\<leftarrow>ops. requested op)"
  using assms
proof (induction ops arbitrary: s thesis)
  case Nil
  then show ?case by simp
next
  case (Cons op ops)
  have "keeps n op s (life_step dev op s)" "\<not> begin_fails op" using Cons.prems by (auto intro: keeps_step)
  then obtain f s1 where 1: "life_step dev op s = Some (f, s1)" "life_inv n s1"
    "unat (ls_submission_index s1) \<le> unat (ls_submission_index s) + 1"
    "fired_maps f + pending_callbacks n (ls_buffers s1) = pending_callbacks n (ls_buffers s) + requested op"
    by (auto simp: keeps_def split: option.splits)
  obtain g s2 where 2: "life_run dev ops s1 = Some (g, s2)" "life_inv n s2"
    "unat (ls_submission_index s2) \<le> unat (ls_submission_index s1) + length ops"
    "fired_maps g + pending_callbacks n (ls_buffers s2)
       = pending_callbacks n (ls_buffers s1) + (\<Sum>op\<leftarrow>ops. requested op)"
    by (rule Cons.IH [of s1]) (use 1 Cons.prems in auto)
  have "fired_maps (f @ g) + pending_callbacks n (ls_buffers s2)
      = fired_maps f + (fired_maps g + pending_callbacks n (ls_buffers s2))" by (simp add: add.assoc)
  also have "\<dots> = (fired_maps f + pending_callbacks n (ls_buffers s1)) + (\<Sum>op\<leftarrow>ops. requested op)"
    by (simp only: 2(4) add.assoc)
  also have "\<dots> = pending_callbacks n (ls_buffers s) + (\<Sum>op\<leftarrow>op # ops. requested op)"
    by (simp only: 1(4) add.assoc list.map sum_list.Cons)
  finally show ?case using 1 2 by (intro Cons.prems(1) [of "f @ g" s2]) auto
qed

lemma life_run_append:
  "life_run dev (xs @ ys) s = do {
     (f, s1) \<leftarrow> life_run dev xs s; (g, s2) \<leftarrow> life_run dev ys s1; Some (f @ g, s2) }"
proof (induction xs arbitrary: s)
  case Nil
  show ?case by (cases "life_run dev ys s") auto
next
  case (Cons x xs)
  show ?case
  proof (cases "life_step dev x s")
    case (Some r)
    obtain f s1 where r: "r = (f, s1)" by (cases r)
    show ?thesis
    proof (cases "life_run dev xs s1")
      case (Some q)
      obtain g s2 where "q = (g, s2)" by (cases q)
      with Some r \<open>life_step dev x s = Some r\<close> show ?thesis
        by (cases "life_run dev ys s2") (auto simp: Cons.IH)
    qed (use Some r in \<open>simp add: Cons.IH\<close>)
  qed simp
qed

text \<open>
  Whatever the application does before, once the GPU has finished everything that was submitted and
  the device is polled without an error of the backend, no mapping is pending any more.
\<close>

definition answers_ok :: "hal_answers \<Rightarrow> bool" where
  "answers_ok ha \<longleftrightarrow> ha_wait ha = None \<and> ha_fence_value ha = None"

lemma poll_drains:
  assumes inv: "life_inv n s" and ha: "answers_ok ha" and poll: "poll = Poll \<or> poll = PollWait None"
    and fence: "ls_submission_index s \<le> ls_fence s"
  obtains f s' where "life_step dev (OpPoll ha poll) s = Some (f, s')" and "\<forall>b. \<not> waiting (ls_buffers s' b)"
    and "fired_maps f = pending_callbacks n (ls_buffers s)"
proof -
  obtain u r s' where m: "device_maintain dev ha poll s = Some (u, r, s')" "life_inv n s'"
    "ls_submission_index s' = ls_submission_index s"
    "pending_callbacks n (ls_buffers s) = pending_callbacks n (ls_buffers s') + fired_maps (fire_closures u)"
    "(\<exists>e. r = Inl (WaitDevice e)) \<or> (\<exists>i j. r = Inl (WrongSubmissionIndex i j)) \<or>
         (\<forall>a\<in>set (lt_active (ls_life s')). ls_fence s < as_index a) \<and> lt_ready_to_map (ls_life s') = []"
    by (rule device_maintain_ok [OF inv])
  have "(\<nexists>e. r = Inl (WaitDevice e)) \<and> (\<nexists>i j. r = Inl (WrongSubmissionIndex i j))"
    using m(1) ha poll
    by (auto simp: device_maintain_def wait_target_def answers_ok_def poll_result_def bind_eq_Some_conv Let_def
        split: if_splits option.splits)
  with m(5) have fin: "\<forall>a\<in>set (lt_active (ls_life s')). ls_fence s < as_index a" "lt_ready_to_map (ls_life s') = []"
    by blast+
  have "\<forall>a\<in>set (lt_active (ls_life s')). as_index a \<le> ls_submission_index s"
    using m(2,3) by (simp add: life_inv_def queue_inv_def)
  with fin(1) fence have "lt_active (ls_life s') = []"
    by (metis list.set_intros(1) neq_Nil_conv not_le order_trans)
  then have nw: "\<forall>b. \<not> waiting (ls_buffers s' b)"
    using m(2) fin(2) by (simp add: life_inv_def maps_inv_def listed_def)
  then have "pending_callbacks n (ls_buffers s') = {#}" by (simp add: none_pending)
  with m nw show thesis
    by (intro that [of "fire_closures u" s']) (simp_all add: device_poll_def)
qed

section \<open>No mapped buffer is in flight\<close>

definition mapped :: "buffer_state \<Rightarrow> bool" where
  "mapped b \<longleftrightarrow> (\<exists>c rg h. bst_map_state b = MapActive c rg h)"

lemma mapped_code [code]: "mapped b \<longleftrightarrow> (case bst_map_state b of MapActive _ _ _ \<Rightarrow> True | _ \<Rightarrow> False)"
  by (simp add: mapped_def split: buffer_map_state.split)

definition in_flight :: "lifetime_tracker \<Rightarrow> nat \<Rightarrow> bool" where
  "in_flight t b \<longleftrightarrow> (\<exists>a\<in>set (lt_active t). contains_buffer a b)"

text \<open>
  A mapping waits for the last submission that uses its buffer. This needs two conditions the source
  does not enforce: no mapping is cancelled while it waits, and none is requested while a queue write
  of the buffer is pending.
\<close>

definition sync_inv :: "buffers \<Rightarrow> lifetime_tracker \<Rightarrow> pending_writes \<Rightarrow> bool" where
  "sync_inv bs t w \<longleftrightarrow>
     (\<forall>b. waiting (bs b) \<longleftrightarrow> b \<in> set (listed t)) \<and> (\<forall>b. mapped (bs b) \<longrightarrow> \<not> in_flight t b)
     \<and> (\<forall>b\<in>set (lt_ready_to_map t). \<not> in_flight t b)
     \<and> sorted_wrt (\<lambda>a a'. \<forall>b\<in>set (as_mapped a). \<not> contains_buffer a' b) (lt_active t)
     \<and> (\<forall>a\<in>set (lt_active t). \<forall>b\<in>set (as_mapped a). contains_buffer a b)
     \<and> (\<forall>b\<in>set (pw_buffers w). bst_map_state (bs b) = MapIdle)"

definition careful_op :: "life_op \<Rightarrow> life_state \<Rightarrow> bool" where
  "careful_op op s = (case op of
     OpMapAsync b _ _ _ \<Rightarrow> \<not> pw_contains_buffer (ls_pending s) b
   | OpUnmap b _ \<Rightarrow> \<not> waiting (ls_buffers s b)
   | _ \<Rightarrow> True)"

fun careful_run :: "device \<Rightarrow> life_op list \<Rightarrow> life_state \<Rightarrow> bool" where
  "careful_run dev [] s = True"
| "careful_run dev (op # ops) s = (careful_op op s \<and>
     (case life_step dev op s of None \<Rightarrow> True | Some (_, s1) \<Rightarrow> careful_run dev ops s1))"

abbreviation synced :: "life_state \<Rightarrow> bool" where
  "synced s \<equiv> sync_inv (ls_buffers s) (ls_life s) (ls_pending s)"

lemma idle_simps: "bst_map_state b = MapIdle \<Longrightarrow> \<not> waiting b" "bst_map_state b = MapIdle \<Longrightarrow> \<not> mapped b"
  by (simp_all add: waiting_def mapped_def)

lemma life_map_sync:
  assumes inv: "sync_inv bs t w" and idle: "bst_map_state (bs b) = MapIdle" and np: "b \<notin> set (pw_buffers w)"
    and st: "bst_map_state st = MapWaiting rg op" and t': "life_map b t = (i, t')"
  shows "sync_inv (bs(b := st)) t' w"
proof -
  have nl: "b \<notin> set (listed t)" using inv idle idle_simps(1) by (auto simp: sync_inv_def)
  have nm: "\<not> mapped st" "waiting st" using st by (simp_all add: mapped_def waiting_def)
  have encs: "map as_encoders (lt_active t') = map as_encoders (lt_active t)" by (rule life_map_listed(4) [OF t'])
  have by_encoders: "in_flight t x \<longleftrightarrow> (\<exists>es\<in>set (map as_encoders (lt_active t)).
      \<exists>e\<in>set es. x \<in> set (eif_buffers e) \<or> x \<in> set (eif_pending_buffers e))" for t x
    by (auto simp: in_flight_def contains_buffer_def)
  have fl: "in_flight t' x = in_flight t x" for x by (simp only: by_encoders encs)
  have "(\<forall>b'\<in>set (lt_ready_to_map t'). \<not> in_flight t b')
      \<and> sorted_wrt (\<lambda>a a'. \<forall>b\<in>set (as_mapped a). \<not> contains_buffer a' b) (lt_active t')
      \<and> (\<forall>a\<in>set (lt_active t'). \<forall>b\<in>set (as_mapped a). contains_buffer a b)"
  proof (cases "update_first (\<lambda>a. contains_buffer a b) (\<lambda>a. a\<lparr>as_mapped := as_mapped a @ [b]\<rparr>) (rev (lt_active t))")
    case None
    then have "\<not> in_flight t b" by (auto simp: in_flight_def update_first_None)
    with None t' inv show ?thesis by (auto simp: life_map_def sync_inv_def)
  next
    case (Some r)
    obtain a as where r: "r = (a, as)" by (cases r)
    from Some [unfolded r] obtain us vs where u: "rev (lt_active t) = us @ a # vs"
      "as = us @ a\<lparr>as_mapped := as_mapped a @ [b]\<rparr> # vs" "contains_buffer a b" "\<forall>x\<in>set us. \<not> contains_buffer x b"
      by (rule update_first_Some)
    from u(1) have t: "lt_active t = rev vs @ a # rev us" by (simp add: rev_swap)
    have up: "contains_buffer (a\<lparr>as_mapped := m\<rparr>) x = contains_buffer a x" for m x
      by (simp add: contains_buffer_def)
    from t' Some r u(2) have "t' = t\<lparr>lt_active := rev vs @ a\<lparr>as_mapped := as_mapped a @ [b]\<rparr> # rev us\<rparr>"
      by (simp add: life_map_def)
    with inv t u(3,4) show ?thesis by (auto simp: sync_inv_def sorted_wrt_append up)
  qed
  moreover have "waiting ((bs(b := st)) x) \<longleftrightarrow> x \<in> set (listed t')" for x
    using inv nm(2) life_map_listed(1) [OF t'] by (auto simp: sync_inv_def)
  ultimately show ?thesis using inv nm np by (auto simp: sync_inv_def fl)
qed

lemma sync_map_async:
  assumes inv: "synced s" and care: "careful_op (OpMapAsync b offset sz op) s"
    and step: "life_step dev (OpMapAsync b offset sz op) s = Some (f, s')"
  shows "synced s'"
proof (cases "map_request dev offset sz op (ls_buffers s b)")
  case (Inl r)
  with step inv show ?thesis by (cases r) (auto simp: buffer_map_async_def)
next
  case (Inr st)
  have idle: "bst_map_state (ls_buffers s b) = MapIdle"
    "\<exists>rg. st = (ls_buffers s b)\<lparr>bst_map_state := MapWaiting rg op\<rparr>"
    using Inr by (auto simp: map_request_def split: sum.splits buffer_map_state.splits)
  obtain i t where t: "life_map b (ls_life s) = (i, t)" by fastforce
  obtain rg where "bst_map_state st = MapWaiting rg op" using idle(2) by auto
  from life_map_sync [OF inv idle(1) _ this t] care step Inr t show ?thesis
    by (auto simp: careful_op_def pw_contains_buffer_def buffer_map_async_def bind_eq_Some_conv)
qed

lemma sync_unmap:
  assumes inv: "synced s" and care: "careful_op (OpUnmap b br) s" and step: "life_step dev (OpUnmap b br) s = Some (f, s')"
  shows "synced s'"
proof -
  let ?b = "ls_buffers s b"
  have nw: "\<not> waiting ?b" using care by (simp add: careful_op_def)
  have idle: "sync_inv ((ls_buffers s)(b := ?b\<lparr>bst_map_state := MapIdle\<rparr>)) (ls_life s) w"
    if "set (pw_buffers w) \<subseteq> insert b (set (pw_buffers (ls_pending s)))" for w
    using inv nw that idle_simps [of "?b\<lparr>bst_map_state := MapIdle\<rparr>"] by (auto simp: sync_inv_def)
  have cases: "s' = s
      \<or> s' = s\<lparr>ls_buffers := (ls_buffers s)(b := ?b\<lparr>bst_map_state := MapIdle\<rparr>), ls_pending := ls_pending s'\<rparr>
        \<and> set (pw_buffers (ls_pending s')) \<subseteq> insert b (set (pw_buffers (ls_pending s)))"
    using step nw
    by (auto simp: buffer_unmap_def unmap_inner_def waiting_def pw_insert_buffer_def consume_temp_def activate_def
        insert_key_def Let_def bind_eq_Some_conv split: if_splits buffer_map_state.splits option.splits)
  obtain w where "s' = s
      \<or> s' = s\<lparr>ls_buffers := (ls_buffers s)(b := ?b\<lparr>bst_map_state := MapIdle\<rparr>), ls_pending := w\<rparr>
        \<and> set (pw_buffers w) \<subseteq> insert b (set (pw_buffers (ls_pending s)))"
    using cases by (rule that)
  then show ?thesis using inv idle [of w] by (elim disjE conjE) simp_all
qed

lemma sync_inv_cong:
  assumes "sync_inv bs t w" and "\<And>b. bst_map_state (bs' b) = bst_map_state (bs b)"
    and "map as_mapped (lt_active t') = map as_mapped (lt_active t)"
    and "map contains_buffer (lt_active t') = map contains_buffer (lt_active t)"
    and "lt_ready_to_map t' = lt_ready_to_map t" and "set (pw_buffers w') \<subseteq> set (pw_buffers w)"
  shows "sync_inv bs' t' w'"
proof -
  have st: "waiting (bs' b) = waiting (bs b)" "mapped (bs' b) = mapped (bs b)" for b
    using assms(2) by (simp_all add: waiting_def mapped_def)
  have len: "length (lt_active t') = length (lt_active t)" using assms(3) by (metis length_map)
  have eq: "as_mapped (lt_active t' ! i) = as_mapped (lt_active t ! i)"
    "contains_buffer (lt_active t' ! i) = contains_buffer (lt_active t ! i)" if "i < length (lt_active t)" for i
    using that nth_map [of i "lt_active t'" as_mapped] nth_map [of i "lt_active t'" contains_buffer]
    by (simp_all add: len assms(3,4))
  have by_map: "in_flight t b = (\<exists>c\<in>set (map contains_buffer (lt_active t)). c b)" for t b
    by (auto simp: in_flight_def)
  have fl: "in_flight t' b = in_flight t b" for b by (simp only: by_map assms(4))
  have "listed t' = listed t" using assms(3,5) by (simp add: listed_def)
  moreover have "sorted_wrt (\<lambda>a a'. \<forall>b\<in>set (as_mapped a). \<not> contains_buffer a' b) (lt_active t')"
    using assms(1) eq len by (simp add: sync_inv_def sorted_wrt_iff_nth_less)
  moreover have "\<forall>a\<in>set (lt_active t'). \<forall>b\<in>set (as_mapped a). contains_buffer a b"
    using assms(1) eq len by (simp add: sync_inv_def all_set_conv_all_nth)
  moreover have "\<forall>b\<in>set (pw_buffers w'). bst_map_state (bs' b) = MapIdle"
    using assms(1,2,6) by (auto simp: sync_inv_def)
  ultimately show ?thesis
    using assms(1) by (simp add: sync_inv_def st fl assms(5))
qed

lemma buffer_destroy_effect:
  assumes "buffer_destroy b s = Some s'"
  shows "bst_map_state (ls_buffers s' x) = bst_map_state (ls_buffers s x)"
    and "pw_buffers (ls_pending s') = pw_buffers (ls_pending s)"
    and "ls_life s' = ls_life s
      \<or> (\<exists>i. schedule_resource_destruction (TempDestroyedBuffer b) i (ls_life s) = Some (ls_life s'))"
proof -
  have "bst_map_state (ls_buffers s' x) = bst_map_state (ls_buffers s x)
      \<and> pw_buffers (ls_pending s') = pw_buffers (ls_pending s)
      \<and> (ls_life s' = ls_life s
        \<or> (\<exists>i. schedule_resource_destruction (TempDestroyedBuffer b) i (ls_life s) = Some (ls_life s')))"
  proof (cases "bst_destroyed (ls_buffers s b) \<or> pw_contains_buffer (ls_pending s) b")
    case True
    with assms show ?thesis by (auto simp: buffer_destroy_def Let_def consume_temp_def split: if_splits)
  next
    case False
    with assms show ?thesis
      by (cases "get_buffer_latest_submission_index b (ls_life s)") (auto simp: buffer_destroy_def Let_def)
  qed
  then show "bst_map_state (ls_buffers s' x) = bst_map_state (ls_buffers s x)"
    "pw_buffers (ls_pending s') = pw_buffers (ls_pending s)"
    "ls_life s' = ls_life s
      \<or> (\<exists>i. schedule_resource_destruction (TempDestroyedBuffer b) i (ls_life s) = Some (ls_life s'))" by blast+
qed

lemma contains_buffer_temp:
  assumes "as_encoders a \<noteq> []"
  shows "contains_buffer (a\<lparr>as_encoders := butlast (as_encoders a) @ [(last (as_encoders a))\<lparr>eif_temp := x\<rparr>]\<rparr>)
    = contains_buffer a"
proof
  fix b
  obtain es e where "as_encoders a = es @ [e]" using assms by (metis append_butlast_last_id)
  then show "contains_buffer (a\<lparr>as_encoders := butlast (as_encoders a) @ [(last (as_encoders a))\<lparr>eif_temp := x\<rparr>]\<rparr>) b
    = contains_buffer a b"
    by (auto simp: contains_buffer_def)
qed

lemma sync_destroy:
  assumes inv: "synced s" and step: "life_step dev (OpDestroy b) s = Some (f, s')"
  shows "synced s'"
proof -
  let ?f = "\<lambda>a. a\<lparr>as_encoders := butlast (as_encoders a) @ [(last (as_encoders a))
      \<lparr>eif_temp := eif_temp (last (as_encoders a)) @ [TempDestroyedBuffer b]\<rparr>]\<rparr>"
  have d: "buffer_destroy b s = Some s'" using step by simp
  have "map as_mapped (lt_active (ls_life s')) = map as_mapped (lt_active (ls_life s))
      \<and> map contains_buffer (lt_active (ls_life s')) = map contains_buffer (lt_active (ls_life s))
      \<and> lt_ready_to_map (ls_life s') = lt_ready_to_map (ls_life s)"
  proof (cases "ls_life s' = ls_life s")
    case False
    with buffer_destroy_effect(3) [OF d]
    obtain i where i: "schedule_resource_destruction (TempDestroyedBuffer b) i (ls_life s) = Some (ls_life s')"
      by blast
    with False obtain a as where u: "update_first (\<lambda>a. as_index a = i) ?f (lt_active (ls_life s)) = Some (a, as)"
      and a: "as_encoders a \<noteq> []" "ls_life s' = (ls_life s)\<lparr>lt_active := as\<rparr>"
      by (auto simp: schedule_resource_destruction_def split: option.splits if_splits)
    from u obtain us vs where "lt_active (ls_life s) = us @ a # vs" "as = us @ ?f a # vs" by (rule update_first_Some)
    then show ?thesis using a contains_buffer_temp [OF a(1)] by simp
  qed simp
  then show ?thesis using buffer_destroy_effect(1,2) [OF d] by (intro sync_inv_cong [OF inv]) simp_all
qed

lemma sync_write:
  assumes inv: "synced s" and step: "life_step dev (OpWriteBuffer b offset sz br) s = Some (f, s')"
  shows "synced s'"
proof -
  have "ls_life s' = ls_life s \<and> (\<forall>x. bst_map_state (ls_buffers s' x) = bst_map_state (ls_buffers s x))
      \<and> (\<forall>x\<in>set (pw_buffers (ls_pending s')). x \<in> set (pw_buffers (ls_pending s))
            \<or> bst_map_state (ls_buffers s x) = MapIdle)"
    using step
    by (auto simp: write_buffer_def write_staging_buffer_impl_def pw_insert_buffer_def insert_key_def activate_def
        consume_temp_def Let_def bind_eq_Some_conv validated_write(1) split: if_splits option.splits sum.splits)
  with inv show ?thesis by (auto simp: sync_inv_def waiting_def mapped_def)
qed

lemma sync_work_done:
  assumes inv: "synced s" and step: "life_step dev (OpWorkDone c) s = Some (f, s')"
  shows "synced s'"
proof (rule sync_inv_cong [OF inv])
  let ?as = "lt_active (ls_life s)"
  have up: "contains_buffer (a\<lparr>as_closures := x\<rparr>) = contains_buffer a" for a x
    by (simp add: contains_buffer_def fun_eq_iff)
  show "map as_mapped (lt_active (ls_life s')) = map as_mapped ?as"
    "map contains_buffer (lt_active (ls_life s')) = map contains_buffer ?as"
    "lt_ready_to_map (ls_life s') = lt_ready_to_map (ls_life s)"
    "set (pw_buffers (ls_pending s')) \<subseteq> set (pw_buffers (ls_pending s))"
    and "\<And>b. bst_map_state (ls_buffers s' b) = bst_map_state (ls_buffers s b)"
    using step
    by (auto simp: on_submitted_work_done_def add_work_done_closure_def Let_def map_butlast_last up split: if_splits)
qed

lemma device_maintain_state:
  assumes "device_maintain dev ha poll s = Some (u, r, s')"
  shows "s' = s \<or> (\<exists>u e s1. queue_maintain dev (ha_blas_size ha) (ls_fence s) s = Some (u, e, s1)
    \<and> ls_buffers s' = ls_buffers s1 \<and> ls_life s' = ls_life s1 \<and> ls_pending s' = ls_pending s1)"
  using assms
  by (auto simp: device_maintain_def bind_eq_Some_conv Let_def split: sum.splits option.splits if_splits)

lemma sync_maintain:
  assumes inv: "life_inv n s" "synced s" and step: "device_maintain dev ha poll s = Some (u, r, s')"
  shows "synced s'"
proof (cases "s' = s")
  case False
  with device_maintain_state [OF step] obtain u1 e s1
    where q: "queue_maintain dev (ha_blas_size ha) (ls_fence s) s = Some (u1, e, s1)"
    and s1: "ls_buffers s' = ls_buffers s1" "ls_life s' = ls_life s1" "ls_pending s' = ls_pending s1" by blast
  have parts: "maps_inv n (ls_buffers s) (listed (ls_life s))"
    "sorted_wrt (<) (map as_index (lt_active (ls_life s)))" "lt_ready_to_compact (ls_life s) = []"
    "\<forall>a\<in>set (lt_active (ls_life s)). as_compact a = []"
    using inv(1) by (simp_all add: life_inv_def queue_inv_def)
  let ?v = "ls_fence s" and ?as = "lt_active (ls_life s)"
  let ?l = "lt_ready_to_map (ls_life s) @ concat (map as_mapped (filter (\<lambda>a. as_index a \<le> ?v) ?as))"
  obtain u2 t bs where m: "queue_maintain dev (ha_blas_size ha) ?v s
        = Some (u2, lt_active t = [], s\<lparr>ls_life := t, ls_buffers := bs\<rparr>)"
      "lt_active t = filter (\<lambda>a. as_index a > ?v) ?as" "lt_ready_to_map t = []" "maps_inv n bs (listed t)"
      "\<forall>b. b \<notin> set ?l \<or> \<not> waiting (ls_buffers s b) \<longrightarrow> bs b = ls_buffers s b"
    by (rule queue_maintain_ok [OF parts])
  have s': "ls_buffers s' = bs" "ls_life s' = t" "ls_pending s' = ls_pending s" using q m(1) s1 by auto
  have contains: "\<forall>a\<in>set ?as. \<forall>b\<in>set (as_mapped a). contains_buffer a b" using inv(2) by (simp add: sync_inv_def)
  have later: "sorted_wrt (\<lambda>a a'. \<forall>b\<in>set (as_mapped a). \<not> contains_buffer a' b) ?as"
    using inv(2) by (simp add: sync_inv_def)
  have free: "\<not> in_flight t b" if b: "b \<in> set ?l" for b
  proof (cases "b \<in> set (lt_ready_to_map (ls_life s))")
    case True
    then have "\<not> in_flight (ls_life s) b" using inv(2) by (simp add: sync_inv_def)
    then show ?thesis by (auto simp: in_flight_def m(2))
  next
    case False
    with b obtain a where a: "a \<in> set ?as" "as_index a \<le> ?v" "b \<in> set (as_mapped a)" by auto
    show ?thesis
    proof
      assume "in_flight t b"
      then obtain a' where a': "a' \<in> set ?as" "?v < as_index a'" "contains_buffer a' b"
        by (auto simp: in_flight_def m(2))
      obtain i j where ij: "i < length ?as" "?as ! i = a" "j < length ?as" "?as ! j = a'"
        using a(1) a'(1) by (metis in_set_conv_nth)
      have lt: "as_index a < as_index a'" using a(2) a'(2) by simp
      have "i < j"
      proof (rule ccontr)
        assume "\<not> i < j"
        then have "as_index a' \<le> as_index a"
          using parts(2) ij by (cases "i = j") (auto simp: sorted_wrt_map sorted_wrt_iff_nth_less intro: less_imp_le)
        with lt show False by simp
      qed
      with later ij a(3) a'(3) show False by (auto simp: sorted_wrt_iff_nth_less)
    qed
  qed
  have bs: "bs b = ls_buffers s b \<or> b \<in> set ?l \<and> waiting (ls_buffers s b)" for b using m(5) by blast
  have active: "lt_active t = filter (\<lambda>a. as_index a > ?v) ?as" "listed t = concat (map as_mapped (lt_active t))"
    using m(2,3) by (simp_all add: listed_def)
  have listed: "b \<in> set (listed t) \<Longrightarrow> in_flight t b" for b
    using contains by (auto simp: active in_flight_def)
  have "waiting (bs b)" if "b \<in> set (listed t)" for b
  proof -
    have "b \<notin> set ?l" using listed [OF that] free by blast
    then have "bs b = ls_buffers s b" using bs by blast
    moreover have "b \<in> set (listed (ls_life s))" using that m(3) by (auto simp: active(1) listed_def)
    ultimately show ?thesis using inv(2) by (simp add: sync_inv_def)
  qed
  then have 1: "\<forall>b. waiting (bs b) \<longleftrightarrow> b \<in> set (listed t)" using m(4) by (auto simp: maps_inv_def)
  have 2: "\<forall>b. mapped (bs b) \<longrightarrow> \<not> in_flight t b"
  proof (intro allI impI)
    fix b assume "mapped (bs b)"
    then show "\<not> in_flight t b"
      using bs [of b] free [of b] inv(2) by (auto simp: sync_inv_def in_flight_def active(1))
  qed
  have 3: "\<forall>b\<in>set (pw_buffers (ls_pending s)). bst_map_state (bs b) = MapIdle"
    using inv(2) bs idle_simps(1) unfolding sync_inv_def by metis
  show ?thesis
    using 1 2 3 later contains m(3)
    by (simp add: sync_inv_def s') (auto simp: active(1) sorted_wrt_filter)
qed (use inv in simp)

text \<open>A submission only holds buffers that are not mapped and not about to be.\<close>

lemma check_used_buffers_idle:
  "check_used_buffers bs l = Inr u \<Longrightarrow> \<forall>b\<in>set l. bst_map_state (bs b) = MapIdle"
  by (induction l) (auto split: if_splits)

lemma take_command_buffers_idle:
  assumes "take_command_buffers dev s cbs None ex = Inr ex'"
    and "\<forall>e\<in>set ex. \<forall>b. b \<in> set (eif_buffers e) \<or> b \<in> set (eif_pending_buffers e)
            \<longrightarrow> bst_map_state (ls_buffers s b) = MapIdle"
  shows "\<forall>e\<in>set ex'. \<forall>b. b \<in> set (eif_buffers e) \<or> b \<in> set (eif_pending_buffers e)
            \<longrightarrow> bst_map_state (ls_buffers s b) = MapIdle"
  using assms
proof (induction cbs arbitrary: ex)
  case (Cons cb cbs)
  have err: "take_command_buffers dev s cbs (Some e) ex \<noteq> Inr ex'" for e ex
    by (induction cbs) auto
  then have fin: "cmb_finished cb" using Cons.prems(1) by (auto split: if_splits)
  show ?case
  proof (cases "validate_command_buffer dev s cb")
    case (Inl e)
    with Cons.prems(1) fin err show ?thesis by simp
  next
    case (Inr u)
    with Cons.prems(1) fin have re: "cmb_reopen cb = None" by (auto split: option.splits)
    have "\<exists>v. check_used_buffers (ls_buffers s) (cmb_buffers cb) = Inr v"
      using Inr by (auto simp: validate_command_buffer_def and_then_def split: sum.splits)
    then have "\<forall>b\<in>set (cmb_buffers cb). bst_map_state (ls_buffers s b) = MapIdle"
      using check_used_buffers_idle by blast
    note idle = this
    have t: "take_command_buffers dev s cbs None (ex @ [\<lparr>eif_buffers = cmb_buffers cb,
        eif_textures = cmb_textures cb, eif_blas = cmb_blas cb, eif_temp = cmb_temp cb, eif_pending_buffers = [],
        eif_pending_textures = [], eif_pending_blas = []\<rparr>]) = Inr ex'"
      using Cons.prems(1) Inr fin re by simp
    show ?thesis by (rule Cons.IH [OF t]) (use Cons.prems(2) idle in auto)
  qed
qed simp

lemma pre_submit_idle:
  assumes "pre_submit a b w = (Inr p, w')"
  shows "pw_buffers w' = []"
    and "\<forall>e. p = Some e \<longrightarrow> eif_buffers e = [] \<and> eif_pending_buffers e = pw_buffers w"
  using assms by (auto simp: pre_submit_def Let_def split: if_splits option.splits)

lemma track_submission_sync:
  assumes inv: "sync_inv bs t w" and w': "pw_buffers w' = []"
    and idle: "\<forall>e\<in>set es. \<forall>b. b \<in> set (eif_buffers e) \<or> b \<in> set (eif_pending_buffers e) \<longrightarrow> bst_map_state (bs b) = MapIdle"
  shows "sync_inv bs (track_submission i es t) w'"
proof -
  let ?a = "\<lparr>as_index = i, as_mapped = [], as_compact = [], as_encoders = es, as_closures = []\<rparr>"
  have idle': "bst_map_state (bs b) = MapIdle" if "contains_buffer ?a b" for b
    using that idle by (auto simp: contains_buffer_def)
  have fl: "in_flight (track_submission i es t) b = (in_flight t b \<or> contains_buffer ?a b)" for b
    by (auto simp: in_flight_def track_submission_def)
  have li: "listed (track_submission i es t) = listed t" by (simp add: listed_def track_submission_def)
  have nl: "b \<notin> set (listed t)" "\<not> mapped (bs b)" if "contains_buffer ?a b" for b
    using idle_simps [OF idle' [OF that]] inv by (auto simp: sync_inv_def)
  have new: "\<forall>a\<in>set (lt_active t). \<forall>b\<in>set (as_mapped a). \<not> contains_buffer ?a b"
    using nl(1) by (auto simp: listed_def)
  have ready: "\<forall>b\<in>set (lt_ready_to_map t). \<not> contains_buffer ?a b" using nl(1) by (auto simp: listed_def)
  show ?thesis
    using inv new ready nl(2) unfolding sync_inv_def li fl w'
    by (auto simp: track_submission_def sorted_wrt_append)
qed

lemma sync_submit:
  assumes inv: "life_inv n s" "synced s" and room: "unat (ls_submission_index s) + 1 < 2 ^ 64"
    and step: "life_step dev (OpSubmit ha cbs) s = Some (f, s')"
  shows "synced s'"
proof (rule queue_submit_cases [of dev ha cbs s])
  fix e w
  assume q: "queue_submit dev ha cbs s
      = Some ([], Inl e, s\<lparr>ls_submission_index := ls_submission_index s + 1, ls_pending := w\<rparr>)"
    and w: "w = ls_pending s \<or> pw_buffers w = []"
  have "sync_inv (ls_buffers s) (ls_life s) w"
    using w by (intro sync_inv_cong [OF inv(2)]) auto
  with q step show ?thesis by auto
next
  fix w ex p encoders
  let ?s = "s\<lparr>ls_submission_index := ls_submission_index s + 1, ls_pending := w,
              ls_last_successful := max (ls_last_successful s) (ls_submission_index s + 1),
              ls_life := track_submission (ls_submission_index s + 1) encoders (ls_life s)\<rparr>"
  assume t: "take_command_buffers dev (s\<lparr>ls_submission_index := ls_submission_index s + 1\<rparr>) cbs None [] = Inr ex"
    and p: "pre_submit (ha_end_encoding ha) (ha_acquire_encoder ha) (ls_pending s) = (Inr p, w)"
    and e: "encoders = (case p of Some x \<Rightarrow> x # ex | None \<Rightarrow> ex)"
    and q: "queue_submit dev ha cbs s = (case device_maintain dev ha Poll ?s of
           None \<Rightarrow> None
         | Some (closures, Inl (WaitDevice e), s3) \<Rightarrow>
             Some ([], Inl (ls_submission_index s + 1, QsQueue e), s3)
         | Some (closures, Inl _, s3) \<Rightarrow> None
         | Some (closures, Inr _, s3) \<Rightarrow> Some (fire_closures closures, Inr (ls_submission_index s + 1), s3))"
  have "\<forall>e\<in>set ex. \<forall>b. b \<in> set (eif_buffers e) \<or> b \<in> set (eif_pending_buffers e)
            \<longrightarrow> bst_map_state (ls_buffers s b) = MapIdle"
    using take_command_buffers_idle [OF t] by simp
  moreover have "\<forall>b\<in>set (pw_buffers (ls_pending s)). bst_map_state (ls_buffers s b) = MapIdle"
    using inv(2) by (simp add: sync_inv_def)
  ultimately have "\<forall>e\<in>set encoders. \<forall>b. b \<in> set (eif_buffers e) \<or> b \<in> set (eif_pending_buffers e)
            \<longrightarrow> bst_map_state (ls_buffers s b) = MapIdle"
    using pre_submit_idle(2) [OF p] by (auto simp: e split: option.splits)
  then have "synced ?s" using track_submission_sync [OF inv(2) pre_submit_idle(1) [OF p]] by simp
  moreover have "\<exists>u r. device_maintain dev ha Poll ?s = Some (u, r, s')"
    using q step by (auto split: option.splits sum.splits wait_idle_error.splits)
  ultimately show ?thesis using sync_maintain life_inv_submitted(1) [OF inv(1) room] by blast
qed

lemma sync_step:
  assumes inv: "life_inv n s" "synced s" and care: "careful_op op s"
    and room: "unat (ls_submission_index s) + 1 < 2 ^ 64" and step: "life_step dev op s = Some (f, s')"
  shows "synced s'"
proof (cases op)
  case (OpMapAsync b offset sz m)
  show ?thesis by (rule sync_map_async [OF inv(2) care [unfolded OpMapAsync] step [unfolded OpMapAsync]])
next
  case (OpUnmap b br)
  show ?thesis by (rule sync_unmap [OF inv(2) care [unfolded OpUnmap] step [unfolded OpUnmap]])
next
  case (OpDestroy b)
  show ?thesis by (rule sync_destroy [OF inv(2) step [unfolded OpDestroy]])
next
  case (OpWriteBuffer b offset sz br)
  show ?thesis by (rule sync_write [OF inv(2) step [unfolded OpWriteBuffer]])
next
  case (OpSubmit ha cbs)
  show ?thesis by (rule sync_submit [OF inv room step [unfolded OpSubmit]])
next
  case (OpWorkDone c)
  show ?thesis by (rule sync_work_done [OF inv(2) step [unfolded OpWorkDone]])
next
  case (OpPoll ha poll)
  with step show ?thesis using sync_maintain [OF inv] by (auto simp: device_poll_def)
next
  case (OpGpuProgress v)
  with step inv(2) show ?thesis by auto
qed

lemma sync_run:
  assumes "life_inv n s" and "synced s" and "\<forall>op\<in>set ops. op_in n op"
    and "unat (ls_submission_index s) + length ops < 2 ^ 64" and "careful_run dev ops s"
  shows "case life_run dev ops s of None \<Rightarrow> \<exists>op\<in>set ops. begin_fails op | Some (f, s') \<Rightarrow> synced s'"
  using assms
proof (induction ops arbitrary: s)
  case (Cons op ops)
  have room: "unat (ls_submission_index s) + 1 < 2 ^ 64" using Cons.prems(4) by simp
  have step: "keeps n op s (life_step dev op s)" using Cons.prems by (intro keeps_step) auto
  show ?case
  proof (cases "life_step dev op s")
    case None
    with step show ?thesis by (simp add: keeps_def)
  next
    case (Some r)
    obtain f s1 where r: "r = (f, s1)" by (cases r)
    have 1: "life_inv n s1" "unat (ls_submission_index s1) \<le> unat (ls_submission_index s) + 1"
      using step Some r by (auto simp: keeps_def)
    have care: "careful_op op s" "careful_run dev ops s1" using Cons.prems(5) Some r by simp_all
    have "synced s1" by (rule sync_step [OF Cons.prems(1,2) care(1) room Some [unfolded r]])
    then have "case life_run dev ops s1 of None \<Rightarrow> \<exists>op\<in>set ops. begin_fails op | Some (f, s') \<Rightarrow> synced s'"
      using 1 Cons.prems care(2) by (intro Cons.IH) auto
    then show ?thesis using Some r by (auto split: option.splits)
  qed
qed simp

section \<open>A device with idle buffers\<close>

definition small_buffer :: "nat \<Rightarrow> buffer_state" where
  "small_buffer b = \<lparr>bst_buffer = \<lparr>gb_index = b, gb_device = 0, gb_size = 256, gb_usage = bus_map_read OR bus_copy_dst\<rparr>,
     bst_destroyed = False, bst_map_state = MapIdle, bst_status = new_tracker 256\<rparr>"

definition fresh_state :: "nat \<Rightarrow> life_state" where
  "fresh_state n = \<lparr>ls_buffers = small_buffer, ls_blas = \<lambda>_. CompactIdle, ls_textures_destroyed = \<lambda>_. False,
     ls_life = new_lifetime_tracker, ls_pending = new_pending_writes,
     ls_tracker = new_device_tracker 0\<lparr>dt_current := replicate n 0, dt_metadata := metadata_set_size n new_metadata\<rparr>,
     ls_submission_index = 0, ls_last_successful = 0, ls_fence = 0, ls_lost_closure = None\<rparr>"

definition quiet_hal :: hal_answers where
  "quiet_hal = \<lparr>ha_end_encoding = None, ha_acquire_encoder = None, ha_submit = None, ha_wait = None,
     ha_fence_value = None, ha_blas_size = \<lambda>_. Inr 0\<rparr>"

definition using_buffer :: "nat \<Rightarrow> command_buffer" where
  "using_buffer b = \<lparr>cmb_finished = True, cmb_device = 0, cmb_buffers = [b], cmb_textures = [], cmb_blas = [],
     cmb_temp = [], cmb_reopen = None\<rparr>"

definition read_map :: "nat \<Rightarrow> map_operation" where
  "read_map c = \<lparr>mo_host = HostRead, mo_callback = Some c\<rparr>"

lemma fresh_life_inv: "life_inv n (fresh_state n)"
proof -
  have st: "status_ok (new_tracker (256 :: u64))"
    by (simp add: status_ok_def new_tracker_def tracker_wf_def aligned_def COPY_BUFFER_ALIGNMENT_def)
  have "metadata_wf n (metadata_set_size n (new_metadata :: nat resource_metadata))"
    by (rule metadata_wf_set_size [OF metadata_wf_new])
  with st show ?thesis
    by (simp add: life_inv_def maps_inv_def queue_inv_def fresh_state_def small_buffer_def listed_def buffer_ok_def
        waiting_def new_lifetime_tracker_def device_wf_def new_device_tracker_def)
qed

lemma fresh_synced: "synced (fresh_state n)"
  by (simp add: sync_inv_def fresh_state_def small_buffer_def waiting_def mapped_def listed_def
      new_lifetime_tracker_def new_pending_writes_def)

section \<open>Properties\<close>





section \<open>Where the conditions are needed\<close>

text \<open>A backend that is out of memory when the pending writes begin is a panic of the caller.\<close>

lemma begin_failure_panics: "life_run basic_device [OpWriteBuffer 0 0 4 (Some OutOfMemory)] (fresh_state 1) = None"
  by code_simp

text \<open>
  A mapping cancelled while it waits leaves its entry behind. When the buffer is used again and mapped
  again, the old entry maps it as soon as the old submission is done, with the new one in flight.
\<close>

lemma stale_mapping_in_flight:
  "case life_run basic_device [OpSubmit quiet_hal [using_buffer 0], OpMapAsync 0 0 None (read_map 1), OpUnmap 0 None,
        OpSubmit quiet_hal [using_buffer 0], OpMapAsync 0 0 None (read_map 2), OpGpuProgress 1, OpPoll quiet_hal Poll]
      (fresh_state 1) of
     Some (f, s') \<Rightarrow> mapped (ls_buffers s' 0) \<and> in_flight (ls_life s') 0 \<and> FiredMap 2 (Inr ()) \<in> set f
   | None \<Rightarrow> False"
  by code_simp

text \<open>
  A write through the queue is only seen by the tracker when it is submitted: mapped before that, the
  buffer is mapped at once, and the submission that carries the write then uses a mapped buffer.
\<close>

lemma pending_write_mapped:
  "case life_run basic_device [OpWriteBuffer 0 0 4 None, OpMapAsync 0 0 None (read_map 1), OpPoll quiet_hal Poll,
        OpSubmit quiet_hal []] (fresh_state 1) of
     Some (f, s') \<Rightarrow> mapped (ls_buffers s' 0) \<and> in_flight (ls_life s') 0
   | None \<Rightarrow> False"
  by code_simp

end
