(* ===== verification/Copies.thy ===== *)
theory Copies
  imports Encoding
begin

unbundle bit_operations_syntax

text \<open>
  Copies between buffers and textures, \<open>wgpu-core/src/command/transfer.rs\<close>: the validation of layouts,
  formats and ranges, the bookkeeping of initialised memory, and the four copy commands; then the
  encoding of a list of commands, as \<open>CommandEncoder::finish\<close> does it in \<open>wgpu-core/src/command/mod.rs\<close>.
\<close>

section \<open>Validation\<close>

record texel_copy_texture_info =
  tci_mip_level :: u32
  tci_origin :: origin3d
  tci_aspect :: texture_aspect

definition transfer_error_from :: "copy_info_error \<Rightarrow> transfer_error" where
  "transfer_error_from e =
    (case e of
       InvalidBytesPerRow \<Rightarrow> TeInvalidBytesPerRow
     | InvalidRowsPerImage \<Rightarrow> TeInvalidRowsPerImage
     | ImageStrideOverflow \<Rightarrow> TeSizeOverflow | ImageBytesOverflow _ \<Rightarrow> TeSizeOverflow
     | ArraySizeOverflow _ \<Rightarrow> TeSizeOverflow)"

definition extract_texture_selector ::
  "texel_copy_texture_info \<Rightarrow> extent3d \<Rightarrow> texture \<Rightarrow> transfer_error + texture_selector \<times> texture_copy_base" where
  "extract_texture_selector info copy_size t =
    (let f = td_format (tex_desc t); copy_aspect = format_aspects_new f (tci_aspect info); og = tci_origin info in
     if copy_aspect = 0 then Inl (TeInvalidTextureAspect f (tci_aspect info))
     else
       let (layers, origin_z) =
             (case td_dimension (tex_desc t) of
                D1 \<Rightarrow> (Range 0 1, 0)
              | D2 \<Rightarrow> (Range (org_z og) (org_z og + depth_or_array_layers copy_size), 0)
              | D3 \<Rightarrow> (Range 0 1, org_z og)) in
       Inr (\<lparr>sel_mips = Range (tci_mip_level info) (tci_mip_level info + 1), sel_layers = layers\<rparr>,
            \<lparr>tcb_mip_level = tci_mip_level info, tcb_array_layer = rstart layers,
             tcb_origin = \<lparr>org_x = org_x og, org_y = org_y og, org_z = origin_z\<rparr>, tcb_aspect = copy_aspect\<rparr>))"

text \<open>The bytes of the copy, the stride between layers, and whether the data has no padding.\<close>

definition validate_linear_texture_data ::
  "texel_copy_buffer_layout \<Rightarrow> texture_format \<Rightarrow> texture_aspect \<Rightarrow> u64 \<Rightarrow> copy_side \<Rightarrow> extent3d
   \<Rightarrow> (transfer_error + u64 \<times> u64 \<times> bool) option" where
  "validate_linear_texture_data layout f aspect buffer_size side copy_size =
    map_option (\<lambda>r.
      and_then (map_err transfer_error_from r) (\<lambda>i.
      let requires_multiple_rows = ci_depth_or_array_layers i > 1 \<or> ci_height_blocks i > 1;
          requires_multiple_images = ci_depth_or_array_layers i > 1;
          offset = ci_offset i; bytes_in_copy = ci_bytes_in_copy i in
      and_then (ensure (ci_copy_width i mod ci_block_width_texels i = 0) TeUnalignedCopyWidth) (\<lambda>_.
      and_then (ensure (ci_copy_height i mod ci_block_height_texels i = 0) TeUnalignedCopyHeight) (\<lambda>_.
      and_then (ensure (\<not> (tbl_bytes_per_row layout = None \<and> requires_multiple_rows)) TeUnspecifiedBytesPerRow) (\<lambda>_.
      and_then (ensure (\<not> (tbl_rows_per_image layout = None \<and> requires_multiple_images)) TeUnspecifiedRowsPerImage) (\<lambda>_.
      and_then (ensure (\<not> offset > buffer_size) (TeBufferStartOffsetOverrun offset buffer_size side)) (\<lambda>_.
      and_then (ensure (\<not> bytes_in_copy > buffer_size - offset)
                  (TeBufferEndOffsetOverrun offset bytes_in_copy buffer_size side)) (\<lambda>_.
      let is_contiguous =
            (ci_row_stride_bytes i = ci_row_bytes_dense i \<or> \<not> requires_multiple_rows)
            \<and> (ci_image_stride_bytes i = ci_image_bytes_dense i \<or> \<not> requires_multiple_images)
      in Inr (bytes_in_copy, ci_image_stride_bytes i, is_contiguous)))))))))
      (get_buffer_texture_copy_info layout f aspect copy_size)"

definition validate_texture_copy_src_format :: "texture_format \<Rightarrow> texture_aspect \<Rightarrow> transfer_error + unit" where
  "validate_texture_copy_src_format f aspect =
    (if f = Depth24Plus then Inl (TeCopyFromForbiddenTextureFormat f)
     else if f = Depth24PlusStencil8 \<and> aspect = DepthOnly then Inl (TeCopyFromForbiddenTextureFormatAspect f aspect)
     else Inr ())"

definition validate_texture_copy_dst_format :: "texture_format \<Rightarrow> texture_aspect \<Rightarrow> transfer_error + unit" where
  "validate_texture_copy_dst_format f aspect =
    (if f = Depth24Plus \<or> f = Depth32Float then Inl (TeCopyToForbiddenTextureFormat f)
     else if (f = Depth24PlusStencil8 \<or> f = Depth32FloatStencil8) \<and> aspect = DepthOnly
       then Inl (TeCopyToForbiddenTextureFormatAspect f aspect)
     else Inr ())"

definition COPY_BYTES_PER_ROW_ALIGNMENT :: u32 where "COPY_BYTES_PER_ROW_ALIGNMENT = 256"

text \<open>\<open>None\<close> is the panic of \<open>expect\<close> on a format that has no block size.\<close>

definition validate_texture_buffer_copy ::
  "texel_copy_texture_info \<Rightarrow> format_aspects \<Rightarrow> texture_descriptor \<Rightarrow> texel_copy_buffer_layout \<Rightarrow> bool
   \<Rightarrow> (transfer_error + unit) option" where
  "validate_texture_buffer_copy info aspect desc layout check_align =
    (if td_sample_count desc \<noteq> 1 then Some (Inl (TeInvalidSampleCount (td_sample_count desc)))
     else if \<not> fa_is_one aspect then Some (Inl TeCopyAspectNotOne)
     else do {
       offset_alignment \<leftarrow> (if is_depth_stencil_format (td_format desc) then Some 4
                           else block_copy_size (td_format desc) (Some (tci_aspect info)));
       Some (if check_align \<and> tbl_offset layout mod ucast offset_alignment \<noteq> 0
             then Inl (TeUnalignedBufferOffset (tbl_offset layout))
             else case tbl_bytes_per_row layout of
               Some bytes_per_row \<Rightarrow>
                 if check_align \<and> bytes_per_row mod COPY_BYTES_PER_ROW_ALIGNMENT \<noteq> 0 then Inl TeUnalignedBytesPerRow
                 else Inr ()
             | None \<Rightarrow> Inr ()) })"

definition check_dimension ::
  "texture_descriptor \<Rightarrow> copy_side \<Rightarrow> texture_error_dimension \<Rightarrow> u32 \<Rightarrow> u32 \<Rightarrow> u32 \<Rightarrow> bool \<Rightarrow> transfer_error + unit" where
  "check_dimension desc side dimension start_offset sz texture_size requires_exact_size =
    (if requires_exact_size \<and> (start_offset \<noteq> 0 \<or> sz \<noteq> texture_size) then
       Inl (TeUnsupportedPartialTransfer (td_format desc) (td_sample_count desc) start_offset (start_offset + sz)
              texture_size dimension side)
     else if start_offset > texture_size \<or> texture_size - start_offset < sz then
       Inl (TeTextureOverrun start_offset (start_offset + sz) texture_size dimension side)
     else Inr ())"

definition validate_texture_copy_range ::
  "texel_copy_texture_info \<Rightarrow> texture_descriptor \<Rightarrow> copy_side \<Rightarrow> extent3d \<Rightarrow> transfer_error + copy_extent \<times> u32" where
  "validate_texture_copy_range info desc side copy_size =
    (let (block_width, block_height) = block_dimensions (td_format desc); og = tci_origin info;
         requires_exact_size = is_depth_stencil_format (td_format desc) \<or> td_sample_count desc > 1 in
     and_then (ok_or (TeInvalidTextureMipLevel (tci_mip_level info) (td_mip_level_count desc))
                 (desc_mip_level_size desc (tci_mip_level info))) (\<lambda>extent_virtual.
     let extent = physical_size extent_virtual (td_format desc) in
     and_then (check_dimension desc side DimX (org_x og) (ext_width copy_size) (ext_width extent) requires_exact_size) (\<lambda>_.
     and_then (check_dimension desc side DimY (org_y og) (ext_height copy_size) (ext_height extent) requires_exact_size) (\<lambda>_.
     and_then (check_dimension desc side DimZ (org_z og) (depth_or_array_layers copy_size)
                 (depth_or_array_layers extent) False) (\<lambda>_.
     and_then (ensure (is_multiple_of (org_x og) block_width) TeUnalignedCopyOriginX) (\<lambda>_.
     and_then (ensure (is_multiple_of (org_y og) block_height) TeUnalignedCopyOriginY) (\<lambda>_.
     and_then (ensure (is_multiple_of (ext_width copy_size) block_width) TeUnalignedCopyWidth) (\<lambda>_.
     and_then (ensure (is_multiple_of (ext_height copy_size) block_height) TeUnalignedCopyHeight) (\<lambda>_.
     let (depth, layer_count) =
           (case td_dimension desc of
              D1 \<Rightarrow> (1, 1) | D2 \<Rightarrow> (1, depth_or_array_layers copy_size)
            | D3 \<Rightarrow> (depth_or_array_layers copy_size, 1)) in
     Inr (\<lparr>ce_width = ext_width copy_size, ce_height = ext_height copy_size, ce_depth = depth\<rparr>,
          layer_count))))))))))"

definition validate_copy_within_same_texture ::
  "texel_copy_texture_info \<Rightarrow> texel_copy_texture_info \<Rightarrow> texture_format \<Rightarrow> u32 \<Rightarrow> transfer_error + unit" where
  "validate_copy_within_same_texture src dst f layer_count =
    (let src_aspects = format_aspects_new f (tci_aspect src); dst_aspects = format_aspects_new f (tci_aspect dst);
         src_z = org_z (tci_origin src); dst_z = org_z (tci_origin dst) in
     if src_aspects AND dst_aspects = 0 then Inr ()
     else if src_z \<ge> dst_z + layer_count \<or> dst_z \<ge> src_z + layer_count then Inr ()
     else if tci_mip_level src \<noteq> tci_mip_level dst then Inr ()
     else Inl (TeInvalidCopyWithinSameTexture (tci_aspect src) (tci_aspect dst) src_z dst_z layer_count))"

section \<open>Initialised memory\<close>

definition has_copy_partial_init_tracker_coverage :: "extent3d \<Rightarrow> u32 \<Rightarrow> texture_descriptor \<Rightarrow> bool option" where
  "has_copy_partial_init_tracker_coverage copy_size mip_level desc =
    map_option (\<lambda>target_size.
      ext_width copy_size \<noteq> ext_width target_size \<or> ext_height copy_size \<noteq> ext_height target_size
      \<or> td_dimension desc = D3 \<and> depth_or_array_layers copy_size \<noteq> depth_or_array_layers target_size)
      (desc_mip_level_size desc mip_level)"

text \<open>The immediate clears, in order, until one fails.\<close>

fun clear_surfaces :: "device \<Rightarrow> texture \<Rightarrow> texture_surface_discard list \<Rightarrow> (clear_error, unit) enc" where
  "clear_surfaces dev t [] = en_lift (Inr ())"
| "clear_surfaces dev t (init # rest) =
     en_bind (en_clear_texture dev t (surface_range init)) (\<lambda>_. clear_surfaces dev t rest)"

definition handle_texture_init ::
  "device \<Rightarrow> memory_init_kind \<Rightarrow> texel_copy_texture_info \<Rightarrow> extent3d \<Rightarrow> texture \<Rightarrow> (clear_error, unit) enc" where
  "handle_texture_init dev init_kind info copy_size t s =
    (let mip = tci_mip_level info; z = org_z (tci_origin info);
         init_action = \<lparr>ti_texture = tex_index t,
           ti_range = \<lparr>mip_range = Range mip (mip + 1), layer_range = Range z (z + depth_or_array_layers copy_size)\<rparr>,
           ti_kind = init_kind\<rparr>;
         (immediate_inits, actions) = register_init_action (\<lambda>_. tex_init t) (en_texture_actions s) init_action
     in clear_surfaces dev t immediate_inits (s\<lparr>en_texture_actions := actions\<rparr>))"

definition handle_src_texture_init ::
  "device \<Rightarrow> texel_copy_texture_info \<Rightarrow> extent3d \<Rightarrow> texture \<Rightarrow> (transfer_error, unit) enc" where
  "handle_src_texture_init dev info copy_size t =
    en_map_err TeMemoryInitFailure (handle_texture_init dev NeedsInitializedMemory info copy_size t)"

definition handle_dst_texture_init ::
  "device \<Rightarrow> texel_copy_texture_info \<Rightarrow> extent3d \<Rightarrow> texture \<Rightarrow> (transfer_error, unit) enc" where
  "handle_dst_texture_init dev info copy_size t =
    en_bind (en_panic (has_copy_partial_init_tracker_coverage copy_size (tci_mip_level info) (tex_desc t))) (\<lambda>partial.
    en_map_err TeMemoryInitFailure
      (handle_texture_init dev (if partial then NeedsInitializedMemory else ImplicitlyInitialized) info copy_size t))"

definition handle_buffer_init ::
  "buffer_state \<Rightarrow> texel_copy_buffer_layout \<Rightarrow> copy_side \<Rightarrow> u64 \<Rightarrow> bool \<Rightarrow> ('e, unit) enc" where
  "handle_buffer_init b layout direction required_bytes is_contiguous =
    (let align_mask = COPY_BUFFER_ALIGNMENT - 1; start = tbl_offset layout; end_offset = tbl_offset layout + required_bytes in
     if \<not> is_contiguous \<or> direction = CopySource then
       en_init_buffer b (Range (start AND NOT align_mask) ((end_offset + align_mask) AND NOT align_mask))
         NeedsInitializedMemory
     else
       let aligned_start = (start + align_mask) AND NOT align_mask; aligned_end = end_offset AND NOT align_mask in
       en_bind (if aligned_start \<noteq> start then
                  en_init_buffer b (Range (aligned_start - COPY_BUFFER_ALIGNMENT) aligned_start) NeedsInitializedMemory
                else en_lift (Inr ())) (\<lambda>_.
       en_bind (if aligned_start \<noteq> aligned_end then
                  en_init_buffer b (Range aligned_start aligned_end) ImplicitlyInitialized
                else en_lift (Inr ())) (\<lambda>_.
       if aligned_end \<noteq> end_offset then
         en_init_buffer b (Range aligned_end (aligned_end + COPY_BUFFER_ALIGNMENT)) NeedsInitializedMemory
       else en_lift (Inr ()))))"

section \<open>The copies\<close>

datatype command_error =
  CmDevice device_error
| CmDestroyed nat
| CmTransfer transfer_error
| CmClear clear_error

definition buffer_usage_checked :: "buffer_state \<Rightarrow> buffer_usages \<Rightarrow> command_error + unit" where
  "buffer_usage_checked b usage =
    map_err (\<lambda>(i, a, e). CmTransfer (TeMissingBufferUsage i a e)) (check_usage (bst_buffer b) usage)"

definition texture_usage_checked :: "texture \<Rightarrow> texture_usages \<Rightarrow> command_error + unit" where
  "texture_usage_checked t usage =
    map_err (\<lambda>(i, a, e). CmTransfer (TeMissingTextureUsage i a e)) (texture_check_usage t usage)"

text \<open>The downlevel check on index buffers.\<close>

definition check_index_copy :: "device \<Rightarrow> gpu_buffer \<Rightarrow> gpu_buffer \<Rightarrow> transfer_error + unit" where
  "check_index_copy dev src dst =
    (let forbidden = bus_vertex OR bus_uniform OR bus_indirect OR bus_storage in
     if \<not> contains (dev_downlevel dev) df_unrestricted_index_buffer
        \<and> (contains (gb_usage src) bus_index \<or> contains (gb_usage dst) bus_index)
        \<and> (intersects (gb_usage src) forbidden \<or> intersects (gb_usage dst) forbidden)
     then Inl (TeMissingDownlevelFlags df_unrestricted_index_buffer) else Inr ())"

definition copy_buffer_sizes ::
  "device \<Rightarrow> gpu_buffer \<Rightarrow> u64 \<Rightarrow> gpu_buffer \<Rightarrow> u64 \<Rightarrow> u64 option \<Rightarrow> transfer_error + u64" where
  "copy_buffer_sizes dev src source_offset dst destination_offset size_opt =
    and_then (ensure (\<not> source_offset > gb_size src) (TeBufferStartOffsetOverrun source_offset (gb_size src) CopySource)) (\<lambda>_.
    let sz = (case size_opt of Some n \<Rightarrow> n | None \<Rightarrow> gb_size src - source_offset) in
    and_then (ensure (sz mod COPY_BUFFER_ALIGNMENT = 0) (TeUnalignedCopySize sz)) (\<lambda>_.
    and_then (ensure (source_offset mod COPY_BUFFER_ALIGNMENT = 0) (TeUnalignedBufferOffset source_offset)) (\<lambda>_.
    and_then (ensure (destination_offset mod COPY_BUFFER_ALIGNMENT = 0) (TeUnalignedBufferOffset destination_offset)) (\<lambda>_.
    and_then (check_index_copy dev src dst) (\<lambda>_.
    and_then (ensure (\<not> sz > gb_size src - source_offset)
                (TeBufferEndOffsetOverrun source_offset sz (gb_size src) CopySource)) (\<lambda>_.
    and_then (ensure (\<not> destination_offset > gb_size dst)
                (TeBufferStartOffsetOverrun destination_offset (gb_size dst) CopyDestination)) (\<lambda>_.
    and_then (ensure (\<not> sz > gb_size dst - destination_offset)
                (TeBufferEndOffsetOverrun destination_offset sz (gb_size dst) CopyDestination)) (\<lambda>_.
    Inr sz))))))))"

definition copy_buffer_to_buffer ::
  "device \<Rightarrow> buffer_state \<Rightarrow> u64 \<Rightarrow> buffer_state \<Rightarrow> u64 \<Rightarrow> u64 option \<Rightarrow> (command_error, unit) enc" where
  "copy_buffer_to_buffer dev src source_offset dst destination_offset size_opt =
    (let si = gb_index (bst_buffer src); di = gb_index (bst_buffer dst) in
     en_bind (en_lift (ensure (si \<noteq> di) (CmTransfer TeSameSourceDestinationBuffer))) (\<lambda>_.
     en_bind (en_lift (map_err CmDevice (buffer_same_device dev src))) (\<lambda>_.
     en_bind (en_use_buffer si bu_copy_src) (\<lambda>src_pending.
     en_bind (en_lift (map_err CmDestroyed (buffer_try_raw src))) (\<lambda>src_raw.
     en_bind (en_lift (buffer_usage_checked src bus_copy_src)) (\<lambda>_.
     en_bind (en_panic (buffer_barriers src src_pending)) (\<lambda>src_barrier.
     en_bind (en_lift (map_err CmDevice (buffer_same_device dev dst))) (\<lambda>_.
     en_bind (en_use_buffer di bu_copy_dst) (\<lambda>dst_pending.
     en_bind (en_lift (map_err CmDestroyed (buffer_try_raw dst))) (\<lambda>dst_raw.
     en_bind (en_lift (buffer_usage_checked dst bus_copy_dst)) (\<lambda>_.
     en_bind (en_panic (buffer_barriers dst dst_pending)) (\<lambda>dst_barrier.
     en_bind (en_lift (map_err CmTransfer
       (copy_buffer_sizes dev (bst_buffer src) source_offset (bst_buffer dst) destination_offset size_opt))) (\<lambda>sz.
     if sz = 0 then en_lift (Inr ())
     else
       en_bind (en_init_buffer dst (Range destination_offset (destination_offset + sz)) ImplicitlyInitialized) (\<lambda>_.
       en_bind (en_init_buffer src (Range source_offset (source_offset + sz)) NeedsInitializedMemory) (\<lambda>_.
       en_emit [HcTransitionBuffers (src_barrier @ dst_barrier),
                HcCopyBufferToBuffer src_raw dst_raw source_offset destination_offset sz])))))))))))))))"


definition empty_copy :: "extent3d \<Rightarrow> bool" where
  "empty_copy sz \<longleftrightarrow> ext_width sz = 0 \<or> ext_height sz = 0 \<or> depth_or_array_layers sz = 0"

definition depth_copies_supported :: "device \<Rightarrow> texture_format \<Rightarrow> transfer_error + unit" where
  "depth_copies_supported dev f =
    (if is_depth_stencil_format f
     then map_err TeMissingDownlevelFlags (require_downlevel_flags dev df_depth_texture_and_buffer_copies) else Inr ())"

text \<open>One region per layer, each further by the stride in the buffer.\<close>

definition buffer_texture_regions ::
  "texel_copy_buffer_layout \<Rightarrow> texture_copy_base \<Rightarrow> copy_extent \<Rightarrow> u64 \<Rightarrow> u32 \<Rightarrow> buffer_texture_copy list" where
  "buffer_texture_regions layout base hal_copy_size bytes_per_array_layer layer_count =
    map (\<lambda>i. \<lparr>btc_layout = layout\<lparr>tbl_offset := tbl_offset layout + of_nat i * bytes_per_array_layer\<rparr>,
              btc_base = base\<lparr>tcb_array_layer := tcb_array_layer base + of_nat i\<rparr>,
              btc_size = hal_copy_size\<rparr>) [0..<unat layer_count]"

definition copy_buffer_to_texture ::
  "device \<Rightarrow> buffer_state \<Rightarrow> texel_copy_buffer_layout \<Rightarrow> texture \<Rightarrow> texel_copy_texture_info \<Rightarrow> extent3d
   \<Rightarrow> (command_error, unit) enc" where
  "copy_buffer_to_texture dev src layout dst info copy_size =
    (let desc = tex_desc dst; si = gb_index (bst_buffer src) in
     en_bind (en_lift (map_err CmDevice (texture_same_device dev dst))) (\<lambda>_.
     en_bind (en_lift (map_err CmDevice (buffer_same_device dev src))) (\<lambda>_.
     en_bind (en_lift (map_err CmTransfer (validate_texture_copy_range info desc CopyDestination copy_size)))
       (\<lambda>(hal_copy_size, layer_count).
     en_bind (en_lift (map_err CmTransfer (extract_texture_selector info copy_size dst))) (\<lambda>(dst_range, dst_base).
     en_bind (en_lift (map_err CmDestroyed (buffer_try_raw src))) (\<lambda>src_raw.
     en_bind (en_lift (buffer_usage_checked src bus_copy_src)) (\<lambda>_.
     en_bind (en_lift (map_err CmDestroyed (texture_try_raw dst))) (\<lambda>dst_raw.
     en_bind (en_lift (texture_usage_checked dst tu_copy_dst)) (\<lambda>_.
     en_bind (en_lift (map_err CmTransfer (validate_texture_copy_dst_format (td_format desc) (tci_aspect info)))) (\<lambda>_.
     en_bind (en_panic (validate_texture_buffer_copy info (tcb_aspect dst_base) desc layout True)) (\<lambda>r.
     en_bind (en_lift (map_err CmTransfer r)) (\<lambda>_.
     en_bind (en_panic (validate_linear_texture_data layout (td_format desc) (tci_aspect info)
                          (gb_size (bst_buffer src)) CopySource copy_size)) (\<lambda>r.
     en_bind (en_lift (map_err CmTransfer r)) (\<lambda>(required_bytes, bytes_per_array_layer, is_contiguous).
     en_bind (en_lift (map_err CmTransfer (depth_copies_supported dev (td_format desc)))) (\<lambda>_.
     if empty_copy copy_size then en_lift (Inr ())
     else
       en_bind (en_map_err CmTransfer (handle_dst_texture_init dev info copy_size dst)) (\<lambda>_.
       en_bind (en_use_buffer si bu_copy_src) (\<lambda>src_pending.
       en_bind (en_panic (buffer_barriers src src_pending)) (\<lambda>src_barrier.
       en_bind (en_use_texture dst dst_range tx_copy_dst) (\<lambda>dst_pending.
       en_bind (en_panic (texture_barriers dst dst_pending)) (\<lambda>dst_barrier.
       en_bind (handle_buffer_init src layout CopySource required_bytes is_contiguous) (\<lambda>_.
       en_emit [HcTransitionTextures dst_barrier, HcTransitionBuffers src_barrier,
                HcCopyBufferToTexture (Some src_raw) dst_raw
                  (buffer_texture_regions layout dst_base hal_copy_size bytes_per_array_layer layer_count)])))))))))))))))))))))"

definition copy_texture_to_buffer ::
  "device \<Rightarrow> texture \<Rightarrow> texel_copy_texture_info \<Rightarrow> buffer_state \<Rightarrow> texel_copy_buffer_layout \<Rightarrow> extent3d
   \<Rightarrow> (command_error, unit) enc" where
  "copy_texture_to_buffer dev src info dst layout copy_size =
    (let desc = tex_desc src; di = gb_index (bst_buffer dst) in
     en_bind (en_lift (map_err CmDevice (texture_same_device dev src))) (\<lambda>_.
     en_bind (en_lift (map_err CmDevice (buffer_same_device dev dst))) (\<lambda>_.
     en_bind (en_lift (map_err CmTransfer (validate_texture_copy_range info desc CopySource copy_size)))
       (\<lambda>(hal_copy_size, layer_count).
     en_bind (en_lift (map_err CmTransfer (extract_texture_selector info copy_size src))) (\<lambda>(src_range, src_base).
     en_bind (en_lift (map_err CmDestroyed (texture_try_raw src))) (\<lambda>src_raw.
     en_bind (en_lift (texture_usage_checked src tu_copy_src)) (\<lambda>_.
     en_bind (en_lift (ensure (\<not> tci_mip_level info \<ge> td_mip_level_count desc)
       (CmTransfer (TeInvalidMipLevel (tci_mip_level info) (td_mip_level_count desc))))) (\<lambda>_.
     en_bind (en_lift (map_err CmTransfer (validate_texture_copy_src_format (td_format desc) (tci_aspect info)))) (\<lambda>_.
     en_bind (en_panic (validate_texture_buffer_copy info (tcb_aspect src_base) desc layout True)) (\<lambda>r.
     en_bind (en_lift (map_err CmTransfer r)) (\<lambda>_.
     en_bind (en_panic (validate_linear_texture_data layout (td_format desc) (tci_aspect info)
                          (gb_size (bst_buffer dst)) CopyDestination copy_size)) (\<lambda>r.
     en_bind (en_lift (map_err CmTransfer r)) (\<lambda>(required_bytes, bytes_per_array_layer, is_contiguous).
     en_bind (en_lift (map_err CmTransfer (depth_copies_supported dev (td_format desc)))) (\<lambda>_.
     en_bind (en_lift (map_err CmDestroyed (buffer_try_raw dst))) (\<lambda>dst_raw.
     en_bind (en_lift (buffer_usage_checked dst bus_copy_dst)) (\<lambda>_.
     if empty_copy copy_size then en_lift (Inr ())
     else
       en_bind (en_map_err CmTransfer (handle_src_texture_init dev info copy_size src)) (\<lambda>_.
       en_bind (en_use_texture src src_range tx_copy_src) (\<lambda>src_pending.
       en_bind (en_panic (texture_barriers src src_pending)) (\<lambda>src_barrier.
       en_bind (en_use_buffer di bu_copy_dst) (\<lambda>dst_pending.
       en_bind (en_panic (buffer_barriers dst dst_pending)) (\<lambda>dst_barrier.
       en_bind (handle_buffer_init dst layout CopyDestination required_bytes is_contiguous) (\<lambda>_.
       en_emit [HcTransitionBuffers dst_barrier, HcTransitionTextures src_barrier,
                HcCopyTextureToBuffer src_raw dst_raw
                  (buffer_texture_regions layout src_base hal_copy_size bytes_per_array_layer layer_count)]))))))))))))))))))))))"

section \<open>Copies between textures\<close>

definition texture_regions ::
  "texture_copy_base \<Rightarrow> texture_copy_base \<Rightarrow> copy_extent \<Rightarrow> u32 \<Rightarrow> texture_copy list" where
  "texture_regions src_base dst_base hal_copy_size layer_count =
    map (\<lambda>i. \<lparr>tcp_src = src_base\<lparr>tcb_array_layer := tcb_array_layer src_base + of_nat i\<rparr>,
              tcp_dst = dst_base\<lparr>tcb_array_layer := tcb_array_layer dst_base + of_nat i\<rparr>,
              tcp_size = hal_copy_size\<rparr>) [0..<unat layer_count]"

definition with_aspect :: "format_aspects \<Rightarrow> texture_copy \<Rightarrow> texture_copy" where
  "with_aspect a r = r\<lparr>tcp_src := (tcp_src r)\<lparr>tcb_aspect := a\<rparr>, tcp_dst := (tcp_dst r)\<lparr>tcb_aspect := a\<rparr>\<rparr>"

definition subsampled_base :: "u32 \<Rightarrow> u32 \<Rightarrow> texture_copy_base \<Rightarrow> texture_copy_base" where
  "subsampled_base w h b = b\<lparr>tcb_origin := (tcb_origin b)\<lparr>org_x := org_x (tcb_origin b) div w, org_y := org_y (tcb_origin b) div h\<rparr>\<rparr>"

text \<open>\<open>None\<close> is the panic of \<open>expect\<close> or of the factors.\<close>

definition plane_region :: "texture_format \<Rightarrow> texture_copy \<Rightarrow> u32 \<Rightarrow> texture_copy option" where
  "plane_region dst_format region plane = do {
     plane_aspect \<leftarrow> from_plane plane;
     (w, h) \<leftarrow> subsampling_factors dst_format (Some plane);
     let r = with_aspect (format_aspects_new dst_format plane_aspect) region;
     Some \<lparr>tcp_src = subsampled_base w h (tcp_src r), tcp_dst = subsampled_base w h (tcp_dst r),
           tcp_size = (tcp_size r)\<lparr>ce_width := ce_width (tcp_size r) div w, ce_height := ce_height (tcp_size r) div h\<rparr>\<rparr> }"

definition aspect_regions :: "texture_format \<Rightarrow> format_aspects \<Rightarrow> texture_copy list \<Rightarrow> texture_copy list option" where
  "aspect_regions dst_format dst_aspect regions =
    (if dst_aspect = fa_depth_stencil then
       Some (concat (map (\<lambda>r. [with_aspect fa_depth r, with_aspect fa_stencil r]) regions))
     else case planes dst_format of
       Some plane_count \<Rightarrow>
         map_option concat (those (map (\<lambda>r. those (map (plane_region dst_format r) (plane_indices plane_count))) regions))
     | None \<Rightarrow> Some regions)"

definition check_texture_pair ::
  "texture \<Rightarrow> texel_copy_texture_info \<Rightarrow> texture \<Rightarrow> texel_copy_texture_info \<Rightarrow> extent3d
   \<Rightarrow> transfer_error + copy_extent \<times> u32 \<times> (texture_selector \<times> texture_copy_base) \<times> (texture_selector \<times> texture_copy_base)" where
  "check_texture_pair src src_info dst dst_info copy_size =
    (let sd = tex_desc src; dd = tex_desc dst in
     and_then (ensure (\<not> remove_srgb_suffix (td_format sd) \<noteq> remove_srgb_suffix (td_format dd))
                 (TeTextureFormatsNotCopyCompatible (td_format sd) (td_format dd))) (\<lambda>_.
     and_then (validate_texture_copy_range src_info sd CopySource copy_size) (\<lambda>(src_copy_size, layer_count).
     and_then (validate_texture_copy_range dst_info dd CopyDestination copy_size) (\<lambda>(dst_copy_size, _).
     and_then (if tex_index src = tex_index dst
               then validate_copy_within_same_texture src_info dst_info (td_format sd) layer_count
               else Inr ()) (\<lambda>_.
     and_then (extract_texture_selector src_info copy_size src) (\<lambda>(src_range, src_base).
     and_then (extract_texture_selector dst_info copy_size dst) (\<lambda>(dst_range, dst_base).
     and_then (ensure (\<not> tcb_aspect src_base \<noteq> format_aspects_from (td_format sd)) TeCopySrcMissingAspects) (\<lambda>_.
     and_then (ensure (\<not> tcb_aspect dst_base \<noteq> format_aspects_from (td_format dd)) TeCopyDstMissingAspects) (\<lambda>_.
     and_then (ensure (\<not> td_sample_count sd \<noteq> td_sample_count dd)
                 (TeSampleCountNotEqual (td_sample_count sd) (td_sample_count dd))) (\<lambda>_.
     Inr (\<lparr>ce_width = min (ce_width src_copy_size) (ce_width dst_copy_size),
           ce_height = min (ce_height src_copy_size) (ce_height dst_copy_size),
           ce_depth = min (ce_depth src_copy_size) (ce_depth dst_copy_size)\<rparr>,
          layer_count, (src_range, src_base), (dst_range, dst_base))))))))))))"

text \<open>An \<open>ArrayVec\<close> of a capacity; collecting more elements panics.\<close>

definition array_vec :: "nat \<Rightarrow> 'a list \<Rightarrow> 'a list option" where
  "array_vec capacity xs = (if length xs \<le> capacity then Some xs else None)"

definition copy_texture_to_texture ::
  "device \<Rightarrow> texture \<Rightarrow> texel_copy_texture_info \<Rightarrow> texture \<Rightarrow> texel_copy_texture_info \<Rightarrow> extent3d
   \<Rightarrow> (command_error, unit) enc" where
  "copy_texture_to_texture dev src src_info dst dst_info copy_size =
     en_bind (en_lift (map_err CmDevice (texture_same_device dev src))) (\<lambda>_.
     en_bind (en_lift (map_err CmDevice (texture_same_device dev dst))) (\<lambda>_.
     en_bind (en_lift (map_err CmTransfer (check_texture_pair src src_info dst dst_info copy_size)))
       (\<lambda>(hal_copy_size, layer_count, (src_range, src_base), (dst_range, dst_base)).
     en_bind (en_lift (map_err CmDestroyed (texture_try_raw src))) (\<lambda>src_raw.
     en_bind (en_lift (texture_usage_checked src tu_copy_src)) (\<lambda>_.
     en_bind (en_lift (map_err CmDestroyed (texture_try_raw dst))) (\<lambda>dst_raw.
     en_bind (en_lift (texture_usage_checked dst tu_copy_dst)) (\<lambda>_.
     if empty_copy copy_size then en_lift (Inr ())
     else
       en_bind (en_map_err CmTransfer (handle_src_texture_init dev src_info copy_size src)) (\<lambda>_.
       en_bind (en_map_err CmTransfer (handle_dst_texture_init dev dst_info copy_size dst)) (\<lambda>_.
       en_bind (en_use_texture src src_range tx_copy_src) (\<lambda>src_pending.
       en_bind (en_panic (texture_barriers src src_pending \<bind> array_vec 2)) (\<lambda>src_barriers.
       en_bind (en_use_texture dst dst_range tx_copy_dst) (\<lambda>dst_pending.
       en_bind (en_panic (texture_barriers dst dst_pending \<bind> (\<lambda>bs. array_vec 2 (src_barriers @ bs)))) (\<lambda>barriers.
       en_bind (en_panic (aspect_regions (td_format (tex_desc dst)) (tcb_aspect dst_base)
                  (texture_regions src_base dst_base hal_copy_size layer_count))) (\<lambda>regions.
       en_emit [HcTransitionTextures barriers, HcCopyTextureToTexture src_raw dst_raw regions]))))))))))))))"

section \<open>A list of commands\<close>

datatype transfer_command =
  CopyBufferToBuffer nat u64 nat u64 "u64 option"
| CopyBufferToTexture nat texel_copy_buffer_layout nat texel_copy_texture_info extent3d
| CopyTextureToBuffer nat texel_copy_texture_info nat texel_copy_buffer_layout extent3d
| CopyTextureToTexture nat texel_copy_texture_info nat texel_copy_texture_info extent3d
| ClearBufferCommand nat u64 "u64 option"
| ClearTextureCommand nat image_subresource_range

text \<open>The resources a command names are those of the functions \<open>bufs\<close> and \<open>texs\<close>.\<close>

definition encode_command ::
  "device \<Rightarrow> (nat \<Rightarrow> buffer_state) \<Rightarrow> (nat \<Rightarrow> texture) \<Rightarrow> transfer_command \<Rightarrow> (command_error, unit) enc" where
  "encode_command dev bufs texs c =
    (case c of
       CopyBufferToBuffer src src_offset dst dst_offset sz \<Rightarrow>
         copy_buffer_to_buffer dev (bufs src) src_offset (bufs dst) dst_offset sz
     | CopyBufferToTexture src layout dst info sz \<Rightarrow> copy_buffer_to_texture dev (bufs src) layout (texs dst) info sz
     | CopyTextureToBuffer src info dst layout sz \<Rightarrow> copy_texture_to_buffer dev (texs src) info (bufs dst) layout sz
     | CopyTextureToTexture src src_info dst dst_info sz \<Rightarrow>
         copy_texture_to_texture dev (texs src) src_info (texs dst) dst_info sz
     | ClearBufferCommand dst offset sz \<Rightarrow> en_map_err CmClear (clear_buffer dev (bufs dst) offset sz)
     | ClearTextureCommand dst r \<Rightarrow> en_map_err CmClear (clear_texture_cmd dev (texs dst) r))"

fun encode_commands ::
  "device \<Rightarrow> (nat \<Rightarrow> buffer_state) \<Rightarrow> (nat \<Rightarrow> texture) \<Rightarrow> transfer_command list \<Rightarrow> (command_error, unit) enc" where
  "encode_commands dev bufs texs [] = en_lift (Inr ())"
| "encode_commands dev bufs texs (c # cs) =
     en_bind (encode_command dev bufs texs c) (\<lambda>_. encode_commands dev bufs texs cs)"

end
