(* ===== verification/CopyBounds.thy ===== *)
theory CopyBounds
  imports Copies
begin

section \<open>Invariants of an encoding\<close>

definition en_keeps :: "(encoding_state \<Rightarrow> bool) \<Rightarrow> ('e, 'a) enc \<Rightarrow> bool" where
  "en_keeps P m \<longleftrightarrow> (\<forall>s r s'. P s \<longrightarrow> m s = Some (r, s') \<longrightarrow> P s')"

lemma en_keepsD: "en_keeps P m \<Longrightarrow> P s \<Longrightarrow> m s = Some (r, s') \<Longrightarrow> P s'"
  by (auto simp: en_keeps_def)

lemma en_keeps_lift: "en_keeps P (en_lift r)"
  by (simp add: en_keeps_def en_lift_def)

lemma en_keeps_bind:
  assumes "en_keeps P m" and "\<And>a. en_keeps P (f a)"
  shows "en_keeps P (en_bind m f)"
proof (unfold en_keeps_def, intro allI impI)
  fix s r s'
  assume P: "P s" and run: "en_bind m f s = Some (r, s')"
  from run obtain q u where m: "m s = Some (q, u)" by (auto simp: en_bind_def split: option.splits)
  have "P u" by (rule en_keepsD [OF assms(1) P m])
  with run m show "P s'"
    by (cases q) (auto simp: en_bind_def intro: en_keepsD [OF assms(2)])
qed

text \<open>A check passes its result on, a possible panic its value.\<close>

lemma en_keeps_check:
  assumes "\<And>a. r = Inr a \<Longrightarrow> en_keeps P (f a)"
  shows "en_keeps P (en_bind (en_lift r) f)"
  using assms by (cases r) (auto simp: en_keeps_def en_bind_def en_lift_def)

lemma en_keeps_panic:
  assumes "\<And>a. x = Some a \<Longrightarrow> en_keeps P (f a)"
  shows "en_keeps P (en_bind (en_panic x) f)"
  using assms by (cases x) (auto simp: en_keeps_def en_bind_def en_panic_def)

lemma en_keeps_map_err: "en_keeps P m \<Longrightarrow> en_keeps P (en_map_err f m)"
  unfolding en_keeps_def en_map_err_def by fastforce

lemma en_keeps_if: "(b \<Longrightarrow> en_keeps P m) \<Longrightarrow> (\<not> b \<Longrightarrow> en_keeps P m') \<Longrightarrow> en_keeps P (if b then m else m')"
  by simp

section \<open>Commands that stay inside\<close>

definition texture_small :: "texture_descriptor \<Rightarrow> bool" where
  "texture_small d \<longleftrightarrow> unat (ext_width (td_size d)) \<le> 2 ^ 14 \<and> unat (ext_height (td_size d)) \<le> 2 ^ 14"

text \<open>
  A command touches only bytes of its buffers and texels of its textures. The zero buffer stands
  behind \<open>None\<close>; a render pass that clears has nothing to address.
\<close>

definition region_in_sized ::
  "texture_descriptor \<Rightarrow> nat \<Rightarrow> buffer_texture_copy \<Rightarrow> bool" where
  "region_in_sized d buffer_size r \<longleftrightarrow>
     region_in_texture d (btc_base r) (btc_size r)
     \<and> (case fa_map (tcb_aspect (btc_base r)) of
          None \<Rightarrow> False
        | Some a \<Rightarrow> (case block_copy_size (td_format d) (Some a) of
                      None \<Rightarrow> False | Some n \<Rightarrow> region_in_buffer (td_format d) n buffer_size r))"

fun command_inside :: "(nat \<Rightarrow> buffer_state) \<Rightarrow> (nat \<Rightarrow> texture) \<Rightarrow> hal_command \<Rightarrow> bool" where
  "command_inside bufs texs (HcClearBuffer b rg) \<longleftrightarrow> rstart rg < rend rg \<and> rend rg \<le> gb_size (bst_buffer (bufs b))"
| "command_inside bufs texs (HcCopyBufferToBuffer src dst src_offset dst_offset sz) \<longleftrightarrow>
     src \<noteq> dst \<and> unat src_offset + unat sz \<le> unat (gb_size (bst_buffer (bufs src)))
     \<and> unat dst_offset + unat sz \<le> unat (gb_size (bst_buffer (bufs dst)))"
| "command_inside bufs texs (HcCopyBufferToTexture src dst regions) \<longleftrightarrow>
     (\<forall>r \<in> set regions. region_in_sized (tex_desc (texs dst))
        (case src of None \<Rightarrow> unat ZERO_BUFFER_SIZE | Some b \<Rightarrow> unat (gb_size (bst_buffer (bufs b)))) r)"
| "command_inside bufs texs (HcCopyTextureToBuffer src dst regions) \<longleftrightarrow>
     (\<forall>r \<in> set regions. region_in_sized (tex_desc (texs src)) (unat (gb_size (bst_buffer (bufs dst)))) r)"
| "command_inside bufs texs (HcCopyTextureToTexture src dst regions) \<longleftrightarrow>
     (\<forall>r \<in> set regions. region_in_texture (tex_desc (texs src)) (tcp_src r) (tcp_size r)
        \<and> region_in_texture (tex_desc (texs dst)) (tcp_dst r) (tcp_size r))"
| "command_inside bufs texs c \<longleftrightarrow> True"

definition discard_inside :: "(nat \<Rightarrow> texture) \<Rightarrow> texture_surface_discard \<Rightarrow> bool" where
  "discard_inside texs d \<longleftrightarrow> sd_mip_level d < td_mip_level_count (tex_desc (texs (sd_texture d)))
     \<and> sd_layer d < array_layer_count (tex_desc (texs (sd_texture d)))"

definition encoding_inside :: "(nat \<Rightarrow> buffer_state) \<Rightarrow> (nat \<Rightarrow> texture) \<Rightarrow> encoding_state \<Rightarrow> bool" where
  "encoding_inside bufs texs s \<longleftrightarrow>
     (\<forall>c \<in> set (en_commands s). command_inside bufs texs c)
     \<and> (\<forall>d \<in> set (discards (en_texture_actions s)). discard_inside texs d)"

definition resources_ok :: "device \<Rightarrow> (nat \<Rightarrow> buffer_state) \<Rightarrow> (nat \<Rightarrow> texture) \<Rightarrow> bool" where
  "resources_ok dev bufs texs \<longleftrightarrow>
     0 < unat (dev_copy_pitch dev) \<and> unat (dev_copy_pitch dev) \<le> 256
     \<and> (\<forall>b. gb_index (bst_buffer (bufs b)) = b)
     \<and> (\<forall>t. tex_index (texs t) = t \<and> texture_small (tex_desc (texs t))
          \<and> tex_full_range (texs t) = \<lparr>sel_mips = Range 0 (td_mip_level_count (tex_desc (texs t))),
                                      sel_layers = Range 0 (array_layer_count (tex_desc (texs t)))\<rparr>)"

lemma keeps_emit:
  "(\<And>c. c \<in> set cs \<Longrightarrow> command_inside bufs texs c) \<Longrightarrow> en_keeps (encoding_inside bufs texs) (en_emit cs)"
  by (auto simp: en_keeps_def en_emit_def encoding_inside_def)

lemma keeps_use_buffer: "en_keeps (encoding_inside bufs texs) (en_use_buffer b use)"
  by (auto simp: en_keeps_def en_use_buffer_def encoding_inside_def)

lemma keeps_use_texture: "en_keeps (encoding_inside bufs texs) (en_use_texture t sel use)"
  by (auto simp: en_keeps_def en_use_texture_def encoding_inside_def)

lemma keeps_init_buffer: "en_keeps (encoding_inside bufs texs) (en_init_buffer b rg kind)"
  by (auto simp: en_keeps_def en_init_buffer_def encoding_inside_def)

lemmas en_rules = en_keeps_check en_keeps_panic en_keeps_bind en_keeps_map_err en_keeps_if en_keeps_lift
  keeps_use_buffer keeps_use_texture keeps_init_buffer keeps_emit

lemma keeps_handle_buffer_init:
  "en_keeps (encoding_inside bufs texs) (handle_buffer_init b layout direction n contiguous)"
  unfolding handle_buffer_init_def Let_def by (intro en_rules)

subsection \<open>Clears\<close>

lemma clear_buffer_rangeD:
  assumes "clear_buffer_range n offset size_opt = Inr rg"
  shows "rstart rg \<le> rend rg" and "rend rg \<le> n"
proof -
  obtain sz e where "checked_add offset sz = Some e" "e \<le> n" "rg = Range offset e"
    using assms by (auto simp: clear_buffer_range_def Let_def and_then_Inr ok_or_Inr)
  then show "rstart rg \<le> rend rg" "rend rg \<le> n" by (auto simp: checked_add_Some word_le_nat_alt)
qed

lemma keeps_clear_buffer:
  assumes "resources_ok dev bufs texs"
  shows "en_keeps (encoding_inside bufs texs) (clear_buffer dev (bufs b) offset size_opt)"
proof -
  have i: "gb_index (bst_buffer (bufs b)) = b" using assms by (simp add: resources_ok_def)
  show ?thesis
    unfolding clear_buffer_def
    by (intro en_rules) (auto simp: i buffer_try_raw_def order.strict_iff_order dest: clear_buffer_rangeD split: if_splits)
qed

lemma set_map_snd_product: "x \<in> set (List.product xs ys) \<Longrightarrow> fst x \<in> set xs \<and> snd x \<in> set ys"
  by auto

lemma clear_passes_inside:
  "clear_passes dev t is_color ms = Some (r, cs) \<Longrightarrow> c \<in> set cs \<Longrightarrow> command_inside bufs texs c"
  by (induction ms arbitrary: r cs) (auto split: option.splits bind_splits prod.splits)

lemma fa_map_color: "fa_map fa_color = Some AspectAll"
  by (simp add: fa_map_def)

lemma block_copy_size_all:
  "\<not> is_depth_stencil_format f \<Longrightarrow> \<not> is_multi_planar_format f \<Longrightarrow> block_copy_size f (Some AspectAll) = block_copy_size f None"
  by (cases f) (auto simp: block_copy_size_def)


lemma clear_regions_aspect: "r \<in> set (clear_regions rg C R) \<Longrightarrow> tcb_aspect (btc_base r) = fa_color"
  by (auto simp: clear_regions_def clear_piece_def clear_region_def)

lemma zero_copies_inside:
  assumes small: "texture_small d" and pitch: "0 < unat pitch" "unat pitch \<le> 256"
    and rg: "rend (mip_range rg) \<le> td_mip_level_count d" "rend (layer_range rg) \<le> array_layer_count d"
    and run: "clear_texture_via_buffer_copies d pitch rg idx = Some cs"
    and r: "HcCopyBufferToTexture src dst regions \<in> set cs" "r \<in> set regions"
  shows "src = None \<and> dst = idx \<and> region_in_sized d (unat ZERO_BUFFER_SIZE) r"
proof -
  have f: "\<not> is_depth_stencil_format (td_format d)" "\<not> is_multi_planar_format (td_format d)"
    using run r(1) by (auto simp: clear_texture_via_buffer_copies_def split: if_splits)
  obtain S C R where ok: "pieces_ok d pitch rg S C R"
    and cs: "cs = [HcCopyBufferToTexture None idx (clear_regions rg C R)]"
    using clear_pieces [OF f _ _ pitch rg(1), of idx] small run by (auto simp: texture_small_def)
  then have r': "r \<in> set (clear_regions rg C R)" using r by simp
  obtain n where n: "block_copy_size (td_format d) None = Some n" using color_block_size [OF f] by blast
  show ?thesis
    using clear_regions_inside(1,3) [OF ok rg(2) f(2) r'] clear_regions_aspect [OF r'] n cs r(1) block_copy_size_all [OF f]
    by (simp add: region_in_sized_def fa_map_color)
qed

lemma clear_commands_inside:
  assumes ok: "resources_ok dev bufs texs"
    and rg: "rend (mip_range rg) \<le> td_mip_level_count (tex_desc (texs t))"
      "rend (layer_range rg) \<le> array_layer_count (tex_desc (texs t))"
    and run: "clear_commands dev (texs t) rg = Some (r, cs)" and c: "c \<in> set cs"
  shows "command_inside bufs texs c"
proof (cases "tex_clear_mode (texs t)")
  case ClearBufferCopy
  then have run': "clear_texture_via_buffer_copies (tex_desc (texs t)) (ucast (dev_copy_pitch dev)) rg t = Some cs"
    using run ok by (auto simp: clear_commands_def resources_ok_def)
  have p: "unat (ucast (dev_copy_pitch dev) :: u32) = unat (dev_copy_pitch dev)"
    using ok by (simp add: resources_ok_def unsigned_ucast_eq take_bit_nat_eq_self)
  obtain src dst regions where cc: "c = HcCopyBufferToTexture src dst regions"
    using run' c by (auto simp: clear_texture_via_buffer_copies_def split: if_splits)
  have "src = None \<and> dst = t \<and> region_in_sized (tex_desc (texs t)) (unat ZERO_BUFFER_SIZE) r" if "r \<in> set regions" for r
    using zero_copies_inside [OF _ _ _ rg run' c [unfolded cc] that] ok p by (simp add: resources_ok_def)
  then show ?thesis unfolding cc by fastforce
qed (use run c clear_passes_inside in \<open>auto simp: clear_commands_def clear_texture_via_render_passes_def split: if_splits\<close>)

lemma keeps_en_clear_texture:
  assumes ok: "resources_ok dev bufs texs"
    and rg: "rend (mip_range rg) \<le> td_mip_level_count (tex_desc (texs t))"
      "rend (layer_range rg) \<le> array_layer_count (tex_desc (texs t))"
  shows "en_keeps (encoding_inside bufs texs) (en_clear_texture dev (texs t) rg)"
proof (unfold en_keeps_def, intro allI impI)
  fix s r s'
  assume P: "encoding_inside bufs texs s" and run: "en_clear_texture dev (texs t) rg s = Some (r, s')"
  from run obtain tracker cs where s': "s' = s\<lparr>en_textures := tracker, en_commands := en_commands s @ cs\<rparr>"
    and run': "clear_texture dev tt_set_single (texs t) rg (en_textures s) = Some (r, tracker, cs)"
    by (auto simp: en_clear_texture_def)
  have "\<forall>c \<in> set cs. command_inside bufs texs c"
    using run' clear_commands_inside [OF ok rg]
    by (auto simp: clear_texture_def split: if_splits option.splits bind_splits prod.splits)
  with P show "encoding_inside bufs texs s'" by (auto simp: s' encoding_inside_def)
qed

lemma keeps_clear_texture_cmd:
  assumes ok: "resources_ok dev bufs texs"
  shows "en_keeps (encoding_inside bufs texs) (clear_texture_cmd dev (texs t) isr)"
proof -
  have "rend (mip_range rg) \<le> td_mip_level_count (tex_desc (texs t))"
    "rend (layer_range rg) \<le> array_layer_count (tex_desc (texs t))"
    if "clear_texture_range dev (texs t) isr = Inr rg" for rg
    using that ok by (auto simp: clear_texture_range_def Let_def and_then_Inr resources_ok_def)
  then show ?thesis
    unfolding clear_texture_cmd_def by (intro en_rules keeps_en_clear_texture [OF ok])
qed

subsection \<open>Initialisation\<close>

lemma inc_le_word: "x < y \<Longrightarrow> x + 1 \<le> (y :: u32)"
  by (simp add: inc_le)

lemma keeps_clear_surfaces:
  assumes ok: "resources_ok dev bufs texs"
    and "\<forall>d \<in> set ds. sd_texture d = t \<and> discard_inside texs d"
  shows "en_keeps (encoding_inside bufs texs) (clear_surfaces dev (texs t) ds)"
  using assms(2)
proof (induction ds)
  case (Cons d ds)
  then have IH: "en_keeps (encoding_inside bufs texs) (clear_surfaces dev (texs t) ds)" by simp
  have "rend (mip_range (surface_range d)) \<le> td_mip_level_count (tex_desc (texs t))"
    "rend (layer_range (surface_range d)) \<le> array_layer_count (tex_desc (texs t))"
    using Cons.prems by (auto simp: discard_inside_def surface_range_def inc_le_word)
  with IH show ?case by (simp add: en_keeps_bind keeps_en_clear_texture [OF ok])
qed (simp add: en_keeps_lift)

lemma keeps_handle_texture_init:
  assumes ok: "resources_ok dev bufs texs"
  shows "en_keeps (encoding_inside bufs texs) (handle_texture_init dev kind info sz (texs t))"
proof (unfold en_keeps_def, intro allI impI)
  fix s r s'
  assume P: "encoding_inside bufs texs s" and run: "handle_texture_init dev kind info sz (texs t) s = Some (r, s')"
  have t: "tex_index (texs t) = t" using ok by (simp add: resources_ok_def)
  obtain ds m where reg: "register_init_action (\<lambda>_. tex_init (texs t)) (en_texture_actions s)
      \<lparr>ti_texture = t, ti_range = \<lparr>mip_range = Range (tci_mip_level info) (tci_mip_level info + 1),
         layer_range = Range (org_z (tci_origin info)) (org_z (tci_origin info) + depth_or_array_layers sz)\<rparr>,
       ti_kind = kind\<rparr> = (ds, m)"
    by fastforce
  have run': "clear_surfaces dev (texs t) ds (s\<lparr>en_texture_actions := m\<rparr>) = Some (r, s')"
    using run by (simp add: handle_texture_init_def t Let_def reg)
  have ds: "\<forall>d \<in> set ds. sd_texture d = t \<and> discard_inside texs d" and m: "\<forall>d \<in> set (discards m). discard_inside texs d"
    using reg P by (auto simp: register_init_action_def Let_def encoding_inside_def discard_hit_def split: if_splits)
  from P m have "encoding_inside bufs texs (s\<lparr>en_texture_actions := m\<rparr>)" by (simp add: encoding_inside_def)
  with run' show "encoding_inside bufs texs s'"
    using keeps_clear_surfaces [OF ok ds] by (auto dest: en_keepsD)
qed

lemmas en_init_rules = en_keeps_map_err keeps_handle_texture_init en_rules

lemma keeps_handle_src_init:
  "resources_ok dev bufs texs \<Longrightarrow> en_keeps (encoding_inside bufs texs) (handle_src_texture_init dev info sz (texs t))"
  unfolding handle_src_texture_init_def by (intro en_init_rules)

lemma keeps_handle_dst_init:
  "resources_ok dev bufs texs \<Longrightarrow> en_keeps (encoding_inside bufs texs) (handle_dst_texture_init dev info sz (texs t))"
  unfolding handle_dst_texture_init_def by (intro en_init_rules)


section \<open>What the validation of a copy ensures\<close>

lemma check_dimensionD:
  assumes "check_dimension d side dim start sz texture_size exact = Inr u"
  shows "unat start + unat sz \<le> unat texture_size"
proof -
  have "start \<le> texture_size" "sz \<le> texture_size - start"
    using assms by (auto simp: check_dimension_def split: if_splits)
  then show ?thesis by (simp add: word_le_nat_alt unat_sub)
qed

lemma validated_range:
  assumes "validate_texture_copy_range info d side sz = Inr (e, n)"
  obtains v where "desc_mip_level_size d (tci_mip_level info) = Some v"
    "unat (org_x (tci_origin info)) + unat (ext_width sz) \<le> unat (ext_width (physical_size v (td_format d)))"
    "unat (org_y (tci_origin info)) + unat (ext_height sz) \<le> unat (ext_height (physical_size v (td_format d)))"
    "unat (org_z (tci_origin info)) + unat (depth_or_array_layers sz) \<le> unat (depth_or_array_layers v)"
    "e = \<lparr>ce_width = ext_width sz, ce_height = ext_height sz,
          ce_depth = (if td_dimension d = D3 then depth_or_array_layers sz else 1)\<rparr>"
    "n = (if td_dimension d = D2 then depth_or_array_layers sz else 1)"
proof -
  obtain bw bh where bd: "block_dimensions (td_format d) = (bw, bh)" by fastforce
  have phys: "depth_or_array_layers (physical_size v (td_format d)) = depth_or_array_layers v" for v
    by (simp add: physical_size_def bd)
  show thesis
    using assms that
    by (auto simp: validate_texture_copy_range_def bd Let_def and_then_Inr ok_or_Inr phys
        split: texture_dimension.splits dest!: check_dimensionD)
qed

lemma extracted_base:
  assumes "extract_texture_selector info sz t = Inr (sel, base)"
  shows "base = \<lparr>tcb_mip_level = tci_mip_level info,
      tcb_array_layer = (if td_dimension (tex_desc t) = D2 then org_z (tci_origin info) else 0),
      tcb_origin = \<lparr>org_x = org_x (tci_origin info), org_y = org_y (tci_origin info),
                    org_z = (if td_dimension (tex_desc t) = D3 then org_z (tci_origin info) else 0)\<rparr>,
      tcb_aspect = format_aspects_new (td_format (tex_desc t)) (tci_aspect info)\<rparr>"
  using assms by (auto simp: extract_texture_selector_def Let_def split: if_splits texture_dimension.splits)

lemma unat_layer_sum:
  "unat (b :: u32) + unat (n :: u32) \<le> unat (m :: u32) \<Longrightarrow> i < unat n \<Longrightarrow> unat (b + of_nat i) = unat b + i"
  using unsigned_less [of m, where 'a = nat] unat_of_nat_below [of i n] by (simp add: unat_word_ariths)

lemma copied_layer_inside:
  assumes v: "validate_texture_copy_range info (tex_desc t) side sz = Inr (e, n)"
    and b: "extract_texture_selector info sz t = Inr (sel, base)" and i: "i < unat n"
  shows "region_in_area (tex_desc t) 1 1 (base\<lparr>tcb_array_layer := tcb_array_layer base + of_nat i\<rparr>) e"
proof -
  let ?d = "tex_desc t"
  obtain v where vr: "desc_mip_level_size ?d (tci_mip_level info) = Some v"
    "unat (org_x (tci_origin info)) + unat (ext_width sz) \<le> unat (ext_width (physical_size v (td_format ?d)))"
    "unat (org_y (tci_origin info)) + unat (ext_height sz) \<le> unat (ext_height (physical_size v (td_format ?d)))"
    "unat (org_z (tci_origin info)) + unat (depth_or_array_layers sz) \<le> unat (depth_or_array_layers v)"
    and e: "e = \<lparr>ce_width = ext_width sz, ce_height = ext_height sz,
          ce_depth = (if td_dimension ?d = D3 then depth_or_array_layers sz else 1)\<rparr>"
    and n: "n = (if td_dimension ?d = D2 then depth_or_array_layers sz else 1)"
    using validated_range [OF v] by blast
  have layers: "depth_or_array_layers v = array_layer_count ?d" if "td_dimension ?d = D2"
    using vr(1) that by (auto simp: desc_mip_level_size_def mip_level_size_def array_layer_count_def split: if_splits)
  show ?thesis
    using vr i n layers unat_layer_sum [OF vr(4)]
    by (cases "td_dimension ?d")
      (auto simp: region_in_area_def extracted_base [OF b] e Let_def array_layer_count_def word_less_nat_alt)
qed

text \<open>A copy of one aspect addresses the whole area, unless the aspect is a subsampled plane.\<close>

definition subsampled_copy :: "texture \<Rightarrow> texel_copy_texture_info \<Rightarrow> bool" where
  "subsampled_copy t info \<longleftrightarrow> is_multi_planar_format (td_format (tex_desc t)) \<and> tci_aspect info = Plane1"

lemma copied_plane:
  assumes "fa_is_one (format_aspects_new (td_format (tex_desc t)) (tci_aspect info))" and "\<not> subsampled_copy t info"
  shows "plane_factors (td_format (tex_desc t)) (format_aspects_new (td_format (tex_desc t)) (tci_aspect info)) = Some (1, 1)"
proof -
  have "\<not> fa_is_one 24" "\<not> fa_is_one 0" by code_simp+
  with assms show ?thesis
    by (cases "tci_aspect info")
      (auto simp: subsampled_copy_def plane_factors_def format_aspects_new_def format_aspects_from_def fa_bits)
qed

lemma copy_aspect_size:
  assumes "fa_is_one (format_aspects_new f a)" and "block_copy_size f (Some a) = Some n"
  shows "\<exists>a'. fa_map (format_aspects_new f a) = Some a' \<and> block_copy_size f (Some a') = Some n"
  using assms
  by (cases f; cases a)
    (simp_all add: format_aspects_new_def format_aspects_from_def fa_map_def fa_bits fa_is_one_def
      is_power_of_two_def block_copy_size_def)


lemma validated_linear:
  assumes v: "validate_linear_texture_data layout f a buffer_size side sz = Some (Inr (bytes, stride, contiguous))"
    and n: "block_copy_size f (Some a) = Some n"
  defines "c \<equiv> copy_shape_of layout f n sz"
  shows "cs_wf c" and "unat stride = cs_image_stride c" and "unat bytes = cs_total c"
    and "unat (tbl_offset layout) + cs_total c \<le> unat buffer_size"
proof -
  obtain i where i: "get_buffer_texture_copy_info layout f a sz = Some (Inr i)"
    and bytes: "bytes = ci_bytes_in_copy i" "stride = ci_image_stride_bytes i"
    and le: "ci_offset i \<le> buffer_size" "ci_bytes_in_copy i \<le> buffer_size - ci_offset i"
    using v by (auto simp: validate_linear_texture_data_def and_then_Inr Let_def not_less)
  have m: "cs_wf c" "copy_info_matches i c"
    using copy_info_steps(1) [OF n, THEN mp, OF i] by (simp_all add: c_def)
  have off: "ci_offset i = tbl_offset layout"
    using i n by (auto simp: get_buffer_texture_copy_info_def Let_def and_then_Inr split: prod.splits)
  show "cs_wf c" "unat stride = cs_image_stride c" "unat bytes = cs_total c"
    using m by (simp_all add: bytes copy_info_matches_def)
  show "unat (tbl_offset layout) + cs_total c \<le> unat buffer_size"
    using le m by (auto simp: off copy_info_matches_def word_le_nat_alt unat_sub)
qed

text \<open>The region of one layer lies in the buffer when the whole copy does.\<close>

lemma layer_region_in_buffer:
  fixes buffer_size :: u64
  assumes wf: "cs_wf (copy_shape_of layout f n sz)" and stride: "unat stride = cs_image_stride (copy_shape_of layout f n sz)"
    and fit: "unat (tbl_offset layout) + cs_total (copy_shape_of layout f n sz) \<le> unat buffer_size"
    and i: "i < layers" and depth: "(layers = cs_layers (copy_shape_of layout f n sz) \<and> d = 1)
      \<or> (layers = 1 \<and> unat d = cs_layers (copy_shape_of layout f n sz))"
    and e: "e = \<lparr>ce_width = ext_width sz, ce_height = ext_height sz, ce_depth = d\<rparr>"
  shows "region_in_buffer f n (unat buffer_size)
    \<lparr>btc_layout = layout\<lparr>tbl_offset := tbl_offset layout + of_nat i * stride\<rparr>, btc_base = base, btc_size = e\<rparr>"
proof -
  define c where "c = copy_shape_of layout f n sz"
  define c' where "c' = copy_shape_of (layout\<lparr>tbl_offset := tbl_offset layout + of_nat i * stride\<rparr>) f n (extent_from_copy e)"
  have c': "c' = c\<lparr>cs_layers := unat d\<rparr>"
    by (cases "block_dimensions f") (simp add: c_def c'_def copy_shape_of_def extent_from_copy_def e Let_def)
  have total: "i * cs_image_stride c + cs_total c' \<le> cs_total c"
  proof -
    have "i * cs_image_stride c \<le> (cs_layers c - 1) * cs_image_stride c" if "layers = cs_layers c"
      using i that by (intro mult_le_mono1) simp
    then show ?thesis
      using i depth by (auto simp: c' c_def [symmetric] cs_total_def copy_extent_bytes_def cs_image_def cs_image_stride_def cs_row_def)
  qed
  note fit = fit [folded c_def] and wf = wf [folded c_def] and stride = stride [folded c_def]
  have room: "unat (tbl_offset layout) + i * cs_image_stride c < 2 ^ 64"
    using total fit unat_u64 [of buffer_size] by simp
  have "unat (of_nat i * stride) = i * cs_image_stride c"
  proof (cases "cs_image_stride c = 0")
    case True
    with stride have "stride = 0" by (simp add: unat_eq_0)
    with True show ?thesis by simp
  next
    case False
    then have "i * 1 \<le> i * cs_image_stride c" by (intro mult_le_mono2) simp
    with room have "i < 2 ^ 64" by linarith
    then have "unat (of_nat i :: u64) = i" by (simp add: unat_of_nat)
    with room stride show ?thesis by (simp add: unat_word_ariths)
  qed
  with room have "unat (tbl_offset layout + of_nat i * stride) = unat (tbl_offset layout) + i * cs_image_stride c"
    by (simp add: unat_word_ariths(1))
  then show ?thesis
    using wf total fit
    by (simp add: region_in_buffer_def c'_def [symmetric]) (simp add: c' cs_wf_def cs_row_def)
qed


lemma buffer_regions_inside:
  assumes v: "validate_texture_copy_range info (tex_desc t) side sz = Inr (e, k)"
    and b: "extract_texture_selector info sz t = Inr (sel, base)"
    and one: "validate_texture_buffer_copy info (tcb_aspect base) (tex_desc t) layout True = Some (Inr u)"
    and lin: "validate_linear_texture_data layout (td_format (tex_desc t)) (tci_aspect info) buffer_size bside sz
      = Some (Inr (bytes, stride, contiguous))"
    and nonempty: "\<not> empty_copy sz" and whole: "\<not> subsampled_copy t info"
    and r: "r \<in> set (buffer_texture_regions layout base e stride k)"
  shows "region_in_sized (tex_desc t) (unat buffer_size) r"
proof -
  let ?f = "td_format (tex_desc t)"
  obtain i where i: "i < unat k" and rr: "r = \<lparr>btc_layout = layout\<lparr>tbl_offset := tbl_offset layout + of_nat i * stride\<rparr>,
      btc_base = base\<lparr>tcb_array_layer := tcb_array_layer base + of_nat i\<rparr>, btc_size = e\<rparr>"
    using r by (auto simp: buffer_texture_regions_def)
  have asp: "tcb_aspect base = format_aspects_new ?f (tci_aspect info)" by (simp add: extracted_base [OF b])
  obtain n where n: "block_copy_size ?f (Some (tci_aspect info)) = Some n"
    using lin by (auto simp: validate_linear_texture_data_def get_buffer_texture_copy_info_def split: option.splits)
  obtain a' where a': "fa_map (tcb_aspect base) = Some a'" "block_copy_size ?f (Some a') = Some n"
    using copy_aspect_size [OF _ n] one asp
    by (auto simp: validate_texture_buffer_copy_def split: if_splits)
  obtain v where vr: "desc_mip_level_size (tex_desc t) (tci_mip_level info) = Some v"
    "unat (org_z (tci_origin info)) + unat (depth_or_array_layers sz) \<le> unat (depth_or_array_layers v)"
    and e: "e = \<lparr>ce_width = ext_width sz, ce_height = ext_height sz,
          ce_depth = (if td_dimension (tex_desc t) = D3 then depth_or_array_layers sz else 1)\<rparr>"
    and k: "k = (if td_dimension (tex_desc t) = D2 then depth_or_array_layers sz else 1)"
    by (rule validated_range [OF v]) (rule that, assumption+)
  have "unat (depth_or_array_layers sz) = 1" if "td_dimension (tex_desc t) = D1"
  proof -
    have "depth_or_array_layers v = 1"
      using vr(1) that by (auto simp: desc_mip_level_size_def mip_level_size_def split: if_splits)
    with vr(2) have "unat (depth_or_array_layers sz) \<le> 1" by simp
    moreover have "unat (depth_or_array_layers sz) \<noteq> 0" using nonempty by (simp add: empty_copy_def unat_eq_0)
    ultimately show ?thesis by simp
  qed
  moreover have "cs_layers (copy_shape_of layout ?f n sz) = unat (depth_or_array_layers sz)"
    by (cases "block_dimensions ?f") (simp add: copy_shape_of_def Let_def)
  ultimately have depth: "(unat k = cs_layers (copy_shape_of layout ?f n sz) \<and> ce_depth e = 1)
      \<or> (unat k = 1 \<and> unat (ce_depth e) = cs_layers (copy_shape_of layout ?f n sz))"
    by (cases "td_dimension (tex_desc t)") (simp_all add: k e)
  note l = validated_linear [OF lin n]
  have "e = \<lparr>ce_width = ext_width sz, ce_height = ext_height sz, ce_depth = ce_depth e\<rparr>" by (simp add: e)
  from layer_region_in_buffer [OF l(1,2,4) i depth this]
  have "region_in_buffer ?f n (unat buffer_size) r" unfolding rr .
  moreover have "plane_factors ?f (tcb_aspect base) = Some (1, 1)"
    using one whole unfolding asp by (intro copied_plane) (auto simp: validate_texture_buffer_copy_def split: if_splits)
  ultimately show ?thesis
    using copied_layer_inside [OF v b i] a' by (simp add: region_in_sized_def region_in_texture_def rr)
qed

section \<open>Every command that is encoded stays inside\<close>

lemma keeps_copy_buffer_to_texture:
  assumes ok: "resources_ok dev bufs texs" and whole: "\<not> subsampled_copy (texs t) info"
  shows "en_keeps (encoding_inside bufs texs) (copy_buffer_to_texture dev (bufs b) layout (texs t) info sz)"
proof -
  have i: "gb_index (bst_buffer (bufs b)) = b" "tex_index (texs t) = t" using ok by (simp_all add: resources_ok_def)
  show ?thesis
    unfolding copy_buffer_to_texture_def Let_def i case_prod_unfold
    by (intro en_rules keeps_handle_dst_init [OF ok] keeps_handle_buffer_init)
      (auto simp: buffer_try_raw_def texture_try_raw_def i intro: buffer_regions_inside [OF _ _ _ _ _ whole] split: if_splits)
qed


lemma keeps_copy_texture_to_buffer:
  assumes ok: "resources_ok dev bufs texs" and whole: "\<not> subsampled_copy (texs t) info"
  shows "en_keeps (encoding_inside bufs texs) (copy_texture_to_buffer dev (texs t) info (bufs b) layout sz)"
proof -
  have i: "gb_index (bst_buffer (bufs b)) = b" "tex_index (texs t) = t" using ok by (simp_all add: resources_ok_def)
  show ?thesis
    unfolding copy_texture_to_buffer_def Let_def i case_prod_unfold
    by (intro en_rules keeps_handle_src_init [OF ok] keeps_handle_buffer_init)
      (auto simp: buffer_try_raw_def texture_try_raw_def i intro: buffer_regions_inside [OF _ _ _ _ _ whole] split: if_splits)
qed

lemma copy_buffer_sizesD:
  assumes "copy_buffer_sizes dev src so dst d size_opt = Inr sz"
  shows "unat so + unat sz \<le> unat (gb_size src)" and "unat d + unat sz \<le> unat (gb_size dst)"
proof -
  have "so \<le> gb_size src" "sz \<le> gb_size src - so" "d \<le> gb_size dst" "sz \<le> gb_size dst - d"
    using assms by (auto simp: copy_buffer_sizes_def Let_def and_then_Inr not_less)
  then show "unat so + unat sz \<le> unat (gb_size src)" "unat d + unat sz \<le> unat (gb_size dst)"
    by (simp_all add: word_le_nat_alt unat_sub)
qed

lemma keeps_copy_buffer_to_buffer:
  assumes ok: "resources_ok dev bufs texs"
  shows "en_keeps (encoding_inside bufs texs) (copy_buffer_to_buffer dev (bufs a) so (bufs b) d size_opt)"
proof -
  have i: "gb_index (bst_buffer (bufs x)) = x" for x using ok by (simp add: resources_ok_def)
  show ?thesis
    unfolding copy_buffer_to_buffer_def Let_def i
    by (intro en_rules) (auto simp: buffer_try_raw_def i dest: copy_buffer_sizesD split: if_splits)
qed

lemma region_in_area_mono:
  assumes "region_in_area d w h b e" and "tcb_mip_level b' = tcb_mip_level b" and "tcb_array_layer b' = tcb_array_layer b"
    and "org_x (tcb_origin b') \<le> org_x (tcb_origin b)" and "org_y (tcb_origin b') \<le> org_y (tcb_origin b)"
    and "org_z (tcb_origin b') \<le> org_z (tcb_origin b)"
    and "ce_width e' \<le> ce_width e" and "ce_height e' \<le> ce_height e" and "ce_depth e' \<le> ce_depth e"
  shows "region_in_area d w h b' e'"
  using assms
  by (auto simp: region_in_area_def Let_def word_le_nat_alt split: option.splits)

text \<open>Dividing the origin and the size by the factors of a plane divides the end.\<close>

lemma div_sum_le: "a + b \<le> c \<Longrightarrow> a div n + b div n \<le> c div (n :: nat)"
  using div_add1_eq [of a b n] div_le_mono [of "a + b" c n] by linarith

lemma subsampled_area:
  assumes "region_in_area d 1 1 b e"
  shows "region_in_area d (unat w) (unat h) (subsampled_base w h b)
    (e\<lparr>ce_width := ce_width e div w, ce_height := ce_height e div h\<rparr>)"
  using assms
  by (auto simp: region_in_area_def subsampled_base_def Let_def unat_div div_sum_le split: option.splits)

lemma with_aspect_size [simp]: "tcp_size (with_aspect a r) = tcp_size r"
  by (simp add: with_aspect_def)

lemma plane_factors_suffix:
  assumes "remove_srgb_suffix g = remove_srgb_suffix f"
  shows "plane_factors g = plane_factors f"
  using planar_suffix [of f g] planar_suffix [of g f] assms by (auto simp: plane_factors_def fun_eq_iff)

lemma plane_region_inside:
  assumes "plane_region f r p = Some r'" and f: "remove_srgb_suffix (td_format d) = remove_srgb_suffix f" and f': "td_format d' = f"
    and planar: "is_multi_planar_format f"
    and ins: "region_in_area d 1 1 (tcp_src r) (tcp_size r)" "region_in_area d' 1 1 (tcp_dst r) (tcp_size r)"
  shows "region_in_texture d (tcp_src r') (tcp_size r') \<and> region_in_texture d' (tcp_dst r') (tcp_size r')"
proof -
  obtain w h a where p: "from_plane p = Some a" "subsampling_factors f (Some p) = Some (w, h)"
    and r': "r' = \<lparr>tcp_src = subsampled_base w h (tcp_src (with_aspect (format_aspects_new f a) r)),
      tcp_dst = subsampled_base w h (tcp_dst (with_aspect (format_aspects_new f a) r)),
      tcp_size = (tcp_size r)\<lparr>ce_width := ce_width (tcp_size r) div w, ce_height := ce_height (tcp_size r) div h\<rparr>\<rparr>"
    using assms(1) by (auto simp: plane_region_def Let_def split: bind_splits)
  have factors: "plane_factors f (format_aspects_new f a) = Some (unat w, unat h)"
    using p planar by (auto simp: plane_factors_def from_plane_def subsampling_factors_def format_aspects_new_def
        format_aspects_from_def fa_bits split: if_splits)
  have "region_in_area d 1 1 (tcp_src (with_aspect x r)) (tcp_size r)" "region_in_area d' 1 1 (tcp_dst (with_aspect x r)) (tcp_size r)" for x
    using ins by (auto simp: with_aspect_def elim!: region_in_area_mono)
  from this [THEN subsampled_area] factors f' plane_factors_suffix [OF f] show ?thesis
    unfolding r' by (simp add: region_in_texture_def) (simp add: subsampled_base_def with_aspect_def)
qed

lemma those_mem: "those xs = Some ys \<Longrightarrow> y \<in> set ys \<Longrightarrow> Some y \<in> set xs"
  by (induction xs arbitrary: ys) (auto split: option.splits)

lemma plane_regions_from:
  assumes "those (map (\<lambda>q. those (map (plane_region f q) ps)) regions) = Some xs" and "r \<in> set (concat xs)"
  obtains q p where "q \<in> set regions" "plane_region f q p = Some r"
proof -
  obtain ys where ys: "ys \<in> set xs" "r \<in> set ys" using assms(2) by auto
  obtain q where q: "q \<in> set regions" "those (map (plane_region f q) ps) = Some ys"
    using those_mem [OF assms(1) ys(1)] by auto
  from those_mem [OF q(2) ys(2)] obtain p where "plane_region f q p = Some r" by auto
  with q(1) show thesis by (rule that)
qed

lemma aspect_regions_inside:
  assumes run: "aspect_regions f (format_aspects_from f) regions = Some rs" and r: "r \<in> set rs"
    and f: "remove_srgb_suffix (td_format d) = remove_srgb_suffix f" and f': "td_format d' = f"
    and ins: "\<And>q. q \<in> set regions \<Longrightarrow> region_in_area d 1 1 (tcp_src q) (tcp_size q) \<and> region_in_area d' 1 1 (tcp_dst q) (tcp_size q)"
  shows "region_in_texture d (tcp_src r) (tcp_size r) \<and> region_in_texture d' (tcp_dst r) (tcp_size r)"
proof (cases "is_multi_planar_format f")
  case True
  then have aspect: "format_aspects_from f \<noteq> fa_depth_stencil" by (auto simp: format_aspects_from_def fa_bits)
  obtain n where n: "planes f = Some n" using True by (auto simp: planes_def)
  obtain xs where xs: "those (map (\<lambda>q. those (map (plane_region f q) (plane_indices n))) regions) = Some xs" "rs = concat xs"
    using run n aspect by (auto simp: aspect_regions_def)
  obtain q p where "q \<in> set regions" "plane_region f q p = Some r"
    by (rule plane_regions_from [OF xs(1), of r]) (use r xs(2) in auto)
  with ins plane_region_inside [OF _ f f' True] show ?thesis by blast
next
  case False
  then have factors: "plane_factors (td_format d) a = Some (1, 1)" "plane_factors (td_format d') a = Some (1, 1)" for a
    using plane_factors_suffix [OF f] f' by (simp_all add: plane_factors_def)
  have aspect: "region_in_area d 1 1 (tcp_src (with_aspect b q)) (tcp_size q) \<and> region_in_area d' 1 1 (tcp_dst (with_aspect b q)) (tcp_size q)"
    if "q \<in> set regions" for q b
    using ins [OF that] by (auto simp: with_aspect_def elim!: region_in_area_mono)
  have "planes f = None" using False by (simp add: is_multi_planar_format_def del: is_multi_planar_iff)
  with run r ins aspect factors show ?thesis
    by (auto simp: aspect_regions_def region_in_texture_def with_aspect_def split: if_splits)
qed

lemma texture_regions_inside:
  assumes pair: "check_texture_pair src src_info dst dst_info sz = Inr (e, k, (srange, sbase), (drange, dbase))"
    and dims: "td_dimension (tex_desc src) = td_dimension (tex_desc dst)"
    and r: "r \<in> set (texture_regions sbase dbase e k)"
  shows "region_in_area (tex_desc src) 1 1 (tcp_src r) (tcp_size r) \<and> region_in_area (tex_desc dst) 1 1 (tcp_dst r) (tcp_size r)"
proof -
  obtain es ed kd where v: "validate_texture_copy_range src_info (tex_desc src) CopySource sz = Inr (es, k)"
      "validate_texture_copy_range dst_info (tex_desc dst) CopyDestination sz = Inr (ed, kd)"
      "extract_texture_selector src_info sz src = Inr (srange, sbase)"
      "extract_texture_selector dst_info sz dst = Inr (drange, dbase)"
    and e: "e = \<lparr>ce_width = min (ce_width es) (ce_width ed), ce_height = min (ce_height es) (ce_height ed),
      ce_depth = min (ce_depth es) (ce_depth ed)\<rparr>"
    using pair by (auto simp: check_texture_pair_def Let_def and_then_Inr)
  have "k = kd" by (rule validated_range [OF v(1)], rule validated_range [OF v(2)]) (simp add: dims)
  moreover obtain i where i: "i < unat k" and rr: "r = \<lparr>tcp_src = sbase\<lparr>tcb_array_layer := tcb_array_layer sbase + of_nat i\<rparr>,
      tcp_dst = dbase\<lparr>tcb_array_layer := tcb_array_layer dbase + of_nat i\<rparr>, tcp_size = e\<rparr>"
    using r by (auto simp: texture_regions_def)
  ultimately show ?thesis
    using copied_layer_inside [OF v(1,3), of i] copied_layer_inside [OF v(2,4), of i]
    by (auto simp: rr e elim!: region_in_area_mono)
qed

lemma keeps_copy_texture_to_texture:
  assumes ok: "resources_ok dev bufs texs" and dims: "td_dimension (tex_desc (texs a)) = td_dimension (tex_desc (texs b))"
  shows "en_keeps (encoding_inside bufs texs) (copy_texture_to_texture dev (texs a) ai (texs b) bi sz)"
proof -
  have i: "tex_index (texs x) = x" for x using ok by (simp add: resources_ok_def)
  have regions: "region_in_texture (tex_desc (texs a)) (tcp_src r) (tcp_size r)
      \<and> region_in_texture (tex_desc (texs b)) (tcp_dst r) (tcp_size r)"
    if pair: "check_texture_pair (texs a) ai (texs b) bi sz = Inr p" and r: "r \<in> set rs"
      and rs: "aspect_regions (td_format (tex_desc (texs b))) (tcb_aspect (snd (snd (snd (snd p)))))
        (texture_regions (snd (fst (snd (snd p)))) (snd (snd (snd (snd p)))) (fst p) (fst (snd p))) = Some rs" for p r rs
  proof -
    obtain e k srange sbase drange dbase where p: "p = (e, k, (srange, sbase), (drange, dbase))" by (metis prod.collapse)
    have pair': "remove_srgb_suffix (td_format (tex_desc (texs a))) = remove_srgb_suffix (td_format (tex_desc (texs b)))"
      "tcb_aspect dbase = format_aspects_from (td_format (tex_desc (texs b)))"
      using pair unfolding p by (auto simp: check_texture_pair_def Let_def and_then_Inr)
    show ?thesis
      by (rule aspect_regions_inside [OF _ r pair'(1) refl])
        (use rs p pair'(2) texture_regions_inside [OF pair [unfolded p] dims] in simp_all)
  qed
  show ?thesis
    unfolding copy_texture_to_texture_def case_prod_unfold
    by (intro en_rules keeps_handle_dst_init [OF ok] keeps_handle_src_init [OF ok])
      (auto simp: texture_try_raw_def i regions split: if_splits)
qed

text \<open>
  The commands for which the checks of the code suffice: two textures of one dimension, and no copy between
  a buffer and a subsampled plane (both kinds are accepted by the code, see the end of this theory).
\<close>

definition checks_suffice :: "(nat \<Rightarrow> texture) \<Rightarrow> transfer_command \<Rightarrow> bool" where
  "checks_suffice texs c \<longleftrightarrow>
     (case c of
        CopyTextureToTexture a _ b _ _ \<Rightarrow> td_dimension (tex_desc (texs a)) = td_dimension (tex_desc (texs b))
      | CopyBufferToTexture _ _ t info _ \<Rightarrow> \<not> subsampled_copy (texs t) info
      | CopyTextureToBuffer t info _ _ _ \<Rightarrow> \<not> subsampled_copy (texs t) info
      | _ \<Rightarrow> True)"

lemma keeps_encode_command:
  assumes ok: "resources_ok dev bufs texs" and c: "checks_suffice texs c"
  shows "en_keeps (encoding_inside bufs texs) (encode_command dev bufs texs c)"
  using c
  by (cases c) (auto simp: encode_command_def checks_suffice_def keeps_copy_buffer_to_buffer [OF ok]
      keeps_copy_buffer_to_texture [OF ok] keeps_copy_texture_to_buffer [OF ok] keeps_copy_texture_to_texture [OF ok]
      intro!: en_keeps_map_err keeps_clear_buffer [OF ok] keeps_clear_texture_cmd [OF ok])

text \<open>C3: Consider textures at most \<open>2 ^ 14\<close> texels wide and high, a copy pitch of the backend from 1 to 256, and
  a list of copies and clears, valid or not, in which no copy between textures mixes dimensions and no copy
  between a buffer and a texture names a subsampled plane. The encoder receives no command that leaves
  its resources. Each region of a copy lies, with all its rows and images, inside its buffer and inside
  existing layers and one mip level of its texture, or inside the smaller area of the plane it addresses;
  each clear lies inside its buffer; a failing command leaves no stray command behind; and the clears
  inserted for discarded and partially written subresources obey the same bounds.\<close>

theorem encoded_commands_inside:
  assumes "resources_ok dev bufs texs" and "\<forall>c \<in> set cs. checks_suffice texs c"
    and "encoding_inside bufs texs s" and "encode_commands dev bufs texs cs s = Some (r, s')"
  shows "encoding_inside bufs texs s'"
proof -
  have "en_keeps (encoding_inside bufs texs) (encode_commands dev bufs texs cs)"
    using assms(2) by (induction cs) (auto intro: en_keeps_lift en_keeps_bind keeps_encode_command [OF assms(1)])
  from en_keepsD [OF this assms(3,4)] show ?thesis .
qed

definition many_buffers :: "nat \<Rightarrow> buffer_state" where
  "many_buffers b = \<lparr>bst_buffer = \<lparr>gb_index = b, gb_device = 0, gb_size = 64, gb_usage = bus_copy_src OR bus_copy_dst\<rparr>,
     bst_destroyed = False, bst_map_state = MapIdle, bst_status = new_tracker 64\<rparr>"

definition many_textures :: "nat \<Rightarrow> texture" where
  "many_textures t = two_level_texture\<lparr>tex_index := t\<rparr>"

lemma many_resources_ok: "resources_ok basic_device many_buffers many_textures"
  by (simp add: resources_ok_def many_buffers_def many_textures_def two_level_texture_def basic_device_def texture_small_def
      edge_texture_def array_layer_count_def)

lemma copied_bytes:
  "case copy_buffer_to_buffer basic_device (many_buffers 0) 0 (many_buffers 1) 8 (Some 16) fresh_encoding of
     Some (Inr _, s) \<Rightarrow> length (en_commands s) = 2 | _ \<Rightarrow> False"
  by code_simp

theorem encoded_commands_inside_witness:
  "case encode_commands basic_device many_buffers many_textures [CopyBufferToBuffer 0 0 1 8 (Some 16)] fresh_encoding of
     Some (r, s) \<Rightarrow> encoding_inside many_buffers many_textures s \<and> length (en_commands s) = 2
   | None \<Rightarrow> False"
proof -
  let ?cs = "[CopyBufferToBuffer 0 0 1 8 (Some 16)]"
  have "encoding_inside many_buffers many_textures fresh_encoding"
    by (simp add: encoding_inside_def fresh_encoding_def no_memory_actions_def)
  then have "encoding_inside many_buffers many_textures s"
    if "encode_commands basic_device many_buffers many_textures ?cs fresh_encoding = Some (r, s)" for r s
    using encoded_commands_inside [OF many_resources_ok _ _ that] by (simp add: checks_suffice_def)
  with copied_bytes show ?thesis
    by (auto simp: encode_command_def en_bind_def en_lift_def split: option.splits sum.splits)
qed

text \<open>
  A copy from the layers of a 2D texture to the slices of a 3D texture passes the checks, but the regions
  count array layers, of which the 3D texture has one.
\<close>

definition slices_texture :: texture where
  "slices_texture = two_level_texture\<lparr>tex_index := 1, tex_desc := edge_texture\<lparr>td_dimension := D3, td_mip_level_count := 1\<rparr>\<rparr>"

definition whole_level :: texel_copy_texture_info where
  "whole_level = \<lparr>tci_mip_level = 0, tci_origin = \<lparr>org_x = 0, org_y = 0, org_z = 0\<rparr>, tci_aspect = AspectAll\<rparr>"

definition first_layer :: texture_copy_base where
  "first_layer = \<lparr>tcb_mip_level = 0, tcb_array_layer = 0, tcb_origin = \<lparr>org_x = 0, org_y = 0, org_z = 0\<rparr>, tcb_aspect = fa_color\<rparr>"

lemma copy_2d_to_3d_checked:
  "check_texture_pair two_level_texture whole_level slices_texture whole_level
      \<lparr>ext_width = 12, ext_height = 8, depth_or_array_layers = 3\<rparr>
    = Inr (\<lparr>ce_width = 12, ce_height = 8, ce_depth = 1\<rparr>, 3,
           (\<lparr>sel_mips = Range 0 1, sel_layers = Range 0 3\<rparr>, first_layer),
           (\<lparr>sel_mips = Range 0 1, sel_layers = Range 0 1\<rparr>, first_layer))"
proof -
  have "fa_color AND fa_all = fa_color" "fa_color \<noteq> 0" by code_simp+
  then have "format_aspects_new Bc1RgbaUnorm AspectAll = fa_color" "format_aspects_from Bc1RgbaUnorm = fa_color"
    by (simp_all add: format_aspects_new_def format_aspects_from_def)
  with \<open>fa_color \<noteq> 0\<close> show ?thesis
    by (simp add: check_texture_pair_def slices_texture_def two_level_texture_def whole_level_def edge_texture_def
      validate_texture_copy_range_def Let_def block_dimensions_def desc_mip_level_size_def mip_level_size_def shr32_def
      physical_size_def div_ceil_def check_dimension_def extract_texture_selector_def is_multiple_of_def first_layer_def
      word_le_nat_alt word_less_nat_alt)
qed

lemma copy_2d_to_3d_outside:
  "\<exists>r \<in> set (texture_regions first_layer first_layer \<lparr>ce_width = 12, ce_height = 8, ce_depth = 1\<rparr> 3).
     \<not> region_in_texture (tex_desc slices_texture) (tcp_dst r) (tcp_size r)"
  by (simp add: texture_regions_def upt_rec region_in_texture_def region_in_area_def plane_factors_def slices_texture_def array_layer_count_def first_layer_def
      split: option.split)

text \<open>
  A copy of the size of the whole level to the chroma plane is accepted as well: the checks compare it with
  the level, and the plane is half as wide and half as high.
\<close>

definition video_texture :: texture where
  "video_texture = two_level_texture\<lparr>tex_desc := edge_texture\<lparr>td_format := NV12, td_mip_level_count := 1,
       td_size := \<lparr>ext_width = 12, ext_height = 8, depth_or_array_layers = 1\<rparr>\<rparr>,
     tex_init := \<lparr>mips = [new_tracker 1]\<rparr>, tex_full_range := \<lparr>sel_mips = Range 0 1, sel_layers = Range 0 1\<rparr>\<rparr>"

definition chroma_plane :: texel_copy_texture_info where
  "chroma_plane = whole_level\<lparr>tci_aspect := Plane1\<rparr>"

definition chroma_layout :: texel_copy_buffer_layout where
  "chroma_layout = \<lparr>tbl_offset = 0, tbl_bytes_per_row = Some 256, tbl_rows_per_image = None\<rparr>"

lemma video_level:
  "desc_mip_level_size (tex_desc video_texture) 0 = Some \<lparr>ext_width = 12, ext_height = 8, depth_or_array_layers = 1\<rparr>"
  "td_format (tex_desc video_texture) = NV12" "td_dimension (tex_desc video_texture) = D2"
  "td_sample_count (tex_desc video_texture) = 1" "array_layer_count (tex_desc video_texture) = 1"
  "physical_size \<lparr>ext_width = 12, ext_height = 8, depth_or_array_layers = 1\<rparr> NV12
     = \<lparr>ext_width = 12, ext_height = 8, depth_or_array_layers = 1\<rparr>"
  by (simp_all add: video_texture_def two_level_texture_def edge_texture_def desc_mip_level_size_def mip_level_size_def shr32_def
      physical_size_def div_ceil_def block_dimensions_def array_layer_count_def)

lemma chroma_aspect: "format_aspects_new NV12 Plane1 = fa_plane_1" "fa_plane_1 \<noteq> 0" "fa_is_one fa_plane_1"
proof -
  show "fa_is_one fa_plane_1" by code_simp
qed (simp_all add: format_aspects_new_def format_aspects_from_def fa_bits)

lemma chroma_sizes:
  "image_bytes 8 256 24 = Inr 1816" "copy_bytes 1 2048 1816 = Inr 1816" "checked_mul (256 :: u64) 8 = Some 2048"
  "div_ceil (12 :: u64) 1 = 12" "div_ceil (8 :: u64) 1 = 8"
  by (simp_all add: image_bytes_def copy_bytes_def checked_mul_def checked_sub_def checked_add_def div_ceil_def)

lemma chroma_copy_checked:
  "validate_texture_copy_range chroma_plane (tex_desc video_texture) CopyDestination
       \<lparr>ext_width = 12, ext_height = 8, depth_or_array_layers = 1\<rparr>
     = Inr (\<lparr>ce_width = 12, ce_height = 8, ce_depth = 1\<rparr>, 1)"
  "extract_texture_selector chroma_plane \<lparr>ext_width = 12, ext_height = 8, depth_or_array_layers = 1\<rparr> video_texture
     = Inr (\<lparr>sel_mips = Range 0 1, sel_layers = Range 0 1\<rparr>, first_layer\<lparr>tcb_aspect := fa_plane_1\<rparr>)"
  "validate_texture_copy_dst_format NV12 Plane1 = Inr ()"
  "validate_texture_buffer_copy chroma_plane fa_plane_1 (tex_desc video_texture) chroma_layout True = Some (Inr ())"
  "validate_linear_texture_data chroma_layout NV12 Plane1 4096 CopySource
       \<lparr>ext_width = 12, ext_height = 8, depth_or_array_layers = 1\<rparr> = Some (Inr (1816, 2048, False))"
  by (simp_all add: chroma_plane_def whole_level_def validate_texture_copy_range_def video_level block_dimensions_def
      check_dimension_def is_multiple_of_def extract_texture_selector_def chroma_aspect first_layer_def
      validate_texture_copy_dst_format_def validate_texture_buffer_copy_def block_copy_size_def chroma_layout_def
      COPY_BYTES_PER_ROW_ALIGNMENT_def validate_linear_texture_data_def get_buffer_texture_copy_info_def
      stride_or_def chroma_sizes)

lemma chroma_copy_outside:
  "\<exists>r \<in> set (buffer_texture_regions chroma_layout (first_layer\<lparr>tcb_aspect := fa_plane_1\<rparr>)
        \<lparr>ce_width = 12, ce_height = 8, ce_depth = 1\<rparr> 2048 1).
     \<not> region_in_texture (tex_desc video_texture) (btc_base r) (btc_size r)"
  by (simp add: buffer_texture_regions_def region_in_texture_def region_in_area_def plane_factors_def video_level
      first_layer_def fa_bits)

text \<open>Moving the first three slices of a 3D texture by one slice overlaps, but is accepted: the layer count is one.\<close>

definition next_slice :: texel_copy_texture_info where
  "next_slice = whole_level\<lparr>tci_origin := \<lparr>org_x = 0, org_y = 0, org_z = 1\<rparr>\<rparr>"

lemma slices_level:
  "desc_mip_level_size (tex_desc slices_texture) 0 = Some \<lparr>ext_width = 12, ext_height = 8, depth_or_array_layers = 3\<rparr>"
  "td_format (tex_desc slices_texture) = Bc1RgbaUnorm" "td_dimension (tex_desc slices_texture) = D3"
  "td_sample_count (tex_desc slices_texture) = 1"
  "physical_size \<lparr>ext_width = 12, ext_height = 8, depth_or_array_layers = 3\<rparr> Bc1RgbaUnorm
     = \<lparr>ext_width = 12, ext_height = 8, depth_or_array_layers = 3\<rparr>"
  by (simp_all add: slices_texture_def two_level_texture_def edge_texture_def desc_mip_level_size_def mip_level_size_def shr32_def
      physical_size_def div_ceil_def block_dimensions_def)

lemma overlapping_slices_checked:
  "validate_texture_copy_range whole_level (tex_desc slices_texture) side \<lparr>ext_width = 12, ext_height = 8, depth_or_array_layers = 2\<rparr>
      = Inr (\<lparr>ce_width = 12, ce_height = 8, ce_depth = 2\<rparr>, 1)"
  "validate_texture_copy_range next_slice (tex_desc slices_texture) side \<lparr>ext_width = 12, ext_height = 8, depth_or_array_layers = 2\<rparr>
      = Inr (\<lparr>ce_width = 12, ce_height = 8, ce_depth = 2\<rparr>, 1)"
  by (simp_all add: whole_level_def next_slice_def validate_texture_copy_range_def slices_level block_dimensions_def
      check_dimension_def is_multiple_of_def)

lemma overlapping_slices_accepted: "validate_copy_within_same_texture whole_level next_slice f 1 = Inr ()"
  unfolding next_slice_def whole_level_def validate_copy_within_same_texture_def Let_def by simp

text \<open>
  A partial write to the second slice of a 3D texture whose memory was never initialised: the action asks for
  layer 1, the tracker only knows layer 0, and nothing is registered.
\<close>

lemma slice_write_not_registered:
  "handle_texture_init basic_device NeedsInitializedMemory next_slice \<lparr>ext_width = 12, ext_height = 8, depth_or_array_layers = 1\<rparr>
     (slices_texture\<lparr>tex_init := \<lparr>mips = [new_tracker 1]\<rparr>\<rparr>) fresh_encoding = Some (Inr (), fresh_encoding)"
proof -
  let ?a = "\<lparr>ti_texture = 1, ti_range = \<lparr>mip_range = Range 0 1, layer_range = Range 1 2\<rparr>, ti_kind = NeedsInitializedMemory\<rparr>"
  have "texture_check_action \<lparr>mips = [new_tracker 1]\<rparr> ?a = None"
    by (simp add: texture_check_action_def new_tracker_def check_def partition_point_def vec_get_def)
  then have "register_init_action (\<lambda>_. \<lparr>mips = [new_tracker 1]\<rparr>) no_memory_actions ?a = ([], no_memory_actions)"
    by (simp add: register_init_action_def no_memory_actions_def)
  then show ?thesis
    by (simp add: handle_texture_init_def next_slice_def whole_level_def slices_texture_def fresh_encoding_def en_lift_def)
qed

text \<open>
  The barriers of a copy between textures are collected in an \<open>ArrayVec\<close> of two. After writes to the first, the
  third and the fifth layer of a texture, a copy from its five layers needs three, and panics.
\<close>

definition five_layers :: texture where
  "five_layers = two_level_texture\<lparr>tex_full_range := \<lparr>sel_mips = Range 0 1, sel_layers = Range 0 5\<rparr>\<rparr>"

definition one_layer :: "u32 \<Rightarrow> texture_selector" where
  "one_layer l = \<lparr>sel_mips = Range 0 1, sel_layers = Range l (l + 1)\<rparr>"

lemma three_barriers:
  "(do {
      (_, s) \<leftarrow> (en_use_texture five_layers (one_layer 0) tx_copy_dst :: (unit, _) enc) fresh_encoding;
      (_, s) \<leftarrow> (en_use_texture five_layers (one_layer 2) tx_copy_dst :: (unit, _) enc) s;
      (_, s) \<leftarrow> (en_use_texture five_layers (one_layer 4) tx_copy_dst :: (unit, _) enc) s;
      (r, s) \<leftarrow> (en_use_texture five_layers \<lparr>sel_mips = Range 0 1, sel_layers = Range 0 5\<rparr> tx_copy_src :: (unit, _) enc) s;
      (case r of
         Inl _ \<Rightarrow> None
       | Inr pending \<Rightarrow> map_option (\<lambda>bs. (length bs, array_vec 2 bs = None)) (texture_barriers five_layers pending)) })
   = Some (3, True)"
  by code_simp

end
