(* ===== verification/Bindings.thy ===== *)
theory Bindings
  imports Textures Buffers TextureTracker Encoding
begin

unbundle bit_operations_syntax

text \<open>
  Bind group layouts, pipeline layouts and bind groups: the types of \<open>wgpu-types/src/binding.rs\<close>, the
  counters and records of \<open>wgpu-core/src/binding_model.rs\<close>, the entry map and the pool of layouts
  (\<open>device/bgl.rs\<close>, \<open>pool.rs\<close>), and the creation of all three (\<open>device/resource.rs\<close>). The address of a
  shared layout is a number; the answer of the backend to a creation is an argument.
\<close>

section \<open>Binding types\<close>

datatype buffer_binding_type = BindUniform | BindStorage (read_only: bool)

datatype sampler_binding_type = SamplerFiltering | SamplerNonFiltering | SamplerComparison

datatype storage_texture_access = AccessWriteOnly | AccessReadOnly | AccessReadWrite | AccessAtomic

text \<open>The optional minimal size of a buffer and the optional count are never zero.\<close>

datatype binding_type =
  BtBuffer buffer_binding_type bool "u64 option"
| BtSampler sampler_binding_type
| BtTexture texture_sample_type texture_view_dimension bool
| BtStorageTexture storage_texture_access texture_format texture_view_dimension
| BtAccelerationStructure bool
| BtExternalTexture

type_synonym shader_stages = u32

definition ss_vertex :: shader_stages where "ss_vertex = push_bit 0 1"
definition ss_fragment :: shader_stages where "ss_fragment = push_bit 1 1"
definition ss_compute :: shader_stages where "ss_compute = push_bit 2 1"
definition ss_all :: shader_stages where
  "ss_all = ss_vertex OR ss_fragment OR ss_compute OR push_bit 3 1 OR push_bit 4 1 OR push_bit 5 1
     OR push_bit 6 1 OR push_bit 7 1 OR push_bit 8 1"

record layout_entry =
  le_binding :: u32
  le_visibility :: shader_stages
  le_ty :: binding_type
  le_count :: "u32 option"

definition buffer_binding_array :: features where "buffer_binding_array = wgpu_feature 9"
definition storage_resource_binding_array :: features where "storage_resource_binding_array = wgpu_feature 10"
definition texture_binding_array :: features where "texture_binding_array = wgpu_feature 8"
definition partially_bound_binding_array :: features where "partially_bound_binding_array = wgpu_feature 13"
definition vertex_writable_storage :: features where "vertex_writable_storage = wgpu_feature 22"
definition external_texture_feature :: features where "external_texture_feature = wgpu_feature 31"
definition experimental_ray_hit_vertex_return :: features where "experimental_ray_hit_vertex_return = wgpu_feature 49"
definition acceleration_structure_binding_array :: features where "acceleration_structure_binding_array = wgpu_feature 60"

section \<open>Counting bindings\<close>

text \<open>The counters of a kind for the three classic stages saturate.\<close>

record stage_counter =
  sc_vertex :: u32
  sc_fragment :: u32
  sc_compute :: u32

definition zero_counter :: stage_counter where "zero_counter = \<lparr>sc_vertex = 0, sc_fragment = 0, sc_compute = 0\<rparr>"

definition counter_add :: "shader_stages \<Rightarrow> u32 \<Rightarrow> stage_counter \<Rightarrow> stage_counter" where
  "counter_add stage n c =
    \<lparr>sc_vertex = (if contains stage ss_vertex then sat_add32 (sc_vertex c) n else sc_vertex c),
     sc_fragment = (if contains stage ss_fragment then sat_add32 (sc_fragment c) n else sc_fragment c),
     sc_compute = (if contains stage ss_compute then sat_add32 (sc_compute c) n else sc_compute c)\<rparr>"

datatype binding_zone = ZoneStage shader_stages | ZonePipeline

definition counter_max :: "stage_counter \<Rightarrow> binding_zone \<times> u32" where
  "counter_max c =
    (let max_value = max (sc_vertex c) (max (sc_fragment c) (sc_compute c));
         stage = (if max_value = sc_vertex c then ss_vertex else 0)
              OR (if max_value = sc_fragment c then ss_fragment else 0)
              OR (if max_value = sc_compute c then ss_compute else 0)
     in (ZoneStage stage, max_value))"

definition counter_merge :: "stage_counter \<Rightarrow> stage_counter \<Rightarrow> stage_counter" where
  "counter_merge c other =
    \<lparr>sc_vertex = sat_add32 (sc_vertex c) (sc_vertex other),
     sc_fragment = sat_add32 (sc_fragment c) (sc_fragment other),
     sc_compute = sat_add32 (sc_compute c) (sc_compute other)\<rparr>"

datatype max_count_kind =
  DynamicUniformBuffers | DynamicStorageBuffers | SampledTextures | Samplers | StorageBuffers
| StorageTextures | UniformBuffers | BindingArrayElements | BindingArraySamplerElements
| BindingArrayAccelerationStructureElements | AccelerationStructures

datatype max_count_error = MaxCountError max_count_kind binding_zone u32 u32

definition counter_validate :: "stage_counter \<Rightarrow> u32 \<Rightarrow> max_count_kind \<Rightarrow> max_count_error + unit" where
  "counter_validate c limit kind =
    (let (zone, n) = counter_max c in
     if limit < n then Inl (MaxCountError kind zone limit n) else Inr ())"

record count_validator =
  cv_dynamic_uniform_buffers :: u32
  cv_dynamic_storage_buffers :: u32
  cv_sampled_textures :: stage_counter
  cv_samplers :: stage_counter
  cv_storage_buffers :: stage_counter
  cv_storage_textures :: stage_counter
  cv_uniform_buffers :: stage_counter
  cv_acceleration_structures :: stage_counter
  cv_array_elements :: stage_counter
  cv_array_sampler_elements :: stage_counter
  cv_array_acceleration_structure_elements :: stage_counter
  cv_has_bindless_array :: bool

definition new_count_validator :: count_validator where
  "new_count_validator =
    \<lparr>cv_dynamic_uniform_buffers = 0, cv_dynamic_storage_buffers = 0, cv_sampled_textures = zero_counter,
     cv_samplers = zero_counter, cv_storage_buffers = zero_counter, cv_storage_textures = zero_counter,
     cv_uniform_buffers = zero_counter, cv_acceleration_structures = zero_counter, cv_array_elements = zero_counter,
     cv_array_sampler_elements = zero_counter, cv_array_acceleration_structure_elements = zero_counter,
     cv_has_bindless_array = False\<rparr>"

text \<open>The two plain counters of dynamic buffers wrap around.\<close>

definition add_array_binding :: "layout_entry \<Rightarrow> u32 \<Rightarrow> count_validator \<Rightarrow> count_validator" where
  "add_array_binding e n v =
    (let v = v\<lparr>cv_array_elements := counter_add (le_visibility e) n (cv_array_elements v), cv_has_bindless_array := True\<rparr> in
     case le_ty e of
       BtSampler _ \<Rightarrow>
         v\<lparr>cv_array_sampler_elements := counter_add (le_visibility e) n (cv_array_sampler_elements v)\<rparr>
     | BtAccelerationStructure _ \<Rightarrow>
         v\<lparr>cv_array_acceleration_structure_elements :=
             counter_add (le_visibility e) n (cv_array_acceleration_structure_elements v)\<rparr>
     | _ \<Rightarrow> v)"

definition add_single_binding :: "layout_entry \<Rightarrow> u32 \<Rightarrow> count_validator \<Rightarrow> count_validator" where
  "add_single_binding e n v =
    (let add = counter_add (le_visibility e) in
     case le_ty e of
       BtBuffer BindUniform dyn _ \<Rightarrow>
         v\<lparr>cv_uniform_buffers := add n (cv_uniform_buffers v),
           cv_dynamic_uniform_buffers := cv_dynamic_uniform_buffers v + (if dyn then n else 0)\<rparr>
     | BtBuffer (BindStorage _) dyn _ \<Rightarrow>
         v\<lparr>cv_storage_buffers := add n (cv_storage_buffers v),
           cv_dynamic_storage_buffers := cv_dynamic_storage_buffers v + (if dyn then n else 0)\<rparr>
     | BtSampler _ \<Rightarrow> v\<lparr>cv_samplers := add n (cv_samplers v)\<rparr>
     | BtTexture _ _ _ \<Rightarrow> v\<lparr>cv_sampled_textures := add n (cv_sampled_textures v)\<rparr>
     | BtStorageTexture _ _ _ \<Rightarrow> v\<lparr>cv_storage_textures := add n (cv_storage_textures v)\<rparr>
     | BtAccelerationStructure _ \<Rightarrow> v\<lparr>cv_acceleration_structures := add n (cv_acceleration_structures v)\<rparr>
     | BtExternalTexture \<Rightarrow>
         v\<lparr>cv_sampled_textures := add (n * 4) (cv_sampled_textures v), cv_samplers := add n (cv_samplers v),
           cv_uniform_buffers := add n (cv_uniform_buffers v)\<rparr>)"

definition add_binding :: "layout_entry \<Rightarrow> count_validator \<Rightarrow> count_validator" where
  "add_binding e v =
    (case le_count e of Some n \<Rightarrow> add_array_binding e n v | None \<Rightarrow> add_single_binding e 1 v)"

definition validator_merge :: "count_validator \<Rightarrow> count_validator \<Rightarrow> count_validator" where
  "validator_merge v w =
    v\<lparr>cv_dynamic_uniform_buffers := cv_dynamic_uniform_buffers v + cv_dynamic_uniform_buffers w,
      cv_dynamic_storage_buffers := cv_dynamic_storage_buffers v + cv_dynamic_storage_buffers w,
      cv_sampled_textures := counter_merge (cv_sampled_textures v) (cv_sampled_textures w),
      cv_samplers := counter_merge (cv_samplers v) (cv_samplers w),
      cv_storage_buffers := counter_merge (cv_storage_buffers v) (cv_storage_buffers w),
      cv_storage_textures := counter_merge (cv_storage_textures v) (cv_storage_textures w),
      cv_uniform_buffers := counter_merge (cv_uniform_buffers v) (cv_uniform_buffers w),
      cv_acceleration_structures := counter_merge (cv_acceleration_structures v) (cv_acceleration_structures w),
      cv_array_elements := counter_merge (cv_array_elements v) (cv_array_elements w),
      cv_array_sampler_elements := counter_merge (cv_array_sampler_elements v) (cv_array_sampler_elements w),
      cv_array_acceleration_structure_elements :=
        counter_merge (cv_array_acceleration_structure_elements v) (cv_array_acceleration_structure_elements w)\<rparr>"

definition pipeline_limit :: "u32 \<Rightarrow> u32 \<Rightarrow> max_count_kind \<Rightarrow> max_count_error + unit" where
  "pipeline_limit limit n kind = ensure (\<not> limit < n) (MaxCountError kind ZonePipeline limit n)"

definition validator_validate :: "count_validator \<Rightarrow> limits \<Rightarrow> max_count_error + unit" where
  "validator_validate v l =
    and_then (pipeline_limit (max_dynamic_uniform_buffers_per_pipeline_layout l) (cv_dynamic_uniform_buffers v) DynamicUniformBuffers) (\<lambda>_.
    and_then (pipeline_limit (max_dynamic_storage_buffers_per_pipeline_layout l) (cv_dynamic_storage_buffers v) DynamicStorageBuffers) (\<lambda>_.
    and_then (counter_validate (cv_sampled_textures v) (max_sampled_textures_per_shader_stage l) SampledTextures) (\<lambda>_.
    and_then (counter_validate (cv_samplers v) (max_samplers_per_shader_stage l) Samplers) (\<lambda>_.
    and_then (counter_validate (cv_storage_buffers v) (max_storage_buffers_per_shader_stage l) StorageBuffers) (\<lambda>_.
    and_then (counter_validate (cv_storage_textures v) (max_storage_textures_per_shader_stage l) StorageTextures) (\<lambda>_.
    and_then (counter_validate (cv_uniform_buffers v) (max_uniform_buffers_per_shader_stage l) UniformBuffers) (\<lambda>_.
    and_then (counter_validate (cv_array_elements v) (max_binding_array_elements_per_shader_stage l) BindingArrayElements) (\<lambda>_.
    and_then (counter_validate (cv_array_sampler_elements v) (max_binding_array_sampler_elements_per_shader_stage l)
                BindingArraySamplerElements) (\<lambda>_.
    and_then (counter_validate (cv_array_acceleration_structure_elements v)
                (max_binding_array_acceleration_structure_elements_per_shader_stage l)
                BindingArrayAccelerationStructureElements) (\<lambda>_.
    counter_validate (cv_acceleration_structures v) (max_acceleration_structures_per_shader_stage l)
                AccelerationStructures))))))))))"

section \<open>Bind group layouts\<close>

datatype layout_entry_error =
  LeStorageTextureCube | LeStorageTextureAtomic | LeArrayUnsupported
| LeSampleTypeFloatFilterableBindingMultisampled
| LeNon2DMultisampled texture_view_dimension
| LeMissingFeatures features
| LeMissingDownlevelFlags downlevel_flags

datatype bind_group_layout_error =
  BlDevice device_error
| BlConflictBinding u32
| BlEntry u32 layout_entry_error
| BlTooManyBindings max_count_error
| BlContainsBothBindingArrayAndDynamicOffsetArray
| BlContainsBothBindingArrayAndUniformBuffer
| BlInvalidBindingIndex u32 u32
| BlInvalidVisibility shader_stages
| BlUnsupportedStorageTextureAccess u32 storage_texture_access texture_format

definition validate_binding_arrays :: "count_validator \<Rightarrow> bind_group_layout_error + unit" where
  "validate_binding_arrays v =
    (let has_dynamic_offset_array = cv_dynamic_uniform_buffers v > 0 \<or> cv_dynamic_storage_buffers v > 0;
         has_uniform_buffer = snd (counter_max (cv_uniform_buffers v)) > 0 in
     if cv_has_bindless_array v \<and> has_dynamic_offset_array then Inl BlContainsBothBindingArrayAndDynamicOffsetArray
     else if cv_has_bindless_array v \<and> has_uniform_buffer then Inl BlContainsBothBindingArrayAndUniformBuffer
     else Inr ())"

text \<open>An entry map is the list of its entries, sorted by binding.\<close>

type_synonym entry_map = "layout_entry list"

fun insert_entries :: "layout_entry list \<Rightarrow> layout_entry list \<Rightarrow> bind_group_layout_error + layout_entry list" where
  "insert_entries [] m = Inr m"
| "insert_entries (e # es) m =
     (if le_binding e \<in> le_binding ` set m then Inl (BlConflictBinding (le_binding e))
      else insert_entries es (m @ [e]))"

definition from_entries :: "layout_entry list \<Rightarrow> bind_group_layout_error + entry_map" where
  "from_entries es = and_then (insert_entries es []) (\<lambda>m. Inr (sort_key le_binding m))"

definition entry_get :: "entry_map \<Rightarrow> u32 \<Rightarrow> layout_entry option" where
  "entry_get m b = find (\<lambda>e. le_binding e = b) m"

text \<open>The feature an array of the type needs, whether the shader can write it, and further features.\<close>

definition required_access_flag :: "storage_texture_access \<Rightarrow> format_flags" where
  "required_access_flag access =
    (case access of AccessWriteOnly \<Rightarrow> ff_storage_write_only | AccessReadOnly \<Rightarrow> ff_storage_read_only
     | AccessReadWrite \<Rightarrow> ff_storage_read_write | AccessAtomic \<Rightarrow> ff_storage_atomic)"

definition check_storage_texture ::
  "device \<Rightarrow> u32 \<Rightarrow> storage_texture_access \<Rightarrow> texture_format \<Rightarrow> texture_view_dimension
   \<Rightarrow> bind_group_layout_error + unit" where
  "check_storage_texture dev b access f view_dimension =
    and_then (ensure (\<not> (view_dimension = ViewCube \<or> view_dimension = ViewCubeArray)) (BlEntry b LeStorageTextureCube)) (\<lambda>_.
    and_then (ensure (\<not> (access = AccessAtomic \<and> \<not> features_contain (dev_features dev) texture_atomic))
                (BlEntry b LeStorageTextureAtomic)) (\<lambda>_.
    and_then (map_err (\<lambda>e. BlEntry b (LeMissingFeatures e)) (describe_format_features dev f)) (\<lambda>format_features.
    ensure (contains (format_flags format_features) (required_access_flag access))
      (BlUnsupportedStorageTextureAccess b access f))))"

definition entry_kind ::
  "device \<Rightarrow> layout_entry \<Rightarrow> bind_group_layout_error + features option \<times> bool \<times> features" where
  "entry_kind dev e =
    (let b = le_binding e; need = (\<lambda>f. map_err (\<lambda>m. BlEntry b (LeMissingFeatures m)) (require_features dev f));
         storage_array = (\<lambda>f. Some (features_union f storage_resource_binding_array)) in
     case le_ty e of
       BtBuffer BindUniform _ _ \<Rightarrow> Inr (Some buffer_binding_array, False, features_empty)
     | BtBuffer (BindStorage ro) _ _ \<Rightarrow> Inr (storage_array buffer_binding_array, \<not> ro, features_empty)
     | BtSampler _ \<Rightarrow> Inr (Some texture_binding_array, False, features_empty)
     | BtTexture sample_ty view_dimension multisampled \<Rightarrow>
         if multisampled \<and> sample_ty = SampleFloat True then Inl (BlEntry b LeSampleTypeFloatFilterableBindingMultisampled)
         else if multisampled \<and> view_dimension \<noteq> ViewD2 then Inl (BlEntry b (LeNon2DMultisampled view_dimension))
         else Inr (Some texture_binding_array, False, features_empty)
     | BtStorageTexture access f view_dimension \<Rightarrow>
         and_then (check_storage_texture dev b access f view_dimension) (\<lambda>_.
         Inr (storage_array texture_binding_array, access \<noteq> AccessReadOnly,
              if access = AccessAtomic then texture_atomic else features_empty))
     | BtAccelerationStructure vertex_return \<Rightarrow>
         and_then (need experimental_ray_query) (\<lambda>_.
         and_then (if vertex_return then need experimental_ray_hit_vertex_return else Inr ()) (\<lambda>_.
         Inr (Some acceleration_structure_binding_array, False, features_empty)))
     | BtExternalTexture \<Rightarrow> and_then (need external_texture_feature) (\<lambda>_. Inr (None, False, features_empty)))"

definition is_storage_buffer :: "binding_type \<Rightarrow> bool" where
  "is_storage_buffer t = (case t of BtBuffer (BindStorage _) _ _ \<Rightarrow> True | _ \<Rightarrow> False)"

definition check_layout_entry :: "device \<Rightarrow> layout_entry \<Rightarrow> bind_group_layout_error + unit" where
  "check_layout_entry dev e =
    (let b = le_binding e; max_bindings = max_bindings_per_bind_group (dev_limits dev); vis = le_visibility e in
     and_then (ensure (\<not> b \<ge> max_bindings) (BlInvalidBindingIndex b max_bindings)) (\<lambda>_.
     and_then (entry_kind dev e) (\<lambda>(array_feature, writable, required).
     and_then (if le_count e = None then Inr required
               else and_then (ok_or (BlEntry b LeArrayUnsupported) array_feature) (\<lambda>f. Inr (features_union required f)))
       (\<lambda>required.
     and_then (ensure (vis AND NOT ss_all = 0) (BlInvalidVisibility vis)) (\<lambda>_.
     let vertex = contains vis ss_vertex;
         required = (if vertex \<and> writable then features_union required vertex_writable_storage else required);
         flags = (if vertex \<and> is_storage_buffer (le_ty e) then df_vertex_storage else 0)
              OR (if writable \<and> contains vis ss_fragment then df_fragment_writable_storage else 0) in
     and_then (map_err (\<lambda>m. BlEntry b (LeMissingFeatures m)) (require_features dev required)) (\<lambda>_.
     map_err (\<lambda>m. BlEntry b (LeMissingDownlevelFlags m)) (require_downlevel_flags dev flags)))))))"

fun check_layout_entries :: "device \<Rightarrow> entry_map \<Rightarrow> bind_group_layout_error + unit" where
  "check_layout_entries dev [] = Inr ()"
| "check_layout_entries dev (e # es) = and_then (check_layout_entry dev e) (\<lambda>_. check_layout_entries dev es)"

definition count_bindings :: "entry_map \<Rightarrow> count_validator" where
  "count_bindings m = fold add_binding m new_count_validator"

datatype exclusive_pipeline = NotExclusive | ExclusiveRender nat | ExclusiveCompute nat

datatype layout_origin = OriginPool | OriginDerived

text \<open>The cell of the exclusive pipeline is set once, after the creation.\<close>

record bind_group_layout =
  bgl_id :: nat
  bgl_device :: nat
  bgl_entries :: entry_map
  bgl_origin :: layout_origin
  bgl_exclusive :: "exclusive_pipeline option"
  bgl_counts :: count_validator

definition create_layout_internal ::
  "device \<Rightarrow> (entry_map \<Rightarrow> device_error option) \<Rightarrow> nat \<Rightarrow> entry_map \<Rightarrow> layout_origin
   \<Rightarrow> bind_group_layout_error + bind_group_layout" where
  "create_layout_internal dev hal new_id m origin =
    and_then (check_layout_entries dev m) (\<lambda>_.
    let counts = count_bindings m in
    and_then (map_err BlTooManyBindings (validator_validate counts (dev_limits dev))) (\<lambda>_.
    and_then (validate_binding_arrays counts) (\<lambda>_.
    and_then (map_err BlDevice (hal_ok (hal m))) (\<lambda>_.
    Inr \<lparr>bgl_id = new_id, bgl_device = dev_id dev, bgl_entries = m, bgl_origin = origin, bgl_exclusive = None,
         bgl_counts = counts\<rparr>))))"

text \<open>The pool keeps a weak reference per entry map; a dropped layout removes its own.\<close>

type_synonym layout_pool = "entry_map \<Rightarrow> bind_group_layout option"

definition create_bind_group_layout ::
  "device \<Rightarrow> (entry_map \<Rightarrow> device_error option) \<Rightarrow> nat \<Rightarrow> layout_entry list \<Rightarrow> layout_pool
   \<Rightarrow> (bind_group_layout_error + bind_group_layout) \<times> layout_pool" where
  "create_bind_group_layout dev hal new_id es pool =
    (case and_then (map_err BlDevice (check_is_valid dev)) (\<lambda>_. from_entries es) of
       Inl e \<Rightarrow> (Inl e, pool)
     | Inr m \<Rightarrow>
         (case pool m of
            Some l \<Rightarrow> (Inr l, pool)
          | None \<Rightarrow>
              (case create_layout_internal dev hal new_id m OriginPool of
                 Inl e \<Rightarrow> (Inl e, pool)
               | Inr l \<Rightarrow> let l = l\<lparr>bgl_exclusive := Some NotExclusive\<rparr> in (Inr l, pool(m \<mapsto> l)))))"

definition drop_bind_group_layout :: "bind_group_layout \<Rightarrow> layout_pool \<Rightarrow> layout_pool" where
  "drop_bind_group_layout l pool =
    (if bgl_origin l = OriginPool then pool(bgl_entries l := None) else pool)"

section \<open>Pipeline layouts\<close>

definition MAX_BIND_GROUPS :: nat where "MAX_BIND_GROUPS = 8"
definition IMMEDIATE_DATA_ALIGNMENT :: u32 where "IMMEDIATE_DATA_ALIGNMENT = 4"
definition immediates_feature :: features where "immediates_feature = webgpu_feature 16"

datatype pipeline_layout_error =
  PlDevice device_error
| PlMisalignedImmediateSize u32
| PlMissingFeatures features
| PlImmediateRangeTooLarge u32 u32
| PlTooManyBindings max_count_error
| PlTooManyGroups nat nat
| PlBglHasExclusivePipeline nat exclusive_pipeline

record pipeline_layout =
  pl_id :: nat
  pl_device :: nat
  pl_groups :: "bind_group_layout option list"
  pl_immediate_size :: u32

text \<open>\<open>None\<close> is the panic of \<open>unwrap\<close> on a layout whose exclusive pipeline was not set.\<close>

fun merge_layouts ::
  "device \<Rightarrow> bool \<Rightarrow> nat \<Rightarrow> bind_group_layout option list \<Rightarrow> count_validator
   \<Rightarrow> (pipeline_layout_error + count_validator) option" where
  "merge_layouts dev ignore_exclusive index [] v = Some (Inr v)"
| "merge_layouts dev ignore_exclusive index (None # ls) v = merge_layouts dev ignore_exclusive (Suc index) ls v"
| "merge_layouts dev ignore_exclusive index (Some l # ls) v =
     (if bgl_device l \<noteq> dev_id dev then Some (Inl (PlDevice (DeviceMismatch (bgl_device l) (dev_id dev))))
      else if ignore_exclusive then
        merge_layouts dev ignore_exclusive (Suc index) ls (validator_merge v (bgl_counts l))
      else case bgl_exclusive l of
        None \<Rightarrow> None
      | Some NotExclusive \<Rightarrow> merge_layouts dev ignore_exclusive (Suc index) ls (validator_merge v (bgl_counts l))
      | Some p \<Rightarrow> Some (Inl (PlBglHasExclusivePipeline index p)))"

definition create_pipeline_layout ::
  "device \<Rightarrow> (bind_group_layout option list \<Rightarrow> u32 \<Rightarrow> device_error option) \<Rightarrow> nat \<Rightarrow> bind_group_layout option list \<Rightarrow> u32
   \<Rightarrow> bool \<Rightarrow> (pipeline_layout_error + pipeline_layout) option" where
  "create_pipeline_layout dev hal new_id layouts immediate_size ignore_exclusive =
    (let l = dev_limits dev in
     case
       and_then (map_err PlDevice (check_is_valid dev)) (\<lambda>_.
       and_then (ensure (\<not> length layouts > unat (max_bind_groups l)) (PlTooManyGroups (length layouts) (unat (max_bind_groups l)))) (\<lambda>_.
       and_then (if immediate_size \<noteq> 0 then map_err PlMissingFeatures (require_features dev immediates_feature) else Inr ()) (\<lambda>_.
       and_then (ensure (\<not> max_immediate_size l < immediate_size) (PlImmediateRangeTooLarge immediate_size (max_immediate_size l))) (\<lambda>_.
       ensure (immediate_size mod IMMEDIATE_DATA_ALIGNMENT = 0) (PlMisalignedImmediateSize immediate_size)))))
     of Inl e \<Rightarrow> Some (Inl e)
      | Inr _ \<Rightarrow>
          map_option (\<lambda>r.
            and_then r (\<lambda>v.
            and_then (map_err PlTooManyBindings (validator_validate v l)) (\<lambda>_.
            let groups = map (\<lambda>g. case g of Some x \<Rightarrow> if bgl_entries x = [] then None else Some x | None \<Rightarrow> None) layouts in
            and_then (map_err PlDevice (hal_ok (hal groups immediate_size))) (\<lambda>_.
            Inr \<lparr>pl_id = new_id, pl_device = dev_id dev, pl_groups = groups, pl_immediate_size = immediate_size\<rparr>))))
          (merge_layouts dev ignore_exclusive 0 layouts new_count_validator))"

section \<open>The limits on the number of bindings\<close>

text \<open>What an entry adds to the counters.\<close>

definition entry_adds :: "max_count_kind \<Rightarrow> layout_entry \<Rightarrow> u32" where
  "entry_adds k e =
    (case (le_count e, k) of
       (Some n, BindingArrayElements) \<Rightarrow> n
     | (Some n, BindingArraySamplerElements) \<Rightarrow> (case le_ty e of BtSampler _ \<Rightarrow> n | _ \<Rightarrow> 0)
     | (Some n, BindingArrayAccelerationStructureElements) \<Rightarrow> (case le_ty e of BtAccelerationStructure _ \<Rightarrow> n | _ \<Rightarrow> 0)
     | (Some n, _) \<Rightarrow> 0
     | (None, DynamicUniformBuffers) \<Rightarrow> (case le_ty e of BtBuffer BindUniform True _ \<Rightarrow> 1 | _ \<Rightarrow> 0)
     | (None, DynamicStorageBuffers) \<Rightarrow> (case le_ty e of BtBuffer (BindStorage _) True _ \<Rightarrow> 1 | _ \<Rightarrow> 0)
     | (None, SampledTextures) \<Rightarrow> (case le_ty e of BtTexture _ _ _ \<Rightarrow> 1 | BtExternalTexture \<Rightarrow> 4 | _ \<Rightarrow> 0)
     | (None, Samplers) \<Rightarrow> (case le_ty e of BtSampler _ \<Rightarrow> 1 | BtExternalTexture \<Rightarrow> 1 | _ \<Rightarrow> 0)
     | (None, StorageBuffers) \<Rightarrow> (case le_ty e of BtBuffer (BindStorage _) _ _ \<Rightarrow> 1 | _ \<Rightarrow> 0)
     | (None, StorageTextures) \<Rightarrow> (case le_ty e of BtStorageTexture _ _ _ \<Rightarrow> 1 | _ \<Rightarrow> 0)
     | (None, UniformBuffers) \<Rightarrow> (case le_ty e of BtBuffer BindUniform _ _ \<Rightarrow> 1 | BtExternalTexture \<Rightarrow> 1 | _ \<Rightarrow> 0)
     | (None, AccelerationStructures) \<Rightarrow> (case le_ty e of BtAccelerationStructure _ \<Rightarrow> 1 | _ \<Rightarrow> 0)
     | (None, _) \<Rightarrow> 0)"

definition limit_of :: "max_count_kind \<Rightarrow> limits \<Rightarrow> u32" where
  "limit_of k l =
    (case k of
       DynamicUniformBuffers \<Rightarrow> max_dynamic_uniform_buffers_per_pipeline_layout l
     | DynamicStorageBuffers \<Rightarrow> max_dynamic_storage_buffers_per_pipeline_layout l
     | SampledTextures \<Rightarrow> max_sampled_textures_per_shader_stage l
     | Samplers \<Rightarrow> max_samplers_per_shader_stage l
     | StorageBuffers \<Rightarrow> max_storage_buffers_per_shader_stage l
     | StorageTextures \<Rightarrow> max_storage_textures_per_shader_stage l
     | UniformBuffers \<Rightarrow> max_uniform_buffers_per_shader_stage l
     | BindingArrayElements \<Rightarrow> max_binding_array_elements_per_shader_stage l
     | BindingArraySamplerElements \<Rightarrow> max_binding_array_sampler_elements_per_shader_stage l
     | BindingArrayAccelerationStructureElements \<Rightarrow> max_binding_array_acceleration_structure_elements_per_shader_stage l
     | AccelerationStructures \<Rightarrow> max_acceleration_structures_per_shader_stage l)"

definition counter_of :: "max_count_kind \<Rightarrow> count_validator \<Rightarrow> stage_counter" where
  "counter_of k v =
    (case k of
       DynamicUniformBuffers \<Rightarrow> zero_counter
     | DynamicStorageBuffers \<Rightarrow> zero_counter
     | SampledTextures \<Rightarrow> cv_sampled_textures v
     | Samplers \<Rightarrow> cv_samplers v
     | StorageBuffers \<Rightarrow> cv_storage_buffers v
     | StorageTextures \<Rightarrow> cv_storage_textures v
     | UniformBuffers \<Rightarrow> cv_uniform_buffers v
     | BindingArrayElements \<Rightarrow> cv_array_elements v
     | BindingArraySamplerElements \<Rightarrow> cv_array_sampler_elements v
     | BindingArrayAccelerationStructureElements \<Rightarrow> cv_array_acceleration_structure_elements v
     | AccelerationStructures \<Rightarrow> cv_acceleration_structures v)"

definition per_stage :: "max_count_kind \<Rightarrow> bool" where
  "per_stage k \<longleftrightarrow> k \<noteq> DynamicUniformBuffers \<and> k \<noteq> DynamicStorageBuffers"

text \<open>What the entries of a stage, and those of the whole pipeline, add.\<close>

definition stage_added :: "max_count_kind \<Rightarrow> shader_stages \<Rightarrow> layout_entry list \<Rightarrow> nat" where
  "stage_added k st es = sum_list (map (\<lambda>e. if contains (le_visibility e) st then unat (entry_adds k e) else 0) es)"

definition pipeline_added :: "max_count_kind \<Rightarrow> layout_entry list \<Rightarrow> nat" where
  "pipeline_added k es = sum_list (map (\<lambda>e. unat (entry_adds k e)) es)"

abbreviation u32_max :: nat where "u32_max \<equiv> 2 ^ 32 - 1"

lemma sat_add32_unat: "unat (sat_add32 a b) = min u32_max (unat a + unat b)"
proof (cases "unat a + unat b < 2 ^ 32")
  case True
  then show ?thesis by (simp add: sat_add32_def checked_add_def unat_word_ariths)
next
  case False
  have "unat (- 1 :: u32) = u32_max" by (simp add: unsigned_minus_1_eq_mask mask_eq_exp_minus_1)
  then show ?thesis using False by (simp add: sat_add32_def checked_add_def)
qed

lemma sat_add32_0 [simp]: "sat_add32 a 0 = a"
  using unsigned_less [of a, where ?'a = nat] by (simp add: sat_add32_def checked_add_def)

lemma counter_add_0 [simp]: "counter_add st 0 c = c"
  by (simp add: counter_add_def)

text \<open>A counter holds the numbers of a function of the stages, up to the largest value.\<close>

definition holds_counts :: "stage_counter \<Rightarrow> (shader_stages \<Rightarrow> nat) \<Rightarrow> bool" where
  "holds_counts c f \<longleftrightarrow> unat (sc_vertex c) = min u32_max (f ss_vertex)
     \<and> unat (sc_fragment c) = min u32_max (f ss_fragment) \<and> unat (sc_compute c) = min u32_max (f ss_compute)"

lemma holds_counts_zero: "holds_counts zero_counter (\<lambda>_. 0)"
  by (simp add: holds_counts_def zero_counter_def)

lemma holds_counts_add:
  "holds_counts c f \<Longrightarrow>
   holds_counts (counter_add st n c) (\<lambda>s. f s + (if contains st s then unat n else 0))"
  by (auto simp: holds_counts_def counter_add_def sat_add32_unat)

lemma holds_counts_merge:
  "holds_counts c f \<Longrightarrow> holds_counts d g \<Longrightarrow> holds_counts (counter_merge c d) (\<lambda>s. f s + g s)"
  by (simp add: holds_counts_def counter_merge_def sat_add32_unat) (auto simp: min_def)

lemma counter_max_bound:
  assumes "holds_counts c f" and "snd (counter_max c) \<le> l" and "s \<in> {ss_vertex, ss_fragment, ss_compute}"
  shows "min u32_max (f s) \<le> unat l"
proof -
  have "sc_vertex c \<le> l" "sc_fragment c \<le> l" "sc_compute c \<le> l"
    using assms(2) by (auto simp: counter_max_def Let_def)
  then show ?thesis using assms(1,3) by (auto simp: holds_counts_def word_le_nat_alt)
qed

lemma add_binding_counter:
  "counter_of k (add_binding e v) =
     (if per_stage k then counter_add (le_visibility e) (entry_adds k e) (counter_of k v) else zero_counter)"
  by (cases "le_count e"; cases "le_ty e"; cases k)
     (auto simp: per_stage_def counter_of_def add_binding_def add_array_binding_def add_single_binding_def
        entry_adds_def Let_def split: buffer_binding_type.splits)

lemma validator_merge_counter:
  "counter_of k (validator_merge v w) =
     (if per_stage k then counter_merge (counter_of k v) (counter_of k w) else zero_counter)"
  by (cases k) (simp_all add: per_stage_def counter_of_def validator_merge_def)

definition dynamic_of :: "max_count_kind \<Rightarrow> count_validator \<Rightarrow> u32" where
  "dynamic_of k v = (if k = DynamicUniformBuffers then cv_dynamic_uniform_buffers v
     else if k = DynamicStorageBuffers then cv_dynamic_storage_buffers v else 0)"

lemma add_binding_dynamic:
  "\<not> per_stage k \<Longrightarrow> dynamic_of k (add_binding e v) = dynamic_of k v + entry_adds k e"
  by (cases "le_count e"; cases "le_ty e"; cases k)
     (auto simp: per_stage_def dynamic_of_def add_binding_def add_array_binding_def add_single_binding_def
        entry_adds_def Let_def split: buffer_binding_type.splits)

lemma validator_merge_dynamic:
  "dynamic_of k (validator_merge v w) = dynamic_of k v + dynamic_of k w"
  by (cases k) (simp_all add: dynamic_of_def validator_merge_def)

text \<open>A validator that has seen the entries \<open>es\<close>.\<close>

definition validator_saw :: "count_validator \<Rightarrow> layout_entry list \<Rightarrow> bool" where
  "validator_saw v es \<longleftrightarrow>
     (\<forall>k. per_stage k \<longrightarrow> holds_counts (counter_of k v) (\<lambda>s. stage_added k s es))
     \<and> (\<forall>k. \<not> per_stage k \<longrightarrow> dynamic_of k v = of_nat (pipeline_added k es))"

lemma new_validator_saw: "validator_saw new_count_validator []"
proof -
  have "counter_of k new_count_validator = zero_counter" for k
    by (cases k) (simp_all add: counter_of_def new_count_validator_def)
  then show ?thesis
    using holds_counts_zero
    by (simp add: validator_saw_def stage_added_def pipeline_added_def dynamic_of_def new_count_validator_def)
qed

lemma add_binding_saw: "validator_saw v es \<Longrightarrow> validator_saw (add_binding e v) (es @ [e])"
  using holds_counts_add
  by (fastforce simp: validator_saw_def add_binding_counter add_binding_dynamic stage_added_def pipeline_added_def)

lemma count_bindings_saw: "validator_saw (count_bindings m) m"
proof -
  have "validator_saw v es \<Longrightarrow> validator_saw (fold add_binding m v) (es @ m)" for v es
  proof (induction m arbitrary: v es)
    case (Cons a m)
    show ?case using Cons.IH [OF add_binding_saw [OF Cons.prems, of a]] by simp
  qed simp
  from this [OF new_validator_saw] show ?thesis by (simp add: count_bindings_def)
qed

lemma validator_merge_saw:
  "validator_saw v es \<Longrightarrow> validator_saw w fs \<Longrightarrow> validator_saw (validator_merge v w) (es @ fs)"
  using holds_counts_merge
  by (fastforce simp: validator_saw_def validator_merge_counter validator_merge_dynamic stage_added_def pipeline_added_def)

definition added_within_limits :: "limits \<Rightarrow> layout_entry list \<Rightarrow> bool" where
  "added_within_limits l es \<longleftrightarrow>
     (\<forall>k s. per_stage k \<longrightarrow> s \<in> {ss_vertex, ss_fragment, ss_compute} \<longrightarrow>
        min u32_max (stage_added k s es) \<le> unat (limit_of k l))
     \<and> (\<forall>k. \<not> per_stage k \<longrightarrow> pipeline_added k es mod 2 ^ 32 \<le> unat (limit_of k l))"

lemma counter_validate_ok: "counter_validate c l k = Inr u \<longleftrightarrow> snd (counter_max c) \<le> l"
  by (auto simp: counter_validate_def split: prod.splits)

lemma validator_validate_ok:
  assumes "validator_validate v l = Inr u"
  shows "per_stage k \<Longrightarrow> snd (counter_max (counter_of k v)) \<le> limit_of k l"
    and "\<not> per_stage k \<Longrightarrow> dynamic_of k v \<le> limit_of k l"
  using assms
  by (cases k; simp add: validator_validate_def and_then_Inr counter_validate_ok pipeline_limit_def per_stage_def
      counter_of_def limit_of_def dynamic_of_def not_less)+

lemma validate_added_within:
  assumes "validator_saw v es" and "validator_validate v l = Inr u"
  shows "added_within_limits l es"
  unfolding added_within_limits_def
proof (intro conjI allI impI)
  fix k s assume k: "per_stage k" and s: "s \<in> {ss_vertex, ss_fragment, ss_compute}"
  have "holds_counts (counter_of k v) (\<lambda>s. stage_added k s es)" using assms(1) k by (simp add: validator_saw_def)
  then show "min u32_max (stage_added k s es) \<le> unat (limit_of k l)"
    using counter_max_bound [OF _ validator_validate_ok(1) [OF assms(2) k] s] by blast
next
  fix k assume k: "\<not> per_stage k"
  then have "unat (of_nat (pipeline_added k es) :: u32) \<le> unat (limit_of k l)"
    using validator_validate_ok(2) [OF assms(2) k] assms(1) by (simp add: validator_saw_def word_le_nat_alt)
  then show "pipeline_added k es mod 2 ^ 32 \<le> unat (limit_of k l)" by (simp add: unat_of_nat)
qed

text \<open>The entries of all the layouts that are present.\<close>

definition layout_entries :: "bind_group_layout option list \<Rightarrow> layout_entry list" where
  "layout_entries ls = concat (map (\<lambda>g. case g of Some l \<Rightarrow> bgl_entries l | None \<Rightarrow> []) ls)"

lemma merge_layouts_step:
  assumes "merge_layouts dev ig i (Some l # ls) v = Some (Inr w)"
  shows "bgl_device l = dev_id dev \<and> merge_layouts dev ig (Suc i) ls (validator_merge v (bgl_counts l)) = Some (Inr w)"
  using assms by (simp split: if_splits option.splits exclusive_pipeline.splits)

lemma layout_entries_simps [simp]:
  "layout_entries [] = []"
  "layout_entries (None # ls) = layout_entries ls"
  "layout_entries (Some l # ls) = bgl_entries l @ layout_entries ls"
  by (simp_all add: layout_entries_def)

definition counts_known :: "bind_group_layout option list \<Rightarrow> bool" where
  "counts_known ls \<longleftrightarrow> (\<forall>l. Some l \<in> set ls \<longrightarrow> bgl_counts l = count_bindings (bgl_entries l))"

lemma counts_known_ConsD:
  "counts_known (a # ls) \<Longrightarrow> counts_known ls"
  "counts_known (Some l # ls) \<Longrightarrow> bgl_counts l = count_bindings (bgl_entries l)"
  unfolding counts_known_def by (meson list.set_intros)+

lemma merge_layouts_saw:
  "merge_layouts dev ig i ls v = Some (Inr w) \<Longrightarrow> validator_saw v es \<Longrightarrow> counts_known ls
   \<Longrightarrow> validator_saw w (es @ layout_entries ls)"
proof (induction ls arbitrary: i v es)
  case Nil
  then show ?case by simp
next
  case (Cons a ls)
  note wf = counts_known_ConsD(1) [OF Cons.prems(3)]
  show ?case
  proof (cases a)
    case None
    have "merge_layouts dev ig (Suc i) ls v = Some (Inr w)" using Cons.prems(1) by (simp only: None merge_layouts.simps)
    from Cons.IH [OF this Cons.prems(2) wf] show ?thesis by (simp only: None layout_entries_simps)
  next
    case (Some l)
    have saw: "validator_saw (validator_merge v (bgl_counts l)) (es @ bgl_entries l)"
      using validator_merge_saw [OF Cons.prems(2) count_bindings_saw [of "bgl_entries l"]]
      by (simp only: counts_known_ConsD(2) [OF Cons.prems(3) [unfolded Some]])
    from merge_layouts_step [OF Cons.prems(1) [unfolded Some]]
    have "merge_layouts dev ig (Suc i) ls (validator_merge v (bgl_counts l)) = Some (Inr w)" by (rule conjunct2)
    from Cons.IH [OF this saw wf] show ?thesis by (simp only: Some layout_entries_simps append_assoc)
  qed
qed

lemma dropped_empty_layouts:
  "layout_entries (map (\<lambda>g. case g of Some x \<Rightarrow> if bgl_entries x = [] then None else Some x | None \<Rightarrow> None) ls)
   = layout_entries ls"
  by (induction ls) (auto simp: layout_entries_def split: option.splits)

lemma create_pipeline_layout_ok:
  assumes "create_pipeline_layout dev hal new_id ls sz ig = Some (Inr p)"
  shows "\<exists>v. check_is_valid dev = Inr () \<and> \<not> length ls > unat (max_bind_groups (dev_limits dev))
    \<and> (sz \<noteq> 0 \<longrightarrow> require_features dev immediates_feature = Inr ())
    \<and> \<not> max_immediate_size (dev_limits dev) < sz \<and> sz mod 4 = 0
    \<and> merge_layouts dev ig 0 ls new_count_validator = Some (Inr v)
    \<and> validator_validate v (dev_limits dev) = Inr () \<and> pl_immediate_size p = sz
    \<and> pl_groups p = map (\<lambda>g. case g of Some x \<Rightarrow> if bgl_entries x = [] then None else Some x | None \<Rightarrow> None) ls"
  using assms unfolding create_pipeline_layout_def Let_def
  by (auto simp: and_then_Inr ensure_Inr map_err_Inr IMMEDIATE_DATA_ALIGNMENT_def split: sum.splits if_splits)

text \<open>
  How many bindings of a kind an entry stands for: an array counts with its elements, among those of
  arrays and, if it is one of buffers with dynamic offsets, among these.
\<close>

definition binding_number :: "layout_entry \<Rightarrow> nat" where
  "binding_number e = (case le_count e of Some n \<Rightarrow> unat n | None \<Rightarrow> 1)"

definition entry_counts_as :: "max_count_kind \<Rightarrow> layout_entry \<Rightarrow> nat" where
  "entry_counts_as k e =
    (let n = binding_number e; single = (if le_count e = None then 1 else 0); elements = n * (1 - single) in
     case k of
       DynamicUniformBuffers \<Rightarrow> (case le_ty e of BtBuffer BindUniform True _ \<Rightarrow> n | _ \<Rightarrow> 0)
     | DynamicStorageBuffers \<Rightarrow> (case le_ty e of BtBuffer (BindStorage _) True _ \<Rightarrow> n | _ \<Rightarrow> 0)
     | SampledTextures \<Rightarrow> (case le_ty e of BtTexture _ _ _ \<Rightarrow> single | BtExternalTexture \<Rightarrow> 4 * single | _ \<Rightarrow> 0)
     | Samplers \<Rightarrow> (case le_ty e of BtSampler _ \<Rightarrow> single | BtExternalTexture \<Rightarrow> single | _ \<Rightarrow> 0)
     | StorageBuffers \<Rightarrow> (case le_ty e of BtBuffer (BindStorage _) _ _ \<Rightarrow> single | _ \<Rightarrow> 0)
     | StorageTextures \<Rightarrow> (case le_ty e of BtStorageTexture _ _ _ \<Rightarrow> single | _ \<Rightarrow> 0)
     | UniformBuffers \<Rightarrow> (case le_ty e of BtBuffer BindUniform _ _ \<Rightarrow> single | BtExternalTexture \<Rightarrow> single | _ \<Rightarrow> 0)
     | AccelerationStructures \<Rightarrow> (case le_ty e of BtAccelerationStructure _ \<Rightarrow> single | _ \<Rightarrow> 0)
     | BindingArrayElements \<Rightarrow> elements
     | BindingArraySamplerElements \<Rightarrow> (case le_ty e of BtSampler _ \<Rightarrow> elements | _ \<Rightarrow> 0)
     | BindingArrayAccelerationStructureElements \<Rightarrow> (case le_ty e of BtAccelerationStructure _ \<Rightarrow> elements | _ \<Rightarrow> 0))"

text \<open>The bindings of a kind that a stage sees, and those of a dynamic kind in the whole pipeline.\<close>

definition stage_total :: "max_count_kind \<Rightarrow> shader_stages \<Rightarrow> layout_entry list \<Rightarrow> nat" where
  "stage_total k st es = sum_list (map (\<lambda>e. if contains (le_visibility e) st then entry_counts_as k e else 0) es)"

definition pipeline_total :: "max_count_kind \<Rightarrow> layout_entry list \<Rightarrow> nat" where
  "pipeline_total k es = sum_list (map (entry_counts_as k) es)"

text \<open>A limit of 2^32 - 1, which the saturating counters cannot pass, is none.\<close>

definition within_limits :: "limits \<Rightarrow> layout_entry list \<Rightarrow> bool" where
  "within_limits l es \<longleftrightarrow>
     (\<forall>k s. per_stage k \<longrightarrow> s \<in> {ss_vertex, ss_fragment, ss_compute} \<longrightarrow>
        stage_total k s es \<le> unat (limit_of k l) \<or> unat (limit_of k l) = u32_max)
     \<and> (\<forall>k. \<not> per_stage k \<longrightarrow> pipeline_total k es \<le> unat (limit_of k l))"

definition dynamic_array :: "layout_entry \<Rightarrow> bool" where
  "dynamic_array e \<longleftrightarrow> le_count e \<noteq> None \<and> (case le_ty e of BtBuffer _ dyn _ \<Rightarrow> dyn | _ \<Rightarrow> False)"

lemma entry_adds_counts: "\<not> dynamic_array e \<Longrightarrow> unat (entry_adds k e) = entry_counts_as k e"
  by (cases "le_count e"; cases "le_ty e"; cases k)
    (auto simp: entry_adds_def entry_counts_as_def binding_number_def dynamic_array_def Let_def split: buffer_binding_type.splits bool.splits)

lemma dynamic_entry_one: "\<not> dynamic_array e \<Longrightarrow> \<not> per_stage k \<Longrightarrow> entry_counts_as k e \<le> 1"
  by (cases "le_count e"; cases "le_ty e"; cases k)
    (auto simp: entry_counts_as_def binding_number_def dynamic_array_def per_stage_def Let_def split: buffer_binding_type.splits bool.splits)

lemma within_limits_counted:
  assumes added: "added_within_limits l es" and plain: "\<forall>e\<in>set es. \<not> dynamic_array e" and few: "length es < 2 ^ 32"
  shows "within_limits l es"
proof -
  have same: "map (\<lambda>e. unat (entry_adds k e)) es = map (entry_counts_as k) es"
    "map (\<lambda>e. if contains (le_visibility e) s then unat (entry_adds k e) else 0) es
      = map (\<lambda>e. if contains (le_visibility e) s then entry_counts_as k e else 0) es" for k s
    using plain entry_adds_counts by (auto cong: map_cong)
  have totals: "stage_added k s es = stage_total k s es" "pipeline_added k es = pipeline_total k es" for k s
    by (simp_all only: stage_added_def stage_total_def pipeline_added_def pipeline_total_def same)
  have "pipeline_total k es \<le> length es" if "\<not> per_stage k" for k
    using plain unfolding pipeline_total_def
    by (induction es) (use dynamic_entry_one [OF _ that] in \<open>fastforce+\<close>)
  then have "pipeline_total k es < 2 ^ 32" if "\<not> per_stage k" for k using that few by (meson le_less_trans)
  note small = this
  show ?thesis
    unfolding within_limits_def
  proof (intro conjI allI impI)
    fix k s assume "per_stage k" "s \<in> {ss_vertex, ss_fragment, ss_compute}"
    then have "min u32_max (stage_total k s es) \<le> unat (limit_of k l)"
      using added unfolding added_within_limits_def totals by blast
    moreover have "unat (limit_of k l) \<le> u32_max" using unsigned_less [of "limit_of k l", where ?'a = nat] by simp
    ultimately show "stage_total k s es \<le> unat (limit_of k l) \<or> unat (limit_of k l) = u32_max" by linarith
  next
    fix k assume k: "\<not> per_stage k"
    then have "pipeline_total k es mod 2 ^ 32 \<le> unat (limit_of k l)"
      using added unfolding added_within_limits_def totals by blast
    then show "pipeline_total k es \<le> unat (limit_of k l)" using small [OF k] by simp
  qed
qed

text \<open>C11: What a successful creation of a pipeline layout promises: at most the allowed number of groups,
  an immediate size that is aligned, within the limit and zero without the feature, and, over all the
  entries of all its layouts, at most the allowed number of bindings of every kind in every classic
  stage (a limit of 2^32 - 1 allows any number) and of buffers with dynamic offsets in the pipeline. This
  holds for fewer than 2^32 entries, of layouts that carry the counts their creation computed, without a
  binding array of buffers with dynamic offsets: the code does not count these, as
  \<open>dynamic_array_not_counted\<close> shows.
\<close>

theorem pipeline_layout_within_limits:
  assumes "create_pipeline_layout dev hal new_id ls sz ig = Some (Inr p)"
    and "counts_known ls" and "\<forall>e\<in>set (layout_entries ls). \<not> dynamic_array e"
    and "length (layout_entries ls) < 2 ^ 32"
  shows "length (pl_groups p) \<le> unat (max_bind_groups (dev_limits dev))
    \<and> pl_immediate_size p \<le> max_immediate_size (dev_limits dev)
    \<and> pl_immediate_size p mod 4 = 0
    \<and> (pl_immediate_size p = 0 \<or> features_contain (dev_features dev) immediates_feature)
    \<and> within_limits (dev_limits dev) (layout_entries (pl_groups p))"
proof -
  obtain v where c: "check_is_valid dev = Inr ()" "\<not> length ls > unat (max_bind_groups (dev_limits dev))"
      "sz \<noteq> 0 \<longrightarrow> require_features dev immediates_feature = Inr ()"
      "\<not> max_immediate_size (dev_limits dev) < sz" "sz mod 4 = 0"
    and m: "merge_layouts dev ig 0 ls new_count_validator = Some (Inr v)"
    and v: "validator_validate v (dev_limits dev) = Inr ()"
    and p: "pl_immediate_size p = sz"
      "pl_groups p = map (\<lambda>g. case g of Some x \<Rightarrow> if bgl_entries x = [] then None else Some x | None \<Rightarrow> None) ls"
    using create_pipeline_layout_ok [OF assms(1)] by (elim exE conjE) (rule that; assumption)
  have "validator_saw v (layout_entries ls)"
    using merge_layouts_saw [OF m new_validator_saw assms(2)] by simp
  then have "within_limits (dev_limits dev) (layout_entries (pl_groups p))"
    using validate_added_within [OF _ v] within_limits_counted assms(3,4) by (simp add: p(2) dropped_empty_layouts)
  then show ?thesis using c p by (auto simp: require_features_def split: if_splits)
qed

definition example_entry :: layout_entry where
  "example_entry = \<lparr>le_binding = 0, le_visibility = ss_vertex OR ss_compute,
     le_ty = BtBuffer BindUniform True (Some 16), le_count = None\<rparr>"

definition example_layout :: bind_group_layout where
  "example_layout = \<lparr>bgl_id = 1, bgl_device = 0, bgl_entries = [example_entry], bgl_origin = OriginPool,
     bgl_exclusive = Some NotExclusive, bgl_counts = count_bindings [example_entry]\<rparr>"

definition example_counts :: count_validator where
  "example_counts = new_count_validator\<lparr>cv_uniform_buffers := \<lparr>sc_vertex = 1, sc_fragment = 0, sc_compute = 1\<rparr>,
     cv_dynamic_uniform_buffers := 1\<rparr>"

lemma sat_add32_0_left [simp]: "sat_add32 0 a = a"
  using unsigned_less [of a, where ?'a = nat] by (simp add: sat_add32_def checked_add_def)

lemma counter_merge_zero [simp]: "counter_merge zero_counter c = c"
  by (simp add: counter_merge_def zero_counter_def)

lemma example_counts_count: "count_bindings [example_entry] = example_counts"
proof -
  have "contains (ss_vertex OR ss_compute) ss_vertex" "\<not> contains (ss_vertex OR ss_compute) ss_fragment"
    "contains (ss_vertex OR ss_compute) ss_compute" by code_simp+
  then show ?thesis
    by (simp add: count_bindings_def example_counts_def add_binding_def add_single_binding_def example_entry_def
        new_count_validator_def counter_add_def zero_counter_def)
qed

lemma merge_new_count_validator: "validator_merge new_count_validator v = v\<lparr>cv_has_bindless_array := False\<rparr>"
  by (cases v) (simp add: validator_merge_def new_count_validator_def)

lemma example_counts_merge: "validator_merge new_count_validator example_counts = example_counts"
  unfolding merge_new_count_validator by (simp add: example_counts_def new_count_validator_def)

lemma example_counts_valid: "validator_validate example_counts (dev_limits basic_device) = Inr ()"
  by code_simp

lemma pipeline_layout_within_limits_witness:
  "create_pipeline_layout basic_device (\<lambda>_ _. None) 5 [Some example_layout, None] 0 False
     = Some (Inr \<lparr>pl_id = 5, pl_device = 0, pl_groups = [Some example_layout, None], pl_immediate_size = 0\<rparr>)
   \<and> within_limits (dev_limits basic_device) [example_entry]"
proof -
  let ?p = "\<lparr>pl_id = 5, pl_device = 0, pl_groups = [Some example_layout, None], pl_immediate_size = 0\<rparr>"
  have c: "create_pipeline_layout basic_device (\<lambda>_ _. None) 5 [Some example_layout, None] 0 False = Some (Inr ?p)"
  proof -
    have v: "validator_validate (validator_merge new_count_validator (bgl_counts example_layout)) (dev_limits basic_device) = Inr ()"
      using example_counts_valid by (simp add: example_layout_def example_counts_count example_counts_merge)
    have d: "check_is_valid basic_device = Inr ()" by code_simp
    have n: "unat (max_bind_groups (dev_limits basic_device)) = 4" by code_simp
    have m: "max_immediate_size (dev_limits basic_device) = 0" by code_simp
    have i: "dev_id basic_device = 0" by code_simp
    note v d n m i
    with v show ?thesis unfolding create_pipeline_layout_def Let_def
      by (simp add: hal_ok_def) (simp add: example_layout_def example_entry_def)
  qed
  have "counts_known [Some example_layout, None]"
    unfolding counts_known_def by (auto simp: example_layout_def)
  moreover have "layout_entries [Some example_layout, None] = [example_entry]" by (simp add: example_layout_def)
  ultimately show ?thesis
    using pipeline_layout_within_limits [OF c] c by (simp add: dynamic_array_def example_entry_def example_layout_def)
qed

text \<open>An array of two storage buffers with dynamic offsets adds nothing to the count of these.\<close>

lemma dynamic_array_not_counted:
  assumes "le_count e = Some 2" and "le_ty e = BtBuffer (BindStorage ro) True None"
  shows "entry_counts_as DynamicStorageBuffers e = 2
    \<and> cv_dynamic_storage_buffers (add_binding e v) = cv_dynamic_storage_buffers v"
  using assms by (simp add: entry_counts_as_def binding_number_def add_binding_def add_array_binding_def Let_def)

end
