(* ===== verification/BindGroups.thy ===== *)
theory BindGroups
  imports Bindings
begin

unbundle bit_operations_syntax

text \<open>
  The creation of bind groups (\<open>Device::create_bind_group\<close> and its helpers in
  \<open>wgpu-core/src/device/resource.rs\<close>) and what a bind group checks when it is used
  (\<open>wgpu-core/src/binding_model.rs\<close>). A resource is given by its record; the lists of weak references
  from resources to their bind groups are left out.
\<close>

section \<open>Resources and errors\<close>

record sampler =
  smp_id :: nat
  smp_device :: nat
  smp_filtering :: bool
  smp_comparison :: bool

record tlas =
  tl_id :: nat
  tl_device :: nat
  tl_vertex_return :: bool
  tl_destroyed :: bool

record bound_view =
  bv_view :: view_data
  bv_texture :: texture

record external_texture =
  xt_id :: nat
  xt_device :: nat
  xt_planes :: "bound_view list"
  xt_params :: buffer_state

record buffer_binding =
  bb_buffer :: buffer_state
  bb_offset :: u64
  bb_size :: "u64 option"

datatype binding_resource =
  ResBuffer buffer_binding
| ResBufferArray "buffer_binding list"
| ResSampler sampler
| ResSamplerArray "sampler list"
| ResTextureView bound_view
| ResTextureViewArray "bound_view list"
| ResAccelerationStructure tlas
| ResAccelerationStructureArray "tlas list"
| ResExternalTexture external_texture

datatype bind_group_error =
  BgDevice device_error
| BgDestroyed nat
| BgBindingError binding_error
| BgArrayPartialLengthMismatch nat nat
| BgArrayLengthMismatch nat nat
| BgArrayZeroLength
| BgBindingSizeTooSmall nat u64 u64
| BgBindingZeroSize nat
| BgBindingsNumMismatch nat nat
| BgDuplicateBinding u32
| BgMissingBindingDeclaration u32
| BgMissingBufferUsage nat buffer_usages buffer_usages
| BgMissingTextureUsage nat texture_usages texture_usages
| BgSingleBindingExpected
| BgUnalignedEffectiveSizeForStorage u32 u64
| BgUnalignedBufferOffset u64 u32
| BgBufferRangeTooLarge u32 u64 u64
| BgWrongBindingType u32 binding_type
| BgInvalidTextureMultisample u32 bool u32
| BgInvalidTextureSampleType u32 texture_sample_type texture_format texture_sample_type
| BgInvalidTextureDimension u32 texture_view_dimension texture_view_dimension
| BgInvalidStorageTextureFormat u32 texture_format texture_format
| BgInvalidStorageTextureMipLevelCount u32 u32
| BgInvalidExternalTextureMipLevelCount u32 u32
| BgInvalidExternalTextureFormat u32 texture_format
| BgWrongSamplerComparison u32 bool bool
| BgWrongSamplerFiltering u32 bool bool
| BgMissingTlasVertexReturn u32
| BgDepthStencilAspect

record dynamic_binding =
  dy_binding :: u32
  dy_buffer_size :: u64
  dy_range :: "u64 range_t"
  dy_maximum_offset :: u64
  dy_type :: buffer_binding_type

type_synonym hal_buffer_binding = "nat \<times> u64 \<times> u64 option"

text \<open>What the loop over the entries collects.\<close>

record group_parts =
  gp_buffers :: buffer_bind_group_state
  gp_views :: texture_view_bind_group_state
  gp_buffer_ranges :: "buffer_init_tracker_action list"
  gp_texture_ranges :: "texture_init_tracker_action list"
  gp_dynamic :: "dynamic_binding list"
  gp_late :: "u32 \<rightharpoonup> u64"
  gp_entries :: "(u32 \<times> nat \<times> nat) list"
  gp_hal_buffers :: "hal_buffer_binding list"
  gp_hal_samplers :: "nat list"
  gp_hal_textures :: "(nat \<times> texture_uses) list"
  gp_hal_tlas :: "nat list"
  gp_hal_external :: "((nat \<times> texture_uses) list \<times> hal_buffer_binding option) list"

definition no_parts :: group_parts where
  "no_parts = \<lparr>gp_buffers = [], gp_views = [], gp_buffer_ranges = [], gp_texture_ranges = [], gp_dynamic = [],
     gp_late = Map.empty, gp_entries = [], gp_hal_buffers = [], gp_hal_samplers = [], gp_hal_textures = [],
     gp_hal_tlas = [], gp_hal_external = []\<rparr>"

section \<open>Buffers\<close>

definition align_to64 :: "u64 \<Rightarrow> u64 \<Rightarrow> u64" where
  "align_to64 v alignment =
    (let remainder = v mod alignment in if remainder = 0 then v else v + alignment - remainder)"

definition binding_type_alignment :: "limits \<Rightarrow> buffer_binding_type \<Rightarrow> u32" where
  "binding_type_alignment l t =
    (case t of BindUniform \<Rightarrow> min_uniform_buffer_offset_alignment l
     | BindStorage _ \<Rightarrow> min_storage_buffer_offset_alignment l)"

definition bounds_check_alignment :: "device \<Rightarrow> buffer_binding_type \<Rightarrow> u64" where
  "bounds_check_alignment dev t =
    (case t of BindUniform \<Rightarrow> dev_uniform_bounds_check dev | BindStorage _ \<Rightarrow> COPY_BUFFER_ALIGNMENT)"

definition STORAGE_BINDING_SIZE_ALIGNMENT :: u32 where "STORAGE_BINDING_SIZE_ALIGNMENT = 4"

text \<open>The usage, the use and the limit of a buffer binding.\<close>

definition buffer_binding_use :: "limits \<Rightarrow> buffer_binding_type \<Rightarrow> buffer_usages \<times> buffer_uses \<times> u64" where
  "buffer_binding_use l t =
    (case t of
       BindUniform \<Rightarrow> (bus_uniform, bu_uniform, max_uniform_buffer_binding_size l)
     | BindStorage ro \<Rightarrow>
         (bus_storage, if ro then bu_storage_read_only else bu_storage_read_write, max_storage_buffer_binding_size l))"

definition requested_size :: "nat \<Rightarrow> u64 option \<Rightarrow> bind_group_error + u64 option" where
  "requested_size buffer sz =
    (case sz of None \<Rightarrow> Inr None | Some n \<Rightarrow> if n = 0 then Inl (BgBindingZeroSize buffer) else Inr (Some n))"

text \<open>The checks, up to the effective size of the binding.\<close>

definition check_buffer_binding ::
  "device \<Rightarrow> u32 \<Rightarrow> buffer_binding_type \<Rightarrow> buffer_binding \<Rightarrow> bind_group_error + hal_buffer_binding \<times> u64" where
  "check_buffer_binding dev b t r =
    (let buf = bst_buffer (bb_buffer r); al = binding_type_alignment (dev_limits dev) t;
         (pub_usage, _, range_limit) = buffer_binding_use (dev_limits dev) t in
     and_then (ensure (bb_offset r mod ucast al = 0) (BgUnalignedBufferOffset (bb_offset r) al)) (\<lambda>_.
     and_then (map_err BgDevice (buffer_same_device dev (bb_buffer r))) (\<lambda>_.
     and_then (map_err (\<lambda>(i, a, e). BgMissingBufferUsage i a e) (check_usage buf pub_usage)) (\<lambda>_.
     and_then (requested_size (gb_index buf) (bb_size r)) (\<lambda>req_size.
     and_then (map_err BgBindingError (binding (bb_buffer r) (bb_offset r) req_size)) (\<lambda>(raw, bind_size).
     and_then (ensure (\<not> (t \<noteq> BindUniform \<and> bind_size mod ucast STORAGE_BINDING_SIZE_ALIGNMENT \<noteq> 0))
                 (BgUnalignedEffectiveSizeForStorage STORAGE_BINDING_SIZE_ALIGNMENT bind_size)) (\<lambda>_.
     and_then (ensure (\<not> bind_size > range_limit) (BgBufferRangeTooLarge b bind_size range_limit)) (\<lambda>_.
     Inr (raw, bind_size)))))))))"

definition late_size :: "nat \<Rightarrow> u64 option \<Rightarrow> u64 \<Rightarrow> bind_group_error + u64 option" where
  "late_size buffer min_size bind_size =
    (case min_size of
       Some m \<Rightarrow> if m > bind_size then Inl (BgBindingSizeTooSmall buffer bind_size m) else Inr None
     | None \<Rightarrow> if bind_size = 0 then Inl (BgBindingZeroSize buffer) else Inr (Some bind_size))"

text \<open>\<open>None\<close> is the panic of the assertion on the offset.\<close>

definition create_buffer_binding ::
  "device \<Rightarrow> u32 \<Rightarrow> layout_entry \<Rightarrow> buffer_binding \<Rightarrow> group_parts \<Rightarrow> (bind_group_error + group_parts) option" where
  "create_buffer_binding dev b decl r gp =
    (case le_ty decl of
       BtBuffer t dyn min_size \<Rightarrow>
         (let buf = bst_buffer (bb_buffer r); offset = bb_offset r;
              (_, internal_use, _) = buffer_binding_use (dev_limits dev) t in
          case and_then (check_buffer_binding dev b t r) (\<lambda>(raw, bind_size).
                 and_then (late_size (gb_index buf) min_size bind_size) (\<lambda>late. Inr (raw, bind_size, late))) of
            Inl e \<Rightarrow> Some (Inl e)
          | Inr (raw, bind_size, late) \<Rightarrow>
              if offset mod COPY_BUFFER_ALIGNMENT \<noteq> 0 then None
              else
                let bind_end = offset + bind_size;
                    visible_size = align_to64 bind_size (bounds_check_alignment dev t);
                    action = buffer_create_action (bst_status (bb_buffer r)) (gb_index buf)
                               (Range offset (offset + visible_size)) NeedsInitializedMemory
                in Some (Inr (gp\<lparr>
                     gp_buffers := bind_group_insert_single (gb_index buf) internal_use (gp_buffers gp),
                     gp_dynamic := gp_dynamic gp @
                       (if dyn then [\<lparr>dy_binding = b, dy_buffer_size = gb_size buf, dy_range = Range offset bind_end,
                                     dy_maximum_offset = gb_size buf - bind_end, dy_type = t\<rparr>] else []),
                     gp_late := (case late of Some n \<Rightarrow> (gp_late gp)(b \<mapsto> n) | None \<Rightarrow> gp_late gp),
                     gp_buffer_ranges := gp_buffer_ranges gp @ (case action of Some a \<Rightarrow> [a] | None \<Rightarrow> []),
                     gp_hal_buffers := gp_hal_buffers gp @ [raw]\<rparr>)))
     | ty \<Rightarrow> Some (Inl (BgWrongBindingType b ty)))"

section \<open>The other resources\<close>

definition create_sampler_binding ::
  "device \<Rightarrow> u32 \<Rightarrow> layout_entry \<Rightarrow> sampler \<Rightarrow> group_parts \<Rightarrow> bind_group_error + group_parts" where
  "create_sampler_binding dev b decl s gp =
    and_then (ensure (smp_device s = dev_id dev) (BgDevice (DeviceMismatch (smp_device s) (dev_id dev)))) (\<lambda>_.
    case le_ty decl of
      BtSampler ty \<Rightarrow>
        (let allowed_filtering = (if ty = SamplerNonFiltering then Some False else None);
             allowed_comparison = (ty = SamplerComparison) in
         and_then (case allowed_filtering of
                     Some a \<Rightarrow> ensure (\<not> a \<noteq> smp_filtering s) (BgWrongSamplerFiltering b a (smp_filtering s))
                   | None \<Rightarrow> Inr ()) (\<lambda>_.
         and_then (ensure (\<not> allowed_comparison \<noteq> smp_comparison s)
                     (BgWrongSamplerComparison b allowed_comparison (smp_comparison s))) (\<lambda>_.
         Inr (gp\<lparr>gp_hal_samplers := gp_hal_samplers gp @ [smp_id s]\<rparr>))))
    | ty \<Rightarrow> Inl (BgWrongBindingType b ty))"

definition view_check_usage :: "view_data \<Rightarrow> texture_usages \<Rightarrow> bind_group_error + unit" where
  "view_check_usage v expected =
    ensure (contains (tv_usage v) expected) (BgMissingTextureUsage (tv_texture v) (tv_usage v) expected)"

definition view_same_device :: "device \<Rightarrow> view_data \<Rightarrow> bind_group_error + unit" where
  "view_same_device dev v = ensure (tv_device v = dev_id dev) (BgDevice (DeviceMismatch (tv_device v) (dev_id dev)))"

definition view_try_raw :: "bound_view \<Rightarrow> bind_group_error + nat" where
  "view_try_raw v = map_err BgDestroyed (texture_try_raw (bv_texture v))"

definition sample_types_match :: "texture_sample_type \<Rightarrow> texture_sample_type \<Rightarrow> format_flags \<Rightarrow> bool" where
  "sample_types_match layout_type view_type flags =
    (case (layout_type, view_type) of
       (SampleUint, SampleUint) \<Rightarrow> True
     | (SampleSint, SampleSint) \<Rightarrow> True
     | (SampleDepth, SampleDepth) \<Rightarrow> True
     | (SampleFloat False, SampleFloat _) \<Rightarrow> True
     | (SampleFloat True, SampleFloat True) \<Rightarrow> True
     | (SampleFloat False, SampleDepth) \<Rightarrow> True
     | (SampleFloat True, SampleFloat _) \<Rightarrow> contains flags ff_filterable
     | _ \<Rightarrow> False)"

definition selected_mip_count :: "view_data \<Rightarrow> u32" where
  "selected_mip_count v = (let mips = sel_mips (view_data.tv_selector v) in rend mips - rstart mips)"

text \<open>\<open>None\<close> is the panic of \<open>unwrap\<close> on a view without a sample type.\<close>

definition texture_use_parameters ::
  "device \<Rightarrow> u32 \<Rightarrow> layout_entry \<Rightarrow> view_data \<Rightarrow> (bind_group_error + texture_uses) option" where
  "texture_use_parameters dev b decl v =
    (if contains (view_aspects v) fa_depth_stencil then Some (Inl BgDepthStencilAspect)
     else case le_ty decl of
       BtTexture sample_ty view_dimension multisampled \<Rightarrow>
         if multisampled \<noteq> (tv_samples v \<noteq> 1) then Some (Inl (BgInvalidTextureMultisample b multisampled (tv_samples v)))
         else map_option (\<lambda>compat.
           and_then (ensure (sample_types_match sample_ty compat (format_flags (tv_format_features v)))
                       (BgInvalidTextureSampleType b sample_ty (tv_format v) compat)) (\<lambda>_.
           and_then (ensure (\<not> view_dimension \<noteq> tv_dimension v)
                       (BgInvalidTextureDimension b view_dimension (tv_dimension v))) (\<lambda>_.
           and_then (view_check_usage v tu_texture_binding) (\<lambda>_. Inr tx_resource))))
           (sample_type (tv_format v) (Some (isr_aspect (tv_range v))) (Some (dev_features dev)))
     | BtStorageTexture access f view_dimension \<Rightarrow> Some (
         and_then (ensure (\<not> f \<noteq> tv_format v) (BgInvalidStorageTextureFormat b f (tv_format v))) (\<lambda>_.
         and_then (ensure (\<not> view_dimension \<noteq> tv_dimension v)
                     (BgInvalidTextureDimension b view_dimension (tv_dimension v))) (\<lambda>_.
         and_then (ensure (\<not> selected_mip_count v \<noteq> 1) (BgInvalidStorageTextureMipLevelCount b (selected_mip_count v))) (\<lambda>_.
         and_then (view_check_usage v tu_storage_binding) (\<lambda>_.
         Inr (case access of AccessReadOnly \<Rightarrow> tx_storage_read_only | AccessWriteOnly \<Rightarrow> tx_storage_write_only
              | AccessReadWrite \<Rightarrow> tx_storage_read_write | AccessAtomic \<Rightarrow> tx_storage_atomic))))))
     | BtExternalTexture \<Rightarrow> Some (
         and_then (ensure (\<not> tv_dimension v \<noteq> ViewD2) (BgInvalidTextureDimension b ViewD2 (tv_dimension v))) (\<lambda>_.
         and_then (ensure (\<not> selected_mip_count v \<noteq> 1) (BgInvalidExternalTextureMipLevelCount b (selected_mip_count v))) (\<lambda>_.
         and_then (ensure (tv_format v = Rgba8Unorm \<or> tv_format v = Bgra8Unorm \<or> tv_format v = Rgba16Float)
                     (BgInvalidExternalTextureFormat b (tv_format v))) (\<lambda>_.
         and_then (ensure (\<not> tv_samples v \<noteq> 1) (BgInvalidTextureMultisample b False (tv_samples v))) (\<lambda>_.
         and_then (view_check_usage v tu_texture_binding) (\<lambda>_. Inr tx_resource))))))
     | ty \<Rightarrow> Some (Inl (BgWrongBindingType b ty)))"

definition used_view :: "bound_view \<Rightarrow> texture_view" where
  "used_view v = \<lparr>tv_parent = \<lparr>tr_index = tex_index (bv_texture v), tr_full_range = tex_full_range (bv_texture v)\<rparr>,
                  texture_view.tv_selector = view_data.tv_selector (bv_view v)\<rparr>"

definition view_init_range :: "bound_view \<Rightarrow> texture_init_range" where
  "view_init_range v =
    (let d = tex_desc (bv_texture v); r = tv_range (bv_view v) in
     \<lparr>mip_range = isr_mip_range r (td_mip_level_count d), layer_range = isr_layer_range r (array_layer_count d)\<rparr>)"

definition create_texture_binding ::
  "device \<Rightarrow> u32 \<Rightarrow> layout_entry \<Rightarrow> bound_view \<Rightarrow> group_parts \<Rightarrow> (bind_group_error + group_parts) option" where
  "create_texture_binding dev b decl v gp =
    (case view_same_device dev (bv_view v) of
       Inl e \<Rightarrow> Some (Inl e)
     | Inr _ \<Rightarrow>
         map_option (\<lambda>r.
           and_then r (\<lambda>internal_use.
           and_then (view_try_raw v) (\<lambda>raw.
           Inr (gp\<lparr>gp_views := views_insert_single (used_view v) internal_use (gp_views gp),
                   gp_texture_ranges := gp_texture_ranges gp @
                     [\<lparr>ti_texture = tex_index (bv_texture v), ti_range = view_init_range v, ti_kind = NeedsInitializedMemory\<rparr>],
                   gp_hal_textures := gp_hal_textures gp @ [(raw, internal_use)]\<rparr>))))
         (texture_use_parameters dev b decl (bv_view v)))"

definition create_tlas_binding ::
  "device \<Rightarrow> u32 \<Rightarrow> layout_entry \<Rightarrow> tlas \<Rightarrow> group_parts \<Rightarrow> bind_group_error + group_parts" where
  "create_tlas_binding dev b decl t gp =
    and_then (ensure (tl_device t = dev_id dev) (BgDevice (DeviceMismatch (tl_device t) (dev_id dev)))) (\<lambda>_.
    case le_ty decl of
      BtAccelerationStructure vertex_return \<Rightarrow>
        and_then (ensure (\<not> (vertex_return \<and> \<not> tl_vertex_return t)) (BgMissingTlasVertexReturn b)) (\<lambda>_.
        and_then (ensure (\<not> tl_destroyed t) (BgDestroyed (tl_id t))) (\<lambda>_.
        Inr (gp\<lparr>gp_hal_tlas := gp_hal_tlas gp @ [tl_id t]\<rparr>)))
    | ty \<Rightarrow> Inl (BgWrongBindingType b ty))"

text \<open>The views of an external texture; the used ones stay recorded up to the first error.\<close>

fun external_planes :: "bound_view list \<Rightarrow> texture_view_bind_group_state
    \<Rightarrow> bind_group_error + (nat \<times> texture_uses) list \<times> texture_view_bind_group_state" where
  "external_planes [] used = Inr ([], used)"
| "external_planes (p # ps) used =
     and_then (view_try_raw p) (\<lambda>raw.
     and_then (external_planes ps (views_insert_single (used_view p) tx_resource used)) (\<lambda>(rest, used').
     Inr ((raw, tx_resource) # rest, used')))"

definition three_planes :: "bound_view list \<Rightarrow> bound_view list option" where
  "three_planes ps =
    those (map (\<lambda>i. if i < length ps then Some (ps ! i) else vec_get ps 0) [0..<3])"

definition create_external_texture_binding ::
  "device \<Rightarrow> u32 \<Rightarrow> layout_entry \<Rightarrow> external_texture \<Rightarrow> group_parts \<Rightarrow> (bind_group_error + group_parts) option" where
  "create_external_texture_binding dev b decl x gp =
    (if xt_device x \<noteq> dev_id dev then Some (Inl (BgDevice (DeviceMismatch (xt_device x) (dev_id dev))))
     else if le_ty decl \<noteq> BtExternalTexture then Some (Inl (BgWrongBindingType b (le_ty decl)))
     else map_option (\<lambda>ps.
       and_then (external_planes ps (gp_views gp)) (\<lambda>(raws, views).
       let params = xt_params x in
       and_then (map_err BgBindingError (binding params 0 None)) (\<lambda>(raw, _).
       Inr (gp\<lparr>gp_views := views,
               gp_buffers := bind_group_insert_single (gb_index (bst_buffer params)) bu_uniform (gp_buffers gp),
               gp_hal_external := gp_hal_external gp @ [(raws, Some raw)]\<rparr>)))) (three_planes (xt_planes x)))"

text \<open>A view bound as an external texture stands for its three planes, with the default parameters.\<close>

definition create_external_texture_binding_from_view ::
  "device \<Rightarrow> u32 \<Rightarrow> layout_entry \<Rightarrow> bound_view \<Rightarrow> group_parts \<Rightarrow> (bind_group_error + group_parts) option" where
  "create_external_texture_binding_from_view dev b decl v gp =
    (case view_same_device dev (bv_view v) of
       Inl e \<Rightarrow> Some (Inl e)
     | Inr _ \<Rightarrow>
         map_option (\<lambda>r.
           and_then r (\<lambda>internal_use.
           and_then (ensure (le_ty decl = BtExternalTexture) (BgWrongBindingType b (le_ty decl))) (\<lambda>_.
           and_then (view_try_raw v) (\<lambda>raw.
           Inr (gp\<lparr>gp_views := views_insert_single (used_view v) internal_use (gp_views gp),
                   gp_hal_external := gp_hal_external gp @ [(replicate 3 (raw, internal_use), None)]\<rparr>)))))
         (texture_use_parameters dev b decl (bv_view v)))"

section \<open>Bind groups\<close>

definition check_array_binding :: "features \<Rightarrow> u32 option \<Rightarrow> nat \<Rightarrow> bind_group_error + unit" where
  "check_array_binding fs n num_bindings =
    (case n of
       None \<Rightarrow> Inl BgSingleBindingExpected
     | Some c \<Rightarrow>
         and_then (ensure (\<not> unat c < num_bindings) (BgArrayPartialLengthMismatch num_bindings (unat c))) (\<lambda>_.
         and_then (ensure (\<not> (unat c \<noteq> num_bindings \<and> \<not> features_contain fs partially_bound_binding_array))
                     (BgArrayLengthMismatch num_bindings (unat c))) (\<lambda>_.
         ensure (num_bindings \<noteq> 0) BgArrayZeroLength)))"

fun bind_all :: "('r \<Rightarrow> group_parts \<Rightarrow> (bind_group_error + group_parts) option) \<Rightarrow> 'r list \<Rightarrow> group_parts
    \<Rightarrow> (bind_group_error + group_parts) option" where
  "bind_all f [] gp = Some (Inr gp)"
| "bind_all f (r # rs) gp =
     (case f r gp of None \<Rightarrow> None | Some (Inl e) \<Rightarrow> Some (Inl e) | Some (Inr gp') \<Rightarrow> bind_all f rs gp')"

definition bind_array ::
  "device \<Rightarrow> layout_entry \<Rightarrow> ('r \<Rightarrow> group_parts \<Rightarrow> (bind_group_error + group_parts) option) \<Rightarrow> 'r list \<Rightarrow> group_parts
   \<Rightarrow> (bind_group_error + group_parts) option" where
  "bind_array dev decl f rs gp =
    (case check_array_binding (dev_features dev) (le_count decl) (length rs) of
       Inl e \<Rightarrow> Some (Inl e) | Inr _ \<Rightarrow> bind_all f rs gp)"

text \<open>The binding of one entry, the index of its first resource and how many there are.\<close>

definition bind_resource ::
  "device \<Rightarrow> u32 \<Rightarrow> layout_entry \<Rightarrow> binding_resource \<Rightarrow> group_parts \<Rightarrow> (bind_group_error + group_parts) option" where
  "bind_resource dev b decl r gp =
    (case r of
       ResBuffer x \<Rightarrow> create_buffer_binding dev b decl x gp
     | ResBufferArray xs \<Rightarrow> bind_array dev decl (create_buffer_binding dev b decl) xs gp
     | ResSampler x \<Rightarrow> Some (create_sampler_binding dev b decl x gp)
     | ResSamplerArray xs \<Rightarrow> bind_array dev decl (\<lambda>x g. Some (create_sampler_binding dev b decl x g)) xs gp
     | ResTextureView v \<Rightarrow>
         if le_ty decl = BtExternalTexture then create_external_texture_binding_from_view dev b decl v gp
         else create_texture_binding dev b decl v gp
     | ResTextureViewArray vs \<Rightarrow> bind_array dev decl (create_texture_binding dev b decl) vs gp
     | ResAccelerationStructure x \<Rightarrow> Some (create_tlas_binding dev b decl x gp)
     | ResAccelerationStructureArray xs \<Rightarrow> bind_array dev decl (\<lambda>x g. Some (create_tlas_binding dev b decl x g)) xs gp
     | ResExternalTexture x \<Rightarrow> create_external_texture_binding dev b decl x gp)"

definition resource_slot :: "binding_resource \<Rightarrow> layout_entry \<Rightarrow> group_parts \<Rightarrow> nat \<times> nat" where
  "resource_slot r decl gp =
    (case r of
       ResBuffer _ \<Rightarrow> (length (gp_hal_buffers gp), 1)
     | ResBufferArray xs \<Rightarrow> (length (gp_hal_buffers gp), length xs)
     | ResSampler _ \<Rightarrow> (length (gp_hal_samplers gp), 1)
     | ResSamplerArray xs \<Rightarrow> (length (gp_hal_samplers gp), length xs)
     | ResTextureView _ \<Rightarrow>
         (if le_ty decl = BtExternalTexture then length (gp_hal_external gp) else length (gp_hal_textures gp), 1)
     | ResTextureViewArray vs \<Rightarrow> (length (gp_hal_textures gp), length vs)
     | ResAccelerationStructure _ \<Rightarrow> (length (gp_hal_tlas gp), 1)
     | ResAccelerationStructureArray xs \<Rightarrow> (length (gp_hal_tlas gp), length xs)
     | ResExternalTexture _ \<Rightarrow> (length (gp_hal_external gp), 1))"

definition bind_entry ::
  "device \<Rightarrow> bind_group_layout \<Rightarrow> u32 \<times> binding_resource \<Rightarrow> group_parts \<Rightarrow> (bind_group_error + group_parts) option" where
  "bind_entry dev l e gp =
    (case e of (b, r) \<Rightarrow>
       (case entry_get (bgl_entries l) b of
          None \<Rightarrow> Some (Inl (BgMissingBindingDeclaration b))
        | Some decl \<Rightarrow>
            let (res_index, n) = resource_slot r decl gp in
            map_option (\<lambda>res. and_then res (\<lambda>gp'. Inr (gp'\<lparr>gp_entries := gp_entries gp' @ [(b, res_index, n)]\<rparr>)))
              (bind_resource dev b decl r gp)))"

fun duplicate_binding :: "(u32 \<times> nat \<times> nat) list \<Rightarrow> u32 option" where
  "duplicate_binding (x # y # rest) =
     (if fst x = fst y then Some (fst x) else duplicate_binding (y # rest))"
| "duplicate_binding xs = None"

record bind_group =
  grp_index :: nat
  grp_device :: nat
  grp_layout :: bind_group_layout
  grp_destroyed :: bool
  grp_buffers :: buffer_bind_group_state
  grp_views :: texture_view_bind_group_state
  grp_buffer_ranges :: "buffer_init_tracker_action list"
  grp_texture_ranges :: "texture_init_tracker_action list"
  grp_dynamic :: "dynamic_binding list"
  grp_late :: "(u32 \<times> u64) list"

text \<open>The descriptor given to the backend is the answer's argument.\<close>

definition late_infos :: "entry_map \<Rightarrow> (u32 \<rightharpoonup> u64) \<Rightarrow> (u32 \<times> u64) list" where
  "late_infos m late =
    concat (map (\<lambda>e. case late (le_binding e) of Some n \<Rightarrow> [(le_binding e, n)] | None \<Rightarrow> []) m)"

definition finish_bind_group ::
  "device \<Rightarrow> (group_parts \<Rightarrow> device_error option) \<Rightarrow> nat \<Rightarrow> bind_group_layout \<Rightarrow> group_parts \<Rightarrow> bind_group_error + bind_group" where
  "finish_bind_group dev hal new_index l gp =
    (let gp = gp\<lparr>gp_buffers := bind_group_optimize (gp_buffers gp), gp_views := views_optimize (gp_views gp),
                 gp_entries := sort_key fst (gp_entries gp)\<rparr> in
     case duplicate_binding (gp_entries gp) of
       Some b \<Rightarrow> Inl (BgDuplicateBinding b)
     | None \<Rightarrow>
         and_then (map_err BgDevice (hal_ok (hal gp))) (\<lambda>_.
         Inr \<lparr>grp_index = new_index, grp_device = dev_id dev, grp_layout = l, grp_destroyed = False,
              grp_buffers = gp_buffers gp, grp_views = gp_views gp, grp_buffer_ranges = gp_buffer_ranges gp,
              grp_texture_ranges = gp_texture_ranges gp, grp_dynamic = sort_key dy_binding (gp_dynamic gp),
              grp_late = late_infos (bgl_entries l) (gp_late gp)\<rparr>))"

definition create_bind_group ::
  "device \<Rightarrow> (group_parts \<Rightarrow> device_error option) \<Rightarrow> nat \<Rightarrow> bind_group_layout \<Rightarrow> (u32 \<times> binding_resource) list
   \<Rightarrow> (bind_group_error + bind_group) option" where
  "create_bind_group dev hal new_index l es =
    (case
       and_then (map_err BgDevice (check_is_valid dev)) (\<lambda>_.
       and_then (ensure (bgl_device l = dev_id dev) (BgDevice (DeviceMismatch (bgl_device l) (dev_id dev)))) (\<lambda>_.
       ensure (length es = length (bgl_entries l)) (BgBindingsNumMismatch (length es) (length (bgl_entries l)))))
     of Inl e \<Rightarrow> Some (Inl e)
      | Inr _ \<Rightarrow>
          map_option (\<lambda>r. and_then r (finish_bind_group dev hal new_index l)) (bind_all (bind_entry dev l) es no_parts))"

section \<open>Using a bind group\<close>

text \<open>The resources with uninitialised parts are asked whether they are destroyed, then the group.\<close>

definition group_try_raw :: "(nat \<Rightarrow> bool) \<Rightarrow> (nat \<Rightarrow> bool) \<Rightarrow> bind_group \<Rightarrow> nat + nat" where
  "group_try_raw buffer_destroyed texture_destroyed g =
    (case find buffer_destroyed (map bi_buffer (grp_buffer_ranges g)) of
       Some i \<Rightarrow> Inl i
     | None \<Rightarrow>
         (case find texture_destroyed (map ti_texture (grp_texture_ranges g)) of
            Some i \<Rightarrow> Inl i
          | None \<Rightarrow> if grp_destroyed g then Inl (grp_index g) else Inr (grp_index g)))"

datatype bind_error =
  BeDynamicOffsetCountNotZero u32 nat
| BeMismatchedDynamicOffsetCount u32 nat nat
| BeUnalignedDynamicBinding nat u32 u32 u32 u32
| BeDynamicBindingOutOfBounds nat u32 u32 u32 u64 "u64 range_t" u64

fun validate_offsets :: "limits \<Rightarrow> u32 \<Rightarrow> nat \<Rightarrow> (dynamic_binding \<times> u32) list \<Rightarrow> bind_error + unit" where
  "validate_offsets l gi idx [] = Inr ()"
| "validate_offsets l gi idx ((i, offset) # rest) =
     (let al = binding_type_alignment l (dy_type i) in
      if (ucast offset :: u64) mod ucast al \<noteq> 0 then Inl (BeUnalignedDynamicBinding idx gi (dy_binding i) offset al)
      else if ucast offset > dy_maximum_offset i then
        Inl (BeDynamicBindingOutOfBounds idx gi (dy_binding i) offset (dy_buffer_size i) (dy_range i) (dy_maximum_offset i))
      else validate_offsets l gi (Suc idx) rest)"

definition validate_dynamic_bindings :: "limits \<Rightarrow> bind_group \<Rightarrow> u32 \<Rightarrow> u32 list \<Rightarrow> bind_error + unit" where
  "validate_dynamic_bindings l g gi offsets =
    (if length (grp_dynamic g) \<noteq> length offsets then
       Inl (BeMismatchedDynamicOffsetCount gi (length offsets) (length (grp_dynamic g)))
     else validate_offsets l gi 0 (zip (grp_dynamic g) offsets))"

section \<open>Dynamic offsets stay inside the buffer\<close>

text \<open>The buffers an entry binds.\<close>

fun resource_buffers :: "binding_resource \<Rightarrow> buffer_binding list" where
  "resource_buffers (ResBuffer x) = [x]"
| "resource_buffers (ResBufferArray xs) = xs"
| "resource_buffers _ = []"

text \<open>The bytes a binding makes visible: as many as it asks for, or the rest of the buffer.\<close>

definition bound_size :: "buffer_binding \<Rightarrow> nat" where
  "bound_size x = (case bb_size x of Some n \<Rightarrow> unat n | None \<Rightarrow> unat (gb_size (bst_buffer (bb_buffer x))) - unat (bb_offset x))"

definition hal_binding :: "buffer_binding \<Rightarrow> hal_buffer_binding" where
  "hal_binding x = (gb_index (bst_buffer (bb_buffer x)), bb_offset x, bb_size x)"

definition bound_buffers :: "(u32 \<times> binding_resource) list \<Rightarrow> buffer_binding list" where
  "bound_buffers es = concat (map (\<lambda>(b, r). resource_buffers r) es)"

text \<open>A bound buffer is declared, aligned, of the usage, and with its visible bytes inside and within the limit.\<close>

definition binding_ok :: "device \<Rightarrow> bind_group_layout \<Rightarrow> u32 \<Rightarrow> buffer_binding \<Rightarrow> bool" where
  "binding_ok dev l b x \<longleftrightarrow> (\<exists>decl t dyn m. entry_get (bgl_entries l) b = Some decl \<and> le_ty decl = BtBuffer t dyn m
     \<and> unat (binding_type_alignment (dev_limits dev) t) dvd unat (bb_offset x)
     \<and> unat (bb_offset x) + bound_size x \<le> unat (gb_size (bst_buffer (bb_buffer x)))
     \<and> bound_size x \<le> unat (snd (snd (buffer_binding_use (dev_limits dev) t)))
     \<and> contains (gb_usage (bst_buffer (bb_buffer x))) (fst (buffer_binding_use (dev_limits dev) t))
     \<and> (case m of Some k \<Rightarrow> unat k \<le> bound_size x | None \<Rightarrow> 0 < bound_size x))"

text \<open>A dynamic binding describes the range of one of the bound buffers.\<close>

definition dynamic_sound :: "device \<Rightarrow> bind_group_layout \<Rightarrow> (u32 \<times> binding_resource) list \<Rightarrow> dynamic_binding \<Rightarrow> bool" where
  "dynamic_sound dev l es d \<longleftrightarrow>
     (\<exists>r x decl m. (dy_binding d, r) \<in> set es \<and> x \<in> set (resource_buffers r)
        \<and> entry_get (bgl_entries l) (dy_binding d) = Some decl \<and> le_ty decl = BtBuffer (dy_type d) True m
        \<and> dy_buffer_size d = gb_size (bst_buffer (bb_buffer x)) \<and> rstart (dy_range d) = bb_offset x
        \<and> unat (rend (dy_range d)) = unat (bb_offset x) + bound_size x)
     \<and> rstart (dy_range d) \<le> rend (dy_range d)
     \<and> unat (dy_maximum_offset d) + unat (rend (dy_range d)) = unat (dy_buffer_size d)
     \<and> unat (binding_type_alignment (dev_limits dev) (dy_type d)) dvd unat (rstart (dy_range d))"

lemma word_dvd_unat:
  fixes x :: u64 and a :: u32
  assumes "x mod ucast a = 0"
  shows "unat a dvd unat x"
proof -
  have "unat (ucast a :: u64) dvd unat x" using assms by (metis mod_eq_0_iff_dvd unat_0 unat_mod)
  then show ?thesis by (simp add: unat_ucast_u64)
qed

lemma binding_inside:
  assumes "binding b offset sz = Inr (raw, n)"
  shows "unat offset + unat n \<le> unat (gb_size (bst_buffer b))"
  using assms
  by (auto simp: binding_def resolve_binding_size_def Let_def ok_or_def and_then_Inr checked_add_Some checked_sub_Some
      word_le_nat_alt split: if_splits option.splits)

lemma binding_size:
  assumes "binding (bb_buffer x) (bb_offset x) (bb_size x) = Inr (raw, n)"
  shows "unat n = bound_size x \<and> raw = hal_binding x"
  using assms
  by (auto simp: binding_def resolve_binding_size_def Let_def ok_or_def and_then_Inr checked_add_Some checked_sub_Some
      bound_size_def hal_binding_def unat_sub split: if_splits option.splits)

lemma requested_size_same: "requested_size i sz = Inr sz' \<Longrightarrow> sz' = sz"
  by (auto simp: requested_size_def split: option.splits if_splits)

lemma check_buffer_binding_ok:
  assumes "check_buffer_binding dev b t x = Inr (raw, n)"
  shows "unat (binding_type_alignment (dev_limits dev) t) dvd unat (bb_offset x)"
    and "unat (bb_offset x) + unat n \<le> unat (gb_size (bst_buffer (bb_buffer x)))"
    and "unat n = bound_size x" and "raw = hal_binding x"
    and "n \<le> snd (snd (buffer_binding_use (dev_limits dev) t))"
    and "contains (gb_usage (bst_buffer (bb_buffer x))) (fst (buffer_binding_use (dev_limits dev) t))"
proof -
  obtain u use lim where use: "buffer_binding_use (dev_limits dev) t = (u, use, lim)" by (metis prod_cases3)
  obtain v where c: "bb_offset x mod ucast (binding_type_alignment (dev_limits dev) t) = 0"
    "check_usage (bst_buffer (bb_buffer x)) u = Inr v"
    "binding (bb_buffer x) (bb_offset x) (bb_size x) = Inr (raw, n)" "\<not> n > lim"
    using assms unfolding check_buffer_binding_def Let_def use
    by (auto simp: and_then_Inr map_err_Inr ensure_Inr simp del: mod_eq_0_iff_dvd dest: requested_size_same)
  show "unat (binding_type_alignment (dev_limits dev) t) dvd unat (bb_offset x)" by (rule word_dvd_unat [OF c(1)])
  show "unat (bb_offset x) + unat n \<le> unat (gb_size (bst_buffer (bb_buffer x)))" by (rule binding_inside [OF c(3)])
  show "unat n = bound_size x" "raw = hal_binding x" using binding_size [OF c(3)] by simp_all
  show "n \<le> snd (snd (buffer_binding_use (dev_limits dev) t))" using c(4) use by simp
  show "contains (gb_usage (bst_buffer (bb_buffer x))) (fst (buffer_binding_use (dev_limits dev) t))"
    using c(2) use by (auto simp: check_usage_def ensure_def split: if_splits)
qed

lemma bound_range_arith:
  fixes off n sz :: u64
  assumes "unat off + unat n \<le> unat sz"
  shows "off \<le> off + n" and "unat (off + n) = unat off + unat n" and "unat (sz - (off + n)) + unat (off + n) = unat sz"
proof -
  have e: "unat (off + n) = unat off + unat n"
    using assms unsigned_less [of sz, where ?'a = nat] by (simp add: unat_word_ariths(1))
  then show "off \<le> off + n" "unat (off + n) = unat off + unat n" by (simp_all add: word_le_nat_alt)
  have "off + n \<le> sz" using assms e by (simp add: word_le_nat_alt)
  then show "unat (sz - (off + n)) + unat (off + n) = unat sz" by (simp add: unat_sub word_le_nat_alt)
qed

lemma create_buffer_binding_dynamic:
  assumes "create_buffer_binding dev b decl r gp = Some (Inr gp')"
    and "(b, res) \<in> set es" and "r \<in> set (resource_buffers res)" and "entry_get (bgl_entries l) b = Some decl"
    and "\<forall>d\<in>set (gp_dynamic gp). dynamic_sound dev l es d"
  shows "\<forall>d\<in>set (gp_dynamic gp'). dynamic_sound dev l es d"
proof -
  obtain t dyn m where ty: "le_ty decl = BtBuffer t dyn m"
    using assms(1) by (cases "le_ty decl") (auto simp: create_buffer_binding_def)
  obtain raw n where c: "check_buffer_binding dev b t r = Inr (raw, n)"
    and new: "gp_dynamic gp' = gp_dynamic gp @
       (if dyn then [\<lparr>dy_binding = b, dy_buffer_size = gb_size (bst_buffer (bb_buffer r)),
          dy_range = Range (bb_offset r) (bb_offset r + n),
          dy_maximum_offset = gb_size (bst_buffer (bb_buffer r)) - (bb_offset r + n), dy_type = t\<rparr>] else [])"
    using assms(1) unfolding create_buffer_binding_def ty Let_def
    by (auto simp: and_then_Inr split: sum.splits prod.splits if_splits)
  note ok = check_buffer_binding_ok [OF c]
  note arith = bound_range_arith [OF ok(2)]
  have rest: "unat (gb_size (bst_buffer (bb_buffer r)) - (bb_offset r + n)) + (unat (bb_offset r) + bound_size r)
      = unat (gb_size (bst_buffer (bb_buffer r)))" using arith(2,3) ok(3) by simp
  have "dynamic_sound dev l es \<lparr>dy_binding = b, dy_buffer_size = gb_size (bst_buffer (bb_buffer r)),
          dy_range = Range (bb_offset r) (bb_offset r + n),
          dy_maximum_offset = gb_size (bst_buffer (bb_buffer r)) - (bb_offset r + n), dy_type = t\<rparr>" if dyn
    unfolding dynamic_sound_def using assms(2-4) ty that
    by (intro conjI exI [of _ res] exI [of _ r] exI [of _ decl] exI [of _ m])
       (simp_all only: arith(1,2) rest ok(1,3) dynamic_binding.simps range_t.sel)
  with assms(5) show ?thesis unfolding new by auto
qed

lemma bind_all_invariant:
  assumes "bind_all f rs gp = Some (Inr gp')" and "P gp"
    and "\<And>r g g'. r \<in> set rs \<Longrightarrow> P g \<Longrightarrow> f r g = Some (Inr g') \<Longrightarrow> P g'"
  shows "P gp'"
  using assms
proof (induction f rs gp rule: bind_all.induct)
  case (1 f gp)
  then show ?case by simp
next
  case (2 f r rs gp)
  from 2(2) obtain g where g: "f r gp = Some (Inr g)" "bind_all f rs g = Some (Inr gp')"
    by (auto split: option.splits sum.splits)
  have "P g" by (rule 2(4) [OF _ 2(3) g(1)]) simp
  show ?case
    by (rule 2(1) [OF g(1) refl g(2) \<open>P g\<close>]) (rule 2(4), auto)
qed

lemma create_texture_binding_dynamic:
  assumes "create_texture_binding dev b decl v gp = Some (Inr gp')"
  shows "gp_dynamic gp' = gp_dynamic gp"
  using assms by (auto simp: create_texture_binding_def and_then_Inr split: sum.splits)

lemma create_sampler_binding_dynamic:
  "create_sampler_binding dev b decl x gp = Inr gp' \<Longrightarrow> gp_dynamic gp' = gp_dynamic gp"
  by (auto simp: create_sampler_binding_def Let_def and_then_Inr split: binding_type.splits)

lemma create_tlas_binding_dynamic:
  "create_tlas_binding dev b decl x gp = Inr gp' \<Longrightarrow> gp_dynamic gp' = gp_dynamic gp"
  by (auto simp: create_tlas_binding_def Let_def and_then_Inr split: binding_type.splits)

lemma create_external_texture_binding_dynamic:
  "create_external_texture_binding dev b decl x gp = Some (Inr gp') \<Longrightarrow> gp_dynamic gp' = gp_dynamic gp"
  "create_external_texture_binding_from_view dev b decl v gp = Some (Inr gp') \<Longrightarrow> gp_dynamic gp' = gp_dynamic gp"
  by (auto simp: create_external_texture_binding_def create_external_texture_binding_from_view_def Let_def and_then_Inr
      split: sum.splits if_splits prod.splits)

lemma bind_array_bind_all:
  "bind_array dev decl f rs gp = Some (Inr gp') \<Longrightarrow> bind_all f rs gp = Some (Inr gp')"
  by (auto simp: bind_array_def split: sum.splits)

lemma bind_resource_dynamic:
  assumes b: "bind_resource dev b decl r gp = Some (Inr gp')"
    and es: "(b, r) \<in> set es" "entry_get (bgl_entries l) b = Some decl"
    and gp: "\<forall>d\<in>set (gp_dynamic gp). dynamic_sound dev l es d"
  shows "\<forall>d\<in>set (gp_dynamic gp'). dynamic_sound dev l es d"
proof (cases r)
  case (ResBuffer x)
  then show ?thesis
    using create_buffer_binding_dynamic [OF _ es(1) _ es(2) gp, of x] b by (simp add: bind_resource_def)
next
  case (ResBufferArray xs)
  have "bind_all (create_buffer_binding dev b decl) xs gp = Some (Inr gp')"
    using b ResBufferArray by (simp add: bind_resource_def bind_array_bind_all)
  then show ?thesis
    by (rule bind_all_invariant [where P = "\<lambda>g. \<forall>d\<in>set (gp_dynamic g). dynamic_sound dev l es d"])
       (rule gp, rule create_buffer_binding_dynamic [OF _ es(1) _ es(2)], simp_all add: ResBufferArray)
next
  case (ResSamplerArray xs)
  have "bind_all (\<lambda>x g. Some (create_sampler_binding dev b decl x g)) xs gp = Some (Inr gp')"
    using b ResSamplerArray by (simp add: bind_resource_def bind_array_bind_all)
  then show ?thesis
    by (rule bind_all_invariant [where P = "\<lambda>g. \<forall>d\<in>set (gp_dynamic g). dynamic_sound dev l es d"])
       (rule gp, simp add: create_sampler_binding_dynamic)
next
  case (ResTextureViewArray xs)
  have "bind_all (create_texture_binding dev b decl) xs gp = Some (Inr gp')"
    using b ResTextureViewArray by (simp add: bind_resource_def bind_array_bind_all)
  then show ?thesis
    by (rule bind_all_invariant [where P = "\<lambda>g. \<forall>d\<in>set (gp_dynamic g). dynamic_sound dev l es d"])
       (rule gp, simp add: create_texture_binding_dynamic)
next
  case (ResAccelerationStructureArray xs)
  have "bind_all (\<lambda>x g. Some (create_tlas_binding dev b decl x g)) xs gp = Some (Inr gp')"
    using b ResAccelerationStructureArray by (simp add: bind_resource_def bind_array_bind_all)
  then show ?thesis
    by (rule bind_all_invariant [where P = "\<lambda>g. \<forall>d\<in>set (gp_dynamic g). dynamic_sound dev l es d"])
       (rule gp, simp add: create_tlas_binding_dynamic)
qed (use b gp in \<open>auto simp: bind_resource_def create_sampler_binding_dynamic create_texture_binding_dynamic
      create_tlas_binding_dynamic create_external_texture_binding_dynamic split: if_splits\<close>)

lemma bind_entry_dynamic:
  assumes "bind_entry dev l e gp = Some (Inr gp')" and "e \<in> set es"
    and "\<forall>d\<in>set (gp_dynamic gp). dynamic_sound dev l es d"
  shows "\<forall>d\<in>set (gp_dynamic gp'). dynamic_sound dev l es d"
proof -
  obtain b r where e: "e = (b, r)" by (cases e)
  from assms(1) obtain decl g where d: "entry_get (bgl_entries l) b = Some decl"
    and g: "bind_resource dev b decl r gp = Some (Inr g)" and eq: "gp_dynamic gp' = gp_dynamic g"
    unfolding bind_entry_def e by (auto simp: and_then_Inr split: option.splits prod.splits)
  show ?thesis unfolding eq using bind_resource_dynamic [OF g _ d assms(3)] assms(2) e by simp
qed

lemma create_bind_group_dynamic:
  assumes "create_bind_group dev hal i l es = Some (Inr g)" and "d \<in> set (grp_dynamic g)"
  shows "dynamic_sound dev l es d"
proof -
  obtain gp where gp: "bind_all (bind_entry dev l) es no_parts = Some (Inr gp)"
    and f: "finish_bind_group dev hal i l gp = Inr g"
    using assms(1) by (auto simp: create_bind_group_def and_then_Inr split: sum.splits)
  have "\<forall>d\<in>set (gp_dynamic gp). dynamic_sound dev l es d"
    by (rule bind_all_invariant [OF gp, where P = "\<lambda>g. \<forall>d\<in>set (gp_dynamic g). dynamic_sound dev l es d"])
       (simp add: no_parts_def, rule bind_entry_dynamic)
  moreover have "set (grp_dynamic g) = set (gp_dynamic gp)"
    using f by (auto simp: finish_bind_group_def Let_def and_then_Inr split: option.splits)
  ultimately show ?thesis using assms(2) by simp
qed

lemma validate_offsets_ok:
  assumes "validate_offsets l gi idx ds = Inr u" and "(d, o') \<in> set ds"
  shows "unat (binding_type_alignment l (dy_type d)) dvd unat o' \<and> unat o' \<le> unat (dy_maximum_offset d)"
  using assms
proof (induction l gi idx ds rule: validate_offsets.induct)
  case (2 l gi idx i offset rest)
  have a: "(ucast offset :: u64) mod ucast (binding_type_alignment l (dy_type i)) = 0"
    and b: "\<not> ucast offset > dy_maximum_offset i" and r: "validate_offsets l gi (Suc idx) rest = Inr u"
    using 2(2) by (simp_all only: validate_offsets.simps Let_def sum.simps not_not not_False_eq_True simp_thms split: if_splits)
  show ?case
  proof (cases "(d, o') = (i, offset)")
    case True
    then show ?thesis using word_dvd_unat [OF a] b by (simp add: unat_ucast_u64 not_less word_le_nat_alt)
  next
    case False
    then have "(d, o') \<in> set rest" using 2(3) by auto
    with 2(1) [OF refl _ _ r] a b show ?thesis by simp
  qed
qed simp

section \<open>Every bound buffer range is inside its buffer\<close>

lemma create_buffer_binding_bound:
  assumes "create_buffer_binding dev b decl x gp = Some (Inr gp')" and "entry_get (bgl_entries l) b = Some decl"
  shows "binding_ok dev l b x \<and> gp_hal_buffers gp' = gp_hal_buffers gp @ [hal_binding x]"
proof -
  obtain t dyn m where ty: "le_ty decl = BtBuffer t dyn m"
    using assms(1) by (cases "le_ty decl") (auto simp: create_buffer_binding_def)
  obtain raw n late where c: "check_buffer_binding dev b t x = Inr (raw, n)"
    and late: "late_size (gb_index (bst_buffer (bb_buffer x))) m n = Inr late"
    and new: "gp_hal_buffers gp' = gp_hal_buffers gp @ [raw]"
    using assms(1) unfolding create_buffer_binding_def ty Let_def
    by (auto simp: and_then_Inr split: sum.splits prod.splits if_splits)
  note ok = check_buffer_binding_ok [OF c]
  have "case m of Some k \<Rightarrow> unat k \<le> bound_size x | None \<Rightarrow> 0 < bound_size x"
    using late by (cases m) (auto simp: late_size_def word_le_nat_alt unat_gt_0 not_less split: if_splits simp flip: ok(3))
  then have "binding_ok dev l b x"
    unfolding binding_ok_def using ok assms(2) ty by (intro exI [of _ decl] exI [of _ t] exI [of _ dyn] exI [of _ m])
      (simp add: word_le_nat_alt)
  with new ok(4) show ?thesis by simp
qed

lemma bind_all_collects:
  assumes "bind_all f rs gp = Some (Inr gp')"
    and "\<And>r g g'. r \<in> set rs \<Longrightarrow> f r g = Some (Inr g') \<Longrightarrow> Q r \<and> gp_hal_buffers g' = gp_hal_buffers g @ h r"
  shows "(\<forall>r\<in>set rs. Q r) \<and> gp_hal_buffers gp' = gp_hal_buffers gp @ concat (map h rs)"
  using assms
proof (induction f rs gp rule: bind_all.induct)
  case (1 f gp)
  then show ?case by simp
next
  case (2 f r rs gp)
  from 2(2) obtain g where g: "f r gp = Some (Inr g)" "bind_all f rs g = Some (Inr gp')"
    by (auto split: option.splits sum.splits)
  have first: "Q r \<and> gp_hal_buffers g = gp_hal_buffers gp @ h r" by (rule 2(3) [OF _ g(1)]) simp
  have "(\<forall>r\<in>set rs. Q r) \<and> gp_hal_buffers gp' = gp_hal_buffers g @ concat (map h rs)"
    by (rule 2(1) [OF g(1) refl g(2)]) (rule 2(3), auto)
  with first show ?case by simp
qed

text \<open>The other resources leave the list of buffers alone.\<close>

lemma other_bindings_buffers:
  "create_texture_binding dev b decl v gp = Some (Inr gp') \<Longrightarrow> gp_hal_buffers gp' = gp_hal_buffers gp"
  "create_sampler_binding dev b decl x gp = Inr gp' \<Longrightarrow> gp_hal_buffers gp' = gp_hal_buffers gp"
  "create_tlas_binding dev b decl y gp = Inr gp' \<Longrightarrow> gp_hal_buffers gp' = gp_hal_buffers gp"
  "create_external_texture_binding dev b decl z gp = Some (Inr gp') \<Longrightarrow> gp_hal_buffers gp' = gp_hal_buffers gp"
  "create_external_texture_binding_from_view dev b decl v gp = Some (Inr gp') \<Longrightarrow> gp_hal_buffers gp' = gp_hal_buffers gp"
  by (auto simp: create_texture_binding_def create_sampler_binding_def create_tlas_binding_def
      create_external_texture_binding_def create_external_texture_binding_from_view_def Let_def and_then_Inr
      split: sum.splits if_splits prod.splits binding_type.splits)

lemma bind_array_buffers:
  assumes "bind_array dev decl f rs gp = Some (Inr gp')"
    and "\<And>r g g'. f r g = Some (Inr g') \<Longrightarrow> gp_hal_buffers g' = gp_hal_buffers g"
  shows "gp_hal_buffers gp' = gp_hal_buffers gp"
  using bind_all_collects [OF bind_array_bind_all [OF assms(1)], where Q = "\<lambda>_. True" and h = "\<lambda>_. []"] assms(2) by simp

lemma bind_resource_bound:
  assumes b: "bind_resource dev b decl r gp = Some (Inr gp')" and decl: "entry_get (bgl_entries l) b = Some decl"
  shows "(\<forall>x\<in>set (resource_buffers r). binding_ok dev l b x)
    \<and> gp_hal_buffers gp' = gp_hal_buffers gp @ map hal_binding (resource_buffers r)"
proof (cases r)
  case (ResBuffer x)
  then show ?thesis using create_buffer_binding_bound [OF _ decl, of dev x gp gp'] b by (simp add: bind_resource_def)
next
  case (ResBufferArray xs)
  have "bind_all (create_buffer_binding dev b decl) xs gp = Some (Inr gp')"
    using b ResBufferArray by (simp add: bind_resource_def bind_array_bind_all)
  from bind_all_collects [OF this, where Q = "binding_ok dev l b" and h = "\<lambda>x. [hal_binding x]"]
  show ?thesis using create_buffer_binding_bound [OF _ decl] ResBufferArray by simp
next
  case (ResSamplerArray xs)
  have "gp_hal_buffers gp' = gp_hal_buffers gp"
    by (rule bind_array_buffers [of dev decl "\<lambda>x g. Some (create_sampler_binding dev b decl x g)" xs])
      (use b ResSamplerArray in \<open>auto simp: bind_resource_def other_bindings_buffers\<close>)
  with ResSamplerArray show ?thesis by simp
next
  case (ResTextureViewArray vs)
  have "gp_hal_buffers gp' = gp_hal_buffers gp"
    by (rule bind_array_buffers [of dev decl "create_texture_binding dev b decl" vs])
      (use b ResTextureViewArray in \<open>auto simp: bind_resource_def other_bindings_buffers\<close>)
  with ResTextureViewArray show ?thesis by simp
next
  case (ResAccelerationStructureArray xs)
  have "gp_hal_buffers gp' = gp_hal_buffers gp"
    by (rule bind_array_buffers [of dev decl "\<lambda>x g. Some (create_tlas_binding dev b decl x g)" xs])
      (use b ResAccelerationStructureArray in \<open>auto simp: bind_resource_def other_bindings_buffers\<close>)
  with ResAccelerationStructureArray show ?thesis by simp
qed (use b in \<open>auto simp: bind_resource_def other_bindings_buffers split: if_splits\<close>)

lemma bind_entry_bound:
  assumes "bind_entry dev l e gp = Some (Inr gp')"
  shows "(\<forall>x\<in>set (resource_buffers (snd e)). binding_ok dev l (fst e) x)
    \<and> gp_hal_buffers gp' = gp_hal_buffers gp @ map hal_binding (resource_buffers (snd e))"
proof -
  obtain b r where e: "e = (b, r)" by (cases e)
  from assms obtain decl g where d: "entry_get (bgl_entries l) b = Some decl"
    and g: "bind_resource dev b decl r gp = Some (Inr g)" and eq: "gp_hal_buffers gp' = gp_hal_buffers g"
    unfolding bind_entry_def e by (auto simp: and_then_Inr split: option.splits prod.splits)
  show ?thesis unfolding eq e using bind_resource_bound [OF g d] by simp
qed

lemma create_bind_group_bound:
  assumes "create_bind_group dev hal i l es = Some (Inr g)"
  shows "(\<forall>(b, r)\<in>set es. \<forall>x\<in>set (resource_buffers r). binding_ok dev l b x)
    \<and> (\<exists>gp. hal gp = None \<and> gp_hal_buffers gp = map hal_binding (bound_buffers es))"
proof -
  obtain gp where gp: "bind_all (bind_entry dev l) es no_parts = Some (Inr gp)"
    and f: "finish_bind_group dev hal i l gp = Inr g"
    using assms by (auto simp: create_bind_group_def and_then_Inr split: sum.splits)
  have "(\<forall>e\<in>set es. \<forall>x\<in>set (resource_buffers (snd e)). binding_ok dev l (fst e) x)
      \<and> gp_hal_buffers gp = gp_hal_buffers no_parts @ concat (map (\<lambda>e. map hal_binding (resource_buffers (snd e))) es)"
    by (rule bind_all_collects [OF gp]) (rule bind_entry_bound)
  moreover have "concat (map (\<lambda>e. map hal_binding (resource_buffers (snd e))) es) = map hal_binding (bound_buffers es)"
    by (induction es) (auto simp: bound_buffers_def)
  moreover obtain gp' where "hal gp' = None" "gp_hal_buffers gp' = gp_hal_buffers gp"
    using f by (auto simp: finish_bind_group_def Let_def and_then_Inr map_err_Inr hal_ok_def split: option.splits)
  ultimately show ?thesis by (fastforce simp: no_parts_def split_def)
qed

text \<open>C8: What a bind group that was created lets shaders address of its buffers. The backend is given, in
  the order of the entries, exactly the buffers, offsets and sizes of the descriptor. Every one of them,
  with a dynamic offset or without, is declared as a buffer, has the usage, starts at a multiple of the
  alignment, and its visible bytes, which are the size asked for or the rest of the buffer, are not fewer than
  the declared minimum (or not none), within the limit of the device and inside the buffer. With dynamic
  offsets that the group accepts there is one offset per dynamic binding, and the same visible bytes moved
  by the offset still end within the buffer, without wrapping around, and start at a multiple of the
  alignment.
\<close>

theorem bind_group_offsets_inside:
  assumes g: "create_bind_group dev hal i l es = Some (Inr g)"
    and v: "validate_dynamic_bindings (dev_limits dev) g gi offsets = Inr ()"
  shows "(\<exists>gp. hal gp = None \<and> gp_hal_buffers gp = map hal_binding (bound_buffers es))
    \<and> (\<forall>(b, r)\<in>set es. \<forall>x\<in>set (resource_buffers r). binding_ok dev l b x)
    \<and> length offsets = length (grp_dynamic g) \<and>
    (\<forall>k < length offsets. let d = grp_dynamic g ! k; al = unat (binding_type_alignment (dev_limits dev) (dy_type d)) in
       \<exists>r x. (dy_binding d, r) \<in> set es \<and> x \<in> set (resource_buffers r)
          \<and> unat (bb_offset x) + bound_size x + unat (offsets ! k) \<le> unat (gb_size (bst_buffer (bb_buffer x)))
          \<and> al dvd unat (bb_offset x) + unat (offsets ! k))"
proof (intro conjI allI impI)
  show "\<exists>gp. hal gp = None \<and> gp_hal_buffers gp = map hal_binding (bound_buffers es)"
    "\<forall>(b, r)\<in>set es. \<forall>x\<in>set (resource_buffers r). binding_ok dev l b x"
    using create_bind_group_bound [OF g] by blast+
  show len: "length offsets = length (grp_dynamic g)"
    using v by (auto simp: validate_dynamic_bindings_def split: if_splits)
  fix k assume k: "k < length offsets"
  let ?d = "grp_dynamic g ! k" and ?o = "offsets ! k"
  let ?al = "binding_type_alignment (dev_limits dev) (dy_type ?d)"
  have snd: "dynamic_sound dev l es ?d" using create_bind_group_dynamic [OF g] k len by simp
  have "(?d, ?o) \<in> set (zip (grp_dynamic g) offsets)" using k len by (force simp: in_set_zip)
  then have off: "unat ?al dvd unat ?o" "unat ?o \<le> unat (dy_maximum_offset ?d)"
    using v len validate_offsets_ok [of "dev_limits dev" gi 0] by (auto simp: validate_dynamic_bindings_def)
  then have inside: "unat (rend (dy_range ?d)) + unat ?o \<le> unat (dy_buffer_size ?d)"
    using snd by (auto simp: dynamic_sound_def)
  have al: "unat ?al dvd unat (rstart (dy_range ?d)) + unat ?o" using off(1) snd by (simp add: dynamic_sound_def)
  show "let d = ?d; al = unat (binding_type_alignment (dev_limits dev) (dy_type d)) in
       \<exists>r x. (dy_binding d, r) \<in> set es \<and> x \<in> set (resource_buffers r)
          \<and> unat (bb_offset x) + bound_size x + unat ?o \<le> unat (gb_size (bst_buffer (bb_buffer x)))
          \<and> al dvd unat (bb_offset x) + unat ?o"
    unfolding Let_def using snd inside al unfolding dynamic_sound_def by (metis (no_types, lifting))
qed

definition example_uniform :: buffer_binding where
  "example_uniform =
    \<lparr>bb_buffer = \<lparr>bst_buffer = \<lparr>gb_index = 1, gb_device = 0, gb_size = 1024, gb_usage = bus_uniform\<rparr>,
                  bst_destroyed = False, bst_map_state = MapIdle, bst_status = \<lparr>uninitialized_ranges = []\<rparr>\<rparr>,
     bb_offset = 256, bb_size = Some 64\<rparr>"

definition example_dynamic :: dynamic_binding where
  "example_dynamic = \<lparr>dy_binding = 0, dy_buffer_size = 1024, dy_range = Range 256 320, dy_maximum_offset = 704,
     dy_type = BindUniform\<rparr>"

definition example_group :: bind_group where
  "example_group = \<lparr>grp_index = 3, grp_device = 0, grp_layout = example_layout, grp_destroyed = False,
     grp_buffers = bind_group_optimize (bind_group_insert_single 1 bu_uniform []), grp_views = [],
     grp_buffer_ranges = [], grp_texture_ranges = [], grp_dynamic = [example_dynamic], grp_late = []\<rparr>"

lemma example_uniform_checked:
  "check_buffer_binding basic_device 0 BindUniform example_uniform = Inr ((1, 256, Some 64), 64)"
proof -
  have "binding (bb_buffer example_uniform) 256 (Some 64) = Inr ((1, 256, Some 64), 64)"
    by (simp add: binding_def example_uniform_def resolve_binding_size_def checked_add_def Let_def)
  moreover have "min_uniform_buffer_offset_alignment (dev_limits basic_device) = 256"
    "\<not> 64 > max_uniform_buffer_binding_size (dev_limits basic_device)" by code_simp+
  moreover have "bb_offset example_uniform = 256" "bb_size example_uniform = Some 64" by (simp_all add: example_uniform_def)
  moreover have "buffer_same_device basic_device (bb_buffer example_uniform) = Inr ()"
    "check_usage (bst_buffer (bb_buffer example_uniform)) bus_uniform = Inr ()"
    by (simp_all add: buffer_same_device_def check_usage_def example_uniform_def basic_device_def contains_def)
  ultimately show ?thesis
    by (simp add: check_buffer_binding_def Let_def binding_type_alignment_def buffer_binding_use_def requested_size_def)
qed

lemma example_group_bound:
  "create_buffer_binding basic_device 0 example_entry example_uniform no_parts =
     Some (Inr (no_parts\<lparr>gp_buffers := bind_group_insert_single 1 bu_uniform [], gp_dynamic := [example_dynamic],
       gp_hal_buffers := [(1, 256, Some 64)]\<rparr>))"
proof -
  have a: "buffer_create_action \<lparr>uninitialized_ranges = []\<rparr> (Suc 0) r NeedsInitializedMemory = None" for r
    by (simp add: buffer_create_action_def check_def vec_get_def)
  show ?thesis unfolding create_buffer_binding_def Let_def
    by (simp add: example_uniform_checked example_entry_def buffer_binding_use_def late_size_def)
       (simp add: example_uniform_def COPY_BUFFER_ALIGNMENT_def a no_parts_def example_dynamic_def)
qed

lemma example_group_created:
  "create_bind_group basic_device (\<lambda>_. None) 3 example_layout [(0, ResBuffer example_uniform)] = Some (Inr example_group)"
proof -
  have e: "entry_get (bgl_entries example_layout) 0 = Some example_entry"
    by (simp add: entry_get_def example_layout_def example_entry_def)
  have b: "bind_entry basic_device example_layout (0, ResBuffer example_uniform) no_parts =
     Some (Inr (no_parts\<lparr>gp_buffers := bind_group_insert_single 1 bu_uniform [], gp_dynamic := [example_dynamic],
       gp_hal_buffers := [(1, 256, Some 64)], gp_entries := [(0, 0, 1)]\<rparr>))"
    by (simp add: bind_entry_def e bind_resource_def resource_slot_def example_group_bound) (simp add: no_parts_def)
  have v: "check_is_valid basic_device = Inr ()" "dev_id basic_device = 0" by code_simp+
  have l: "bgl_device example_layout = 0" "length (bgl_entries example_layout) = 1" "bgl_entries example_layout = [example_entry]"
    by (simp_all add: example_layout_def)
  show ?thesis unfolding create_bind_group_def
    by (simp add: v l b finish_bind_group_def Let_def hal_ok_def)
       (simp add: no_parts_def example_group_def late_infos_def views_optimize_def v)
qed

theorem bind_group_offsets_inside_witness:
  "validate_dynamic_bindings (dev_limits basic_device) example_group 0 [512] = Inr ()
   \<and> unat (bb_offset example_uniform) + bound_size example_uniform + unat (512 :: u32) \<le> 1024"
proof
  show v: "validate_dynamic_bindings (dev_limits basic_device) example_group 0 [512] = Inr ()"
  proof -
    have "min_uniform_buffer_offset_alignment (dev_limits basic_device) = 256" by code_simp
    then show ?thesis
      by (simp add: validate_dynamic_bindings_def example_group_def example_dynamic_def binding_type_alignment_def)
  qed
  show "unat (bb_offset example_uniform) + bound_size example_uniform + unat (512 :: u32) \<le> 1024"
    using bind_group_offsets_inside [OF example_group_created v]
    by (auto simp: example_group_def example_uniform_def Let_def)
qed

end
