(* ===== verification/Binder.thy ===== *)
theory Binder
  imports BindGroups
begin

text \<open>
  The binder of a pass (\<open>wgpu-core/src/command/bind.rs\<close>): the layouts that the pipeline expects and
  those of the bound groups, the range of groups to bind again before the next draw or dispatch, and
  the sizes of buffers whose layout gives no minimal size. Two layouts are the same when their
  addresses are.
\<close>

section \<open>The layouts of the groups\<close>

record binder_entry =
  be_assigned :: "bind_group_layout option"
  be_expected :: "bind_group_layout option"

definition empty_entry :: binder_entry where
  "empty_entry = \<lparr>be_assigned = None, be_expected = None\<rparr>"

definition entry_is_active :: "binder_entry \<Rightarrow> bool" where
  "entry_is_active e \<longleftrightarrow> be_assigned e \<noteq> None \<and> be_expected e \<noteq> None"

definition same_layout :: "bind_group_layout \<Rightarrow> bind_group_layout \<Rightarrow> bool" where
  "same_layout a b \<longleftrightarrow> bgl_id a = bgl_id b"

definition entry_is_valid :: "binder_entry \<Rightarrow> bool" where
  "entry_is_valid e =
    (case be_expected e of
       Some x \<Rightarrow> (case be_assigned e of Some a \<Rightarrow> same_layout x a | None \<Rightarrow> False)
     | None \<Rightarrow> False)"

datatype entry_error =
  EntryVisibility u32 shader_stages shader_stages
| EntryType u32 binding_type binding_type
| EntryCount u32 "u32 option" "u32 option"
| ExtraExpected u32
| ExtraAssigned u32

datatype incompatibility =
  IncompatibleExclusivePipelines exclusive_pipeline exclusive_pipeline
| IncompatibleEntries "entry_error list"

datatype compat_error = CompatIncompatible nat nat incompatibility | CompatMissing

definition entry_difference :: "layout_entry \<Rightarrow> layout_entry \<Rightarrow> entry_error list" where
  "entry_difference x a =
    (if le_visibility a \<noteq> le_visibility x then [EntryVisibility (le_binding x) (le_visibility x) (le_visibility a)] else []) @
    (if le_ty a \<noteq> le_ty x then [EntryType (le_binding x) (le_ty x) (le_ty a)] else []) @
    (if le_count a \<noteq> le_count x then [EntryCount (le_binding x) (le_count x) (le_count a)] else [])"

definition entry_errors :: "entry_map \<Rightarrow> entry_map \<Rightarrow> entry_error list" where
  "entry_errors expected assigned =
    concat (map (\<lambda>x. case entry_get assigned (le_binding x) of
        Some a \<Rightarrow> entry_difference x a | None \<Rightarrow> [ExtraExpected (le_binding x)]) expected) @
    concat (map (\<lambda>a. if entry_get expected (le_binding a) = None then [ExtraAssigned (le_binding a)] else []) assigned)"

definition exclusive_compatible :: "exclusive_pipeline \<Rightarrow> exclusive_pipeline \<Rightarrow> bool" where
  "exclusive_compatible e a =
    (case (e, a) of
       (NotExclusive, NotExclusive) \<Rightarrow> True
     | (ExclusiveRender p, ExclusiveRender q) \<Rightarrow> p = q
     | (ExclusiveCompute p, ExclusiveCompute q) \<Rightarrow> p = q
     | _ \<Rightarrow> False)"

text \<open>
  \<open>Entry::check\<close>: \<open>None\<close> is a panic of \<open>unwrap\<close>, on a layout whose exclusive pipeline was never set or
  on two layouts without a difference to report.
\<close>

definition entry_check :: "binder_entry \<Rightarrow> (compat_error + unit) option" where
  "entry_check e =
    (case be_expected e of
       None \<Rightarrow> Some (Inr ())
     | Some x \<Rightarrow>
         (case be_assigned e of
            None \<Rightarrow> Some (Inl CompatMissing)
          | Some a \<Rightarrow>
              if same_layout x a then Some (Inr ())
              else do {
                xp \<leftarrow> bgl_exclusive x;
                ap \<leftarrow> bgl_exclusive a;
                if \<not> exclusive_compatible xp ap then
                  Some (Inl (CompatIncompatible (bgl_id x) (bgl_id a) (IncompatibleExclusivePipelines xp ap)))
                else
                  (let errors = entry_errors (bgl_entries x) (bgl_entries a) in
                   if errors = [] then None
                   else Some (Inl (CompatIncompatible (bgl_id x) (bgl_id a) (IncompatibleEntries errors)))) }))"

record bound_layouts =
  bl_entries :: "binder_entry list"
  bl_rebind_start :: nat

definition new_bound_layouts :: bound_layouts where
  "new_bound_layouts = \<lparr>bl_entries = replicate MAX_BIND_GROUPS empty_entry, bl_rebind_start = 0\<rparr>"

definition take_rebind_start_index :: "bound_layouts \<Rightarrow> nat \<times> bound_layouts" where
  "take_rebind_start_index m = (bl_rebind_start m, m\<lparr>bl_rebind_start := length (bl_entries m)\<rparr>)"

definition update_rebind_start_index :: "nat \<Rightarrow> bound_layouts \<Rightarrow> bound_layouts" where
  "update_rebind_start_index start_index m = m\<lparr>bl_rebind_start := min (bl_rebind_start m) start_index\<rparr>"

text \<open>Whether the expectation has to be set, and whether the group has to be bound again.\<close>

definition expectation_change :: "bind_group_layout option \<Rightarrow> bind_group_layout option \<Rightarrow> bool \<times> bool" where
  "expectation_change old new =
    (case (old, new) of
       (None, None) \<Rightarrow> (False, False)
     | (None, Some _) \<Rightarrow> (True, True)
     | (Some _, None) \<Rightarrow> (True, False)
     | (Some x, Some y) \<Rightarrow> (\<not> same_layout x y, \<not> same_layout x y))"

text \<open>The expected layouts followed by \<open>None\<close> for ever, as far as there are entries.\<close>

definition padded :: "nat \<Rightarrow> 'a option list \<Rightarrow> 'a option list" where
  "padded n xs = take n (xs @ replicate n None)"

definition update_expectations :: "bind_group_layout option list \<Rightarrow> bound_layouts \<Rightarrow> bound_layouts" where
  "update_expectations expectations m =
    (let pairs = zip (bl_entries m) (padded (length (bl_entries m)) expectations);
         changes = map (\<lambda>(e, new). expectation_change (be_expected e) new) pairs;
         m' = m\<lparr>bl_entries := map (\<lambda>(e, new). if fst (expectation_change (be_expected e) new)
                                        then e\<lparr>be_expected := new\<rparr> else e) pairs\<rparr> in
     case find (\<lambda>i. snd (changes ! i)) [0..<length changes] of
       Some i \<Rightarrow> update_rebind_start_index i m'
     | None \<Rightarrow> m')"

text \<open>\<open>None\<close> is the panic of an index out of bounds.\<close>

definition assign_layout :: "nat \<Rightarrow> bind_group_layout \<Rightarrow> bound_layouts \<Rightarrow> bound_layouts option" where
  "assign_layout index l m =
    (if index < length (bl_entries m) then
       Some (update_rebind_start_index index
         (m\<lparr>bl_entries := (bl_entries m)[index := (bl_entries m ! index)\<lparr>be_assigned := Some l\<rparr>]\<rparr>))
     else None)"

definition clear_layout_at :: "nat \<Rightarrow> bound_layouts \<Rightarrow> bound_layouts option" where
  "clear_layout_at index m =
    (if index < length (bl_entries m) then
       Some (m\<lparr>bl_entries := (bl_entries m)[index := (bl_entries m ! index)\<lparr>be_assigned := None\<rparr>]\<rparr>)
     else None)"

definition list_active :: "bound_layouts \<Rightarrow> nat list" where
  "list_active m = filter (\<lambda>i. entry_is_active (bl_entries m ! i)) [0..<length (bl_entries m)]"

definition list_valid :: "bound_layouts \<Rightarrow> nat list" where
  "list_valid m = filter (\<lambda>i. entry_is_valid (bl_entries m ! i)) [0..<length (bl_entries m)]"

fun check_binder_entries :: "nat \<Rightarrow> binder_entry list \<Rightarrow> (nat \<times> compat_error + unit) option" where
  "check_binder_entries index [] = Some (Inr ())"
| "check_binder_entries index (e # es) =
     (case entry_check e of
        None \<Rightarrow> None
      | Some (Inl err) \<Rightarrow> Some (Inl (index, err))
      | Some (Inr _) \<Rightarrow> check_binder_entries (Suc index) es)"

definition get_invalid :: "bound_layouts \<Rightarrow> (nat \<times> compat_error + unit) option" where
  "get_invalid m = check_binder_entries 0 (bl_entries m)"

section \<open>The bound groups\<close>

record late_binding =
  lb_binding_index :: u32
  lb_shader_expect_size :: u64
  lb_bound_size :: u64

record entry_payload =
  ep_group :: "bind_group option"
  ep_dynamic_offsets :: "u32 list"
  ep_late :: "late_binding list"
  ep_effective_count :: nat

definition empty_payload :: entry_payload where
  "empty_payload = \<lparr>ep_group = None, ep_dynamic_offsets = [], ep_late = [], ep_effective_count = 0\<rparr>"

record pass_binder =
  bn_layout :: "pipeline_layout option"
  bn_manager :: bound_layouts
  bn_payloads :: "entry_payload list"

definition new_binder :: pass_binder where
  "new_binder = \<lparr>bn_layout = None, bn_manager = new_bound_layouts,
     bn_payloads = replicate MAX_BIND_GROUPS empty_payload\<rparr>"

text \<open>
  The two loops over the late bindings of a group: existing ones are updated, further ones are added,
  those that are left over stay.
\<close>

fun update_bound_sizes :: "late_binding list \<Rightarrow> (u32 \<times> u64) list \<Rightarrow> late_binding list" where
  "update_bound_sizes (lb # lbs) ((i, n) # infos) =
     lb\<lparr>lb_binding_index := i, lb_bound_size := n\<rparr> # update_bound_sizes lbs infos"
| "update_bound_sizes [] infos =
     map (\<lambda>(i, n). \<lparr>lb_binding_index = i, lb_shader_expect_size = 0, lb_bound_size = n\<rparr>) infos"
| "update_bound_sizes lbs [] = lbs"

fun update_expected_sizes :: "late_binding list \<Rightarrow> u64 list \<Rightarrow> late_binding list" where
  "update_expected_sizes (lb # lbs) (n # sizes) =
     lb\<lparr>lb_shader_expect_size := n\<rparr> # update_expected_sizes lbs sizes"
| "update_expected_sizes [] sizes =
     map (\<lambda>n. \<lparr>lb_binding_index = 0, lb_shader_expect_size = n, lb_bound_size = 0\<rparr>) sizes"
| "update_expected_sizes lbs [] = lbs"

type_synonym late_group = "u64 list"

fun update_late_payloads :: "entry_payload list \<Rightarrow> late_group list \<Rightarrow> entry_payload list" where
  "update_late_payloads (p # ps) (g # gs) =
     p\<lparr>ep_effective_count := length g, ep_late := update_expected_sizes (ep_late p) g\<rparr> # update_late_payloads ps gs"
| "update_late_payloads ps gs = ps"

definition binder_change_pipeline_layout :: "pipeline_layout \<Rightarrow> late_group list \<Rightarrow> pass_binder \<Rightarrow> bool \<times> pass_binder" where
  "binder_change_pipeline_layout new late b =
    (let b = b\<lparr>bn_payloads := update_late_payloads (bn_payloads b) late\<rparr> in
     case bn_layout b of
       Some old \<Rightarrow>
         if pl_id old = pl_id new then (False, b)
         else
           let m = update_expectations (pl_groups new) (bn_manager b);
               m = (if pl_immediate_size old \<noteq> pl_immediate_size new then update_rebind_start_index 0 m else m)
           in (True, b\<lparr>bn_layout := Some new, bn_manager := m\<rparr>)
     | None \<Rightarrow> (True, b\<lparr>bn_layout := Some new, bn_manager := update_expectations (pl_groups new) (bn_manager b)\<rparr>))"

definition assign_group :: "nat \<Rightarrow> bind_group \<Rightarrow> u32 list \<Rightarrow> pass_binder \<Rightarrow> pass_binder option" where
  "assign_group index g offsets b =
    (if index < length (bn_payloads b) then
       (let p = bn_payloads b ! index;
            p = p\<lparr>ep_group := Some g, ep_dynamic_offsets := offsets,
                  ep_late := update_bound_sizes (ep_late p) (grp_late g)\<rparr> in
        map_option (\<lambda>m. b\<lparr>bn_manager := m, bn_payloads := (bn_payloads b)[index := p]\<rparr>)
          (assign_layout index (grp_layout g) (bn_manager b)))
     else None)"

definition clear_group :: "nat \<Rightarrow> pass_binder \<Rightarrow> pass_binder option" where
  "clear_group index b =
    (if index < length (bn_payloads b) then
       map_option (\<lambda>m. b\<lparr>bn_manager := m, bn_payloads := (bn_payloads b)[index := empty_payload]\<rparr>)
         (clear_layout_at index (bn_manager b))
     else None)"

text \<open>The valid groups from an index on, with their offsets; \<open>None\<close> is the panic of \<open>unwrap\<close>.\<close>

definition list_valid_with_start :: "nat \<Rightarrow> pass_binder \<Rightarrow> (nat \<times> bind_group \<times> u32 list) list option" where
  "list_valid_with_start start b =
    those (map (\<lambda>i. do {
        p \<leftarrow> vec_get (bn_payloads b) i;
        g \<leftarrow> ep_group p;
        Some (i, g, ep_dynamic_offsets p) })
      (filter (\<lambda>i. start \<le> i) (list_valid (bn_manager b))))"

definition binder_list_active :: "pass_binder \<Rightarrow> bind_group list option" where
  "binder_list_active b =
    those (map (\<lambda>i. do { p \<leftarrow> vec_get (bn_payloads b) i; ep_group p }) (list_active (bn_manager b)))"

datatype binder_error =
  MissingBindGroup nat nat
| IncompatibleBindGroup nat nat nat nat nat incompatibility

definition check_compatibility :: "nat \<Rightarrow> pass_binder \<Rightarrow> (binder_error + unit) option" where
  "check_compatibility pipeline b =
    (case get_invalid (bn_manager b) of
       None \<Rightarrow> None
     | Some (Inr _) \<Rightarrow> Some (Inr ())
     | Some (Inl (index, CompatMissing)) \<Rightarrow> Some (Inl (MissingBindGroup index pipeline))
     | Some (Inl (index, CompatIncompatible x a inner)) \<Rightarrow> do {
         p \<leftarrow> vec_get (bn_payloads b) index;
         g \<leftarrow> ep_group p;
         Some (Inl (IncompatibleBindGroup x a (grp_index g) index pipeline inner)) })"

datatype late_mismatch = LateMinBufferBindingSizeMismatch nat u32 u64 u64

text \<open>\<open>None\<close> is the panic of a slice longer than the list.\<close>

definition late_mismatches :: "nat \<Rightarrow> entry_payload \<Rightarrow> late_mismatch list option" where
  "late_mismatches gi p =
    (if ep_effective_count p \<le> length (ep_late p) then
       Some (map (\<lambda>lb. LateMinBufferBindingSizeMismatch gi (lb_binding_index lb) (lb_shader_expect_size lb) (lb_bound_size lb))
         (filter (\<lambda>lb. lb_bound_size lb < lb_shader_expect_size lb) (take (ep_effective_count p) (ep_late p))))
     else None)"

fun check_late_groups :: "entry_payload list \<Rightarrow> nat list \<Rightarrow> (late_mismatch + unit) option" where
  "check_late_groups ps [] = Some (Inr ())"
| "check_late_groups ps (i # ks) = do {
     p \<leftarrow> vec_get ps i;
     errors \<leftarrow> late_mismatches i p;
     (case errors of e # _ \<Rightarrow> Some (Inl e) | [] \<Rightarrow> check_late_groups ps ks) }"

definition check_late_buffer_bindings :: "pass_binder \<Rightarrow> (late_mismatch + unit) option" where
  "check_late_buffer_bindings b = check_late_groups (bn_payloads b) (list_active (bn_manager b))"

text \<open>\<open>Device::make_late_sized_buffer_groups\<close>: the sizes that the shader needs, in the order of the layout.\<close>

definition make_late_sized_buffer_groups :: "(nat \<Rightarrow> u32 \<Rightarrow> u64 option) \<Rightarrow> pipeline_layout \<Rightarrow> late_group list" where
  "make_late_sized_buffer_groups shader_binding_sizes l =
    map (\<lambda>(i, g). case g of
        None \<Rightarrow> []
      | Some l \<Rightarrow> concat (map (\<lambda>e. case le_ty e of
            BtBuffer _ _ None \<Rightarrow> [case shader_binding_sizes i (le_binding e) of Some n \<Rightarrow> n | None \<Rightarrow> 0]
          | _ \<Rightarrow> []) (bgl_entries l)))
      (enumerate 0 (pl_groups l))"

end
