(* ===== verification/IndirectValidation.thy ===== *)
theory IndirectValidation
  imports Limits Tracking
begin

unbundle bit_operations_syntax

text \<open>
  The validation of indirect dispatches and draws (\<open>wgpu-core/src/indirect_validation/\<close>): a shader reads
  the arguments through a window of the buffer that a dynamic offset moves, and writes them, or zeroes,
  to a buffer of its own. Modelled are the choice of the windows, the places for the results, the
  metadata of a draw and how the shader (\<open>validate_draw.wgsl\<close>) reads them.
\<close>

section \<open>The window of a dispatch\<close>

definition dispatch_binding_size :: "limits \<Rightarrow> u64 \<Rightarrow> u64" where
  "dispatch_binding_size l buffer_size =
    (let alignment = ucast (min_storage_buffer_offset_alignment l);
         binding_size = 2 * alignment + buffer_size mod alignment
     in min binding_size buffer_size)"

text \<open>The aligned offset and what remains of the offset.\<close>

definition dispatch_params :: "limits \<Rightarrow> u64 \<Rightarrow> u64 \<Rightarrow> u64 \<times> u64" where
  "dispatch_params l offset buffer_size =
    (let alignment = ucast (min_storage_buffer_offset_alignment l);
         binding_size = dispatch_binding_size l buffer_size;
         aligned_offset = offset - offset mod alignment;
         max_aligned_offset = buffer_size - binding_size;
         aligned_offset = min aligned_offset max_aligned_offset
     in (aligned_offset, offset - aligned_offset))"

section \<open>The window of a draw\<close>

definition draw_binding_size :: "limits \<Rightarrow> u64 \<Rightarrow> u64" where
  "draw_binding_size l buffer_size =
    (let max_size = max_storage_buffer_binding_size l; alignment = ucast (min_storage_buffer_offset_alignment l) in
     if buffer_size \<le> max_size then buffer_size
     else
       let buffer_rem = buffer_size mod alignment; binding_rem = max_size mod alignment in
       if buffer_rem \<le> binding_rem then max_size - binding_rem + buffer_rem
       else max_size - binding_rem - alignment + buffer_rem)"

text \<open>\<open>None\<close> is the panic of \<open>unreachable\<close>.\<close>

definition chunk_adjustment :: "u64 \<Rightarrow> u64 option" where
  "chunk_adjustment alignment =
    (if alignment = 4 then Some 0 else if alignment = 8 then Some 2
     else if alignment \<ge> 16 then Some 1 else None)"

definition draw_src_offsets :: "limits \<Rightarrow> u64 \<Rightarrow> u64 \<Rightarrow> (u64 \<times> u64) option" where
  "draw_src_offsets l buffer_size offset =
    (let binding_size = draw_binding_size l buffer_size; alignment = ucast (min_storage_buffer_offset_alignment l) in
     map_option (\<lambda>adjustment.
       let chunks = binding_size div alignment;
           stride = (if adjustment \<le> chunks then chunks - adjustment else 0) * alignment in
       if stride = 0 then (0, offset)
       else
         let max_index = (buffer_size - binding_size) div stride;
             src_dynamic_offset = min (offset div stride) max_index * stride
         in (src_dynamic_offset, offset - src_dynamic_offset))
     (chunk_adjustment alignment))"

section \<open>The places of the results\<close>

definition VALIDATION_BUFFER_SIZE :: u64 where "VALIDATION_BUFFER_SIZE = 1048560"

record current_entry =
  ce_index :: nat
  ce_offset :: u64

text \<open>The number of buffers that exist; the backend may fail to create one more.\<close>

definition ensure_entry :: "(nat \<Rightarrow> 'e option) \<Rightarrow> nat \<Rightarrow> nat \<Rightarrow> 'e + nat" where
  "ensure_entry hal index len = (if len \<le> index then (case hal len of Some e \<Rightarrow> Inl e | None \<Rightarrow> Inr (len + 1)) else Inr len)"

definition get_subrange ::
  "(nat \<Rightarrow> 'e option) \<Rightarrow> u64 \<Rightarrow> nat \<times> current_entry option \<Rightarrow> 'e + current_entry \<times> nat \<times> current_entry option" where
  "get_subrange hal sz st =
    (case st of
       (len, Some c) \<Rightarrow>
         if ce_offset c + sz \<le> VALIDATION_BUFFER_SIZE then Inr (c, len, Some (c\<lparr>ce_offset := ce_offset c + sz\<rparr>))
         else and_then (ensure_entry hal (ce_index c + 1) len) (\<lambda>len.
           Inr (\<lparr>ce_index = ce_index c + 1, ce_offset = 0\<rparr>, len, Some \<lparr>ce_index = ce_index c + 1, ce_offset = sz\<rparr>))
     | (len, None) \<Rightarrow>
         and_then (ensure_entry hal 0 len) (\<lambda>len.
           Inr (\<lparr>ce_index = 0, ce_offset = 0\<rparr>, len, Some \<lparr>ce_index = 0, ce_offset = sz\<rparr>)))"

datatype draw_family = FamilyDraw | FamilyDrawIndexed | FamilyDrawMeshTasks

definition src_stride :: "draw_family \<Rightarrow> u64" where
  "src_stride f = (case f of FamilyDraw \<Rightarrow> 16 | FamilyDrawIndexed \<Rightarrow> 20 | FamilyDrawMeshTasks \<Rightarrow> 12)"

definition dst_stride :: "bool \<Rightarrow> draw_family \<Rightarrow> u64" where
  "dst_stride is_dx12 f = (if is_dx12 then 3 * 4 else 0) + src_stride f"

section \<open>The metadata of a draw\<close>

record metadata_entry =
  me_src_offset :: u32
  me_dst_offset :: u32
  me_vertex_or_index_limit :: u32
  me_instance_limit :: u32

text \<open>\<open>None\<close> is the failure of an assertion.\<close>

definition new_metadata_entry :: "bool \<Rightarrow> u64 \<Rightarrow> u64 \<Rightarrow> u64 \<Rightarrow> u64 \<Rightarrow> metadata_entry option" where
  "new_metadata_entry indexed src_offset dst_offset vertex_or_index_limit instance_limit =
    (let u32_max_as_u64 = 4294967295 in
     if src_offset \<le> u32_max_as_u64 \<and> dst_offset \<le> u32_max_as_u64 then
       (let src = (ucast src_offset :: u32) div 4;
            src = src OR (if indexed then push_bit 31 1 else 0);
            max_limit = u32_max_as_u64 + u32_max_as_u64;
            v = min vertex_or_index_limit max_limit; i = min instance_limit max_limit;
            v_bit = (ucast (drop_bit 32 v) :: u32); i_bit = (ucast (drop_bit 32 i) :: u32);
            dst = (ucast dst_offset :: u32) div 4;
            dst = dst OR push_bit 30 v_bit OR push_bit 31 i_bit
        in Some \<lparr>me_src_offset = src, me_dst_offset = dst,
                 me_vertex_or_index_limit = ucast v, me_instance_limit = ucast i\<rparr>)
     else None)"

text \<open>The shader: the offsets without their two upper bits, and the test of a count against a limit.\<close>

definition is_bit_set :: "u32 \<Rightarrow> nat \<Rightarrow> bool" where
  "is_bit_set data index \<longleftrightarrow> (drop_bit index data) AND 1 = 1"

definition base_offset :: "u32 \<Rightarrow> u32" where
  "base_offset x = drop_bit 2 (push_bit 2 x)"

definition limit_check_failed :: "u32 \<Rightarrow> bool \<Rightarrow> u32 \<Rightarrow> u32 \<Rightarrow> bool" where
  "limit_check_failed limit can_overflow first_item n \<longleftrightarrow>
     (let sub_overflows = limit < first_item in
      (sub_overflows \<and> \<not> can_overflow) \<or> limit - first_item < n)"

text \<open>
  The arguments that the shader writes. The places of the vertex count, the instance count, the first
  vertex or index, and the first instance are those of the two structures of arguments.
\<close>

definition draw_failed :: "bool \<Rightarrow> metadata_entry \<Rightarrow> (nat \<Rightarrow> u32) \<Rightarrow> bool" where
  "draw_failed supports_indirect_first_instance m src =
    (let is_indexed = is_bit_set (me_src_offset m) 31;
         base = unat (base_offset (me_src_offset m));
         first_instance = src (base + 3 + (if is_indexed then 1 else 0)) in
     limit_check_failed (me_vertex_or_index_limit m) (is_bit_set (me_dst_offset m) 30) (src (base + 2)) (src (base + 0))
     \<or> limit_check_failed (me_instance_limit m) (is_bit_set (me_dst_offset m) 31) first_instance (src (base + 1))
     \<or> (\<not> supports_indirect_first_instance \<and> first_instance \<noteq> 0))"

definition validated_draw :: "bool \<Rightarrow> bool \<Rightarrow> metadata_entry \<Rightarrow> (nat \<Rightarrow> u32) \<Rightarrow> u32 list" where
  "validated_draw supports_indirect_first_instance d3d12 m src =
    (let is_indexed = is_bit_set (me_src_offset m) 31;
         base = unat (base_offset (me_src_offset m));
         n = (if is_indexed then 5 else 4); one = (if is_indexed then 1 else 0) in
     if draw_failed supports_indirect_first_instance m src then
       (if d3d12 then [0, 0, 0] else []) @ replicate n 0
     else
       (if d3d12 then [src (base + 2 + one), src (base + 3 + one), 0] else []) @ map (\<lambda>k. src (base + k)) [0..<n])"

text \<open>Its words, written at the place of the metadata; the rest of the results is left alone.\<close>

definition write_words :: "nat \<Rightarrow> u32 list \<Rightarrow> (nat \<Rightarrow> u32) \<Rightarrow> nat \<Rightarrow> u32" where
  "write_words place_of xs dst k = (if place_of \<le> k \<and> k < place_of + length xs then xs ! (k - place_of) else dst k)"

definition shader_main :: "bool \<Rightarrow> bool \<Rightarrow> metadata_entry \<Rightarrow> (nat \<Rightarrow> u32) \<Rightarrow> (nat \<Rightarrow> u32) \<Rightarrow> nat \<Rightarrow> u32" where
  "shader_main supports_indirect_first_instance d3d12 m src dst =
    write_words (unat (base_offset (me_dst_offset m))) (validated_draw supports_indirect_first_instance d3d12 m src) dst"

section \<open>Batches of draws\<close>

text \<open>A batch is named by its buffer, the dynamic offset and the buffer of results.\<close>

type_synonym draw_batches = "nat \<times> u64 \<times> nat \<Rightarrow> metadata_entry list option"

record draw_batcher =
  dbt_batches :: draw_batches
  dbt_current :: "current_entry option"

definition new_draw_batcher :: draw_batcher where
  "new_draw_batcher = \<lparr>dbt_batches = Map.empty, dbt_current = None\<rparr>"

text \<open>The result: the buffer and the offset that the draw reads, and the number of result buffers.\<close>

definition batcher_add ::
  "limits \<Rightarrow> bool \<Rightarrow> (nat \<Rightarrow> 'e option) \<Rightarrow> nat \<Rightarrow> u64 \<Rightarrow> u64 \<Rightarrow> draw_family \<Rightarrow> u64 \<Rightarrow> u64 \<Rightarrow> nat \<times> draw_batcher
   \<Rightarrow> ('e + (nat \<times> u64) \<times> nat \<times> draw_batcher) option" where
  "batcher_add l is_dx12 hal buffer buffer_size offset family vertex_or_index_limit instance_limit st =
    (case st of (len, b) \<Rightarrow>
       (case get_subrange hal (dst_stride is_dx12 family) (len, dbt_current b) of
          Inl e \<Rightarrow> Some (Inl e)
        | Inr (c, len, current) \<Rightarrow> do {
            (src_dynamic_offset, src_offset) \<leftarrow> draw_src_offsets l buffer_size offset;
            e \<leftarrow> new_metadata_entry (family = FamilyDrawIndexed) src_offset (ce_offset c) vertex_or_index_limit instance_limit;
            let key = (buffer, src_dynamic_offset, ce_index c);
            Some (Inr ((ce_index c, ce_offset c), len,
              \<lparr>dbt_batches = (dbt_batches b)(key \<mapsto> (case dbt_batches b key of Some es \<Rightarrow> es | None \<Rightarrow> []) @ [e]),
               dbt_current = current\<rparr>)) }))"

section \<open>The arguments lie inside the window\<close>

lemma dispatch_window_nat:
  fixes al off n :: nat
  assumes al: "8 \<le> al" "4 dvd al" and off: "4 dvd off" "off + 12 \<le> n"
    and B: "B = min (2 * al + n mod al) n" and A: "A = min (off - off mod al) (n - B)"
  shows "al dvd A" and "A \<le> off" and "A + B \<le> n" and "off - A + 12 \<le> B" and "4 dvd off - A"
proof -
  have d1: "al dvd off - off mod al" by (simp add: dvd_minus_mod)
  have d2: "al dvd n - B"
  proof (cases "2 * al + n mod al \<le> n")
    case True
    then have "n - B = (n - n mod al) - 2 * al" using B by simp
    moreover have "al dvd n - n mod al" by (simp add: dvd_minus_mod)
    ultimately show ?thesis by (metis dvd_diff_nat dvd_triv_right)
  next
    case False
    then show ?thesis using B by simp
  qed
  show dA: "al dvd A" using d1 d2 A by (auto simp: min_def)
  show le: "A \<le> off" using A by (simp add: min_le_iff_disj)
  show "A + B \<le> n" using A B by (auto simp: min_def)
  have dm: "4 dvd off mod al" using al off by (simp add: dvd_mod)
  have "off mod al + 4 \<le> al"
  proof -
    obtain x y where "off mod al = 4 * x" "al = 4 * y" using dm al(2) by (auto elim!: dvdE)
    moreover have "off mod al < al" using al by simp
    ultimately show ?thesis by simp
  qed
  then show "off - A + 12 \<le> B"
    using A B off al le by (cases "off - off mod al \<le> n - B") (auto simp: min_def split: if_splits)
  show "4 dvd off - A" using off(1) dA al(2) by (meson dvd_diff_nat dvd_trans)
qed

lemma dispatch_binding_size_unat:
  "unat (dispatch_binding_size l n) =
   min (2 * unat (min_storage_buffer_offset_alignment l) + unat n mod unat (min_storage_buffer_offset_alignment l)) (unat n)"
proof -
  let ?al = "min_storage_buffer_offset_alignment l"
  have "unat ?al < 2 ^ 32" using unsigned_less [of ?al, where ?'a = nat] by simp
  moreover have "unat n mod unat ?al \<le> unat n" by (rule mod_less_eq_dividend)
  have "unat (2 * ucast ?al + n mod ucast ?al :: u64) = 2 * unat ?al + unat n mod unat ?al"
  proof (cases "unat ?al = 0")
    case True
    then show ?thesis by (simp add: unat_word_ariths unat_ucast_u64 unsigned_eq_0_iff unat_mod)
  next
    case False
    then have "unat n mod unat ?al < unat ?al" by simp
    with calculation show ?thesis
      by (simp add: unat_word_ariths unat_ucast_u64 unat_mod)
  qed
  then show ?thesis by (simp add: dispatch_binding_size_def Let_def min_def word_le_nat_alt)
qed

lemma dispatch_params_unat:
  "unat (fst (dispatch_params l off n)) =
     min (unat off - unat off mod unat (min_storage_buffer_offset_alignment l)) (unat n - unat (dispatch_binding_size l n))"
  "snd (dispatch_params l off n) = off - fst (dispatch_params l off n)"
proof -
  let ?al = "min_storage_buffer_offset_alignment l"
  have a: "unat (off - off mod ucast ?al) = unat off - unat off mod unat ?al"
    by (simp add: unat_sub word_le_nat_alt unat_mod unat_ucast_u64)
  have "dispatch_binding_size l n \<le> n" by (simp add: word_le_nat_alt dispatch_binding_size_unat)
  then have b: "unat (n - dispatch_binding_size l n) = unat n - unat (dispatch_binding_size l n)" by (rule unat_sub)
  show "unat (fst (dispatch_params l off n)) = min (unat off - unat off mod unat ?al) (unat n - unat (dispatch_binding_size l n))"
    using a b by (simp add: dispatch_params_def Let_def min_def word_le_nat_alt)
  show "snd (dispatch_params l off n) = off - fst (dispatch_params l off n)"
    by (simp add: dispatch_params_def Let_def)
qed

text \<open>C19: The window through which the validation of an indirect dispatch reads the arguments: with an
  alignment of at least 8 bytes, the dynamic offset is a multiple of the alignment, the window moved by
  it lies inside the buffer, and the twelve bytes of the arguments lie inside the window, at a whole
  number of words, wherever they are in the buffer.
\<close>

theorem dispatch_window:
  assumes "8 \<le> unat (min_storage_buffer_offset_alignment l)" and "4 dvd unat (min_storage_buffer_offset_alignment l)"
    and "4 dvd unat off" and "unat off + 12 \<le> unat n"
    and "dispatch_params l off n = (a, r)"
  shows "unat (min_storage_buffer_offset_alignment l) dvd unat a
    \<and> unat a + unat r = unat off \<and> 4 dvd unat r
    \<and> unat r + 12 \<le> unat (dispatch_binding_size l n)
    \<and> unat a + unat (dispatch_binding_size l n) \<le> unat n"
proof -
  have a: "a = fst (dispatch_params l off n)" and r: "r = off - a"
    using assms(5) dispatch_params_unat(2) [of l off n] by simp_all
  note w = dispatch_window_nat [OF assms(1-4) dispatch_binding_size_unat dispatch_params_unat(1), folded a]
  have "unat r = unat off - unat a" unfolding r using w(2) by (simp add: unat_sub word_le_nat_alt)
  then show ?thesis using w by simp
qed

theorem dispatch_window_witness:
  "dispatch_params limits_defaults 1000 1024 = (512, 488) \<and> dispatch_binding_size limits_defaults 1024 = 512
   \<and> unat (488 :: u64) + 12 \<le> unat (512 :: u64)"
proof -
  have al: "min_storage_buffer_offset_alignment limits_defaults = 256" by (simp add: limits_defaults_def)
  have b: "dispatch_binding_size limits_defaults 1024 = 512"
    by (simp add: dispatch_binding_size_def al)
  have p: "dispatch_params limits_defaults 1000 1024 = (512, 488)"
    by (simp add: dispatch_params_def b al)
  show ?thesis using dispatch_window [OF _ _ _ _ p] p b by (simp add: al)
qed

text \<open>With an alignment of 4 bytes, which \<open>draw.rs\<close> allows, the window is too small.\<close>

lemma dispatch_window_too_small:
  "dispatch_params (limits_defaults\<lparr>min_storage_buffer_offset_alignment := 4\<rparr>) 0 64 = (0, 0)
   \<and> dispatch_binding_size (limits_defaults\<lparr>min_storage_buffer_offset_alignment := 4\<rparr>) 64 = 8"
  by (simp add: dispatch_params_def dispatch_binding_size_def)

lemma draw_window_nat:
  fixes al off n B S M len :: nat
  assumes al: "4 dvd al" and adj: "16 \<le> adj * al" "adj \<le> B div al"
    and S: "S = (B div al - adj) * al" and M: "M = (n - B) div S" and D: "D = min (off div S) M * S"
    and off: "4 dvd off" "len \<le> 20" "off div S \<le> M" "0 < S" and B: "B \<le> n"
  shows "al dvd D" and "D + B \<le> n" and "D \<le> off" and "off - D + len \<le> B"
proof -
  show "al dvd D" using D S by simp
  have MS: "M * S \<le> n - B" using M by simp
  have D': "D = off div S * S" using D off(3) by simp
  then have "D \<le> M * S" using off(3) by simp
  then show "D + B \<le> n" using MS B by linarith
  show "D \<le> off" using D' by simp
  have "4 dvd S" using S al by simp
  then have "off mod S + 4 \<le> S"
  proof -
    obtain x y where "off mod S = 4 * x" "S = 4 * y" using off(1) \<open>4 dvd S\<close> by (metis dvd_def dvd_mod)
    moreover have "off mod S < S" using off(4) by simp
    ultimately show ?thesis by simp
  qed
  moreover have "off - D = off mod S" using D' by (metis minus_div_mult_eq_mod)
  moreover have "S + 16 \<le> B"
  proof -
    have "S + adj * al = B div al * al" using S adj(2) by (simp add: diff_mult_distrib)
    then show ?thesis using adj(1) div_times_less_eq_dividend [of B al] by linarith
  qed
  ultimately show "off - D + len \<le> B" using off(2) by linarith
qed

lemma draw_binding_size_le:
  assumes "unat (min_storage_buffer_offset_alignment l) \<le> unat (max_storage_buffer_binding_size l)"
    and "0 < unat (min_storage_buffer_offset_alignment l)"
  shows "unat (draw_binding_size l n) \<le> unat n"
proof (cases "n \<le> max_storage_buffer_binding_size l")
  case True
  then show ?thesis by (simp add: draw_binding_size_def)
next
  case False
  let ?al = "ucast (min_storage_buffer_offset_alignment l) :: u64" and ?m = "max_storage_buffer_binding_size l"
  have al: "unat ?al = unat (min_storage_buffer_offset_alignment l)" by (simp add: unat_ucast_u64)
  have mn: "unat ?m \<le> unat n" using False by (simp add: word_le_nat_alt)
  have rem: "unat (?m mod ?al) < unat ?al" "unat (n mod ?al) < unat ?al" using assms(2) by (simp_all add: unat_mod al)
  have rm: "unat (?m mod ?al) \<le> unat ?m" by (simp add: unat_mod)
  have sub: "unat (?m - ?m mod ?al) = unat ?m - unat (?m mod ?al)" using rm by (simp add: unat_sub word_le_nat_alt)
  have n64: "unat n < 2 ^ 64" using unsigned_less [of n, where ?'a = nat] by simp
  show ?thesis
  proof (cases "n mod ?al \<le> ?m mod ?al")
    case True
    have "unat (?m - ?m mod ?al + n mod ?al) = unat ?m - unat (?m mod ?al) + unat (n mod ?al)"
      using True mn n64 rm by (simp add: unat_word_ariths(1) sub word_le_nat_alt)
    then show ?thesis using False True mn rm by (simp add: draw_binding_size_def Let_def word_le_nat_alt)
  next
    case b: False
    have am: "unat ?al \<le> unat ?m - unat (?m mod ?al)"
    proof -
      have "unat ?m - unat (?m mod ?al) = unat ?m div unat ?al * unat ?al" by (simp add: unat_mod minus_mod_eq_div_mult)
      moreover have "1 \<le> unat ?m div unat ?al" using assms al by (simp add: Suc_le_eq div_greater_zero_iff)
      ultimately show ?thesis by (metis mult_le_mono1 nat_mult_1)
    qed
    then have "?al \<le> ?m - ?m mod ?al" unfolding word_le_nat_alt sub .
    then have s2: "unat (?m - ?m mod ?al - ?al) = unat ?m - unat (?m mod ?al) - unat ?al"
      using sub by (simp only: unat_sub)
    have "unat (?m - ?m mod ?al - ?al + n mod ?al) \<le> unat (?m - ?m mod ?al - ?al) + unat (n mod ?al)"
      by (simp add: unat_word_ariths(1))
    then have "unat (?m - ?m mod ?al - ?al + n mod ?al) \<le> unat n" using s2 am rem mn rm by linarith
    moreover have "draw_binding_size l n = ?m - ?m mod ?al - ?al + n mod ?al"
      using False b by (simp add: draw_binding_size_def Let_def)
    ultimately show ?thesis by (simp only:)
  qed
qed

text \<open>How far the windows of the draws of a buffer reach: the end of the last stride.\<close>

definition draw_stride :: "limits \<Rightarrow> u64 \<Rightarrow> nat" where
  "draw_stride l n =
    (let al = unat (min_storage_buffer_offset_alignment l) in
     (unat (draw_binding_size l n) div al - (if al = 8 then 2 else 1)) * al)"

definition draw_reach :: "limits \<Rightarrow> u64 \<Rightarrow> nat" where
  "draw_reach l n = ((unat n - unat (draw_binding_size l n)) div draw_stride l n + 1) * draw_stride l n"

lemma unat_min: "unat (min x y) = min (unat x) (unat y)" for x y :: "'a::len word"
  by (simp add: min_def word_le_nat_alt)

lemma unat_mult_u64:
  fixes x y :: u64
  assumes "unat x = a" and "unat y = b" and "a * b < 2 ^ 64"
  shows "unat (x * y) = a * b"
  using assms by (simp add: unat_word_ariths(2))

lemma draw_src_offsets_unat:
  assumes al: "unat (min_storage_buffer_offset_alignment l) = 8 \<or> 16 \<le> unat (min_storage_buffer_offset_alignment l)"
    and B: "unat (draw_binding_size l n) \<le> unat n"
    and r: "draw_src_offsets l n off = Some (d, s)"
  shows "unat d = (if draw_stride l n = 0 then 0
      else min (unat off div draw_stride l n) ((unat n - unat (draw_binding_size l n)) div draw_stride l n) * draw_stride l n)"
    and "s = off - d"
proof -
  let ?al = "ucast (min_storage_buffer_offset_alignment l) :: u64" and ?b = "draw_binding_size l n"
  let ?adj = "if ?al = 8 then 2 else 1 :: u64"
  let ?st = "(if ?adj \<le> ?b div ?al then ?b div ?al - ?adj else 0) * ?al"
  have ual: "unat ?al = unat (min_storage_buffer_offset_alignment l)" by (simp add: unat_ucast_u64)
  have adj: "chunk_adjustment ?al = Some ?adj" and uadj: "unat ?adj = (if unat ?al = 8 then 2 else 1)"
    using al by (auto simp: chunk_adjustment_def word_le_nat_alt word_unat_eq_iff ual)
  have st: "unat ?st = draw_stride l n"
  proof -
    have "unat (if ?adj \<le> ?b div ?al then ?b div ?al - ?adj else 0) = unat ?b div unat ?al - unat ?adj"
      by (simp add: unat_sub word_le_nat_alt unat_div)
    moreover have "(unat ?b div unat ?al - unat ?adj) * unat ?al \<le> unat ?b"
      by (meson diff_le_self div_times_less_eq_dividend le_trans mult_le_mono1)
    then have "(unat ?b div unat ?al - unat ?adj) * unat ?al < 2 ^ 64"
      using unsigned_less [of ?b, where ?'a = nat] by simp
    ultimately show ?thesis by (simp only: unat_word_ariths(2) draw_stride_def Let_def uadj ual) simp
  qed
  have nb: "unat (n - ?b) = unat n - unat ?b" using B by (simp add: unat_sub word_le_nat_alt)
  have dd: "(if ?st = 0 then (0, off) else (min (off div ?st) ((n - ?b) div ?st) * ?st,
      off - min (off div ?st) ((n - ?b) div ?st) * ?st)) = (d, s)"
    using r by (simp only: draw_src_offsets_def Let_def adj option.map option.inject)
  show "s = off - d" using dd by (auto split: if_splits)
  show "unat d = (if draw_stride l n = 0 then 0
      else min (unat off div draw_stride l n) ((unat n - unat ?b) div draw_stride l n) * draw_stride l n)"
  proof (cases "?st = 0")
    case True
    then have "draw_stride l n = 0" using st by simp
    then show ?thesis using dd True by simp
  next
    case False
    then have "draw_stride l n \<noteq> 0" using st by (simp add: word_unat_eq_iff)
    have m: "unat (min (off div ?st) ((n - ?b) div ?st)) = min (unat off div draw_stride l n) ((unat n - unat ?b) div draw_stride l n)"
      by (simp only: unat_min unat_div st nb)
    have "min (unat off div draw_stride l n) ((unat n - unat ?b) div draw_stride l n) * draw_stride l n \<le> unat off"
      by (meson div_times_less_eq_dividend le_trans min.cobounded1 mult_le_mono1)
    then have "unat (min (off div ?st) ((n - ?b) div ?st) * ?st)
       = min (unat off div draw_stride l n) ((unat n - unat ?b) div draw_stride l n) * draw_stride l n"
      using unsigned_less [of off, where ?'a = nat] by (intro unat_mult_u64 [OF m st]) simp
    then show ?thesis using dd False \<open>draw_stride l n \<noteq> 0\<close> by (metis Pair_inject)
  qed
qed

text \<open>C20: The window through which the validation of an indirect draw reads the arguments, for every
  family of draws and an alignment that is 8, or a multiple of 4 from 16 on, and at most the largest binding (with an alignment of 4, or behind the reach of the
  windows, they may be missed, as the two lemmas below show): for a buffer that fits into one binding or an offset that the
  windows reach, the dynamic offset is a multiple of the alignment, the moved window lies inside the
  buffer, and the arguments lie inside the window.
\<close>

theorem draw_window:
  assumes al: "unat (min_storage_buffer_offset_alignment l) = 8 \<or> 16 \<le> unat (min_storage_buffer_offset_alignment l)"
    and al4: "4 dvd unat (min_storage_buffer_offset_alignment l)"
    and mx: "unat (min_storage_buffer_offset_alignment l) \<le> unat (max_storage_buffer_binding_size l)"
    and off: "4 dvd unat off"
    and inside: "unat off + unat (src_stride f) \<le> unat n"
    and reach: "n \<le> max_storage_buffer_binding_size l \<or> unat off < draw_reach l n"
    and r: "draw_src_offsets l n off = Some (d, s)"
  shows "unat (min_storage_buffer_offset_alignment l) dvd unat d
    \<and> unat d + unat s = unat off
    \<and> unat s + unat (src_stride f) \<le> unat (draw_binding_size l n)
    \<and> unat d + unat (draw_binding_size l n) \<le> unat n"
proof -
  let ?al = "unat (min_storage_buffer_offset_alignment l)"
  let ?B = "unat (draw_binding_size l n)" and ?S = "draw_stride l n"
  have B: "?B \<le> unat n" using draw_binding_size_le mx al by force
  note u = draw_src_offsets_unat [OF al B r]
  have len: "unat (src_stride f) \<le> 20" by (cases f) (simp_all add: src_stride_def)
  have main: "?al dvd unat d \<and> unat d + ?B \<le> unat n \<and> unat d \<le> unat off \<and> unat off - unat d + unat (src_stride f) \<le> ?B"
  proof (cases "n \<le> max_storage_buffer_binding_size l")
    case True
    then have "?B = unat n" by (simp add: draw_binding_size_def)
    then have "unat d = 0" using u(1) by simp
    then show ?thesis using \<open>?B = unat n\<close> inside by simp
  next
    case False
    then have rch: "unat off < ((unat n - ?B) div ?S + 1) * ?S" using reach by (simp add: draw_reach_def)
    then have S0: "0 < ?S" by (metis gr0I mult_0_right not_less_zero)
    have "unat off div ?S < (unat n - ?B) div ?S + 1" using rch by (simp add: less_mult_imp_div_less)
    then have M: "unat off div ?S \<le> (unat n - ?B) div ?S" by simp
    let ?adj = "if ?al = 8 then 2 else 1"
    have "16 \<le> ?adj * ?al" using al by auto
    moreover have "?adj \<le> ?B div ?al"
      using S0 unfolding draw_stride_def Let_def by (metis diff_is_0_eq' gr0I linear mult_0 not_less_zero)
    moreover have "?S = (?B div ?al - ?adj) * ?al" by (simp only: draw_stride_def Let_def)
    moreover have "unat d = min (unat off div ?S) ((unat n - ?B) div ?S) * ?S" using u(1) S0 by simp
    ultimately show ?thesis
      using draw_window_nat [OF al4 _ _ _ refl _ off len M S0 B, of ?adj "unat d"] by blast
  qed
  have "unat s = unat off - unat d" unfolding u(2) using main by (simp add: unat_sub word_le_nat_alt)
  with main have "unat d + unat s = unat off" "unat s + unat (src_stride f) \<le> ?B" by linarith+
  with main show ?thesis by blast
qed

theorem draw_window_witness:
  "draw_src_offsets limits_defaults 268435456 268430000 = Some (134217472, 134212528)
   \<and> unat (134212528 :: u64) + unat (src_stride FamilyDrawIndexed) \<le> unat (draw_binding_size limits_defaults 268435456)"
proof -
  have al: "min_storage_buffer_offset_alignment limits_defaults = 256"
    and mx: "max_storage_buffer_binding_size limits_defaults = 134217728" by (simp_all add: limits_defaults_def)
  have b: "draw_binding_size limits_defaults 268435456 = 134217728" by (simp add: draw_binding_size_def al mx)
  have p: "draw_src_offsets limits_defaults 268435456 268430000 = Some (134217472, 134212528)"
    by (simp add: draw_src_offsets_def b al chunk_adjustment_def)
  have reach: "draw_reach limits_defaults 268435456 = 268434944" by (simp add: draw_reach_def draw_stride_def b al)
  show ?thesis
    using draw_window [OF _ _ _ _ _ _ p, of FamilyDrawIndexed] p by (simp add: al mx reach src_stride_def)
qed

text \<open>
  Behind the reach, and with an alignment of 4 bytes, the arguments of an accepted draw lie outside the
  window, although they are inside the buffer.
\<close>

lemma draw_window_missed:
  "draw_src_offsets limits_defaults 268435456 268435436 = Some (134217472, 134217964)
   \<and> draw_binding_size limits_defaults 268435456 = 134217728 \<and> (134217964 :: u64) > 134217728"
proof -
  have al: "min_storage_buffer_offset_alignment limits_defaults = 256"
    and mx: "max_storage_buffer_binding_size limits_defaults = 134217728" by (simp_all add: limits_defaults_def)
  have b: "draw_binding_size limits_defaults 268435456 = 134217728" by (simp add: draw_binding_size_def al mx)
  show ?thesis by (simp add: draw_src_offsets_def b al chunk_adjustment_def)
qed

lemma draw_window_missed_alignment_4:
  "draw_src_offsets (limits_defaults\<lparr>min_storage_buffer_offset_alignment := 4\<rparr>) 268435456 134217724 = Some (0, 134217724)
   \<and> draw_binding_size (limits_defaults\<lparr>min_storage_buffer_offset_alignment := 4\<rparr>) 268435456 = 134217728"
proof -
  have mx: "max_storage_buffer_binding_size (limits_defaults\<lparr>min_storage_buffer_offset_alignment := 4\<rparr>) = 134217728"
    by (simp add: limits_defaults_def)
  show ?thesis by (simp add: draw_src_offsets_def draw_binding_size_def chunk_adjustment_def mx)
qed

section \<open>The shader respects the limits\<close>

lemma is_bit_set_bit: "is_bit_set x n \<longleftrightarrow> bit x n"
  by (simp add: is_bit_set_def bit_iff_and_drop_bit_eq_1)

lemma word_div_4: "x div 4 = drop_bit 2 x" for x :: u32
  by (simp add: drop_bit_eq_div)

lemma base_offset_packed:
  fixes w a b :: u32
  shows "base_offset (drop_bit 2 w OR push_bit 31 a) = drop_bit 2 w"
    and "base_offset (drop_bit 2 w OR push_bit 30 a OR push_bit 31 b) = drop_bit 2 w"
  by (rule bit_word_eqI; auto simp: base_offset_def bit_simps dest: bit_imp_le_length)+

lemma bit_above_33: "unat v < 2 ^ 33 \<Longrightarrow> 0 < n \<Longrightarrow> \<not> bit v (32 + n)" for v :: u64
proof
  assume v: "unat v < 2 ^ 33" and n: "0 < n" and b: "bit v (32 + n)"
  have "(2::nat) ^ 33 \<le> 2 ^ (32 + n)" using n by (intro power_increasing) auto
  then have "unat v div 2 ^ (32 + n) = 0" using v by simp
  then have "\<not> bit (unat v) (32 + n)" by (simp add: bit_iff_odd)
  with b show False by (simp add: bit_unsigned_iff)
qed

lemma limit_bits:
  fixes v :: u64
  assumes "unat v < 2 ^ 33"
  shows "unat v = unat (ucast v :: u32) + (if bit v 32 then 2 ^ 32 else 0)"
proof -
  have "bit v 32 \<longleftrightarrow> bit (unat v) 32" by (simp add: bit_unsigned_iff)
  also have "\<dots> \<longleftrightarrow> unat v div 2 ^ 32 = 1"
  proof -
    have "unat v div 2 ^ 32 < 2" using assms by (simp add: less_mult_imp_div_less)
    then show ?thesis by (auto simp: bit_iff_odd less_2_cases_iff)
  qed
  finally have b: "bit v 32 \<longleftrightarrow> unat v div 2 ^ 32 = 1" .
  have "unat v div 2 ^ 32 < 2" using assms by (simp add: less_mult_imp_div_less)
  then have "unat v div 2 ^ 32 * 2 ^ 32 = (if bit v 32 then 2 ^ 32 else 0)" using b by (auto simp: less_2_cases_iff)
  moreover have "unat (ucast v :: u32) = unat v mod 2 ^ 32" by (simp add: unsigned_ucast_eq take_bit_eq_mod)
  ultimately show ?thesis using div_mult_mod_eq [of "unat v" "2 ^ 32"] by linarith
qed

lemma limit_check_sound:
  assumes "\<not> limit_check_failed low can first_item n"
  shows "unat first_item + unat n \<le> unat low + (if can then 2 ^ 32 else 0)"
proof (cases "low < first_item")
  case True
  then have c: "can" and le: "n \<le> low - first_item" using assms by (auto simp: limit_check_failed_def Let_def not_less)
  have "unat (low - first_item) = 2 ^ 32 + unat low - unat first_item"
    using True by (simp add: unat_sub_if' word_less_nat_alt)
  then show ?thesis using c le unsigned_less [of first_item, where ?'a = nat] by (simp add: word_le_nat_alt)
next
  case False
  then have "n \<le> low - first_item" "unat (low - first_item) = unat low - unat first_item"
    using assms by (auto simp: limit_check_failed_def Let_def not_less unat_sub)
  then show ?thesis using False by (simp add: word_le_nat_alt not_less)
qed

lemma limit_check_exact:
  "limit_check_failed low False first_item n \<longleftrightarrow> unat low < unat first_item + unat n"
proof (cases "low < first_item")
  case True
  then show ?thesis by (simp add: limit_check_failed_def Let_def word_less_nat_alt)
next
  case False
  then have "unat (low - first_item) = unat low - unat first_item" by (simp add: not_less unat_sub)
  then show ?thesis using False by (auto simp: limit_check_failed_def Let_def word_less_nat_alt)
qed

text \<open>What the shader reads from the metadata.\<close>

lemma metadata_decoded:
  assumes "new_metadata_entry indexed s d v i = Some m"
  shows "is_bit_set (me_src_offset m) 31 = indexed" and "unat (base_offset (me_src_offset m)) = unat s div 4"
    and "unat (base_offset (me_dst_offset m)) = unat d div 4"
    and "unat (me_vertex_or_index_limit m) + (if is_bit_set (me_dst_offset m) 30 then 2 ^ 32 else 0) = min (unat v) (2 ^ 33 - 2)"
    and "unat (me_instance_limit m) + (if is_bit_set (me_dst_offset m) 31 then 2 ^ 32 else 0) = min (unat i) (2 ^ 33 - 2)"
proof -
  define v' i' where "v' = min v (8589934590 :: u64)" and "i' = min i (8589934590 :: u64)"
  have lim: "unat v' = min (unat v) (2 ^ 33 - 2)" "unat i' = min (unat i) (2 ^ 33 - 2)" "unat v' < 2 ^ 33" "unat i' < 2 ^ 33"
    by (simp_all add: v'_def i'_def unat_min)
  have m: "m = \<lparr>me_src_offset = (ucast s) div 4 OR (if indexed then push_bit 31 1 else 0),
      me_dst_offset = (ucast d) div 4 OR push_bit 30 (ucast (drop_bit 32 v')) OR push_bit 31 (ucast (drop_bit 32 i')),
      me_vertex_or_index_limit = ucast v', me_instance_limit = ucast i'\<rparr>"
    and sd: "unat s < 2 ^ 32" "unat d < 2 ^ 32"
    using assms by (auto simp: new_metadata_entry_def Let_def v'_def i'_def word_le_nat_alt split: if_splits)
  have w: "unat (ucast s :: u32) = unat s" "unat (ucast d :: u32) = unat d"
    using sd by (simp_all add: unsigned_ucast_eq take_bit_nat_eq_self)
  have src: "me_src_offset m = drop_bit 2 (ucast s) OR push_bit 31 (if indexed then 1 else 0)"
    by (simp add: m word_div_4)
  show "is_bit_set (me_src_offset m) 31 = indexed" unfolding src by (simp add: is_bit_set_bit bit_simps)
  show "unat (base_offset (me_src_offset m)) = unat s div 4"
    unfolding src base_offset_packed by (simp add: w flip: word_div_4) (simp add: unat_div w)
  show "unat (base_offset (me_dst_offset m)) = unat d div 4"
    unfolding m by (simp add: word_div_4 base_offset_packed) (simp add: w unat_div flip: word_div_4)
  have b30: "is_bit_set (me_dst_offset m) 30 = bit v' 32"
    unfolding m by (simp add: is_bit_set_bit word_div_4 bit_simps)
  have b31: "is_bit_set (me_dst_offset m) 31 = bit i' 32"
    using bit_above_33 [OF lim(3), of 1] unfolding m by (simp add: is_bit_set_bit word_div_4 bit_simps)
  show "unat (me_vertex_or_index_limit m) + (if is_bit_set (me_dst_offset m) 30 then 2 ^ 32 else 0) = min (unat v) (2 ^ 33 - 2)"
    using limit_bits [OF lim(3)] lim(1) b30 by (simp add: m)
  show "unat (me_instance_limit m) + (if is_bit_set (me_dst_offset m) 31 then 2 ^ 32 else 0) = min (unat i) (2 ^ 33 - 2)"
    using limit_bits [OF lim(4)] lim(2) b31 by (simp add: m)
qed

text \<open>The counts of the arguments stay within the limits, for a device that supports a first instance or not.\<close>

definition draw_within :: "bool \<Rightarrow> bool \<Rightarrow> u64 \<Rightarrow> u64 \<Rightarrow> (nat \<Rightarrow> u32) \<Rightarrow> bool" where
  "draw_within fi indexed vlimit ilimit args \<longleftrightarrow>
     unat (args 2) + unat (args 0) \<le> unat vlimit
     \<and> unat (args (if indexed then 4 else 3)) + unat (args 1) \<le> unat ilimit
     \<and> (fi \<or> args (if indexed then 4 else 3) = 0)"

lemma nat_sums: "3 + 1 = (4 :: nat)" "2 + 1 = (3 :: nat)" "3 + 0 = (3 :: nat)" "5 - 2 = (3 :: nat)" "5 - 1 = (4 :: nat)"
    "4 - 2 = (2 :: nat)" "4 - 1 = (3 :: nat)"
  by simp_all

lemma three_zeroes: "[0, 0, 0] = replicate 3 0"
  by (simp add: numeral_eq_Suc)

lemma draw_failed_within:
  fixes src :: "nat \<Rightarrow> u32"
  assumes m: "new_metadata_entry indexed s d vlimit ilimit = Some m"
  defines "args \<equiv> \<lambda>k. src (unat s div 4 + k)"
  shows "\<not> draw_failed fi m src \<Longrightarrow> draw_within fi indexed vlimit ilimit args"
    and "unat vlimit < 2 ^ 32 \<Longrightarrow> unat ilimit < 2 ^ 32 \<Longrightarrow>
      \<not> draw_failed fi m src \<longleftrightarrow> draw_within fi indexed vlimit ilimit args"
proof -
  note d = metadata_decoded [OF m]
  let ?v = "me_vertex_or_index_limit m" and ?i = "me_instance_limit m"
  let ?vb = "is_bit_set (me_dst_offset m) 30" and ?ib = "is_bit_set (me_dst_offset m) 31"
  let ?first = "args (if indexed then 4 else 3)"
  have f: "draw_failed fi m src \<longleftrightarrow> limit_check_failed ?v ?vb (args 2) (args 0)
      \<or> limit_check_failed ?i ?ib ?first (args 1) \<or> (\<not> fi \<and> ?first \<noteq> 0)"
    unfolding draw_failed_def Let_def d args_def by (cases indexed) (simp_all only: if_True if_False add.assoc nat_sums add_0_right)
  show "draw_within fi indexed vlimit ilimit args" if "\<not> draw_failed fi m src"
  proof -
    have "unat (args 2) + unat (args 0) \<le> unat vlimit"
      using that limit_check_sound [of ?v ?vb "args 2" "args 0"] d(4) unfolding f by linarith
    moreover have "unat ?first + unat (args 1) \<le> unat ilimit"
      using that limit_check_sound [of ?i ?ib ?first "args 1"] d(5) unfolding f by linarith
    ultimately show ?thesis using that unfolding f draw_within_def by blast
  qed
  assume lim: "unat vlimit < 2 ^ 32" "unat ilimit < 2 ^ 32"
  then have "\<not> ?vb" "unat ?v = unat vlimit" "\<not> ?ib" "unat ?i = unat ilimit" using d(4,5) by (auto split: if_splits)
  then show "\<not> draw_failed fi m src \<longleftrightarrow> draw_within fi indexed vlimit ilimit args"
    unfolding f draw_within_def by (simp only: limit_check_exact simp_thms de_Morgan_disj de_Morgan_conj not_less)
qed

text \<open>C10: What the validation of one indirect draw writes, from the metadata that the library packs to the
  words the shader stores: at the place the library gave, either the arguments of the draw as they are
  (on D3D12 after the first vertex or base vertex, the first instance and a zero) or zeroes of the same
  number, and nothing elsewhere. The arguments are copied only if the vertices or indices and the
  instances that the draw uses end within the limits that the library gave, and the first instance is zero
  where the device supports no other; with limits below 2^32 they are copied exactly then.
\<close>

theorem indirect_draw_check:
  fixes src :: "nat \<Rightarrow> u32"
  assumes "new_metadata_entry indexed s d vlimit ilimit = Some m"
  defines "args \<equiv> \<lambda>k. src (unat s div 4 + k)"
    and "n \<equiv> (if indexed then 5 else 4 :: nat)"
  shows "\<exists>copied. (copied \<longrightarrow> draw_within fi indexed vlimit ilimit args)
    \<and> (unat vlimit < 2 ^ 32 \<longrightarrow> unat ilimit < 2 ^ 32 \<longrightarrow> (copied \<longleftrightarrow> draw_within fi indexed vlimit ilimit args))
    \<and> shader_main fi d3d12 m src dst = write_words (unat d div 4)
        (if copied then (if d3d12 then [args (n - 2), args (n - 1), 0] else []) @ map args [0..<n]
         else replicate ((if d3d12 then 3 else 0) + n) 0) dst"
proof (intro exI [of _ "\<not> draw_failed fi m src"] conjI impI)
  note dec = metadata_decoded [OF assms(1)]
  show "draw_within fi indexed vlimit ilimit args" if "\<not> draw_failed fi m src"
    using draw_failed_within(1) [OF assms(1) that] by (simp add: args_def)
  show "\<not> draw_failed fi m src \<longleftrightarrow> draw_within fi indexed vlimit ilimit args" if "unat vlimit < 2 ^ 32" "unat ilimit < 2 ^ 32"
    using draw_failed_within(2) [OF assms(1) that] by (simp add: args_def)
  show "shader_main fi d3d12 m src dst = write_words (unat d div 4)
        (if \<not> draw_failed fi m src then (if d3d12 then [args (n - 2), args (n - 1), 0] else []) @ map args [0..<n]
         else replicate ((if d3d12 then 3 else 0) + n) 0) dst"
    unfolding shader_main_def validated_draw_def Let_def dec args_def n_def
    by (cases indexed; cases d3d12; cases "draw_failed fi m src")
      (simp_all only: if_True if_False add.assoc nat_sums add_0_right add_0 replicate_add three_zeroes append_Nil simp_thms)
qed

lemma written_words: "map (write_words 20 [a, b, c, d, e] (\<lambda>_. 9)) [19..<26] = [9, a, b, c, d, e, 9]"
  by (simp add: upt_rec write_words_def)

theorem indirect_draw_check_witness:
  "\<exists>m. new_metadata_entry True 40 80 100 7 = Some m
   \<and> map (shader_main True False m (\<lambda>_. 60) (\<lambda>_. 9)) [19..<26] = [9, 0, 0, 0, 0, 0, 9]
   \<and> map (shader_main True False m (\<lambda>_. 3) (\<lambda>_. 9)) [19..<26] = [9, 3, 3, 3, 3, 3, 9]"
proof -
  obtain m where m: "new_metadata_entry True 40 80 100 7 = Some m"
    by (simp add: new_metadata_entry_def)
  have small: "unat (100 :: u64) < 2 ^ 32" "unat (7 :: u64) < 2 ^ 32" "unat (80 :: u64) div 4 = 20" by simp_all
  have five: "map (\<lambda>_. x) [0..<5] = [x, x, x, x, x]" "replicate 5 x = [x, x, x, x, x]" for x :: u32
    by (simp_all add: upt_rec numeral_eq_Suc)
  have "\<not> draw_within True True 100 7 (\<lambda>_. 60)" "draw_within True True 100 7 (\<lambda>_. 3)"
    by (simp_all add: draw_within_def)
  then have "shader_main True False m (\<lambda>_. 60) (\<lambda>_. 9) = write_words 20 [0, 0, 0, 0, 0] (\<lambda>_. 9)"
    "shader_main True False m (\<lambda>_. 3) (\<lambda>_. 9) = write_words 20 [3, 3, 3, 3, 3] (\<lambda>_. 9)"
    using indirect_draw_check [OF m, of True "\<lambda>_. 60" False "\<lambda>_. 9"]
      indirect_draw_check [OF m, of True "\<lambda>_. 3" False "\<lambda>_. 9"]
    by (simp_all only: small if_True if_False append_Nil add_0 five simp_thms) (elim exE, simp)+
  then show ?thesis using m by (intro exI [of _ m]) (simp only: written_words simp_thms)
qed

text \<open>With a limit of more than 32 bits the test may refuse a draw that is inside it.\<close>

lemma indirect_draw_check_incomplete:
  "new_metadata_entry False 0 0 4294967296 1 =
     Some \<lparr>me_src_offset = 0, me_dst_offset = 1073741824, me_vertex_or_index_limit = 0, me_instance_limit = 1\<rparr>
   \<and> limit_check_failed 0 True 0 3"
  by (simp add: new_metadata_entry_def limit_check_failed_def)

section \<open>The results do not overlap\<close>

text \<open>The draws of a pass, one after the other; the result holds the places of their arguments.\<close>

record draw_request =
  dq_buffer :: nat
  dq_buffer_size :: u64
  dq_offset :: u64
  dq_family :: draw_family
  dq_item_limit :: u64
  dq_instance_limit :: u64

fun batcher_adds ::
  "limits \<Rightarrow> bool \<Rightarrow> (nat \<Rightarrow> 'e option) \<Rightarrow> draw_request list \<Rightarrow> nat \<times> draw_batcher
   \<Rightarrow> ('e + (nat \<times> u64) list \<times> nat \<times> draw_batcher) option" where
  "batcher_adds l dx hal [] st = Some (Inr ([], st))"
| "batcher_adds l dx hal (q # qs) st =
     (case batcher_add l dx hal (dq_buffer q) (dq_buffer_size q) (dq_offset q) (dq_family q) (dq_item_limit q)
             (dq_instance_limit q) st of
        None \<Rightarrow> None
      | Some (Inl e) \<Rightarrow> Some (Inl e)
      | Some (Inr (place, st')) \<Rightarrow>
          map_option (\<lambda>r. and_then r (\<lambda>(places, st''). Inr (place # places, st''))) (batcher_adds l dx hal qs st'))"

text \<open>A place as a number: the buffers of results one behind the other.\<close>

abbreviation buffer_len :: nat where "buffer_len \<equiv> 1048560"

definition place :: "nat \<Rightarrow> u64 \<Rightarrow> nat" where "place i off = i * buffer_len + unat off"

definition current_ok :: "nat \<Rightarrow> current_entry option \<Rightarrow> bool" where
  "current_ok len c = (case c of Some c \<Rightarrow> ce_index c < len \<and> unat (ce_offset c) \<le> buffer_len | None \<Rightarrow> True)"

definition current_place :: "current_entry option \<Rightarrow> nat" where
  "current_place c = (case c of Some c \<Rightarrow> place (ce_index c) (ce_offset c) | None \<Rightarrow> 0)"

lemma ensure_entry_ok: "ensure_entry hal i len = Inr len' \<Longrightarrow> i \<le> len \<Longrightarrow> i < len' \<and> len \<le> len'"
  by (auto simp: ensure_entry_def split: if_splits option.splits)

lemma get_subrange_ok:
  assumes r: "get_subrange hal n (len, cur) = Inr (c, len', cur')" and n: "unat n \<le> buffer_len" and ok: "current_ok len cur"
  shows "current_ok len' cur' \<and> len \<le> len' \<and> ce_index c < len' \<and> unat (ce_offset c) + unat n \<le> buffer_len
    \<and> current_place cur \<le> place (ce_index c) (ce_offset c)
    \<and> current_place cur' = place (ce_index c) (ce_offset c) + unat n"
proof (cases cur)
  case None
  then have "\<exists>m. ensure_entry hal 0 len = Inr m \<and> c = \<lparr>ce_index = 0, ce_offset = 0\<rparr> \<and> len' = m
      \<and> cur' = Some \<lparr>ce_index = 0, ce_offset = n\<rparr>"
    using r by (auto simp: get_subrange_def and_then_Inr)
  then show ?thesis using n None ensure_entry_ok [of hal 0 len len']
    by (auto simp: current_ok_def current_place_def place_def)
next
  case (Some x)
  have x: "ce_index x < len" "unat (ce_offset x) \<le> buffer_len" using ok Some by (simp_all add: current_ok_def)
  have sum: "unat (ce_offset x + n) = unat (ce_offset x) + unat n" using x n by (simp add: unat_word_ariths(1))
  show ?thesis
  proof (cases "ce_offset x + n \<le> VALIDATION_BUFFER_SIZE")
    case True
    then have "c = x" "len' = len" "cur' = Some (x\<lparr>ce_offset := ce_offset x + n\<rparr>)"
      using r Some by (auto simp: get_subrange_def)
    moreover have "unat (ce_offset x) + unat n \<le> buffer_len"
      using True by (simp add: word_le_nat_alt sum VALIDATION_BUFFER_SIZE_def)
    ultimately show ?thesis using x Some by (simp add: current_ok_def current_place_def place_def sum)
  next
    case False
    then have "ensure_entry hal (ce_index x + 1) len = Inr len'" "c = \<lparr>ce_index = ce_index x + 1, ce_offset = 0\<rparr>"
      "cur' = Some \<lparr>ce_index = ce_index x + 1, ce_offset = n\<rparr>"
      using r Some by (auto simp: get_subrange_def and_then_Inr)
    then show ?thesis using n x Some ensure_entry_ok [of hal "ce_index x + 1" len len']
      by (auto simp: current_ok_def current_place_def place_def)
  qed
qed

lemma dst_stride_le: "unat (dst_stride dx f) \<le> 32"
  by (cases f; cases dx) (simp_all add: dst_stride_def src_stride_def)

lemma batcher_add_ok:
  assumes r: "batcher_add l dx hal b bs off f v i (len, bt) = Some (Inr ((k, o'), len', bt'))" and ok: "current_ok len (dbt_current bt)"
  shows "current_ok len' (dbt_current bt') \<and> len \<le> len' \<and> k < len' \<and> unat o' + unat (dst_stride dx f) \<le> buffer_len
    \<and> current_place (dbt_current bt) \<le> place k o'
    \<and> current_place (dbt_current bt') = place k o' + unat (dst_stride dx f)"
proof -
  obtain c cur where g: "get_subrange hal (dst_stride dx f) (len, dbt_current bt) = Inr (c, len', cur)"
    and eq: "k = ce_index c" "o' = ce_offset c" "dbt_current bt' = cur"
    using r by (auto simp: batcher_add_def Let_def split: sum.splits bind_splits)
  show ?thesis using get_subrange_ok [OF g _ ok] dst_stride_le [of dx f] unfolding eq by simp
qed

lemma batcher_adds_ok:
  assumes "batcher_adds l dx hal qs (len, bt) = Some (Inr (ps, len', bt'))" and "current_ok len (dbt_current bt)"
  shows "length ps = length qs \<and> len \<le> len'
    \<and> (\<forall>j < length ps. fst (ps ! j) < len'
        \<and> unat (snd (ps ! j)) + unat (dst_stride dx (dq_family (qs ! j))) \<le> buffer_len
        \<and> current_place (dbt_current bt) \<le> place (fst (ps ! j)) (snd (ps ! j)))
    \<and> (\<forall>j k. j < k \<longrightarrow> k < length ps \<longrightarrow>
        place (fst (ps ! j)) (snd (ps ! j)) + unat (dst_stride dx (dq_family (qs ! j))) \<le> place (fst (ps ! k)) (snd (ps ! k)))"
  using assms
proof (induction qs arbitrary: len bt ps)
  case Nil
  then show ?case by simp
next
  case (Cons q qs)
  obtain p len1 bt1 ps1 where a: "batcher_add l dx hal (dq_buffer q) (dq_buffer_size q) (dq_offset q) (dq_family q)
      (dq_item_limit q) (dq_instance_limit q) (len, bt) = Some (Inr (p, len1, bt1))"
    and rest: "batcher_adds l dx hal qs (len1, bt1) = Some (Inr (ps1, len', bt'))" and ps: "ps = p # ps1"
    using Cons.prems(1) by (auto simp: and_then_Inr split: option.splits sum.splits)
  obtain k o' where p: "p = (k, o')" by (cases p)
  note step = batcher_add_ok [OF a [unfolded p] Cons.prems(2)]
  note ih = Cons.IH [OF rest conjunct1 [OF step]]
  show ?case unfolding ps p using step ih
    by (auto simp: nth_Cons split: nat.splits)
qed



end
