(* ===== verification/Queries.thy ===== *)
theory Queries
  imports Encoding
begin

unbundle bit_operations_syntax

text \<open>
  Query sets and their use (\<open>wgpu-core/src/command/query.rs\<close>, \<open>create_query_set\<close> in \<open>device/resource.rs\<close>, and
  the timestamps of a pass in \<open>command/mod.rs\<close>). The commands go to the backend encoder as a list.
\<close>

section \<open>Query sets\<close>

datatype query_type = QueryOcclusion | QueryPipelineStatistics u8 | QueryTimestamp

datatype simplified_query_type = SimpleOcclusion | SimpleTimestamp | SimplePipelineStatistics

definition simplified :: "query_type \<Rightarrow> simplified_query_type" where
  "simplified q = (case q of QueryOcclusion \<Rightarrow> SimpleOcclusion | QueryTimestamp \<Rightarrow> SimpleTimestamp
     | QueryPipelineStatistics _ \<Rightarrow> SimplePipelineStatistics)"

record query_set =
  qs_index :: nat
  qs_device :: nat
  qs_type :: query_type
  qs_count :: u32

definition timestamp_query :: features where "timestamp_query = webgpu_feature 7"
definition timestamp_query_inside_encoders :: features where "timestamp_query_inside_encoders = wgpu_feature 5"
definition timestamp_query_inside_passes :: features where "timestamp_query_inside_passes = wgpu_feature 6"
definition pipeline_statistics_query :: features where "pipeline_statistics_query = wgpu_feature 4"

definition QUERY_SET_MAX_QUERIES :: u32 where "QUERY_SET_MAX_QUERIES = 4096"
definition QUERY_SIZE :: u32 where "QUERY_SIZE = 8"
definition QUERY_RESOLVE_BUFFER_ALIGNMENT :: u64 where "QUERY_RESOLVE_BUFFER_ALIGNMENT = 256"

datatype create_query_set_error =
  QcDevice device_error
| QcZeroCount
| QcTooManyQueries u32 u32
| QcMissingFeatures features

definition create_query_set ::
  "device \<Rightarrow> (query_type \<Rightarrow> u32 \<Rightarrow> device_error option) \<Rightarrow> nat \<Rightarrow> query_type \<Rightarrow> u32 \<Rightarrow> create_query_set_error + query_set" where
  "create_query_set dev hal new_index ty n =
    and_then (map_err QcDevice (check_is_valid dev)) (\<lambda>_.
    and_then (map_err QcMissingFeatures
       (case ty of QueryOcclusion \<Rightarrow> Inr ()
        | QueryTimestamp \<Rightarrow> require_features dev timestamp_query
        | QueryPipelineStatistics _ \<Rightarrow> require_features dev pipeline_statistics_query)) (\<lambda>_.
    and_then (ensure (n \<noteq> 0) QcZeroCount) (\<lambda>_.
    and_then (ensure (\<not> n > QUERY_SET_MAX_QUERIES) (QcTooManyQueries n QUERY_SET_MAX_QUERIES)) (\<lambda>_.
    and_then (map_err QcDevice (hal_ok (hal ty n))) (\<lambda>_.
    Inr \<lparr>qs_index = new_index, qs_device = dev_id dev, qs_type = ty, qs_count = n\<rparr>)))))"

section \<open>The queries of a render pass\<close>

datatype query_use_error =
  QuDevice device_error
| QuOutOfBounds u32 u32
| QuUsedTwiceInsideRenderpass u32
| QuAlreadyStarted u32 u32
| QuAlreadyStopped
| QuIncompatibleType simplified_query_type simplified_query_type
| QuMissingEnd simplified_query_type

datatype query_command =
  CmdResetQueries nat nat nat
| CmdWriteTimestamp nat u32
| CmdBeginQuery nat u32
| CmdEndQuery nat u32
| CmdResolveBarrier "buffer_barrier list"
| CmdCopyQueryResults nat u32 u32 nat u64 u64

text \<open>The queries used so far of each set; \<open>None\<close> is the panic of an index out of bounds.\<close>

type_synonym query_reset_map = "nat \<Rightarrow> (bool list \<times> query_set) option"

definition use_query_set :: "query_set \<Rightarrow> u32 \<Rightarrow> query_reset_map \<Rightarrow> (bool \<times> query_reset_map) option" where
  "use_query_set qs query m =
    (let (used, q) = (case m (qs_index qs) of Some p \<Rightarrow> p | None \<Rightarrow> (replicate (unat (qs_count qs)) False, qs)) in
     if unat query < length used then
       Some (used ! unat query, m(qs_index qs \<mapsto> (used[unat query := True], q)))
     else None)"

text \<open>The loop over the used queries, followed by an unused one: the runs to reset.\<close>

fun runs_from :: "nat option \<Rightarrow> nat \<Rightarrow> bool list \<Rightarrow> (nat \<times> nat) list" where
  "runs_from run_start idx [] = []"
| "runs_from (Some start) idx (True # vs) = runs_from (Some start) (Suc idx) vs"
| "runs_from (Some start) idx (False # vs) = (start, idx) # runs_from None (Suc idx) vs"
| "runs_from None idx (True # vs) = runs_from (Some idx) (Suc idx) vs"
| "runs_from None idx (False # vs) = runs_from None (Suc idx) vs"

definition reset_runs :: "bool list \<Rightarrow> (nat \<times> nat) list" where
  "reset_runs used = runs_from None 0 (used @ [False])"

text \<open>The order of the sets is that of the hash map; \<open>order\<close> lists its keys.\<close>

definition reset_queries :: "nat list \<Rightarrow> query_reset_map \<Rightarrow> query_command list" where
  "reset_queries order m =
    concat (map (\<lambda>k. case m k of
        Some (used, qs) \<Rightarrow> map (\<lambda>(a, b). CmdResetQueries (qs_index qs) a b) (reset_runs used)
      | None \<Rightarrow> []) order)"

definition validate_query ::
  "query_set \<Rightarrow> simplified_query_type \<Rightarrow> u32 \<Rightarrow> query_reset_map option
   \<Rightarrow> ((query_use_error + unit) \<times> query_reset_map option) option" where
  "validate_query qs ty i reset =
    (if i \<ge> qs_count qs then Some (Inl (QuOutOfBounds i (qs_count qs)), reset)
     else do {
       (used, reset') \<leftarrow> (case reset of
           None \<Rightarrow> Some (False, None)
         | Some m \<Rightarrow> map_option (\<lambda>(u, m'). (u, Some m')) (use_query_set qs i m));
       Some (if used then Inl (QuUsedTwiceInsideRenderpass i)
             else ensure (simplified (qs_type qs) = ty) (QuIncompatibleType ty (simplified (qs_type qs))), reset') })"

text \<open>Without a map of deferred resets the query is reset at once.\<close>

definition reset_now :: "query_reset_map option \<Rightarrow> query_set \<Rightarrow> u32 \<Rightarrow> query_command list" where
  "reset_now reset qs i = (if reset = None then [CmdResetQueries (qs_index qs) (unat i) (unat i + 1)] else [])"

definition validate_and_write_timestamp ::
  "query_set \<Rightarrow> u32 \<Rightarrow> query_reset_map option \<Rightarrow> ((query_use_error + query_command list) \<times> query_reset_map option) option" where
  "validate_and_write_timestamp qs i reset =
    map_option (\<lambda>(r, reset'). (and_then r (\<lambda>_. Inr (reset_now reset qs i @ [CmdWriteTimestamp (qs_index qs) i])), reset'))
      (validate_query qs SimpleTimestamp i reset)"

text \<open>An active query is taken out even when the new one is refused.\<close>

type_synonym active_query = "(query_set \<times> u32) option"

definition begin_query ::
  "simplified_query_type \<Rightarrow> query_set \<Rightarrow> u32 \<Rightarrow> query_reset_map option \<Rightarrow> active_query
   \<Rightarrow> ((query_use_error + query_command list) \<times> query_reset_map option \<times> active_query) option" where
  "begin_query ty qs i reset active =
    map_option (\<lambda>(r, reset').
      (case r of
         Inl e \<Rightarrow> (Inl e, reset', active)
       | Inr _ \<Rightarrow>
           (case active of
              Some (_, old) \<Rightarrow> (Inl (QuAlreadyStarted old i), reset', None)
            | None \<Rightarrow> (Inr (reset_now reset qs i @ [CmdBeginQuery (qs_index qs) i]), reset', Some (qs, i)))))
      (validate_query qs ty i reset)"

definition validate_and_begin_occlusion_query ::
  "query_set \<Rightarrow> u32 \<Rightarrow> query_reset_map option \<Rightarrow> active_query
   \<Rightarrow> ((query_use_error + query_command list) \<times> query_reset_map option \<times> active_query) option" where
  "validate_and_begin_occlusion_query = begin_query SimpleOcclusion"

definition validate_and_begin_pipeline_statistics_query ::
  "device \<Rightarrow> query_set \<Rightarrow> u32 \<Rightarrow> query_reset_map option \<Rightarrow> active_query
   \<Rightarrow> ((query_use_error + query_command list) \<times> query_reset_map option \<times> active_query) option" where
  "validate_and_begin_pipeline_statistics_query dev qs i reset active =
    (if qs_device qs \<noteq> dev_id dev then Some (Inl (QuDevice (DeviceMismatch (qs_device qs) (dev_id dev))), reset, active)
     else begin_query SimplePipelineStatistics qs i reset active)"

definition end_query :: "active_query \<Rightarrow> (query_use_error + query_command list) \<times> active_query" where
  "end_query active =
    (case active of
       Some (qs, i) \<Rightarrow> (Inr [CmdEndQuery (qs_index qs) i], None)
     | None \<Rightarrow> (Inl QuAlreadyStopped, None))"

section \<open>The timestamps of a pass\<close>

record timestamp_writes =
  tw_query_set :: query_set
  tw_beginning :: "u32 option"
  tw_end :: "u32 option"

datatype timestamp_writes_error =
  TwIndicesEqual u32
| TwIndicesMissing
| TwUse query_use_error
| TwDevice device_error
| TwMissingFeatures features

fun check_indices :: "query_set \<Rightarrow> u32 list \<Rightarrow> query_use_error + unit" where
  "check_indices qs [] = Inr ()"
| "check_indices qs (i # rest) =
     (case validate_query qs SimpleTimestamp i None of
        Some (Inl e, _) \<Rightarrow> Inl e
      | _ \<Rightarrow> check_indices qs rest)"

definition option_list :: "'a option \<Rightarrow> 'a list" where
  "option_list x = (case x of Some a \<Rightarrow> [a] | None \<Rightarrow> [])"

definition validate_pass_timestamp_writes :: "device \<Rightarrow> timestamp_writes \<Rightarrow> timestamp_writes_error + timestamp_writes" where
  "validate_pass_timestamp_writes dev tw =
    (let qs = tw_query_set tw in
     and_then (map_err TwMissingFeatures (require_features dev timestamp_query)) (\<lambda>_.
     and_then (ensure (qs_device qs = dev_id dev) (TwDevice (DeviceMismatch (qs_device qs) (dev_id dev)))) (\<lambda>_.
     and_then (map_err TwUse (check_indices qs (option_list (tw_beginning tw) @ option_list (tw_end tw)))) (\<lambda>_.
     and_then (case (tw_beginning tw, tw_end tw) of
                 (Some a, Some b) \<Rightarrow> ensure (a \<noteq> b) (TwIndicesEqual a) | _ \<Rightarrow> Inr ()) (\<lambda>_.
     and_then (ensure (\<not> (tw_beginning tw = None \<and> tw_end tw = None)) TwIndicesMissing) (\<lambda>_.
     Inr tw))))))"

text \<open>The queries to reset before a compute pass with timestamps.\<close>

definition timestamp_reset_range :: "timestamp_writes \<Rightarrow> (nat \<times> nat) option" where
  "timestamp_reset_range tw =
    (case (tw_beginning tw, tw_end tw) of
       (Some a, Some b) \<Rightarrow> Some (unat (min a b), unat (max a b) + 1)
     | (Some a, None) \<Rightarrow> Some (unat a, unat a + 1)
     | (None, Some b) \<Rightarrow> Some (unat b, unat b + 1)
     | (None, None) \<Rightarrow> None)"

section \<open>Queries of the encoder\<close>

datatype query_error =
  QeDevice device_error
| QeMissingFeature features
| QeUse query_use_error
| QeBufferOffsetAlignment
| QeMissingBufferUsage nat u32 u32
| QeQueryOverrun u32 u64 u32
| QeBufferOverrun u32 u32 u32 u64 u64 u64
| QeDestroyed nat

definition write_timestamp :: "device \<Rightarrow> query_set \<Rightarrow> u32 \<Rightarrow> (query_error + query_command list) option" where
  "write_timestamp dev qs i =
    (case and_then (map_err QeMissingFeature (require_features dev timestamp_query_inside_encoders)) (\<lambda>_.
            ensure (qs_device qs = dev_id dev) (QeDevice (DeviceMismatch (qs_device qs) (dev_id dev)))) of
       Inl e \<Rightarrow> Some (Inl e)
     | Inr _ \<Rightarrow> map_option (\<lambda>(r, _). map_err QeUse r) (validate_and_write_timestamp qs i None))"

definition elements_per_query :: "query_type \<Rightarrow> u32" where
  "elements_per_query ty =
    (case ty of QueryPipelineStatistics ps \<Rightarrow> of_nat (length (filter (bit ps) [0..<8])) | _ \<Rightarrow> 1)"

text \<open>The end of the queries, the stride and the end of the results.\<close>

definition resolve_range ::
  "query_set \<Rightarrow> u32 \<Rightarrow> u32 \<Rightarrow> u64 \<Rightarrow> u64 \<Rightarrow> query_error + u32 \<times> u32 \<times> u64" where
  "resolve_range qs start_query query_count buffer_size destination_offset =
    (let end_query = ucast start_query + ucast query_count :: u64 in
     and_then (ensure (\<not> end_query > ucast (qs_count qs)) (QeQueryOverrun start_query end_query (qs_count qs))) (\<lambda>_.
     let stride = elements_per_query (qs_type qs) * QUERY_SIZE;
         bytes_used = ucast stride * ucast query_count :: u64 in
     case checked_add destination_offset bytes_used of
       Some e \<Rightarrow>
         if e \<le> buffer_size then Inr (ucast end_query, stride, e)
         else Inl (QeBufferOverrun start_query (ucast end_query) stride buffer_size destination_offset bytes_used)
     | None \<Rightarrow> Inl (QeBufferOverrun start_query (ucast end_query) stride buffer_size destination_offset bytes_used)))"

text \<open>
  \<open>normaliser\<close> stands for the pass that normalises timestamps on the device, with the tracker it uses;
  the stride is given to the backend as a size that must not be zero.
\<close>

definition resolve_query_set ::
  "device \<Rightarrow> (buffer_state \<Rightarrow> u64 \<Rightarrow> u32 \<Rightarrow> buffer_tracker \<Rightarrow> (buffer_tracker \<times> query_command list) option)
   \<Rightarrow> query_set \<Rightarrow> u32 \<Rightarrow> u32 \<Rightarrow> buffer_state \<Rightarrow> u64 \<Rightarrow> encoding_state
   \<Rightarrow> ((query_error + query_command list) \<times> encoding_state) option" where
  "resolve_query_set dev normaliser qs start_query query_count dst destination_offset s =
    (let buf = bst_buffer dst in
     case and_then (ensure (destination_offset mod QUERY_RESOLVE_BUFFER_ALIGNMENT = 0) QeBufferOffsetAlignment) (\<lambda>_.
          and_then (ensure (qs_device qs = dev_id dev) (QeDevice (DeviceMismatch (qs_device qs) (dev_id dev)))) (\<lambda>_.
          and_then (map_err QeDevice (buffer_same_device dev dst)) (\<lambda>_.
          ensure (\<not> bst_destroyed dst) (QeDestroyed (gb_index buf))))) of
       Inl e \<Rightarrow> Some (Inl e, s)
     | Inr _ \<Rightarrow> do {
         (pending, t) \<leftarrow> set_single (gb_index buf) bu_copy_dst (en_buffers s);
         barriers \<leftarrow> buffer_barriers dst pending;
         let s = s\<lparr>en_buffers := t\<rparr>;
         (case and_then (map_err (\<lambda>(i, a, e). QeMissingBufferUsage i a e) (check_usage buf bus_query_resolve)) (\<lambda>_.
               resolve_range qs start_query query_count (gb_size buf) destination_offset) of
            Inl e \<Rightarrow> Some (Inl e, s)
          | Inr (last_query, stride, end_offset) \<Rightarrow> do {
              let s = s\<lparr>en_buffer_actions := en_buffer_actions s @
                (case buffer_create_action (bst_status dst) (gb_index buf) (Range destination_offset end_offset)
                        ImplicitlyInitialized of Some a \<Rightarrow> [a] | None \<Rightarrow> [])\<rparr>;
              let cs = [CmdResolveBarrier barriers,
                        CmdCopyQueryResults (qs_index qs) start_query last_query (gb_index buf) destination_offset (ucast stride)];
              (t, more) \<leftarrow> (if qs_type qs = QueryTimestamp
                            then normaliser dst destination_offset query_count (en_buffers s)
                            else Some (en_buffers s, []));
              Some (Inr (cs @ more), s\<lparr>en_buffers := t\<rparr>) }) })"

section \<open>What is reset and resolved\<close>

definition in_run :: "nat \<Rightarrow> nat \<times> nat \<Rightarrow> bool" where
  "in_run k r \<longleftrightarrow> fst r \<le> k \<and> k < snd r"

lemma nth_shift:
  "idx \<le> k \<and> k < idx + length (v # vs) \<and> (v # vs) ! (k - idx)
     \<longleftrightarrow> (k = idx \<and> v) \<or> (Suc idx \<le> k \<and> k < Suc idx + length vs \<and> vs ! (k - Suc idx))"
  by (cases "k = idx") (auto simp: nth_Cons')

lemma runs_from_exact:
  "(\<forall>s. st = Some s \<longrightarrow> s < idx) \<Longrightarrow>
   (\<exists>r\<in>set (runs_from st idx (vs @ [False])). in_run k r) \<longleftrightarrow>
     (\<exists>s. st = Some s \<and> s \<le> k \<and> k < idx) \<or> (idx \<le> k \<and> k < idx + length vs \<and> vs ! (k - idx))"
proof (induction vs arbitrary: st idx)
  case Nil
  then show ?case by (cases st) (auto simp: in_run_def)
next
  case (Cons v vs)
  have suc: "k < Suc idx \<longleftrightarrow> k < idx \<or> k = idx" by auto
  show ?case
  proof (cases st)
    case None
    show ?thesis
    proof (cases v)
      case True
      with None Cons.IH [of "Some idx" "Suc idx"] show ?thesis unfolding nth_shift suc by auto
    next
      case False
      with None Cons.IH [of None "Suc idx"] show ?thesis unfolding nth_shift by simp
    qed
  next
    case (Some s)
    have "s < idx" using Cons.prems Some by simp
    show ?thesis
    proof (cases v)
      case True
      with Some \<open>s < idx\<close> Cons.IH [of "Some s" "Suc idx"] show ?thesis unfolding nth_shift suc by auto
    next
      case False
      with Some Cons.IH [of None "Suc idx"] show ?thesis unfolding nth_shift by (auto simp: in_run_def)
    qed
  qed
qed

text \<open>The deferred resets of a set are exactly its used queries.\<close>

lemma reset_runs_exact: "(\<exists>r\<in>set (reset_runs used). in_run k r) \<longleftrightarrow> k < length used \<and> used ! k"
  using runs_from_exact [of None 0 used k] by (simp add: reset_runs_def)

lemma elements_per_query_le: "unat (elements_per_query ty) \<le> 8"
proof (cases ty)
  case (QueryPipelineStatistics ps)
  have "length (filter (bit ps) [0..<8]) \<le> 8" by (rule le_trans [OF length_filter_le]) simp
  then show ?thesis using QueryPipelineStatistics by (simp add: elements_per_query_def unat_of_nat)
qed (simp_all add: elements_per_query_def)

lemma resolve_range_inside:
  assumes "resolve_range qs start n sz off = Inr (last_query, stride, e)"
  shows "unat start + unat n = unat last_query \<and> last_query \<le> qs_count qs
    \<and> unat stride = 8 * unat (elements_per_query (qs_type qs))
    \<and> unat e = unat off + unat stride * unat n \<and> unat e \<le> unat sz"
proof -
  let ?sum = "ucast start + ucast n :: u64" and ?bytes = "ucast stride * ucast n :: u64"
  have lt: "unat start < 2 ^ 32" "unat n < 2 ^ 32" "unat stride < 2 ^ 32" "unat (qs_count qs) < 2 ^ 32"
    using unsigned_less [where ?'a = nat and w = start] unsigned_less [where ?'a = nat and w = n]
      unsigned_less [where ?'a = nat and w = stride] unsigned_less [where ?'a = nat and w = "qs_count qs"] by simp_all
  have sum: "unat ?sum = unat start + unat n" using lt by (simp add: unat_word_ariths(1) unat_ucast_u64)
  have r: "\<not> ?sum > ucast (qs_count qs)" "stride = elements_per_query (qs_type qs) * QUERY_SIZE"
    "checked_add off ?bytes = Some e" "e \<le> sz" "last_query = ucast ?sum"
    using assms by (auto simp: resolve_range_def Let_def and_then_Inr split: option.splits if_splits)
  have st: "unat stride = 8 * unat (elements_per_query (qs_type qs))"
    using elements_per_query_le [of "qs_type qs"] unfolding r(2) by (simp add: unat_word_ariths(2) QUERY_SIZE_def)
  have "unat stride * unat n \<le> 64 * 2 ^ 32" using st elements_per_query_le [of "qs_type qs"] lt(2) by (intro mult_mono) simp_all
  then have bytes: "unat ?bytes = unat stride * unat n" by (simp add: unat_word_ariths(2) unat_ucast_u64)
  have q: "unat ?sum \<le> unat (qs_count qs)" using r(1) by (simp add: word_le_nat_alt not_less unat_ucast_u64)
  then have "unat last_query = unat start + unat n"
    using sum lt(4) unfolding r(5) by (simp add: unsigned_ucast_eq take_bit_nat_eq_self)
  then show ?thesis using q sum st r(3,4) bytes by (simp add: checked_add_Some word_le_nat_alt)
qed

lemma resolve_query_set_ok:
  assumes "resolve_query_set dev normaliser qs start n dst off s = Some (Inr cs, s')"
  shows "\<exists>bs last_query stride e more. resolve_range qs start n (gb_size (bst_buffer dst)) off = Inr (last_query, stride, e)
    \<and> \<not> bst_destroyed dst \<and> off mod QUERY_RESOLVE_BUFFER_ALIGNMENT = 0
    \<and> contains (gb_usage (bst_buffer dst)) bus_query_resolve
    \<and> cs = [CmdResolveBarrier bs,
            CmdCopyQueryResults (qs_index qs) start last_query (gb_index (bst_buffer dst)) off (ucast stride)] @ more"
  using assms unfolding resolve_query_set_def Let_def
  by (auto simp: and_then_Inr check_usage_def split: sum.splits bind_splits if_splits)

text \<open>Statistics without any type are accepted, and then the backend is given the stride zero.\<close>

lemma resolve_stride_zero: "resolve_range \<lparr>qs_index = 0, qs_device = 0, qs_type = QueryPipelineStatistics 0, qs_count = 2\<rparr>
    0 2 256 0 = Inr (2, 0, 0)"
  by (simp add: resolve_range_def elements_per_query_def QUERY_SIZE_def checked_add_def)

end
