(* ===== verification/ComputePass.thy ===== *)
theory ComputePass
  imports Binder IndirectValidation Queries MemoryInit
begin

unbundle bit_operations_syntax

text \<open>
  Encoding a compute pass (\<open>wgpu-core/src/command/compute.rs\<close> and the parts it shares with render passes,
  \<open>command/pass.rs\<close>): the commands of the pass are checked in order, and the backend encoder receives a
  list of commands. An error ends the pass, so that the state after it is of no interest; \<open>None\<close> is a
  panic. Acceleration structures are left out.
\<close>

section \<open>The state of a pass\<close>

record compute_pipeline =
  cp_index :: nat
  cp_device :: nat
  cp_layout :: pipeline_layout
  cp_late :: "late_group list"

text \<open>What the backend is given: objects of the user, or those of the indirect validation.\<close>

datatype raw_pipeline = PipelineOf compute_pipeline | ValidationPipeline
datatype raw_layout = LayoutOf pipeline_layout | ValidationLayout
datatype raw_group = GroupOf bind_group | ValidationDst | ValidationSrc nat

datatype pass_command =
  PcTransitionBuffers "buffer_barrier list"
| PcTransitionTextures "nat texture_barrier list"
| PcTransitionValidationDst buffer_uses buffer_uses
| PcBeginComputePass "timestamp_writes option"
| PcEndComputePass
| PcSetPipeline raw_pipeline
| PcSetBindGroup raw_layout nat raw_group "u32 list"
| PcSetImmediates raw_layout u32 "u32 list"
| PcDispatch u32 u32 u32
| PcDispatchIndirect "nat option" u64
| PcQuery query_command
| PcBeginDebugMarker "u8 list"
| PcEndDebugMarker
| PcInsertDebugMarker "u8 list"

datatype immediate_error =
  ImStartOffsetOverrun u32 u32
| ImStartOffsetUnaligned u32
| ImSizeUnaligned u32
| ImEndOffsetOverrun u32 u32 u32
| ImValueStartIndexOverrun u32 nat
| ImValueEndIndexOverrun u32 u32 nat

datatype compute_error =
  CpDevice device_error
| CpBindGroupIndexOutOfRange u32 u32
| CpDestroyed nat
| CpUnalignedIndirectBufferOffset u64
| CpIndirectBufferOverrun u64 u64 u64
| CpBufferConflict "(nat, unit) usage_conflict"
| CpTextureConflict texture_conflict
| CpMissingBufferUsage nat u32 u32
| CpMissingPipeline
| CpIncompatibleBindGroup binder_error
| CpInvalidGroupSize u32 u32 u32 u32
| CpBindingSizeTooSmall late_mismatch
| CpBind bind_error
| CpImmediate immediate_error
| CpQueryUse query_use_error
| CpMissingFeatures features
| CpMissingDownlevelFlags downlevel_flags
| CpInvalidPop
| CpMissingPop

text \<open>What a pass reads: the device with its flags, and the resources by their tracker index.\<close>

record pass_env =
  pe_device :: device
  pe_discard_labels :: bool
  pe_indirect_validation :: bool
  pe_buffers :: "nat \<Rightarrow> buffer_state"
  pe_textures :: "nat \<Rightarrow> texture"
  pe_texture_status :: "nat \<Rightarrow> texture_init_tracker"
  pe_ordered_buffers :: buffer_uses
  pe_ordered_textures :: texture_uses
  pe_buffer_count :: nat
  pe_texture_count :: nat

record compute_state =
  cs_base :: encoding_state
  cs_commands :: "pass_command list"
  cs_pipeline :: "compute_pipeline option"
  cs_binder :: pass_binder
  cs_buffer_scope :: buffer_usage_scope
  cs_texture_scope :: texture_usage_scope
  cs_intermediate_buffers :: buffer_tracker
  cs_intermediate_textures :: texture_tracker
  cs_fixups :: "texture_surface_discard list"
  cs_dynamic_offset_count :: nat
  cs_string_offset :: nat
  cs_debug_scope_depth :: u32
  cs_active_query :: active_query
  cs_immediates :: "u32 list"
  cs_used_groups :: "bind_group list"
  cs_used_pipelines :: "compute_pipeline list"
  cs_used_query_sets :: "query_set list"

type_synonym pass_step = "compute_state \<Rightarrow> (compute_error + compute_state) option"

definition then_step :: "pass_step \<Rightarrow> pass_step \<Rightarrow> pass_step" where
  "then_step f g s = (case f s of None \<Rightarrow> None | Some (Inl e) \<Rightarrow> Some (Inl e) | Some (Inr s') \<Rightarrow> g s')"

definition check_step :: "compute_error + unit \<Rightarrow> pass_step" where
  "check_step r s = Some (and_then r (\<lambda>_. Inr s))"

definition emit :: "pass_command list \<Rightarrow> pass_step" where
  "emit cs s = Some (Inr (s\<lparr>cs_commands := cs_commands s @ cs\<rparr>))"

definition pass_same_device :: "device \<Rightarrow> nat \<Rightarrow> compute_error + unit" where
  "pass_same_device dev d = ensure (d = dev_id dev) (CpDevice (DeviceMismatch d (dev_id dev)))"

section \<open>Setting bind groups\<close>

text \<open>A slice of a list; \<open>None\<close> is the panic of a slice out of bounds.\<close>

definition list_slice :: "'a list \<Rightarrow> nat \<Rightarrow> nat \<Rightarrow> 'a list option" where
  "list_slice xs start n = (if start + n \<le> length xs then Some (take n (drop start xs)) else None)"

definition merge_group :: "bind_group \<Rightarrow> pass_step" where
  "merge_group g s = do {
     (b, r) \<leftarrow> merge_bind_group (grp_buffers g) (cs_buffer_scope s);
     (case r of
        Some c \<Rightarrow> Some (Inl (CpBufferConflict c))
      | None \<Rightarrow> do {
          (t, r) \<leftarrow> ts_merge_bind_group (grp_views g) (cs_texture_scope s);
          (case r of
             Some c \<Rightarrow> Some (Inl (CpTextureConflict c))
           | None \<Rightarrow> Some (Inr (s\<lparr>cs_buffer_scope := b, cs_texture_scope := t\<rparr>))) }) }"

definition update_binder :: "(pass_binder \<Rightarrow> pass_binder option) \<Rightarrow> pass_step" where
  "update_binder f s = map_option (\<lambda>b. Inr (s\<lparr>cs_binder := b\<rparr>)) (f (cs_binder s))"

definition set_bind_group ::
  "pass_env \<Rightarrow> u32 list \<Rightarrow> u32 \<Rightarrow> nat \<Rightarrow> bind_group option \<Rightarrow> bool \<Rightarrow> pass_step" where
  "set_bind_group env dynamic_offsets index num_dynamic_offsets g merge_bind_groups s =
    (let dev = pe_device env; l = dev_limits dev in
     if index \<ge> max_bind_groups l then Some (Inl (CpBindGroupIndexOutOfRange index (max_bind_groups l)))
     else do {
       offsets \<leftarrow> list_slice dynamic_offsets (cs_dynamic_offset_count s) num_dynamic_offsets;
       let s = s\<lparr>cs_dynamic_offset_count := cs_dynamic_offset_count s + num_dynamic_offsets\<rparr>;
       (case g of
          Some g \<Rightarrow>
            then_step (check_step (pass_same_device dev (grp_device g)))
              (then_step (check_step (map_err CpBind (validate_dynamic_bindings l g index offsets)))
              (then_step (if merge_bind_groups then merge_group g else (\<lambda>s. Some (Inr s)))
                (update_binder (assign_group (unat index) g offsets))))
              (s\<lparr>cs_used_groups := cs_used_groups s @ [g]\<rparr>)
        | None \<Rightarrow>
            if offsets \<noteq> [] then Some (Inl (CpBind (BeDynamicOffsetCountNotZero index (length offsets))))
            else update_binder (clear_group (unat index)) s) })"

section \<open>Flushing the bindings\<close>

fun register_actions ::
  "(nat \<Rightarrow> texture_init_tracker) \<Rightarrow> texture_init_tracker_action list \<Rightarrow> texture_memory_actions
   \<Rightarrow> texture_surface_discard list \<times> texture_memory_actions" where
  "register_actions status [] m = ([], m)"
| "register_actions status (a # as) m =
     (let (ds, m) = register_init_action status m a; (rest, m) = register_actions status as m in (ds @ rest, m))"

definition group_init_actions :: "pass_env \<Rightarrow> bind_group \<Rightarrow> compute_state \<Rightarrow> compute_state" where
  "group_init_actions env g s =
    (let base = cs_base s;
         buffer_actions = concat (map (\<lambda>a. option_list (buffer_check_action (bst_status (pe_buffers env (bi_buffer a))) a))
                            (grp_buffer_ranges g));
         (fixups, m) = register_actions (pe_texture_status env) (grp_texture_ranges g) (en_texture_actions base)
     in s\<lparr>cs_base := base\<lparr>en_buffer_actions := en_buffer_actions base @ buffer_actions, en_texture_actions := m\<rparr>,
          cs_fixups := cs_fixups s @ fixups\<rparr>)"

definition try_group :: "pass_env \<Rightarrow> bind_group \<Rightarrow> nat + nat" where
  "try_group env g =
    group_try_raw (\<lambda>b. bst_destroyed (pe_buffers env b)) (\<lambda>t. tex_destroyed (pe_textures env t)) g"

fun bind_groups ::
  "pass_env \<Rightarrow> bool \<Rightarrow> pipeline_layout \<Rightarrow> (nat \<times> bind_group \<times> u32 list) list \<Rightarrow> pass_step" where
  "bind_groups env init l [] s = Some (Inr s)"
| "bind_groups env init l ((i, g, offsets) # rest) s =
     (let s = (if init then group_init_actions env g s else s) in
      case try_group env g of
        Inl x \<Rightarrow> Some (Inl (CpDestroyed x))
      | Inr _ \<Rightarrow> then_step (emit [PcSetBindGroup (LayoutOf l) i (GroupOf g) offsets]) (bind_groups env init l rest) s)"

definition flush_bindings_helper :: "pass_env \<Rightarrow> pass_step" where
  "flush_bindings_helper env s =
    (let b = cs_binder s; (start, m) = take_rebind_start_index (bn_manager b); b = b\<lparr>bn_manager := m\<rparr> in do {
     groups \<leftarrow> list_valid_with_start start b;
     l \<leftarrow> bn_layout b;
     bind_groups env True l groups (s\<lparr>cs_binder := b\<rparr>) })"

fun merge_groups :: "bind_group list \<Rightarrow> pass_step" where
  "merge_groups [] s = Some (Inr s)"
| "merge_groups (g # gs) s = then_step (merge_group g) (merge_groups gs) s"

fun adopt_groups :: "bind_group list \<Rightarrow> compute_state \<Rightarrow> compute_state option" where
  "adopt_groups [] s = Some s"
| "adopt_groups (g # gs) s = do {
     (b, bt) \<leftarrow> set_and_remove_from_usage_scope_sparse (used_tracker_indices (grp_buffers g))
                 (cs_buffer_scope s, cs_intermediate_buffers s);
     (t, tt) \<leftarrow> tt_set_and_remove_from_usage_scope_sparse (grp_views g) (cs_texture_scope s, cs_intermediate_textures s);
     adopt_groups gs (s\<lparr>cs_buffer_scope := b, cs_intermediate_buffers := bt,
                        cs_texture_scope := t, cs_intermediate_textures := tt\<rparr>) }"

definition merge_indirect :: "nat option \<Rightarrow> pass_step" where
  "merge_indirect indirect s =
    (case indirect of
       None \<Rightarrow> Some (Inr s)
     | Some i \<Rightarrow> do {
         (b, r) \<leftarrow> merge_single i bu_indirect (cs_buffer_scope s);
         (case r of Some c \<Rightarrow> Some (Inl (CpBufferConflict c)) | None \<Rightarrow> Some (Inr (s\<lparr>cs_buffer_scope := b\<rparr>))) })"

definition adopt_indirect :: "nat option \<Rightarrow> bool \<Rightarrow> compute_state \<Rightarrow> compute_state option" where
  "adopt_indirect indirect track s =
    (if track then
       map_option (\<lambda>(b, bt). s\<lparr>cs_buffer_scope := b, cs_intermediate_buffers := bt\<rparr>)
         (set_and_remove_from_usage_scope_sparse (option_list indirect) (cs_buffer_scope s, cs_intermediate_buffers s))
     else case indirect of
       None \<Rightarrow> Some s
     | Some i \<Rightarrow> map_option (\<lambda>b. s\<lparr>cs_buffer_scope := b\<rparr>) (remove_usage i bu_indirect (cs_buffer_scope s)))"

definition drain_barriers ::
  "pass_env \<Rightarrow> buffer_tracker \<times> texture_tracker
   \<Rightarrow> (buffer_barrier list \<times> nat texture_barrier list \<times> buffer_tracker \<times> texture_tracker) option" where
  "drain_barriers env st = do {
     let (b, t) = st;
     (bs, b) \<leftarrow> drain_transitions (\<lambda>i. bst_destroyed (pe_buffers env i)) b;
     (ts, t) \<leftarrow> drain_texture_barriers (\<lambda>r. if tex_destroyed (pe_textures env (tr_index r)) then None else Some (tr_index r)) t;
     Some (bs, ts, b, t) }"

definition emit_barriers :: "pass_env \<Rightarrow> pass_step" where
  "emit_barriers env s = do {
     (bs, ts, b, t) \<leftarrow> drain_barriers env (cs_intermediate_buffers s, cs_intermediate_textures s);
     emit [PcTransitionBuffers bs, PcTransitionTextures ts]
       (s\<lparr>cs_intermediate_buffers := b, cs_intermediate_textures := t\<rparr>) }"

definition lift_opt :: "(compute_state \<Rightarrow> compute_state option) \<Rightarrow> pass_step" where
  "lift_opt f s = map_option Inr (f s)"

definition flush_bindings :: "pass_env \<Rightarrow> nat option \<Rightarrow> bool \<Rightarrow> pass_step" where
  "flush_bindings env indirect track_indirect s = do {
     groups \<leftarrow> binder_list_active (cs_binder s);
     then_step (merge_groups groups)
       (then_step (merge_indirect indirect)
       (then_step (lift_opt (adopt_groups groups))
       (then_step (lift_opt (adopt_indirect indirect track_indirect))
       (then_step (flush_bindings_helper env) (emit_barriers env))))) s }"

section \<open>Pipelines and immediate data\<close>

text \<open>The zeroes in pieces of at most 64 words.\<close>

function clear_chunks :: "u32 \<Rightarrow> nat \<Rightarrow> nat \<Rightarrow> (u32 \<times> u32 list) list" where
  "clear_chunks offset count_words left =
    (if left = 0 then []
     else let n = min left 64 in
       (offset + of_nat (count_words * 4), replicate n 0) # clear_chunks offset (count_words + n) (left - n))"
  by auto
termination by (relation "measure (\<lambda>(offset, count_words, left). left)") auto

declare clear_chunks.simps [simp del]

definition immediates_clear :: "u32 \<Rightarrow> u32 \<Rightarrow> (u32 \<times> u32 list) list" where
  "immediates_clear offset size_bytes = clear_chunks offset 0 (unat (size_bytes div IMMEDIATE_DATA_ALIGNMENT))"

definition change_pipeline_layout ::
  "pipeline_layout \<Rightarrow> late_group list \<Rightarrow> (compute_state \<Rightarrow> compute_state) \<Rightarrow> pass_step" where
  "change_pipeline_layout l late f s =
    (let (changed, b) = binder_change_pipeline_layout l late (cs_binder s); s = s\<lparr>cs_binder := b\<rparr> in
     if changed then
       emit (map (\<lambda>(offset, data). PcSetImmediates (LayoutOf l) offset data) (immediates_clear 0 (pl_immediate_size l))) (f s)
     else Some (Inr s))"

definition set_pipeline :: "pass_env \<Rightarrow> compute_pipeline \<Rightarrow> pass_step" where
  "set_pipeline env p =
    then_step (check_step (pass_same_device (pe_device env) (cp_device p)))
    (then_step (\<lambda>s. Some (Inr (s\<lparr>cs_pipeline := Some p, cs_used_pipelines := cs_used_pipelines s @ [p]\<rparr>)))
    (then_step (emit [PcSetPipeline (PipelineOf p)])
      (change_pipeline_layout (cp_layout p) (cp_late p)
        (\<lambda>s. s\<lparr>cs_immediates := replicate (unat (pl_immediate_size (cp_layout p) div IMMEDIATE_DATA_ALIGNMENT)) 0\<rparr>))))"

definition validate_immediates_ranges :: "pipeline_layout \<Rightarrow> u32 \<Rightarrow> u32 \<Rightarrow> immediate_error + unit" where
  "validate_immediates_ranges l offset size_bytes =
    and_then (ensure (offset mod IMMEDIATE_DATA_ALIGNMENT = 0) (ImStartOffsetUnaligned offset)) (\<lambda>_.
    and_then (ensure (size_bytes mod IMMEDIATE_DATA_ALIGNMENT = 0) (ImSizeUnaligned offset)) (\<lambda>_.
    and_then (ensure (\<not> offset > pl_immediate_size l) (ImStartOffsetOverrun offset (pl_immediate_size l))) (\<lambda>_.
    ensure (\<not> size_bytes > pl_immediate_size l - offset) (ImEndOffsetOverrun offset size_bytes (pl_immediate_size l)))))"

definition immediate_values :: "u32 list \<Rightarrow> u32 \<Rightarrow> u32 \<Rightarrow> immediate_error + u32 list" where
  "immediate_values data values_offset size_bytes =
    (let n = size_bytes div IMMEDIATE_DATA_ALIGNMENT in
     and_then (ensure (\<not> unat values_offset > length data) (ImValueStartIndexOverrun values_offset (length data))) (\<lambda>_.
     and_then (ensure (\<not> unat n > length data - unat values_offset) (ImValueEndIndexOverrun values_offset n (length data))) (\<lambda>_.
     Inr (take (unat n) (drop (unat values_offset) data)))))"

text \<open>The copy of the immediate data; \<open>None\<close> is the panic of a slice out of bounds.\<close>

definition store_immediates :: "u32 \<Rightarrow> u32 list \<Rightarrow> u32 list \<Rightarrow> u32 list option" where
  "store_immediates offset data imms =
    (let k = unat (offset div IMMEDIATE_DATA_ALIGNMENT) in
     if k + length data \<le> length imms then Some (take k imms @ data @ drop (k + length data) imms) else None)"

definition set_immediates :: "u32 list \<Rightarrow> u32 \<Rightarrow> u32 \<Rightarrow> u32 \<Rightarrow> pass_step" where
  "set_immediates data offset size_bytes values_offset s =
    (case bn_layout (cs_binder s) of
       None \<Rightarrow> Some (Inl CpMissingPipeline)
     | Some l \<Rightarrow>
         (case and_then (validate_immediates_ranges l offset size_bytes) (\<lambda>_. immediate_values data values_offset size_bytes) of
            Inl e \<Rightarrow> Some (Inl (CpImmediate e))
          | Inr vs \<Rightarrow> do {
              imms \<leftarrow> store_immediates offset vs (cs_immediates s);
              emit [PcSetImmediates (LayoutOf l) offset vs] (s\<lparr>cs_immediates := imms\<rparr>) }))"

section \<open>Dispatches\<close>

definition is_ready :: "pass_step" where
  "is_ready s =
    (case cs_pipeline s of
       None \<Rightarrow> Some (Inl CpMissingPipeline)
     | Some p \<Rightarrow> do {
         r \<leftarrow> check_compatibility (cp_index p) (cs_binder s);
         (case r of
            Inl e \<Rightarrow> Some (Inl (CpIncompatibleBindGroup e))
          | Inr _ \<Rightarrow> map_option (\<lambda>r. and_then (map_err CpBindingSizeTooSmall r) (\<lambda>_. Inr s))
                     (check_late_buffer_bindings (cs_binder s))) })"

definition dispatch :: "pass_env \<Rightarrow> u32 \<Rightarrow> u32 \<Rightarrow> u32 \<Rightarrow> pass_step" where
  "dispatch env x y z =
    (let limit = max_compute_workgroups_per_dimension (dev_limits (pe_device env)) in
     then_step is_ready
     (then_step (flush_bindings env None False)
     (then_step (check_step (ensure (\<not> (x > limit \<or> y > limit \<or> z > limit)) (CpInvalidGroupSize x y z limit)))
       (emit [PcDispatch x y z]))))"

definition check_indirect :: "pass_env \<Rightarrow> buffer_state \<Rightarrow> u64 \<Rightarrow> compute_error + unit" where
  "check_indirect env b offset =
    (let buf = bst_buffer b; args_size = 12 in
     and_then (map_err CpMissingDownlevelFlags (require_downlevel_flags (pe_device env) df_indirect_execution)) (\<lambda>_.
     and_then (map_err (\<lambda>(i, a, e). CpMissingBufferUsage i a e) (check_usage buf bus_indirect)) (\<lambda>_.
     and_then (ensure (offset mod 4 = 0) (CpUnalignedIndirectBufferOffset offset)) (\<lambda>_.
     and_then (ensure (\<not> (gb_size buf < args_size \<or> gb_size buf - args_size < offset))
                 (CpIndirectBufferOverrun offset (offset + args_size) (gb_size buf))) (\<lambda>_.
     ensure (\<not> bst_destroyed b) (CpDestroyed (gb_index buf)))))))"

text \<open>The run of the validation, and the state of the backend set up again after it.\<close>

definition run_indirect_validation :: "pass_env \<Rightarrow> nat \<Rightarrow> u64 \<Rightarrow> u64 \<Rightarrow> pass_step" where
  "run_indirect_validation env b aligned_offset offset_remainder s = do {
     (pending, bt) \<leftarrow> set_single b bu_storage_read_only (cs_intermediate_buffers s);
     barriers \<leftarrow> buffer_barriers (pe_buffers env b) pending;
     emit [PcSetPipeline ValidationPipeline,
           PcSetImmediates ValidationLayout 0 [ucast offset_remainder div 4],
           PcSetBindGroup ValidationLayout 0 ValidationDst [],
           PcSetBindGroup ValidationLayout 1 (ValidationSrc b) [ucast aligned_offset],
           PcTransitionBuffers barriers,
           PcTransitionValidationDst bu_indirect bu_storage_read_write,
           PcDispatch 1 1 1]
       (s\<lparr>cs_intermediate_buffers := bt\<rparr>) }"

definition reset_after_validation :: "pass_env \<Rightarrow> pass_step" where
  "reset_after_validation env s = do {
     p \<leftarrow> cs_pipeline s;
     groups \<leftarrow> list_valid_with_start 0 (cs_binder s);
     then_step (emit [PcSetPipeline (PipelineOf p)])
       (then_step (emit (if cs_immediates s \<noteq> [] then [PcSetImmediates (LayoutOf (cp_layout p)) 0 (cs_immediates s)] else []))
       (then_step (bind_groups env False (cp_layout p) groups)
         (emit [PcTransitionValidationDst bu_storage_read_write bu_indirect]))) s }"

definition dispatch_indirect :: "pass_env \<Rightarrow> nat \<Rightarrow> u64 \<Rightarrow> pass_step" where
  "dispatch_indirect env i offset =
    (let b = pe_buffers env i; dev = pe_device env in
     then_step (check_step (map_err CpDevice (buffer_same_device dev b)))
     (then_step is_ready
     (then_step (check_step (check_indirect env b offset))
     (then_step (\<lambda>s. Some (Inr (s\<lparr>cs_base := (cs_base s)\<lparr>en_buffer_actions := en_buffer_actions (cs_base s) @
         option_list (buffer_create_action (bst_status b) i (Range offset (offset + 12)) NeedsInitializedMemory)\<rparr>\<rparr>)))
       (if pe_indirect_validation env then
          let (aligned_offset, offset_remainder) = dispatch_params (dev_limits dev) offset (gb_size (bst_buffer b)) in
          then_step (run_indirect_validation env i aligned_offset offset_remainder)
          (then_step (reset_after_validation env)
          (then_step (flush_bindings env (Some i) False)
            (emit [PcDispatchIndirect None 0])))
        else
          then_step (flush_bindings env (Some i) True)
            (emit [PcDispatchIndirect (Some i) offset]))))))"

section \<open>Debug groups and queries\<close>

definition with_label :: "pass_env \<Rightarrow> u8 list \<Rightarrow> nat \<Rightarrow> (u8 list \<Rightarrow> pass_command) \<Rightarrow> pass_step" where
  "with_label env string_data len f s =
    then_step (if pe_discard_labels env then (\<lambda>s. Some (Inr s))
               else (\<lambda>s. Option.bind (list_slice string_data (cs_string_offset s) len) (\<lambda>label. emit [f label] s)))
      (\<lambda>s. Some (Inr (s\<lparr>cs_string_offset := cs_string_offset s + len\<rparr>))) s"

definition push_debug_group :: "pass_env \<Rightarrow> u8 list \<Rightarrow> nat \<Rightarrow> pass_step" where
  "push_debug_group env string_data len s =
    with_label env string_data len PcBeginDebugMarker (s\<lparr>cs_debug_scope_depth := cs_debug_scope_depth s + 1\<rparr>)"

definition pop_debug_group :: "pass_env \<Rightarrow> pass_step" where
  "pop_debug_group env s =
    (if cs_debug_scope_depth s = 0 then Some (Inl CpInvalidPop)
     else emit (if pe_discard_labels env then [] else [PcEndDebugMarker])
            (s\<lparr>cs_debug_scope_depth := cs_debug_scope_depth s - 1\<rparr>))"

definition insert_debug_marker :: "pass_env \<Rightarrow> u8 list \<Rightarrow> nat \<Rightarrow> pass_step" where
  "insert_debug_marker env string_data len = with_label env string_data len PcInsertDebugMarker"

definition pass_write_timestamp :: "pass_env \<Rightarrow> query_set \<Rightarrow> u32 \<Rightarrow> pass_step" where
  "pass_write_timestamp env qs i s =
    (case and_then (pass_same_device (pe_device env) (qs_device qs)) (\<lambda>_.
            map_err CpMissingFeatures (require_features (pe_device env) timestamp_query_inside_passes)) of
       Inl e \<Rightarrow> Some (Inl e)
     | Inr _ \<Rightarrow> do {
         (r, _) \<leftarrow> validate_and_write_timestamp qs i None;
         (case r of
            Inl e \<Rightarrow> Some (Inl (CpQueryUse e))
          | Inr cs \<Rightarrow> emit (map PcQuery cs) (s\<lparr>cs_used_query_sets := cs_used_query_sets s @ [qs]\<rparr>)) })"

definition pass_begin_statistics :: "pass_env \<Rightarrow> query_set \<Rightarrow> u32 \<Rightarrow> pass_step" where
  "pass_begin_statistics env qs i s = do {
     (r, _, active) \<leftarrow> validate_and_begin_pipeline_statistics_query (pe_device env) qs i None (cs_active_query s);
     (case r of
        Inl e \<Rightarrow> Some (Inl (CpQueryUse e))
      | Inr cs \<Rightarrow> emit (map PcQuery cs)
                   (s\<lparr>cs_active_query := active, cs_used_query_sets := cs_used_query_sets s @ [qs]\<rparr>)) }"

definition pass_end_statistics :: pass_step where
  "pass_end_statistics s =
    (let (r, active) = end_query (cs_active_query s) in
     case r of
       Inl e \<Rightarrow> Some (Inl (CpQueryUse e))
     | Inr cs \<Rightarrow> emit (map PcQuery cs) (s\<lparr>cs_active_query := active\<rparr>))"

section \<open>The pass\<close>

datatype arc_compute_command =
  CmdSetBindGroup u32 nat "bind_group option"
| CmdSetPipeline compute_pipeline
| CmdSetImmediate u32 u32 u32
| CmdDispatch u32 u32 u32
| CmdDispatchIndirect nat u64
| CmdPushDebugGroup nat
| CmdPopDebugGroup
| CmdInsertDebugMarker nat
| CmdPassTimestamp query_set u32
| CmdBeginStatistics query_set u32
| CmdEndStatistics

record base_pass =
  bp_commands :: "arc_compute_command list"
  bp_dynamic_offsets :: "u32 list"
  bp_string_data :: "u8 list"
  bp_immediates_data :: "u32 list"

definition compute_command :: "pass_env \<Rightarrow> base_pass \<Rightarrow> arc_compute_command \<Rightarrow> pass_step" where
  "compute_command env base c =
    (case c of
       CmdSetBindGroup index n g \<Rightarrow> set_bind_group env (bp_dynamic_offsets base) index n g False
     | CmdSetPipeline p \<Rightarrow> set_pipeline env p
     | CmdSetImmediate offset size_bytes values_offset \<Rightarrow>
         set_immediates (bp_immediates_data base) offset size_bytes values_offset
     | CmdDispatch x y z \<Rightarrow> dispatch env x y z
     | CmdDispatchIndirect i offset \<Rightarrow> dispatch_indirect env i offset
     | CmdPushDebugGroup len \<Rightarrow> push_debug_group env (bp_string_data base) len
     | CmdPopDebugGroup \<Rightarrow> pop_debug_group env
     | CmdInsertDebugMarker len \<Rightarrow> insert_debug_marker env (bp_string_data base) len
     | CmdPassTimestamp qs i \<Rightarrow> pass_write_timestamp env qs i
     | CmdBeginStatistics qs i \<Rightarrow> pass_begin_statistics env qs i
     | CmdEndStatistics \<Rightarrow> pass_end_statistics)"

fun compute_commands :: "pass_env \<Rightarrow> base_pass \<Rightarrow> arc_compute_command list \<Rightarrow> pass_step" where
  "compute_commands env base [] s = Some (Inr s)"
| "compute_commands env base (c # cs) s = then_step (compute_command env base c) (compute_commands env base cs) s"

definition initial_compute_state :: "pass_env \<Rightarrow> encoding_state \<Rightarrow> compute_state" where
  "initial_compute_state env parent =
    \<lparr>cs_base = parent\<lparr>en_buffers := tracker_set_size (pe_buffer_count env) (en_buffers parent),
                     en_textures := tt_set_size (pe_texture_count env) (en_textures parent)\<rparr>,
     cs_commands = [], cs_pipeline = None, cs_binder = new_binder,
     cs_buffer_scope = scope_set_ordered (pe_ordered_buffers env) (scope_set_size (pe_buffer_count env) default_scope),
     cs_texture_scope = ts_set_ordered (pe_ordered_textures env) (ts_set_size (pe_texture_count env) default_texture_scope),
     cs_intermediate_buffers = new_buffer_tracker (pe_ordered_buffers env),
     cs_intermediate_textures = new_texture_usage_tracker (pe_ordered_textures env),
     cs_fixups = [], cs_dynamic_offset_count = 0, cs_string_offset = 0, cs_debug_scope_depth = 0,
     cs_active_query = None, cs_immediates = [], cs_used_groups = [], cs_used_pipelines = [], cs_used_query_sets = []\<rparr>"

definition begin_compute_pass :: "pass_env \<Rightarrow> timestamp_writes option \<Rightarrow> pass_step" where
  "begin_compute_pass env tw s =
    (case tw of
       None \<Rightarrow> emit [PcBeginComputePass None] s
     | Some w \<Rightarrow>
         (let qs = tw_query_set w in
          then_step (check_step (pass_same_device (pe_device env) (qs_device qs)))
            (emit ((case timestamp_reset_range w of Some (a, b) \<Rightarrow> [PcQuery (CmdResetQueries (qs_index qs) a b)] | None \<Rightarrow> [])
                   @ [PcBeginComputePass (Some w)]))
            (s\<lparr>cs_used_query_sets := cs_used_query_sets s @ [qs]\<rparr>)))"

text \<open>The discarded surfaces that the pass reads are cleared before it; an error there is a panic.\<close>

fun fixup_discarded_surfaces :: "pass_env \<Rightarrow> texture_surface_discard list \<Rightarrow> encoding_state \<Rightarrow> encoding_state option" where
  "fixup_discarded_surfaces env [] e = Some e"
| "fixup_discarded_surfaces env (d # ds) e =
     (case en_clear_texture (pe_device env) (pe_textures env (sd_texture d)) (surface_range d) e of
        Some (Inr _, e') \<Rightarrow> fixup_discarded_surfaces env ds e'
      | _ \<Rightarrow> None)"

text \<open>The barriers between what the encoder did before and the pass, after the clears.\<close>

definition pre_pass :: "pass_env \<Rightarrow> compute_state \<Rightarrow> encoding_state option" where
  "pre_pass env s = do {
     e \<leftarrow> fixup_discarded_surfaces env (cs_fixups s) ((cs_base s)\<lparr>en_commands := []\<rparr>);
     b \<leftarrow> set_from_tracker (cs_intermediate_buffers s) (en_buffers e);
     t \<leftarrow> tt_set_from_tracker (cs_intermediate_textures s) (en_textures e);
     (bs, ts, b, t) \<leftarrow> drain_barriers env (b, t);
     Some (e\<lparr>en_buffers := b, en_textures := t,
            en_commands := en_commands e @ [HcTransitionBuffers bs, HcTransitionTextures ts]\<rparr>) }"

text \<open>The state of the encoder, with the commands of the buffer before the pass, and those of the pass.\<close>

definition encode_compute_pass ::
  "pass_env \<Rightarrow> base_pass \<Rightarrow> timestamp_writes option \<Rightarrow> encoding_state
   \<Rightarrow> (compute_error + encoding_state \<times> pass_command list) option" where
  "encode_compute_pass env base tw parent =
    (case
       then_step (begin_compute_pass env tw)
       (then_step (compute_commands env base (bp_commands base))
       (then_step (\<lambda>s. check_step (ensure (\<not> cs_debug_scope_depth s > 0) CpMissingPop) s)
         (emit [PcEndComputePass])))
       (initial_compute_state env parent)
     of None \<Rightarrow> None
      | Some (Inl e) \<Rightarrow> Some (Inl e)
      | Some (Inr s) \<Rightarrow> map_option (\<lambda>e. Inr (e, cs_commands s)) (pre_pass env s))"

end
