(* ===== verification/Encoders.thy ===== *)
theory Encoders
  imports ComputePass Copies
begin

unbundle bit_operations_syntax

text \<open>
  Command encoders (\<open>wgpu-core/src/command/mod.rs\<close> and the entry points of compute passes in
  \<open>command/compute.rs\<close>): the status of an encoder with the passes that lock it, the raw encoder of the
  backend with the list of buffers it has built, and the encoding of the recorded commands when the
  encoder is finished. Render passes and acceleration structures are left out. \<open>None\<close> is a panic.
\<close>

section \<open>The raw encoder\<close>

datatype raw_command =
  RcCommand hal_command
| RcPass pass_command
| RcQuery query_command
| RcBeginDebugMarker "u8 list"
| RcEndDebugMarker
| RcInsertDebugMarker "u8 list"

datatype encoding_api = ApiWgpu | ApiRaw | ApiUndecided | ApiInternalUse

text \<open>Mixing the interfaces panics.\<close>

definition api_set :: "encoding_api \<Rightarrow> encoding_api \<Rightarrow> encoding_api option" where
  "api_set api self_api =
    (if self_api = ApiUndecided then Some api else if self_api \<noteq> api then None else Some self_api)"

text \<open>
  The calls that the encoder of the backend receives. Its answers to the two calls that may fail
  depend on how many calls were made before.
\<close>

datatype raw_call = CallBegin | CallEnd | CallDiscard | CallResetAll nat | CallRecord "raw_command list"

record hal_encoder =
  he_begin :: "nat \<Rightarrow> device_error option"
  he_end :: "nat \<Rightarrow> device_error option"

record inner_encoder =
  ie_calls :: "raw_call list"
  ie_recorded :: "raw_command list"
  ie_list :: "raw_command list list"
  ie_is_open :: bool
  ie_api :: encoding_api

definition new_inner_encoder :: inner_encoder where
  "new_inner_encoder = \<lparr>ie_calls = [], ie_recorded = [], ie_list = [], ie_is_open = False, ie_api = ApiUndecided\<rparr>"

type_synonym ('e, 'a, 's) step_result = "('e + 'a) \<times> 's"

definition call_begin :: "hal_encoder \<Rightarrow> inner_encoder \<Rightarrow> (device_error, unit, inner_encoder) step_result" where
  "call_begin hal e =
    (let e' = e\<lparr>ie_calls := ie_calls e @ [CallBegin]\<rparr> in
     case he_begin hal (length (ie_calls e)) of
       Some err \<Rightarrow> (Inl err, e')
     | None \<Rightarrow> (Inr (), e'\<lparr>ie_recorded := [], ie_is_open := True\<rparr>))"

text \<open>The buffer with the commands recorded so far; the encoder is closed either way.\<close>

definition call_end :: "hal_encoder \<Rightarrow> inner_encoder \<Rightarrow> (device_error, raw_command list, inner_encoder) step_result" where
  "call_end hal e =
    (let e' = e\<lparr>ie_calls := ie_calls e @ [CallEnd], ie_is_open := False\<rparr> in
     case he_end hal (length (ie_calls e)) of
       Some err \<Rightarrow> (Inl err, e')
     | None \<Rightarrow> (Inr (ie_recorded e), e'))"

definition call_record :: "raw_command list \<Rightarrow> inner_encoder \<Rightarrow> inner_encoder" where
  "call_record cs e = e\<lparr>ie_calls := ie_calls e @ [CallRecord cs], ie_recorded := ie_recorded e @ cs\<rparr>"

definition close_with ::
  "(raw_command list \<Rightarrow> raw_command list list \<Rightarrow> raw_command list list option) \<Rightarrow> hal_encoder \<Rightarrow> inner_encoder
   \<Rightarrow> (device_error, unit, inner_encoder) step_result option" where
  "close_with put_buffer hal e =
    (if ie_is_open e then
       (case call_end hal e of
          (Inl err, e') \<Rightarrow> Some (Inl err, e')
        | (Inr b, e') \<Rightarrow> map_option (\<lambda>l. (Inr (), e'\<lparr>ie_list := l\<rparr>)) (put_buffer b (ie_list e')))
     else None)"

definition close :: "hal_encoder \<Rightarrow> inner_encoder \<Rightarrow> (device_error, unit, inner_encoder) step_result option" where
  "close = close_with (\<lambda>b l. Some (l @ [b]))"

definition close_and_push_front :: "hal_encoder \<Rightarrow> inner_encoder \<Rightarrow> (device_error, unit, inner_encoder) step_result option" where
  "close_and_push_front = close_with (\<lambda>b l. Some (b # l))"

text \<open>Just before the last buffer; an empty list is a panic.\<close>

definition close_and_swap :: "hal_encoder \<Rightarrow> inner_encoder \<Rightarrow> (device_error, unit, inner_encoder) step_result option" where
  "close_and_swap = close_with (\<lambda>b l. if l = [] then None else Some (vec_insert (length l - 1) b l))"

definition close_if_open :: "hal_encoder \<Rightarrow> inner_encoder \<Rightarrow> (device_error, unit, inner_encoder) step_result option" where
  "close_if_open hal e = (if ie_is_open e then close hal e else Some (Inr (), e))"

definition open_if_closed :: "hal_encoder \<Rightarrow> inner_encoder \<Rightarrow> (device_error, unit, inner_encoder) step_result option" where
  "open_if_closed hal e = Some (if ie_is_open e then (Inr (), e) else call_begin hal e)"

definition open_pass :: "hal_encoder \<Rightarrow> inner_encoder \<Rightarrow> (device_error, unit, inner_encoder) step_result option" where
  "open_pass hal e = (if ie_is_open e then None else Some (call_begin hal e))"

text \<open>The encoder goes back to the pool of the device: closed, and without buffers.\<close>

definition drop_encoder :: "inner_encoder \<Rightarrow> inner_encoder" where
  "drop_encoder e =
    (let e = (if ie_is_open e then e\<lparr>ie_calls := ie_calls e @ [CallDiscard], ie_is_open := False\<rparr> else e) in
     e\<lparr>ie_calls := ie_calls e @ [CallResetAll (length (ie_list e))], ie_list := []\<rparr>)"

section \<open>The commands\<close>

datatype arc_command =
  ArcTransfer transfer_command
| ArcWriteTimestamp query_set u32
| ArcResolveQuerySet query_set u32 u32 nat u64
| ArcPushDebugGroup "u8 list"
| ArcPopDebugGroup
| ArcInsertDebugMarker "u8 list"
| ArcTransitionResources "(nat \<times> buffer_uses) list" "(nat \<times> texture_selector option \<times> texture_uses) list"
| ArcRunComputePass base_pass "timestamp_writes option"

datatype encoder_state_error = SeInvalid | SeEnded | SeLocked | SeUnlocked | SeSubmitted

datatype transition_error =
  TrDevice device_error
| TrBufferConflict "(nat, unit) usage_conflict"
| TrTextureConflict texture_conflict

datatype pass_error =
  PeState encoder_state_error
| PeDevice device_error
| PeTimestampWrites timestamp_writes_error
| PeInvalidResource nat
| PeImmediateOffsetAlignment
| PeImmediateDataSizeAlignment
| PeImmediateOutOfMemory

datatype encoder_error =
  EeState encoder_state_error
| EeDevice device_error
| EeInvalidResource nat
| EeCommand command_error
| EeQuery query_error
| EeTransition transition_error
| EeComputePass compute_error
| EePass pass_error
| EeInvalidPop
| EeMissingPop

definition is_destroyed_error :: "encoder_error \<Rightarrow> bool" where
  "is_destroyed_error e =
    (case e of
       EeCommand (CmDestroyed _) \<Rightarrow> True
     | EeCommand (CmClear (CeDestroyed _)) \<Rightarrow> True
     | EeQuery (QeDestroyed _) \<Rightarrow> True
     | EeComputePass (CpDestroyed _) \<Rightarrow> True
     | _ \<Rightarrow> False)"

section \<open>Encoding the commands\<close>

text \<open>What an encoding works on: the raw encoder, the trackers and actions, and the debug groups.\<close>

record encode_run =
  er_encoder :: inner_encoder
  er_state :: encoding_state
  er_depth :: u32

type_synonym ('e, 'a) er = "encode_run \<Rightarrow> (('e + 'a) \<times> encode_run) option"

definition er_bind :: "('e, 'a) er \<Rightarrow> ('a \<Rightarrow> ('e, 'b) er) \<Rightarrow> ('e, 'b) er" where
  "er_bind m f s =
    (case m s of None \<Rightarrow> None | Some (Inl e, s') \<Rightarrow> Some (Inl e, s') | Some (Inr a, s') \<Rightarrow> f a s')"

definition er_lift :: "'e + 'a \<Rightarrow> ('e, 'a) er" where
  "er_lift r s = Some (r, s)"

text \<open>A call of the raw encoder whose error the caller wraps.\<close>

definition er_raw ::
  "(device_error \<Rightarrow> encoder_error) \<Rightarrow> (inner_encoder \<Rightarrow> (device_error, unit, inner_encoder) step_result option) \<Rightarrow> (encoder_error, unit) er" where
  "er_raw err f s = map_option (\<lambda>(r, e). (map_err err r, s\<lparr>er_encoder := e\<rparr>)) (f (er_encoder s))"

definition er_record :: "raw_command list \<Rightarrow> ('e, unit) er" where
  "er_record cs s = Some (Inr (), s\<lparr>er_encoder := call_record cs (er_encoder s)\<rparr>)"

text \<open>A step that lists the commands it sends in its state; they reach the raw encoder even when it fails.\<close>

definition er_enc :: "('e \<Rightarrow> encoder_error) \<Rightarrow> ('e, unit) enc \<Rightarrow> (encoder_error, unit) er" where
  "er_enc f m s =
    map_option (\<lambda>(r, es).
      (map_err f r, s\<lparr>er_encoder := call_record (map RcCommand (en_commands es)) (er_encoder s), er_state := es\<lparr>en_commands := []\<rparr>\<rparr>))
      (m ((er_state s)\<lparr>en_commands := []\<rparr>))"

definition er_timestamp :: "device \<Rightarrow> query_set \<Rightarrow> u32 \<Rightarrow> (encoder_error, unit) er" where
  "er_timestamp dev qs i s =
    Option.bind (write_timestamp dev qs i) (\<lambda>r. er_bind (er_lift (map_err EeQuery r)) (\<lambda>cs. er_record (map RcQuery cs)) s)"

type_synonym normaliser =
  "buffer_state \<Rightarrow> u64 \<Rightarrow> u32 \<Rightarrow> buffer_tracker \<Rightarrow> (buffer_tracker \<times> query_command list) option"

definition er_resolve ::
  "device \<Rightarrow> normaliser \<Rightarrow> query_set \<Rightarrow> u32 \<Rightarrow> u32 \<Rightarrow> buffer_state \<Rightarrow> u64 \<Rightarrow> (encoder_error, unit) er" where
  "er_resolve dev normaliser qs start_query query_count dst destination_offset s =
    Option.bind (resolve_query_set dev normaliser qs start_query query_count dst destination_offset (er_state s))
      (\<lambda>(r, es). er_bind (er_lift (map_err EeQuery r)) (\<lambda>cs. er_record (map RcQuery cs)) (s\<lparr>er_state := es\<rparr>))"

definition encoder_push_debug_group :: "bool \<Rightarrow> u8 list \<Rightarrow> (encoder_error, unit) er" where
  "encoder_push_debug_group discard_labels label s =
    er_record (if discard_labels then [] else [RcBeginDebugMarker label]) (s\<lparr>er_depth := er_depth s + 1\<rparr>)"

definition encoder_insert_debug_marker :: "bool \<Rightarrow> u8 list \<Rightarrow> (encoder_error, unit) er" where
  "encoder_insert_debug_marker discard_labels label =
    er_record (if discard_labels then [] else [RcInsertDebugMarker label])"

definition encoder_pop_debug_group :: "bool \<Rightarrow> (encoder_error, unit) er" where
  "encoder_pop_debug_group discard_labels s =
    (if er_depth s = 0 then Some (Inl EeInvalidPop, s)
     else er_record (if discard_labels then [] else [RcEndDebugMarker]) (s\<lparr>er_depth := er_depth s - 1\<rparr>))"

fun transition_buffers ::
  "device \<Rightarrow> (nat \<Rightarrow> buffer_state) \<Rightarrow> (nat \<times> buffer_uses) list \<Rightarrow> buffer_usage_scope
   \<Rightarrow> (transition_error + buffer_usage_scope) option" where
  "transition_buffers dev bufs [] scope = Some (Inr scope)"
| "transition_buffers dev bufs ((b, use) # rest) scope =
     (case buffer_same_device dev (bufs b) of
        Inl e \<Rightarrow> Some (Inl (TrDevice e))
      | Inr _ \<Rightarrow> do {
          (scope, r) \<leftarrow> merge_single b use scope;
          (case r of Some c \<Rightarrow> Some (Inl (TrBufferConflict c)) | None \<Rightarrow> transition_buffers dev bufs rest scope) })"

fun transition_textures ::
  "device \<Rightarrow> (nat \<Rightarrow> texture) \<Rightarrow> (nat \<times> texture_selector option \<times> texture_uses) list \<Rightarrow> texture_usage_scope
   \<Rightarrow> (transition_error + texture_usage_scope) option" where
  "transition_textures dev texs [] scope = Some (Inr scope)"
| "transition_textures dev texs ((t, selector, use) # rest) scope =
     (case texture_same_device dev (texs t) of
        Inl e \<Rightarrow> Some (Inl (TrDevice e))
      | Inr _ \<Rightarrow> do {
          (scope, r) \<leftarrow> ts_merge_single \<lparr>tr_index = t, tr_full_range = tex_full_range (texs t)\<rparr> selector use scope;
          (case r of Some c \<Rightarrow> Some (Inl (TrTextureConflict c)) | None \<Rightarrow> transition_textures dev texs rest scope) })"

definition insert_barriers_from_scope ::
  "pass_env \<Rightarrow> buffer_usage_scope \<Rightarrow> texture_usage_scope \<Rightarrow> encoding_state \<Rightarrow> (raw_command list \<times> encoding_state) option" where
  "insert_barriers_from_scope env bscope tscope es = do {
     b \<leftarrow> set_from_usage_scope bscope (en_buffers es);
     t \<leftarrow> tt_set_from_usage_scope tscope (en_textures es);
     (bs, ts, b, t) \<leftarrow> drain_barriers env (b, t);
     Some ([RcCommand (HcTransitionBuffers bs), RcCommand (HcTransitionTextures ts)], es\<lparr>en_buffers := b, en_textures := t\<rparr>) }"

definition transition_resources ::
  "pass_env \<Rightarrow> (nat \<times> buffer_uses) list \<Rightarrow> (nat \<times> texture_selector option \<times> texture_uses) list \<Rightarrow> (encoder_error, unit) er" where
  "transition_resources env buffer_transitions texture_transitions s = do {
     rb \<leftarrow> transition_buffers (pe_device env) (pe_buffers env) buffer_transitions
            (scope_set_ordered (pe_ordered_buffers env) (scope_set_size (pe_buffer_count env) default_scope));
     (case rb of
        Inl e \<Rightarrow> Some (Inl (EeTransition e), s)
      | Inr bscope \<Rightarrow> do {
          rt \<leftarrow> transition_textures (pe_device env) (pe_textures env) texture_transitions
                 (ts_set_ordered (pe_ordered_textures env) (ts_set_size (pe_texture_count env) default_texture_scope));
          (case rt of
             Inl e \<Rightarrow> Some (Inl (EeTransition e), s)
           | Inr tscope \<Rightarrow> do {
               (cs, es) \<leftarrow> insert_barriers_from_scope env bscope tscope (er_state s);
               er_record cs (s\<lparr>er_state := es\<rparr>) }) }) }"

definition pass_device_error :: "device_error \<Rightarrow> encoder_error" where
  "pass_device_error d = EeComputePass (CpDevice d)"

text \<open>
  A pass closes the buffer before it, records its own, and puts the buffer with the barriers and clears
  it needs before its own. After an error the recorded commands are of no interest.
\<close>

definition record_pass :: "hal_encoder \<Rightarrow> raw_command list \<Rightarrow> raw_command list \<Rightarrow> (encoder_error, unit) er" where
  "record_pass hal body pre =
    er_bind (er_record body) (\<lambda>_.
    er_bind (er_raw pass_device_error (close hal)) (\<lambda>_.
    er_bind (er_raw pass_device_error (open_pass hal)) (\<lambda>_.
    er_bind (er_record pre) (\<lambda>_.
    er_raw pass_device_error (close_and_swap hal)))))"

definition run_compute_pass ::
  "hal_encoder \<Rightarrow> pass_env \<Rightarrow> base_pass \<Rightarrow> timestamp_writes option \<Rightarrow> (encoder_error, unit) er" where
  "run_compute_pass hal env base tw =
    er_bind (er_raw pass_device_error (close_if_open hal)) (\<lambda>_.
    er_bind (er_raw pass_device_error (open_pass hal)) (\<lambda>_ s.
      case encode_compute_pass env base tw (er_state s) of
        None \<Rightarrow> None
      | Some (Inl e) \<Rightarrow> Some (Inl (EeComputePass e), s)
      | Some (Inr (es, body)) \<Rightarrow>
          record_pass hal (map RcPass body) (map RcCommand (en_commands es)) (s\<lparr>er_state := es\<lparr>en_commands := []\<rparr>\<rparr>)))"

text \<open>A command other than a pass is recorded into an open encoder.\<close>

definition encode_arc_command ::
  "hal_encoder \<Rightarrow> pass_env \<Rightarrow> normaliser \<Rightarrow> arc_command \<Rightarrow> (encoder_error, unit) er" where
  "encode_arc_command hal env normaliser c =
    (let dev = pe_device env; opened = (\<lambda>m. er_bind (er_raw EeDevice (open_if_closed hal)) (\<lambda>_. m)) in
     case c of
       ArcRunComputePass base tw \<Rightarrow> run_compute_pass hal env base tw
     | ArcTransfer t \<Rightarrow> opened (er_enc EeCommand (encode_command dev (pe_buffers env) (pe_textures env) t))
     | ArcWriteTimestamp qs i \<Rightarrow> opened (er_timestamp dev qs i)
     | ArcResolveQuerySet qs start_query query_count dst off \<Rightarrow>
         opened (er_resolve dev normaliser qs start_query query_count (pe_buffers env dst) off)
     | ArcPushDebugGroup label \<Rightarrow> opened (encoder_push_debug_group (pe_discard_labels env) label)
     | ArcPopDebugGroup \<Rightarrow> opened (encoder_pop_debug_group (pe_discard_labels env))
     | ArcInsertDebugMarker label \<Rightarrow> opened (encoder_insert_debug_marker (pe_discard_labels env) label)
     | ArcTransitionResources bs ts \<Rightarrow> opened (transition_resources env bs ts))"

fun encode_arc_commands ::
  "hal_encoder \<Rightarrow> pass_env \<Rightarrow> normaliser \<Rightarrow> arc_command list \<Rightarrow> (encoder_error, unit) er" where
  "encode_arc_commands hal env normaliser [] = er_lift (Inr ())"
| "encode_arc_commands hal env normaliser (c # cs) =
     er_bind (encode_arc_command hal env normaliser c) (\<lambda>_. encode_arc_commands hal env normaliser cs)"

record command_buffer_mutable =
  cb_encoder :: inner_encoder
  cb_state :: encoding_state
  cb_commands :: "arc_command list"

definition new_command_buffer :: "pass_env \<Rightarrow> command_buffer_mutable" where
  "new_command_buffer env =
    \<lparr>cb_encoder = new_inner_encoder,
     cb_state = \<lparr>en_buffers = new_buffer_tracker (pe_ordered_buffers env),
                 en_textures = new_texture_usage_tracker (pe_ordered_textures env),
                 en_buffer_actions = [], en_texture_actions = no_memory_actions, en_commands = []\<rparr>,
     cb_commands = []\<rparr>"

definition encode_buffer ::
  "hal_encoder \<Rightarrow> pass_env \<Rightarrow> normaliser \<Rightarrow> command_buffer_mutable \<Rightarrow> ((encoder_error + unit) \<times> command_buffer_mutable) option" where
  "encode_buffer hal env normaliser cb =
    (case map_err EeDevice (check_is_valid (pe_device env)) of
       Inl e \<Rightarrow> Some (Inl e, cb)
     | Inr _ \<Rightarrow>
         if ie_api (cb_encoder cb) = ApiRaw \<and> cb_commands cb \<noteq> [] then None
         else map_option (\<lambda>(r, s). (r, cb\<lparr>cb_encoder := er_encoder s, cb_state := er_state s, cb_commands := []\<rparr>))
           (er_bind (encode_arc_commands hal env normaliser (cb_commands cb)) (\<lambda>_ s.
            er_bind (er_lift (ensure (\<not> er_depth s > 0) EeMissingPop)) (\<lambda>_. er_raw EeDevice (close_if_open hal)) s)
              \<lparr>er_encoder = cb_encoder cb, er_state = cb_state cb, er_depth = 0\<rparr>))"

section \<open>The status of an encoder\<close>

datatype encoder_status =
  EsRecording command_buffer_mutable
| EsLocked command_buffer_mutable
| EsConsumed
| EsFinished command_buffer_mutable
| EsError encoder_error

definition make_error_state :: "encoder_state_error \<Rightarrow> encoder_status" where
  "make_error_state e = EsError (EeState e)"

definition push_with ::
  "encoder_error + arc_command \<Rightarrow> encoder_status \<Rightarrow> ((encoder_state_error + unit) \<times> encoder_status) option" where
  "push_with f st =
    (case st of
       EsRecording cb \<Rightarrow> do {
         api \<leftarrow> api_set ApiWgpu (ie_api (cb_encoder cb));
         let cb = cb\<lparr>cb_encoder := (cb_encoder cb)\<lparr>ie_api := api\<rparr>\<rparr>;
         Some (Inr (), (case f of Inr c \<Rightarrow> EsRecording (cb\<lparr>cb_commands := cb_commands cb @ [c]\<rparr>) | Inl e \<Rightarrow> EsError e)) }
     | EsLocked _ \<Rightarrow> Some (Inr (), make_error_state SeLocked)
     | EsFinished _ \<Rightarrow> Some (Inl SeEnded, make_error_state SeEnded)
     | EsConsumed \<Rightarrow> Some (Inl SeEnded, EsConsumed)
     | EsError e \<Rightarrow> Some (Inr (), EsError e))"

definition with_buffer ::
  "encoding_api \<Rightarrow> (command_buffer_mutable \<Rightarrow> (encoder_error + unit) \<times> command_buffer_mutable) \<Rightarrow> encoder_status
   \<Rightarrow> ((encoder_state_error + unit) \<times> encoder_status) option" where
  "with_buffer api f st =
    (case st of
       EsRecording cb \<Rightarrow> do {
         api \<leftarrow> api_set api (ie_api (cb_encoder cb));
         Some (Inr (), (case f (cb\<lparr>cb_encoder := (cb_encoder cb)\<lparr>ie_api := api\<rparr>\<rparr>) of
                          (Inr _, cb) \<Rightarrow> EsRecording cb | (Inl e, _) \<Rightarrow> EsError e)) }
     | EsLocked _ \<Rightarrow> Some (Inr (), make_error_state SeLocked)
     | EsFinished _ \<Rightarrow> Some (Inl SeEnded, make_error_state SeEnded)
     | EsConsumed \<Rightarrow> Some (Inl SeEnded, EsConsumed)
     | EsError e \<Rightarrow> Some (Inr (), EsError e))"

definition record_as_hal_mut ::
  "(command_buffer_mutable option \<Rightarrow> 'a \<times> command_buffer_mutable option) \<Rightarrow> encoder_status \<Rightarrow> ('a \<times> encoder_status) option" where
  "record_as_hal_mut f st =
    (case st of
       EsRecording cb \<Rightarrow> do {
         api \<leftarrow> api_set ApiRaw (ie_api (cb_encoder cb));
         let cb = cb\<lparr>cb_encoder := (cb_encoder cb)\<lparr>ie_api := api\<rparr>\<rparr>;
         let (a, r) = f (Some cb);
         Some (a, EsRecording (case r of Some cb \<Rightarrow> cb | None \<Rightarrow> cb)) }
     | EsLocked _ \<Rightarrow> Some (fst (f None), make_error_state SeLocked)
     | EsFinished _ \<Rightarrow> Some (fst (f None), make_error_state SeEnded)
     | st \<Rightarrow> Some (fst (f None), st))"

definition lock_encoder :: "encoder_status \<Rightarrow> (encoder_state_error + unit) \<times> encoder_status" where
  "lock_encoder st =
    (case st of
       EsRecording cb \<Rightarrow> (Inr (), EsLocked cb)
     | EsFinished cb \<Rightarrow> (Inl SeEnded, EsFinished cb)
     | EsLocked _ \<Rightarrow> (Inl SeLocked, make_error_state SeLocked)
     | EsConsumed \<Rightarrow> (Inl SeEnded, EsConsumed)
     | EsError e \<Rightarrow> (Inl SeInvalid, EsError e))"

definition unlock_encoder :: "encoder_status \<Rightarrow> (encoder_state_error + unit) \<times> encoder_status" where
  "unlock_encoder st =
    (case st of
       EsLocked cb \<Rightarrow> (Inr (), EsRecording cb)
     | EsFinished cb \<Rightarrow> (Inl SeEnded, EsFinished cb)
     | EsRecording _ \<Rightarrow> (Inl SeUnlocked, make_error_state SeUnlocked)
     | EsConsumed \<Rightarrow> (Inl SeEnded, EsConsumed)
     | EsError e \<Rightarrow> (Inr (), EsError e))"

text \<open>What the command buffer gets; the encoder itself is consumed.\<close>

definition status_finish :: "encoder_status \<Rightarrow> encoder_status option" where
  "status_finish st =
    (case st of
       EsRecording cb \<Rightarrow>
         if ie_api (cb_encoder cb) \<noteq> ApiRaw \<and> ie_is_open (cb_encoder cb) then None else Some (EsFinished cb)
     | EsConsumed \<Rightarrow> Some (make_error_state SeEnded)
     | EsFinished _ \<Rightarrow> Some (make_error_state SeEnded)
     | EsLocked _ \<Rightarrow> Some (make_error_state SeLocked)
     | EsError e \<Rightarrow> Some (EsError e))"

text \<open>\<open>CommandEncoder::finish\<close>: the status of the command buffer, and the error to report.\<close>

definition encoder_finish ::
  "hal_encoder \<Rightarrow> pass_env \<Rightarrow> normaliser \<Rightarrow> encoder_status \<Rightarrow> (encoder_status \<times> encoder_error option) option" where
  "encoder_finish hal env normaliser st = do {
     st \<leftarrow> status_finish st;
     r \<leftarrow> (case st of
            EsFinished cb \<Rightarrow> map_option (\<lambda>(r, cb). map_err id (and_then r (\<lambda>_. Inr cb))) (encode_buffer hal env normaliser cb)
          | EsError e \<Rightarrow> Some (Inl e)
          | _ \<Rightarrow> None);
     Some (case r of
             Inl e \<Rightarrow> (EsError e, if is_destroyed_error e then None else Some e)
           | Inr cb \<Rightarrow> (EsFinished cb, None)) }"

text \<open>\<open>CommandBuffer::take_finished\<close>, once; a second submission finds the error.\<close>

definition take_finished :: "encoder_status \<Rightarrow> (encoder_error + command_buffer_mutable) option \<times> encoder_status" where
  "take_finished st =
    (case st of EsFinished cb \<Rightarrow> Some (Inr cb) | EsError e \<Rightarrow> Some (Inl e) | _ \<Rightarrow> None, make_error_state SeSubmitted)"

section \<open>Recording a compute pass\<close>

text \<open>What was set last, of each group and of the pipeline, by identifier.\<close>

type_synonym 'a state_change = "'a option"

definition set_and_check_redundant :: "'a \<Rightarrow> 'a state_change \<Rightarrow> bool \<times> 'a state_change" where
  "set_and_check_redundant new_state last_state = (last_state = Some new_state, Some new_state)"

type_synonym bind_group_state_change = "nat option state_change list"

definition new_bind_group_state_change :: bind_group_state_change where
  "new_bind_group_state_change = replicate MAX_BIND_GROUPS None"

definition group_set_and_check_redundant ::
  "nat option \<Rightarrow> u32 \<Rightarrow> u32 list \<Rightarrow> bind_group_state_change \<times> u32 list \<Rightarrow> bool \<times> bind_group_state_change \<times> u32 list" where
  "group_set_and_check_redundant g index offsets st =
    (let (last_states, dynamic_offsets) = st in
     if offsets = [] then
       if unat index < length last_states then
         let (redundant, s) = set_and_check_redundant g (last_states ! unat index) in
         (redundant, last_states[unat index := s], dynamic_offsets)
       else (False, last_states, dynamic_offsets)
     else (False, last_states[unat index := None], dynamic_offsets @ offsets))"

record pass_handle =
  ph_base :: base_pass
  ph_error :: "pass_error option"
  ph_open :: bool
  ph_timestamp_writes :: "timestamp_writes option"
  ph_groups :: bind_group_state_change
  ph_pipeline :: "nat state_change"

definition empty_base :: base_pass where
  "empty_base = \<lparr>bp_commands = [], bp_dynamic_offsets = [], bp_string_data = [], bp_immediates_data = []\<rparr>"

definition new_pass :: "timestamp_writes option \<Rightarrow> pass_handle" where
  "new_pass tw = \<lparr>ph_base = empty_base, ph_error = None, ph_open = True, ph_timestamp_writes = tw,
     ph_groups = new_bind_group_state_change, ph_pipeline = None\<rparr>"

definition new_invalid_pass :: "pass_error \<Rightarrow> pass_handle" where
  "new_invalid_pass e = \<lparr>ph_base = empty_base, ph_error = Some e, ph_open = True, ph_timestamp_writes = None,
     ph_groups = new_bind_group_state_change, ph_pipeline = None\<rparr>"

definition begin_pass ::
  "device \<Rightarrow> timestamp_writes option \<Rightarrow> encoder_status \<Rightarrow> (pass_handle \<times> encoder_state_error option) \<times> encoder_status" where
  "begin_pass dev tw st =
    (case lock_encoder st of
       (Inr _, st) \<Rightarrow>
         ((case check_is_valid dev of
             Inl e \<Rightarrow> new_invalid_pass (PeDevice e)
           | Inr _ \<Rightarrow>
               (case tw of
                  None \<Rightarrow> new_pass None
                | Some w \<Rightarrow>
                    (case validate_pass_timestamp_writes dev w of
                       Inr w \<Rightarrow> new_pass (Some w)
                     | Inl e \<Rightarrow> new_invalid_pass (PeTimestampWrites e))), None), st)
     | (Inl SeLocked, st) \<Rightarrow> ((new_invalid_pass (PeState SeLocked), None), make_error_state SeLocked)
     | (Inl SeInvalid, st) \<Rightarrow> ((new_invalid_pass (PeState SeInvalid), None), st)
     | (Inl e, st) \<Rightarrow> ((new_invalid_pass (PeState e), Some e), st))"

text \<open>
  The pass gives the encoder free. A pass that was opened within another one or on a finished encoder
  reports that now; other errors are left to the end of the encoder.
\<close>

definition compute_pass_end ::
  "pass_handle \<Rightarrow> encoder_status \<Rightarrow> ((encoder_state_error + unit) \<times> pass_handle \<times> encoder_status) option" where
  "compute_pass_end h st =
    (if \<not> ph_open h then Some (Inl SeEnded, h, st)
     else
       let h = h\<lparr>ph_open := False\<rparr> in
       case unlock_encoder st of
         (Inl e, st) \<Rightarrow> Some (Inl e, h, st)
       | (Inr _, st) \<Rightarrow>
           (case ph_error h of
              Some (PeState SeLocked) \<Rightarrow> Some (Inl SeLocked, h, st)
            | Some (PeState SeEnded) \<Rightarrow> Some (Inl SeEnded, h, st)
            | Some e \<Rightarrow> map_option (\<lambda>(r, st). (r, h, st)) (push_with (Inl (EePass e)) st)
            | None \<Rightarrow>
                map_option (\<lambda>(r, st). (r, h\<lparr>ph_base := empty_base, ph_timestamp_writes := None\<rparr>, st))
                  (push_with (Inr (ArcRunComputePass (ph_base h) (ph_timestamp_writes h))) st)))"

text \<open>The resources that identifiers stand for.\<close>

record hub_view =
  hv_bind_groups :: "nat \<Rightarrow> bind_group option"
  hv_compute_pipelines :: "nat \<Rightarrow> compute_pipeline option"
  hv_buffers :: "nat \<Rightarrow> nat option"
  hv_query_sets :: "nat \<Rightarrow> query_set option"

definition resolve_id :: "(nat \<Rightarrow> 'a option) \<Rightarrow> nat \<Rightarrow> pass_error + 'a" where
  "resolve_id f i = (case f i of Some x \<Rightarrow> Inr x | None \<Rightarrow> Inl (PeInvalidResource i))"

datatype pass_call =
  CallSetBindGroup u32 "nat option" "u32 list"
| CallSetPipeline nat
| CallSetImmediates u32 "u8 list"
| CallDispatch u32 u32 u32
| CallDispatchIndirect nat u64
| CallPushDebugGroup "u8 list"
| CallPopDebugGroup
| CallInsertDebugMarker "u8 list"
| CallWriteTimestamp nat u32
| CallBeginStatistics nat u32
| CallEndStatistics

definition push_command :: "arc_compute_command \<Rightarrow> base_pass \<Rightarrow> base_pass" where
  "push_command c b = b\<lparr>bp_commands := bp_commands b @ [c]\<rparr>"

text \<open>An error is kept in the pass; a call on an invalid pass does nothing.\<close>

definition pass_base :: "(base_pass \<Rightarrow> pass_error + base_pass) \<Rightarrow> pass_handle \<Rightarrow> (encoder_state_error + unit) \<times> pass_handle" where
  "pass_base f h =
    (if \<not> ph_open h then (Inl SeEnded, h)
     else case ph_error h of
       Some _ \<Rightarrow> (Inr (), h)
     | None \<Rightarrow> (case f (ph_base h) of Inl e \<Rightarrow> (Inr (), h\<lparr>ph_error := Some e\<rparr>) | Inr b \<Rightarrow> (Inr (), h\<lparr>ph_base := b\<rparr>)))"

definition record_set_bind_group ::
  "hub_view \<Rightarrow> u32 \<Rightarrow> nat option \<Rightarrow> u32 list \<Rightarrow> pass_handle \<Rightarrow> (encoder_state_error + unit) \<times> pass_handle" where
  "record_set_bind_group hub index g offsets h =
    (if \<not> ph_open h then (Inl SeEnded, h)
     else case ph_error h of
       Some _ \<Rightarrow> (Inr (), h)
     | None \<Rightarrow>
         let (redundant, groups, dynamic_offsets) =
               group_set_and_check_redundant g index offsets (ph_groups h, bp_dynamic_offsets (ph_base h));
             h = h\<lparr>ph_groups := groups, ph_base := (ph_base h)\<lparr>bp_dynamic_offsets := dynamic_offsets\<rparr>\<rparr> in
         if redundant then (Inr (), h)
         else pass_base (\<lambda>b.
           and_then (case g of None \<Rightarrow> Inr None | Some i \<Rightarrow> and_then (resolve_id (hv_bind_groups hub) i) (\<lambda>x. Inr (Some x))) (\<lambda>x.
           Inr (push_command (CmdSetBindGroup index (length offsets) x) b))) h)"

definition record_set_pipeline :: "hub_view \<Rightarrow> nat \<Rightarrow> pass_handle \<Rightarrow> (encoder_state_error + unit) \<times> pass_handle" where
  "record_set_pipeline hub i h =
    (let (redundant, last_state) = set_and_check_redundant i (ph_pipeline h) in
     pass_base (\<lambda>b. if redundant then Inr b
       else and_then (resolve_id (hv_compute_pipelines hub) i) (\<lambda>p. Inr (push_command (CmdSetPipeline p) b)))
       (h\<lparr>ph_pipeline := last_state\<rparr>))"

text \<open>Words from bytes, the least significant first.\<close>

fun words_of_bytes :: "u8 list \<Rightarrow> u32 list" where
  "words_of_bytes (a # b # c # d # rest) =
     (ucast a OR push_bit 8 (ucast b) OR push_bit 16 (ucast c) OR push_bit 24 (ucast d)) # words_of_bytes rest"
| "words_of_bytes _ = []"

definition record_set_immediates :: "u32 \<Rightarrow> u8 list \<Rightarrow> base_pass \<Rightarrow> pass_error + base_pass" where
  "record_set_immediates offset data b =
    and_then (ensure (offset AND (IMMEDIATE_DATA_ALIGNMENT - 1) = 0) PeImmediateOffsetAlignment) (\<lambda>_.
    and_then (ensure (of_nat (length data) AND (IMMEDIATE_DATA_ALIGNMENT - 1) = 0) PeImmediateDataSizeAlignment) (\<lambda>_.
    let values_offset = length (bp_immediates_data b) in
    and_then (ensure (values_offset < 2 ^ 32) PeImmediateOutOfMemory) (\<lambda>_.
    Inr (push_command (CmdSetImmediate offset (of_nat (length data)) (of_nat values_offset))
      (b\<lparr>bp_immediates_data := bp_immediates_data b @ words_of_bytes data\<rparr>)))))"

definition record_call :: "hub_view \<Rightarrow> pass_call \<Rightarrow> pass_handle \<Rightarrow> (encoder_state_error + unit) \<times> pass_handle" where
  "record_call hub c =
    (case c of
       CallSetBindGroup index g offsets \<Rightarrow> record_set_bind_group hub index g offsets
     | CallSetPipeline i \<Rightarrow> record_set_pipeline hub i
     | CallSetImmediates offset data \<Rightarrow> pass_base (record_set_immediates offset data)
     | CallDispatch x y z \<Rightarrow> pass_base (\<lambda>b. Inr (push_command (CmdDispatch x y z) b))
     | CallDispatchIndirect i offset \<Rightarrow>
         pass_base (\<lambda>b. and_then (resolve_id (hv_buffers hub) i) (\<lambda>x. Inr (push_command (CmdDispatchIndirect x offset) b)))
     | CallPushDebugGroup label \<Rightarrow>
         pass_base (\<lambda>b. Inr (push_command (CmdPushDebugGroup (length label)) (b\<lparr>bp_string_data := bp_string_data b @ label\<rparr>)))
     | CallPopDebugGroup \<Rightarrow> pass_base (\<lambda>b. Inr (push_command CmdPopDebugGroup b))
     | CallInsertDebugMarker label \<Rightarrow>
         pass_base (\<lambda>b. Inr (push_command (CmdInsertDebugMarker (length label)) (b\<lparr>bp_string_data := bp_string_data b @ label\<rparr>)))
     | CallWriteTimestamp i k \<Rightarrow>
         pass_base (\<lambda>b. and_then (resolve_id (hv_query_sets hub) i) (\<lambda>x. Inr (push_command (CmdPassTimestamp x k) b)))
     | CallBeginStatistics i k \<Rightarrow>
         pass_base (\<lambda>b. and_then (resolve_id (hv_query_sets hub) i) (\<lambda>x. Inr (push_command (CmdBeginStatistics x k) b)))
     | CallEndStatistics \<Rightarrow> pass_base (\<lambda>b. Inr (push_command CmdEndStatistics b)))"

end
