(* ===== verification/PassRefinement.thy ===== *)
theory PassRefinement
  imports ComputePass FormatNames
begin

text \<open>
  What a compute pass means: every dispatch uses the pipeline and the groups that were set last. The
  commands that the backend receives mean the same to every backend that keeps the contract of
  \<open>set_bind_group\<close> in \<open>wgpu-hal/src/lib.rs\<close>, if the layouts of the pipelines have no gaps.
\<close>

section \<open>The contract of the backend\<close>

datatype layout_id = UserGroupLayout nat | ValidationDstLayout | ValidationSrcLayout

definition layout_ids :: "pipeline_layout \<Rightarrow> layout_id option list" where
  "layout_ids l = map (map_option (\<lambda>g. UserGroupLayout (bgl_id g))) (pl_groups l)"

definition raw_layout_ids :: "raw_layout \<Rightarrow> layout_id option list" where
  "raw_layout_ids r =
    (case r of LayoutOf l \<Rightarrow> layout_ids l
     | ValidationLayout \<Rightarrow> [Some ValidationDstLayout, Some ValidationSrcLayout])"

fun common_prefix :: "'a list \<Rightarrow> 'a list \<Rightarrow> nat" where
  "common_prefix (x # xs) (y # ys) = (if x = y then Suc (common_prefix xs ys) else 0)"
| "common_prefix xs ys = 0"

lemma common_prefix_less:
  "i < common_prefix xs ys \<longleftrightarrow> i < length xs \<and> i < length ys \<and> (\<forall>k\<le>i. xs ! k = ys ! k)"
proof (induction xs ys arbitrary: i rule: common_prefix.induct)
  case (1 x xs y ys)
  show ?case
  proof (cases i)
    case 0
    then show ?thesis by auto
  next
    case (Suc j)
    have "(\<forall>k\<le>Suc j. (x # xs) ! k = (y # ys) ! k) \<longleftrightarrow> x = y \<and> (\<forall>k\<le>j. xs ! k = ys ! k)"
      by (auto simp: nth_Cons split: nat.splits)
    then show ?thesis using 1 Suc by auto
  qed
qed auto

lemma raw_layout_ids_of [simp]: "raw_layout_ids (LayoutOf l) = layout_ids l"
  by (simp add: raw_layout_ids_def)

lemma common_prefix_refl: "common_prefix xs xs = length xs"
  by (induction xs) simp_all

text \<open>
  Setting a group binds it; the groups at other indices stay if the layouts of the previous call and of
  this one agree up to them, or if it is the first call of the pass.
\<close>

locale hal_bindings =
  fixes set_group :: "raw_layout \<Rightarrow> nat \<Rightarrow> raw_group \<times> u32 list \<Rightarrow> 'h \<Rightarrow> 'h"
    and begin_pass :: "'h \<Rightarrow> 'h"
    and bound :: "'h \<Rightarrow> nat \<Rightarrow> (raw_group \<times> u32 list) option"
    and last_layout :: "'h \<Rightarrow> raw_layout option"
  assumes bound_set: "bound (set_group l i g h) i = Some g"
    and bound_kept: "j \<noteq> i \<Longrightarrow>
        (\<And>l'. last_layout h = Some l' \<Longrightarrow> j < common_prefix (raw_layout_ids l') (raw_layout_ids l)) \<Longrightarrow>
        bound (set_group l i g h) j = bound h j"
    and last_set: "last_layout (set_group l i g h) = Some l"
    and last_begin: "last_layout (begin_pass h) = None"
begin

definition set_groups :: "raw_layout \<Rightarrow> (nat \<times> raw_group \<times> u32 list) list \<Rightarrow> 'h \<Rightarrow> 'h" where
  "set_groups l es h = fold (\<lambda>(i, g). set_group l i g) es h"

lemma set_groups_simps [simp]:
  "set_groups l [] h = h"
  "set_groups l ((i, g) # es) h = set_groups l es (set_group l i g h)"
  by (simp_all add: set_groups_def)

lemma set_groups_last: "es \<noteq> [] \<Longrightarrow> last_layout (set_groups l es h) = Some l"
proof (induction es arbitrary: h)
  case (Cons e es)
  then show ?case by (cases e; cases "es = []") (simp_all add: last_set)
qed simp

lemma set_groups_kept:
  assumes "j \<notin> fst ` set es" and "j < length (raw_layout_ids l)"
    and "\<And>l'. last_layout h = Some l' \<Longrightarrow> j < common_prefix (raw_layout_ids l') (raw_layout_ids l)"
  shows "bound (set_groups l es h) j = bound h j"
  using assms
proof (induction es arbitrary: h)
  case (Cons e es)
  obtain i g where e: "e = (i, g)" by (cases e)
  have "bound (set_groups l es (set_group l i g h)) j = bound (set_group l i g h) j"
    using Cons.prems(1,2) by (intro Cons.IH) (auto simp: last_set common_prefix_refl)
  also have "\<dots> = bound h j" using Cons.prems e by (intro bound_kept) auto
  finally show ?case by (simp add: e)
qed simp

lemma set_groups_bound:
  assumes "distinct (map fst es)" and "\<forall>(i, g)\<in>set es. i < length (raw_layout_ids l)" and "(i, g) \<in> set es"
  shows "bound (set_groups l es h) i = Some g"
  using assms
proof (induction es arbitrary: h)
  case (Cons e es)
  obtain i' g' where e: "e = (i', g')" by (cases e)
  show ?case
  proof (cases "(i, g) = (i', g')")
    case True
    have "bound (set_groups l es (set_group l i g h)) i = bound (set_group l i g h) i"
      using Cons.prems e True by (intro set_groups_kept) (auto simp: last_set common_prefix_refl)
    then show ?thesis using e True by (simp add: bound_set)
  next
    case False
    then show ?thesis using Cons e by auto
  qed
qed simp

end

section \<open>The meaning of the commands of the backend\<close>

type_synonym pass_view = "compute_pipeline \<times> (bind_group \<times> u32 list) option list"

definition seen_group :: "(raw_group \<times> u32 list) option \<Rightarrow> (bind_group \<times> u32 list) option" where
  "seen_group g = (case g of Some (GroupOf g, offsets) \<Rightarrow> Some (g, offsets) | _ \<Rightarrow> None)"

text \<open>The groups that the layout of a pipeline expects.\<close>

definition view_of :: "compute_pipeline \<Rightarrow> (nat \<Rightarrow> (bind_group \<times> u32 list) option) \<Rightarrow> pass_view" where
  "view_of p groups =
    (p, map (\<lambda>i. if pl_groups (cp_layout p) ! i = None then None else groups i) [0..<length (pl_groups (cp_layout p))])"

type_synonym 'h hal_run = "'h \<times> raw_pipeline option \<times> pass_view list"

definition hal_dispatch :: "('h \<Rightarrow> nat \<Rightarrow> (raw_group \<times> u32 list) option) \<Rightarrow> 'h hal_run \<Rightarrow> 'h hal_run" where
  "hal_dispatch bound st =
    (case st of (h, q, vs) \<Rightarrow>
       (case q of Some (PipelineOf p) \<Rightarrow> (h, q, vs @ [view_of p (\<lambda>i. seen_group (bound h i))]) | _ \<Rightarrow> st))"

fun hal_step ::
  "(raw_layout \<Rightarrow> nat \<Rightarrow> raw_group \<times> u32 list \<Rightarrow> 'h \<Rightarrow> 'h) \<Rightarrow> ('h \<Rightarrow> 'h) \<Rightarrow> ('h \<Rightarrow> nat \<Rightarrow> (raw_group \<times> u32 list) option)
   \<Rightarrow> pass_command \<Rightarrow> 'h hal_run \<Rightarrow> 'h hal_run" where
  "hal_step set_group begin_pass bound (PcBeginComputePass _) (h, q, vs) = (begin_pass h, None, vs)"
| "hal_step set_group begin_pass bound (PcSetPipeline p) (h, q, vs) = (h, Some p, vs)"
| "hal_step set_group begin_pass bound (PcSetBindGroup l i g offsets) (h, q, vs) = (set_group l i (g, offsets) h, q, vs)"
| "hal_step set_group begin_pass bound (PcDispatch _ _ _) st = hal_dispatch bound st"
| "hal_step set_group begin_pass bound (PcDispatchIndirect _ _) st = hal_dispatch bound st"
| "hal_step set_group begin_pass bound _ st = st"

definition hal_exec where
  "hal_exec set_group begin_pass bound cs st = fold (hal_step set_group begin_pass bound) cs st"

section \<open>The meaning of the commands of the user\<close>

record user_state =
  us_pipeline :: "compute_pipeline option"
  us_groups :: "nat \<Rightarrow> (bind_group \<times> u32 list) option"
  us_offset_count :: nat
  us_views :: "pass_view list"

definition initial_user_state :: user_state where
  "initial_user_state = \<lparr>us_pipeline = None, us_groups = Map.empty, us_offset_count = 0, us_views = []\<rparr>"

definition user_dispatch :: "user_state \<Rightarrow> user_state" where
  "user_dispatch u =
    (case us_pipeline u of Some p \<Rightarrow> u\<lparr>us_views := us_views u @ [view_of p (us_groups u)]\<rparr> | None \<Rightarrow> u)"

fun user_step :: "u32 list \<Rightarrow> arc_compute_command \<Rightarrow> user_state \<Rightarrow> user_state" where
  "user_step offsets (CmdSetBindGroup index n g) u =
     u\<lparr>us_groups := (us_groups u)(unat index :=
         map_option (\<lambda>g. (g, take n (drop (us_offset_count u) offsets))) g),
       us_offset_count := us_offset_count u + n\<rparr>"
| "user_step offsets (CmdSetPipeline p) u = u\<lparr>us_pipeline := Some p\<rparr>"
| "user_step offsets (CmdDispatch _ _ _) u = user_dispatch u"
| "user_step offsets (CmdDispatchIndirect _ _) u = user_dispatch u"
| "user_step offsets _ u = u"

section \<open>The invariant\<close>

definition expected_id :: "user_state \<Rightarrow> nat \<Rightarrow> layout_id option" where
  "expected_id u i =
    (case us_pipeline u of
       Some p \<Rightarrow> if i < length (pl_groups (cp_layout p)) then layout_ids (cp_layout p) ! i else None
     | None \<Rightarrow> None)"

text \<open>A layout without a missing group before a present one.\<close>

definition gapless :: "'a option list \<Rightarrow> bool" where
  "gapless gs \<longleftrightarrow> (\<forall>i j. i < j \<longrightarrow> j < length gs \<longrightarrow> gs ! j \<noteq> None \<longrightarrow> gs ! i \<noteq> None)"

text \<open>The pipelines of a pass: their layouts have no gaps, fit, and are determined by their addresses.\<close>

definition good_pipelines :: "compute_pipeline set \<Rightarrow> bool" where
  "good_pipelines ps \<longleftrightarrow>
     (\<forall>p\<in>ps. gapless (pl_groups (cp_layout p)) \<and> length (pl_groups (cp_layout p)) \<le> MAX_BIND_GROUPS)
     \<and> (\<forall>p\<in>ps. \<forall>q\<in>ps. pl_id (cp_layout p) = pl_id (cp_layout q) \<longrightarrow> cp_layout p = cp_layout q)"

definition binder_agrees :: "compute_pipeline set \<Rightarrow> user_state \<Rightarrow> compute_state \<Rightarrow> bool" where
  "binder_agrees ps u s \<longleftrightarrow>
     (let b = cs_binder s; es = bl_entries (bn_manager b) in
      length es = MAX_BIND_GROUPS \<and> length (bn_payloads b) = MAX_BIND_GROUPS
      \<and> (\<forall>i < MAX_BIND_GROUPS. be_assigned (es ! i) = map_option (\<lambda>(g, _). grp_layout g) (us_groups u i)
           \<and> ep_group (bn_payloads b ! i) = map_option fst (us_groups u i)
           \<and> (\<forall>g offsets. us_groups u i = Some (g, offsets) \<longrightarrow> ep_dynamic_offsets (bn_payloads b ! i) = offsets)
           \<and> map_option (\<lambda>g. UserGroupLayout (bgl_id g)) (be_expected (es ! i)) = expected_id u i)
      \<and> cs_pipeline s = us_pipeline u \<and> set_option (us_pipeline u) \<subseteq> ps
      \<and> bn_layout b = map_option cp_layout (us_pipeline u)
      \<and> cs_dynamic_offset_count s = us_offset_count u)"

definition fresh ::
  "('h \<Rightarrow> nat \<Rightarrow> (raw_group \<times> u32 list) option) \<Rightarrow> ('h \<Rightarrow> raw_layout option) \<Rightarrow> user_state \<Rightarrow> nat \<Rightarrow> 'h \<Rightarrow> nat \<Rightarrow> bool" where
  "fresh bound last_layout u start h i \<longleftrightarrow>
     (i < start \<longrightarrow> i < MAX_BIND_GROUPS \<longrightarrow> expected_id u i \<noteq> None \<longrightarrow>
       (\<forall>p. us_pipeline u = Some p \<longrightarrow>
          (\<exists>l'. last_layout h = Some l' \<and> i < common_prefix (raw_layout_ids l') (layout_ids (cp_layout p))))
       \<and> (\<forall>g offsets. us_groups u i = Some (g, offsets) \<longrightarrow> bound h i = Some (GroupOf g, offsets)))"

section \<open>Steps without an effect on the bindings\<close>

definition neutral :: "pass_command \<Rightarrow> bool" where
  "neutral c = (case c of PcBeginComputePass _ \<Rightarrow> False | PcSetPipeline _ \<Rightarrow> False | PcSetBindGroup _ _ _ _ \<Rightarrow> False
     | PcDispatch _ _ _ \<Rightarrow> False | PcDispatchIndirect _ _ \<Rightarrow> False | _ \<Rightarrow> True)"

lemma neutral_step: "neutral c \<Longrightarrow> hal_step sg bg bd c st = st"
  by (cases st; cases c) (simp_all add: neutral_def)

lemma neutral_exec: "list_all neutral cs \<Longrightarrow> hal_exec sg bg bd cs st = st"
  unfolding hal_exec_def by (induction cs) (simp_all add: neutral_step)

lemma hal_exec_append: "hal_exec sg bg bd (xs @ ys) st = hal_exec sg bg bd ys (hal_exec sg bg bd xs st)"
  by (simp add: hal_exec_def)

lemma hal_exec_simps [simp]:
  "hal_exec sg bg bd [] st = st" "hal_exec sg bg bd (c # cs) st = hal_exec sg bg bd cs (hal_step sg bg bd c st)"
  by (simp_all add: hal_exec_def)

definition quiet :: "compute_state \<Rightarrow> compute_state \<Rightarrow> bool" where
  "quiet s s' \<longleftrightarrow> cs_binder s' = cs_binder s \<and> cs_pipeline s' = cs_pipeline s
     \<and> cs_dynamic_offset_count s' = cs_dynamic_offset_count s
     \<and> (\<exists>cs. list_all neutral cs \<and> cs_commands s' = cs_commands s @ cs)"

lemma quiet_refl: "quiet s s"
  by (simp add: quiet_def)

lemma quiet_trans [trans]: "quiet s s' \<Longrightarrow> quiet s' s'' \<Longrightarrow> quiet s s''"
  unfolding quiet_def by (metis append_assoc list_all_append)

lemma quietI:
  assumes "cs_binder s' = cs_binder s" "cs_pipeline s' = cs_pipeline s" "cs_commands s' = cs_commands s"
    "cs_dynamic_offset_count s' = cs_dynamic_offset_count s"
  shows "quiet s s'"
  using assms by (simp add: quiet_def)

lemma then_step_Inr: "then_step f g s = Some (Inr s'') \<longleftrightarrow> (\<exists>s'. f s = Some (Inr s') \<and> g s' = Some (Inr s''))"
  by (auto simp: then_step_def split: option.splits sum.splits)

lemma check_step_Inr: "check_step r s = Some (Inr s') \<longleftrightarrow> r = Inr () \<and> s' = s"
  by (auto simp: check_step_def and_then_Inr)

lemma emit_Inr: "emit cs s = Some (Inr s') \<longleftrightarrow> s' = s\<lparr>cs_commands := cs_commands s @ cs\<rparr>"
  by (auto simp: emit_def)

lemma lift_opt_Inr: "lift_opt f s = Some (Inr s') \<longleftrightarrow> f s = Some s'"
  by (auto simp: lift_opt_def)

lemmas step_simps = then_step_Inr check_step_Inr emit_Inr lift_opt_Inr

lemma merge_group_quiet: "merge_group g s = Some (Inr s') \<Longrightarrow> quiet s s'"
  by (auto simp: merge_group_def split: bind_splits option.splits intro!: quietI)

lemma merge_groups_quiet: "merge_groups gs s = Some (Inr s') \<Longrightarrow> quiet s s'"
  by (induction gs arbitrary: s) (auto simp: step_simps quiet_refl dest!: merge_group_quiet intro: quiet_trans)

lemma merge_indirect_quiet: "merge_indirect i s = Some (Inr s') \<Longrightarrow> quiet s s'"
  by (auto simp: merge_indirect_def split: bind_splits option.splits intro!: quietI)

lemma adopt_groups_quiet: "adopt_groups gs s = Some s' \<Longrightarrow> quiet s s'"
proof (induction gs arbitrary: s)
  case (Cons g gs)
  from Cons.prems obtain b bt t tt where "adopt_groups gs (s\<lparr>cs_buffer_scope := b, cs_intermediate_buffers := bt,
      cs_texture_scope := t, cs_intermediate_textures := tt\<rparr>) = Some s'"
    by (auto split: bind_splits)
  from Cons.IH [OF this] show ?case by (simp add: quiet_def)
qed (simp add: quiet_refl)

lemma adopt_indirect_quiet: "adopt_indirect i b s = Some s' \<Longrightarrow> quiet s s'"
  by (auto simp: adopt_indirect_def quiet_refl split: if_splits option.splits intro!: quietI)

lemma emit_barriers_quiet: "emit_barriers env s = Some (Inr s') \<Longrightarrow> quiet s s'"
  by (auto simp: emit_barriers_def emit_Inr quiet_def neutral_def split: bind_splits)

lemma with_label_quiet:
  assumes "with_label env d len f s = Some (Inr s')" and "\<And>x. neutral (f x)"
  shows "quiet s s'"
  using assms by (auto simp: with_label_def step_simps quiet_def split: if_splits bind_splits)

lemma push_debug_group_quiet:
  assumes "push_debug_group env d len s = Some (Inr s')"
  shows "quiet s s'"
proof -
  have "quiet s (s\<lparr>cs_debug_scope_depth := cs_debug_scope_depth s + 1\<rparr>)" by (rule quietI) simp_all
  also have "quiet \<dots> s'" using assms unfolding push_debug_group_def by (rule with_label_quiet) (simp add: neutral_def)
  finally show ?thesis .
qed

lemma insert_debug_marker_quiet:
  assumes "insert_debug_marker env d len s = Some (Inr s')"
  shows "quiet s s'"
  using assms unfolding insert_debug_marker_def by (rule with_label_quiet) (simp add: neutral_def)

lemma small_steps_quiet:
  "pop_debug_group env s = Some (Inr s') \<Longrightarrow> quiet s s'"
  "pass_end_statistics s = Some (Inr s') \<Longrightarrow> quiet s s'"
  "set_immediates data off n v s = Some (Inr s') \<Longrightarrow> quiet s s'"
  by (auto simp: pop_debug_group_def emit_Inr quiet_def neutral_def split: if_splits)
     (auto simp: pass_end_statistics_def emit_Inr quiet_def neutral_def list_all_iff split: prod.splits sum.splits,
      auto simp: set_immediates_def emit_Inr quiet_def neutral_def split: option.splits sum.splits bind_splits)

lemma query_steps_quiet:
  "pass_write_timestamp env qs i s = Some (Inr s') \<Longrightarrow> quiet s s'"
  "pass_begin_statistics env qs i s = Some (Inr s') \<Longrightarrow> quiet s s'"
  by (auto simp: pass_write_timestamp_def emit_Inr quiet_def neutral_def list_all_iff split: sum.splits bind_splits)
     (auto simp: pass_begin_statistics_def emit_Inr quiet_def neutral_def list_all_iff split: sum.splits bind_splits)

lemma group_init_actions_quiet: "quiet s (group_init_actions env g s)"
  by (rule quietI) (simp_all add: group_init_actions_def Let_def split: prod.splits)

section \<open>The groups that a dispatch binds\<close>

text \<open>Every expected group is set, and the layouts agree; the checks before a dispatch ensure it.\<close>

definition entry_ready :: "binder_entry \<Rightarrow> bool" where
  "entry_ready e \<longleftrightarrow> be_expected e = None \<or> entry_is_valid e"

lemma entry_check_ok: "entry_check e = Some (Inr ()) \<Longrightarrow> entry_ready e"
  by (auto simp: entry_check_def entry_ready_def entry_is_valid_def Let_def
      split: option.splits if_splits bind_splits)

lemma check_entries_ok: "check_binder_entries k es = Some (Inr u) \<Longrightarrow> e \<in> set es \<Longrightarrow> entry_ready e"
  by (induction es arbitrary: k) (auto split: option.splits sum.splits dest: entry_check_ok)

lemma is_ready_ok:
  assumes "is_ready s = Some (Inr s')"
  shows "s' = s \<and> (\<exists>p. cs_pipeline s = Some p) \<and> (\<forall>e\<in>set (bl_entries (bn_manager (cs_binder s))). entry_ready e)"
proof -
  obtain p where p: "cs_pipeline s = Some p" using assms by (cases "cs_pipeline s") (simp_all add: is_ready_def)
  then have c: "check_compatibility (cp_index p) (cs_binder s) = Some (Inr ())" and "s' = s"
    using assms by (auto simp: is_ready_def and_then_Inr split: bind_splits sum.splits)
  then have "get_invalid (bn_manager (cs_binder s)) = Some (Inr ())"
    by (auto simp: check_compatibility_def split: option.splits sum.splits compat_error.splits bind_splits)
  then show ?thesis using p \<open>s' = s\<close> check_entries_ok unfolding get_invalid_def by blast
qed

lemma entry_ready_valid: "entry_ready e \<Longrightarrow> entry_is_valid e \<longleftrightarrow> be_expected e \<noteq> None"
  by (auto simp: entry_ready_def entry_is_valid_def split: option.splits)

lemma entry_ready_active: "entry_ready e \<Longrightarrow> entry_is_active e \<longleftrightarrow> be_expected e \<noteq> None"
  by (auto simp: entry_ready_def entry_is_valid_def entry_is_active_def split: option.splits)

definition all_ready :: "compute_state \<Rightarrow> bool" where
  "all_ready s \<longleftrightarrow> (\<forall>e\<in>set (bl_entries (bn_manager (cs_binder s))). entry_ready e)"

lemma agrees_expected:
  "binder_agrees ps u s \<Longrightarrow> i < MAX_BIND_GROUPS \<Longrightarrow>
     be_expected (bl_entries (bn_manager (cs_binder s)) ! i) = None \<longleftrightarrow> expected_id u i = None"
  by (auto simp: binder_agrees_def Let_def)

lemma agrees_id:
  "binder_agrees ps u s \<Longrightarrow> i < MAX_BIND_GROUPS \<Longrightarrow>
     expected_id u i = map_option (\<lambda>g. UserGroupLayout (bgl_id g)) (be_expected (bl_entries (bn_manager (cs_binder s)) ! i))"
  by (simp add: binder_agrees_def Let_def)

lemma ready_set:
  assumes "binder_agrees ps u s" "all_ready s" "i < MAX_BIND_GROUPS" "expected_id u i \<noteq> None"
  shows "us_groups u i \<noteq> None"
proof -
  let ?e = "bl_entries (bn_manager (cs_binder s)) ! i"
  have "entry_ready ?e" using assms by (simp add: all_ready_def binder_agrees_def Let_def)
  moreover have "be_expected ?e \<noteq> None" using agrees_expected [OF assms(1,3)] assms(4) by simp
  ultimately have "be_assigned ?e \<noteq> None" by (auto simp: entry_ready_def entry_is_valid_def split: option.splits)
  then show ?thesis using assms(1,3) by (auto simp: binder_agrees_def Let_def)
qed

definition expected_from :: "user_state \<Rightarrow> nat \<Rightarrow> nat list" where
  "expected_from u start = filter (\<lambda>i. expected_id u i \<noteq> None \<and> start \<le> i) [0..<MAX_BIND_GROUPS]"

definition groups_from :: "user_state \<Rightarrow> nat \<Rightarrow> (nat \<times> bind_group \<times> u32 list) list" where
  "groups_from u start = map (\<lambda>i. (i, the (us_groups u i))) (expected_from u start)"

lemma list_valid_ready:
  assumes "binder_agrees ps u s" "all_ready s"
  shows "list_valid (bn_manager (cs_binder s)) = filter (\<lambda>i. expected_id u i \<noteq> None) [0..<MAX_BIND_GROUPS]"
proof -
  have len: "length (bl_entries (bn_manager (cs_binder s))) = MAX_BIND_GROUPS"
    using assms(1) by (simp add: binder_agrees_def Let_def)
  have "entry_is_valid (bl_entries (bn_manager (cs_binder s)) ! i) \<longleftrightarrow> expected_id u i \<noteq> None" if "i < MAX_BIND_GROUPS" for i
    using agrees_expected [OF assms(1) that] assms(2) len that by (auto simp: all_ready_def entry_ready_valid)
  then show ?thesis unfolding list_valid_def len by (intro filter_cong) auto
qed

lemma list_valid_with_start_ready:
  assumes a: "binder_agrees ps u s" and r: "all_ready s"
    and b: "bn_payloads b = bn_payloads (cs_binder s)"
      "bl_entries (bn_manager b) = bl_entries (bn_manager (cs_binder s))"
  shows "list_valid_with_start start b = Some (groups_from u start)"
proof -
  have lv: "list_valid (bn_manager b) = list_valid (bn_manager (cs_binder s))" by (simp add: list_valid_def b)
  have fl: "filter (\<lambda>i. start \<le> i) (filter (\<lambda>i. expected_id u i \<noteq> None) [0..<MAX_BIND_GROUPS]) = expected_from u start"
    unfolding expected_from_def filter_filter by simp
  have "do { p \<leftarrow> vec_get (bn_payloads b) i; g \<leftarrow> ep_group p; Some (i, g, ep_dynamic_offsets p) }
      = Some (i, the (us_groups u i))" if "i \<in> set (expected_from u start)" for i
  proof -
    have i: "i < MAX_BIND_GROUPS" "expected_id u i \<noteq> None" using that by (auto simp: expected_from_def)
    obtain g offsets where g: "us_groups u i = Some (g, offsets)" using ready_set [OF a r i] by auto
    have "i < length (bn_payloads (cs_binder s))" "ep_group (bn_payloads (cs_binder s) ! i) = Some g"
      "ep_dynamic_offsets (bn_payloads (cs_binder s) ! i) = offsets"
      using a g i(1) by (auto simp: binder_agrees_def Let_def)
    then show ?thesis by (simp add: b vec_get_def g)
  qed
  then show ?thesis unfolding list_valid_with_start_def lv list_valid_ready [OF a r] fl groups_from_def
    by (rule those_map_Some)
qed

lemma bind_groups_commands:
  assumes "bind_groups env init l es s = Some (Inr s')"
  shows "cs_binder s' = cs_binder s \<and> cs_pipeline s' = cs_pipeline s \<and> cs_dynamic_offset_count s' = cs_dynamic_offset_count s
    \<and> cs_commands s' = cs_commands s @ map (\<lambda>(i, g, offsets). PcSetBindGroup (LayoutOf l) i (GroupOf g) offsets) es"
  using assms
proof (induction env init l es s rule: bind_groups.induct)
  case (2 env init l i g offsets rest s)
  let ?t = "if init then group_init_actions env g s else s"
  have q: "cs_binder ?t = cs_binder s" "cs_pipeline ?t = cs_pipeline s" "cs_commands ?t = cs_commands s"
    "cs_dynamic_offset_count ?t = cs_dynamic_offset_count s"
    by (simp_all add: group_init_actions_def Let_def split: prod.splits)
  obtain x where x: "try_group env g = Inr x" using 2(2) by (cases "try_group env g") (simp_all add: Let_def)
  have "bind_groups env init l rest (?t\<lparr>cs_commands := cs_commands ?t @ [PcSetBindGroup (LayoutOf l) i (GroupOf g) offsets]\<rparr>) = Some (Inr s')"
    using 2(2) x by (simp add: Let_def then_step_def emit_def)
  then show ?case using 2(1) [OF refl x, of "?t\<lparr>cs_commands := cs_commands ?t @ [PcSetBindGroup (LayoutOf l) i (GroupOf g) offsets]\<rparr>"]
    by (simp add: q)
qed simp

lemma expected_from_distinct: "distinct (expected_from u start)"
  by (simp add: expected_from_def)

lemma expected_id_Some:
  "expected_id u i \<noteq> None \<Longrightarrow> us_pipeline u = Some p \<Longrightarrow>
     i < length (pl_groups (cp_layout p)) \<and> pl_groups (cp_layout p) ! i \<noteq> None"
  by (auto simp: expected_id_def layout_ids_def split: if_splits)

definition raw_groups :: "(nat \<times> bind_group \<times> u32 list) list \<Rightarrow> (nat \<times> raw_group \<times> u32 list) list" where
  "raw_groups es = map (\<lambda>(i, g, offsets). (i, GroupOf g, offsets)) es"

lemma fst_raw_groups: "map fst (raw_groups (groups_from u start)) = expected_from u start"
  by (simp add: raw_groups_def groups_from_def case_prod_beta comp_def)

section \<open>What the operations of the binder do to the invariant\<close>

lemma agrees_quiet: "binder_agrees ps u s \<Longrightarrow> quiet s s' \<Longrightarrow> binder_agrees ps u s'"
  by (simp add: binder_agrees_def quiet_def)

lemma all_ready_quiet: "quiet s s' \<Longrightarrow> all_ready s' \<longleftrightarrow> all_ready s"
  by (simp add: all_ready_def quiet_def)

lemma good_prefix:
  assumes "good_pipelines ps" "p \<in> ps"
    and "i < length (pl_groups (cp_layout p))" "pl_groups (cp_layout p) ! i \<noteq> None" "k \<le> i"
  shows "pl_groups (cp_layout p) ! k \<noteq> None"
proof (cases "k = i")
  case False
  moreover have "gapless (pl_groups (cp_layout p))" using assms(1,2) by (simp add: good_pipelines_def)
  ultimately show ?thesis using assms(3-5) unfolding gapless_def by (meson order_le_neq_trans)
qed (use assms in simp)

lemma user_group_ids:
  "map_option bgl_id a = map_option bgl_id b \<Longrightarrow>
     map_option (\<lambda>g. UserGroupLayout (bgl_id g)) a = map_option (\<lambda>g. UserGroupLayout (bgl_id g)) b"
  by (cases a; cases b) simp_all

lemma update_late_payloads_simps:
  "length (update_late_payloads ps gs) = length ps"
  "i < length ps \<Longrightarrow> ep_group (update_late_payloads ps gs ! i) = ep_group (ps ! i)"
  "i < length ps \<Longrightarrow> ep_dynamic_offsets (update_late_payloads ps gs ! i) = ep_dynamic_offsets (ps ! i)"
  by (induction ps gs arbitrary: i rule: update_late_payloads.induct)
     (auto simp: nth_Cons split: nat.splits)

lemma padded_nth: "i < n \<Longrightarrow> padded n xs ! i = (if i < length xs then xs ! i else None)"
  by (auto simp: padded_def nth_append)

lemma length_padded [simp]: "length (padded n xs) = n"
  by (simp add: padded_def)

lemma update_expectations_entries:
  shows "length (bl_entries (update_expectations ex m)) = length (bl_entries m)"
    and "i < length (bl_entries m) \<Longrightarrow>
      be_assigned (bl_entries (update_expectations ex m) ! i) = be_assigned (bl_entries m ! i)"
    and "i < length (bl_entries m) \<Longrightarrow>
      map_option bgl_id (be_expected (bl_entries (update_expectations ex m) ! i))
        = map_option bgl_id (padded (length (bl_entries m)) ex ! i)"
  by (auto simp: update_expectations_def Let_def update_rebind_start_index_def expectation_change_def same_layout_def
      split: option.splits)

lemma find_upt_Some:
  "find P [0..<n] = Some i \<Longrightarrow> k < i \<Longrightarrow> \<not> P k"
  by (auto simp: find_Some_iff)

lemma find_upt_None: "find P [0..<n] = None \<Longrightarrow> k < n \<Longrightarrow> \<not> P k"
  by (auto simp: find_None_iff)

lemma update_expectations_start:
  assumes "i < bl_rebind_start (update_expectations ex m)" "k \<le> i" "i < length (bl_entries m)"
  shows "i < bl_rebind_start m
    \<and> \<not> snd (expectation_change (be_expected (bl_entries m ! k)) (padded (length (bl_entries m)) ex ! k))"
proof -
  let ?cs = "map (\<lambda>(e, new). expectation_change (be_expected e) new) (zip (bl_entries m) (padded (length (bl_entries m)) ex))"
  have k: "k < length ?cs" "?cs ! k = expectation_change (be_expected (bl_entries m ! k)) (padded (length (bl_entries m)) ex ! k)"
    using assms(2,3) by simp_all
  show ?thesis
  proof (cases "find (\<lambda>i. snd (?cs ! i)) [0..<length ?cs]")
    case None
    then have "bl_rebind_start (update_expectations ex m) = bl_rebind_start m"
      by (simp add: update_expectations_def)
    then show ?thesis using find_upt_None [OF None k(1)] k(2) assms(1) by simp
  next
    case (Some j)
    then have "bl_rebind_start (update_expectations ex m) = min (bl_rebind_start m) j"
      by (simp add: update_expectations_def update_rebind_start_index_def)
    then have "i < bl_rebind_start m" "k < j" using assms(1,2) by simp_all
    then show ?thesis using find_upt_Some [OF Some, of k] by (simp add: k(2))
  qed
qed

lemma unchanged_same: "\<not> snd (expectation_change old (Some y)) \<Longrightarrow> map_option bgl_id old = Some (bgl_id y)"
  by (auto simp: expectation_change_def same_layout_def split: option.splits)

context hal_bindings
begin

abbreviation exec :: "pass_command list \<Rightarrow> 'h hal_run \<Rightarrow> 'h hal_run" where
  "exec \<equiv> hal_exec set_group begin_pass bound"

abbreviation fresh_at :: "user_state \<Rightarrow> nat \<Rightarrow> 'h \<Rightarrow> nat \<Rightarrow> bool" where
  "fresh_at \<equiv> fresh bound last_layout"

lemma exec_sets:
  "exec (map (\<lambda>(i, g, offsets). PcSetBindGroup (LayoutOf l) i (GroupOf g) offsets) es) (h, q, vs)
     = (set_groups (LayoutOf l) (raw_groups es) h, q, vs)"
  by (induction es arbitrary: h) (auto simp: raw_groups_def)

lemma rebound:
  assumes agree: "binder_agrees ps u s" and ready: "all_ready s" and p: "us_pipeline u = Some p"
    and fresh: "\<And>i. fresh_at u start h i"
  shows "fresh_at u n (set_groups (LayoutOf (cp_layout p)) (raw_groups (groups_from u start)) h) i"
  unfolding fresh_def
proof (intro impI conjI allI)
  let ?l = "LayoutOf (cp_layout p)" and ?es = "raw_groups (groups_from u start)"
  let ?h = "set_groups ?l ?es h"
  assume i: "i < MAX_BIND_GROUPS" "expected_id u i \<noteq> None"
  have il: "i < length (layout_ids (cp_layout p))" using expected_id_Some [OF i(2) p] by (simp add: layout_ids_def)
  have fs: "fst ` set ?es = set (expected_from u start)" by (metis fst_raw_groups set_map)
  have before: "(\<exists>l'. last_layout h = Some l' \<and> i < common_prefix (raw_layout_ids l') (layout_ids (cp_layout p)))
      \<and> (\<forall>g offsets. us_groups u i = Some (g, offsets) \<longrightarrow> bound h i = Some (GroupOf g, offsets))" if "i < start"
    using fresh [of i] that i p by (auto simp: fresh_def)
  show "\<exists>l'. last_layout ?h = Some l' \<and> i < common_prefix (raw_layout_ids l') (layout_ids (cp_layout p'))"
    if "us_pipeline u = Some p'" for p'
  proof (cases "?es = []")
    case True
    then have "i < start" using fs i by (auto simp: expected_from_def)
    then show ?thesis using before True that p by simp
  next
    case False
    then show ?thesis using set_groups_last [OF False] il that p by (simp add: common_prefix_refl)
  qed
  fix g offsets assume g: "us_groups u i = Some (g, offsets)"
  show "bound ?h i = Some (GroupOf g, offsets)"
  proof (cases "start \<le> i")
    case True
    then have "i \<in> set (expected_from u start)" using i by (simp add: expected_from_def)
    then have "(i, GroupOf g, offsets) \<in> set ?es" using g by (force simp: raw_groups_def groups_from_def)
    moreover have "\<forall>(j, g)\<in>set ?es. j < length (raw_layout_ids ?l)"
    proof -
      have "\<forall>j\<in>fst ` set ?es. j < length (raw_layout_ids ?l)"
        unfolding fs raw_layout_ids_of using expected_id_Some [OF _ p] by (auto simp: expected_from_def layout_ids_def)
      then show ?thesis by force
    qed
    ultimately show ?thesis
      using expected_from_distinct by (intro set_groups_bound) (simp_all add: fst_raw_groups)
  next
    case False
    then have "i \<notin> fst ` set ?es" unfolding fs by (simp add: expected_from_def)
    then have "bound ?h i = bound h i" using before False il by (intro set_groups_kept) auto
    then show ?thesis using before False g by simp
  qed
qed

lemma view_bound:
  assumes "binder_agrees ps u s" "all_ready s" "us_pipeline u = Some p" "good_pipelines ps"
    and "\<And>i. fresh_at u MAX_BIND_GROUPS h i"
  shows "view_of p (\<lambda>i. seen_group (bound h i)) = view_of p (us_groups u)"
proof -
  have "length (pl_groups (cp_layout p)) \<le> MAX_BIND_GROUPS"
    using assms(1,3,4) by (auto simp: binder_agrees_def Let_def good_pipelines_def)
  then have "seen_group (bound h i) = us_groups u i"
    if "i < length (pl_groups (cp_layout p))" "pl_groups (cp_layout p) ! i \<noteq> None" for i
  proof -
    have e: "i < MAX_BIND_GROUPS" "expected_id u i \<noteq> None"
      using that assms(3) \<open>length _ \<le> _\<close> by (auto simp: expected_id_def layout_ids_def)
    obtain g offsets where g: "us_groups u i = Some (g, offsets)" using ready_set [OF assms(1,2) e] by auto
    then have "bound h i = Some (GroupOf g, offsets)" using assms(5) [of i] e by (auto simp: fresh_def)
    then show ?thesis by (simp add: seen_group_def g)
  qed
  then show ?thesis by (simp add: view_of_def)
qed


section \<open>The simulation\<close>

definition sim_from :: "nat \<Rightarrow> compute_pipeline set \<Rightarrow> 'h hal_run \<Rightarrow> user_state \<Rightarrow> compute_state \<Rightarrow> bool" where
  "sim_from start ps st u s \<longleftrightarrow> binder_agrees ps u s
     \<and> (\<exists>h. exec (cs_commands s) st = (h, map_option PipelineOf (us_pipeline u), us_views u)
          \<and> (\<forall>i. fresh_at u start h i))"

abbreviation rebind_start :: "compute_state \<Rightarrow> nat" where
  "rebind_start s \<equiv> bl_rebind_start (bn_manager (cs_binder s))"

abbreviation sim :: "compute_pipeline set \<Rightarrow> 'h hal_run \<Rightarrow> user_state \<Rightarrow> compute_state \<Rightarrow> bool" where
  "sim ps st u s \<equiv> sim_from (rebind_start s) ps st u s"

lemma sim_quiet: "sim_from start ps st u s \<Longrightarrow> quiet s s' \<Longrightarrow> sim_from start ps st u s'"
  unfolding sim_from_def
  by (frule (1) agrees_quiet [OF conjunct1]) (auto simp: quiet_def hal_exec_append neutral_exec)

lemma rebind_start_quiet: "quiet s s' \<Longrightarrow> rebind_start s' = rebind_start s"
  by (simp add: quiet_def)

lemma fresh_weaken:
  assumes "fresh_at u start h i" and "start' \<le> start" and "us_pipeline u' = us_pipeline u"
    and "i < start' \<Longrightarrow> us_groups u' i = us_groups u i \<or> us_groups u' i = None"
  shows "fresh_at u' start' h i"
proof -
  have "expected_id u' i = expected_id u i" using assms(3) by (simp add: expected_id_def)
  then show ?thesis using assms by (auto simp: fresh_def)
qed

lemma sim_assign:
  assumes sim: "sim ps st u s" and b: "assign_group index g offsets (cs_binder s) = Some b"
    and s': "s' = s\<lparr>cs_binder := b, cs_dynamic_offset_count := n, cs_used_groups := gs\<rparr>"
    and u': "u' = u\<lparr>us_groups := (us_groups u)(index := Some (g, offsets)), us_offset_count := n\<rparr>"
  shows "sim ps st u' s'"
proof -
  have a: "binder_agrees ps u s" using sim by (simp add: sim_from_def)
  have lens: "length (bl_entries (bn_manager (cs_binder s))) = MAX_BIND_GROUPS" "length (bn_payloads (cs_binder s)) = MAX_BIND_GROUPS"
    using a by (simp_all add: binder_agrees_def Let_def)
  have i: "index < MAX_BIND_GROUPS" using b lens by (simp add: assign_group_def split: if_splits)
  have start: "bl_rebind_start (bn_manager b) = min (rebind_start s) index"
    using b i lens by (auto simp: assign_group_def assign_layout_def update_rebind_start_index_def Let_def)
  have "expected_id u' = expected_id u" by (simp add: fun_eq_iff expected_id_def u')
  then have "binder_agrees ps u' s'"
    using a b i by (auto simp: binder_agrees_def Let_def assign_group_def assign_layout_def update_rebind_start_index_def
        nth_list_update s' u')
  moreover have "fresh_at u' (rebind_start s') h j" if "fresh_at u (rebind_start s) h j" for h j
    by (rule fresh_weaken [OF that]) (simp_all add: s' u' start)
  ultimately show ?thesis using sim by (auto simp: sim_from_def s' u')
qed

lemma sim_clear:
  assumes sim: "sim ps st u s" and b: "clear_group index (cs_binder s) = Some b"
    and s': "s' = s\<lparr>cs_binder := b, cs_dynamic_offset_count := n\<rparr>"
    and u': "u' = u\<lparr>us_groups := (us_groups u)(index := None), us_offset_count := n\<rparr>"
  shows "sim ps st u' s'"
proof -
  have a: "binder_agrees ps u s" using sim by (simp add: sim_from_def)
  have lens: "length (bl_entries (bn_manager (cs_binder s))) = MAX_BIND_GROUPS" "length (bn_payloads (cs_binder s)) = MAX_BIND_GROUPS"
    using a by (simp_all add: binder_agrees_def Let_def)
  have i: "index < MAX_BIND_GROUPS" using b lens by (simp add: clear_group_def split: if_splits)
  have start: "bl_rebind_start (bn_manager b) = rebind_start s"
    using b i lens by (auto simp: clear_group_def clear_layout_at_def)
  have "expected_id u' = expected_id u" by (simp add: fun_eq_iff expected_id_def u')
  then have "binder_agrees ps u' s'"
    using a b i by (auto simp: binder_agrees_def Let_def clear_group_def clear_layout_at_def empty_payload_def
        nth_list_update s' u')
  moreover have "fresh_at u' (rebind_start s') h j" if "fresh_at u (rebind_start s) h j" for h j
    by (rule fresh_weaken [OF that]) (simp_all add: s' u' start)
  ultimately show ?thesis using sim by (auto simp: sim_from_def s' u')
qed

lemma sim_set_bind_group:
  assumes sim: "sim ps st u s" and step: "set_bind_group env offsets index n g False s = Some (Inr s')"
  shows "sim ps st (user_step offsets (CmdSetBindGroup index n g) u) s'"
proof -
  have c: "cs_dynamic_offset_count s = us_offset_count u" using sim by (simp add: sim_from_def binder_agrees_def Let_def)
  obtain os where os: "list_slice offsets (cs_dynamic_offset_count s) n = Some os"
    using step by (auto simp: set_bind_group_def Let_def split: if_splits bind_splits)
  then have os': "os = take n (drop (us_offset_count u) offsets)"
    by (auto simp: list_slice_def c split: if_splits)
  show ?thesis
  proof (cases g)
    case None
    then obtain b where "clear_group (unat index) (cs_binder s) = Some b"
      "s' = s\<lparr>cs_binder := b, cs_dynamic_offset_count := us_offset_count u + n\<rparr>"
      using step os by (auto simp: set_bind_group_def Let_def update_binder_def c split: if_splits)
    then show ?thesis by (rule sim_clear [OF sim]) (simp add: None)
  next
    case (Some g')
    then obtain b where "assign_group (unat index) g' os (cs_binder s) = Some b"
      "s' = s\<lparr>cs_binder := b, cs_dynamic_offset_count := us_offset_count u + n, cs_used_groups := cs_used_groups s @ [g']\<rparr>"
      using step os by (auto simp: set_bind_group_def Let_def update_binder_def step_simps c split: if_splits)
    then show ?thesis by (rule sim_assign [OF sim]) (simp add: Some os')
  qed
qed


lemma sim_same_layout:
  assumes sim: "sim ps st u s" and good: "good_pipelines ps" and p: "p \<in> ps"
    and old: "bn_layout (cs_binder s) = Some old" "pl_id old = pl_id (cp_layout p)"
    and s': "cs_binder s' = (cs_binder s)\<lparr>bn_payloads := update_late_payloads (bn_payloads (cs_binder s)) late\<rparr>"
      "cs_pipeline s' = Some p" "cs_commands s' = cs_commands s @ [PcSetPipeline (PipelineOf p)]"
      "cs_dynamic_offset_count s' = cs_dynamic_offset_count s"
  shows "sim ps st (u\<lparr>us_pipeline := Some p\<rparr>) s'"
proof -
  have a: "binder_agrees ps u s" using sim by (simp add: sim_from_def)
  then obtain q where q: "us_pipeline u = Some q" "q \<in> ps" "cp_layout q = old"
    using old(1) by (cases "us_pipeline u") (auto simp: binder_agrees_def Let_def)
  then have l: "cp_layout q = cp_layout p" using good p old(2) by (auto simp: good_pipelines_def)
  have e: "expected_id (u\<lparr>us_pipeline := Some p\<rparr>) = expected_id u" by (simp add: fun_eq_iff expected_id_def q(1) l)
  have "binder_agrees ps (u\<lparr>us_pipeline := Some p\<rparr>) s'"
    using a p by (auto simp: binder_agrees_def Let_def s' update_late_payloads_simps e q(1) l)
  moreover have "fresh_at (u\<lparr>us_pipeline := Some p\<rparr>) (rebind_start s') h i" if "fresh_at u (rebind_start s) h i" for h i
    using that by (simp add: fresh_def s' e q(1) l)
  ultimately show ?thesis using sim by (auto simp: sim_from_def s' hal_exec_append)
qed

lemma fresh_new_layout:
  assumes a: "binder_agrees ps u s" and good: "good_pipelines ps" and p: "p \<in> ps"
    and start: "start \<le> bl_rebind_start (update_expectations (pl_groups (cp_layout p)) (bn_manager (cs_binder s)))"
    and fresh: "fresh_at u (rebind_start s) h i"
  shows "fresh_at (u\<lparr>us_pipeline := Some p\<rparr>) start h i"
  unfolding fresh_def
proof (intro impI)
  let ?m = "bn_manager (cs_binder s)" and ?u = "u\<lparr>us_pipeline := Some p\<rparr>" and ?gs = "pl_groups (cp_layout p)"
  assume i: "i < start" "i < MAX_BIND_GROUPS" "expected_id ?u i \<noteq> None"
  have len: "length (bl_entries ?m) = MAX_BIND_GROUPS" using a by (simp add: binder_agrees_def Let_def)
  have ip: "i < length ?gs" "?gs ! i \<noteq> None" using expected_id_Some [OF i(3)] by auto
  have ch: "i < rebind_start s \<and> \<not> snd (expectation_change (be_expected (bl_entries ?m ! k)) (padded MAX_BIND_GROUPS ?gs ! k))"
    if "k \<le> i" for k using update_expectations_start [of i ?gs ?m k] i start that len by simp
  have same: "expected_id u k = layout_ids (cp_layout p) ! k" if k: "k \<le> i" for k
  proof -
    have "?gs ! k \<noteq> None" by (rule good_prefix [OF good p ip k])
    then obtain y where y: "?gs ! k = Some y" by auto
    have "map_option bgl_id (be_expected (bl_entries ?m ! k)) = Some (bgl_id y)"
      using ch [OF k] y k ip i(2) by (intro unchanged_same) (simp add: padded_nth)
    then have "map_option (\<lambda>g. UserGroupLayout (bgl_id g)) (be_expected (bl_entries ?m ! k)) = Some (UserGroupLayout (bgl_id y))"
      by auto
    moreover have "k < MAX_BIND_GROUPS" using k i(2) by simp
    ultimately show ?thesis using agrees_id [OF a] k ip y by (simp add: layout_ids_def)
  qed
  have "expected_id u i \<noteq> None" using same [of i] ip by (simp add: layout_ids_def)
  then obtain q where q: "us_pipeline u = Some q" by (auto simp: expected_id_def split: option.splits)
  have old: "\<forall>k\<le>i. k < length (layout_ids (cp_layout q)) \<and> layout_ids (cp_layout q) ! k = layout_ids (cp_layout p) ! k"
  proof (intro allI impI)
    fix k assume k: "k \<le> i"
    then have "?gs ! k \<noteq> None" by (rule good_prefix [OF good p ip])
    then show "k < length (layout_ids (cp_layout q)) \<and> layout_ids (cp_layout q) ! k = layout_ids (cp_layout p) ! k"
      using same [OF k] k ip by (auto simp: expected_id_def q layout_ids_def split: if_splits)
  qed
  from fresh ch [of i] \<open>expected_id u i \<noteq> None\<close> i(2) obtain l' where
    "last_layout h = Some l'" "i < common_prefix (raw_layout_ids l') (layout_ids (cp_layout q))"
    "\<forall>g offsets. us_groups u i = Some (g, offsets) \<longrightarrow> bound h i = Some (GroupOf g, offsets)"
    by (auto simp: fresh_def q)
  then show "(\<forall>p'. us_pipeline ?u = Some p' \<longrightarrow>
        (\<exists>l'. last_layout h = Some l' \<and> i < common_prefix (raw_layout_ids l') (layout_ids (cp_layout p'))))
      \<and> (\<forall>g offsets. us_groups ?u i = Some (g, offsets) \<longrightarrow> bound h i = Some (GroupOf g, offsets))"
    using old ip by (auto simp: common_prefix_less layout_ids_def)
qed

lemma sim_new_layout:
  assumes sim: "sim ps st u s" and good: "good_pipelines ps" and p: "p \<in> ps"
    and b: "bn_payloads (cs_binder s') = update_late_payloads (bn_payloads (cs_binder s)) late"
      "bl_entries (bn_manager (cs_binder s')) = bl_entries (update_expectations (pl_groups (cp_layout p)) (bn_manager (cs_binder s)))"
      "rebind_start s' \<le> bl_rebind_start (update_expectations (pl_groups (cp_layout p)) (bn_manager (cs_binder s)))"
      "bn_layout (cs_binder s') = Some (cp_layout p)"
    and s': "cs_pipeline s' = Some p" "cs_commands s' = cs_commands s @ PcSetPipeline (PipelineOf p) # cs"
      "list_all neutral cs" "cs_dynamic_offset_count s' = cs_dynamic_offset_count s"
  shows "sim ps st (u\<lparr>us_pipeline := Some p\<rparr>) s'"
proof -
  let ?u = "u\<lparr>us_pipeline := Some p\<rparr>" and ?m = "bn_manager (cs_binder s)"
  have a: "binder_agrees ps u s" using sim by (simp add: sim_from_def)
  have exp: "map_option (\<lambda>g. UserGroupLayout (bgl_id g))
      (be_expected (bl_entries (update_expectations (pl_groups (cp_layout p)) ?m) ! i)) = expected_id ?u i"
    if "i < MAX_BIND_GROUPS" for i
    using a that user_group_ids [OF update_expectations_entries(3) [of i ?m "pl_groups (cp_layout p)"]]
    by (simp add: binder_agrees_def Let_def padded_nth expected_id_def layout_ids_def)
  have "binder_agrees ps ?u s'"
    using a p exp by (auto simp: binder_agrees_def Let_def b s' update_late_payloads_simps update_expectations_entries)
  then show ?thesis using sim fresh_new_layout [OF a good p b(3)]
    by (auto simp: sim_from_def s' hal_exec_append neutral_exec)
qed


lemma sim_set_pipeline:
  assumes sim: "sim ps st u s" and good: "good_pipelines ps" and p: "p \<in> ps"
    and step: "set_pipeline env p s = Some (Inr s')"
  shows "sim ps st (user_step offsets (CmdSetPipeline p) u) s'"
proof -
  let ?s = "s\<lparr>cs_pipeline := Some p, cs_used_pipelines := cs_used_pipelines s @ [p],
      cs_commands := cs_commands s @ [PcSetPipeline (PipelineOf p)]\<rparr>"
  obtain f where f: "change_pipeline_layout (cp_layout p) (cp_late p) f ?s = Some (Inr s')"
    and keep: "\<And>t. cs_binder (f t) = cs_binder t" "\<And>t. cs_pipeline (f t) = cs_pipeline t"
      "\<And>t. cs_commands (f t) = cs_commands t" "\<And>t. cs_dynamic_offset_count (f t) = cs_dynamic_offset_count t"
    using step by (auto simp: set_pipeline_def step_simps)
  obtain changed b where b: "binder_change_pipeline_layout (cp_layout p) (cp_late p) (cs_binder s) = (changed, b)"
    by (cases "binder_change_pipeline_layout (cp_layout p) (cp_late p) (cs_binder s)")
  have imm: "list_all neutral (map (\<lambda>(offset, data). PcSetImmediates l offset data) xs)" for l xs
    by (auto simp: list_all_iff neutral_def)
  show ?thesis
  proof (cases changed)
    case False
    then obtain old where "bn_layout (cs_binder s) = Some old" "pl_id old = pl_id (cp_layout p)"
      "b = (cs_binder s)\<lparr>bn_payloads := update_late_payloads (bn_payloads (cs_binder s)) (cp_late p)\<rparr>"
      using b by (auto simp: binder_change_pipeline_layout_def Let_def split: option.splits if_splits)
    moreover have "s' = ?s\<lparr>cs_binder := b\<rparr>" using f b False by (simp add: change_pipeline_layout_def)
    ultimately show ?thesis using sim_same_layout [OF sim good p] by simp
  next
    case True
    have s': "s' = (f (?s\<lparr>cs_binder := b\<rparr>))\<lparr>cs_commands := cs_commands ?s @
        map (\<lambda>(offset, data). PcSetImmediates (LayoutOf (cp_layout p)) offset data) (immediates_clear 0 (pl_immediate_size (cp_layout p)))\<rparr>"
      using f b True by (simp add: change_pipeline_layout_def emit_Inr keep)
    have "bn_payloads b = update_late_payloads (bn_payloads (cs_binder s)) (cp_late p)"
      "bl_entries (bn_manager b) = bl_entries (update_expectations (pl_groups (cp_layout p)) (bn_manager (cs_binder s)))"
      "bl_rebind_start (bn_manager b) \<le> bl_rebind_start (update_expectations (pl_groups (cp_layout p)) (bn_manager (cs_binder s)))"
      "bn_layout b = Some (cp_layout p)"
      using b True by (auto simp: binder_change_pipeline_layout_def Let_def update_rebind_start_index_def
          split: option.splits if_splits)
    then show ?thesis using sim_new_layout [OF sim good p, of s'] by (simp add: s' keep imm)
  qed
qed

lemma sim_flush:
  assumes sim: "sim ps st u s" and ready: "all_ready s" and p: "us_pipeline u = Some p"
    and flush: "flush_bindings env indirect track s = Some (Inr s')"
  shows "sim_from MAX_BIND_GROUPS ps st u s' \<and> rebind_start s' = MAX_BIND_GROUPS \<and> all_ready s'"
proof -
  have "\<exists>s1 s2. quiet s s1 \<and> flush_bindings_helper env s1 = Some (Inr s2) \<and> quiet s2 s'"
    using flush unfolding flush_bindings_def
    by (auto simp: step_simps split: bind_splits
        dest!: merge_groups_quiet merge_indirect_quiet adopt_groups_quiet adopt_indirect_quiet emit_barriers_quiet)
       (meson quiet_trans)
  then obtain s1 s2 where q: "quiet s s1" and fl: "flush_bindings_helper env s1 = Some (Inr s2)" and q2: "quiet s2 s'"
    by auto
  let ?b = "(cs_binder s1)\<lparr>bn_manager := (bn_manager (cs_binder s1))\<lparr>bl_rebind_start := MAX_BIND_GROUPS\<rparr>\<rparr>"
  have sim1: "sim ps st u s1" using sim_quiet [OF sim q] by (simp add: rebind_start_quiet [OF q])
  have r1: "all_ready s1" using ready all_ready_quiet [OF q] by simp
  have a: "binder_agrees ps u s1" using sim1 by (simp add: sim_from_def)
  then have len: "length (bl_entries (bn_manager (cs_binder s1))) = MAX_BIND_GROUPS" and l: "bn_layout (cs_binder s1) = Some (cp_layout p)"
    by (simp_all add: binder_agrees_def Let_def p)
  have groups: "list_valid_with_start (rebind_start s1) ?b = Some (groups_from u (rebind_start s1))"
    by (rule list_valid_with_start_ready [OF a r1]) simp_all
  have "bind_groups env True (cp_layout p) (groups_from u (rebind_start s1)) (s1\<lparr>cs_binder := ?b\<rparr>) = Some (Inr s2)"
    using fl groups by (simp add: flush_bindings_helper_def take_rebind_start_index_def Let_def len l)
  note bound = bind_groups_commands [OF this]
  have a2: "binder_agrees ps u s2" using a bound by (simp add: binder_agrees_def Let_def)
  obtain h where h: "exec (cs_commands s1) st = (h, map_option PipelineOf (us_pipeline u), us_views u)"
    "\<And>i. fresh_at u (rebind_start s1) h i" using sim1 by (auto simp: sim_from_def)
  have "sim_from MAX_BIND_GROUPS ps st u s2"
    unfolding sim_from_def using a2 bound rebound [OF a r1 p h(2)]
    by (auto simp: hal_exec_append h(1) exec_sets)
  then have "sim_from MAX_BIND_GROUPS ps st u s'" using sim_quiet q2 by blast
  moreover have "rebind_start s' = MAX_BIND_GROUPS" "all_ready s'"
    using rebind_start_quiet [OF q2] all_ready_quiet [OF q2] bound r1 by (simp_all add: all_ready_def)
  ultimately show ?thesis by simp
qed

lemma sim_dispatch:
  assumes sim: "sim_from MAX_BIND_GROUPS ps st u s" and good: "good_pipelines ps" and ready: "all_ready s"
    and p: "us_pipeline u = Some p" and start: "rebind_start s = MAX_BIND_GROUPS"
    and step: "emit [c] s = Some (Inr s')" and c: "\<And>run. hal_step set_group begin_pass bound c run = hal_dispatch bound run"
  shows "sim ps st (user_dispatch u) s'"
proof -
  have s': "s' = s\<lparr>cs_commands := cs_commands s @ [c]\<rparr>" using step by (simp add: emit_Inr)
  have a: "binder_agrees ps u s" using sim by (simp add: sim_from_def)
  have e: "expected_id (user_dispatch u) = expected_id u" "us_groups (user_dispatch u) = us_groups u"
    "us_pipeline (user_dispatch u) = us_pipeline u" "us_offset_count (user_dispatch u) = us_offset_count u"
    by (simp_all add: user_dispatch_def expected_id_def fun_eq_iff p)
  have a': "binder_agrees ps (user_dispatch u) s'" using a by (simp add: binder_agrees_def Let_def s' e)
  obtain h where h: "exec (cs_commands s) st = (h, Some (PipelineOf p), us_views u)"
    "\<And>i. fresh_at u MAX_BIND_GROUPS h i" using sim by (auto simp: sim_from_def p)
  have "hal_dispatch bound (h, Some (PipelineOf p), us_views u) = (h, Some (PipelineOf p), us_views (user_dispatch u))"
    using view_bound [OF a ready p good h(2)] by (simp add: hal_dispatch_def user_dispatch_def p)
  moreover have "fresh_at (user_dispatch u) MAX_BIND_GROUPS h i" for i using h(2) [of i] by (simp add: fresh_def e)
  ultimately show ?thesis using a' by (auto simp: sim_from_def s' hal_exec_append h(1) c e p start)
qed


lemma sim_dispatch_direct:
  assumes sim: "sim ps st u s" and good: "good_pipelines ps" and step: "dispatch env x y z s = Some (Inr s')"
  shows "sim ps st (user_dispatch u) s'"
proof -
  obtain s1 where ready: "is_ready s = Some (Inr s)" and fl: "flush_bindings env None False s = Some (Inr s1)"
    and em: "emit [PcDispatch x y z] s1 = Some (Inr s')"
    using step is_ready_ok [of s] by (auto simp: dispatch_def Let_def then_step_Inr check_step_Inr)
  have r: "all_ready s" using is_ready_ok [OF ready] by (simp add: all_ready_def)
  obtain p where p: "us_pipeline u = Some p"
    using is_ready_ok [OF ready] sim by (auto simp: sim_from_def binder_agrees_def Let_def)
  have "sim_from MAX_BIND_GROUPS ps st u s1 \<and> rebind_start s1 = MAX_BIND_GROUPS \<and> all_ready s1"
    by (rule sim_flush [OF sim r p fl])
  then show ?thesis using sim_dispatch [OF _ good _ p _ em] by simp
qed

text \<open>The groups of the user are bound again after the validation of the arguments.\<close>

lemma sim_validation:
  assumes sim: "sim ps st u s" and r: "all_ready s" and p: "us_pipeline u = Some p"
    and run: "run_indirect_validation env b ao r s = Some (Inr s1)"
    and reset: "reset_after_validation env s1 = Some (Inr s')"
  shows "sim ps st u s' \<and> all_ready s'"
proof -
  obtain barriers where b1: "cs_binder s1 = cs_binder s" "cs_pipeline s1 = cs_pipeline s"
      "cs_dynamic_offset_count s1 = cs_dynamic_offset_count s"
    and c1: "cs_commands s1 = cs_commands s @
      [PcSetPipeline ValidationPipeline, PcSetImmediates ValidationLayout 0 [ucast r div 4],
       PcSetBindGroup ValidationLayout 0 ValidationDst [], PcSetBindGroup ValidationLayout 1 (ValidationSrc b) [ucast ao],
       PcTransitionBuffers barriers, PcTransitionValidationDst bu_indirect bu_storage_read_write, PcDispatch 1 1 1]"
    using run by (auto simp: run_indirect_validation_def emit_Inr split: bind_splits)
  have a: "binder_agrees ps u s" using sim by (simp add: sim_from_def)
  then have a1: "binder_agrees ps u s1" using b1 by (simp add: binder_agrees_def)
  have r1: "all_ready s1" using r b1 by (simp add: all_ready_def)
  have p1: "cs_pipeline s1 = Some p" using a1 p by (simp add: binder_agrees_def Let_def)
  have groups: "list_valid_with_start 0 (cs_binder s1) = Some (groups_from u 0)"
    by (rule list_valid_with_start_ready [OF a1 r1]) simp_all
  obtain s2 imms where s2: "bind_groups env False (cp_layout p) (groups_from u 0)
        (s1\<lparr>cs_commands := cs_commands s1 @ PcSetPipeline (PipelineOf p) # imms\<rparr>) = Some (Inr s2)"
    and imms: "list_all neutral imms"
    and s': "s' = s2\<lparr>cs_commands := cs_commands s2 @ [PcTransitionValidationDst bu_storage_read_write bu_indirect]\<rparr>"
    using reset by (auto simp: reset_after_validation_def groups p1 step_simps neutral_def split: if_splits)
  note bound = bind_groups_commands [OF s2]
  obtain h where h: "exec (cs_commands s) st = (h, Some (PipelineOf p), us_views u)"
    using sim by (auto simp: sim_from_def p)
  let ?h = "set_group ValidationLayout 1 (ValidationSrc b, [ucast ao]) (set_group ValidationLayout 0 (ValidationDst, []) h)"
  have e1: "exec (cs_commands s1) st = (?h, Some ValidationPipeline, us_views u)"
    by (simp add: c1 hal_exec_append h hal_dispatch_def)
  have e2: "exec (cs_commands s') st
      = (set_groups (LayoutOf (cp_layout p)) (raw_groups (groups_from u 0)) ?h, Some (PipelineOf p), us_views u)"
    using bound by (simp add: s' hal_exec_append e1 neutral_exec imms exec_sets)
  have "binder_agrees ps u s'" using a1 bound by (simp add: binder_agrees_def Let_def s')
  moreover have "fresh_at u n (set_groups (LayoutOf (cp_layout p)) (raw_groups (groups_from u 0)) ?h) i" for n i
    by (rule rebound [OF a1 r1 p]) (simp add: fresh_def)
  moreover have "rebind_start s' = rebind_start s" "all_ready s'" using r1 bound b1 by (simp_all add: all_ready_def s')
  ultimately show ?thesis by (auto simp: sim_from_def e2 p)
qed

lemma sim_flush_dispatch:
  assumes sim: "sim ps st u s" and good: "good_pipelines ps" and r: "all_ready s" and p: "us_pipeline u = Some p"
    and step: "then_step (flush_bindings env indirect track) (emit [PcDispatchIndirect b offset]) s = Some (Inr s')"
  shows "sim ps st (user_dispatch u) s'"
proof -
  obtain s1 where fl: "flush_bindings env indirect track s = Some (Inr s1)"
    and em: "emit [PcDispatchIndirect b offset] s1 = Some (Inr s')"
    using step by (auto simp: then_step_Inr)
  have "sim_from MAX_BIND_GROUPS ps st u s1 \<and> rebind_start s1 = MAX_BIND_GROUPS \<and> all_ready s1"
    by (rule sim_flush [OF sim r p fl])
  then show ?thesis using sim_dispatch [OF _ good _ p _ em] by simp
qed

lemma sim_indirect:
  assumes sim: "sim ps st u s" and good: "good_pipelines ps" and r: "all_ready s" and p: "us_pipeline u = Some p"
    and step: "(if pe_indirect_validation env then
          let (aligned_offset, offset_remainder) = params in
          then_step (run_indirect_validation env i aligned_offset offset_remainder)
          (then_step (reset_after_validation env)
          (then_step (flush_bindings env (Some i) False)
            (emit [PcDispatchIndirect None 0])))
        else
          then_step (flush_bindings env (Some i) True)
            (emit [PcDispatchIndirect (Some i) offset])) s = Some (Inr s')"
  shows "sim ps st (user_dispatch u) s'"
proof (cases "pe_indirect_validation env")
  case False
  then show ?thesis using sim_flush_dispatch [OF sim good r p] step by simp
next
  case True
  obtain ao re where "params = (ao, re)" by (cases params)
  with step True obtain s1 s2 where run: "run_indirect_validation env i ao re s = Some (Inr s1)"
    and reset: "reset_after_validation env s1 = Some (Inr s2)"
    and fl: "then_step (flush_bindings env (Some i) False) (emit [PcDispatchIndirect None 0]) s2 = Some (Inr s')"
    by (auto simp: then_step_Inr)
  have "sim ps st u s2 \<and> all_ready s2" by (rule sim_validation [OF sim r p run reset])
  then show ?thesis using sim_flush_dispatch [OF _ good _ p fl] by simp
qed

lemma sim_dispatch_indirect:
  assumes sim: "sim ps st u s" and good: "good_pipelines ps" and step: "dispatch_indirect env i offset s = Some (Inr s')"
  shows "sim ps st (user_dispatch u) s'"
proof -
  let ?s1 = "s\<lparr>cs_base := (cs_base s)\<lparr>en_buffer_actions := en_buffer_actions (cs_base s) @
      option_list (buffer_create_action (bst_status (pe_buffers env i)) i (Range offset (offset + 12)) NeedsInitializedMemory)\<rparr>\<rparr>"
  have q: "quiet s ?s1" by (rule quietI) simp_all
  have ready: "is_ready s = Some (Inr s)" using step is_ready_ok [of s]
    by (auto simp: dispatch_indirect_def Let_def then_step_Inr check_step_Inr)
  have r: "all_ready s" using is_ready_ok [OF ready] by (simp add: all_ready_def)
  obtain p where p: "us_pipeline u = Some p"
    using is_ready_ok [OF ready] sim by (auto simp: sim_from_def binder_agrees_def Let_def)
  have sim1: "sim ps st u ?s1" using sim_quiet [OF sim q] by (simp add: rebind_start_quiet [OF q])
  have r1: "all_ready ?s1" using r all_ready_quiet [OF q] by simp
  have "(if pe_indirect_validation env then
          let (aligned_offset, offset_remainder) = dispatch_params (dev_limits (pe_device env)) offset
                (gb_size (bst_buffer (pe_buffers env i))) in
          then_step (run_indirect_validation env i aligned_offset offset_remainder)
          (then_step (reset_after_validation env)
          (then_step (flush_bindings env (Some i) False)
            (emit [PcDispatchIndirect None 0])))
        else
          then_step (flush_bindings env (Some i) True)
            (emit [PcDispatchIndirect (Some i) offset])) ?s1 = Some (Inr s')"
    using step ready by (auto simp: dispatch_indirect_def Let_def then_step_Inr check_step_Inr)
  then show ?thesis by (rule sim_indirect [OF sim1 good r1 p])
qed

lemma sim_command:
  assumes sim: "sim ps st u s" and good: "good_pipelines ps" and p: "\<And>p. c = CmdSetPipeline p \<Longrightarrow> p \<in> ps"
    and step: "compute_command env base c s = Some (Inr s')"
  shows "sim ps st (user_step (bp_dynamic_offsets base) c u) s'"
proof -
  have keep: "sim ps st u s'" if "quiet s s'"
    using sim_quiet [OF sim that] by (simp add: rebind_start_quiet [OF that])
  show ?thesis using step sim_set_bind_group [OF sim] sim_set_pipeline [OF sim good p]
      sim_dispatch_direct [OF sim good] sim_dispatch_indirect [OF sim good]
      push_debug_group_quiet insert_debug_marker_quiet small_steps_quiet query_steps_quiet
    by (cases c) (auto simp: compute_command_def intro: keep)
qed

lemma sim_commands:
  assumes "sim ps st u s" and "good_pipelines ps" and "\<And>p. CmdSetPipeline p \<in> set cs \<Longrightarrow> p \<in> ps"
    and "compute_commands env base cs s = Some (Inr s')"
  shows "sim ps st (fold (user_step (bp_dynamic_offsets base)) cs u) s'"
  using assms
proof (induction cs arbitrary: s u)
  case (Cons c cs)
  obtain s1 where s1: "compute_command env base c s = Some (Inr s1)" "compute_commands env base cs s1 = Some (Inr s')"
    using Cons.prems(4) by (auto simp: then_step_Inr)
  have "sim ps st (user_step (bp_dynamic_offsets base) c u) s1"
    by (rule sim_command [OF Cons.prems(1,2) _ s1(1)]) (use Cons.prems(3) in auto)
  from Cons.IH [OF this Cons.prems(2) _ s1(2)] show ?case using Cons.prems(3) by auto
qed simp


theorem trace_views:
  assumes good: "good_pipelines {p. CmdSetPipeline p \<in> set (bp_commands base)}"
    and ok: "encode_compute_pass env base tw parent = Some (Inr (e, commands))"
  shows "snd (snd (exec commands (h, None, [])))
    = us_views (fold (user_step (bp_dynamic_offsets base)) (bp_commands base) initial_user_state)"
proof -
  let ?ps = "{p. CmdSetPipeline p \<in> set (bp_commands base)}" and ?st = "(h, None, []) :: 'h hal_run"
  obtain s1 s2 where s1: "begin_compute_pass env tw (initial_compute_state env parent) = Some (Inr s1)"
    and s2: "compute_commands env base (bp_commands base) s1 = Some (Inr s2)"
    and commands: "commands = cs_commands s2 @ [PcEndComputePass]"
    using ok by (auto simp: encode_compute_pass_def step_simps split: option.splits sum.splits)
  have init: "binder_agrees ?ps initial_user_state (initial_compute_state env parent)"
    by (auto simp: binder_agrees_def initial_user_state_def initial_compute_state_def new_binder_def
        new_bound_layouts_def empty_entry_def empty_payload_def expected_id_def Let_def)
  have "binder_agrees ?ps initial_user_state s1 \<and> rebind_start s1 = 0
      \<and> (\<exists>cs w. list_all neutral cs \<and> cs_commands s1 = cs @ [PcBeginComputePass w])"
    using s1 init by (auto simp: begin_compute_pass_def initial_compute_state_def new_binder_def new_bound_layouts_def
        binder_agrees_def Let_def step_simps neutral_def split: option.splits)
  then have "sim ?ps ?st initial_user_state s1"
    by (auto simp: sim_from_def hal_exec_append neutral_exec initial_user_state_def fresh_def)
  from sim_commands [OF this good _ s2]
  have "sim ?ps ?st (fold (user_step (bp_dynamic_offsets base)) (bp_commands base) initial_user_state) s2" by simp
  then show ?thesis by (auto simp: sim_from_def commands hal_exec_append)
qed

end

section \<open>A backend that keeps no more than the contract\<close>

record hal_pass =
  hp_layout :: "raw_layout option"
  hp_bound :: "nat \<Rightarrow> (raw_group \<times> u32 list) option"

definition hal_set_group :: "raw_layout \<Rightarrow> nat \<Rightarrow> raw_group \<times> u32 list \<Rightarrow> hal_pass \<Rightarrow> hal_pass" where
  "hal_set_group l i g h =
    \<lparr>hp_layout = Some l,
     hp_bound = (\<lambda>j. if j = i then Some g
       else case hp_layout h of
         Some l' \<Rightarrow> if j < common_prefix (raw_layout_ids l') (raw_layout_ids l) then hp_bound h j else None
       | None \<Rightarrow> hp_bound h j)\<rparr>"

definition hal_begin_pass :: "hal_pass \<Rightarrow> hal_pass" where
  "hal_begin_pass h = \<lparr>hp_layout = None, hp_bound = Map.empty\<rparr>"

definition hal_fresh :: hal_pass where
  "hal_fresh = \<lparr>hp_layout = None, hp_bound = Map.empty\<rparr>"

interpretation strict_hal: hal_bindings hal_set_group hal_begin_pass hp_bound hp_layout
  by unfold_locales (auto simp: hal_set_group_def hal_begin_pass_def split: option.splits)

lemma strict_hal_ok: "hal_bindings hal_set_group hal_begin_pass hp_bound hp_layout"
  by unfold_locales

text \<open>C1: Consider a compute pass whose pipelines have layouts without gaps (no missing group before a present
  one), of at most \<open>MAX_BIND_GROUPS\<close> groups, and determined by their addresses. On every backend that keeps
  the contract of \<open>set_bind_group\<close>, the dispatches that the pass records when it is accepted, the validation of
  indirect arguments in between, see exactly the pipeline and the groups with the offsets that the user
  had set last when dispatching. For a layout with a gap this is false, as \<open>gap_pass_loses_group\<close> shows.
\<close>

theorem compute_pass_refines:
  assumes "hal_bindings set_group begin_pass bound last_layout"
    and "good_pipelines {p. CmdSetPipeline p \<in> set (bp_commands base)}"
    and "encode_compute_pass env base tw parent = Some (Inr (e, commands))"
  shows "snd (snd (hal_exec set_group begin_pass bound commands (h, None, [])))
    = us_views (fold (user_step (bp_dynamic_offsets base)) (bp_commands base) initial_user_state)"
  by (rule hal_bindings.trace_views [OF assms])

definition small_layout :: "nat \<Rightarrow> bind_group_layout" where
  "small_layout i = \<lparr>bgl_id = i, bgl_device = 0, bgl_entries = [], bgl_origin = OriginPool,
     bgl_exclusive = Some NotExclusive, bgl_counts = new_count_validator\<rparr>"

definition small_group :: "nat \<Rightarrow> bind_group" where
  "small_group i = \<lparr>grp_index = i, grp_device = 0, grp_layout = small_layout i, grp_destroyed = False,
     grp_buffers = [], grp_views = [], grp_buffer_ranges = [], grp_texture_ranges = [], grp_dynamic = [], grp_late = []\<rparr>"

definition small_pipeline :: "nat \<Rightarrow> nat list \<Rightarrow> compute_pipeline" where
  "small_pipeline i ls = \<lparr>cp_index = i, cp_device = 0,
     cp_layout = \<lparr>pl_id = i, pl_device = 0, pl_groups = map (\<lambda>j. Some (small_layout j)) ls, pl_immediate_size = 0\<rparr>,
     cp_late = []\<rparr>"

definition small_env ::
  "(nat \<Rightarrow> buffer_state) \<Rightarrow> (nat \<Rightarrow> texture) \<Rightarrow> (nat \<Rightarrow> texture_init_tracker) \<Rightarrow> pass_env" where
  "small_env buffers textures status = \<lparr>pe_device = basic_device, pe_discard_labels = False, pe_indirect_validation = False,
     pe_buffers = buffers, pe_textures = textures, pe_texture_status = status, pe_ordered_buffers = 0,
     pe_ordered_textures = 0, pe_buffer_count = 0, pe_texture_count = 0\<rparr>"

text \<open>The second pipeline shares the first group, which is not bound again.\<close>

definition small_pass :: base_pass where
  "small_pass = \<lparr>bp_commands =
       [CmdSetPipeline (small_pipeline 0 [1, 2]), CmdSetBindGroup 0 0 (Some (small_group 1)),
        CmdSetBindGroup 1 0 (Some (small_group 2)), CmdDispatch 1 1 1,
        CmdSetPipeline (small_pipeline 1 [1, 3]), CmdSetBindGroup 1 0 (Some (small_group 3)), CmdDispatch 1 1 1],
     bp_dynamic_offsets = [], bp_string_data = [], bp_immediates_data = []\<rparr>"

definition recorded :: "pass_env \<Rightarrow> base_pass \<Rightarrow> encoding_state \<Rightarrow> (compute_error + compute_state) option" where
  "recorded env base parent =
    then_step (begin_compute_pass env None)
      (then_step (compute_commands env base (bp_commands base))
      (then_step (\<lambda>s. check_step (ensure (\<not> cs_debug_scope_depth s > 0) CpMissingPop) s)
        (emit [PcEndComputePass]))) (initial_compute_state env parent)"

definition ends_well :: "pass_env \<Rightarrow> (compute_error + compute_state) option \<Rightarrow> bool" where
  "ends_well env r = (case r of
     Some (Inr s) \<Rightarrow> cs_fixups s = [] \<and>
       (case Option.bind (set_from_tracker (cs_intermediate_buffers s) (en_buffers (cs_base s)))
            (\<lambda>b. Option.bind (tt_set_from_tracker (cs_intermediate_textures s) (en_textures (cs_base s)))
            (\<lambda>t. drain_barriers env (b, t))) of None \<Rightarrow> False | Some _ \<Rightarrow> True)
   | _ \<Rightarrow> False)"

lemma small_pass_ends: "ends_well (small_env buffers textures status) (recorded (small_env buffers textures status) small_pass fresh_encoding)"
  by code_simp

definition recorded_commands :: "(compute_error + compute_state) option \<Rightarrow> pass_command list" where
  "recorded_commands r = (case r of Some (Inr s) \<Rightarrow> cs_commands s | _ \<Rightarrow> [])"

lemma ends_well_encoded:
  assumes "ends_well env (recorded env base parent)"
  shows "\<exists>e. encode_compute_pass env base None parent = Some (Inr (e, recorded_commands (recorded env base parent)))"
proof -
  obtain s where s: "recorded env base parent = Some (Inr s)" "cs_fixups s = []"
    using assms by (auto simp: ends_well_def split: option.splits sum.splits)
  have "pre_pass env s \<noteq> None"
    using assms s by (auto simp: ends_well_def pre_pass_def split: option.splits bind_splits)
  then show ?thesis using s(1) by (auto simp: encode_compute_pass_def recorded_def recorded_commands_def)
qed

lemma small_views:
  "us_views (fold (user_step []) (bp_commands small_pass) initial_user_state) =
     [(small_pipeline 0 [1, 2], [Some (small_group 1, []), Some (small_group 2, [])]),
      (small_pipeline 1 [1, 3], [Some (small_group 1, []), Some (small_group 3, [])])]"
  by (simp add: small_pass_def initial_user_state_def user_dispatch_def view_of_def small_pipeline_def upt_rec)

lemma small_pass_good: "good_pipelines {p. CmdSetPipeline p \<in> set (bp_commands small_pass)}"
  by (auto simp: good_pipelines_def gapless_def small_pass_def small_pipeline_def MAX_BIND_GROUPS_def nth_Cons split: nat.splits)

theorem compute_pass_refines_witness:
  "\<forall>buffers textures status. \<exists>e commands.
     encode_compute_pass (small_env buffers textures status) small_pass None fresh_encoding = Some (Inr (e, commands)) \<and>
     snd (snd (hal_exec hal_set_group hal_begin_pass hp_bound commands (hal_fresh, None, []))) =
       [(small_pipeline 0 [1, 2], [Some (small_group 1, []), Some (small_group 2, [])]),
        (small_pipeline 1 [1, 3], [Some (small_group 1, []), Some (small_group 3, [])])]"
proof (intro allI)
  fix buffers textures status
  obtain e commands where ok: "encode_compute_pass (small_env buffers textures status) small_pass None fresh_encoding
      = Some (Inr (e, commands))" using ends_well_encoded [OF small_pass_ends] by blast
  have "bp_dynamic_offsets small_pass = []" by (simp add: small_pass_def)
  then show "\<exists>e commands.
     encode_compute_pass (small_env buffers textures status) small_pass None fresh_encoding = Some (Inr (e, commands)) \<and>
     snd (snd (hal_exec hal_set_group hal_begin_pass hp_bound commands (hal_fresh, None, []))) =
       [(small_pipeline 0 [1, 2], [Some (small_group 1, []), Some (small_group 2, [])]),
        (small_pipeline 1 [1, 3], [Some (small_group 1, []), Some (small_group 3, [])])]"
    using ok compute_pass_refines [OF strict_hal_ok small_pass_good ok, of hal_fresh] small_views by simp
qed

text \<open>
  With a gap the backend loses a group: the layout of the second pipeline has no group 0, so that all
  groups are disturbed for the backend, and the binder sees no change to groups 1 and 2. Setting
  group 2 again then leaves group 1 unbound.
\<close>

definition gap_pipeline :: compute_pipeline where
  "gap_pipeline = (small_pipeline 1 [])\<lparr>cp_layout := (cp_layout (small_pipeline 1 []))\<lparr>pl_groups :=
     [None, Some (small_layout 2), Some (small_layout 3)]\<rparr>\<rparr>"

definition gap_pass :: base_pass where
  "gap_pass = \<lparr>bp_commands =
       [CmdSetPipeline (small_pipeline 0 [1, 2, 3]), CmdSetBindGroup 0 0 (Some (small_group 1)),
        CmdSetBindGroup 1 0 (Some (small_group 2)), CmdSetBindGroup 2 0 (Some (small_group 3)), CmdDispatch 1 1 1,
        CmdSetPipeline gap_pipeline, CmdSetBindGroup 2 0 (Some (small_group 3)), CmdDispatch 1 1 1],
     bp_dynamic_offsets = [], bp_string_data = [], bp_immediates_data = []\<rparr>"

definition seen_indices :: "pass_view list \<Rightarrow> nat option list list" where
  "seen_indices vs = map (\<lambda>(p, gs). map (map_option (\<lambda>(g, offsets). grp_index g)) gs) vs"

lemma gap_pass_seen:
  "ends_well (small_env buffers textures status) (recorded (small_env buffers textures status) gap_pass fresh_encoding)"
  "seen_indices (snd (snd (hal_exec hal_set_group hal_begin_pass hp_bound
      (recorded_commands (recorded (small_env buffers textures status) gap_pass fresh_encoding)) (hal_fresh, None, []))))
     = [[Some 1, Some 2, Some 3], [None, None, Some 3]]"
  by code_simp+

lemma gap_pass_loses_group:
  "\<exists>e commands. encode_compute_pass (small_env buffers textures status) gap_pass None fresh_encoding = Some (Inr (e, commands))
     \<and> seen_indices (snd (snd (hal_exec hal_set_group hal_begin_pass hp_bound commands (hal_fresh, None, []))))
         = [[Some 1, Some 2, Some 3], [None, None, Some 3]]
     \<and> seen_indices (us_views (fold (user_step []) (bp_commands gap_pass) initial_user_state))
         = [[Some 1, Some 2, Some 3], [None, Some 2, Some 3]]"
proof -
  have "seen_indices (us_views (fold (user_step []) (bp_commands gap_pass) initial_user_state))
      = [[Some 1, Some 2, Some 3], [None, Some 2, Some 3]]" by code_simp
  then show ?thesis using ends_well_encoded [OF gap_pass_seen(1)] gap_pass_seen(2) by blast
qed

end
