(* ===== verification/EncoderLife.thy ===== *)
theory EncoderLife
  imports Encoders PassRefinement
begin

text \<open>
  What command encoders promise: the calls of the raw encoder keep the protocol of \<open>wgpu-hal/src/lib.rs\<close>, and
  the buffers they build hold the commands in the order of the program with the barriers of each pass
  before it.
\<close>

section \<open>The protocol of the raw encoder\<close>

text \<open>
  Whether the raw encoder is recording and how many of its buffers are alive; \<open>None\<close> is a call that the
  documentation of the trait does not allow.
\<close>

fun raw_call_step :: "hal_encoder \<Rightarrow> nat \<Rightarrow> raw_call \<Rightarrow> bool \<times> nat \<Rightarrow> (bool \<times> nat) option" where
  "raw_call_step hal n CallBegin (recording, live) = (if recording then None else Some (he_begin hal n = None, live))"
| "raw_call_step hal n CallEnd (recording, live) =
     (if recording then Some (False, if he_end hal n = None then Suc live else live) else None)"
| "raw_call_step hal n CallDiscard (recording, live) = (if recording then Some (False, live) else None)"
| "raw_call_step hal n (CallResetAll k) (recording, live) = (if recording \<or> k \<noteq> live then None else Some (False, 0))"
| "raw_call_step hal n (CallRecord cs) (recording, live) = (if recording then Some (True, live) else None)"

fun raw_run :: "hal_encoder \<Rightarrow> nat \<Rightarrow> raw_call list \<Rightarrow> bool \<times> nat \<Rightarrow> (bool \<times> nat) option" where
  "raw_run hal n [] st = Some st"
| "raw_run hal n (c # cs) st = Option.bind (raw_call_step hal n c st) (raw_run hal (Suc n) cs)"

lemma raw_run_append:
  "raw_run hal n (xs @ ys) st = Option.bind (raw_run hal n xs st) (raw_run hal (n + length xs) ys)"
  by (induction xs arbitrary: n st) (auto split: bind_splits)

lemma raw_run_snoc:
  "raw_run hal 0 (xs @ [c]) st = Option.bind (raw_run hal 0 xs st) (raw_call_step hal (length xs) c)"
  by (simp add: raw_run_append) (simp add: bind_eq_Some_conv split: bind_splits)

definition encoder_ok :: "hal_encoder \<Rightarrow> inner_encoder \<Rightarrow> bool" where
  "encoder_ok hal e \<longleftrightarrow> raw_run hal 0 (ie_calls e) (False, 0) = Some (ie_is_open e, length (ie_list e))"

text \<open>The commands recorded so far, in the order of the submission.\<close>

definition flat :: "inner_encoder \<Rightarrow> raw_command list" where
  "flat e = concat (ie_list e) @ (if ie_is_open e then ie_recorded e else [])"

lemma encoder_ok_new: "encoder_ok hal new_inner_encoder"
  by (simp add: encoder_ok_def new_inner_encoder_def)

lemma call_begin_ok:
  assumes "encoder_ok hal e" "\<not> ie_is_open e"
  shows "encoder_ok hal (snd (call_begin hal e))"
    "fst (call_begin hal e) = Inr () \<Longrightarrow> ie_is_open (snd (call_begin hal e)) \<and> flat (snd (call_begin hal e)) = flat e
       \<and> ie_list (snd (call_begin hal e)) = ie_list e \<and> ie_recorded (snd (call_begin hal e)) = []"
  using assms by (auto simp: encoder_ok_def call_begin_def raw_run_snoc flat_def Let_def split: option.splits)

lemma call_record_ok:
  assumes "encoder_ok hal e" "ie_is_open e"
  shows "encoder_ok hal (call_record cs e) \<and> ie_is_open (call_record cs e) \<and> flat (call_record cs e) = flat e @ cs
     \<and> ie_list (call_record cs e) = ie_list e \<and> ie_recorded (call_record cs e) = ie_recorded e @ cs"
  using assms by (auto simp: encoder_ok_def call_record_def raw_run_snoc flat_def)

lemma close_with_ok:
  assumes "encoder_ok hal e" and "close_with put_buffer hal e = Some (r, e')"
    and "\<And>l'. put_buffer (ie_recorded e) (ie_list e) = Some l' \<Longrightarrow> length l' = Suc (length (ie_list e))"
  shows "encoder_ok hal e' \<and> \<not> ie_is_open e' \<and> (r = Inr () \<longrightarrow> put_buffer (ie_recorded e) (ie_list e) = Some (ie_list e'))"
  using assms by (auto simp: close_with_def call_end_def encoder_ok_def raw_run_snoc Let_def split: if_splits option.splits)

lemma close_ok:
  assumes "encoder_ok hal e" "close hal e = Some (r, e')"
  shows "encoder_ok hal e' \<and> \<not> ie_is_open e' \<and> (r = Inr () \<longrightarrow> flat e' = flat e \<and> ie_list e' = ie_list e @ [ie_recorded e])"
proof -
  have "ie_is_open e" using assms(2) by (simp add: close_def close_with_def split: if_splits)
  then show ?thesis using close_with_ok [OF assms(1) assms(2) [unfolded close_def]] by (auto simp: flat_def simp flip: append_assoc dest!: sym [of "_ @ _"])
qed

lemma close_if_open_ok:
  assumes "encoder_ok hal e" "close_if_open hal e = Some (r, e')"
  shows "encoder_ok hal e' \<and> \<not> ie_is_open e' \<and> (r = Inr () \<longrightarrow> flat e' = flat e)"
  using assms close_ok [OF assms(1)] by (auto simp: close_if_open_def split: if_splits)

lemma drop_encoder_ok: "encoder_ok hal e \<Longrightarrow> raw_run hal 0 (ie_calls (drop_encoder e)) (False, 0) = Some (False, 0)"
  by (auto simp: encoder_ok_def drop_encoder_def raw_run_snoc Let_def)

section \<open>Encoding as a program\<close>

text \<open>
  What the commands of an encoder stand for without the raw encoder: each one a list of raw commands, a
  pass with the barriers and clears it needs before its own commands.
\<close>

type_synonym program_state = "encoding_state \<times> u32"
type_synonym program = "program_state \<Rightarrow> (encoder_error + raw_command list \<times> program_state) option"

definition transfer_program :: "device \<Rightarrow> pass_env \<Rightarrow> transfer_command \<Rightarrow> program" where
  "transfer_program dev env t st =
    map_option (\<lambda>(r, es). and_then (map_err EeCommand r) (\<lambda>_.
        Inr (map RcCommand (en_commands es), es\<lparr>en_commands := []\<rparr>, snd st)))
      (encode_command dev (pe_buffers env) (pe_textures env) t ((fst st)\<lparr>en_commands := []\<rparr>))"

definition pass_program :: "pass_env \<Rightarrow> base_pass \<Rightarrow> timestamp_writes option \<Rightarrow> program" where
  "pass_program env base tw st =
    map_option (\<lambda>r. and_then (map_err EeComputePass r) (\<lambda>(es, body).
        Inr (map RcCommand (en_commands es) @ map RcPass body, es\<lparr>en_commands := []\<rparr>, snd st)))
      (encode_compute_pass env base tw (fst st))"

definition transition_program ::
  "pass_env \<Rightarrow> (nat \<times> buffer_uses) list \<Rightarrow> (nat \<times> texture_selector option \<times> texture_uses) list \<Rightarrow> program" where
  "transition_program env buffer_transitions texture_transitions st = do {
     rb \<leftarrow> transition_buffers (pe_device env) (pe_buffers env) buffer_transitions
            (scope_set_ordered (pe_ordered_buffers env) (scope_set_size (pe_buffer_count env) default_scope));
     (case rb of
        Inl e \<Rightarrow> Some (Inl (EeTransition e))
      | Inr bscope \<Rightarrow> do {
          rt \<leftarrow> transition_textures (pe_device env) (pe_textures env) texture_transitions
                 (ts_set_ordered (pe_ordered_textures env) (ts_set_size (pe_texture_count env) default_texture_scope));
          (case rt of
             Inl e \<Rightarrow> Some (Inl (EeTransition e))
           | Inr tscope \<Rightarrow>
               map_option (\<lambda>(cs, es). Inr (cs, es, snd st)) (insert_barriers_from_scope env bscope tscope (fst st))) }) }"

definition program_command :: "pass_env \<Rightarrow> normaliser \<Rightarrow> arc_command \<Rightarrow> program" where
  "program_command env normaliser c st =
    (let dev = pe_device env; label_of = (\<lambda>x. if pe_discard_labels env then [] else [x]) in
     case c of
       ArcRunComputePass base tw \<Rightarrow> pass_program env base tw st
     | ArcTransfer t \<Rightarrow> transfer_program dev env t st
     | ArcWriteTimestamp qs i \<Rightarrow>
         map_option (\<lambda>r. and_then (map_err EeQuery r) (\<lambda>cs. Inr (map RcQuery cs, st))) (write_timestamp dev qs i)
     | ArcResolveQuerySet qs start_query query_count dst off \<Rightarrow>
         map_option (\<lambda>(r, es). and_then (map_err EeQuery r) (\<lambda>cs. Inr (map RcQuery cs, es, snd st)))
           (resolve_query_set dev normaliser qs start_query query_count (pe_buffers env dst) off (fst st))
     | ArcPushDebugGroup label \<Rightarrow> Some (Inr (label_of (RcBeginDebugMarker label), fst st, snd st + 1))
     | ArcPopDebugGroup \<Rightarrow>
         Some (if snd st = 0 then Inl EeInvalidPop else Inr (label_of RcEndDebugMarker, fst st, snd st - 1))
     | ArcInsertDebugMarker label \<Rightarrow> Some (Inr (label_of (RcInsertDebugMarker label), st))
     | ArcTransitionResources bs ts \<Rightarrow> transition_program env bs ts st)"

fun program_commands :: "pass_env \<Rightarrow> normaliser \<Rightarrow> arc_command list \<Rightarrow> program" where
  "program_commands env normaliser [] st = Some (Inr ([], st))"
| "program_commands env normaliser (c # cs) st =
     (case program_command env normaliser c st of
        None \<Rightarrow> None
      | Some (Inl e) \<Rightarrow> Some (Inl e)
      | Some (Inr (xs, st)) \<Rightarrow>
          map_option (\<lambda>r. and_then r (\<lambda>(ys, st). Inr (xs @ ys, st))) (program_commands env normaliser cs st))"

definition run_program ::
  "pass_env \<Rightarrow> normaliser \<Rightarrow> arc_command list \<Rightarrow> encoding_state \<Rightarrow> (encoder_error + raw_command list \<times> encoding_state) option" where
  "run_program env normaliser cs es =
    map_option (\<lambda>r. and_then r (\<lambda>(xs, es, depth). if depth > 0 then Inl EeMissingPop else Inr (xs, es)))
      (program_commands env normaliser cs (es, 0))"

section \<open>The encoding against the program\<close>

text \<open>A step that only records, in one call.\<close>

definition records :: "(encoder_error, unit) er \<Rightarrow> program \<Rightarrow> bool" where
  "records m p \<longleftrightarrow> (\<forall>s.
    case m s of
      None \<Rightarrow> p (er_state s, er_depth s) = None
    | Some (Inl err, s') \<Rightarrow> p (er_state s, er_depth s) = Some (Inl err) \<and>
        (er_encoder s' = er_encoder s \<or> (\<exists>cs. er_encoder s' = call_record cs (er_encoder s)))
    | Some (Inr _, s') \<Rightarrow> \<exists>cs. p (er_state s, er_depth s) = Some (Inr (cs, er_state s', er_depth s')) \<and>
        er_encoder s' = call_record cs (er_encoder s))"

lemmas er_defs = er_bind_def er_lift_def er_record_def

lemma records_transfer:
  "records (er_enc EeCommand (encode_command dev (pe_buffers env) (pe_textures env) t)) (transfer_program dev env t)"
  by (auto simp: records_def er_enc_def transfer_program_def and_then_def map_err_def split: option.splits sum.splits)

lemma records_timestamp:
  "records (er_timestamp dev qs i) (\<lambda>st. map_option (\<lambda>r. and_then (map_err EeQuery r) (\<lambda>cs. Inr (map RcQuery cs, st))) (write_timestamp dev qs i))"
  by (auto simp: records_def er_timestamp_def er_defs split: option.splits sum.splits bind_splits)

lemma records_resolve:
  "records (er_resolve dev normaliser qs start_query query_count dst off)
     (\<lambda>st. map_option (\<lambda>(r, es). and_then (map_err EeQuery r) (\<lambda>cs. Inr (map RcQuery cs, es, snd st)))
        (resolve_query_set dev normaliser qs start_query query_count dst off (fst st)))"
  by (auto simp: records_def er_resolve_def er_defs split: option.splits sum.splits bind_splits)

lemma records_transition: "records (transition_resources env bs ts) (transition_program env bs ts)"
  by (auto simp: records_def transition_resources_def transition_program_def er_defs split: option.splits sum.splits bind_splits)

lemma records_debug:
  "records (encoder_push_debug_group b label) (\<lambda>st. Some (Inr (if b then [] else [RcBeginDebugMarker label], fst st, snd st + 1)))"
  "records (encoder_pop_debug_group b) (\<lambda>st. Some (if snd st = 0 then Inl EeInvalidPop else Inr (if b then [] else [RcEndDebugMarker], fst st, snd st - 1)))"
  "records (encoder_insert_debug_marker b label) (\<lambda>st. Some (Inr (if b then [] else [RcInsertDebugMarker label], st)))"
  by (auto simp: records_def encoder_push_debug_group_def encoder_pop_debug_group_def encoder_insert_debug_marker_def er_defs)

definition hal_fails :: "hal_encoder \<Rightarrow> encoder_error \<Rightarrow> bool" where
  "hal_fails hal err \<longleftrightarrow> (\<exists>n d. (err = EeDevice d \<or> err = pass_device_error d) \<and> (he_begin hal n = Some d \<or> he_end hal n = Some d))"

lemma hal_fails_pass [simp]: "hal_fails hal (pass_device_error d) = hal_fails hal (EeDevice d)"
  by (simp add: hal_fails_def pass_device_error_def)

definition follows :: "hal_encoder \<Rightarrow> (encoder_error, unit) er \<Rightarrow> program \<Rightarrow> bool" where
  "follows hal m p \<longleftrightarrow> (\<forall>s. encoder_ok hal (er_encoder s) \<longrightarrow>
    (case m s of
      None \<Rightarrow> p (er_state s, er_depth s) = None
    | Some (Inl err, s') \<Rightarrow> encoder_ok hal (er_encoder s') \<and> (p (er_state s, er_depth s) = Some (Inl err) \<or> hal_fails hal err)
    | Some (Inr _, s') \<Rightarrow> encoder_ok hal (er_encoder s') \<and> (\<exists>cs. p (er_state s, er_depth s) = Some (Inr (cs, er_state s', er_depth s')) \<and>
        flat (er_encoder s') = flat (er_encoder s) @ cs)))"

lemma call_begin_fails: "call_begin hal e = (Inl d, e') \<Longrightarrow> hal_fails hal (EeDevice d)"
  by (auto simp: call_begin_def hal_fails_def Let_def split: option.splits)

lemma close_with_fails: "close_with f hal e = Some (Inl d, e') \<Longrightarrow> hal_fails hal (EeDevice d)"
  by (auto simp: close_with_def call_end_def hal_fails_def Let_def split: if_splits option.splits)

lemma open_if_closed_ok:
  assumes "encoder_ok hal e" "open_if_closed hal e = Some (r, e')"
  shows "encoder_ok hal e'" "r = Inr () \<Longrightarrow> ie_is_open e' \<and> flat e' = flat e" "r = Inl d \<Longrightarrow> hal_fails hal (EeDevice d)"
  using assms call_begin_ok [OF assms(1)] call_begin_fails
  by (fastforce simp: open_if_closed_def split: if_splits)+

lemma open_if_closed_some: "open_if_closed hal e \<noteq> None"
  by (simp add: open_if_closed_def)

lemma follows_opened:
  assumes "records m p"
  shows "follows hal (er_bind (er_raw EeDevice (open_if_closed hal)) (\<lambda>_. m)) p"
proof (unfold follows_def, intro allI impI)
  fix s :: encode_run assume ok: "encoder_ok hal (er_encoder s)"
  obtain r e where o: "open_if_closed hal (er_encoder s) = Some (r, e)" using open_if_closed_some by fast
  note e = open_if_closed_ok [OF ok o]
  show "case er_bind (er_raw EeDevice (open_if_closed hal)) (\<lambda>_. m) s of
      None \<Rightarrow> p (er_state s, er_depth s) = None
    | Some (Inl err, s') \<Rightarrow> encoder_ok hal (er_encoder s') \<and> (p (er_state s, er_depth s) = Some (Inl err) \<or> hal_fails hal err)
    | Some (Inr _, s') \<Rightarrow> encoder_ok hal (er_encoder s') \<and> (\<exists>cs. p (er_state s, er_depth s) = Some (Inr (cs, er_state s', er_depth s')) \<and>
        flat (er_encoder s') = flat (er_encoder s) @ cs)"
  proof (cases r)
    case (Inl d)
    then show ?thesis using o e by (simp add: er_bind_def er_raw_def)
  next
    case (Inr u)
    then have u: "ie_is_open e" "flat e = flat (er_encoder s)" using e(2) by auto
    note assms [unfolded records_def, rule_format, of "s\<lparr>er_encoder := e\<rparr>"]
    then show ?thesis using o Inr u e(1) call_record_ok [OF e(1) u(1)]
      by (auto simp: er_bind_def er_raw_def split: option.splits sum.splits)
  qed
qed

lemma close_if_open_fails: "close_if_open hal e = Some (Inl d, e') \<Longrightarrow> hal_fails hal (EeDevice d)"
  by (auto simp: close_if_open_def close_def close_with_fails split: if_splits)

lemma close_if_open_some: "close_if_open hal e \<noteq> None"
  by (auto simp: close_if_open_def close_def close_with_def split: prod.splits sum.splits)

lemma open_pass_ok:
  assumes "encoder_ok hal e" "\<not> ie_is_open e"
  obtains (fails) d e' where "open_pass hal e = Some (Inl d, e')" "encoder_ok hal e'" "hal_fails hal (EeDevice d)"
  | (opened) e' where "open_pass hal e = Some (Inr (), e')" "encoder_ok hal e'" "ie_is_open e'" "flat e' = flat e"
      "ie_list e' = ie_list e" "ie_recorded e' = []"
proof (cases "call_begin hal e")
  case (Pair r e')
  then show thesis using assms call_begin_ok [OF assms] call_begin_fails [of hal e] fails opened
    by (cases r) (auto simp: open_pass_def)
qed

lemma close_pass_ok:
  assumes "encoder_ok hal e" "ie_is_open e"
  obtains (fails) d e' where "close hal e = Some (Inl d, e')" "encoder_ok hal e'" "hal_fails hal (EeDevice d)"
  | (closed) e' where "close hal e = Some (Inr (), e')" "encoder_ok hal e'" "\<not> ie_is_open e'" "ie_list e' = ie_list e @ [ie_recorded e]"
proof -
  obtain r e' where c: "close hal e = Some (r, e')"
    using assms(2) by (cases "close hal e") (auto simp: close_def close_with_def split: prod.splits sum.splits)
  then show thesis using close_ok [OF assms(1) c] close_with_fails [of _ hal e] fails closed
    by (cases r) (auto simp: close_def)
qed

lemma close_swap_ok:
  assumes "encoder_ok hal e" "ie_is_open e" "ie_list e = bs @ [b]"
  obtains (fails) d e' where "close_and_swap hal e = Some (Inl d, e')" "encoder_ok hal e'" "hal_fails hal (EeDevice d)"
  | (closed) e' where "close_and_swap hal e = Some (Inr (), e')" "encoder_ok hal e'" "\<not> ie_is_open e'"
      "ie_list e' = bs @ [ie_recorded e, b]"
proof -
  obtain r e' where c: "close_and_swap hal e = Some (r, e')"
    using assms(2,3) by (cases "close_and_swap hal e") (auto simp: close_and_swap_def close_with_def call_end_def Let_def split: option.splits)
  have put: "vec_insert (length bs) x (bs @ [b]) = bs @ [x, b]" for x :: "raw_command list" by (simp add: vec_insert_def)
  note ok = close_with_ok [OF assms(1) c [unfolded close_and_swap_def]]
  show thesis
  proof (cases r)
    case (Inl d)
    then show thesis using ok c close_with_fails [of _ hal e] fails assms(3) put by (auto simp: close_and_swap_def)
  next
    case (Inr u)
    then show thesis using ok c closed assms(3) put by auto
  qed
qed

lemma flat_closed: "\<not> ie_is_open e \<Longrightarrow> flat e = concat (ie_list e)"
  by (simp add: flat_def)

lemma record_pass_ok:
  assumes ok: "encoder_ok hal (er_encoder s)" "ie_is_open (er_encoder s)" "ie_recorded (er_encoder s) = []"
  obtains (fails) err s' where "record_pass hal body pre s = Some (Inl err, s')" "encoder_ok hal (er_encoder s')" "hal_fails hal err"
  | (recorded) s' where "record_pass hal body pre s = Some (Inr (), s')" "encoder_ok hal (er_encoder s')"
      "flat (er_encoder s') = flat (er_encoder s) @ pre @ body" "er_state s' = er_state s" "er_depth s' = er_depth s"
proof -
  note c0 = call_record_ok [OF ok(1,2), of body]
  then have c: "encoder_ok hal (call_record body (er_encoder s))" "ie_is_open (call_record body (er_encoder s))" by simp_all
  from c show thesis
  proof (cases rule: close_pass_ok)
    case (fails d e')
    then show thesis using that(1) by (simp add: record_pass_def er_bind_def er_record_def er_raw_def)
  next
    case closed: (closed e1)
    from closed(2,3) show thesis
    proof (cases rule: open_pass_ok)
      case (fails d e')
      then show thesis using that(1) closed by (simp add: record_pass_def er_bind_def er_record_def er_raw_def)
    next
      case opened: (opened e2)
      note r = call_record_ok [OF opened(2,3), of pre]
      have l: "ie_list (call_record pre e2) = ie_list (er_encoder s) @ [body]" using r opened closed c0 ok(3) by simp
      from r l have "encoder_ok hal (call_record pre e2)" "ie_is_open (call_record pre e2)" by simp_all
      from this l show thesis
      proof (cases rule: close_swap_ok)
        case (fails d e')
        then show thesis using that(1) closed opened by (simp add: record_pass_def er_bind_def er_record_def er_raw_def)
      next
        case swapped: (closed e3)
        have "flat e3 = flat (er_encoder s) @ pre @ body" using swapped r opened(6) ok by (simp add: flat_def)
        then show thesis using that(2) closed opened swapped by (simp add: record_pass_def er_bind_def er_record_def er_raw_def)
      qed
    qed
  qed
qed

lemma follows_pass: "follows hal (run_compute_pass hal env base tw) (pass_program env base tw)"
proof (unfold follows_def, intro allI impI)
  fix s :: encode_run assume ok: "encoder_ok hal (er_encoder s)"
  obtain r e where o: "close_if_open hal (er_encoder s) = Some (r, e)" using close_if_open_some by fast
  note e = close_if_open_ok [OF ok o]
  show "case run_compute_pass hal env base tw s of
      None \<Rightarrow> pass_program env base tw (er_state s, er_depth s) = None
    | Some (Inl err, s') \<Rightarrow> encoder_ok hal (er_encoder s') \<and>
        (pass_program env base tw (er_state s, er_depth s) = Some (Inl err) \<or> hal_fails hal err)
    | Some (Inr _, s') \<Rightarrow> encoder_ok hal (er_encoder s') \<and>
        (\<exists>cs. pass_program env base tw (er_state s, er_depth s) = Some (Inr (cs, er_state s', er_depth s')) \<and>
        flat (er_encoder s') = flat (er_encoder s) @ cs)"
  proof (cases r)
    case (Inl d)
    then show ?thesis using o e close_if_open_fails by (auto simp: run_compute_pass_def er_bind_def er_raw_def)
  next
    case (Inr u)
    from e have "encoder_ok hal e" "\<not> ie_is_open e" by simp_all
    then show ?thesis
    proof (cases rule: open_pass_ok)
      case (fails d e')
      then show ?thesis using o Inr by (simp add: run_compute_pass_def er_bind_def er_raw_def)
    next
      case (opened e')
      let ?p = "encode_compute_pass env base tw (er_state s)"
      consider "?p = None" | x where "?p = Some (Inl x)" | es body where "?p = Some (Inr (es, body))"
        by (cases ?p) (auto split: sum.splits, metis old.sum.exhaust surj_pair)
      then show ?thesis
      proof cases
        case (3 es body)
        let ?s = "s\<lparr>er_encoder := e', er_state := es\<lparr>en_commands := []\<rparr>\<rparr>"
        have run: "run_compute_pass hal env base tw s = record_pass hal (map RcPass body) (map RcCommand (en_commands es)) ?s"
          using o Inr opened 3 by (simp add: run_compute_pass_def er_bind_def er_raw_def)
        have "encoder_ok hal (er_encoder ?s)" "ie_is_open (er_encoder ?s)" "ie_recorded (er_encoder ?s) = []" using opened by simp_all
        then show ?thesis
        proof (cases rule: record_pass_ok [where hal = hal and body = "map RcPass body" and pre = "map RcCommand (en_commands es)"])
          case (fails err s')
          then show ?thesis using run by simp
        next
          case (recorded s')
          then show ?thesis using run 3 opened(4) e Inr by (simp add: pass_program_def)
        qed
      qed (use o Inr opened in \<open>simp_all add: run_compute_pass_def er_bind_def er_raw_def pass_program_def\<close>)
    qed
  qed
qed

lemma follows_command: "follows hal (encode_arc_command hal env normaliser c) (program_command env normaliser c)"
proof -
  note p = program_command_def [abs_def] encode_arc_command_def Let_def
  show ?thesis
  proof (cases c)
    case ArcTransfer
    then show ?thesis by (simp add: p follows_opened records_transfer)
  next
    case ArcWriteTimestamp
    then show ?thesis by (simp add: p follows_opened records_timestamp)
  next
    case ArcResolveQuerySet
    then show ?thesis by (simp add: p follows_opened records_resolve)
  next
    case ArcTransitionResources
    then show ?thesis by (simp add: p follows_opened records_transition)
  next
    case ArcRunComputePass
    then show ?thesis by (simp add: p follows_pass)
  qed (simp_all add: p follows_opened records_debug)
qed

lemma follows_commands: "follows hal (encode_arc_commands hal env normaliser cs) (program_commands env normaliser cs)"
proof (induction cs)
  case Nil
  then show ?case by (simp add: follows_def er_lift_def)
next
  case (Cons c cs)
  show ?case
  proof (unfold follows_def, intro allI impI)
    fix s :: encode_run assume ok: "encoder_ok hal (er_encoder s)"
    note c = follows_command [of hal env normaliser c, unfolded follows_def, rule_format, OF ok]
    show "case encode_arc_commands hal env normaliser (c # cs) s of
        None \<Rightarrow> program_commands env normaliser (c # cs) (er_state s, er_depth s) = None
      | Some (Inl err, s') \<Rightarrow> encoder_ok hal (er_encoder s') \<and>
          (program_commands env normaliser (c # cs) (er_state s, er_depth s) = Some (Inl err) \<or> hal_fails hal err)
      | Some (Inr _, s') \<Rightarrow> encoder_ok hal (er_encoder s') \<and>
          (\<exists>xs. program_commands env normaliser (c # cs) (er_state s, er_depth s) = Some (Inr (xs, er_state s', er_depth s')) \<and>
          flat (er_encoder s') = flat (er_encoder s) @ xs)"
    proof (cases "encode_arc_command hal env normaliser c s")
      case None
      then show ?thesis using c by (simp add: er_bind_def)
    next
      case (Some rs)
      show ?thesis
      proof (cases rs)
        case (Pair r s')
        then show ?thesis using Some c Cons.IH [unfolded follows_def, rule_format, of s']
          by (cases r) (auto simp: er_bind_def split: option.splits sum.splits)
      qed
    qed
  qed
qed

lemma encoder_ok_api [simp]: "encoder_ok hal (e\<lparr>ie_api := a\<rparr>) = encoder_ok hal e"
  by (simp add: encoder_ok_def)

lemma flat_new: "flat (new_inner_encoder\<lparr>ie_api := a\<rparr>) = []"
  by (simp add: flat_def new_inner_encoder_def)

lemma encode_buffer_follows:
  assumes "cb_encoder cb = new_inner_encoder\<lparr>ie_api := ApiWgpu\<rparr>" and "check_is_valid (pe_device env) = Inr ()"
  shows "case encode_buffer hal env normaliser cb of
      None \<Rightarrow> run_program env normaliser (cb_commands cb) (cb_state cb) = None
    | Some (Inl err, cb') \<Rightarrow> encoder_ok hal (cb_encoder cb') \<and>
        (run_program env normaliser (cb_commands cb) (cb_state cb) = Some (Inl err) \<or> hal_fails hal err)
    | Some (Inr _, cb') \<Rightarrow> encoder_ok hal (cb_encoder cb') \<and> \<not> ie_is_open (cb_encoder cb') \<and>
        run_program env normaliser (cb_commands cb) (cb_state cb) = Some (Inr (concat (ie_list (cb_encoder cb')), cb_state cb'))"
proof -
  let ?s = "\<lparr>er_encoder = cb_encoder cb, er_state = cb_state cb, er_depth = 0\<rparr>"
  have ok: "encoder_ok hal (er_encoder ?s)" using assms(1) encoder_ok_new by simp
  note run = follows_commands [of hal env normaliser "cb_commands cb", unfolded follows_def, rule_format, OF ok]
  have buffer: "encode_buffer hal env normaliser cb = map_option (\<lambda>(r, s). (r, cb\<lparr>cb_encoder := er_encoder s, cb_state := er_state s, cb_commands := []\<rparr>))
      (er_bind (encode_arc_commands hal env normaliser (cb_commands cb)) (\<lambda>_ s.
       er_bind (er_lift (ensure (\<not> er_depth s > 0) EeMissingPop)) (\<lambda>_. er_raw EeDevice (close_if_open hal)) s) ?s)"
    using assms by (simp add: encode_buffer_def)
  show ?thesis
  proof (cases "encode_arc_commands hal env normaliser (cb_commands cb) ?s")
    case None
    then show ?thesis using run buffer by (simp add: er_bind_def run_program_def)
  next
    case (Some rs)
    obtain r s' where rs: "rs = (r, s')" by fastforce
    obtain r' e where o: "close_if_open hal (er_encoder s') = Some (r', e)" using close_if_open_some by fast
    show ?thesis
    proof (cases r)
      case (Inl err)
      then show ?thesis using Some rs run buffer by (auto simp: er_bind_def run_program_def)
    next
      case (Inr u)
      then have s': "encoder_ok hal (er_encoder s')" "program_commands env normaliser (cb_commands cb) (cb_state cb, 0)
          = Some (Inr (flat (er_encoder s'), er_state s', er_depth s'))"
        using Some rs run assms(1) by (auto simp: flat_new)
      have e: "encoder_ok hal e" "\<not> ie_is_open e" "r' = Inr () \<Longrightarrow> concat (ie_list e) = flat (er_encoder s')"
        using close_if_open_ok [OF s'(1) o] flat_closed [of e] by simp_all
      show ?thesis using Some rs Inr s' o e close_if_open_fails [of hal "er_encoder s'"] buffer
        by (cases r') (auto simp: er_bind_def er_lift_def er_raw_def run_program_def ensure_def)
    qed
  qed
qed

text \<open>C40: Encoding the commands of an encoder when it is finished, for an encoder that was only used through
  wgpu and a valid device, whatever the backend answers when a buffer is begun or ended. The calls that the
  raw encoder receives, up to the one that gives all buffers back, are calls that the contract of the trait
  allows: none to begin while recording, none to end, discard or record while not, and the reset gets exactly
  the buffers that are alive. When the encoding succeeds, the buffers it has built, in the order in which they
  are submitted, hold the commands of the program in its order, the barriers and clears of each pass right
  before it, and the trackers are those of the program; an error is the first one of the program or one of the
  backend, and a panic is one of the program.
\<close>

theorem encoder_refines:
  assumes "cb_encoder cb = new_inner_encoder\<lparr>ie_api := ApiWgpu\<rparr>" and "check_is_valid (pe_device env) = Inr ()"
  shows "case encode_buffer hal env normaliser cb of
      None \<Rightarrow> run_program env normaliser (cb_commands cb) (cb_state cb) = None
    | Some (r, cb') \<Rightarrow>
        raw_run hal 0 (ie_calls (drop_encoder (cb_encoder cb'))) (False, 0) = Some (False, 0)
        \<and> (case r of
              Inl err \<Rightarrow> run_program env normaliser (cb_commands cb) (cb_state cb) = Some (Inl err) \<or> hal_fails hal err
            | Inr _ \<Rightarrow> run_program env normaliser (cb_commands cb) (cb_state cb)
                = Some (Inr (concat (ie_list (cb_encoder cb')), cb_state cb')))"
  using encode_buffer_follows [OF assms, of normaliser hal] drop_encoder_ok
  by (auto split: option.splits sum.splits)

definition small_commands :: "arc_command list" where
  "small_commands = [ArcPushDebugGroup [1], ArcRunComputePass empty_base None, ArcPopDebugGroup]"

definition small_encoder_data :: "pass_env \<Rightarrow> command_buffer_mutable" where
  "small_encoder_data env = (new_command_buffer env)\<lparr>cb_encoder := new_inner_encoder\<lparr>ie_api := ApiWgpu\<rparr>, cb_commands := small_commands\<rparr>"

definition no_normaliser :: normaliser where
  "no_normaliser b off n t = None"

definition ending_fails :: hal_encoder where
  "ending_fails = \<lparr>he_begin = \<lambda>_. None, he_end = \<lambda>n. if n = 5 then Some DeviceLost else None\<rparr>"

definition nothing_fails :: hal_encoder where
  "nothing_fails = \<lparr>he_begin = \<lambda>_. None, he_end = \<lambda>_. None\<rparr>"

definition encoded_calls :: "hal_encoder \<Rightarrow> pass_env \<Rightarrow> ((encoder_error + unit) \<times> raw_call list) option" where
  "encoded_calls hal env = map_option (\<lambda>(r, cb). (r, ie_calls (drop_encoder (cb_encoder cb))))
     (encode_buffer hal env no_normaliser (small_encoder_data env))"

lemma ending_fails_calls: "encoded_calls ending_fails (small_env buffers textures status) =
    Some (Inl (pass_device_error DeviceLost), [CallBegin, CallRecord [RcBeginDebugMarker [1]], CallEnd, CallBegin,
      CallRecord [RcPass (PcBeginComputePass None), RcPass PcEndComputePass], CallEnd, CallResetAll 1])"
  by code_simp

lemma small_encoder_data_encoder: "cb_encoder (small_encoder_data env) = new_inner_encoder\<lparr>ie_api := ApiWgpu\<rparr>"
  by (simp add: small_encoder_data_def)

lemma small_encoder_data_simps:
  "cb_commands (small_encoder_data env) = small_commands"
  "cb_state (small_encoder_data env) = cb_state (new_command_buffer env)"
  by (simp_all add: small_encoder_data_def)

definition encoded_buffers :: "hal_encoder \<Rightarrow> pass_env \<Rightarrow> ((encoder_error + unit) \<times> raw_command list list) option" where
  "encoded_buffers hal env = map_option (\<lambda>(r, cb). (r, ie_list (cb_encoder cb))) (encode_buffer hal env no_normaliser (small_encoder_data env))"

lemma nothing_fails_buffers: "encoded_buffers nothing_fails (small_env buffers textures status) =
    Some (Inr (), [[RcBeginDebugMarker [1]], [RcCommand (HcTransitionBuffers []), RcCommand (HcTransitionTextures [])],
      [RcPass (PcBeginComputePass None), RcPass PcEndComputePass], [RcEndDebugMarker]])"
  by code_simp

lemma small_device_valid: "check_is_valid (pe_device (small_env buffers textures status)) = Inr ()"
  by code_simp

text \<open>A pass between the ends of a debug group, and the same when the end of the second buffer fails.\<close>

theorem encoder_refines_witness:
  "\<forall>buffers textures status. let env = small_env buffers textures status in
     map_option (map_err id o (\<lambda>r. and_then r (\<lambda>(cs, _). Inr cs)))
       (run_program env no_normaliser small_commands (cb_state (new_command_buffer env)))
     = Some (Inr [RcBeginDebugMarker [1], RcCommand (HcTransitionBuffers []), RcCommand (HcTransitionTextures []),
        RcPass (PcBeginComputePass None), RcPass PcEndComputePass, RcEndDebugMarker])
     \<and> (\<exists>calls. encoded_calls ending_fails env = Some (Inl (pass_device_error DeviceLost), calls)
          \<and> length calls = 7 \<and> raw_run ending_fails 0 calls (False, 0) = Some (False, 0))"
proof (unfold Let_def, intro allI conjI)
  fix buffers textures status
  let ?env = "small_env buffers textures status"
  note refines = encoder_refines [where env = ?env, OF small_encoder_data_encoder small_device_valid]
  obtain cb' where cb': "encode_buffer nothing_fails ?env no_normaliser (small_encoder_data ?env) = Some (Inr (), cb')"
    "concat (ie_list (cb_encoder cb')) = [RcBeginDebugMarker [1], RcCommand (HcTransitionBuffers []),
        RcCommand (HcTransitionTextures []), RcPass (PcBeginComputePass None), RcPass PcEndComputePass, RcEndDebugMarker]"
    using nothing_fails_buffers [of buffers textures status] by (auto simp: encoded_buffers_def)
  then show "map_option (map_err id o (\<lambda>r. and_then r (\<lambda>(cs, _). Inr cs)))
     (run_program ?env no_normaliser small_commands (cb_state (new_command_buffer ?env)))
     = Some (Inr [RcBeginDebugMarker [1], RcCommand (HcTransitionBuffers []), RcCommand (HcTransitionTextures []),
        RcPass (PcBeginComputePass None), RcPass PcEndComputePass, RcEndDebugMarker])"
    using refines [of no_normaliser ?env nothing_fails] by (simp add: small_encoder_data_simps map_err_def)
  obtain cb'' calls where "encode_buffer ending_fails ?env no_normaliser (small_encoder_data ?env) = Some (Inl (pass_device_error DeviceLost), cb'')"
    "calls = ie_calls (drop_encoder (cb_encoder cb''))" "length calls = 7"
    using ending_fails_calls [of buffers textures status] by (auto simp: encoded_calls_def)
  then show "\<exists>calls. encoded_calls ending_fails ?env = Some (Inl (pass_device_error DeviceLost), calls)
          \<and> length calls = 7 \<and> raw_run ending_fails 0 calls (False, 0) = Some (False, 0)"
    using refines [of no_normaliser ?env ending_fails] by (simp add: encoded_calls_def)
qed

end
