(* ===== verification/Spec2Isabelle.thy ===== *)
theory Spec2Isabelle
  imports TextureInit FormatNames CopyLayout RangedStates Registry TextureMerge Lifetime CopyBounds EncoderLife
begin

text \<open>
  A model of the state keeping and validation core of wgpu (the Rust implementation of WebGPU),
  translated from the sources under \<open>src/\<close>, with the properties that make it correct.

  \<^bold>\<open>How the program is put together.\<close> An application calls the crate \<open>wgpu\<close>, which forwards to
  \<open>wgpu-core\<close>. \<open>wgpu-core\<close> names every resource by an identifier (\<open>id.rs\<close>, \<open>identity.rs\<close>),
  keeps the resources in a registry of slots (\<open>storage.rs\<close>, \<open>registry.rs\<close>), creates resources on a
  device (\<open>device/resource.rs\<close>) after checking each call against the formats, extents, features and
  limits of \<open>wgpu-types\<close>, records commands (\<open>command/\<close>) while it tracks how each resource is used
  (\<open>track/\<close>) and which parts of its memory were ever written (\<open>init_tracker/\<close>,
  \<open>command/memory_init.rs\<close>), and submits them on a queue (\<open>device/queue.rs\<close>, \<open>device/life.rs\<close>) to a
  backend of \<open>wgpu-hal\<close>.

  \<^bold>\<open>Data.\<close>
  \<^item> \<open>Wgpu_Prelude\<close>: machine integers, ranges, the operations of the standard library on
    vectors, results and checked arithmetic, and their lemmas.
  \<^item> \<open>Features\<close>, \<open>Formats\<close>, \<open>FormatNames\<close>: \<open>features.rs\<close> and \<open>texture/format.rs\<close> of \<open>wgpu-types\<close>:
    every table of the texture formats, and their names, parsed and printed.
  \<^item> \<open>Extents\<close>, \<open>CopyLayout\<close>: \<open>origin_extent.rs\<close>, \<open>texture.rs\<close>, \<open>transfers.rs\<close>: mip chains, physical
    sizes, footprints, and the layout of a copy between a buffer and a texture with its exact arithmetic.
  \<^item> \<open>Limits\<close>: \<open>limits.rs\<close>; the checks are a lattice of limits. \<open>Conv\<close>: \<open>wgpu-core/src/conv.rs\<close>, the flags
    of the backend and what is mapped to them.

  \<^bold>\<open>Identifiers and memory.\<close>
  \<^item> \<open>Identity\<close>, \<open>Registry\<close>: \<open>id.rs\<close>, \<open>identity.rs\<close>, \<open>storage.rs\<close>, \<open>registry.rs\<close>; locales for the
    allocator and the keyed store, a step relation for the interleaving of the two steps of a
    registration and the two of a removal, and the refinement of a map.
  \<^item> \<open>InitTracker\<close>: \<open>init_tracker/\<close>, the ranges of uninitialised memory. The locales \<open>range_tracker\<close>
    and \<open>draining_tracker\<close> state what clients rely on and are interpreted on the tracker.
  \<^item> \<open>MemoryInit\<close>: \<open>command/memory_init.rs\<close>, a client of that interface: the actions a command buffer
    records and the clears of buffers a submission inserts refine set specifications. \<open>TextureInit\<close>, above
    \<open>Encoding\<close>: the same for the textures, through \<open>clear_texture\<close>.

  \<^bold>\<open>Usage tracking.\<close>
  \<^item> \<open>Tracking\<close>: \<open>track/mod.rs\<close>, \<open>track/metadata.rs\<close>. \<open>BufferTracker\<close>: \<open>track/buffer.rs\<close>; a scope reports a
    conflict exactly when an exclusive use is mixed, and recording followed by submitting equals
    tracking each use on the device.
  \<^item> \<open>RangedStates\<close>: \<open>track/range.rs\<close>. \<open>TextureStates\<close>, \<open>TextureUpdate\<close>, \<open>TextureTracker\<close>, \<open>TextureMerge\<close>:
    \<open>track/texture.rs\<close>, the same two results for every mip level and layer of a texture.

  \<^bold>\<open>Resources.\<close>
  \<^item> \<open>Devices\<close>: what every call checks; the record \<open>device\<close> is fixed during a run, and the answers of
    the backend are its field \<open>dev_hal\<close>, a parameter.
  \<^item> \<open>Buffers\<close>, \<open>Textures\<close>: creation, mapping, views, with their well-formedness. \<open>Lifetime\<close>:
    \<open>device/life.rs\<close>, \<open>device/queue.rs\<close>: submissions, maintenance and callbacks as runs of steps.
  \<^item> \<open>Bindings\<close>, \<open>BindGroups\<close>: \<open>binding_model.rs\<close> and its part of \<open>device/resource.rs\<close>: layouts with
    their limits, bind groups, dynamic offsets. \<open>Queries\<close>: \<open>command/query.rs\<close>.

  \<^bold>\<open>Commands.\<close>
  \<^item> \<open>Encoding\<close>: the state a command is encoded into, as an error and state monad, and the clears of
    \<open>command/clear.rs\<close>. \<open>Copies\<close>, \<open>CopyBounds\<close>: \<open>command/transfer.rs\<close>; every command sent to the
    backend stays inside its resources, and inside the plane it addresses.
  \<^item> \<open>Binder\<close>: \<open>command/bind.rs\<close>. \<open>IndirectValidation\<close>: \<open>indirect_validation/\<close> with its shader.
  \<^item> \<open>ComputePass\<close>: \<open>command/compute.rs\<close>, \<open>command/pass.rs\<close>. \<open>PassRefinement\<close>: the locale \<open>hal_bindings\<close> is
    the documented contract of \<open>set_bind_group\<close> in \<open>wgpu-hal/src/lib.rs\<close>; the lemmas in it are a simulation
    between the commands of the user and those of the backend, and it is interpreted on a backend
    that keeps no more than the contract.
  \<^item> \<open>Encoders\<close>: \<open>command/mod.rs\<close>, \<open>command/transition_resources.rs\<close>, the entry points of compute passes in
    \<open>command/compute.rs\<close>: the status of an encoder, the raw encoder with its buffers, and the encoding of the
    commands. \<open>EncoderLife\<close>: the calls keep the protocol of \<open>wgpu-hal/src/lib.rs\<close>, and the buffers hold the
    commands of the program in order.

  \<^bold>\<open>Bounds.\<close> Where a property needs a bound or an exclusion it is a hypothesis, stated in its text: textures at
  most \<open>2 ^ 14\<close> texels wide and high and a copy pitch of at most 256 for copies and clears (a wider compressed
  texture fails the assertion on the zero buffer); fewer than \<open>2 ^ 32 - 1\<close> identifiers of a registry, whose epochs
  wrap around, and fewer than \<open>2 ^ 64\<close> submissions; fewer than \<open>2 ^ 28\<close> array layers for the index of a clear view; well
  formed trackers of memory, which a discard behind a gap breaks. Where the code accepts more than the
  property covers, a lemma next to it shows what then goes wrong: a layout with a gap loses a group, a
  dynamic binding array is not counted, a copy into a subsampled plane or between dimensions leaves the
  texture, a copy between textures may need more barriers than its vector holds, and a backend that fails
  to begin recording pending writes makes the queue panic.

  \<^bold>\<open>Conventions.\<close> A panic is \<open>None\<close>, a \<open>Result\<close> a sum with the error on the left. A fixed width
  integer is a word, and arithmetic the source does not check wraps; where the source checks,
  so does the model. Reference counting and locks are not represented: a resource is named
  by its tracker index, and an operation under a lock is one step. Loops are structural
  recursions or have a measure; no fuel is used. A hash map whose order matters nowhere is an
  association list in insertion order or a map; where its order is visible, the order is an argument.
  The crate \<open>bitflags\<close> is read as its documentation says, a word of bits. The order in which the hash
  map of a tracker or of resets is drained is not fixed by the source.

  \<^bold>\<open>Not modelled.\<close> The front ends and writers of the shader compiler \<open>naga\<close>, whose correctness is
  about the semantics of other languages; the backends of \<open>wgpu-hal\<close>, calls of foreign interfaces; the
  bindings in \<open>wgpu\<close> and \<open>deno_webgpu\<close>, the test runners and the tools, which are glue; of \<open>wgpu-core\<close>
  render passes and bundles beyond what they share with compute passes, the interfaces of shaders,
  presentation, ray tracing and traces. The manifest lists each with the reason.
\<close>

end
